(* ===== verification/Kfd_Prelude.thy ===== *)
theory Kfd_Prelude
  imports Main "HOL-Library.Word"
begin

text \<open>
  Shared vocabulary of the development: return codes of the driver, machine integers,
  kernel bitmaps (\<^verbatim>\<open>unsigned long *\<close> bitmaps handled by \<^verbatim>\<open>linux/bitmap.h\<close>) and the
  generic lemmas on them that the component theories rely on.

  A driver function that returns \<^verbatim>\<open>0\<close> or \<^verbatim>\<open>-Exxx\<close> and changes its arguments through
  pointers is a HOL function that returns a \<open>retval\<close> together with the new values.
  A bitmap of \<open>n\<close> bits is a \<open>bool list\<close> of length \<open>n\<close>.
\<close>

section \<open>Types shared by the components\<close>

type_synonym u8 = "8 word"
type_synonym u16 = "16 word"
type_synonym u32 = "32 word"
type_synonym u64 = "64 word"
type_synonym bitmap = "bool list"

text \<open>
  The return codes used by the modelled code. \<open>RET_1\<close> is the plain value 1 that
  \<^verbatim>\<open>unregister_process\<close> returns for a process it does not know. \<open>OOPS\<close> is no error code: it
  marks an execution that would dereference a null pointer or index outside an array.
\<close>

datatype errno =
    EPERM | EIO | ENOMEM | EFAULT | EBUSY | ENODEV | EINVAL | ENOSPC | ETIME
  | EOPNOTSUPP | ERESTARTSYS | EINTR | ENOENT | EAGAIN | ETIMEDOUT | ESRCH | ENODATA | EACCES | EALREADY | EBADF | RET_1 | OOPS

datatype retval = OK | Err errno

text \<open>Constants of \<^verbatim>\<open>kfd/kfd_priv.h\<close> and \<^verbatim>\<open>kfd/kfd_device_queue_manager.h\<close>; the page size is 4 KiB.\<close>

abbreviation (input) PAGE_SIZE :: nat where "PAGE_SIZE \<equiv> 4096"
abbreviation (input) KFD_MAX_NUM_OF_QUEUES_PER_PROCESS :: nat where
  "KFD_MAX_NUM_OF_QUEUES_PER_PROCESS \<equiv> 1024"
abbreviation (input) KFD_MAX_SDMA_QUEUES :: nat where "KFD_MAX_SDMA_QUEUES \<equiv> 128"
abbreviation (input) KFD_QUEUE_DOORBELL_MIRROR_OFFSET :: nat where
  "KFD_QUEUE_DOORBELL_MIRROR_OFFSET \<equiv> 512"
abbreviation (input) KFD_KERNEL_QUEUE_SIZE :: nat where "KFD_KERNEL_QUEUE_SIZE \<equiv> 2048"
abbreviation (input) VMID_NUM :: nat where "VMID_NUM \<equiv> 16"

named_theorems bitmap_simps \<open>rewrite rules for the bitmap operations\<close>
named_theorems kfd_defs \<open>small definitions that proofs unfold freely\<close>

section \<open>Kernel bitmaps\<close>

definition test_bit :: "nat \<Rightarrow> bitmap \<Rightarrow> bool" where
  "test_bit i bm \<longleftrightarrow> i < length bm \<and> bm ! i"

definition set_bit_at :: "nat \<Rightarrow> bitmap \<Rightarrow> bitmap" where
  "set_bit_at i bm = bm[i := True]"

definition clear_bit_at :: "nat \<Rightarrow> bitmap \<Rightarrow> bitmap" where
  "clear_bit_at i bm = bm[i := False]"

text \<open>
  \<^verbatim>\<open>find_next_bit(bm, size, off)\<close> and \<^verbatim>\<open>find_next_zero_bit(bm, size, off)\<close>: the first
  position at or after \<open>off\<close> and below \<open>sz\<close> with the wanted value, \<open>sz\<close> if there is none.
\<close>

definition find_next :: "(nat \<Rightarrow> bool) \<Rightarrow> nat \<Rightarrow> nat \<Rightarrow> nat" where
  "find_next P sz off =
     (case List.find P [off..<sz] of Some i \<Rightarrow> i | None \<Rightarrow> sz)"

definition find_next_bit :: "bitmap \<Rightarrow> nat \<Rightarrow> nat \<Rightarrow> nat" where
  "find_next_bit bm = find_next (\<lambda>i. test_bit i bm)"

definition find_next_zero_bit :: "bitmap \<Rightarrow> nat \<Rightarrow> nat \<Rightarrow> nat" where
  "find_next_zero_bit bm = find_next (\<lambda>i. \<not> test_bit i bm)"

definition find_first_bit :: "bitmap \<Rightarrow> nat \<Rightarrow> nat" where
  "find_first_bit bm sz = find_next_bit bm sz 0"

definition find_first_zero_bit :: "bitmap \<Rightarrow> nat \<Rightarrow> nat" where
  "find_first_zero_bit bm sz = find_next_zero_bit bm sz 0"

text \<open>\<^verbatim>\<open>bitmap_set(bm, start, n)\<close> and \<^verbatim>\<open>bitmap_clear(bm, start, n)\<close>.\<close>

definition bitmap_fill :: "bool \<Rightarrow> nat \<Rightarrow> nat \<Rightarrow> bitmap \<Rightarrow> bitmap" where
  "bitmap_fill v start n bm =
     map (\<lambda>i. if start \<le> i \<and> i < start + n then v else bm ! i) [0..<length bm]"

definition bitmap_set :: "nat \<Rightarrow> nat \<Rightarrow> bitmap \<Rightarrow> bitmap" where
  "bitmap_set = bitmap_fill True"

definition bitmap_clear :: "nat \<Rightarrow> nat \<Rightarrow> bitmap \<Rightarrow> bitmap" where
  "bitmap_clear = bitmap_fill False"

definition bitmap_zalloc :: "nat \<Rightarrow> bitmap" where
  "bitmap_zalloc n = replicate n False"

definition bitmap_empty :: "bitmap \<Rightarrow> bool" where
  "bitmap_empty bm \<longleftrightarrow> True \<notin> set bm"

definition bitmap_weight :: "bitmap \<Rightarrow> nat" where
  "bitmap_weight bm = length (filter id bm)"

definition bitmap_andnot :: "bitmap \<Rightarrow> bitmap \<Rightarrow> bitmap" where
  "bitmap_andnot a b = map2 (\<lambda>x y. x \<and> \<not> y) a b"

text \<open>The set of positions of a bitmap that are set.\<close>

definition bits_of :: "bitmap \<Rightarrow> nat set" where
  "bits_of bm = {i. test_bit i bm}"

subsection \<open>Laws of the bitmap operations\<close>

lemma length_set_bit_at [simp]: "length (set_bit_at i bm) = length bm"
  by (simp add: set_bit_at_def)

lemma length_clear_bit_at [simp]: "length (clear_bit_at i bm) = length bm"
  by (simp add: clear_bit_at_def)

lemma length_bitmap_fill [simp]: "length (bitmap_fill v s n bm) = length bm"
  by (simp add: bitmap_fill_def)

lemma length_bitmap_set [simp]: "length (bitmap_set s n bm) = length bm"
  by (simp add: bitmap_set_def)

lemma length_bitmap_clear [simp]: "length (bitmap_clear s n bm) = length bm"
  by (simp add: bitmap_clear_def)

lemma length_bitmap_zalloc [simp]: "length (bitmap_zalloc n) = n"
  by (simp add: bitmap_zalloc_def)

lemma length_bitmap_andnot [simp]: "length (bitmap_andnot a b) = min (length a) (length b)"
  by (simp add: bitmap_andnot_def)

lemma test_bit_length: "test_bit i bm \<Longrightarrow> i < length bm"
  by (simp add: test_bit_def)

lemma test_set_bit_at [bitmap_simps]:
  "test_bit j (set_bit_at i bm) \<longleftrightarrow> test_bit j bm \<or> (j = i \<and> i < length bm)"
  by (cases "i < length bm")
    (auto simp: test_bit_def set_bit_at_def nth_list_update list_update_beyond)

lemma test_clear_bit_at [bitmap_simps]:
  "test_bit j (clear_bit_at i bm) \<longleftrightarrow> test_bit j bm \<and> j \<noteq> i"
  by (cases "i < length bm")
    (auto simp: test_bit_def clear_bit_at_def nth_list_update list_update_beyond)

lemma test_bitmap_fill:
  "test_bit j (bitmap_fill v s n bm) \<longleftrightarrow>
     j < length bm \<and> (if s \<le> j \<and> j < s + n then v else test_bit j bm)"
  by (auto simp: test_bit_def bitmap_fill_def)

lemma test_bitmap_set [bitmap_simps]:
  "test_bit j (bitmap_set s n bm) \<longleftrightarrow>
     test_bit j bm \<or> (j < length bm \<and> s \<le> j \<and> j < s + n)"
  using test_bit_length [of j bm] by (auto simp: bitmap_set_def test_bitmap_fill)

lemma test_bitmap_clear [bitmap_simps]:
  "test_bit j (bitmap_clear s n bm) \<longleftrightarrow> test_bit j bm \<and> \<not> (s \<le> j \<and> j < s + n)"
  using test_bit_length [of j bm] by (auto simp: bitmap_clear_def test_bitmap_fill)

lemma test_bitmap_zalloc [bitmap_simps]: "\<not> test_bit j (bitmap_zalloc n)"
  by (simp add: test_bit_def bitmap_zalloc_def)

lemma test_bitmap_andnot [bitmap_simps]:
  "length a = length b \<Longrightarrow> test_bit j (bitmap_andnot a b) \<longleftrightarrow> test_bit j a \<and> \<not> test_bit j b"
  by (auto simp: test_bit_def bitmap_andnot_def)

lemma bitmap_empty_iff [bitmap_simps]: "bitmap_empty bm \<longleftrightarrow> (\<forall>i. \<not> test_bit i bm)"
  by (auto simp: bitmap_empty_def test_bit_def in_set_conv_nth)

lemma bitmap_eqI:
  assumes "length a = length b" and "\<And>i. test_bit i a \<longleftrightarrow> test_bit i b"
  shows "a = b"
proof (rule nth_equalityI)
  show "length a = length b" by fact
  fix i assume "i < length a"
  with assms show "a ! i = b ! i" by (auto simp: test_bit_def)
qed

lemma mem_bits_of [bitmap_simps]: "i \<in> bits_of bm \<longleftrightarrow> test_bit i bm"
  by (simp add: bits_of_def)

lemma bits_of_subset: "bits_of bm \<subseteq> {..<length bm}"
  by (auto simp: bits_of_def test_bit_def)

lemma finite_bits_of [simp]: "finite (bits_of bm)"
  using bits_of_subset finite_subset by blast

lemma bits_of_set_bit_at: "i < length bm \<Longrightarrow> bits_of (set_bit_at i bm) = insert i (bits_of bm)"
  by (auto simp: bitmap_simps)

lemma bits_of_clear_bit_at: "bits_of (clear_bit_at i bm) = bits_of bm - {i}"
  by (auto simp: bitmap_simps)

lemma clear_set_bit_at: "\<not> test_bit i bm \<Longrightarrow> clear_bit_at i (set_bit_at i bm) = bm"
  by (rule bitmap_eqI) (auto simp: bitmap_simps)

lemma set_clear_bit_at: "test_bit i bm \<Longrightarrow> set_bit_at i (clear_bit_at i bm) = bm"
  by (rule bitmap_eqI) (auto simp: bitmap_simps test_bit_length)

subsection \<open>Searching\<close>

lemma find_next_cases:
  assumes "off \<le> sz"
  shows "(find_next P sz off = sz \<and> (\<forall>i. off \<le> i \<longrightarrow> i < sz \<longrightarrow> \<not> P i)) \<or>
         (off \<le> find_next P sz off \<and> find_next P sz off < sz \<and>
          P (find_next P sz off) \<and> (\<forall>i. off \<le> i \<longrightarrow> i < find_next P sz off \<longrightarrow> \<not> P i))"
proof (cases "List.find P [off..<sz]")
  case None
  then have "\<forall>i\<in>set [off..<sz]. \<not> P i" by (simp only: find_None_iff) blast
  moreover have "find_next P sz off = sz" by (simp add: find_next_def None)
  ultimately show ?thesis by simp
next
  case (Some k)
  then obtain j where j: "j < sz - off" "P (off + j)" "k = off + j"
      "\<forall>i<j. \<not> P ([off..<sz] ! i)"
    by (auto simp: find_Some_iff)
  have "\<not> P i" if "off \<le> i" "i < k" for i
  proof -
    have "i - off < j" "[off..<sz] ! (i - off) = i" using that j by auto
    with j(4) show ?thesis by metis
  qed
  with Some j show ?thesis by (auto simp: find_next_def)
qed

lemma find_next_le: "off \<le> sz \<Longrightarrow> find_next P sz off \<le> sz"
  using find_next_cases [of off sz P] by auto

lemma find_next_ge: "off \<le> sz \<Longrightarrow> off \<le> find_next P sz off"
  using find_next_cases [of off sz P] by auto

lemma find_next_hit: "find_next P sz off < sz \<Longrightarrow> P (find_next P sz off)"
  by (cases "off \<le> sz") (use find_next_cases [of off sz P] in \<open>auto simp: find_next_def\<close>)

lemma find_next_skips:
  "off \<le> i \<Longrightarrow> i < find_next P sz off \<Longrightarrow> i < sz \<Longrightarrow> \<not> P i"
  using find_next_cases [of off sz P] by (cases "off \<le> sz") auto

lemma find_next_beyond [simp]: "sz \<le> off \<Longrightarrow> find_next P sz off = sz"
  by (simp add: find_next_def)

lemma find_next_eq_off: "off < sz \<Longrightarrow> find_next P sz off = off \<longleftrightarrow> P off"
  using find_next_cases [of off sz P] by (auto simp: find_next_def)

lemma find_next_bounded: "find_next P sz off \<le> sz"
  by (cases "off \<le> sz") (auto simp: find_next_le)

lemma find_first_bit_least:
  assumes "find_first_bit bm sz < sz"
  shows "test_bit (find_first_bit bm sz) bm"
    and "i < find_first_bit bm sz \<Longrightarrow> \<not> test_bit i bm"
  using assms find_next_hit [of "\<lambda>i. test_bit i bm" sz 0]
    find_next_skips [of 0 i "\<lambda>i. test_bit i bm" sz]
  by (auto simp: find_first_bit_def find_next_bit_def)

lemma find_first_bit_none:
  "find_first_bit bm sz = sz \<Longrightarrow> i < sz \<Longrightarrow> \<not> test_bit i bm"
  using find_next_skips [of 0 i "\<lambda>i. test_bit i bm" sz]
  by (auto simp: find_first_bit_def find_next_bit_def)

lemma find_first_zero_bit_least:
  assumes "find_first_zero_bit bm sz < sz"
  shows "\<not> test_bit (find_first_zero_bit bm sz) bm"
    and "i < find_first_zero_bit bm sz \<Longrightarrow> test_bit i bm"
  using assms find_next_hit [of "\<lambda>i. \<not> test_bit i bm" sz 0]
    find_next_skips [of 0 i "\<lambda>i. \<not> test_bit i bm" sz]
  by (auto simp: find_first_zero_bit_def find_next_zero_bit_def)

lemma find_first_zero_bit_none:
  "find_first_zero_bit bm sz = sz \<Longrightarrow> i < sz \<Longrightarrow> test_bit i bm"
  using find_next_skips [of 0 i "\<lambda>i. \<not> test_bit i bm" sz]
  by (auto simp: find_first_zero_bit_def find_next_zero_bit_def)

lemma find_first_zero_bit_le: "find_first_zero_bit bm sz \<le> sz"
  by (simp add: find_first_zero_bit_def find_next_zero_bit_def find_next_bounded)

lemma find_first_bit_le: "find_first_bit bm sz \<le> sz"
  by (simp add: find_first_bit_def find_next_bit_def find_next_bounded)

section \<open>Arithmetic\<close>

lemma unat_lt2p: "unat (x :: 'a::len word) < 2 ^ LENGTH('a)"
  by (rule unsigned_less)

lemma unat_of_nat_small: "n < 2 ^ LENGTH('a) \<Longrightarrow> unat (of_nat n :: 'a::len word) = n"
  by (simp add: unsigned_of_nat take_bit_nat_eq_self)

lemma ucast_of_nat_small:
  "n < 2 ^ LENGTH('a) \<Longrightarrow> (ucast (of_nat n :: 'a::len word) :: 'b::len word) = of_nat n"
  by (simp add: unsigned_of_nat take_bit_nat_eq_self)

lemma ucast_down_add: "(ucast (x + y :: u64) :: u32) = ucast x + ucast y"
proof transfer
  fix x y :: int
  have "take_bit 32 (take_bit 64 x + take_bit 64 y) =
      take_bit 32 (take_bit 32 (take_bit 64 x) + take_bit 32 (take_bit 64 y))"
    by (simp only: take_bit_add)
  then show "take_bit LENGTH(32) (take_bit LENGTH(64) (x + y)) =
      take_bit LENGTH(32) (take_bit LENGTH(64) x + take_bit LENGTH(64) y)"
    by (simp add: take_bit_add)
qed

lemma unat_ucast_u32_u64 [simp]: "unat (ucast (x :: u32) :: u64) = unat x"
proof -
  have "unat x < 2 ^ 64" using unat_lt2p [of x] by simp
  then show ?thesis by (simp add: unsigned_ucast_eq take_bit_nat_eq_self)
qed

lemma ucast_down_up: "(ucast (ucast (x :: u32) :: u64) :: u32) = x"
  by transfer simp

text \<open>Rounding division as used for chunk counts: \<open>k\<close> chunks of \<open>c\<close> bytes hold \<open>n\<close> bytes.\<close>

definition ceil_div :: "nat \<Rightarrow> nat \<Rightarrow> nat" where
  "ceil_div n c = (n + c - 1) div c"

lemma ceil_div_one: "0 < n \<Longrightarrow> n \<le> c \<Longrightarrow> ceil_div n c = 1"
  unfolding ceil_div_def by (rule div_nat_eqI) auto

lemma ceil_div_step: "0 < c \<Longrightarrow> c < n \<Longrightarrow> ceil_div n c = Suc (ceil_div (n - c) c)"
proof -
  assume c: "0 < c" and "c < n"
  then have "n + c - 1 = (n - 1) + c" and "n - c + c - 1 = n - 1" by simp_all
  then have "ceil_div n c = ((n - 1) + c) div c" and "ceil_div (n - c) c = (n - 1) div c"
    by (simp_all only: ceil_div_def)
  with c show ?thesis by (simp add: div_add_self2)
qed

lemma ceil_div_enough: "0 < c \<Longrightarrow> n \<le> ceil_div n c * c"
proof -
  assume c: "0 < c"
  have "n + c - 1 < c + (n + c - 1) div c * c"
    using c dividend_less_div_times by blast
  with c show ?thesis by (simp add: ceil_div_def)
qed

end
