(* ===== verification/Gtt_Sa.thy ===== *)
theory Gtt_Sa
  imports Kfd_Prelude
begin

text \<open>
  The GTT sub-allocator of \<^verbatim>\<open>kfd/kfd_device.c\<close>: one GTT buffer is cut into chunks of equal
  size, a bitmap records which chunks are in use, and \<^verbatim>\<open>kfd_gtt_sa_allocate\<close> searches the
  first run of free chunks that is long enough. Kernel queues, MQDs and runlist buffers
  live in memory taken from it.

  The search is shown to be sound (the run was free and has exactly the rounded-up number
  of chunks), complete (it fails only if no such run exists) and first-fit; the abstract
  view of an allocator is the locale \<open>mem_allocator\<close> below.
\<close>

section \<open>State\<close>

record kfd_mem_obj =
  range_start :: nat
  range_end :: nat
  gpu_addr :: u64
  cpu_ptr :: u64

record kfd_gtt =
  gtt_start_gpu_addr :: u64
  gtt_start_cpu_ptr :: u64
  gtt_sa_bitmap :: bitmap
  gtt_sa_chunk_size :: nat
  gtt_sa_num_of_chunks :: nat

section \<open>Operations\<close>

text \<open>
  \<^verbatim>\<open>kfd_gtt_sa_init\<close>; the flag \<open>zalloc_ok\<close> is the outcome of \<^verbatim>\<open>bitmap_zalloc\<close>. The chunk
  geometry is written before the bitmap is allocated, so it is changed on that error path too.
\<close>

definition kfd_gtt_sa_init :: "bool \<Rightarrow> kfd_gtt \<Rightarrow> u32 \<Rightarrow> u32 \<Rightarrow> retval \<times> kfd_gtt" where
  "kfd_gtt_sa_init zalloc_ok kfd buf_size chunk_size =
     (if buf_size < chunk_size then (Err EINVAL, kfd)
      else if buf_size = 0 then (Err EINVAL, kfd)
      else if chunk_size = 0 then (Err EINVAL, kfd)
      else let n = unat (buf_size div chunk_size);
               kfd1 = kfd\<lparr>gtt_sa_chunk_size := unat chunk_size, gtt_sa_num_of_chunks := n\<rparr>
           in if \<not> zalloc_ok then (Err ENOMEM, kfd1)
              else (OK, kfd1\<lparr>gtt_sa_bitmap := bitmap_zalloc n\<rparr>))"

text \<open>
  The address computations multiply two \<^verbatim>\<open>unsigned int\<close>s, so the product wraps at 32 bits
  before it is added to the 64-bit base.
\<close>

definition kfd_gtt_sa_calc_gpu_addr :: "u64 \<Rightarrow> nat \<Rightarrow> nat \<Rightarrow> u64" where
  "kfd_gtt_sa_calc_gpu_addr start_addr bit_num chunk_size =
     start_addr + ucast ((of_nat bit_num :: u32) * of_nat chunk_size)"

definition kfd_gtt_sa_calc_cpu_addr :: "u64 \<Rightarrow> nat \<Rightarrow> nat \<Rightarrow> u64" where
  "kfd_gtt_sa_calc_cpu_addr start_addr bit_num chunk_size =
     start_addr + ucast ((of_nat bit_num :: u32) * of_nat chunk_size)"

text \<open>
  The inner \<^verbatim>\<open>do ... while\<close> loop: \<open>Restart s\<close> is the jump back to the search with
  \<open>start_search = s\<close>, \<open>No_Free_Chunk\<close> the jump to the error exit, \<open>Run_End e\<close> the regular exit
  with \<open>range_end = e\<close>. \<open>found\<close> never exceeds the number of chunks and \<open>cur_size\<close> is only
  reduced when it is larger than a chunk, so no \<^verbatim>\<open>unsigned int\<close> wraps here.
\<close>

datatype run_result = Restart nat | No_Free_Chunk | Run_End nat

function gtt_sa_extend :: "bitmap \<Rightarrow> nat \<Rightarrow> nat \<Rightarrow> nat \<Rightarrow> nat \<Rightarrow> run_result" where
  "gtt_sa_extend bm n chunk found cur_size =
     (let found' = Suc found; range_end' = find_next_zero_bit bm n found' in
      if range_end' \<noteq> found' then Restart found'
      else if found' = n then No_Free_Chunk
      else let cur' = (if cur_size \<le> chunk then 0 else cur_size - chunk) in
           if 0 < cur' then gtt_sa_extend bm n chunk found' cur' else Run_End range_end')"
  by pat_completeness auto
termination
proof (relation "measure (\<lambda>(bm, n, chunk, found, cur_size). n - found)", goal_cases)
  case (2 bm n chunk found cur_size found' range_end' cur')
  then have "find_next_zero_bit bm n (Suc found) = Suc found" "Suc found \<noteq> n" by auto
  then have "Suc found < n"
    using find_next_bounded [of _ n "Suc found"] by (metis find_next_zero_bit_def le_neq_implies_less)
  with 2 show ?case by simp
qed simp

declare gtt_sa_extend.simps [simp del]

lemma gtt_sa_extend_restart:
  "gtt_sa_extend bm n chunk found cur = Restart s \<Longrightarrow> found < s"
proof (induction bm n chunk found cur rule: gtt_sa_extend.induct)
  case (1 bm n chunk found cur)
  from 1(2) show ?case
    by (subst (asm) gtt_sa_extend.simps)
      (use 1(1) in \<open>force simp: Let_def split: if_splits\<close>)
qed

text \<open>The outer loop, from the label \<^verbatim>\<open>kfd_gtt_restart_search\<close>.\<close>

function gtt_sa_search :: "bitmap \<Rightarrow> nat \<Rightarrow> nat \<Rightarrow> nat \<Rightarrow> nat \<Rightarrow> (nat \<times> nat) option" where
  "gtt_sa_search bm n chunk sz start_search =
     (let found = find_next_zero_bit bm n start_search in
      if found = n then None
      else if sz \<le> chunk then Some (found, found)
      else case gtt_sa_extend bm n chunk found (sz - chunk) of
             Restart s \<Rightarrow> gtt_sa_search bm n chunk sz s
           | No_Free_Chunk \<Rightarrow> None
           | Run_End e \<Rightarrow> Some (found, e))"
  by pat_completeness auto
termination
proof (relation "measure (\<lambda>(bm, n, chunk, sz, start). n - start)", goal_cases)
  case (2 bm n chunk sz start found s)
  then have s: "found < s" and "found \<noteq> n" by (auto dest: gtt_sa_extend_restart)
  then have "found < n"
    using 2(1) find_next_bounded [of _ n start]
    by (metis find_next_zero_bit_def le_neq_implies_less)
  moreover have "start < n"
    using \<open>found < n\<close> 2(1) by (cases "start < n") (auto simp: find_next_zero_bit_def)
  moreover have "start \<le> found"
    using 2(1) \<open>start < n\<close> by (simp add: find_next_zero_bit_def find_next_ge)
  ultimately show ?case using s by simp
qed simp

declare gtt_sa_search.simps [simp del]

text \<open>
  \<^verbatim>\<open>kfd_gtt_sa_allocate\<close>; \<open>kzalloc_ok\<close> is the outcome of the \<^verbatim>\<open>kzalloc\<close> of the descriptor.
  The size check multiplies two \<^verbatim>\<open>unsigned int\<close>s.
\<close>

definition kfd_gtt_sa_allocate :: "bool \<Rightarrow> kfd_gtt \<Rightarrow> u32 \<Rightarrow> (errno + kfd_mem_obj) \<times> kfd_gtt" where
  "kfd_gtt_sa_allocate kzalloc_ok kfd sz =
     (if sz = 0 then (Inl EINVAL, kfd)
      else if sz > of_nat (gtt_sa_num_of_chunks kfd) * of_nat (gtt_sa_chunk_size kfd)
           then (Inl ENOMEM, kfd)
      else if \<not> kzalloc_ok then (Inl ENOMEM, kfd)
      else case gtt_sa_search (gtt_sa_bitmap kfd) (gtt_sa_num_of_chunks kfd)
                  (gtt_sa_chunk_size kfd) (unat sz) 0 of
             None \<Rightarrow> (Inl ENOMEM, kfd)
           | Some (s, e) \<Rightarrow>
               (Inr \<lparr>range_start = s, range_end = e,
                     gpu_addr = kfd_gtt_sa_calc_gpu_addr (gtt_start_gpu_addr kfd) s
                                  (gtt_sa_chunk_size kfd),
                     cpu_ptr = kfd_gtt_sa_calc_cpu_addr (gtt_start_cpu_ptr kfd) s
                                  (gtt_sa_chunk_size kfd)\<rparr>,
                kfd\<lparr>gtt_sa_bitmap :=
                      (if unat sz \<le> gtt_sa_chunk_size kfd
                       then set_bit_at s (gtt_sa_bitmap kfd)
                       else bitmap_set s (e - s + 1) (gtt_sa_bitmap kfd))\<rparr>))"

text \<open>\<^verbatim>\<open>kfd_gtt_sa_free\<close>; \<open>None\<close> is the null object, which is ignored as by \<^verbatim>\<open>kfree\<close>.\<close>

definition kfd_gtt_sa_free :: "kfd_gtt \<Rightarrow> kfd_mem_obj option \<Rightarrow> kfd_gtt" where
  "kfd_gtt_sa_free kfd mem_obj =
     (case mem_obj of
        None \<Rightarrow> kfd
      | Some m \<Rightarrow> kfd\<lparr>gtt_sa_bitmap :=
            bitmap_clear (range_start m) (range_end m - range_start m + 1) (gtt_sa_bitmap kfd)\<rparr>)"

section \<open>Correctness of the search\<close>

text \<open>A run of \<open>k\<close> free chunks that starts at \<open>s\<close> and ends before \<open>n\<close>.\<close>

definition free_run :: "bitmap \<Rightarrow> nat \<Rightarrow> nat \<Rightarrow> nat \<Rightarrow> bool" where
  "free_run bm n s k \<longleftrightarrow> s + k \<le> n \<and> (\<forall>i. s \<le> i \<longrightarrow> i < s + k \<longrightarrow> \<not> test_bit i bm)"

lemma find_next_zero_bit_eq_off:
  "off < n \<Longrightarrow> find_next_zero_bit bm n off = off \<longleftrightarrow> \<not> test_bit off bm"
  by (simp add: find_next_zero_bit_def find_next_eq_off)

text \<open>What the inner loop reports about the chunks after \<open>found\<close>.\<close>

definition extend_post :: "bitmap \<Rightarrow> nat \<Rightarrow> nat \<Rightarrow> nat \<Rightarrow> run_result \<Rightarrow> bool" where
  "extend_post bm n found k r \<longleftrightarrow>
     (case r of
        Run_End e \<Rightarrow> e = found + k \<and> e < n \<and> (\<forall>i. found < i \<longrightarrow> i \<le> e \<longrightarrow> \<not> test_bit i bm)
      | Restart s \<Rightarrow> found < s \<and> s \<le> found + k \<and> s < n \<and> test_bit s bm
      | No_Free_Chunk \<Rightarrow> n \<le> found + k)"

lemma run_end_free_run:
  assumes "extend_post bm n f k (Run_End e)" and "\<not> test_bit f bm"
  shows "free_run bm n f (Suc k)" and "e = f + k"
proof -
  from assms have e: "e = f + k" "e < n" "\<forall>i. f < i \<longrightarrow> i \<le> e \<longrightarrow> \<not> test_bit i bm"
    by (simp_all add: extend_post_def)
  then show "e = f + k" by simp
  have "\<not> test_bit i bm" if "f \<le> i" "i < f + Suc k" for i
    using that e assms(2) by (cases "i = f") auto
  with e show "free_run bm n f (Suc k)" by (simp add: free_run_def)
qed

lemma extend_post_step:
  assumes "\<not> test_bit (Suc found) bm" and "extend_post bm n (Suc found) k r"
  shows "extend_post bm n found (Suc k) r"
proof (cases r)
  case (Run_End e)
  with assms have "e = Suc found + k" "e < n" "\<forall>i. Suc found < i \<longrightarrow> i \<le> e \<longrightarrow> \<not> test_bit i bm"
    by (simp_all add: extend_post_def)
  with assms(1) Run_End show ?thesis by (auto simp: extend_post_def) (metis Suc_lessI)
qed (use assms in \<open>auto simp: extend_post_def\<close>)

lemma gtt_sa_extend_post:
  assumes "0 < chunk" "0 < cur" "found < n"
  shows "extend_post bm n found (ceil_div cur chunk) (gtt_sa_extend bm n chunk found cur)"
  using assms
proof (induction bm n chunk found cur rule: gtt_sa_extend.induct)
  case (1 bm n chunk found cur)
  let ?r = "find_next_zero_bit bm n (Suc found)"
  note unf = gtt_sa_extend.simps [of bm n chunk found cur]
  have k: "0 < ceil_div cur chunk"
    using 1 ceil_div_enough [of chunk cur] by (cases "ceil_div cur chunk") auto
  consider (last) "Suc found = n" | (more) "Suc found < n" using 1 by linarith
  then show ?case
  proof cases
    case last
    then show ?thesis
      using k by (simp add: unf Let_def extend_post_def find_next_zero_bit_def)
  next
    case more
    show ?thesis
    proof (cases "test_bit (Suc found) bm")
      case True
      with more have "?r \<noteq> Suc found" by (simp add: find_next_zero_bit_eq_off)
      with True more k show ?thesis by (simp add: unf Let_def extend_post_def)
    next
      case free: False
      with more have r: "?r = Suc found" by (simp add: find_next_zero_bit_eq_off)
      show ?thesis
      proof (cases "cur \<le> chunk")
        case True
        with 1 have "ceil_div cur chunk = 1" by (simp add: ceil_div_one)
        with True r more free show ?thesis
          by (auto simp: unf Let_def extend_post_def less_Suc_eq_le
              dest: le_antisym [OF Suc_leI])
      next
        case False
        with 1 r more
        have "extend_post bm n (Suc found) (ceil_div (cur - chunk) chunk)
                (gtt_sa_extend bm n chunk (Suc found) (cur - chunk))" by simp
        with free False r more 1 show ?thesis
          by (simp add: unf Let_def ceil_div_step extend_post_step)
      qed
    qed
  qed
qed

definition search_post :: "bitmap \<Rightarrow> nat \<Rightarrow> nat \<Rightarrow> nat \<Rightarrow> (nat \<times> nat) option \<Rightarrow> bool" where
  "search_post bm n k start r \<longleftrightarrow>
     (case r of
        None \<Rightarrow> \<forall>s\<ge>start. \<not> free_run bm n s k
      | Some (s, e) \<Rightarrow> start \<le> s \<and> free_run bm n s k \<and> e + 1 = s + k \<and>
                       (\<forall>s'. start \<le> s' \<longrightarrow> s' < s \<longrightarrow> \<not> free_run bm n s' k))"

text \<open>A search from a later position answers for an earlier one when no run starts between.\<close>

lemma search_post_skip:
  assumes "search_post bm n k s r" and "start \<le> s"
    and "\<And>s'. start \<le> s' \<Longrightarrow> s' < s \<Longrightarrow> \<not> free_run bm n s' k"
  shows "search_post bm n k start r"
  using assms by (force simp: search_post_def split: option.splits)

lemma gtt_sa_search_post:
  assumes "0 < chunk" "0 < sz"
  shows "search_post bm n (ceil_div sz chunk) start (gtt_sa_search bm n chunk sz start)"
  using assms
proof (induction bm n chunk sz start rule: gtt_sa_search.induct)
  case (1 bm n chunk sz start)
  let ?f = "find_next_zero_bit bm n start" and ?k = "ceil_div sz chunk"
  note unf = gtt_sa_search.simps [of bm n chunk sz start]
  have k: "0 < ?k" using 1 ceil_div_enough [of chunk sz] by (cases ?k) auto
  have used: "\<not> free_run bm n s' ?k" if "start \<le> s'" "s' < ?f" for s'
  proof
    assume run: "free_run bm n s' ?k"
    with k have "s' < n" "\<not> test_bit s' bm" by (auto simp: free_run_def)
    with that show False
      using find_next_skips [of start s' "\<lambda>i. \<not> test_bit i bm" n]
      by (simp add: find_next_zero_bit_def)
  qed
  show ?case
  proof (cases "?f = n")
    case True
    have "\<not> free_run bm n s' ?k" if "start \<le> s'" for s'
      using used [OF that] k True by (cases "s' < n") (auto simp: free_run_def)
    with True show ?thesis by (simp add: unf Let_def search_post_def)
  next
    case False
    have f: "?f < n" "start \<le> ?f" "\<not> test_bit ?f bm"
    proof -
      show "?f < n"
        using False find_next_bounded [of _ n start]
        by (metis find_next_zero_bit_def le_neq_implies_less)
      then show "start \<le> ?f" "\<not> test_bit ?f bm"
        using find_next_hit [of "\<lambda>i. \<not> test_bit i bm" n start]
        by (cases "start \<le> n"; simp add: find_next_zero_bit_def find_next_ge)+
    qed
    show ?thesis
    proof (cases "sz \<le> chunk")
      case True
      with 1 have "?k = 1" by (simp add: ceil_div_one)
      with True False f used show ?thesis
        by (auto simp: unf Let_def search_post_def free_run_def less_Suc_eq_le)
    next
      case big: False
      let ?x = "gtt_sa_extend bm n chunk ?f (sz - chunk)"
      have kk: "?k = Suc (ceil_div (sz - chunk) chunk)" using big 1 by (simp add: ceil_div_step)
      have post: "extend_post bm n ?f (ceil_div (sz - chunk) chunk) ?x"
        using big 1 f by (simp add: gtt_sa_extend_post)
      show ?thesis
      proof (cases ?x)
        case (Restart s)
        with post kk have s: "?f < s" "s < ?f + ?k" "test_bit s bm"
          by (auto simp: extend_post_def)
        have skip: "\<not> free_run bm n s' ?k" if "start \<le> s'" "s' < s" for s'
          using used [OF that(1)] s that
          by (cases "s' < ?f") (auto simp: free_run_def intro!: exI [of _ s])
        have "search_post bm n ?k s (gtt_sa_search bm n chunk sz s)"
          by (rule 1(1) [OF refl False big Restart 1(2,3)])
        then have "search_post bm n ?k start (gtt_sa_search bm n chunk sz s)"
          by (rule search_post_skip) (use skip s f in simp_all)
        with Restart False big show ?thesis by (simp add: unf Let_def)
      next
        case No_Free_Chunk
        with post kk have "n < ?f + ?k" by (simp add: extend_post_def)
        then have "\<not> free_run bm n s' ?k" if "start \<le> s'" for s'
          using used [OF that] by (cases "s' < ?f") (auto simp: free_run_def)
        with No_Free_Chunk False big show ?thesis by (simp add: unf Let_def search_post_def)
      next
        case (Run_End e)
        with post f have "free_run bm n ?f ?k" "e + 1 = ?f + ?k"
          by (simp_all add: kk run_end_free_run)
        with Run_End False big used f show ?thesis
          by (simp add: unf Let_def search_post_def)
      qed
    qed
  qed
qed

section \<open>Well-formed sub-allocators\<close>

definition gtt_wf :: "kfd_gtt \<Rightarrow> bool" where
  "gtt_wf kfd \<longleftrightarrow>
     length (gtt_sa_bitmap kfd) = gtt_sa_num_of_chunks kfd \<and> 0 < gtt_sa_chunk_size kfd \<and>
     gtt_sa_num_of_chunks kfd * gtt_sa_chunk_size kfd < 2 ^ 32"

definition gtt_used :: "kfd_gtt \<Rightarrow> nat set" where
  "gtt_used kfd = bits_of (gtt_sa_bitmap kfd)"

definition obj_chunks :: "kfd_mem_obj \<Rightarrow> nat set" where
  "obj_chunks m = {range_start m..range_end m}"

text \<open>The part of the state that no operation after initialisation changes.\<close>

definition gtt_geometry :: "kfd_gtt \<Rightarrow> u64 \<times> u64 \<times> nat \<times> nat" where
  "gtt_geometry kfd = (gtt_start_gpu_addr kfd, gtt_start_cpu_ptr kfd,
     gtt_sa_chunk_size kfd, gtt_sa_num_of_chunks kfd)"

lemma gtt_wf_product:
  "gtt_wf kfd \<Longrightarrow>
   unat (of_nat (gtt_sa_num_of_chunks kfd) * of_nat (gtt_sa_chunk_size kfd) :: u32) =
     gtt_sa_num_of_chunks kfd * gtt_sa_chunk_size kfd"
  by (simp add: gtt_wf_def unat_of_nat flip: of_nat_mult)

lemma gtt_eqI:
  assumes "gtt_geometry a = gtt_geometry b" "gtt_wf a" "gtt_wf b" "gtt_used a = gtt_used b"
  shows "a = (b :: kfd_gtt)"
proof -
  have "gtt_sa_bitmap a = gtt_sa_bitmap b"
    using assms by (intro bitmap_eqI) (auto simp: gtt_wf_def gtt_geometry_def gtt_used_def bits_of_def)
  with assms(1) show ?thesis by (cases a, cases b) (simp add: gtt_geometry_def)
qed

text \<open>Initialisation gives a well-formed allocator with every chunk free.\<close>

lemma kfd_gtt_sa_init_wf:
  assumes "kfd_gtt_sa_init ok kfd buf_size chunk_size = (OK, kfd')"
  shows "gtt_wf kfd'" and "gtt_used kfd' = {}"
    and "gtt_sa_num_of_chunks kfd' * gtt_sa_chunk_size kfd' \<le> unat buf_size"
    and "0 < gtt_sa_num_of_chunks kfd'"
proof -
  from assms have c: "chunk_size \<noteq> 0" "\<not> buf_size < chunk_size"
    and k: "kfd' = kfd\<lparr>gtt_sa_chunk_size := unat chunk_size,
                      gtt_sa_num_of_chunks := unat (buf_size div chunk_size),
                      gtt_sa_bitmap := bitmap_zalloc (unat (buf_size div chunk_size))\<rparr>"
    by (auto simp: kfd_gtt_sa_init_def Let_def split: if_splits)
  have le: "unat (buf_size div chunk_size) * unat chunk_size \<le> unat buf_size"
    by (simp add: unat_div)
  with k show "gtt_sa_num_of_chunks kfd' * gtt_sa_chunk_size kfd' \<le> unat buf_size" by simp
  from le have "unat (buf_size div chunk_size) * unat chunk_size < 2 ^ 32"
    using unat_lt2p [of buf_size] by simp
  moreover from c have "0 < unat chunk_size" by (simp add: unat_gt_0)
  ultimately show "gtt_wf kfd'" using k by (simp add: gtt_wf_def)
  show "gtt_used kfd' = {}" using k by (auto simp: gtt_used_def bitmap_simps)
  have "unat chunk_size \<le> unat buf_size" using c by (simp add: word_le_nat_alt not_less)
  with \<open>0 < unat chunk_size\<close> k show "0 < gtt_sa_num_of_chunks kfd'"
    by (simp add: unat_div div_greater_zero_iff)
qed

section \<open>Allocation and release\<close>

lemma gtt_alloc_cases:
  assumes "gtt_wf kfd"
  obtains (fail) e where "kfd_gtt_sa_allocate ok kfd sz = (Inl e, kfd)"
    "sz = 0 \<or> \<not> ok \<or> (\<forall>s. \<not> free_run (gtt_sa_bitmap kfd) (gtt_sa_num_of_chunks kfd) s
                            (ceil_div (unat sz) (gtt_sa_chunk_size kfd)))"
  | (ok) m k where "k = ceil_div (unat sz) (gtt_sa_chunk_size kfd)" "0 < k" "sz \<noteq> 0" "ok"
    "range_end m + 1 = range_start m + k"
    "free_run (gtt_sa_bitmap kfd) (gtt_sa_num_of_chunks kfd) (range_start m) k"
    "\<forall>s'<range_start m. \<not> free_run (gtt_sa_bitmap kfd) (gtt_sa_num_of_chunks kfd) s' k"
    "gpu_addr m = kfd_gtt_sa_calc_gpu_addr (gtt_start_gpu_addr kfd) (range_start m)
                    (gtt_sa_chunk_size kfd)"
    "cpu_ptr m = kfd_gtt_sa_calc_cpu_addr (gtt_start_cpu_ptr kfd) (range_start m)
                    (gtt_sa_chunk_size kfd)"
    "kfd_gtt_sa_allocate ok kfd sz =
       (Inr m, kfd\<lparr>gtt_sa_bitmap := bitmap_set (range_start m) k (gtt_sa_bitmap kfd)\<rparr>)"
proof -
  let ?bm = "gtt_sa_bitmap kfd" and ?n = "gtt_sa_num_of_chunks kfd"
    and ?c = "gtt_sa_chunk_size kfd"
  let ?k = "ceil_div (unat sz) ?c"
  have c: "0 < ?c" using assms by (simp add: gtt_wf_def)
  have big: "\<not> free_run ?bm ?n s ?k" if "sz > of_nat ?n * of_nat ?c" for s
  proof
    assume "free_run ?bm ?n s ?k"
    then have "?k \<le> ?n" by (simp add: free_run_def)
    then have "unat sz \<le> ?n * ?c"
      using ceil_div_enough [OF c, of "unat sz"] mult_le_mono1 order_trans by blast
    with that show False by (simp add: word_less_nat_alt gtt_wf_product [OF assms])
  qed
  show ?thesis
  proof (cases "sz = 0 \<or> sz > of_nat ?n * of_nat ?c \<or> \<not> ok")
    case True
    then show ?thesis
      using big by (intro fail [of "if sz = 0 then EINVAL else ENOMEM"])
        (auto simp: kfd_gtt_sa_allocate_def)
  next
    case False
    then have sz: "0 < unat sz" by (simp add: unat_gt_0)
    have post: "search_post ?bm ?n ?k 0 (gtt_sa_search ?bm ?n ?c (unat sz) 0)"
      by (rule gtt_sa_search_post [OF c sz])
    show ?thesis
    proof (cases "gtt_sa_search ?bm ?n ?c (unat sz) 0")
      case None
      with False post show ?thesis
        by (intro fail [of ENOMEM]) (auto simp: kfd_gtt_sa_allocate_def search_post_def)
    next
      case (Some r)
      then obtain s e where se: "gtt_sa_search ?bm ?n ?c (unat sz) 0 = Some (s, e)"
        by (cases r) auto
      with post have run: "free_run ?bm ?n s ?k" "e + 1 = s + ?k"
        "\<forall>s'. s' < s \<longrightarrow> \<not> free_run ?bm ?n s' ?k" by (auto simp: search_post_def)
      have k: "0 < ?k" using sz c ceil_div_enough [of ?c "unat sz"] by (cases ?k) auto
      have "e - s + 1 = ?k" using run(2) k by linarith
      moreover have "set_bit_at s ?bm = bitmap_set s ?k ?bm" if "unat sz \<le> ?c"
        using that sz by (intro bitmap_eqI) (auto simp: bitmap_simps ceil_div_one)
      ultimately have bm: "(if unat sz \<le> ?c then set_bit_at s ?bm
          else bitmap_set s (e - s + 1) ?bm) = bitmap_set s ?k ?bm" by simp
      show ?thesis
        by (rule ok [of ?k "\<lparr>range_start = s, range_end = e,
            gpu_addr = kfd_gtt_sa_calc_gpu_addr (gtt_start_gpu_addr kfd) s ?c,
            cpu_ptr = kfd_gtt_sa_calc_cpu_addr (gtt_start_cpu_ptr kfd) s ?c\<rparr>"])
          (use False run k se bm in \<open>simp_all add: kfd_gtt_sa_allocate_def\<close>)
    qed
  qed
qed

lemma gtt_alloc_frame:
  assumes "gtt_wf kfd" and "kfd_gtt_sa_allocate ok kfd sz = (r, kfd')"
  shows "gtt_wf kfd'" and "gtt_geometry kfd' = gtt_geometry kfd"
  using assms by (cases rule: gtt_alloc_cases [OF assms(1), of ok sz];
      auto simp: gtt_wf_def gtt_geometry_def)+

lemma gtt_alloc_fail_same:
  assumes "gtt_wf kfd" and "kfd_gtt_sa_allocate ok kfd sz = (Inl e, kfd')"
  shows "kfd' = kfd"
  using assms by (cases rule: gtt_alloc_cases [OF assms(1), of ok sz]) auto

lemma gtt_alloc_used:
  assumes "gtt_wf kfd" and "kfd_gtt_sa_allocate ok kfd sz = (Inr m, kfd')"
  shows "gtt_used kfd' = gtt_used kfd \<union> obj_chunks m" "obj_chunks m \<inter> gtt_used kfd = {}"
    "obj_chunks m \<noteq> {}" "range_start m \<le> range_end m"
    "range_end m < gtt_sa_num_of_chunks kfd"
    "card (obj_chunks m) = ceil_div (unat sz) (gtt_sa_chunk_size kfd)"
  using assms by (cases rule: gtt_alloc_cases [OF assms(1), of ok sz];
      auto simp: gtt_used_def obj_chunks_def bitmap_simps free_run_def gtt_wf_def)+

lemma gtt_free_used:
  "range_start m \<le> range_end m \<Longrightarrow>
   gtt_used (kfd_gtt_sa_free kfd (Some m)) = gtt_used kfd - obj_chunks m"
  by (auto simp: gtt_used_def obj_chunks_def kfd_gtt_sa_free_def bitmap_simps)

lemma gtt_free_frame [simp]:
  "gtt_geometry (kfd_gtt_sa_free kfd mo) = gtt_geometry kfd"
  "gtt_wf (kfd_gtt_sa_free kfd mo) \<longleftrightarrow> gtt_wf kfd"
  by (auto simp: gtt_geometry_def gtt_wf_def kfd_gtt_sa_free_def split: option.splits)

lemma gtt_free_alloc:
  assumes "gtt_wf kfd" and "kfd_gtt_sa_allocate ok kfd sz = (Inr m, kfd')"
  shows "kfd_gtt_sa_free kfd' (Some m) = kfd"
proof (rule gtt_eqI)
  note a = gtt_alloc_used [OF assms] gtt_alloc_frame [OF assms]
  show "gtt_used (kfd_gtt_sa_free kfd' (Some m)) = gtt_used kfd"
    using a by (auto simp: gtt_free_used)
  show "gtt_geometry (kfd_gtt_sa_free kfd' (Some m)) = gtt_geometry kfd"
    and "gtt_wf (kfd_gtt_sa_free kfd' (Some m))" using a by simp_all
qed fact

section \<open>The allocator interface\<close>

text \<open>Pairwise disjoint, non-empty cell sets that together make up the used cells.\<close>

fun disjoint_list :: "nat set list \<Rightarrow> bool" where
  "disjoint_list [] = True"
| "disjoint_list (c # cs) = (c \<noteq> {} \<and> c \<inter> \<Union> (set cs) = {} \<and> disjoint_list cs)"

lemma disjoint_list_append:
  "disjoint_list (xs @ ys) \<longleftrightarrow>
     disjoint_list xs \<and> disjoint_list ys \<and> \<Union> (set xs) \<inter> \<Union> (set ys) = {}"
  by (induction xs) (auto simp: Int_Un_distrib Int_Un_distrib2)

lemma disjoint_list_nth:
  "disjoint_list cs \<Longrightarrow> i < j \<Longrightarrow> j < length cs \<Longrightarrow> cs ! i \<inter> cs ! j = {}"
proof (induction cs arbitrary: i j)
  case (Cons c cs)
  show ?case
  proof (cases i)
    case 0
    with Cons.prems have "cs ! (j - 1) \<subseteq> \<Union> (set cs)" by (intro Union_upper nth_mem) auto
    with Cons.prems 0 show ?thesis by (cases j) auto
  next
    case (Suc i')
    with Cons show ?thesis by (cases j) auto
  qed
qed simp

locale mem_allocator =
  fixes alloc :: "'s \<Rightarrow> 'r \<Rightarrow> (errno + 'o) \<times> 's"
    and free :: "'s \<Rightarrow> 'o \<Rightarrow> 's"
    and invar :: "'s \<Rightarrow> bool"
    and used :: "'s \<Rightarrow> nat set"
    and cells :: "'o \<Rightarrow> nat set"
  assumes alloc_invar: "invar s \<Longrightarrow> alloc s r = (x, s') \<Longrightarrow> invar s'"
    and alloc_fail: "invar s \<Longrightarrow> alloc s r = (Inl e, s') \<Longrightarrow> s' = s"
    and alloc_used: "invar s \<Longrightarrow> alloc s r = (Inr ob, s') \<Longrightarrow> used s' = used s \<union> cells ob"
    and alloc_fresh: "invar s \<Longrightarrow> alloc s r = (Inr ob, s') \<Longrightarrow> cells ob \<inter> used s = {}"
    and alloc_nonempty: "invar s \<Longrightarrow> alloc s r = (Inr ob, s') \<Longrightarrow> cells ob \<noteq> {}"
    and free_invar: "invar s \<Longrightarrow> invar (free s ob)"
    and free_used: "cells ob \<noteq> {} \<Longrightarrow> used (free s ob) = used s - cells ob"
    and free_alloc: "invar s \<Longrightarrow> alloc s r = (Inr ob, s') \<Longrightarrow> free s' ob = s"
begin

text \<open>The live objects of a client partition the used cells.\<close>

lemma alloc_partition:
  assumes "invar s" "disjoint_list (map cells L)" "used s = \<Union> (set (map cells L))"
    and "alloc s r = (Inr ob, s')"
  shows "disjoint_list (map cells (ob # L))" "used s' = \<Union> (set (map cells (ob # L)))"
  using alloc_used [OF assms(1,4)] alloc_fresh [OF assms(1,4)] alloc_nonempty [OF assms(1,4)]
    assms(2,3) by auto

lemma free_partition:
  assumes "disjoint_list (map cells (L1 @ ob # L2))"
    and "used s = \<Union> (set (map cells (L1 @ ob # L2)))"
  shows "disjoint_list (map cells (L1 @ L2))"
    and "used (free s ob) = \<Union> (set (map cells (L1 @ L2)))"
proof -
  from assms(1) show "disjoint_list (map cells (L1 @ L2))"
    by (auto simp: disjoint_list_append)
  from assms(1) have "cells ob \<noteq> {}" by (auto simp: disjoint_list_append)
  with assms show "used (free s ob) = \<Union> (set (map cells (L1 @ L2)))"
    by (auto simp: free_used disjoint_list_append)
qed

text \<open>Releasing two objects in the reverse order of their allocation is a full undo.\<close>

lemma free_alloc_nested:
  assumes "invar s" "alloc s r = (Inr a, s1)" "alloc s1 r' = (Inr b, s2)"
  shows "free (free s2 b) a = s"
  using assms free_alloc alloc_invar by metis

end

interpretation gtt: mem_allocator
  "\<lambda>kfd (ok, sz). kfd_gtt_sa_allocate ok kfd sz" "\<lambda>kfd m. kfd_gtt_sa_free kfd (Some m)"
  gtt_wf gtt_used obj_chunks
proof unfold_locales
  show "gtt_used (kfd_gtt_sa_free s (Some ob)) = gtt_used s - obj_chunks ob"
    if "obj_chunks ob \<noteq> {}" for s ob
    using that by (simp add: gtt_free_used obj_chunks_def)
qed (auto dest: gtt_alloc_frame gtt_alloc_fail_same gtt_alloc_used gtt_free_alloc split: prod.splits)

section \<open>Runs of the sub-allocator\<close>

text \<open>
  The reachable states of the sub-allocator together with the descriptors handed out and
  not yet released. A client releases each descriptor once.
\<close>

inductive gtt_run :: "kfd_gtt \<Rightarrow> kfd_mem_obj list \<Rightarrow> bool" where
  gtt_run_init: "kfd_gtt_sa_init ok kfd buf_size chunk_size = (OK, kfd') \<Longrightarrow> gtt_run kfd' []"
| gtt_run_alloc: "gtt_run kfd L \<Longrightarrow> kfd_gtt_sa_allocate ok kfd sz = (Inr m, kfd') \<Longrightarrow>
    gtt_run kfd' (m # L)"
| gtt_run_fail: "gtt_run kfd L \<Longrightarrow> kfd_gtt_sa_allocate ok kfd sz = (Inl e, kfd') \<Longrightarrow>
    gtt_run kfd' L"
| gtt_run_free: "gtt_run kfd (L1 @ m # L2) \<Longrightarrow>
    gtt_run (kfd_gtt_sa_free kfd (Some m)) (L1 @ L2)"
| gtt_run_free_null: "gtt_run kfd L \<Longrightarrow> gtt_run (kfd_gtt_sa_free kfd None) L"

lemma gtt_run_partition:
  "gtt_run kfd L \<Longrightarrow>
   gtt_wf kfd \<and> disjoint_list (map obj_chunks L) \<and> gtt_used kfd = \<Union> (set (map obj_chunks L))"
proof (induction rule: gtt_run.induct)
  case (gtt_run_init ok kfd buf_size chunk_size kfd')
  then show ?case by (auto dest: kfd_gtt_sa_init_wf)
next
  case (gtt_run_alloc kfd L ok sz m kfd')
  then show ?case
    using gtt.alloc_partition [of kfd L "(ok, sz)" m kfd'] gtt.alloc_invar [of kfd "(ok, sz)"]
    by auto
next
  case (gtt_run_fail kfd L ok sz e kfd')
  then show ?case by (auto dest: gtt_alloc_fail_same)
next
  case (gtt_run_free kfd L1 m L2)
  then show ?case using gtt.free_partition [of L1 m L2 kfd] by simp
next
  case (gtt_run_free_null kfd L)
  then show ?case by (simp add: kfd_gtt_sa_free_def)
qed

section \<open>Properties\<close>

text \<open>
  First fit: when \<^verbatim>\<open>kfd_gtt_sa_allocate\<close> succeeds, the chunks it marks were all free, their
  number is the size divided by the chunk size rounded up, no earlier start would have done,
  exactly these chunks change, and the addresses are the base plus start times chunk size.
\<close>

theorem gtt_alloc_first_fit:
  assumes "gtt_wf kfd" and "kfd_gtt_sa_allocate ok kfd sz = (Inr m, kfd')"
  shows "obj_chunks m \<inter> gtt_used kfd = {} \<and>
         gtt_used kfd' = gtt_used kfd \<union> obj_chunks m \<and>
         card (obj_chunks m) = ceil_div (unat sz) (gtt_sa_chunk_size kfd) \<and>
         range_end m < gtt_sa_num_of_chunks kfd \<and>
         (\<forall>s'<range_start m. \<not> free_run (gtt_sa_bitmap kfd) (gtt_sa_num_of_chunks kfd) s'
            (ceil_div (unat sz) (gtt_sa_chunk_size kfd))) \<and>
         gpu_addr m = gtt_start_gpu_addr kfd + of_nat (range_start m * gtt_sa_chunk_size kfd) \<and>
         cpu_ptr m = gtt_start_cpu_ptr kfd + of_nat (range_start m * gtt_sa_chunk_size kfd)"
proof -
  note a = gtt_alloc_used [OF assms]
  from assms have first: "\<forall>s'<range_start m. \<not> free_run (gtt_sa_bitmap kfd)
      (gtt_sa_num_of_chunks kfd) s' (ceil_div (unat sz) (gtt_sa_chunk_size kfd))"
    and addr: "gpu_addr m = kfd_gtt_sa_calc_gpu_addr (gtt_start_gpu_addr kfd) (range_start m)
      (gtt_sa_chunk_size kfd)" "cpu_ptr m = kfd_gtt_sa_calc_cpu_addr (gtt_start_cpu_ptr kfd)
      (range_start m) (gtt_sa_chunk_size kfd)"
    by (cases rule: gtt_alloc_cases [OF assms(1), of ok sz]; auto)+
  have "range_start m * gtt_sa_chunk_size kfd \<le> gtt_sa_num_of_chunks kfd * gtt_sa_chunk_size kfd"
    using a by (intro mult_le_mono1) linarith
  moreover have "gtt_sa_num_of_chunks kfd * gtt_sa_chunk_size kfd < 2 ^ 32"
    using assms(1) by (simp add: gtt_wf_def)
  ultimately have "range_start m * gtt_sa_chunk_size kfd < 2 ^ 32" by (rule le_less_trans)
  then have "ucast (of_nat (range_start m) * of_nat (gtt_sa_chunk_size kfd) :: u32) =
      (of_nat (range_start m * gtt_sa_chunk_size kfd) :: u64)"
    by (simp add: unsigned_of_nat take_bit_nat_eq_self flip: of_nat_mult)
  with a first addr show ?thesis
    by (simp add: kfd_gtt_sa_calc_gpu_addr_def kfd_gtt_sa_calc_cpu_addr_def)
qed

text \<open>A small sub-allocator: five chunks of 16 bytes, chunk 1 in use.\<close>

definition gtt_example :: kfd_gtt where
  "gtt_example = \<lparr>gtt_start_gpu_addr = 0x1000, gtt_start_cpu_ptr = 0x8000,
     gtt_sa_bitmap = [False, True, False, False, False],
     gtt_sa_chunk_size = 16, gtt_sa_num_of_chunks = 5\<rparr>"

definition gtt_example_obj :: kfd_mem_obj where
  "gtt_example_obj = \<lparr>range_start = 2, range_end = 4, gpu_addr = 0x1020, cpu_ptr = 0x8020\<rparr>"

lemma gtt_example_wf: "gtt_wf gtt_example"
  by (simp add: gtt_wf_def gtt_example_def)

lemma gtt_example_alloc:
  "kfd_gtt_sa_allocate True gtt_example 40 =
     (Inr gtt_example_obj, gtt_example\<lparr>gtt_sa_bitmap := [False, True, True, True, True]\<rparr>)"
  by code_simp

theorem gtt_alloc_first_fit_witness:
  "gtt_used (gtt_example\<lparr>gtt_sa_bitmap := [False, True, True, True, True]\<rparr>) =
     gtt_used gtt_example \<union> {2..4} \<and> gpu_addr gtt_example_obj = 0x1000 + 32"
  using gtt_alloc_first_fit [OF gtt_example_wf gtt_example_alloc]
  by (simp add: obj_chunks_def gtt_example_obj_def gtt_example_def)

text \<open>
  Completeness of the search: once the descriptor is allocated, \<^verbatim>\<open>kfd_gtt_sa_allocate\<close> of a
  non-zero size succeeds exactly if there is a run of enough free chunks, and otherwise it
  returns \<^verbatim>\<open>-ENOMEM\<close> and changes nothing.
\<close>

theorem gtt_alloc_complete:
  assumes "gtt_wf kfd" and "sz \<noteq> 0"
  shows "if \<exists>s. free_run (gtt_sa_bitmap kfd) (gtt_sa_num_of_chunks kfd) s
                  (ceil_div (unat sz) (gtt_sa_chunk_size kfd))
         then \<exists>m kfd'. kfd_gtt_sa_allocate True kfd sz = (Inr m, kfd')
         else kfd_gtt_sa_allocate True kfd sz = (Inl ENOMEM, kfd)"
  using assms(2)
  by (cases rule: gtt_alloc_cases [OF assms(1), of True sz])
    (auto simp: kfd_gtt_sa_allocate_def split: if_splits option.splits)

theorem gtt_alloc_complete_witness:
  "\<exists>m kfd'. kfd_gtt_sa_allocate True gtt_example 40 = (Inr m, kfd')"
proof -
  have "free_run (gtt_sa_bitmap gtt_example) (gtt_sa_num_of_chunks gtt_example) 2
      (ceil_div (unat (40 :: u32)) (gtt_sa_chunk_size gtt_example))"
    by (auto simp: free_run_def gtt_example_def ceil_div_def test_bit_def nth_Cons split: nat.splits)
  then show ?thesis using gtt_alloc_complete [OF gtt_example_wf, of 40] by (auto split: if_splits)
qed

text \<open>
  C34. Isolation: in every state the sub-allocator can reach, the objects that are live occupy
  pairwise disjoint chunk ranges, together they are exactly the chunks marked in the bitmap,
  and each lies within the buffer.
\<close>

theorem gtt_live_objects_disjoint:
  assumes "gtt_run kfd L"
  shows "gtt_used kfd = (\<Union>m\<in>set L. obj_chunks m) \<and>
         gtt_used kfd \<subseteq> {..<gtt_sa_num_of_chunks kfd} \<and>
         (\<forall>i j. i < j \<longrightarrow> j < length L \<longrightarrow> obj_chunks (L ! i) \<inter> obj_chunks (L ! j) = {})"
proof -
  from gtt_run_partition [OF assms] have p: "gtt_wf kfd" "disjoint_list (map obj_chunks L)"
    "gtt_used kfd = (\<Union>m\<in>set L. obj_chunks m)" by auto
  have "obj_chunks (L ! i) \<inter> obj_chunks (L ! j) = {}" if "i < j" "j < length L" for i j
    using disjoint_list_nth [OF p(2) that(1)] that by simp
  with p show ?thesis using bits_of_subset [of "gtt_sa_bitmap kfd"]
    by (auto simp: gtt_wf_def gtt_used_def)
qed

text \<open>A run that allocates 20 and then 16 bytes from a fresh buffer of four 16-byte chunks.\<close>

lemma gtt_run_example:
  "\<exists>kfd L. gtt_run kfd L \<and> length L = 2"
proof -
  let ?k0 = "gtt_example\<lparr>gtt_sa_num_of_chunks := 4, gtt_sa_bitmap := [False, False, False, False]\<rparr>"
  have "kfd_gtt_sa_init True gtt_example 64 16 = (OK, ?k0)" by code_simp
  then have r0: "gtt_run ?k0 []" by (rule gtt_run_init)
  have a1: "kfd_gtt_sa_allocate True ?k0 20 =
      (Inr \<lparr>range_start = 0, range_end = 1, gpu_addr = 0x1000, cpu_ptr = 0x8000\<rparr>,
       ?k0\<lparr>gtt_sa_bitmap := [True, True, False, False]\<rparr>)" by code_simp
  have a2: "kfd_gtt_sa_allocate True (?k0\<lparr>gtt_sa_bitmap := [True, True, False, False]\<rparr>) 16 =
      (Inr \<lparr>range_start = 2, range_end = 2, gpu_addr = 0x1020, cpu_ptr = 0x8020\<rparr>,
       ?k0\<lparr>gtt_sa_bitmap := [True, True, True, False]\<rparr>)" by code_simp
  from gtt_run_alloc [OF gtt_run_alloc [OF r0 a1] a2] show ?thesis by fastforce
qed

theorem gtt_live_objects_disjoint_witness:
  "\<exists>kfd L. gtt_run kfd L \<and> length L = 2 \<and> obj_chunks (L ! 0) \<inter> obj_chunks (L ! 1) = {}"
proof -
  obtain kfd L where r: "gtt_run kfd L" "length L = 2" using gtt_run_example by blast
  then show ?thesis using gtt_live_objects_disjoint [OF r(1)]
    by (intro exI [of _ kfd] exI [of _ L]) simp
qed

text \<open>
  Round trip: releasing an object right after its allocation restores the sub-allocator
  bit for bit.
\<close>

theorem gtt_alloc_free_roundtrip:
  assumes "gtt_wf kfd" and "kfd_gtt_sa_allocate ok kfd sz = (Inr m, kfd')"
  shows "kfd_gtt_sa_free kfd' (Some m) = kfd"
  using gtt.free_alloc [of kfd "(ok, sz)"] assms by simp

theorem gtt_alloc_free_roundtrip_witness:
  "kfd_gtt_sa_free (gtt_example\<lparr>gtt_sa_bitmap := [False, True, True, True, True]\<rparr>)
     (Some gtt_example_obj) = gtt_example"
  by (rule gtt_alloc_free_roundtrip [OF gtt_example_wf gtt_example_alloc])

end
