(* ===== verification/Pasid.thy ===== *)
theory Pasid
  imports Kfd_Prelude
begin

text \<open>
  Process address space identifiers: \<^verbatim>\<open>kfd/kfd_pasid.c\<close> and the allocator it calls,
  \<^verbatim>\<open>amdgpu_pasid_alloc\<close> of \<^verbatim>\<open>kfd_amdgpu/amdgpu_ids.c\<close>. The kernel's ID allocator
  (\<^verbatim>\<open>struct ida\<close>) is the set of identifiers in use; \<^verbatim>\<open>ida_simple_get(lo, hi)\<close> takes the
  smallest unused one in the half-open range, or reports \<^verbatim>\<open>-ENOSPC\<close>, or \<^verbatim>\<open>-ENOMEM\<close> when its own
  memory allocation fails (the flag \<open>mem_ok\<close>).
\<close>

record pasid_state =
  pasid_bits :: nat
  pasids_allocated :: bool
  amdgpu_pasid_ida :: "nat set"

definition ida_simple_get :: "bool \<Rightarrow> nat set \<Rightarrow> nat \<Rightarrow> nat \<Rightarrow> errno + nat" where
  "ida_simple_get mem_ok ida lo hi =
     (if \<not> mem_ok then Inl ENOMEM
      else let i = find_next (\<lambda>i. i \<notin> ida) hi lo in
           if i < hi then Inr i else Inl ENOSPC)"

text \<open>
  The loop of \<^verbatim>\<open>amdgpu_pasid_alloc\<close>: it starts with the largest identifiers and retries with one
  bit less as long as the allocator answers \<^verbatim>\<open>-ENOSPC\<close>; \<open>prev\<close> is the value of \<^verbatim>\<open>pasid\<close> so far.
\<close>

fun pasid_alloc_loop :: "bool \<Rightarrow> nat set \<Rightarrow> nat \<Rightarrow> errno + nat \<Rightarrow> errno + nat" where
  "pasid_alloc_loop mem_ok ida 0 prev = prev"
| "pasid_alloc_loop mem_ok ida (Suc b) prev =
     (case ida_simple_get mem_ok ida (2 ^ b) (2 ^ Suc b) of
        Inl ENOSPC \<Rightarrow> pasid_alloc_loop mem_ok ida b (Inl ENOSPC)
      | r \<Rightarrow> r)"

definition amdgpu_pasid_alloc :: "bool \<Rightarrow> nat set \<Rightarrow> nat \<Rightarrow> (errno + nat) \<times> nat set" where
  "amdgpu_pasid_alloc mem_ok ida bits =
     (case pasid_alloc_loop mem_ok ida (min bits 31) (Inl EINVAL) of
        Inl e \<Rightarrow> (Inl e, ida)
      | Inr pasid \<Rightarrow> (Inr pasid, insert pasid ida))"

definition amdgpu_pasid_free :: "nat set \<Rightarrow> nat \<Rightarrow> nat set" where
  "amdgpu_pasid_free ida pasid = ida - {pasid}"

text \<open>The \<^verbatim>\<open>while\<close> loop that lowers the number of bits.\<close>

fun lower_bits :: "nat \<Rightarrow> nat \<Rightarrow> nat" where
  "lower_bits new_limit 0 = 0"
| "lower_bits new_limit (Suc b) =
     (if new_limit < 2 ^ Suc b then lower_bits new_limit b else Suc b)"

definition kfd_set_pasid_limit :: "pasid_state \<Rightarrow> nat \<Rightarrow> bool \<times> pasid_state" where
  "kfd_set_pasid_limit st new_limit =
     (if new_limit < 2 then (False, st)
      else if new_limit < 2 ^ pasid_bits st
      then (if pasids_allocated st then (False, st)
            else (True, st\<lparr>pasid_bits := lower_bits new_limit (pasid_bits st)\<rparr>))
      else (True, st))"

definition kfd_get_pasid_limit :: "pasid_state \<Rightarrow> nat" where
  "kfd_get_pasid_limit st = 2 ^ pasid_bits st"

text \<open>\<^verbatim>\<open>kfd_pasid_alloc\<close> returns 0 for every failure; the test \<^verbatim>\<open>r > 0\<close> also excludes identifier 0.\<close>

definition kfd_pasid_alloc :: "bool \<Rightarrow> pasid_state \<Rightarrow> nat \<times> pasid_state" where
  "kfd_pasid_alloc mem_ok st =
     (case amdgpu_pasid_alloc mem_ok (amdgpu_pasid_ida st) (pasid_bits st) of
        (Inl e, ida) \<Rightarrow> (0, st\<lparr>amdgpu_pasid_ida := ida\<rparr>)
      | (Inr r, ida) \<Rightarrow>
          (if 0 < r then (r, st\<lparr>amdgpu_pasid_ida := ida, pasids_allocated := True\<rparr>)
           else (0, st\<lparr>amdgpu_pasid_ida := ida\<rparr>)))"

definition kfd_pasid_free :: "pasid_state \<Rightarrow> nat \<Rightarrow> pasid_state" where
  "kfd_pasid_free st pasid =
     st\<lparr>amdgpu_pasid_ida := amdgpu_pasid_free (amdgpu_pasid_ida st) pasid\<rparr>"

section \<open>Lemmas\<close>

lemma ida_simple_get_cases:
  assumes "lo \<le> hi"
  shows "(\<exists>i. ida_simple_get True ida lo hi = Inr i \<and> lo \<le> i \<and> i < hi \<and> i \<notin> ida) \<or>
         (ida_simple_get True ida lo hi = Inl ENOSPC \<and> {lo..<hi} \<subseteq> ida)"
  using find_next_cases [OF assms, of "\<lambda>i. i \<notin> ida"]
  by (auto simp: ida_simple_get_def Let_def)

text \<open>The loop covers the identifiers from 1 up to the limit.\<close>

lemma pasid_alloc_loop_cases:
  "(\<exists>i. pasid_alloc_loop True ida b prev = Inr i \<and> 0 < i \<and> i < 2 ^ b \<and> i \<notin> ida) \<or>
   (pasid_alloc_loop True ida b prev = (if b = 0 then prev else Inl ENOSPC) \<and> {1..<2 ^ b} \<subseteq> ida)"
proof (induction b arbitrary: prev)
  case 0
  then show ?case by simp
next
  case (Suc b)
  have le: "(2::nat) ^ b \<le> 2 ^ Suc b" by simp
  from ida_simple_get_cases [OF le, of ida] show ?case
  proof
    assume "\<exists>i. ida_simple_get True ida (2 ^ b) (2 ^ Suc b) = Inr i \<and> 2 ^ b \<le> i \<and>
      i < 2 ^ Suc b \<and> i \<notin> ida"
    then show ?thesis by (auto intro: less_le_trans [of 0 "2 ^ b"])
  next
    assume full: "ida_simple_get True ida (2 ^ b) (2 ^ Suc b) = Inl ENOSPC \<and>
      {2 ^ b..<2 ^ Suc b} \<subseteq> ida"
    have split: "{1..<2 ^ Suc b} = {1..<2 ^ b} \<union> {2 ^ b..<2 ^ Suc b :: nat}"
      by (simp add: ivl_disj_un_two)
    from Suc.IH [of "Inl ENOSPC"] full show ?thesis
      unfolding split by (auto intro: less_le_trans [OF _ le])
  qed
qed

lemma lower_bits_spec:
  assumes "2 \<le> new_limit"
  shows "lower_bits new_limit b \<le> b \<and> 2 ^ lower_bits new_limit b \<le> new_limit \<and>
         (lower_bits new_limit b < b \<longrightarrow> new_limit < 2 ^ Suc (lower_bits new_limit b))"
  using assms by (induction b) (auto simp: le_Suc_eq less_Suc_eq)

section \<open>Properties\<close>

text \<open>
  PASID allocation: with memory available, \<^verbatim>\<open>kfd_pasid_alloc\<close> returns a non-zero identifier
  below the limit that was not in use and records it, or it returns 0 exactly because every
  identifier from 1 to the limit is taken, and then changes nothing.
\<close>

theorem kfd_pasid_alloc_fresh:
  assumes "pasid_bits st \<le> 31"
  shows "case kfd_pasid_alloc True st of (p, st') \<Rightarrow>
           if p = 0 then {1..<kfd_get_pasid_limit st} \<subseteq> amdgpu_pasid_ida st \<and> st' = st
           else p < kfd_get_pasid_limit st \<and> p \<notin> amdgpu_pasid_ida st \<and>
                amdgpu_pasid_ida st' = insert p (amdgpu_pasid_ida st) \<and>
                pasid_bits st' = pasid_bits st \<and> pasids_allocated st'"
  using pasid_alloc_loop_cases [of "amdgpu_pasid_ida st" "pasid_bits st" "Inl EINVAL"] assms
  by (auto simp: kfd_pasid_alloc_def amdgpu_pasid_alloc_def kfd_get_pasid_limit_def min_absorb1
      split: if_splits)

theorem kfd_pasid_alloc_fresh_witness:
  "fst (kfd_pasid_alloc True \<lparr>pasid_bits = 2, pasids_allocated = False, amdgpu_pasid_ida = {2, 3}\<rparr>)
     = 1 \<and> (1::nat) \<notin> {2, 3}"
proof -
  let ?st = "\<lparr>pasid_bits = 2, pasids_allocated = False, amdgpu_pasid_ida = {2, 3}\<rparr>"
  have "kfd_pasid_alloc True ?st =
      (1, \<lparr>pasid_bits = 2, pasids_allocated = True, amdgpu_pasid_ida = {1, 2, 3}\<rparr>)"
    by code_simp
  with kfd_pasid_alloc_fresh [of ?st] show ?thesis by simp
qed

text \<open>
  Lowering the PASID limit: it is refused after the first allocation or for a limit below 2;
  otherwise the limit becomes the largest power of two that is not above the requested limit
  (or stays, when the request is not below it), so it never grows.
\<close>

theorem kfd_set_pasid_limit_largest:
  shows "case kfd_set_pasid_limit st new_limit of (ok, st') \<Rightarrow>
           if ok then kfd_get_pasid_limit st' \<le> new_limit \<and>
                      kfd_get_pasid_limit st' \<le> kfd_get_pasid_limit st \<and>
                      (kfd_get_pasid_limit st' = kfd_get_pasid_limit st \<or>
                       new_limit < 2 * kfd_get_pasid_limit st') \<and>
                      amdgpu_pasid_ida st' = amdgpu_pasid_ida st
           else st' = st \<and>
                (new_limit < 2 \<or> pasids_allocated st \<and> new_limit < kfd_get_pasid_limit st)"
proof (cases "2 \<le> new_limit")
  case True
  then show ?thesis
    using lower_bits_spec [OF True, of "pasid_bits st"]
    by (auto simp: kfd_set_pasid_limit_def kfd_get_pasid_limit_def)
next
  case False
  then show ?thesis by (simp add: kfd_set_pasid_limit_def)
qed

end
