(* ===== verification/Queue_Types.thy ===== *)
theory Queue_Types
  imports Gtt_Sa
begin

text \<open>
  The data of a queue, of \<^verbatim>\<open>kfd/kfd_priv.h\<close>: the enumerations, \<^verbatim>\<open>struct queue_properties\<close>,
  \<^verbatim>\<open>struct queue\<close> and \<^verbatim>\<open>struct qcm_process_device\<close>, with the constructor and the list helpers
  the managers use.

  Pointers: a queue carries the address of its \<^verbatim>\<open>struct queue\<close> as \<open>q_ptr\<close>, which is how the kernel's
  intrusive lists tell queues apart; the lists hold the queues themselves. The process and
  device structures a queue points to are reached through the process-device record, which
  also carries the fields of the enclosing \<^verbatim>\<open>struct kfd_process_device\<close> (\<^verbatim>\<open>qpd_to_pdd\<close>) and of its
  process that the queue managers read.
\<close>

datatype kfd_queue_type =
    KFD_QUEUE_TYPE_COMPUTE | KFD_QUEUE_TYPE_SDMA | KFD_QUEUE_TYPE_HIQ | KFD_QUEUE_TYPE_DIQ
  | KFD_QUEUE_TYPE_SDMA_XGMI

datatype kfd_queue_format = KFD_QUEUE_FORMAT_PM4 | KFD_QUEUE_FORMAT_AQL

datatype KFD_MQD_TYPE =
    KFD_MQD_TYPE_HIQ | KFD_MQD_TYPE_CP | KFD_MQD_TYPE_SDMA | KFD_MQD_TYPE_DIQ

datatype kfd_unmap_queues_filter =
    KFD_UNMAP_QUEUES_FILTER_ALL_QUEUES | KFD_UNMAP_QUEUES_FILTER_DYNAMIC_QUEUES
  | KFD_UNMAP_QUEUES_FILTER_BY_PASID

record queue_properties =
  qtype :: kfd_queue_type
  qformat :: kfd_queue_format
  queue_id :: u32
  queue_address :: u64
  queue_size :: u64
  priority :: u32
  queue_percent :: u32
  read_ptr :: u64
  write_ptr :: u64
  doorbell_ptr :: "u64 option"
  doorbell_off :: u32
  is_interop :: bool
  is_evicted :: bool
  is_suspended :: bool
  is_being_destroyed :: bool
  is_active :: bool
  is_gws :: bool
  pm4_target_xcc :: u32
  is_dbg_wa :: bool
  is_user_cu_masked :: bool
  vmid :: u32
  sdma_engine_id :: u32
  sdma_queue_id :: u32
  sdma_vm_addr :: u32
  eop_ring_buffer_address :: u64
  eop_ring_buffer_size :: u32
  ctx_save_restore_area_address :: u64
  ctx_save_restore_area_size :: u32
  ctl_stack_size :: u32
  tba_addr :: u64
  tma_addr :: u64
  exception_status :: u64

text \<open>The macro \<^verbatim>\<open>QUEUE_IS_ACTIVE\<close>.\<close>

definition QUEUE_IS_ACTIVE :: "queue_properties \<Rightarrow> bool" where
  "QUEUE_IS_ACTIVE p \<longleftrightarrow> queue_size p > 0 \<and> queue_address p \<noteq> 0 \<and> queue_percent p > 0 \<and>
     \<not> is_evicted p \<and> \<not> is_suspended p"

text \<open>A zeroed \<^verbatim>\<open>struct queue_properties\<close> (\<^verbatim>\<open>memset\<close>/\<^verbatim>\<open>kzalloc\<close>).\<close>

definition zero_properties :: queue_properties where
  "zero_properties =
     \<lparr>qtype = KFD_QUEUE_TYPE_COMPUTE, qformat = KFD_QUEUE_FORMAT_PM4, queue_id = 0,
      queue_address = 0, queue_size = 0, priority = 0, queue_percent = 0, read_ptr = 0,
      write_ptr = 0, doorbell_ptr = None, doorbell_off = 0, is_interop = False,
      is_evicted = False, is_suspended = False, is_being_destroyed = False, is_active = False,
      is_gws = False, pm4_target_xcc = 0, is_dbg_wa = False, is_user_cu_masked = False,
      vmid = 0, sdma_engine_id = 0, sdma_queue_id = 0, sdma_vm_addr = 0,
      eop_ring_buffer_address = 0, eop_ring_buffer_size = 0,
      ctx_save_restore_area_address = 0, ctx_save_restore_area_size = 0, ctl_stack_size = 0,
      tba_addr = 0, tma_addr = 0, exception_status = 0\<rparr>"

record queue =
  q_ptr :: nat
  mqd :: u64
  mqd_mem_obj :: "kfd_mem_obj option"
  gart_mqd_addr :: u64
  properties :: queue_properties
  mec :: u32
  pipe :: nat
  queue_slot :: nat
  sdma_id :: nat
  doorbell_id :: nat
  gws :: "u64 option"
  gang_ctx_gpu_addr :: u64
  wptr_bo :: "u64 option"

text \<open>\<^verbatim>\<open>init_queue\<close>: \<open>kzalloc_result\<close> is the address \<^verbatim>\<open>kzalloc\<close> returned.\<close>

definition init_queue :: "nat option \<Rightarrow> queue_properties \<Rightarrow> errno + queue" where
  "init_queue kzalloc_result props =
     (case kzalloc_result of
        None \<Rightarrow> Inl ENOMEM
      | Some a \<Rightarrow> Inr \<lparr>q_ptr = a, mqd = 0, mqd_mem_obj = None, gart_mqd_addr = 0,
                     properties = props, mec = 0, pipe = 0, queue_slot = 0, sdma_id = 0,
                     doorbell_id = 0, gws = None, gang_ctx_gpu_addr = 0, wptr_bo = None\<rparr>)"

record qcm_process_device =
  qpd_ptr :: nat
  queues_list :: "queue list"
  priv_queue_list :: "queue list"
  queue_count :: u32
  qpd_vmid :: nat
  is_debug :: bool
  evicted :: u32
  reset_wavefronts :: bool
  mapped_gws_queue :: bool
  gds_context_area :: u64
  page_table_base :: u64
  sh_mem_config :: u32
  sh_mem_bases :: u32
  sh_mem_ape1_base :: u32
  sh_mem_ape1_limit :: u32
  gds_size :: u32
  num_gws :: u32
  num_oac :: u32
  sh_hidden_private_base :: u32
  qpd_tba_addr :: u64
  qpd_tma_addr :: u64
  cwsr_base :: u64
  ib_base :: u64
  ib_kaddr :: "u64 option"
  proc_doorbells :: "u64 option"
  doorbell_bitmap :: "bitmap option"
  pasid :: u32
  drm_priv :: "u64 option"
  debug_trap_enabled :: bool
  runtime_state_enabled :: bool
  single_mem_op :: bool
  spi_dbg_override :: u32
  spi_dbg_launch_mode :: u32
  watch_points :: "u32 list"
  lds_base :: u64
  lds_limit :: u64
  scratch_base :: u64
  scratch_limit :: u64
  gpuvm_base :: u64
  gpuvm_limit :: u64
  xnack_enabled :: bool
  proc_ctx_gpu_addr :: u64
  last_evict_timestamp :: u64
  evict_duration_counter :: u64
  sdma_past_activity_counter :: u64

text \<open>\<^verbatim>\<open>list_add\<close> puts a queue at the head; \<^verbatim>\<open>list_del\<close> unlinks it by its address.\<close>

definition list_add_queue :: "queue \<Rightarrow> queue list \<Rightarrow> queue list" where
  "list_add_queue q qs = q # qs"

definition list_del_queue :: "queue \<Rightarrow> queue list \<Rightarrow> queue list" where
  "list_del_queue q qs = filter (\<lambda>x. q_ptr x \<noteq> q_ptr q) qs"

text \<open>
  Writing through a \<^verbatim>\<open>struct queue *\<close> that is linked in a list: the list element with that address
  is the written structure.
\<close>

definition list_put_queue :: "queue \<Rightarrow> queue list \<Rightarrow> queue list" where
  "list_put_queue q qs = map (\<lambda>x. if q_ptr x = q_ptr q then q else x) qs"

abbreviation is_sdma_type :: "kfd_queue_type \<Rightarrow> bool" where
  "is_sdma_type t \<equiv> t = KFD_QUEUE_TYPE_SDMA \<or> t = KFD_QUEUE_TYPE_SDMA_XGMI"

definition get_mqd_type_from_queue_type :: "kfd_queue_type \<Rightarrow> KFD_MQD_TYPE" where
  "get_mqd_type_from_queue_type t =
     (if t = KFD_QUEUE_TYPE_SDMA \<or> t = KFD_QUEUE_TYPE_SDMA_XGMI then KFD_MQD_TYPE_SDMA
      else KFD_MQD_TYPE_CP)"

section \<open>Lemmas on queue lists\<close>

lemma list_del_queue_notin: "q_ptr q \<notin> q_ptr ` set qs \<Longrightarrow> list_del_queue q qs = qs"
  unfolding list_del_queue_def by (rule filter_True) (auto simp: image_iff)

lemma list_del_add_queue: "q_ptr q \<notin> q_ptr ` set qs \<Longrightarrow> list_del_queue q (list_add_queue q qs) = qs"
  by (simp add: list_add_queue_def list_del_queue_def)
    (metis list_del_queue_def list_del_queue_notin)

lemma set_list_del_queue: "set (list_del_queue q qs) = {x \<in> set qs. q_ptr x \<noteq> q_ptr q}"
  by (auto simp: list_del_queue_def)

lemma distinct_list_del_queue:
  "distinct (map q_ptr qs) \<Longrightarrow> distinct (map q_ptr (list_del_queue q qs))"
  by (simp add: list_del_queue_def distinct_map_filter)

lemma map_q_ptr_list_put [simp]: "map q_ptr (list_put_queue q qs) = map q_ptr qs"
  by (simp add: list_put_queue_def)

text \<open>Deleting a linked queue removes it alone, when addresses are distinct.\<close>

lemma list_del_queue_split:
  assumes "distinct (map q_ptr qs)" and "q \<in> set qs"
  obtains xs ys where "qs = xs @ q # ys" "list_del_queue q qs = xs @ ys"
proof -
  from assms(2) obtain xs ys where s: "qs = xs @ q # ys" by (auto simp: in_set_conv_decomp)
  with assms(1) have "q_ptr q \<notin> q_ptr ` set xs" "q_ptr q \<notin> q_ptr ` set ys" by auto
  then have "list_del_queue q xs = xs" "list_del_queue q ys = ys"
    by (simp_all add: list_del_queue_notin)
  with s have "list_del_queue q qs = xs @ ys" by (simp add: list_del_queue_def)
  with s show thesis by (rule that)
qed

end
