(* ===== verification/Doorbell.thy ===== *)
theory Doorbell
  imports Queue_Types
begin

text \<open>
  Doorbells: \<^verbatim>\<open>kfd/kfd_doorbell.c\<close>, with the BAR index computation of
  \<^verbatim>\<open>kfd_amdgpu/amdgpu_doorbell_mgr.c\<close> and the MES slice size of \<^verbatim>\<open>kfd_amdgpu/amdgpu_mes.c\<close>.

  The device record holds what the doorbell, GTT and kernel-queue code use of
  \<^verbatim>\<open>struct kfd_dev\<close>, its \<^verbatim>\<open>device_info\<close> and its \<^verbatim>\<open>shared_resources\<close>. Buffer objects are represented by
  their offset in the doorbell aperture; the outcome of \<^verbatim>\<open>amdgpu_bo_create_kernel\<close>, which is the
  TTM memory manager's, is an argument.
\<close>

unbundle bit_operations_syntax

record kfd_dev =
  gtt :: kfd_gtt
  kfd_doorbell_bitmap :: bitmap
  doorbells :: u64
  doorbell_kernel_ptr :: u64
  doorbell_base :: u64
  doorbell_size :: u32
  enable_mes :: bool
  soc15 :: bool
  gt_mullins :: bool
  non_cp_doorbells_start :: u32
  non_cp_doorbells_end :: u32

section \<open>Sizes and indices\<close>

definition roundup :: "nat \<Rightarrow> nat \<Rightarrow> nat" where
  "roundup x y = ((x + (y - 1)) div y) * y"

definition amdgpu_mes_doorbell_process_slice :: nat where
  "amdgpu_mes_doorbell_process_slice = roundup (8 * 1024) PAGE_SIZE"

definition kfd_doorbell_process_slice :: "kfd_dev \<Rightarrow> nat" where
  "kfd_doorbell_process_slice kfd =
     (if \<not> enable_mes kfd
      then roundup (unat (doorbell_size kfd * of_nat KFD_MAX_NUM_OF_QUEUES_PER_PROCESS)) PAGE_SIZE
      else amdgpu_mes_doorbell_process_slice)"

text \<open>
  \<^verbatim>\<open>amdgpu_doorbell_index_on_bar\<close>: the object's offset is truncated to a signed 32-bit \<^verbatim>\<open>int\<close>, then
  converted to \<^verbatim>\<open>size_t\<close> for the division by \<^verbatim>\<open>sizeof(u32)\<close>; the sum is returned as 32 bits.
\<close>

definition amdgpu_doorbell_index_on_bar :: "u64 \<Rightarrow> u32 \<Rightarrow> u32 \<Rightarrow> u32" where
  "amdgpu_doorbell_index_on_bar db_bo doorbell_index db_size =
     (let db_bo_offset = (ucast db_bo :: u32) in
      ucast ((scast db_bo_offset :: u64) div 4 +
             ucast (doorbell_index * ((db_size + 4 - 1) div 4))))"

section \<open>Kernel doorbells\<close>

text \<open>\<^verbatim>\<open>kfd_doorbell_init\<close>; \<open>bo\<close> is the outcome of \<^verbatim>\<open>amdgpu_bo_create_kernel\<close>: offset and CPU address.\<close>

definition kfd_doorbell_init :: "bool \<Rightarrow> errno + (u64 \<times> u64) \<Rightarrow> kfd_dev \<Rightarrow> retval \<times> kfd_dev" where
  "kfd_doorbell_init zalloc_ok bo kfd =
     (if \<not> zalloc_ok then (Err ENOMEM, kfd)
      else let kfd1 = kfd\<lparr>kfd_doorbell_bitmap := bitmap_zalloc (PAGE_SIZE div 4)\<rparr> in
           case bo of
             Inl r \<Rightarrow> (Err r, kfd1\<lparr>kfd_doorbell_bitmap := []\<rparr>)
           | Inr (offset, ptr) \<Rightarrow> (OK, kfd1\<lparr>doorbells := offset, doorbell_kernel_ptr := ptr\<rparr>))"

definition kfd_doorbell_fini :: "kfd_dev \<Rightarrow> kfd_dev" where
  "kfd_doorbell_fini kfd = kfd\<lparr>kfd_doorbell_bitmap := [], doorbells := 0, doorbell_kernel_ptr := 0\<rparr>"

text \<open>
  \<^verbatim>\<open>kfd_get_kernel_doorbell\<close> returns the pointer with the doorbell offset, or \<open>None\<close> for null. The bit is set
  before the index is checked: the flag in the result says that \<^verbatim>\<open>__set_bit\<close> wrote beyond the bitmap.
\<close>

definition kfd_get_kernel_doorbell :: "kfd_dev \<Rightarrow> (u64 \<times> u32) option \<times> bool \<times> kfd_dev" where
  "kfd_get_kernel_doorbell kfd =
     (let inx = find_first_zero_bit (kfd_doorbell_bitmap kfd) (PAGE_SIZE div 4);
          oob = (inx \<ge> length (kfd_doorbell_bitmap kfd));
          kfd1 = kfd\<lparr>kfd_doorbell_bitmap := set_bit_at inx (kfd_doorbell_bitmap kfd)\<rparr> in
      if inx \<ge> KFD_MAX_NUM_OF_QUEUES_PER_PROCESS then (None, oob, kfd1)
      else (Some (doorbell_kernel_ptr kfd + of_nat (4 * (inx * 2)),
                  amdgpu_doorbell_index_on_bar (doorbells kfd) (of_nat inx) (doorbell_size kfd)),
            oob, kfd1))"

text \<open>The pointer difference counts 32-bit words; \<^verbatim>\<open>inx\<close> is an \<^verbatim>\<open>unsigned int\<close>.\<close>

definition kfd_release_kernel_doorbell :: "kfd_dev \<Rightarrow> u64 \<Rightarrow> kfd_dev" where
  "kfd_release_kernel_doorbell kfd db_addr =
     (let inx = (ucast ((db_addr - doorbell_kernel_ptr kfd) div 4) :: u32) div 2 in
      kfd\<lparr>kfd_doorbell_bitmap := clear_bit_at (unat inx) (kfd_doorbell_bitmap kfd)\<rparr>)"

text \<open>Doorbell writes: the MMIO store, or nothing for a null pointer.\<close>

definition write_kernel_doorbell :: "u64 option \<Rightarrow> u32 \<Rightarrow> (u64 \<times> u32) option" where
  "write_kernel_doorbell db value = map_option (\<lambda>a. (a, value)) db"

definition write_kernel_doorbell64 :: "u64 option \<Rightarrow> u64 \<Rightarrow> (u64 \<times> u64) option" where
  "write_kernel_doorbell64 db value = map_option (\<lambda>a. (a, value)) db"

section \<open>Process doorbells\<close>

text \<open>The loop over the first half of the doorbell indices of \<^verbatim>\<open>init_doorbell_bitmap\<close>.\<close>

fun reserve_doorbells :: "u32 \<Rightarrow> u32 \<Rightarrow> nat list \<Rightarrow> bitmap \<Rightarrow> bitmap" where
  "reserve_doorbells rstart rend [] bm = bm"
| "reserve_doorbells rstart rend (i # is) bm =
     reserve_doorbells rstart rend is
       (if rstart \<le> of_nat i \<and> of_nat i \<le> rend
        then set_bit_at (i + KFD_QUEUE_DOORBELL_MIRROR_OFFSET) (set_bit_at i bm)
        else bm)"

definition init_doorbell_bitmap :: "kfd_dev \<Rightarrow> bitmap \<Rightarrow> bitmap" where
  "init_doorbell_bitmap dev bm =
     (if \<not> soc15 dev then bm
      else reserve_doorbells (non_cp_doorbells_start dev) (non_cp_doorbells_end dev)
             [0..<KFD_MAX_NUM_OF_QUEUES_PER_PROCESS div 2] bm)"

definition kfd_alloc_process_doorbells ::
    "bool \<Rightarrow> errno + u64 \<Rightarrow> kfd_dev \<Rightarrow> qcm_process_device \<Rightarrow> retval \<times> qcm_process_device" where
  "kfd_alloc_process_doorbells zalloc_ok bo kfd qpd =
     (if \<not> zalloc_ok then (Err ENOMEM, qpd\<lparr>doorbell_bitmap := None\<rparr>)
      else let bm = init_doorbell_bitmap kfd (bitmap_zalloc KFD_MAX_NUM_OF_QUEUES_PER_PROCESS) in
           case bo of
             Inl r \<Rightarrow> (Err r, qpd\<lparr>doorbell_bitmap := None\<rparr>)
           | Inr offset \<Rightarrow> (OK, qpd\<lparr>doorbell_bitmap := Some bm, proc_doorbells := Some offset\<rparr>))"

definition kfd_free_process_doorbells :: "qcm_process_device \<Rightarrow> qcm_process_device" where
  "kfd_free_process_doorbells qpd = qpd\<lparr>doorbell_bitmap := None, proc_doorbells := None\<rparr>"

text \<open>\<^verbatim>\<open>kfd_get_process_doorbells\<close>: the physical address, 0 on error; allocates on first use.\<close>

definition kfd_get_process_doorbells ::
    "bool \<Rightarrow> errno + u64 \<Rightarrow> kfd_dev \<Rightarrow> qcm_process_device \<Rightarrow> u64 \<times> qcm_process_device" where
  "kfd_get_process_doorbells zalloc_ok bo kfd qpd =
     (let (r, qpd1) = (case proc_doorbells qpd of
                         None \<Rightarrow> kfd_alloc_process_doorbells zalloc_ok bo kfd qpd
                       | Some _ \<Rightarrow> (OK, qpd)) in
      case (r, proc_doorbells qpd1) of
        (OK, Some db) \<Rightarrow>
          (doorbell_base kfd +
             ucast (amdgpu_doorbell_index_on_bar db 0 (doorbell_size kfd)) * 4, qpd1)
      | _ \<Rightarrow> (0, qpd1))"

text \<open>
  \<^verbatim>\<open>kfd_doorbell_mmap\<close> of the range \<open>[vm_start, vm_end)\<close>: on success the page frame number and the
  size handed to \<^verbatim>\<open>io_remap_pfn_range\<close>. \<open>qpd\<close> is \<open>None\<close> when the process has no data for the device.
\<close>

definition kfd_doorbell_mmap ::
    "bool \<Rightarrow> errno + u64 \<Rightarrow> kfd_dev \<Rightarrow> qcm_process_device option \<Rightarrow> u64 \<Rightarrow> u64 \<Rightarrow>
     (errno + (u64 \<times> u64 \<times> nat)) \<times> qcm_process_device option" where
  "kfd_doorbell_mmap zalloc_ok bo kfd qpd vm_start vm_end =
     (if vm_end - vm_start \<noteq> of_nat (kfd_doorbell_process_slice kfd) then (Inl EINVAL, qpd)
      else case qpd of
        None \<Rightarrow> (Inl EINVAL, None)
      | Some pd \<Rightarrow>
          let (address, pd1) = kfd_get_process_doorbells zalloc_ok bo kfd pd in
          if address = 0 then (Inl ENOMEM, Some pd1)
          else (Inr (vm_start, drop_bit 12 address, kfd_doorbell_process_slice kfd), Some pd1))"

section \<open>Lemmas\<close>

lemma length_reserve_doorbells [simp]: "length (reserve_doorbells s e is bm) = length bm"
  by (induction "is" arbitrary: bm) auto

lemma test_reserve_doorbells:
  assumes "\<forall>i\<in>set is. i + 512 < length bm"
  shows "test_bit j (reserve_doorbells s e is bm) \<longleftrightarrow>
    test_bit j bm \<or> (\<exists>i\<in>set is. s \<le> of_nat i \<and> of_nat i \<le> e \<and> (j = i \<or> j = i + 512))"
  using assms
  by (induction "is" arbitrary: bm) (auto simp: bitmap_simps)

text \<open>A kernel doorbell allocator whose bitmap has its full length.\<close>

definition kernel_doorbells_wf :: "kfd_dev \<Rightarrow> bool" where
  "kernel_doorbells_wf kfd \<longleftrightarrow> length (kfd_doorbell_bitmap kfd) = PAGE_SIZE div 4"

lemma kfd_get_kernel_doorbell_wf:
  "kernel_doorbells_wf kfd \<Longrightarrow> kfd_get_kernel_doorbell kfd = (r, oob, kfd') \<Longrightarrow>
   kernel_doorbells_wf kfd' \<and> gtt kfd' = gtt kfd"
  by (auto simp: kernel_doorbells_wf_def kfd_get_kernel_doorbell_def Let_def split: if_splits)

lemma kfd_get_kernel_doorbell_Some:
  assumes "kernel_doorbells_wf kfd" and "kfd_get_kernel_doorbell kfd = (Some (p, off), oob, kfd')"
  obtains inx where "inx < 1024" "\<not> test_bit inx (kfd_doorbell_bitmap kfd)" "\<not> oob"
    "inx = find_first_zero_bit (kfd_doorbell_bitmap kfd) 1024"
    "kfd' = kfd\<lparr>kfd_doorbell_bitmap := set_bit_at inx (kfd_doorbell_bitmap kfd)\<rparr>"
    "p = doorbell_kernel_ptr kfd + of_nat (8 * inx)"
    "off = amdgpu_doorbell_index_on_bar (doorbells kfd) (of_nat inx) (doorbell_size kfd)"
proof -
  let ?i = "find_first_zero_bit (kfd_doorbell_bitmap kfd) 1024"
  from assms have i: "?i < 1024" "oob = (length (kfd_doorbell_bitmap kfd) \<le> ?i)"
    "kfd' = kfd\<lparr>kfd_doorbell_bitmap := set_bit_at ?i (kfd_doorbell_bitmap kfd)\<rparr>"
    "p = doorbell_kernel_ptr kfd + of_nat (4 * (?i * 2))"
    "off = amdgpu_doorbell_index_on_bar (doorbells kfd) (of_nat ?i) (doorbell_size kfd)"
    by (auto simp: kfd_get_kernel_doorbell_def Let_def split: if_splits)
  show thesis
    by (rule that [of ?i])
      (use i assms(1) find_first_zero_bit_least(1) [OF i(1)] in
        \<open>simp_all add: kernel_doorbells_wf_def\<close>)
qed

text \<open>The index recovered from the pointer is the allocated one.\<close>

lemma kernel_doorbell_index_inverse:
  assumes "inx < 1024"
  shows "(ucast ((of_nat (8 * inx) :: u64) div 4) :: u32) = of_nat (2 * inx)"
    and "unat ((ucast ((of_nat (8 * inx) :: u64) div 4) :: u32) div 2) = inx"
proof -
  have "of_nat (8 * inx) div 4 = (of_nat (2 * inx) :: u64)"
  unfolding word_unat_eq_iff
  proof -
    have "unat (of_nat (8 * inx) div 4 :: u64) = 8 * inx div 4"
      using assms by (simp add: unat_div unat_of_nat_small del: of_nat_mult)
    also have "\<dots> = unat (of_nat (2 * inx) :: u64)"
      using assms by (simp add: unat_of_nat_small del: of_nat_mult)
    finally show "unat (of_nat (8 * inx) div 4 :: u64) = unat (of_nat (2 * inx) :: u64)" .
  qed
  then show eq: "(ucast ((of_nat (8 * inx) :: u64) div 4) :: u32) = of_nat (2 * inx)"
    using assms by (simp add: ucast_of_nat_small del: of_nat_mult)
  show "unat ((ucast ((of_nat (8 * inx) :: u64) div 4) :: u32) div 2) = inx"
    unfolding eq using assms by (simp add: unat_div unat_of_nat_small del: of_nat_mult)
qed

section \<open>Properties\<close>

text \<open>
  Kernel doorbells: while one of the 1024 bits is free, \<^verbatim>\<open>kfd_get_kernel_doorbell\<close> takes the
  lowest one without touching memory outside the bitmap, and releasing the returned pointer
  gives exactly that bit back.
\<close>

theorem kernel_doorbell_roundtrip:
  assumes "kernel_doorbells_wf kfd" and "i < 1024" and "\<not> test_bit i (kfd_doorbell_bitmap kfd)"
  shows "\<exists>p off kfd'. kfd_get_kernel_doorbell kfd = (Some (p, off), False, kfd') \<and>
           kernel_doorbells_wf kfd' \<and> kfd_release_kernel_doorbell kfd' p = kfd \<and>
           (\<exists>inx\<le>i. bits_of (kfd_doorbell_bitmap kfd') = insert inx (bits_of (kfd_doorbell_bitmap kfd)))"
proof -
  let ?bm = "kfd_doorbell_bitmap kfd"
  let ?f = "find_first_zero_bit ?bm 1024"
  have f: "?f < 1024" "?f \<le> i"
    using assms find_first_zero_bit_none [of ?bm 1024 i] find_first_zero_bit_le [of ?bm 1024]
      find_first_zero_bit_least(2) [of ?bm 1024 i] by (metis le_neq_implies_less not_less)+
  obtain p off kfd' where g: "kfd_get_kernel_doorbell kfd = (Some (p, off), False, kfd')"
    using f assms(1) by (auto simp: kfd_get_kernel_doorbell_def Let_def kernel_doorbells_wf_def)
  obtain inx where x: "inx < 1024" "\<not> test_bit inx ?bm" "inx = ?f"
    "kfd' = kfd\<lparr>kfd_doorbell_bitmap := set_bit_at inx ?bm\<rparr>"
    "p = doorbell_kernel_ptr kfd + of_nat (8 * inx)"
    using kfd_get_kernel_doorbell_Some [OF assms(1) g] by metis
  have "kfd_release_kernel_doorbell kfd' p = kfd"
    using x by (simp add: kfd_release_kernel_doorbell_def Let_def clear_set_bit_at
        kernel_doorbell_index_inverse(2) del: of_nat_mult)
  moreover have "bits_of (kfd_doorbell_bitmap kfd') = insert inx (bits_of ?bm)"
    using x assms(1) by (simp add: bits_of_set_bit_at kernel_doorbells_wf_def)
  ultimately show ?thesis
    using g f(2) x(3) kfd_get_kernel_doorbell_wf [OF assms(1) g] by metis
qed

text \<open>A device with a fresh kernel doorbell page, 8-byte doorbells and reserved doorbells 4 to 6.\<close>

definition doorbell_example :: kfd_dev where
  "doorbell_example = \<lparr>gtt = gtt_example, kfd_doorbell_bitmap = bitmap_zalloc 1024,
     doorbells = 0x2000, doorbell_kernel_ptr = 0xA000, doorbell_base = 0xE0000000,
     doorbell_size = 8, enable_mes = False, soc15 = True, gt_mullins = True,
     non_cp_doorbells_start = 4, non_cp_doorbells_end = 6\<rparr>"

lemma doorbell_example_wf: "kernel_doorbells_wf doorbell_example"
  by (simp add: kernel_doorbells_wf_def doorbell_example_def)

lemma doorbell_example_get:
  "\<exists>p off kfd'. kfd_get_kernel_doorbell doorbell_example = (Some (p, off), False, kfd')"
proof -
  have "find_first_zero_bit (kfd_doorbell_bitmap doorbell_example) 1024 = 0"
    by (simp add: find_first_zero_bit_def find_next_zero_bit_def find_next_eq_off
        doorbell_example_def bitmap_simps)
  then show ?thesis
    using doorbell_example_wf by (simp add: kfd_get_kernel_doorbell_def kernel_doorbells_wf_def)
qed

theorem kernel_doorbell_roundtrip_witness:
  "\<exists>p off kfd'. kfd_get_kernel_doorbell doorbell_example = (Some (p, off), False, kfd') \<and>
     kfd_release_kernel_doorbell kfd' p = doorbell_example"
proof -
  have "\<not> test_bit 3 (kfd_doorbell_bitmap doorbell_example)"
    by (simp add: doorbell_example_def bitmap_simps)
  then show ?thesis using kernel_doorbell_roundtrip [OF doorbell_example_wf, of 3] by fastforce
qed

text \<open>
  With 8-byte doorbells the CPU pointer and the doorbell offset given to the hardware name
  the same doorbell: both are twice the index in 32-bit words from the start of the page.
\<close>

theorem kernel_doorbell_pointer_matches_offset:
  assumes "kernel_doorbells_wf kfd" and "kfd_get_kernel_doorbell kfd = (Some (p, off), oob, kfd')"
    and "doorbell_size kfd = 8"
  shows "ucast ((p - doorbell_kernel_ptr kfd) div 4) =
         off - amdgpu_doorbell_index_on_bar (doorbells kfd) 0 8"
proof -
  obtain inx where x: "inx < 1024" "p = doorbell_kernel_ptr kfd + of_nat (8 * inx)"
    "off = amdgpu_doorbell_index_on_bar (doorbells kfd) (of_nat inx) 8"
    using kfd_get_kernel_doorbell_Some [OF assms(1,2)] assms(3) by metis
  have off: "off = amdgpu_doorbell_index_on_bar (doorbells kfd) 0 8 + of_nat inx * 2"
    by (simp add: x(3) amdgpu_doorbell_index_on_bar_def Let_def ucast_down_add ucast_down_up)
  have "ucast ((p - doorbell_kernel_ptr kfd) div 4) = (of_nat (2 * inx) :: u32)"
    using kernel_doorbell_index_inverse(1) [OF x(1)] by (simp add: x(2) del: of_nat_mult)
  then show ?thesis by (simp add: off mult.commute)
qed

theorem kernel_doorbell_pointer_matches_offset_witness:
  "\<exists>p off kfd'. kfd_get_kernel_doorbell doorbell_example = (Some (p, off), False, kfd') \<and>
     ucast ((p - 0xA000) div 4) = off - amdgpu_doorbell_index_on_bar 0x2000 0 8"
proof -
  obtain p off kfd' where g:
    "kfd_get_kernel_doorbell doorbell_example = (Some (p, off), False, kfd')"
    using doorbell_example_get by blast
  then show ?thesis
    using kernel_doorbell_pointer_matches_offset [OF doorbell_example_wf g]
    by (simp add: doorbell_example_def)
qed

text \<open>
  Once all 1024 kernel doorbells are in use, \<^verbatim>\<open>kfd_get_kernel_doorbell\<close> returns null, but only
  after it has set a bit outside the bitmap.
\<close>

theorem kernel_doorbell_exhausted_out_of_bounds:
  assumes "kernel_doorbells_wf kfd" and "\<forall>i<1024. test_bit i (kfd_doorbell_bitmap kfd)"
  shows "fst (kfd_get_kernel_doorbell kfd) = None \<and> fst (snd (kfd_get_kernel_doorbell kfd))"
proof -
  have "find_first_zero_bit (kfd_doorbell_bitmap kfd) 1024 = 1024"
    using assms(2) find_first_zero_bit_le [of "kfd_doorbell_bitmap kfd" 1024]
      find_first_zero_bit_least(1) [of "kfd_doorbell_bitmap kfd" 1024]
    by (metis le_neq_implies_less)
  with assms(1) show ?thesis
    by (simp add: kfd_get_kernel_doorbell_def Let_def kernel_doorbells_wf_def)
qed

theorem kernel_doorbell_exhausted_out_of_bounds_witness:
  "fst (snd (kfd_get_kernel_doorbell
     (doorbell_example\<lparr>kfd_doorbell_bitmap := replicate 1024 True\<rparr>)))"
  using kernel_doorbell_exhausted_out_of_bounds
    [of "doorbell_example\<lparr>kfd_doorbell_bitmap := replicate 1024 True\<rparr>"]
  by (simp add: kernel_doorbells_wf_def test_bit_def)

text \<open>
  Process doorbells: after \<^verbatim>\<open>kfd_alloc_process_doorbells\<close> on SOC15 exactly the doorbells of the
  reserved range and their mirrors 512 higher are taken; every failure leaves no bitmap behind.
\<close>

theorem process_doorbells_reserved:
  "case kfd_alloc_process_doorbells zok bo kfd qpd of (r, qpd') \<Rightarrow>
     if r = OK
     then \<exists>bm. doorbell_bitmap qpd' = Some bm \<and> length bm = 1024 \<and> proc_doorbells qpd' \<noteq> None \<and>
       (\<forall>j. test_bit j bm = (soc15 kfd \<and> (\<exists>i<512. unat (non_cp_doorbells_start kfd) \<le> i \<and>
              i \<le> unat (non_cp_doorbells_end kfd) \<and> (j = i \<or> j = i + 512))))
     else doorbell_bitmap qpd' = None \<and> proc_doorbells qpd' = proc_doorbells qpd"
proof -
  have cmp: "(x \<le> of_nat i) = (unat x \<le> i)" "(of_nat i \<le> x) = (i \<le> unat x)"
    if "i < 512" for i and x :: u32
    using that by (simp_all add: word_le_nat_alt unat_of_nat_small)
  have "test_bit j (init_doorbell_bitmap kfd (bitmap_zalloc 1024)) =
      (soc15 kfd \<and> (\<exists>i<512. unat (non_cp_doorbells_start kfd) \<le> i \<and>
         i \<le> unat (non_cp_doorbells_end kfd) \<and> (j = i \<or> j = i + 512)))" for j
    by (auto simp: init_doorbell_bitmap_def test_reserve_doorbells bitmap_simps cmp)
  moreover have "length (init_doorbell_bitmap kfd (bitmap_zalloc 1024)) = 1024"
    by (simp add: init_doorbell_bitmap_def)
  ultimately show ?thesis
    by (auto simp: kfd_alloc_process_doorbells_def Let_def split: sum.splits)
qed

end
