(* ===== verification/Kernel_Queue.thy ===== *)
theory Kernel_Queue
  imports Doorbell
begin

text \<open>
  Kernel queues: \<^verbatim>\<open>kfd/kfd_kernel_queue.c\<close>. A kernel queue (HIQ or DIQ) is a ring of 32-bit words the
  driver writes and the GPU's command processor reads. The record holds the fields of
  \<^verbatim>\<open>struct kernel_queue\<close> together with the memory they point to: the ring itself, the read pointer
  the hardware publishes and the write pointer the driver publishes.

  The ring is shown to refine an unbounded FIFO of words: acquiring, filling and submitting a
  packet appends (padding and) the packet to what the hardware has not read yet, and never
  overwrites an unread word. Initialisation is shown to release everything it took on each of
  its error paths.
\<close>

section \<open>State\<close>

record kernel_queue =
  kq_queue :: queue
  kq_doorbell_size :: u32
  pending_wptr64 :: u64
  pending_wptr :: u32
  nop_packet :: u32
  rptr_mem :: "kfd_mem_obj option"
  rptr_kernel :: u32
  wptr_mem :: "kfd_mem_obj option"
  wptr64_kernel :: u64
  pq :: "kfd_mem_obj option"
  pq_kernel :: "u32 list"
  eop_mem :: "kfd_mem_obj option"
  fence_mem_obj :: "kfd_mem_obj option"

text \<open>\<^verbatim>\<open>*kq->wptr_kernel\<close> is the low half of the 64-bit word, by the union in the structure.\<close>

definition wptr_kernel :: "kernel_queue \<Rightarrow> u32" where
  "wptr_kernel kq = ucast (wptr64_kernel kq)"

definition set_wptr_kernel :: "u32 \<Rightarrow> kernel_queue \<Rightarrow> kernel_queue" where
  "set_wptr_kernel v kq =
     kq\<lparr>wptr64_kernel := push_bit 32 (drop_bit 32 (wptr64_kernel kq)) + ucast v\<rparr>"

definition queue_size_dwords :: "kernel_queue \<Rightarrow> u64" where
  "queue_size_dwords kq = queue_size (properties (kq_queue kq)) div 4"

section \<open>Ring operations\<close>

text \<open>
  The loop that fills the rest of the ring with \<^verbatim>\<open>nop\<close> packets and rolls over to position 0. The
  write pointer is below the ring size \<open>Q\<close>, so the 32-bit increment does not wrap.
\<close>

function kq_fill_nops :: "nat \<Rightarrow> u32 \<Rightarrow> nat \<Rightarrow> u64 \<Rightarrow> u32 list \<Rightarrow> u64 \<times> u32 list" where
  "kq_fill_nops Q nop w w64 mem =
     (if 0 < w \<and> 0 < Q then kq_fill_nops Q nop ((w + 1) mod Q) (w64 + 1) (mem[w := nop])
      else (w64, mem))"
  by pat_completeness auto
termination
proof (relation "measure (\<lambda>(Q, nop, w, w64, mem).
    if w = 0 then 0 else if w < Q then Q - w else Suc Q)", goal_cases)
  case (2 Q nop w w64 mem)
  have "(w + 1) mod Q < Q" using 2 by simp
  moreover have "(w + 1) mod Q = w + 1 \<or> (w + 1) mod Q = 0" if "w < Q"
    using that by (cases "Suc w = Q") auto
  ultimately show ?case using 2 by (auto simp: le_Suc_eq)
qed simp

declare kq_fill_nops.simps [simp del]

definition kq_acquire_packet_buffer ::
    "kernel_queue \<Rightarrow> u64 \<Rightarrow> (errno + nat) \<times> kernel_queue" where
  "kq_acquire_packet_buffer kq packet_size =
     (let rptr = rptr_kernel kq; wptr = pending_wptr kq; Q = queue_size_dwords kq;
          available_size = (ucast rptr + Q - 1 - ucast wptr) mod Q in
      if packet_size > available_size then (Inl ENOMEM, kq)
      else if ucast wptr + packet_size \<ge> Q
      then (if packet_size \<ge> ucast rptr then (Inl ENOMEM, kq)
            else let (wptr64, mem) = kq_fill_nops (unat Q) (nop_packet kq) (unat wptr)
                                       (pending_wptr64 kq) (pq_kernel kq) in
                 (Inr 0, kq\<lparr>pq_kernel := mem, pending_wptr := ucast packet_size,
                            pending_wptr64 := wptr64 + packet_size\<rparr>))
      else (Inr (unat wptr),
            kq\<lparr>pending_wptr := wptr + ucast packet_size,
               pending_wptr64 := pending_wptr64 kq + packet_size\<rparr>))"

text \<open>\<^verbatim>\<open>kq_submit_packet\<close>: publishes the write pointer and rings the doorbell.\<close>

datatype doorbell_write = Doorbell32 u64 u32 | Doorbell64 u64 u64

definition kq_submit_packet :: "kernel_queue \<Rightarrow> kernel_queue \<times> doorbell_write option" where
  "kq_submit_packet kq =
     (if kq_doorbell_size kq = 8
      then (kq\<lparr>wptr64_kernel := pending_wptr64 kq\<rparr>,
            map_option (\<lambda>(a, v). Doorbell64 a v)
              (write_kernel_doorbell64 (doorbell_ptr (properties (kq_queue kq))) (pending_wptr64 kq)))
      else (set_wptr_kernel (pending_wptr kq) kq,
            map_option (\<lambda>(a, v). Doorbell32 a v)
              (write_kernel_doorbell (doorbell_ptr (properties (kq_queue kq))) (pending_wptr kq))))"

definition kq_rollback_packet :: "kernel_queue \<Rightarrow> kernel_queue" where
  "kq_rollback_packet kq =
     (if kq_doorbell_size kq = 8
      then kq\<lparr>pending_wptr64 := wptr64_kernel kq,
              pending_wptr := ucast (ucast (wptr_kernel kq) mod queue_size_dwords kq)\<rparr>
      else kq\<lparr>pending_wptr := wptr_kernel kq\<rparr>)"

text \<open>Writing the words of a packet at the acquired position (\<^verbatim>\<open>buffer[i] = ...\<close>).\<close>

fun write_words :: "nat \<Rightarrow> u32 list \<Rightarrow> u32 list \<Rightarrow> u32 list" where
  "write_words w [] mem = mem"
| "write_words w (x # xs) mem = write_words (Suc w) xs (mem[w := x])"

section \<open>Ring lemmas\<close>

lemma length_write_words [simp]: "length (write_words w xs mem) = length mem"
  by (induction xs arbitrary: w mem) auto

lemma write_words_eq:
  "w + length xs \<le> length mem \<Longrightarrow>
   write_words w xs mem = take w mem @ xs @ drop (w + length xs) mem"
proof (induction xs arbitrary: w mem)
  case (Cons x xs)
  then have "write_words (Suc w) xs (mem[w := x]) =
      take (Suc w) (mem[w := x]) @ xs @ drop (Suc w + length xs) (mem[w := x])"
    by (intro Cons.IH) simp
  with Cons.prems show ?case by (simp add: take_Suc_conv_app_nth)
qed simp

text \<open>The fill loop writes \<open>nop\<close> from the write pointer to the end of the ring.\<close>

lemma kq_fill_nops_eq:
  assumes "0 < w" "w < Q" "length mem = Q"
  shows "kq_fill_nops Q nop w w64 mem =
           (w64 + of_nat (Q - w), take w mem @ replicate (Q - w) nop)"
  using assms
proof (induction "Q - w" arbitrary: w w64 mem)
  case (Suc d)
  have step: "kq_fill_nops Q nop w w64 mem =
      kq_fill_nops Q nop ((w + 1) mod Q) (w64 + 1) (mem[w := nop])"
    using Suc.prems by (subst kq_fill_nops.simps) simp
  have take: "take (Suc w) (mem[w := nop]) = take w mem @ [nop]"
    using Suc.prems by (simp add: take_Suc_conv_app_nth)
  show ?case
  proof (cases "w + 1 = Q")
    case True
    have "kq_fill_nops Q nop 0 w' m = (w', m)" for w' m by (subst kq_fill_nops.simps) simp
    with True step take Suc.prems show ?thesis by (simp add: True [symmetric])
  next
    case False
    with Suc.prems have lt: "w + 1 < Q" by simp
    then have "kq_fill_nops Q nop (w + 1) (w64 + 1) (mem[w := nop]) =
        (w64 + 1 + of_nat (Q - (w + 1)), take (w + 1) (mem[w := nop]) @ replicate (Q - (w + 1)) nop)"
      using Suc.hyps Suc.prems by (intro Suc.hyps(1)) auto
    moreover have "Q - w = Suc (Q - (w + 1))" using lt by simp
    then have "of_nat (Q - w) = (1 + of_nat (Q - (w + 1)) :: u64)"
      "replicate (Q - w) nop = nop # replicate (Q - (w + 1)) nop"
      by (simp_all only: of_nat_Suc replicate_Suc)
    ultimately show ?thesis using step lt take by (simp add: add.assoc)
  qed
qed simp

section \<open>Well-formed rings and the words not yet read\<close>

text \<open>Cyclic distance of two positions of a ring.\<close>

lemma ring_distance:
  fixes a b Q :: nat
  assumes "a < Q" "b < Q"
  shows "(b + Q - a) mod Q = (if a \<le> b then b - a else b + Q - a)"
proof (cases "a \<le> b")
  case True
  then have "b + Q - a = (b - a) + Q" by simp
  then have "(b + Q - a) mod Q = (b - a) mod Q" by (simp only: mod_add_self2)
  with True assms show ?thesis by simp
qed (use assms in simp)

abbreviation (input) kqQ :: "kernel_queue \<Rightarrow> nat" where "kqQ kq \<equiv> unat (queue_size_dwords kq)"
abbreviation (input) kqr :: "kernel_queue \<Rightarrow> nat" where "kqr kq \<equiv> unat (rptr_kernel kq)"
abbreviation (input) kqw :: "kernel_queue \<Rightarrow> nat" where "kqw kq \<equiv> unat (pending_wptr kq)"

definition kq_wf :: "kernel_queue \<Rightarrow> bool" where
  "kq_wf kq \<longleftrightarrow> 0 < kqQ kq \<and> kqQ kq dvd 2 ^ 32 \<and> length (pq_kernel kq) = kqQ kq \<and>
     kqw kq < kqQ kq \<and> kqr kq < kqQ kq \<and> unat (pending_wptr64 kq) mod kqQ kq = kqw kq"

definition kq_unread :: "kernel_queue \<Rightarrow> u32 list" where
  "kq_unread kq = (if kqr kq \<le> kqw kq
     then take (kqw kq - kqr kq) (drop (kqr kq) (pq_kernel kq))
     else drop (kqr kq) (pq_kernel kq) @ take (kqw kq) (pq_kernel kq))"

text \<open>The unread words are those at the cyclic positions from the read to the write pointer.\<close>

lemma kq_unread_cyclic:
  assumes "kq_wf kq"
  shows "kq_unread kq = map (\<lambda>i. pq_kernel kq ! ((kqr kq + i) mod kqQ kq))
           [0..<(kqw kq + kqQ kq - kqr kq) mod kqQ kq]"
proof (cases "kqr kq \<le> kqw kq")
  case True
  then have "(kqw kq + kqQ kq - kqr kq) mod kqQ kq = kqw kq - kqr kq"
    using assms by (simp add: kq_wf_def ring_distance)
  with True assms show ?thesis
    by (intro nth_equalityI) (auto simp: kq_unread_def kq_wf_def)
next
  case False
  then have "(kqw kq + kqQ kq - kqr kq) mod kqQ kq = kqw kq + kqQ kq - kqr kq"
    using assms by (simp add: kq_wf_def ring_distance)
  with False assms show ?thesis
    by (intro nth_equalityI) (auto simp: kq_unread_def kq_wf_def nth_append le_mod_geq add.commute)
qed

lemma kq_wf_bound: "kq_wf kq \<Longrightarrow> kqQ kq \<le> 2 ^ 32"
  by (simp add: kq_wf_def dvd_imp_le)

lemma kq_available_size:
  assumes "kq_wf kq"
  shows "unat ((ucast (rptr_kernel kq) + queue_size_dwords kq - 1 - ucast (pending_wptr kq)) mod
           queue_size_dwords kq) = (kqr kq + kqQ kq - 1 - kqw kq) mod kqQ kq"
proof -
  have "ucast (rptr_kernel kq) + queue_size_dwords kq - 1 - ucast (pending_wptr kq) =
      (of_nat (kqr kq + kqQ kq - 1 - kqw kq) :: u64)"
    using assms by (simp add: kq_wf_def of_nat_diff)
  moreover have "kqr kq + kqQ kq - 1 - kqw kq < 2 ^ 64"
    using kq_wf_bound [OF assms] assms by (auto simp: kq_wf_def)
  ultimately show ?thesis by (simp add: unat_mod unat_of_nat_small)
qed

text \<open>The free space, without the one slot that tells full from empty.\<close>

lemma kq_available_cases:
  assumes "kq_wf kq"
  shows "(kqr kq + kqQ kq - 1 - kqw kq) mod kqQ kq =
    (if kqr kq \<le> kqw kq then kqr kq + kqQ kq - 1 - kqw kq else kqr kq - 1 - kqw kq)"
proof (cases "kqr kq = 0")
  case False
  then have "kqr kq + kqQ kq - 1 - kqw kq = (kqr kq - 1) + kqQ kq - kqw kq" by simp
  with False assms show ?thesis by (auto simp: kq_wf_def ring_distance)
qed (use assms in \<open>auto simp: kq_wf_def\<close>)

text \<open>\<^verbatim>\<open>kq_acquire_packet_buffer\<close> over natural numbers.\<close>

lemma kq_acquire_cases:
  assumes wf: "kq_wf kq" and n: "n = unat packet_size"
  obtains
    (no_space) "kq_acquire_packet_buffer kq packet_size = (Inl ENOMEM, kq)"
      "kqr kq \<le> kqw kq \<longrightarrow> kqQ kq \<le> kqw kq + n \<and> kqr kq \<le> n"
      "kqw kq < kqr kq \<longrightarrow> kqr kq \<le> kqw kq + n"
  | (linear) "kq_acquire_packet_buffer kq packet_size =
      (Inr (kqw kq), kq\<lparr>pending_wptr := pending_wptr kq + ucast packet_size,
         pending_wptr64 := pending_wptr64 kq + packet_size\<rparr>)"
      "kqw kq + n < kqQ kq" "kqw kq < kqr kq \<longrightarrow> kqw kq + n < kqr kq"
  | (rollover) "kq_acquire_packet_buffer kq packet_size =
      (Inr 0, kq\<lparr>pq_kernel := take (kqw kq) (pq_kernel kq) @
                   replicate (kqQ kq - kqw kq) (nop_packet kq),
                 pending_wptr := ucast packet_size,
                 pending_wptr64 := pending_wptr64 kq + of_nat (kqQ kq - kqw kq) + packet_size\<rparr>)"
      "kqr kq \<le> kqw kq" "n < kqr kq" "kqQ kq \<le> kqw kq + n"
proof -
  let ?av = "(ucast (rptr_kernel kq) + queue_size_dwords kq - 1 - ucast (pending_wptr kq)) mod
           queue_size_dwords kq"
  have av: "unat ?av = (if kqr kq \<le> kqw kq then kqr kq + kqQ kq - 1 - kqw kq
                        else kqr kq - 1 - kqw kq)"
    by (simp only: kq_available_size [OF wf] kq_available_cases [OF wf])
  show ?thesis
  proof (cases "packet_size > ?av")
    case True
    then have "unat ?av < n" by (simp add: n word_less_nat_alt)
    then show ?thesis
      using True av wf
      by (intro no_space) (auto simp: kq_acquire_packet_buffer_def Let_def kq_wf_def split: if_splits)
  next
    case fits: False
    then have le: "n \<le> unat ?av" by (simp add: n word_le_nat_alt not_less)
    then have "n < kqQ kq" using av wf by (auto simp: kq_wf_def split: if_splits)
    then have "kqw kq + n < 2 ^ 64" using wf kq_wf_bound [OF wf] by (simp add: kq_wf_def)
    then have sum: "unat (ucast (pending_wptr kq) + packet_size) = kqw kq + n"
      by (simp add: n unat_word_ariths)
    have ge: "(ucast (pending_wptr kq) + packet_size \<ge> queue_size_dwords kq) =
        (kqQ kq \<le> kqw kq + n)"
      by (simp add: word_le_nat_alt sum)
    have rp: "(packet_size \<ge> ucast (rptr_kernel kq)) = (kqr kq \<le> n)"
      by (simp add: word_le_nat_alt n)
    show ?thesis
    proof (cases "kqQ kq \<le> kqw kq + n")
      case False
      with fits ge le av wf show ?thesis
        by (intro linear) (auto simp: kq_acquire_packet_buffer_def Let_def kq_wf_def split: if_splits)
    next
      case wrap: True
      then have rw: "kqr kq \<le> kqw kq" using le av wf by (auto simp: kq_wf_def split: if_splits)
      show ?thesis
      proof (cases "kqr kq \<le> n")
        case True
        with fits ge rp wrap rw show ?thesis
          by (intro no_space) (auto simp: kq_acquire_packet_buffer_def Let_def)
      next
        case False
        have "kqw kq \<noteq> 0" using wrap \<open>n < kqQ kq\<close> by auto
        with wf have "kq_fill_nops (kqQ kq) (nop_packet kq) (kqw kq) (pending_wptr64 kq) (pq_kernel kq)
            = (pending_wptr64 kq + of_nat (kqQ kq - kqw kq),
               take (kqw kq) (pq_kernel kq) @ replicate (kqQ kq - kqw kq) (nop_packet kq))"
          by (intro kq_fill_nops_eq) (simp_all add: kq_wf_def)
        with fits ge rp wrap rw False show ?thesis
          by (intro rollover) (auto simp: kq_acquire_packet_buffer_def Let_def)
      qed
    qed
  qed
qed

section \<open>Refinement of a FIFO\<close>

text \<open>
  What a client does: acquire space for a packet, write its words there. The result is the
  ring with the packet in place, or the error.
\<close>

definition kq_put_packet :: "kernel_queue \<Rightarrow> u32 list \<Rightarrow> retval \<times> kernel_queue" where
  "kq_put_packet kq packet =
     (case kq_acquire_packet_buffer kq (of_nat (length packet)) of
        (Inl e, kq1) \<Rightarrow> (Err e, kq1)
      | (Inr b, kq1) \<Rightarrow> (OK, kq1\<lparr>pq_kernel := write_words b packet (pq_kernel kq1)\<rparr>))"

text \<open>The padding a packet of \<open>n\<close> words needs: \<open>nop\<close>s up to the end of the ring, if it does not fit before it.\<close>

definition kq_padding :: "kernel_queue \<Rightarrow> nat \<Rightarrow> u32 list" where
  "kq_padding kq n =
     (if kqw kq + n < kqQ kq then [] else replicate (kqQ kq - kqw kq) (nop_packet kq))"

lemma mod_sum_pending64:
  assumes "kq_wf kq"
  shows "unat (pending_wptr64 kq + x) mod kqQ kq = (kqw kq + unat x) mod kqQ kq"
proof -
  have "kqQ kq dvd 2 ^ 64"
    using assms dvd_trans [of "kqQ kq" "2 ^ 32" "2 ^ 64"] by (simp add: kq_wf_def)
  then have "unat (pending_wptr64 kq + x) mod kqQ kq =
      (unat (pending_wptr64 kq) + unat x) mod kqQ kq"
    by (simp add: unat_word_ariths mod_mod_cancel)
  then show ?thesis using assms by (metis kq_wf_def mod_add_left_eq)
qed

lemma kq_put_packet_linear:
  assumes wf: "kq_wf kq" and lt: "kqw kq + length packet < kqQ kq"
    and room: "kqw kq < kqr kq \<longrightarrow> kqw kq + length packet < kqr kq"
    and a: "kq1 = kq\<lparr>pending_wptr := pending_wptr kq + of_nat (length packet),
              pending_wptr64 := pending_wptr64 kq + of_nat (length packet)\<rparr>"
    and b: "kq2 = kq1\<lparr>pq_kernel := write_words (kqw kq) packet (pq_kernel kq1)\<rparr>"
  shows "kq_wf kq2" and "kq_unread kq2 = kq_unread kq @ packet"
proof -
  let ?n = "length packet"
  have n: "kqw kq + ?n < 2 ^ 32" using lt kq_wf_bound [OF wf] by linarith
  then have w2: "kqw kq2 = kqw kq + ?n"
    by (simp add: a b unat_word_ariths unat_of_nat_small)
  have q: "queue_size_dwords kq2 = queue_size_dwords kq" "rptr_kernel kq2 = rptr_kernel kq"
    by (simp_all add: a b queue_size_dwords_def)
  have mem: "pq_kernel kq2 = take (kqw kq) (pq_kernel kq) @ packet @ drop (kqw kq + ?n) (pq_kernel kq)"
    using wf lt by (simp add: a b write_words_eq kq_wf_def)
  have "unat (pending_wptr64 kq2) mod kqQ kq = kqw kq2"
    using mod_sum_pending64 [OF wf, of "of_nat ?n"] n lt w2 by (simp add: a b unat_of_nat_small)
  then show "kq_wf kq2" using wf lt w2 q mem by (simp add: kq_wf_def)
  show "kq_unread kq2 = kq_unread kq @ packet"
  proof (cases "kqr kq \<le> kqw kq")
    case True
    let ?pre = "drop (kqr kq) (take (kqw kq) (pq_kernel kq))"
    have "length ?pre = kqw kq - kqr kq" using wf by (simp add: kq_wf_def)
    moreover have "drop (kqr kq) (pq_kernel kq2) =
        ?pre @ packet @ drop (kqw kq + ?n) (pq_kernel kq)"
      using True wf by (simp add: mem kq_wf_def)
    moreover have "kqw kq + ?n - kqr kq = (kqw kq - kqr kq) + ?n" using True by simp
    ultimately have "take (kqw kq + ?n - kqr kq) (drop (kqr kq) (pq_kernel kq2)) = ?pre @ packet"
      by simp
    with True w2 q show ?thesis by (simp add: kq_unread_def drop_take)
  next
    case False
    with wf lt room w2 q mem show ?thesis by (simp add: kq_unread_def kq_wf_def)
  qed
qed

lemma kq_put_packet_rollover:
  assumes wf: "kq_wf kq" and r: "kqr kq \<le> kqw kq" "length packet < kqr kq"
      "kqQ kq \<le> kqw kq + length packet"
    and a: "kq1 = kq\<lparr>pq_kernel := take (kqw kq) (pq_kernel kq) @
                   replicate (kqQ kq - kqw kq) (nop_packet kq),
                 pending_wptr := of_nat (length packet),
                 pending_wptr64 := pending_wptr64 kq + of_nat (kqQ kq - kqw kq) +
                   of_nat (length packet)\<rparr>"
    and b: "kq2 = kq1\<lparr>pq_kernel := write_words 0 packet (pq_kernel kq1)\<rparr>"
  shows "kq_wf kq2"
    and "kq_unread kq2 = kq_unread kq @ replicate (kqQ kq - kqw kq) (nop_packet kq) @ packet"
proof -
  let ?n = "length packet"
  have n: "?n < kqQ kq" using r wf by (simp add: kq_wf_def)
  then have "?n < 2 ^ 32" using kq_wf_bound [OF wf] by linarith
  then have w2: "kqw kq2 = ?n" by (simp add: a b unat_of_nat_small)
  have q: "queue_size_dwords kq2 = queue_size_dwords kq" "rptr_kernel kq2 = rptr_kernel kq"
    by (simp_all add: a b queue_size_dwords_def)
  have mem: "pq_kernel kq2 = packet @ drop ?n (take (kqw kq) (pq_kernel kq) @
      replicate (kqQ kq - kqw kq) (nop_packet kq))"
    using wf n by (simp add: a b write_words_eq kq_wf_def)
  have e: "pending_wptr64 kq2 = pending_wptr64 kq + of_nat (kqQ kq - kqw kq + ?n)"
    by (simp add: a b)
  have "kqQ kq - kqw kq + ?n < 2 ^ 64" using kq_wf_bound [OF wf] n by simp
  moreover have "kqw kq + (kqQ kq - kqw kq + ?n) = ?n + kqQ kq" using wf by (simp add: kq_wf_def)
  ultimately have "unat (pending_wptr64 kq2) mod kqQ kq = ?n"
    unfolding e mod_sum_pending64 [OF wf] using n
    by (simp add: unat_of_nat_small del: of_nat_add of_nat_diff)
  then show "kq_wf kq2" using wf n r w2 q mem by (auto simp: kq_wf_def)
  have "drop (kqr kq) (pq_kernel kq2) = drop (kqr kq) (take (kqw kq) (pq_kernel kq)) @
      replicate (kqQ kq - kqw kq) (nop_packet kq)"
    using wf r by (simp add: mem kq_wf_def)
  then show "kq_unread kq2 = kq_unread kq @ replicate (kqQ kq - kqw kq) (nop_packet kq) @ packet"
    using wf r w2 q mem by (simp add: kq_unread_def drop_take)
qed

lemma kq_put_packet_cases:
  assumes wf: "kq_wf kq" and n: "length packet < 2 ^ 32"
  obtains (ok) kq' where "kq_put_packet kq packet = (OK, kq')" "kq_wf kq'"
      "kq_unread kq' = kq_unread kq @ kq_padding kq (length packet) @ packet"
      "if kqr kq \<le> kqw kq then kqw kq + length packet < kqQ kq \<or> length packet < kqr kq
       else kqw kq + length packet < kqr kq"
  | (no_space) "kq_put_packet kq packet = (Err ENOMEM, kq)"
      "\<not> (if kqr kq \<le> kqw kq then kqw kq + length packet < kqQ kq \<or> length packet < kqr kq
          else kqw kq + length packet < kqr kq)"
proof -
  have l: "length packet = unat (of_nat (length packet) :: u64)"
    using n by (simp add: unat_of_nat_small)
  have uc: "(ucast (of_nat (length packet) :: u64) :: u32) = of_nat (length packet)"
    using n by (intro ucast_of_nat_small) simp
  show ?thesis
  proof (cases rule: kq_acquire_cases [OF wf l, case_names no_space linear rollover])
    case no_space
    then show ?thesis
      by (intro that(2)) (auto simp: kq_put_packet_def)
  next
    case linear
    then show ?thesis
      using kq_put_packet_linear [OF wf linear(2,3) refl refl]
      by (intro that(1)) (auto simp: kq_put_packet_def uc kq_padding_def)
  next
    case rollover
    then show ?thesis
      using kq_put_packet_rollover [OF wf rollover(2,3,4) refl refl]
      by (intro that(1)) (auto simp: kq_put_packet_def uc kq_padding_def)
  qed
qed

lemma kq_put_packet_frame:
  assumes "kq_put_packet kq packet = (r, kq')"
  shows "kq_queue kq' = kq_queue kq" "nop_packet kq' = nop_packet kq"
    "wptr64_kernel kq' = wptr64_kernel kq" "rptr_kernel kq' = rptr_kernel kq"
    "kq_doorbell_size kq' = kq_doorbell_size kq"
  using assms
  by (auto simp: kq_put_packet_def kq_acquire_packet_buffer_def Let_def
      split: if_splits prod.splits)

section \<open>The packet interface\<close>

text \<open>\<open>padded nop ps ws\<close>: the words \<open>ws\<close> are the packets \<open>ps\<close> in order, each after some padding.\<close>

inductive padded :: "u32 \<Rightarrow> u32 list list \<Rightarrow> u32 list \<Rightarrow> bool" for nop where
  padded_Nil: "padded nop [] []"
| padded_snoc: "padded nop ps ws \<Longrightarrow> padded nop (ps @ [p]) (ws @ replicate k nop @ p)"

inductive_simps padded_Nil_iff: "padded nop [] ws"

fun put_all :: "('s \<Rightarrow> u32 list \<Rightarrow> retval \<times> 's) \<Rightarrow> 's \<Rightarrow> u32 list list \<Rightarrow> retval \<times> 's" where
  "put_all put s [] = (OK, s)"
| "put_all put s (p # ps) =
     (case put s p of (OK, s') \<Rightarrow> put_all put s' ps | (Err e, s') \<Rightarrow> (Err e, s'))"

lemma padded_append:
  "padded nop qs vs \<Longrightarrow> padded nop ps ws \<Longrightarrow> padded nop (ps @ qs) (ws @ vs)"
proof (induction rule: padded.induct)
  case padded_Nil
  then show ?case by simp
next
  case (padded_snoc qs vs p k)
  then have "padded nop ((ps @ qs) @ [p]) ((ws @ vs) @ replicate k nop @ p)"
    by (intro padded.padded_snoc)
  then show ?case by simp
qed

lemma padded_single: "padded nop [p] (replicate k nop @ p)"
  using padded_snoc [OF padded_Nil, of nop p k] by simp

locale packet_fifo =
  fixes put :: "'s \<Rightarrow> u32 list \<Rightarrow> retval \<times> 's"
    and unread :: "'s \<Rightarrow> u32 list"
    and nop :: "'s \<Rightarrow> u32"
    and invar :: "'s \<Rightarrow> bool"
  assumes put_ok: "invar s \<Longrightarrow> length p < 2 ^ 32 \<Longrightarrow> put s p = (OK, s') \<Longrightarrow>
      invar s' \<and> nop s' = nop s \<and> (\<exists>k. unread s' = unread s @ replicate k (nop s) @ p)"
    and put_err: "invar s \<Longrightarrow> length p < 2 ^ 32 \<Longrightarrow> put s p = (Err e, s') \<Longrightarrow> s' = s"
begin

text \<open>A sequence of packets is queued in order, behind everything that was there before.\<close>

lemma put_all_in_order:
  "invar s \<Longrightarrow> \<forall>p\<in>set ps. length p < 2 ^ 32 \<Longrightarrow> put_all put s ps = (OK, s') \<Longrightarrow>
   invar s' \<and> (\<exists>ws. unread s' = unread s @ ws \<and> padded (nop s) ps ws)"
proof (induction ps arbitrary: s)
  case Nil
  then show ?case by (auto intro: padded_Nil)
next
  case (Cons p ps)
  then obtain s1 where s1: "put s p = (OK, s1)" "put_all put s1 ps = (OK, s')"
    by (auto split: prod.splits retval.splits)
  with Cons.prems put_ok obtain k where k: "invar s1" "nop s1 = nop s"
    "unread s1 = unread s @ replicate k (nop s) @ p" by (meson list.set_intros(1))
  with Cons s1 obtain ws where "invar s'" "unread s' = unread s1 @ ws" "padded (nop s1) ps ws"
    by (metis list.set_intros(2))
  with k show ?case
    using padded_append [of "nop s" ps ws "[p]" "replicate k (nop s) @ p"] padded_single
    by (intro conjI exI [of _ "(replicate k (nop s) @ p) @ ws"]) simp_all
qed

end

interpretation kq: packet_fifo kq_put_packet kq_unread nop_packet kq_wf
proof unfold_locales
  fix s s' :: kernel_queue and p :: "u32 list" and e
  assume wf: "kq_wf s" and l: "length p < 2 ^ 32"
  show "kq_wf s' \<and> nop_packet s' = nop_packet s \<and>
      (\<exists>k. kq_unread s' = kq_unread s @ replicate k (nop_packet s) @ p)"
    if "kq_put_packet s p = (OK, s')"
    using that kq_put_packet_frame(2) [OF that]
    by (cases rule: kq_put_packet_cases [OF wf l]) (auto simp: kq_padding_def intro: exI [of _ 0] split: if_splits)
  show "s' = s" if "kq_put_packet s p = (Err e, s')"
    using that by (cases rule: kq_put_packet_cases [OF wf l]) auto
qed

section \<open>Initialisation and release\<close>

text \<open>
  The outcomes of the kernel's own allocations during \<^verbatim>\<open>kq_initialize\<close>: the descriptor allocations
  inside \<^verbatim>\<open>kfd_gtt_sa_allocate\<close> and of the MQD, and the \<^verbatim>\<open>struct queue\<close> of \<^verbatim>\<open>init_queue\<close>; whether the device has an MQD
  manager of the wanted kind; the buffer \<^verbatim>\<open>dqm->hiq_sdma_mqd\<close>, and the size of the generation's MQD.
\<close>

record kq_env =
  ke_mqd_mgr :: bool
  ke_pq :: bool
  ke_eop :: bool
  ke_rptr :: bool
  ke_wptr :: bool
  ke_queue :: "nat option"
  ke_mqd :: bool
  ke_hiq_sdma_mqd :: kfd_mem_obj
  ke_mqd_size :: u32
  ke_fence :: bool

definition dev_gtt_alloc :: "bool \<Rightarrow> kfd_dev \<Rightarrow> u32 \<Rightarrow> (errno + kfd_mem_obj) \<times> kfd_dev" where
  "dev_gtt_alloc ok dev sz =
     (case kfd_gtt_sa_allocate ok (gtt dev) sz of (r, g) \<Rightarrow> (r, dev\<lparr>gtt := g\<rparr>))"

definition dev_gtt_free :: "kfd_dev \<Rightarrow> kfd_mem_obj option \<Rightarrow> kfd_dev" where
  "dev_gtt_free dev mo = dev\<lparr>gtt := kfd_gtt_sa_free (gtt dev) mo\<rparr>"

text \<open>The \<^verbatim>\<open>nop\<close> header: type 3, opcode \<^verbatim>\<open>IT_NOP\<close>, with \<^verbatim>\<open>PM4_COUNT_ZERO\<close> set in the count bits.\<close>

definition PM4_COUNT_ZERO :: u32 where
  "PM4_COUNT_ZERO = push_bit 16 (push_bit 15 1 - 1)"

definition kq_nop_packet :: u32 where
  "kq_nop_packet = (push_bit 30 3 OR push_bit 8 0x10) OR PM4_COUNT_ZERO"

text \<open>The properties a kernel queue is created with.\<close>

definition kq_properties ::
    "kfd_queue_type \<Rightarrow> u32 \<Rightarrow> u64 \<Rightarrow> u32 \<Rightarrow> kfd_mem_obj \<Rightarrow> kfd_mem_obj \<Rightarrow> kfd_mem_obj \<Rightarrow>
     kfd_mem_obj option \<Rightarrow> queue_properties" where
  "kq_properties ty sz db db_off pq' rptr' wptr' eop' =
     zero_properties\<lparr>doorbell_ptr := Some db, doorbell_off := db_off, queue_size := ucast sz,
       is_interop := False, is_gws := False, priority := 1, queue_percent := 100, qtype := ty,
       vmid := 0, queue_address := gpu_addr pq', read_ptr := gpu_addr rptr',
       write_ptr := gpu_addr wptr',
       eop_ring_buffer_address := (case eop' of None \<Rightarrow> 0 | Some e \<Rightarrow> gpu_addr e),
       eop_ring_buffer_size := of_nat PAGE_SIZE\<rparr>"

text \<open>
  The labels of the error exits, from the last to the first: each releases one more resource and
  falls through to the next.
\<close>

definition err_pq_allocate_vidmem :: "kfd_dev \<Rightarrow> u64 \<Rightarrow> kfd_dev" where
  "err_pq_allocate_vidmem dev db = kfd_release_kernel_doorbell dev db"

definition err_eop_allocate_vidmem :: "kfd_dev \<Rightarrow> u64 \<Rightarrow> kfd_mem_obj \<Rightarrow> kfd_dev" where
  "err_eop_allocate_vidmem dev db pq' =
     err_pq_allocate_vidmem (dev_gtt_free dev (Some pq')) db"

definition err_rptr_allocate_vidmem ::
    "kfd_dev \<Rightarrow> u64 \<Rightarrow> kfd_mem_obj \<Rightarrow> kfd_mem_obj option \<Rightarrow> kfd_dev" where
  "err_rptr_allocate_vidmem dev db pq' eop' =
     err_eop_allocate_vidmem (dev_gtt_free dev eop') db pq'"

definition err_wptr_allocate_vidmem ::
    "kfd_dev \<Rightarrow> u64 \<Rightarrow> kfd_mem_obj \<Rightarrow> kfd_mem_obj option \<Rightarrow> kfd_mem_obj \<Rightarrow> kfd_dev" where
  "err_wptr_allocate_vidmem dev db pq' eop' rptr' =
     err_rptr_allocate_vidmem (dev_gtt_free dev (Some rptr')) db pq' eop'"

definition err_init_queue ::
    "kfd_dev \<Rightarrow> u64 \<Rightarrow> kfd_mem_obj \<Rightarrow> kfd_mem_obj option \<Rightarrow> kfd_mem_obj \<Rightarrow> kfd_mem_obj \<Rightarrow> kfd_dev" where
  "err_init_queue dev db pq' eop' rptr' wptr' =
     err_wptr_allocate_vidmem (dev_gtt_free dev (Some wptr')) db pq' eop' rptr'"

text \<open>
  \<^verbatim>\<open>allocate_mqd\<close> and \<^verbatim>\<open>free_mqd\<close> of the MQD managers of kernel queues. The HIQ has its MQD in a buffer that exists already, and only a descriptor is
  allocated (\<^verbatim>\<open>allocate_hiq_mqd\<close>, \<^verbatim>\<open>free_mqd_hiq_sdma\<close>); the MQD of the DIQ comes from the GTT sub-allocator (\<^verbatim>\<open>allocate_mqd\<close> of each generation,
  \<^verbatim>\<open>kfd_free_mqd_cp\<close>).
\<close>

definition kq_allocate_mqd :: "kq_env \<Rightarrow> kfd_dev \<Rightarrow> kfd_queue_type \<Rightarrow> kfd_mem_obj option \<times> kfd_dev" where
  "kq_allocate_mqd env dev ty =
     (if ty = KFD_QUEUE_TYPE_HIQ then (if ke_mqd env then Some (ke_hiq_sdma_mqd env) else None, dev)
      else case dev_gtt_alloc (ke_mqd env) dev (ke_mqd_size env) of
        (Inl e, dev') \<Rightarrow> (None, dev')
      | (Inr m, dev') \<Rightarrow> (Some m, dev'))"

definition kq_free_mqd :: "kfd_queue_type \<Rightarrow> kfd_dev \<Rightarrow> kfd_mem_obj option \<Rightarrow> kfd_dev" where
  "kq_free_mqd ty dev m = (if ty = KFD_QUEUE_TYPE_HIQ then dev else dev_gtt_free dev m)"

text \<open>\<^verbatim>\<open>uninit_queue\<close> frees the \<^verbatim>\<open>struct queue\<close> only.\<close>

definition err_allocate_mqd ::
    "kfd_dev \<Rightarrow> u64 \<Rightarrow> kfd_mem_obj \<Rightarrow> kfd_mem_obj option \<Rightarrow> kfd_mem_obj \<Rightarrow> kfd_mem_obj \<Rightarrow> kfd_dev" where
  "err_allocate_mqd dev db pq' eop' rptr' wptr' = err_init_queue dev db pq' eop' rptr' wptr'"

definition err_alloc_fence ::
    "kfd_queue_type \<Rightarrow> kfd_dev \<Rightarrow> u64 \<Rightarrow> kfd_mem_obj \<Rightarrow> kfd_mem_obj option \<Rightarrow> kfd_mem_obj \<Rightarrow> kfd_mem_obj \<Rightarrow> kfd_mem_obj \<Rightarrow> kfd_dev" where
  "err_alloc_fence ty dev db pq' eop' rptr' wptr' m =
     err_allocate_mqd (kq_free_mqd ty dev (Some m)) db pq' eop' rptr' wptr'"

text \<open>The allocation of the EOP buffer, which CIK parts (up to \<^verbatim>\<open>CHIP_MULLINS\<close>) do not need.\<close>

definition kq_alloc_eop :: "bool \<Rightarrow> kfd_dev \<Rightarrow> (errno + kfd_mem_obj option) \<times> kfd_dev" where
  "kq_alloc_eop ok dev =
     (if gt_mullins dev
      then case dev_gtt_alloc ok dev (of_nat PAGE_SIZE) of
             (Inl e, dev') \<Rightarrow> (Inl e, dev')
           | (Inr m, dev') \<Rightarrow> (Inr (Some m), dev')
      else (Inr None, dev))"

text \<open>
  The second half of \<^verbatim>\<open>kq_initialize\<close>, once the memory is there: the queue structure and its MQD, and
  the hardware slot of the HIQ or the fence of the DIQ.
\<close>

definition kq_initialize_queue ::
    "kq_env \<Rightarrow> kfd_dev \<Rightarrow> kfd_queue_type \<Rightarrow> u32 \<Rightarrow> u64 \<Rightarrow> u32 \<Rightarrow> kfd_mem_obj \<Rightarrow> kfd_mem_obj option \<Rightarrow>
     kfd_mem_obj \<Rightarrow> kfd_mem_obj \<Rightarrow> kernel_queue option \<times> kfd_dev" where
  "kq_initialize_queue env dev ty sz db db_off pq' eop' rptr' wptr' =
     (case init_queue (ke_queue env) (kq_properties ty sz db db_off pq' rptr' wptr' eop') of
        Inl e \<Rightarrow> (None, err_init_queue dev db pq' eop' rptr' wptr')
      | Inr q \<Rightarrow>
      (case kq_allocate_mqd env dev ty of
        (None, dev1) \<Rightarrow> (None, err_allocate_mqd dev1 db pq' eop' rptr' wptr')
      | (Some m, dev1) \<Rightarrow>
      let p = properties q;
          q1 = q\<lparr>mqd_mem_obj := Some m, mqd := cpu_ptr m, gart_mqd_addr := gpu_addr m,
                 properties := p\<lparr>is_active := QUEUE_IS_ACTIVE p\<rparr>\<rparr>;
          kq = \<lparr>kq_queue = q1, kq_doorbell_size = doorbell_size dev, pending_wptr64 = 0,
                pending_wptr = 0, nop_packet = kq_nop_packet, rptr_mem = Some rptr',
                rptr_kernel = 0, wptr_mem = Some wptr', wptr64_kernel = 0, pq = Some pq',
                pq_kernel = replicate (unat sz div 4) 0, eop_mem = eop', fence_mem_obj = None\<rparr>
      in if ty = KFD_QUEUE_TYPE_HIQ
         then (Some (kq\<lparr>kq_queue := q1\<lparr>pipe := 4, queue_slot := 0\<rparr>\<rparr>), dev1)
         else (case dev_gtt_alloc (ke_fence env) dev1 4 of
                (Inl e, dev') \<Rightarrow> (None, err_alloc_fence ty dev' db pq' eop' rptr' wptr' m)
              | (Inr f, dev') \<Rightarrow> (Some (kq\<lparr>fence_mem_obj := Some f\<rparr>), dev'))))"

text \<open>The allocations before it, one stage each, in the order of the code from the last to the first.\<close>

definition kq_initialize_wptr where
  "kq_initialize_wptr env dev ty sz db db_off pq' eop' rptr' =
     (case dev_gtt_alloc (ke_wptr env) dev (doorbell_size dev) of
        (Inl e, dev') \<Rightarrow> (None, err_wptr_allocate_vidmem dev' db pq' eop' rptr')
      | (Inr wptr', dev') \<Rightarrow> kq_initialize_queue env dev' ty sz db db_off pq' eop' rptr' wptr')"

definition kq_initialize_rptr where
  "kq_initialize_rptr env dev ty sz db db_off pq' eop' =
     (case dev_gtt_alloc (ke_rptr env) dev 4 of
        (Inl e, dev') \<Rightarrow> (None, err_rptr_allocate_vidmem dev' db pq' eop')
      | (Inr rptr', dev') \<Rightarrow> kq_initialize_wptr env dev' ty sz db db_off pq' eop' rptr')"

definition kq_initialize_eop where
  "kq_initialize_eop env dev ty sz db db_off pq' =
     (case kq_alloc_eop (ke_eop env) dev of
        (Inl e, dev') \<Rightarrow> (None, err_eop_allocate_vidmem dev' db pq')
      | (Inr eop', dev') \<Rightarrow> kq_initialize_rptr env dev' ty sz db db_off pq' eop')"

definition kq_initialize_pq where
  "kq_initialize_pq env dev ty sz db db_off =
     (case dev_gtt_alloc (ke_pq env) dev sz of
        (Inl e, dev') \<Rightarrow> (None, err_pq_allocate_vidmem dev' db)
      | (Inr pq', dev') \<Rightarrow> kq_initialize_eop env dev' ty sz db db_off pq')"

definition kq_initialize ::
    "kq_env \<Rightarrow> kfd_dev \<Rightarrow> kfd_queue_type \<Rightarrow> u32 \<Rightarrow> kernel_queue option \<times> kfd_dev" where
  "kq_initialize env dev ty sz =
     (if ty \<noteq> KFD_QUEUE_TYPE_DIQ \<and> ty \<noteq> KFD_QUEUE_TYPE_HIQ then (None, dev)
      else if \<not> ke_mqd_mgr env then (None, dev)
      else case kfd_get_kernel_doorbell dev of
        (None, _, dev') \<Rightarrow> (None, dev')
      | (Some (db, db_off), _, dev') \<Rightarrow> kq_initialize_pq env dev' ty sz db db_off)"

text \<open>
  \<^verbatim>\<open>kq_uninitialize\<close>: the device resources it gives back. \<open>hanging\<close> only decides whether the HIQ is
  preempted on the hardware first.
\<close>

definition kq_uninitialize :: "kernel_queue \<Rightarrow> kfd_dev \<Rightarrow> kfd_dev" where
  "kq_uninitialize kq dev =
     (let dev1 = (if qtype (properties (kq_queue kq)) = KFD_QUEUE_TYPE_DIQ
                  then dev_gtt_free dev (fence_mem_obj kq) else dev);
          dev1a = kq_free_mqd (qtype (properties (kq_queue kq))) dev1 (mqd_mem_obj (kq_queue kq));
          dev2 = dev_gtt_free dev1a (rptr_mem kq);
          dev3 = dev_gtt_free dev2 (wptr_mem kq);
          dev4 = dev_gtt_free dev3 (eop_mem kq);
          dev5 = dev_gtt_free dev4 (pq kq)
      in case doorbell_ptr (properties (kq_queue kq)) of
           None \<Rightarrow> dev5
         | Some db \<Rightarrow> kfd_release_kernel_doorbell dev5 db)"

text \<open>\<^verbatim>\<open>kernel_queue_init\<close> and \<^verbatim>\<open>kernel_queue_uninit\<close>; \<open>kzalloc_ok\<close> is the allocation of the structure.\<close>

definition kernel_queue_init ::
    "bool \<Rightarrow> kq_env \<Rightarrow> kfd_dev \<Rightarrow> kfd_queue_type \<Rightarrow> kernel_queue option \<times> kfd_dev" where
  "kernel_queue_init kzalloc_ok env dev ty =
     (if \<not> kzalloc_ok then (None, dev)
      else kq_initialize env dev ty (of_nat KFD_KERNEL_QUEUE_SIZE))"

definition kernel_queue_uninit :: "kernel_queue \<Rightarrow> kfd_dev \<Rightarrow> kfd_dev" where
  "kernel_queue_uninit kq dev = kq_uninitialize kq dev"

section \<open>Lemmas on initialisation\<close>

definition dev_wf :: "kfd_dev \<Rightarrow> bool" where
  "dev_wf dev \<longleftrightarrow> gtt_wf (gtt dev) \<and> kernel_doorbells_wf dev"

lemmas kq_err_defs =
  err_pq_allocate_vidmem_def err_eop_allocate_vidmem_def err_rptr_allocate_vidmem_def
  err_wptr_allocate_vidmem_def err_init_queue_def

lemma dev_gtt_alloc_ok:
  assumes "gtt_wf (gtt dev)" "dev_gtt_alloc ok dev sz = (Inr m, dev')"
  shows "dev_gtt_free dev' (Some m) = dev" "gtt_wf (gtt dev')" "gt_mullins dev' = gt_mullins dev"
    "\<exists>g. dev' = dev\<lparr>gtt := g\<rparr>"
  using assms gtt.free_alloc [of "gtt dev" "(ok, sz)"] gtt.alloc_invar [of "gtt dev" "(ok, sz)"]
  by (auto simp: dev_gtt_alloc_def dev_gtt_free_def split: prod.splits)

lemma dev_gtt_alloc_err:
  "gtt_wf (gtt dev) \<Longrightarrow> dev_gtt_alloc ok dev sz = (Inl e, dev') \<Longrightarrow> dev' = dev"
  using gtt.alloc_fail [of "gtt dev" "(ok, sz)"]
  by (auto simp: dev_gtt_alloc_def split: prod.splits)

lemma kq_alloc_eop_ok:
  assumes "gtt_wf (gtt dev)" "kq_alloc_eop ok dev = (Inr m, dev')"
  shows "dev_gtt_free dev' m = dev" "gtt_wf (gtt dev')"
proof (atomize (full), cases "gt_mullins dev")
  case True
  with assms(2) obtain m0 where "dev_gtt_alloc ok dev 4096 = (Inr m0, dev')" "m = Some m0"
    by (auto simp: kq_alloc_eop_def split: prod.splits sum.splits)
  with dev_gtt_alloc_ok [OF assms(1)] show "dev_gtt_free dev' m = dev \<and> gtt_wf (gtt dev')" by blast
next
  case False
  with assms show "dev_gtt_free dev' m = dev \<and> gtt_wf (gtt dev')"
    by (auto simp: kq_alloc_eop_def dev_gtt_free_def kfd_gtt_sa_free_def)
qed

lemma kq_alloc_eop_err:
  "gtt_wf (gtt dev) \<Longrightarrow> kq_alloc_eop ok dev = (Inl e, dev') \<Longrightarrow> dev' = dev"
  by (auto simp: kq_alloc_eop_def dest: dev_gtt_alloc_err split: if_splits prod.splits sum.splits)

lemma doorbell_undo:
  assumes "kernel_doorbells_wf dev" "kfd_get_kernel_doorbell dev = (Some (db, off), oob, dev1)"
  shows "kfd_release_kernel_doorbell dev1 db = dev"
proof -
  obtain inx where x: "inx < 1024" "\<not> test_bit inx (kfd_doorbell_bitmap dev)"
    "dev1 = dev\<lparr>kfd_doorbell_bitmap := set_bit_at inx (kfd_doorbell_bitmap dev)\<rparr>"
    "db = doorbell_kernel_ptr dev + of_nat (8 * inx)"
    using kfd_get_kernel_doorbell_Some [OF assms] by metis
  then show ?thesis
    by (simp add: kfd_release_kernel_doorbell_def Let_def clear_set_bit_at
        kernel_doorbell_index_inverse(2) del: of_nat_mult)
qed

lemma doorbell_none_same:
  assumes "kernel_doorbells_wf dev" "kfd_get_kernel_doorbell dev = (None, oob, dev1)"
  shows "dev1 = dev"
  using assms
  by (auto simp: kfd_get_kernel_doorbell_def Let_def kernel_doorbells_wf_def set_bit_at_def
      list_update_beyond split: if_splits)

lemma dev_gtt_free_commute:
  "dev_gtt_free (dev_gtt_free dev a) b = dev_gtt_free (dev_gtt_free dev b) a"
proof -
  have "bitmap_clear s n (bitmap_clear s' n' bm) = bitmap_clear s' n' (bitmap_clear s n bm)"
    for s n s' n' bm by (rule bitmap_eqI) (auto simp: bitmap_simps)
  then show ?thesis
    by (cases a; cases b) (simp_all add: dev_gtt_free_def kfd_gtt_sa_free_def)
qed

text \<open>Each stage of the initialisation keeps the promise of the error exits: they lead back to the start.\<close>

lemma kq_stage_pq:
  "gtt_wf (gtt dev) \<Longrightarrow> err_pq_allocate_vidmem dev db = d0 \<Longrightarrow>
   dev_gtt_alloc ok dev sz = (Inr m, dev') \<Longrightarrow> err_eop_allocate_vidmem dev' db m = d0"
  by (simp add: err_eop_allocate_vidmem_def dev_gtt_alloc_ok(1))

lemma kq_stage_eop:
  "gtt_wf (gtt dev) \<Longrightarrow> err_eop_allocate_vidmem dev db pq' = d0 \<Longrightarrow>
   kq_alloc_eop ok dev = (Inr m, dev') \<Longrightarrow> err_rptr_allocate_vidmem dev' db pq' m = d0"
  by (simp add: err_rptr_allocate_vidmem_def kq_alloc_eop_ok(1))

lemma kq_stage_rptr:
  "gtt_wf (gtt dev) \<Longrightarrow> err_rptr_allocate_vidmem dev db pq' eop' = d0 \<Longrightarrow>
   dev_gtt_alloc ok dev sz = (Inr m, dev') \<Longrightarrow> err_wptr_allocate_vidmem dev' db pq' eop' m = d0"
  by (simp add: err_wptr_allocate_vidmem_def dev_gtt_alloc_ok(1))

lemma kq_stage_wptr:
  "gtt_wf (gtt dev) \<Longrightarrow> err_wptr_allocate_vidmem dev db pq' eop' rptr' = d0 \<Longrightarrow>
   dev_gtt_alloc ok dev sz = (Inr m, dev') \<Longrightarrow> err_init_queue dev' db pq' eop' rptr' m = d0"
  by (simp add: err_init_queue_def dev_gtt_alloc_ok(1))

text \<open>A queue that came out of the initialisation, with the resources it holds.\<close>

definition kq_holds :: "kfd_dev \<Rightarrow> kfd_dev \<Rightarrow> u32 \<Rightarrow> kernel_queue \<Rightarrow> bool" where
  "kq_holds d0 dev sz kq \<longleftrightarrow> kq_uninitialize kq dev = d0 \<and>
     queue_size (properties (kq_queue kq)) = ucast sz \<and>
     pq_kernel kq = replicate (unat sz div 4) 0 \<and> pending_wptr kq = 0 \<and> pending_wptr64 kq = 0 \<and>
     rptr_kernel kq = 0 \<and> wptr64_kernel kq = 0"

lemma kq_uninitialize_eq:
  assumes "rptr_mem kq = Some rptr'" "wptr_mem kq = Some wptr'" "eop_mem kq = eop'"
    "pq kq = Some pq'" "doorbell_ptr (properties (kq_queue kq)) = Some db"
  shows "kq_uninitialize kq dev = err_init_queue
    (kq_free_mqd (qtype (properties (kq_queue kq))) (if qtype (properties (kq_queue kq)) = KFD_QUEUE_TYPE_DIQ
     then dev_gtt_free dev (fence_mem_obj kq) else dev) (mqd_mem_obj (kq_queue kq))) db pq' eop' rptr' wptr'"
  using assms
  by (simp add: kq_uninitialize_def Let_def kq_err_defs
      dev_gtt_free_commute [of _ "Some rptr'" "Some wptr'"])

definition kq_init_post :: "kfd_dev \<Rightarrow> u32 \<Rightarrow> kernel_queue option \<times> kfd_dev \<Rightarrow> bool" where
  "kq_init_post d0 sz r =
     (case fst r of None \<Rightarrow> snd r = d0 | Some kq \<Rightarrow> kq_holds d0 (snd r) sz kq)"

lemma kq_allocate_mqd_effect:
  assumes "gtt_wf (gtt dev)" "kq_allocate_mqd env dev ty = (r, dev1)"
  shows "gtt_wf (gtt dev1)" "r = None \<Longrightarrow> dev1 = dev" "r = Some m \<Longrightarrow> kq_free_mqd ty dev1 (Some m) = dev"
proof -
  obtain x d where a: "dev_gtt_alloc (ke_mqd env) dev (ke_mqd_size env) = (x, d)" by (metis surj_pair)
  have d: "case x of Inl e \<Rightarrow> d = dev | Inr m \<Rightarrow> dev_gtt_free d (Some m) = dev \<and> gtt_wf (gtt d)"
    using a assms(1) by (auto dest: dev_gtt_alloc_err dev_gtt_alloc_ok(1,2) split: sum.splits)
  show "gtt_wf (gtt dev1)" "r = None \<Longrightarrow> dev1 = dev" "r = Some m \<Longrightarrow> kq_free_mqd ty dev1 (Some m) = dev"
    using assms a d by (cases x; auto simp: kq_allocate_mqd_def kq_free_mqd_def split: if_splits)+
qed

lemma kq_initialize_queue_sound:
  assumes "gtt_wf (gtt dev)" and "err_init_queue dev db pq' eop' rptr' wptr' = d0"
    and "ty = KFD_QUEUE_TYPE_DIQ \<or> ty = KFD_QUEUE_TYPE_HIQ"
  shows "kq_init_post d0 sz (kq_initialize_queue env dev ty sz db db_off pq' eop' rptr' wptr')"
proof -
  obtain mo dev1 where m: "kq_allocate_mqd env dev ty = (mo, dev1)" by (metis surj_pair)
  note me = kq_allocate_mqd_effect [OF assms(1) m]
  obtain r dev' where f: "dev_gtt_alloc (ke_fence env) dev1 4 = (r, dev')" by (metis surj_pair)
  have r: "case r of Inl e \<Rightarrow> dev' = dev1 | Inr f \<Rightarrow> dev_gtt_free dev' (Some f) = dev1"
    using f me(1) by (auto dest: dev_gtt_alloc_err dev_gtt_alloc_ok split: sum.splits)
  show ?thesis
    using assms(2,3) m f r me(2,3)
    by (auto simp: kq_init_post_def kq_initialize_queue_def Let_def init_queue_def kq_holds_def
        kq_uninitialize_eq kq_properties_def err_alloc_fence_def err_allocate_mqd_def split: option.splits sum.splits)
qed

lemma kq_initialize_wptr_sound:
  assumes "gtt_wf (gtt dev)" and "err_wptr_allocate_vidmem dev db pq' eop' rptr' = d0"
    and "ty = KFD_QUEUE_TYPE_DIQ \<or> ty = KFD_QUEUE_TYPE_HIQ"
  shows "kq_init_post d0 sz (kq_initialize_wptr env dev ty sz db db_off pq' eop' rptr')"
  using assms
  by (auto simp: kq_initialize_wptr_def kq_init_post_def [of _ _ "(None, _)"] intro!: kq_initialize_queue_sound
      dest: dev_gtt_alloc_err kq_stage_wptr dev_gtt_alloc_ok(2) split: prod.splits sum.splits)

lemma kq_initialize_rptr_sound:
  assumes "gtt_wf (gtt dev)" and "err_rptr_allocate_vidmem dev db pq' eop' = d0"
    and "ty = KFD_QUEUE_TYPE_DIQ \<or> ty = KFD_QUEUE_TYPE_HIQ"
  shows "kq_init_post d0 sz (kq_initialize_rptr env dev ty sz db db_off pq' eop')"
  using assms
  by (auto simp: kq_initialize_rptr_def kq_init_post_def [of _ _ "(None, _)"] intro!: kq_initialize_wptr_sound
      dest: dev_gtt_alloc_err kq_stage_rptr dev_gtt_alloc_ok(2) split: prod.splits sum.splits)

lemma kq_initialize_eop_sound:
  assumes "gtt_wf (gtt dev)" and "err_eop_allocate_vidmem dev db pq' = d0"
    and "ty = KFD_QUEUE_TYPE_DIQ \<or> ty = KFD_QUEUE_TYPE_HIQ"
  shows "kq_init_post d0 sz (kq_initialize_eop env dev ty sz db db_off pq')"
  using assms
  by (auto simp: kq_initialize_eop_def kq_init_post_def [of _ _ "(None, _)"] intro!: kq_initialize_rptr_sound
      dest: kq_alloc_eop_err kq_stage_eop kq_alloc_eop_ok(2) split: prod.splits sum.splits)

lemma kq_initialize_pq_sound:
  assumes "gtt_wf (gtt dev)" and "err_pq_allocate_vidmem dev db = d0"
    and "ty = KFD_QUEUE_TYPE_DIQ \<or> ty = KFD_QUEUE_TYPE_HIQ"
  shows "kq_init_post d0 sz (kq_initialize_pq env dev ty sz db db_off)"
  using assms
  by (auto simp: kq_initialize_pq_def kq_init_post_def [of _ _ "(None, _)"] intro!: kq_initialize_eop_sound
      dest: dev_gtt_alloc_err kq_stage_pq dev_gtt_alloc_ok(2) split: prod.splits sum.splits)

lemma kq_initialize_sound:
  assumes wf: "dev_wf dev"
  shows "kq_init_post dev sz (kq_initialize env dev ty sz)"
proof (cases "kfd_get_kernel_doorbell dev")
  case g: (fields r o1 dev')
  from wf have wf0: "gtt_wf (gtt dev)" "kernel_doorbells_wf dev" by (simp_all add: dev_wf_def)
  show ?thesis
  proof (cases r)
    case None
    with g wf0(2) have "dev' = dev" by (auto dest: doorbell_none_same)
    with None g show ?thesis by (simp add: kq_initialize_def kq_init_post_def)
  next
    case (Some x)
    then obtain db off where x: "r = Some (db, off)" by (cases x) auto
    with g wf0 have "err_pq_allocate_vidmem dev' db = dev" "gtt_wf (gtt dev')"
      using kfd_get_kernel_doorbell_wf [OF wf0(2) g]
      by (simp_all add: err_pq_allocate_vidmem_def doorbell_undo)
    with x g show ?thesis
      by (auto simp: kq_initialize_def kq_init_post_def [of _ _ "(None, _)"]
          intro: kq_initialize_pq_sound)
  qed
qed

section \<open>Properties\<close>

text \<open>
  C32. The kernel queue is a FIFO: putting a packet either appends it, after padding with \<open>nop\<close> packets to
  the end of the ring when it has to start at position 0, to the words the hardware has not
  read, leaving these intact; or fails with \<^verbatim>\<open>-ENOMEM\<close> and changes nothing. It succeeds exactly
  if the packet fits behind the write pointer, or, in a ring not rolled over, before the read
  pointer.
\<close>

theorem kq_put_packet_fifo:
  assumes "kq_wf kq" and "length packet < 2 ^ 32"
  shows "if (if kqr kq \<le> kqw kq then kqw kq + length packet < kqQ kq \<or> length packet < kqr kq
             else kqw kq + length packet < kqr kq)
         then \<exists>kq'. kq_put_packet kq packet = (OK, kq') \<and> kq_wf kq' \<and>
                kq_unread kq' = kq_unread kq @ kq_padding kq (length packet) @ packet
         else kq_put_packet kq packet = (Err ENOMEM, kq)"
  using assms by (cases rule: kq_put_packet_cases [OF assms]) simp_all

text \<open>A ring of eight words with the read pointer at 5 and the write pointer at 6.\<close>

definition kq_example :: kernel_queue where
  "kq_example =
     \<lparr>kq_queue = \<lparr>q_ptr = 1, mqd = 0, mqd_mem_obj = None, gart_mqd_addr = 0,
        properties = zero_properties\<lparr>qtype := KFD_QUEUE_TYPE_HIQ, queue_size := 32,
          doorbell_ptr := Some 0xA000\<rparr>, mec = 0, pipe = 4,
        queue_slot = 0, sdma_id = 0, doorbell_id = 0, gws = None, gang_ctx_gpu_addr = 0, wptr_bo = None\<rparr>,
      kq_doorbell_size = 8, pending_wptr64 = 14, pending_wptr = 6, nop_packet = 99,
      rptr_mem = None, rptr_kernel = 5, wptr_mem = None, wptr64_kernel = 14, pq = None,
      pq_kernel = [10, 11, 12, 13, 14, 15, 16, 17], eop_mem = None, fence_mem_obj = None\<rparr>"

lemma kq_example_wf: "kq_wf kq_example"
proof -
  have q: "queue_size_dwords kq_example = 8"
    by (simp add: queue_size_dwords_def kq_example_def zero_properties_def)
  show ?thesis unfolding kq_wf_def q by (simp add: kq_example_def)
qed

theorem kq_put_packet_fifo_witness:
  "\<exists>kq'. kq_put_packet kq_example [1, 2, 3] = (OK, kq') \<and>
     kq_unread kq' = [15] @ [99, 99] @ [1, 2, 3]"
proof -
  have q: "queue_size_dwords kq_example = 8"
    by (simp add: queue_size_dwords_def kq_example_def zero_properties_def)
  have f: "rptr_kernel kq_example = 5" "pending_wptr kq_example = 6"
    by (simp_all add: kq_example_def)
  have u: "kq_unread kq_example = [15]" "kq_padding kq_example 3 = [99, 99]"
    by code_simp+
  show ?thesis
    using kq_put_packet_fifo [OF kq_example_wf, of "[1, 2, 3]"] unfolding q f
    by (auto simp: u numeral_3_eq_3 [symmetric])
qed

text \<open>
  Commit and rollback: from a state whose write pointer is published, acquiring space and rolling
  back restores the pending write pointers, whether or not the acquisition succeeded, so the
  next packet goes where the abandoned one would have gone.
\<close>

definition kq_committed :: "kernel_queue \<Rightarrow> bool" where
  "kq_committed kq \<longleftrightarrow>
     (if kq_doorbell_size kq = 8 then wptr64_kernel kq = pending_wptr64 kq
      else wptr_kernel kq = pending_wptr kq)"

lemma kq_acquire_frame:
  assumes "kq_acquire_packet_buffer kq n = (r, kq')"
  shows "wptr64_kernel kq' = wptr64_kernel kq" "kq_doorbell_size kq' = kq_doorbell_size kq"
    "queue_size_dwords kq' = queue_size_dwords kq"
  using assms
  by (auto simp: kq_acquire_packet_buffer_def Let_def queue_size_dwords_def
      split: if_splits prod.splits)

theorem kq_acquire_rollback:
  assumes "kq_wf kq" and "kq_committed kq" and "kq_acquire_packet_buffer kq n = (r, kq')"
  shows "pending_wptr (kq_rollback_packet kq') = pending_wptr kq \<and>
         (kq_doorbell_size kq = 8 \<longrightarrow> pending_wptr64 (kq_rollback_packet kq') = pending_wptr64 kq)"
proof (cases "kq_doorbell_size kq = 8")
  case True
  have dvd: "kqQ kq dvd 2 ^ 32" and w: "unat (pending_wptr64 kq) mod kqQ kq = kqw kq"
    using assms(1) by (simp_all add: kq_wf_def)
  have "unat (ucast (ucast (pending_wptr64 kq) :: u32) mod queue_size_dwords kq :: u64) =
      (unat (pending_wptr64 kq) mod 2 ^ 32) mod kqQ kq"
    by (simp add: unat_mod unsigned_ucast_eq take_bit_eq_mod)
  also have "\<dots> = kqw kq" using dvd w by (simp add: mod_mod_cancel)
  finally have "ucast (ucast (ucast (pending_wptr64 kq) :: u32) mod queue_size_dwords kq :: u64) =
      pending_wptr kq"
    by (metis of_nat_unat ucast_id)
  with True assms(2) show ?thesis
    by (simp add: kq_rollback_packet_def kq_acquire_frame [OF assms(3)] kq_committed_def
        wptr_kernel_def)
next
  case False
  with assms(2) show ?thesis
    by (simp add: kq_rollback_packet_def kq_acquire_frame [OF assms(3)] kq_committed_def
        wptr_kernel_def)
qed

theorem kq_acquire_rollback_witness:
  "pending_wptr (kq_rollback_packet (snd (kq_acquire_packet_buffer kq_example 3))) = 6"
  using kq_acquire_rollback [OF kq_example_wf, of 3 "fst (kq_acquire_packet_buffer kq_example 3)"
      "snd (kq_acquire_packet_buffer kq_example 3)"]
  by (simp add: kq_committed_def) (simp add: kq_example_def)

lemma kq_submit_post:
  "case kq_submit_packet kq of (kq', db) \<Rightarrow>
     kq_committed kq' \<and> kq_unread kq' = kq_unread kq \<and>
     db = map_option (\<lambda>a. if kq_doorbell_size kq = 8 then Doorbell64 a (pending_wptr64 kq)
                          else Doorbell32 a (pending_wptr kq))
            (doorbell_ptr (properties (kq_queue kq)))"
proof -
  have "ucast (push_bit 32 (drop_bit 32 x) + ucast v :: u64) = v" for x :: u64 and v :: u32
  proof -
    have "(ucast (push_bit 32 (drop_bit 32 x) :: u64) :: u32) = 0"
      by transfer (simp add: take_bit_push_bit)
    then show ?thesis by (simp add: ucast_down_add ucast_down_up)
  qed
  then show ?thesis
    by (auto simp: kq_submit_packet_def kq_committed_def set_wptr_kernel_def wptr_kernel_def
        kq_unread_def write_kernel_doorbell_def write_kernel_doorbell64_def option.map_comp comp_def)
qed

lemma kq_wf_submit [simp]: "kq_wf (fst (kq_submit_packet kq)) = kq_wf kq"
  by (simp add: kq_wf_def kq_submit_packet_def queue_size_dwords_def set_wptr_kernel_def)

text \<open>
  Submitting publishes the pending write pointer: afterwards the ring is committed, and the
  doorbell is rung, if the queue has one, with exactly that pointer.
\<close>

theorem kq_submit_commits:
  "case kq_submit_packet kq of (kq', db) \<Rightarrow>
     kq_committed kq' \<and> kq_unread kq' = kq_unread kq \<and>
     db = map_option (\<lambda>a. if kq_doorbell_size kq = 8 then Doorbell64 a (pending_wptr64 kq)
                          else Doorbell32 a (pending_wptr kq))
            (doorbell_ptr (properties (kq_queue kq)))"
  by (rule kq_submit_post)

text \<open>
  C33. \<^verbatim>\<open>kernel_queue_init\<close> is all or nothing for the GTT and the doorbells of the device: on every failure, at whichever stage, both bitmaps are
  exactly as before, the chunk of the DIQ's MQD included; on success the ring is empty and well-formed, and
  \<^verbatim>\<open>kernel_queue_uninit\<close> gives back all chunks and the doorbell.
\<close>

theorem kernel_queue_init_all_or_nothing:
  assumes "dev_wf dev"
  shows "case kernel_queue_init kzalloc_ok env dev ty of
           (None, dev') \<Rightarrow> dev' = dev
         | (Some kq, dev') \<Rightarrow> kernel_queue_uninit kq dev' = dev \<and> kq_wf kq \<and> kq_unread kq = []"
proof -
  have "kq_wf kq \<and> kq_unread kq = []" if h: "kq_holds dev dev' 2048 kq" for dev' kq
  proof -
    from h have "queue_size_dwords kq = 512"
      by (simp add: kq_holds_def queue_size_dwords_def)
    with h show ?thesis by (simp add: kq_wf_def kq_unread_def kq_holds_def)
  qed
  with kq_initialize_sound [OF assms, of 2048 env ty] show ?thesis
    by (auto simp: kernel_queue_init_def kernel_queue_uninit_def kq_init_post_def kq_holds_def
        split: prod.splits option.splits)
qed

text \<open>A DIQ whose last allocation, that of the fence, fails, and one that is initialised.\<close>

definition kq_env_example :: "bool \<Rightarrow> kq_env" where
  "kq_env_example fence = \<lparr>ke_mqd_mgr = True, ke_pq = True, ke_eop = True, ke_rptr = True, ke_wptr = True, ke_queue = Some 1, ke_mqd = True,
     ke_hiq_sdma_mqd = \<lparr>range_start = 0, range_end = 0, gpu_addr = 0xC000, cpu_ptr = 0xD000\<rparr>, ke_mqd_size = 512, ke_fence = fence\<rparr>"

definition kq_gtt_example :: "bitmap \<Rightarrow> kfd_gtt" where
  "kq_gtt_example g = \<lparr>gtt_start_gpu_addr = 0x1000, gtt_start_cpu_ptr = 0x8000, gtt_sa_bitmap = g, gtt_sa_chunk_size = 4096, gtt_sa_num_of_chunks = 8\<rparr>"

definition kq_dev_example :: "bitmap \<Rightarrow> bitmap \<Rightarrow> kfd_dev" where
  "kq_dev_example bm g = doorbell_example\<lparr>kfd_doorbell_bitmap := bm, gtt := kq_gtt_example g\<rparr>"

lemma zalloc_first: "find_first_zero_bit (bitmap_zalloc 1024) 1024 = 0"
proof -
  let ?f = "find_first_zero_bit (bitmap_zalloc 1024) 1024"
  have "?f \<noteq> 1024" using find_first_zero_bit_none [of "bitmap_zalloc 1024" 1024 0] by (auto simp: test_bitmap_zalloc)
  then have "?f < 1024" using find_first_zero_bit_le [of "bitmap_zalloc 1024" 1024] by simp
  from find_first_zero_bit_least(2) [OF this, of 0] show ?thesis by (auto simp: test_bitmap_zalloc)
qed

definition kq_obj_example :: "nat \<Rightarrow> kfd_mem_obj" where
  "kq_obj_example k = \<lparr>range_start = k, range_end = k, gpu_addr = 0x1000 + 0x1000 * of_nat k, cpu_ptr = 0x8000 + 0x1000 * of_nat k\<rparr>"

lemma kq_gtt_example_alloc:
  "kfd_gtt_sa_allocate True (kq_gtt_example [True, False, False, False, False, False, False, False]) 2048 = (Inr (kq_obj_example 1), kq_gtt_example [True, True, False, False, False, False, False, False])"
  "kfd_gtt_sa_allocate True (kq_gtt_example [True, True, False, False, False, False, False, False]) 4096 = (Inr (kq_obj_example 2), kq_gtt_example [True, True, True, False, False, False, False, False])"
  "kfd_gtt_sa_allocate True (kq_gtt_example [True, True, True, False, False, False, False, False]) 4 = (Inr (kq_obj_example 3), kq_gtt_example [True, True, True, True, False, False, False, False])"
  "kfd_gtt_sa_allocate True (kq_gtt_example [True, True, True, True, False, False, False, False]) 8 = (Inr (kq_obj_example 4), kq_gtt_example [True, True, True, True, True, False, False, False])"
  "kfd_gtt_sa_allocate True (kq_gtt_example [True, True, True, True, True, False, False, False]) 512 = (Inr (kq_obj_example 5), kq_gtt_example [True, True, True, True, True, True, False, False])"
  "kfd_gtt_sa_allocate True (kq_gtt_example [True, True, True, True, True, True, False, False]) 4 = (Inr (kq_obj_example 6), kq_gtt_example [True, True, True, True, True, True, True, False])"
  "kfd_gtt_sa_allocate False (kq_gtt_example [True, True, True, True, True, True, False, False]) 4 = (Inl ENOMEM, kq_gtt_example [True, True, True, True, True, True, False, False])"
  by code_simp+

lemma kq_dev_example_alloc:
  "kfd_gtt_sa_allocate ok (kq_gtt_example g) sz = (r, kq_gtt_example g') \<Longrightarrow> dev_gtt_alloc ok (kq_dev_example bm g) sz = (r, kq_dev_example bm g')"
  by (simp add: dev_gtt_alloc_def kq_dev_example_def)

lemmas kq_dev_example_allocs = kq_gtt_example_alloc [THEN kq_dev_example_alloc]

lemma kq_dev_example_fields [simp]: "gt_mullins (kq_dev_example bm g)" "doorbell_size (kq_dev_example bm g) = 8"
  by (simp_all add: kq_dev_example_def doorbell_example_def)

lemma kq_dev_example_doorbell:
  "\<exists>db off oob. kfd_get_kernel_doorbell (kq_dev_example (bitmap_zalloc 1024) g) =
    (Some (db, off), oob, kq_dev_example (set_bit_at 0 (bitmap_zalloc 1024)) g)"
  by (simp add: kfd_get_kernel_doorbell_def kq_dev_example_def zalloc_first Let_def) blast

lemma kq_dev_example_stages:
  "fst (kq_initialize_pq (kq_env_example b) (kq_dev_example bm [True, False, False, False, False, False, False, False]) KFD_QUEUE_TYPE_DIQ 2048 db off) = None \<longleftrightarrow> \<not> b"
  by (cases b) (simp_all add: kq_initialize_pq_def kq_initialize_eop_def kq_alloc_eop_def kq_initialize_rptr_def kq_initialize_wptr_def
      kq_initialize_queue_def kq_allocate_mqd_def init_queue_def kq_env_example_def kq_dev_example_allocs Let_def)

theorem kernel_queue_init_all_or_nothing_witness:
  "let dev = kq_dev_example (bitmap_zalloc 1024) [True, False, False, False, False, False, False, False] in
   kernel_queue_init True (kq_env_example False) dev KFD_QUEUE_TYPE_DIQ = (None, dev) \<and>
   (case kernel_queue_init True (kq_env_example True) dev KFD_QUEUE_TYPE_DIQ of
      (None, dev') \<Rightarrow> False
    | (Some kq, dev') \<Rightarrow> kernel_queue_uninit kq dev' = dev \<and> kq_unread kq = [])"
proof -
  let ?g = "[True, False, False, False, False, False, False, False]"
  let ?d = "kq_dev_example (bitmap_zalloc 1024) ?g"
  have "gtt_wf (gtt ?d)" by (simp add: kq_dev_example_def kq_gtt_example_def gtt_wf_def)
  then have wf: "dev_wf ?d" by (simp add: dev_wf_def kernel_doorbells_wf_def kq_dev_example_def doorbell_example_def)
  obtain db off oob where g: "kfd_get_kernel_doorbell ?d = (Some (db, off), oob, kq_dev_example (set_bit_at 0 (bitmap_zalloc 1024)) ?g)"
    using kq_dev_example_doorbell by blast
  have e: "kernel_queue_init True (kq_env_example b) ?d KFD_QUEUE_TYPE_DIQ =
      kq_initialize_pq (kq_env_example b) (kq_dev_example (set_bit_at 0 (bitmap_zalloc 1024)) ?g) KFD_QUEUE_TYPE_DIQ 2048 db off" for b
    using g by (simp add: kernel_queue_init_def kq_initialize_def kq_env_example_def)
  have "fst (kernel_queue_init True (kq_env_example False) ?d KFD_QUEUE_TYPE_DIQ) = None"
    "fst (kernel_queue_init True (kq_env_example True) ?d KFD_QUEUE_TYPE_DIQ) \<noteq> None" unfolding e kq_dev_example_stages by simp_all
  with kernel_queue_init_all_or_nothing [OF wf, of True "kq_env_example False" KFD_QUEUE_TYPE_DIQ]
    kernel_queue_init_all_or_nothing [OF wf, of True "kq_env_example True" KFD_QUEUE_TYPE_DIQ]
  show ?thesis unfolding Let_def by (auto split: prod.splits option.splits)
qed

end
