(* ===== verification/Dqm_State.thy ===== *)
theory Dqm_State
  imports Kernel_Queue
begin

text \<open>
  The state of a device queue manager (\<^verbatim>\<open>kfd/kfd_device_queue_manager.h\<close>): the node it belongs to, the
  packet manager it embeds, the processes registered with it and its counters, bitmaps and
  flags; with the small queries on it from the head of \<^verbatim>\<open>kfd/kfd_device_queue_manager.c\<close> and
  \<^verbatim>\<open>kfd/kfd_device.c\<close>.

  \<^verbatim>\<open>dqm->queues\<close> is a list of pointers to process-device structures. The model keeps the structures
  themselves in the list; \<open>qpd_ptr\<close> is the pointer, and \<open>get_qpd\<close> and \<open>put_qpd\<close> read and write through it.
\<close>

section \<open>The node\<close>

text \<open>
  What the queue managers read of \<^verbatim>\<open>struct kfd_node\<close>, of the \<^verbatim>\<open>struct kfd_dev\<close> and \<^verbatim>\<open>struct amdgpu_device\<close> behind
  it, and of the module parameters. Only \<open>kfd\<close> (the GTT and doorbell bitmaps) changes. Versions are
  packed as by \<^verbatim>\<open>IP_VERSION\<close>.
\<close>

datatype asic =
    CHIP_KAVERI | CHIP_HAWAII | CHIP_CARRIZO | CHIP_TONGA | CHIP_FIJI | CHIP_POLARIS10 | CHIP_POLARIS11
  | CHIP_POLARIS12 | CHIP_VEGAM | CHIP_OTHER

text \<open>
  Field positions and encodings of the memory registers of a generation. They come from register headers
  outside of the repository and are parameters of the model.
\<close>

record sh_mem_regs =
  ALIGNMENT_MODE_SHIFT :: nat
  RETRY_DISABLE_SHIFT :: nat
  F8_MODE_SHIFT :: nat
  INITIAL_INST_PREFETCH_SHIFT :: nat
  DEFAULT_MTYPE_SHIFT :: nat
  APE1_MTYPE_SHIFT :: nat
  SHARED_BASE_SHIFT :: nat
  MODE_UNALIGNED :: u32
  MTYPE_UC :: u32
  MTYPE_NC :: u32
  SDMA_SHARED_BASE_SHIFT :: nat
  SDMA_SHARED_BASE_MASK :: u32

record kfd_node =
  kfd :: kfd_dev
  node_id :: u32
  asic_type :: asic
  gc_version :: u32
  sdma0_version :: u32
  max_proc_per_quantum :: u32
  first_vmid_kfd :: nat
  last_vmid_kfd :: nat
  compute_vmid_bitmap :: u32
  cp_queue_bitmap :: bitmap
  num_pipe_per_mec :: nat
  num_queue_per_pipe :: nat
  sdma_doorbell_idx :: "u32 list"
  num_instances :: nat
  num_nodes :: nat
  xgmi_supported :: bool
  num_sdma_queues_per_engine :: nat
  reserved_sdma_queues_bitmap :: bitmap
  num_of_watch_points :: nat
  cwsr_enabled :: bool
  build_grace_period_packet_info :: "u32 \<Rightarrow> u32 \<Rightarrow> u32 \<times> u32"
  trap_en_shift :: nat
  queue_preemption_timeout_ms :: int
  max_num_of_queues_per_device :: u32
  noretry :: bool
  max_pfn :: u64
  mes_sched_version :: u32
  shared_compute_vmid_bitmap :: u32
  sh_regs :: sh_mem_regs

definition IP_VERSION :: "u32 \<Rightarrow> u32 \<Rightarrow> u32 \<Rightarrow> u32" where
  "IP_VERSION mj mn rv = push_bit 24 mj OR push_bit 16 mn OR push_bit 8 rv"

text \<open>\<^verbatim>\<open>kfd_get_num_sdma_engines\<close> and \<^verbatim>\<open>kfd_get_num_xgmi_sdma_engines\<close>; \<^verbatim>\<open>num_instances\<close> is not negative.\<close>

definition kfd_get_num_sdma_engines :: "kfd_node \<Rightarrow> nat" where
  "kfd_get_num_sdma_engines node =
     (if \<not> xgmi_supported node then num_instances node div num_nodes node
      else min (num_instances node div num_nodes node) 2)"

definition kfd_get_num_xgmi_sdma_engines :: "kfd_node \<Rightarrow> nat" where
  "kfd_get_num_xgmi_sdma_engines node =
     num_instances node div num_nodes node - kfd_get_num_sdma_engines node"

section \<open>The managers\<close>

text \<open>
  \<^verbatim>\<open>struct packet_manager\<close>. \<open>pmf\<close> selects one of the three packet tables; \<open>ib_words\<close> is the memory of the
  runlist buffer \<^verbatim>\<open>ib_buffer_obj->cpu_ptr\<close>. \<open>ib_overflow\<close> records whether the warning in \<^verbatim>\<open>inc_wptr\<close> was
  raised while the buffer was filled.
\<close>

datatype pm_table = kfd_vi_pm_table | kfd_v9_pm_table | kfd_aldebaran_pm_table

record packet_manager =
  pm_priv_queue :: "kernel_queue option"
  pm_allocated :: bool
  ib_buffer_obj :: "kfd_mem_obj option"
  ib_size_bytes :: u32
  pm_is_over_subscription :: bool
  pmf :: pm_table
  ib_words :: "u32 list"
  ib_overflow :: bool

datatype kfd_sched_policy =
    KFD_SCHED_POLICY_HWS | KFD_SCHED_POLICY_HWS_NO_OVERSUBSCRIPTION | KFD_SCHED_POLICY_NO_HWS

record device_queue_manager =
  dqm_dev :: kfd_node
  packet_mgr :: packet_manager
  dqm_queues :: "qcm_process_device list"
  processes_count :: u32
  active_queue_count :: u32
  active_cp_queue_count :: u32
  gws_queue_count :: u32
  total_queue_count :: u32
  next_pipe_to_allocate :: nat
  allocated_queues :: "u32 list"
  sdma_bitmap :: bitmap
  xgmi_sdma_bitmap :: bitmap
  vmid_pasid :: "u16 list"
  fence_gpu_addr :: u64
  fence_value :: u64
  fence_mem :: "kfd_mem_obj option"
  active_runlist :: bool
  sched_policy :: kfd_sched_policy
  trap_debug_vmid :: u32
  is_hws_hang :: bool
  is_resetting :: bool
  reset_scheduled :: bool
  sched_running :: bool
  wait_times :: u32

abbreviation (input) KFD_FENCE_COMPLETED :: u64 where "KFD_FENCE_COMPLETED \<equiv> 100"
abbreviation (input) KFD_FENCE_INIT :: u64 where "KFD_FENCE_INIT \<equiv> 10"
abbreviation (input) USE_DEFAULT_GRACE_PERIOD :: u32 where "USE_DEFAULT_GRACE_PERIOD \<equiv> 0xffffffff"
abbreviation (input) AMDGPU_MAX_QUEUES :: nat where "AMDGPU_MAX_QUEUES \<equiv> 128"

section \<open>Queries\<close>

fun any_bit :: "bitmap \<Rightarrow> nat \<Rightarrow> nat \<Rightarrow> bool" where
  "any_bit bm off 0 = False"
| "any_bit bm off (Suc n) = (test_bit off bm \<or> any_bit bm (Suc off) n)"

definition is_pipe_enabled :: "device_queue_manager \<Rightarrow> nat \<Rightarrow> nat \<Rightarrow> bool" where
  "is_pipe_enabled dqm mec_id pipe_id =
     (let node = dqm_dev dqm;
          pipe_offset = (mec_id * num_pipe_per_mec node + pipe_id) * num_queue_per_pipe node
      in any_bit (cp_queue_bitmap node) pipe_offset (num_queue_per_pipe node))"

definition get_cp_queues_num :: "device_queue_manager \<Rightarrow> nat" where
  "get_cp_queues_num dqm = bitmap_weight (take AMDGPU_MAX_QUEUES (cp_queue_bitmap (dqm_dev dqm)))"

definition get_queues_per_pipe :: "device_queue_manager \<Rightarrow> nat" where
  "get_queues_per_pipe dqm = num_queue_per_pipe (dqm_dev dqm)"

definition get_pipes_per_mec :: "device_queue_manager \<Rightarrow> nat" where
  "get_pipes_per_mec dqm = num_pipe_per_mec (dqm_dev dqm)"

definition get_num_all_sdma_engines :: "device_queue_manager \<Rightarrow> nat" where
  "get_num_all_sdma_engines dqm =
     kfd_get_num_sdma_engines (dqm_dev dqm) + kfd_get_num_xgmi_sdma_engines (dqm_dev dqm)"

definition get_num_sdma_queues :: "device_queue_manager \<Rightarrow> nat" where
  "get_num_sdma_queues dqm =
     kfd_get_num_sdma_engines (dqm_dev dqm) * num_sdma_queues_per_engine (dqm_dev dqm)"

definition get_num_xgmi_sdma_queues :: "device_queue_manager \<Rightarrow> nat" where
  "get_num_xgmi_sdma_queues dqm =
     kfd_get_num_xgmi_sdma_engines (dqm_dev dqm) * num_sdma_queues_per_engine (dqm_dev dqm)"

text \<open>The macro \<^verbatim>\<open>KFD_UNMAP_LATENCY_MS\<close>: C division rounds toward zero, the shift rounds down.\<close>

definition KFD_UNMAP_LATENCY_MS :: "device_queue_manager \<Rightarrow> int" where
  "KFD_UNMAP_LATENCY_MS dqm =
     (let t = queue_preemption_timeout_ms (dqm_dev dqm) in (t - sgn t * (\<bar>t\<bar> div 10)) div 2)"

section \<open>Access to registered processes\<close>

definition get_qpd :: "device_queue_manager \<Rightarrow> nat \<Rightarrow> qcm_process_device option" where
  "get_qpd dqm p = find (\<lambda>x. qpd_ptr x = p) (dqm_queues dqm)"

definition put_qpd :: "qcm_process_device \<Rightarrow> device_queue_manager \<Rightarrow> device_queue_manager" where
  "put_qpd qpd dqm =
     dqm\<lparr>dqm_queues := map (\<lambda>x. if qpd_ptr x = qpd_ptr qpd then qpd else x) (dqm_queues dqm)\<rparr>"

lemma get_qpd_Some: "get_qpd dqm p = Some qpd \<Longrightarrow> qpd \<in> set (dqm_queues dqm) \<and> qpd_ptr qpd = p"
  by (auto simp: get_qpd_def find_Some_iff)

lemma find_put:
  "find (\<lambda>x. qpd_ptr x = p) (map (\<lambda>x. if qpd_ptr x = qpd_ptr qpd then qpd else x) qs) =
   (if p = qpd_ptr qpd \<and> (\<exists>x \<in> set qs. qpd_ptr x = p) then Some qpd
    else find (\<lambda>x. qpd_ptr x = p) qs)"
  by (induction qs) auto

lemma get_put_qpd:
  "get_qpd (put_qpd qpd dqm) p =
   (if p = qpd_ptr qpd \<and> get_qpd dqm p \<noteq> None then Some qpd else get_qpd dqm p)"
  by (auto simp: get_qpd_def put_qpd_def find_put find_None_iff)

text \<open>
  A quantity summed over the registered processes changes under \<open>put_qpd\<close> by what it changes on the
  written process.
\<close>

definition proc_sum :: "(qcm_process_device \<Rightarrow> nat) \<Rightarrow> device_queue_manager \<Rightarrow> nat" where
  "proc_sum f dqm = sum_list (map f (dqm_queues dqm))"

lemma sum_list_put:
  "distinct (map qpd_ptr qs) \<Longrightarrow> find (\<lambda>x. qpd_ptr x = p) qs = Some old \<Longrightarrow> qpd_ptr new = p \<Longrightarrow>
   sum_list (map f (map (\<lambda>x. if qpd_ptr x = qpd_ptr new then new else x) qs)) + f old =
   sum_list (map f qs) + (f new :: nat)"
proof (induction qs)
  case (Cons x qs)
  show ?case
  proof (cases "qpd_ptr x = p")
    case True
    with Cons.prems have "old = x" "p \<notin> qpd_ptr ` set qs" by auto
    then have "map (\<lambda>y. if qpd_ptr y = p then new else y) qs = qs" by (intro map_idI) auto
    with True Cons.prems \<open>old = x\<close> show ?thesis by simp
  next
    case False
    then show ?thesis using Cons by simp
  qed
qed simp

lemma proc_sum_put:
  assumes "distinct (map qpd_ptr (dqm_queues dqm))" and "get_qpd dqm p = Some old"
    and "qpd_ptr new = p"
  shows "proc_sum f (put_qpd new dqm) + f old = proc_sum f dqm + f new"
  using sum_list_put [OF assms(1) assms(2) [unfolded get_qpd_def] assms(3)]
  by (simp add: proc_sum_def put_qpd_def)

lemma qpd_ptrs_put [simp]:
  "map qpd_ptr (dqm_queues (put_qpd qpd dqm)) = map qpd_ptr (dqm_queues dqm)"
  by (simp add: put_qpd_def)

lemma put_qpd_same: "get_qpd dqm p = Some qpd \<Longrightarrow> distinct (map qpd_ptr (dqm_queues dqm)) \<Longrightarrow>
  put_qpd qpd dqm = dqm"
proof -
  assume a: "get_qpd dqm p = Some qpd" "distinct (map qpd_ptr (dqm_queues dqm))"
  then have "qpd \<in> set (dqm_queues dqm)" by (auto dest: get_qpd_Some)
  with a(2) have "\<forall>x \<in> set (dqm_queues dqm). qpd_ptr x = qpd_ptr qpd \<longrightarrow> x = qpd"
    by (auto simp: distinct_map inj_on_def)
  then have "map (\<lambda>x. if qpd_ptr x = qpd_ptr qpd then qpd else x) (dqm_queues dqm) = dqm_queues dqm"
    by (intro map_idI) auto
  then show ?thesis by (simp add: put_qpd_def)
qed

end
