(* ===== verification/Pm4_Packets.thy ===== *)
theory Pm4_Packets
  imports Dqm_State
begin

text \<open>
  PM4 packets: \<^verbatim>\<open>kfd/kfd_packet_manager_vi.c\<close> and \<^verbatim>\<open>kfd/kfd_packet_manager_v9.c\<close>, with the layouts of
  \<^verbatim>\<open>kfd/kfd_pm4_headers_vi.h\<close>, \<^verbatim>\<open>kfd_pm4_headers_ai.h\<close> and \<^verbatim>\<open>kfd_pm4_headers_aldebaran.h\<close>.

  A bit-field structure of one 32-bit word is written as the list of its fields in declaration
  order, lowest bits first, each with its width; \<open>pack\<close> builds the word as the compiler lays it out
  and \<open>unpack\<close> reads it back. A packet builder returns its return code and the words it stored in the
  buffer; on an error the words stored so far are in the buffer too.

  The contract the packet manager relies on, that a packet has exactly the size the table announces
  and that its header says so, is the locale \<open>pm4_table\<close>, interpreted for the three tables.
\<close>

section \<open>Bit fields\<close>

fun pack :: "(nat \<times> u32) list \<Rightarrow> u32" where
  "pack [] = 0"
| "pack ((w, v) # fs) = take_bit w v OR push_bit w (pack fs)"

fun unpack :: "nat list \<Rightarrow> u32 \<Rightarrow> u32 list" where
  "unpack [] x = []"
| "unpack (w # ws) x = take_bit w x # unpack ws (drop_bit w x)"

lemma bit_pack_bound: "bit (pack fs) n \<Longrightarrow> n < sum_list (map fst fs)"
proof (induction fs arbitrary: n)
  case (Cons f fs)
  obtain w v where [simp]: "f = (w, v)" by (cases f)
  from Cons.prems have "n < w \<or> (w \<le> n \<and> bit (pack fs) (n - w))"
    by (auto simp: bit_simps)
  then show ?case using Cons.IH [of "n - w"] by auto
qed simp

lemma drop_pack:
  assumes "w + sum_list (map fst fs) \<le> 32"
  shows "drop_bit w (take_bit w v OR push_bit w (pack fs)) = pack fs"
proof (rule bit_word_eqI)
  fix n :: nat
  assume n: "n < LENGTH(32)"
  have "\<not> bit (pack fs) n" if "\<not> w + n < 32" using that assms bit_pack_bound [of fs n] by auto
  then show "bit (drop_bit w (take_bit w v OR push_bit w (pack fs))) n = bit (pack fs) n"
    using n by (auto simp: bit_simps)
qed

lemma take_pack: "take_bit w (take_bit w v OR push_bit w (x :: u32)) = take_bit w v"
  by (rule bit_word_eqI) (auto simp: bit_simps)

text \<open>Reading the fields of a packed word gives the stored values, cut to their widths.\<close>

lemma unpack_pack:
  "sum_list (map fst fs) \<le> 32 \<Longrightarrow> unpack (map fst fs) (pack fs) = map (\<lambda>(w, v). take_bit w v) fs"
proof (induction fs)
  case (Cons f fs)
  obtain w v where [simp]: "f = (w, v)" by (cases f)
  from Cons have "unpack (map fst fs) (pack fs) = map (\<lambda>(w, v). take_bit w v) fs" by simp
  moreover from Cons.prems have "drop_bit w (pack (f # fs)) = pack fs"
    using drop_pack by simp
  moreover have "take_bit w (pack (f # fs)) = take_bit w v" using take_pack by simp
  ultimately show ?case by simp
qed simp

lemma unpack_packI:
  "ws = map fst fs \<Longrightarrow> sum_list ws \<le> 32 \<Longrightarrow> unpack ws (pack fs) = map (\<lambda>(w, v). take_bit w v) fs"
  using unpack_pack by simp

definition lower_32_bits :: "u64 \<Rightarrow> u32" where
  "lower_32_bits x = ucast x"

definition upper_32_bits :: "u64 \<Rightarrow> u32" where
  "upper_32_bits x = ucast (drop_bit 32 x)"

definition join_32_bits :: "u32 \<Rightarrow> u32 \<Rightarrow> u64" where
  "join_32_bits lo hi = ucast lo OR push_bit 32 (ucast hi)"

lemma join_lower_upper [simp]: "join_32_bits (lower_32_bits x) (upper_32_bits x) = x"
  by (rule bit_word_eqI)
    (auto simp: join_32_bits_def lower_32_bits_def upper_32_bits_def bit_simps)

section \<open>Headers\<close>

abbreviation (input) IT_WRITE_DATA :: u32 where "IT_WRITE_DATA \<equiv> 0x37"
abbreviation (input) IT_RELEASE_MEM :: u32 where "IT_RELEASE_MEM \<equiv> 0x49"
abbreviation (input) IT_SET_RESOURCES :: u32 where "IT_SET_RESOURCES \<equiv> 0xA0"
abbreviation (input) IT_MAP_PROCESS :: u32 where "IT_MAP_PROCESS \<equiv> 0xA1"
abbreviation (input) IT_MAP_QUEUES :: u32 where "IT_MAP_QUEUES \<equiv> 0xA2"
abbreviation (input) IT_UNMAP_QUEUES :: u32 where "IT_UNMAP_QUEUES \<equiv> 0xA3"
abbreviation (input) IT_QUERY_STATUS :: u32 where "IT_QUERY_STATUS \<equiv> 0xA4"
abbreviation (input) IT_RUN_LIST :: u32 where "IT_RUN_LIST \<equiv> 0xA5"
abbreviation (input) PM4_TYPE_3 :: u32 where "PM4_TYPE_3 \<equiv> 3"

definition pm_build_pm4_header :: "u32 \<Rightarrow> nat \<Rightarrow> u32" where
  "pm_build_pm4_header opcode packet_size =
     pack [(8, 0), (8, opcode), (14, of_nat (packet_size div 4) - 2), (2, PM4_TYPE_3)]"

abbreviation pm4_header_layout :: "nat list" where "pm4_header_layout \<equiv> [8, 8, 14, 2]"

text \<open>A type-3 packet: its header carries the opcode and the number of words after the second.\<close>

definition pm4_packet :: "u32 \<Rightarrow> u32 list \<Rightarrow> bool" where
  "pm4_packet opcode ws \<longleftrightarrow>
     2 \<le> length ws \<and> length ws < 2 ^ 14 \<and>
     unpack pm4_header_layout (hd ws) = [0, opcode, of_nat (length ws - 2), PM4_TYPE_3]"

lemma take_bit_word_small: "unat x < 2 ^ n \<Longrightarrow> take_bit n x = (x :: u32)"
  by (rule word_unat_eq_iff [THEN iffD2]) (simp add: unsigned_take_bit_eq take_bit_nat_eq_self)

lemma pm4_packetI:
  assumes "length ws = n" "2 \<le> n" "n < 2 ^ 14" "sz = 4 * n" "hd ws = pm_build_pm4_header opcode sz"
    "opcode < 256"
  shows "pm4_packet opcode ws"
proof -
  have op: "take_bit 8 opcode = opcode"
    using \<open>opcode < 256\<close> by (intro take_bit_word_small) (simp add: word_less_nat_alt)
  have "take_bit 14 (of_nat (n - 2) :: u32) = of_nat (n - 2)"
    using assms(3) by (intro take_bit_word_small) (simp add: unat_of_nat)
  moreover have "(of_nat n - 2 :: u32) = of_nat (n - 2)" using assms(2) by (simp add: of_nat_diff)
  ultimately have "unpack pm4_header_layout (hd ws) = [0, opcode, of_nat (length ws - 2), PM4_TYPE_3]"
    unfolding assms(5) pm_build_pm4_header_def assms(4) by (subst unpack_packI) (auto simp: assms(1) op)
  with assms show ?thesis by (simp add: pm4_packet_def)
qed

record scheduling_resources =
  vmid_mask :: u32
  queue_mask :: u64
  gws_mask :: u64
  oac_mask :: u32
  gds_heap_base :: u32
  gds_heap_size :: u32

record packet_manager_funcs =
  map_process :: "device_queue_manager \<Rightarrow> qcm_process_device \<Rightarrow> retval \<times> u32 list"
  runlist :: "device_queue_manager \<Rightarrow> u64 \<Rightarrow> u64 \<Rightarrow> bool \<Rightarrow> retval \<times> u32 list"
  set_resources :: "device_queue_manager \<Rightarrow> scheduling_resources \<Rightarrow> retval \<times> u32 list"
  map_queues :: "device_queue_manager \<Rightarrow> queue \<Rightarrow> bool \<Rightarrow> retval \<times> u32 list"
  unmap_queues ::
    "device_queue_manager \<Rightarrow> kfd_unmap_queues_filter \<Rightarrow> u32 \<Rightarrow> bool \<Rightarrow> retval \<times> u32 list"
  set_grace_period :: "device_queue_manager \<Rightarrow> u32 \<Rightarrow> retval \<times> u32 list"
  query_status :: "u64 \<Rightarrow> u64 \<Rightarrow> retval \<times> u32 list"
  release_mem :: "u64 \<Rightarrow> retval \<times> u32 list"
  map_process_size :: nat
  runlist_size :: nat
  set_resources_size :: nat
  map_queues_size :: nat
  unmap_queues_size :: nat
  set_grace_period_size :: nat
  query_status_size :: nat
  release_mem_size :: nat

text \<open>A null function pointer in a table.\<close>

definition null_packet :: "retval \<times> u32 list" where
  "null_packet = (Err OOPS, [])"

section \<open>VI packets\<close>

definition pm_map_process_vi ::
    "device_queue_manager \<Rightarrow> qcm_process_device \<Rightarrow> retval \<times> u32 list" where
  "pm_map_process_vi dqm qpd =
     (OK,
      [pm_build_pm4_header IT_MAP_PROCESS 64,
       pack [(16, pasid qpd), (8, 0), (1, if is_debug qpd then 1 else 0), (7, 10)],
       pack [(28, ucast (page_table_base qpd)), (4, 0)],
       0,
       sh_mem_bases qpd,
       sh_mem_config qpd,
       sh_mem_ape1_base qpd,
       sh_mem_ape1_limit qpd,
       sh_hidden_private_base qpd,
       0, 0,
       lower_32_bits (gds_context_area qpd),
       upper_32_bits (gds_context_area qpd),
       pack [(6, num_gws qpd), (2, 0), (4, num_oac qpd), (4, 0), (6, gds_size qpd),
             (10, if is_debug qpd then 0 else queue_count qpd)],
       0, 0])"

definition concurrent_proc_cnt :: "device_queue_manager \<Rightarrow> u32" where
  "concurrent_proc_cnt dqm = min (processes_count dqm) (max_proc_per_quantum (dqm_dev dqm))"

definition pm_runlist_vi ::
    "device_queue_manager \<Rightarrow> u64 \<Rightarrow> u64 \<Rightarrow> bool \<Rightarrow> retval \<times> u32 list" where
  "pm_runlist_vi dqm ib ib_size_in_dwords chain =
     (if ib = 0 then (Err EFAULT, [])
      else (OK,
        [pm_build_pm4_header IT_RUN_LIST 16,
         lower_32_bits ib,
         pack [(16, upper_32_bits ib), (16, 0)],
         pack [(20, ucast ib_size_in_dwords), (1, if chain then 1 else 0), (1, 0), (1, 0), (1, 1),
               (4, concurrent_proc_cnt dqm), (4, 0)]]))"

text \<open>
  The unmap latency field, \<^verbatim>\<open>KFD_UNMAP_LATENCY_MS / 100\<close>, of both generations; the queue type of
  \<^verbatim>\<open>SET_RESOURCES\<close> is the HIQ, number 1.
\<close>

definition unmap_latency :: "device_queue_manager \<Rightarrow> u32" where
  "unmap_latency dqm = (let l = KFD_UNMAP_LATENCY_MS dqm in of_int (sgn l * (\<bar>l\<bar> div 100)))"

definition pm_set_resources_vi ::
    "device_queue_manager \<Rightarrow> scheduling_resources \<Rightarrow> retval \<times> u32 list" where
  "pm_set_resources_vi dqm res =
     (OK,
      [pm_build_pm4_header IT_SET_RESOURCES 32,
       pack [(16, vmid_mask res), (8, unmap_latency dqm), (5, 0), (3, 1)],
       lower_32_bits (queue_mask res), upper_32_bits (queue_mask res),
       lower_32_bits (gws_mask res), upper_32_bits (gws_mask res),
       pack [(16, oac_mask res), (16, 0)],
       pack [(6, gds_heap_base res), (5, 0), (6, gds_heap_size res), (15, 0)]])"

text \<open>
  \<^verbatim>\<open>pm_map_queues_vi\<close>: the queue type field is 0 for a normal compute queue, 2 for a static one, 1 for a
  debug queue; the engine field is 0 for compute and 2 plus the engine number for SDMA. The error
  leaves the packet as it was before the switch.
\<close>

definition map_queues_words_vi :: "queue \<Rightarrow> u32 \<Rightarrow> u32 \<Rightarrow> u32 list" where
  "map_queues_words_vi q queue_type engine_sel =
     [pm_build_pm4_header IT_MAP_QUEUES 28,
      pack [(4, 0), (2, 1), (15, 0), (3, queue_type), (2, 0), (3, engine_sel), (3, 1)],
      pack [(1, 0), (1, 0), (21, doorbell_off (properties q)), (3, 0), (6, 0)],
      lower_32_bits (gart_mqd_addr q), upper_32_bits (gart_mqd_addr q),
      lower_32_bits (write_ptr (properties q)), upper_32_bits (write_ptr (properties q))]"

definition pm_map_queues_vi ::
    "device_queue_manager \<Rightarrow> queue \<Rightarrow> bool \<Rightarrow> retval \<times> u32 list" where
  "pm_map_queues_vi dqm q is_static =
     (case qtype (properties q) of
        KFD_QUEUE_TYPE_COMPUTE \<Rightarrow> (OK, map_queues_words_vi q (if is_static then 2 else 0) 0)
      | KFD_QUEUE_TYPE_DIQ \<Rightarrow> (OK, map_queues_words_vi q 1 0)
      | KFD_QUEUE_TYPE_SDMA \<Rightarrow> (OK, map_queues_words_vi q 0 (sdma_engine_id (properties q) + 2))
      | KFD_QUEUE_TYPE_SDMA_XGMI \<Rightarrow>
          (OK, map_queues_words_vi q 0 (sdma_engine_id (properties q) + 2))
      | KFD_QUEUE_TYPE_HIQ \<Rightarrow>
          (Err EINVAL, [pm_build_pm4_header IT_MAP_QUEUES 28,
                        pack [(4, 0), (2, 1), (15, 0), (3, 0), (2, 0), (3, 0), (3, 1)],
                        0, 0, 0, 0, 0]))"

text \<open>The queue selection of the unmap filter; the enumeration has no other values.\<close>

definition unmap_queue_sel :: "kfd_unmap_queues_filter \<Rightarrow> u32" where
  "unmap_queue_sel flt =
     (case flt of
        KFD_UNMAP_QUEUES_FILTER_BY_PASID \<Rightarrow> 1
      | KFD_UNMAP_QUEUES_FILTER_ALL_QUEUES \<Rightarrow> 2
      | KFD_UNMAP_QUEUES_FILTER_DYNAMIC_QUEUES \<Rightarrow> 3)"

definition unmap_pasid :: "kfd_unmap_queues_filter \<Rightarrow> u32 \<Rightarrow> u32" where
  "unmap_pasid flt filter_param =
     (if flt = KFD_UNMAP_QUEUES_FILTER_BY_PASID then filter_param else 0)"

definition pm_unmap_queues_vi ::
    "device_queue_manager \<Rightarrow> kfd_unmap_queues_filter \<Rightarrow> u32 \<Rightarrow> bool \<Rightarrow> retval \<times> u32 list" where
  "pm_unmap_queues_vi dqm flt filter_param reset =
     (OK,
      [pm_build_pm4_header IT_UNMAP_QUEUES 24,
       pack [(2, if reset then 1 else 0), (2, 0), (2, unmap_queue_sel flt), (20, 0), (3, 0), (3, 0)],
       pack [(16, unmap_pasid flt filter_param), (16, 0)],
       0, 0, 0])"

definition pm_query_status_vi :: "u64 \<Rightarrow> u64 \<Rightarrow> retval \<times> u32 list" where
  "pm_query_status_vi fence_address value =
     (OK,
      [pm_build_pm4_header IT_QUERY_STATUS 28,
       pack [(28, 0), (2, 0), (2, 2)],
       0,
       lower_32_bits fence_address, upper_32_bits fence_address,
       lower_32_bits value, upper_32_bits value])"

definition pm_release_mem_vi :: "u64 \<Rightarrow> retval \<times> u32 list" where
  "pm_release_mem_vi addr =
     (OK,
      [pm_build_pm4_header IT_RELEASE_MEM 28,
       pack [(6, 0x14), (2, 0), (4, 5), (1, 0), (1, 0), (1, 0), (1, 0), (1, 1), (1, 1), (6, 0), (1, 0),
             (2, 0), (5, 0)],
       pack [(16, 0), (2, 0), (6, 0), (3, 2), (2, 0), (3, 1)],
       pack [(2, 0), (30, ucast (drop_bit 2 (addr AND 0xffffffff)))],
       upper_32_bits addr,
       0, 0])"

definition kfd_vi_pm_funcs :: packet_manager_funcs where
  "kfd_vi_pm_funcs =
     \<lparr>map_process = pm_map_process_vi, runlist = pm_runlist_vi, set_resources = pm_set_resources_vi,
      map_queues = pm_map_queues_vi, unmap_queues = pm_unmap_queues_vi,
      set_grace_period = (\<lambda>_ _. null_packet), query_status = pm_query_status_vi,
      release_mem = pm_release_mem_vi, map_process_size = 64, runlist_size = 16,
      set_resources_size = 32, map_queues_size = 28, unmap_queues_size = 24,
      set_grace_period_size = 0, query_status_size = 28, release_mem_size = 28\<rparr>"

section \<open>GFX9 and Aldebaran packets\<close>

text \<open>
  \<^verbatim>\<open>SQ_SHADER_TBA_HI__TRAP_EN__SHIFT\<close> is a register constant of the node record. A zero trap base leaves the
  four trap words zero.
\<close>

definition sq_shader_words :: "qcm_process_device \<Rightarrow> u32 \<Rightarrow> u32 list" where
  "sq_shader_words qpd tba_hi_flags =
     (if qpd_tba_addr qpd \<noteq> 0
      then [lower_32_bits (drop_bit 8 (qpd_tba_addr qpd)),
            upper_32_bits (drop_bit 8 (qpd_tba_addr qpd)) OR tba_hi_flags,
            lower_32_bits (drop_bit 8 (qpd_tma_addr qpd)),
            upper_32_bits (drop_bit 8 (qpd_tma_addr qpd))]
      else [0, 0, 0, 0])"

definition map_process_resources :: "qcm_process_device \<Rightarrow> u32" where
  "map_process_resources qpd =
     pack [(7, if mapped_gws_queue qpd then num_gws qpd else 0), (1, 1), (4, num_oac qpd),
           (4, drop_bit 6 (gds_size qpd) AND 0xF), (6, gds_size qpd AND 0x3F),
           (10, if is_debug qpd then 0 else queue_count qpd)]"

definition pm_map_process_v9 ::
    "device_queue_manager \<Rightarrow> qcm_process_device \<Rightarrow> retval \<times> u32 list" where
  "pm_map_process_v9 dqm qpd =
     (let dbg = trap_debug_vmid dqm \<noteq> 0 \<and> debug_trap_enabled qpd \<and> runtime_state_enabled qpd in
      (OK,
       [pm_build_pm4_header IT_MAP_PROCESS 64,
        pack [(16, pasid qpd), (2, 0), (4, if dbg then trap_debug_vmid dqm else 0),
              (1, if dbg then 1 else 0), (1, 0), (1, if is_debug qpd then 1 else 0), (7, 10)],
        lower_32_bits (page_table_base qpd), upper_32_bits (page_table_base qpd),
        sh_mem_bases qpd, sh_mem_config qpd] @
       sq_shader_words qpd (push_bit (trap_en_shift (dqm_dev dqm)) 1) @
       [0,
        lower_32_bits (gds_context_area qpd), upper_32_bits (gds_context_area qpd),
        map_process_resources qpd, 0, 0]))"

text \<open>
  \<^verbatim>\<open>pm_map_process_aldebaran\<close> copies the first \<^verbatim>\<open>num_of_watch_points\<close> watch points, of which the hardware
  has at most four, into an array of four words; the others stay zero.
\<close>

definition tcp_watch_cntl :: "device_queue_manager \<Rightarrow> qcm_process_device \<Rightarrow> u32 list" where
  "tcp_watch_cntl dqm qpd =
     (if debug_trap_enabled qpd
      then map (\<lambda>i. if i < num_of_watch_points (dqm_dev dqm) \<and> i < length (watch_points qpd)
                     then watch_points qpd ! i else 0) [0..<4]
      else [0, 0, 0, 0])"

definition pm_map_process_aldebaran ::
    "device_queue_manager \<Rightarrow> qcm_process_device \<Rightarrow> retval \<times> u32 list" where
  "pm_map_process_aldebaran dqm qpd =
     (OK,
      [pm_build_pm4_header IT_MAP_PROCESS 84,
       pack [(16, pasid qpd), (1, if debug_trap_enabled qpd \<and> single_mem_op qpd then 1 else 0), (1, 0),
             (4, 0), (1, 0), (1, 0), (1, if is_debug qpd then 1 else 0), (7, 10)],
       lower_32_bits (page_table_base qpd), upper_32_bits (page_table_base qpd),
       sh_mem_bases qpd, sh_mem_config qpd] @
      sq_shader_words qpd 0 @
      [0,
       lower_32_bits (gds_context_area qpd), upper_32_bits (gds_context_area qpd),
       map_process_resources qpd,
       spi_dbg_override qpd OR spi_dbg_launch_mode qpd] @
      tcp_watch_cntl dqm qpd @
      [0, 0])"

definition pm_runlist_v9 ::
    "device_queue_manager \<Rightarrow> u64 \<Rightarrow> u64 \<Rightarrow> bool \<Rightarrow> retval \<times> u32 list" where
  "pm_runlist_v9 dqm ib ib_size_in_dwords chain =
     (OK,
      [pm_build_pm4_header IT_RUN_LIST 16,
       lower_32_bits ib,
       upper_32_bits ib,
       pack [(20, ucast ib_size_in_dwords), (1, if chain then 1 else 0), (1, 0),
             (1, if chain then 1 else 0), (1, 1), (4, concurrent_proc_cnt dqm), (4, 0)]])"

definition pm_set_resources_v9 ::
    "device_queue_manager \<Rightarrow> scheduling_resources \<Rightarrow> retval \<times> u32 list" where
  "pm_set_resources_v9 dqm res =
     (OK,
      [pm_build_pm4_header IT_SET_RESOURCES 32,
       pack [(16, vmid_mask res), (8, unmap_latency dqm), (5, 0), (3, 1)],
       lower_32_bits (queue_mask res), upper_32_bits (queue_mask res),
       lower_32_bits (gws_mask res), upper_32_bits (gws_mask res),
       pack [(16, oac_mask res), (16, 0)],
       pack [(10, gds_heap_base res), (1, 0), (10, gds_heap_size res), (11, 0)]])"

definition pm_use_ext_eng :: "kfd_node \<Rightarrow> bool" where
  "pm_use_ext_eng node \<longleftrightarrow> sdma0_version node \<ge> IP_VERSION 5 2 0"

text \<open>
  \<^verbatim>\<open>pm_map_queues_v9\<close>. The engine of an SDMA queue is selected by the pair of the extended engine
  selector and the engine selector.
\<close>

definition sdma_engine_sel_v9 :: "kfd_node \<Rightarrow> u32 \<Rightarrow> u32 \<times> u32" where
  "sdma_engine_sel_v9 node engine =
     (if engine < 2 \<and> \<not> pm_use_ext_eng node then (0, engine + 2)
      else (if engine \<ge> 8 then 2 else 1, engine mod 8))"

definition map_queues_words_v9 :: "queue \<Rightarrow> u32 \<Rightarrow> u32 \<times> u32 \<Rightarrow> u32 list" where
  "map_queues_words_v9 q queue_type engine =
     [pm_build_pm4_header IT_MAP_QUEUES 28,
      pack [(2, 0), (2, fst engine), (2, 1), (6, 0), (1, if is_gws (properties q) then 1 else 0),
            (8, 0), (3, queue_type), (2, 0), (3, snd engine), (3, 1)],
      pack [(1, 0), (1, 0), (26, doorbell_off (properties q)), (4, 0)],
      lower_32_bits (gart_mqd_addr q), upper_32_bits (gart_mqd_addr q),
      lower_32_bits (write_ptr (properties q)), upper_32_bits (write_ptr (properties q))]"

definition pm_map_queues_v9 ::
    "device_queue_manager \<Rightarrow> queue \<Rightarrow> bool \<Rightarrow> retval \<times> u32 list" where
  "pm_map_queues_v9 dqm q is_static =
     (let sdma = sdma_engine_sel_v9 (dqm_dev dqm) (sdma_engine_id (properties q)) in
      case qtype (properties q) of
        KFD_QUEUE_TYPE_COMPUTE \<Rightarrow> (OK, map_queues_words_v9 q (if is_static then 2 else 0) (0, 0))
      | KFD_QUEUE_TYPE_DIQ \<Rightarrow> (OK, map_queues_words_v9 q 1 (0, 0))
      | KFD_QUEUE_TYPE_SDMA \<Rightarrow> (OK, map_queues_words_v9 q 0 sdma)
      | KFD_QUEUE_TYPE_SDMA_XGMI \<Rightarrow> (OK, map_queues_words_v9 q 0 sdma)
      | KFD_QUEUE_TYPE_HIQ \<Rightarrow>
          (Err EINVAL, [pm_build_pm4_header IT_MAP_QUEUES 28,
                        pack [(2, 0), (2, 0), (2, 1), (6, 0),
                              (1, if is_gws (properties q) then 1 else 0), (8, 0), (3, 0), (2, 0),
                              (3, 0), (3, 1)],
                        0, 0, 0, 0, 0]))"

definition pm_set_grace_period_v9 :: "device_queue_manager \<Rightarrow> u32 \<Rightarrow> retval \<times> u32 list" where
  "pm_set_grace_period_v9 dqm grace_period =
     (let (reg_offset, reg_data0) =
            build_grace_period_packet_info (dqm_dev dqm) (wait_times dqm) grace_period;
          reg_data = (if grace_period = USE_DEFAULT_GRACE_PERIOD then wait_times dqm else reg_data0)
      in (OK,
          [pm_build_pm4_header IT_WRITE_DATA 20,
           pack [(8, 0), (4, 0), (4, 0), (1, 1), (2, 0), (1, 0), (1, 0), (4, 0), (2, 0), (5, 0)],
           pack [(18, reg_offset), (14, 0)],
           0,
           reg_data]))"

definition pm_unmap_queues_v9 ::
    "device_queue_manager \<Rightarrow> kfd_unmap_queues_filter \<Rightarrow> u32 \<Rightarrow> bool \<Rightarrow> retval \<times> u32 list" where
  "pm_unmap_queues_v9 dqm flt filter_param reset =
     (OK,
      [pm_build_pm4_header IT_UNMAP_QUEUES 24,
       pack [(2, if reset then 1 else 0), (2, if pm_use_ext_eng (dqm_dev dqm) then 1 else 0),
             (2, unmap_queue_sel flt), (20, 0), (3, 0), (3, 0)],
       pack [(16, unmap_pasid flt filter_param), (16, 0)],
       0, 0, 0])"

definition pm_query_status_v9 :: "u64 \<Rightarrow> u64 \<Rightarrow> retval \<times> u32 list" where
  "pm_query_status_v9 fence_address value =
     (OK,
      [pm_build_pm4_header IT_QUERY_STATUS 28,
       pack [(28, 0), (2, 0), (2, 2)],
       0,
       lower_32_bits fence_address, upper_32_bits fence_address,
       lower_32_bits value, upper_32_bits value])"

definition kfd_v9_pm_funcs :: packet_manager_funcs where
  "kfd_v9_pm_funcs =
     \<lparr>map_process = pm_map_process_v9, runlist = pm_runlist_v9, set_resources = pm_set_resources_v9,
      map_queues = pm_map_queues_v9, unmap_queues = pm_unmap_queues_v9,
      set_grace_period = pm_set_grace_period_v9, query_status = pm_query_status_v9,
      release_mem = (\<lambda>_. null_packet), map_process_size = 64, runlist_size = 16,
      set_resources_size = 32, map_queues_size = 28, unmap_queues_size = 24,
      set_grace_period_size = 20, query_status_size = 28, release_mem_size = 0\<rparr>"

definition kfd_aldebaran_pm_funcs :: packet_manager_funcs where
  "kfd_aldebaran_pm_funcs =
     \<lparr>map_process = pm_map_process_aldebaran, runlist = pm_runlist_v9,
      set_resources = pm_set_resources_v9, map_queues = pm_map_queues_v9,
      unmap_queues = pm_unmap_queues_v9, set_grace_period = pm_set_grace_period_v9,
      query_status = pm_query_status_v9, release_mem = (\<lambda>_. null_packet), map_process_size = 84,
      runlist_size = 16, set_resources_size = 32, map_queues_size = 28, unmap_queues_size = 24,
      set_grace_period_size = 20, query_status_size = 28, release_mem_size = 0\<rparr>"

text \<open>The table \<^verbatim>\<open>pm->pmf\<close> points to.\<close>

definition pm_funcs :: "pm_table \<Rightarrow> packet_manager_funcs" where
  "pm_funcs t =
     (case t of
        kfd_vi_pm_table \<Rightarrow> kfd_vi_pm_funcs
      | kfd_v9_pm_table \<Rightarrow> kfd_v9_pm_funcs
      | kfd_aldebaran_pm_table \<Rightarrow> kfd_aldebaran_pm_funcs)"

section \<open>Walking a packet stream\<close>

text \<open>
  The command processor finds the packets of a stream by their headers alone. \<open>pm4_walk\<close> splits a
  stream that way; it fails when a packet runs over the end.
\<close>

definition pm4_length :: "u32 \<Rightarrow> nat" where
  "pm4_length header = unat (unpack pm4_header_layout header ! 2) + 2"

function pm4_walk :: "u32 list \<Rightarrow> u32 list list option" where
  "pm4_walk ws =
     (if ws = [] then Some []
      else let n = pm4_length (hd ws) in
           if length ws < n then None
           else map_option (\<lambda>ps. take n ws # ps) (pm4_walk (drop n ws)))"
  by pat_completeness auto
termination by (relation "measure length") (auto simp: pm4_length_def)

declare pm4_walk.simps [simp del]

lemma pm4_walk_Nil [simp]: "pm4_walk [] = Some []"
  by (simp add: pm4_walk.simps)

lemma pm4_packet_length:
  assumes "pm4_packet opcode ws" shows "pm4_length (hd ws) = length ws"
proof -
  from assms have b: "2 \<le> length ws" "length ws < 2 ^ 14"
    and "unpack pm4_header_layout (hd ws) ! 2 = of_nat (length ws - 2)"
    by (simp_all add: pm4_packet_def del: unpack.simps)
  then have "pm4_length (hd ws) = unat (of_nat (length ws - 2) :: u32) + 2"
    by (simp only: pm4_length_def)
  also have "\<dots> = length ws" using b by (subst unat_of_nat_small) auto
  finally show ?thesis .
qed

lemma pm4_walk_packet:
  assumes "pm4_packet opcode p" shows "pm4_walk (p @ ws) = map_option ((#) p) (pm4_walk ws)"
proof -
  from assms have ne: "p \<noteq> []" by (auto simp: pm4_packet_def)
  with pm4_packet_length [OF assms] show ?thesis by (subst pm4_walk.simps) simp
qed

lemma pm4_walk_concat:
  "(\<And>p. p \<in> set ps \<Longrightarrow> \<exists>opcode. pm4_packet opcode p) \<Longrightarrow> pm4_walk (concat ps) = Some ps"
proof (induction ps)
  case (Cons p ps)
  then obtain opcode where "pm4_packet opcode p" by auto
  with Cons show ?case by (simp add: pm4_walk_packet)
qed simp

section \<open>The contract of a packet table\<close>

text \<open>A builder that succeeds with a well-formed packet of the announced size.\<close>

definition builds :: "u32 \<Rightarrow> nat \<Rightarrow> retval \<times> u32 list \<Rightarrow> bool" where
  "builds opcode sz r \<longleftrightarrow> fst r = OK \<and> pm4_packet opcode (snd r) \<and> 4 * length (snd r) = sz"

lemma buildsI:
  assumes "fst r = OK" "length (snd r) = n" "2 \<le> n" "n < 2 ^ 14" "sz = 4 * n"
    "hd (snd r) = pm_build_pm4_header opcode sz" "opcode < 256"
  shows "builds opcode sz r"
  using assms pm4_packetI [of "snd r" n sz opcode] by (simp add: builds_def)

lemma builds_length: "builds opcode sz (OK, ws) \<Longrightarrow> length ws = sz div 4"
  by (auto simp: builds_def)

lemma builds_pair: "builds opcode sz r \<Longrightarrow> r = (OK, snd r)"
  by (cases r) (simp add: builds_def)

lemma builds_dvd: "builds opcode sz r \<Longrightarrow> 4 dvd sz"
  by (auto simp: builds_def)

text \<open>The part of the manager the packets depend on.\<close>

definition pm_view :: "device_queue_manager \<Rightarrow> _" where
  "pm_view dqm =
     (processes_count dqm, trap_debug_vmid dqm, wait_times dqm,
      max_proc_per_quantum (dqm_dev dqm), trap_en_shift (dqm_dev dqm),
      num_of_watch_points (dqm_dev dqm), sdma0_version (dqm_dev dqm))"

locale pm4_table =
  fixes F :: packet_manager_funcs
  assumes map_process_builds: "builds IT_MAP_PROCESS (map_process_size F) (map_process F dqm qpd)"
    and map_queues_builds: "qtype (properties q) \<noteq> KFD_QUEUE_TYPE_HIQ \<Longrightarrow>
          builds IT_MAP_QUEUES (map_queues_size F) (map_queues F dqm q st)"
    and map_queues_HIQ: "qtype (properties q) = KFD_QUEUE_TYPE_HIQ \<Longrightarrow>
          fst (map_queues F dqm q st) = Err EINVAL"
    and runlist_builds: "ib \<noteq> 0 \<Longrightarrow> builds IT_RUN_LIST (runlist_size F) (runlist F dqm ib n chain)"
    and set_resources_builds:
          "builds IT_SET_RESOURCES (set_resources_size F) (set_resources F dqm res)"
    and unmap_queues_builds:
          "builds IT_UNMAP_QUEUES (unmap_queues_size F) (unmap_queues F dqm flt param reset)"
    and query_status_builds:
          "builds IT_QUERY_STATUS (query_status_size F) (query_status F addr val)"
    and grace_period_builds: "set_grace_period_size F \<noteq> 0 \<Longrightarrow>
          builds IT_WRITE_DATA (set_grace_period_size F) (set_grace_period F dqm period)"
    and map_process_pasid:
          "hd (unpack [16, 16] (snd (map_process F dqm qpd) ! Suc 0)) = take_bit 16 (pasid qpd)"
    and map_queues_mqd: "map_queues F dqm q st = (OK, ws) \<Longrightarrow>
          join_32_bits (ws ! 3) (ws ! 4) = gart_mqd_addr q"
    and map_process_frame: "pm_view dqm = pm_view dqm' \<Longrightarrow> map_process F dqm qpd = map_process F dqm' qpd"
    and map_queues_frame: "pm_view dqm = pm_view dqm' \<Longrightarrow> map_queues F dqm q st = map_queues F dqm' q st"
    and runlist_frame: "pm_view dqm = pm_view dqm' \<Longrightarrow> runlist F dqm ib n c = runlist F dqm' ib n c"

lemmas pm4_builder_defs =
  pm_map_process_vi_def pm_map_process_v9_def pm_map_process_aldebaran_def
  pm_runlist_vi_def pm_runlist_v9_def pm_set_resources_vi_def pm_set_resources_v9_def
  pm_unmap_queues_vi_def pm_unmap_queues_v9_def pm_query_status_vi_def pm_query_status_v9_def
  pm_set_grace_period_v9_def map_queues_words_vi_def map_queues_words_v9_def sq_shader_words_def
  tcp_watch_cntl_def

lemma map_process_vi_builds: "builds IT_MAP_PROCESS 64 (pm_map_process_vi dqm qpd)"
  by (rule buildsI [where n = 16]) (simp_all add: pm4_builder_defs)

lemma map_process_v9_builds: "builds IT_MAP_PROCESS 64 (pm_map_process_v9 dqm qpd)"
  by (rule buildsI [where n = 16]) (simp_all add: pm4_builder_defs Let_def)

lemma map_process_aldebaran_builds: "builds IT_MAP_PROCESS 84 (pm_map_process_aldebaran dqm qpd)"
  by (rule buildsI [where n = 21]) (simp_all add: pm4_builder_defs Let_def)

lemma map_queues_vi_builds:
  "qtype (properties q) \<noteq> KFD_QUEUE_TYPE_HIQ \<Longrightarrow> builds IT_MAP_QUEUES 28 (pm_map_queues_vi dqm q st)"
  by (rule buildsI [where n = 7])
    (auto simp: pm_map_queues_vi_def pm4_builder_defs split: kfd_queue_type.splits)

lemma map_queues_v9_builds:
  "qtype (properties q) \<noteq> KFD_QUEUE_TYPE_HIQ \<Longrightarrow> builds IT_MAP_QUEUES 28 (pm_map_queues_v9 dqm q st)"
  by (rule buildsI [where n = 7])
    (auto simp: pm_map_queues_v9_def pm4_builder_defs Let_def split: kfd_queue_type.splits)

lemma runlist_vi_builds: "ib \<noteq> 0 \<Longrightarrow> builds IT_RUN_LIST 16 (pm_runlist_vi dqm ib n chain)"
  by (rule buildsI [where n = 4]) (simp_all add: pm4_builder_defs)

lemma runlist_v9_builds: "builds IT_RUN_LIST 16 (pm_runlist_v9 dqm ib n chain)"
  by (rule buildsI [where n = 4]) (simp_all add: pm4_builder_defs)

lemma set_resources_vi_builds: "builds IT_SET_RESOURCES 32 (pm_set_resources_vi dqm res)"
  by (rule buildsI [where n = 8]) (simp_all add: pm4_builder_defs)

lemma set_resources_v9_builds: "builds IT_SET_RESOURCES 32 (pm_set_resources_v9 dqm res)"
  by (rule buildsI [where n = 8]) (simp_all add: pm4_builder_defs)

lemma unmap_queues_vi_builds: "builds IT_UNMAP_QUEUES 24 (pm_unmap_queues_vi dqm flt param reset)"
  by (rule buildsI [where n = 6]) (simp_all add: pm4_builder_defs)

lemma unmap_queues_v9_builds: "builds IT_UNMAP_QUEUES 24 (pm_unmap_queues_v9 dqm flt param reset)"
  by (rule buildsI [where n = 6]) (simp_all add: pm4_builder_defs)

lemma query_status_vi_builds: "builds IT_QUERY_STATUS 28 (pm_query_status_vi addr val)"
  by (rule buildsI [where n = 7]) (simp_all add: pm4_builder_defs)

lemma query_status_v9_builds: "builds IT_QUERY_STATUS 28 (pm_query_status_v9 addr val)"
  by (rule buildsI [where n = 7]) (simp_all add: pm4_builder_defs)

lemma grace_period_v9_builds: "builds IT_WRITE_DATA 20 (pm_set_grace_period_v9 dqm period)"
  by (rule buildsI [where n = 5]) (simp_all add: pm4_builder_defs Let_def split: prod.splits)

lemma map_queues_vi_HIQ:
  "qtype (properties q) = KFD_QUEUE_TYPE_HIQ \<Longrightarrow> fst (pm_map_queues_vi dqm q st) = Err EINVAL"
  by (simp add: pm_map_queues_vi_def Let_def)

lemma map_queues_v9_HIQ:
  "qtype (properties q) = KFD_QUEUE_TYPE_HIQ \<Longrightarrow> fst (pm_map_queues_v9 dqm q st) = Err EINVAL"
  by (simp add: pm_map_queues_v9_def Let_def)

text \<open>The process packet carries the PASID in its second word, the queue packet the MQD address.\<close>

lemma first_field:
  "w \<le> 32 \<Longrightarrow> hd (unpack [w, k] (pack ((w, v) # fs))) = take_bit w v"
  using take_pack [of w v "pack fs"] by simp

lemma map_process_vi_pasid:
  "hd (unpack [16, 16] (snd (pm_map_process_vi dqm qpd) ! Suc 0)) = take_bit 16 (pasid qpd)"
  unfolding pm_map_process_vi_def by (simp del: unpack.simps pack.simps add: first_field)

lemma map_process_v9_pasid:
  "hd (unpack [16, 16] (snd (pm_map_process_v9 dqm qpd) ! Suc 0)) = take_bit 16 (pasid qpd)"
  unfolding pm_map_process_v9_def Let_def by (simp del: unpack.simps pack.simps add: first_field)

lemma map_process_aldebaran_pasid:
  "hd (unpack [16, 16] (snd (pm_map_process_aldebaran dqm qpd) ! Suc 0)) = take_bit 16 (pasid qpd)"
  unfolding pm_map_process_aldebaran_def by (simp del: unpack.simps pack.simps add: first_field)

lemma map_queues_vi_mqd:
  "pm_map_queues_vi dqm q st = (OK, ws) \<Longrightarrow> join_32_bits (ws ! 3) (ws ! 4) = gart_mqd_addr q"
  by (auto simp: pm_map_queues_vi_def map_queues_words_vi_def split: kfd_queue_type.splits)

lemma map_queues_v9_mqd:
  "pm_map_queues_v9 dqm q st = (OK, ws) \<Longrightarrow> join_32_bits (ws ! 3) (ws ! 4) = gart_mqd_addr q"
  by (auto simp: pm_map_queues_v9_def Let_def map_queues_words_v9_def split: kfd_queue_type.splits)

lemmas pm4_frame_defs =
  pm_view_def pm_map_process_vi_def pm_map_process_v9_def pm_map_process_aldebaran_def
  pm_map_queues_vi_def pm_map_queues_v9_def pm_runlist_vi_def pm_runlist_v9_def
  concurrent_proc_cnt_def tcp_watch_cntl_def sdma_engine_sel_v9_def pm_use_ext_eng_def

lemma pm4_frames:
  assumes "pm_view dqm = pm_view dqm'"
  shows "pm_map_process_vi dqm qpd = pm_map_process_vi dqm' qpd"
    "pm_map_process_v9 dqm qpd = pm_map_process_v9 dqm' qpd"
    "pm_map_process_aldebaran dqm qpd = pm_map_process_aldebaran dqm' qpd"
    "pm_map_queues_vi dqm q st = pm_map_queues_vi dqm' q st"
    "pm_map_queues_v9 dqm q st = pm_map_queues_v9 dqm' q st"
    "pm_runlist_vi dqm ib n c = pm_runlist_vi dqm' ib n c"
    "pm_runlist_v9 dqm ib n c = pm_runlist_v9 dqm' ib n c"
  using assms by (simp_all add: pm4_frame_defs Let_def del: pack.simps)

interpretation vi: pm4_table kfd_vi_pm_funcs
  by unfold_locales
    (simp_all add: kfd_vi_pm_funcs_def map_process_vi_builds map_queues_vi_builds runlist_vi_builds
      set_resources_vi_builds unmap_queues_vi_builds query_status_vi_builds map_process_vi_pasid
      map_queues_vi_mqd map_queues_vi_HIQ del: unpack.simps,
      (erule pm4_frames)+)

interpretation v9: pm4_table kfd_v9_pm_funcs
  by unfold_locales
    (simp_all add: kfd_v9_pm_funcs_def map_process_v9_builds map_queues_v9_builds runlist_v9_builds
      set_resources_v9_builds unmap_queues_v9_builds query_status_v9_builds map_process_v9_pasid
      grace_period_v9_builds map_queues_v9_mqd map_queues_v9_HIQ del: unpack.simps,
      (erule pm4_frames)+)

interpretation aldebaran: pm4_table kfd_aldebaran_pm_funcs
  by unfold_locales
    (simp_all add: kfd_aldebaran_pm_funcs_def map_process_aldebaran_builds map_queues_v9_builds
      runlist_v9_builds set_resources_v9_builds unmap_queues_v9_builds query_status_v9_builds
      map_process_aldebaran_pasid grace_period_v9_builds map_queues_v9_mqd map_queues_v9_HIQ
      del: unpack.simps,
      (erule pm4_frames)+)

lemma pm4_table_pm_funcs: "pm4_table (pm_funcs t)"
  by (cases t)
    (simp_all add: pm_funcs_def vi.pm4_table_axioms v9.pm4_table_axioms aldebaran.pm4_table_axioms)

end
