(* ===== verification/Packet_Manager.thy ===== *)
theory Packet_Manager
  imports Pm4_Packets
begin

text \<open>
  The packet manager: \<^verbatim>\<open>kfd/kfd_packet_manager.c\<close>. It sends packets to the hardware scheduler over the HIQ
  kernel queue and builds the runlist, an indirect buffer (IB) with a process packet for every
  registered process, followed by a queue packet for each of its active queues.

  The functions work on the device queue manager that embeds the packet manager, because they read
  its counters and allocate from the node's GTT; \<open>F\<close> is the table of packet builders. Main result: when the
  counters agree with the registered processes, the runlist never overflows its buffer and walking the
  buffer finds exactly the packets of the registered processes and active queues.
\<close>

section \<open>State access\<close>

abbreviation upd_pm ::
    "(packet_manager \<Rightarrow> packet_manager) \<Rightarrow> device_queue_manager \<Rightarrow> device_queue_manager" where
  "upd_pm f dqm \<equiv> dqm\<lparr>packet_mgr := f (packet_mgr dqm)\<rparr>"

definition set_kfd :: "kfd_dev \<Rightarrow> device_queue_manager \<Rightarrow> device_queue_manager" where
  "set_kfd d dqm = dqm\<lparr>dqm_dev := (dqm_dev dqm)\<lparr>kfd := d\<rparr>\<rparr>"

section \<open>Runlist construction\<close>

definition pm_calc_rlib_size :: "packet_manager_funcs \<Rightarrow> device_queue_manager \<Rightarrow> u32 \<times> bool" where
  "pm_calc_rlib_size F dqm =
     (let process_count = processes_count dqm; queue_count = active_queue_count dqm;
          max_proc = (if max_proc_per_quantum (dqm_dev dqm) > 1
                      then max_proc_per_quantum (dqm_dev dqm) else 1);
          over_subscription = (process_count > max_proc \<or>
            active_cp_queue_count dqm > of_nat (get_cp_queues_num dqm) \<or> gws_queue_count dqm > 1);
          rlib_size = process_count * of_nat (map_process_size F) +
                      queue_count * of_nat (map_queues_size F)
      in (if over_subscription then rlib_size + of_nat (runlist_size F) else rlib_size,
          over_subscription))"

text \<open>
  \<open>kz\<close> is the outcome of the descriptor allocation in \<^verbatim>\<open>kfd_gtt_sa_allocate\<close>. The result is the GPU address and
  the size of the buffer and whether the runlist is oversubscribed.
\<close>

definition pm_allocate_runlist_ib ::
    "packet_manager_funcs \<Rightarrow> bool \<Rightarrow> device_queue_manager \<Rightarrow>
     (errno + u64 \<times> u32 \<times> bool) \<times> device_queue_manager" where
  "pm_allocate_runlist_ib F kz dqm =
     (if pm_allocated (packet_mgr dqm) then (Inl EINVAL, dqm)
      else let (rl_size, over) = pm_calc_rlib_size F dqm in
           case dev_gtt_alloc kz (kfd (dqm_dev dqm)) rl_size of
             (Inl e, d) \<Rightarrow> (Inl e, set_kfd d dqm)
           | (Inr m, d) \<Rightarrow>
               (Inr (gpu_addr m, rl_size, over),
                upd_pm (\<lambda>pm. pm\<lparr>ib_buffer_obj := Some m, pm_allocated := True,
                                ib_words := replicate (unat rl_size div 4) 0,
                                ib_overflow := False\<rparr>)
                  (set_kfd d dqm)))"

definition pm_release_ib :: "device_queue_manager \<Rightarrow> device_queue_manager" where
  "pm_release_ib dqm =
     (if pm_allocated (packet_mgr dqm)
      then upd_pm (\<lambda>pm. pm\<lparr>pm_allocated := False\<rparr>)
             (set_kfd (dev_gtt_free (kfd (dqm_dev dqm)) (ib_buffer_obj (packet_mgr dqm))) dqm)
      else dqm)"

text \<open>
  Filling the buffer. The state is the word index \<^verbatim>\<open>rl_wptr\<close>, whether a packet reached beyond the end of the
  buffer, and the memory. The index grows by at most 21 words per list element, so it does not wrap.
  \<open>inc_wptr\<close> advances by the announced size; the packet is stored before.
\<close>

type_synonym ib_state = "nat \<times> bool \<times> u32 list"

definition ib_store :: "u32 list \<Rightarrow> ib_state \<Rightarrow> ib_state" where
  "ib_store ws st =
     (case st of (w, ov, mem) \<Rightarrow> (w, ov \<or> w + length ws > length mem, write_words w ws mem))"

definition inc_wptr :: "nat \<Rightarrow> ib_state \<Rightarrow> ib_state" where
  "inc_wptr increment_bytes st =
     (case st of (w, ov, mem) \<Rightarrow>
        let temp = w + increment_bytes div 4 in (temp, ov \<or> temp > length mem, mem))"

fun ib_map_queues ::
    "packet_manager_funcs \<Rightarrow> device_queue_manager \<Rightarrow> bool \<Rightarrow> queue list \<Rightarrow> ib_state \<Rightarrow>
     retval \<times> ib_state" where
  "ib_map_queues F dqm st [] s = (OK, s)"
| "ib_map_queues F dqm st (q # qs) s =
     (if \<not> is_active (properties q) then ib_map_queues F dqm st qs s
      else case map_queues F dqm q st of
             (Err e, ws) \<Rightarrow> (Err e, ib_store ws s)
           | (OK, ws) \<Rightarrow> ib_map_queues F dqm st qs (inc_wptr (map_queues_size F) (ib_store ws s)))"

text \<open>The flag of the result says that the loop stopped for lack of space, which releases the buffer.\<close>

fun ib_map_processes ::
    "packet_manager_funcs \<Rightarrow> device_queue_manager \<Rightarrow> nat \<Rightarrow> qcm_process_device list \<Rightarrow> ib_state \<Rightarrow>
     retval \<times> ib_state \<times> bool" where
  "ib_map_processes F dqm processes_mapped [] s = (OK, s, False)"
| "ib_map_processes F dqm processes_mapped (qpd # qpds) s =
     (if processes_mapped \<ge> unat (processes_count dqm) then (Err ENOMEM, s, True)
      else case map_process F dqm qpd of
        (Err e, ws) \<Rightarrow> (Err e, ib_store ws s, False)
      | (OK, ws) \<Rightarrow>
          (case ib_map_queues F dqm (is_debug qpd) (priv_queue_list qpd)
                  (inc_wptr (map_process_size F) (ib_store ws s)) of
             (Err e, s1) \<Rightarrow> (Err e, s1, False)
           | (OK, s1) \<Rightarrow>
               (case ib_map_queues F dqm (is_debug qpd) (queues_list qpd) s1 of
                  (Err e, s2) \<Rightarrow> (Err e, s2, False)
                | (OK, s2) \<Rightarrow> ib_map_processes F dqm (Suc processes_mapped) qpds s2)))"

definition set_ib :: "ib_state \<Rightarrow> device_queue_manager \<Rightarrow> device_queue_manager" where
  "set_ib s dqm =
     (case s of (w, ov, mem) \<Rightarrow> upd_pm (\<lambda>pm. pm\<lparr>ib_words := mem, ib_overflow := ov\<rparr>) dqm)"

definition pm_fill_runlist_ib ::
    "packet_manager_funcs \<Rightarrow> u64 \<Rightarrow> u32 \<Rightarrow> bool \<Rightarrow> device_queue_manager \<Rightarrow>
     (errno + u64 \<times> u32) \<times> device_queue_manager" where
  "pm_fill_runlist_ib F addr sz over dqm =
     (case ib_map_processes F dqm 0 (dqm_queues dqm) (0, False, ib_words (packet_mgr dqm)) of
        (Err e, s, no_space) \<Rightarrow>
          (Inl e, if no_space then pm_release_ib (set_ib s dqm) else set_ib s dqm)
      | (OK, s, _) \<Rightarrow>
          let (r, s') = (if over
                         then (case runlist F dqm addr (ucast (sz div 4)) True of
                                 (r, ws) \<Rightarrow> (r, ib_store ws s))
                         else (OK, s));
              dqm1 = upd_pm (\<lambda>pm. pm\<lparr>pm_is_over_subscription := over\<rparr>) (set_ib s' dqm)
          in (case r of OK \<Rightarrow> (Inr (addr, sz), dqm1) | Err e \<Rightarrow> (Inl e, dqm1)))"

definition pm_create_runlist_ib ::
    "packet_manager_funcs \<Rightarrow> bool \<Rightarrow> device_queue_manager \<Rightarrow>
     (errno + u64 \<times> u32) \<times> device_queue_manager" where
  "pm_create_runlist_ib F kz dqm =
     (case pm_allocate_runlist_ib F kz dqm of
        (Inl e, dqm1) \<Rightarrow> (Inl e, dqm1)
      | (Inr (addr, sz, over), dqm1) \<Rightarrow>
          pm_fill_runlist_ib F addr sz over (upd_pm (\<lambda>pm. pm\<lparr>ib_size_bytes := sz\<rparr>) dqm1))"

section \<open>Sending packets\<close>

text \<open>
  The body the senders share: acquire space on the HIQ, build the packet into it, and submit it or
  roll back. A missing HIQ is a null dereference.
\<close>

definition pm_send_packet ::
    "nat \<Rightarrow> retval \<times> u32 list \<Rightarrow> device_queue_manager \<Rightarrow> retval \<times> device_queue_manager" where
  "pm_send_packet sz packet dqm =
     (case pm_priv_queue (packet_mgr dqm) of
        None \<Rightarrow> (Err OOPS, dqm)
      | Some kq \<Rightarrow>
          (case kq_acquire_packet_buffer kq (of_nat (sz div 4)) of
             (Inl _, kq1) \<Rightarrow> (Err ENOMEM, upd_pm (\<lambda>pm. pm\<lparr>pm_priv_queue := Some kq1\<rparr>) dqm)
           | (Inr pos, kq1) \<Rightarrow>
               let kq2 = kq1\<lparr>pq_kernel := write_words pos (snd packet) (pq_kernel kq1)\<rparr>;
                   kq3 = (case fst packet of
                            OK \<Rightarrow> fst (kq_submit_packet kq2) | Err _ \<Rightarrow> kq_rollback_packet kq2)
               in (fst packet, upd_pm (\<lambda>pm. pm\<lparr>pm_priv_queue := Some kq3\<rparr>) dqm)))"

definition pm_send_set_resources ::
    "packet_manager_funcs \<Rightarrow> scheduling_resources \<Rightarrow> device_queue_manager \<Rightarrow>
     retval \<times> device_queue_manager" where
  "pm_send_set_resources F res dqm = pm_send_packet (set_resources_size F) (set_resources F dqm res) dqm"

definition pm_send_runlist ::
    "packet_manager_funcs \<Rightarrow> bool \<Rightarrow> device_queue_manager \<Rightarrow> retval \<times> device_queue_manager" where
  "pm_send_runlist F kz dqm =
     (case pm_create_runlist_ib F kz dqm of
        (Inl e, dqm1) \<Rightarrow> (Err e, pm_release_ib dqm1)
      | (Inr (addr, sz), dqm1) \<Rightarrow>
          (case pm_send_packet (runlist_size F) (runlist F dqm1 addr (ucast (sz div 4)) False) dqm1 of
             (OK, dqm2) \<Rightarrow> (OK, dqm2)
           | (Err e, dqm2) \<Rightarrow> (Err e, pm_release_ib dqm2)))"

definition pm_send_query_status ::
    "packet_manager_funcs \<Rightarrow> u64 \<Rightarrow> u64 \<Rightarrow> device_queue_manager \<Rightarrow> retval \<times> device_queue_manager" where
  "pm_send_query_status F fence_address val dqm =
     (if fence_address = 0 then (Err EFAULT, dqm)
      else pm_send_packet (query_status_size F) (query_status F fence_address val) dqm)"

definition pm_update_grace_period ::
    "packet_manager_funcs \<Rightarrow> u32 \<Rightarrow> device_queue_manager \<Rightarrow> retval \<times> device_queue_manager" where
  "pm_update_grace_period F grace_period dqm =
     (if set_grace_period_size F \<noteq> 0
      then pm_send_packet (set_grace_period_size F) (set_grace_period F dqm grace_period) dqm
      else (OK, dqm))"

definition pm_send_unmap_queue ::
    "packet_manager_funcs \<Rightarrow> kfd_unmap_queues_filter \<Rightarrow> u32 \<Rightarrow> bool \<Rightarrow> device_queue_manager \<Rightarrow>
     retval \<times> device_queue_manager" where
  "pm_send_unmap_queue F flt filter_param reset dqm =
     pm_send_packet (unmap_queues_size F) (unmap_queues F dqm flt filter_param reset) dqm"

text \<open>\<^verbatim>\<open>pm_debugfs_hang_hws\<close> submits a query-status packet's worth of garbage.\<close>

definition pm_debugfs_hang_hws ::
    "packet_manager_funcs \<Rightarrow> device_queue_manager \<Rightarrow> retval \<times> device_queue_manager" where
  "pm_debugfs_hang_hws F dqm =
     (if pm_priv_queue (packet_mgr dqm) = None then (Err EAGAIN, dqm)
      else pm_send_packet (query_status_size F)
             (OK, replicate (query_status_size F div 4) 0x55555555) dqm)"

section \<open>Initialisation\<close>

definition pm_table_for :: "kfd_node \<Rightarrow> pm_table option" where
  "pm_table_for node =
     (case asic_type node of
        CHIP_KAVERI \<Rightarrow> Some kfd_vi_pm_table
      | CHIP_HAWAII \<Rightarrow> Some kfd_vi_pm_table
      | CHIP_CARRIZO \<Rightarrow> Some kfd_vi_pm_table
      | CHIP_TONGA \<Rightarrow> Some kfd_vi_pm_table
      | CHIP_FIJI \<Rightarrow> Some kfd_vi_pm_table
      | CHIP_POLARIS10 \<Rightarrow> Some kfd_vi_pm_table
      | CHIP_POLARIS11 \<Rightarrow> Some kfd_vi_pm_table
      | CHIP_POLARIS12 \<Rightarrow> Some kfd_vi_pm_table
      | CHIP_VEGAM \<Rightarrow> Some kfd_vi_pm_table
      | CHIP_OTHER \<Rightarrow>
          (if gc_version node = IP_VERSION 9 4 2 \<or> gc_version node = IP_VERSION 9 4 3
           then Some kfd_aldebaran_pm_table
           else if gc_version node \<ge> IP_VERSION 9 0 1 then Some kfd_v9_pm_table
           else None))"

definition pm_init ::
    "bool \<Rightarrow> kq_env \<Rightarrow> device_queue_manager \<Rightarrow> retval \<times> device_queue_manager" where
  "pm_init kz env dqm =
     (case pm_table_for (dqm_dev dqm) of
        None \<Rightarrow> (Err EINVAL, dqm)
      | Some t \<Rightarrow>
          let dqm1 = upd_pm (\<lambda>pm. pm\<lparr>pmf := t\<rparr>) dqm in
          (case kernel_queue_init kz env (kfd (dqm_dev dqm1)) KFD_QUEUE_TYPE_HIQ of
             (None, d) \<Rightarrow>
               (Err ENOMEM, upd_pm (\<lambda>pm. pm\<lparr>pm_priv_queue := None\<rparr>) (set_kfd d dqm1))
           | (Some kq, d) \<Rightarrow>
               (OK, upd_pm (\<lambda>pm. pm\<lparr>pm_priv_queue := Some kq, pm_allocated := False\<rparr>)
                      (set_kfd d dqm1))))"

definition pm_uninit :: "device_queue_manager \<Rightarrow> device_queue_manager" where
  "pm_uninit dqm =
     (case pm_priv_queue (packet_mgr dqm) of
        None \<Rightarrow> dqm
      | Some kq \<Rightarrow> upd_pm (\<lambda>pm. pm\<lparr>pm_priv_queue := None\<rparr>)
                    (set_kfd (kernel_queue_uninit kq (kfd (dqm_dev dqm))) dqm))"

section \<open>The runlist\<close>

text \<open>What the buffer should hold: the packets of the registered processes in list order.\<close>

abbreviation (input) q_active :: "queue \<Rightarrow> bool" where
  "q_active \<equiv> \<lambda>q. is_active (properties q)"

definition active_queues :: "qcm_process_device \<Rightarrow> queue list" where
  "active_queues qpd =
     filter q_active (priv_queue_list qpd) @
     filter q_active (queues_list qpd)"

definition proc_packets ::
    "packet_manager_funcs \<Rightarrow> device_queue_manager \<Rightarrow> qcm_process_device \<Rightarrow> u32 list list" where
  "proc_packets F dqm qpd =
     snd (map_process F dqm qpd) #
     map (\<lambda>q. snd (map_queues F dqm q (is_debug qpd))) (active_queues qpd)"

definition runlist_packets :: "packet_manager_funcs \<Rightarrow> device_queue_manager \<Rightarrow> u32 list list" where
  "runlist_packets F dqm = concat (map (proc_packets F dqm) (dqm_queues dqm))"

definition mappable :: "qcm_process_device \<Rightarrow> bool" where
  "mappable qpd \<longleftrightarrow> (\<forall>q \<in> set (active_queues qpd). qtype (properties q) \<noteq> KFD_QUEUE_TYPE_HIQ)"

text \<open>A buffer filled with \<open>xs\<close> and \<open>k\<close> words of free space.\<close>

definition filled :: "u32 list \<Rightarrow> nat \<Rightarrow> ib_state" where
  "filled xs k = (length xs, False, xs @ replicate k 0)"

lemma ib_store_filled:
  assumes "length ws \<le> k"
  shows "ib_store ws (filled xs k) =
         (length xs, False, (xs @ ws) @ replicate (k - length ws) 0)"
  using assms by (simp add: filled_def ib_store_def write_words_eq)

lemma ib_put_filled:
  assumes "4 * length ws = sz" "length ws \<le> k"
  shows "inc_wptr sz (ib_store ws (filled xs k)) = filled (xs @ ws) (k - length ws)"
proof -
  from assms(1) have "sz div 4 = length ws" by auto
  with assms show ?thesis
    by (simp add: ib_store_filled) (simp add: filled_def inc_wptr_def Let_def)
qed

lemma ib_words_set_ib [simp]:
  "ib_words (packet_mgr (set_ib (filled xs k) dqm)) = xs @ replicate k 0"
  "ib_overflow (packet_mgr (set_ib (filled xs k) dqm)) = False"
  by (simp_all add: set_ib_def filled_def)

context pm4_table
begin

lemma map_queues_ok:
  assumes "qtype (properties q) \<noteq> KFD_QUEUE_TYPE_HIQ"
  obtains ws where "map_queues F dqm q st = (OK, ws)" "4 * length ws = map_queues_size F"
    "pm4_packet IT_MAP_QUEUES ws"
  using map_queues_builds [OF assms, of dqm st] that by (cases "map_queues F dqm q st") (auto simp: builds_def)

lemma map_process_ok:
  obtains ws where "map_process F dqm qpd = (OK, ws)" "4 * length ws = map_process_size F"
    "pm4_packet IT_MAP_PROCESS ws"
  using map_process_builds [of dqm qpd] that by (cases "map_process F dqm qpd") (auto simp: builds_def)

lemma ib_map_queues_filled:
  assumes "\<forall>q \<in> set qs. is_active (properties q) \<longrightarrow> qtype (properties q) \<noteq> KFD_QUEUE_TYPE_HIQ"
    and "length (filter q_active qs) * (map_queues_size F div 4) \<le> k"
  shows "ib_map_queues F dqm st qs (filled xs k) =
    (OK, filled (xs @ concat (map (\<lambda>q. snd (map_queues F dqm q st))
                   (filter q_active qs)))
           (k - length (filter q_active qs) * (map_queues_size F div 4)))"
  using assms
proof (induction qs arbitrary: xs k)
  case (Cons q qs)
  show ?case
  proof (cases "is_active (properties q)")
    case True
    with Cons.prems(1) obtain ws where ws: "map_queues F dqm q st = (OK, ws)"
      "4 * length ws = map_queues_size F" by (auto elim: map_queues_ok)
    then have l: "length ws = map_queues_size F div 4" by linarith
    have "ib_map_queues F dqm st (q # qs) (filled xs k) =
        ib_map_queues F dqm st qs (filled (xs @ ws) (k - length ws))"
      using True ws Cons.prems(2) l by (simp add: ib_put_filled)
    also have "\<dots> = (OK, filled ((xs @ ws) @ concat (map (\<lambda>q. snd (map_queues F dqm q st))
                   (filter q_active qs)))
           (k - length ws - length (filter q_active qs) * (map_queues_size F div 4)))"
      using Cons.prems l True by (intro Cons.IH) auto
    finally show ?thesis using True ws(1) l by (simp del: ib_map_queues.simps)
  next
    case False
    with Cons show ?thesis by simp
  qed
qed simp

lemma length_map_queues_packets:
  assumes "\<forall>q \<in> set qs. qtype (properties q) \<noteq> KFD_QUEUE_TYPE_HIQ"
  shows "length (concat (map (\<lambda>q. snd (map_queues F dqm q st)) qs)) =
    length qs * (map_queues_size F div 4)"
  using assms
proof (induction qs)
  case (Cons q qs)
  then obtain ws where "map_queues F dqm q st = (OK, ws)" "4 * length ws = map_queues_size F"
    by (auto elim: map_queues_ok)
  then have "length (snd (map_queues F dqm q st)) = map_queues_size F div 4" by auto
  with Cons show ?case by simp
qed simp

text \<open>The words a process takes, and the words of all processes.\<close>

definition proc_words :: "qcm_process_device \<Rightarrow> nat" where
  "proc_words qpd = map_process_size F div 4 + length (active_queues qpd) * (map_queues_size F div 4)"

lemma length_proc_packets:
  assumes "mappable qpd" shows "length (concat (proc_packets F dqm qpd)) = proc_words qpd"
proof -
  obtain ws where "map_process F dqm qpd = (OK, ws)" "4 * length ws = map_process_size F"
    by (rule map_process_ok)
  then have "length (snd (map_process F dqm qpd)) = map_process_size F div 4" by auto
  with assms show ?thesis
    by (simp add: proc_packets_def proc_words_def mappable_def length_map_queues_packets
        del: length_concat)
qed

lemma ib_map_processes_filled:
  assumes "\<forall>qpd \<in> set qpds. mappable qpd" and "n + length qpds \<le> unat (processes_count dqm)"
    and "sum_list (map proc_words qpds) \<le> k"
  shows "ib_map_processes F dqm n qpds (filled xs k) =
    (OK, filled (xs @ concat (concat (map (proc_packets F dqm) qpds)))
       (k - sum_list (map proc_words qpds)), False)"
  using assms
proof (induction qpds arbitrary: n xs k)
  case (Cons qpd qpds)
  obtain ws where ws: "map_process F dqm qpd = (OK, ws)" "4 * length ws = map_process_size F"
    by (rule map_process_ok)
  then have l: "length ws = map_process_size F div 4" by auto
  let ?a = "filter q_active (priv_queue_list qpd)"
  let ?b = "filter q_active (queues_list qpd)"
  let ?m = "map_queues_size F div 4" and ?p = "\<lambda>q. snd (map_queues F dqm q (is_debug qpd))"
  have k: "length ws + (length ?a * ?m + length ?b * ?m) \<le> k"
    using Cons.prems(3) l by (simp add: proc_words_def active_queues_def add_mult_distrib)
  have "ib_map_queues F dqm (is_debug qpd) (priv_queue_list qpd) (filled (xs @ ws) (k - length ws)) =
      (OK, filled ((xs @ ws) @ concat (map ?p ?a)) (k - length ws - length ?a * ?m))"
    using Cons.prems(1) k by (intro ib_map_queues_filled) (auto simp: mappable_def active_queues_def)
  moreover have "ib_map_queues F dqm (is_debug qpd) (queues_list qpd)
      (filled ((xs @ ws) @ concat (map ?p ?a)) (k - length ws - length ?a * ?m)) =
      (OK, filled (((xs @ ws) @ concat (map ?p ?a)) @ concat (map ?p ?b))
             (k - length ws - length ?a * ?m - length ?b * ?m))"
    using Cons.prems(1) k by (intro ib_map_queues_filled) (auto simp: mappable_def active_queues_def)
  ultimately have "ib_map_processes F dqm n (qpd # qpds) (filled xs k) =
      ib_map_processes F dqm (Suc n) qpds
        (filled (xs @ concat (proc_packets F dqm qpd)) (k - proc_words qpd))"
    using Cons.prems(2) ws k l
    by (simp add: ib_put_filled proc_packets_def active_queues_def proc_words_def add_mult_distrib
        add.assoc)
  also have "\<dots> = (OK, filled ((xs @ concat (proc_packets F dqm qpd)) @
        concat (concat (map (proc_packets F dqm) qpds)))
      (k - proc_words qpd - sum_list (map proc_words qpds)), False)"
    using Cons.prems by (intro Cons.IH) auto
  finally show ?case by simp
qed simp

lemma runlist_packets_wf:
  assumes "\<forall>qpd \<in> set (dqm_queues dqm). mappable qpd" and "p \<in> set (runlist_packets F dqm)"
  shows "\<exists>opcode. pm4_packet opcode p"
proof -
  from assms(2) obtain qpd where qpd: "qpd \<in> set (dqm_queues dqm)" "p \<in> set (proc_packets F dqm qpd)"
    by (auto simp: runlist_packets_def)
  then consider "p = snd (map_process F dqm qpd)"
    | q where "q \<in> set (active_queues qpd)" "p = snd (map_queues F dqm q (is_debug qpd))"
    by (auto simp: proc_packets_def)
  then show ?thesis
  proof cases
    case 1
    then show ?thesis using map_process_builds by (auto simp: builds_def)
  next
    case (2 q)
    with assms(1) qpd(1) have "qtype (properties q) \<noteq> KFD_QUEUE_TYPE_HIQ" by (auto simp: mappable_def)
    from map_queues_builds [OF this] 2 show ?thesis by (auto simp: builds_def)
  qed
qed


lemma sum_proc_words:
  "4 dvd map_process_size F \<Longrightarrow> 4 dvd map_queues_size F \<Longrightarrow>
   4 * sum_list (map proc_words qpds) =
   length qpds * map_process_size F + sum_list (map (length \<circ> active_queues) qpds) * map_queues_size F"
  by (induction qpds) (auto simp: proc_words_def algebra_simps dvd_def)

lemma sizes_dvd: "4 dvd map_process_size F" "4 dvd map_queues_size F" "4 dvd runlist_size F"
  using builds_dvd [OF map_process_builds]
    builds_dvd [OF map_queues_builds [of "undefined\<lparr>properties := zero_properties\<rparr>"]]
    builds_dvd [OF runlist_builds [of 1]]
  by (auto simp: zero_properties_def)

end

text \<open>
  The counters the runlist size is computed from cover the registered processes, and the size fits
  32 bits.
\<close>

definition counters_cover :: "packet_manager_funcs \<Rightarrow> device_queue_manager \<Rightarrow> bool" where
  "counters_cover F dqm \<longleftrightarrow>
     length (dqm_queues dqm) \<le> unat (processes_count dqm) \<and>
     proc_sum (length \<circ> active_queues) dqm \<le> unat (active_queue_count dqm) \<and>
     unat (processes_count dqm) * map_process_size F + unat (active_queue_count dqm) * map_queues_size F +
       runlist_size F < 2 ^ 32"

text \<open>The packets a runlist buffer should hold, with the chaining packet of an oversubscribed runlist.\<close>

definition ib_packets ::
    "packet_manager_funcs \<Rightarrow> device_queue_manager \<Rightarrow> u64 \<Rightarrow> u32 list list" where
  "ib_packets F dqm addr =
     (let (sz, over) = pm_calc_rlib_size F dqm in
      runlist_packets F dqm @
      (if over then [snd (runlist F dqm addr (ucast (sz div 4)) True)] else []))"

lemma unat_rlib_size:
  assumes "counters_cover F dqm" and "pm_calc_rlib_size F dqm = (sz, over)"
  shows "unat sz = unat (processes_count dqm) * map_process_size F +
    unat (active_queue_count dqm) * map_queues_size F + (if over then runlist_size F else 0)"
proof -
  let ?n = "unat (processes_count dqm) * map_process_size F +
    unat (active_queue_count dqm) * map_queues_size F + (if over then runlist_size F else 0)"
  have "sz = of_nat ?n" using assms(2) by (auto simp: pm_calc_rlib_size_def Let_def)
  moreover have "?n < 2 ^ LENGTH(32)" using assms(1) by (auto simp: counters_cover_def)
  then have "unat (of_nat ?n :: u32) = ?n" by (rule unat_of_nat_small)
  ultimately show ?thesis by (simp only:)
qed

context pm4_table
begin

lemma runlist_packets_frame:
  assumes "pm_view dqm = pm_view dqm'" "dqm_queues dqm = dqm_queues dqm'"
  shows "runlist_packets F dqm = runlist_packets F dqm'"
  using map_process_frame [OF assms(1)] map_queues_frame [OF assms(1)] assms(2)
  by (simp add: runlist_packets_def proc_packets_def cong: map_cong)

lemma proc_words_fit:
  assumes "counters_cover F dqm" and "pm_calc_rlib_size F dqm = (sz, over)"
  shows "sum_list (map proc_words (dqm_queues dqm)) + (if over then runlist_size F div 4 else 0)
    \<le> unat sz div 4"
proof -
  let ?P = "unat (processes_count dqm)" and ?Q = "unat (active_queue_count dqm)"
  have "4 * sum_list (map proc_words (dqm_queues dqm)) =
      length (dqm_queues dqm) * map_process_size F +
      proc_sum (length \<circ> active_queues) dqm * map_queues_size F"
    unfolding proc_sum_def by (intro sum_proc_words sizes_dvd)
  also have "\<dots> \<le> ?P * map_process_size F + ?Q * map_queues_size F"
    using assms(1) by (intro add_mono mult_le_mono1) (auto simp: counters_cover_def)
  finally show ?thesis
    unfolding unat_rlib_size [OF assms] using sizes_dvd(3) by (auto simp: dvd_def)
qed

lemma create_runlist_ib_ok:
  assumes na: "\<not> pm_allocated (packet_mgr dqm)" and cover: "counters_cover F dqm"
    and map: "\<forall>qpd \<in> set (dqm_queues dqm). mappable qpd"
    and sz: "pm_calc_rlib_size F dqm = (sz, over)"
    and alloc: "dev_gtt_alloc kz (kfd (dqm_dev dqm)) sz = (Inr m, d)" and addr: "gpu_addr m \<noteq> 0"
  shows "\<exists>dqm' k. pm_create_runlist_ib F kz dqm = (Inr (gpu_addr m, sz), dqm') \<and>
    \<not> ib_overflow (packet_mgr dqm') \<and>
    ib_words (packet_mgr dqm') = concat (ib_packets F dqm (gpu_addr m)) @ replicate k 0 \<and>
    pm_allocated (packet_mgr dqm') \<and> ib_buffer_obj (packet_mgr dqm') = Some m"
proof -
  define dqm1 where "dqm1 = upd_pm (\<lambda>pm. pm\<lparr>ib_buffer_obj := Some m, pm_allocated := True,
    ib_words := replicate (unat sz div 4) 0, ib_overflow := False\<rparr>) (set_kfd d dqm)"
  define dqm2 where "dqm2 = upd_pm (\<lambda>pm. pm\<lparr>ib_size_bytes := sz\<rparr>) dqm1"
  have v: "pm_view dqm2 = pm_view dqm" "dqm_queues dqm2 = dqm_queues dqm"
    "processes_count dqm2 = processes_count dqm"
    "ib_words (packet_mgr dqm2) = replicate (unat sz div 4) 0"
    by (simp_all add: dqm2_def dqm1_def pm_view_def set_kfd_def)
  let ?k = "unat sz div 4" and ?ps = "concat (runlist_packets F dqm)"
  let ?s = "filled ?ps (?k - sum_list (map proc_words (dqm_queues dqm)))"
  have init: "(0, False, replicate ?k 0) = filled [] ?k" by (simp add: filled_def)
  have "ib_map_processes F dqm2 0 (dqm_queues dqm2) (filled [] ?k) = (OK, ?s, False)"
    using ib_map_processes_filled [of "dqm_queues dqm2" 0 dqm2 ?k "[]"] map cover v
      proc_words_fit [OF cover sz] runlist_packets_frame [OF v(1,2)]
    by (auto simp: counters_cover_def runlist_packets_def)
  then have loop: "ib_map_processes F dqm2 0 (dqm_queues dqm2) (0, False, ib_words (packet_mgr dqm2)) =
      (OK, ?s, False)" by (simp only: v(4) init)
  have al: "pm_allocate_runlist_ib F kz dqm = (Inr (gpu_addr m, sz, over), dqm1)"
    using na sz alloc by (simp add: pm_allocate_runlist_ib_def dqm1_def)
  then have cr: "pm_create_runlist_ib F kz dqm = pm_fill_runlist_ib F (gpu_addr m) sz over dqm2"
    by (simp add: pm_create_runlist_ib_def dqm2_def)
  let ?rl = "runlist F dqm2 (gpu_addr m) (ucast (sz div 4)) True"
  obtain ws where ws: "?rl = (OK, ws)" "4 * length ws = runlist_size F"
    using runlist_builds [OF addr, of dqm2 "ucast (sz div 4)" True] by (cases ?rl) (auto simp: builds_def)
  have ws': "ws = snd (runlist F dqm (gpu_addr m) (ucast (sz div 4)) True)"
    using runlist_frame [OF v(1)] ws(1) by simp
  show ?thesis
  proof (cases over)
    case True
    then have "length ws \<le> ?k - sum_list (map proc_words (dqm_queues dqm))"
      using proc_words_fit [OF cover sz] ws(2) by auto
    from ib_store_filled [OF this, of ?ps] True
    have "pm_create_runlist_ib F kz dqm = (Inr (gpu_addr m, sz),
        upd_pm (\<lambda>pm. pm\<lparr>pm_is_over_subscription := True\<rparr>)
          (set_ib (length ?ps, False, (?ps @ ws) @
             replicate (?k - sum_list (map proc_words (dqm_queues dqm)) - length ws) 0) dqm2))"
      by (simp add: cr pm_fill_runlist_ib_def loop ws(1))
    with True show ?thesis
      by (auto simp: set_ib_def ib_packets_def sz ws' dqm2_def dqm1_def set_kfd_def)
  next
    case False
    then have "pm_create_runlist_ib F kz dqm = (Inr (gpu_addr m, sz),
        upd_pm (\<lambda>pm. pm\<lparr>pm_is_over_subscription := False\<rparr>) (set_ib ?s dqm2))"
      by (simp add: cr pm_fill_runlist_ib_def loop)
    with False show ?thesis
      by (auto simp: set_ib_def filled_def ib_packets_def sz dqm2_def dqm1_def set_kfd_def)
  qed
qed

end

section \<open>Sending over the HIQ\<close>

text \<open>A started packet manager: it has a HIQ whose ring is well-formed and published.\<close>

definition pm_wf :: "device_queue_manager \<Rightarrow> bool" where
  "pm_wf dqm \<longleftrightarrow>
     (case pm_priv_queue (packet_mgr dqm) of None \<Rightarrow> False | Some kq \<Rightarrow> kq_wf kq \<and> kq_committed kq)"

abbreviation (input) set_hiq :: "kernel_queue \<Rightarrow> device_queue_manager \<Rightarrow> device_queue_manager" where
  "set_hiq kq \<equiv> upd_pm (\<lambda>pm. pm\<lparr>pm_priv_queue := Some kq\<rparr>)"

text \<open>The words sent over the HIQ that the scheduler has not read.\<close>

definition hiq_unread :: "device_queue_manager \<Rightarrow> u32 list" where
  "hiq_unread dqm = (case pm_priv_queue (packet_mgr dqm) of None \<Rightarrow> [] | Some kq \<Rightarrow> kq_unread kq)"

lemma pm_send_packet_cases:
  assumes "pm_wf dqm" and "builds opcode sz packet"
  obtains (sent) kq kq' k where "pm_priv_queue (packet_mgr dqm) = Some kq"
      "pm_send_packet sz packet dqm = (OK, set_hiq kq' dqm)" "kq_wf kq'" "kq_committed kq'"
      "kq_unread kq' = kq_unread kq @ replicate k (nop_packet kq) @ snd packet"
      "nop_packet kq' = nop_packet kq"
  | (full) "pm_send_packet sz packet dqm = (Err ENOMEM, dqm)"
proof -
  obtain kq where kq: "pm_priv_queue (packet_mgr dqm) = Some kq" "kq_wf kq"
    using assms(1) by (auto simp: pm_wf_def split: option.splits)
  obtain ws where p: "packet = (OK, ws)" "sz div 4 = length ws" "length ws < 2 ^ 14"
    using assms(2) by (cases packet) (auto simp: builds_def pm4_packet_def)
  then have l: "length ws < 2 ^ 32" by simp
  show thesis
  proof (cases rule: kq_put_packet_cases [OF kq(2) l])
    case (1 kq')
    have s: "pm_send_packet sz packet dqm = (OK, set_hiq (fst (kq_submit_packet kq')) dqm)"
      using 1(1) kq p by (auto simp: pm_send_packet_def kq_put_packet_def split: prod.splits sum.splits)
    obtain k where k: "kq_unread kq' = kq_unread kq @ replicate k (nop_packet kq) @ ws"
      using kq.put_ok [OF kq(2) l 1(1)] by auto
    show thesis
    proof (rule sent [OF kq(1) s])
      show "kq_wf (fst (kq_submit_packet kq'))" using 1(2) by simp
      show "kq_committed (fst (kq_submit_packet kq'))"
        using kq_submit_post [of kq'] by (auto split: prod.splits)
      show "kq_unread (fst (kq_submit_packet kq')) =
          kq_unread kq @ replicate k (nop_packet kq) @ snd packet"
        using kq_submit_post [of kq'] k p by (auto split: prod.splits)
      show "nop_packet (fst (kq_submit_packet kq')) = nop_packet kq"
        using kq_put_packet_frame(2) [OF 1(1)]
        by (simp add: kq_submit_packet_def set_wptr_kernel_def)
    qed
  next
    case 2
    have "pm_send_packet sz packet dqm = (Err ENOMEM, set_hiq kq dqm)"
      using 2(1) kq p by (auto simp: pm_send_packet_def kq_put_packet_def split: prod.splits sum.splits)
    also have "set_hiq kq dqm = dqm" using kq(1) by simp
    finally show thesis by (rule full)
  qed
qed

lemma pm_send_packet_wf:
  assumes "pm_wf dqm" and "builds opcode sz packet"
  shows "pm_wf (snd (pm_send_packet sz packet dqm))"
  using assms(1) by (cases rule: pm_send_packet_cases [OF assms]) (simp_all add: pm_wf_def)

lemma pm_send_packet_frame:
  "\<exists>hiq. snd (pm_send_packet sz packet dqm) = upd_pm (\<lambda>pm. pm\<lparr>pm_priv_queue := hiq\<rparr>) dqm"
proof (cases "pm_priv_queue (packet_mgr dqm)")
  case None
  then have "snd (pm_send_packet sz packet dqm) = upd_pm (\<lambda>pm. pm\<lparr>pm_priv_queue := None\<rparr>) dqm"
    by (simp add: pm_send_packet_def)
  then show ?thesis by blast
next
  case (Some kq)
  then show ?thesis
    by (auto simp: pm_send_packet_def Let_def split: prod.splits sum.splits)
qed

section \<open>What the packet manager changes\<close>

text \<open>The operations change the packet manager and the node's GTT, nothing else of the manager.\<close>

definition pm_rest :: "device_queue_manager \<Rightarrow> device_queue_manager" where
  "pm_rest dqm = dqm\<lparr>packet_mgr := undefined, dqm_dev := (dqm_dev dqm)\<lparr>kfd := undefined\<rparr>\<rparr>"

definition pm_only :: "device_queue_manager \<Rightarrow> device_queue_manager \<Rightarrow> bool" where
  "pm_only dqm dqm' \<longleftrightarrow> pm_rest dqm' = pm_rest dqm"

lemma pm_only_refl [simp, intro]: "pm_only dqm dqm"
  by (simp add: pm_only_def)

lemma pm_only_trans [trans]: "pm_only a b \<Longrightarrow> pm_only b c \<Longrightarrow> pm_only a c"
  by (simp add: pm_only_def)

lemma pm_only_upd [simp]: "pm_only a (dqm\<lparr>packet_mgr := pm\<rparr>) = pm_only a dqm"
  by (simp add: pm_only_def pm_rest_def)

lemma pm_only_set_kfd [simp]: "pm_only a (set_kfd d dqm) = pm_only a dqm"
  by (simp add: pm_only_def pm_rest_def set_kfd_def)

lemma pm_only_fields:
  assumes "pm_only dqm dqm'"
  shows "dqm_queues dqm' = dqm_queues dqm" "processes_count dqm' = processes_count dqm"
    "active_queue_count dqm' = active_queue_count dqm"
    "active_cp_queue_count dqm' = active_cp_queue_count dqm"
    "gws_queue_count dqm' = gws_queue_count dqm" "total_queue_count dqm' = total_queue_count dqm"
    "next_pipe_to_allocate dqm' = next_pipe_to_allocate dqm"
    "allocated_queues dqm' = allocated_queues dqm" "sdma_bitmap dqm' = sdma_bitmap dqm"
    "xgmi_sdma_bitmap dqm' = xgmi_sdma_bitmap dqm" "vmid_pasid dqm' = vmid_pasid dqm"
    "active_runlist dqm' = active_runlist dqm" "sched_running dqm' = sched_running dqm"
    "is_hws_hang dqm' = is_hws_hang dqm" "is_resetting dqm' = is_resetting dqm"
    "sched_policy dqm' = sched_policy dqm" "fence_gpu_addr dqm' = fence_gpu_addr dqm"
    "trap_debug_vmid dqm' = trap_debug_vmid dqm" "wait_times dqm' = wait_times dqm"
    "(dqm_dev dqm')\<lparr>kfd := undefined\<rparr> = (dqm_dev dqm)\<lparr>kfd := undefined\<rparr>"
proof -
  have e: "pm_rest dqm' = pm_rest dqm" using assms by (simp add: pm_only_def)
  note r = arg_cong [OF e]
  note q = r [where f = dqm_queues] r [where f = processes_count] r [where f = active_queue_count]
    r [where f = active_cp_queue_count] r [where f = gws_queue_count] r [where f = total_queue_count]
    r [where f = next_pipe_to_allocate] r [where f = allocated_queues] r [where f = sdma_bitmap]
    r [where f = xgmi_sdma_bitmap] r [where f = vmid_pasid] r [where f = active_runlist]
    r [where f = sched_running] r [where f = is_hws_hang] r [where f = is_resetting]
    r [where f = sched_policy] r [where f = fence_gpu_addr] r [where f = trap_debug_vmid]
    r [where f = wait_times] r [where f = dqm_dev]
  show "dqm_queues dqm' = dqm_queues dqm" "processes_count dqm' = processes_count dqm"
    "active_queue_count dqm' = active_queue_count dqm"
    "active_cp_queue_count dqm' = active_cp_queue_count dqm"
    "gws_queue_count dqm' = gws_queue_count dqm" "total_queue_count dqm' = total_queue_count dqm"
    "next_pipe_to_allocate dqm' = next_pipe_to_allocate dqm"
    "allocated_queues dqm' = allocated_queues dqm" "sdma_bitmap dqm' = sdma_bitmap dqm"
    "xgmi_sdma_bitmap dqm' = xgmi_sdma_bitmap dqm" "vmid_pasid dqm' = vmid_pasid dqm"
    "active_runlist dqm' = active_runlist dqm" "sched_running dqm' = sched_running dqm"
    "is_hws_hang dqm' = is_hws_hang dqm" "is_resetting dqm' = is_resetting dqm"
    "sched_policy dqm' = sched_policy dqm" "fence_gpu_addr dqm' = fence_gpu_addr dqm"
    "trap_debug_vmid dqm' = trap_debug_vmid dqm" "wait_times dqm' = wait_times dqm"
    "(dqm_dev dqm')\<lparr>kfd := undefined\<rparr> = (dqm_dev dqm)\<lparr>kfd := undefined\<rparr>"
    using q by (simp_all add: pm_rest_def)
qed

lemma pm_only_set_ib [simp]: "pm_only a (set_ib s dqm) = pm_only a dqm"
  by (simp add: set_ib_def split: prod.splits)

lemma pm_only_release [simp]: "pm_only a (pm_release_ib dqm) = pm_only a dqm"
  by (simp add: pm_release_ib_def)

lemma pm_only_send_packet: "pm_send_packet sz packet dqm = (r, dqm') \<Longrightarrow> pm_only a dqm' = pm_only a dqm"
  using pm_send_packet_frame [of sz packet dqm] by auto

lemma pm_only_fill: "pm_fill_runlist_ib F addr sz over dqm = (r, dqm') \<Longrightarrow> pm_only a dqm' = pm_only a dqm"
  by (auto simp: pm_fill_runlist_ib_def Let_def split: prod.splits retval.splits if_splits)

lemma pm_only_allocate: "pm_allocate_runlist_ib F kz dqm = (r, dqm') \<Longrightarrow> pm_only a dqm' = pm_only a dqm"
  by (auto simp: pm_allocate_runlist_ib_def Let_def split: prod.splits sum.splits if_splits)

lemma pm_only_create: "pm_create_runlist_ib F kz dqm = (r, dqm') \<Longrightarrow> pm_only a dqm' = pm_only a dqm"
  by (auto simp: pm_create_runlist_ib_def dest!: pm_only_allocate [where a = a] pm_only_fill [where a = a]
      split: prod.splits sum.splits)

lemma pm_only_send_runlist: "pm_send_runlist F kz dqm = (r, dqm') \<Longrightarrow> pm_only a dqm' = pm_only a dqm"
  by (auto simp: pm_send_runlist_def dest!: pm_only_create [where a = a] pm_only_send_packet [where a = a]
      split: prod.splits sum.splits retval.splits)

lemma pm_only_senders:
  "pm_send_set_resources F res dqm = (r, dqm') \<Longrightarrow> pm_only a dqm' = pm_only a dqm"
  "pm_send_query_status F addr val dqm = (r, dqm') \<Longrightarrow> pm_only a dqm' = pm_only a dqm"
  "pm_update_grace_period F period dqm = (r, dqm') \<Longrightarrow> pm_only a dqm' = pm_only a dqm"
  "pm_send_unmap_queue F flt param reset dqm = (r, dqm') \<Longrightarrow> pm_only a dqm' = pm_only a dqm"
  by (auto simp: pm_send_set_resources_def pm_send_query_status_def pm_update_grace_period_def
      pm_send_unmap_queue_def dest!: pm_only_send_packet [where a = a] split: if_splits)

section \<open>Ownership of the runlist buffer\<close>

text \<open>
  The GTT as it would be with the runlist buffer released. Filling and sending do not change it, so
  an error path that releases the buffer is back at the device it started from.
\<close>

definition kfd_without_ib :: "device_queue_manager \<Rightarrow> kfd_dev" where
  "kfd_without_ib dqm = kfd (dqm_dev (pm_release_ib dqm))"

lemma kfd_without_ib_eq:
  "kfd_without_ib dqm = (if pm_allocated (packet_mgr dqm)
     then dev_gtt_free (kfd (dqm_dev dqm)) (ib_buffer_obj (packet_mgr dqm)) else kfd (dqm_dev dqm))"
  by (simp add: kfd_without_ib_def pm_release_ib_def set_kfd_def)

lemma release_ib_released [simp]: "pm_allocated (packet_mgr (pm_release_ib dqm)) = False"
  by (simp add: pm_release_ib_def)

lemma without_ib_release [simp]: "kfd_without_ib (pm_release_ib dqm) = kfd_without_ib dqm"
  by (simp add: kfd_without_ib_def pm_release_ib_def)

lemma without_ib_set_ib [simp]:
  "kfd_without_ib (set_ib s dqm) = kfd_without_ib dqm"
  "pm_allocated (packet_mgr (set_ib s dqm)) = pm_allocated (packet_mgr dqm)"
  by (simp_all add: kfd_without_ib_eq set_ib_def split: prod.splits)

lemma without_ib_allocate:
  assumes "gtt_wf (gtt (kfd (dqm_dev dqm)))" and "pm_allocate_runlist_ib F kz dqm = (r, dqm')"
    and "\<not> pm_allocated (packet_mgr dqm)"
  shows "kfd_without_ib dqm' = kfd (dqm_dev dqm)"
    and "pm_allocated (packet_mgr dqm') = (case r of Inl _ \<Rightarrow> False | Inr _ \<Rightarrow> True)"
  using assms dev_gtt_alloc_ok(1) [OF assms(1)] dev_gtt_alloc_err [OF assms(1)]
  by (auto simp: pm_allocate_runlist_ib_def kfd_without_ib_eq set_kfd_def Let_def
      split: prod.splits sum.splits)

lemma without_ib_fill:
  assumes "pm_fill_runlist_ib F addr sz over dqm = (r, dqm')"
  shows "kfd_without_ib dqm' = kfd_without_ib dqm"
    and "r = Inr x \<Longrightarrow> pm_allocated (packet_mgr dqm') = pm_allocated (packet_mgr dqm)"
  using assms
  by (auto simp: pm_fill_runlist_ib_def Let_def kfd_without_ib_eq set_ib_def pm_release_ib_def set_kfd_def
      split: prod.splits retval.splits if_splits)

lemma without_ib_send_packet:
  assumes "pm_send_packet sz packet dqm = (r, dqm')"
  shows "kfd_without_ib dqm' = kfd_without_ib dqm"
    "pm_allocated (packet_mgr dqm') = pm_allocated (packet_mgr dqm)"
  using pm_send_packet_frame [of sz packet dqm] assms by (auto simp: kfd_without_ib_eq)

lemma without_ib_create:
  assumes wf: "gtt_wf (gtt (kfd (dqm_dev dqm)))" and na: "\<not> pm_allocated (packet_mgr dqm)"
    and c: "pm_create_runlist_ib F kz dqm = (r, dqm')"
  shows "kfd_without_ib dqm' = kfd (dqm_dev dqm)" and "r = Inr x \<Longrightarrow> pm_allocated (packet_mgr dqm')"
proof -
  obtain a dqm1 where a: "pm_allocate_runlist_ib F kz dqm = (a, dqm1)" by (cases "pm_allocate_runlist_ib F kz dqm")
  note w = without_ib_allocate [OF wf a na]
  have "kfd_without_ib dqm' = kfd (dqm_dev dqm) \<and> (r = Inr x \<longrightarrow> pm_allocated (packet_mgr dqm'))"
  proof (cases a)
    case (Inr y)
    obtain addr sz over where [simp]: "y = (addr, sz, over)" by (cases y) auto
    let ?d = "upd_pm (\<lambda>pm. pm\<lparr>ib_size_bytes := sz\<rparr>) dqm1"
    have f: "pm_fill_runlist_ib F addr sz over ?d = (r, dqm')"
      using c a Inr by (simp add: pm_create_runlist_ib_def)
    have "kfd_without_ib ?d = kfd_without_ib dqm1" by (simp add: kfd_without_ib_eq)
    then show ?thesis using without_ib_fill [OF f] w Inr by auto
  qed (use c a w in \<open>auto simp: pm_create_runlist_ib_def\<close>)
  then show "kfd_without_ib dqm' = kfd (dqm_dev dqm)" and "r = Inr x \<Longrightarrow> pm_allocated (packet_mgr dqm')"
    by auto
qed

lemma send_runlist_ownership:
  assumes wf: "gtt_wf (gtt (kfd (dqm_dev dqm)))" and na: "\<not> pm_allocated (packet_mgr dqm)"
    and s: "pm_send_runlist F kz dqm = (r, dqm')"
  shows "kfd_without_ib dqm' = kfd (dqm_dev dqm)" and "pm_allocated (packet_mgr dqm') = (r = OK)"
proof -
  obtain a dqm1 where a: "pm_create_runlist_ib F kz dqm = (a, dqm1)" by (cases "pm_create_runlist_ib F kz dqm")
  note c = without_ib_create [OF wf na a]
  have "kfd_without_ib dqm' = kfd (dqm_dev dqm) \<and> pm_allocated (packet_mgr dqm') = (r = OK)"
  proof (cases a)
    case (Inl e)
    with s a c show ?thesis by (auto simp: pm_send_runlist_def)
  next
    case (Inr y)
    obtain addr sz where [simp]: "y = (addr, sz)" by (cases y)
    let ?p = "pm_send_packet (runlist_size F) (runlist F dqm1 addr (ucast (sz div 4)) False) dqm1"
    obtain b dqm2 where b: "?p = (b, dqm2)" by (cases ?p)
    from s a Inr b have "r = b \<and> dqm' = (if b = OK then dqm2 else pm_release_ib dqm2)"
      by (auto simp: pm_send_runlist_def split: retval.splits)
    with without_ib_send_packet [OF b] c Inr show ?thesis by auto
  qed
  then show "kfd_without_ib dqm' = kfd (dqm_dev dqm)" and "pm_allocated (packet_mgr dqm') = (r = OK)"
    by auto
qed

section \<open>Properties\<close>

text \<open>
  C35. The runlist is complete and fits: if the counters cover the registered processes and active
  queues, no active queue is a HIQ, and the GTT has room, \<^verbatim>\<open>pm_create_runlist_ib\<close> succeeds without running over
  its buffer, and the buffer holds, in this order and followed by zeros only, for every registered
  process its process packet and a queue packet for each of its active queues, and the chaining packet of
  an oversubscribed runlist. Walking the buffer by packet headers finds exactly these packets.
\<close>

theorem runlist_ib_complete:
  assumes "\<not> pm_allocated (packet_mgr dqm)" and "counters_cover (pm_funcs t) dqm"
    and "\<forall>qpd \<in> set (dqm_queues dqm). mappable qpd"
    and "pm_calc_rlib_size (pm_funcs t) dqm = (sz, over)"
    and "dev_gtt_alloc kz (kfd (dqm_dev dqm)) sz = (Inr m, d)" and "gpu_addr m \<noteq> 0"
  shows "\<exists>dqm' k. pm_create_runlist_ib (pm_funcs t) kz dqm = (Inr (gpu_addr m, sz), dqm') \<and>
    \<not> ib_overflow (packet_mgr dqm') \<and>
    ib_words (packet_mgr dqm') =
      concat (ib_packets (pm_funcs t) dqm (gpu_addr m)) @ replicate k 0 \<and>
    pm4_walk (concat (ib_packets (pm_funcs t) dqm (gpu_addr m))) =
      Some (ib_packets (pm_funcs t) dqm (gpu_addr m))"
proof -
  note T = pm4_table_pm_funcs [of t]
  have "\<exists>opcode. pm4_packet opcode p" if "p \<in> set (ib_packets (pm_funcs t) dqm (gpu_addr m))" for p
    using that pm4_table.runlist_packets_wf [OF T assms(3), of p]
      pm4_table.runlist_builds [OF T assms(6), of dqm "ucast (sz div 4)" True] assms(4)
    by (auto simp: ib_packets_def builds_def split: if_splits)
  then have "pm4_walk (concat (ib_packets (pm_funcs t) dqm (gpu_addr m))) =
      Some (ib_packets (pm_funcs t) dqm (gpu_addr m))" by (rule pm4_walk_concat)
  with pm4_table.create_runlist_ib_ok [OF T assms] show ?thesis by blast
qed

text \<open>
  A manager with two processes: the first has an active compute queue and an inactive one, the second an
  active SDMA queue. The GTT has four free chunks of 512 bytes.
\<close>

definition queue_example :: "nat \<Rightarrow> kfd_queue_type \<Rightarrow> bool \<Rightarrow> queue" where
  "queue_example a ty act =
     \<lparr>q_ptr = a, mqd = 0, mqd_mem_obj = None, gart_mqd_addr = 0x70000 + of_nat a,
      properties = zero_properties\<lparr>qtype := ty, queue_size := 4096, queue_address := 0x5000,
        queue_percent := 100, is_active := act\<rparr>,
      mec = 0, pipe = 0, queue_slot = 0, sdma_id = 0, doorbell_id = 0, gws = None,
      gang_ctx_gpu_addr = 0, wptr_bo = None\<rparr>"

definition qpd_example :: "nat \<Rightarrow> u32 \<Rightarrow> queue list \<Rightarrow> qcm_process_device" where
  "qpd_example a pid qs =
     \<lparr>qpd_ptr = a, queues_list = qs, priv_queue_list = [], queue_count = of_nat (length qs),
      qpd_vmid = 0, is_debug = False, evicted = 0, reset_wavefronts = False,
      mapped_gws_queue = False, gds_context_area = 0, page_table_base = 0x9000, sh_mem_config = 0,
      sh_mem_bases = 0, sh_mem_ape1_base = 0, sh_mem_ape1_limit = 0, gds_size = 0, num_gws = 0,
      num_oac = 0, sh_hidden_private_base = 0, qpd_tba_addr = 0, qpd_tma_addr = 0, cwsr_base = 0, ib_base = 0,
      ib_kaddr = None, proc_doorbells = None, doorbell_bitmap = None, pasid = pid,
      drm_priv = Some 1, debug_trap_enabled = False, runtime_state_enabled = False,
      single_mem_op = False, spi_dbg_override = 0, spi_dbg_launch_mode = 0, watch_points = [],
      lds_base = 0x1000000000000, lds_limit = 0x10000FFFFFFFF, scratch_base = 0x2000000000000,
      scratch_limit = 0x20000FFFFFFFF, gpuvm_base = 0x4000, gpuvm_limit = 0x7FFFFFFFFFFF, xnack_enabled = False,
      proc_ctx_gpu_addr = 0,
      last_evict_timestamp = 0, evict_duration_counter = 0, sdma_past_activity_counter = 0\<rparr>"

definition sh_regs_example :: sh_mem_regs where
  "sh_regs_example =
     \<lparr>ALIGNMENT_MODE_SHIFT = 3, RETRY_DISABLE_SHIFT = 12, F8_MODE_SHIFT = 8, INITIAL_INST_PREFETCH_SHIFT = 14,
      DEFAULT_MTYPE_SHIFT = 5, APE1_MTYPE_SHIFT = 8, SHARED_BASE_SHIFT = 16, MODE_UNALIGNED = 3, MTYPE_UC = 3,
      MTYPE_NC = 1, SDMA_SHARED_BASE_SHIFT = 8, SDMA_SHARED_BASE_MASK = 0x700\<rparr>"

definition node_example :: kfd_node where
  "node_example =
     \<lparr>kfd = doorbell_example\<lparr>gtt := \<lparr>gtt_start_gpu_addr = 0x1000, gtt_start_cpu_ptr = 0x8000,
        gtt_sa_bitmap = [False, False, False, False], gtt_sa_chunk_size = 512,
        gtt_sa_num_of_chunks = 4\<rparr>\<rparr>,
      node_id = 0, asic_type = CHIP_OTHER, gc_version = IP_VERSION 9 0 1,
      sdma0_version = IP_VERSION 4 0 0, max_proc_per_quantum = 1, first_vmid_kfd = 8,
      last_vmid_kfd = 15, compute_vmid_bitmap = 0xFF00, cp_queue_bitmap = replicate 128 True,
      num_pipe_per_mec = 4, num_queue_per_pipe = 8, sdma_doorbell_idx = [0xF0, 0xF8],
      num_instances = 2, num_nodes = 1, xgmi_supported = False, num_sdma_queues_per_engine = 2,
      reserved_sdma_queues_bitmap = replicate 128 False, num_of_watch_points = 4,
      cwsr_enabled = True, build_grace_period_packet_info = (\<lambda>w p. (0, w)), trap_en_shift = 31,
      queue_preemption_timeout_ms = 9000, max_num_of_queues_per_device = 4096,
      noretry = False, max_pfn = 0x100000000, mes_sched_version = 0, shared_compute_vmid_bitmap = 0xFF00,
      sh_regs = sh_regs_example\<rparr>"

definition dqm_example :: device_queue_manager where
  "dqm_example =
     \<lparr>dqm_dev = node_example,
      packet_mgr = \<lparr>pm_priv_queue = Some (kq_example\<lparr>wptr64_kernel := 14, rptr_kernel := 6\<rparr>),
        pm_allocated = False, ib_buffer_obj = None, ib_size_bytes = 0,
        pm_is_over_subscription = False, pmf = kfd_v9_pm_table, ib_words = [], ib_overflow = False\<rparr>,
      dqm_queues =
        [qpd_example 1 0x8001 [queue_example 11 KFD_QUEUE_TYPE_COMPUTE True,
                               queue_example 12 KFD_QUEUE_TYPE_COMPUTE False],
         qpd_example 2 0x8002 [queue_example 13 KFD_QUEUE_TYPE_SDMA True]],
      processes_count = 2, active_queue_count = 2, active_cp_queue_count = 1, gws_queue_count = 0,
      total_queue_count = 3, next_pipe_to_allocate = 0, allocated_queues = [0xFF, 0xFF, 0xFF, 0xFF],
      sdma_bitmap = replicate 128 False, xgmi_sdma_bitmap = replicate 128 False,
      vmid_pasid = replicate 16 0, fence_gpu_addr = 0x3000, fence_value = 0, fence_mem = None,
      active_runlist = False, sched_policy = KFD_SCHED_POLICY_HWS, trap_debug_vmid = 0,
      is_hws_hang = False, is_resetting = False, reset_scheduled = False, sched_running = True,
      wait_times = 0\<rparr>"

lemma dqm_example_cover: "counters_cover (pm_funcs kfd_v9_pm_table) dqm_example"
  by (simp add: counters_cover_def dqm_example_def proc_sum_def active_queues_def qpd_example_def
      queue_example_def zero_properties_def pm_funcs_def kfd_v9_pm_funcs_def)

lemma dqm_example_mappable: "\<forall>qpd \<in> set (dqm_queues dqm_example). mappable qpd"
  by (auto simp: dqm_example_def mappable_def active_queues_def qpd_example_def queue_example_def
      zero_properties_def)

lemma dqm_example_not_allocated: "\<not> pm_allocated (packet_mgr dqm_example)"
  by (simp add: dqm_example_def)

lemma dqm_example_pm_wf: "pm_wf dqm_example"
proof -
  let ?kq = "kq_example\<lparr>wptr64_kernel := 14, rptr_kernel := 6\<rparr>"
  have q: "queue_size_dwords ?kq = 8"
    by (simp add: queue_size_dwords_def kq_example_def zero_properties_def)
  have "kq_wf ?kq" unfolding kq_wf_def q by (simp add: kq_example_def)
  moreover have "kq_committed ?kq" by (simp add: kq_committed_def kq_example_def)
  ultimately show ?thesis by (simp add: pm_wf_def dqm_example_def)
qed

lemma dqm_example_alloc:
  "\<exists>d. dev_gtt_alloc True (kfd (dqm_dev dqm_example))
     (fst (pm_calc_rlib_size (pm_funcs kfd_v9_pm_table) dqm_example)) =
   (Inr \<lparr>range_start = 0, range_end = 0, gpu_addr = 0x1000, cpu_ptr = 0x8000\<rparr>, d)"
proof -
  have "fst (dev_gtt_alloc True (kfd (dqm_dev dqm_example))
      (fst (pm_calc_rlib_size (pm_funcs kfd_v9_pm_table) dqm_example))) =
    Inr \<lparr>range_start = 0, range_end = 0, gpu_addr = 0x1000, cpu_ptr = 0x8000\<rparr>"
    by code_simp
  then show ?thesis by (metis prod.collapse)
qed

theorem runlist_ib_complete_witness:
  "\<exists>dqm' sz ps k. pm_create_runlist_ib (pm_funcs kfd_v9_pm_table) True dqm_example =
     (Inr (0x1000, sz), dqm') \<and> \<not> ib_overflow (packet_mgr dqm') \<and>
     ib_words (packet_mgr dqm') = concat ps @ replicate k 0 \<and> pm4_walk (concat ps) = Some ps \<and>
     length ps = 5"
proof -
  let ?F = "pm_funcs kfd_v9_pm_table"
  obtain d where d: "dev_gtt_alloc True (kfd (dqm_dev dqm_example)) (fst (pm_calc_rlib_size ?F dqm_example)) =
   (Inr \<lparr>range_start = 0, range_end = 0, gpu_addr = 0x1000, cpu_ptr = 0x8000\<rparr>, d)"
    using dqm_example_alloc by blast
  have "length (ib_packets ?F dqm_example 0x1000) = 5" by code_simp
  then show ?thesis
    using runlist_ib_complete [OF dqm_example_not_allocated dqm_example_cover
        dqm_example_mappable prod.collapse [symmetric] d] by auto
qed

text \<open>
  Sending a runlist is all or nothing: on success the manager holds the runlist buffer, on any
  failure (no GTT memory, a packet that cannot be built, no room on the HIQ) it holds none. In both
  cases releasing what it holds gives back the GTT as it was.
\<close>

theorem pm_send_runlist_all_or_nothing:
  assumes "gtt_wf (gtt (kfd (dqm_dev dqm)))" and "\<not> pm_allocated (packet_mgr dqm)"
  shows "case pm_send_runlist F kz dqm of
           (OK, dqm') \<Rightarrow> pm_allocated (packet_mgr dqm') \<and>
                         kfd (dqm_dev (pm_release_ib dqm')) = kfd (dqm_dev dqm)
         | (Err e, dqm') \<Rightarrow> \<not> pm_allocated (packet_mgr dqm') \<and> kfd (dqm_dev dqm') = kfd (dqm_dev dqm)"
proof -
  obtain r dqm' where s: "pm_send_runlist F kz dqm = (r, dqm')" by (cases "pm_send_runlist F kz dqm")
  with send_runlist_ownership [OF assms s] show ?thesis
    by (auto simp: kfd_without_ib_eq kfd_without_ib_def [symmetric] split: retval.splits)
qed

theorem pm_send_runlist_all_or_nothing_witness:
  "case pm_send_runlist (pm_funcs kfd_v9_pm_table) True dqm_example of
     (OK, dqm') \<Rightarrow> pm_allocated (packet_mgr dqm') \<and>
                   kfd (dqm_dev (pm_release_ib dqm')) = kfd (dqm_dev dqm_example)
   | (Err e, dqm') \<Rightarrow> \<not> pm_allocated (packet_mgr dqm') \<and> kfd (dqm_dev dqm') = kfd (dqm_dev dqm_example)"
proof (rule pm_send_runlist_all_or_nothing)
  show "gtt_wf (gtt (kfd (dqm_dev dqm_example)))"
    by (simp add: gtt_wf_def dqm_example_def node_example_def)
qed (rule dqm_example_not_allocated)

text \<open>
  A second runlist while one is outstanding is refused, but the error path of \<^verbatim>\<open>pm_send_runlist\<close> releases the
  buffer of the outstanding runlist, which the hardware may still be reading.
\<close>

theorem pm_send_runlist_busy_frees_ib:
  assumes "pm_allocated (packet_mgr dqm)"
  shows "pm_send_runlist F kz dqm = (Err EINVAL, pm_release_ib dqm) \<and>
    \<not> pm_allocated (packet_mgr (pm_release_ib dqm)) \<and>
    kfd (dqm_dev (pm_release_ib dqm)) =
      dev_gtt_free (kfd (dqm_dev dqm)) (ib_buffer_obj (packet_mgr dqm))"
  using assms
  by (simp add: pm_send_runlist_def pm_create_runlist_ib_def pm_allocate_runlist_ib_def
      kfd_without_ib_def [symmetric] kfd_without_ib_eq)

theorem pm_send_runlist_busy_frees_ib_witness:
  "fst (pm_send_runlist (pm_funcs kfd_v9_pm_table) True
     (upd_pm (\<lambda>pm. pm\<lparr>pm_allocated := True\<rparr>) dqm_example)) = Err EINVAL"
  using pm_send_runlist_busy_frees_ib [of "upd_pm (\<lambda>pm. pm\<lparr>pm_allocated := True\<rparr>) dqm_example"
      "pm_funcs kfd_v9_pm_table" True]
  by simp

text \<open>
  An unmap request reaches the scheduler: on a started manager \<^verbatim>\<open>pm_send_unmap_queue\<close> either appends exactly
  one packet with the unmap opcode, after padding, to the unread words of the HIQ and publishes it, or fails
  with \<^verbatim>\<open>-ENOMEM\<close> and changes nothing.
\<close>

theorem pm_send_unmap_queue_fifo:
  assumes "pm_wf dqm"
  shows "case pm_send_unmap_queue (pm_funcs t) flt param reset dqm of
           (OK, dqm') \<Rightarrow> pm_wf dqm' \<and>
             (\<exists>k nop p. hiq_unread dqm' = hiq_unread dqm @ replicate k nop @ p \<and>
                pm4_packet IT_UNMAP_QUEUES p \<and> p = snd (unmap_queues (pm_funcs t) dqm flt param reset))
         | (Err e, dqm') \<Rightarrow> e = ENOMEM \<and> dqm' = dqm"
proof -
  note b = pm4_table.unmap_queues_builds [OF pm4_table_pm_funcs, of t dqm flt param reset]
  show ?thesis
  proof (cases rule: pm_send_packet_cases [OF assms b])
    case (1 kq kq' k)
    with b show ?thesis
      by (auto simp: pm_send_unmap_queue_def pm_wf_def hiq_unread_def builds_def)
  next
    case 2
    then show ?thesis by (simp add: pm_send_unmap_queue_def)
  qed
qed

theorem pm_send_unmap_queue_fifo_witness:
  "case pm_send_unmap_queue (pm_funcs kfd_v9_pm_table) KFD_UNMAP_QUEUES_FILTER_BY_PASID 0x8001 False
      dqm_example of
     (OK, dqm') \<Rightarrow> pm_wf dqm' \<and>
       (\<exists>k nop p. hiq_unread dqm' = hiq_unread dqm_example @ replicate k nop @ p \<and>
          pm4_packet IT_UNMAP_QUEUES p \<and>
          p = snd (unmap_queues (pm_funcs kfd_v9_pm_table) dqm_example
                 KFD_UNMAP_QUEUES_FILTER_BY_PASID 0x8001 False))
   | (Err e, dqm') \<Rightarrow> e = ENOMEM \<and> dqm' = dqm_example"
  by (rule pm_send_unmap_queue_fifo [OF dqm_example_pm_wf])

end
