(* ===== verification/Resource_Pool.thy ===== *)
theory Resource_Pool
  imports Kfd_Prelude
begin

text \<open>
  Pools of exclusive resources. SDMA queues, doorbells, hardware queue slots and VMIDs are all handed out
  from a bitmap or table; the contract is the same: a resource that is taken was available and
  stops being available, a resource that is given back becomes available again, and nothing else
  changes. The locale derives the accounting of any sequence of operations from these laws.
\<close>

text \<open>An operation on a pool: take a resource with some argument, or give back one that is held.\<close>

datatype 'a pool_op = Take 'a | Give nat

fun pool_run ::
    "('a \<Rightarrow> 's \<Rightarrow> ('r \<times> 's) option) \<Rightarrow> ('r \<Rightarrow> 's \<Rightarrow> 's) \<Rightarrow> 'a pool_op list \<Rightarrow> 's \<times> 'r list \<Rightarrow> 's \<times> 'r list"
where
  "pool_run get put [] (s, held) = (s, held)"
| "pool_run get put (Take a # ops) (s, held) =
     (case get a s of
        None \<Rightarrow> pool_run get put ops (s, held)
      | Some (r, s') \<Rightarrow> pool_run get put ops (s', r # held))"
| "pool_run get put (Give i # ops) (s, held) =
     (if i < length held then pool_run get put ops (put (held ! i) s, remove1 (held ! i) held)
      else pool_run get put ops (s, held))"

locale resource_pool =
  fixes get :: "'a \<Rightarrow> 's \<Rightarrow> ('r \<times> 's) option"
    and put :: "'r \<Rightarrow> 's \<Rightarrow> 's"
    and avail :: "'s \<Rightarrow> 'r set"
    and all :: "'s \<Rightarrow> 'r set"
    and valid :: "'a \<Rightarrow> bool"
    and invar :: "'s \<Rightarrow> bool"
  assumes avail_all: "invar s \<Longrightarrow> avail s \<subseteq> all s"
    and get_ok: "invar s \<Longrightarrow> valid a \<Longrightarrow> get a s = Some (r, s') \<Longrightarrow>
          r \<in> avail s \<and> avail s' = avail s - {r} \<and> all s' = all s \<and> invar s'"
    and put_ok: "invar s \<Longrightarrow> r \<in> all s \<Longrightarrow>
          avail (put r s) = insert r (avail s) \<and> all (put r s) = all s \<and> invar (put r s)"
begin

text \<open>
  Whatever sequence of operations is run, no resource is held twice, no held resource is available, and
  held and available resources together are those of the start.
\<close>

definition balanced :: "'r set \<Rightarrow> 's \<times> 'r list \<Rightarrow> bool" where
  "balanced R sh \<longleftrightarrow> invar (fst sh) \<and> distinct (snd sh) \<and> set (snd sh) \<inter> avail (fst sh) = {} \<and>
     set (snd sh) \<union> avail (fst sh) = R \<and> R \<subseteq> all (fst sh)"

lemma balanced_get:
  assumes "balanced R (s, held)" "valid a" "get a s = Some (r, s')"
  shows "balanced R (s', r # held)"
  using assms get_ok [of s a r s'] by (auto simp: balanced_def)

lemma balanced_put:
  assumes "balanced R (s, held)" "i < length held"
  shows "balanced R (put (held ! i) s, remove1 (held ! i) held)"
proof -
  have "held ! i \<in> all s" using assms nth_mem [of i held] by (auto simp: balanced_def)
  then show ?thesis
    using assms put_ok [of s "held ! i"] nth_mem [OF assms(2)]
    by (auto simp: balanced_def set_remove1_eq)
qed

lemma balanced_run:
  "balanced R sh \<Longrightarrow> \<forall>a. Take a \<in> set ops \<longrightarrow> valid a \<Longrightarrow> balanced R (pool_run get put ops sh)"
proof (induction ops arbitrary: sh)
  case Nil
  then show ?case by (cases sh) simp
next
  case (Cons op ops)
  obtain s held where [simp]: "sh = (s, held)" by (cases sh)
  show ?case
  proof (cases op)
    case (Take a)
    with Cons balanced_get [of R s held a] show ?thesis by (auto split: option.splits)
  next
    case (Give i)
    with Cons balanced_put [of R s held i] show ?thesis by auto
  qed
qed

lemma accounting:
  assumes "invar s" and "\<forall>a. Take a \<in> set ops \<longrightarrow> valid a" and "pool_run get put ops (s, []) = (s', held)"
  shows "distinct held" "set held \<inter> avail s' = {}" "set held \<union> avail s' = avail s"
  using balanced_run [of "avail s" "(s, [])" ops] assms avail_all [OF assms(1)]
  by (auto simp: balanced_def)

end

end
