(* ===== verification/Dqm_Resources.thy ===== *)
theory Dqm_Resources
  imports Packet_Manager Resource_Pool
begin

text \<open>
  The hardware resources a queue takes, from \<^verbatim>\<open>kfd/kfd_device_queue_manager.c\<close>: SDMA queues, doorbells,
  hardware queue slots (HQDs) and VMIDs. Each is shown to be handed out exclusively and to be given
  back completely.

  Register writes (\<^verbatim>\<open>program_sh_mem_settings\<close>, the VMID mapping registers, TLB flushes) have no
  counterpart in the state.
\<close>

section \<open>SDMA queues\<close>

definition init_sdma_bitmaps :: "device_queue_manager \<Rightarrow> device_queue_manager" where
  "init_sdma_bitmaps dqm =
     dqm\<lparr>sdma_bitmap :=
           bitmap_andnot (bitmap_set 0 (get_num_sdma_queues dqm) (bitmap_zalloc KFD_MAX_SDMA_QUEUES))
             (reserved_sdma_queues_bitmap (dqm_dev dqm)),
         xgmi_sdma_bitmap :=
           bitmap_set 0 (get_num_xgmi_sdma_queues dqm) (bitmap_zalloc KFD_MAX_SDMA_QUEUES)\<rparr>"

text \<open>
  The choice of a bit, shared by the two engine kinds: the wanted one on a restore, otherwise the
  first free one. A restored id outside the bitmap is an access out of range.
\<close>

definition take_sdma_bit :: "bitmap \<Rightarrow> nat \<Rightarrow> u32 option \<Rightarrow> errno + nat" where
  "take_sdma_bit bm num restore_sdma_id =
     (if bitmap_empty bm then Inl ENOMEM
      else case restore_sdma_id of
             Some rid \<Rightarrow> (if unat rid \<ge> KFD_MAX_SDMA_QUEUES then Inl OOPS
                         else if \<not> test_bit (unat rid) bm then Inl EBUSY else Inr (unat rid))
           | None \<Rightarrow> Inr (find_first_bit bm num))"

definition allocate_sdma_queue ::
    "device_queue_manager \<Rightarrow> queue \<Rightarrow> u32 option \<Rightarrow> retval \<times> device_queue_manager \<times> queue" where
  "allocate_sdma_queue dqm q restore_sdma_id =
     (let sdma = kfd_get_num_sdma_engines (dqm_dev dqm);
          xgmi = kfd_get_num_xgmi_sdma_engines (dqm_dev dqm) in
      if qtype (properties q) = KFD_QUEUE_TYPE_SDMA then
        (case take_sdma_bit (sdma_bitmap dqm) (get_num_sdma_queues dqm) restore_sdma_id of
           Inl e \<Rightarrow> (Err e, dqm, q)
         | Inr b \<Rightarrow>
             (OK, dqm\<lparr>sdma_bitmap := clear_bit_at b (sdma_bitmap dqm)\<rparr>,
              q\<lparr>sdma_id := b,
                 properties := (properties q)\<lparr>sdma_engine_id := of_nat (b mod sdma),
                                              sdma_queue_id := of_nat (b div sdma)\<rparr>\<rparr>))
      else if qtype (properties q) = KFD_QUEUE_TYPE_SDMA_XGMI then
        (case take_sdma_bit (xgmi_sdma_bitmap dqm) (get_num_xgmi_sdma_queues dqm) restore_sdma_id of
           Inl e \<Rightarrow> (Err e, dqm, q)
         | Inr b \<Rightarrow>
             (OK, dqm\<lparr>xgmi_sdma_bitmap := clear_bit_at b (xgmi_sdma_bitmap dqm)\<rparr>,
              q\<lparr>sdma_id := b,
                 properties := (properties q)\<lparr>sdma_engine_id := of_nat (sdma + b mod xgmi),
                                              sdma_queue_id := of_nat (b div xgmi)\<rparr>\<rparr>))
      else (OK, dqm, q))"

definition deallocate_sdma_queue :: "device_queue_manager \<Rightarrow> queue \<Rightarrow> device_queue_manager" where
  "deallocate_sdma_queue dqm q =
     (if qtype (properties q) = KFD_QUEUE_TYPE_SDMA then
        (if sdma_id q \<ge> get_num_sdma_queues dqm then dqm
         else dqm\<lparr>sdma_bitmap := set_bit_at (sdma_id q) (sdma_bitmap dqm)\<rparr>)
      else if qtype (properties q) = KFD_QUEUE_TYPE_SDMA_XGMI then
        (if sdma_id q \<ge> get_num_xgmi_sdma_queues dqm then dqm
         else dqm\<lparr>xgmi_sdma_bitmap := set_bit_at (sdma_id q) (xgmi_sdma_bitmap dqm)\<rparr>)
      else dqm)"

section \<open>Doorbells\<close>

text \<open>The static doorbell of an SDMA queue on SOC15; \<open>None\<close> is an index outside the table.\<close>

definition sdma_doorbell :: "device_queue_manager \<Rightarrow> queue \<Rightarrow> u32 option" where
  "sdma_doorbell dqm q =
     (let p = properties q;
          i = unat (node_id (dqm_dev dqm) * of_nat (get_num_all_sdma_engines dqm) + sdma_engine_id p) in
      if i \<ge> length (sdma_doorbell_idx (dqm_dev dqm)) then None
      else Some (sdma_doorbell_idx (dqm_dev dqm) ! i +
                 (sdma_queue_id p AND 1) * of_nat KFD_QUEUE_DOORBELL_MIRROR_OFFSET +
                 drop_bit 1 (sdma_queue_id p)))"

text \<open>The choice of the doorbell id, with the new process bitmap.\<close>

definition choose_doorbell ::
    "device_queue_manager \<Rightarrow> qcm_process_device \<Rightarrow> queue \<Rightarrow> u32 option \<Rightarrow>
     errno + (u32 \<times> bitmap option)" where
  "choose_doorbell dqm qpd q restore_id =
     (if \<not> soc15 (kfd (dqm_dev dqm)) then
        (if restore_id \<noteq> None \<and> restore_id \<noteq> Some (queue_id (properties q)) then Inl EINVAL
         else Inr (queue_id (properties q), doorbell_bitmap qpd))
      else if is_sdma_type (qtype (properties q)) then
        (case sdma_doorbell dqm q of
           None \<Rightarrow> Inl OOPS
         | Some valid_id \<Rightarrow>
             (if restore_id \<noteq> None \<and> restore_id \<noteq> Some valid_id then Inl EINVAL
              else Inr (valid_id, doorbell_bitmap qpd)))
      else
        (case doorbell_bitmap qpd of
           None \<Rightarrow> Inl OOPS
         | Some bm \<Rightarrow>
             (case restore_id of
                Some rid \<Rightarrow>
                  (if unat rid \<ge> length bm then Inl OOPS
                   else if test_bit (unat rid) bm then Inl EINVAL
                   else Inr (rid, Some (set_bit_at (unat rid) bm)))
              | None \<Rightarrow>
                  (let found = find_first_zero_bit bm KFD_MAX_NUM_OF_QUEUES_PER_PROCESS in
                   if found \<ge> KFD_MAX_NUM_OF_QUEUES_PER_PROCESS then Inl EBUSY
                   else Inr (of_nat found, Some (set_bit_at found bm))))))"

definition allocate_doorbell ::
    "device_queue_manager \<Rightarrow> qcm_process_device \<Rightarrow> queue \<Rightarrow> u32 option \<Rightarrow>
     retval \<times> qcm_process_device \<times> queue" where
  "allocate_doorbell dqm qpd q restore_id =
     (case choose_doorbell dqm qpd q restore_id of
        Inl e \<Rightarrow> (Err e, qpd, q)
      | Inr (rid, bm) \<Rightarrow>
          (case proc_doorbells qpd of
             None \<Rightarrow> (Err OOPS, qpd\<lparr>doorbell_bitmap := bm\<rparr>, q\<lparr>doorbell_id := unat rid\<rparr>)
           | Some bo \<Rightarrow>
               (OK, qpd\<lparr>doorbell_bitmap := bm\<rparr>,
                q\<lparr>doorbell_id := unat rid,
                   properties := (properties q)\<lparr>doorbell_off :=
                     amdgpu_doorbell_index_on_bar bo rid (doorbell_size (kfd (dqm_dev dqm)))\<rparr>\<rparr>)))"

definition deallocate_doorbell ::
    "device_queue_manager \<Rightarrow> qcm_process_device \<Rightarrow> queue \<Rightarrow> qcm_process_device" where
  "deallocate_doorbell dqm qpd q =
     (if \<not> soc15 (kfd (dqm_dev dqm)) \<or> is_sdma_type (qtype (properties q)) then qpd
      else qpd\<lparr>doorbell_bitmap := map_option (clear_bit_at (doorbell_id q)) (doorbell_bitmap qpd)\<rparr>)"

section \<open>Hardware queue slots\<close>

text \<open>\<^verbatim>\<open>ffs(x) - 1\<close> of a nonzero word.\<close>

definition lowest_bit :: "u32 \<Rightarrow> nat" where
  "lowest_bit x = (case find (bit x) [0..<32] of Some b \<Rightarrow> b | None \<Rightarrow> 32)"

text \<open>
  The loop over the pipes, \<open>n\<close> iterations from \<open>p\<close> on: the first enabled pipe with a free slot. A bit set
  in \<^verbatim>\<open>allocated_queues\<close> is a free slot.
\<close>

fun find_hqd_pipe :: "device_queue_manager \<Rightarrow> nat \<Rightarrow> nat \<Rightarrow> nat option" where
  "find_hqd_pipe dqm p 0 = None"
| "find_hqd_pipe dqm p (Suc n) =
     (if is_pipe_enabled dqm 0 p \<and> allocated_queues dqm ! p \<noteq> 0 then Some p
      else find_hqd_pipe dqm ((p + 1) mod get_pipes_per_mec dqm) n)"

definition allocate_hqd ::
    "device_queue_manager \<Rightarrow> queue \<Rightarrow> retval \<times> device_queue_manager \<times> queue" where
  "allocate_hqd dqm q =
     (case find_hqd_pipe dqm (next_pipe_to_allocate dqm) (get_pipes_per_mec dqm) of
        None \<Rightarrow> (Err EBUSY, dqm, q)
      | Some p \<Rightarrow>
          let b = lowest_bit (allocated_queues dqm ! p) in
          (OK, dqm\<lparr>allocated_queues := (allocated_queues dqm)
                     [p := allocated_queues dqm ! p AND NOT (push_bit b 1)],
                   next_pipe_to_allocate := (p + 1) mod get_pipes_per_mec dqm\<rparr>,
           q\<lparr>pipe := p, queue_slot := b\<rparr>))"

definition deallocate_hqd :: "device_queue_manager \<Rightarrow> queue \<Rightarrow> device_queue_manager" where
  "deallocate_hqd dqm q =
     dqm\<lparr>allocated_queues := (allocated_queues dqm)
           [pipe q := allocated_queues dqm ! pipe q OR push_bit (queue_slot q) 1]\<rparr>"

section \<open>VMIDs\<close>

definition find_free_vmid :: "device_queue_manager \<Rightarrow> nat option" where
  "find_free_vmid dqm =
     find (\<lambda>i. vmid_pasid dqm ! i = 0)
       [first_vmid_kfd (dqm_dev dqm)..<Suc (last_vmid_kfd (dqm_dev dqm))]"

definition allocate_vmid ::
    "device_queue_manager \<Rightarrow> qcm_process_device \<Rightarrow> queue \<Rightarrow>
     retval \<times> device_queue_manager \<times> qcm_process_device \<times> queue" where
  "allocate_vmid dqm qpd q =
     (case find_free_vmid dqm of
        None \<Rightarrow> (Err ENOSPC, dqm, qpd, q)
      | Some v \<Rightarrow>
          (OK, dqm\<lparr>vmid_pasid := (vmid_pasid dqm)[v := ucast (pasid qpd)]\<rparr>,
           qpd\<lparr>qpd_vmid := v\<rparr>,
           q\<lparr>properties := (properties q)\<lparr>vmid := of_nat v\<rparr>\<rparr>))"

definition deallocate_vmid ::
    "device_queue_manager \<Rightarrow> qcm_process_device \<Rightarrow> queue \<Rightarrow>
     device_queue_manager \<times> qcm_process_device \<times> queue" where
  "deallocate_vmid dqm qpd q =
     (dqm\<lparr>vmid_pasid := (vmid_pasid dqm)[qpd_vmid qpd := 0]\<rparr>, qpd\<lparr>qpd_vmid := 0\<rparr>,
      q\<lparr>properties := (properties q)\<lparr>vmid := 0\<rparr>\<rparr>)"

section \<open>Initialisation without the hardware scheduler\<close>

definition pipe_slots :: "device_queue_manager \<Rightarrow> nat \<Rightarrow> u32" where
  "pipe_slots dqm p =
     foldr (\<lambda>i w. if test_bit (p * get_queues_per_pipe dqm + i) (cp_queue_bitmap (dqm_dev dqm))
                  then w OR push_bit i 1 else w)
       [0..<get_queues_per_pipe dqm] 0"

definition initialize_nocpsch :: "bool \<Rightarrow> device_queue_manager \<Rightarrow> retval \<times> device_queue_manager" where
  "initialize_nocpsch kcalloc_ok dqm =
     (if \<not> kcalloc_ok then (Err ENOMEM, dqm)
      else (OK, init_sdma_bitmaps
        (dqm\<lparr>dqm_queues := [], active_queue_count := 0, next_pipe_to_allocate := 0,
             active_cp_queue_count := 0, gws_queue_count := 0,
             allocated_queues := map (pipe_slots dqm) [0..<get_pipes_per_mec dqm],
             vmid_pasid := replicate VMID_NUM 0\<rparr>)))"

section \<open>SDMA queues as a pool\<close>

text \<open>
  The bitmaps of the two engine kinds hold the free queues; they have no bits beyond the number of
  queues of their engines.
\<close>

definition sdma_free :: "kfd_queue_type \<Rightarrow> device_queue_manager \<Rightarrow> bitmap" where
  "sdma_free ty dqm = (if ty = KFD_QUEUE_TYPE_SDMA then sdma_bitmap dqm else xgmi_sdma_bitmap dqm)"

definition sdma_count :: "kfd_queue_type \<Rightarrow> device_queue_manager \<Rightarrow> nat" where
  "sdma_count ty dqm =
     (if ty = KFD_QUEUE_TYPE_SDMA then get_num_sdma_queues dqm else get_num_xgmi_sdma_queues dqm)"

definition sdma_wf :: "kfd_queue_type \<Rightarrow> device_queue_manager \<Rightarrow> bool" where
  "sdma_wf ty dqm \<longleftrightarrow> length (sdma_free ty dqm) = KFD_MAX_SDMA_QUEUES \<and>
     sdma_count ty dqm \<le> KFD_MAX_SDMA_QUEUES \<and> bits_of (sdma_free ty dqm) \<subseteq> {..<sdma_count ty dqm}"

definition sdma_handle :: "kfd_queue_type \<Rightarrow> nat \<Rightarrow> queue" where
  "sdma_handle ty b = (queue_example 0 ty False)\<lparr>sdma_id := b\<rparr>"

definition sdma_get ::
    "kfd_queue_type \<Rightarrow> queue \<times> u32 option \<Rightarrow> device_queue_manager \<Rightarrow> (nat \<times> device_queue_manager) option"
where
  "sdma_get ty a dqm =
     (case allocate_sdma_queue dqm
             ((fst a)\<lparr>properties := (properties (fst a))\<lparr>qtype := ty\<rparr>\<rparr>) (snd a) of
        (OK, dqm', q') \<Rightarrow> Some (sdma_id q', dqm')
      | (Err _, _) \<Rightarrow> None)"

definition sdma_put :: "kfd_queue_type \<Rightarrow> nat \<Rightarrow> device_queue_manager \<Rightarrow> device_queue_manager" where
  "sdma_put ty b dqm = deallocate_sdma_queue dqm (sdma_handle ty b)"

lemma deallocate_sdma_queue_put:
  "qtype (properties q) = ty \<Longrightarrow> deallocate_sdma_queue dqm q = sdma_put ty (sdma_id q) dqm"
  by (simp add: sdma_put_def deallocate_sdma_queue_def sdma_handle_def queue_example_def
      zero_properties_def)

lemma take_sdma_bit_ok:
  assumes "take_sdma_bit bm num r = Inr b" "bits_of bm \<subseteq> {..<num}"
  shows "test_bit b bm"
proof (cases r)
  case None
  with assms have "b = find_first_bit bm num" "\<not> bitmap_empty bm"
    by (auto simp: take_sdma_bit_def split: if_splits)
  moreover from this(2) obtain i where i: "test_bit i bm" by (auto simp: bitmap_empty_iff)
  with assms(2) have "i < num" by (auto simp: bits_of_def)
  with i have "find_first_bit bm num \<noteq> num" using find_first_bit_none by blast
  then have "find_first_bit bm num < num" using find_first_bit_le [of bm num] by simp
  ultimately show ?thesis using find_first_bit_least by blast
qed (use assms in \<open>auto simp: take_sdma_bit_def split: if_splits\<close>)

lemma sdma_get_ok:
  assumes "is_sdma_type ty" "sdma_wf ty dqm" "sdma_get ty a dqm = Some (b, dqm')"
  shows "b \<in> bits_of (sdma_free ty dqm) \<and> bits_of (sdma_free ty dqm') = bits_of (sdma_free ty dqm) - {b} \<and>
    sdma_count ty dqm' = sdma_count ty dqm \<and> sdma_wf ty dqm'"
proof -
  let ?q = "(fst a)\<lparr>properties := (properties (fst a))\<lparr>qtype := ty\<rparr>\<rparr>"
  obtain q' where al: "allocate_sdma_queue dqm ?q (snd a) = (OK, dqm', q')" "sdma_id q' = b"
    using assms(3) by (auto simp: sdma_get_def split: prod.splits retval.splits)
  then have t: "take_sdma_bit (sdma_free ty dqm) (sdma_count ty dqm) (snd a) = Inr b"
    and d: "sdma_free ty dqm' = clear_bit_at b (sdma_free ty dqm)" "sdma_count ty dqm' = sdma_count ty dqm"
    using assms(1)
    by (auto simp: allocate_sdma_queue_def sdma_free_def sdma_count_def Let_def get_num_sdma_queues_def
        get_num_xgmi_sdma_queues_def split: sum.splits)
  from assms(2) take_sdma_bit_ok [OF t] have "test_bit b (sdma_free ty dqm)"
    by (auto simp: sdma_wf_def)
  with d assms(2) show ?thesis by (auto simp: sdma_wf_def bits_of_clear_bit_at mem_bits_of)
qed

lemma sdma_put_ok:
  assumes "is_sdma_type ty" "sdma_wf ty dqm" "b < sdma_count ty dqm"
  shows "bits_of (sdma_free ty (sdma_put ty b dqm)) = insert b (bits_of (sdma_free ty dqm)) \<and>
    sdma_count ty (sdma_put ty b dqm) = sdma_count ty dqm \<and> sdma_wf ty (sdma_put ty b dqm)"
proof -
  have d: "sdma_free ty (sdma_put ty b dqm) = set_bit_at b (sdma_free ty dqm)"
    "sdma_count ty (sdma_put ty b dqm) = sdma_count ty dqm"
    using assms(1,3)
    by (auto simp: sdma_put_def deallocate_sdma_queue_def sdma_handle_def queue_example_def sdma_free_def
        sdma_count_def zero_properties_def get_num_sdma_queues_def get_num_xgmi_sdma_queues_def)
  with assms show ?thesis by (auto simp: sdma_wf_def bits_of_set_bit_at)
qed

lemma sdma_pool:
  assumes "is_sdma_type ty"
  shows "resource_pool (sdma_get ty) (sdma_put ty) (\<lambda>dqm. bits_of (sdma_free ty dqm))
    (\<lambda>dqm. {..<sdma_count ty dqm}) (\<lambda>_. True) (sdma_wf ty)"
proof (unfold_locales, goal_cases)
  case (1 dqm)
  then show ?case by (simp add: sdma_wf_def)
next
  case (2 dqm a b dqm')
  then show ?case using sdma_get_ok [OF assms 2(1) 2(3)] by simp
next
  case (3 dqm b)
  then show ?case using sdma_put_ok [OF assms 3(1)] by simp
qed

interpretation sdma: resource_pool "sdma_get KFD_QUEUE_TYPE_SDMA" "sdma_put KFD_QUEUE_TYPE_SDMA"
  "\<lambda>dqm. bits_of (sdma_free KFD_QUEUE_TYPE_SDMA dqm)" "\<lambda>dqm. {..<sdma_count KFD_QUEUE_TYPE_SDMA dqm}"
  "\<lambda>_. True" "sdma_wf KFD_QUEUE_TYPE_SDMA"
  by (rule sdma_pool) simp

interpretation xgmi: resource_pool "sdma_get KFD_QUEUE_TYPE_SDMA_XGMI" "sdma_put KFD_QUEUE_TYPE_SDMA_XGMI"
  "\<lambda>dqm. bits_of (sdma_free KFD_QUEUE_TYPE_SDMA_XGMI dqm)"
  "\<lambda>dqm. {..<sdma_count KFD_QUEUE_TYPE_SDMA_XGMI dqm}" "\<lambda>_. True" "sdma_wf KFD_QUEUE_TYPE_SDMA_XGMI"
  by (rule sdma_pool) simp

section \<open>Process doorbells as a pool\<close>

text \<open>The doorbells of CP queues on SOC15; the pool is the bitmap of the process.\<close>

definition db_bitmap :: "device_queue_manager \<times> qcm_process_device \<Rightarrow> bitmap" where
  "db_bitmap s = (case doorbell_bitmap (snd s) of None \<Rightarrow> [] | Some bm \<Rightarrow> bm)"

definition db_wf :: "device_queue_manager \<times> qcm_process_device \<Rightarrow> bool" where
  "db_wf s \<longleftrightarrow> soc15 (kfd (dqm_dev (fst s))) \<and> doorbell_bitmap (snd s) \<noteq> None \<and>
     length (db_bitmap s) = KFD_MAX_NUM_OF_QUEUES_PER_PROCESS"

definition db_avail :: "device_queue_manager \<times> qcm_process_device \<Rightarrow> nat set" where
  "db_avail s = {i. i < KFD_MAX_NUM_OF_QUEUES_PER_PROCESS \<and> \<not> test_bit i (db_bitmap s)}"

definition db_get ::
    "queue \<times> u32 option \<Rightarrow> device_queue_manager \<times> qcm_process_device \<Rightarrow>
     (nat \<times> device_queue_manager \<times> qcm_process_device) option" where
  "db_get a s =
     (case allocate_doorbell (fst s) (snd s) (fst a) (snd a) of
        (OK, qpd', q') \<Rightarrow> Some (doorbell_id q', fst s, qpd')
      | (Err _, _) \<Rightarrow> None)"

definition db_put ::
    "nat \<Rightarrow> device_queue_manager \<times> qcm_process_device \<Rightarrow> device_queue_manager \<times> qcm_process_device"
where
  "db_put i s =
     (fst s, deallocate_doorbell (fst s) (snd s)
               ((queue_example 0 KFD_QUEUE_TYPE_COMPUTE False)\<lparr>doorbell_id := i\<rparr>))"

lemma deallocate_doorbell_put:
  "\<not> is_sdma_type (qtype (properties q)) \<Longrightarrow> deallocate_doorbell dqm qpd q = snd (db_put (doorbell_id q) (dqm, qpd))"
  by (simp add: db_put_def deallocate_doorbell_def queue_example_def zero_properties_def)

lemma choose_doorbell_ok:
  assumes "db_wf (dqm, qpd)" "\<not> is_sdma_type (qtype (properties q))"
    "choose_doorbell dqm qpd q r = Inr (rid, bm)"
  shows "unat rid \<in> db_avail (dqm, qpd) \<and> bm = Some (set_bit_at (unat rid) (db_bitmap (dqm, qpd)))"
proof -
  obtain b where b: "doorbell_bitmap qpd = Some b" "length b = 1024" "db_bitmap (dqm, qpd) = b"
    using assms(1) by (auto simp: db_wf_def db_bitmap_def)
  show ?thesis
  proof (cases r)
    case None
    let ?f = "find_first_zero_bit b 1024"
    have "?f < 1024" "rid = of_nat ?f" "bm = Some (set_bit_at ?f b)"
      using assms None b by (auto simp: choose_doorbell_def db_wf_def Let_def split: if_splits)
    moreover from this have "unat rid = ?f" by (simp add: unat_of_nat_small)
    ultimately show ?thesis using b find_first_zero_bit_least [of b 1024] by (simp add: db_avail_def)
  next
    case (Some x)
    with assms b show ?thesis
      by (auto simp: choose_doorbell_def db_wf_def db_avail_def split: if_splits)
  qed
qed

interpretation db: resource_pool db_get db_put db_avail "\<lambda>_. {..<KFD_MAX_NUM_OF_QUEUES_PER_PROCESS}"
  "\<lambda>a. \<not> is_sdma_type (qtype (properties (fst a)))" db_wf
proof unfold_locales
  fix s and a :: "queue \<times> u32 option" and r s'
  assume wf: "db_wf s" and v: "\<not> is_sdma_type (qtype (properties (fst a)))"
    and g: "db_get a s = Some (r, s')"
  obtain dqm qpd q rs where [simp]: "s = (dqm, qpd)" "a = (q, rs)" by (cases s, cases a)
  obtain rid bm where c: "choose_doorbell dqm qpd q rs = Inr (rid, bm)" "r = unat rid"
    "s' = (dqm, qpd\<lparr>doorbell_bitmap := bm\<rparr>)"
    using g by (auto simp: db_get_def allocate_doorbell_def split: sum.splits option.splits)
  with wf v choose_doorbell_ok [of dqm qpd q rs rid bm]
  show "r \<in> db_avail s \<and> db_avail s' = db_avail s - {r} \<and>
      {..<KFD_MAX_NUM_OF_QUEUES_PER_PROCESS} = {..<KFD_MAX_NUM_OF_QUEUES_PER_PROCESS} \<and> db_wf s'"
    by (auto simp: db_avail_def db_wf_def db_bitmap_def bitmap_simps)
next
  fix s and r :: nat
  assume "db_wf s" "r \<in> {..<KFD_MAX_NUM_OF_QUEUES_PER_PROCESS}"
  then show "db_avail (db_put r s) = insert r (db_avail s) \<and>
      {..<KFD_MAX_NUM_OF_QUEUES_PER_PROCESS} = {..<KFD_MAX_NUM_OF_QUEUES_PER_PROCESS} \<and>
      db_wf (db_put r s)"
    by (auto simp: db_avail_def db_wf_def db_bitmap_def db_put_def deallocate_doorbell_def queue_example_def
        zero_properties_def bitmap_simps)
qed (auto simp: db_avail_def)

section \<open>Hardware queue slots as a pool\<close>

definition hqd_wf :: "device_queue_manager \<Rightarrow> bool" where
  "hqd_wf dqm \<longleftrightarrow> length (allocated_queues dqm) = get_pipes_per_mec dqm \<and>
     next_pipe_to_allocate dqm < get_pipes_per_mec dqm"

definition hqd_avail :: "device_queue_manager \<Rightarrow> (nat \<times> nat) set" where
  "hqd_avail dqm = {(p, b). p < get_pipes_per_mec dqm \<and> b < 32 \<and> bit (allocated_queues dqm ! p) b}"

definition hqd_get :: "queue \<Rightarrow> device_queue_manager \<Rightarrow> ((nat \<times> nat) \<times> device_queue_manager) option" where
  "hqd_get q dqm =
     (case allocate_hqd dqm q of
        (OK, dqm', q') \<Rightarrow> Some ((pipe q', queue_slot q'), dqm')
      | (Err _, _) \<Rightarrow> None)"

definition hqd_put :: "nat \<times> nat \<Rightarrow> device_queue_manager \<Rightarrow> device_queue_manager" where
  "hqd_put r dqm =
     deallocate_hqd dqm ((queue_example 0 KFD_QUEUE_TYPE_COMPUTE False)
       \<lparr>pipe := fst r, queue_slot := snd r\<rparr>)"

lemma deallocate_hqd_put: "deallocate_hqd dqm q = hqd_put (pipe q, queue_slot q) dqm"
  by (simp add: hqd_put_def deallocate_hqd_def)

lemma lowest_bit_set:
  assumes "x \<noteq> 0" shows "lowest_bit x < 32" "bit x (lowest_bit x)"
proof -
  from assms obtain n where n: "bit x n" by (auto simp: bit_eq_iff)
  then have "n < 32" by (auto dest: bit_imp_le_length)
  with n obtain b where f: "find (bit x) [0..<32] = Some b"
    by (cases "find (bit x) [0..<32]") (auto simp: find_None_iff)
  then have "lowest_bit x = b" by (simp add: lowest_bit_def)
  with f show "lowest_bit x < 32" "bit x (lowest_bit x)" by (auto simp: find_Some_iff)
qed

lemma find_hqd_pipe_Some:
  "find_hqd_pipe dqm p n = Some i \<Longrightarrow> p < get_pipes_per_mec dqm \<Longrightarrow>
   i < get_pipes_per_mec dqm \<and> is_pipe_enabled dqm 0 i \<and> allocated_queues dqm ! i \<noteq> 0"
  by (induction n arbitrary: p) (auto split: if_splits)

text \<open>The loop visits the pipes \<open>p\<close>, \<open>p + 1\<close>, \<dots>, so with as many iterations as pipes it misses none.\<close>

lemma find_hqd_pipe_None:
  "find_hqd_pipe dqm p n = None \<Longrightarrow> p < get_pipes_per_mec dqm \<Longrightarrow> k < n \<Longrightarrow>
   \<not> (is_pipe_enabled dqm 0 ((p + k) mod get_pipes_per_mec dqm) \<and>
      allocated_queues dqm ! ((p + k) mod get_pipes_per_mec dqm) \<noteq> 0)"
proof (induction n arbitrary: p k)
  case (Suc n)
  show ?case
  proof (cases k)
    case 0
    with Suc.prems show ?thesis by (auto split: if_splits)
  next
    case (Suc k')
    let ?P = "get_pipes_per_mec dqm"
    have "((p + 1) mod ?P + k') mod ?P = (p + k) mod ?P"
      using Suc by (simp add: mod_add_left_eq)
    with Suc.IH [of "(p + 1) mod ?P" k'] Suc.prems \<open>k = Suc k'\<close> show ?thesis by (auto split: if_splits)
  qed
qed simp

lemma allocate_hqd_fails:
  assumes "hqd_wf dqm" "fst (allocate_hqd dqm q) \<noteq> OK" "p < get_pipes_per_mec dqm" "is_pipe_enabled dqm 0 p"
  shows "allocated_queues dqm ! p = 0"
proof -
  let ?P = "get_pipes_per_mec dqm" and ?s = "next_pipe_to_allocate dqm"
  have n: "find_hqd_pipe dqm ?s ?P = None"
    using assms(2) by (cases "find_hqd_pipe dqm ?s ?P") (auto simp: allocate_hqd_def Let_def)
  have "?s < ?P" using assms(1) by (simp add: hqd_wf_def)
  then have "(?s + (p + ?P - ?s) mod ?P) mod ?P = p"
    using assms(3) by (simp add: mod_add_right_eq)
  with find_hqd_pipe_None [OF n \<open>?s < ?P\<close>, of "(p + ?P - ?s) mod ?P"] \<open>?s < ?P\<close> assms(4)
  show ?thesis by auto
qed

interpretation hqd: resource_pool hqd_get hqd_put hqd_avail
  "\<lambda>dqm. {..<get_pipes_per_mec dqm} \<times> {..<32}" "\<lambda>_. True" hqd_wf
proof (unfold_locales, goal_cases)
  case (1 dqm)
  then show ?case by (auto simp: hqd_avail_def)
next
  case (2 dqm q r dqm')
  let ?a = "allocated_queues dqm" and ?P = "get_pipes_per_mec dqm"
  from 2(3) obtain i where i: "find_hqd_pipe dqm (next_pipe_to_allocate dqm) ?P = Some i"
    by (auto simp: hqd_get_def allocate_hqd_def split: option.splits)
  let ?b = "lowest_bit (?a ! i)"
  from i 2(1) have f: "i < ?P" "?a ! i \<noteq> 0" by (auto dest: find_hqd_pipe_Some simp: hqd_wf_def)
  note b = lowest_bit_set [OF f(2)]
  have r: "r = (i, ?b)" "dqm' = dqm\<lparr>allocated_queues := ?a[i := ?a ! i AND NOT (push_bit ?b 1)],
      next_pipe_to_allocate := (i + 1) mod ?P\<rparr>"
    using 2(3) i by (auto simp: hqd_get_def allocate_hqd_def Let_def)
  have P: "get_pipes_per_mec dqm' = ?P" by (simp add: r get_pipes_per_mec_def)
  moreover have "hqd_avail dqm' = hqd_avail dqm - {(i, ?b)}"
    using f 2(1) b unfolding hqd_avail_def P
    by (auto simp: r hqd_wf_def nth_list_update bit_simps split: if_splits)
  ultimately show ?case using f b 2(1) r by (auto simp: hqd_avail_def hqd_wf_def)
next
  case (3 dqm r)
  obtain i b where [simp]: "r = (i, b)" by (cases r)
  let ?P = "get_pipes_per_mec dqm"
  have d: "hqd_put (i, b) dqm = dqm\<lparr>allocated_queues := (allocated_queues dqm)
      [i := allocated_queues dqm ! i OR push_bit b 1]\<rparr>"
    by (simp add: hqd_put_def deallocate_hqd_def)
  then have P: "get_pipes_per_mec (hqd_put (i, b) dqm) = ?P" by (simp add: get_pipes_per_mec_def)
  moreover have "hqd_avail (hqd_put (i, b) dqm) = insert (i, b) (hqd_avail dqm)"
    using 3 unfolding hqd_avail_def P
    by (auto simp: d hqd_wf_def nth_list_update bit_simps split: if_splits)
  ultimately show ?case using 3 by (simp add: hqd_wf_def d)
qed

section \<open>VMIDs as a pool\<close>

definition vmid_wf :: "device_queue_manager \<Rightarrow> bool" where
  "vmid_wf dqm \<longleftrightarrow> length (vmid_pasid dqm) = VMID_NUM \<and> last_vmid_kfd (dqm_dev dqm) < VMID_NUM"

definition vmid_all :: "device_queue_manager \<Rightarrow> nat set" where
  "vmid_all dqm = {first_vmid_kfd (dqm_dev dqm)..last_vmid_kfd (dqm_dev dqm)}"

definition vmid_avail :: "device_queue_manager \<Rightarrow> nat set" where
  "vmid_avail dqm = {v \<in> vmid_all dqm. vmid_pasid dqm ! v = 0}"

definition vmid_get ::
    "qcm_process_device \<times> queue \<Rightarrow> device_queue_manager \<Rightarrow> (nat \<times> device_queue_manager) option" where
  "vmid_get a dqm =
     (case allocate_vmid dqm (fst a) (snd a) of
        (OK, dqm', qpd', q') \<Rightarrow> Some (qpd_vmid qpd', dqm')
      | (Err _, _) \<Rightarrow> None)"

definition vmid_put :: "nat \<Rightarrow> device_queue_manager \<Rightarrow> device_queue_manager" where
  "vmid_put v dqm =
     fst (deallocate_vmid dqm ((qpd_example 0 0 [])\<lparr>qpd_vmid := v\<rparr>)
            (queue_example 0 KFD_QUEUE_TYPE_COMPUTE False))"

lemma deallocate_vmid_put: "fst (deallocate_vmid dqm qpd q) = vmid_put (qpd_vmid qpd) dqm"
  by (simp add: vmid_put_def deallocate_vmid_def)

text \<open>The table has 16-bit entries, so a PASID must not vanish when cut to 16 bits.\<close>

interpretation vmid: resource_pool vmid_get vmid_put vmid_avail vmid_all
  "\<lambda>a. (ucast (pasid (fst a)) :: u16) \<noteq> 0" vmid_wf
proof (unfold_locales, goal_cases)
  case (1 dqm)
  then show ?case by (auto simp: vmid_avail_def)
next
  case (2 dqm a v dqm')
  from 2(3) have f: "find_free_vmid dqm = Some v"
    and d: "dqm' = dqm\<lparr>vmid_pasid := (vmid_pasid dqm)[v := ucast (pasid (fst a))]\<rparr>"
    by (auto simp: vmid_get_def allocate_vmid_def split: option.splits)
  from f obtain k where "k < length [first_vmid_kfd (dqm_dev dqm)..<Suc (last_vmid_kfd (dqm_dev dqm))]"
    "v = [first_vmid_kfd (dqm_dev dqm)..<Suc (last_vmid_kfd (dqm_dev dqm))] ! k" "vmid_pasid dqm ! v = 0"
    unfolding find_free_vmid_def find_Some_iff by auto
  then have v: "v \<in> vmid_avail dqm" by (auto simp: vmid_avail_def vmid_all_def simp del: upt_Suc)
  with 2(1,2) d show ?case
    by (auto simp: vmid_avail_def vmid_all_def vmid_wf_def nth_list_update split: if_splits)
next
  case (3 dqm v)
  then show ?case
    by (auto simp: vmid_put_def deallocate_vmid_def qpd_example_def vmid_avail_def vmid_all_def vmid_wf_def
        nth_list_update)
qed

section \<open>Giving back what was just taken\<close>

text \<open>The tables an operation can take from.\<close>

definition slot_tables :: "device_queue_manager \<Rightarrow> u32 list \<times> bitmap \<times> bitmap \<times> u16 list" where
  "slot_tables dqm = (allocated_queues dqm, sdma_bitmap dqm, xgmi_sdma_bitmap dqm, vmid_pasid dqm)"

lemma set_clear_bit: "test_bit b bm \<Longrightarrow> set_bit_at b (clear_bit_at b bm) = bm"
  by (simp add: set_bit_at_def clear_bit_at_def test_bit_def) (metis list_update_id)

lemma clear_set_bit: "\<not> test_bit b bm \<Longrightarrow> clear_bit_at b (set_bit_at b bm) = bm"
  by (cases "b < length bm") (auto simp: set_bit_at_def clear_bit_at_def test_bit_def list_update_beyond
      intro: list_update_same_conv [THEN iffD2])

lemma hqd_roundtrip:
  assumes "hqd_wf dqm" "allocate_hqd dqm q = (OK, dqm', q')" "pipe x = pipe q'" "queue_slot x = queue_slot q'"
  shows "slot_tables (deallocate_hqd dqm' x) = slot_tables dqm"
proof -
  obtain p where f: "find_hqd_pipe dqm (next_pipe_to_allocate dqm) (get_pipes_per_mec dqm) = Some p"
    using assms(2) by (auto simp: allocate_hqd_def split: option.splits)
  define b where "b = lowest_bit (allocated_queues dqm ! p)"
  have p: "p < length (allocated_queues dqm)" "allocated_queues dqm ! p \<noteq> 0"
    using find_hqd_pipe_Some [OF f] assms(1) by (auto simp: hqd_wf_def)
  have b: "bit (allocated_queues dqm ! p) b" using lowest_bit_set(2) [OF p(2)] by (simp add: b_def)
  have "(allocated_queues dqm ! p AND NOT (push_bit b 1)) OR push_bit b 1 = allocated_queues dqm ! p"
    using b by (intro bit_word_eqI) (auto simp: bit_simps)
  with p f assms(2-4) show ?thesis
    by (auto simp: allocate_hqd_def deallocate_hqd_def slot_tables_def Let_def b_def [symmetric])
qed

lemma sdma_roundtrip:
  assumes "sdma_wf KFD_QUEUE_TYPE_SDMA dqm" "sdma_wf KFD_QUEUE_TYPE_SDMA_XGMI dqm"
    and "allocate_sdma_queue dqm q r = (OK, dqm', q')" "sdma_id x = sdma_id q'"
    and "qtype (properties x) = qtype (properties q)"
  shows "slot_tables (deallocate_sdma_queue dqm' x) = slot_tables dqm"
proof -
  have t: "test_bit b (sdma_free ty dqm) \<and> b < sdma_count ty dqm"
    if "take_sdma_bit (sdma_free ty dqm) (sdma_count ty dqm) r = Inr b" "sdma_wf ty dqm" for b ty
    using take_sdma_bit_ok [OF that(1)] that(2) by (auto simp: sdma_wf_def bits_of_def)
  consider "qtype (properties q) = KFD_QUEUE_TYPE_SDMA" | "qtype (properties q) = KFD_QUEUE_TYPE_SDMA_XGMI"
    | "\<not> is_sdma_type (qtype (properties q))" by blast
  then show ?thesis
  proof cases
    case 1
    with assms t [of KFD_QUEUE_TYPE_SDMA, OF _ assms(1)] show ?thesis
      by (auto simp: allocate_sdma_queue_def deallocate_sdma_queue_def slot_tables_def sdma_free_def sdma_count_def
          set_clear_bit get_num_sdma_queues_def Let_def split: sum.splits)
  next
    case 2
    with assms t [of KFD_QUEUE_TYPE_SDMA_XGMI, OF _ assms(2)] show ?thesis
      by (auto simp: allocate_sdma_queue_def deallocate_sdma_queue_def slot_tables_def sdma_free_def sdma_count_def
          set_clear_bit get_num_xgmi_sdma_queues_def Let_def split: sum.splits)
  next
    case 3
    with assms show ?thesis by (auto simp: allocate_sdma_queue_def deallocate_sdma_queue_def Let_def)
  qed
qed

lemma vmid_roundtrip:
  assumes "allocate_vmid dqm qpd q = (OK, dqm', qpd', q')" "slot_tables dqm1 = slot_tables dqm'"
    and "qpd_vmid qpd1 = qpd_vmid qpd'"
  shows "slot_tables (fst (deallocate_vmid dqm1 qpd1 x)) = slot_tables dqm"
proof -
  from assms(1) obtain v where f: "find_free_vmid dqm = Some v"
    and d: "dqm' = dqm\<lparr>vmid_pasid := (vmid_pasid dqm)[v := ucast (pasid qpd)]\<rparr>" "qpd_vmid qpd' = v"
    by (auto simp: allocate_vmid_def split: option.splits)
  from f have "vmid_pasid dqm ! v = 0" by (auto simp: find_free_vmid_def find_Some_iff)
  then have "(vmid_pasid dqm)[v := 0] = vmid_pasid dqm" by (metis list_update_id)
  with assms(2,3) d show ?thesis by (auto simp: deallocate_vmid_def slot_tables_def)
qed

lemma doorbell_roundtrip:
  assumes "allocate_doorbell dqm qpd q None = (OK, qpd', q')" "doorbell_id x = doorbell_id q'"
    and "qtype (properties x) = qtype (properties q)" "dqm_dev dqm1 = dqm_dev dqm"
  shows "doorbell_bitmap (deallocate_doorbell dqm1 qpd' x) = doorbell_bitmap qpd"
proof -
  have "find_first_zero_bit bm n < n \<Longrightarrow> \<not> test_bit (find_first_zero_bit bm n) bm" for bm n
    using find_first_zero_bit_least by blast
  with assms show ?thesis
    by (auto simp: allocate_doorbell_def choose_doorbell_def deallocate_doorbell_def Let_def unat_of_nat
        clear_set_bit split: if_splits option.splits sum.splits prod.splits)
qed

section \<open>Properties\<close>

text \<open>
  C36. SDMA queues are exclusive: over any sequence of allocations (plain or restoring a given id, for either
  engine kind) and deallocations no id is held twice, no held id is marked free, and the ids held and
  free are together those free at the start.
\<close>

theorem sdma_queues_exclusive:
  assumes "ty = KFD_QUEUE_TYPE_SDMA \<or> ty = KFD_QUEUE_TYPE_SDMA_XGMI" and "sdma_wf ty dqm"
    and "pool_run (sdma_get ty) (sdma_put ty) ops (dqm, []) = (dqm', held)"
  shows "distinct held \<and> set held \<inter> bits_of (sdma_free ty dqm') = {} \<and>
    set held \<union> bits_of (sdma_free ty dqm') = bits_of (sdma_free ty dqm)"
  using resource_pool.accounting [OF sdma_pool assms(2) _ assms(3)] assms(1) by blast

text \<open>A manager as \<^verbatim>\<open>initialize_nocpsch\<close> leaves it.\<close>

definition dqm_fresh :: device_queue_manager where
  "dqm_fresh = snd (initialize_nocpsch True dqm_example)"

lemmas dqm_fresh_defs =
  dqm_fresh_def initialize_nocpsch_def init_sdma_bitmaps_def dqm_example_def node_example_def
  get_num_sdma_queues_def get_num_xgmi_sdma_queues_def kfd_get_num_sdma_engines_def
  kfd_get_num_xgmi_sdma_engines_def

lemma init_sdma_wf:
  assumes "get_num_sdma_queues dqm \<le> KFD_MAX_SDMA_QUEUES" "get_num_xgmi_sdma_queues dqm \<le> KFD_MAX_SDMA_QUEUES"
    "length (reserved_sdma_queues_bitmap (dqm_dev dqm)) = KFD_MAX_SDMA_QUEUES"
  shows "sdma_wf KFD_QUEUE_TYPE_SDMA (init_sdma_bitmaps dqm)"
    "sdma_wf KFD_QUEUE_TYPE_SDMA_XGMI (init_sdma_bitmaps dqm)"
  using assms
  by (auto simp: sdma_wf_def sdma_free_def sdma_count_def init_sdma_bitmaps_def bitmap_simps
      get_num_sdma_queues_def get_num_xgmi_sdma_queues_def)

lemma dqm_fresh_sdma_wf: "sdma_wf KFD_QUEUE_TYPE_SDMA dqm_fresh"
proof -
  obtain d where "dqm_fresh = init_sdma_bitmaps d" "dqm_dev d = node_example"
    by (auto simp: dqm_fresh_def initialize_nocpsch_def dqm_example_def)
  then show ?thesis
    using init_sdma_wf(1) [of d]
    by (simp add: get_num_sdma_queues_def get_num_xgmi_sdma_queues_def kfd_get_num_sdma_engines_def
        kfd_get_num_xgmi_sdma_engines_def node_example_def)
qed

theorem sdma_queues_exclusive_witness:
  "case pool_run (sdma_get KFD_QUEUE_TYPE_SDMA) (sdma_put KFD_QUEUE_TYPE_SDMA)
     [Take (queue_example 1 KFD_QUEUE_TYPE_SDMA False, None),
      Take (queue_example 2 KFD_QUEUE_TYPE_SDMA False, Some 3), Give 1] (dqm_fresh, []) of
   (dqm', held) \<Rightarrow> distinct held \<and> set held \<inter> bits_of (sdma_free KFD_QUEUE_TYPE_SDMA dqm') = {} \<and>
     set held \<union> bits_of (sdma_free KFD_QUEUE_TYPE_SDMA dqm') =
       bits_of (sdma_free KFD_QUEUE_TYPE_SDMA dqm_fresh)"
  by (rule case_prodI2) (erule sdma_queues_exclusive [OF disjI1 [OF refl] dqm_fresh_sdma_wf])

text \<open>
  Different SDMA queues drive different hardware queues: from the engine and queue number written into the
  properties one can read back the engine kind and the id, so two queues of a node with the same pair
  are the same SDMA queue.
\<close>

lemma allocate_sdma_queue_slot:
  assumes al: "allocate_sdma_queue dqm q r = (OK, dqm', q')" and ty: "is_sdma_type (qtype (properties q))"
    and wf: "sdma_wf (qtype (properties q)) dqm"
  defines "E \<equiv> kfd_get_num_sdma_engines (dqm_dev dqm)" and "X \<equiv> kfd_get_num_xgmi_sdma_engines (dqm_dev dqm)"
  assumes small: "E + X < 2 ^ 32"
  shows "qtype (properties q') = qtype (properties q)" "sdma_id q' < KFD_MAX_SDMA_QUEUES"
    "qtype (properties q) = KFD_QUEUE_TYPE_SDMA \<Longrightarrow>
       0 < E \<and> unat (sdma_engine_id (properties q')) = sdma_id q' mod E \<and>
       unat (sdma_queue_id (properties q')) = sdma_id q' div E"
    "qtype (properties q) \<noteq> KFD_QUEUE_TYPE_SDMA \<Longrightarrow>
       0 < X \<and> unat (sdma_engine_id (properties q')) = E + sdma_id q' mod X \<and>
       unat (sdma_queue_id (properties q')) = sdma_id q' div X"
proof -
  let ?ty = "qtype (properties q)"
  obtain b where b: "take_sdma_bit (sdma_free ?ty dqm) (sdma_count ?ty dqm) r = Inr b"
    and q: "sdma_id q' = b" "qtype (properties q') = ?ty"
    "?ty = KFD_QUEUE_TYPE_SDMA \<Longrightarrow> sdma_engine_id (properties q') = of_nat (b mod E) \<and>
       sdma_queue_id (properties q') = of_nat (b div E)"
    "?ty \<noteq> KFD_QUEUE_TYPE_SDMA \<Longrightarrow> sdma_engine_id (properties q') = of_nat (E + b mod X) \<and>
       sdma_queue_id (properties q') = of_nat (b div X)"
    using al ty
    by (auto simp: allocate_sdma_queue_def sdma_free_def sdma_count_def Let_def E_def X_def split: sum.splits)
  from wf take_sdma_bit_ok [OF b] have lt: "b < sdma_count ?ty dqm" "b < 128"
    by (auto simp: sdma_wf_def bits_of_def)
  show "qtype (properties q') = ?ty" "sdma_id q' < KFD_MAX_SDMA_QUEUES" using q lt by auto
  have d: "unat (of_nat (b div n) :: u32) = b div n" for n
  proof (rule unat_of_nat_small)
    have "b div n < 128" by (rule le_less_trans [OF div_le_dividend lt(2)])
    then show "b div n < 2 ^ LENGTH(32)" by simp
  qed
  show "0 < E \<and> unat (sdma_engine_id (properties q')) = sdma_id q' mod E \<and>
      unat (sdma_queue_id (properties q')) = sdma_id q' div E" if t: "?ty = KFD_QUEUE_TYPE_SDMA"
  proof -
    have "0 < E" using lt(1) t by (auto simp: sdma_count_def get_num_sdma_queues_def E_def intro: gr0I)
    then have "b mod E < E" by simp
    then have "unat (of_nat (b mod E) :: u32) = b mod E" using small by (intro unat_of_nat_small) simp
    with \<open>0 < E\<close> q(1) q(3) [OF t] d show ?thesis by simp
  qed
  show "0 < X \<and> unat (sdma_engine_id (properties q')) = E + sdma_id q' mod X \<and>
      unat (sdma_queue_id (properties q')) = sdma_id q' div X" if t: "?ty \<noteq> KFD_QUEUE_TYPE_SDMA"
  proof -
    have "0 < X" using lt(1) t by (auto simp: sdma_count_def get_num_xgmi_sdma_queues_def X_def intro: gr0I)
    then have "b mod X < X" by simp
    then have "unat (of_nat (E + b mod X) :: u32) = E + b mod X"
      using small by (intro unat_of_nat_small) simp
    with \<open>0 < X\<close> q(1) q(4) [OF t] d show ?thesis by simp
  qed
qed

theorem sdma_hardware_slots_distinct:
  assumes "allocate_sdma_queue dqm1 q1 r1 = (OK, dqm1', q1')" "allocate_sdma_queue dqm2 q2 r2 = (OK, dqm2', q2')"
    and "qtype (properties q1) = KFD_QUEUE_TYPE_SDMA \<or> qtype (properties q1) = KFD_QUEUE_TYPE_SDMA_XGMI"
    and "qtype (properties q2) = KFD_QUEUE_TYPE_SDMA \<or> qtype (properties q2) = KFD_QUEUE_TYPE_SDMA_XGMI"
    and "sdma_wf (qtype (properties q1)) dqm1" and "sdma_wf (qtype (properties q2)) dqm2"
    and "dqm_dev dqm1 = dqm_dev dqm2" and "get_num_all_sdma_engines dqm1 < 2 ^ 32"
    and "sdma_engine_id (properties q1') = sdma_engine_id (properties q2')"
    and "sdma_queue_id (properties q1') = sdma_queue_id (properties q2')"
  shows "qtype (properties q1') = qtype (properties q2') \<and> sdma_id q1' = sdma_id q2'"
proof -
  let ?E = "kfd_get_num_sdma_engines (dqm_dev dqm2)" and ?X = "kfd_get_num_xgmi_sdma_engines (dqm_dev dqm2)"
  have s: "?E + ?X < 2 ^ 32" using assms(7,8) by (simp add: get_num_all_sdma_engines_def)
  note a1 = allocate_sdma_queue_slot [OF assms(1,3,5), unfolded assms(7), OF s]
  note a2 = allocate_sdma_queue_slot [OF assms(2,4,6) s]
  have same: "a = b" if "a mod n = b mod n" "a div n = b div n" for a b n :: nat
    using that by (metis div_mult_mod_eq)
  show ?thesis
  proof (cases "qtype (properties q1) = KFD_QUEUE_TYPE_SDMA")
    case True
    note x1 = a1(3) [OF True]
    have True2: "qtype (properties q2) = KFD_QUEUE_TYPE_SDMA"
    proof (rule ccontr)
      assume "qtype (properties q2) \<noteq> KFD_QUEUE_TYPE_SDMA"
      then have "?E \<le> unat (sdma_engine_id (properties q2'))" using a2(4) by simp
      moreover have "unat (sdma_engine_id (properties q1')) < ?E" using x1 by simp
      ultimately show False using assms(9) by simp
    qed
    have "sdma_id q1' = sdma_id q2'"
    proof (rule same)
      show "sdma_id q1' mod ?E = sdma_id q2' mod ?E" "sdma_id q1' div ?E = sdma_id q2' div ?E"
        using x1 a2(3) [OF True2] assms(9,10) by metis+
    qed
    with True True2 a1(1) a2(1) show ?thesis by simp
  next
    case False
    note x1 = a1(4) [OF False]
    have False2: "qtype (properties q2) \<noteq> KFD_QUEUE_TYPE_SDMA"
    proof
      assume "qtype (properties q2) = KFD_QUEUE_TYPE_SDMA"
      then have "unat (sdma_engine_id (properties q2')) < ?E" using a2(3) by simp
      moreover have "?E \<le> unat (sdma_engine_id (properties q1'))" using x1 by simp
      ultimately show False using assms(9) by simp
    qed
    have "sdma_id q1' = sdma_id q2'"
    proof (rule same)
      show "sdma_id q1' mod ?X = sdma_id q2' mod ?X" "sdma_id q1' div ?X = sdma_id q2' div ?X"
        using x1 a2(4) [OF False2] assms(9,10) by (metis add_left_imp_eq)+
    qed
    with False False2 a1(1) a2(1) assms(3,4) show ?thesis by auto
  qed
qed

lemma dqm_fresh_allocs:
  "fst (allocate_sdma_queue dqm_fresh (queue_example 1 KFD_QUEUE_TYPE_SDMA False) None) = OK"
  "fst (allocate_sdma_queue dqm_fresh (queue_example 2 KFD_QUEUE_TYPE_SDMA False) (Some 0)) = OK"
  "sdma_engine_id (properties (snd (snd (allocate_sdma_queue dqm_fresh
     (queue_example 1 KFD_QUEUE_TYPE_SDMA False) None)))) = 0"
  "sdma_engine_id (properties (snd (snd (allocate_sdma_queue dqm_fresh
     (queue_example 2 KFD_QUEUE_TYPE_SDMA False) (Some 0))))) = 0"
  "sdma_queue_id (properties (snd (snd (allocate_sdma_queue dqm_fresh
     (queue_example 1 KFD_QUEUE_TYPE_SDMA False) None)))) = 0"
  "sdma_queue_id (properties (snd (snd (allocate_sdma_queue dqm_fresh
     (queue_example 2 KFD_QUEUE_TYPE_SDMA False) (Some 0))))) = 0"
  by code_simp+

theorem sdma_hardware_slots_distinct_witness:
  "sdma_id (snd (snd (allocate_sdma_queue dqm_fresh (queue_example 1 KFD_QUEUE_TYPE_SDMA False) None))) =
   sdma_id (snd (snd (allocate_sdma_queue dqm_fresh (queue_example 2 KFD_QUEUE_TYPE_SDMA False) (Some 0))))"
proof -
  let ?q1 = "queue_example 1 KFD_QUEUE_TYPE_SDMA False" and ?q2 = "queue_example 2 KFD_QUEUE_TYPE_SDMA False"
  obtain d1 q1 where 1: "allocate_sdma_queue dqm_fresh ?q1 None = (OK, d1, q1)"
    using dqm_fresh_allocs(1) by (metis fst_conv prod.exhaust)
  obtain d2 q2 where 2: "allocate_sdma_queue dqm_fresh ?q2 (Some 0) = (OK, d2, q2)"
    using dqm_fresh_allocs(2) by (metis fst_conv prod.exhaust)
  have t: "qtype (properties (queue_example a ty b)) = ty" for a ty b
    by (simp add: queue_example_def zero_properties_def)
  have n: "get_num_all_sdma_engines dqm_fresh < 2 ^ 32"
    by (simp add: get_num_all_sdma_engines_def dqm_fresh_defs)
  from sdma_hardware_slots_distinct [OF 1 2 _ _ _ _ refl n] dqm_fresh_allocs 1 2 dqm_fresh_sdma_wf
  show ?thesis by (simp add: t)
qed

text \<open>
  Hardware queue slots are exclusive, and none is refused while one is free: over any sequence of
  allocations and deallocations the held slots are distinct and together with the free ones make up those
  free at the start; and \<^verbatim>\<open>allocate_hqd\<close> fails only if no enabled pipe has a free slot.
\<close>

theorem hqd_slots_exclusive:
  assumes "hqd_wf dqm" and "pool_run hqd_get hqd_put ops (dqm, []) = (dqm', held)"
  shows "distinct held \<and> set held \<inter> hqd_avail dqm' = {} \<and> set held \<union> hqd_avail dqm' = hqd_avail dqm \<and>
    (\<forall>q. fst (allocate_hqd dqm' q) = OK \<longleftrightarrow>
         (\<exists>p < get_pipes_per_mec dqm'. is_pipe_enabled dqm' 0 p \<and> allocated_queues dqm' ! p \<noteq> 0))"
proof -
  have wf: "hqd_wf dqm'"
    using hqd.balanced_run [of "hqd_avail dqm" "(dqm, [])" ops] assms hqd.avail_all [OF assms(1)]
    by (auto simp: hqd.balanced_def)
  have "fst (allocate_hqd dqm' q) = OK \<longleftrightarrow>
      (\<exists>p < get_pipes_per_mec dqm'. is_pipe_enabled dqm' 0 p \<and> allocated_queues dqm' ! p \<noteq> 0)" for q
  proof
    assume "fst (allocate_hqd dqm' q) = OK"
    then obtain p where
      "find_hqd_pipe dqm' (next_pipe_to_allocate dqm') (get_pipes_per_mec dqm') = Some p"
      by (auto simp: allocate_hqd_def split: option.splits)
    with wf show "\<exists>p < get_pipes_per_mec dqm'. is_pipe_enabled dqm' 0 p \<and> allocated_queues dqm' ! p \<noteq> 0"
      by (auto dest: find_hqd_pipe_Some simp: hqd_wf_def)
  qed (use allocate_hqd_fails [OF wf] in blast)
  with hqd.accounting [OF assms(1) _ assms(2)] show ?thesis by auto
qed

lemma dqm_fresh_hqd_wf: "hqd_wf dqm_fresh"
  by (simp add: hqd_wf_def get_pipes_per_mec_def dqm_fresh_defs)

theorem hqd_slots_exclusive_witness:
  "case pool_run hqd_get hqd_put [Take (queue_example 1 KFD_QUEUE_TYPE_COMPUTE False),
     Take (queue_example 2 KFD_QUEUE_TYPE_COMPUTE False), Give 0] (dqm_fresh, []) of
   (dqm', held) \<Rightarrow> distinct held \<and> set held \<inter> hqd_avail dqm' = {} \<and>
     set held \<union> hqd_avail dqm' = hqd_avail dqm_fresh \<and>
     (\<forall>q. fst (allocate_hqd dqm' q) = OK \<longleftrightarrow>
         (\<exists>p < get_pipes_per_mec dqm'. is_pipe_enabled dqm' 0 p \<and> allocated_queues dqm' ! p \<noteq> 0))"
  by (rule case_prodI2) (erule hqd_slots_exclusive [OF dqm_fresh_hqd_wf])

text \<open>
  VMIDs are exclusive: as long as no PASID vanishes in the 16-bit table, no VMID is held by two processes
  over any sequence of allocations and deallocations, and none gets lost.
\<close>

theorem vmids_exclusive:
  assumes "vmid_wf dqm" and "\<forall>qpd q. Take (qpd, q) \<in> set ops \<longrightarrow> (ucast (pasid qpd) :: u16) \<noteq> 0"
    and "pool_run vmid_get vmid_put ops (dqm, []) = (dqm', held)"
  shows "distinct held \<and> set held \<inter> vmid_avail dqm' = {} \<and> set held \<union> vmid_avail dqm' = vmid_avail dqm"
  using vmid.accounting [OF assms(1) _ assms(3)] assms(2) by auto

theorem vmids_exclusive_witness:
  "case pool_run vmid_get vmid_put
     [Take (qpd_example 1 0x8001 [], queue_example 1 KFD_QUEUE_TYPE_COMPUTE False),
      Take (qpd_example 2 0x8002 [], queue_example 2 KFD_QUEUE_TYPE_COMPUTE False)] (dqm_fresh, []) of
   (dqm', held) \<Rightarrow> distinct held \<and> set held \<inter> vmid_avail dqm' = {} \<and>
     set held \<union> vmid_avail dqm' = vmid_avail dqm_fresh"
proof (rule case_prodI2, erule vmids_exclusive [rotated 2])
  show "vmid_wf dqm_fresh" by (simp add: vmid_wf_def dqm_fresh_defs)
qed (simp add: qpd_example_def)

text \<open>
  Process doorbells are exclusive: over any sequence of allocations for CP queues (plain or restoring a
  given id) and deallocations, no doorbell is held twice and the doorbells reserved for other engines,
  which are set in the bitmap from the start, are never handed out.
\<close>

theorem process_doorbells_exclusive:
  assumes "db_wf s" and "\<forall>q r. Take (q, r) \<in> set ops \<longrightarrow> qtype (properties q) = KFD_QUEUE_TYPE_COMPUTE"
    and "pool_run db_get db_put ops (s, []) = (s', held)"
  shows "distinct held \<and> set held \<inter> db_avail s' = {} \<and> set held \<union> db_avail s' = db_avail s \<and>
    (\<forall>i. test_bit i (db_bitmap s) \<longrightarrow> i \<notin> set held)"
proof -
  have v: "\<forall>a. Take a \<in> set ops \<longrightarrow> \<not> is_sdma_type (qtype (properties (fst a)))"
    using assms(2) by (metis kfd_queue_type.distinct(1,7) prod.collapse)
  from db.accounting [OF assms(1) v assms(3)] show ?thesis
    by (auto simp: db_avail_def)
qed

definition qpd_with_doorbells :: qcm_process_device where
  "qpd_with_doorbells =
     (qpd_example 1 0x8001 [])\<lparr>doorbell_bitmap := Some (bitmap_set 4 3 (bitmap_zalloc 1024)),
        proc_doorbells := Some 0x4000\<rparr>"

theorem process_doorbells_exclusive_witness:
  "case pool_run db_get db_put [Take (queue_example 1 KFD_QUEUE_TYPE_COMPUTE False, None),
      Take (queue_example 2 KFD_QUEUE_TYPE_COMPUTE False, Some 7), Give 0]
      ((dqm_example, qpd_with_doorbells), []) of
   (s', held) \<Rightarrow> distinct held \<and> set held \<inter> db_avail s' = {} \<and>
     set held \<union> db_avail s' = db_avail (dqm_example, qpd_with_doorbells) \<and>
     (\<forall>i. test_bit i (db_bitmap (dqm_example, qpd_with_doorbells)) \<longrightarrow> i \<notin> set held)"
proof (rule case_prodI2, erule process_doorbells_exclusive [rotated 2])
  show "db_wf (dqm_example, qpd_with_doorbells)"
    by (simp add: db_wf_def db_bitmap_def qpd_with_doorbells_def qpd_example_def dqm_example_def
        node_example_def doorbell_example_def)
qed (auto simp: queue_example_def zero_properties_def)

text \<open>
  Restoring a checkpointed queue trusts the id it is given: a doorbell id beyond the bitmap of the process, or
  an SDMA id beyond the SDMA bitmaps, is used as an index without a check.
\<close>

theorem restore_ids_unchecked:
  assumes "db_wf (dqm, qpd)" and "qtype (properties q) = KFD_QUEUE_TYPE_COMPUTE" and "unat rid \<ge> 1024"
    and "qtype (properties q') = KFD_QUEUE_TYPE_SDMA" and "\<not> bitmap_empty (sdma_bitmap dqm)"
  shows "fst (allocate_doorbell dqm qpd q (Some rid)) = Err OOPS \<and>
    fst (allocate_sdma_queue dqm q' (Some rid)) = Err OOPS"
  using assms
  by (auto simp: allocate_doorbell_def choose_doorbell_def db_wf_def db_bitmap_def
      allocate_sdma_queue_def take_sdma_bit_def Let_def)

theorem restore_ids_unchecked_witness:
  "fst (allocate_doorbell (dqm_example\<lparr>sdma_bitmap := [True]\<rparr>) qpd_with_doorbells
      (queue_example 1 KFD_QUEUE_TYPE_COMPUTE False) (Some 5000)) = Err OOPS"
proof -
  have "db_wf (dqm_example\<lparr>sdma_bitmap := [True]\<rparr>, qpd_with_doorbells)"
    by (simp add: db_wf_def db_bitmap_def qpd_with_doorbells_def qpd_example_def dqm_example_def
        node_example_def doorbell_example_def)
  from restore_ids_unchecked [OF this, of "queue_example 1 KFD_QUEUE_TYPE_COMPUTE False" 5000
      "queue_example 2 KFD_QUEUE_TYPE_SDMA False"]
  show ?thesis by (simp add: queue_example_def zero_properties_def bitmap_empty_def)
qed

end
