(* ===== verification/Dqm_Asic.thy ===== *)
theory Dqm_Asic
  imports Packet_Manager
begin

text \<open>
  The operations that depend on the hardware generation
  (\<^verbatim>\<open>kfd/kfd_device_queue_manager_{cik,vi,v9,v10,v11}.c\<close>): how the memory apertures of a process are
  encoded in its \<^verbatim>\<open>SH_MEM\<close> registers. \<open>asic_ops_for\<close> is the selection made by \<^verbatim>\<open>device_queue_manager_init\<close>.
\<close>

datatype cache_policy = cache_policy_coherent | cache_policy_noncoherent

text \<open>\<^verbatim>\<open>KFD_SUPPORT_XNACK_PER_PROCESS\<close>\<close>

definition KFD_SUPPORT_XNACK_PER_PROCESS :: "kfd_node \<Rightarrow> bool" where
  "KFD_SUPPORT_XNACK_PER_PROCESS node \<longleftrightarrow>
     gc_version node = IP_VERSION 9 4 2 \<or> gc_version node = IP_VERSION 9 4 3"

definition get_sh_mem_bases_nybble_64 :: "qcm_process_device \<Rightarrow> u32" where
  "get_sh_mem_bases_nybble_64 pdd = ucast (drop_bit 60 (lds_base pdd) AND 0x0E)"

text \<open>A table of operations (\<^verbatim>\<open>struct device_queue_manager_asic_ops\<close>).\<close>

record asic_ops =
  ao_set_cache_memory_policy ::
    "device_queue_manager \<Rightarrow> qcm_process_device \<Rightarrow> cache_policy \<Rightarrow> cache_policy \<Rightarrow> u64 \<Rightarrow> u64 \<Rightarrow>
     bool \<times> qcm_process_device"
  ao_update_qpd :: "device_queue_manager \<Rightarrow> qcm_process_device \<Rightarrow> retval \<times> qcm_process_device"
  ao_init_sdma_vm :: "device_queue_manager \<Rightarrow> queue \<Rightarrow> qcm_process_device \<Rightarrow> queue"

section \<open>CIK and VI\<close>

definition APE1_FIXED_BITS_MASK :: u64 where
  "APE1_FIXED_BITS_MASK = 0xFFFF80000000FFFF"

definition APE1_LIMIT_ALIGNMENT :: u64 where
  "APE1_LIMIT_ALIGNMENT = 0xFFFF"

definition compute_sh_mem_bases_cik :: "u32 \<Rightarrow> u32" where
  "compute_sh_mem_bases_cik top_address_nybble =
     push_bit 12 top_address_nybble OR push_bit 16 (push_bit 12 top_address_nybble)"

text \<open>The checks and the aperture registers, which both generations write in the same way.\<close>

definition set_ape1 :: "qcm_process_device \<Rightarrow> u64 \<Rightarrow> u64 \<Rightarrow> qcm_process_device option" where
  "set_ape1 qpd base asize =
     (if asize = 0 then Some (qpd\<lparr>sh_mem_ape1_base := 1, sh_mem_ape1_limit := 0\<rparr>)
      else let limit = base + asize - 1 in
        if limit \<le> base \<or> base AND APE1_FIXED_BITS_MASK \<noteq> 0 \<or>
           limit AND APE1_FIXED_BITS_MASK \<noteq> APE1_LIMIT_ALIGNMENT
        then None
        else Some (qpd\<lparr>sh_mem_ape1_base := ucast (drop_bit 16 base),
                       sh_mem_ape1_limit := ucast (drop_bit 16 limit)\<rparr>))"

text \<open>\<^verbatim>\<open>MTYPE_NONCACHED\<close> is 3 and \<^verbatim>\<open>MTYPE_CACHED\<close> is 1 in \<^verbatim>\<open>cik_regs.h\<close>.\<close>

definition set_cache_memory_policy_cik ::
    "device_queue_manager \<Rightarrow> qcm_process_device \<Rightarrow> cache_policy \<Rightarrow> cache_policy \<Rightarrow> u64 \<Rightarrow> u64 \<Rightarrow>
     bool \<times> qcm_process_device" where
  "set_cache_memory_policy_cik dqm qpd default_policy alternate_policy base asize =
     (case set_ape1 qpd base asize of
        None \<Rightarrow> (False, qpd)
      | Some qpd1 \<Rightarrow>
          let default_mtype = (if default_policy = cache_policy_coherent then 3 else 1);
              ape1_mtype = (if alternate_policy = cache_policy_coherent then 3 else 1) in
          (True, qpd1\<lparr>sh_mem_config := (sh_mem_config qpd1 AND 1) OR push_bit 2 3 OR
                         push_bit 4 default_mtype OR push_bit 7 ape1_mtype,
                      sh_mem_bases := compute_sh_mem_bases_cik (get_sh_mem_bases_nybble_64 qpd1)\<rparr>))"

definition update_qpd_cik :: "device_queue_manager \<Rightarrow> qcm_process_device \<Rightarrow> retval \<times> qcm_process_device" where
  "update_qpd_cik dqm qpd = (OK, qpd)"

definition init_sdma_vm :: "device_queue_manager \<Rightarrow> queue \<Rightarrow> qcm_process_device \<Rightarrow> queue" where
  "init_sdma_vm dqm q qpd =
     q\<lparr>properties := (properties q)\<lparr>sdma_vm_addr :=
         push_bit (SDMA_SHARED_BASE_SHIFT (sh_regs (dqm_dev dqm))) (get_sh_mem_bases_nybble_64 qpd) AND
         SDMA_SHARED_BASE_MASK (sh_regs (dqm_dev dqm))\<rparr>\<rparr>"

definition compute_sh_mem_bases_vi :: "sh_mem_regs \<Rightarrow> u32 \<Rightarrow> u32" where
  "compute_sh_mem_bases_vi R top_address_nybble =
     push_bit 12 top_address_nybble OR push_bit (SHARED_BASE_SHIFT R) (push_bit 12 top_address_nybble)"

definition set_cache_memory_policy_vi ::
    "device_queue_manager \<Rightarrow> qcm_process_device \<Rightarrow> cache_policy \<Rightarrow> cache_policy \<Rightarrow> u64 \<Rightarrow> u64 \<Rightarrow>
     bool \<times> qcm_process_device" where
  "set_cache_memory_policy_vi dqm qpd default_policy alternate_policy base asize =
     (let R = sh_regs (dqm_dev dqm) in
      case set_ape1 qpd base asize of
        None \<Rightarrow> (False, qpd)
      | Some qpd1 \<Rightarrow>
          let default_mtype = (if default_policy = cache_policy_coherent then MTYPE_UC R else MTYPE_NC R);
              ape1_mtype = (if alternate_policy = cache_policy_coherent then MTYPE_UC R else MTYPE_NC R) in
          (True, qpd1\<lparr>sh_mem_config := push_bit (ALIGNMENT_MODE_SHIFT R) (MODE_UNALIGNED R) OR
                         push_bit (DEFAULT_MTYPE_SHIFT R) default_mtype OR
                         push_bit (APE1_MTYPE_SHIFT R) ape1_mtype,
                      sh_mem_bases := compute_sh_mem_bases_vi R (get_sh_mem_bases_nybble_64 qpd1)\<rparr>))"

definition update_qpd_vi :: "device_queue_manager \<Rightarrow> qcm_process_device \<Rightarrow> retval \<times> qcm_process_device" where
  "update_qpd_vi dqm qpd = (OK, qpd)"

section \<open>Version 9 and later\<close>

definition compute_sh_mem_bases_64bit :: "sh_mem_regs \<Rightarrow> qcm_process_device \<Rightarrow> u32" where
  "compute_sh_mem_bases_64bit R pdd =
     (let shared_base = ucast (drop_bit 48 (lds_base pdd)) :: u32;
          private_base = ucast (drop_bit 48 (scratch_base pdd)) :: u32
      in push_bit (SHARED_BASE_SHIFT R) shared_base OR private_base)"

text \<open>The initial configuration; \<open>f8\<close> is whether the F8 mode bit is set.\<close>

definition sh_mem_config_v9 :: "kfd_node \<Rightarrow> bool \<Rightarrow> u32" where
  "sh_mem_config_v9 node f8 =
     (let R = sh_regs node;
          c1 = push_bit (ALIGNMENT_MODE_SHIFT R) (MODE_UNALIGNED R);
          c2 = (if noretry node then c1 OR push_bit (RETRY_DISABLE_SHIFT R) 1 else c1)
      in if f8 then c2 OR push_bit (F8_MODE_SHIFT R) 1 else c2)"

definition set_cache_memory_policy_v9 ::
    "device_queue_manager \<Rightarrow> qcm_process_device \<Rightarrow> cache_policy \<Rightarrow> cache_policy \<Rightarrow> u64 \<Rightarrow> u64 \<Rightarrow>
     bool \<times> qcm_process_device" where
  "set_cache_memory_policy_v9 dqm qpd default_policy alternate_policy base asize =
     (True, qpd\<lparr>sh_mem_config := sh_mem_config_v9 (dqm_dev dqm)
                    (gc_version (dqm_dev dqm) = IP_VERSION 9 4 3 \<or> gc_version (dqm_dev dqm) = IP_VERSION 9 4 4),
                sh_mem_ape1_limit := 0, sh_mem_ape1_base := 0,
                sh_mem_bases := compute_sh_mem_bases_64bit (sh_regs (dqm_dev dqm)) qpd\<rparr>)"

definition update_qpd_v9 :: "device_queue_manager \<Rightarrow> qcm_process_device \<Rightarrow> retval \<times> qcm_process_device" where
  "update_qpd_v9 dqm qpd =
     (let node = dqm_dev dqm;
          retry = push_bit (RETRY_DISABLE_SHIFT (sh_regs node)) (1::u32);
          qpd1 = (if sh_mem_config qpd = 0
                  then qpd\<lparr>sh_mem_config := sh_mem_config_v9 node (gc_version node = IP_VERSION 9 4 3),
                           sh_mem_ape1_limit := 0, sh_mem_ape1_base := 0\<rparr>
                  else qpd);
          qpd2 = (if KFD_SUPPORT_XNACK_PER_PROCESS node
                  then if \<not> xnack_enabled qpd1 then qpd1\<lparr>sh_mem_config := sh_mem_config qpd1 OR retry\<rparr>
                       else qpd1\<lparr>sh_mem_config := sh_mem_config qpd1 AND NOT retry\<rparr>
                  else qpd1)
      in (OK, qpd2\<lparr>sh_mem_bases := compute_sh_mem_bases_64bit (sh_regs node) qpd2\<rparr>))"

definition init_sdma_vm_v9 :: "device_queue_manager \<Rightarrow> queue \<Rightarrow> qcm_process_device \<Rightarrow> queue" where
  "init_sdma_vm_v9 dqm q qpd = q\<lparr>properties := (properties q)\<lparr>sdma_vm_addr := 0\<rparr>\<rparr>"

text \<open>\<^verbatim>\<open>set_cache_memory_policy_v10\<close> and \<^verbatim>\<open>_v11\<close> have the same text.\<close>

definition set_cache_memory_policy_v10 ::
    "device_queue_manager \<Rightarrow> qcm_process_device \<Rightarrow> cache_policy \<Rightarrow> cache_policy \<Rightarrow> u64 \<Rightarrow> u64 \<Rightarrow>
     bool \<times> qcm_process_device" where
  "set_cache_memory_policy_v10 dqm qpd default_policy alternate_policy base asize =
     (let R = sh_regs (dqm_dev dqm) in
      (True, qpd\<lparr>sh_mem_config := push_bit (ALIGNMENT_MODE_SHIFT R) (MODE_UNALIGNED R) OR
                    push_bit (INITIAL_INST_PREFETCH_SHIFT R) 3,
                 sh_mem_ape1_limit := 0, sh_mem_ape1_base := 0,
                 sh_mem_bases := compute_sh_mem_bases_64bit R qpd\<rparr>))"

definition set_cache_memory_policy_v11 ::
    "device_queue_manager \<Rightarrow> qcm_process_device \<Rightarrow> cache_policy \<Rightarrow> cache_policy \<Rightarrow> u64 \<Rightarrow> u64 \<Rightarrow>
     bool \<times> qcm_process_device" where
  "set_cache_memory_policy_v11 dqm qpd default_policy alternate_policy base asize =
     (let R = sh_regs (dqm_dev dqm) in
      (True, qpd\<lparr>sh_mem_config := push_bit (ALIGNMENT_MODE_SHIFT R) (MODE_UNALIGNED R) OR
                    push_bit (INITIAL_INST_PREFETCH_SHIFT R) 3,
                 sh_mem_ape1_limit := 0, sh_mem_ape1_base := 0,
                 sh_mem_bases := compute_sh_mem_bases_64bit R qpd\<rparr>))"

definition update_qpd_v10 :: "device_queue_manager \<Rightarrow> qcm_process_device \<Rightarrow> retval \<times> qcm_process_device" where
  "update_qpd_v10 dqm qpd = (OK, qpd)"

definition update_qpd_v11 :: "device_queue_manager \<Rightarrow> qcm_process_device \<Rightarrow> retval \<times> qcm_process_device" where
  "update_qpd_v11 dqm qpd = (OK, qpd)"

definition init_sdma_vm_v10 :: "device_queue_manager \<Rightarrow> queue \<Rightarrow> qcm_process_device \<Rightarrow> queue" where
  "init_sdma_vm_v10 dqm q qpd = q\<lparr>properties := (properties q)\<lparr>sdma_vm_addr := 0\<rparr>\<rparr>"

definition init_sdma_vm_v11 :: "device_queue_manager \<Rightarrow> queue \<Rightarrow> qcm_process_device \<Rightarrow> queue" where
  "init_sdma_vm_v11 dqm q qpd = q\<lparr>properties := (properties q)\<lparr>sdma_vm_addr := 0\<rparr>\<rparr>"

section \<open>Selection\<close>

definition device_queue_manager_init_cik :: asic_ops where
  "device_queue_manager_init_cik =
     \<lparr>ao_set_cache_memory_policy = set_cache_memory_policy_cik, ao_update_qpd = update_qpd_cik,
      ao_init_sdma_vm = init_sdma_vm\<rparr>"

definition device_queue_manager_init_vi :: asic_ops where
  "device_queue_manager_init_vi =
     \<lparr>ao_set_cache_memory_policy = set_cache_memory_policy_vi, ao_update_qpd = update_qpd_vi,
      ao_init_sdma_vm = init_sdma_vm\<rparr>"

definition device_queue_manager_init_v9 :: asic_ops where
  "device_queue_manager_init_v9 =
     \<lparr>ao_set_cache_memory_policy = set_cache_memory_policy_v9, ao_update_qpd = update_qpd_v9,
      ao_init_sdma_vm = init_sdma_vm_v9\<rparr>"

definition device_queue_manager_init_v10 :: asic_ops where
  "device_queue_manager_init_v10 =
     \<lparr>ao_set_cache_memory_policy = set_cache_memory_policy_v10, ao_update_qpd = update_qpd_v10,
      ao_init_sdma_vm = init_sdma_vm_v10\<rparr>"

definition device_queue_manager_init_v11 :: asic_ops where
  "device_queue_manager_init_v11 =
     \<lparr>ao_set_cache_memory_policy = set_cache_memory_policy_v11, ao_update_qpd = update_qpd_v11,
      ao_init_sdma_vm = init_sdma_vm_v11\<rparr>"

definition asic_ops_for :: "kfd_node \<Rightarrow> asic_ops option" where
  "asic_ops_for node =
     (if asic_type node \<in> {CHIP_KAVERI, CHIP_HAWAII} then Some device_queue_manager_init_cik
      else if asic_type node \<noteq> CHIP_OTHER then Some device_queue_manager_init_vi
      else if gc_version node \<ge> IP_VERSION 11 0 0 then Some device_queue_manager_init_v11
      else if gc_version node \<ge> IP_VERSION 10 1 1 then Some device_queue_manager_init_v10
      else if gc_version node \<ge> IP_VERSION 9 0 1 then Some device_queue_manager_init_v9
      else None)"

text \<open>
  The operations of the manager that call through the table. A manager exists only if
  \<^verbatim>\<open>device_queue_manager_init\<close> found a table; without one the call is through a null pointer.
\<close>

definition update_qpd :: "device_queue_manager \<Rightarrow> qcm_process_device \<Rightarrow> retval \<times> qcm_process_device" where
  "update_qpd dqm qpd =
     (case asic_ops_for (dqm_dev dqm) of None \<Rightarrow> (Err OOPS, qpd) | Some A \<Rightarrow> ao_update_qpd A dqm qpd)"

definition asic_init_sdma_vm :: "device_queue_manager \<Rightarrow> queue \<Rightarrow> qcm_process_device \<Rightarrow> queue" where
  "asic_init_sdma_vm dqm q qpd =
     (case asic_ops_for (dqm_dev dqm) of None \<Rightarrow> q | Some A \<Rightarrow> ao_init_sdma_vm A dqm q qpd)"

text \<open>
  \<^verbatim>\<open>set_cache_memory_policy\<close>. The last component is whether the registers of the process' VMID were programmed
  (\<^verbatim>\<open>program_sh_mem_settings\<close>), and with which values.
\<close>

definition sh_mem_settings :: "qcm_process_device \<Rightarrow> nat \<times> u32 \<times> u32 \<times> u32 \<times> u32" where
  "sh_mem_settings qpd =
     (qpd_vmid qpd, sh_mem_config qpd, sh_mem_ape1_base qpd, sh_mem_ape1_limit qpd, sh_mem_bases qpd)"

definition set_cache_memory_policy ::
    "device_queue_manager \<Rightarrow> qcm_process_device \<Rightarrow> cache_policy \<Rightarrow> cache_policy \<Rightarrow> u64 \<Rightarrow> u64 \<Rightarrow>
     bool \<times> qcm_process_device \<times> (nat \<times> u32 \<times> u32 \<times> u32 \<times> u32) option" where
  "set_cache_memory_policy dqm qpd default_policy alternate_policy base asize =
     (case asic_ops_for (dqm_dev dqm) of
        None \<Rightarrow> (True, qpd, None)
      | Some A \<Rightarrow>
          (case ao_set_cache_memory_policy A dqm qpd default_policy alternate_policy base asize of
             (True, qpd1) \<Rightarrow> (True, qpd1, None)
           | (False, qpd1) \<Rightarrow>
               (False, qpd1,
                if sched_policy dqm = KFD_SCHED_POLICY_NO_HWS \<and> qpd_vmid qpd1 \<noteq> 0
                then Some (sh_mem_settings qpd1) else None)))"

section \<open>The alternate aperture\<close>

lemma bit_APE1_FIXED_BITS_MASK: "bit APE1_FIXED_BITS_MASK n \<longleftrightarrow> n < 16 \<or> 47 \<le> n \<and> n < 64"
proof -
  have m: "APE1_FIXED_BITS_MASK = NOT (push_bit 16 (mask 31))" by (simp add: APE1_FIXED_BITS_MASK_def mask_eq_exp_minus_1)
  show ?thesis unfolding m by (auto simp: bit_simps)
qed

lemma bit_APE1_LIMIT_ALIGNMENT: "bit APE1_LIMIT_ALIGNMENT n \<longleftrightarrow> n < 16"
proof -
  have m: "APE1_LIMIT_ALIGNMENT = mask 16" by (simp add: APE1_LIMIT_ALIGNMENT_def mask_eq_exp_minus_1)
  show ?thesis unfolding m by (auto simp: bit_simps)
qed

text \<open>The address range the two registers stand for, as the comment in the source gives it.\<close>

definition ape1_base_addr :: "u32 \<Rightarrow> u64" where
  "ape1_base_addr b = push_bit 16 (ucast b)"

definition ape1_limit_addr :: "u32 \<Rightarrow> u64" where
  "ape1_limit_addr l = push_bit 16 (ucast l) OR APE1_LIMIT_ALIGNMENT"

lemma u32_user_bits: "(x::u32) < 2 ^ 31 \<longleftrightarrow> (\<forall>n \<ge> 31. \<not> bit x n)"
proof -
  have "x < 2 ^ 31 \<longleftrightarrow> unat x < 2 ^ 31" by (simp add: word_less_nat_alt)
  also have "\<dots> \<longleftrightarrow> unat (take_bit 31 x) = unat x" by (simp add: unsigned_take_bit_eq take_bit_nat_eq_self_iff)
  also have "\<dots> \<longleftrightarrow> take_bit 31 x = x" by (rule word_unat_eq_iff [symmetric])
  also have "\<dots> \<longleftrightarrow> (\<forall>n \<ge> 31. \<not> bit x n)"
  proof
    assume "take_bit 31 x = x"
    then show "\<forall>n \<ge> 31. \<not> bit x n" by (metis bit_take_bit_iff not_le)
  next
    assume "\<forall>n \<ge> 31. \<not> bit x n"
    then show "take_bit 31 x = x" by (intro bit_word_eqI) (auto simp: bit_take_bit_iff not_le [symmetric])
  qed
  finally show ?thesis .
qed

lemma ape1_base_register: "ucast (drop_bit 16 (ape1_base_addr b)) = b"
  unfolding ape1_base_addr_def by (rule bit_word_eqI) (auto simp: bit_simps)

lemma ape1_limit_register: "ucast (drop_bit 16 (ape1_limit_addr l)) = l"
  unfolding ape1_limit_addr_def by (rule bit_word_eqI) (auto simp: bit_simps bit_APE1_LIMIT_ALIGNMENT)

lemma ape1_representable:
  "addr AND APE1_FIXED_BITS_MASK = 0 \<longleftrightarrow> (\<exists>b < 2 ^ 31. addr = ape1_base_addr b)"
  "addr AND APE1_FIXED_BITS_MASK = APE1_LIMIT_ALIGNMENT \<longleftrightarrow> (\<exists>l < 2 ^ 31. addr = ape1_limit_addr l)"
proof -
  define r where "r = (ucast (drop_bit 16 addr) :: u32)"
  have r: "bit r n \<longleftrightarrow> n < 32 \<and> bit addr (n + 16)" for n by (auto simp: r_def bit_simps ac_simps)
  show "addr AND APE1_FIXED_BITS_MASK = 0 \<longleftrightarrow> (\<exists>b < 2 ^ 31. addr = ape1_base_addr b)"
  proof
    assume "addr AND APE1_FIXED_BITS_MASK = 0"
    then have "\<not> (bit addr n \<and> bit APE1_FIXED_BITS_MASK n)" for n
      by (metis bit_and_iff bit_0_eq bot_apply bot_bool_def)
    then have h: "bit addr n \<Longrightarrow> 16 \<le> n \<and> n < 47" for n
      using bit_imp_le_length [of addr n] by (force simp: bit_APE1_FIXED_BITS_MASK)
    have "r < 2 ^ 31" unfolding u32_user_bits r using h by force
    moreover have "addr = ape1_base_addr r"
      using h unfolding ape1_base_addr_def
      by (intro bit_word_eqI) (auto simp: bit_simps r dest: h)
    ultimately show "\<exists>b < 2 ^ 31. addr = ape1_base_addr b" by blast
  next
    assume "\<exists>b < 2 ^ 31. addr = ape1_base_addr b"
    then obtain b where "\<forall>n \<ge> 31. \<not> bit b n" "addr = ape1_base_addr b"
      unfolding u32_user_bits by blast
    then show "addr AND APE1_FIXED_BITS_MASK = 0"
      by (auto simp: ape1_base_addr_def bit_simps bit_APE1_FIXED_BITS_MASK intro!: bit_word_eqI)
  qed
  show "addr AND APE1_FIXED_BITS_MASK = APE1_LIMIT_ALIGNMENT \<longleftrightarrow> (\<exists>l < 2 ^ 31. addr = ape1_limit_addr l)"
  proof
    assume "addr AND APE1_FIXED_BITS_MASK = APE1_LIMIT_ALIGNMENT"
    then have h: "bit addr n \<and> bit APE1_FIXED_BITS_MASK n \<longleftrightarrow> n < 16" for n
      by (metis bit_and_iff bit_APE1_LIMIT_ALIGNMENT)
    have "\<not> bit r n" if "n \<ge> 31" for n
      using h [of "n + 16"] that bit_imp_le_length [of addr "n + 16"] by (auto simp: r bit_APE1_FIXED_BITS_MASK)
    then have "r < 2 ^ 31" unfolding u32_user_bits by blast
    moreover have "addr = ape1_limit_addr r"
      using h unfolding ape1_limit_addr_def
      by (intro bit_word_eqI) (fastforce simp: bit_simps r bit_APE1_FIXED_BITS_MASK bit_APE1_LIMIT_ALIGNMENT)
    ultimately show "\<exists>l < 2 ^ 31. addr = ape1_limit_addr l" by blast
  next
    assume "\<exists>l < 2 ^ 31. addr = ape1_limit_addr l"
    then obtain l where "\<forall>n \<ge> 31. \<not> bit l n" "addr = ape1_limit_addr l"
      unfolding u32_user_bits by blast
    then show "addr AND APE1_FIXED_BITS_MASK = APE1_LIMIT_ALIGNMENT"
      by (auto simp: ape1_limit_addr_def bit_simps bit_APE1_FIXED_BITS_MASK
          bit_APE1_LIMIT_ALIGNMENT intro!: bit_word_eqI)
  qed
qed

lemma unat_ape1:
  "unat (ape1_base_addr b) = unat b * 65536" "unat (ape1_limit_addr l) = unat l * 65536 + 65535"
proof -
  have p: "unat (ape1_base_addr x) = unat x * 65536" for x
    using unat_lt2p [of x] unfolding ape1_base_addr_def
    by (simp add: push_bit_eq_mult unat_mult_lem [THEN iffD1] unat_word_ariths)
  show "unat (ape1_base_addr b) = unat b * 65536" by (rule p)
  have "ape1_limit_addr l = ape1_base_addr l + APE1_LIMIT_ALIGNMENT"
    unfolding ape1_limit_addr_def ape1_base_addr_def
    by (rule disjunctive_add [symmetric]) (auto simp: bit_simps bit_APE1_LIMIT_ALIGNMENT)
  then show "unat (ape1_limit_addr l) = unat l * 65536 + 65535"
    using p [of l] unat_lt2p [of l] by (simp add: unat_word_ariths APE1_LIMIT_ALIGNMENT_def)
qed

lemma ape1_order: "ape1_base_addr b < ape1_limit_addr l \<longleftrightarrow> b \<le> l"
  by (auto simp: word_less_nat_alt word_le_nat_alt unat_ape1)


text \<open>
  On the generations with an alternate aperture, a request is accepted exactly when the two registers can
  encode it, and then they encode exactly the requested range: the policy is set with base register \<open>b\<close> and limit
  register \<open>l\<close> if and only if the range starts at the address \<open>b\<close> stands for, ends at the address \<open>l\<close> stands for,
  is not empty and lies in user space.
\<close>

theorem ape1_aperture_exact:
  assumes "asize \<noteq> 0"
  shows "(\<exists>qpd'. set_cache_memory_policy_vi dqm qpd dp ap base asize = (True, qpd') \<and>
           sh_mem_ape1_base qpd' = b \<and> sh_mem_ape1_limit qpd' = l) \<longleftrightarrow>
         base = ape1_base_addr b \<and> base + asize - 1 = ape1_limit_addr l \<and> b \<le> l \<and> l < 2 ^ 31"
proof -
  let ?lim = "base + asize - 1"
  have "(\<exists>qpd'. set_cache_memory_policy_vi dqm qpd dp ap base asize = (True, qpd') \<and>
           sh_mem_ape1_base qpd' = b \<and> sh_mem_ape1_limit qpd' = l) \<longleftrightarrow>
      base < ?lim \<and> (\<exists>b' < 2 ^ 31. base = ape1_base_addr b') \<and> (\<exists>l' < 2 ^ 31. ?lim = ape1_limit_addr l') \<and>
      ucast (drop_bit 16 base) = b \<and> ucast (drop_bit 16 ?lim) = l"
    using assms unfolding set_cache_memory_policy_vi_def set_ape1_def Let_def ape1_representable [symmetric]
    by (auto simp: not_le)
  also have "\<dots> \<longleftrightarrow> base = ape1_base_addr b \<and> ?lim = ape1_limit_addr l \<and> b \<le> l \<and> l < 2 ^ 31"
    using le_less_trans [of b l "2 ^ 31"] by (auto simp: ape1_base_register ape1_limit_register ape1_order)
  finally show ?thesis .
qed

theorem ape1_aperture_exact_witness:
  "\<exists>qpd'. set_cache_memory_policy_vi dqm_example (qpd_example 1 0x8001 []) cache_policy_coherent
     cache_policy_noncoherent 0x10000 0x20000 = (True, qpd') \<and>
     sh_mem_ape1_base qpd' = 1 \<and> sh_mem_ape1_limit qpd' = 2"
  by (subst ape1_aperture_exact)
    (simp_all add: ape1_base_addr_def ape1_limit_addr_def APE1_LIMIT_ALIGNMENT_def)

text \<open>
  \<^verbatim>\<open>set_cache_memory_policy\<close> programs the registers of the process exactly when the policy was rejected (and
  the process runs without the hardware scheduler on some VMID): an accepted policy never reaches the hardware here.
\<close>

theorem cache_policy_programmed_iff_rejected:
  assumes "asic_ops_for (dqm_dev dqm) \<noteq> None"
    and "set_cache_memory_policy dqm qpd dp ap base asize = (r, qpd', programmed)"
    and "sched_policy dqm = KFD_SCHED_POLICY_NO_HWS" and "qpd_vmid qpd' \<noteq> 0"
  shows "programmed = (if r then None else Some (sh_mem_settings qpd'))"
  using assms by (auto simp: set_cache_memory_policy_def split: prod.splits bool.splits)

theorem cache_policy_programmed_iff_rejected_witness:
  "\<exists>qpd'. set_cache_memory_policy (dqm_example\<lparr>sched_policy := KFD_SCHED_POLICY_NO_HWS\<rparr>)
     ((qpd_example 1 0x8001 [])\<lparr>qpd_vmid := 9\<rparr>) cache_policy_coherent cache_policy_coherent 0 0 =
     (True, qpd', None) \<and> sh_mem_config qpd' \<noteq> sh_mem_config (qpd_example 1 0x8001 [])"
proof -
  let ?d = "dqm_example\<lparr>sched_policy := KFD_SCHED_POLICY_NO_HWS\<rparr>"
  let ?p = "(qpd_example 1 0x8001 [])\<lparr>qpd_vmid := 9\<rparr>"
  obtain r qpd' pr where s: "set_cache_memory_policy ?d ?p cache_policy_coherent cache_policy_coherent 0 0 =
      (r, qpd', pr)" by (metis prod_cases3)
  have a: "asic_ops_for (dqm_dev ?d) = Some device_queue_manager_init_v9"
    by (simp add: asic_ops_for_def dqm_example_def node_example_def IP_VERSION_def)
  from s a have rq: "r" "qpd_vmid qpd' = 9" "sh_mem_config qpd' = sh_mem_config_v9 (dqm_dev ?d)
      (gc_version (dqm_dev ?d) = IP_VERSION 9 4 3 \<or> gc_version (dqm_dev ?d) = IP_VERSION 9 4 4)"
    by (auto simp: set_cache_memory_policy_def device_queue_manager_init_v9_def set_cache_memory_policy_v9_def)
  have "pr = None" using cache_policy_programmed_iff_rejected [OF _ s] a rq by simp
  moreover have "sh_mem_config qpd' \<noteq> sh_mem_config (qpd_example 1 0x8001 [])"
    by (simp add: rq sh_mem_config_v9_def qpd_example_def dqm_example_def node_example_def sh_regs_example_def
        IP_VERSION_def)
  ultimately show ?thesis using s rq by auto
qed

text \<open>
  On the devices with per-process XNACK, registering a process makes the retry-disable bit of its
  configuration the negation of its XNACK setting, whatever the configuration was before, and the memory bases hold
  the top 16 bits of its LDS and scratch apertures.
\<close>

theorem update_qpd_v9_configures:
  assumes "KFD_SUPPORT_XNACK_PER_PROCESS (dqm_dev dqm)" and "RETRY_DISABLE_SHIFT (sh_regs (dqm_dev dqm)) < 32"
    and "SHARED_BASE_SHIFT (sh_regs (dqm_dev dqm)) = 16" and "update_qpd_v9 dqm qpd = (r, qpd')"
  shows "bit (sh_mem_config qpd') (RETRY_DISABLE_SHIFT (sh_regs (dqm_dev dqm))) = (\<not> xnack_enabled qpd) \<and>
    drop_bit 16 (sh_mem_bases qpd') = ucast (drop_bit 48 (lds_base qpd)) \<and>
    take_bit 16 (sh_mem_bases qpd') = ucast (drop_bit 48 (scratch_base qpd))"
proof -
  let ?R = "sh_regs (dqm_dev dqm)"
  obtain c where c: "sh_mem_config qpd' =
      (if xnack_enabled qpd then c AND NOT (push_bit (RETRY_DISABLE_SHIFT ?R) 1)
       else c OR push_bit (RETRY_DISABLE_SHIFT ?R) 1)"
    and b: "sh_mem_bases qpd' = compute_sh_mem_bases_64bit ?R qpd"
    using assms(1,4)
    by (auto simp: update_qpd_v9_def compute_sh_mem_bases_64bit_def Let_def split: if_splits)
  have 1: "bit (sh_mem_config qpd') (RETRY_DISABLE_SHIFT ?R) = (\<not> xnack_enabled qpd)"
    using assms(2) unfolding c by (simp add: bit_simps)
  have h: "bit x (48 + n) \<Longrightarrow> n < 16" "\<not> bit x (64 + n)" for x :: u64 and n
    using bit_imp_le_length [of x "48 + n"] bit_imp_le_length [of x "64 + n"] by auto
  have 2: "drop_bit 16 (sh_mem_bases qpd') = ucast (drop_bit 48 (lds_base qpd))"
    unfolding b compute_sh_mem_bases_64bit_def Let_def assms(3)
    by (rule bit_word_eqI) (auto simp: bit_simps h(2) dest: h(1))
  have 3: "take_bit 16 (sh_mem_bases qpd') = ucast (drop_bit 48 (scratch_base qpd))"
    unfolding b compute_sh_mem_bases_64bit_def Let_def assms(3)
    by (rule bit_word_eqI) (auto simp: bit_simps h(2) dest: h(1))
  show ?thesis using 1 2 3 by simp
qed

theorem update_qpd_v9_configures_witness:
  "drop_bit 16 (sh_mem_bases (snd (update_qpd_v9
      (dqm_example\<lparr>dqm_dev := node_example\<lparr>gc_version := IP_VERSION 9 4 3\<rparr>\<rparr>) (qpd_example 1 0x8001 [])))) = 1"
  (is "drop_bit 16 (sh_mem_bases (snd (update_qpd_v9 ?d ?p))) = 1")
proof -
  have u: "update_qpd_v9 ?d ?p = (fst (update_qpd_v9 ?d ?p), snd (update_qpd_v9 ?d ?p))" by simp
  show ?thesis
    using update_qpd_v9_configures [OF _ _ _ u]
    by (simp add: KFD_SUPPORT_XNACK_PER_PROCESS_def node_example_def sh_regs_example_def qpd_example_def)
qed

end
