(* ===== verification/Dqm_Counters.thy ===== *)
theory Dqm_Counters
  imports Dqm_Resources Dqm_Asic
begin

text \<open>
  The queue counters of the device queue manager. \<^verbatim>\<open>dqm->active_queue_count\<close> and its companions decide
  the size of the runlist and whether one is sent at all, so they must agree with the queues that are
  linked into the registered processes.

  Counters are 32-bit words. An operation on one process keeps its \<open>slack\<close>: what the counters hold
  beyond the queues of that process. The locale \<open>process_operation\<close> lifts this to the invariant over
  all registered processes.
\<close>

section \<open>Counting\<close>

definition increment_queue_count ::
    "device_queue_manager \<Rightarrow> qcm_process_device \<Rightarrow> queue \<Rightarrow>
     device_queue_manager \<times> qcm_process_device" where
  "increment_queue_count dqm qpd q =
     (let dqm1 = dqm\<lparr>active_queue_count := active_queue_count dqm + 1\<rparr>;
          dqm2 = (if qtype (properties q) = KFD_QUEUE_TYPE_COMPUTE \<or>
                     qtype (properties q) = KFD_QUEUE_TYPE_DIQ
                  then dqm1\<lparr>active_cp_queue_count := active_cp_queue_count dqm1 + 1\<rparr> else dqm1)
      in if is_gws (properties q)
         then (dqm2\<lparr>gws_queue_count := gws_queue_count dqm2 + 1\<rparr>, qpd\<lparr>mapped_gws_queue := True\<rparr>)
         else (dqm2, qpd))"

definition decrement_queue_count ::
    "device_queue_manager \<Rightarrow> qcm_process_device \<Rightarrow> queue \<Rightarrow>
     device_queue_manager \<times> qcm_process_device" where
  "decrement_queue_count dqm qpd q =
     (let dqm1 = dqm\<lparr>active_queue_count := active_queue_count dqm - 1\<rparr>;
          dqm2 = (if qtype (properties q) = KFD_QUEUE_TYPE_COMPUTE \<or>
                     qtype (properties q) = KFD_QUEUE_TYPE_DIQ
                  then dqm1\<lparr>active_cp_queue_count := active_cp_queue_count dqm1 - 1\<rparr> else dqm1)
      in if is_gws (properties q)
         then (dqm2\<lparr>gws_queue_count := gws_queue_count dqm2 - 1\<rparr>, qpd\<lparr>mapped_gws_queue := False\<rparr>)
         else (dqm2, qpd))"

text \<open>
  What the MQD managers do to the properties: initialising or updating an MQD computes
  \<^verbatim>\<open>q->is_active\<close>, restoring one clears it (\<^verbatim>\<open>update_mqd\<close>, \<^verbatim>\<open>restore_mqd\<close> of all generations).
\<close>

definition mqd_update_active :: "queue \<Rightarrow> queue" where
  "mqd_update_active q =
     q\<lparr>properties := (properties q)\<lparr>is_active := QUEUE_IS_ACTIVE (properties q)\<rparr>\<rparr>"

definition mqd_restore_active :: "queue \<Rightarrow> queue" where
  "mqd_restore_active q = q\<lparr>properties := (properties q)\<lparr>is_active := False\<rparr>\<rparr>"

section \<open>What the counters should be\<close>

text \<open>A queue as the counters see it: nothing if it is inactive.\<close>

abbreviation (input) is_cp :: "queue \<Rightarrow> bool" where
  "is_cp \<equiv> \<lambda>q. qtype (properties q) = KFD_QUEUE_TYPE_COMPUTE \<or> qtype (properties q) = KFD_QUEUE_TYPE_DIQ"

text \<open>
  The counted queues of a process: its kernel queues, which \<^verbatim>\<open>create_kernel_queue_cpsch\<close> counts whether active
  or not, and its active user queues.
\<close>

definition counted_queues :: "qcm_process_device \<Rightarrow> queue list" where
  "counted_queues qpd = priv_queue_list qpd @ filter q_active (queues_list qpd)"

definition n_active :: "qcm_process_device \<Rightarrow> nat" where
  "n_active qpd = length (counted_queues qpd)"

definition n_cp :: "qcm_process_device \<Rightarrow> nat" where
  "n_cp qpd = length (filter is_cp (counted_queues qpd))"

definition n_gws :: "qcm_process_device \<Rightarrow> nat" where
  "n_gws qpd = length (filter (\<lambda>q. is_gws (properties q)) (counted_queues qpd))"

definition n_total :: "qcm_process_device \<Rightarrow> nat" where
  "n_total qpd = length (priv_queue_list qpd) + length (queues_list qpd)"

lemmas n_defs = n_active_def n_cp_def n_gws_def n_total_def counted_queues_def

definition slack :: "device_queue_manager \<Rightarrow> qcm_process_device \<Rightarrow> u32 \<times> u32 \<times> u32 \<times> u32" where
  "slack dqm qpd =
     (active_queue_count dqm - of_nat (n_active qpd), active_cp_queue_count dqm - of_nat (n_cp qpd),
      gws_queue_count dqm - of_nat (n_gws qpd), total_queue_count dqm - of_nat (n_total qpd))"

text \<open>A process is consistent if its own count agrees with its list and no queue is linked twice.\<close>

definition qpd_wf :: "qcm_process_device \<Rightarrow> bool" where
  "qpd_wf qpd \<longleftrightarrow> queue_count qpd = of_nat (length (queues_list qpd)) \<and>
     distinct (map q_ptr (queues_list qpd))"

text \<open>The invariant of the manager.\<close>

definition dqm_counts :: "device_queue_manager \<Rightarrow> bool" where
  "dqm_counts dqm \<longleftrightarrow>
     distinct (map qpd_ptr (dqm_queues dqm)) \<and>
     processes_count dqm = of_nat (length (dqm_queues dqm)) \<and>
     active_queue_count dqm = of_nat (proc_sum n_active dqm) \<and>
     active_cp_queue_count dqm = of_nat (proc_sum n_cp dqm) \<and>
     gws_queue_count dqm = of_nat (proc_sum n_gws dqm) \<and>
     total_queue_count dqm = of_nat (proc_sum n_total dqm) \<and>
     (\<forall>qpd \<in> set (dqm_queues dqm). qpd_wf qpd)"

section \<open>Frames\<close>

text \<open>The state a queue operation leaves alone: the registered processes.\<close>

definition procs :: "device_queue_manager \<Rightarrow> qcm_process_device list \<times> u32" where
  "procs dqm = (dqm_queues dqm, processes_count dqm)"

definition counts :: "device_queue_manager \<Rightarrow> u32 \<times> u32 \<times> u32 \<times> u32" where
  "counts dqm = (active_queue_count dqm, active_cp_queue_count dqm, gws_queue_count dqm, total_queue_count dqm)"

lemma slack_counts: "counts dqm = counts dqm' \<Longrightarrow> slack dqm qpd = slack dqm' qpd"
  by (simp add: slack_def counts_def)

named_theorems dqm_frame \<open>which part of the manager an operation leaves unchanged\<close>

lemma procs_count [dqm_frame]:
  "increment_queue_count dqm qpd q = (dqm1, qpd1) \<Longrightarrow> procs dqm1 = procs dqm"
  "decrement_queue_count dqm qpd q = (dqm1, qpd1) \<Longrightarrow> procs dqm1 = procs dqm"
  by (auto simp: increment_queue_count_def decrement_queue_count_def procs_def Let_def split: if_splits)

lemma qpd_count [dqm_frame]:
  "increment_queue_count dqm qpd q = (dqm1, qpd1) \<Longrightarrow> \<exists>b. qpd1 = qpd\<lparr>mapped_gws_queue := b\<rparr>"
  "decrement_queue_count dqm qpd q = (dqm1, qpd1) \<Longrightarrow> \<exists>b. qpd1 = qpd\<lparr>mapped_gws_queue := b\<rparr>"
proof -
  have s: "\<exists>b. qpd = qpd\<lparr>mapped_gws_queue := b\<rparr>" by (rule exI [of _ "mapped_gws_queue qpd"]) simp
  show "increment_queue_count dqm qpd q = (dqm1, qpd1) \<Longrightarrow> \<exists>b. qpd1 = qpd\<lparr>mapped_gws_queue := b\<rparr>"
    "decrement_queue_count dqm qpd q = (dqm1, qpd1) \<Longrightarrow> \<exists>b. qpd1 = qpd\<lparr>mapped_gws_queue := b\<rparr>"
    using s by (auto simp: increment_queue_count_def decrement_queue_count_def Let_def split: if_splits)
qed

lemma counts_allocators [simp]:
  "counts (deallocate_sdma_queue dqm q) = counts dqm" "procs (deallocate_sdma_queue dqm q) = procs dqm"
  "counts (deallocate_hqd dqm q) = counts dqm" "procs (deallocate_hqd dqm q) = procs dqm"
  by (simp_all add: counts_def procs_def deallocate_sdma_queue_def deallocate_hqd_def)

lemma counts_allocate [dqm_frame]:
  "allocate_sdma_queue dqm q r = (rv, dqm1, q1) \<Longrightarrow> counts dqm1 = counts dqm \<and> procs dqm1 = procs dqm"
  "allocate_hqd dqm q = (rv, dqm1, q1) \<Longrightarrow> counts dqm1 = counts dqm \<and> procs dqm1 = procs dqm"
  "allocate_vmid dqm qpd q = (rv, dqm1, qpd1, q1) \<Longrightarrow> counts dqm1 = counts dqm \<and> procs dqm1 = procs dqm"
  "deallocate_vmid dqm qpd q = (dqm1, qpd1, q1) \<Longrightarrow> counts dqm1 = counts dqm \<and> procs dqm1 = procs dqm"
  by (auto simp: allocate_sdma_queue_def allocate_hqd_def allocate_vmid_def deallocate_vmid_def counts_def
      procs_def Let_def split: if_splits sum.splits option.splits)

text \<open>The queues of a process and what identifies it.\<close>

definition qview :: "qcm_process_device \<Rightarrow> nat \<times> queue list \<times> queue list \<times> u32" where
  "qview qpd = (qpd_ptr qpd, queues_list qpd, priv_queue_list qpd, queue_count qpd)"

lemma slack_qview: "qview qpd = qview qpd' \<Longrightarrow> slack dqm qpd = slack dqm qpd'"
  by (simp add: qview_def slack_def n_defs)

lemma qpd_wf_qview: "qview qpd = qview qpd' \<Longrightarrow> qpd_wf qpd = qpd_wf qpd'"
  by (simp add: qview_def qpd_wf_def)

lemma qview_simps [simp]:
  "qview (qpd\<lparr>mapped_gws_queue := b\<rparr>) = qview qpd" "qview (qpd\<lparr>qpd_vmid := v\<rparr>) = qview qpd"
  "qview (qpd\<lparr>doorbell_bitmap := bm\<rparr>) = qview qpd" "qview (qpd\<lparr>reset_wavefronts := b\<rparr>) = qview qpd"
  "qview (qpd\<lparr>evicted := e\<rparr>) = qview qpd" "qview (qpd\<lparr>page_table_base := x\<rparr>) = qview qpd"
  "qview (qpd\<lparr>last_evict_timestamp := x\<rparr>) = qview qpd"
  "qview (qpd\<lparr>evict_duration_counter := x\<rparr>) = qview qpd"
  "qview (qpd\<lparr>sdma_past_activity_counter := x\<rparr>) = qview qpd" "qview (qpd\<lparr>is_debug := b\<rparr>) = qview qpd"
  by (simp_all add: qview_def)

lemma qview_deallocate_doorbell [simp]: "qview (deallocate_doorbell dqm qpd q) = qview qpd"
  by (simp add: deallocate_doorbell_def)

lemma qview_allocate [dqm_frame]:
  "allocate_doorbell dqm qpd q r = (rv, qpd1, q1) \<Longrightarrow> qview qpd1 = qview qpd"
  "allocate_vmid dqm qpd q = (rv, dqm1, qpd1, q1) \<Longrightarrow> qview qpd1 = qview qpd"
  "deallocate_vmid dqm qpd q = (dqm1, qpd1, q1) \<Longrightarrow> qview qpd1 = qview qpd"
  by (auto simp: allocate_doorbell_def allocate_vmid_def deallocate_vmid_def split: sum.splits option.splits)

text \<open>The effect of counting on the counters.\<close>

definition weight :: "queue \<Rightarrow> u32 \<times> u32 \<times> u32" where
  "weight q = (1, if is_cp q then 1 else 0, if is_gws (properties q) then 1 else 0)"

lemma asic_frame [simp]:
  "q_ptr (asic_init_sdma_vm dqm q qpd) = q_ptr q" "weight (asic_init_sdma_vm dqm q qpd) = weight q"
  "is_active (properties (asic_init_sdma_vm dqm q qpd)) = is_active (properties q)"
  "is_evicted (properties (asic_init_sdma_vm dqm q qpd)) = is_evicted (properties q)"
  by (auto simp: asic_init_sdma_vm_def asic_ops_for_def device_queue_manager_init_cik_def weight_def
      device_queue_manager_init_vi_def device_queue_manager_init_v9_def device_queue_manager_init_v10_def
      device_queue_manager_init_v11_def init_sdma_vm_def init_sdma_vm_v9_def init_sdma_vm_v10_def
      init_sdma_vm_v11_def split: if_splits)

lemma update_qpd_frame [dqm_frame]:
  "update_qpd dqm qpd = (r, qpd') \<Longrightarrow> qview qpd' = qview qpd \<and> evicted qpd' = evicted qpd"
  by (auto simp: update_qpd_def asic_ops_for_def device_queue_manager_init_cik_def
      device_queue_manager_init_vi_def device_queue_manager_init_v9_def device_queue_manager_init_v10_def
      device_queue_manager_init_v11_def update_qpd_cik_def update_qpd_vi_def update_qpd_v9_def
      update_qpd_v10_def update_qpd_v11_def qview_def Let_def split: if_splits)

lemma qview_count [dqm_frame]:
  "increment_queue_count dqm qpd q = (dqm1, qpd1) \<Longrightarrow> qview qpd1 = qview qpd"
  "decrement_queue_count dqm qpd q = (dqm1, qpd1) \<Longrightarrow> qview qpd1 = qview qpd"
  by (auto dest!: qpd_count)

lemma counts_increment:
  "increment_queue_count dqm qpd q = (dqm1, qpd1) \<Longrightarrow>
   counts dqm1 = (active_queue_count dqm + 1, active_cp_queue_count dqm + fst (snd (weight q)),
     gws_queue_count dqm + snd (snd (weight q)), total_queue_count dqm)"
  by (auto simp: increment_queue_count_def counts_def weight_def Let_def split: if_splits)

lemma counts_decrement:
  "decrement_queue_count dqm qpd q = (dqm1, qpd1) \<Longrightarrow>
   counts dqm1 = (active_queue_count dqm - 1, active_cp_queue_count dqm - fst (snd (weight q)),
     gws_queue_count dqm - snd (snd (weight q)), total_queue_count dqm)"
  by (auto simp: decrement_queue_count_def counts_def weight_def Let_def split: if_splits)

section \<open>How list changes move the slack\<close>

text \<open>The counted words of a list of user queues.\<close>

definition act :: "queue list \<Rightarrow> u32" where
  "act qs = of_nat (length (filter q_active qs))"

definition act_cp :: "queue list \<Rightarrow> u32" where
  "act_cp qs = of_nat (length (filter is_cp (filter q_active qs)))"

definition act_gws :: "queue list \<Rightarrow> u32" where
  "act_gws qs = of_nat (length (filter (\<lambda>q. is_gws (properties q)) (filter q_active qs)))"

lemma act_Nil [simp]: "act [] = 0" "act_cp [] = 0" "act_gws [] = 0"
  by (simp_all add: act_def act_cp_def act_gws_def)

lemma act_Cons:
  "act (q # qs) = (if is_active (properties q) then 1 else 0) + act qs"
  "act_cp (q # qs) = (if is_active (properties q) then fst (snd (weight q)) else 0) + act_cp qs"
  "act_gws (q # qs) = (if is_active (properties q) then snd (snd (weight q)) else 0) + act_gws qs"
  by (auto simp: act_def act_cp_def act_gws_def weight_def)

lemma act_append:
  "act (xs @ ys) = act xs + act ys" "act_cp (xs @ ys) = act_cp xs + act_cp ys"
  "act_gws (xs @ ys) = act_gws xs + act_gws ys"
  by (simp_all add: act_def act_cp_def act_gws_def)

lemma slack_eq:
  "slack dqm qpd =
     (active_queue_count dqm - (of_nat (length (priv_queue_list qpd)) + act (queues_list qpd)),
      active_cp_queue_count dqm - (of_nat (length (filter is_cp (priv_queue_list qpd))) + act_cp (queues_list qpd)),
      gws_queue_count dqm -
        (of_nat (length (filter (\<lambda>q. is_gws (properties q)) (priv_queue_list qpd))) + act_gws (queues_list qpd)),
      total_queue_count dqm - (of_nat (length (priv_queue_list qpd)) + of_nat (length (queues_list qpd))))"
  by (simp add: slack_def n_defs act_def act_cp_def act_gws_def)

text \<open>
  The general rule: if the user queues change from \<open>qs\<close> to \<open>qs'\<close> while the counters change by the difference,
  the slack stays.
\<close>

lemma slack_change:
  assumes "priv_queue_list qpd' = priv_queue_list qpd"
    and "counts dqm' =
      (active_queue_count dqm + (act (queues_list qpd') - act (queues_list qpd)),
       active_cp_queue_count dqm + (act_cp (queues_list qpd') - act_cp (queues_list qpd)),
       gws_queue_count dqm + (act_gws (queues_list qpd') - act_gws (queues_list qpd)),
       total_queue_count dqm +
         (of_nat (length (queues_list qpd')) - of_nat (length (queues_list qpd))))"
  shows "slack dqm' qpd' = slack dqm qpd"
  using assms by (auto simp: slack_eq counts_def)

lemma slack_add_queue:
  assumes "qpd' = qpd\<lparr>queues_list := list_add_queue q (queues_list qpd), queue_count := c\<rparr>"
    and "\<not> is_active (properties q)"
  shows "slack (dqm\<lparr>total_queue_count := total_queue_count dqm + 1\<rparr>) qpd' = slack dqm qpd"
  by (rule slack_change) (use assms in \<open>simp_all add: counts_def list_add_queue_def act_Cons\<close>)

lemma slack_add_active_queue:
  assumes "qpd' = qpd\<lparr>queues_list := list_add_queue q (queues_list qpd), queue_count := c\<rparr>"
    and "is_active (properties q)" and "increment_queue_count dqm qpd' q = (dqm1, qpd1)"
  shows "slack (dqm1\<lparr>total_queue_count := total_queue_count dqm1 + 1\<rparr>) qpd1 = slack dqm qpd"
proof -
  have v: "qview qpd1 = qview qpd'" using assms(3) by (rule qview_count)
  have "slack (dqm1\<lparr>total_queue_count := total_queue_count dqm1 + 1\<rparr>) qpd' = slack dqm qpd"
    using counts_increment [OF assms(3)] assms(1,2)
    by (intro slack_change) (auto simp: counts_def list_add_queue_def act_Cons)
  with slack_qview [OF v] show ?thesis by simp
qed

lemma list_del_queue_act:
  assumes "distinct (map q_ptr qs)" and "q \<in> set qs"
  shows "act qs = act (list_del_queue q qs) + (if is_active (properties q) then 1 else 0)"
    "act_cp qs = act_cp (list_del_queue q qs) + (if is_active (properties q) then fst (snd (weight q)) else 0)"
    "act_gws qs = act_gws (list_del_queue q qs) + (if is_active (properties q) then snd (snd (weight q)) else 0)"
    "length qs = Suc (length (list_del_queue q qs))"
proof -
  obtain xs ys where "qs = xs @ q # ys" "list_del_queue q qs = xs @ ys"
    by (rule list_del_queue_split [OF assms])
  then show "act qs = act (list_del_queue q qs) + (if is_active (properties q) then 1 else 0)"
    "act_cp qs = act_cp (list_del_queue q qs) + (if is_active (properties q) then fst (snd (weight q)) else 0)"
    "act_gws qs = act_gws (list_del_queue q qs) + (if is_active (properties q) then snd (snd (weight q)) else 0)"
    "length qs = Suc (length (list_del_queue q qs))"
    by (simp_all add: act_append act_Cons)
qed

lemma list_put_queue_act:
  assumes "distinct (map q_ptr qs)" and "old \<in> set qs" and "q_ptr new = q_ptr old"
  shows "act (list_put_queue new qs) =
      act qs - (if is_active (properties old) then 1 else 0) + (if is_active (properties new) then 1 else 0)"
    "act_cp (list_put_queue new qs) = act_cp qs
      - (if is_active (properties old) then fst (snd (weight old)) else 0)
      + (if is_active (properties new) then fst (snd (weight new)) else 0)"
    "act_gws (list_put_queue new qs) = act_gws qs
      - (if is_active (properties old) then snd (snd (weight old)) else 0)
      + (if is_active (properties new) then snd (snd (weight new)) else 0)"
    "length (list_put_queue new qs) = length qs"
proof -
  obtain xs ys where s: "qs = xs @ old # ys" using assms(2) by (auto simp: in_set_conv_decomp)
  with assms(1,3) have "q_ptr new \<notin> q_ptr ` set xs" "q_ptr new \<notin> q_ptr ` set ys" by auto
  then have "map (\<lambda>x. if q_ptr x = q_ptr new then new else x) xs = xs"
    "map (\<lambda>x. if q_ptr x = q_ptr new then new else x) ys = ys"
    by (auto intro!: map_idI simp: image_iff)
  with s assms(3) have "list_put_queue new qs = xs @ new # ys" by (simp add: list_put_queue_def)
  with s show "act (list_put_queue new qs) =
      act qs - (if is_active (properties old) then 1 else 0) + (if is_active (properties new) then 1 else 0)"
    "act_cp (list_put_queue new qs) = act_cp qs
      - (if is_active (properties old) then fst (snd (weight old)) else 0)
      + (if is_active (properties new) then fst (snd (weight new)) else 0)"
    "act_gws (list_put_queue new qs) = act_gws qs
      - (if is_active (properties old) then snd (snd (weight old)) else 0)
      + (if is_active (properties new) then snd (snd (weight new)) else 0)"
    "length (list_put_queue new qs) = length qs"
    by (simp_all add: act_append act_Cons)
qed

section \<open>Lifting to the registered processes\<close>

lemma dqm_counts_put:
  assumes inv: "dqm_counts dqm" and g: "get_qpd dqm p = Some qpd" and sl: "slack dqm' qpd' = slack dqm qpd"
    and pr: "procs dqm' = procs dqm" and q: "qpd_wf qpd'" "qpd_ptr qpd' = p"
  shows "dqm_counts (put_qpd qpd' dqm')"
proof -
  have d: "distinct (map qpd_ptr (dqm_queues dqm'))" and g': "get_qpd dqm' p = Some qpd"
    using inv g pr by (simp_all add: dqm_counts_def procs_def get_qpd_def)
  have ps: "proc_sum f (put_qpd qpd' dqm') + f qpd = proc_sum f dqm + f qpd'" for f
    using proc_sum_put [OF d g' q(2), of f] pr by (simp add: proc_sum_def procs_def)
  have w: "(of_nat (proc_sum f (put_qpd qpd' dqm')) :: u32) =
      of_nat (proc_sum f dqm) + of_nat (f qpd') - of_nat (f qpd)" for f
    using arg_cong [OF ps [of f], of "of_nat :: nat \<Rightarrow> u32"] by (simp add: algebra_simps)
  have c: "counts (put_qpd qpd' dqm') = counts dqm'" "processes_count (put_qpd qpd' dqm') = processes_count dqm'"
    by (simp_all add: counts_def put_qpd_def)
  have "set (dqm_queues (put_qpd qpd' dqm')) \<subseteq> insert qpd' (set (dqm_queues dqm))"
    using pr by (auto simp: put_qpd_def procs_def)
  then have wf: "\<forall>x \<in> set (dqm_queues (put_qpd qpd' dqm')). qpd_wf x"
    using inv q(1) by (auto simp: dqm_counts_def)
  have l: "length (dqm_queues (put_qpd qpd' dqm')) = length (dqm_queues dqm)"
    using pr by (simp add: put_qpd_def procs_def)
  show ?thesis
    using inv sl pr c wf d l unfolding dqm_counts_def w
    by (auto simp: slack_def counts_def procs_def algebra_simps)
qed

text \<open>
  An operation on one process: given the manager and the process it returns a code and both updated. Under
  its precondition it keeps the slack, the registered processes and the consistency of the
  process.
\<close>

definition on_qpd ::
    "(device_queue_manager \<Rightarrow> qcm_process_device \<Rightarrow> retval \<times> device_queue_manager \<times> qcm_process_device) \<Rightarrow>
     nat \<Rightarrow> device_queue_manager \<Rightarrow> retval \<times> device_queue_manager" where
  "on_qpd f p dqm =
     (case get_qpd dqm p of
        None \<Rightarrow> (Err OOPS, dqm)
      | Some qpd \<Rightarrow> (case f dqm qpd of (r, dqm', qpd') \<Rightarrow> (r, put_qpd qpd' dqm')))"

locale process_operation =
  fixes oper :: "device_queue_manager \<Rightarrow> qcm_process_device \<Rightarrow> retval \<times> device_queue_manager \<times> qcm_process_device"
    and pre :: "device_queue_manager \<Rightarrow> qcm_process_device \<Rightarrow> bool"
  assumes keeps_slack: "qpd_wf qpd \<Longrightarrow> pre dqm qpd \<Longrightarrow> oper dqm qpd = (r, dqm', qpd') \<Longrightarrow>
        slack dqm' qpd' = slack dqm qpd"
    and keeps_procs: "qpd_wf qpd \<Longrightarrow> pre dqm qpd \<Longrightarrow> oper dqm qpd = (r, dqm', qpd') \<Longrightarrow>
        procs dqm' = procs dqm"
    and keeps_wf: "qpd_wf qpd \<Longrightarrow> pre dqm qpd \<Longrightarrow> oper dqm qpd = (r, dqm', qpd') \<Longrightarrow>
        qpd_wf qpd' \<and> qpd_ptr qpd' = qpd_ptr qpd"
begin

lemma keeps_counts:
  assumes inv: "dqm_counts dqm" and g: "get_qpd dqm p = Some qpd" and pre: "pre dqm qpd"
    and o: "on_qpd oper p dqm = (r, dqm')"
  shows "dqm_counts dqm'"
proof -
  have wf: "qpd_wf qpd" and ptr: "qpd_ptr qpd = p"
    using inv get_qpd_Some [OF g] by (auto simp: dqm_counts_def)
  obtain dqm1 qpd1 where f: "oper dqm qpd = (r, dqm1, qpd1)" "dqm' = put_qpd qpd1 dqm1"
    using o g by (auto simp: on_qpd_def split: prod.splits)
  show ?thesis unfolding f(2)
    using dqm_counts_put [OF inv g keeps_slack [OF wf pre f(1)] keeps_procs [OF wf pre f(1)]]
      keeps_wf [OF wf pre f(1)] ptr by simp
qed

end

section \<open>Steps that keep the accounts\<close>

text \<open>A step that touches neither the counters nor the queue lists.\<close>

definition quiet ::
    "device_queue_manager \<Rightarrow> qcm_process_device \<Rightarrow> device_queue_manager \<Rightarrow> qcm_process_device \<Rightarrow> bool" where
  "quiet dqm qpd dqm' qpd' \<longleftrightarrow> counts dqm' = counts dqm \<and> procs dqm' = procs dqm \<and> qview qpd' = qview qpd"

lemma quiet_refl [simp]: "quiet dqm qpd dqm qpd"
  by (simp add: quiet_def)

lemma quiet_trans: "quiet a p b q \<Longrightarrow> quiet b q c r \<Longrightarrow> quiet a p c r"
  by (simp add: quiet_def)

text \<open>A step that keeps the accounts: the obligations of \<open>process_operation\<close> as one relation.\<close>

definition accounts ::
    "device_queue_manager \<Rightarrow> qcm_process_device \<Rightarrow> device_queue_manager \<Rightarrow> qcm_process_device \<Rightarrow> bool" where
  "accounts dqm qpd dqm' qpd' \<longleftrightarrow> slack dqm' qpd' = slack dqm qpd \<and> procs dqm' = procs dqm \<and>
     (qpd_wf qpd \<longrightarrow> qpd_wf qpd') \<and> qpd_ptr qpd' = qpd_ptr qpd"

lemma accounts_trans: "accounts a p b q \<Longrightarrow> accounts b q c r \<Longrightarrow> accounts a p c r"
  by (simp add: accounts_def)

lemma accounts_refl [simp]: "accounts dqm qpd dqm qpd"
  by (simp add: accounts_def)

lemma quiet_accounts: assumes "quiet dqm qpd dqm' qpd'" shows "accounts dqm qpd dqm' qpd'"
proof -
  from assms have c: "counts dqm' = counts dqm" and v: "qview qpd' = qview qpd" and p: "procs dqm' = procs dqm"
    by (simp_all add: quiet_def)
  have "slack dqm' qpd' = slack dqm qpd' " using c by (rule slack_counts)
  also have "\<dots> = slack dqm qpd" using v by (rule slack_qview)
  finally show ?thesis
    using p qpd_wf_qview [OF v] v by (simp add: accounts_def qview_def)
qed

lemma process_operationI:
  assumes "\<And>dqm qpd r dqm' qpd'. qpd_wf qpd \<Longrightarrow> pre dqm qpd \<Longrightarrow> oper dqm qpd = (r, dqm', qpd') \<Longrightarrow>
    accounts dqm qpd dqm' qpd'"
  shows "process_operation oper pre"
proof (unfold_locales, goal_cases)
  case 1
  from assms [OF 1] show ?case by (simp add: accounts_def)
next
  case 2
  from assms [OF 2] show ?case by (simp add: accounts_def)
next
  case 3
  from assms [OF 3] 3(1) show ?case by (simp add: accounts_def)
qed

lemma weight_simps [simp]:
  "weight (q\<lparr>properties := (properties q)\<lparr>vmid := v\<rparr>\<rparr>) = weight q"
  "weight (q\<lparr>properties := (properties q)\<lparr>is_evicted := b\<rparr>\<rparr>) = weight q"
  "weight (q\<lparr>properties := (properties q)\<lparr>is_evicted := b, is_active := c\<rparr>\<rparr>) = weight q"
  by (simp_all add: weight_def)

lemma slack_del_queue:
  assumes wf: "qpd_wf qpd" and q: "q \<in> set (queues_list qpd)"
    and p: "qview qpd' = (qpd_ptr qpd, list_del_queue q (queues_list qpd), priv_queue_list qpd, queue_count qpd - 1)"
    and c: "counts dqm' =
      (active_queue_count dqm - (if is_active (properties q) then 1 else 0),
       active_cp_queue_count dqm - (if is_active (properties q) then fst (snd (weight q)) else 0),
       gws_queue_count dqm - (if is_active (properties q) then snd (snd (weight q)) else 0),
       total_queue_count dqm - 1)"
    and pr: "procs dqm' = procs dqm"
  shows "accounts dqm qpd dqm' qpd'"
proof -
  have d: "distinct (map q_ptr (queues_list qpd))" using wf by (simp add: qpd_wf_def)
  note l = list_del_queue_act [OF d q]
  have v: "queues_list qpd' = list_del_queue q (queues_list qpd)" "priv_queue_list qpd' = priv_queue_list qpd"
    "queue_count qpd' = queue_count qpd - 1" "qpd_ptr qpd' = qpd_ptr qpd"
    using p by (simp_all add: qview_def)
  have "slack dqm' qpd' = slack dqm qpd"
    using c l by (intro slack_change) (simp_all add: v)
  moreover have "qpd_wf qpd'"
    using wf l(4) distinct_list_del_queue [OF d] by (simp add: qpd_wf_def v)
  ultimately show ?thesis using pr v by (simp add: accounts_def)
qed

lemma accounts_sdma_counter [simp]:
  "accounts dqm qpd dqm' (qpd'\<lparr>sdma_past_activity_counter := x\<rparr>) = accounts dqm qpd dqm' qpd'"
  by (simp add: accounts_def slack_eq qpd_wf_def)

text \<open>
  A step that rewrites the flags of queues: the counters move by the difference, the addresses stay.
\<close>

definition moves ::
    "device_queue_manager \<Rightarrow> queue list \<Rightarrow> device_queue_manager \<Rightarrow> queue list \<Rightarrow> bool" where
  "moves dqm qs dqm' qs' \<longleftrightarrow>
     counts dqm' = (active_queue_count dqm + (act qs' - act qs), active_cp_queue_count dqm + (act_cp qs' - act_cp qs),
       gws_queue_count dqm + (act_gws qs' - act_gws qs), total_queue_count dqm) \<and>
     procs dqm' = procs dqm \<and> map q_ptr qs' = map q_ptr qs"

lemma moves_Nil [simp]: "moves dqm [] dqm []"
  by (simp add: moves_def counts_def)

lemma moves_Cons: "moves dqm [q] dqm1 [q'] \<Longrightarrow> moves dqm1 qs dqm2 qs' \<Longrightarrow> moves dqm (q # qs) dqm2 (q' # qs')"
  by (auto simp: moves_def counts_def act_Cons)

lemma moves_flags:
  "weight q' = weight q \<Longrightarrow> is_active (properties q') = is_active (properties q) \<Longrightarrow> q_ptr q' = q_ptr q \<Longrightarrow>
   moves dqm [q] dqm [q']"
  by (simp add: moves_def counts_def act_Cons)

lemma moves_decrement:
  assumes "decrement_queue_count dqm qpd q0 = (dqm1, qpd1)" and "weight q0 = weight q" "weight q' = weight q"
    and "is_active (properties q)" "\<not> is_active (properties q')" "q_ptr q' = q_ptr q"
  shows "moves dqm [q] dqm1 [q']"
  using assms(2-) counts_decrement [OF assms(1)] procs_count(2) [OF assms(1)]
  by (simp add: moves_def counts_def act_Cons)

lemma moves_increment:
  assumes "increment_queue_count dqm qpd q0 = (dqm1, qpd1)" and "weight q0 = weight q" "weight q' = weight q"
    and "\<not> is_active (properties q)" "is_active (properties q')" "q_ptr q' = q_ptr q"
  shows "moves dqm [q] dqm1 [q']"
  using assms(2-) counts_increment [OF assms(1)] procs_count(1) [OF assms(1)]
  by (simp add: moves_def counts_def act_Cons)

lemma moves_accounts:
  assumes m: "moves dqm (queues_list qpd) dqm' qs'"
    and v: "qview qpd' = (qpd_ptr qpd, qs', priv_queue_list qpd, queue_count qpd)"
  shows "accounts dqm qpd dqm' qpd'"
proof -
  have q: "queues_list qpd' = qs'" "priv_queue_list qpd' = priv_queue_list qpd"
    "queue_count qpd' = queue_count qpd" "qpd_ptr qpd' = qpd_ptr qpd"
    using v by (simp_all add: qview_def)
  have l: "map q_ptr qs' = map q_ptr (queues_list qpd)" using m by (simp add: moves_def)
  then have "length qs' = length (queues_list qpd)" by (rule map_eq_imp_length_eq)
  then show ?thesis
    using m l unfolding accounts_def moves_def qpd_wf_def q by (simp add: slack_change q)
qed

section \<open>Registering processes\<close>

text \<open>
  \<^verbatim>\<open>register_process\<close>: \<open>kz\<close> is whether the list node could be allocated, \<open>pd_base\<close> the page directory of the
  process. \<^verbatim>\<open>unregister_process\<close> returns 0, or 1 if the process is not registered.
\<close>

definition register_process ::
    "bool \<Rightarrow> u64 \<Rightarrow> qcm_process_device \<Rightarrow> device_queue_manager \<Rightarrow> retval \<times> device_queue_manager" where
  "register_process kz pd_base qpd dqm =
     (if \<not> kz then (Err ENOMEM, dqm)
      else case update_qpd dqm (qpd\<lparr>page_table_base := pd_base\<rparr>) of
             (r, qpd1) \<Rightarrow> (r, dqm\<lparr>dqm_queues := qpd1 # dqm_queues dqm, processes_count := processes_count dqm + 1\<rparr>))"

fun unlink_process :: "nat \<Rightarrow> qcm_process_device list \<Rightarrow> qcm_process_device list option" where
  "unlink_process p [] = None"
| "unlink_process p (cur # rest) =
     (if p = qpd_ptr cur then Some rest else map_option (Cons cur) (unlink_process p rest))"

definition unregister_process :: "nat \<Rightarrow> device_queue_manager \<Rightarrow> nat \<times> device_queue_manager" where
  "unregister_process p dqm =
     (case unlink_process p (dqm_queues dqm) of
        None \<Rightarrow> (1, dqm)
      | Some rest \<Rightarrow> (0, dqm\<lparr>dqm_queues := rest, processes_count := processes_count dqm - 1\<rparr>))"

definition idle :: "qcm_process_device \<Rightarrow> bool" where
  "idle qpd \<longleftrightarrow> queues_list qpd = [] \<and> priv_queue_list qpd = [] \<and> queue_count qpd = 0"

lemma idle_n: "idle qpd \<Longrightarrow> n_active qpd = 0 \<and> n_cp qpd = 0 \<and> n_gws qpd = 0 \<and> n_total qpd = 0 \<and> qpd_wf qpd"
  by (simp add: idle_def n_defs qpd_wf_def)

lemma register_process_counts:
  assumes "dqm_counts dqm" "idle qpd" "qpd_ptr qpd \<notin> qpd_ptr ` set (dqm_queues dqm)"
    "register_process kz pd_base qpd dqm = (r, dqm')"
  shows "dqm_counts dqm'"
proof (cases kz)
  case True
  obtain r1 qpd1 where u: "update_qpd dqm (qpd\<lparr>page_table_base := pd_base\<rparr>) = (r1, qpd1)" by fastforce
  then have v: "qview qpd1 = qview qpd" using update_qpd_frame by fastforce
  with assms(2) have "idle qpd1" "qpd_ptr qpd1 = qpd_ptr qpd" by (auto simp: idle_def qview_def)
  with assms True u idle_n [of qpd1] show ?thesis
    by (auto simp: register_process_def dqm_counts_def proc_sum_def)
next
  case False
  with assms show ?thesis by (simp add: register_process_def)
qed

lemma unlink_process_None: "unlink_process p qs = None \<Longrightarrow> \<forall>x \<in> set qs. qpd_ptr x \<noteq> p"
  by (induction qs) (auto split: if_splits)

lemma unlink_process_Some:
  assumes "unlink_process p qs = Some rest"
  obtains xs qpd ys where "qs = xs @ qpd # ys" "rest = xs @ ys" "qpd_ptr qpd = p" "p \<notin> qpd_ptr ` set xs"
  using assms
proof (induction qs arbitrary: rest thesis)
  case (Cons a qs)
  show ?case
  proof (cases "p = qpd_ptr a")
    case True
    with Cons.prems show ?thesis by (intro Cons.prems(1) [of "[]" a qs]) auto
  next
    case False
    with Cons.prems obtain rest' where r: "unlink_process p qs = Some rest'" "rest = a # rest'" by auto
    obtain xs qpd ys where "qs = xs @ qpd # ys" "rest' = xs @ ys" "qpd_ptr qpd = p" "p \<notin> qpd_ptr ` set xs"
      by (rule Cons.IH [OF _ r(1)])
    with r False show ?thesis by (intro Cons.prems(1) [of "a # xs" qpd ys]) auto
  qed
qed simp

lemma find_ptr_split: "p \<notin> qpd_ptr ` set xs \<Longrightarrow> qpd_ptr qpd = p \<Longrightarrow> find (\<lambda>x. qpd_ptr x = p) (xs @ qpd # ys) = Some qpd"
  by (induction xs) auto

lemma unregister_process_counts:
  assumes inv: "dqm_counts dqm" and idle: "\<And>qpd. get_qpd dqm p = Some qpd \<Longrightarrow> idle qpd"
    and u: "unregister_process p dqm = (r, dqm')"
  shows "dqm_counts dqm'"
proof (cases "unlink_process p (dqm_queues dqm)")
  case None
  with u inv show ?thesis by (simp add: unregister_process_def)
next
  case (Some rest)
  obtain xs qpd ys where s: "dqm_queues dqm = xs @ qpd # ys" "rest = xs @ ys" "qpd_ptr qpd = p"
    "p \<notin> qpd_ptr ` set xs" by (rule unlink_process_Some [OF Some])
  have "get_qpd dqm p = Some qpd" unfolding get_qpd_def s(1) by (rule find_ptr_split [OF s(4,3)])
  from idle_n [OF idle [OF this]] u inv Some s show ?thesis
    by (auto simp: unregister_process_def dqm_counts_def proc_sum_def)
qed

lemma unregister_gone:
  assumes "dqm_counts dqm" shows "get_qpd (snd (unregister_process p dqm)) p = None"
proof (cases "unlink_process p (dqm_queues dqm)")
  case None
  then have "\<forall>x \<in> set (dqm_queues dqm). qpd_ptr x \<noteq> p"
    by (rule unlink_process_None)
  with None show ?thesis by (simp add: unregister_process_def get_qpd_def find_None_iff)
next
  case (Some rest)
  obtain xs qpd ys where s: "dqm_queues dqm = xs @ qpd # ys" "rest = xs @ ys" "qpd_ptr qpd = p"
    "p \<notin> qpd_ptr ` set xs" by (rule unlink_process_Some [OF Some])
  have "distinct (map qpd_ptr (dqm_queues dqm))" using assms by (simp add: dqm_counts_def)
  with s have "p \<notin> qpd_ptr ` set rest" by auto
  then have "\<forall>x \<in> set rest. qpd_ptr x \<noteq> p" by (metis image_eqI)
  with Some show ?thesis by (simp add: unregister_process_def get_qpd_def find_None_iff)
qed

end
