(* ===== verification/Dqm_Nocpsch.thy ===== *)
theory Dqm_Nocpsch
  imports Dqm_Counters
begin

text \<open>
  The device queue manager without the hardware scheduler (\<^verbatim>\<open>*_nocpsch\<close> in
  \<^verbatim>\<open>kfd/kfd_device_queue_manager.c\<close>): the driver itself loads queues into hardware slots. Operations run
  under the manager's lock. \<^verbatim>\<open>create_queue_nocpsch\<close> drops the lock while it allocates the MQD, so it is
  two operations here, with a third that composes them.

  The record \<open>hw_env\<close> holds what the hardware and the rest of the kernel answer to the calls an
  operation makes.
\<close>

text \<open>What the driver passes to the scheduler firmware on MES (\<^verbatim>\<open>struct mes_add_queue_input\<close>).\<close>

datatype mes_queue_type = MES_QUEUE_TYPE_COMPUTE | MES_QUEUE_TYPE_SDMA

record mes_add_queue_input =
  mi_process_id :: u32
  mi_page_table_base_addr :: u64
  mi_process_va_start :: u64
  mi_process_va_end :: u64
  mi_process_quantum :: u64
  mi_process_context_addr :: u64
  mi_gang_quantum :: u64
  mi_gang_context_addr :: u64
  mi_inprocess_gang_priority :: u32
  mi_gang_global_priority_level :: u32
  mi_doorbell_offset :: u32
  mi_mqd_addr :: u64
  mi_wptr_addr :: u64
  mi_wptr_mc_addr :: u64
  mi_queue_type :: mes_queue_type
  mi_paging :: bool
  mi_tba_addr :: u64
  mi_tma_addr :: u64
  mi_trap_en :: bool
  mi_skip_process_ctx_clear :: bool
  mi_is_kfd_process :: bool
  mi_is_aql_queue :: bool
  mi_queue_size :: u32
  mi_exclusively_scheduled :: bool

record mes_remove_queue_input =
  mr_doorbell_offset :: u32
  mr_gang_context_addr :: u64

record hw_env =
  he_mes_add :: "mes_add_queue_input \<Rightarrow> retval"
  he_mes_remove :: "mes_remove_queue_input \<Rightarrow> retval"
  he_destroy_mqd :: "queue \<Rightarrow> retval"
  he_load_mqd :: "queue \<Rightarrow> retval"
  he_allocate_mqd :: "kfd_mem_obj option"
  he_current_mm :: bool
  he_mm :: bool
  he_pd_base :: u64
  he_jiffies :: u64
  he_fence_reads :: "u64 list"
  he_hiq_doorbell :: bool
  he_kzalloc :: bool
  he_sdma_counter :: u64
  he_wait :: retval
  he_ec_queue_new :: u64
  he_app_apu :: bool

text \<open>The ids of a checkpointed queue (\<^verbatim>\<open>struct kfd_criu_queue_priv_data\<close>).\<close>

record criu_queue =
  qd_sdma_id :: u32
  qd_doorbell_id :: u32

section \<open>Creating a queue\<close>

text \<open>The error exits, from the last label upwards.\<close>

definition nocpsch_deallocate_vmid ::
    "device_queue_manager \<Rightarrow> qcm_process_device \<Rightarrow> queue \<Rightarrow>
     device_queue_manager \<times> qcm_process_device \<times> queue" where
  "nocpsch_deallocate_vmid dqm qpd q =
     (if queues_list qpd = [] then deallocate_vmid dqm qpd q else (dqm, qpd, q))"

definition nocpsch_out_deallocate_hqd ::
    "device_queue_manager \<Rightarrow> qcm_process_device \<Rightarrow> queue \<Rightarrow>
     device_queue_manager \<times> qcm_process_device \<times> queue" where
  "nocpsch_out_deallocate_hqd dqm qpd q =
     nocpsch_deallocate_vmid
       (if qtype (properties q) = KFD_QUEUE_TYPE_COMPUTE then deallocate_hqd dqm q
        else if is_sdma_type (qtype (properties q)) then deallocate_sdma_queue dqm q
        else dqm) qpd q"

definition nocpsch_out_deallocate_doorbell ::
    "device_queue_manager \<Rightarrow> qcm_process_device \<Rightarrow> queue \<Rightarrow>
     device_queue_manager \<times> qcm_process_device \<times> queue" where
  "nocpsch_out_deallocate_doorbell dqm qpd q =
     nocpsch_out_deallocate_hqd dqm (deallocate_doorbell dqm qpd q) q"

text \<open>The part before the lock is dropped: everything up to the doorbell.\<close>

definition nocpsch_allocate_slot ::
    "device_queue_manager \<Rightarrow> qcm_process_device \<Rightarrow> queue \<Rightarrow> criu_queue option \<Rightarrow>
     retval \<times> device_queue_manager \<times> queue" where
  "nocpsch_allocate_slot dqm qpd q qd =
     (if qtype (properties q) = KFD_QUEUE_TYPE_COMPUTE then allocate_hqd dqm q
      else if is_sdma_type (qtype (properties q)) then
        (case allocate_sdma_queue dqm q (map_option qd_sdma_id qd) of
           (OK, dqm1, q1) \<Rightarrow>
             (OK, dqm1, asic_init_sdma_vm dqm1 q1 qpd)
         | (Err e, dqm1, q1) \<Rightarrow> (Err e, dqm1, q1))
      else (OK, dqm, q))"

definition create_queue_nocpsch_begin ::
    "device_queue_manager \<Rightarrow> queue \<Rightarrow> qcm_process_device \<Rightarrow> criu_queue option \<Rightarrow>
     retval \<times> device_queue_manager \<times> qcm_process_device \<times> queue" where
  "create_queue_nocpsch_begin dqm q qpd qd =
     (if total_queue_count dqm \<ge> max_num_of_queues_per_device (dqm_dev dqm)
      then (Err EPERM, dqm, qpd, q)
      else case (if queues_list qpd = [] then allocate_vmid dqm qpd q else (OK, dqm, qpd, q)) of
        (Err e, dqm1, qpd1, q1) \<Rightarrow> (Err e, dqm1, qpd1, q1)
      | (OK, dqm1, qpd1, q1) \<Rightarrow>
          let q2 = q1\<lparr>properties := (properties q1)\<lparr>vmid := of_nat (qpd_vmid qpd1),
                        is_evicted := evicted qpd1 \<noteq> 0, tba_addr := qpd_tba_addr qpd1,
                        tma_addr := qpd_tma_addr qpd1\<rparr>\<rparr> in
          (case nocpsch_allocate_slot dqm1 qpd1 q2 qd of
             (Err e, dqm2, q3) \<Rightarrow> (Err e, nocpsch_deallocate_vmid dqm2 qpd1 q3)
           | (OK, dqm2, q3) \<Rightarrow>
               (case allocate_doorbell dqm2 qpd1 q3 (map_option qd_doorbell_id qd) of
                  (Err e, qpd2, q4) \<Rightarrow> (Err e, nocpsch_out_deallocate_hqd dqm2 qpd2 q4)
                | (OK, qpd2, q4) \<Rightarrow> (OK, dqm2, qpd2, q4))))"

text \<open>The part after the lock is taken again; \<open>he_allocate_mqd\<close> is what the MQD allocation returned.\<close>

definition nocpsch_add_queue_to_list ::
    "device_queue_manager \<Rightarrow> qcm_process_device \<Rightarrow> queue \<Rightarrow> device_queue_manager \<times> qcm_process_device"
where
  "nocpsch_add_queue_to_list dqm qpd q =
     (let qpd1 = qpd\<lparr>queues_list := list_add_queue q (queues_list qpd), queue_count := queue_count qpd + 1\<rparr>;
          (dqm2, qpd2) = (if is_active (properties q) then increment_queue_count dqm qpd1 q
                          else (dqm, qpd1))
      in (dqm2\<lparr>total_queue_count := total_queue_count dqm2 + 1\<rparr>, qpd2))"

definition create_queue_nocpsch_finish ::
    "hw_env \<Rightarrow> device_queue_manager \<Rightarrow> queue \<Rightarrow> qcm_process_device \<Rightarrow> criu_queue option \<Rightarrow>
     retval \<times> device_queue_manager \<times> qcm_process_device" where
  "create_queue_nocpsch_finish env dqm q qpd qd =
     (let q1 = q\<lparr>mqd_mem_obj := he_allocate_mqd env\<rparr>;
          q2 = (if qd \<noteq> None then mqd_restore_active q1 else mqd_update_active q1);
          load = (if \<not> is_active (properties q2) \<or> \<not> sched_running dqm then OK
                  else if \<not> he_current_mm env then Err EFAULT
                  else he_load_mqd env q2) in
      if he_allocate_mqd env = None
      then (case nocpsch_out_deallocate_doorbell dqm qpd q1 of (dqm1, qpd1, _) \<Rightarrow> (Err ENOMEM, dqm1, qpd1))
      else case load of
        Err e \<Rightarrow> (case nocpsch_out_deallocate_doorbell dqm qpd q2 of (dqm1, qpd1, _) \<Rightarrow> (Err e, dqm1, qpd1))
      | OK \<Rightarrow> (OK, nocpsch_add_queue_to_list dqm qpd q2))"

definition create_queue_nocpsch ::
    "hw_env \<Rightarrow> queue \<Rightarrow> criu_queue option \<Rightarrow> device_queue_manager \<Rightarrow> qcm_process_device \<Rightarrow>
     retval \<times> device_queue_manager \<times> qcm_process_device" where
  "create_queue_nocpsch env q qd dqm qpd =
     (case create_queue_nocpsch_begin dqm q qpd qd of
        (Err e, dqm1, qpd1, _) \<Rightarrow> (Err e, dqm1, qpd1)
      | (OK, dqm1, qpd1, q1) \<Rightarrow> create_queue_nocpsch_finish env dqm1 q1 qpd1 qd)"

section \<open>Destroying a queue\<close>

text \<open>
  Resetting the wave fronts of a process (\<^verbatim>\<open>dbgdev_wave_reset_wavefronts\<close>) writes registers only. The SDMA branches
  of the original are alike.
\<close>

definition destroy_queue_nocpsch_locked ::
    "hw_env \<Rightarrow> queue \<Rightarrow> device_queue_manager \<Rightarrow> qcm_process_device \<Rightarrow>
     retval \<times> device_queue_manager \<times> qcm_process_device" where
  "destroy_queue_nocpsch_locked env q dqm qpd =
     (if qtype (properties q) \<noteq> KFD_QUEUE_TYPE_COMPUTE \<and> \<not> is_sdma_type (qtype (properties q))
      then (Err EINVAL, dqm, qpd)
      else
        let dqm1 = (if qtype (properties q) = KFD_QUEUE_TYPE_COMPUTE then deallocate_hqd dqm q
                    else deallocate_sdma_queue dqm q);
            dqm2 = dqm1\<lparr>total_queue_count := total_queue_count dqm1 - 1\<rparr>;
            qpd1 = deallocate_doorbell dqm2 qpd q in
        if \<not> sched_running dqm2 then (OK, dqm2, qpd1)
        else
          let r = he_destroy_mqd env q;
              qpd2 = (if r = Err ETIME then qpd1\<lparr>reset_wavefronts := True\<rparr> else qpd1);
              qpd3 = qpd2\<lparr>queues_list := list_del_queue q (queues_list qpd2)\<rparr>;
              (dqm4, qpd4, q4) =
                (if queues_list qpd3 = []
                 then deallocate_vmid dqm2 (qpd3\<lparr>reset_wavefronts := False\<rparr>) q
                 else (dqm2, qpd3, q));
              qpd5 = qpd4\<lparr>queue_count := queue_count qpd4 - 1\<rparr>;
              (dqm6, qpd6) = (if is_active (properties q4) then decrement_queue_count dqm4 qpd5 q4
                              else (dqm4, qpd5))
          in (r, dqm6, qpd6))"

definition destroy_queue_nocpsch ::
    "hw_env \<Rightarrow> queue \<Rightarrow> device_queue_manager \<Rightarrow> qcm_process_device \<Rightarrow>
     retval \<times> device_queue_manager \<times> qcm_process_device" where
  "destroy_queue_nocpsch env q dqm qpd =
     (case destroy_queue_nocpsch_locked env q dqm qpd of
        (OK, dqm1, qpd1) \<Rightarrow>
          (OK, dqm1, if is_sdma_type (qtype (properties q))
                     then qpd1\<lparr>sdma_past_activity_counter :=
                            sdma_past_activity_counter qpd1 + he_sdma_counter env\<rparr>
                     else qpd1)
      | (Err e, dqm1, qpd1) \<Rightarrow> (Err e, dqm1, qpd1))"

section \<open>Eviction\<close>

text \<open>\<^verbatim>\<open>if (retval && !ret) ret = retval\<close>\<close>

definition first_error :: "retval \<Rightarrow> retval \<Rightarrow> retval" where
  "first_error ret r = (if r \<noteq> OK \<and> ret = OK then r else ret)"

text \<open>The loop over the queues: the accumulated code, the manager, the process, and the queues changed.\<close>

fun evict_queues_nocpsch ::
    "hw_env \<Rightarrow> retval \<Rightarrow> device_queue_manager \<Rightarrow> qcm_process_device \<Rightarrow> queue list \<Rightarrow>
     retval \<times> device_queue_manager \<times> qcm_process_device \<times> queue list" where
  "evict_queues_nocpsch env ret dqm qpd [] = (ret, dqm, qpd, [])"
| "evict_queues_nocpsch env ret dqm qpd (q # qs) =
     (let q1 = q\<lparr>properties := (properties q)\<lparr>is_evicted := True\<rparr>\<rparr> in
      if \<not> is_active (properties q) then
        (case evict_queues_nocpsch env ret dqm qpd qs of (r, d, p, qs') \<Rightarrow> (r, d, p, q1 # qs'))
      else
        let q2 = q1\<lparr>properties := (properties q1)\<lparr>is_active := False\<rparr>\<rparr>;
            (dqm1, qpd1) = decrement_queue_count dqm qpd q2;
            ret1 = (if \<not> sched_running dqm1 then ret else first_error ret (he_destroy_mqd env q2)) in
        (case evict_queues_nocpsch env ret1 dqm1 qpd1 qs of (r, d, p, qs') \<Rightarrow> (r, d, p, q2 # qs')))"

definition evict_process_queues_nocpsch ::
    "hw_env \<Rightarrow> device_queue_manager \<Rightarrow> qcm_process_device \<Rightarrow>
     retval \<times> device_queue_manager \<times> qcm_process_device" where
  "evict_process_queues_nocpsch env dqm qpd =
     (let qpd1 = qpd\<lparr>evicted := evicted qpd + 1\<rparr> in
      if evicted qpd > 0 then (OK, dqm, qpd1)
      else case evict_queues_nocpsch env OK dqm (qpd1\<lparr>last_evict_timestamp := he_jiffies env\<rparr>)
                  (queues_list qpd1) of
             (r, dqm1, qpd2, qs) \<Rightarrow> (r, dqm1, qpd2\<lparr>queues_list := qs\<rparr>))"

fun restore_queues_nocpsch ::
    "hw_env \<Rightarrow> retval \<Rightarrow> device_queue_manager \<Rightarrow> qcm_process_device \<Rightarrow> queue list \<Rightarrow>
     retval \<times> device_queue_manager \<times> qcm_process_device \<times> queue list" where
  "restore_queues_nocpsch env ret dqm qpd [] = (ret, dqm, qpd, [])"
| "restore_queues_nocpsch env ret dqm qpd (q # qs) =
     (let q1 = q\<lparr>properties := (properties q)\<lparr>is_evicted := False\<rparr>\<rparr> in
      if \<not> QUEUE_IS_ACTIVE (properties q1) then
        (case restore_queues_nocpsch env ret dqm qpd qs of (r, d, p, qs') \<Rightarrow> (r, d, p, q1 # qs'))
      else
        let q2 = q1\<lparr>properties := (properties q1)\<lparr>is_active := True\<rparr>\<rparr>;
            (dqm1, qpd1) = increment_queue_count dqm qpd q2;
            ret1 = (if \<not> sched_running dqm1 then ret else first_error ret (he_load_mqd env q2)) in
        (case restore_queues_nocpsch env ret1 dqm1 qpd1 qs of (r, d, p, qs') \<Rightarrow> (r, d, p, q2 # qs')))"

definition restore_process_queues_nocpsch ::
    "hw_env \<Rightarrow> device_queue_manager \<Rightarrow> qcm_process_device \<Rightarrow>
     retval \<times> device_queue_manager \<times> qcm_process_device" where
  "restore_process_queues_nocpsch env dqm qpd =
     (if evicted qpd = 0 then (OK, dqm, qpd)
      else if evicted qpd > 1 then (OK, dqm, qpd\<lparr>evicted := evicted qpd - 1\<rparr>)
      else let qpd1 = qpd\<lparr>page_table_base := he_pd_base env\<rparr> in
        if \<not> he_mm env then (Err EFAULT, dqm, qpd1)
        else case restore_queues_nocpsch env OK dqm qpd1 (queues_list qpd1) of
               (r, dqm1, qpd2, qs) \<Rightarrow>
                 (r, dqm1, qpd2\<lparr>queues_list := qs, evicted := 0,
                    evict_duration_counter := evict_duration_counter qpd2 +
                      (he_jiffies env - last_evict_timestamp qpd2)\<rparr>))"

section \<open>Termination, start and stop\<close>

text \<open>
  \<^verbatim>\<open>process_termination_nocpsch\<close>. The loop ends when the list is empty, so it need not end: \<open>None\<close> stands for a loop
  that runs forever.
\<close>

partial_function (option) clear_queues_nocpsch ::
    "hw_env \<Rightarrow> retval \<Rightarrow> device_queue_manager \<Rightarrow> qcm_process_device \<Rightarrow>
     (retval \<times> device_queue_manager \<times> qcm_process_device) option" where
  "clear_queues_nocpsch env ret dqm qpd =
     (case queues_list qpd of
        [] \<Rightarrow> Some (ret, dqm, qpd)
      | q # _ \<Rightarrow>
          (case destroy_queue_nocpsch_locked env q dqm qpd of
             (r, dqm1, qpd1) \<Rightarrow> clear_queues_nocpsch env (if r \<noteq> OK then r else ret) dqm1 qpd1))"

definition process_termination_nocpsch ::
    "hw_env \<Rightarrow> nat \<Rightarrow> device_queue_manager \<Rightarrow> (retval \<times> device_queue_manager) option" where
  "process_termination_nocpsch env p dqm =
     (case get_qpd dqm p of
        None \<Rightarrow> Some (Err OOPS, dqm)
      | Some qpd \<Rightarrow>
          (case clear_queues_nocpsch env OK dqm qpd of
             None \<Rightarrow> None
           | Some (r, dqm1, qpd1) \<Rightarrow> Some (r, snd (unregister_process p (put_qpd qpd1 dqm1)))))"

definition start_nocpsch :: "bool \<Rightarrow> kq_env \<Rightarrow> device_queue_manager \<Rightarrow> retval \<times> device_queue_manager" where
  "start_nocpsch kz kenv dqm =
     (case (if asic_type (dqm_dev dqm) = CHIP_HAWAII then pm_init kz kenv dqm else (OK, dqm)) of
        (OK, dqm1) \<Rightarrow> (OK, dqm1\<lparr>sched_running := True\<rparr>)
      | (Err e, dqm1) \<Rightarrow> (Err e, dqm1))"

definition stop_nocpsch :: "device_queue_manager \<Rightarrow> retval \<times> device_queue_manager" where
  "stop_nocpsch dqm =
     (if \<not> sched_running dqm then (OK, dqm)
      else let dqm1 = (if asic_type (dqm_dev dqm) = CHIP_HAWAII then pm_uninit dqm else dqm)
           in (OK, dqm1\<lparr>sched_running := False\<rparr>))"

definition pre_reset :: "device_queue_manager \<Rightarrow> device_queue_manager" where
  "pre_reset dqm = dqm\<lparr>is_resetting := True\<rparr>"

section \<open>Accounting of the operations\<close>

lemma quiet_deallocate_vmid:
  "nocpsch_deallocate_vmid dqm qpd q = (dqm', qpd', q') \<Longrightarrow> quiet dqm qpd dqm' qpd' \<and> q_ptr q' = q_ptr q"
  by (auto simp: nocpsch_deallocate_vmid_def deallocate_vmid_def quiet_def counts_def procs_def split: if_splits)

lemma quiet_out_deallocate_hqd:
  "nocpsch_out_deallocate_hqd dqm qpd q = (dqm', qpd', q') \<Longrightarrow> quiet dqm qpd dqm' qpd' \<and> q_ptr q' = q_ptr q"
  using quiet_deallocate_vmid
  by (fastforce simp: nocpsch_out_deallocate_hqd_def quiet_def split: if_splits)

lemma quiet_out_deallocate_doorbell:
  "nocpsch_out_deallocate_doorbell dqm qpd q = (dqm', qpd', q') \<Longrightarrow> quiet dqm qpd dqm' qpd' \<and> q_ptr q' = q_ptr q"
  using quiet_out_deallocate_hqd
  by (fastforce simp: nocpsch_out_deallocate_doorbell_def quiet_def)

lemma allocate_q_ptr:
  "allocate_sdma_queue dqm q r = (rv, dqm1, q1) \<Longrightarrow> q_ptr q1 = q_ptr q"
  "allocate_hqd dqm q = (rv, dqm1, q1) \<Longrightarrow> q_ptr q1 = q_ptr q"
  "allocate_vmid dqm qpd q = (rv, dqm1, qpd1, q1) \<Longrightarrow> q_ptr q1 = q_ptr q"
  "allocate_doorbell dqm qpd q r = (rv, qpd1, q1) \<Longrightarrow> q_ptr q1 = q_ptr q"
  by (auto simp: allocate_sdma_queue_def allocate_hqd_def allocate_vmid_def allocate_doorbell_def Let_def
      split: if_splits sum.splits option.splits)

lemma quiet_allocate_slot:
  "nocpsch_allocate_slot dqm qpd q qd = (r, dqm', q') \<Longrightarrow> quiet dqm qpd dqm' qpd \<and> q_ptr q' = q_ptr q"
  by (auto simp: nocpsch_allocate_slot_def quiet_def dest: dqm_frame allocate_q_ptr
      split: if_splits prod.splits retval.splits)

lemma quiet_create_begin:
  assumes "create_queue_nocpsch_begin dqm q qpd qd = (r, dqm', qpd', q')"
  shows "quiet dqm qpd dqm' qpd' \<and> q_ptr q' = q_ptr q"
proof (cases "total_queue_count dqm \<ge> max_num_of_queues_per_device (dqm_dev dqm)")
  case False
  let ?v = "if queues_list qpd = [] then allocate_vmid dqm qpd q else (OK, dqm, qpd, q)"
  obtain rv dqm1 qpd1 q1 where v: "?v = (rv, dqm1, qpd1, q1)" by (cases ?v) auto
  then have 1: "quiet dqm qpd dqm1 qpd1" "q_ptr q1 = q_ptr q"
    by (auto simp: quiet_def dest: dqm_frame allocate_q_ptr split: if_splits)
  define q2 where "q2 = q1\<lparr>properties := (properties q1)\<lparr>vmid := of_nat (qpd_vmid qpd1),
    is_evicted := evicted qpd1 \<noteq> 0, tba_addr := qpd_tba_addr qpd1, tma_addr := qpd_tma_addr qpd1\<rparr>\<rparr>"
  obtain rs dqm2 q3 where s: "nocpsch_allocate_slot dqm1 qpd1 q2 qd = (rs, dqm2, q3)"
    by (cases "nocpsch_allocate_slot dqm1 qpd1 q2 qd") auto
  from quiet_allocate_slot [OF s] 1 have 2: "quiet dqm qpd dqm2 qpd1" "q_ptr q3 = q_ptr q"
    by (auto simp: q2_def intro: quiet_trans)
  obtain rd qpd2 q4 where d: "allocate_doorbell dqm2 qpd1 q3 (map_option qd_doorbell_id qd) = (rd, qpd2, q4)"
    by (cases "allocate_doorbell dqm2 qpd1 q3 (map_option qd_doorbell_id qd)") auto
  then have 3: "quiet dqm qpd dqm2 qpd2" "q_ptr q4 = q_ptr q"
    using 2 by (auto simp: quiet_def dest: dqm_frame allocate_q_ptr)
  have eq: "create_queue_nocpsch_begin dqm q qpd qd =
      (case rv of Err e \<Rightarrow> (Err e, dqm1, qpd1, q1) | OK \<Rightarrow>
        (case rs of Err e \<Rightarrow> (Err e, nocpsch_deallocate_vmid dqm2 qpd1 q3)
         | OK \<Rightarrow> (case rd of Err e \<Rightarrow> (Err e, nocpsch_out_deallocate_hqd dqm2 qpd2 q4)
                   | OK \<Rightarrow> (OK, dqm2, qpd2, q4))))"
    using False by (simp add: create_queue_nocpsch_begin_def v s d q2_def [symmetric] split: retval.splits)
  obtain dv pv qv where dv: "nocpsch_deallocate_vmid dqm2 qpd1 q3 = (dv, pv, qv)"
    by (cases "nocpsch_deallocate_vmid dqm2 qpd1 q3")
  note 4 = quiet_deallocate_vmid [OF dv]
  obtain dh ph qh where dh: "nocpsch_out_deallocate_hqd dqm2 qpd2 q4 = (dh, ph, qh)"
    by (cases "nocpsch_out_deallocate_hqd dqm2 qpd2 q4")
  note 5 = quiet_out_deallocate_hqd [OF dh]
  show ?thesis
    using assms 1 2 3 4 5 quiet_trans [of dqm qpd dqm2 qpd1 dv pv] quiet_trans [of dqm qpd dqm2 qpd2 dh ph]
    unfolding eq dv dh by (auto split: retval.splits)
qed (use assms in \<open>simp add: create_queue_nocpsch_begin_def\<close>)

lemma add_queue_to_list_accounts:
  assumes "nocpsch_add_queue_to_list dqm qpd q = (dqm', qpd')" and "qpd_wf qpd"
    and "q_ptr q \<notin> q_ptr ` set (queues_list qpd)"
  shows "accounts dqm qpd dqm' qpd'"
proof -
  let ?p = "qpd\<lparr>queues_list := list_add_queue q (queues_list qpd), queue_count := queue_count qpd + 1\<rparr>"
  have wf: "qpd_wf ?p" using assms(2,3) by (auto simp: qpd_wf_def list_add_queue_def)
  show ?thesis
  proof (cases "is_active (properties q)")
    case True
    obtain d1 p1 where i: "increment_queue_count dqm ?p q = (d1, p1)" by fastforce
    with True assms(1) have e: "dqm' = d1\<lparr>total_queue_count := total_queue_count d1 + 1\<rparr>" "qpd' = p1"
      by (auto simp: nocpsch_add_queue_to_list_def)
    have v: "qview p1 = qview ?p" using i by (rule qview_count)
    have "procs dqm' = procs dqm" using procs_count(1) [OF i] by (simp add: e procs_def)
    moreover have "qpd_ptr p1 = qpd_ptr qpd" using v by (simp add: qview_def)
    ultimately show ?thesis
      using slack_add_active_queue [OF refl True i] qpd_wf_qview [OF v] wf by (simp add: e accounts_def)
  next
    case False
    with assms(1) have e: "dqm' = dqm\<lparr>total_queue_count := total_queue_count dqm + 1\<rparr>" "qpd' = ?p"
      by (auto simp: nocpsch_add_queue_to_list_def)
    show ?thesis using slack_add_queue [OF refl False] wf unfolding e by (simp add: procs_def accounts_def)
  qed
qed

lemma create_finish_accounts:
  assumes c: "create_queue_nocpsch_finish env dqm q qpd qd = (r, dqm', qpd')" and wf: "qpd_wf qpd"
    and f: "q_ptr q \<notin> q_ptr ` set (queues_list qpd)"
  shows "accounts dqm qpd dqm' qpd'"
proof -
  define q1 where "q1 = q\<lparr>mqd_mem_obj := he_allocate_mqd env\<rparr>"
  define q2 where "q2 = (if qd \<noteq> None then mqd_restore_active q1 else mqd_update_active q1)"
  define load where "load = (if \<not> is_active (properties q2) \<or> \<not> sched_running dqm then OK
    else if \<not> he_current_mm env then Err EFAULT else he_load_mqd env q2)"
  have q2: "q_ptr q2 = q_ptr q"
    by (simp add: q2_def q1_def mqd_restore_active_def mqd_update_active_def)
  obtain da pa qa where a: "nocpsch_out_deallocate_doorbell dqm qpd q1 = (da, pa, qa)"
    by (cases "nocpsch_out_deallocate_doorbell dqm qpd q1")
  obtain db pb qb where b: "nocpsch_out_deallocate_doorbell dqm qpd q2 = (db, pb, qb)"
    by (cases "nocpsch_out_deallocate_doorbell dqm qpd q2")
  obtain dl pl where l: "nocpsch_add_queue_to_list dqm qpd q2 = (dl, pl)"
    by (cases "nocpsch_add_queue_to_list dqm qpd q2")
  have eq: "create_queue_nocpsch_finish env dqm q qpd qd =
      (if he_allocate_mqd env = None then (Err ENOMEM, da, pa)
       else case load of Err e \<Rightarrow> (Err e, db, pb) | OK \<Rightarrow> (OK, dl, pl))"
    unfolding create_queue_nocpsch_finish_def Let_def q1_def [symmetric] q2_def [symmetric] load_def [symmetric]
      a b l by (simp split: retval.splits)
  show ?thesis
    using c quiet_out_deallocate_doorbell [OF a] quiet_out_deallocate_doorbell [OF b]
      add_queue_to_list_accounts [OF l wf, unfolded q2, OF f]
    unfolding eq by (auto split: retval.splits if_splits intro: quiet_accounts)
qed

interpretation create_nocpsch: process_operation "create_queue_nocpsch env q qd"
  "\<lambda>dqm qpd. q_ptr q \<notin> q_ptr ` set (queues_list qpd)" for env q qd
proof (rule process_operationI)
  fix dqm qpd r dqm' qpd'
  assume wf: "qpd_wf qpd" and f: "q_ptr q \<notin> q_ptr ` set (queues_list qpd)"
    and c: "create_queue_nocpsch env q qd dqm qpd = (r, dqm', qpd')"
  obtain r1 dqm1 qpd1 q1 where b: "create_queue_nocpsch_begin dqm q qpd qd = (r1, dqm1, qpd1, q1)"
    by (cases "create_queue_nocpsch_begin dqm q qpd qd")
  note qb = quiet_create_begin [OF b]
  then have a1: "accounts dqm qpd dqm1 qpd1" by (simp add: quiet_accounts)
  show "accounts dqm qpd dqm' qpd'"
  proof (cases r1)
    case OK
    with c b have fin: "create_queue_nocpsch_finish env dqm1 q1 qpd1 qd = (r, dqm', qpd')"
      by (simp add: create_queue_nocpsch_def)
    have "qpd_wf qpd1" using a1 wf by (simp add: accounts_def)
    moreover have "q_ptr q1 \<notin> q_ptr ` set (queues_list qpd1)"
      using qb f by (simp add: quiet_def qview_def)
    ultimately show ?thesis by (rule accounts_trans [OF a1 create_finish_accounts [OF fin]])
  next
    case (Err e)
    with c b a1 show ?thesis by (simp add: create_queue_nocpsch_def)
  qed
qed

lemma destroy_locked_post:
  assumes d: "destroy_queue_nocpsch_locked env q dqm qpd = (r, dqm', qpd')" and run: "sched_running dqm"
    and ty: "qtype (properties q) = KFD_QUEUE_TYPE_COMPUTE \<or> is_sdma_type (qtype (properties q))"
  shows "qview qpd' = (qpd_ptr qpd, list_del_queue q (queues_list qpd), priv_queue_list qpd, queue_count qpd - 1)"
    and "counts dqm' =
      (active_queue_count dqm - (if is_active (properties q) then 1 else 0),
       active_cp_queue_count dqm - (if is_active (properties q) then fst (snd (weight q)) else 0),
       gws_queue_count dqm - (if is_active (properties q) then snd (snd (weight q)) else 0),
       total_queue_count dqm - 1)"
    and "procs dqm' = procs dqm" and "sched_running dqm' = sched_running dqm" and "r = he_destroy_mqd env q"
proof -
  define dqm1 where "dqm1 = (if qtype (properties q) = KFD_QUEUE_TYPE_COMPUTE then deallocate_hqd dqm q
    else deallocate_sdma_queue dqm q)"
  define dqm2 where "dqm2 = dqm1\<lparr>total_queue_count := total_queue_count dqm1 - 1\<rparr>"
  define qpd1 where "qpd1 = deallocate_doorbell dqm2 qpd q"
  define qpd2 where "qpd2 = (if he_destroy_mqd env q = Err ETIME then qpd1\<lparr>reset_wavefronts := True\<rparr> else qpd1)"
  define qpd3 where "qpd3 = qpd2\<lparr>queues_list := list_del_queue q (queues_list qpd2)\<rparr>"
  obtain dqm4 qpd4 q4 where v: "(if queues_list qpd3 = []
      then deallocate_vmid dqm2 (qpd3\<lparr>reset_wavefronts := False\<rparr>) q else (dqm2, qpd3, q)) = (dqm4, qpd4, q4)"
    by (metis prod.exhaust)
  define qpd5 where "qpd5 = qpd4\<lparr>queue_count := queue_count qpd4 - 1\<rparr>"
  obtain dqm6 qpd6 where w: "(if is_active (properties q4) then decrement_queue_count dqm4 qpd5 q4
      else (dqm4, qpd5)) = (dqm6, qpd6)"
    by (metis prod.exhaust)
  have c1: "counts dqm1 = counts dqm" "procs dqm1 = procs dqm" "sched_running dqm1 = sched_running dqm"
    by (simp_all add: dqm1_def) (simp add: deallocate_hqd_def deallocate_sdma_queue_def)
  have p2: "qview qpd2 = qview qpd" by (simp add: qpd2_def qpd1_def)
  have "queues_list qpd2 = queues_list qpd" using p2 by (simp add: qview_def)
  then have p3: "qview qpd3 = (qpd_ptr qpd, list_del_queue q (queues_list qpd), priv_queue_list qpd, queue_count qpd)"
    using p2 by (simp add: qview_def qpd3_def)
  have 4: "counts dqm4 = counts dqm2" "procs dqm4 = procs dqm2" "qview qpd4 = qview qpd3"
    "weight q4 = weight q" "is_active (properties q4) = is_active (properties q)"
    "sched_running dqm4 = sched_running dqm2"
    using v by (auto simp: deallocate_vmid_def counts_def procs_def split: if_splits)
  have e: "r = he_destroy_mqd env q" "dqm' = dqm6" "qpd' = qpd6"
    using d run ty c1 unfolding destroy_queue_nocpsch_locked_def Let_def dqm1_def [symmetric]
      dqm2_def [symmetric] qpd1_def [symmetric] qpd2_def [symmetric] qpd3_def [symmetric] v
      prod.case qpd5_def [symmetric] w
    by (auto simp: dqm2_def)
  have c2: "counts dqm2 = (active_queue_count dqm, active_cp_queue_count dqm, gws_queue_count dqm, total_queue_count dqm - 1)"
    "procs dqm2 = procs dqm"
    using c1 by (auto simp: dqm2_def counts_def procs_def)
  have q5: "qview qpd5 = (qpd_ptr qpd, list_del_queue q (queues_list qpd), priv_queue_list qpd, queue_count qpd - 1)"
    using p3 4(3) by (simp add: qpd5_def qview_def)
  show "r = he_destroy_mqd env q" by (rule e)
  show "qview qpd' = (qpd_ptr qpd, list_del_queue q (queues_list qpd), priv_queue_list qpd, queue_count qpd - 1)"
    using w q5 qview_count(2) [of dqm4 qpd5 q4 dqm6 qpd6] by (simp add: e split: if_splits)
  show "procs dqm' = procs dqm"
    using w 4(2) c2 procs_count(2) [of dqm4 qpd5 q4 dqm6 qpd6] by (simp add: e split: if_splits)
  show "sched_running dqm' = sched_running dqm"
    using w 4(6) c1 by (auto simp: e dqm2_def decrement_queue_count_def Let_def split: if_splits)
  show "counts dqm' =
      (active_queue_count dqm - (if is_active (properties q) then 1 else 0),
       active_cp_queue_count dqm - (if is_active (properties q) then fst (snd (weight q)) else 0),
       gws_queue_count dqm - (if is_active (properties q) then snd (snd (weight q)) else 0),
       total_queue_count dqm - 1)"
    using w c2 4 counts_decrement [of dqm4 qpd5 q4 dqm6 qpd6]
    by (auto simp: e counts_def split: if_splits)
qed

lemma destroy_locked_accounts:
  assumes "qpd_wf qpd" "q \<in> set (queues_list qpd)" "sched_running dqm"
    "destroy_queue_nocpsch_locked env q dqm qpd = (r, dqm', qpd')"
  shows "accounts dqm qpd dqm' qpd'"
proof (cases "qtype (properties q) = KFD_QUEUE_TYPE_COMPUTE \<or> is_sdma_type (qtype (properties q))")
  case True
  note p = destroy_locked_post [OF assms(4,3) True]
  show ?thesis by (rule slack_del_queue [OF assms(1,2) p(1,2,3)])
next
  case False
  with assms(4) show ?thesis by (auto simp: destroy_queue_nocpsch_locked_def)
qed

interpretation destroy_nocpsch: process_operation "destroy_queue_nocpsch env q"
  "\<lambda>dqm qpd. q \<in> set (queues_list qpd) \<and> sched_running dqm" for env q
proof (rule process_operationI)
  fix dqm qpd r dqm' qpd'
  assume wf: "qpd_wf qpd" and f: "q \<in> set (queues_list qpd) \<and> sched_running dqm"
    and c: "destroy_queue_nocpsch env q dqm qpd = (r, dqm', qpd')"
  obtain r1 dqm1 qpd1 where l: "destroy_queue_nocpsch_locked env q dqm qpd = (r1, dqm1, qpd1)"
    by (cases "destroy_queue_nocpsch_locked env q dqm qpd")
  from destroy_locked_accounts [OF wf _ _ l] f have a: "accounts dqm qpd dqm1 qpd1" by simp
  with c l show "accounts dqm qpd dqm' qpd'"
    by (cases r1) (auto simp: destroy_queue_nocpsch_def split: if_splits)
qed

section \<open>Eviction and restore\<close>

text \<open>What the loops do to a queue.\<close>

definition evict_queue :: "queue \<Rightarrow> queue" where
  "evict_queue q = q\<lparr>properties := (properties q)\<lparr>is_evicted := True, is_active := False\<rparr>\<rparr>"

definition restore_queue :: "queue \<Rightarrow> queue" where
  "restore_queue q =
     (let q1 = q\<lparr>properties := (properties q)\<lparr>is_evicted := False\<rparr>\<rparr>
      in q1\<lparr>properties := (properties q1)\<lparr>is_active := QUEUE_IS_ACTIVE (properties q1)\<rparr>\<rparr>)"

lemma evict_queue_simps [simp]:
  "q_ptr (evict_queue q) = q_ptr q" "weight (evict_queue q) = weight q"
  "is_active (properties (evict_queue q)) = False" "is_evicted (properties (evict_queue q)) = True"
  by (simp_all add: evict_queue_def weight_def)

lemma restore_queue_simps [simp]:
  "q_ptr (restore_queue q) = q_ptr q" "weight (restore_queue q) = weight q"
  "is_evicted (properties (restore_queue q)) = False"
  by (simp_all add: restore_queue_def weight_def)

lemma is_active_idle_evict: "\<not> is_active (properties q) \<Longrightarrow>
    q\<lparr>properties := (properties q)\<lparr>is_evicted := True\<rparr>\<rparr> = evict_queue q"
  by (simp add: evict_queue_def)

lemma evict_loop:
  assumes "evict_queues_nocpsch env ret dqm qpd qs = (r, dqm', qpd', qs')"
  shows "moves dqm qs dqm' qs' \<and> qs' = map evict_queue qs \<and> (\<exists>b. qpd' = qpd\<lparr>mapped_gws_queue := b\<rparr>)"
  using assms
proof (induction env ret dqm qpd qs arbitrary: r dqm' qpd' qs' rule: evict_queues_nocpsch.induct)
  case (1 env ret dqm qpd)
  then show ?case by (auto intro!: exI [of _ "mapped_gws_queue qpd"])
next
  case (2 env ret dqm qpd q qs)
  let ?q1 = "q\<lparr>properties := (properties q)\<lparr>is_evicted := True\<rparr>\<rparr>"
  show ?case
  proof (cases "is_active (properties q)")
    case False
    obtain r1 d1 p1 qs1 where l: "evict_queues_nocpsch env ret dqm qpd qs = (r1, d1, p1, qs1)"
      by (metis prod_cases4)
    from 2(1) [OF refl False l] 2(3) False l show ?thesis
      by (auto simp: is_active_idle_evict intro!: moves_Cons [OF moves_flags])
  next
    case True
    have q2: "?q1\<lparr>properties := (properties ?q1)\<lparr>is_active := False\<rparr>\<rparr> = evict_queue q"
      by (simp add: evict_queue_def)
    obtain d1 p1 where dec: "decrement_queue_count dqm qpd (evict_queue q) = (d1, p1)" by fastforce
    define ret1 where "ret1 = (if \<not> sched_running d1 then ret else first_error ret (he_destroy_mqd env (evict_queue q)))"
    obtain r2 d2 p2 qs2 where l: "evict_queues_nocpsch env ret1 d1 p1 qs = (r2, d2, p2, qs2)"
      by (metis prod_cases4)
    have e: "dqm' = d2" "qpd' = p2" "qs' = evict_queue q # qs2"
      using 2(3) True unfolding evict_queues_nocpsch.simps Let_def q2 dec prod.case ret1_def [symmetric] l by auto
    have ih: "moves d1 qs d2 qs2 \<and> qs2 = map evict_queue qs \<and> (\<exists>b. p2 = p1\<lparr>mapped_gws_queue := b\<rparr>)"
      by (rule 2(2) [OF refl _ q2 [symmetric] dec [symmetric] refl _ l]) (use True in \<open>simp_all add: ret1_def\<close>)
    moreover have "moves dqm [q] d1 [evict_queue q]" by (rule moves_decrement [OF dec]) (simp_all add: True)
    ultimately show ?thesis using qpd_count(2) [OF dec] unfolding e by (auto intro: moves_Cons)
  qed
qed

lemma restore_loop:
  assumes "restore_queues_nocpsch env ret dqm qpd qs = (r, dqm', qpd', qs')"
    and "\<forall>q \<in> set qs. \<not> is_active (properties q)"
  shows "moves dqm qs dqm' qs' \<and> qs' = map restore_queue qs \<and> (\<exists>b. qpd' = qpd\<lparr>mapped_gws_queue := b\<rparr>)"
  using assms
proof (induction env ret dqm qpd qs arbitrary: r dqm' qpd' qs' rule: restore_queues_nocpsch.induct)
  case (1 env ret dqm qpd)
  then show ?case by (auto intro!: exI [of _ "mapped_gws_queue qpd"])
next
  case (2 env ret dqm qpd q qs)
  define q1 where "q1 = q\<lparr>properties := (properties q)\<lparr>is_evicted := False\<rparr>\<rparr>"
  have inact: "\<not> is_active (properties q)" and rest: "\<forall>q \<in> set qs. \<not> is_active (properties q)"
    using 2(4) by simp_all
  show ?case
  proof (cases "QUEUE_IS_ACTIVE (properties q1)")
    case False
    have rq: "q1 = restore_queue q" using False inact by (simp add: restore_queue_def q1_def)
    obtain r1 d1 p1 qs1 where l: "restore_queues_nocpsch env ret dqm qpd qs = (r1, d1, p1, qs1)"
      by (metis prod_cases4)
    have e: "dqm' = d1" "qpd' = p1" "qs' = restore_queue q # qs1"
      using 2(3) False unfolding restore_queues_nocpsch.simps Let_def q1_def [symmetric] l rq by auto
    have "is_active (properties (restore_queue q)) = is_active (properties q)"
      using inact unfolding rq [symmetric] by (simp add: q1_def)
    then have "moves dqm [q] dqm [restore_queue q]" by (intro moves_flags) simp_all
    with 2(1) [OF refl _ l rest] False show ?thesis unfolding e q1_def by (auto intro: moves_Cons)
  next
    case True
    have q2: "q1\<lparr>properties := (properties q1)\<lparr>is_active := True\<rparr>\<rparr> = restore_queue q"
      using True by (simp add: restore_queue_def q1_def)
    obtain d1 p1 where inc: "increment_queue_count dqm qpd (restore_queue q) = (d1, p1)" by fastforce
    define ret1 where "ret1 = (if \<not> sched_running d1 then ret else first_error ret (he_load_mqd env (restore_queue q)))"
    obtain r2 d2 p2 qs2 where l: "restore_queues_nocpsch env ret1 d1 p1 qs = (r2, d2, p2, qs2)"
      by (metis prod_cases4)
    have e: "dqm' = d2" "qpd' = p2" "qs' = restore_queue q # qs2"
      using 2(3) True unfolding restore_queues_nocpsch.simps Let_def q1_def [symmetric] q2 inc prod.case
        ret1_def [symmetric] l by auto
    have ih: "moves d1 qs d2 qs2 \<and> qs2 = map restore_queue qs \<and> (\<exists>b. p2 = p1\<lparr>mapped_gws_queue := b\<rparr>)"
      by (rule 2(2) [OF refl _ q2 [symmetric, unfolded q1_def] inc [symmetric] refl _ l rest])
        (use True in \<open>simp_all add: ret1_def q1_def\<close>)
    have "is_active (properties (restore_queue q))" using q2 [symmetric] by simp
    then have "moves dqm [q] d1 [restore_queue q]" by (intro moves_increment [OF inc]) (simp_all add: inact)
    with ih show ?thesis using qpd_count(1) [OF inc] unfolding e by (auto intro: moves_Cons)
  qed
qed

text \<open>The two operations on the process as a whole.\<close>

lemma evict_nocpsch_post:
  assumes "evict_process_queues_nocpsch env dqm qpd = (r, dqm', qpd')"
  shows "moves dqm (queues_list qpd) dqm' (queues_list qpd')"
    and "qview qpd' = (qpd_ptr qpd, queues_list qpd', priv_queue_list qpd, queue_count qpd)"
    and "evicted qpd' = evicted qpd + 1"
    and "queues_list qpd' = (if evicted qpd > 0 then queues_list qpd else map evict_queue (queues_list qpd))"
proof -
  have "moves dqm (queues_list qpd) dqm' (queues_list qpd') \<and>
      qview qpd' = (qpd_ptr qpd, queues_list qpd', priv_queue_list qpd, queue_count qpd) \<and>
      evicted qpd' = evicted qpd + 1 \<and>
      queues_list qpd' = (if evicted qpd > 0 then queues_list qpd else map evict_queue (queues_list qpd))"
  proof (cases "evicted qpd > 0")
    case True
    have "moves dqm qs dqm qs" for qs by (simp add: moves_def counts_def)
    with True assms show ?thesis by (auto simp: evict_process_queues_nocpsch_def qview_def)
  next
    case False
    define p1 where "p1 = qpd\<lparr>evicted := evicted qpd + 1, last_evict_timestamp := he_jiffies env\<rparr>"
    obtain r1 d1 p2 qs where l: "evict_queues_nocpsch env OK dqm p1 (queues_list qpd) = (r1, d1, p2, qs)"
      by (metis prod_cases4)
    have "dqm' = d1" "qpd' = p2\<lparr>queues_list := qs\<rparr>"
      using assms False l by (auto simp: evict_process_queues_nocpsch_def p1_def Let_def)
    with evict_loop [OF l] False show ?thesis by (auto simp: p1_def qview_def)
  qed
  then show "moves dqm (queues_list qpd) dqm' (queues_list qpd')"
    "qview qpd' = (qpd_ptr qpd, queues_list qpd', priv_queue_list qpd, queue_count qpd)"
    "evicted qpd' = evicted qpd + 1"
    "queues_list qpd' = (if evicted qpd > 0 then queues_list qpd else map evict_queue (queues_list qpd))"
    by blast+
qed

lemma restore_nocpsch_post:
  assumes "restore_process_queues_nocpsch env dqm qpd = (r, dqm', qpd')"
    and "evicted qpd = 1 \<Longrightarrow> \<forall>q \<in> set (queues_list qpd). \<not> is_active (properties q)"
  shows "moves dqm (queues_list qpd) dqm' (queues_list qpd')"
    and "qview qpd' = (qpd_ptr qpd, queues_list qpd', priv_queue_list qpd, queue_count qpd)"
    and "evicted qpd' = (if evicted qpd = 1 \<and> \<not> he_mm env \<or> evicted qpd = 0 then evicted qpd else evicted qpd - 1)"
    and "queues_list qpd' = (if evicted qpd = 1 \<and> he_mm env then map restore_queue (queues_list qpd) else queues_list qpd)"
proof -
  have m: "moves dqm qs dqm qs" for qs by (simp add: moves_def counts_def)
  have "moves dqm (queues_list qpd) dqm' (queues_list qpd') \<and>
      qview qpd' = (qpd_ptr qpd, queues_list qpd', priv_queue_list qpd, queue_count qpd) \<and>
      evicted qpd' = (if evicted qpd = 1 \<and> \<not> he_mm env \<or> evicted qpd = 0 then evicted qpd else evicted qpd - 1) \<and>
      queues_list qpd' = (if evicted qpd = 1 \<and> he_mm env then map restore_queue (queues_list qpd) else queues_list qpd)"
  proof (cases "evicted qpd = 1 \<and> he_mm env")
    case True
    define p1 where "p1 = qpd\<lparr>page_table_base := he_pd_base env\<rparr>"
    obtain r1 d1 p2 qs where l: "restore_queues_nocpsch env OK dqm p1 (queues_list qpd) = (r1, d1, p2, qs)"
      by (metis prod_cases4)
    have "dqm' = d1" "qpd' = p2\<lparr>queues_list := qs, evicted := 0, evict_duration_counter :=
        evict_duration_counter p2 + (he_jiffies env - last_evict_timestamp p2)\<rparr>"
      using assms(1) True l by (auto simp: restore_process_queues_nocpsch_def p1_def Let_def)
    with restore_loop [OF l assms(2)] True show ?thesis by (auto simp: p1_def qview_def)
  next
    case False
    have "evicted qpd \<noteq> 0 \<Longrightarrow> evicted qpd \<noteq> 1 \<Longrightarrow> evicted qpd > 1"
      by (metis word_gt_0 word_le_less_eq word_less_1 not_le)
    with assms(1) False m show ?thesis
      by (auto simp: restore_process_queues_nocpsch_def qview_def Let_def split: if_splits)
  qed
  then show "moves dqm (queues_list qpd) dqm' (queues_list qpd')"
    "qview qpd' = (qpd_ptr qpd, queues_list qpd', priv_queue_list qpd, queue_count qpd)"
    "evicted qpd' = (if evicted qpd = 1 \<and> \<not> he_mm env \<or> evicted qpd = 0 then evicted qpd else evicted qpd - 1)"
    "queues_list qpd' = (if evicted qpd = 1 \<and> he_mm env then map restore_queue (queues_list qpd) else queues_list qpd)"
    by blast+
qed

interpretation evict_nocpsch: process_operation "evict_process_queues_nocpsch env" "\<lambda>_ _. True" for env
  by (rule process_operationI) (rule moves_accounts [OF evict_nocpsch_post(1,2)])

interpretation restore_nocpsch: process_operation "restore_process_queues_nocpsch env"
  "\<lambda>_ qpd. evicted qpd = 1 \<longrightarrow> (\<forall>q \<in> set (queues_list qpd). \<not> is_active (properties q))" for env
  by (rule process_operationI) (rule moves_accounts [OF restore_nocpsch_post(1,2)], auto)

section \<open>A failed creation gives everything back\<close>

definition slots_wf :: "device_queue_manager \<Rightarrow> bool" where
  "slots_wf dqm \<longleftrightarrow> hqd_wf dqm \<and> sdma_wf KFD_QUEUE_TYPE_SDMA dqm \<and> sdma_wf KFD_QUEUE_TYPE_SDMA_XGMI dqm"

text \<open>The fields of a queue that say which slots it holds.\<close>

definition slot_fields :: "queue \<Rightarrow> kfd_queue_type \<times> nat \<times> nat \<times> nat \<times> nat" where
  "slot_fields q = (qtype (properties q), pipe q, queue_slot q, sdma_id q, doorbell_id q)"

lemma asic_slot_fields [simp]: "slot_fields (asic_init_sdma_vm dqm q qpd) = slot_fields q"
  by (auto simp: asic_init_sdma_vm_def asic_ops_for_def device_queue_manager_init_cik_def slot_fields_def
      device_queue_manager_init_vi_def device_queue_manager_init_v9_def device_queue_manager_init_v10_def
      device_queue_manager_init_v11_def init_sdma_vm_def init_sdma_vm_v9_def init_sdma_vm_v10_def
      init_sdma_vm_v11_def split: if_splits)

definition release_slot :: "device_queue_manager \<Rightarrow> queue \<Rightarrow> device_queue_manager" where
  "release_slot dqm q =
     (if qtype (properties q) = KFD_QUEUE_TYPE_COMPUTE then deallocate_hqd dqm q
      else if is_sdma_type (qtype (properties q)) then deallocate_sdma_queue dqm q else dqm)"

lemma slot_undo:
  assumes "nocpsch_allocate_slot dqm qpd q qd = (r, dqm', q')" "slots_wf dqm"
  shows "dqm_dev dqm' = dqm_dev dqm \<and> qtype (properties q') = qtype (properties q) \<and> (r \<noteq> OK \<longrightarrow> dqm' = dqm)"
    and "r = OK \<Longrightarrow> pipe x = pipe q' \<Longrightarrow> queue_slot x = queue_slot q' \<Longrightarrow> sdma_id x = sdma_id q' \<Longrightarrow>
      qtype (properties x) = qtype (properties q) \<Longrightarrow> slot_tables (release_slot dqm' x) = slot_tables dqm"
proof -
  have w: "hqd_wf dqm" "sdma_wf KFD_QUEUE_TYPE_SDMA dqm" "sdma_wf KFD_QUEUE_TYPE_SDMA_XGMI dqm"
    using assms(2) by (simp_all add: slots_wf_def)
  have t: "allocate_hqd dqm q = (r, d, q1) \<Longrightarrow> dqm_dev d = dqm_dev dqm \<and>
        qtype (properties q1) = qtype (properties q) \<and> (r \<noteq> OK \<longrightarrow> d = dqm)"
    "allocate_sdma_queue dqm q rid = (r, d, q1) \<Longrightarrow> dqm_dev d = dqm_dev dqm \<and>
        qtype (properties q1) = qtype (properties q) \<and> (r \<noteq> OK \<longrightarrow> d = dqm)" for d q1 r rid
    by (auto simp: allocate_hqd_def allocate_sdma_queue_def Let_def split: option.splits sum.splits if_splits)
  have a: "qtype (properties (asic_init_sdma_vm d q1 p)) = qtype (properties q1)"
    "sdma_id (asic_init_sdma_vm d q1 p) = sdma_id q1" for d q1 p
    using asic_slot_fields [of d q1 p] by (simp_all add: slot_fields_def)
  show "dqm_dev dqm' = dqm_dev dqm \<and> qtype (properties q') = qtype (properties q) \<and> (r \<noteq> OK \<longrightarrow> dqm' = dqm)"
    using assms(1) by (auto simp: nocpsch_allocate_slot_def a split: if_splits prod.splits retval.splits dest: t)
  show "slot_tables (release_slot dqm' x) = slot_tables dqm" if "r = OK" "pipe x = pipe q'"
    "queue_slot x = queue_slot q'" "sdma_id x = sdma_id q'" "qtype (properties x) = qtype (properties q)"
    using assms(1) that hqd_roundtrip [OF w(1), of q dqm' q' x] sdma_roundtrip [OF w(2,3), of q _ dqm' _ x]
    by (auto simp: nocpsch_allocate_slot_def release_slot_def a split: if_splits prod.splits retval.splits)
qed

lemma vmid_undo:
  assumes "(if queues_list qpd = [] then allocate_vmid dqm qpd q else (OK, dqm, qpd, q)) = (OK, dqm1, qpd1, q1)"
    and "slot_tables dqm2 = slot_tables dqm1" "qpd_vmid qpd2 = qpd_vmid qpd1" "queues_list qpd2 = queues_list qpd"
    and "nocpsch_deallocate_vmid dqm2 qpd2 x = (dqm3, qpd3, y)"
  shows "slot_tables dqm3 = slot_tables dqm \<and> doorbell_bitmap qpd3 = doorbell_bitmap qpd2"
  using assms vmid_roundtrip [of dqm qpd q dqm1 qpd1 q1 dqm2 qpd2 x]
  by (auto simp: nocpsch_deallocate_vmid_def deallocate_vmid_def split: if_splits)

lemma slots_wf_vmid:
  assumes "(if queues_list qpd = [] then allocate_vmid dqm qpd q else (OK, dqm, qpd, q)) = (r, dqm1, qpd1, q1)"
  shows "slots_wf dqm1 = slots_wf dqm \<and> dqm_dev dqm1 = dqm_dev dqm \<and> doorbell_bitmap qpd1 = doorbell_bitmap qpd \<and>
    queues_list qpd1 = queues_list qpd \<and> (r \<noteq> OK \<longrightarrow> dqm1 = dqm) \<and> qtype (properties q1) = qtype (properties q)"
  using assms
  by (auto simp: allocate_vmid_def slots_wf_def hqd_wf_def sdma_wf_def sdma_free_def sdma_count_def
      get_num_sdma_queues_def get_num_xgmi_sdma_queues_def get_pipes_per_mec_def split: if_splits option.splits)

lemma doorbell_frame:
  "allocate_doorbell dqm qpd q r = (rv, qpd', q') \<Longrightarrow> qpd_vmid qpd' = qpd_vmid qpd \<and>
     queues_list qpd' = queues_list qpd \<and> qtype (properties q') = qtype (properties q) \<and> pipe q' = pipe q \<and>
     queue_slot q' = queue_slot q \<and> sdma_id q' = sdma_id q \<and>
     (rv \<noteq> OK \<longrightarrow> rv \<noteq> Err OOPS \<longrightarrow> doorbell_bitmap qpd' = doorbell_bitmap qpd)"
  by (auto simp: allocate_doorbell_def split: sum.splits option.splits)

lemma create_begin_undo:
  assumes b: "create_queue_nocpsch_begin dqm q qpd None = (r, dqm', qpd', q')" and wf: "slots_wf dqm"
    and nc: "r \<noteq> Err OOPS"
  shows "r \<noteq> OK \<Longrightarrow> slot_tables dqm' = slot_tables dqm \<and> doorbell_bitmap qpd' = doorbell_bitmap qpd"
    and "r = OK \<Longrightarrow> slot_fields x = slot_fields q' \<Longrightarrow>
      nocpsch_out_deallocate_doorbell dqm' qpd' x = (dqm'', qpd'', y) \<Longrightarrow>
      slot_tables dqm'' = slot_tables dqm \<and> doorbell_bitmap qpd'' = doorbell_bitmap qpd"
proof -
  let ?v = "if queues_list qpd = [] then allocate_vmid dqm qpd q else (OK, dqm, qpd, q)"
  obtain rv dqm1 qpd1 q1 where v: "?v = (rv, dqm1, qpd1, q1)" by (cases ?v) auto
  note vf = slots_wf_vmid [OF v]
  define q2 where "q2 = q1\<lparr>properties := (properties q1)\<lparr>vmid := of_nat (qpd_vmid qpd1),
    is_evicted := evicted qpd1 \<noteq> 0, tba_addr := qpd_tba_addr qpd1, tma_addr := qpd_tma_addr qpd1\<rparr>\<rparr>"
  obtain rs dqm2 q3 where s: "nocpsch_allocate_slot dqm1 qpd1 q2 None = (rs, dqm2, q3)"
    by (cases "nocpsch_allocate_slot dqm1 qpd1 q2 None") auto
  have wf1: "slots_wf dqm1" using vf wf by simp
  note sf = slot_undo(1) [OF s wf1]
  obtain rd qpd2 q4 where d: "allocate_doorbell dqm2 qpd1 q3 None = (rd, qpd2, q4)"
    by (cases "allocate_doorbell dqm2 qpd1 q3 None") auto
  note df = doorbell_frame [OF d]
  have eq0: "create_queue_nocpsch_begin dqm q qpd None =
      (if total_queue_count dqm \<ge> max_num_of_queues_per_device (dqm_dev dqm) then (Err EPERM, dqm, qpd, q)
       else case rv of Err e \<Rightarrow> (Err e, dqm1, qpd1, q1) | OK \<Rightarrow>
        (case rs of Err e \<Rightarrow> (Err e, nocpsch_deallocate_vmid dqm2 qpd1 q3)
         | OK \<Rightarrow> (case rd of Err e \<Rightarrow> (Err e, nocpsch_out_deallocate_hqd dqm2 qpd2 q4)
                   | OK \<Rightarrow> (OK, dqm2, qpd2, q4))))"
    by (simp add: create_queue_nocpsch_begin_def v s d q2_def [symmetric] split: retval.splits)
  note eq = eq0 [unfolded b]
  have rel: "slot_tables (release_slot dqm2 x) = slot_tables dqm1"
    if "rs = OK" "qtype (properties x) = qtype (properties q4)" "pipe x = pipe q4" "queue_slot x = queue_slot q4"
      "sdma_id x = sdma_id q4" for x
    using slot_undo(2) [OF s wf1, of x] that df sf by simp
  have hqd: "slot_tables d3 = slot_tables dqm \<and> doorbell_bitmap p3 = doorbell_bitmap p"
    if "nocpsch_out_deallocate_hqd dqm2 p x = (d3, p3, y)" "rv = OK" "rs = OK" "slot_fields x = slot_fields q4 \<or> x = q4"
      "qpd_vmid p = qpd_vmid qpd1" "queues_list p = queues_list qpd" for p x d3 p3 y
    using that rel [of x] v
    by (intro vmid_undo [of qpd dqm q dqm1 qpd1 q1 "release_slot dqm2 x" p x d3 p3 y])
      (auto simp: nocpsch_out_deallocate_hqd_def release_slot_def slot_fields_def)
  show "slot_tables dqm' = slot_tables dqm \<and> doorbell_bitmap qpd' = doorbell_bitmap qpd" if ne: "r \<noteq> OK"
  proof -
    consider "dqm' = dqm" "qpd' = qpd" | "rv \<noteq> OK" "dqm' = dqm1" "qpd' = qpd1"
      | "rv = OK" "rs \<noteq> OK" "nocpsch_deallocate_vmid dqm2 qpd1 q3 = (dqm', qpd', q')"
      | "rv = OK" "rs = OK" "rd = r" "nocpsch_out_deallocate_hqd dqm2 qpd2 q4 = (dqm', qpd', q')"
      using eq ne by (cases rv; cases rs; cases rd) (auto split: if_splits)
    then show ?thesis
    proof cases
      case 3
      with sf have "slot_tables dqm2 = slot_tables dqm1" by simp
      from vmid_undo [OF v [unfolded 3(1)] this refl _ 3(3)] vf show ?thesis by simp
    next
      case 4
      from hqd [OF 4(4,1,2)] df vf nc ne 4(3) show ?thesis by simp
    qed (use vf in simp_all)
  qed
  show "slot_tables dqm'' = slot_tables dqm \<and> doorbell_bitmap qpd'' = doorbell_bitmap qpd"
    if "r = OK" "slot_fields x = slot_fields q'" "nocpsch_out_deallocate_doorbell dqm' qpd' x = (dqm'', qpd'', y)"
  proof -
    from eq that(1) have o: "rv = OK" "rs = OK" "rd = OK" "dqm' = dqm2" "qpd' = qpd2" "q' = q4"
      by (auto split: if_splits retval.splits)
    let ?p = "deallocate_doorbell dqm2 qpd2 x"
    have "doorbell_bitmap ?p = doorbell_bitmap qpd1"
      by (rule doorbell_roundtrip [OF d [unfolded o(3)]])
        (use that(2) df o in \<open>auto simp: slot_fields_def\<close>)
    moreover have "qpd_vmid ?p = qpd_vmid qpd1" "queues_list ?p = queues_list qpd"
      using df vf by (auto simp: deallocate_doorbell_def)
    ultimately show ?thesis
      using hqd [of ?p x dqm'' qpd'' y] that o vf by (auto simp: nocpsch_out_deallocate_doorbell_def)
  qed
qed

lemma create_finish_fails:
  assumes "create_queue_nocpsch_finish env dqm q qpd qd = (Err e, dqm', qpd')"
  obtains x y where "slot_fields x = slot_fields q" "nocpsch_out_deallocate_doorbell dqm qpd x = (dqm', qpd', y)"
proof -
  define q1 where "q1 = q\<lparr>mqd_mem_obj := he_allocate_mqd env\<rparr>"
  define q2 where "q2 = (if qd \<noteq> None then mqd_restore_active q1 else mqd_update_active q1)"
  have "slot_fields q1 = slot_fields q" "slot_fields q2 = slot_fields q"
    by (auto simp: slot_fields_def q1_def q2_def mqd_restore_active_def mqd_update_active_def)
  moreover have "\<exists>y. nocpsch_out_deallocate_doorbell dqm qpd q1 = (dqm', qpd', y) \<or>
      nocpsch_out_deallocate_doorbell dqm qpd q2 = (dqm', qpd', y)"
    using assms unfolding create_queue_nocpsch_finish_def Let_def q1_def [symmetric] q2_def [symmetric]
    by (auto split: if_splits retval.splits prod.splits)
  ultimately show thesis using that by metis
qed

text \<open>What a creation that succeeds has taken: a slot that was free, a free VMID for a first queue, and a free doorbell.\<close>

definition slot_taken :: "device_queue_manager \<Rightarrow> queue \<Rightarrow> device_queue_manager \<Rightarrow> bool" where
  "slot_taken dqm q dqm' \<longleftrightarrow>
     (if qtype (properties q) = KFD_QUEUE_TYPE_COMPUTE
      then pipe q < get_pipes_per_mec dqm \<and> bit (allocated_queues dqm ! pipe q) (queue_slot q) \<and>
        allocated_queues dqm' = (allocated_queues dqm)[pipe q := allocated_queues dqm ! pipe q AND NOT (push_bit (queue_slot q) 1)]
      else allocated_queues dqm' = allocated_queues dqm) \<and>
     (if qtype (properties q) = KFD_QUEUE_TYPE_SDMA
      then test_bit (sdma_id q) (sdma_bitmap dqm) \<and> sdma_bitmap dqm' = clear_bit_at (sdma_id q) (sdma_bitmap dqm)
      else sdma_bitmap dqm' = sdma_bitmap dqm) \<and>
     (if qtype (properties q) = KFD_QUEUE_TYPE_SDMA_XGMI
      then test_bit (sdma_id q) (xgmi_sdma_bitmap dqm) \<and> xgmi_sdma_bitmap dqm' = clear_bit_at (sdma_id q) (xgmi_sdma_bitmap dqm)
      else xgmi_sdma_bitmap dqm' = xgmi_sdma_bitmap dqm)"

definition vmid_taken :: "device_queue_manager \<Rightarrow> qcm_process_device \<Rightarrow> device_queue_manager \<Rightarrow> qcm_process_device \<Rightarrow> bool" where
  "vmid_taken dqm qpd dqm' qpd' \<longleftrightarrow>
     (if queues_list qpd = []
      then first_vmid_kfd (dqm_dev dqm) \<le> qpd_vmid qpd' \<and> qpd_vmid qpd' \<le> last_vmid_kfd (dqm_dev dqm) \<and>
        vmid_pasid dqm ! qpd_vmid qpd' = 0 \<and> vmid_pasid dqm' = (vmid_pasid dqm)[qpd_vmid qpd' := ucast (pasid qpd)]
      else qpd_vmid qpd' = qpd_vmid qpd \<and> vmid_pasid dqm' = vmid_pasid dqm)"

definition doorbell_taken :: "device_queue_manager \<Rightarrow> qcm_process_device \<Rightarrow> queue \<Rightarrow> qcm_process_device \<Rightarrow> bool" where
  "doorbell_taken dqm qpd q qpd' \<longleftrightarrow>
     (if soc15 (kfd (dqm_dev dqm)) \<and> \<not> is_sdma_type (qtype (properties q))
      then (case doorbell_bitmap qpd of
          None \<Rightarrow> False
        | Some bm \<Rightarrow> doorbell_id q < KFD_MAX_NUM_OF_QUEUES_PER_PROCESS \<and> \<not> test_bit (doorbell_id q) bm \<and>
            doorbell_bitmap qpd' = Some (set_bit_at (doorbell_id q) bm))
      else doorbell_bitmap qpd' = doorbell_bitmap qpd)"

lemma allocate_slot_takes:
  assumes s: "nocpsch_allocate_slot dqm qpd q None = (OK, dqm', q')" and wf: "slots_wf dqm"
  shows "slot_taken dqm q' dqm' \<and> vmid_pasid dqm' = vmid_pasid dqm \<and> vmid (properties q') = vmid (properties q)"
proof -
  have w: "hqd_wf dqm" "sdma_wf KFD_QUEUE_TYPE_SDMA dqm" "sdma_wf KFD_QUEUE_TYPE_SDMA_XGMI dqm"
    using wf by (simp_all add: slots_wf_def)
  have h: "pipe q1 < get_pipes_per_mec dqm \<and> bit (allocated_queues dqm ! pipe q1) (queue_slot q1)"
    if h: "allocate_hqd dqm q = (OK, d, q1)" for d q1
  proof -
    obtain p where f: "find_hqd_pipe dqm (next_pipe_to_allocate dqm) (get_pipes_per_mec dqm) = Some p"
      using h by (auto simp: allocate_hqd_def split: option.splits)
    then have "q1 = q\<lparr>pipe := p, queue_slot := lowest_bit (allocated_queues dqm ! p)\<rparr>"
      using h by (auto simp: allocate_hqd_def Let_def)
    with find_hqd_pipe_Some [OF f] lowest_bit_set [of "allocated_queues dqm ! p"] w(1) show ?thesis by (auto simp: hqd_wf_def)
  qed
  have t: "test_bit b (sdma_free ty dqm)"
    if "take_sdma_bit (sdma_free ty dqm) (sdma_count ty dqm) None = Inr b" "sdma_wf ty dqm" for b ty
    using take_sdma_bit_ok [OF that(1)] that(2) by (auto simp: sdma_wf_def bits_of_def)
  have a: "slot_fields (asic_init_sdma_vm d x p) = slot_fields x \<and> vmid (properties (asic_init_sdma_vm d x p)) = vmid (properties x)"
    for d x p
    by (auto simp: asic_init_sdma_vm_def asic_ops_for_def device_queue_manager_init_cik_def slot_fields_def
      device_queue_manager_init_vi_def device_queue_manager_init_v9_def device_queue_manager_init_v10_def
      device_queue_manager_init_v11_def init_sdma_vm_def init_sdma_vm_v9_def init_sdma_vm_v10_def
      init_sdma_vm_v11_def split: if_splits)
  consider (c) "qtype (properties q) = KFD_QUEUE_TYPE_COMPUTE" | (s) "qtype (properties q) = KFD_QUEUE_TYPE_SDMA"
    | (x) "qtype (properties q) = KFD_QUEUE_TYPE_SDMA_XGMI"
    | (n) "qtype (properties q) \<noteq> KFD_QUEUE_TYPE_COMPUTE" "\<not> is_sdma_type (qtype (properties q))" by blast
  then show ?thesis
  proof cases
    case c
    then have e: "allocate_hqd dqm q = (OK, dqm', q')" using s by (simp add: nocpsch_allocate_slot_def)
    from h [OF e] e c show ?thesis by (auto simp: allocate_hqd_def slot_taken_def Let_def split: option.splits)
  next
    case s
    then obtain d1 q1 where e: "allocate_sdma_queue dqm q None = (OK, d1, q1)" "dqm' = d1" "q' = asic_init_sdma_vm d1 q1 qpd"
      using assms(1) by (auto simp: nocpsch_allocate_slot_def split: prod.splits retval.splits)
    with s a [of d1 q1 qpd] t [of KFD_QUEUE_TYPE_SDMA, OF _ w(2)] show ?thesis
      by (auto simp: allocate_sdma_queue_def slot_taken_def sdma_free_def sdma_count_def slot_fields_def Let_def split: sum.splits)
  next
    case x
    then obtain d1 q1 where e: "allocate_sdma_queue dqm q None = (OK, d1, q1)" "dqm' = d1" "q' = asic_init_sdma_vm d1 q1 qpd"
      using assms(1) by (auto simp: nocpsch_allocate_slot_def split: prod.splits retval.splits)
    with x a [of d1 q1 qpd] t [of KFD_QUEUE_TYPE_SDMA_XGMI, OF _ w(3)] show ?thesis
      by (auto simp: allocate_sdma_queue_def slot_taken_def sdma_free_def sdma_count_def slot_fields_def Let_def split: sum.splits)
  next
    case n
    with s show ?thesis by (auto simp: nocpsch_allocate_slot_def slot_taken_def)
  qed
qed

lemma allocate_doorbell_takes:
  assumes "allocate_doorbell dqm qpd q None = (OK, qpd', q')"
  shows "doorbell_taken dqm qpd q' qpd' \<and> vmid (properties q') = vmid (properties q)"
proof -
  have f: "\<not> test_bit (find_first_zero_bit bm 1024) bm" if "find_first_zero_bit bm 1024 < 1024" for bm
    using find_first_zero_bit_least [OF that] by simp
  show ?thesis
    using assms f
    by (auto simp: allocate_doorbell_def choose_doorbell_def doorbell_taken_def Let_def unat_of_nat_small
      split: if_splits sum.splits option.splits)
qed

lemma create_begin_takes:
  assumes b: "create_queue_nocpsch_begin dqm q qpd None = (OK, dqm', qpd', q')" and wf: "slots_wf dqm"
  shows "slot_taken dqm q' dqm' \<and> vmid_taken dqm qpd dqm' qpd' \<and> doorbell_taken dqm qpd q' qpd' \<and>
    vmid (properties q') = of_nat (qpd_vmid qpd') \<and> qtype (properties q') = qtype (properties q)"
proof -
  let ?v = "if queues_list qpd = [] then allocate_vmid dqm qpd q else (OK, dqm, qpd, q)"
  obtain rv dqm1 qpd1 q1 where v: "?v = (rv, dqm1, qpd1, q1)" by (cases ?v) auto
  define q2 where "q2 = q1\<lparr>properties := (properties q1)\<lparr>vmid := of_nat (qpd_vmid qpd1),
    is_evicted := evicted qpd1 \<noteq> 0, tba_addr := qpd_tba_addr qpd1, tma_addr := qpd_tma_addr qpd1\<rparr>\<rparr>"
  obtain rs dqm2 q3 where s: "nocpsch_allocate_slot dqm1 qpd1 q2 None = (rs, dqm2, q3)"
    by (cases "nocpsch_allocate_slot dqm1 qpd1 q2 None") auto
  obtain rd qpd2 q4 where d: "allocate_doorbell dqm2 qpd1 q3 None = (rd, qpd2, q4)"
    by (cases "allocate_doorbell dqm2 qpd1 q3 None") auto
  have o: "rv = OK" "rs = OK" "rd = OK" "dqm' = dqm2" "qpd' = qpd2" "q' = q4"
    using b by (auto simp: create_queue_nocpsch_begin_def v s d q2_def [symmetric] split: retval.splits if_splits)
  note vf = slots_wf_vmid [OF v] and df = doorbell_frame [OF d]
  have wf1: "slots_wf dqm1" using vf wf by simp
  note sf = slot_undo(1) [OF s wf1] and st = allocate_slot_takes [OF s [unfolded o(2)] wf1]
    and dt = allocate_doorbell_takes [OF d [unfolded o(3)]]
  have "first_vmid_kfd (dqm_dev dqm) \<le> x \<and> x \<le> last_vmid_kfd (dqm_dev dqm) \<and> vmid_pasid dqm ! x = 0"
    if "find_free_vmid dqm = Some x" for x
    using that nth_mem [of _ "[first_vmid_kfd (dqm_dev dqm)..<Suc (last_vmid_kfd (dqm_dev dqm))]"]
    unfolding find_free_vmid_def find_Some_iff by (auto simp del: upt_Suc)
  then have v1: "allocated_queues dqm1 = allocated_queues dqm" "sdma_bitmap dqm1 = sdma_bitmap dqm"
    "xgmi_sdma_bitmap dqm1 = xgmi_sdma_bitmap dqm" "vmid_taken dqm qpd dqm1 qpd1"
    using v o(1) by (auto simp: allocate_vmid_def vmid_taken_def split: if_splits option.splits)
  have e: "qtype (properties q4) = qtype (properties q3)" "pipe q4 = pipe q3" "queue_slot q4 = queue_slot q3" "sdma_id q4 = sdma_id q3"
    "dqm_dev dqm1 = dqm_dev dqm" using df vf by simp_all
  have f: "dqm_dev dqm2 = dqm_dev dqm" "doorbell_bitmap qpd1 = doorbell_bitmap qpd" using vf sf by simp_all
  have "slot_taken dqm q' dqm'"
    using conjunct1 [OF st] unfolding o slot_taken_def get_pipes_per_mec_def e v1(1-3) .
  moreover have "vmid_taken dqm qpd dqm' qpd'" using v1(4) st df by (simp add: o vmid_taken_def)
  moreover have "doorbell_taken dqm qpd q' qpd'" using conjunct1 [OF dt] unfolding o doorbell_taken_def f .
  moreover have "vmid (properties q') = of_nat (qpd_vmid qpd')" using dt st df by (simp add: o q2_def)
  moreover have "qtype (properties q') = qtype (properties q)" using vf sf df by (simp add: o q2_def)
  ultimately show ?thesis by blast
qed

lemma create_finish_links:
  assumes "create_queue_nocpsch_finish env dqm q qpd None = (OK, dqm', qpd')"
  obtains x where "slot_fields x = slot_fields q" "q_ptr x = q_ptr q" "vmid (properties x) = vmid (properties q)"
    "mqd_mem_obj x = he_allocate_mqd env" "he_allocate_mqd env \<noteq> None" "queues_list qpd' = x # queues_list qpd"
    "queue_count qpd' = queue_count qpd + 1" "qpd_vmid qpd' = qpd_vmid qpd" "doorbell_bitmap qpd' = doorbell_bitmap qpd"
    "slot_tables dqm' = slot_tables dqm" "total_queue_count dqm' = total_queue_count dqm + 1"
    "active_queue_count dqm' = active_queue_count dqm + (if is_active (properties x) then 1 else 0)" "procs dqm' = procs dqm"
proof -
  define x where "x = mqd_update_active (q\<lparr>mqd_mem_obj := he_allocate_mqd env\<rparr>)"
  have f: "slot_fields x = slot_fields q" "q_ptr x = q_ptr q" "vmid (properties x) = vmid (properties q)"
    "mqd_mem_obj x = he_allocate_mqd env"
    by (simp_all add: x_def mqd_update_active_def slot_fields_def)
  have l: "nocpsch_add_queue_to_list dqm qpd x = (dqm', qpd')" "he_allocate_mqd env \<noteq> None"
    using assms unfolding create_queue_nocpsch_finish_def Let_def x_def
    by (auto split: if_splits retval.splits prod.splits)
  show thesis
    by (rule that [OF f l(2)])
      (use l(1) in \<open>auto simp: nocpsch_add_queue_to_list_def list_add_queue_def increment_queue_count_def slot_tables_def procs_def
         Let_def split: if_splits\<close>)
qed

text \<open>
  C37. Creating a queue without the hardware scheduler is all or nothing. When it succeeds, the new queue is at the head
  of the list of the process with its MQD, and holds a hardware slot or an SDMA queue that was free, a doorbell
  that was free and, if it is the first queue of the process, a VMID that was free; the counters have grown by it. When it
  fails, the hardware slots, the SDMA queues, the VMIDs and the doorbells are as before, as are the counters, the registered
  processes and the queue list of the process. (Restored ids are not range-checked, see \<open>restore_ids_unchecked\<close>; a
  crash is not an error return; the memory of the MQD belongs to the MQD manager.)
\<close>

theorem create_nocpsch_all_or_nothing:
  assumes c: "create_queue_nocpsch env q None dqm qpd = (r, dqm', qpd')" and wf: "slots_wf dqm" and nc: "r \<noteq> Err OOPS"
  shows "(r = OK \<longrightarrow> (\<exists>x. queues_list qpd' = x # queues_list qpd \<and> q_ptr x = q_ptr q \<and>
       qtype (properties x) = qtype (properties q) \<and> mqd_mem_obj x = he_allocate_mqd env \<and> mqd_mem_obj x \<noteq> None \<and>
       slot_taken dqm x dqm' \<and> doorbell_taken dqm qpd x qpd' \<and> vmid_taken dqm qpd dqm' qpd' \<and>
       vmid (properties x) = of_nat (qpd_vmid qpd') \<and> queue_count qpd' = queue_count qpd + 1 \<and>
       total_queue_count dqm' = total_queue_count dqm + 1 \<and>
       active_queue_count dqm' = active_queue_count dqm + (if is_active (properties x) then 1 else 0) \<and> procs dqm' = procs dqm)) \<and>
    (r \<noteq> OK \<longrightarrow> slot_tables dqm' = slot_tables dqm \<and> doorbell_bitmap qpd' = doorbell_bitmap qpd \<and>
       counts dqm' = counts dqm \<and> procs dqm' = procs dqm \<and> qview qpd' = qview qpd)"
proof -
  obtain r1 dqm1 qpd1 q1 where b: "create_queue_nocpsch_begin dqm q qpd None = (r1, dqm1, qpd1, q1)"
    by (metis prod_cases4)
  have q: "quiet dqm qpd dqm1 qpd1" "q_ptr q1 = q_ptr q" using quiet_create_begin [OF b] by simp_all
  show ?thesis
  proof (cases r1)
    case (Err e')
    with c b have e: "r = Err e'" "dqm' = dqm1" "qpd' = qpd1" by (auto simp: create_queue_nocpsch_def)
    with create_begin_undo(1) [OF b wf] Err nc q show ?thesis by (simp add: quiet_def)
  next
    case OK
    with c b have f: "create_queue_nocpsch_finish env dqm1 q1 qpd1 None = (r, dqm', qpd')"
      by (simp add: create_queue_nocpsch_def)
    show ?thesis
    proof (cases r)
      case (Err e)
      from f [unfolded Err] obtain x y where x: "slot_fields x = slot_fields q1"
        "nocpsch_out_deallocate_doorbell dqm1 qpd1 x = (dqm', qpd', y)"
        by (rule create_finish_fails)
      from create_begin_undo(2) [OF b wf _ OK x] OK quiet_out_deallocate_doorbell [OF x(2)] q Err
      show ?thesis by (simp add: quiet_def)
    next
      case rOK: OK
      note t = create_begin_takes [OF b [unfolded OK] wf]
      obtain x where x: "slot_fields x = slot_fields q1" "q_ptr x = q_ptr q1" "vmid (properties x) = vmid (properties q1)"
        "mqd_mem_obj x = he_allocate_mqd env" "he_allocate_mqd env \<noteq> None" "queues_list qpd' = x # queues_list qpd1"
        "queue_count qpd' = queue_count qpd1 + 1" "qpd_vmid qpd' = qpd_vmid qpd1" "doorbell_bitmap qpd' = doorbell_bitmap qpd1"
        "slot_tables dqm' = slot_tables dqm1" "total_queue_count dqm' = total_queue_count dqm1 + 1"
        "active_queue_count dqm' = active_queue_count dqm1 + (if is_active (properties x) then 1 else 0)" "procs dqm' = procs dqm1"
        using create_finish_links [OF f [unfolded rOK]] by blast
      have e: "qtype (properties x) = qtype (properties q1)" "pipe x = pipe q1" "queue_slot x = queue_slot q1"
        "sdma_id x = sdma_id q1" "doorbell_id x = doorbell_id q1" "allocated_queues dqm' = allocated_queues dqm1"
        "sdma_bitmap dqm' = sdma_bitmap dqm1" "xgmi_sdma_bitmap dqm' = xgmi_sdma_bitmap dqm1" "vmid_pasid dqm' = vmid_pasid dqm1"
        using x(1,10) by (simp_all add: slot_fields_def slot_tables_def)
      have "slot_taken dqm x dqm'" "doorbell_taken dqm qpd x qpd'" "vmid_taken dqm qpd dqm' qpd'"
        unfolding slot_taken_def doorbell_taken_def vmid_taken_def e x(8,9)
        using t unfolding slot_taken_def doorbell_taken_def vmid_taken_def by blast+
      with t x q rOK show ?thesis by (auto simp: quiet_def qview_def counts_def slot_fields_def)
    qed
  qed
qed

definition env_example :: hw_env where
  "env_example =
     \<lparr>he_mes_add = (\<lambda>_. OK), he_mes_remove = (\<lambda>_. OK), he_destroy_mqd = (\<lambda>_. OK), he_load_mqd = (\<lambda>_. OK),
      he_allocate_mqd = Some \<lparr>range_start = 0, range_end = 0, gpu_addr = 0x1000, cpu_ptr = 0x2000\<rparr>, he_current_mm = True, he_mm = True,
      he_pd_base = 0x7000, he_jiffies = 100, he_fence_reads = [100], he_hiq_doorbell = False, he_kzalloc = True,
      he_sdma_counter = 0, he_wait = OK, he_ec_queue_new = 1, he_app_apu = False\<rparr>"

lemma dqm_fresh_slots_wf: "slots_wf dqm_fresh"
proof -
  obtain d where "dqm_fresh = init_sdma_bitmaps d" "dqm_dev d = node_example"
    by (auto simp: dqm_fresh_def initialize_nocpsch_def dqm_example_def)
  then have "sdma_wf KFD_QUEUE_TYPE_SDMA_XGMI dqm_fresh"
    using init_sdma_wf(2) [of d]
    by (simp add: get_num_sdma_queues_def get_num_xgmi_sdma_queues_def kfd_get_num_sdma_engines_def
        kfd_get_num_xgmi_sdma_engines_def node_example_def)
  then show ?thesis by (simp add: slots_wf_def dqm_fresh_hqd_wf dqm_fresh_sdma_wf)
qed

theorem create_nocpsch_all_or_nothing_witness:
  "(\<exists>dqm' qpd'. create_queue_nocpsch (env_example\<lparr>he_allocate_mqd := None\<rparr>)
     (queue_example 7 KFD_QUEUE_TYPE_SDMA False) None dqm_fresh ((qpd_example 1 0x8001 [])\<lparr>proc_doorbells := Some 0x4000\<rparr>) = (Err ENOMEM, dqm', qpd') \<and>
     slot_tables dqm' = slot_tables dqm_fresh) \<and>
   (\<exists>dqm' qpd' x. create_queue_nocpsch env_example
     (queue_example 7 KFD_QUEUE_TYPE_SDMA False) None dqm_fresh ((qpd_example 1 0x8001 [])\<lparr>proc_doorbells := Some 0x4000\<rparr>) = (OK, dqm', qpd') \<and>
     queues_list qpd' = [x] \<and> q_ptr x = 7 \<and> slot_taken dqm_fresh x dqm' \<and> queue_count qpd' = 1)"
proof -
  let ?q = "queue_example 7 KFD_QUEUE_TYPE_SDMA False" and ?p = "(qpd_example 1 0x8001 [])\<lparr>proc_doorbells := Some 0x4000\<rparr>"
  let ?c = "create_queue_nocpsch (env_example\<lparr>he_allocate_mqd := None\<rparr>) ?q None dqm_fresh ?p"
    and ?s = "create_queue_nocpsch env_example ?q None dqm_fresh ?p"
  have "fst ?c = Err ENOMEM" by code_simp
  then obtain d p where c: "?c = (Err ENOMEM, d, p)" by (metis fst_conv prod_cases3)
  have "fst ?s = OK" by code_simp
  then obtain d' p' where s: "?s = (OK, d', p')" by (metis fst_conv prod_cases3)
  have "queues_list ?p = []" "queue_count ?p = 0" "q_ptr ?q = 7" by (simp_all add: qpd_example_def queue_example_def)
  with create_nocpsch_all_or_nothing [OF c dqm_fresh_slots_wf] c create_nocpsch_all_or_nothing [OF s dqm_fresh_slots_wf] s
  show ?thesis by auto
qed

text \<open>
  C38. Evicting a process and restoring it brings back exactly the queues and the counters it had; in between none
  of its queues is active and every one carries the eviction mark. The process must not be evicted before, and a
  queue must be active exactly if its properties allow it.
\<close>

theorem evict_restore_roundtrip:
  assumes ev: "evict_process_queues_nocpsch env dqm qpd = (r, dqm1, qpd1)"
    and re: "restore_process_queues_nocpsch env' dqm1 qpd1 = (r', dqm2, qpd2)"
    and st: "evicted qpd = 0" "he_mm env'"
    and qs: "\<forall>q \<in> set (queues_list qpd). \<not> is_evicted (properties q) \<and>
      is_active (properties q) = QUEUE_IS_ACTIVE (properties q)"
  shows "queues_list qpd2 = queues_list qpd \<and> evicted qpd2 = 0 \<and> counts dqm2 = counts dqm \<and>
    (\<forall>q \<in> set (queues_list qpd1). is_evicted (properties q) \<and> \<not> is_active (properties q)) \<and>
    active_queue_count dqm1 = active_queue_count dqm - act (queues_list qpd)"
proof -
  note e = evict_nocpsch_post [OF ev]
  have q1: "queues_list qpd1 = map evict_queue (queues_list qpd)" and e1: "evicted qpd1 = 1"
    using e(3,4) st by simp_all
  have in1: "\<forall>q \<in> set (queues_list qpd1). \<not> is_active (properties q)" by (simp add: q1)
  note p = restore_nocpsch_post [OF re in1]
  have "restore_queue (evict_queue q) = q" if "q \<in> set (queues_list qpd)" for q
  proof -
    have "\<not> is_evicted (properties q)" "is_active (properties q) = QUEUE_IS_ACTIVE (properties q)"
      using qs that by auto
    then show ?thesis by (cases q) (simp add: restore_queue_def evict_queue_def QUEUE_IS_ACTIVE_def)
  qed
  then have q2: "queues_list qpd2 = queues_list qpd" using p(4) q1 e1 st by (simp add: map_idI)
  have "act (queues_list qpd1) = 0" unfolding q1 by (simp add: act_def)
  then show ?thesis
    using e(1) p(1,3) q2 e1 st in1 q1 by (auto simp: moves_def counts_def)
qed

theorem evict_restore_roundtrip_witness:
  "let qpd = qpd_example 1 0x8001 [queue_example 11 KFD_QUEUE_TYPE_COMPUTE True,
        queue_example 13 KFD_QUEUE_TYPE_SDMA True];
       (r, dqm1, qpd1) = evict_process_queues_nocpsch env_example dqm_example qpd;
       (r', dqm2, qpd2) = restore_process_queues_nocpsch env_example dqm1 qpd1
   in queues_list qpd2 = queues_list qpd \<and> counts dqm2 = counts dqm_example"
proof -
  let ?q = "qpd_example 1 0x8001 [queue_example 11 KFD_QUEUE_TYPE_COMPUTE True,
        queue_example 13 KFD_QUEUE_TYPE_SDMA True]"
  obtain r d1 p1 where e: "evict_process_queues_nocpsch env_example dqm_example ?q = (r, d1, p1)"
    by (metis prod_cases3)
  obtain r' d2 p2 where re: "restore_process_queues_nocpsch env_example d1 p1 = (r', d2, p2)"
    by (metis prod_cases3)
  have "\<forall>q \<in> set (queues_list ?q). \<not> is_evicted (properties q) \<and>
      is_active (properties q) = QUEUE_IS_ACTIVE (properties q)"
    by (simp add: qpd_example_def queue_example_def zero_properties_def QUEUE_IS_ACTIVE_def)
  from evict_restore_roundtrip [OF e re _ _ this] e re show ?thesis
    by (simp add: qpd_example_def env_example_def)
qed

section \<open>Termination of a process\<close>

lemma clear_queues_ends:
  assumes "qpd_wf qpd" "sched_running dqm"
    "\<forall>q \<in> set (queues_list qpd). qtype (properties q) = KFD_QUEUE_TYPE_COMPUTE \<or> is_sdma_type (qtype (properties q))"
  shows "\<exists>r dqm' qpd'. clear_queues_nocpsch env ret dqm qpd = Some (r, dqm', qpd') \<and> queues_list qpd' = [] \<and>
    priv_queue_list qpd' = priv_queue_list qpd \<and> accounts dqm qpd dqm' qpd'"
  using assms
proof (induction "length (queues_list qpd)" arbitrary: qpd dqm ret)
  case 0
  then show ?case by (subst clear_queues_nocpsch.simps) simp
next
  case (Suc n)
  then obtain q qs where l: "queues_list qpd = q # qs" by (cases "queues_list qpd") auto
  obtain r1 d1 p1 where d: "destroy_queue_nocpsch_locked env q dqm qpd = (r1, d1, p1)" by (metis prod_cases3)
  have qin: "q \<in> set (queues_list qpd)" by (simp add: l)
  with Suc.prems have ty: "qtype (properties q) = KFD_QUEUE_TYPE_COMPUTE \<or> is_sdma_type (qtype (properties q))" by blast
  note post = destroy_locked_post [OF d Suc.prems(2) ty]
  have a: "accounts dqm qpd d1 p1" by (rule destroy_locked_accounts [OF Suc.prems(1) qin Suc.prems(2) d])
  have q1: "queues_list p1 = list_del_queue q (queues_list qpd)" "priv_queue_list p1 = priv_queue_list qpd"
    using post(1) by (simp_all add: qview_def)
  have dis: "distinct (map q_ptr (queues_list qpd))" using Suc.prems(1) by (simp add: qpd_wf_def)
  have "n = length (queues_list p1)" using list_del_queue_act(4) [OF dis qin] Suc(2) q1 by simp
  moreover have "qpd_wf p1" using a Suc.prems(1) by (simp add: accounts_def)
  moreover have "sched_running d1" using post(4) Suc.prems(2) by simp
  moreover have "\<forall>q \<in> set (queues_list p1). qtype (properties q) = KFD_QUEUE_TYPE_COMPUTE \<or> is_sdma_type (qtype (properties q))"
    using Suc.prems(3) by (simp add: q1 set_list_del_queue)
  ultimately obtain r2 d2 p2 where c: "clear_queues_nocpsch env (if r1 \<noteq> OK then r1 else ret) d1 p1 = Some (r2, d2, p2)"
    "queues_list p2 = []" "priv_queue_list p2 = priv_queue_list p1" "accounts d1 p1 d2 p2"
    using Suc(1) by blast
  have "clear_queues_nocpsch env ret dqm qpd = Some (r2, d2, p2)"
    by (subst clear_queues_nocpsch.simps) (simp add: l d c)
  with c q1 accounts_trans [OF a c(4)] show ?case by simp
qed

text \<open>
  C39. Terminating a process returns and removes it: while the manager runs and the queues of the process are
  compute or SDMA queues, \<^verbatim>\<open>process_termination_nocpsch\<close> ends whatever the hardware answers, the process is no longer
  registered, and the counters agree with the queues of the remaining processes.
\<close>

theorem process_termination_nocpsch_returns:
  assumes inv: "dqm_counts dqm" and g: "get_qpd dqm p = Some qpd" and run: "sched_running dqm"
    and ty: "\<forall>q \<in> set (queues_list qpd). qtype (properties q) = KFD_QUEUE_TYPE_COMPUTE \<or> is_sdma_type (qtype (properties q))"
    and pq: "priv_queue_list qpd = []"
  shows "\<exists>r dqm'. process_termination_nocpsch env p dqm = Some (r, dqm') \<and> dqm_counts dqm' \<and>
    get_qpd dqm' p = None"
proof -
  have wf: "qpd_wf qpd" "qpd_ptr qpd = p" using inv get_qpd_Some [OF g] by (auto simp: dqm_counts_def)
  obtain r d1 p1 where c: "clear_queues_nocpsch env OK dqm qpd = Some (r, d1, p1)" "queues_list p1 = []"
    "priv_queue_list p1 = priv_queue_list qpd" "accounts dqm qpd d1 p1"
    using clear_queues_ends [OF wf(1) run ty] by blast
  let ?d = "put_qpd p1 d1"
  have a: "slack d1 p1 = slack dqm qpd" "procs d1 = procs dqm" "qpd_wf p1" "qpd_ptr p1 = p"
    using c(4) wf by (simp_all add: accounts_def)
  have inv1: "dqm_counts ?d" by (rule dqm_counts_put [OF inv g a])
  have "idle p1" using c(2,3) pq a(3) by (simp add: idle_def qpd_wf_def)
  moreover have gd: "get_qpd ?d p = Some p1" using g a(2,4) by (simp add: get_put_qpd) (simp add: get_qpd_def procs_def)
  ultimately have inv2: "dqm_counts (snd (unregister_process p ?d))"
    using unregister_process_counts [OF inv1, of p] by (metis option.inject prod.collapse)
  have "get_qpd (snd (unregister_process p ?d)) p = None" by (rule unregister_gone [OF inv1])
  with inv2 g c(1) show ?thesis by (simp add: process_termination_nocpsch_def)
qed

lemma dqm_example_counts: "dqm_counts dqm_example"
  by (simp add: dqm_counts_def dqm_example_def qpd_example_def queue_example_def zero_properties_def proc_sum_def
      n_defs qpd_wf_def)

theorem process_termination_nocpsch_returns_witness:
  "\<exists>r dqm'. process_termination_nocpsch env_example 1 dqm_example = Some (r, dqm') \<and> dqm_counts dqm' \<and>
    get_qpd dqm' 1 = None"
proof -
  let ?p = "qpd_example 1 0x8001 [queue_example 11 KFD_QUEUE_TYPE_COMPUTE True,
    queue_example 12 KFD_QUEUE_TYPE_COMPUTE False]"
  have g: "get_qpd dqm_example 1 = Some ?p" by (simp add: get_qpd_def dqm_example_def qpd_example_def)
  show ?thesis
    by (rule process_termination_nocpsch_returns [OF dqm_example_counts g])
      (simp_all add: dqm_example_def qpd_example_def queue_example_def zero_properties_def)
qed

lemma destroy_stopped:
  assumes "\<not> sched_running dqm" "destroy_queue_nocpsch_locked env q dqm qpd = (r, dqm', qpd')"
  shows "\<not> sched_running dqm' \<and> queues_list qpd' = queues_list qpd"
  using assms
  by (auto simp: destroy_queue_nocpsch_locked_def deallocate_doorbell_def deallocate_hqd_def
      deallocate_sdma_queue_def Let_def split: if_splits)

lemma clear_queues_stopped:
  assumes "clear_queues_nocpsch env ret dqm qpd = Some y"
  shows "sched_running dqm \<or> queues_list qpd = []"
proof (rule clear_queues_nocpsch.raw_induct [OF _ assms, where P = "\<lambda>_ _ dqm qpd _. sched_running dqm \<or> queues_list qpd = []"])
  fix f :: "hw_env \<Rightarrow> retval \<Rightarrow> device_queue_manager \<Rightarrow> qcm_process_device \<Rightarrow>
     (retval \<times> device_queue_manager \<times> qcm_process_device) option" and env ret dqm qpd y
  assume ih: "\<And>env ret dqm qpd y. f env ret dqm qpd = Some y \<Longrightarrow> sched_running dqm \<or> queues_list qpd = []"
    and b: "(case queues_list qpd of [] \<Rightarrow> Some (ret, dqm, qpd)
      | q # _ \<Rightarrow> (case destroy_queue_nocpsch_locked env q dqm qpd of
             (r, dqm1, qpd1) \<Rightarrow> f env (if r \<noteq> OK then r else ret) dqm1 qpd1)) = Some y"
  show "sched_running dqm \<or> queues_list qpd = []"
  proof (cases "queues_list qpd")
    case (Cons q qs)
    obtain r1 d1 p1 where d: "destroy_queue_nocpsch_locked env q dqm qpd = (r1, d1, p1)" by (metis prod_cases3)
    with b Cons have "f env (if r1 \<noteq> OK then r1 else ret) d1 p1 = Some y" by simp
    from ih [OF this] destroy_stopped [OF _ d] Cons show ?thesis by (cases "sched_running dqm") auto
  qed simp
qed

text \<open>
  Terminating a process that still has queues after the manager was stopped never ends:
  \<^verbatim>\<open>destroy_queue_nocpsch_locked\<close> returns without unlinking the queue, so the loop of \<^verbatim>\<open>process_termination_nocpsch\<close> finds
  the same queue again and again (and frees its MQD each time).
\<close>

theorem process_termination_stopped_diverges:
  assumes "get_qpd dqm p = Some qpd" and "queues_list qpd \<noteq> []" and "\<not> sched_running dqm"
  shows "process_termination_nocpsch env p dqm = None"
  using assms clear_queues_stopped [of env OK dqm qpd]
  by (auto simp: process_termination_nocpsch_def split: option.splits)

theorem process_termination_stopped_diverges_witness:
  "process_termination_nocpsch env_example 1 (snd (stop_nocpsch dqm_example)) = None"
  by (rule process_termination_stopped_diverges [where qpd = "qpd_example 1 0x8001
        [queue_example 11 KFD_QUEUE_TYPE_COMPUTE True, queue_example 12 KFD_QUEUE_TYPE_COMPUTE False]"])
    (simp_all add: stop_nocpsch_def get_qpd_def dqm_example_def qpd_example_def node_example_def)

section \<open>Creation against eviction\<close>

lemma create_begin_flags:
  assumes "create_queue_nocpsch_begin dqm q qpd qd = (OK, dqm', qpd', q')"
  shows "is_evicted (properties q') = (evicted qpd \<noteq> 0) \<and> evicted qpd' = evicted qpd \<and>
    queue_size (properties q') = queue_size (properties q) \<and> queue_address (properties q') = queue_address (properties q) \<and>
    queue_percent (properties q') = queue_percent (properties q) \<and> is_suspended (properties q') = is_suspended (properties q)"
proof -
  let ?v = "if queues_list qpd = [] then allocate_vmid dqm qpd q else (OK, dqm, qpd, q)"
  obtain rv dqm1 qpd1 q1 where v: "?v = (rv, dqm1, qpd1, q1)" by (cases ?v) auto
  define q2 where "q2 = q1\<lparr>properties := (properties q1)\<lparr>vmid := of_nat (qpd_vmid qpd1),
    is_evicted := evicted qpd1 \<noteq> 0, tba_addr := qpd_tba_addr qpd1, tma_addr := qpd_tma_addr qpd1\<rparr>\<rparr>"
  obtain rs dqm2 q3 where s: "nocpsch_allocate_slot dqm1 qpd1 q2 qd = (rs, dqm2, q3)"
    by (cases "nocpsch_allocate_slot dqm1 qpd1 q2 qd") auto
  obtain rd qpd2 q4 where d: "allocate_doorbell dqm2 qpd1 q3 (map_option qd_doorbell_id qd) = (rd, qpd2, q4)"
    by (cases "allocate_doorbell dqm2 qpd1 q3 (map_option qd_doorbell_id qd)") auto
  have o: "qpd' = qpd2" "q' = q4"
    using assms by (auto simp: create_queue_nocpsch_begin_def v s d q2_def [symmetric] split: retval.splits if_splits)
  define flags where "flags = (\<lambda>q::queue. (queue_size (properties q), queue_address (properties q),
    queue_percent (properties q), is_suspended (properties q)))"
  have "flags q1 = flags q" "evicted qpd1 = evicted qpd"
    using v by (auto simp: allocate_vmid_def flags_def split: if_splits option.splits)
  moreover have "flags q2 = flags q1" "is_evicted (properties q2) = (evicted qpd1 \<noteq> 0)"
    by (simp_all add: q2_def flags_def)
  moreover have a: "flags (asic_init_sdma_vm d x p) = flags x" for d x p
    by (auto simp: asic_init_sdma_vm_def asic_ops_for_def device_queue_manager_init_cik_def flags_def
      device_queue_manager_init_vi_def device_queue_manager_init_v9_def device_queue_manager_init_v10_def
      device_queue_manager_init_v11_def init_sdma_vm_def init_sdma_vm_v9_def init_sdma_vm_v10_def
      init_sdma_vm_v11_def split: if_splits)
  have t: "flags q3 = flags q2 \<and> is_evicted (properties q3) = is_evicted (properties q2)"
    using s by (auto simp: nocpsch_allocate_slot_def a split: if_splits prod.splits retval.splits)
      (auto simp: allocate_hqd_def allocate_sdma_queue_def flags_def Let_def split: if_splits option.splits sum.splits)
  moreover have "flags q4 = flags q3 \<and> is_evicted (properties q4) = is_evicted (properties q3) \<and> evicted qpd2 = evicted qpd1"
    using d by (auto simp: allocate_doorbell_def flags_def split: sum.splits option.splits)
  ultimately show ?thesis by (simp add: o flags_def)
qed

text \<open>
  C40. The lock that \<^verbatim>\<open>create_queue_nocpsch\<close> drops around the MQD allocation lets an eviction in between: the new
  queue was marked before the lock was dropped, so it is linked active and unmarked into the evicted process, and the
  restore that follows counts it a second time.
\<close>

theorem create_eviction_race:
  assumes b: "create_queue_nocpsch_begin dqm q qpd None = (OK, dqm1, qpd1, q1)"
    and q: "queue_size (properties q) > 0" "queue_address (properties q) \<noteq> 0" "queue_percent (properties q) > 0"
      "\<not> is_suspended (properties q)"
    and ev: "evicted qpd = 0" "evict_process_queues_nocpsch env dqm1 qpd1 = (re, dqm2, qpd2)"
    and f: "create_queue_nocpsch_finish env dqm2 q1 qpd2 None = (OK, dqm3, qpd3)"
    and r: "restore_process_queues_nocpsch env dqm3 qpd3 = (rr, dqm4, qpd4)" "he_mm env"
  shows "evicted qpd3 = 1 \<and> (\<exists>x \<in> set (queues_list qpd3). is_active (properties x) \<and> \<not> is_evicted (properties x)) \<and>
    fst (slack dqm4 qpd4) = fst (slack dqm3 qpd3) + 1"
proof -
  note bf = create_begin_flags [OF b]
  note e = evict_nocpsch_post [OF ev(2)]
  define x where "x = mqd_update_active (q1\<lparr>mqd_mem_obj := he_allocate_mqd env\<rparr>)"
  have ne: "\<not> is_evicted (properties q1)" using bf ev(1) by simp
  have x: "is_active (properties x)" "\<not> is_evicted (properties x)" "QUEUE_IS_ACTIVE (properties x)"
    using bf q ne by (auto simp: x_def mqd_update_active_def QUEUE_IS_ACTIVE_def)
  have l: "nocpsch_add_queue_to_list dqm2 qpd2 x = (dqm3, qpd3)"
    using f unfolding create_queue_nocpsch_finish_def Let_def x_def
    by (auto split: if_splits retval.splits prod.splits)
  then obtain c where i: "increment_queue_count dqm2 (qpd2\<lparr>queues_list := x # queues_list qpd2, queue_count := c\<rparr>) x =
      (dqm3\<lparr>total_queue_count := total_queue_count dqm3 - 1\<rparr>, qpd3)"
    using x(1) by (auto simp: nocpsch_add_queue_to_list_def list_add_queue_def split: prod.splits)
  have q3: "queues_list qpd3 = x # queues_list qpd2" and e3: "evicted qpd3 = 1"
    using qpd_count(1) [OF i] e(3) bf ev(1) by auto
  have in2: "\<forall>q \<in> set (queues_list qpd2). \<not> is_active (properties q)" using e(4) bf ev(1) by auto
  define p1 where "p1 = qpd3\<lparr>page_table_base := he_pd_base env\<rparr>"
  define y where "y = x\<lparr>properties := (properties x)\<lparr>is_evicted := False, is_active := True\<rparr>\<rparr>"
  have y: "y = x" using x by (cases x) (simp add: y_def)
  obtain d5 p5 where inc: "increment_queue_count dqm3 p1 x = (d5, p5)" by fastforce
  define ret1 where "ret1 = (if \<not> sched_running d5 then OK else first_error OK (he_load_mqd env x))"
  obtain r6 d6 p6 qs6 where lp: "restore_queues_nocpsch env ret1 d5 p5 (queues_list qpd2) = (r6, d6, p6, qs6)"
    by (metis prod_cases4)
  note rl = restore_loop [OF lp in2]
  have xe: "x\<lparr>properties := (properties x)\<lparr>is_evicted := False\<rparr>\<rparr> = x" "x\<lparr>properties := (properties x)\<lparr>is_active := True\<rparr>\<rparr> = x"
    using x by (cases x, simp)+
  have "restore_queues_nocpsch env OK dqm3 p1 (queues_list p1) = (r6, d6, p6, x # qs6)"
    using x lp by (simp add: p1_def q3 xe inc [unfolded p1_def] Let_def ret1_def)
  then have r4: "dqm4 = d6" "queues_list qpd4 = x # qs6" "priv_queue_list qpd4 = priv_queue_list p6"
    using r e3 by (auto simp: restore_process_queues_nocpsch_def p1_def Let_def)
  have "priv_queue_list p6 = priv_queue_list qpd3"
    using rl qpd_count(1) [OF inc] by (auto simp: p1_def)
  moreover have "active_queue_count d6 = active_queue_count dqm3 + 1 + (act qs6 - act (queues_list qpd2))"
    using rl counts_increment [OF inc] by (simp add: moves_def counts_def)
  ultimately have "fst (slack dqm4 qpd4) = fst (slack dqm3 qpd3) + 1"
    by (simp add: slack_eq r4 q3 act_Cons x)
  then show ?thesis using e3 q3 x by auto
qed

text \<open>The interleaving on concrete data.\<close>

definition race_example ::
    "retval \<times> device_queue_manager \<times> qcm_process_device \<times> retval \<times> device_queue_manager \<times> qcm_process_device" where
  "race_example =
     (case create_queue_nocpsch_begin dqm_fresh (queue_example 7 KFD_QUEUE_TYPE_SDMA False)
             ((qpd_example 1 0x8001 [])\<lparr>proc_doorbells := Some 0x4000\<rparr>) None of
        (r1, dqm1, qpd1, q1) \<Rightarrow>
          (case evict_process_queues_nocpsch env_example dqm1 qpd1 of
             (re, dqm2, qpd2) \<Rightarrow> (r1, dqm2, qpd2, create_queue_nocpsch_finish env_example dqm2 q1 qpd2 None)))"

lemma race_example_ok: "fst race_example = OK" "fst (snd (snd (snd race_example))) = OK"
  by code_simp+

theorem create_eviction_race_witness:
  "case race_example of (r1, dqm2, qpd2, r3, dqm3, qpd3) \<Rightarrow>
     (case restore_process_queues_nocpsch env_example dqm3 qpd3 of
        (r4, dqm4, qpd4) \<Rightarrow> evicted qpd3 = 1 \<and> fst (slack dqm4 qpd4) = fst (slack dqm3 qpd3) + 1)"
proof -
  let ?q = "queue_example 7 KFD_QUEUE_TYPE_SDMA False"
    and ?p = "(qpd_example 1 0x8001 [])\<lparr>proc_doorbells := Some 0x4000\<rparr>"
  obtain r1 d1 p1 q1 where b: "create_queue_nocpsch_begin dqm_fresh ?q ?p None = (r1, d1, p1, q1)"
    by (metis prod_cases4)
  obtain re d2 p2 where e: "evict_process_queues_nocpsch env_example d1 p1 = (re, d2, p2)" by (metis prod_cases3)
  obtain r3 d3 p3 where f: "create_queue_nocpsch_finish env_example d2 q1 p2 None = (r3, d3, p3)"
    by (metis prod_cases3)
  obtain r4 d4 p4 where r: "restore_process_queues_nocpsch env_example d3 p3 = (r4, d4, p4)" by (metis prod_cases3)
  have x: "race_example = (r1, d2, p2, r3, d3, p3)" unfolding race_example_def b e f prod.case by (rule refl)
  from race_example_ok have ok: "r1 = OK" "r3 = OK" unfolding x by simp_all
  from create_eviction_race [OF b [unfolded ok] _ _ _ _ _ e f [unfolded ok] r]
  show ?thesis
    unfolding x prod.case r by (simp add: queue_example_def zero_properties_def qpd_example_def env_example_def)
qed

end
