(* ===== verification/Dqm_Cpsch.thy ===== *)
theory Dqm_Cpsch
  imports Dqm_Nocpsch
begin

text \<open>
  The device queue manager with a hardware scheduler (\<^verbatim>\<open>*_cpsch\<close> in \<^verbatim>\<open>kfd/kfd_device_queue_manager.c\<close>). Either the
  driver sends runlists over the HIQ (\<^verbatim>\<open>map_queues_cpsch\<close>, \<^verbatim>\<open>unmap_queues_cpsch\<close>), or it adds and removes single
  queues at the MES firmware.

  A runlist lists all registered processes, so the operations here work on the manager as a whole: an
  operation on a process gets its address, and writes the process back before the runlist is rebuilt.
  An address that is not registered is a null dereference (\<open>OOPS\<close>). The loop \<^verbatim>\<open>while (halt_if_hws_hang)\<close>, a
  debugging aid that stops the driver on purpose, is left out: the module parameter is taken to be 0.
\<close>

section \<open>The MES firmware\<close>

definition kfd_dbg_has_cwsr_workaround :: "kfd_node \<Rightarrow> bool" where
  "kfd_dbg_has_cwsr_workaround node \<longleftrightarrow>
     gc_version node \<ge> IP_VERSION 11 0 0 \<and> gc_version node \<le> IP_VERSION 11 0 3"

definition kfd_dbg_has_ttmps_always_setup :: "kfd_node \<Rightarrow> bool" where
  "kfd_dbg_has_ttmps_always_setup node \<longleftrightarrow>
     gc_version node < IP_VERSION 11 0 0 \<and> gc_version node \<noteq> IP_VERSION 9 4 2 \<or>
     gc_version node \<ge> IP_VERSION 11 0 0 \<and> gc_version node < IP_VERSION 12 0 0 \<and>
     mes_sched_version node AND 0xfff \<ge> 70"

definition kfd_dbg_is_per_vmid_supported :: "kfd_node \<Rightarrow> bool" where
  "kfd_dbg_is_per_vmid_supported node \<longleftrightarrow>
     gc_version node = IP_VERSION 9 4 2 \<or> gc_version node = IP_VERSION 9 4 3 \<or>
     gc_version node \<ge> IP_VERSION 11 0 0"

definition kfd_hws_hang :: "device_queue_manager \<Rightarrow> device_queue_manager" where
  "kfd_hws_hang dqm =
     (let dqm1 = dqm\<lparr>is_hws_hang := True\<rparr>
      in if \<not> is_resetting dqm1 then dqm1\<lparr>reset_scheduled := True\<rparr> else dqm1)"

definition convert_to_mes_queue_type :: "kfd_queue_type \<Rightarrow> errno + mes_queue_type" where
  "convert_to_mes_queue_type t =
     (if t = KFD_QUEUE_TYPE_COMPUTE then Inr MES_QUEUE_TYPE_COMPUTE
      else if t = KFD_QUEUE_TYPE_SDMA then Inr MES_QUEUE_TYPE_SDMA
      else Inl EINVAL)"

abbreviation (input) uses_mes :: "device_queue_manager \<Rightarrow> bool" where
  "uses_mes dqm \<equiv> enable_mes (kfd (dqm_dev dqm))"

text \<open>The request for one queue; \<open>wptr_bo\<close> is the GPU address of the buffer that holds the write pointer.\<close>

definition mes_queue_input ::
    "device_queue_manager \<Rightarrow> queue \<Rightarrow> qcm_process_device \<Rightarrow> mes_queue_type \<Rightarrow> mes_add_queue_input" where
  "mes_queue_input dqm q qpd ty =
     \<lparr>mi_process_id = pasid qpd, mi_page_table_base_addr = page_table_base qpd, mi_process_va_start = 0,
      mi_process_va_end = max_pfn (dqm_dev dqm) - 1, mi_process_quantum = 100000,
      mi_process_context_addr = proc_ctx_gpu_addr qpd, mi_gang_quantum = 10000,
      mi_gang_context_addr = gang_ctx_gpu_addr q, mi_inprocess_gang_priority = priority (properties q),
      mi_gang_global_priority_level = 1, mi_doorbell_offset = doorbell_off (properties q),
      mi_mqd_addr = gart_mqd_addr q, mi_wptr_addr = write_ptr (properties q),
      mi_wptr_mc_addr = (case wptr_bo q of None \<Rightarrow> 0
        | Some addr \<Rightarrow> addr + (write_ptr (properties q) AND (of_nat PAGE_SIZE - 1))),
      mi_queue_type = ty, mi_paging = False, mi_tba_addr = qpd_tba_addr qpd, mi_tma_addr = qpd_tma_addr qpd,
      mi_trap_en = (\<not> kfd_dbg_has_cwsr_workaround (dqm_dev dqm)),
      mi_skip_process_ctx_clear = (runtime_state_enabled qpd \<and>
        (debug_trap_enabled qpd \<or> kfd_dbg_has_ttmps_always_setup (dqm_dev dqm))),
      mi_is_kfd_process = True, mi_is_aql_queue = (qformat (properties q) = KFD_QUEUE_FORMAT_AQL),
      mi_queue_size = ucast (drop_bit 2 (queue_size (properties q))),
      mi_exclusively_scheduled = is_gws (properties q)\<rparr>"

definition add_queue_mes ::
    "hw_env \<Rightarrow> device_queue_manager \<Rightarrow> queue \<Rightarrow> qcm_process_device \<Rightarrow> retval \<times> device_queue_manager" where
  "add_queue_mes env dqm q qpd =
     (if is_hws_hang dqm then (Err EIO, dqm)
      else case convert_to_mes_queue_type (qtype (properties q)) of
        Inl _ \<Rightarrow> (Err EINVAL, dqm)
      | Inr ty \<Rightarrow>
          (case he_mes_add env (mes_queue_input dqm q qpd ty) of
             OK \<Rightarrow> (OK, dqm)
           | Err e \<Rightarrow> (Err e, kfd_hws_hang dqm)))"

definition remove_queue_mes ::
    "hw_env \<Rightarrow> device_queue_manager \<Rightarrow> queue \<Rightarrow> retval \<times> device_queue_manager" where
  "remove_queue_mes env dqm q =
     (if is_hws_hang dqm then (Err EIO, dqm)
      else case he_mes_remove env \<lparr>mr_doorbell_offset = doorbell_off (properties q),
                                   mr_gang_context_addr = gang_ctx_gpu_addr q\<rparr> of
             OK \<Rightarrow> (OK, dqm)
           | Err e \<Rightarrow> (Err e, kfd_hws_hang dqm))"

text \<open>\<^verbatim>\<open>remove_all_queues_mes\<close>: the two loops visit the active queues of all processes and stop at the first error.\<close>

fun remove_queues_mes :: "hw_env \<Rightarrow> device_queue_manager \<Rightarrow> queue list \<Rightarrow> retval \<times> device_queue_manager" where
  "remove_queues_mes env dqm [] = (OK, dqm)"
| "remove_queues_mes env dqm (q # qs) =
     (if \<not> is_active (properties q) then remove_queues_mes env dqm qs
      else case remove_queue_mes env dqm q of
             (OK, dqm1) \<Rightarrow> remove_queues_mes env dqm1 qs
           | (Err e, dqm1) \<Rightarrow> (Err e, dqm1))"

definition remove_all_queues_mes :: "hw_env \<Rightarrow> device_queue_manager \<Rightarrow> retval \<times> device_queue_manager" where
  "remove_all_queues_mes env dqm = remove_queues_mes env dqm (concat (map queues_list (dqm_queues dqm)))"

section \<open>Mapping and unmapping through the HIQ\<close>

text \<open>
  \<^verbatim>\<open>amdkfd_fence_wait_timeout\<close>: the list holds the values read from the fence until the time is over.
\<close>

fun amdkfd_fence_wait_timeout :: "u64 \<Rightarrow> u64 list \<Rightarrow> retval" where
  "amdkfd_fence_wait_timeout v [] = Err ETIME"
| "amdkfd_fence_wait_timeout v (x # xs) = (if x = v then OK else amdkfd_fence_wait_timeout v xs)"

abbreviation (input) pmfs :: "device_queue_manager \<Rightarrow> packet_manager_funcs" where
  "pmfs dqm \<equiv> pm_funcs (pmf (packet_mgr dqm))"

definition map_queues_cpsch :: "hw_env \<Rightarrow> device_queue_manager \<Rightarrow> retval \<times> device_queue_manager" where
  "map_queues_cpsch env dqm =
     (if \<not> sched_running dqm then (OK, dqm)
      else if active_queue_count dqm = 0 \<or> processes_count dqm = 0 then (OK, dqm)
      else if active_runlist dqm then (OK, dqm)
      else case pm_send_runlist (pmfs dqm) (he_kzalloc env) dqm of
             (Err e, dqm1) \<Rightarrow> (Err e, dqm1)
           | (OK, dqm1) \<Rightarrow> (OK, dqm1\<lparr>active_runlist := True\<rparr>))"

text \<open>The part after the unmap request was sent: fence, HIQ error check, grace period reset, release.\<close>

definition unmap_wait ::
    "hw_env \<Rightarrow> u32 \<Rightarrow> device_queue_manager \<Rightarrow> retval \<times> device_queue_manager" where
  "unmap_wait env grace_period dqm =
     (let dqm1 = dqm\<lparr>fence_value := KFD_FENCE_INIT\<rparr>;
          dqm2 = snd (pm_send_query_status (pmfs dqm) (fence_gpu_addr dqm1) KFD_FENCE_COMPLETED dqm1) in
      case amdkfd_fence_wait_timeout KFD_FENCE_COMPLETED (he_fence_reads env) of
        Err e \<Rightarrow> (Err e, kfd_hws_hang dqm2)
      | OK \<Rightarrow>
          (if he_hiq_doorbell env then (Err ETIME, kfd_hws_hang dqm2)
           else let dqm3 = (if grace_period \<noteq> USE_DEFAULT_GRACE_PERIOD
                            then snd (pm_update_grace_period (pmfs dqm2) USE_DEFAULT_GRACE_PERIOD dqm2)
                            else dqm2)
                in (OK, (pm_release_ib dqm3)\<lparr>active_runlist := False\<rparr>)))"

definition unmap_queues_cpsch ::
    "hw_env \<Rightarrow> kfd_unmap_queues_filter \<Rightarrow> u32 \<Rightarrow> u32 \<Rightarrow> bool \<Rightarrow> device_queue_manager \<Rightarrow>
     retval \<times> device_queue_manager" where
  "unmap_queues_cpsch env flt filter_param grace_period reset dqm =
     (if \<not> sched_running dqm then (OK, dqm)
      else if is_hws_hang dqm \<or> is_resetting dqm then (Err EIO, dqm)
      else if \<not> active_runlist dqm then (OK, dqm)
      else case (if grace_period \<noteq> USE_DEFAULT_GRACE_PERIOD
                 then pm_update_grace_period (pmfs dqm) grace_period dqm else (OK, dqm)) of
        (Err e, dqm1) \<Rightarrow> (Err e, dqm1)
      | (OK, dqm1) \<Rightarrow>
          (case pm_send_unmap_queue (pmfs dqm1) flt filter_param reset dqm1 of
             (Err e, dqm2) \<Rightarrow> (Err e, dqm2)
           | (OK, dqm2) \<Rightarrow> unmap_wait env grace_period dqm2))"

definition reset_queues_cpsch :: "hw_env \<Rightarrow> u16 \<Rightarrow> device_queue_manager \<Rightarrow> retval \<times> device_queue_manager" where
  "reset_queues_cpsch env pid dqm =
     unmap_queues_cpsch env KFD_UNMAP_QUEUES_FILTER_BY_PASID (ucast pid) USE_DEFAULT_GRACE_PERIOD True dqm"

definition execute_queues_cpsch ::
    "hw_env \<Rightarrow> kfd_unmap_queues_filter \<Rightarrow> u32 \<Rightarrow> u32 \<Rightarrow> device_queue_manager \<Rightarrow>
     retval \<times> device_queue_manager" where
  "execute_queues_cpsch env flt filter_param grace_period dqm =
     (if is_hws_hang dqm then (Err EIO, dqm)
      else case unmap_queues_cpsch env flt filter_param grace_period False dqm of
             (Err e, dqm1) \<Rightarrow> (Err e, dqm1)
           | (OK, dqm1) \<Rightarrow> map_queues_cpsch env dqm1)"

abbreviation (input) refresh :: "hw_env \<Rightarrow> device_queue_manager \<Rightarrow> retval \<times> device_queue_manager" where
  "refresh env \<equiv> execute_queues_cpsch env KFD_UNMAP_QUEUES_FILTER_DYNAMIC_QUEUES 0 USE_DEFAULT_GRACE_PERIOD"

section \<open>Scheduling resources, start and stop\<close>

text \<open>\<^verbatim>\<open>amdgpu_queue_mask_bit_to_set_resource_bit\<close> with the MEC, pipe and queue of a bit.\<close>

definition amdgpu_queue_mask_bit_to_mec_queue :: "kfd_node \<Rightarrow> nat \<Rightarrow> nat \<times> nat \<times> nat" where
  "amdgpu_queue_mask_bit_to_mec_queue node b =
     ((b div num_queue_per_pipe node) div num_pipe_per_mec node,
      (b div num_queue_per_pipe node) mod num_pipe_per_mec node, b mod num_queue_per_pipe node)"

definition amdgpu_queue_mask_bit_to_set_resource_bit :: "kfd_node \<Rightarrow> nat \<Rightarrow> nat" where
  "amdgpu_queue_mask_bit_to_set_resource_bit node queue_bit =
     (case amdgpu_queue_mask_bit_to_mec_queue node queue_bit of (m, p, qu) \<Rightarrow> m * 4 * 8 + p * 8 + qu)"

text \<open>The loop over the bits: it stops at the first enabled queue of the first MEC beyond bit 63.\<close>

fun sched_queue_mask :: "kfd_node \<Rightarrow> nat list \<Rightarrow> u64 \<Rightarrow> u64" where
  "sched_queue_mask node [] m = m"
| "sched_queue_mask node (i # is) m =
     (if \<not> test_bit i (cp_queue_bitmap node) then sched_queue_mask node is m
      else if (i div num_queue_per_pipe node) div num_pipe_per_mec node > 0 then sched_queue_mask node is m
      else if i \<ge> 64 then m
      else sched_queue_mask node is (m OR push_bit (amdgpu_queue_mask_bit_to_set_resource_bit node i) 1))"

definition sched_resources :: "kfd_node \<Rightarrow> scheduling_resources" where
  "sched_resources node =
     \<lparr>vmid_mask = compute_vmid_bitmap node, queue_mask = sched_queue_mask node [0..<AMDGPU_MAX_QUEUES] 0,
      gws_mask = - 1, oac_mask = 0, gds_heap_base = 0, gds_heap_size = 0\<rparr>"

definition set_sched_resources :: "device_queue_manager \<Rightarrow> retval \<times> device_queue_manager" where
  "set_sched_resources dqm = pm_send_set_resources (pmfs dqm) (sched_resources (dqm_dev dqm)) dqm"

text \<open>\<open>iq_wait_times\<close> is what \<^verbatim>\<open>get_iq_wait_times\<close> reads, if the generation has it.\<close>

definition initialize_cpsch :: "u32 option \<Rightarrow> device_queue_manager \<Rightarrow> retval \<times> device_queue_manager" where
  "initialize_cpsch iq_wait_times dqm =
     (let dqm1 = init_sdma_bitmaps (dqm\<lparr>dqm_queues := [], active_queue_count := 0, processes_count := 0,
            active_cp_queue_count := 0, gws_queue_count := 0, active_runlist := False, trap_debug_vmid := 0\<rparr>)
      in (OK, case iq_wait_times of None \<Rightarrow> dqm1 | Some w \<Rightarrow> dqm1\<lparr>wait_times := w\<rparr>))"

definition start_grace_period :: "hw_env \<Rightarrow> device_queue_manager \<Rightarrow> device_queue_manager" where
  "start_grace_period env dqm =
     (if he_app_apu env \<and> gc_version (dqm_dev dqm) = IP_VERSION 9 4 3
      then case pm_update_grace_period (pmfs dqm) 1 dqm of
             (Err _, dqm1) \<Rightarrow> dqm1
           | (OK, dqm1) \<Rightarrow>
               dqm1\<lparr>wait_times := snd (build_grace_period_packet_info (dqm_dev dqm1) (wait_times dqm1) 1)\<rparr>
      else dqm)"

definition start_cpsch_fence :: "hw_env \<Rightarrow> device_queue_manager \<Rightarrow> retval \<times> device_queue_manager" where
  "start_cpsch_fence env dqm =
     (case dev_gtt_alloc (he_kzalloc env) (kfd (dqm_dev dqm)) 8 of
        (Inl e, d) \<Rightarrow> (Err e, (if uses_mes dqm then id else pm_uninit) (set_kfd d dqm))
      | (Inr m, d) \<Rightarrow>
          let dqm1 = (set_kfd d dqm)\<lparr>fence_mem := Some m, fence_gpu_addr := gpu_addr m,
                is_hws_hang := False, is_resetting := False, sched_running := True\<rparr>;
              dqm2 = (if uses_mes dqm1 then dqm1 else snd (refresh env dqm1))
          in (OK, start_grace_period env dqm2))"

definition start_cpsch :: "hw_env \<Rightarrow> bool \<Rightarrow> kq_env \<Rightarrow> device_queue_manager \<Rightarrow> retval \<times> device_queue_manager" where
  "start_cpsch env kz kenv dqm =
     (if uses_mes dqm then start_cpsch_fence env dqm
      else case pm_init kz kenv dqm of
        (Err e, dqm1) \<Rightarrow> (Err e, dqm1)
      | (OK, dqm1) \<Rightarrow>
          (case set_sched_resources dqm1 of
             (Err e, dqm2) \<Rightarrow> (Err e, pm_uninit dqm2)
           | (OK, dqm2) \<Rightarrow> start_cpsch_fence env dqm2))"

definition stop_cpsch :: "hw_env \<Rightarrow> device_queue_manager \<Rightarrow> retval \<times> device_queue_manager" where
  "stop_cpsch env dqm =
     (if \<not> sched_running dqm then (OK, dqm)
      else
        let dqm1 = (if is_hws_hang dqm then dqm
                    else if \<not> uses_mes dqm
                    then snd (unmap_queues_cpsch env KFD_UNMAP_QUEUES_FILTER_ALL_QUEUES 0
                                USE_DEFAULT_GRACE_PERIOD False dqm)
                    else snd (remove_all_queues_mes env dqm));
            dqm2 = dqm1\<lparr>sched_running := False\<rparr>;
            dqm3 = (if \<not> uses_mes dqm2 then pm_release_ib dqm2 else dqm2);
            dqm4 = set_kfd (dev_gtt_free (kfd (dqm_dev dqm3)) (fence_mem dqm3)) dqm3
        in (OK, if \<not> uses_mes dqm4 then pm_uninit dqm4 else dqm4))"

section \<open>Creating and destroying queues\<close>

definition with_process ::
    "nat \<Rightarrow> device_queue_manager \<Rightarrow> (qcm_process_device \<Rightarrow> retval \<times> device_queue_manager) \<Rightarrow>
     retval \<times> device_queue_manager" where
  "with_process p dqm f = (case get_qpd dqm p of None \<Rightarrow> (Err OOPS, dqm) | Some qpd \<Rightarrow> f qpd)"

definition find_queue :: "nat \<Rightarrow> qcm_process_device \<Rightarrow> queue option" where
  "find_queue qp qpd = find (\<lambda>x. q_ptr x = qp) (queues_list qpd)"

definition put_queue :: "queue \<Rightarrow> qcm_process_device \<Rightarrow> qcm_process_device" where
  "put_queue q qpd = qpd\<lparr>queues_list := list_put_queue q (queues_list qpd)\<rparr>"

definition create_kernel_queue_cpsch ::
    "hw_env \<Rightarrow> queue \<Rightarrow> nat \<Rightarrow> device_queue_manager \<Rightarrow> retval \<times> device_queue_manager" where
  "create_kernel_queue_cpsch env kq p dqm =
     (if total_queue_count dqm \<ge> max_num_of_queues_per_device (dqm_dev dqm) then (Err EPERM, dqm)
      else with_process p dqm (\<lambda>qpd.
        let dqm1 = dqm\<lparr>total_queue_count := total_queue_count dqm + 1\<rparr>;
            qpd1 = qpd\<lparr>priv_queue_list := kq # priv_queue_list qpd\<rparr>;
            (dqm2, qpd2) = increment_queue_count dqm1 qpd1 kq
        in (OK, snd (refresh env (put_qpd (qpd2\<lparr>is_debug := True\<rparr>) dqm2)))))"

definition destroy_kernel_queue_cpsch ::
    "hw_env \<Rightarrow> queue \<Rightarrow> nat \<Rightarrow> device_queue_manager \<Rightarrow> retval \<times> device_queue_manager" where
  "destroy_kernel_queue_cpsch env kq p dqm =
     with_process p dqm (\<lambda>qpd.
       let qpd1 = qpd\<lparr>priv_queue_list := list_del_queue kq (priv_queue_list qpd)\<rparr>;
           (dqm2, qpd2) = decrement_queue_count dqm qpd1 kq;
           dqm3 = snd (execute_queues_cpsch env KFD_UNMAP_QUEUES_FILTER_ALL_QUEUES 0 USE_DEFAULT_GRACE_PERIOD
                         (put_qpd (qpd2\<lparr>is_debug := False\<rparr>) dqm2))
       in (OK, dqm3\<lparr>total_queue_count := total_queue_count dqm3 - 1\<rparr>))"

text \<open>The error exits of \<^verbatim>\<open>create_queue_cpsch\<close>.\<close>

definition cpsch_out_deallocate_sdma_queue :: "device_queue_manager \<Rightarrow> queue \<Rightarrow> device_queue_manager" where
  "cpsch_out_deallocate_sdma_queue dqm q =
     (if is_sdma_type (qtype (properties q)) then deallocate_sdma_queue dqm q else dqm)"

definition cpsch_out_deallocate_doorbell ::
    "device_queue_manager \<Rightarrow> qcm_process_device \<Rightarrow> queue \<Rightarrow> device_queue_manager" where
  "cpsch_out_deallocate_doorbell dqm qpd q =
     cpsch_out_deallocate_sdma_queue (put_qpd (deallocate_doorbell dqm qpd q) dqm) q"

definition cpsch_cleanup_queue ::
    "device_queue_manager \<Rightarrow> qcm_process_device \<Rightarrow> queue \<Rightarrow> device_queue_manager" where
  "cpsch_cleanup_queue dqm qpd q =
     (let qpd1 = qpd\<lparr>queue_count := queue_count qpd - 1, queues_list := list_del_queue q (queues_list qpd)\<rparr>;
          (dqm2, qpd2) = (if is_active (properties q) then decrement_queue_count dqm qpd1 q else (dqm, qpd1))
      in cpsch_out_deallocate_doorbell dqm2 qpd2 q)"

text \<open>The part under the lock: from the eviction state on.\<close>

definition create_queue_cpsch_locked ::
    "hw_env \<Rightarrow> device_queue_manager \<Rightarrow> queue \<Rightarrow> qcm_process_device \<Rightarrow> criu_queue option \<Rightarrow>
     retval \<times> device_queue_manager" where
  "create_queue_cpsch_locked env dqm q qpd qd =
     (let q1 = q\<lparr>properties := (properties q)\<lparr>is_evicted := evicted qpd \<noteq> 0,
                   is_dbg_wa := debug_trap_enabled qpd \<and> kfd_dbg_has_cwsr_workaround (dqm_dev dqm)\<rparr>\<rparr>;
          q2 = (if qd \<noteq> None then mqd_restore_active q1 else mqd_update_active q1);
          qpd1 = qpd\<lparr>queues_list := list_add_queue q2 (queues_list qpd), queue_count := queue_count qpd + 1\<rparr> in
      if \<not> is_active (properties q2)
      then (OK, (put_qpd qpd1 dqm)\<lparr>total_queue_count := total_queue_count dqm + 1\<rparr>)
      else
        let (dqm2, qpd2) = increment_queue_count dqm qpd1 q2;
            dqm3 = put_qpd qpd2 dqm2 in
        (case (if \<not> uses_mes dqm3 then refresh env dqm3 else add_queue_mes env dqm3 q2 qpd2) of
           (OK, dqm4) \<Rightarrow> (OK, dqm4\<lparr>total_queue_count := total_queue_count dqm4 + 1\<rparr>)
         | (Err e, dqm4) \<Rightarrow> (Err e, cpsch_cleanup_queue dqm4 qpd2 q2)))"

definition create_queue_cpsch ::
    "hw_env \<Rightarrow> queue \<Rightarrow> criu_queue option \<Rightarrow> nat \<Rightarrow> device_queue_manager \<Rightarrow> retval \<times> device_queue_manager"
where
  "create_queue_cpsch env q qd p dqm =
     (if total_queue_count dqm \<ge> max_num_of_queues_per_device (dqm_dev dqm) then (Err EPERM, dqm)
      else with_process p dqm (\<lambda>qpd.
        case (if is_sdma_type (qtype (properties q)) then allocate_sdma_queue dqm q (map_option qd_sdma_id qd)
              else (OK, dqm, q)) of
          (Err e, dqm1, _) \<Rightarrow> (Err e, dqm1)
        | (OK, dqm1, q1) \<Rightarrow>
            (case allocate_doorbell dqm1 qpd q1 (map_option qd_doorbell_id qd) of
               (Err e, qpd1, q2) \<Rightarrow> (Err e, cpsch_out_deallocate_sdma_queue (put_qpd qpd1 dqm1) q2)
             | (OK, qpd1, q2) \<Rightarrow>
                 let q3 = (if is_sdma_type (qtype (properties q2)) then asic_init_sdma_vm dqm1 q2 qpd1 else q2);
                     q4 = q3\<lparr>properties := (properties q3)\<lparr>tba_addr := qpd_tba_addr qpd1,
                               tma_addr := qpd_tma_addr qpd1\<rparr>, mqd_mem_obj := he_allocate_mqd env\<rparr> in
                 if he_allocate_mqd env = None then (Err ENOMEM, cpsch_out_deallocate_doorbell dqm1 qpd1 q4)
                 else create_queue_cpsch_locked env dqm1 q4 qpd1 qd)))"

text \<open>
  \<^verbatim>\<open>wait_on_destroy_queue\<close>: the flag of the result says that the caller has to wait until the debugger resumes the
  queue. The lock is dropped while it waits, so the two parts of \<^verbatim>\<open>destroy_queue_cpsch\<close> are separate operations,
  composed below.
\<close>

definition wait_on_destroy_queue ::
    "nat \<Rightarrow> qcm_process_device \<Rightarrow> bool \<times> qcm_process_device" where
  "wait_on_destroy_queue qp qpd =
     (if is_debug qpd then (False, qpd)
      else case find_queue qp qpd of
        None \<Rightarrow> (False, qpd)
      | Some q \<Rightarrow>
          (debug_trap_enabled qpd \<and> is_suspended (properties q),
           put_queue (q\<lparr>properties := (properties q)\<lparr>is_being_destroyed := True\<rparr>\<rparr>) qpd))"

definition destroy_queue_cpsch_locked ::
    "hw_env \<Rightarrow> device_queue_manager \<Rightarrow> qcm_process_device \<Rightarrow> queue \<Rightarrow> retval \<times> device_queue_manager" where
  "destroy_queue_cpsch_locked env dqm qpd q =
     (if is_debug qpd then (Err EBUSY, dqm)
      else
        let qpd1 = deallocate_doorbell dqm qpd q;
            sdma = is_sdma_type (qtype (properties q));
            dqm1 = (if sdma then deallocate_sdma_queue dqm q else dqm);
            qpd2 = (if sdma then qpd1\<lparr>sdma_past_activity_counter :=
                      sdma_past_activity_counter qpd1 + he_sdma_counter env\<rparr> else qpd1);
            qpd3 = qpd2\<lparr>queues_list := list_del_queue q (queues_list qpd2), queue_count := queue_count qpd2 - 1\<rparr>
        in if \<not> is_active (properties q)
           then (OK, (put_qpd qpd3 dqm1)\<lparr>total_queue_count := total_queue_count dqm1 - 1\<rparr>)
           else
             let (dqm2, qpd4) = decrement_queue_count dqm1 qpd3 q;
                 dqm3 = put_qpd qpd4 dqm2;
                 (r, dqm4) = (if \<not> uses_mes dqm3 then refresh env dqm3 else remove_queue_mes env dqm3 q);
                 dqm5 = (if \<not> uses_mes dqm3 \<and> r = Err ETIME
                         then put_qpd (qpd4\<lparr>reset_wavefronts := True\<rparr>) dqm4 else dqm4)
             in (r, dqm5\<lparr>total_queue_count := total_queue_count dqm5 - 1\<rparr>))"

definition destroy_queue_cpsch_finish ::
    "hw_env \<Rightarrow> nat \<Rightarrow> nat \<Rightarrow> device_queue_manager \<Rightarrow> retval \<times> device_queue_manager" where
  "destroy_queue_cpsch_finish env qp p dqm =
     with_process p dqm (\<lambda>qpd. case find_queue qp qpd of
       None \<Rightarrow> (Err OOPS, dqm) | Some q \<Rightarrow> destroy_queue_cpsch_locked env dqm qpd q)"

definition destroy_queue_cpsch ::
    "hw_env \<Rightarrow> nat \<Rightarrow> nat \<Rightarrow> device_queue_manager \<Rightarrow> retval \<times> device_queue_manager" where
  "destroy_queue_cpsch env qp p dqm =
     with_process p dqm (\<lambda>qpd.
       case wait_on_destroy_queue qp qpd of
         (waits, qpd1) \<Rightarrow>
           let dqm1 = put_qpd qpd1 dqm in
           if waits \<and> he_wait env \<noteq> OK then (he_wait env, dqm1)
           else destroy_queue_cpsch_finish env qp p dqm1)"

section \<open>Updating a queue\<close>

text \<open>The counters after \<^verbatim>\<open>update_mqd\<close>; the caller has written the new properties before.\<close>

definition update_queue_counts ::
    "device_queue_manager \<Rightarrow> qcm_process_device \<Rightarrow> queue \<Rightarrow> bool \<Rightarrow>
     device_queue_manager \<times> qcm_process_device \<times> queue" where
  "update_queue_counts dqm qpd q prev_active =
     (let act = is_active (properties q) in
      if act \<and> \<not> prev_active then (case increment_queue_count dqm qpd q of (d, p) \<Rightarrow> (d, p, q))
      else if \<not> act \<and> prev_active then (case decrement_queue_count dqm qpd q of (d, p) \<Rightarrow> (d, p, q))
      else if gws q \<noteq> None \<and> \<not> is_gws (properties q) then
        (if act then dqm\<lparr>gws_queue_count := gws_queue_count dqm + 1\<rparr> else dqm,
         if act then qpd\<lparr>mapped_gws_queue := True\<rparr> else qpd,
         q\<lparr>properties := (properties q)\<lparr>is_gws := True\<rparr>\<rparr>)
      else if gws q = None \<and> is_gws (properties q) then
        (if act then dqm\<lparr>gws_queue_count := gws_queue_count dqm - 1\<rparr> else dqm,
         if act then qpd\<lparr>mapped_gws_queue := False\<rparr> else qpd,
         q\<lparr>properties := (properties q)\<lparr>is_gws := False\<rparr>\<rparr>)
      else (dqm, qpd, q))"

text \<open>
  The queue is taken off the hardware first, and put back last. The first part says whether to go on,
  since without the hardware scheduler a stopped manager makes \<^verbatim>\<open>update_queue\<close> return 0 at once.
\<close>

definition update_queue_unmap ::
    "hw_env \<Rightarrow> device_queue_manager \<Rightarrow> queue \<Rightarrow> retval \<times> bool \<times> device_queue_manager" where
  "update_queue_unmap env dqm q =
     (let prev_active = is_active (properties q);
          ty = qtype (properties q) in
      if sched_policy dqm \<noteq> KFD_SCHED_POLICY_NO_HWS then
        (case (if \<not> uses_mes dqm
               then unmap_queues_cpsch env KFD_UNMAP_QUEUES_FILTER_DYNAMIC_QUEUES 0 USE_DEFAULT_GRACE_PERIOD False dqm
               else if prev_active then remove_queue_mes env dqm q else (OK, dqm)) of
           (r, dqm1) \<Rightarrow> (r, r = OK, dqm1))
      else if prev_active \<and> (ty = KFD_QUEUE_TYPE_COMPUTE \<or> is_sdma_type ty) then
        (if \<not> sched_running dqm then (OK, False, dqm)
         else (he_destroy_mqd env q, he_destroy_mqd env q = OK, dqm))
      else (OK, True, dqm))"

definition update_queue_map ::
    "hw_env \<Rightarrow> device_queue_manager \<Rightarrow> qcm_process_device \<Rightarrow> queue \<Rightarrow> retval \<times> device_queue_manager" where
  "update_queue_map env dqm qpd q =
     (let ty = qtype (properties q) in
      if sched_policy dqm \<noteq> KFD_SCHED_POLICY_NO_HWS then
        (if \<not> uses_mes dqm then map_queues_cpsch env dqm
         else if is_active (properties q) then add_queue_mes env dqm q qpd else (OK, dqm))
      else if is_active (properties q) \<and> (ty = KFD_QUEUE_TYPE_COMPUTE \<or> is_sdma_type ty) then
        (if \<not> he_current_mm env then Err EFAULT else he_load_mqd env q, dqm)
      else (OK, dqm))"

definition update_queue ::
    "hw_env \<Rightarrow> nat \<Rightarrow> nat \<Rightarrow> device_queue_manager \<Rightarrow> retval \<times> device_queue_manager" where
  "update_queue env qp p dqm =
     (case get_qpd dqm p of
        None \<Rightarrow> (Err ENODEV, dqm)
      | Some qpd \<Rightarrow>
          (case find_queue qp qpd of
             None \<Rightarrow> (Err OOPS, dqm)
           | Some q \<Rightarrow>
               (case update_queue_unmap env dqm q of
                  (r, go, dqm1) \<Rightarrow>
                    if \<not> go then (r, dqm1)
                    else
                      let (dqm2, qpd2, q2) =
                            update_queue_counts dqm1 qpd (mqd_update_active q) (is_active (properties q));
                          qpd3 = put_queue q2 qpd2
                      in update_queue_map env (put_qpd qpd3 dqm2) qpd3 q2)))"

section \<open>Eviction and restore\<close>

fun evict_queues_cpsch ::
    "hw_env \<Rightarrow> retval \<Rightarrow> device_queue_manager \<Rightarrow> qcm_process_device \<Rightarrow> queue list \<Rightarrow>
     retval \<times> device_queue_manager \<times> qcm_process_device \<times> queue list" where
  "evict_queues_cpsch env ret dqm qpd [] = (ret, dqm, qpd, [])"
| "evict_queues_cpsch env ret dqm qpd (q # qs) =
     (let q1 = q\<lparr>properties := (properties q)\<lparr>is_evicted := True\<rparr>\<rparr> in
      if \<not> is_active (properties q) then
        (case evict_queues_cpsch env ret dqm qpd qs of (r, d, p, qs') \<Rightarrow> (r, d, p, q1 # qs'))
      else
        let q2 = q1\<lparr>properties := (properties q1)\<lparr>is_active := False\<rparr>\<rparr>;
            (dqm1, qpd1) = decrement_queue_count dqm qpd q2;
            (ret1, dqm2) = (if uses_mes dqm1
                            then (case remove_queue_mes env dqm1 q2 of
                                    (OK, d) \<Rightarrow> (ret, d) | (Err e, d) \<Rightarrow> (Err e, d))
                            else (ret, dqm1)) in
        (case evict_queues_cpsch env ret1 dqm2 qpd1 qs of (r, d, p, qs') \<Rightarrow> (r, d, p, q2 # qs')))"

definition evict_process_queues_cpsch ::
    "hw_env \<Rightarrow> nat \<Rightarrow> device_queue_manager \<Rightarrow> retval \<times> device_queue_manager" where
  "evict_process_queues_cpsch env p dqm =
     with_process p dqm (\<lambda>qpd.
       let qpd1 = qpd\<lparr>evicted := evicted qpd + 1\<rparr> in
       if evicted qpd > 0 \<or> drm_priv qpd = None then (OK, put_qpd qpd1 dqm)
       else case evict_queues_cpsch env OK dqm qpd1 (queues_list qpd1) of
         (r, dqm1, qpd2, qs) \<Rightarrow>
           let dqm2 = put_qpd (qpd2\<lparr>queues_list := qs, last_evict_timestamp := he_jiffies env\<rparr>) dqm1 in
           if uses_mes dqm2 then (r, dqm2)
           else execute_queues_cpsch env
                  (if is_debug qpd2 then KFD_UNMAP_QUEUES_FILTER_ALL_QUEUES
                   else KFD_UNMAP_QUEUES_FILTER_DYNAMIC_QUEUES) 0 USE_DEFAULT_GRACE_PERIOD dqm2)"

text \<open>The loop stops at the first queue the firmware refuses; the rest of the list stays as it is.\<close>

fun restore_queues_cpsch ::
    "hw_env \<Rightarrow> device_queue_manager \<Rightarrow> qcm_process_device \<Rightarrow> queue list \<Rightarrow>
     retval \<times> device_queue_manager \<times> qcm_process_device \<times> queue list" where
  "restore_queues_cpsch env dqm qpd [] = (OK, dqm, qpd, [])"
| "restore_queues_cpsch env dqm qpd (q # qs) =
     (let q1 = q\<lparr>properties := (properties q)\<lparr>is_evicted := False\<rparr>\<rparr> in
      if \<not> QUEUE_IS_ACTIVE (properties q1) then
        (case restore_queues_cpsch env dqm qpd qs of (r, d, p, qs') \<Rightarrow> (r, d, p, q1 # qs'))
      else
        let q2 = q1\<lparr>properties := (properties q1)\<lparr>is_active := True\<rparr>\<rparr>;
            (dqm1, qpd1) = increment_queue_count dqm qpd q2 in
        (case (if uses_mes dqm1 then add_queue_mes env dqm1 q2 qpd1 else (OK, dqm1)) of
           (Err e, dqm2) \<Rightarrow> (Err e, dqm2, qpd1, q2 # qs)
         | (OK, dqm2) \<Rightarrow>
             (case restore_queues_cpsch env dqm2 qpd1 qs of (r, d, p, qs') \<Rightarrow> (r, d, p, q2 # qs'))))"

definition restore_process_queues_cpsch ::
    "hw_env \<Rightarrow> nat \<Rightarrow> device_queue_manager \<Rightarrow> retval \<times> device_queue_manager" where
  "restore_process_queues_cpsch env p dqm =
     with_process p dqm (\<lambda>qpd.
       if evicted qpd = 0 then (OK, dqm)
       else if evicted qpd > 1 then (OK, put_qpd (qpd\<lparr>evicted := evicted qpd - 1\<rparr>) dqm)
       else if drm_priv qpd = None then (OK, put_qpd (qpd\<lparr>evicted := 0\<rparr>) dqm)
       else case restore_queues_cpsch env dqm (qpd\<lparr>page_table_base := he_pd_base env\<rparr>) (queues_list qpd) of
         (Err e, dqm1, qpd1, qs) \<Rightarrow> (Err e, put_qpd (qpd1\<lparr>queues_list := qs\<rparr>) dqm1)
       | (OK, dqm1, qpd1, qs) \<Rightarrow>
           let qpd2 = qpd1\<lparr>queues_list := qs\<rparr>;
               dqm2 = put_qpd qpd2 dqm1;
               (r, dqm3) = (if \<not> uses_mes dqm2 then refresh env dqm2 else (OK, dqm2))
           in (r, put_qpd (qpd2\<lparr>evict_duration_counter := evict_duration_counter qpd2 +
                                  (he_jiffies env - last_evict_timestamp qpd2), evicted := 0\<rparr>) dqm3))"

section \<open>Suspending and resuming single queues\<close>

definition suspend_single_queue ::
    "hw_env \<Rightarrow> device_queue_manager \<Rightarrow> qcm_process_device \<Rightarrow> queue \<Rightarrow>
     retval \<times> device_queue_manager \<times> qcm_process_device \<times> queue" where
  "suspend_single_queue env dqm qpd q =
     (if is_suspended (properties q) then (OK, dqm, qpd, q)
      else if exception_status (properties q) AND he_ec_queue_new env \<noteq> 0 \<or> is_being_destroyed (properties q)
      then (Err EBUSY, dqm, qpd, q)
      else
        let q1 = q\<lparr>properties := (properties q)\<lparr>is_suspended := True\<rparr>\<rparr> in
        if \<not> is_active (properties q1) then (OK, dqm, qpd, q1)
        else case (if uses_mes dqm then remove_queue_mes env dqm q1 else (OK, dqm)) of
          (Err e, dqm1) \<Rightarrow> (Err e, dqm1, qpd, q1)
        | (OK, dqm1) \<Rightarrow>
            (case decrement_queue_count dqm1 qpd q1 of
               (dqm2, qpd2) \<Rightarrow> (OK, dqm2, qpd2, q1\<lparr>properties := (properties q1)\<lparr>is_active := False\<rparr>\<rparr>)))"

definition resume_single_queue ::
    "hw_env \<Rightarrow> device_queue_manager \<Rightarrow> qcm_process_device \<Rightarrow> queue \<Rightarrow>
     retval \<times> device_queue_manager \<times> qcm_process_device \<times> queue" where
  "resume_single_queue env dqm qpd q =
     (if \<not> is_suspended (properties q) then (OK, dqm, qpd, q)
      else
        let q1 = q\<lparr>properties := (properties q)\<lparr>is_suspended := False\<rparr>\<rparr> in
        if \<not> QUEUE_IS_ACTIVE (properties q1) then (OK, dqm, qpd, q1)
        else case (if uses_mes dqm then add_queue_mes env dqm q1 qpd else (OK, dqm)) of
          (Err e, dqm1) \<Rightarrow> (Err e, dqm1, qpd, q1)
        | (OK, dqm1) \<Rightarrow>
            let q2 = q1\<lparr>properties := (properties q1)\<lparr>is_active := True\<rparr>\<rparr> in
            (case increment_queue_count dqm1 qpd q2 of (dqm2, qpd2) \<Rightarrow> (OK, dqm2, qpd2, q2)))"

section \<open>Termination of a process\<close>

text \<open>The loops over the kernel queues and the user queues. The return code is that of the last removal at MES.\<close>

fun clear_kernel_queues ::
    "device_queue_manager \<Rightarrow> qcm_process_device \<Rightarrow> queue list \<Rightarrow> device_queue_manager \<times> qcm_process_device" where
  "clear_kernel_queues dqm qpd [] = (dqm, qpd)"
| "clear_kernel_queues dqm qpd (kq # kqs) =
     (let qpd1 = qpd\<lparr>priv_queue_list := list_del_queue kq (priv_queue_list qpd)\<rparr>;
          (dqm2, qpd2) = decrement_queue_count dqm qpd1 kq
      in clear_kernel_queues (dqm2\<lparr>total_queue_count := total_queue_count dqm2 - 1\<rparr>)
           (qpd2\<lparr>is_debug := False\<rparr>) kqs)"

fun clear_user_queues ::
    "hw_env \<Rightarrow> retval \<Rightarrow> device_queue_manager \<Rightarrow> qcm_process_device \<Rightarrow> queue list \<Rightarrow>
     retval \<times> device_queue_manager \<times> qcm_process_device" where
  "clear_user_queues env ret dqm qpd [] = (ret, dqm, qpd)"
| "clear_user_queues env ret dqm qpd (q # qs) =
     (let dqm1 = (if is_sdma_type (qtype (properties q)) then deallocate_sdma_queue dqm q else dqm);
          (ret2, dqm2, qpd2) =
            (if is_active (properties q)
             then (case decrement_queue_count dqm1 qpd q of
                     (d, p) \<Rightarrow> if uses_mes d then (case remove_queue_mes env d q of (r, d') \<Rightarrow> (r, d', p))
                               else (ret, d, p))
             else (ret, dqm1, qpd))
      in clear_user_queues env ret2 (dqm2\<lparr>total_queue_count := total_queue_count dqm2 - 1\<rparr>) qpd2 qs)"

text \<open>
  The caller holds the process, so the process is an argument and a result. \<^verbatim>\<open>dbgdev_wave_reset_wavefronts\<close> writes
  registers only; the loop at the end frees the MQDs and empties the list.
\<close>

definition process_termination_cpsch ::
    "hw_env \<Rightarrow> qcm_process_device \<Rightarrow> device_queue_manager \<Rightarrow>
     retval \<times> device_queue_manager \<times> qcm_process_device" where
  "process_termination_cpsch env qpd dqm =
     (let flt = (if priv_queue_list qpd = [] then KFD_UNMAP_QUEUES_FILTER_DYNAMIC_QUEUES
                 else KFD_UNMAP_QUEUES_FILTER_ALL_QUEUES);
          (dqm1, qpd1) = clear_kernel_queues dqm qpd (priv_queue_list qpd);
          (r2, dqm2, qpd2) = clear_user_queues env OK dqm1 qpd1 (queues_list qpd1);
          dqm3 = snd (unregister_process (qpd_ptr qpd) dqm2);
          (r4, dqm4) = (if uses_mes dqm3 then (r2, dqm3)
                        else execute_queues_cpsch env flt 0 USE_DEFAULT_GRACE_PERIOD dqm3);
          qpd4 = (if \<not> is_hws_hang dqm4 \<and> (r4 \<noteq> OK \<or> reset_wavefronts qpd2)
                  then qpd2\<lparr>reset_wavefronts := False\<rparr> else qpd2)
      in (r4, dqm4, qpd4\<lparr>queues_list := [],
            queue_count := queue_count qpd4 - of_nat (length (queues_list qpd4))\<rparr>))"

section \<open>The debugger's VMID and runlist\<close>

text \<open>
  The mask changed by these two is \<^verbatim>\<open>kfd->shared_resources.compute_vmid_bitmap\<close>; \<open>set_sched_resources\<close> sends
  \<^verbatim>\<open>dev->compute_vmid_bitmap\<close>.
\<close>

definition debug_trap_update ::
    "hw_env \<Rightarrow> (u32 \<Rightarrow> u32) \<Rightarrow> u32 \<Rightarrow> device_queue_manager \<Rightarrow> retval \<times> device_queue_manager" where
  "debug_trap_update env upd v dqm =
     (case unmap_queues_cpsch env KFD_UNMAP_QUEUES_FILTER_ALL_QUEUES 0 USE_DEFAULT_GRACE_PERIOD False dqm of
        (Err e, dqm1) \<Rightarrow> (Err e, dqm1)
      | (OK, dqm1) \<Rightarrow>
          let node = dqm_dev dqm1;
              dqm2 = dqm1\<lparr>dqm_dev := node\<lparr>shared_compute_vmid_bitmap := upd (shared_compute_vmid_bitmap node)\<rparr>,
                          trap_debug_vmid := v\<rparr> in
          (case set_sched_resources dqm2 of
             (Err e, dqm3) \<Rightarrow> (Err e, dqm3)
           | (OK, dqm3) \<Rightarrow> map_queues_cpsch env dqm3))"

definition reserve_debug_trap_vmid :: "hw_env \<Rightarrow> device_queue_manager \<Rightarrow> retval \<times> device_queue_manager" where
  "reserve_debug_trap_vmid env dqm =
     (if sched_policy dqm = KFD_SCHED_POLICY_NO_HWS then (Err EINVAL, dqm)
      else if trap_debug_vmid dqm \<noteq> 0 then (Err EBUSY, dqm)
      else debug_trap_update env
             (\<lambda>m. m AND NOT (push_bit (last_vmid_kfd (dqm_dev dqm)) 1)) (of_nat (last_vmid_kfd (dqm_dev dqm))) dqm)"

definition release_debug_trap_vmid :: "hw_env \<Rightarrow> device_queue_manager \<Rightarrow> retval \<times> device_queue_manager" where
  "release_debug_trap_vmid env dqm =
     (if sched_policy dqm = KFD_SCHED_POLICY_NO_HWS then (Err EINVAL, dqm)
      else if trap_debug_vmid dqm = 0 then (Err EINVAL, dqm)
      else debug_trap_update env (\<lambda>m. m OR push_bit (last_vmid_kfd (dqm_dev dqm)) 1) 0 dqm)"

text \<open>\<^verbatim>\<open>debug_lock_and_unmap\<close> keeps the lock on success and \<^verbatim>\<open>debug_map_and_unlock\<close> gives it back.\<close>

definition debug_lock_and_unmap :: "hw_env \<Rightarrow> device_queue_manager \<Rightarrow> retval \<times> device_queue_manager" where
  "debug_lock_and_unmap env dqm =
     (if sched_policy dqm = KFD_SCHED_POLICY_NO_HWS then (Err EINVAL, dqm)
      else if \<not> kfd_dbg_is_per_vmid_supported (dqm_dev dqm) then (OK, dqm)
      else unmap_queues_cpsch env KFD_UNMAP_QUEUES_FILTER_ALL_QUEUES 0 0 False dqm)"

definition debug_map_and_unlock :: "hw_env \<Rightarrow> device_queue_manager \<Rightarrow> retval \<times> device_queue_manager" where
  "debug_map_and_unlock env dqm =
     (if sched_policy dqm = KFD_SCHED_POLICY_NO_HWS then (Err EINVAL, dqm)
      else if \<not> kfd_dbg_is_per_vmid_supported (dqm_dev dqm) then (OK, dqm)
      else map_queues_cpsch env dqm)"

definition debug_refresh_runlist :: "hw_env \<Rightarrow> device_queue_manager \<Rightarrow> retval \<times> device_queue_manager" where
  "debug_refresh_runlist env dqm =
     (case debug_lock_and_unmap env dqm of
        (Err e, dqm1) \<Rightarrow> (Err e, dqm1)
      | (OK, dqm1) \<Rightarrow> debug_map_and_unlock env dqm1)"

end
