(* ===== verification/Dqm_Runlist.thy ===== *)
theory Dqm_Runlist
  imports Dqm_Cpsch
begin

text \<open>
  What the scheduler is told: after a successful \<^verbatim>\<open>execute_queues_cpsch\<close> the runlist in force names exactly the
  registered processes and their active queues, or nothing is mapped because nothing is active. The
  first part shows which state the mapping operations touch.
\<close>

section \<open>Frame of the mapping operations\<close>

text \<open>Everything but the packet manager, the node's GTT and doorbells, and the scheduler's flags.\<close>

definition sched_rest :: "device_queue_manager \<Rightarrow> device_queue_manager" where
  "sched_rest dqm = pm_rest (dqm\<lparr>active_runlist := undefined, fence_value := undefined, is_hws_hang := undefined,
     reset_scheduled := undefined\<rparr>)"

definition sched_only :: "device_queue_manager \<Rightarrow> device_queue_manager \<Rightarrow> bool" where
  "sched_only dqm dqm' \<longleftrightarrow> sched_rest dqm' = sched_rest dqm"

lemma sched_only_refl [simp, intro]: "sched_only dqm dqm"
  by (simp add: sched_only_def)

lemma sched_only_trans [trans]: "sched_only a b \<Longrightarrow> sched_only b c \<Longrightarrow> sched_only a c"
  by (simp add: sched_only_def)

lemma pm_only_sched_only: "pm_only a b \<Longrightarrow> sched_only a b"
proof -
  assume "pm_only a b"
  then have e: "pm_rest b = pm_rest a" by (simp add: pm_only_def)
  have "sched_rest x = (pm_rest x)\<lparr>active_runlist := undefined, fence_value := undefined, is_hws_hang := undefined,
     reset_scheduled := undefined\<rparr>" for x by (simp add: sched_rest_def pm_rest_def)
  with e show ?thesis by (simp add: sched_only_def)
qed

lemma sched_only_flags [simp]:
  "sched_only a (dqm\<lparr>active_runlist := b\<rparr>) = sched_only a dqm"
  "sched_only a (dqm\<lparr>fence_value := v\<rparr>) = sched_only a dqm"
  "sched_only a (kfd_hws_hang dqm) = sched_only a dqm"
  by (simp_all add: sched_only_def sched_rest_def kfd_hws_hang_def Let_def pm_rest_def)

lemma sched_only_fields:
  assumes "sched_only dqm dqm'"
  shows "dqm_queues dqm' = dqm_queues dqm" "processes_count dqm' = processes_count dqm"
    "active_queue_count dqm' = active_queue_count dqm" "active_cp_queue_count dqm' = active_cp_queue_count dqm"
    "gws_queue_count dqm' = gws_queue_count dqm" "total_queue_count dqm' = total_queue_count dqm"
    "sdma_bitmap dqm' = sdma_bitmap dqm" "xgmi_sdma_bitmap dqm' = xgmi_sdma_bitmap dqm"
    "sched_running dqm' = sched_running dqm" "is_resetting dqm' = is_resetting dqm"
    "sched_policy dqm' = sched_policy dqm" "trap_debug_vmid dqm' = trap_debug_vmid dqm"
    "wait_times dqm' = wait_times dqm" "allocated_queues dqm' = allocated_queues dqm"
    "vmid_pasid dqm' = vmid_pasid dqm"
    "(dqm_dev dqm')\<lparr>kfd := undefined\<rparr> = (dqm_dev dqm)\<lparr>kfd := undefined\<rparr>"
proof -
  have e: "sched_rest dqm' = sched_rest dqm" using assms by (simp add: sched_only_def)
  note r = arg_cong [OF e]
  note q = r [where f = dqm_queues] r [where f = processes_count] r [where f = active_queue_count]
    r [where f = active_cp_queue_count] r [where f = gws_queue_count] r [where f = total_queue_count]
    r [where f = sdma_bitmap] r [where f = xgmi_sdma_bitmap] r [where f = sched_running] r [where f = is_resetting]
    r [where f = sched_policy] r [where f = trap_debug_vmid] r [where f = wait_times]
    r [where f = allocated_queues] r [where f = vmid_pasid] r [where f = dqm_dev]
  show "dqm_queues dqm' = dqm_queues dqm" "processes_count dqm' = processes_count dqm"
    "active_queue_count dqm' = active_queue_count dqm" "active_cp_queue_count dqm' = active_cp_queue_count dqm"
    "gws_queue_count dqm' = gws_queue_count dqm" "total_queue_count dqm' = total_queue_count dqm"
    "sdma_bitmap dqm' = sdma_bitmap dqm" "xgmi_sdma_bitmap dqm' = xgmi_sdma_bitmap dqm"
    "sched_running dqm' = sched_running dqm" "is_resetting dqm' = is_resetting dqm"
    "sched_policy dqm' = sched_policy dqm" "trap_debug_vmid dqm' = trap_debug_vmid dqm"
    "wait_times dqm' = wait_times dqm" "allocated_queues dqm' = allocated_queues dqm"
    "vmid_pasid dqm' = vmid_pasid dqm"
    "(dqm_dev dqm')\<lparr>kfd := undefined\<rparr> = (dqm_dev dqm)\<lparr>kfd := undefined\<rparr>"
    using q by (simp_all add: sched_rest_def pm_rest_def)
qed

lemma sched_only_counts:
  assumes "sched_only dqm dqm'" shows "counts dqm' = counts dqm" "procs dqm' = procs dqm" "pm_view dqm' = pm_view dqm"
proof -
  note f = sched_only_fields [OF assms]
  show "counts dqm' = counts dqm" "procs dqm' = procs dqm" by (simp_all add: counts_def procs_def f)
  note g = arg_cong [OF f(16)]
  have "max_proc_per_quantum (dqm_dev dqm') = max_proc_per_quantum (dqm_dev dqm)"
    "trap_en_shift (dqm_dev dqm') = trap_en_shift (dqm_dev dqm)"
    "num_of_watch_points (dqm_dev dqm') = num_of_watch_points (dqm_dev dqm)"
    "sdma0_version (dqm_dev dqm') = sdma0_version (dqm_dev dqm)"
    using g [of max_proc_per_quantum] g [of trap_en_shift] g [of num_of_watch_points] g [of sdma0_version]
    by simp_all
  then
  show "pm_view dqm' = pm_view dqm" by (simp add: pm_view_def f)
qed

lemma sched_only_pm:
  assumes "sched_only a dqm"
  shows "sched_only a (pm_release_ib dqm)" "sched_only a (snd (pm_send_query_status F addr v dqm))"
    "sched_only a (snd (pm_update_grace_period F g dqm))" "sched_only a (snd (pm_send_unmap_queue F flt prm rst dqm))"
    "sched_only a (snd (pm_send_runlist F kz dqm))" "sched_only a (snd (pm_send_set_resources F res dqm))"
proof -
  have *: "sched_only a d" if "pm_only dqm d" for d
    using sched_only_trans [OF assms pm_only_sched_only [OF that]] .
  show "sched_only a (pm_release_ib dqm)" by (rule *) simp
  show "sched_only a (snd (pm_send_query_status F addr v dqm))"
    by (rule *, cases "pm_send_query_status F addr v dqm") (simp add: pm_only_senders(2) [where a = dqm])
  show "sched_only a (snd (pm_update_grace_period F g dqm))"
    by (rule *, cases "pm_update_grace_period F g dqm") (simp add: pm_only_senders(3) [where a = dqm])
  show "sched_only a (snd (pm_send_unmap_queue F flt prm rst dqm))"
    by (rule *, cases "pm_send_unmap_queue F flt prm rst dqm") (simp add: pm_only_senders(4) [where a = dqm])
  show "sched_only a (snd (pm_send_runlist F kz dqm))"
    by (rule *, cases "pm_send_runlist F kz dqm") (simp add: pm_only_send_runlist [where a = dqm])
  show "sched_only a (snd (pm_send_set_resources F res dqm))"
    by (rule *, cases "pm_send_set_resources F res dqm") (simp add: pm_only_senders(1) [where a = dqm])
qed

lemma map_queues_frame: "map_queues_cpsch env dqm = (r, dqm') \<Longrightarrow> sched_only dqm dqm'"
  using sched_only_pm(5) [OF sched_only_refl [of dqm], of "pmfs dqm" "he_kzalloc env"]
  by (auto simp: map_queues_cpsch_def split: if_splits prod.splits retval.splits)

lemma unmap_wait_frame:
  assumes "unmap_wait env g dqm = (r, dqm')" shows "sched_only dqm dqm'"
proof -
  define d2 where "d2 = snd (pm_send_query_status (pmfs dqm) (fence_gpu_addr dqm) KFD_FENCE_COMPLETED
    (dqm\<lparr>fence_value := KFD_FENCE_INIT\<rparr>))"
  have 2: "sched_only dqm d2" unfolding d2_def by (rule sched_only_pm(2)) simp
  define d3 where "d3 = (if g \<noteq> USE_DEFAULT_GRACE_PERIOD
    then snd (pm_update_grace_period (pmfs d2) USE_DEFAULT_GRACE_PERIOD d2) else d2)"
  have 3: "sched_only dqm d3" using sched_only_pm(3) [OF 2] by (simp add: d3_def 2)
  have "dqm' = kfd_hws_hang d2 \<or> dqm' = (pm_release_ib d3)\<lparr>active_runlist := False\<rparr>"
    using assms unfolding d3_def d2_def unmap_wait_def Let_def by (simp split: retval.splits if_splits)
  then show ?thesis using 2 sched_only_pm(1) [OF 3] by auto
qed

lemma unmap_queues_frame:
  assumes "unmap_queues_cpsch env flt prm g rst dqm = (r, dqm')" shows "sched_only dqm dqm'"
proof -
  define x where "x = (if g \<noteq> USE_DEFAULT_GRACE_PERIOD then pm_update_grace_period (pmfs dqm) g dqm else (OK, dqm))"
  obtain r1 d1 where x1: "x = (r1, d1)" by (cases x)
  have 1: "sched_only dqm d1"
    using sched_only_pm(3) [OF sched_only_refl [of dqm], of "pmfs dqm" g] x1 by (auto simp: x_def split: if_splits)
  obtain r2 d2 where u: "pm_send_unmap_queue (pmfs d1) flt prm rst d1 = (r2, d2)" by fastforce
  have 2: "sched_only dqm d2" using sched_only_pm(4) [OF 1, of "pmfs d1" flt prm rst] by (simp add: u)
  have "dqm' = dqm \<or> dqm' = d1 \<or> dqm' = d2 \<or> unmap_wait env g d2 = (r, dqm')"
    using assms unfolding unmap_queues_cpsch_def x_def [symmetric] x1
    by (auto simp: u split: if_splits retval.splits)
  then show ?thesis using 1 2 unmap_wait_frame sched_only_trans by blast
qed

lemma execute_queues_frame:
  assumes "execute_queues_cpsch env flt prm g dqm = (r, dqm')" shows "sched_only dqm dqm'"
proof -
  obtain r1 d1 where u: "unmap_queues_cpsch env flt prm g False dqm = (r1, d1)" by fastforce
  have "dqm' = dqm \<or> dqm' = d1 \<or> map_queues_cpsch env d1 = (r, dqm')"
    using assms by (auto simp: execute_queues_cpsch_def u split: if_splits retval.splits)
  then show ?thesis
    using unmap_queues_frame [OF u] map_queues_frame sched_only_trans by blast
qed

section \<open>The packet table stays\<close>

lemma pmf_send_packet: "pmf (packet_mgr (snd (pm_send_packet sz packet dqm))) = pmf (packet_mgr dqm)"
  using pm_send_packet_frame [of sz packet dqm] by auto

lemma pmf_senders [simp]:
  "pmf (packet_mgr (snd (pm_send_query_status F addr v dqm))) = pmf (packet_mgr dqm)"
  "pmf (packet_mgr (snd (pm_update_grace_period F g dqm))) = pmf (packet_mgr dqm)"
  "pmf (packet_mgr (snd (pm_send_unmap_queue F flt prm rst dqm))) = pmf (packet_mgr dqm)"
  "pmf (packet_mgr (pm_release_ib dqm)) = pmf (packet_mgr dqm)"
  "pmf (packet_mgr (kfd_hws_hang dqm)) = pmf (packet_mgr dqm)"
  by (simp_all add: pm_send_query_status_def pm_update_grace_period_def pm_send_unmap_queue_def pmf_send_packet
      pm_release_ib_def set_kfd_def kfd_hws_hang_def Let_def)

lemma allocated_senders [simp]:
  "pm_allocated (packet_mgr (snd (pm_send_query_status F addr v dqm))) = pm_allocated (packet_mgr dqm)"
  "pm_allocated (packet_mgr (snd (pm_update_grace_period F g dqm))) = pm_allocated (packet_mgr dqm)"
  "pm_allocated (packet_mgr (snd (pm_send_unmap_queue F flt prm rst dqm))) = pm_allocated (packet_mgr dqm)"
  "pm_allocated (packet_mgr (kfd_hws_hang dqm)) = pm_allocated (packet_mgr dqm)"
proof -
  have *: "pm_allocated (packet_mgr (snd (pm_send_packet sz packet dqm))) = pm_allocated (packet_mgr dqm)" for sz packet
    using without_ib_send_packet(2) [of sz packet dqm] by (metis prod.collapse)
  show "pm_allocated (packet_mgr (snd (pm_send_query_status F addr v dqm))) = pm_allocated (packet_mgr dqm)"
    "pm_allocated (packet_mgr (snd (pm_update_grace_period F g dqm))) = pm_allocated (packet_mgr dqm)"
    "pm_allocated (packet_mgr (snd (pm_send_unmap_queue F flt prm rst dqm))) = pm_allocated (packet_mgr dqm)"
    "pm_allocated (packet_mgr (kfd_hws_hang dqm)) = pm_allocated (packet_mgr dqm)"
    by (simp_all add: pm_send_query_status_def pm_update_grace_period_def pm_send_unmap_queue_def *
        kfd_hws_hang_def Let_def)
qed

lemma active_senders [simp]:
  "active_runlist (snd (pm_send_query_status F addr v dqm)) = active_runlist dqm"
  "active_runlist (snd (pm_update_grace_period F g dqm)) = active_runlist dqm"
  "active_runlist (snd (pm_send_unmap_queue F flt prm rst dqm)) = active_runlist dqm"
  "active_runlist (snd (pm_send_runlist F kz dqm)) = active_runlist dqm"
  "active_runlist (kfd_hws_hang dqm) = active_runlist dqm"
proof -
  have *: "active_runlist d = active_runlist dqm" if "pm_only dqm d" for d using pm_only_fields(12) [OF that] .
  show "active_runlist (snd (pm_send_query_status F addr v dqm)) = active_runlist dqm"
    by (rule *, cases "pm_send_query_status F addr v dqm") (simp add: pm_only_senders(2) [where a = dqm])
  show "active_runlist (snd (pm_update_grace_period F g dqm)) = active_runlist dqm"
    by (rule *, cases "pm_update_grace_period F g dqm") (simp add: pm_only_senders(3) [where a = dqm])
  show "active_runlist (snd (pm_send_unmap_queue F flt prm rst dqm)) = active_runlist dqm"
    by (rule *, cases "pm_send_unmap_queue F flt prm rst dqm") (simp add: pm_only_senders(4) [where a = dqm])
  show "active_runlist (snd (pm_send_runlist F kz dqm)) = active_runlist dqm"
    by (rule *, cases "pm_send_runlist F kz dqm") (simp add: pm_only_send_runlist [where a = dqm])
  show "active_runlist (kfd_hws_hang dqm) = active_runlist dqm" by (simp add: kfd_hws_hang_def Let_def)
qed

lemma hang_senders [simp]:
  "is_hws_hang (snd (pm_update_grace_period F g dqm)) = is_hws_hang dqm"
  "is_hws_hang (snd (pm_send_unmap_queue F flt prm rst dqm)) = is_hws_hang dqm"
proof -
  have *: "is_hws_hang d = is_hws_hang dqm" if "pm_only dqm d" for d using pm_only_fields(14) [OF that] .
  show "is_hws_hang (snd (pm_update_grace_period F g dqm)) = is_hws_hang dqm"
    by (rule *, cases "pm_update_grace_period F g dqm") (simp add: pm_only_senders(3) [where a = dqm])
  show "is_hws_hang (snd (pm_send_unmap_queue F flt prm rst dqm)) = is_hws_hang dqm"
    by (rule *, cases "pm_send_unmap_queue F flt prm rst dqm") (simp add: pm_only_senders(4) [where a = dqm])
qed

section \<open>Ownership of the runlist buffer\<close>

text \<open>The manager holds a runlist buffer exactly while a runlist is in force.\<close>

definition runlist_owned :: "device_queue_manager \<Rightarrow> bool" where
  "runlist_owned dqm \<longleftrightarrow> pm_allocated (packet_mgr dqm) = active_runlist dqm"

lemma send_runlist_allocated:
  assumes "\<not> pm_allocated (packet_mgr dqm)" and "pm_send_runlist F kz dqm = (r, dqm')"
  shows "pm_allocated (packet_mgr dqm') = (r = OK)"
proof -
  obtain c d1 where c: "pm_create_runlist_ib F kz dqm = (c, d1)" by fastforce
  show ?thesis
  proof (cases c)
    case (Inl e)
    with assms(2) c show ?thesis by (auto simp: pm_send_runlist_def)
  next
    case (Inr y)
    obtain addr sz where y: "y = (addr, sz)" by fastforce
    have "pm_allocated (packet_mgr d1)"
    proof -
      obtain a d0 where a: "pm_allocate_runlist_ib F kz dqm = (a, d0)" by fastforce
      with c Inr obtain ad s over where al: "a = Inr (ad, s, over)"
        and f: "pm_fill_runlist_ib F ad s over (upd_pm (\<lambda>pm. pm\<lparr>ib_size_bytes := s\<rparr>) d0) = (Inr y, d1)"
        by (auto simp: pm_create_runlist_ib_def split: sum.splits prod.splits)
      have "pm_allocated (packet_mgr d0)"
        using a al by (auto simp: pm_allocate_runlist_ib_def Let_def split: if_splits prod.splits sum.splits)
      with without_ib_fill(2) [OF f] show ?thesis by simp
    qed
    then show ?thesis
      using assms(2) c Inr y without_ib_send_packet(2)
      by (auto simp: pm_send_runlist_def split: prod.splits retval.splits)
  qed
qed

lemma map_queues_owned:
  assumes "runlist_owned dqm" and "map_queues_cpsch env dqm = (r, dqm')" shows "runlist_owned dqm'"
proof (cases "dqm' = dqm")
  case False
  with assms(2) obtain r1 d1 where s: "pm_send_runlist (pmfs dqm) (he_kzalloc env) dqm = (r1, d1)" "r = r1"
    "dqm' = (if r1 = OK then d1\<lparr>active_runlist := True\<rparr> else d1)" "\<not> active_runlist dqm"
    by (auto simp: map_queues_cpsch_def split: if_splits prod.splits retval.splits)
  have "\<not> pm_allocated (packet_mgr dqm)" using assms(1) s(4) by (simp add: runlist_owned_def)
  from send_runlist_allocated [OF this s(1)] show ?thesis
    using s active_senders(4) [of "pmfs dqm" "he_kzalloc env" dqm] by (simp add: runlist_owned_def)
qed (use assms in simp)

text \<open>What waiting for the scheduler ends with: everything is unmapped, or the scheduler hangs.\<close>

lemma unmap_wait_outcome:
  assumes "unmap_wait env g dqm = (r, dqm')"
  shows "pmf (packet_mgr dqm') = pmf (packet_mgr dqm)"
    and "r = OK \<Longrightarrow> KFD_FENCE_COMPLETED \<in> set (he_fence_reads env) \<and> \<not> he_hiq_doorbell env \<and>
      \<not> active_runlist dqm' \<and> \<not> pm_allocated (packet_mgr dqm')"
    and "r \<noteq> OK \<Longrightarrow> r = Err ETIME \<and> is_hws_hang dqm' \<and> (is_resetting dqm \<or> reset_scheduled dqm') \<and>
      active_runlist dqm' = active_runlist dqm \<and> pm_allocated (packet_mgr dqm') = pm_allocated (packet_mgr dqm)"
    and "r \<noteq> OK \<Longrightarrow> KFD_FENCE_COMPLETED \<notin> set (he_fence_reads env) \<or> he_hiq_doorbell env"
proof -
  define d2 where "d2 = snd (pm_send_query_status (pmfs dqm) (fence_gpu_addr dqm) KFD_FENCE_COMPLETED
    (dqm\<lparr>fence_value := KFD_FENCE_INIT\<rparr>))"
  define d3 where "d3 = (if g \<noteq> USE_DEFAULT_GRACE_PERIOD
    then snd (pm_update_grace_period (pmfs d2) USE_DEFAULT_GRACE_PERIOD d2) else d2)"
  have w: "amdkfd_fence_wait_timeout v xs = (if v \<in> set xs then OK else Err ETIME)" for v xs
    by (induction xs) auto
  have res: "is_resetting d2 = is_resetting dqm"
    using sched_only_fields(10) [OF sched_only_pm(2) [of dqm "dqm\<lparr>fence_value := KFD_FENCE_INIT\<rparr>"
          "pmfs dqm" "fence_gpu_addr dqm" KFD_FENCE_COMPLETED]] by (simp add: d2_def)
  have "(r, dqm') = (if KFD_FENCE_COMPLETED \<in> set (he_fence_reads env) \<and> \<not> he_hiq_doorbell env
      then (OK, (pm_release_ib d3)\<lparr>active_runlist := False\<rparr>) else (Err ETIME, kfd_hws_hang d2))"
    using assms unfolding d3_def d2_def unmap_wait_def Let_def w by (simp split: if_splits)
  then have e: "r = OK \<and> KFD_FENCE_COMPLETED \<in> set (he_fence_reads env) \<and> \<not> he_hiq_doorbell env \<and>
      dqm' = (pm_release_ib d3)\<lparr>active_runlist := False\<rparr> \<or> r = Err ETIME \<and> dqm' = kfd_hws_hang d2 \<and>
      (KFD_FENCE_COMPLETED \<notin> set (he_fence_reads env) \<or> he_hiq_doorbell env)"
    by (auto split: if_splits)
  show "pmf (packet_mgr dqm') = pmf (packet_mgr dqm)"
    using e by (auto simp: d2_def d3_def)
  show "r = OK \<Longrightarrow> KFD_FENCE_COMPLETED \<in> set (he_fence_reads env) \<and> \<not> he_hiq_doorbell env \<and>
      \<not> active_runlist dqm' \<and> \<not> pm_allocated (packet_mgr dqm')"
    using e by auto
  show "r \<noteq> OK \<Longrightarrow> KFD_FENCE_COMPLETED \<notin> set (he_fence_reads env) \<or> he_hiq_doorbell env"
    using e by auto
  assume "r \<noteq> OK"
  with e have e2: "r = Err ETIME" "dqm' = kfd_hws_hang d2" by auto
  show "r = Err ETIME \<and> is_hws_hang dqm' \<and> (is_resetting dqm \<or> reset_scheduled dqm') \<and>
      active_runlist dqm' = active_runlist dqm \<and> pm_allocated (packet_mgr dqm') = pm_allocated (packet_mgr dqm)"
    using e2 res by (auto simp: kfd_hws_hang_def Let_def d2_def)
qed

lemma unmap_queues_cases:
  assumes "unmap_queues_cpsch env flt prm g rst dqm = (r, dqm')"
  obtains (skip) "dqm' = dqm" "r = OK" "\<not> sched_running dqm \<or> \<not> active_runlist dqm"
  | (stuck) "dqm' = dqm" "r = Err EIO" "is_hws_hang dqm \<or> is_resetting dqm"
  | (refused) e where "r = Err e" "active_runlist dqm' = active_runlist dqm" "active_runlist dqm"
      "pm_allocated (packet_mgr dqm') = pm_allocated (packet_mgr dqm)" "pmf (packet_mgr dqm') = pmf (packet_mgr dqm)"
      "is_hws_hang dqm' = is_hws_hang dqm"
  | (waited) d2 where "unmap_wait env g d2 = (r, dqm')" "active_runlist d2 = active_runlist dqm" "active_runlist dqm"
      "pm_allocated (packet_mgr d2) = pm_allocated (packet_mgr dqm)" "pmf (packet_mgr d2) = pmf (packet_mgr dqm)"
      "sched_only dqm d2" "sched_running dqm" "\<not> is_resetting dqm"
proof -
  define x where "x = (if g \<noteq> USE_DEFAULT_GRACE_PERIOD then pm_update_grace_period (pmfs dqm) g dqm else (OK, dqm))"
  obtain r1 d1 where x1: "x = (r1, d1)" by (cases x)
  then have d1: "d1 = snd x" by simp
  have 1: "sched_only dqm d1" "active_runlist d1 = active_runlist dqm"
    "pm_allocated (packet_mgr d1) = pm_allocated (packet_mgr dqm)" "pmf (packet_mgr d1) = pmf (packet_mgr dqm)"
    "is_hws_hang d1 = is_hws_hang dqm"
    using sched_only_pm(3) [OF sched_only_refl [of dqm], of "pmfs dqm" g] by (simp_all add: d1 x_def)
  obtain r2 d2 where u: "pm_send_unmap_queue (pmfs d1) flt prm rst d1 = (r2, d2)" by fastforce
  then have d2: "d2 = snd (pm_send_unmap_queue (pmfs d1) flt prm rst d1)" by simp
  have 2: "sched_only dqm d2" "active_runlist d2 = active_runlist dqm"
    "pm_allocated (packet_mgr d2) = pm_allocated (packet_mgr dqm)" "pmf (packet_mgr d2) = pmf (packet_mgr dqm)"
    "is_hws_hang d2 = is_hws_hang dqm"
    using sched_only_pm(4) [OF 1(1), of "pmfs d1" flt prm rst] 1 by (simp_all add: d2)
  have eq: "(r, dqm') = (if \<not> sched_running dqm then (OK, dqm)
      else if is_hws_hang dqm \<or> is_resetting dqm then (Err EIO, dqm)
      else if \<not> active_runlist dqm then (OK, dqm)
      else case r1 of Err e \<Rightarrow> (Err e, d1)
           | OK \<Rightarrow> (case r2 of Err e \<Rightarrow> (Err e, d2) | OK \<Rightarrow> unmap_wait env g d2))"
    unfolding assms [symmetric] unmap_queues_cpsch_def x_def [symmetric] x1 prod.case u
    by (cases r1; cases r2) (simp_all add: u)
  show thesis
  proof (cases "sched_running dqm \<and> \<not> is_hws_hang dqm \<and> \<not> is_resetting dqm \<and> active_runlist dqm")
    case False
    then show thesis using eq skip stuck by (cases "sched_running dqm") (auto split: if_splits)
  next
    case True
    then have eq': "(r, dqm') = (case r1 of Err e \<Rightarrow> (Err e, d1)
           | OK \<Rightarrow> (case r2 of Err e \<Rightarrow> (Err e, d2) | OK \<Rightarrow> unmap_wait env g d2))" using eq by simp
    show thesis
    proof (cases r1)
      case (Err e)
      with eq' have "r = Err e" "dqm' = d1" by simp_all
      with 1 True show thesis by (intro refused [of e]) simp_all
    next
      case r1: OK
      show thesis
      proof (cases r2)
        case (Err e)
        with eq' r1 have "r = Err e" "dqm' = d2" by simp_all
        with 2 True show thesis by (intro refused [of e]) simp_all
      next
        case OK
        with eq' r1 have "unmap_wait env g d2 = (r, dqm')" by simp
        with 2 True show thesis by (intro waited [of d2]) simp_all
      qed
    qed
  qed
qed

lemma unmap_queues_owned:
  assumes "runlist_owned dqm" and "unmap_queues_cpsch env flt prm g rst dqm = (r, dqm')"
  shows "runlist_owned dqm'" "pmf (packet_mgr dqm') = pmf (packet_mgr dqm)"
    "r = OK \<Longrightarrow> sched_running dqm \<Longrightarrow> \<not> active_runlist dqm'"
proof -
  have "runlist_owned dqm' \<and> pmf (packet_mgr dqm') = pmf (packet_mgr dqm) \<and>
    (r = OK \<longrightarrow> sched_running dqm \<longrightarrow> \<not> active_runlist dqm')"
    using assms(2)
  proof (cases rule: unmap_queues_cases)
    case (waited d2)
    with unmap_wait_outcome [OF waited(1)] assms(1) show ?thesis
      by (cases "r = OK") (auto simp: runlist_owned_def)
  qed (use assms(1) in \<open>auto simp: runlist_owned_def\<close>)
  then show "runlist_owned dqm'" "pmf (packet_mgr dqm') = pmf (packet_mgr dqm)"
    "r = OK \<Longrightarrow> sched_running dqm \<Longrightarrow> \<not> active_runlist dqm'" by auto
qed

lemma execute_queues_owned:
  assumes "runlist_owned dqm" and "execute_queues_cpsch env flt prm g dqm = (r, dqm')" shows "runlist_owned dqm'"
proof -
  obtain r1 d1 where u: "unmap_queues_cpsch env flt prm g False dqm = (r1, d1)" by fastforce
  have "dqm' = dqm \<or> dqm' = d1 \<or> map_queues_cpsch env d1 = (r, dqm')"
    using assms(2) by (auto simp: execute_queues_cpsch_def u split: if_splits retval.splits)
  with unmap_queues_owned [OF assms(1) u] assms(1) map_queues_owned show ?thesis by blast
qed

section \<open>The runlist in force\<close>

lemma sched_only_calc:
  assumes "sched_only a b" shows "pm_calc_rlib_size F b = pm_calc_rlib_size F a"
    "counters_cover F b = counters_cover F a"
proof -
  note f = sched_only_fields [OF assms]
  note g = arg_cong [OF f(16)]
  have n: "max_proc_per_quantum (dqm_dev b) = max_proc_per_quantum (dqm_dev a)"
    "cp_queue_bitmap (dqm_dev b) = cp_queue_bitmap (dqm_dev a)"
    using g [of max_proc_per_quantum] g [of cp_queue_bitmap] by simp_all
  then show "pm_calc_rlib_size F b = pm_calc_rlib_size F a"
    by (simp add: pm_calc_rlib_size_def get_cp_queues_num_def f)
  show "counters_cover F b = counters_cover F a"
    by (simp add: counters_cover_def proc_sum_def f)
qed

lemma sched_only_ib_packets:
  assumes "sched_only a b" shows "ib_packets (pm_funcs t) b addr = ib_packets (pm_funcs t) a addr"
proof -
  note T = pm4_table_pm_funcs [of t]
  have v: "pm_view b = pm_view a" "dqm_queues b = dqm_queues a"
    using sched_only_counts(3) [OF assms] sched_only_fields(1) [OF assms] by simp_all
  show ?thesis
    unfolding ib_packets_def sched_only_calc [OF assms] pm4_table.runlist_packets_frame [OF T v]
      pm4_table.runlist_frame [OF T v(1)] ..
qed

lemma fill_buffer_obj:
  "pm_fill_runlist_ib F addr sz over dqm = (Inr x, dqm') \<Longrightarrow>
   ib_buffer_obj (packet_mgr dqm') = ib_buffer_obj (packet_mgr dqm)"
  by (auto simp: pm_fill_runlist_ib_def Let_def set_ib_def split: prod.splits retval.splits if_splits)

text \<open>The words of the runlist that \<open>dqm\<close> should run, in the buffer that the manager holds.\<close>

definition runlist_current :: "device_queue_manager \<Rightarrow> bool" where
  "runlist_current dqm \<longleftrightarrow>
     (\<exists>m k. ib_buffer_obj (packet_mgr dqm) = Some m \<and>
        (gpu_addr m \<noteq> 0 \<longrightarrow> \<not> ib_overflow (packet_mgr dqm) \<and>
           ib_words (packet_mgr dqm) = concat (ib_packets (pmfs dqm) dqm (gpu_addr m)) @ replicate k 0))"

lemma send_runlist_current:
  assumes na: "\<not> pm_allocated (packet_mgr dqm)" and cover: "counters_cover (pmfs dqm) dqm"
    and map: "\<forall>qpd \<in> set (dqm_queues dqm). mappable qpd" and s: "pm_send_runlist (pmfs dqm) kz dqm = (OK, dqm')"
  shows "runlist_current dqm'"
proof -
  let ?F = "pmfs dqm"
  note T = pm4_table_pm_funcs [of "pmf (packet_mgr dqm)"]
  obtain sz over where sz: "pm_calc_rlib_size ?F dqm = (sz, over)" by fastforce
  obtain a d where al: "dev_gtt_alloc kz (kfd (dqm_dev dqm)) sz = (a, d)" by fastforce
  obtain addr sz' d1 where c: "pm_create_runlist_ib ?F kz dqm = (Inr (addr, sz'), d1)"
    and p: "pm_send_packet (runlist_size ?F) (runlist ?F d1 addr (ucast (sz' div 4)) False) d1 = (OK, dqm')"
    using s by (auto simp: pm_send_runlist_def split: prod.splits sum.splits retval.splits)
  then obtain m where m: "a = Inr m"
    using na sz al by (cases a) (auto simp: pm_create_runlist_ib_def pm_allocate_runlist_ib_def)
  obtain hiq where d': "dqm' = upd_pm (\<lambda>pm. pm\<lparr>pm_priv_queue := hiq\<rparr>) d1"
    using pm_send_packet_frame [of "runlist_size ?F" "runlist ?F d1 addr (ucast (sz' div 4)) False" d1] p by auto
  let ?d0 = "upd_pm (\<lambda>pm. pm\<lparr>ib_size_bytes := sz\<rparr>) (upd_pm (\<lambda>pm. pm\<lparr>ib_buffer_obj := Some m, pm_allocated := True,
    ib_words := replicate (unat sz div 4) 0, ib_overflow := False\<rparr>) (set_kfd d dqm))"
  have f: "pm_fill_runlist_ib ?F (gpu_addr m) sz over ?d0 = (Inr (addr, sz'), d1)"
    using c na sz al m by (simp add: pm_create_runlist_ib_def pm_allocate_runlist_ib_def)
  have b: "ib_buffer_obj (packet_mgr dqm') = Some m" using fill_buffer_obj [OF f] d' by simp
  have so: "sched_only dqm dqm'"
    using pm_only_sched_only [of dqm dqm'] pm_only_send_runlist [OF s, of dqm] by simp
  have t: "pmf (packet_mgr dqm') = pmf (packet_mgr dqm)"
    using f d' by (auto simp: pm_fill_runlist_ib_def Let_def set_ib_def set_kfd_def
        split: prod.splits retval.splits if_splits)
  show ?thesis
  proof (cases "gpu_addr m = 0")
    case True
    with b show ?thesis by (auto simp: runlist_current_def)
  next
    case False
    obtain k where "\<not> ib_overflow (packet_mgr d1)"
      "ib_words (packet_mgr d1) = concat (ib_packets ?F dqm (gpu_addr m)) @ replicate k 0"
      using pm4_table.create_runlist_ib_ok [OF T na cover map sz al [unfolded m] False] c by auto
    then show ?thesis
      using b sched_only_ib_packets [OF so, of "pmf (packet_mgr dqm)"] t
      by (auto simp: runlist_current_def d')
  qed
qed

text \<open>
  C29. Refreshing the schedule brings it up to date. If \<^verbatim>\<open>execute_queues_cpsch\<close> succeeds on a running manager, then either
  nothing is active and no runlist is in force, or a runlist is in force whose buffer holds exactly the
  packets for the registered processes and their active queues as they are now, whatever was mapped
  before.
\<close>

theorem execute_queues_synchronises:
  assumes "sched_running dqm" and "runlist_owned dqm" and "counters_cover (pm_funcs (pmf (packet_mgr dqm))) dqm"
    and "\<forall>qpd \<in> set (dqm_queues dqm). mappable qpd"
    and "execute_queues_cpsch env flt prm g dqm = (OK, dqm')"
  shows "dqm_queues dqm' = dqm_queues dqm \<and>
    (if active_queue_count dqm = 0 \<or> processes_count dqm = 0
     then \<not> active_runlist dqm' \<and> \<not> pm_allocated (packet_mgr dqm')
     else active_runlist dqm' \<and> pm_allocated (packet_mgr dqm') \<and> runlist_current dqm')"
proof -
  obtain r1 d1 where u: "unmap_queues_cpsch env flt prm g False dqm = (r1, d1)" by fastforce
  with assms(5) have r1: "r1 = OK" and m: "map_queues_cpsch env d1 = (OK, dqm')"
    by (auto simp: execute_queues_cpsch_def split: if_splits retval.splits)
  note o = unmap_queues_owned [OF assms(2) u]
  note so = unmap_queues_frame [OF u]
  note f = sched_only_fields [OF so]
  have inactive: "\<not> active_runlist d1" "\<not> pm_allocated (packet_mgr d1)"
    using o(1) o(3) [OF r1 assms(1)] by (simp_all add: runlist_owned_def)
  have q: "dqm_queues dqm' = dqm_queues dqm"
    using sched_only_fields(1) [OF execute_queues_frame [OF assms(5)]] .
  show ?thesis
  proof (cases "active_queue_count dqm = 0 \<or> processes_count dqm = 0")
    case True
    then have "dqm' = d1" using m f(2,3) assms(1) f(9) by (auto simp: map_queues_cpsch_def)
    with True inactive q show ?thesis by simp
  next
    case False
    then obtain d2 where s: "pm_send_runlist (pmfs d1) (he_kzalloc env) d1 = (OK, d2)"
      "dqm' = d2\<lparr>active_runlist := True\<rparr>"
      using m f(2,3) assms(1) f(9) inactive(1)
      by (auto simp: map_queues_cpsch_def split: prod.splits retval.splits)
    have "runlist_current d2"
      using assms(3,4) sched_only_calc(2) [OF so] o(2) f(1) by (intro send_runlist_current [OF inactive(2) _ _ s(1)]) simp_all
    moreover have "ib_packets F (d2\<lparr>active_runlist := True\<rparr>) addr = ib_packets F d2 addr" if "F = pmfs d2" for F addr
      unfolding that by (rule sched_only_ib_packets) simp
    ultimately have "runlist_current dqm'" by (simp add: runlist_current_def s(2))
    moreover have "runlist_owned dqm'"
      using map_queues_owned [OF o(1) m] .
    ultimately show ?thesis using q False s(2) by (simp add: runlist_owned_def)
  qed
qed

theorem execute_queues_synchronises_witness:
  "\<exists>dqm'. execute_queues_cpsch env_example KFD_UNMAP_QUEUES_FILTER_DYNAMIC_QUEUES 0 USE_DEFAULT_GRACE_PERIOD
      dqm_example = (OK, dqm') \<and> active_runlist dqm' \<and> runlist_current dqm'"
proof -
  let ?x = "execute_queues_cpsch env_example KFD_UNMAP_QUEUES_FILTER_DYNAMIC_QUEUES 0 USE_DEFAULT_GRACE_PERIOD dqm_example"
  have "fst ?x = OK" by code_simp
  then have x: "?x = (OK, snd ?x)" by (metis prod.collapse)
  have t: "pmf (packet_mgr dqm_example) = kfd_v9_pm_table" by (simp add: dqm_example_def)
  show ?thesis
    using execute_queues_synchronises [OF _ _ dqm_example_cover [folded t] dqm_example_mappable x] x
    by (auto simp: dqm_example_def runlist_owned_def)
qed

text \<open>
  Taking queues off the hardware. On a running manager with a runlist in force, \<^verbatim>\<open>unmap_queues_cpsch\<close> succeeds only
  if the fence was seen with the completed value and the HIQ reported no pending preemption; then no runlist is in
  force and its buffer is free. On every failure the buffer stays allocated, and the scheduler is marked as hanging
  with a reset scheduled exactly if the request was sent but not answered in time.
\<close>

theorem unmap_queues_outcome:
  assumes "runlist_owned dqm" and "sched_running dqm" and "active_runlist dqm"
    and "\<not> is_hws_hang dqm" and "\<not> is_resetting dqm"
  shows "case unmap_queues_cpsch env flt prm g rst dqm of
      (OK, dqm') \<Rightarrow> KFD_FENCE_COMPLETED \<in> set (he_fence_reads env) \<and> \<not> he_hiq_doorbell env \<and>
         \<not> active_runlist dqm' \<and> \<not> pm_allocated (packet_mgr dqm')
    | (Err e, dqm') \<Rightarrow> active_runlist dqm' \<and> pm_allocated (packet_mgr dqm') \<and>
         (is_hws_hang dqm' \<longrightarrow> e = ETIME \<and> reset_scheduled dqm' \<and>
            (KFD_FENCE_COMPLETED \<notin> set (he_fence_reads env) \<or> he_hiq_doorbell env))"
proof -
  obtain r dqm' where u: "unmap_queues_cpsch env flt prm g rst dqm = (r, dqm')" by fastforce
  show ?thesis unfolding u prod.case using u
  proof (cases rule: unmap_queues_cases)
    case (waited d2)
    note w = unmap_wait_outcome [OF waited(1)]
    have a: "pm_allocated (packet_mgr dqm)" "\<not> is_resetting d2"
      using assms waited(3) sched_only_fields(10) [OF waited(6)] by (simp_all add: runlist_owned_def)
    show "case r of OK \<Rightarrow> KFD_FENCE_COMPLETED \<in> set (he_fence_reads env) \<and> \<not> he_hiq_doorbell env \<and>
         \<not> active_runlist dqm' \<and> \<not> pm_allocated (packet_mgr dqm')
      | Err e \<Rightarrow> active_runlist dqm' \<and> pm_allocated (packet_mgr dqm') \<and>
         (is_hws_hang dqm' \<longrightarrow> e = ETIME \<and> reset_scheduled dqm' \<and>
            (KFD_FENCE_COMPLETED \<notin> set (he_fence_reads env) \<or> he_hiq_doorbell env))"
    proof (cases r)
      case OK
      with w(2) show ?thesis by simp
    next
      case (Err e)
      with w(3) w(4) waited a show ?thesis by auto
    qed
  qed (use assms in \<open>auto simp: runlist_owned_def\<close>)
qed

text \<open>The example manager after its first runlist.\<close>

definition dqm_mapped :: device_queue_manager where
  "dqm_mapped = snd (execute_queues_cpsch env_example KFD_UNMAP_QUEUES_FILTER_DYNAMIC_QUEUES 0
     USE_DEFAULT_GRACE_PERIOD dqm_example)"

lemma dqm_mapped_facts:
  "runlist_owned dqm_mapped" "sched_running dqm_mapped" "active_runlist dqm_mapped" "\<not> is_hws_hang dqm_mapped"
  "\<not> is_resetting dqm_mapped"
proof -
  have "runlist_owned dqm_example" by (simp add: runlist_owned_def dqm_example_def)
  from execute_queues_owned [OF this prod.collapse [symmetric]] show "runlist_owned dqm_mapped"
    unfolding dqm_mapped_def .
  show "sched_running dqm_mapped" "active_runlist dqm_mapped" "\<not> is_hws_hang dqm_mapped" "\<not> is_resetting dqm_mapped"
    by code_simp+
qed

theorem unmap_queues_outcome_witness:
  "case unmap_queues_cpsch (env_example\<lparr>he_fence_reads := [KFD_FENCE_INIT]\<rparr>)
      KFD_UNMAP_QUEUES_FILTER_ALL_QUEUES 0 USE_DEFAULT_GRACE_PERIOD False dqm_mapped of
     (OK, dqm') \<Rightarrow> False
   | (Err e, dqm') \<Rightarrow> active_runlist dqm' \<and> pm_allocated (packet_mgr dqm') \<and>
       (is_hws_hang dqm' \<longrightarrow> e = ETIME \<and> reset_scheduled dqm')"
  using unmap_queues_outcome [OF dqm_mapped_facts, of "env_example\<lparr>he_fence_reads := [KFD_FENCE_INIT]\<rparr>"
      KFD_UNMAP_QUEUES_FILTER_ALL_QUEUES 0 USE_DEFAULT_GRACE_PERIOD False]
  by (auto split: prod.splits retval.splits)

end
