(* ===== verification/Dqm_System.thy ===== *)
theory Dqm_System
  imports Dqm_Runlist
begin

text \<open>
  The device queue manager as a whole: the invariant that ties the counters to the queues and the flags of the
  queues to the eviction state of their process, and that every operation of both scheduling policies keeps it.
\<close>

section \<open>The invariant\<close>

text \<open>
  A queue is marked evicted exactly while its process is, and an active queue is neither evicted nor
  suspended. Kernel queues are linked once.
\<close>

definition flags_wf :: "qcm_process_device \<Rightarrow> bool" where
  "flags_wf qpd \<longleftrightarrow>
     (\<forall>q \<in> set (queues_list qpd). is_evicted (properties q) = (evicted qpd \<noteq> 0) \<and>
        (is_active (properties q) \<longrightarrow> \<not> is_evicted (properties q) \<and> \<not> is_suspended (properties q))) \<and>
     distinct (map q_ptr (priv_queue_list qpd))"

definition dqm_inv :: "device_queue_manager \<Rightarrow> bool" where
  "dqm_inv dqm \<longleftrightarrow> dqm_counts dqm \<and> (\<forall>qpd \<in> set (dqm_queues dqm). flags_wf qpd)"

lemma flags_wf_qview: "qview qpd' = qview qpd \<Longrightarrow> evicted qpd' = evicted qpd \<Longrightarrow> flags_wf qpd' = flags_wf qpd"
  by (simp add: flags_wf_def qview_def)

lemma dqm_inv_frame:
  assumes "counts b = counts a" "procs b = procs a" shows "dqm_inv b = dqm_inv a"
  using assms by (auto simp: dqm_inv_def dqm_counts_def counts_def procs_def proc_sum_def)

lemma dqm_inv_sched_only: "sched_only a b \<Longrightarrow> dqm_inv b = dqm_inv a"
  by (intro dqm_inv_frame) (simp_all add: sched_only_counts)

lemma put_put_qpd: "qpd_ptr a = qpd_ptr b \<Longrightarrow> dqm_queues (put_qpd b (put_qpd a dqm)) = dqm_queues (put_qpd b dqm)"
  by (auto simp: put_qpd_def)

text \<open>
  The rule for every operation on one process: the state it ends in is, up to what the invariant does
  not see, the old one with the process written back, and the step keeps the accounts.
\<close>

lemma dqm_inv_write:
  assumes inv: "dqm_inv dqm" and g: "get_qpd dqm p = Some qpd" and a: "accounts dqm qpd D qpd'"
    and f: "flags_wf qpd'" and q: "dqm_queues E = dqm_queues (put_qpd qpd' dqm)"
    and c: "counts E = counts D" and n: "processes_count E = processes_count dqm"
  shows "dqm_inv E"
proof -
  have ptr: "qpd_ptr qpd = p" and wf: "qpd_wf qpd"
    using get_qpd_Some [OF g] inv by (auto simp: dqm_inv_def dqm_counts_def)
  have "dqm_counts (put_qpd qpd' D)"
    using inv dqm_counts_put [OF _ g] a ptr wf by (simp add: accounts_def dqm_inv_def)
  moreover have fl: "\<forall>x \<in> set (dqm_queues (put_qpd qpd' dqm)). flags_wf x"
    using inv f by (auto simp: put_qpd_def dqm_inv_def)
  moreover have "counts (put_qpd qpd' D) = counts E" "procs (put_qpd qpd' D) = procs E"
    using a c n q by (simp_all add: counts_def procs_def accounts_def put_qpd_def)
  moreover have "dqm_queues (put_qpd qpd' D) = dqm_queues (put_qpd qpd' dqm)"
    using a by (simp add: accounts_def procs_def put_qpd_def)
  ultimately have "dqm_inv (put_qpd qpd' D)" by (simp add: dqm_inv_def)
  then show ?thesis
    using dqm_inv_frame [of "put_qpd qpd' D" E] \<open>counts (put_qpd qpd' D) = counts E\<close> \<open>procs (put_qpd qpd' D) = procs E\<close>
    by simp
qed

text \<open>The same with the hardware scheduler in between, which sees the process already written back.\<close>

lemma dqm_inv_write_sched:
  assumes inv: "dqm_inv dqm" and g: "get_qpd dqm p = Some qpd" and a: "accounts dqm qpd D qpd'"
    and f: "flags_wf qpd'" and s: "sched_only (put_qpd qpd' D0) E" and pr: "procs D0 = procs dqm"
    and F: "dqm_queues F = dqm_queues E" "processes_count F = processes_count E" "counts F = counts D"
  shows "dqm_inv F"
proof (rule dqm_inv_write [OF inv g a f])
  note e = sched_only_fields [OF s]
  show "dqm_queues F = dqm_queues (put_qpd qpd' dqm)" "processes_count F = processes_count dqm" "counts F = counts D"
    using F e(1,2) pr by (simp_all add: procs_def put_qpd_def)
qed

lemma dqm_invD: "dqm_inv dqm \<Longrightarrow> get_qpd dqm p = Some qpd \<Longrightarrow> qpd_wf qpd \<and> flags_wf qpd \<and> qpd_ptr qpd = p"
  using get_qpd_Some [of dqm p qpd] by (auto simp: dqm_inv_def dqm_counts_def)

lemma dqm_inv_write_quiet:
  assumes inv: "dqm_inv dqm" and g: "get_qpd dqm p = Some qpd" and v: "qview qpd' = qview qpd" "evicted qpd' = evicted qpd"
    and q: "dqm_queues E = dqm_queues (put_qpd qpd' dqm)" and c: "counts E = counts dqm"
    and n: "processes_count E = processes_count dqm"
  shows "dqm_inv E"
proof -
  have a: "accounts dqm qpd dqm qpd'"
    using v(1) qpd_wf_qview [OF v(1)] slack_qview [OF v(1)] by (simp add: accounts_def qview_def)
  have f: "flags_wf qpd'" using flags_wf_qview [OF v] dqm_invD [OF inv g] by simp
  show ?thesis by (rule dqm_inv_write [OF inv g a f q c n])
qed

section \<open>Operations without the hardware scheduler\<close>

text \<open>An interpreted process operation keeps the invariant if it keeps the flags.\<close>

lemma process_operation_inv:
  assumes op: "process_operation oper pre" and inv: "dqm_inv dqm" and g: "get_qpd dqm p = Some qpd" and pre: "pre dqm qpd"
    and f: "\<And>r dqm' qpd'. oper dqm qpd = (r, dqm', qpd') \<Longrightarrow> flags_wf qpd'" and o: "on_qpd oper p dqm = (r, E)"
  shows "dqm_inv E"
proof -
  have wf: "qpd_wf qpd" "qpd_ptr qpd = p" using dqm_invD [OF inv g] by auto
  obtain r' D qpd' where x: "oper dqm qpd = (r', D, qpd')" by (metis prod.exhaust)
  have a: "accounts dqm qpd D qpd'"
    using process_operation.keeps_slack [OF op wf(1) pre x] process_operation.keeps_procs [OF op wf(1) pre x]
      process_operation.keeps_wf [OF op wf(1) pre x] by (simp add: accounts_def)
  have E: "E = put_qpd qpd' D" using o g x by (simp add: on_qpd_def)
  show ?thesis
    by (rule dqm_inv_write [OF inv g a f [OF x]])
      (use a in \<open>simp_all add: E accounts_def procs_def counts_def put_qpd_def\<close>)
qed

lemma evicted_frame [simp]:
  "evicted (deallocate_doorbell dqm qpd q) = evicted qpd"
  by (simp add: deallocate_doorbell_def)

lemma evicted_allocate:
  "allocate_doorbell dqm qpd q r = (rv, qpd1, q1) \<Longrightarrow> evicted qpd1 = evicted qpd"
  "allocate_vmid dqm qpd q = (rv, dqm1, qpd1, q1) \<Longrightarrow> evicted qpd1 = evicted qpd"
  "deallocate_vmid dqm qpd q = (dqm1, qpd1, q1) \<Longrightarrow> evicted qpd1 = evicted qpd"
  "increment_queue_count dqm qpd q = (dqm1, qpd1) \<Longrightarrow> evicted qpd1 = evicted qpd"
  "decrement_queue_count dqm qpd q = (dqm1, qpd1) \<Longrightarrow> evicted qpd1 = evicted qpd"
  by (auto simp: allocate_doorbell_def allocate_vmid_def deallocate_vmid_def split: sum.splits option.splits
      dest!: qpd_count)

lemma flags_wf_del:
  "flags_wf qpd \<Longrightarrow> queues_list qpd' = list_del_queue q (queues_list qpd) \<Longrightarrow> priv_queue_list qpd' = priv_queue_list qpd \<Longrightarrow>
   evicted qpd' = evicted qpd \<Longrightarrow> flags_wf qpd'"
  by (auto simp: flags_wf_def set_list_del_queue)

lemma flags_wf_add:
  assumes "flags_wf qpd" and "queues_list qpd' = list_add_queue q (queues_list qpd)"
    and "priv_queue_list qpd' = priv_queue_list qpd" and "evicted qpd' = evicted qpd"
    and "is_evicted (properties q) = (evicted qpd \<noteq> 0)"
    and "is_active (properties q) \<Longrightarrow> \<not> is_suspended (properties q) \<and> \<not> is_evicted (properties q)"
  shows "flags_wf qpd'"
  using assms by (auto simp: flags_wf_def list_add_queue_def)

lemma allocate_flags:
  "allocate_sdma_queue dqm q r = (rv, dqm1, q1) \<Longrightarrow> is_evicted (properties q1) = is_evicted (properties q)"
  "allocate_hqd dqm q = (rv, dqm1, q1) \<Longrightarrow> is_evicted (properties q1) = is_evicted (properties q)"
  "allocate_doorbell dqm qpd q r = (rv, qpd1, q1) \<Longrightarrow> is_evicted (properties q1) = is_evicted (properties q)"
  by (auto simp: allocate_sdma_queue_def allocate_hqd_def allocate_doorbell_def Let_def
      split: if_splits sum.splits option.splits)

lemma allocate_slot_flags:
  "nocpsch_allocate_slot dqm qpd q qd = (r, dqm', q') \<Longrightarrow> is_evicted (properties q') = is_evicted (properties q)"
  by (auto simp: nocpsch_allocate_slot_def dest: allocate_flags split: if_splits prod.splits retval.splits)

lemma exits_evicted:
  "nocpsch_deallocate_vmid dqm qpd q = (dqm', qpd', q') \<Longrightarrow> evicted qpd' = evicted qpd"
  "nocpsch_out_deallocate_hqd dqm qpd q = (dqm', qpd', q') \<Longrightarrow> evicted qpd' = evicted qpd"
  "nocpsch_out_deallocate_doorbell dqm qpd q = (dqm', qpd', q') \<Longrightarrow> evicted qpd' = evicted qpd"
proof -
  have *: "evicted qpd' = evicted qpd" if "nocpsch_deallocate_vmid dqm qpd q = (dqm', qpd', q')" for dqm qpd dqm' qpd' q'
    using that by (auto simp: nocpsch_deallocate_vmid_def dest: evicted_allocate split: if_splits)
  then have **: "evicted qpd' = evicted qpd" if "nocpsch_out_deallocate_hqd dqm qpd q = (dqm', qpd', q')" for dqm qpd dqm' qpd' q'
    using that by (auto simp: nocpsch_out_deallocate_hqd_def)
  then show "nocpsch_deallocate_vmid dqm qpd q = (dqm', qpd', q') \<Longrightarrow> evicted qpd' = evicted qpd"
    "nocpsch_out_deallocate_hqd dqm qpd q = (dqm', qpd', q') \<Longrightarrow> evicted qpd' = evicted qpd"
    "nocpsch_out_deallocate_doorbell dqm qpd q = (dqm', qpd', q') \<Longrightarrow> evicted qpd' = evicted qpd"
    using * by (auto simp: nocpsch_out_deallocate_doorbell_def dest: **)
qed

lemma create_begin_evicted:
  assumes "create_queue_nocpsch_begin dqm q qpd qd = (r, dqm', qpd', q')"
  shows "evicted qpd' = evicted qpd \<and> (r = OK \<longrightarrow> is_evicted (properties q') = (evicted qpd \<noteq> 0))"
proof (cases "total_queue_count dqm \<ge> max_num_of_queues_per_device (dqm_dev dqm)")
  case False
  let ?v = "if queues_list qpd = [] then allocate_vmid dqm qpd q else (OK, dqm, qpd, q)"
  obtain rv dqm1 qpd1 q1 where v: "?v = (rv, dqm1, qpd1, q1)" by (cases ?v) auto
  then have 1: "evicted qpd1 = evicted qpd" by (auto dest: evicted_allocate split: if_splits)
  define q2 where "q2 = q1\<lparr>properties := (properties q1)\<lparr>vmid := of_nat (qpd_vmid qpd1),
    is_evicted := evicted qpd1 \<noteq> 0, tba_addr := qpd_tba_addr qpd1, tma_addr := qpd_tma_addr qpd1\<rparr>\<rparr>"
  have 2: "is_evicted (properties q2) = (evicted qpd \<noteq> 0)" by (simp add: q2_def 1)
  obtain rs dqm2 q3 where s: "nocpsch_allocate_slot dqm1 qpd1 q2 qd = (rs, dqm2, q3)"
    by (cases "nocpsch_allocate_slot dqm1 qpd1 q2 qd") auto
  obtain rd qpd2 q4 where d: "allocate_doorbell dqm2 qpd1 q3 (map_option qd_doorbell_id qd) = (rd, qpd2, q4)"
    by (cases "allocate_doorbell dqm2 qpd1 q3 (map_option qd_doorbell_id qd)") auto
  have 3: "is_evicted (properties q4) = (evicted qpd \<noteq> 0)" "evicted qpd2 = evicted qpd"
    using allocate_slot_flags [OF s] allocate_flags(3) [OF d] evicted_allocate(1) [OF d] 1 2 by simp_all
  obtain dv pv qv where dv: "nocpsch_deallocate_vmid dqm2 qpd1 q3 = (dv, pv, qv)"
    by (cases "nocpsch_deallocate_vmid dqm2 qpd1 q3")
  obtain dh ph qh where dh: "nocpsch_out_deallocate_hqd dqm2 qpd2 q4 = (dh, ph, qh)"
    by (cases "nocpsch_out_deallocate_hqd dqm2 qpd2 q4")
  have eq: "create_queue_nocpsch_begin dqm q qpd qd =
      (case rv of Err e \<Rightarrow> (Err e, dqm1, qpd1, q1) | OK \<Rightarrow>
        (case rs of Err e \<Rightarrow> (Err e, dv, pv, qv)
         | OK \<Rightarrow> (case rd of Err e \<Rightarrow> (Err e, dh, ph, qh) | OK \<Rightarrow> (OK, dqm2, qpd2, q4))))"
    using False by (simp add: create_queue_nocpsch_begin_def v s d dv dh q2_def [symmetric] split: retval.splits)
  show ?thesis
    using assms 1 3 exits_evicted(1) [OF dv] exits_evicted(2) [OF dh] unfolding eq by (auto split: retval.splits)
qed (use assms in \<open>auto simp: create_queue_nocpsch_begin_def\<close>)

lemma new_queue_flags:
  assumes "is_evicted (properties q) = (e \<noteq> (0::u32))"
    and "q' = (if b then mqd_restore_active q else mqd_update_active q)"
  shows "is_evicted (properties q') = (e \<noteq> 0)"
    and "is_active (properties q') \<Longrightarrow> \<not> is_suspended (properties q') \<and> \<not> is_evicted (properties q')"
    and "q_ptr q' = q_ptr q"
  using assms by (auto simp: mqd_restore_active_def mqd_update_active_def QUEUE_IS_ACTIVE_def split: if_splits)

lemma quiet_flags: "quiet dqm qpd dqm' qpd' \<Longrightarrow> evicted qpd' = evicted qpd \<Longrightarrow> flags_wf qpd \<Longrightarrow> flags_wf qpd'"
  using flags_wf_qview [of qpd' qpd] by (simp add: quiet_def)

lemma create_finish_flags:
  assumes c: "create_queue_nocpsch_finish env dqm q qpd qd = (r, dqm', qpd')" and f: "flags_wf qpd"
    and e: "is_evicted (properties q) = (evicted qpd \<noteq> 0)"
  shows "flags_wf qpd'"
proof -
  define q1 where "q1 = q\<lparr>mqd_mem_obj := he_allocate_mqd env\<rparr>"
  define q2 where "q2 = (if qd \<noteq> None then mqd_restore_active q1 else mqd_update_active q1)"
  define load where "load = (if \<not> is_active (properties q2) \<or> \<not> sched_running dqm then OK
    else if \<not> he_current_mm env then Err EFAULT else he_load_mqd env q2)"
  obtain da pa qa where a: "nocpsch_out_deallocate_doorbell dqm qpd q1 = (da, pa, qa)"
    by (cases "nocpsch_out_deallocate_doorbell dqm qpd q1")
  obtain db pb qb where b: "nocpsch_out_deallocate_doorbell dqm qpd q2 = (db, pb, qb)"
    by (cases "nocpsch_out_deallocate_doorbell dqm qpd q2")
  obtain dl pl where l: "nocpsch_add_queue_to_list dqm qpd q2 = (dl, pl)"
    by (cases "nocpsch_add_queue_to_list dqm qpd q2")
  have eq: "create_queue_nocpsch_finish env dqm q qpd qd =
      (if he_allocate_mqd env = None then (Err ENOMEM, da, pa)
       else case load of Err e \<Rightarrow> (Err e, db, pb) | OK \<Rightarrow> (OK, dl, pl))"
    unfolding create_queue_nocpsch_finish_def Let_def q1_def [symmetric] q2_def [symmetric] load_def [symmetric]
      a b l by (simp split: retval.splits)
  have fa: "flags_wf pa" "flags_wf pb"
    using quiet_flags [OF _ _ f] quiet_out_deallocate_doorbell [OF a] quiet_out_deallocate_doorbell [OF b]
      exits_evicted(3) [OF a] exits_evicted(3) [OF b] by blast+
  have q1: "is_evicted (properties q1) = (evicted qpd \<noteq> 0)" by (simp add: q1_def e)
  note n = new_queue_flags [OF q1 q2_def]
  have v: "queues_list pl = list_add_queue q2 (queues_list qpd)" "priv_queue_list pl = priv_queue_list qpd" "evicted pl = evicted qpd"
    using l by (auto simp: nocpsch_add_queue_to_list_def Let_def split: if_splits prod.splits dest!: qpd_count)
  have "flags_wf pl" by (rule flags_wf_add [OF f v n(1,2)])
  with fa c eq show ?thesis by (auto split: if_splits retval.splits)
qed

lemma create_nocpsch_flags:
  assumes c: "create_queue_nocpsch env q qd dqm qpd = (r, dqm', qpd')" and f: "flags_wf qpd"
  shows "flags_wf qpd'"
proof -
  obtain r1 dqm1 qpd1 q1 where b: "create_queue_nocpsch_begin dqm q qpd qd = (r1, dqm1, qpd1, q1)"
    by (cases "create_queue_nocpsch_begin dqm q qpd qd")
  note qb = quiet_create_begin [OF b] create_begin_evicted [OF b]
  have f1: "flags_wf qpd1" using quiet_flags [OF _ _ f] qb by blast
  show ?thesis
  proof (cases r1)
    case OK
    with c b have "create_queue_nocpsch_finish env dqm1 q1 qpd1 qd = (r, dqm', qpd')"
      by (simp add: create_queue_nocpsch_def)
    from create_finish_flags [OF this f1] OK qb show ?thesis by simp
  next
    case (Err e)
    with c b f1 show ?thesis by (simp add: create_queue_nocpsch_def)
  qed
qed

lemma destroy_locked_evicted:
  "destroy_queue_nocpsch_locked env q dqm qpd = (r, dqm', qpd') \<Longrightarrow> evicted qpd' = evicted qpd"
  by (auto simp: destroy_queue_nocpsch_locked_def Let_def split: if_splits prod.splits dest!: qpd_count
      dest: evicted_allocate)

lemma destroy_nocpsch_flags:
  assumes d: "destroy_queue_nocpsch env q dqm qpd = (r, dqm', qpd')" and f: "flags_wf qpd" and run: "sched_running dqm"
  shows "flags_wf qpd'"
proof -
  obtain r1 dqm1 qpd1 where l: "destroy_queue_nocpsch_locked env q dqm qpd = (r1, dqm1, qpd1)"
    by (cases "destroy_queue_nocpsch_locked env q dqm qpd")
  have "flags_wf qpd1"
  proof (cases "qtype (properties q) = KFD_QUEUE_TYPE_COMPUTE \<or> is_sdma_type (qtype (properties q))")
    case True
    with destroy_locked_post(1) [OF l run True] destroy_locked_evicted [OF l] show ?thesis
      by (intro flags_wf_del [OF f]) (simp_all add: qview_def)
  next
    case False
    with l f show ?thesis by (auto simp: destroy_queue_nocpsch_locked_def)
  qed
  then have "flags_wf (qpd1\<lparr>sdma_past_activity_counter := x\<rparr>)" for x by (auto simp: flags_wf_def)
  with \<open>flags_wf qpd1\<close> d l show ?thesis
    by (cases r1) (auto simp: destroy_queue_nocpsch_def split: if_splits)
qed

lemma evict_map_flags: "distinct (map q_ptr (priv_queue_list qpd)) \<Longrightarrow> queues_list qpd = map evict_queue qs \<Longrightarrow>
   evicted qpd \<noteq> 0 \<Longrightarrow> flags_wf qpd"
  by (auto simp: flags_wf_def)

lemma restore_queue_active:
  "is_active (properties (restore_queue q)) \<Longrightarrow> \<not> is_suspended (properties (restore_queue q))"
  by (simp add: restore_queue_def QUEUE_IS_ACTIVE_def)

lemma restore_map_flags: "distinct (map q_ptr (priv_queue_list qpd)) \<Longrightarrow> queues_list qpd = map restore_queue qs \<Longrightarrow>
   evicted qpd = 0 \<Longrightarrow> flags_wf qpd"
  by (auto simp: flags_wf_def restore_queue_active)

lemma flags_wf_count:
  "flags_wf qpd \<Longrightarrow> queues_list qpd' = queues_list qpd \<Longrightarrow> priv_queue_list qpd' = priv_queue_list qpd \<Longrightarrow>
   (evicted qpd' = 0) = (evicted qpd = 0) \<Longrightarrow> flags_wf qpd'"
  by (auto simp: flags_wf_def)

lemma evict_nocpsch_flags:
  assumes "evict_process_queues_nocpsch env dqm qpd = (r, dqm', qpd')" and f: "flags_wf qpd" and m: "evicted qpd \<noteq> - 1"
  shows "flags_wf qpd'"
proof -
  note p = evict_nocpsch_post [OF assms(1)]
  have z: "evicted qpd' \<noteq> 0" using p(3) m by (simp add: eq_neg_iff_add_eq_0)
  have priv: "priv_queue_list qpd' = priv_queue_list qpd" using p(2) by (simp add: qview_def)
  show ?thesis
  proof (cases "evicted qpd > 0")
    case True
    then have "evicted qpd \<noteq> 0" by simp
    with True z p(4) priv f show ?thesis by (intro flags_wf_count [OF f]) simp_all
  next
    case False
    with p(4) f priv z show ?thesis by (intro evict_map_flags [of _ "queues_list qpd"]) (simp_all add: flags_wf_def)
  qed
qed

lemma evicted_minus: "(e :: u32) \<noteq> 0 \<Longrightarrow> e \<noteq> 1 \<Longrightarrow> e - 1 \<noteq> 0"
  by simp

lemma restore_nocpsch_flags:
  assumes "restore_process_queues_nocpsch env dqm qpd = (r, dqm', qpd')" and f: "flags_wf qpd"
  shows "flags_wf qpd'"
proof -
  have "evicted qpd = 1 \<Longrightarrow> \<forall>q \<in> set (queues_list qpd). \<not> is_active (properties q)"
    using f by (auto simp: flags_wf_def)
  note p = restore_nocpsch_post [OF assms(1) this]
  have priv: "priv_queue_list qpd' = priv_queue_list qpd" using p(2) by (simp add: qview_def)
  show ?thesis
  proof (cases "evicted qpd = 1 \<and> he_mm env")
    case True
    with p(3,4) f priv show ?thesis by (intro restore_map_flags [of _ "queues_list qpd"]) (simp_all add: flags_wf_def)
  next
    case False
    with p(3,4) f priv show ?thesis by (intro flags_wf_count [OF f]) auto
  qed
qed

section \<open>Creating and destroying queues at the hardware scheduler\<close>

lemma mes_frame:
  "add_queue_mes env dqm q qpd = (r, dqm') \<Longrightarrow> sched_only dqm dqm'"
  "remove_queue_mes env dqm q = (r, dqm') \<Longrightarrow> sched_only dqm dqm'"
  by (auto simp: add_queue_mes_def remove_queue_mes_def split: if_splits sum.splits retval.splits)

lemma counts_total [simp]:
  "counts (dqm\<lparr>total_queue_count := t\<rparr>) =
   (active_queue_count dqm, active_cp_queue_count dqm, gws_queue_count dqm, t)"
  by (simp add: counts_def)

lemma counts_put [simp]: "counts (put_qpd qpd dqm) = counts dqm"
  by (simp add: counts_def put_qpd_def)

lemma processes_count_put [simp]: "processes_count (put_qpd qpd dqm) = processes_count dqm"
  by (simp add: put_qpd_def)

lemma out_deallocate_sdma_frame [simp]:
  "counts (cpsch_out_deallocate_sdma_queue dqm q) = counts dqm"
  "procs (cpsch_out_deallocate_sdma_queue dqm q) = procs dqm"
  by (simp_all add: cpsch_out_deallocate_sdma_queue_def)

lemma increment_decrement_counts:
  assumes "increment_queue_count dqm qpd q = (d1, p1)" and "counts d2 = counts d1" and "decrement_queue_count d2 p2 q = (d3, p3)"
  shows "counts d3 = counts dqm"
  using counts_increment [OF assms(1)] counts_decrement [OF assms(3)] assms(2) by (simp add: counts_def)

text \<open>The failed creation: the process ends with the queues it had.\<close>

lemma cleanup_queue_inv:
  assumes inv: "dqm_inv dqm" and g: "get_qpd dqm p = Some qpd0" and v: "qview qpd = qview qpd0" "evicted qpd = evicted qpd0"
    and fr: "q_ptr q \<notin> q_ptr ` set (queues_list qpd)" and act: "is_active (properties q)"
    and q1: "qpd1 = qpd\<lparr>queues_list := list_add_queue q (queues_list qpd), queue_count := queue_count qpd + 1\<rparr>"
    and inc: "increment_queue_count dqm1 qpd1 q = (dqm2, qpd2)" and d1: "counts dqm1 = counts dqm" "procs dqm1 = procs dqm"
    and s: "sched_only (put_qpd qpd2 dqm2) dqm4"
  shows "dqm_inv (cpsch_cleanup_queue dqm4 qpd2 q)"
proof -
  note e = sched_only_counts [OF s] sched_only_fields(1,2) [OF s]
  define qpd3 where "qpd3 = qpd2\<lparr>queue_count := queue_count qpd2 - 1, queues_list := list_del_queue q (queues_list qpd2)\<rparr>"
  obtain dqm5 qpd5 where dec: "decrement_queue_count dqm4 qpd3 q = (dqm5, qpd5)" by fastforce
  define qpd6 where "qpd6 = deallocate_doorbell dqm5 qpd5 q"
  have E: "cpsch_cleanup_queue dqm4 qpd2 q = cpsch_out_deallocate_sdma_queue (put_qpd qpd6 dqm5) q"
    using act dec by (simp add: cpsch_cleanup_queue_def qpd3_def [symmetric] cpsch_out_deallocate_doorbell_def qpd6_def Let_def)
  have v2: "qview qpd2 = qview qpd1" "evicted qpd2 = evicted qpd1" using qview_count(1) [OF inc] evicted_allocate(4) [OF inc] .
  have "qview qpd3 = qview qpd" using v2 list_del_add_queue [OF fr] by (simp add: qpd3_def qview_def q1)
  then have w6: "qview qpd6 = qview qpd0" "evicted qpd6 = evicted qpd0"
    using qview_count(2) [OF dec] evicted_allocate(5) [OF dec] v v2 by (simp_all add: qpd6_def) (simp add: qpd3_def q1)
  moreover have "qpd_ptr qpd6 = qpd_ptr qpd2" using w6(1) v v2(1) by (simp add: qview_def q1)
  ultimately have v6: "qview qpd6 = qview qpd0" "evicted qpd6 = evicted qpd0" "qpd_ptr qpd6 = qpd_ptr qpd2" by auto
  have c5: "counts dqm5 = counts dqm"
    using increment_decrement_counts [OF inc _ dec] e(1) d1(1) by simp
  have p5: "procs dqm5 = procs dqm4" using procs_count(2) [OF dec] .
  have p2: "procs dqm2 = procs dqm" using procs_count(1) [OF inc] d1(2) by simp
  have "dqm_queues (put_qpd qpd6 dqm5) = dqm_queues (put_qpd qpd6 dqm)"
    using p5 e(4) p2 v6(3) put_put_qpd [of qpd2 qpd6 dqm2] by (simp add: procs_def put_qpd_def)
  moreover have "dqm_queues (cpsch_out_deallocate_sdma_queue d x) = dqm_queues d"
    "processes_count (cpsch_out_deallocate_sdma_queue d x) = processes_count d" for d x
    using out_deallocate_sdma_frame(2) [of d x] by (simp_all add: procs_def)
  ultimately have E2: "dqm_queues (cpsch_cleanup_queue dqm4 qpd2 q) = dqm_queues (put_qpd qpd6 dqm)"
    "processes_count (cpsch_cleanup_queue dqm4 qpd2 q) = processes_count dqm"
    using p5 e(5) p2 unfolding E by (simp_all add: procs_def)
  have c: "counts (cpsch_cleanup_queue dqm4 qpd2 q) = counts dqm" unfolding E by (simp add: c5)
  show ?thesis by (rule dqm_inv_write_quiet [OF inv g v6(1,2) E2(1) c E2(2)])
qed

lemma create_cpsch_locked_inv:
  assumes inv: "dqm_inv dqm" and g: "get_qpd dqm p = Some qpd0" and v: "qview qpd = qview qpd0" "evicted qpd = evicted qpd0"
    and d1: "counts dqm1 = counts dqm" "procs dqm1 = procs dqm" and fr: "q_ptr q \<notin> q_ptr ` set (queues_list qpd)"
    and c: "create_queue_cpsch_locked env dqm1 q qpd qd = (r, E)"
  shows "dqm_inv E"
proof -
  define q1 where "q1 = q\<lparr>properties := (properties q)\<lparr>is_evicted := evicted qpd \<noteq> 0,
    is_dbg_wa := debug_trap_enabled qpd \<and> kfd_dbg_has_cwsr_workaround (dqm_dev dqm1)\<rparr>\<rparr>"
  define q2 where "q2 = (if qd \<noteq> None then mqd_restore_active q1 else mqd_update_active q1)"
  define qpd1 where "qpd1 = qpd\<lparr>queues_list := list_add_queue q2 (queues_list qpd), queue_count := queue_count qpd + 1\<rparr>"
  have q1: "is_evicted (properties q1) = (evicted qpd \<noteq> 0)" by (simp add: q1_def)
  note n = new_queue_flags [OF q1 q2_def]
  have fr2: "q_ptr q2 \<notin> q_ptr ` set (queues_list qpd)" using fr n(3) by (simp add: q1_def)
  have quiet: "quiet dqm qpd0 dqm1 qpd" using v d1 by (simp add: quiet_def)
  have wf: "qpd_wf qpd" "flags_wf qpd"
    using dqm_invD [OF inv g] qpd_wf_qview [OF v(1)] flags_wf_qview [OF v] by simp_all
  obtain D qpd3 where l: "nocpsch_add_queue_to_list dqm1 qpd q2 = (D, qpd3)" by fastforce
  have a: "accounts dqm qpd0 D qpd3"
    by (rule accounts_trans [OF quiet_accounts [OF quiet] add_queue_to_list_accounts [OF l wf(1) fr2]])
  have v3: "queues_list qpd3 = list_add_queue q2 (queues_list qpd)" "priv_queue_list qpd3 = priv_queue_list qpd"
    "evicted qpd3 = evicted qpd"
    using l by (auto simp: nocpsch_add_queue_to_list_def Let_def split: if_splits prod.splits dest!: qpd_count)
  have f3: "flags_wf qpd3" by (rule flags_wf_add [OF wf(2) v3 n(1,2)])
  show ?thesis
  proof (cases "is_active (properties q2)")
    case False
    then have "D = dqm1\<lparr>total_queue_count := total_queue_count dqm1 + 1\<rparr>" "qpd3 = qpd1"
      using l by (simp_all add: nocpsch_add_queue_to_list_def qpd1_def)
    moreover have "E = (put_qpd qpd1 dqm1)\<lparr>total_queue_count := total_queue_count dqm1 + 1\<rparr>"
      using c False unfolding create_queue_cpsch_locked_def Let_def q1_def [symmetric] q2_def [symmetric] qpd1_def [symmetric]
      by simp
    ultimately show ?thesis
      using d1 by (intro dqm_inv_write [OF inv g a f3]) (simp_all add: counts_def procs_def put_qpd_def)
  next
    case True
    obtain dqm2 qpd2 where inc: "increment_queue_count dqm1 qpd1 q2 = (dqm2, qpd2)" by fastforce
    then have D: "D = dqm2\<lparr>total_queue_count := total_queue_count dqm2 + 1\<rparr>" "qpd3 = qpd2"
      using l True by (simp_all add: nocpsch_add_queue_to_list_def qpd1_def)
    let ?d3 = "put_qpd qpd2 dqm2"
    obtain r4 dqm4 where s: "(if \<not> uses_mes ?d3 then refresh env ?d3 else add_queue_mes env ?d3 q2 qpd2) = (r4, dqm4)"
      by fastforce
    then have so: "sched_only ?d3 dqm4" using execute_queues_frame mes_frame(1) by (fastforce split: if_splits)
    have E: "E = (if r4 = OK then dqm4\<lparr>total_queue_count := total_queue_count dqm4 + 1\<rparr>
        else cpsch_cleanup_queue dqm4 qpd2 q2)"
      using c True unfolding create_queue_cpsch_locked_def Let_def q1_def [symmetric] q2_def [symmetric] qpd1_def [symmetric]
        inc prod.case s by (auto split: retval.splits)
    have pr: "procs dqm2 = procs dqm" using procs_count(1) [OF inc] d1(2) by simp
    show ?thesis
    proof (cases "r4 = OK")
      case True
      have c: "counts E = counts D"
        using E True sched_only_fields(3-6) [OF so] by (simp add: D(1) put_qpd_def)
      have "dqm_queues E = dqm_queues dqm4" "processes_count E = processes_count dqm4" using E True by simp_all
      then show ?thesis by (rule dqm_inv_write_sched [OF inv g a f3 so [folded D(2)] pr _ _ c])
    next
      case False
      with E cleanup_queue_inv [OF inv g v fr2 \<open>is_active (properties q2)\<close> qpd1_def inc d1 so] show ?thesis by simp
    qed
  qed
qed

lemma create_queue_cpsch_inv:
  assumes inv: "dqm_inv dqm" and fr: "\<And>qpd. get_qpd dqm p = Some qpd \<Longrightarrow> q_ptr q \<notin> q_ptr ` set (queues_list qpd)"
    and c: "create_queue_cpsch env q qd p dqm = (r, E)"
  shows "dqm_inv E"
proof (cases "total_queue_count dqm \<ge> max_num_of_queues_per_device (dqm_dev dqm) \<or> get_qpd dqm p = None")
  case True
  then have "E = dqm"
    using c by (cases "get_qpd dqm p") (auto simp: create_queue_cpsch_def with_process_def split: if_splits)
  with inv show ?thesis by simp
next
  case False
  then obtain qpd where g: "get_qpd dqm p = Some qpd" by auto
  define x where "x = (if is_sdma_type (qtype (properties q)) then allocate_sdma_queue dqm q (map_option qd_sdma_id qd)
              else (OK, dqm, q))"
  obtain r1 dqm1 q1 where x: "x = (r1, dqm1, q1)" by (metis prod_cases3)
  then have d1: "counts dqm1 = counts dqm" "procs dqm1 = procs dqm" "q_ptr q1 = q_ptr q"
    by (auto simp: x_def dest: dqm_frame allocate_q_ptr split: if_splits)
  obtain r2 qpd1 q2 where y: "allocate_doorbell dqm1 qpd q1 (map_option qd_doorbell_id qd) = (r2, qpd1, q2)"
    by (metis prod_cases3)
  then have v: "qview qpd1 = qview qpd" "evicted qpd1 = evicted qpd" "q_ptr q2 = q_ptr q"
    using d1(3) by (auto dest: dqm_frame allocate_q_ptr evicted_allocate)
  define q4 where "q4 = (let q3 = (if is_sdma_type (qtype (properties q2)) then asic_init_sdma_vm dqm1 q2 qpd1 else q2) in
    q3\<lparr>properties := (properties q3)\<lparr>tba_addr := qpd_tba_addr qpd1, tma_addr := qpd_tma_addr qpd1\<rparr>,
       mqd_mem_obj := he_allocate_mqd env\<rparr>)"
  have q4: "q_ptr q4 = q_ptr q" using v(3) by (simp add: q4_def Let_def)
  have eq: "(r, E) = (case r1 of Err e \<Rightarrow> (Err e, dqm1)
     | OK \<Rightarrow> (case r2 of Err e \<Rightarrow> (Err e, cpsch_out_deallocate_sdma_queue (put_qpd qpd1 dqm1) q2)
        | OK \<Rightarrow> if he_allocate_mqd env = None then (Err ENOMEM, cpsch_out_deallocate_doorbell dqm1 qpd1 q4)
               else create_queue_cpsch_locked env dqm1 q4 qpd1 qd))"
    unfolding c [symmetric] create_queue_cpsch_def with_process_def g option.case x_def [symmetric] x q4_def
    using False by (cases r1; cases r2) (simp_all add: y Let_def)
  have exit: "dqm_inv F" if "counts F = counts dqm" "procs F = procs (put_qpd qpd' dqm1)"
      "qview qpd' = qview qpd" "evicted qpd' = evicted qpd" for F qpd' 
  proof (rule dqm_inv_write_quiet [OF inv g that(3,4)])
    show "dqm_queues F = dqm_queues (put_qpd qpd' dqm)" "counts F = counts dqm" "processes_count F = processes_count dqm"
      using that(1,2) d1(2) by (simp_all add: procs_def put_qpd_def)
  qed
  show ?thesis
  proof (cases "r1 = OK \<and> r2 = OK \<and> he_allocate_mqd env \<noteq> None")
    case True
    with eq have "create_queue_cpsch_locked env dqm1 q4 qpd1 qd = (r, E)" by (auto split: if_splits)
    moreover have "q_ptr q4 \<notin> q_ptr ` set (queues_list qpd1)" using fr [OF g] v(1) q4 by (simp add: qview_def)
    ultimately show ?thesis by (intro create_cpsch_locked_inv [OF inv g v(1,2) d1(1,2)])
  next
    case False
    then have "E = dqm1 \<or> E = cpsch_out_deallocate_sdma_queue (put_qpd qpd1 dqm1) q2 \<or>
        E = cpsch_out_deallocate_doorbell dqm1 qpd1 q4"
      using eq by (cases r1; cases r2; cases "he_allocate_mqd env = None") simp_all
    then show ?thesis
    proof (elim disjE)
      assume "E = dqm1"
      with inv d1 dqm_inv_frame [of dqm1 dqm] show ?thesis by simp
    next
      assume "E = cpsch_out_deallocate_sdma_queue (put_qpd qpd1 dqm1) q2"
      with d1 v show ?thesis by (intro exit [of E qpd1]) simp_all
    next
      assume "E = cpsch_out_deallocate_doorbell dqm1 qpd1 q4"
      with d1 v show ?thesis
        by (intro exit [of E "deallocate_doorbell dqm1 qpd1 q4"]) (simp_all add: cpsch_out_deallocate_doorbell_def)
    qed
  qed
qed

lemma find_queue_Some: "find_queue qp qpd = Some q \<Longrightarrow> q \<in> set (queues_list qpd) \<and> q_ptr q = qp"
  by (auto simp: find_queue_def find_Some_iff)

lemma put_queue_fields [simp]:
  "queues_list (put_queue q qpd) = list_put_queue q (queues_list qpd)" "evicted (put_queue q qpd) = evicted qpd"
  "priv_queue_list (put_queue q qpd) = priv_queue_list qpd" "qpd_ptr (put_queue q qpd) = qpd_ptr qpd"
  "queue_count (put_queue q qpd) = queue_count qpd"
  by (simp_all add: put_queue_def)

lemma moves_put:
  assumes m: "moves dqm [q] D [new]" and d: "distinct (map q_ptr qs)" and q: "q \<in> set qs"
  shows "moves dqm qs D (list_put_queue new qs)"
proof -
  have p: "q_ptr new = q_ptr q" using m by (simp add: moves_def)
  show ?thesis
    using m list_put_queue_act [OF d q p] by (auto simp: moves_def act_Cons)
qed

lemma put_queue_accounts:
  assumes wf: "qpd_wf qpd" and q: "q \<in> set (queues_list qpd)" and m: "moves dqm [q] D [new]"
    and v: "qview qpd' = (qpd_ptr qpd, list_put_queue new (queues_list qpd), priv_queue_list qpd, queue_count qpd)"
  shows "accounts dqm qpd D qpd'"
  using moves_accounts [OF moves_put [OF m _ q] v] wf by (simp add: qpd_wf_def)

lemma flags_wf_put:
  assumes "flags_wf qpd" and "queues_list qpd' = list_put_queue new (queues_list qpd)"
    and "priv_queue_list qpd' = priv_queue_list qpd" and "evicted qpd' = evicted qpd"
    and "is_evicted (properties new) = (evicted qpd \<noteq> 0)"
    and "is_active (properties new) \<Longrightarrow> \<not> is_suspended (properties new) \<and> \<not> is_evicted (properties new)"
  shows "flags_wf qpd'"
  using assms by (auto simp: flags_wf_def list_put_queue_def)

lemma destroy_cpsch_locked_inv:
  assumes inv: "dqm_inv dqm" and g: "get_qpd dqm p = Some qpd" and q: "q \<in> set (queues_list qpd)"
    and d: "destroy_queue_cpsch_locked env dqm qpd q = (r, E)"
  shows "dqm_inv E"
proof (cases "is_debug qpd")
  case True
  with d inv show ?thesis by (simp add: destroy_queue_cpsch_locked_def)
next
  case False
  have wf: "qpd_wf qpd" "flags_wf qpd" using dqm_invD [OF inv g] by auto
  let ?sdma = "is_sdma_type (qtype (properties q))"
  define qpd1 where "qpd1 = deallocate_doorbell dqm qpd q"
  define dqm1 where "dqm1 = (if ?sdma then deallocate_sdma_queue dqm q else dqm)"
  define qpd2 where "qpd2 = (if ?sdma then qpd1\<lparr>sdma_past_activity_counter :=
    sdma_past_activity_counter qpd1 + he_sdma_counter env\<rparr> else qpd1)"
  define qpd3 where "qpd3 = qpd2\<lparr>queues_list := list_del_queue q (queues_list qpd2), queue_count := queue_count qpd2 - 1\<rparr>"
  have d1: "counts dqm1 = counts dqm" "procs dqm1 = procs dqm" by (simp_all add: dqm1_def)
  have v2: "qview qpd2 = qview qpd" "evicted qpd2 = evicted qpd" by (simp_all add: qpd2_def qpd1_def)
  have v3: "qview qpd3 = (qpd_ptr qpd, list_del_queue q (queues_list qpd), priv_queue_list qpd, queue_count qpd - 1)"
    "evicted qpd3 = evicted qpd" using v2 by (simp_all add: qpd3_def qview_def)
  show ?thesis
  proof (cases "is_active (properties q)")
    case False
    then have E: "E = (put_qpd qpd3 dqm1)\<lparr>total_queue_count := total_queue_count dqm1 - 1\<rparr>"
      using d \<open>\<not> is_debug qpd\<close> unfolding destroy_queue_cpsch_locked_def Let_def qpd1_def [symmetric] dqm1_def [symmetric]
        qpd2_def [symmetric] qpd3_def [symmetric] by simp
    have "accounts dqm qpd (dqm1\<lparr>total_queue_count := total_queue_count dqm1 - 1\<rparr>) qpd3"
      by (rule slack_del_queue [OF wf(1) q v3(1)]) (use False d1 in \<open>simp_all add: counts_def procs_def\<close>)
    moreover have "flags_wf qpd3" using v3 by (intro flags_wf_del [OF wf(2)]) (simp_all add: qview_def)
    ultimately show ?thesis
      by (rule dqm_inv_write [OF inv g]) (use d1 in \<open>simp_all add: E procs_def put_qpd_def counts_def\<close>)
  next
    case True
    obtain dqm2 qpd4 where dec: "decrement_queue_count dqm1 qpd3 q = (dqm2, qpd4)" by fastforce
    let ?d3 = "put_qpd qpd4 dqm2"
    obtain r4 dqm4 where s: "(if \<not> uses_mes ?d3 then refresh env ?d3 else remove_queue_mes env ?d3 q) = (r4, dqm4)"
      by fastforce
    then have so: "sched_only ?d3 dqm4" using execute_queues_frame mes_frame(2) by (fastforce split: if_splits)
    define qpd5 where "qpd5 = (if \<not> uses_mes ?d3 \<and> r4 = Err ETIME then qpd4\<lparr>reset_wavefronts := True\<rparr> else qpd4)"
    define dqm5 where "dqm5 = (if \<not> uses_mes ?d3 \<and> r4 = Err ETIME then put_qpd (qpd4\<lparr>reset_wavefronts := True\<rparr>) dqm4 else dqm4)"
    have E: "E = dqm5\<lparr>total_queue_count := total_queue_count dqm5 - 1\<rparr>"
      using d True \<open>\<not> is_debug qpd\<close> unfolding destroy_queue_cpsch_locked_def Let_def qpd1_def [symmetric] dqm1_def [symmetric]
        qpd2_def [symmetric] qpd3_def [symmetric] dec prod.case s dqm5_def [symmetric] by simp
    have v5: "qview qpd5 = qview qpd3" "evicted qpd5 = evicted qpd3" "qpd_ptr qpd5 = qpd_ptr qpd4"
      using qview_count(2) [OF dec] evicted_allocate(5) [OF dec] by (simp_all add: qpd5_def)
    have pr: "procs dqm2 = procs dqm" using procs_count(2) [OF dec] d1(2) by simp
    have a: "accounts dqm qpd (dqm2\<lparr>total_queue_count := total_queue_count dqm2 - 1\<rparr>) qpd5"
      by (rule slack_del_queue [OF wf(1) q v3(1) [folded v5(1)]])
        (use True d1 pr counts_decrement [OF dec] in \<open>simp_all add: counts_def procs_def\<close>)
    have f: "flags_wf qpd5" using v3 v5 by (intro flags_wf_del [OF wf(2)]) (simp_all add: qview_def)
    have q5: "dqm_queues dqm5 = dqm_queues (put_qpd qpd5 dqm)"
      using sched_only_fields(1) [OF so] pr v5(3) by (auto simp: dqm5_def qpd5_def procs_def put_qpd_def)
    show ?thesis
      by (rule dqm_inv_write [OF inv g a f])
        (use q5 pr sched_only_fields(2-6) [OF so] in \<open>simp_all add: E dqm5_def procs_def put_qpd_def\<close>)
  qed
qed

lemma destroy_cpsch_finish_inv:
  assumes inv: "dqm_inv dqm" and d: "destroy_queue_cpsch_finish env qp p dqm = (r, E)"
  shows "dqm_inv E"
proof (cases "get_qpd dqm p")
  case (Some qpd)
  show ?thesis
  proof (cases "find_queue qp qpd")
    case s: (Some q)
    with Some d have "destroy_queue_cpsch_locked env dqm qpd q = (r, E)"
      by (simp add: destroy_queue_cpsch_finish_def with_process_def)
    then show ?thesis using find_queue_Some [OF s] by (intro destroy_cpsch_locked_inv [OF inv Some]) auto
  qed (use Some d inv in \<open>simp add: destroy_queue_cpsch_finish_def with_process_def\<close>)
qed (use d inv in \<open>simp add: destroy_queue_cpsch_finish_def with_process_def\<close>)

lemma destroy_queue_cpsch_inv:
  assumes inv: "dqm_inv dqm" and d: "destroy_queue_cpsch env qp p dqm = (r, E)"
  shows "dqm_inv E"
proof (cases "get_qpd dqm p")
  case (Some qpd)
  have wf: "qpd_wf qpd" "flags_wf qpd" using dqm_invD [OF inv Some] by auto
  obtain w qpd1 where wq: "wait_on_destroy_queue qp qpd = (w, qpd1)" by fastforce
  have "dqm_inv (put_qpd qpd1 dqm)"
  proof (cases "is_debug qpd \<or> find_queue qp qpd = None")
    case True
    then have "qpd1 = qpd" using wq by (auto simp: wait_on_destroy_queue_def split: if_splits)
    then show ?thesis
      by (intro dqm_inv_write_quiet [OF inv Some, of qpd]) simp_all
  next
    case False
    then obtain q where s: "find_queue qp qpd = Some q" by auto
    let ?q = "q\<lparr>properties := (properties q)\<lparr>is_being_destroyed := True\<rparr>\<rparr>"
    have q1: "qpd1 = put_queue ?q qpd" using wq False s by (simp add: wait_on_destroy_queue_def)
    have q: "q \<in> set (queues_list qpd)" using find_queue_Some [OF s] by simp
    have "moves dqm [q] dqm [?q]" by (rule moves_flags) (simp_all add: weight_def)
    then have a: "accounts dqm qpd dqm qpd1" by (rule put_queue_accounts [OF wf(1) q]) (simp add: q1 qview_def)
    have f: "flags_wf qpd1"
      by (rule flags_wf_put [OF wf(2), of _ ?q]) (use wf(2) q in \<open>auto simp: q1 flags_wf_def\<close>)
    show ?thesis by (rule dqm_inv_write [OF inv Some a f]) simp_all
  qed
  with d Some wq destroy_cpsch_finish_inv show ?thesis
    by (auto simp: destroy_queue_cpsch_def with_process_def Let_def split: if_splits)
qed (use d inv in \<open>simp add: destroy_queue_cpsch_def with_process_def\<close>)

section \<open>Updating, suspending and resuming a queue\<close>

lemma update_unmap_frame: "update_queue_unmap env dqm q = (r, go, dqm1) \<Longrightarrow> sched_only dqm dqm1"
  using unmap_queues_frame mes_frame(2)
  by (fastforce simp: update_queue_unmap_def Let_def split: if_splits prod.splits)

lemma update_map_frame: "update_queue_map env dqm qpd q = (r, dqm1) \<Longrightarrow> sched_only dqm dqm1"
  using map_queues_frame mes_frame(1) by (fastforce simp: update_queue_map_def Let_def split: if_splits)

lemma mqd_update_simps [simp]:
  "q_ptr (mqd_update_active q) = q_ptr q" "weight (mqd_update_active q) = weight q"
  "is_active (properties (mqd_update_active q)) = QUEUE_IS_ACTIVE (properties q)"
  "is_evicted (properties (mqd_update_active q)) = is_evicted (properties q)"
  "is_suspended (properties (mqd_update_active q)) = is_suspended (properties q)"
  "is_gws (properties (mqd_update_active q)) = is_gws (properties q)" "gws (mqd_update_active q) = gws q"
  "qtype (properties (mqd_update_active q)) = qtype (properties q)"
  by (simp_all add: mqd_update_active_def weight_def)

lemma update_counts_moves:
  assumes "update_queue_counts dqm qpd (mqd_update_active q) (is_active (properties q)) = (d, p, q2)"
  shows "moves dqm [q] d [q2]" "qview p = qview qpd" "evicted p = evicted qpd"
    "is_active (properties q2) = QUEUE_IS_ACTIVE (properties q)" "is_evicted (properties q2) = is_evicted (properties q)"
    "is_suspended (properties q2) = is_suspended (properties q)"
proof -
  let ?q = "mqd_update_active q"
  obtain di pi where inc: "increment_queue_count dqm qpd ?q = (di, pi)" by fastforce
  obtain dd pd where dec: "decrement_queue_count dqm qpd ?q = (dd, pd)" by fastforce
  define act' where "act' = is_active (properties ?q)"
  define act where "act = is_active (properties q)"
  define gq where "gq b = ?q\<lparr>properties := (properties ?q)\<lparr>is_gws := b\<rparr>\<rparr>" for b
  define gd where "gd b = (if act' then dqm\<lparr>gws_queue_count := gws_queue_count dqm + (if b then 1 else - 1)\<rparr> else dqm)" for b
  define gp where "gp b = (if act' then qpd\<lparr>mapped_gws_queue := b\<rparr> else qpd)" for b
  have eq: "(d, p, q2) =
      (if act' \<and> \<not> act then (di, pi, ?q) else if \<not> act' \<and> act then (dd, pd, ?q)
       else if gws q \<noteq> None \<and> \<not> is_gws (properties q) then (gd True, gp True, gq True)
       else if gws q = None \<and> is_gws (properties q) then (gd False, gp False, gq False)
       else (dqm, qpd, ?q))"
    unfolding assms [symmetric] update_queue_counts_def Let_def inc dec prod.case
    by (simp add: act'_def act_def gd_def gp_def gq_def)
  have g: "moves dqm [q] (gd b) [gq b]" if "act' = act" "is_gws (properties q) = (\<not> b)" for b
    using that act'_def act_def by (auto simp: moves_def counts_def procs_def act_Cons weight_def gd_def gq_def)
  have "moves dqm [q] d [q2] \<and> qview p = qview qpd \<and> evicted p = evicted qpd \<and>
    is_active (properties q2) = act' \<and> is_evicted (properties q2) = is_evicted (properties q) \<and>
    is_suspended (properties q2) = is_suspended (properties q)"
  proof (cases "act' = act")
    case False
    show ?thesis
    proof (cases act')
      case True
      with False eq have "d = di" "p = pi" "q2 = ?q" by simp_all
      with moves_increment [OF inc, of q ?q] False True qview_count(1) [OF inc] evicted_allocate(4) [OF inc] show ?thesis
        by (simp add: act'_def act_def)
    next
      case f: False
      with False eq have "d = dd" "p = pd" "q2 = ?q" by simp_all
      with moves_decrement [OF dec, of q ?q] False f qview_count(2) [OF dec] evicted_allocate(5) [OF dec] show ?thesis
        by (simp add: act'_def act_def)
    qed
  next
    case True
    have k: "qview (gp b) = qview qpd \<and> evicted (gp b) = evicted qpd \<and> is_active (properties (gq b)) = act' \<and>
        is_evicted (properties (gq b)) = is_evicted (properties q) \<and> is_suspended (properties (gq b)) = is_suspended (properties q)" for b
      by (simp add: gp_def gq_def act'_def)
    consider "(d, p, q2) = (gd True, gp True, gq True)" "\<not> is_gws (properties q)"
      | "(d, p, q2) = (gd False, gp False, gq False)" "is_gws (properties q)" | "(d, p, q2) = (dqm, qpd, ?q)"
      using eq True by (metis (no_types))
    then show ?thesis
    proof cases
      case 3
      have "moves dqm [q] dqm [?q]" using True by (intro moves_flags) (simp_all add: act'_def act_def)
      with 3 show ?thesis by (simp add: act'_def)
    qed (use g [OF True, of True] g [OF True, of False] k in simp_all)
  qed
  then show "moves dqm [q] d [q2]" "qview p = qview qpd" "evicted p = evicted qpd"
    "is_active (properties q2) = QUEUE_IS_ACTIVE (properties q)" "is_evicted (properties q2) = is_evicted (properties q)"
    "is_suspended (properties q2) = is_suspended (properties q)"
    by (simp_all add: act'_def)
qed

lemma queue_write_inv:
  assumes inv: "dqm_inv dqm" and g: "get_qpd dqm p = Some qpd" and q: "q \<in> set (queues_list qpd)"
    and s1: "counts dqm1 = counts dqm" "procs dqm1 = procs dqm" and m: "moves dqm1 [q] D [q2]"
    and v: "qview qpd2 = qview qpd" "evicted qpd2 = evicted qpd"
    and e: "is_evicted (properties q2) = is_evicted (properties q)"
    and a: "is_active (properties q2) \<Longrightarrow> \<not> is_suspended (properties q2) \<and> \<not> is_evicted (properties q2)"
    and s: "sched_only (put_qpd (put_queue q2 qpd2) D) E"
  shows "dqm_inv E"
proof -
  have wf: "qpd_wf qpd" "flags_wf qpd" using dqm_invD [OF inv g] by auto
  have m': "moves dqm [q] D [q2]" using m s1 by (auto simp: moves_def counts_def)
  have acc: "accounts dqm qpd D (put_queue q2 qpd2)"
    using v(1) by (intro put_queue_accounts [OF wf(1) q m']) (simp add: qview_def)
  have f: "flags_wf (put_queue q2 qpd2)"
    by (rule flags_wf_put [OF wf(2), of _ q2]) (use v wf(2) q e a in \<open>auto simp: qview_def flags_wf_def\<close>)
  have pr: "procs D = procs dqm" using m' by (simp add: moves_def)
  show ?thesis
    by (rule dqm_inv_write_sched [OF inv g acc f s pr]) (simp_all add: sched_only_counts(1) [OF s])
qed

lemma update_queue_inv:
  assumes inv: "dqm_inv dqm" and u: "update_queue env qp p dqm = (r, E)"
  shows "dqm_inv E"
proof (cases "get_qpd dqm p")
  case (Some qpd)
  show ?thesis
  proof (cases "find_queue qp qpd")
    case s: (Some q)
    obtain r1 go dqm1 where um: "update_queue_unmap env dqm q = (r1, go, dqm1)" by (metis prod_cases3)
    note so = update_unmap_frame [OF um]
    show ?thesis
    proof (cases go)
      case False
      with u Some s um have "E = dqm1" by (simp add: update_queue_def)
      with dqm_inv_sched_only [OF so] inv show ?thesis by simp
    next
      case True
      obtain dqm2 qpd2 q2 where c: "update_queue_counts dqm1 qpd (mqd_update_active q) (is_active (properties q)) = (dqm2, qpd2, q2)"
        by (metis prod_cases3)
      note m = update_counts_moves [OF c]
      have E: "update_queue_map env (put_qpd (put_queue q2 qpd2) dqm2) (put_queue q2 qpd2) q2 = (r, E)"
        using u Some s um True c by (simp add: update_queue_def Let_def)
      have q: "q \<in> set (queues_list qpd)" using find_queue_Some [OF s] by simp
      show ?thesis
        by (rule queue_write_inv [OF inv Some q sched_only_counts(1,2) [OF so] m(1,2,3,5) _ update_map_frame [OF E]])
          (simp add: m QUEUE_IS_ACTIVE_def)
    qed
  qed (use Some u inv in \<open>simp add: update_queue_def\<close>)
qed (use u inv in \<open>simp add: update_queue_def\<close>)

text \<open>
  Suspending and resuming one queue of a process. A failed removal at the MES firmware is excluded: it leaves
  the queue marked suspended and active.
\<close>

definition suspend_queue_step :: "hw_env \<Rightarrow> nat \<Rightarrow> nat \<Rightarrow> device_queue_manager \<Rightarrow> retval \<times> device_queue_manager" where
  "suspend_queue_step env qp p dqm =
     with_process p dqm (\<lambda>qpd. case find_queue qp qpd of None \<Rightarrow> (Err OOPS, dqm) | Some q \<Rightarrow>
       (case suspend_single_queue env dqm qpd q of (r, d, pd, q') \<Rightarrow> (r, put_qpd (put_queue q' pd) d)))"

definition resume_queue_step :: "hw_env \<Rightarrow> nat \<Rightarrow> nat \<Rightarrow> device_queue_manager \<Rightarrow> retval \<times> device_queue_manager" where
  "resume_queue_step env qp p dqm =
     with_process p dqm (\<lambda>qpd. case find_queue qp qpd of None \<Rightarrow> (Err OOPS, dqm) | Some q \<Rightarrow>
       (case resume_single_queue env dqm qpd q of (r, d, pd, q') \<Rightarrow> (r, put_qpd (put_queue q' pd) d)))"

lemma weight_suspended [simp]:
  "weight (q\<lparr>properties := (properties q)\<lparr>is_suspended := b\<rparr>\<rparr>) = weight q"
  "weight (q\<lparr>properties := (properties q)\<lparr>is_suspended := b, is_active := c\<rparr>\<rparr>) = weight q"
  by (simp_all add: weight_def)

lemma suspend_single_moves:
  assumes s: "suspend_single_queue env dqm qpd q = (r, d, p, q')" and ok: "r = OK \<or> \<not> uses_mes dqm"
    and f: "is_active (properties q) \<Longrightarrow> \<not> is_suspended (properties q) \<and> \<not> is_evicted (properties q)"
  shows "\<exists>d1. counts d1 = counts dqm \<and> procs d1 = procs dqm \<and> moves d1 [q] d [q'] \<and> qview p = qview qpd \<and>
    evicted p = evicted qpd \<and> is_evicted (properties q') = is_evicted (properties q) \<and>
    (is_active (properties q') \<longrightarrow> \<not> is_suspended (properties q') \<and> \<not> is_evicted (properties q'))"
proof -
  let ?q1 = "q\<lparr>properties := (properties q)\<lparr>is_suspended := True\<rparr>\<rparr>"
  let ?q2 = "q\<lparr>properties := (properties q)\<lparr>is_suspended := True, is_active := False\<rparr>\<rparr>"
  obtain r1 d1 where x: "(if uses_mes dqm then remove_queue_mes env dqm ?q1 else (OK, dqm)) = (r1, d1)" by fastforce
  have so: "sched_only dqm d1" using x mes_frame(2) by (fastforce split: if_splits)
  obtain d2 p2 where dec: "decrement_queue_count d1 qpd ?q1 = (d2, p2)" by fastforce
  have eq: "(r, d, p, q') = (if is_suspended (properties q) then (OK, dqm, qpd, q)
      else if exception_status (properties q) AND he_ec_queue_new env \<noteq> 0 \<or> is_being_destroyed (properties q)
      then (Err EBUSY, dqm, qpd, q)
      else if \<not> is_active (properties q) then (OK, dqm, qpd, ?q1)
      else case r1 of Err e \<Rightarrow> (Err e, d1, qpd, ?q1) | OK \<Rightarrow> (OK, d2, p2, ?q2))"
    unfolding s [symmetric] suspend_single_queue_def Let_def using x dec by (cases r1) simp_all
  have m: "moves d1 [q] d2 [?q2]" if "is_active (properties q)"
    by (rule moves_decrement [OF dec]) (simp_all add: that)
  have id: "moves dqm [q] dqm [q]" "moves dqm [q] dqm [?q1]" by (simp_all add: moves_flags)
  have nok: "r1 = OK" if "r = r1" using x ok that by (auto split: if_splits)
  show ?thesis
  proof (cases "is_suspended (properties q) \<or> exception_status (properties q) AND he_ec_queue_new env \<noteq> 0 \<or>
      is_being_destroyed (properties q)")
    case True
    with eq have "d = dqm" "p = qpd" "q' = q" by (simp_all split: if_splits)
    with f id(1) show ?thesis by (intro exI [of _ dqm]) simp
  next
    case new: False
    show ?thesis
    proof (cases "is_active (properties q)")
      case False
      with eq new have "d = dqm" "p = qpd" "q' = ?q1" by simp_all
      with False id(2) show ?thesis by (intro exI [of _ dqm]) simp
    next
      case True
      have "r1 = OK"
      proof (cases r1)
        case (Err e)
        with eq new True have "r = r1" by simp
        then show ?thesis by (rule nok)
      qed
      with eq new True have "d = d2" "p = p2" "q' = ?q2" by simp_all
      with m [OF True] sched_only_counts(1,2) [OF so] qview_count(2) [OF dec] evicted_allocate(5) [OF dec] show ?thesis
        by (intro exI [of _ d1]) simp
    qed
  qed
qed

lemma resume_single_moves:
  assumes s: "resume_single_queue env dqm qpd q = (r, d, p, q')"
    and f: "is_active (properties q) \<Longrightarrow> \<not> is_suspended (properties q) \<and> \<not> is_evicted (properties q)"
  shows "\<exists>d1. counts d1 = counts dqm \<and> procs d1 = procs dqm \<and> moves d1 [q] d [q'] \<and> qview p = qview qpd \<and>
    evicted p = evicted qpd \<and> is_evicted (properties q') = is_evicted (properties q) \<and>
    (is_active (properties q') \<longrightarrow> \<not> is_suspended (properties q') \<and> \<not> is_evicted (properties q'))"
proof (cases "is_suspended (properties q)")
  case False
  with s have "d = dqm" "p = qpd" "q' = q" by (simp_all add: resume_single_queue_def)
  moreover have "moves dqm [q] dqm [q]" by (simp add: moves_flags)
  ultimately show ?thesis using f by (intro exI [of _ dqm]) simp
next
  case True
  with f have na: "\<not> is_active (properties q)" by auto
  define q1 where "q1 = q\<lparr>properties := (properties q)\<lparr>is_suspended := False\<rparr>\<rparr>"
  define q2 where "q2 = q1\<lparr>properties := (properties q1)\<lparr>is_active := True\<rparr>\<rparr>"
  have q1: "q_ptr q1 = q_ptr q" "weight q1 = weight q" "is_active (properties q1) = is_active (properties q)"
    "is_evicted (properties q1) = is_evicted (properties q)" "\<not> is_suspended (properties q1)"
    by (simp_all add: q1_def)
  have q2: "q_ptr q2 = q_ptr q" "weight q2 = weight q" "is_active (properties q2)"
    "is_evicted (properties q2) = is_evicted (properties q)" "\<not> is_suspended (properties q2)"
    by (simp_all add: q2_def q1_def)
  obtain r1 d1 where x: "(if uses_mes dqm then add_queue_mes env dqm q1 qpd else (OK, dqm)) = (r1, d1)" by fastforce
  have so: "sched_only dqm d1" using x mes_frame(1) by (fastforce split: if_splits)
  obtain d2 p2 where inc: "increment_queue_count d1 qpd q2 = (d2, p2)" by fastforce
  have eq: "(r, d, p, q') = (if \<not> QUEUE_IS_ACTIVE (properties q1) then (OK, dqm, qpd, q1)
      else case r1 of Err e \<Rightarrow> (Err e, d1, qpd, q1) | OK \<Rightarrow> (OK, d2, p2, q2))"
    unfolding s [symmetric] resume_single_queue_def Let_def q1_def [symmetric] q2_def [symmetric] x
    using True by (cases r1) (simp_all add: inc)
  note c = sched_only_counts(1,2) [OF so]
  show ?thesis
  proof (cases "QUEUE_IS_ACTIVE (properties q1) \<and> r1 = OK")
    case True
    with eq have e: "d = d2" "p = p2" "q' = q2" by simp_all
    have "moves d1 [q] d2 [q2]" using na q2 by (intro moves_increment [OF inc]) simp_all
    moreover have "\<not> is_evicted (properties q)" using True q1 by (simp add: QUEUE_IS_ACTIVE_def)
    ultimately show ?thesis
      using c q2 qview_count(1) [OF inc] evicted_allocate(4) [OF inc] unfolding e by (intro exI [of _ d1]) simp
  next
    case False
    then have e: "p = qpd" "q' = q1" "d = dqm \<or> d = d1" using eq by (cases r1; simp split: if_splits)+
    have "counts d = counts dqm" "procs d = procs dqm" using e(3) c by auto
    moreover have "moves d [q] d [q1]" by (rule moves_flags) (simp_all add: q1)
    ultimately show ?thesis using q1 na unfolding e by (intro exI [of _ d]) simp
  qed
qed

lemma single_queue_step_inv:
  assumes inv: "dqm_inv dqm" and g: "get_qpd dqm p = Some qpd" and s: "find_queue qp qpd = Some q"
    and m: "\<exists>d1. counts d1 = counts dqm \<and> procs d1 = procs dqm \<and> moves d1 [q] d [q'] \<and> qview pd = qview qpd \<and>
      evicted pd = evicted qpd \<and> is_evicted (properties q') = is_evicted (properties q) \<and>
      (is_active (properties q') \<longrightarrow> \<not> is_suspended (properties q') \<and> \<not> is_evicted (properties q'))"
  shows "dqm_inv (put_qpd (put_queue q' pd) d)"
proof -
  from m obtain d1 where 1: "counts d1 = counts dqm" "procs d1 = procs dqm" "moves d1 [q] d [q']" "qview pd = qview qpd"
    "evicted pd = evicted qpd" "is_evicted (properties q') = is_evicted (properties q)"
    "is_active (properties q') \<longrightarrow> \<not> is_suspended (properties q') \<and> \<not> is_evicted (properties q')" by blast
  have q: "q \<in> set (queues_list qpd)" using find_queue_Some [OF s] by simp
  show ?thesis by (rule queue_write_inv [OF inv g q 1(1-6)]) (use 1(7) in simp_all)
qed

lemma suspend_resume_inv:
  assumes inv: "dqm_inv dqm"
  shows "suspend_queue_step env qp p dqm = (r, E) \<Longrightarrow> r = OK \<or> \<not> uses_mes dqm \<Longrightarrow> dqm_inv E"
    and "resume_queue_step env qp p dqm = (r, E) \<Longrightarrow> dqm_inv E"
proof -
  have act: "is_active (properties q) \<Longrightarrow> \<not> is_suspended (properties q) \<and> \<not> is_evicted (properties q)"
    if "get_qpd dqm p = Some qpd" "find_queue qp qpd = Some q" for qpd q
    using dqm_invD [OF inv that(1)] find_queue_Some [OF that(2)] by (auto simp: flags_wf_def)
  show "dqm_inv E" if s: "suspend_queue_step env qp p dqm = (r, E)" and ok: "r = OK \<or> \<not> uses_mes dqm"
  proof (cases "\<exists>qpd q. get_qpd dqm p = Some qpd \<and> find_queue qp qpd = Some q")
    case True
    then obtain qpd q where g: "get_qpd dqm p = Some qpd" "find_queue qp qpd = Some q" by blast
    obtain r1 d pd q' where x: "suspend_single_queue env dqm qpd q = (r1, d, pd, q')" by (metis prod_cases4)
    with s g have "r1 = r" "E = put_qpd (put_queue q' pd) d" by (simp_all add: suspend_queue_step_def with_process_def)
    with single_queue_step_inv [OF inv g suspend_single_moves [OF x _ act [OF g]]] ok show ?thesis by simp
  next
    case False
    with s inv show ?thesis by (auto simp: suspend_queue_step_def with_process_def split: option.splits)
  qed
  show "dqm_inv E" if s: "resume_queue_step env qp p dqm = (r, E)"
  proof (cases "\<exists>qpd q. get_qpd dqm p = Some qpd \<and> find_queue qp qpd = Some q")
    case True
    then obtain qpd q where g: "get_qpd dqm p = Some qpd" "find_queue qp qpd = Some q" by blast
    obtain r1 d pd q' where x: "resume_single_queue env dqm qpd q = (r1, d, pd, q')" by (metis prod_cases4)
    with s g have "E = put_qpd (put_queue q' pd) d" by (simp add: resume_queue_step_def with_process_def)
    with single_queue_step_inv [OF inv g resume_single_moves [OF x act [OF g]]] show ?thesis by simp
  next
    case False
    with s inv show ?thesis by (auto simp: resume_queue_step_def with_process_def split: option.splits)
  qed
qed

end
