(* ===== verification/Dqm_Evict.thy ===== *)
theory Dqm_Evict
  imports Dqm_System
begin

text \<open>
  Eviction, restore, kernel queues and process termination at the hardware scheduler: the loops over the queues of a
  process, and that they keep the invariant of the manager.
\<close>

section \<open>Eviction and restore\<close>

lemma moves_frame: "moves dqm qs d qs' \<Longrightarrow> sched_only d d' \<Longrightarrow> moves dqm qs d' qs'"
  using sched_only_counts(1,2) [of d d'] by (simp add: moves_def)

lemma mes_uses:
  "add_queue_mes env dqm q qpd = (r, dqm') \<Longrightarrow> uses_mes dqm' = uses_mes dqm"
  "remove_queue_mes env dqm q = (r, dqm') \<Longrightarrow> uses_mes dqm' = uses_mes dqm"
  by (auto simp: add_queue_mes_def remove_queue_mes_def kfd_hws_hang_def Let_def
      split: if_splits sum.splits retval.splits)

lemma evict_cpsch_loop:
  assumes "evict_queues_cpsch env ret dqm qpd qs = (r, dqm', qpd', qs')"
  shows "moves dqm qs dqm' qs' \<and> qs' = map evict_queue qs \<and> (\<exists>b. qpd' = qpd\<lparr>mapped_gws_queue := b\<rparr>)"
  using assms
proof (induction env ret dqm qpd qs arbitrary: r dqm' qpd' qs' rule: evict_queues_cpsch.induct)
  case (1 env ret dqm qpd)
  then show ?case by (auto intro!: exI [of _ "mapped_gws_queue qpd"])
next
  case (2 env ret dqm qpd q qs)
  let ?q1 = "q\<lparr>properties := (properties q)\<lparr>is_evicted := True\<rparr>\<rparr>"
  show ?case
  proof (cases "is_active (properties q)")
    case False
    obtain r1 d1 p1 qs1 where l: "evict_queues_cpsch env ret dqm qpd qs = (r1, d1, p1, qs1)"
      by (metis prod_cases4)
    from 2(1) [OF refl False l] 2(3) False l show ?thesis
      by (auto simp: is_active_idle_evict intro!: moves_Cons [OF moves_flags])
  next
    case True
    have q2: "?q1\<lparr>properties := (properties ?q1)\<lparr>is_active := False\<rparr>\<rparr> = evict_queue q"
      by (simp add: evict_queue_def)
    obtain d1 p1 where dec: "decrement_queue_count dqm qpd (evict_queue q) = (d1, p1)" by fastforce
    define x where "x = (if uses_mes d1 then (case remove_queue_mes env d1 (evict_queue q) of
        (OK, d) \<Rightarrow> (ret, d) | (Err e, d) \<Rightarrow> (Err e, d)) else (ret, d1))"
    obtain ret2 d2 where x: "x = (ret2, d2)" by (cases x)
    have so: "sched_only d1 d2"
    proof (cases "uses_mes d1")
      case True
      obtain r' d' where m: "remove_queue_mes env d1 (evict_queue q) = (r', d')" by fastforce
      with True x have "d2 = d'" by (cases r') (simp_all add: x_def)
      with mes_frame(2) [OF m] show ?thesis by simp
    qed (use x in \<open>simp add: x_def\<close>)
    obtain r3 d3 p3 qs3 where l: "evict_queues_cpsch env ret2 d2 p1 qs = (r3, d3, p3, qs3)"
      by (metis prod_cases4)
    have e: "dqm' = d3" "qpd' = p3" "qs' = evict_queue q # qs3"
      using 2(3) True unfolding evict_queues_cpsch.simps Let_def q2 dec prod.case x_def [symmetric] x l by auto
    have ih: "moves d2 qs d3 qs3 \<and> qs3 = map evict_queue qs \<and> (\<exists>b. p3 = p1\<lparr>mapped_gws_queue := b\<rparr>)"
      by (rule 2(2) [OF refl _ q2 [symmetric] dec [symmetric] refl x [symmetric, unfolded x_def] refl l])
        (use True in simp)
    have "moves dqm [q] d1 [evict_queue q]" by (rule moves_decrement [OF dec]) (simp_all add: True)
    then have "moves dqm [q] d2 [evict_queue q]" using so by (rule moves_frame)
    with ih show ?thesis using qpd_count(2) [OF dec] unfolding e by (auto intro: moves_Cons)
  qed
qed

text \<open>The restore loop; on an error the queues after the refused one stay evicted.\<close>

lemma restore_cpsch_loop:
  assumes "restore_queues_cpsch env dqm qpd qs = (r, dqm', qpd', qs')"
    and "\<forall>q \<in> set qs. \<not> is_active (properties q)"
  shows "moves dqm qs dqm' qs' \<and> (r = OK \<longrightarrow> qs' = map restore_queue qs) \<and> (\<exists>b. qpd' = qpd\<lparr>mapped_gws_queue := b\<rparr>) \<and>
    (\<not> uses_mes dqm \<longrightarrow> r = OK) \<and> uses_mes dqm' = uses_mes dqm"
  using assms
proof (induction env dqm qpd qs arbitrary: r dqm' qpd' qs' rule: restore_queues_cpsch.induct)
  case (1 env dqm qpd)
  then show ?case by (auto intro!: exI [of _ "mapped_gws_queue qpd"])
next
  case (2 env dqm qpd q qs)
  define q1 where "q1 = q\<lparr>properties := (properties q)\<lparr>is_evicted := False\<rparr>\<rparr>"
  have inact: "\<not> is_active (properties q)" and rest: "\<forall>q \<in> set qs. \<not> is_active (properties q)"
    using 2(4) by simp_all
  show ?case
  proof (cases "QUEUE_IS_ACTIVE (properties q1)")
    case False
    have rq: "q1 = restore_queue q" using False inact by (simp add: restore_queue_def q1_def)
    obtain r1 d1 p1 qs1 where l: "restore_queues_cpsch env dqm qpd qs = (r1, d1, p1, qs1)"
      by (metis prod_cases4)
    have e: "dqm' = d1" "qpd' = p1" "qs' = restore_queue q # qs1" "r = r1"
      using 2(3) False unfolding restore_queues_cpsch.simps Let_def q1_def [symmetric] l rq by auto
    have "is_active (properties (restore_queue q)) = is_active (properties q)"
      using inact unfolding rq [symmetric] by (simp add: q1_def)
    then have "moves dqm [q] dqm [restore_queue q]" by (intro moves_flags) simp_all
    with 2(1) [OF refl _ l rest] False show ?thesis unfolding e q1_def by (auto intro: moves_Cons)
  next
    case True
    have q2: "q1\<lparr>properties := (properties q1)\<lparr>is_active := True\<rparr>\<rparr> = restore_queue q"
      using True by (simp add: restore_queue_def q1_def)
    obtain d1 p1 where inc: "increment_queue_count dqm qpd (restore_queue q) = (d1, p1)" by fastforce
    have u1: "uses_mes d1 = uses_mes dqm"
      using inc by (auto simp: increment_queue_count_def Let_def split: if_splits)
    obtain ra d2 where x: "(if uses_mes d1 then add_queue_mes env d1 (restore_queue q) p1 else (OK, d1)) = (ra, d2)"
      by fastforce
    have so: "sched_only d1 d2" and u2: "uses_mes d2 = uses_mes d1"
    proof -
      have "sched_only d1 d2 \<and> uses_mes d2 = uses_mes d1"
      proof (cases "uses_mes d1")
        case True
        with x have "add_queue_mes env d1 (restore_queue q) p1 = (ra, d2)" by simp
        from mes_frame(1) [OF this] mes_uses(1) [OF this] show ?thesis by simp
      qed (use x in simp)
      then show "sched_only d1 d2" "uses_mes d2 = uses_mes d1" by simp_all
    qed
    have nm: "\<not> uses_mes d1 \<Longrightarrow> ra = OK" using x by simp
    have act: "is_active (properties (restore_queue q))" using q2 [symmetric] by simp
    then have "moves dqm [q] d1 [restore_queue q]" by (intro moves_increment [OF inc]) (simp_all add: inact)
    then have m: "moves dqm [q] d2 [restore_queue q]" using so by (rule moves_frame)
    show ?thesis
    proof (cases ra)
      case (Err er)
      have e: "dqm' = d2" "qpd' = p1" "qs' = restore_queue q # qs" "r = Err er"
        using 2(3) True unfolding restore_queues_cpsch.simps Let_def q1_def [symmetric] q2 inc prod.case x Err by auto
      have "moves d2 qs d2 qs" by (simp add: moves_def counts_def)
      with m nm Err u1 u2 show ?thesis using qpd_count(1) [OF inc] unfolding e by (auto intro: moves_Cons)
    next
      case OK
      obtain r3 d3 p3 qs3 where l: "restore_queues_cpsch env d2 p1 qs = (r3, d3, p3, qs3)" by (metis prod_cases4)
      have e: "dqm' = d3" "qpd' = p3" "qs' = restore_queue q # qs3" "r = r3"
        using 2(3) True unfolding restore_queues_cpsch.simps Let_def q1_def [symmetric] q2 inc prod.case x OK
        by (auto simp: l)
      have ih: "moves d2 qs d3 qs3 \<and> (r3 = OK \<longrightarrow> qs3 = map restore_queue qs) \<and> (\<exists>b. p3 = p1\<lparr>mapped_gws_queue := b\<rparr>) \<and>
          (\<not> uses_mes d2 \<longrightarrow> r3 = OK) \<and> uses_mes d3 = uses_mes d2"
        by (rule 2(2) [OF refl _ q2 [symmetric, unfolded q1_def] inc [symmetric] refl x [symmetric] OK l rest])
          (use True in \<open>simp add: q1_def\<close>)
      obtain b b' where "p1 = qpd\<lparr>mapped_gws_queue := b\<rparr>" "p3 = p1\<lparr>mapped_gws_queue := b'\<rparr>"
        using qpd_count(1) [OF inc] ih by blast
      then have "\<exists>b. p3 = qpd\<lparr>mapped_gws_queue := b\<rparr>" by auto
      with ih moves_Cons [OF m] u1 u2 show ?thesis unfolding e by simp
    qed
  qed
qed

lemma evict_cpsch_inv:
  assumes inv: "dqm_inv dqm" and g: "get_qpd dqm p = Some qpd" and max: "evicted qpd \<noteq> - 1"
    and vm: "drm_priv qpd = None \<Longrightarrow> queues_list qpd = []"
    and ev: "evict_process_queues_cpsch env p dqm = (r, E)"
  shows "dqm_inv E"
proof -
  have wf: "qpd_wf qpd" "flags_wf qpd" using dqm_invD [OF inv g] by auto
  have z: "evicted qpd + 1 \<noteq> 0" using max by (simp add: eq_neg_iff_add_eq_0)
  define qpd1 where "qpd1 = qpd\<lparr>evicted := evicted qpd + 1\<rparr>"
  show ?thesis
  proof (cases "evicted qpd > 0 \<or> drm_priv qpd = None")
    case True
    then have E: "E = put_qpd qpd1 dqm" using ev g by (simp add: evict_process_queues_cpsch_def with_process_def qpd1_def)
    have a: "accounts dqm qpd dqm qpd1" by (rule quiet_accounts) (simp add: quiet_def qpd1_def)
    have f: "flags_wf qpd1"
    proof (cases "evicted qpd > 0")
      case True
      then show ?thesis using z by (intro flags_wf_count [OF wf(2)]) (simp_all add: qpd1_def)
    next
      case False
      with True vm wf(2) show ?thesis by (simp add: qpd1_def flags_wf_def)
    qed
    show ?thesis by (rule dqm_inv_write [OF inv g a f]) (simp_all add: E)
  next
    case False
    obtain r1 dqm1 qpd2 qs where l: "evict_queues_cpsch env OK dqm qpd1 (queues_list qpd1) = (r1, dqm1, qpd2, qs)"
      by (metis prod_cases4)
    note lp = evict_cpsch_loop [OF l]
    then obtain b where q2: "qpd2 = qpd1\<lparr>mapped_gws_queue := b\<rparr>" by blast
    define qpd3 where "qpd3 = qpd2\<lparr>queues_list := qs, last_evict_timestamp := he_jiffies env\<rparr>"
    have v: "qview qpd3 = (qpd_ptr qpd, qs, priv_queue_list qpd, queue_count qpd)" "evicted qpd3 \<noteq> 0"
      using z by (simp_all add: qpd3_def q2 qpd1_def qview_def)
    have "queues_list qpd1 = queues_list qpd" by (simp add: qpd1_def)
    with lp have m: "moves dqm (queues_list qpd) dqm1 qs" by metis
    have a: "accounts dqm qpd dqm1 qpd3" by (rule moves_accounts [OF m v(1)])
    have f: "flags_wf qpd3"
      using lp v(2) wf(2) by (intro evict_map_flags [of _ "queues_list qpd"]) (simp_all add: qpd3_def q2 qpd1_def flags_wf_def)
    obtain r4 E' where x: "execute_queues_cpsch env (if is_debug qpd2 then KFD_UNMAP_QUEUES_FILTER_ALL_QUEUES
        else KFD_UNMAP_QUEUES_FILTER_DYNAMIC_QUEUES) 0 USE_DEFAULT_GRACE_PERIOD (put_qpd qpd3 dqm1) = (r4, E')" by fastforce
    have "(r, E) = (if uses_mes (put_qpd qpd3 dqm1) then (r1, put_qpd qpd3 dqm1) else (r4, E'))"
      unfolding ev [symmetric] x [symmetric] evict_process_queues_cpsch_def with_process_def g option.case Let_def
        qpd1_def [symmetric] l prod.case qpd3_def [symmetric] if_not_P [OF False] ..
    then have so: "sched_only (put_qpd qpd3 dqm1) E"
      using execute_queues_frame [OF x] by (auto split: if_splits)
    have pr: "procs dqm1 = procs dqm" using m by (simp add: moves_def)
    show ?thesis
      by (rule dqm_inv_write_sched [OF inv g a f so pr]) (simp_all add: sched_only_counts(1) [OF so])
  qed
qed

text \<open>
  Restoring keeps the invariant unless the MES firmware refuses a queue, see \<open>restore_mes_failure_double_counts\<close>
  below.
\<close>

lemma restore_cpsch_inv:
  assumes inv: "dqm_inv dqm" and g: "get_qpd dqm p = Some qpd" and ok: "r = OK \<or> \<not> uses_mes dqm"
    and vm: "drm_priv qpd = None \<Longrightarrow> queues_list qpd = []"
    and rs: "restore_process_queues_cpsch env p dqm = (r, E)"
  shows "dqm_inv E"
proof -
  have wf: "qpd_wf qpd" "flags_wf qpd" using dqm_invD [OF inv g] by auto
  show ?thesis
  proof (cases "evicted qpd = 1 \<and> drm_priv qpd \<noteq> None")
    case False
    define qpd1 where "qpd1 = (if evicted qpd = 0 then qpd else qpd\<lparr>evicted := evicted qpd - 1\<rparr>)"
    have dist: "distinct (map qpd_ptr (dqm_queues dqm))" using inv by (simp add: dqm_inv_def dqm_counts_def)
    have E: "E = put_qpd qpd1 dqm"
    proof (cases "evicted qpd = 0")
      case True
      with rs g have "E = dqm" by (simp add: restore_process_queues_cpsch_def with_process_def)
      with True put_qpd_same [OF g dist] show ?thesis by (simp add: qpd1_def)
    next
      case nz: False
      show ?thesis
      proof (cases "evicted qpd = 1")
        case True
        with False rs g show ?thesis by (simp add: restore_process_queues_cpsch_def with_process_def qpd1_def)
      next
        case f: False
        then have "evicted qpd > 1" using nz by (metis word_gt_0 word_le_less_eq word_less_1 not_le)
        with nz rs g show ?thesis by (simp add: restore_process_queues_cpsch_def with_process_def qpd1_def)
      qed
    qed
    have a: "accounts dqm qpd dqm qpd1" by (rule quiet_accounts) (simp add: quiet_def qpd1_def)
    have f: "flags_wf qpd1"
    proof (cases "evicted qpd = 1")
      case True
      with False vm wf(2) show ?thesis by (simp add: qpd1_def flags_wf_def)
    next
      case False
      then show ?thesis by (intro flags_wf_count [OF wf(2)]) (simp_all add: qpd1_def)
    qed
    show ?thesis by (rule dqm_inv_write [OF inv g a f]) (simp_all add: E)
  next
    case True
    have inact: "\<forall>q \<in> set (queues_list qpd). \<not> is_active (properties q)"
      using wf(2) True by (auto simp: flags_wf_def)
    define qpd0 where "qpd0 = qpd\<lparr>page_table_base := he_pd_base env\<rparr>"
    obtain r1 dqm1 qpd1 qs where l: "restore_queues_cpsch env dqm qpd0 (queues_list qpd) = (r1, dqm1, qpd1, qs)"
      by (metis prod_cases4)
    note lp = restore_cpsch_loop [OF l inact]
    then obtain b where q1: "qpd1 = qpd0\<lparr>mapped_gws_queue := b\<rparr>" by blast
    define qpd2 where "qpd2 = qpd1\<lparr>queues_list := qs\<rparr>"
    define qpd3 where "qpd3 = qpd2\<lparr>evict_duration_counter := evict_duration_counter qpd2 +
      (he_jiffies env - last_evict_timestamp qpd2), evicted := 0\<rparr>"
    obtain r2 dqm3 where x: "(if \<not> uses_mes (put_qpd qpd2 dqm1) then refresh env (put_qpd qpd2 dqm1)
        else (OK, put_qpd qpd2 dqm1)) = (r2, dqm3)" by fastforce
    have eq: "(r, E) = (case r1 of Err e \<Rightarrow> (Err e, put_qpd qpd2 dqm1) | OK \<Rightarrow> (r2, put_qpd qpd3 dqm3))"
      unfolding rs [symmetric] restore_process_queues_cpsch_def with_process_def g option.case
      Let_def qpd0_def [symmetric] l prod.case qpd2_def [symmetric] x qpd3_def [symmetric]
      using True by (cases r1) auto
    have r1: "r1 = OK" using eq ok lp by (cases r1) auto
    then have E: "E = put_qpd qpd3 dqm3" using eq by simp
    have so: "sched_only (put_qpd qpd2 dqm1) dqm3"
      using x execute_queues_frame by (fastforce split: if_splits)
    have m: "moves dqm (queues_list qpd) dqm1 qs" using lp by simp
    have v: "qview qpd3 = (qpd_ptr qpd, qs, priv_queue_list qpd, queue_count qpd)" "evicted qpd3 = 0" "qpd_ptr qpd2 = qpd_ptr qpd3"
      by (simp_all add: qpd3_def qpd2_def q1 qpd0_def qview_def)
    have a: "accounts dqm qpd dqm1 qpd3" by (rule moves_accounts [OF m v(1)])
    have f: "flags_wf qpd3"
      using lp r1 v(2) wf(2)
      by (intro restore_map_flags [of _ "queues_list qpd"]) (simp_all add: qpd3_def qpd2_def q1 qpd0_def flags_wf_def)
    have pr: "procs dqm1 = procs dqm" using m by (simp add: moves_def)
    have "dqm_queues E = dqm_queues (put_qpd qpd3 dqm)"
      using sched_only_fields(1) [OF so] pr v(3) unfolding E by (auto simp: put_qpd_def procs_def)
    moreover have "counts E = counts dqm1" using sched_only_counts(1) [OF so] by (simp add: E)
    moreover have "processes_count E = processes_count dqm"
      using sched_only_fields(2) [OF so] pr unfolding E by (simp add: put_qpd_def procs_def)
    ultimately show ?thesis by (rule dqm_inv_write [OF inv g a f])
  qed
qed

section \<open>Kernel queues\<close>

text \<open>A step that changes the kernel queues of a process by the one queue \<open>kq\<close> and counts it.\<close>

lemma add_priv_accounts:
  assumes v: "qview qpd' = (qpd_ptr qpd, queues_list qpd, kq # priv_queue_list qpd, queue_count qpd)"
    and c: "counts D = (active_queue_count dqm + 1, active_cp_queue_count dqm + fst (snd (weight kq)),
      gws_queue_count dqm + snd (snd (weight kq)), total_queue_count dqm + 1)" and pr: "procs D = procs dqm"
  shows "accounts dqm qpd D qpd'"
proof -
  have q: "queues_list qpd' = queues_list qpd" "priv_queue_list qpd' = kq # priv_queue_list qpd"
    "queue_count qpd' = queue_count qpd" "qpd_ptr qpd' = qpd_ptr qpd" using v by (simp_all add: qview_def)
  show ?thesis using c pr by (auto simp: accounts_def slack_eq q qpd_wf_def counts_def weight_def)
qed

lemma del_priv_accounts:
  assumes d: "distinct (map q_ptr (priv_queue_list qpd))" and k: "kq \<in> set (priv_queue_list qpd)"
    and v: "qview qpd' = (qpd_ptr qpd, queues_list qpd, list_del_queue kq (priv_queue_list qpd), queue_count qpd)"
    and c: "counts D = (active_queue_count dqm - 1, active_cp_queue_count dqm - fst (snd (weight kq)),
      gws_queue_count dqm - snd (snd (weight kq)), total_queue_count dqm - 1)" and pr: "procs D = procs dqm"
  shows "accounts dqm qpd D qpd'"
proof -
  obtain xs ys where s: "priv_queue_list qpd = xs @ kq # ys" "list_del_queue kq (priv_queue_list qpd) = xs @ ys"
    by (rule list_del_queue_split [OF d k])
  have q: "queues_list qpd' = queues_list qpd" "priv_queue_list qpd' = xs @ ys"
    "queue_count qpd' = queue_count qpd" "qpd_ptr qpd' = qpd_ptr qpd" using v s(2) by (simp_all add: qview_def)
  show ?thesis using c pr by (auto simp: accounts_def slack_eq q s(1) qpd_wf_def counts_def weight_def)
qed

lemma flags_wf_priv:
  "flags_wf qpd \<Longrightarrow> queues_list qpd' = queues_list qpd \<Longrightarrow> evicted qpd' = evicted qpd \<Longrightarrow>
   distinct (map q_ptr (priv_queue_list qpd')) \<Longrightarrow> flags_wf qpd'"
  by (auto simp: flags_wf_def)

lemma create_kernel_queue_inv:
  assumes inv: "dqm_inv dqm" and fr: "\<And>qpd. get_qpd dqm p = Some qpd \<Longrightarrow> q_ptr kq \<notin> q_ptr ` set (priv_queue_list qpd)"
    and c: "create_kernel_queue_cpsch env kq p dqm = (r, E)"
  shows "dqm_inv E"
proof (cases "total_queue_count dqm \<ge> max_num_of_queues_per_device (dqm_dev dqm) \<or> get_qpd dqm p = None")
  case True
  then have "E = dqm"
    using c by (cases "get_qpd dqm p") (auto simp: create_kernel_queue_cpsch_def with_process_def split: if_splits)
  with inv show ?thesis by simp
next
  case False
  then obtain qpd where g: "get_qpd dqm p = Some qpd" by auto
  have wf: "qpd_wf qpd" "flags_wf qpd" using dqm_invD [OF inv g] by auto
  define dqm1 where "dqm1 = dqm\<lparr>total_queue_count := total_queue_count dqm + 1\<rparr>"
  define qpd1 where "qpd1 = qpd\<lparr>priv_queue_list := kq # priv_queue_list qpd\<rparr>"
  obtain dqm2 qpd2 where inc: "increment_queue_count dqm1 qpd1 kq = (dqm2, qpd2)" by fastforce
  define qpd3 where "qpd3 = qpd2\<lparr>is_debug := True\<rparr>"
  have E: "E = snd (refresh env (put_qpd qpd3 dqm2))"
    using c False g unfolding create_kernel_queue_cpsch_def with_process_def dqm1_def [symmetric] qpd1_def [symmetric] Let_def
    by (simp add: qpd1_def [symmetric] inc qpd3_def)
  have v: "qview qpd3 = (qpd_ptr qpd, queues_list qpd, kq # priv_queue_list qpd, queue_count qpd)" "evicted qpd3 = evicted qpd"
    using qview_count(1) [OF inc] evicted_allocate(4) [OF inc] by (simp_all add: qpd3_def qpd1_def qview_def)
  have pr: "procs dqm2 = procs dqm" using procs_count(1) [OF inc] by (simp add: dqm1_def procs_def)
  have a: "accounts dqm qpd dqm2 qpd3"
    using counts_increment [OF inc] pr by (intro add_priv_accounts [OF v(1)]) (simp_all add: dqm1_def)
  have f: "flags_wf qpd3"
    using v fr [OF g] wf(2) by (intro flags_wf_priv [OF wf(2)]) (auto simp: qview_def flags_wf_def)
  have so: "sched_only (put_qpd qpd3 dqm2) E"
    unfolding E by (rule execute_queues_frame [OF prod.collapse [symmetric]])
  show ?thesis by (rule dqm_inv_write_sched [OF inv g a f so pr]) (simp_all add: sched_only_counts(1) [OF so])
qed

lemma destroy_kernel_queue_inv:
  assumes inv: "dqm_inv dqm" and g: "get_qpd dqm p = Some qpd" and k: "kq \<in> set (priv_queue_list qpd)"
    and d: "destroy_kernel_queue_cpsch env kq p dqm = (r, E)"
  shows "dqm_inv E"
proof -
  have wf: "qpd_wf qpd" "flags_wf qpd" using dqm_invD [OF inv g] by auto
  then have dp: "distinct (map q_ptr (priv_queue_list qpd))" by (simp add: flags_wf_def)
  define qpd1 where "qpd1 = qpd\<lparr>priv_queue_list := list_del_queue kq (priv_queue_list qpd)\<rparr>"
  obtain dqm2 qpd2 where dec: "decrement_queue_count dqm qpd1 kq = (dqm2, qpd2)" by fastforce
  define qpd3 where "qpd3 = qpd2\<lparr>is_debug := False\<rparr>"
  define dqm3 where "dqm3 = snd (execute_queues_cpsch env KFD_UNMAP_QUEUES_FILTER_ALL_QUEUES 0 USE_DEFAULT_GRACE_PERIOD
    (put_qpd qpd3 dqm2))"
  have E: "E = dqm3\<lparr>total_queue_count := total_queue_count dqm3 - 1\<rparr>"
    using d g by (simp add: destroy_kernel_queue_cpsch_def with_process_def qpd1_def [symmetric] dec qpd3_def [symmetric]
        dqm3_def [symmetric] Let_def)
  have v: "qview qpd3 = (qpd_ptr qpd, queues_list qpd, list_del_queue kq (priv_queue_list qpd), queue_count qpd)"
    "evicted qpd3 = evicted qpd"
    using qview_count(2) [OF dec] evicted_allocate(5) [OF dec] by (simp_all add: qpd3_def qpd1_def qview_def)
  have pr: "procs dqm2 = procs dqm" using procs_count(2) [OF dec] .
  have a: "accounts dqm qpd (dqm2\<lparr>total_queue_count := total_queue_count dqm2 - 1\<rparr>) qpd3"
    by (rule del_priv_accounts [OF dp k v(1)])
      (use counts_decrement [OF dec] pr in \<open>simp_all add: counts_def procs_def\<close>)
  have f: "flags_wf qpd3"
    using v distinct_list_del_queue [OF dp] by (intro flags_wf_priv [OF wf(2)]) (simp_all add: qview_def)
  have so: "sched_only (put_qpd qpd3 dqm2) dqm3"
    unfolding dqm3_def by (rule execute_queues_frame [OF prod.collapse [symmetric]])
  have c: "counts E = counts (dqm2\<lparr>total_queue_count := total_queue_count dqm2 - 1\<rparr>)"
    using sched_only_fields(3-6) [OF so] by (simp add: E put_qpd_def)
  show ?thesis by (rule dqm_inv_write_sched [OF inv g a f so pr _ _ c]) (simp_all add: E)
qed

section \<open>Termination of a process\<close>

lemma clear_kernel_queues_accounts:
  assumes "clear_kernel_queues dqm qpd kqs = (dqm', qpd')" and "priv_queue_list qpd = kqs" and "distinct (map q_ptr kqs)"
  shows "accounts dqm qpd dqm' qpd' \<and> priv_queue_list qpd' = [] \<and> queues_list qpd' = queues_list qpd \<and>
    evicted qpd' = evicted qpd"
  using assms
proof (induction dqm qpd kqs rule: clear_kernel_queues.induct)
  case (1 dqm qpd)
  then show ?case by simp
next
  case (2 dqm qpd kq kqs)
  define qpd1 where "qpd1 = qpd\<lparr>priv_queue_list := list_del_queue kq (priv_queue_list qpd)\<rparr>"
  obtain dqm2 qpd2 where dec: "decrement_queue_count dqm qpd1 kq = (dqm2, qpd2)" by fastforce
  define dqm3 where "dqm3 = dqm2\<lparr>total_queue_count := total_queue_count dqm2 - 1\<rparr>"
  define qpd3 where "qpd3 = qpd2\<lparr>is_debug := False\<rparr>"
  have l: "list_del_queue kq (priv_queue_list qpd) = kqs"
    using 2(3,4) list_del_add_queue [of kq kqs] by (simp add: list_add_queue_def)
  have v: "qview qpd3 = (qpd_ptr qpd, queues_list qpd, list_del_queue kq (priv_queue_list qpd), queue_count qpd)"
    "evicted qpd3 = evicted qpd"
    using qview_count(2) [OF dec] evicted_allocate(5) [OF dec] by (simp_all add: qpd3_def qpd1_def qview_def)
  have a: "accounts dqm qpd dqm3 qpd3"
    by (rule del_priv_accounts [OF _ _ v(1)])
      (use 2(3,4) counts_decrement [OF dec] procs_count(2) [OF dec] in \<open>simp_all add: dqm3_def counts_def procs_def\<close>)
  have r: "clear_kernel_queues dqm3 qpd3 kqs = (dqm', qpd')"
    using 2(2) by (simp add: qpd1_def [symmetric] dec dqm3_def qpd3_def Let_def)
  have p: "priv_queue_list qpd3 = kqs" "queues_list qpd3 = queues_list qpd" using v(1) l by (simp_all add: qview_def)
  have "accounts dqm3 qpd3 dqm' qpd' \<and> priv_queue_list qpd' = [] \<and> queues_list qpd' = queues_list qpd3 \<and>
      evicted qpd' = evicted qpd3"
    using 2(1) [OF qpd1_def dec [symmetric] refl, folded dqm3_def qpd3_def] r p(1) 2(4) by simp
  with a p(2) v(2) show ?case by (auto intro: accounts_trans)
qed

lemma clear_user_queues_counts:
  assumes "clear_user_queues env ret dqm qpd qs = (r, dqm', qpd')"
  shows "counts dqm' = (active_queue_count dqm - act qs, active_cp_queue_count dqm - act_cp qs,
      gws_queue_count dqm - act_gws qs, total_queue_count dqm - of_nat (length qs))"
    and "procs dqm' = procs dqm" and "\<exists>b. qpd' = qpd\<lparr>mapped_gws_queue := b\<rparr>"
proof -
  have "counts dqm' = (active_queue_count dqm - act qs, active_cp_queue_count dqm - act_cp qs,
      gws_queue_count dqm - act_gws qs, total_queue_count dqm - of_nat (length qs)) \<and>
    procs dqm' = procs dqm \<and> (\<exists>b. qpd' = qpd\<lparr>mapped_gws_queue := b\<rparr>)"
    using assms
  proof (induction qs arbitrary: ret dqm qpd)
    case Nil
    then show ?case by (auto simp: counts_def intro!: exI [of _ "mapped_gws_queue qpd"])
  next
    case (Cons q qs)
    define d1 where "d1 = (if is_sdma_type (qtype (properties q)) then deallocate_sdma_queue dqm q else dqm)"
    have 1: "counts d1 = counts dqm" "procs d1 = procs dqm" by (simp_all add: d1_def)
    define x where "x = (if is_active (properties q)
      then (case decrement_queue_count d1 qpd q of
              (d, p) \<Rightarrow> if uses_mes d then (case remove_queue_mes env d q of (r, d') \<Rightarrow> (r, d', p)) else (ret, d, p))
      else (ret, d1, qpd))"
    obtain r2 d2 p2 where x: "x = (r2, d2, p2)" by (metis prod_cases3)
    obtain dd pd where dec: "decrement_queue_count d1 qpd q = (dd, pd)" by fastforce
    obtain rm dm where rm: "remove_queue_mes env dd q = (rm, dm)" by fastforce
    have x2: "d2 = (if is_active (properties q) then if uses_mes dd then dm else dd else d1)"
      "p2 = (if is_active (properties q) then pd else qpd)"
      using x by (auto simp: x_def dec rm split: if_splits)
    note m = sched_only_counts(1,2) [OF mes_frame(2) [OF rm]]
    have 2: "counts d2 = (active_queue_count dqm - act [q], active_cp_queue_count dqm - act_cp [q],
        gws_queue_count dqm - act_gws [q], total_queue_count dqm)" "procs d2 = procs dqm"
      using 1 m counts_decrement [OF dec] procs_count(2) [OF dec] by (auto simp: x2 act_Cons counts_def)
    have p2: "\<exists>b. p2 = qpd\<lparr>mapped_gws_queue := b\<rparr>"
      using qpd_count(2) [OF dec] by (auto simp: x2 intro!: exI [of _ "mapped_gws_queue qpd"])
    define d3 where "d3 = d2\<lparr>total_queue_count := total_queue_count d2 - 1\<rparr>"
    have l: "clear_user_queues env r2 d3 p2 qs = (r, dqm', qpd')"
      using Cons.prems unfolding clear_user_queues.simps Let_def d1_def [symmetric] x_def [symmetric] x
      by (simp add: d3_def)
    obtain b b' where "p2 = qpd\<lparr>mapped_gws_queue := b\<rparr>" "qpd' = p2\<lparr>mapped_gws_queue := b'\<rparr>"
      using p2 Cons.IH [OF l] by blast
    then have "\<exists>b. qpd' = qpd\<lparr>mapped_gws_queue := b\<rparr>" by auto
    then show ?case using Cons.IH [OF l] 2 by (simp add: d3_def act_Cons counts_def procs_def)
  qed
  then show "counts dqm' = (active_queue_count dqm - act qs, active_cp_queue_count dqm - act_cp qs,
      gws_queue_count dqm - act_gws qs, total_queue_count dqm - of_nat (length qs))"
    "procs dqm' = procs dqm" "\<exists>b. qpd' = qpd\<lparr>mapped_gws_queue := b\<rparr>" by simp_all
qed

lemma unlink_put:
  "distinct (map qpd_ptr qs) \<Longrightarrow> qpd_ptr new = p \<Longrightarrow>
   unlink_process p (map (\<lambda>x. if qpd_ptr x = qpd_ptr new then new else x) qs) = unlink_process p qs"
proof (induction qs)
  case (Cons x qs)
  have "map (\<lambda>x. if qpd_ptr x = p then new else x) qs = qs" if "qpd_ptr x = p"
    using that Cons.prems by (intro map_idI) (metis distinct.simps(2) imageI list.set_map list.simps(9))
  with Cons show ?case by auto
qed simp

lemma terminate_cpsch_inv:
  assumes inv: "dqm_inv dqm" and g: "get_qpd dqm p = Some qpd"
    and t: "process_termination_cpsch env qpd dqm = (r, E, qpd')"
  shows "dqm_inv E \<and> get_qpd E p = None \<and> idle qpd'"
proof -
  have wf: "qpd_wf qpd" "flags_wf qpd" "qpd_ptr qpd = p" using dqm_invD [OF inv g] by auto
  obtain dqm1 qpd1 where k: "clear_kernel_queues dqm qpd (priv_queue_list qpd) = (dqm1, qpd1)" by fastforce
  have 1: "accounts dqm qpd dqm1 qpd1" "priv_queue_list qpd1 = []" "queues_list qpd1 = queues_list qpd"
    using clear_kernel_queues_accounts [OF k refl] wf(2) by (auto simp: flags_wf_def)
  obtain r2 dqm2 qpd2 where u: "clear_user_queues env OK dqm1 qpd1 (queues_list qpd1) = (r2, dqm2, qpd2)"
    by (metis prod_cases3)
  note 2 = clear_user_queues_counts [OF u]
  obtain b where q2: "qpd2 = qpd1\<lparr>mapped_gws_queue := b\<rparr>" using 2(3) by blast
  define qpd0 where "qpd0 = qpd2\<lparr>queues_list := [], queue_count := 0\<rparr>"
  have idle0: "idle qpd0" "qpd_ptr qpd0 = p" "flags_wf qpd0"
    using 1 wf(3) by (simp_all add: qpd0_def q2 idle_def accounts_def flags_wf_def)
  have "accounts dqm1 qpd1 dqm2 qpd0"
    using 2(1,2) 1 by (auto simp: accounts_def slack_eq counts_def qpd0_def q2 qpd_wf_def)
  then have a: "accounts dqm qpd dqm2 qpd0" using 1(1) accounts_trans by blast
  have i2: "dqm_inv (put_qpd qpd0 dqm2)"
    by (rule dqm_inv_write [OF inv g a idle0(3)])
      (use a in \<open>simp_all add: accounts_def procs_def put_qpd_def counts_def\<close>)
  define dqm3 where "dqm3 = snd (unregister_process p dqm2)"
  have dist: "distinct (map qpd_ptr (dqm_queues dqm2))"
    using inv a by (simp add: dqm_inv_def dqm_counts_def accounts_def procs_def)
  have g2: "get_qpd (put_qpd qpd0 dqm2) p = Some qpd0"
    using g a idle0(2) by (simp add: get_put_qpd) (simp add: accounts_def procs_def get_qpd_def)
  have same: "counts (snd (unregister_process p (put_qpd qpd0 dqm2))) = counts dqm3"
    "procs (snd (unregister_process p (put_qpd qpd0 dqm2))) = procs dqm3"
  proof -
    have "unlink_process p (dqm_queues (put_qpd qpd0 dqm2)) = unlink_process p (dqm_queues dqm2)"
      using unlink_put [OF dist idle0(2)] by (simp add: put_qpd_def)
    moreover have "unlink_process p (dqm_queues dqm2) \<noteq> None"
      using g2 unlink_process_None [of p "dqm_queues dqm2"] get_qpd_Some [of dqm2 p qpd] g a
      by (auto simp: accounts_def procs_def get_qpd_def)
    ultimately show "counts (snd (unregister_process p (put_qpd qpd0 dqm2))) = counts dqm3"
      "procs (snd (unregister_process p (put_qpd qpd0 dqm2))) = procs dqm3"
      by (auto simp: unregister_process_def dqm3_def counts_def procs_def put_qpd_def)
  qed
  obtain w D where D: "unregister_process p (put_qpd qpd0 dqm2) = (w, D)" by fastforce
  have "dqm_counts D" by (rule unregister_process_counts [OF _ _ D]) (use i2 g2 idle0 in \<open>auto simp: dqm_inv_def\<close>)
  moreover have "set (dqm_queues D) \<subseteq> set (dqm_queues (put_qpd qpd0 dqm2))"
    using D by (auto simp: unregister_process_def split: option.splits elim: unlink_process_Some)
  ultimately have "dqm_inv D" using i2 by (auto simp: dqm_inv_def)
  then have i3: "dqm_inv dqm3" using dqm_inv_frame [of D dqm3] same D by simp
  have n3: "get_qpd dqm3 p = None"
    using unregister_gone [of "put_qpd qpd0 dqm2" p] i2 same by (simp add: dqm_inv_def get_qpd_def procs_def)
  define flt where "flt = (if priv_queue_list qpd = [] then KFD_UNMAP_QUEUES_FILTER_DYNAMIC_QUEUES
    else KFD_UNMAP_QUEUES_FILTER_ALL_QUEUES)"
  obtain r4 dqm4 where x: "(if uses_mes dqm3 then (r2, dqm3)
     else execute_queues_cpsch env flt 0 USE_DEFAULT_GRACE_PERIOD dqm3) = (r4, dqm4)" by fastforce
  have so: "sched_only dqm3 dqm4"
  proof (cases "uses_mes dqm3")
    case False
    with x have "execute_queues_cpsch env flt 0 USE_DEFAULT_GRACE_PERIOD dqm3 = (r4, dqm4)" by simp
    then show ?thesis by (rule execute_queues_frame)
  qed (use x in simp)
  have E: "E = dqm4" "qpd' = (if \<not> is_hws_hang dqm4 \<and> (r4 \<noteq> OK \<or> reset_wavefronts qpd2)
      then qpd2\<lparr>reset_wavefronts := False\<rparr> else qpd2)\<lparr>queues_list := [],
        queue_count := queue_count qpd2 - of_nat (length (queues_list qpd2))\<rparr>"
    using t unfolding process_termination_cpsch_def Let_def k prod.case u wf(3) dqm3_def [symmetric] flt_def [symmetric] x
    by auto
  have "queue_count qpd1 = of_nat (length (queues_list qpd1))" using 1(1) wf(1) by (simp add: accounts_def qpd_wf_def)
  then have "idle qpd'" using 1(2) by (simp add: E(2) idle_def q2)
  with i3 n3 dqm_inv_sched_only [OF so] sched_only_fields(1) [OF so] show ?thesis by (simp add: E(1) get_qpd_def)
qed

end
