(* ===== verification/Dqm_Failures.thy ===== *)
theory Dqm_Failures
  imports Dqm_Evict
begin

text \<open>
  Error paths of the hardware scheduler that leave the manager inconsistent: requests the MES firmware refuses in the middle of a
  restore or a suspend, and the VMID reserved for the debugger.
\<close>

section \<open>A refused restore\<close>

text \<open>One attempt to restore an evicted process with one runnable queue, when the firmware refuses it.\<close>

lemma restore_refused:
  assumes mes: "uses_mes dqm" and g: "get_qpd dqm p = Some qpd" and ev: "evicted qpd = 1" "drm_priv qpd \<noteq> None"
    and qs: "queues_list qpd = [q]" and act: "QUEUE_IS_ACTIVE ((properties q)\<lparr>is_evicted := False\<rparr>)"
    and fw: "\<And>i. he_mes_add env i \<noteq> OK" and r: "restore_process_queues_cpsch env p dqm = (r, dqm')"
  shows "r \<noteq> OK \<and> active_queue_count dqm' = active_queue_count dqm + 1 \<and> uses_mes dqm' \<and>
    (\<exists>qpd' q'. get_qpd dqm' p = Some qpd' \<and> evicted qpd' = 1 \<and> drm_priv qpd' \<noteq> None \<and> queues_list qpd' = [q'] \<and>
       is_active (properties q') \<and> QUEUE_IS_ACTIVE ((properties q')\<lparr>is_evicted := False\<rparr>))"
proof -
  define q1 where "q1 = q\<lparr>properties := (properties q)\<lparr>is_evicted := False\<rparr>\<rparr>"
  define q2 where "q2 = q1\<lparr>properties := (properties q1)\<lparr>is_active := True\<rparr>\<rparr>"
  define qpd0 where "qpd0 = qpd\<lparr>page_table_base := he_pd_base env\<rparr>"
  obtain d1 p1 where inc: "increment_queue_count dqm qpd0 q2 = (d1, p1)" by fastforce
  have u1: "uses_mes d1" using inc mes by (auto simp: increment_queue_count_def Let_def split: if_splits)
  obtain e d2 where x: "add_queue_mes env d1 q2 p1 = (e, d2)" by fastforce
  have e: "e \<noteq> OK"
    using x fw by (auto simp: add_queue_mes_def split: if_splits sum.splits retval.splits)
  then obtain er where er: "e = Err er" by (cases e) auto
  have a1: "QUEUE_IS_ACTIVE (properties q1)" using act by (simp add: q1_def)
  have "restore_queues_cpsch env dqm qpd0 [q] = (Err er, d2, p1, [q2])"
    unfolding restore_queues_cpsch.simps Let_def q1_def [symmetric] q2_def [symmetric] inc prod.case
    using a1 u1 by (simp add: x er)
  then have E: "r = Err er" "dqm' = put_qpd (p1\<lparr>queues_list := [q2]\<rparr>) d2"
    using r g ev qs unfolding restore_process_queues_cpsch_def with_process_def by (simp_all add: qpd0_def)
  obtain b where p1: "p1 = qpd0\<lparr>mapped_gws_queue := b\<rparr>" using qpd_count(1) [OF inc] by blast
  note so = mes_frame(1) [OF x]
  have c: "active_queue_count d2 = active_queue_count dqm + 1"
    using sched_only_fields(3) [OF so] counts_increment [OF inc] by (simp add: counts_def)
  have pr: "dqm_queues d2 = dqm_queues dqm"
    using sched_only_fields(1) [OF so] procs_count(1) [OF inc] by (simp add: procs_def)
  have ptr: "qpd_ptr qpd = p" using get_qpd_Some [OF g] by simp
  have g': "get_qpd dqm' p = Some (p1\<lparr>queues_list := [q2]\<rparr>)"
    using g pr ptr unfolding E(2) get_put_qpd by (simp add: p1 qpd0_def get_qpd_def)
  have "QUEUE_IS_ACTIVE ((properties q2)\<lparr>is_evicted := False\<rparr>)" "is_active (properties q2)"
    using act by (simp_all add: q2_def q1_def QUEUE_IS_ACTIVE_def)
  moreover have "uses_mes dqm'" using mes_uses(1) [OF x] u1 by (simp add: E(2) put_qpd_def)
  ultimately show ?thesis using E(1) c g' ev by (auto simp: E(2) put_qpd_def p1 qpd0_def)
qed

text \<open>
  A restore that the MES firmware refuses is not undone: \<^verbatim>\<open>restore_process_queues_cpsch\<close> has already counted the queue and marked it
  active, but the process stays marked evicted. Restoring again counts the same queue a second time, so the
  counters exceed the number of active queues.
\<close>

theorem restore_mes_failure_double_counts:
  assumes "uses_mes dqm" and "get_qpd dqm p = Some qpd" and "evicted qpd = 1" "drm_priv qpd \<noteq> None"
    and "queues_list qpd = [q]" and "QUEUE_IS_ACTIVE ((properties q)\<lparr>is_evicted := False\<rparr>)"
    and "\<And>i. he_mes_add env i \<noteq> OK"
    and "restore_process_queues_cpsch env p dqm = (r1, dqm1)" and "restore_process_queues_cpsch env p dqm1 = (r2, dqm2)"
  shows "r1 \<noteq> OK \<and> r2 \<noteq> OK \<and> active_queue_count dqm2 = active_queue_count dqm + 2 \<and>
    (\<exists>qpd2 q2. get_qpd dqm2 p = Some qpd2 \<and> evicted qpd2 = 1 \<and> queues_list qpd2 = [q2])"
proof -
  note 1 = restore_refused [OF assms(1-8)]
  then obtain qpd1 q1 where g: "get_qpd dqm1 p = Some qpd1" "evicted qpd1 = 1" "drm_priv qpd1 \<noteq> None"
    "queues_list qpd1 = [q1]" "QUEUE_IS_ACTIVE ((properties q1)\<lparr>is_evicted := False\<rparr>)" by blast
  from 1 have u: "uses_mes dqm1" by simp
  note 2 = restore_refused [OF u g assms(7) assms(9)]
  from 1 2 show ?thesis by (auto simp: add.assoc)
qed

definition dqm_mes_evicted :: device_queue_manager where
  "dqm_mes_evicted = dqm_example\<lparr>dqm_dev := node_example\<lparr>kfd := (kfd node_example)\<lparr>enable_mes := True\<rparr>\<rparr>,
     dqm_queues := [(qpd_example 1 0x8001 [evict_queue (queue_example 11 KFD_QUEUE_TYPE_COMPUTE False)])
       \<lparr>evicted := 1, drm_priv := Some 0\<rparr>], active_queue_count := 0\<rparr>"

theorem restore_mes_failure_double_counts_witness:
  "let env = env_example\<lparr>he_mes_add := \<lambda>_. Err EIO\<rparr>;
       (r1, dqm1) = restore_process_queues_cpsch env 1 dqm_mes_evicted;
       (r2, dqm2) = restore_process_queues_cpsch env 1 dqm1
   in r1 \<noteq> OK \<and> r2 \<noteq> OK \<and> active_queue_count dqm2 = 2"
proof -
  let ?env = "env_example\<lparr>he_mes_add := \<lambda>_. Err EIO\<rparr>"
  let ?q = "evict_queue (queue_example 11 KFD_QUEUE_TYPE_COMPUTE False)"
  let ?p = "(qpd_example 1 0x8001 [?q])\<lparr>evicted := 1, drm_priv := Some 0\<rparr>"
  obtain r1 d1 where 1: "restore_process_queues_cpsch ?env 1 dqm_mes_evicted = (r1, d1)" by fastforce
  obtain r2 d2 where 2: "restore_process_queues_cpsch ?env 1 d1 = (r2, d2)" by fastforce
  have g: "get_qpd dqm_mes_evicted 1 = Some ?p" by (simp add: get_qpd_def dqm_mes_evicted_def qpd_example_def)
  have m: "uses_mes dqm_mes_evicted" by (simp add: dqm_mes_evicted_def)
  have z: "active_queue_count dqm_mes_evicted = 0" by (simp add: dqm_mes_evicted_def)
  show ?thesis
    using restore_mes_failure_double_counts [OF m g _ _ _ _ _ 1 2, of ?q] 1 2 z
    by (simp add: qpd_example_def evict_queue_def queue_example_def zero_properties_def QUEUE_IS_ACTIVE_def)
qed

section \<open>A refused suspend\<close>

text \<open>
  A suspend that the MES firmware refuses leaves the queue marked suspended although it is still active and counted. When it is
  resumed later, after the scheduler was reset, the queue is counted a second time.
\<close>

theorem suspend_mes_failure_double_counts:
  assumes "uses_mes dqm" and "\<not> is_hws_hang dqm" and "is_active (properties q)" and "\<not> is_suspended (properties q)"
    and "exception_status (properties q) AND he_ec_queue_new env = 0" and "\<not> is_being_destroyed (properties q)"
    and "QUEUE_IS_ACTIVE (properties q)" and "\<And>i. he_mes_remove env i \<noteq> OK"
    and "suspend_single_queue env dqm qpd q = (r1, dqm1, qpd1, q1)"
    and "resume_single_queue env' (dqm1\<lparr>is_hws_hang := False\<rparr>) qpd1 q1 = (OK, dqm2, qpd2, q2)"
  shows "r1 \<noteq> OK \<and> is_suspended (properties q1) \<and> is_active (properties q1) \<and> is_active (properties q2) \<and>
    active_queue_count dqm2 = active_queue_count dqm + 1"
proof -
  define qs where "qs = q\<lparr>properties := (properties q)\<lparr>is_suspended := True\<rparr>\<rparr>"
  obtain e d where x: "remove_queue_mes env dqm qs = (e, d)" by fastforce
  have "e \<noteq> OK" using x assms(2,8) by (auto simp: remove_queue_mes_def split: retval.splits)
  then obtain er where er: "e = Err er" by (cases e) auto
  have s: "r1 = Err er" "dqm1 = d" "qpd1 = qpd" "q1 = qs"
    using assms(9,1,3-6) x er unfolding suspend_single_queue_def qs_def [symmetric] Let_def by (simp_all add: qs_def)
  define q0 where "q0 = q1\<lparr>properties := (properties q1)\<lparr>is_suspended := False\<rparr>\<rparr>"
  define q3 where "q3 = q0\<lparr>properties := (properties q0)\<lparr>is_active := True\<rparr>\<rparr>"
  let ?d = "dqm1\<lparr>is_hws_hang := False\<rparr>"
  have act: "QUEUE_IS_ACTIVE (properties q0)" using assms(4,7) by (simp add: q0_def s qs_def QUEUE_IS_ACTIVE_def)
  obtain ra da where a: "(if uses_mes ?d then add_queue_mes env' ?d q0 qpd1 else (OK, ?d)) = (ra, da)" by fastforce
  obtain di p where inc: "increment_queue_count da qpd1 q3 = (di, p)" by fastforce
  have "(OK, dqm2, qpd2, q2) = (case ra of Err e \<Rightarrow> (Err e, da, qpd1, q0) | OK \<Rightarrow> (OK, di, p, q3))"
    unfolding assms(10) [symmetric] resume_single_queue_def Let_def q0_def [symmetric] q3_def [symmetric] a
    using act by (cases ra) (simp_all add: s(4) qs_def inc)
  then have f: "dqm2 = di" "q2 = q3" by (cases ra; simp)+
  have "sched_only ?d da"
  proof (cases "uses_mes ?d")
    case True
    with a have "add_queue_mes env' ?d q0 qpd1 = (ra, da)" by simp
    then show ?thesis by (rule mes_frame(1))
  qed (use a in simp)
  from sched_only_fields(3) [OF this] have "active_queue_count da = active_queue_count d" by (simp add: s)
  moreover have "active_queue_count d = active_queue_count dqm" using sched_only_fields(3) [OF mes_frame(2) [OF x]] .
  moreover have "active_queue_count di = active_queue_count da + 1" using counts_increment [OF inc] by (simp add: counts_def)
  ultimately show ?thesis using assms(3) by (simp add: f s qs_def q3_def)
qed

theorem suspend_mes_failure_double_counts_witness:
  "let q = (queue_example 11 KFD_QUEUE_TYPE_COMPUTE True);
       (r1, dqm1, qpd1, q1) = suspend_single_queue (env_example\<lparr>he_mes_remove := \<lambda>_. Err EIO\<rparr>) dqm_mes_evicted (qpd_example 1 0x8001 [q]) q
   in case resume_single_queue env_example (dqm1\<lparr>is_hws_hang := False\<rparr>) qpd1 q1 of
        (OK, dqm2, qpd2, q2) \<Rightarrow> active_queue_count dqm2 = 1 | (Err e, _) \<Rightarrow> False"
proof -
  let ?q = "queue_example 11 KFD_QUEUE_TYPE_COMPUTE True"
  let ?env = "env_example\<lparr>he_mes_remove := \<lambda>_. Err EIO\<rparr>"
  obtain r1 d1 p1 q1 where 1: "suspend_single_queue ?env dqm_mes_evicted (qpd_example 1 0x8001 [?q]) ?q = (r1, d1, p1, q1)"
    by (metis prod_cases4)
  obtain r2 d2 p2 q2 where 2: "resume_single_queue env_example (d1\<lparr>is_hws_hang := False\<rparr>) p1 q1 = (r2, d2, p2, q2)"
    by (metis prod_cases4)
  have "(case suspend_single_queue ?env dqm_mes_evicted (qpd_example 1 0x8001 [?q]) ?q of
      (r1, d1, p1, q1) \<Rightarrow> fst (resume_single_queue env_example (d1\<lparr>is_hws_hang := False\<rparr>) p1 q1)) = OK" by code_simp
  then have r2: "r2 = OK" unfolding 1 prod.case 2 by simp
  have z: "active_queue_count dqm_mes_evicted = 0" by (simp add: dqm_mes_evicted_def)
  show ?thesis
    using suspend_mes_failure_double_counts [OF _ _ _ _ _ _ _ _ 1 2 [unfolded r2]] 1 2 r2 z
    by (simp add: dqm_mes_evicted_def dqm_example_def queue_example_def zero_properties_def QUEUE_IS_ACTIVE_def env_example_def)
qed

section \<open>The debugger's VMID\<close>

lemma unmap_queues_masks:
  assumes "unmap_queues_cpsch env flt prm g rst dqm = (r, dqm')"
  shows "compute_vmid_bitmap (dqm_dev dqm') = compute_vmid_bitmap (dqm_dev dqm)"
    "shared_compute_vmid_bitmap (dqm_dev dqm') = shared_compute_vmid_bitmap (dqm_dev dqm)"
  using arg_cong [OF sched_only_fields(16) [OF unmap_queues_frame [OF assms]], of compute_vmid_bitmap]
    arg_cong [OF sched_only_fields(16) [OF unmap_queues_frame [OF assms]], of shared_compute_vmid_bitmap]
  by simp_all

text \<open>
  Reserving a VMID for the debugger takes it out of the bitmap of the shared resources, but the mask that is then sent to the
  scheduler comes from the bitmap of the node: the scheduler is told the same VMIDs as before and keeps using the
  reserved one.
\<close>

theorem reserve_debug_trap_vmid_not_withdrawn:
  assumes "reserve_debug_trap_vmid env dqm = (OK, dqm')" and "bit (compute_vmid_bitmap (dqm_dev dqm)) (last_vmid_kfd (dqm_dev dqm))"
    and "last_vmid_kfd (dqm_dev dqm) < 32"
  shows "trap_debug_vmid dqm' = of_nat (last_vmid_kfd (dqm_dev dqm)) \<and>
    \<not> bit (shared_compute_vmid_bitmap (dqm_dev dqm')) (last_vmid_kfd (dqm_dev dqm)) \<and>
    bit (vmid_mask (sched_resources (dqm_dev dqm'))) (last_vmid_kfd (dqm_dev dqm))"
proof -
  let ?n = "last_vmid_kfd (dqm_dev dqm)"
  obtain r1 d1 where u: "unmap_queues_cpsch env KFD_UNMAP_QUEUES_FILTER_ALL_QUEUES 0 USE_DEFAULT_GRACE_PERIOD False dqm = (r1, d1)"
    by fastforce
  note m = unmap_queues_masks [OF u]
  define d2 where "d2 = d1\<lparr>dqm_dev := (dqm_dev d1)\<lparr>shared_compute_vmid_bitmap :=
      shared_compute_vmid_bitmap (dqm_dev d1) AND NOT (push_bit ?n 1)\<rparr>, trap_debug_vmid := of_nat ?n\<rparr>"
  obtain r3 d3 where s: "set_sched_resources d2 = (r3, d3)" by fastforce
  have dbg: "debug_trap_update env (\<lambda>m. m AND NOT (push_bit ?n 1)) (of_nat ?n) dqm = (OK, dqm')"
    using assms(1) by (simp add: reserve_debug_trap_vmid_def split: if_splits)
  have eq: "(OK, dqm') = (case r1 of Err e \<Rightarrow> (Err e, d1)
      | OK \<Rightarrow> (case r3 of Err e \<Rightarrow> (Err e, d3) | OK \<Rightarrow> map_queues_cpsch env d3))"
    unfolding dbg [symmetric] debug_trap_update_def u prod.case Let_def d2_def [symmetric] s by (cases r1; cases r3) simp_all
  then have "r1 = OK" "r3 = OK" by (cases r1; cases r3; simp)+
  with eq have mp: "map_queues_cpsch env d3 = (OK, dqm')" by simp
  have so: "sched_only d2 dqm'"
    using sched_only_trans [OF _ map_queues_frame [OF mp]] sched_only_pm(6) [OF sched_only_refl [of d2], of "pmfs d2" "sched_resources (dqm_dev d2)"] s
    by (simp add: set_sched_resources_def)
  note f = sched_only_fields [OF so]
  have "shared_compute_vmid_bitmap (dqm_dev dqm') = shared_compute_vmid_bitmap (dqm_dev d2)"
    "compute_vmid_bitmap (dqm_dev dqm') = compute_vmid_bitmap (dqm_dev d2)"
    using arg_cong [OF f(16), of shared_compute_vmid_bitmap] arg_cong [OF f(16), of compute_vmid_bitmap] by simp_all
  then show ?thesis using assms(2,3) m f(12) by (simp add: d2_def sched_resources_def bit_simps)
qed

text \<open>A stopped manager with a HIQ of 32 words and the VMIDs 8 to 15.\<close>

definition dqm_debug :: device_queue_manager where
  "dqm_debug = upd_pm (\<lambda>pm. pm\<lparr>pm_priv_queue := Some (kq_example\<lparr>
        kq_queue := (kq_queue kq_example)\<lparr>properties := (properties (kq_queue kq_example))\<lparr>queue_size := 128\<rparr>\<rparr>,
        pq_kernel := replicate 32 0, wptr64_kernel := 0, pending_wptr64 := 0, pending_wptr := 0, rptr_kernel := 0\<rparr>)\<rparr>)
     (dqm_example\<lparr>sched_running := False, dqm_dev := node_example\<lparr>compute_vmid_bitmap := 0xff00, last_vmid_kfd := 15\<rparr>\<rparr>)"

theorem reserve_debug_trap_vmid_not_withdrawn_witness:
  "case reserve_debug_trap_vmid env_example dqm_debug of
     (OK, dqm') \<Rightarrow> trap_debug_vmid dqm' = 15 \<and> bit (vmid_mask (sched_resources (dqm_dev dqm'))) 15
   | (Err e, dqm') \<Rightarrow> False"
proof -
  obtain r d where x: "reserve_debug_trap_vmid env_example dqm_debug = (r, d)" by fastforce
  have "fst (reserve_debug_trap_vmid env_example dqm_debug) = OK" by code_simp
  then have r: "r = OK" by (simp only: x fst_conv)
  have v: "last_vmid_kfd (dqm_dev dqm_debug) = 15" "compute_vmid_bitmap (dqm_dev dqm_debug) = 0xff00"
    by (simp_all add: dqm_debug_def)
  have "bit (0xff00 :: u32) 15" by code_simp
  then show ?thesis
    unfolding x r prod.case retval.case
    using reserve_debug_trap_vmid_not_withdrawn [OF x [unfolded r]] v by simp
qed

end
