(* ===== verification/Dqm_Reach.thy ===== *)
theory Dqm_Reach
  imports Dqm_Evict
begin

text \<open>
  The device queue manager as a state machine: a step is what one operation does while it holds the manager's lock, with
  any answer of the hardware. \<^verbatim>\<open>create_queue_nocpsch\<close> drops the lock in the middle and is two steps, with any
  other steps in between. In every reachable state the counters agree with the queues, and with them the runlist buffer
  is always large enough.
\<close>

section \<open>Steps\<close>

text \<open>
  Preconditions are those of the callers: a new queue or process is not linked yet, a queue that is destroyed is linked,
  a process without a VM has no queues, a process terminated without the hardware scheduler has no debug queue, the
  eviction count does not overflow. Four behaviours of the code are not steps, because they break the
  invariant: a restore or a suspend that the MES firmware refuses (\<open>restore_mes_failure_double_counts\<close>,
  \<open>suspend_mes_failure_double_counts\<close>), the destruction of a queue after the manager without hardware scheduler was stopped,
  which lowers \<^verbatim>\<open>total_queue_count\<close> and leaves the queue linked, and the second part of a creation whose process was evicted or
  restored since the first part (\<open>create_eviction_race\<close>). The second part of a creation may add any queue that is not
  linked and whose mark agrees with its process, in particular one that a first part prepared.
\<close>

inductive dqm_step :: "device_queue_manager \<Rightarrow> device_queue_manager \<Rightarrow> bool" where
  register: "idle qpd \<Longrightarrow> qpd_ptr qpd \<notin> qpd_ptr ` set (dqm_queues dqm) \<Longrightarrow>
    dqm_step dqm (snd (register_process kz pd_base qpd dqm))"
| unregister: "get_qpd dqm p = Some qpd \<Longrightarrow> idle qpd \<Longrightarrow> dqm_step dqm (snd (unregister_process p dqm))"
| create_begin_no_hws: "sched_policy dqm = KFD_SCHED_POLICY_NO_HWS \<Longrightarrow> get_qpd dqm p = Some qpd \<Longrightarrow>
    create_queue_nocpsch_begin dqm q qpd qd = (r, dqm1, qpd1, q1) \<Longrightarrow> dqm_step dqm (put_qpd qpd1 dqm1)"
| create_finish_no_hws: "sched_policy dqm = KFD_SCHED_POLICY_NO_HWS \<Longrightarrow> get_qpd dqm p = Some qpd \<Longrightarrow>
    q_ptr q \<notin> q_ptr ` set (queues_list qpd) \<Longrightarrow> is_evicted (properties q) = (evicted qpd \<noteq> 0) \<Longrightarrow>
    dqm_step dqm (snd (on_qpd (\<lambda>d x. create_queue_nocpsch_finish env d q x qd) p dqm))"
| destroy_no_hws: "sched_policy dqm = KFD_SCHED_POLICY_NO_HWS \<Longrightarrow> get_qpd dqm p = Some qpd \<Longrightarrow>
    q \<in> set (queues_list qpd) \<Longrightarrow> sched_running dqm \<Longrightarrow> dqm_step dqm (snd (on_qpd (destroy_queue_nocpsch env q) p dqm))"
| evict_no_hws: "sched_policy dqm = KFD_SCHED_POLICY_NO_HWS \<Longrightarrow> get_qpd dqm p = Some qpd \<Longrightarrow> evicted qpd \<noteq> - 1 \<Longrightarrow>
    dqm_step dqm (snd (on_qpd (evict_process_queues_nocpsch env) p dqm))"
| restore_no_hws: "sched_policy dqm = KFD_SCHED_POLICY_NO_HWS \<Longrightarrow> get_qpd dqm p = Some qpd \<Longrightarrow>
    dqm_step dqm (snd (on_qpd (restore_process_queues_nocpsch env) p dqm))"
| terminate_no_hws: "sched_policy dqm = KFD_SCHED_POLICY_NO_HWS \<Longrightarrow> get_qpd dqm p = Some qpd \<Longrightarrow>
    priv_queue_list qpd = [] \<Longrightarrow> process_termination_nocpsch env p dqm = Some (r, dqm') \<Longrightarrow> dqm_step dqm dqm'"
| start_no_hws: "sched_policy dqm = KFD_SCHED_POLICY_NO_HWS \<Longrightarrow> dqm_step dqm (snd (start_nocpsch kz kenv dqm))"
| stop_no_hws: "sched_policy dqm = KFD_SCHED_POLICY_NO_HWS \<Longrightarrow> dqm_step dqm (snd (stop_nocpsch dqm))"
| start: "sched_policy dqm \<noteq> KFD_SCHED_POLICY_NO_HWS \<Longrightarrow> dqm_step dqm (snd (start_cpsch env kz kenv dqm))"
| stop: "sched_policy dqm \<noteq> KFD_SCHED_POLICY_NO_HWS \<Longrightarrow> dqm_step dqm (snd (stop_cpsch env dqm))"
| create: "sched_policy dqm \<noteq> KFD_SCHED_POLICY_NO_HWS \<Longrightarrow> get_qpd dqm p = Some qpd \<Longrightarrow>
    q_ptr q \<notin> q_ptr ` set (queues_list qpd) \<Longrightarrow> dqm_step dqm (snd (create_queue_cpsch env q qd p dqm))"
| destroy: "sched_policy dqm \<noteq> KFD_SCHED_POLICY_NO_HWS \<Longrightarrow> dqm_step dqm (snd (destroy_queue_cpsch env qp p dqm))"
| destroy_waited: "sched_policy dqm \<noteq> KFD_SCHED_POLICY_NO_HWS \<Longrightarrow>
    dqm_step dqm (snd (destroy_queue_cpsch_finish env qp p dqm))"
| update: "dqm_step dqm (snd (update_queue env qp p dqm))"
| suspend: "suspend_queue_step env qp p dqm = (r, dqm') \<Longrightarrow> r = OK \<or> \<not> uses_mes dqm \<Longrightarrow> dqm_step dqm dqm'"
| resume: "dqm_step dqm (snd (resume_queue_step env qp p dqm))"
| evict: "sched_policy dqm \<noteq> KFD_SCHED_POLICY_NO_HWS \<Longrightarrow> get_qpd dqm p = Some qpd \<Longrightarrow> evicted qpd \<noteq> - 1 \<Longrightarrow>
    drm_priv qpd = None \<longrightarrow> queues_list qpd = [] \<Longrightarrow> dqm_step dqm (snd (evict_process_queues_cpsch env p dqm))"
| restore: "sched_policy dqm \<noteq> KFD_SCHED_POLICY_NO_HWS \<Longrightarrow> get_qpd dqm p = Some qpd \<Longrightarrow>
    drm_priv qpd = None \<longrightarrow> queues_list qpd = [] \<Longrightarrow> restore_process_queues_cpsch env p dqm = (r, dqm') \<Longrightarrow>
    r = OK \<or> \<not> uses_mes dqm \<Longrightarrow> dqm_step dqm dqm'"
| create_kernel_queue: "get_qpd dqm p = Some qpd \<Longrightarrow> q_ptr kq \<notin> q_ptr ` set (priv_queue_list qpd) \<Longrightarrow>
    dqm_step dqm (snd (create_kernel_queue_cpsch env kq p dqm))"
| destroy_kernel_queue: "get_qpd dqm p = Some qpd \<Longrightarrow> kq \<in> set (priv_queue_list qpd) \<Longrightarrow>
    dqm_step dqm (snd (destroy_kernel_queue_cpsch env kq p dqm))"
| terminate: "sched_policy dqm \<noteq> KFD_SCHED_POLICY_NO_HWS \<Longrightarrow> get_qpd dqm p = Some qpd \<Longrightarrow>
    process_termination_cpsch env qpd dqm = (r, dqm', qpd') \<Longrightarrow> dqm_step dqm dqm'"
| execute: "dqm_step dqm (snd (execute_queues_cpsch env flt prm g dqm))"
| unmap: "dqm_step dqm (snd (unmap_queues_cpsch env flt prm g rst dqm))"
| map_queues: "dqm_step dqm (snd (map_queues_cpsch env dqm))"
| reset: "dqm_step dqm (pre_reset dqm)"

inductive_cases dqm_stepE: "dqm_step dqm dqm'"

text \<open>A manager is created zeroed and initialised for its policy.\<close>

inductive dqm_reachable :: "device_queue_manager \<Rightarrow> bool" where
  init_no_hws: "total_queue_count dqm = 0 \<Longrightarrow> processes_count dqm = 0 \<Longrightarrow>
    initialize_nocpsch b dqm = (OK, dqm') \<Longrightarrow> dqm_reachable dqm'"
| init_hws: "total_queue_count dqm = 0 \<Longrightarrow> initialize_cpsch w dqm = (OK, dqm') \<Longrightarrow> dqm_reachable dqm'"
| step: "dqm_reachable dqm \<Longrightarrow> dqm_step dqm dqm' \<Longrightarrow> dqm_reachable dqm'"

section \<open>Every step keeps the invariant\<close>

lemma register_inv:
  assumes inv: "dqm_inv dqm" and i: "idle qpd" and f: "qpd_ptr qpd \<notin> qpd_ptr ` set (dqm_queues dqm)"
  shows "dqm_inv (snd (register_process kz pd_base qpd dqm))"
proof -
  obtain r d where x: "register_process kz pd_base qpd dqm = (r, d)" by fastforce
  have "dqm_counts d" using register_process_counts [OF _ i f x] inv by (simp add: dqm_inv_def)
  moreover have "\<forall>y \<in> set (dqm_queues d). flags_wf y"
  proof (cases kz)
    case True
    obtain r1 qpd1 where u: "update_qpd dqm (qpd\<lparr>page_table_base := pd_base\<rparr>) = (r1, qpd1)" by fastforce
    from update_qpd_frame [OF u] i have "flags_wf qpd1" by (simp add: flags_wf_def qview_def idle_def)
    with x u True inv show ?thesis by (auto simp: register_process_def dqm_inv_def)
  next
    case False
    with x inv show ?thesis by (simp add: register_process_def dqm_inv_def)
  qed
  ultimately show ?thesis by (simp add: x dqm_inv_def)
qed

lemma unregister_inv:
  assumes inv: "dqm_inv dqm" and g: "get_qpd dqm p = Some qpd" and i: "idle qpd"
  shows "dqm_inv (snd (unregister_process p dqm))"
proof -
  obtain w d where x: "unregister_process p dqm = (w, d)" by fastforce
  have "dqm_counts d" by (rule unregister_process_counts [OF _ _ x]) (use inv g i in \<open>auto simp: dqm_inv_def\<close>)
  moreover have "set (dqm_queues d) \<subseteq> set (dqm_queues dqm)"
    using x by (auto simp: unregister_process_def split: option.splits elim: unlink_process_Some)
  ultimately show ?thesis using inv by (auto simp: x dqm_inv_def)
qed

text \<open>Whenever the loop of a termination ends, it has destroyed every queue.\<close>

lemma destroy_locked_priv:
  assumes "destroy_queue_nocpsch_locked env q dqm qpd = (r, dqm', qpd')" "sched_running dqm"
  shows "priv_queue_list qpd' = priv_queue_list qpd"
proof (cases "qtype (properties q) = KFD_QUEUE_TYPE_COMPUTE \<or> is_sdma_type (qtype (properties q))")
  case True
  from destroy_locked_post(1) [OF assms True] show ?thesis by (simp add: qview_def)
next
  case False
  with assms(1) show ?thesis by (auto simp: destroy_queue_nocpsch_locked_def)
qed

lemma clear_queues_some:
  assumes "clear_queues_nocpsch env ret dqm qpd = Some (r, dqm', qpd')" and "qpd_wf qpd"
  shows "accounts dqm qpd dqm' qpd' \<and> queues_list qpd' = [] \<and> priv_queue_list qpd' = priv_queue_list qpd"
proof -
  let ?P = "\<lambda>(env :: hw_env) (ret :: retval) dqm qpd y. (sched_running dqm \<or> queues_list qpd = []) \<and>
    (qpd_wf qpd \<longrightarrow> accounts dqm qpd (fst (snd y)) (snd (snd y)) \<and> queues_list (snd (snd y)) = [] \<and>
       priv_queue_list (snd (snd y)) = priv_queue_list qpd)"
  have "?P env ret dqm qpd (r, dqm', qpd')"
  proof (rule clear_queues_nocpsch.raw_induct [OF _ assms(1), where P = ?P])
    fix f :: "hw_env \<Rightarrow> retval \<Rightarrow> device_queue_manager \<Rightarrow> qcm_process_device \<Rightarrow>
       (retval \<times> device_queue_manager \<times> qcm_process_device) option" and env ret dqm qpd y
    assume ih: "\<And>env ret dqm qpd y. f env ret dqm qpd = Some y \<Longrightarrow> ?P env ret dqm qpd y"
      and b: "(case queues_list qpd of [] \<Rightarrow> Some (ret, dqm, qpd)
        | q # _ \<Rightarrow> (case destroy_queue_nocpsch_locked env q dqm qpd of
               (r, dqm1, qpd1) \<Rightarrow> f env (if r \<noteq> OK then r else ret) dqm1 qpd1)) = Some y"
    show "?P env ret dqm qpd y"
    proof (cases "queues_list qpd")
      case (Cons q qs)
      obtain r1 d1 p1 where d: "destroy_queue_nocpsch_locked env q dqm qpd = (r1, d1, p1)" by (metis prod_cases3)
      with b Cons have "f env (if r1 \<noteq> OK then r1 else ret) d1 p1 = Some y" by simp
      note 1 = ih [OF this]
      have run: "sched_running dqm" using 1 destroy_stopped [OF _ d] Cons by (cases "sched_running dqm") auto
      have "accounts dqm qpd d1 p1" if "qpd_wf qpd" using destroy_locked_accounts [OF that _ run d] Cons by simp
      with 1 run destroy_locked_priv [OF d run] show ?thesis by (auto simp: accounts_def)
    qed (use b in auto)
  qed
  with assms(2) show ?thesis by simp
qed

lemma terminate_no_hws_inv:
  assumes inv: "dqm_inv dqm" and g: "get_qpd dqm p = Some qpd" and pq: "priv_queue_list qpd = []"
    and t: "process_termination_nocpsch env p dqm = Some (r, E)"
  shows "dqm_inv E"
proof -
  have wf: "qpd_wf qpd" "qpd_ptr qpd = p" using dqm_invD [OF inv g] by auto
  obtain r1 d1 p1 where l: "clear_queues_nocpsch env OK dqm qpd = Some (r1, d1, p1)"
    and E: "E = snd (unregister_process p (put_qpd p1 d1))"
    using t g by (auto simp: process_termination_nocpsch_def split: option.splits)
  note c = clear_queues_some [OF l wf(1)]
  have i: "idle p1" "flags_wf p1" "qpd_ptr p1 = p"
    using c pq wf by (auto simp: idle_def flags_wf_def accounts_def qpd_wf_def)
  have "dqm_inv (put_qpd p1 d1)"
    by (rule dqm_inv_write [OF inv g _ i(2)]) (use c in \<open>simp_all add: accounts_def procs_def put_qpd_def counts_def\<close>)
  moreover have "get_qpd (put_qpd p1 d1) p = Some p1"
    using g c i(3) by (simp add: get_put_qpd) (simp add: accounts_def procs_def get_qpd_def)
  ultimately show ?thesis unfolding E using i(1) by (rule unregister_inv)
qed

text \<open>Starting and stopping the manager does not touch the counters or the processes.\<close>

lemma frame_flags [simp]:
  "counts (d\<lparr>sched_running := b\<rparr>) = counts d" "procs (d\<lparr>sched_running := b\<rparr>) = procs d"
  "counts (d\<lparr>wait_times := w\<rparr>) = counts d" "procs (d\<lparr>wait_times := w\<rparr>) = procs d"
  "counts (set_kfd k d) = counts d" "procs (set_kfd k d) = procs d"
  "counts (d\<lparr>packet_mgr := pm\<rparr>) = counts d" "procs (d\<lparr>packet_mgr := pm\<rparr>) = procs d"
  by (simp_all add: counts_def procs_def set_kfd_def)

lemma pm_init_frame: "pm_init kz kenv dqm = (r, dqm') \<Longrightarrow> counts dqm' = counts dqm \<and> procs dqm' = procs dqm"
  by (auto simp: pm_init_def Let_def split: option.splits prod.splits)

lemma pm_uninit_frame [simp]: "counts (pm_uninit dqm) = counts dqm" "procs (pm_uninit dqm) = procs dqm"
  by (simp_all add: pm_uninit_def split: option.splits)

lemma remove_queues_mes_frame: "remove_queues_mes env dqm qs = (r, dqm') \<Longrightarrow> sched_only dqm dqm'"
proof (induction env dqm qs arbitrary: r dqm' rule: remove_queues_mes.induct)
  case (2 env dqm q qs)
  obtain r1 d1 where x: "remove_queue_mes env dqm q = (r1, d1)" by fastforce
  from 2 x mes_frame(2) [OF x] show ?case by (auto split: if_splits retval.splits intro: sched_only_trans)
qed simp

lemma sched_frame: "sched_only dqm dqm' \<Longrightarrow> counts dqm' = counts dqm \<and> procs dqm' = procs dqm"
  by (simp add: sched_only_counts)

lemma start_grace_frame: "counts (start_grace_period env dqm) = counts dqm \<and> procs (start_grace_period env dqm) = procs dqm"
proof -
  obtain r d where u: "pm_update_grace_period (pmfs dqm) 1 dqm = (r, d)" by fastforce
  have "sched_only dqm d" using sched_only_pm(3) [OF sched_only_refl [of dqm], of "pmfs dqm" 1] u by simp
  from sched_frame [OF this] show ?thesis unfolding start_grace_period_def u by (cases r) auto
qed

lemma start_fence_frame:
  "counts (snd (start_cpsch_fence env dqm)) = counts dqm \<and> procs (snd (start_cpsch_fence env dqm)) = procs dqm"
proof -
  obtain a d where g: "dev_gtt_alloc (he_kzalloc env) (kfd (dqm_dev dqm)) 8 = (a, d)" by fastforce
  show ?thesis
  proof (cases a)
    case (Inl e)
    then show ?thesis unfolding start_cpsch_fence_def g by simp
  next
    case (Inr m)
    define dqm1 where "dqm1 = (set_kfd d dqm)\<lparr>fence_mem := Some m, fence_gpu_addr := gpu_addr m,
      is_hws_hang := False, is_resetting := False, sched_running := True\<rparr>"
    have 1: "counts dqm1 = counts dqm \<and> procs dqm1 = procs dqm"
      by (simp add: dqm1_def counts_def procs_def set_kfd_def)
    define dqm2 where "dqm2 = (if uses_mes dqm1 then dqm1 else snd (refresh env dqm1))"
    have "sched_only dqm1 dqm2" using execute_queues_frame [OF prod.collapse [symmetric]] by (simp add: dqm2_def)
    from sched_frame [OF this] 1 start_grace_frame [of env dqm2] show ?thesis
      unfolding start_cpsch_fence_def g prod.case Inr sum.case Let_def dqm1_def [symmetric] dqm2_def [symmetric] by simp
  qed
qed

lemma start_cpsch_frame:
  "counts (snd (start_cpsch env kz kenv dqm)) = counts dqm \<and> procs (snd (start_cpsch env kz kenv dqm)) = procs dqm"
proof -
  obtain r1 d1 where i: "pm_init kz kenv dqm = (r1, d1)" by fastforce
  obtain r2 d2 where s: "set_sched_resources d1 = (r2, d2)" by fastforce
  have "sched_only d1 d2"
    using sched_only_pm(6) [OF sched_only_refl [of d1], of "pmfs d1" "sched_resources (dqm_dev d1)"] s
    by (simp add: set_sched_resources_def)
  from sched_frame [OF this] pm_init_frame [OF i] start_fence_frame [of env d2] start_fence_frame [of env dqm] show ?thesis
    unfolding start_cpsch_def i prod.case s by (cases r1; cases r2) auto
qed

lemma stop_cpsch_frame: "counts (snd (stop_cpsch env dqm)) = counts dqm \<and> procs (snd (stop_cpsch env dqm)) = procs dqm"
proof -
  define d1 where "d1 = (if is_hws_hang dqm then dqm
    else if \<not> uses_mes dqm then snd (unmap_queues_cpsch env KFD_UNMAP_QUEUES_FILTER_ALL_QUEUES 0 USE_DEFAULT_GRACE_PERIOD False dqm)
    else snd (remove_all_queues_mes env dqm))"
  have "sched_only dqm d1"
    using unmap_queues_frame [OF prod.collapse [symmetric]] remove_queues_mes_frame [OF prod.collapse [symmetric]]
    by (simp add: d1_def remove_all_queues_mes_def)
  note 1 = sched_frame [OF this]
  define d2 where "d2 = d1\<lparr>sched_running := False\<rparr>"
  define d3 where "d3 = (if \<not> uses_mes d2 then pm_release_ib d2 else d2)"
  have "sched_only d2 d3" using sched_only_pm(1) [OF sched_only_refl] by (simp add: d3_def)
  note 3 = sched_frame [OF this]
  show ?thesis
    unfolding stop_cpsch_def Let_def d1_def [symmetric] d2_def [symmetric] d3_def [symmetric]
    using 1 3 by (simp add: d2_def)
qed

lemma start_stop_nocpsch_frame:
  "counts (snd (start_nocpsch kz kenv dqm)) = counts dqm \<and> procs (snd (start_nocpsch kz kenv dqm)) = procs dqm"
  "counts (snd (stop_nocpsch dqm)) = counts dqm \<and> procs (snd (stop_nocpsch dqm)) = procs dqm"
  using pm_init_frame [of kz kenv dqm]
  by (auto simp: start_nocpsch_def stop_nocpsch_def Let_def split: prod.splits retval.splits if_splits)

lemma restore_no_hws_pre: "flags_wf qpd \<Longrightarrow> evicted qpd = 1 \<longrightarrow> (\<forall>q \<in> set (queues_list qpd). \<not> is_active (properties q))"
  by (auto simp: flags_wf_def)

interpretation finish_nocpsch: process_operation "\<lambda>dqm qpd. create_queue_nocpsch_finish env dqm q qpd qd"
  "\<lambda>dqm qpd. q_ptr q \<notin> q_ptr ` set (queues_list qpd)" for env q qd
  by (rule process_operationI) (rule create_finish_accounts)

lemma dqm_step_inv: "dqm_step dqm dqm' \<Longrightarrow> dqm_inv dqm \<Longrightarrow> dqm_inv dqm'"
proof (induction rule: dqm_step.induct)
  case (create_begin_no_hws dqm p qpd q qd r dqm1 qpd1 q1)
  note qb = quiet_create_begin [OF create_begin_no_hws(3)] create_begin_evicted [OF create_begin_no_hws(3)]
  have "flags_wf qpd1" using qb create_begin_no_hws quiet_flags dqm_invD by blast
  then show ?case
    using dqm_inv_write [OF create_begin_no_hws(4,2), of dqm1 qpd1 "put_qpd qpd1 dqm1"] quiet_accounts [of dqm qpd dqm1 qpd1] qb
    by (simp add: put_qpd_def quiet_def procs_def counts_def)
next
  case (create_finish_no_hws dqm p qpd q env qd)
  then show ?case
    by (intro process_operation_inv [OF finish_nocpsch.process_operation_axioms _ _ _ _ prod.collapse [symmetric]])
      (auto dest: create_finish_flags dqm_invD)
next
  case (destroy_no_hws dqm p qpd q env)
  then show ?case
    by (intro process_operation_inv [OF destroy_nocpsch.process_operation_axioms _ _ _ _ prod.collapse [symmetric]])
      (auto dest: destroy_nocpsch_flags dqm_invD)
next
  case (evict_no_hws dqm p qpd env)
  then show ?case
    by (intro process_operation_inv [OF evict_nocpsch.process_operation_axioms _ _ _ _ prod.collapse [symmetric]])
      (auto dest: evict_nocpsch_flags dqm_invD)
next
  case (restore_no_hws dqm p qpd env)
  then show ?case
    using restore_no_hws_pre [of qpd] dqm_invD [of dqm p qpd]
    by (intro process_operation_inv [OF restore_nocpsch.process_operation_axioms _ _ _ _ prod.collapse [symmetric]])
      (auto dest: restore_nocpsch_flags)
next
  case (create dqm p qpd q env qd)
  then show ?case by (intro create_queue_cpsch_inv [OF _ _ prod.collapse [symmetric]]) auto
next
  case (evict dqm p qpd env)
  then show ?case by (intro evict_cpsch_inv [OF _ _ _ _ prod.collapse [symmetric]]) auto
next
  case (create_kernel_queue dqm p qpd kq env)
  then show ?case by (intro create_kernel_queue_inv [OF _ _ prod.collapse [symmetric]]) auto
next
  case (execute dqm env flt prm g)
  then show ?case using dqm_inv_sched_only [OF execute_queues_frame [OF prod.collapse [symmetric]]] by simp
next
  case (unmap dqm env flt prm g rst)
  then show ?case using dqm_inv_sched_only [OF unmap_queues_frame [OF prod.collapse [symmetric]]] by simp
next
  case (map_queues dqm env)
  then show ?case using dqm_inv_sched_only [OF map_queues_frame [OF prod.collapse [symmetric]]] by simp
next
  case (reset dqm)
  then show ?case using dqm_inv_frame [of "pre_reset dqm" dqm] by (simp add: pre_reset_def counts_def procs_def)
next
  case (start_no_hws dqm kz kenv)
  then show ?case using dqm_inv_frame start_stop_nocpsch_frame(1) by blast
next
  case (stop_no_hws dqm)
  then show ?case using dqm_inv_frame start_stop_nocpsch_frame(2) by blast
next
  case (start dqm env kz kenv)
  then show ?case using dqm_inv_frame start_cpsch_frame by blast
next
  case (stop dqm env)
  then show ?case using dqm_inv_frame stop_cpsch_frame by blast
qed (auto intro: register_inv unregister_inv terminate_no_hws_inv destroy_queue_cpsch_inv [OF _ prod.collapse [symmetric]]
  destroy_cpsch_finish_inv [OF _ prod.collapse [symmetric]] update_queue_inv [OF _ prod.collapse [symmetric]]
  suspend_resume_inv(1) suspend_resume_inv(2) [OF _ prod.collapse [symmetric]] restore_cpsch_inv
  destroy_kernel_queue_inv [OF _ _ _ prod.collapse [symmetric]] dest: terminate_cpsch_inv)

lemma init_inv:
  assumes "dqm_queues d = []" "processes_count d = 0" "active_queue_count d = 0" "active_cp_queue_count d = 0"
    "gws_queue_count d = 0" "total_queue_count d = 0"
  shows "dqm_inv d"
  using assms by (simp add: dqm_inv_def dqm_counts_def proc_sum_def)

lemma init_sdma_counts:
  "dqm_queues (init_sdma_bitmaps d) = dqm_queues d" "processes_count (init_sdma_bitmaps d) = processes_count d"
  "active_queue_count (init_sdma_bitmaps d) = active_queue_count d"
  "active_cp_queue_count (init_sdma_bitmaps d) = active_cp_queue_count d"
  "gws_queue_count (init_sdma_bitmaps d) = gws_queue_count d" "total_queue_count (init_sdma_bitmaps d) = total_queue_count d"
  by (simp_all add: init_sdma_bitmaps_def Let_def)

lemma reachable_inv: "dqm_reachable dqm \<Longrightarrow> dqm_inv dqm"
proof (induction rule: dqm_reachable.induct)
  case (init_no_hws dqm b dqm')
  then show ?case by (intro init_inv) (auto simp: initialize_nocpsch_def init_sdma_counts split: if_splits)
next
  case (init_hws dqm w dqm')
  then show ?case by (intro init_inv) (auto simp: initialize_cpsch_def init_sdma_counts Let_def split: option.splits)
next
  case (step dqm dqm')
  then show ?case by (simp add: dqm_step_inv)
qed

section \<open>Properties\<close>

text \<open>
  C1. In every state the device queue manager can reach by the steps above, in any order and with any answers of the
  hardware to them, the counters are those of the registered queues: \<^verbatim>\<open>processes_count\<close>, \<^verbatim>\<open>active_queue_count\<close>,
  \<^verbatim>\<open>active_cp_queue_count\<close>, \<^verbatim>\<open>gws_queue_count\<close>, \<^verbatim>\<open>total_queue_count\<close> and the \<^verbatim>\<open>queue_count\<close> of every process. A queue is marked
  evicted exactly while its process is evicted, and an active queue is neither evicted nor suspended. The steps are
  registration, creation (without hardware scheduler in its two parts), destruction, update, suspend, resume,
  eviction, restore, debug queues, termination, start, stop, mapping, unmapping and reset. Not steps are the four
  behaviours that break the invariant: a restore or suspend refused by the MES firmware, the destruction of a queue of a
  stopped manager without hardware scheduler, and the end of a creation whose process was evicted or restored since its
  beginning.
\<close>

theorem reachable_queues_accounted:
  assumes "dqm_reachable dqm"
  shows "processes_count dqm = of_nat (length (dqm_queues dqm)) \<and>
    active_queue_count dqm = of_nat (proc_sum n_active dqm) \<and>
    active_cp_queue_count dqm = of_nat (proc_sum n_cp dqm) \<and>
    gws_queue_count dqm = of_nat (proc_sum n_gws dqm) \<and>
    total_queue_count dqm = of_nat (proc_sum n_total dqm) \<and>
    (\<forall>qpd \<in> set (dqm_queues dqm). queue_count qpd = of_nat (length (queues_list qpd)) \<and>
       (\<forall>q \<in> set (queues_list qpd). is_evicted (properties q) = (evicted qpd \<noteq> 0) \<and>
          (is_active (properties q) \<longrightarrow> \<not> is_evicted (properties q) \<and> \<not> is_suspended (properties q))))"
  using reachable_inv [OF assms] by (auto simp: dqm_inv_def dqm_counts_def qpd_wf_def flags_wf_def)

text \<open>A manager that was initialised, registered a process and created a queue.\<close>

definition reach_init :: device_queue_manager where
  "reach_init = snd (initialize_cpsch None (dqm_example\<lparr>total_queue_count := 0, processes_count := 0, sched_running := False,
    dqm_dev := node_example\<lparr>kfd := (kfd node_example)\<lparr>soc15 := False\<rparr>, gc_version := IP_VERSION 10 3 0\<rparr>\<rparr>))"

definition reach_registered :: device_queue_manager where
  "reach_registered = snd (register_process True 0x7000
     ((qpd_example 1 0x8001 [])\<lparr>proc_doorbells := Some 0x4000, drm_priv := Some 0\<rparr>) reach_init)"

definition reach_created :: device_queue_manager where
  "reach_created = snd (create_queue_cpsch env_example (queue_example 7 KFD_QUEUE_TYPE_COMPUTE False) None 1 reach_registered)"

lemma reach_registered_reachable: "dqm_reachable reach_registered"
proof -
  let ?d = "dqm_example\<lparr>total_queue_count := 0, processes_count := 0, sched_running := False,
    dqm_dev := node_example\<lparr>kfd := (kfd node_example)\<lparr>soc15 := False\<rparr>, gc_version := IP_VERSION 10 3 0\<rparr>\<rparr>"
  have "initialize_cpsch None ?d = (OK, reach_init)" by (simp add: reach_init_def initialize_cpsch_def Let_def)
  then have "dqm_reachable reach_init" by (rule dqm_reachable.init_hws [rotated]) simp
  moreover have "dqm_step reach_init reach_registered"
    unfolding reach_registered_def
    by (rule dqm_step.register) (simp_all add: idle_def qpd_example_def reach_init_def initialize_cpsch_def
        init_sdma_counts Let_def)
  ultimately show ?thesis by (metis dqm_reachable.step)
qed

lemma reach_created_reachable: "dqm_reachable reach_created"
proof -
  have "dqm_step reach_registered reach_created"
  proof -
    have "map (\<lambda>x. (qpd_ptr x, queues_list x)) (dqm_queues reach_registered) = [(1, [])]" by code_simp
    then obtain x where "dqm_queues reach_registered = [x]" "qpd_ptr x = 1" "queues_list x = []" by auto
    then have g: "get_qpd reach_registered 1 = Some x" "queues_list x = []" by (simp_all add: get_qpd_def)
    have "sched_policy reach_registered \<noteq> KFD_SCHED_POLICY_NO_HWS" by code_simp
    from dqm_step.create [OF this g(1)] g(2) show ?thesis unfolding reach_created_def by simp
  qed
  with reach_registered_reachable show ?thesis by (rule dqm_reachable.step)
qed

theorem reachable_queues_accounted_witness:
  "active_queue_count reach_created = of_nat (proc_sum n_active reach_created) \<and>
   total_queue_count reach_created = of_nat (proc_sum n_total reach_created) \<and> proc_sum n_active reach_created = 1"
proof -
  have "proc_sum n_active reach_created = 1" by code_simp
  then show ?thesis using reachable_queues_accounted [OF reach_created_reachable] by simp
qed

lemma active_queues_le: "length (active_queues qpd) \<le> n_active qpd"
  by (simp add: active_queues_def n_defs)

lemma pm_sizes_pos: "0 < map_process_size (pm_funcs t)" "0 < map_queues_size (pm_funcs t)"
  by (cases t; simp add: pm_funcs_def kfd_vi_pm_funcs_def kfd_v9_pm_funcs_def kfd_aldebaran_pm_funcs_def)+

lemma inv_counters_cover:
  assumes inv: "dqm_inv dqm"
    and b: "length (dqm_queues dqm) * map_process_size (pm_funcs t) + proc_sum n_active dqm * map_queues_size (pm_funcs t) +
      runlist_size (pm_funcs t) < 2 ^ 32"
  shows "counters_cover (pm_funcs t) dqm"
proof -
  let ?P = "length (dqm_queues dqm)" and ?Q = "proc_sum n_active dqm"
  have "?P \<le> ?P * map_process_size (pm_funcs t)" "?Q \<le> ?Q * map_queues_size (pm_funcs t)"
    using pm_sizes_pos [of t] by simp_all
  then have "?P < 2 ^ 32" "?Q < 2 ^ 32" using b by linarith+
  then have u: "unat (of_nat ?P :: u32) = ?P" "unat (of_nat ?Q :: u32) = ?Q" by (simp_all add: unat_of_nat_small)
  have c: "processes_count dqm = of_nat ?P" "active_queue_count dqm = of_nat ?Q"
    using inv by (auto simp: dqm_inv_def dqm_counts_def)
  have "proc_sum (length \<circ> active_queues) dqm \<le> ?Q"
    unfolding proc_sum_def by (rule sum_list_mono) (simp add: active_queues_le)
  then show ?thesis unfolding counters_cover_def c u using b by simp
qed

text \<open>
  C30. The runlist buffer is always large enough: in every reachable state whose queues fit a 32-bit size, without a
  runlist outstanding and with room in the GTT, \<^verbatim>\<open>pm_create_runlist_ib\<close> succeeds, writes nothing beyond the buffer it sized
  by the counters, and the buffer holds the packets of every registered process and active queue.
\<close>

theorem reachable_runlist_fits:
  assumes "dqm_reachable dqm"
    and "length (dqm_queues dqm) * map_process_size (pm_funcs t) + proc_sum n_active dqm * map_queues_size (pm_funcs t) +
      runlist_size (pm_funcs t) < 2 ^ 32"
    and "\<forall>qpd \<in> set (dqm_queues dqm). mappable qpd" and "\<not> pm_allocated (packet_mgr dqm)"
    and "pm_calc_rlib_size (pm_funcs t) dqm = (sz, over)"
    and "dev_gtt_alloc kz (kfd (dqm_dev dqm)) sz = (Inr m, d)" and "gpu_addr m \<noteq> 0"
  shows "\<exists>dqm' k. pm_create_runlist_ib (pm_funcs t) kz dqm = (Inr (gpu_addr m, sz), dqm') \<and>
    \<not> ib_overflow (packet_mgr dqm') \<and>
    ib_words (packet_mgr dqm') = concat (ib_packets (pm_funcs t) dqm (gpu_addr m)) @ replicate k 0"
  using pm4_table.create_runlist_ib_ok [OF pm4_table_pm_funcs assms(4) inv_counters_cover [OF reachable_inv [OF assms(1)] assms(2)]
      assms(3,5,6,7)] by blast

theorem reachable_runlist_fits_witness:
  "\<exists>dqm' k sz. pm_create_runlist_ib (pm_funcs kfd_v9_pm_table) True reach_registered = (Inr (0x1000, sz), dqm') \<and>
    \<not> ib_overflow (packet_mgr dqm') \<and>
    ib_words (packet_mgr dqm') = concat (ib_packets (pm_funcs kfd_v9_pm_table) reach_registered 0x1000) @ replicate k 0"
proof -
  let ?F = "pm_funcs kfd_v9_pm_table" and ?m = "\<lparr>range_start = 0, range_end = 0, gpu_addr = 0x1000, cpu_ptr = 0x8000\<rparr>"
  have r: "dqm_reachable reach_registered" by (rule reach_registered_reachable)
  have "length (dqm_queues reach_registered) = 1" "proc_sum n_active reach_registered = 0" by code_simp+
  then have b: "length (dqm_queues reach_registered) * map_process_size ?F + proc_sum n_active reach_registered * map_queues_size ?F +
      runlist_size ?F < 2 ^ 32" by (simp add: pm_funcs_def kfd_v9_pm_funcs_def)
  have "map (\<lambda>x. length (active_queues x)) (dqm_queues reach_registered) = [0]" by code_simp
  then have m: "\<forall>qpd \<in> set (dqm_queues reach_registered). mappable qpd" by (auto simp: mappable_def)
  have n: "\<not> pm_allocated (packet_mgr reach_registered)" by code_simp
  have "fst (dev_gtt_alloc True (kfd (dqm_dev reach_registered)) (fst (pm_calc_rlib_size ?F reach_registered))) = Inr ?m"
    by code_simp
  then obtain d where d: "dev_gtt_alloc True (kfd (dqm_dev reach_registered)) (fst (pm_calc_rlib_size ?F reach_registered)) = (Inr ?m, d)"
    by (metis prod.collapse)
  show ?thesis using reachable_runlist_fits [OF r b m n prod.collapse [symmetric] d] by auto
qed

text \<open>
  C31. Terminating a process at the hardware scheduler: whatever the scheduler or the firmware answers, the process is
  unregistered and left without queues, and the invariant of the manager holds for the remaining processes.
\<close>

theorem process_termination_cpsch_cleans:
  assumes "dqm_inv dqm" and "get_qpd dqm p = Some qpd" and "process_termination_cpsch env qpd dqm = (r, dqm', qpd')"
  shows "dqm_inv dqm' \<and> get_qpd dqm' p = None \<and> queues_list qpd' = [] \<and> priv_queue_list qpd' = [] \<and> queue_count qpd' = 0"
  using terminate_cpsch_inv [OF assms] by (simp add: idle_def)

theorem process_termination_cpsch_cleans_witness:
  "\<exists>qpd. get_qpd reach_created 1 = Some qpd \<and> length (queues_list qpd) = 1 \<and>
     get_qpd (fst (snd (process_termination_cpsch env_example qpd reach_created))) 1 = None"
proof -
  have "map_option (\<lambda>x. length (queues_list x)) (get_qpd reach_created 1) = Some 1" by code_simp
  then obtain qpd where g: "get_qpd reach_created 1 = Some qpd" "length (queues_list qpd) = 1" by auto
  obtain r d q where t: "process_termination_cpsch env_example qpd reach_created = (r, d, q)" by (metis prod_cases3)
  show ?thesis
    using process_termination_cpsch_cleans [OF reachable_inv [OF reach_created_reachable] g(1) t] g t by auto
qed

end
