(* ===== verification/Mqd_Manager.thy ===== *)
theory Mqd_Manager
  imports Dqm_Resources
begin

text \<open>
  The part of the MQD managers that all hardware generations share (\<^verbatim>\<open>kfd/kfd_mqd_manager.c\<close>): the
  distribution of a user's CU mask over the shader engines, and the layout of the buffer that holds the
  MQDs of the HIQ and of all SDMA queues, which \<^verbatim>\<open>allocate_hiq_sdma_mqd\<close> of
  \<^verbatim>\<open>kfd/kfd_device_queue_manager.c\<close> sizes.

  A read or write outside an array is \<open>None\<close>; loop counters are natural numbers, which the C \<^verbatim>\<open>int\<close>s
  never leave since the loops are bounded by 16 CUs, 8 shader engines and a mask of 1024 bits.
\<close>

section \<open>Words and arrays\<close>

definition nth_opt :: "'a list \<Rightarrow> nat \<Rightarrow> 'a option" where
  "nth_opt xs i = (if i < length xs then Some (xs ! i) else None)"

text \<open>\<^verbatim>\<open>hweight32\<close>, \<^verbatim>\<open>hweight16\<close> and \<^verbatim>\<open>ffs\<close>.\<close>

definition hweight :: "nat \<Rightarrow> u32 \<Rightarrow> nat" where
  "hweight n w = length (filter (bit w) [0..<n])"

definition NUM_XCC :: "u32 \<Rightarrow> nat" where
  "NUM_XCC m = hweight 16 m"

definition ffs :: "u32 \<Rightarrow> nat" where
  "ffs w = (case List.find (bit w) [0..<32] of Some i \<Rightarrow> Suc i | None \<Rightarrow> 0)"

section \<open>CU masks\<close>

text \<open>What the function reads of the graphics configuration of the device.\<close>

record gfx_info =
  cu_number :: u32
  cu_bitmap :: "u32 list list list"
  max_shader_engines :: nat
  max_sh_per_se :: nat
  xcc_mask :: u32

abbreviation (input) KFD_MAX_NUM_SE :: nat where "KFD_MAX_NUM_SE \<equiv> 8"
abbreviation (input) KFD_MAX_NUM_SH_PER_SE :: nat where "KFD_MAX_NUM_SH_PER_SE \<equiv> 2"

definition wgp_mode_req :: "kfd_node \<Rightarrow> bool" where
  "wgp_mode_req dev \<longleftrightarrow> gc_version dev \<ge> IP_VERSION 10 0 0"

definition cu_inc :: "kfd_node \<Rightarrow> nat" where
  "cu_inc dev = (if wgp_mode_req dev then 2 else 1)"

definition en_mask :: "kfd_node \<Rightarrow> u32" where
  "en_mask dev = (if wgp_mode_req dev then 3 else 1)"

definition cu_bitmap_sh_mul :: "kfd_node \<Rightarrow> nat" where
  "cu_bitmap_sh_mul dev =
     (if gc_version dev \<ge> IP_VERSION 11 0 0 \<and> gc_version dev < IP_VERSION 12 0 0 then 2 else 1)"

text \<open>The number of active CUs of one SH, and the table \<^verbatim>\<open>cu_per_sh\<close>.\<close>

definition sh_active_cus :: "kfd_node \<Rightarrow> gfx_info \<Rightarrow> nat \<Rightarrow> nat \<Rightarrow> nat \<Rightarrow> nat option" where
  "sh_active_cus dev g inst se sh =
     (let xcc_inst = int inst + int (ffs (xcc_mask g)) - 1 in
      if xcc_inst < 0 then None
      else case nth_opt (cu_bitmap g) (nat xcc_inst) of
          None \<Rightarrow> None
        | Some ses \<Rightarrow>
            (case nth_opt ses (se mod 4) of
               None \<Rightarrow> None
             | Some shs \<Rightarrow>
                 (case nth_opt shs (sh + (se div 4) * cu_bitmap_sh_mul dev) of
                    None \<Rightarrow> None
                  | Some w \<Rightarrow> Some (hweight 32 w))))"

definition cu_per_sh :: "kfd_node \<Rightarrow> gfx_info \<Rightarrow> nat \<Rightarrow> nat list list option" where
  "cu_per_sh dev g inst =
     those (map (\<lambda>se. those (map (sh_active_cus dev g inst se) [0..<max_sh_per_se g]))
            [0..<max_shader_engines g])"

text \<open>
  The three nested loops, in their order of iteration, as one pass over the triples of their
  counters. \<open>i\<close> is the position in the user's mask, which only active CUs consume; the \<^verbatim>\<open>return\<close> inside
  the loops ends the pass.
\<close>

definition cu_slots :: "kfd_node \<Rightarrow> gfx_info \<Rightarrow> (nat \<times> nat \<times> nat) list" where
  "cu_slots dev g =
     concat (map (\<lambda>k. concat (map (\<lambda>sh. map (\<lambda>se. (k * cu_inc dev, sh, se)) [0..<max_shader_engines g])
                                  [0..<max_sh_per_se g]))
             [0..<16 div cu_inc dev])"

fun map_cus :: "u32 \<Rightarrow> u32 list \<Rightarrow> nat \<Rightarrow> nat \<Rightarrow> nat list list \<Rightarrow> (nat \<times> nat \<times> nat) list \<Rightarrow> nat \<Rightarrow>
    u32 list \<Rightarrow> u32 list option" where
  "map_cus en cu_mask count inc tbl [] i se_mask = Some se_mask"
| "map_cus en cu_mask count inc tbl ((cu, sh, se) # slots) i se_mask =
     (if tbl ! se ! sh > cu then
        (case nth_opt cu_mask (i div 32) of
           None \<Rightarrow> None
         | Some w \<Rightarrow>
             (let se_mask' = (if w AND push_bit (i mod 32) en \<noteq> 0
                              then se_mask[se := se_mask ! se OR push_bit (cu + sh * 16) en]
                              else se_mask) in
              if i + inc \<ge> count then Some se_mask'
              else map_cus en cu_mask count inc tbl slots (i + inc) se_mask'))
      else map_cus en cu_mask count inc tbl slots i se_mask)"

definition clamp_cu_count :: "kfd_node \<Rightarrow> gfx_info \<Rightarrow> u32 \<Rightarrow> nat" where
  "clamp_cu_count dev g cu_mask_count =
     (let cu_active_per_node = unat (cu_number g) div num_nodes dev in
      if unat cu_mask_count > cu_active_per_node then cu_active_per_node else unat cu_mask_count)"

definition mqd_symmetrically_map_cu_mask ::
    "kfd_node \<Rightarrow> gfx_info \<Rightarrow> u32 list \<Rightarrow> u32 \<Rightarrow> u32 list \<Rightarrow> nat \<Rightarrow> u32 list option" where
  "mqd_symmetrically_map_cu_mask dev g cu_mask cu_mask_count se_mask inst =
     (let count = clamp_cu_count dev g cu_mask_count;
          inc = cu_inc dev * NUM_XCC (xcc_mask g) in
      if max_shader_engines g > KFD_MAX_NUM_SE then Some se_mask
      else if max_sh_per_se g > KFD_MAX_NUM_SH_PER_SE then Some se_mask
      else case cu_per_sh dev g inst of
          None \<Rightarrow> None
        | Some tbl \<Rightarrow>
            (if max_shader_engines g > length se_mask then None
             else map_cus (en_mask dev) cu_mask count inc tbl (cu_slots dev g) inst
                    (replicate (max_shader_engines g) 0 @ drop (max_shader_engines g) se_mask)))"

section \<open>The buffer of the HIQ and SDMA MQDs\<close>

text \<open>
  The sizes of the MQDs of the HIQ and of SDMA queues, the number of XCCs, and the buffer itself. Products are
  computed in 32 bits, as the operands are \<^verbatim>\<open>unsigned int\<close>.
\<close>

record hiq_sdma_trunk =
  hiq_mqd_size :: u32
  sdma_mqd_size :: u32
  trunk_num_xcc :: u32
  trunk_obj :: kfd_mem_obj

definition hiq_sdma_size :: "device_queue_manager \<Rightarrow> hiq_sdma_trunk \<Rightarrow> u32" where
  "hiq_sdma_size dqm t =
     sdma_mqd_size t * of_nat (get_num_all_sdma_engines dqm) *
       of_nat (num_sdma_queues_per_engine (dqm_dev dqm)) +
     hiq_mqd_size t * trunk_num_xcc t"

text \<open>\<^verbatim>\<open>allocate_hiq_sdma_mqd\<close>; \<open>alloc_gtt_mem\<close> is \<^verbatim>\<open>amdgpu_amdkfd_alloc_gtt_mem\<close>, which gets the size.\<close>

definition allocate_hiq_sdma_mqd ::
    "(u32 \<Rightarrow> errno + kfd_mem_obj) \<Rightarrow> device_queue_manager \<Rightarrow> hiq_sdma_trunk \<Rightarrow> retval \<times> hiq_sdma_trunk" where
  "allocate_hiq_sdma_mqd alloc_gtt_mem dqm t =
     (case alloc_gtt_mem (hiq_sdma_size dqm t) of
        Inl e \<Rightarrow> (Err e, t)
      | Inr obj \<Rightarrow> (OK, t\<lparr>trunk_obj := obj\<rparr>))"

definition allocate_hiq_mqd :: "bool \<Rightarrow> hiq_sdma_trunk \<Rightarrow> kfd_mem_obj option" where
  "allocate_hiq_mqd kzalloc_ok t =
     (if \<not> kzalloc_ok then None
      else Some \<lparr>range_start = 0, range_end = 0, gpu_addr = gpu_addr (trunk_obj t),
                 cpu_ptr = cpu_ptr (trunk_obj t)\<rparr>)"

definition sdma_mqd_offset :: "kfd_node \<Rightarrow> hiq_sdma_trunk \<Rightarrow> queue_properties \<Rightarrow> u64" where
  "sdma_mqd_offset dev t p =
     ucast ((sdma_engine_id p * of_nat (num_sdma_queues_per_engine dev) + sdma_queue_id p) *
            sdma_mqd_size t) +
     ucast (hiq_mqd_size t * trunk_num_xcc t)"

definition allocate_sdma_mqd ::
    "bool \<Rightarrow> kfd_node \<Rightarrow> hiq_sdma_trunk \<Rightarrow> queue_properties \<Rightarrow> kfd_mem_obj option" where
  "allocate_sdma_mqd kzalloc_ok dev t p =
     (if \<not> kzalloc_ok then None
      else let offset = sdma_mqd_offset dev t p in
        Some \<lparr>range_start = 0, range_end = 0, gpu_addr = gpu_addr (trunk_obj t) + offset,
              cpu_ptr = cpu_ptr (trunk_obj t) + offset\<rparr>)"

text \<open>
  \<^verbatim>\<open>kfd_get_hiq_xcc_mqd\<close> with \<^verbatim>\<open>kfd_hiq_mqd_stride\<close>, whose result is 64 bits wide. The handle \<^verbatim>\<open>gtt_mem\<close>, with
  which the buffer is given back, is not part of the model's memory objects.
\<close>

definition kfd_hiq_mqd_stride :: "hiq_sdma_trunk \<Rightarrow> u64" where
  "kfd_hiq_mqd_stride t = ucast (hiq_mqd_size t)"

definition kfd_get_hiq_xcc_mqd :: "hiq_sdma_trunk \<Rightarrow> u32 \<Rightarrow> kfd_mem_obj \<Rightarrow> kfd_mem_obj" where
  "kfd_get_hiq_xcc_mqd t virtual_xcc_id obj =
     (let offset = kfd_hiq_mqd_stride t * ucast virtual_xcc_id in
      obj\<lparr>gpu_addr := gpu_addr (trunk_obj t) + offset, cpu_ptr := cpu_ptr (trunk_obj t) + offset\<rparr>)"

section \<open>CU masks: the loops and the assignment they compute\<close>

text \<open>
  The reference: the active CUs in the order of the loops, each with its own bit of the user's mask. The
  \<open>k\<close>-th active CU is enabled when bit \<open>inst + k * inc\<close> of the mask is (in WGP mode, either bit of the pair),
  as far as the mask reaches.
\<close>

definition mask_hit :: "u32 \<Rightarrow> u32 list \<Rightarrow> nat \<Rightarrow> bool" where
  "mask_hit en cu_mask i \<longleftrightarrow> cu_mask ! (i div 32) AND push_bit (i mod 32) en \<noteq> 0"

definition cu_enabled ::
    "u32 \<Rightarrow> u32 list \<Rightarrow> nat \<Rightarrow> nat \<Rightarrow> (nat \<times> nat \<times> nat) list \<Rightarrow> nat \<Rightarrow> nat \<Rightarrow> nat \<Rightarrow> bool" where
  "cu_enabled en cu_mask count inc active inst se j \<longleftrightarrow>
     (\<exists>k < length active. (k = 0 \<or> inst + k * inc < count) \<and> mask_hit en cu_mask (inst + k * inc) \<and>
        snd (snd (active ! k)) = se \<and>
        bit (push_bit (fst (active ! k) + fst (snd (active ! k)) * 16) en) j)"

lemma cu_enabled_Nil [simp]: "\<not> cu_enabled en cu_mask count inc [] i se j"
  by (simp add: cu_enabled_def)

lemma cu_enabled_Cons:
  "cu_enabled en cu_mask count inc ((cu, sh, s) # active) i se j \<longleftrightarrow>
     mask_hit en cu_mask i \<and> s = se \<and> bit (push_bit (cu + sh * 16) en) j \<or>
     i + inc < count \<and> cu_enabled en cu_mask count inc active (i + inc) se j"
proof -
  have e: "i + Suc k * inc = i + inc + k * inc" for k by simp
  have "i + inc < count" if "i + inc + k * inc < count" for k using that by simp
  then show ?thesis unfolding cu_enabled_def
    by (auto simp: Ex_less_Suc2 e simp del: mult_Suc)
qed

text \<open>The pass over the CUs never leaves the mask, and adds exactly the enabled CUs.\<close>

lemma map_cus_correct:
  assumes "count \<le> 32 * length cu_mask" and "i < 32 * length cu_mask"
    and "\<forall>(cu, sh, se) \<in> set slots. se < length se_mask"
  shows "\<exists>m. map_cus en cu_mask count inc tbl slots i se_mask = Some m \<and> length m = length se_mask \<and>
    (\<forall>se < length m. \<forall>j. bit (m ! se) j \<longleftrightarrow> bit (se_mask ! se) j \<or>
       cu_enabled en cu_mask count inc (filter (\<lambda>(cu, sh, se). cu < tbl ! se ! sh) slots) i se j)"
  using assms(2,3)
proof (induction slots arbitrary: i se_mask)
  case (Cons t slots)
  obtain cu sh se where t: "t = (cu, sh, se)" by (cases t)
  show ?case
  proof (cases "cu < tbl ! se ! sh")
    case False
    then show ?thesis using Cons t by simp
  next
    case True
    let ?m = "if mask_hit en cu_mask i then se_mask[se := se_mask ! se OR push_bit (cu + sh * 16) en]
      else se_mask"
    let ?act = "filter (\<lambda>(cu, sh, se). cu < tbl ! se ! sh) slots"
    have r: "nth_opt cu_mask (i div 32) = Some (cu_mask ! (i div 32))"
      using Cons.prems(1) by (simp add: nth_opt_def)
    have step: "map_cus en cu_mask count inc tbl (t # slots) i se_mask =
        (if i + inc \<ge> count then Some ?m else map_cus en cu_mask count inc tbl slots (i + inc) ?m)"
      using True by (simp add: t r mask_hit_def Let_def)
    have m: "length ?m = length se_mask" by simp
    have b: "bit (?m ! s) j \<longleftrightarrow> bit (se_mask ! s) j \<or>
        mask_hit en cu_mask i \<and> se = s \<and> bit (push_bit (cu + sh * 16) en) j" if "s < length se_mask" for s j
      using that Cons.prems(2) t by (auto simp: nth_list_update bit_or_iff)
    show ?thesis
    proof (cases "i + inc \<ge> count")
      case stop: True
      then show ?thesis unfolding step using True b m by (auto simp: t cu_enabled_Cons)
    next
      case go: False
      then have "i + inc < 32 * length cu_mask" using assms(1) by simp
      from Cons.IH [OF this, of ?m] Cons.prems(2) m obtain m' where
        m': "map_cus en cu_mask count inc tbl slots (i + inc) ?m = Some m'" "length m' = length se_mask"
        "\<forall>s < length m'. \<forall>j. bit (m' ! s) j \<longleftrightarrow> bit (?m ! s) j \<or>
          cu_enabled en cu_mask count inc ?act (i + inc) s j"
        by auto
      have st: "map_cus en cu_mask count inc tbl (t # slots) i se_mask = Some m'"
        unfolding step using go m'(1) by simp
      have "bit (m' ! s) j \<longleftrightarrow> bit (se_mask ! s) j \<or>
          cu_enabled en cu_mask count inc (filter (\<lambda>(cu, sh, se). cu < tbl ! se ! sh) (t # slots)) i s j"
        if "s < length m'" for s j
        using m'(2,3) that b [of s j] go True by (simp add: t cu_enabled_Cons)
      with st m'(2) show ?thesis by blast
    qed
  qed
qed simp

text \<open>
  The geometry the driver relies on: the table of the active CUs has the dimensions of the C array, and
  the instance is one of the node's XCCs.
\<close>

definition gfx_wf :: "gfx_info \<Rightarrow> nat \<Rightarrow> bool" where
  "gfx_wf g inst \<longleftrightarrow>
     0 < ffs (xcc_mask g) \<and> inst + ffs (xcc_mask g) \<le> length (cu_bitmap g) \<and>
     (\<forall>ses \<in> set (cu_bitmap g). length ses = 4 \<and> (\<forall>shs \<in> set ses. length shs = 4))"

definition active_cus :: "kfd_node \<Rightarrow> gfx_info \<Rightarrow> nat \<Rightarrow> nat \<Rightarrow> nat \<Rightarrow> nat" where
  "active_cus dev g inst se sh =
     hweight 32 (cu_bitmap g ! (inst + ffs (xcc_mask g) - 1) ! (se mod 4) !
                 (sh + (se div 4) * cu_bitmap_sh_mul dev))"

lemma sh_active_cus_Some:
  assumes "gfx_wf g inst" "se < 8" "sh < 2"
  shows "sh_active_cus dev g inst se sh = Some (active_cus dev g inst se sh)"
proof -
  let ?x = "inst + ffs (xcc_mask g) - 1"
  have x: "int inst + int (ffs (xcc_mask g)) - 1 = int ?x" "?x < length (cu_bitmap g)"
    using assms(1) by (auto simp: gfx_wf_def)
  then have "cu_bitmap g ! ?x \<in> set (cu_bitmap g)" by simp
  then have l: "length (cu_bitmap g ! ?x) = 4" "\<forall>shs \<in> set (cu_bitmap g ! ?x). length shs = 4"
    using assms(1) by (auto simp: gfx_wf_def)
  then have l2: "length (cu_bitmap g ! ?x ! (se mod 4)) = 4" by simp
  have "se div 4 \<le> 1" "cu_bitmap_sh_mul dev \<le> 2" using assms(2) by (auto simp: cu_bitmap_sh_mul_def)
  then have "se div 4 * cu_bitmap_sh_mul dev \<le> 1 * 2" by (rule mult_le_mono)
  then have i: "sh + se div 4 * cu_bitmap_sh_mul dev < 4" using assms(3) by simp
  show ?thesis unfolding sh_active_cus_def x(1) Let_def active_cus_def
    using x(2) l(1) l2 i by (simp add: nth_opt_def)
qed

lemma those_map_Some: "(\<And>x. x \<in> set xs \<Longrightarrow> f x = Some (g x)) \<Longrightarrow> those (map f xs) = Some (map g xs)"
  by (induction xs) auto

lemma cu_per_sh_Some:
  assumes "gfx_wf g inst" "max_shader_engines g \<le> KFD_MAX_NUM_SE" "max_sh_per_se g \<le> KFD_MAX_NUM_SH_PER_SE"
  shows "cu_per_sh dev g inst =
    Some (map (\<lambda>se. map (active_cus dev g inst se) [0..<max_sh_per_se g]) [0..<max_shader_engines g])"
  unfolding cu_per_sh_def
  by (intro those_map_Some) (use assms sh_active_cus_Some in auto)

lemma set_cu_slots:
  "set (cu_slots dev g) = {(k * cu_inc dev, sh, se) | k sh se.
     k < 16 div cu_inc dev \<and> sh < max_sh_per_se g \<and> se < max_shader_engines g}"
  by (force simp: cu_slots_def)

text \<open>The active CUs, by their number in each SH.\<close>

definition active_order :: "kfd_node \<Rightarrow> gfx_info \<Rightarrow> nat \<Rightarrow> (nat \<times> nat \<times> nat) list" where
  "active_order dev g inst = filter (\<lambda>(cu, sh, se). cu < active_cus dev g inst se sh) (cu_slots dev g)"

lemma filter_active:
  "filter (\<lambda>(cu, sh, se). cu < map (\<lambda>se. map (active_cus dev g inst se) [0..<max_sh_per_se g])
     [0..<max_shader_engines g] ! se ! sh) (cu_slots dev g) = active_order dev g inst"
  unfolding active_order_def by (rule filter_cong) (auto simp: set_cu_slots)

text \<open>The loops compute the reference assignment.\<close>

lemma cu_mask_spec:
  assumes "gfx_wf g inst" and "max_shader_engines g \<le> KFD_MAX_NUM_SE"
    and "max_sh_per_se g \<le> KFD_MAX_NUM_SH_PER_SE" and "max_shader_engines g \<le> length se_mask"
    and "unat cu_mask_count \<le> 32 * length cu_mask" and "inst < 32 * length cu_mask"
  shows "\<exists>m. mqd_symmetrically_map_cu_mask dev g cu_mask cu_mask_count se_mask inst = Some m \<and>
    length m = length se_mask \<and>
    (\<forall>se j. se < max_shader_engines g \<longrightarrow>
       bit (m ! se) j = cu_enabled (en_mask dev) cu_mask (clamp_cu_count dev g cu_mask_count)
         (cu_inc dev * NUM_XCC (xcc_mask g)) (active_order dev g inst) inst se j)"
proof -
  let ?S = "replicate (max_shader_engines g) 0 @ drop (max_shader_engines g) se_mask"
  let ?c = "clamp_cu_count dev g cu_mask_count" and ?i = "cu_inc dev * NUM_XCC (xcc_mask g)"
  let ?t = "map (\<lambda>se. map (active_cus dev g inst se) [0..<max_sh_per_se g]) [0..<max_shader_engines g]"
  have c: "?c \<le> 32 * length cu_mask" using assms(5) by (auto simp: clamp_cu_count_def Let_def)
  have "\<forall>(cu, sh, se) \<in> set (cu_slots dev g). se < length ?S"
    using assms(4) by (auto simp: set_cu_slots)
  from map_cus_correct [OF c assms(6) this, of "en_mask dev" ?i ?t] obtain m where
    m: "map_cus (en_mask dev) cu_mask ?c ?i ?t (cu_slots dev g) inst ?S = Some m" "length m = length ?S"
    "\<forall>se < length m. \<forall>j. bit (m ! se) j \<longleftrightarrow> bit (?S ! se) j \<or>
       cu_enabled (en_mask dev) cu_mask ?c ?i (active_order dev g inst) inst se j"
    unfolding filter_active by blast
  have "mqd_symmetrically_map_cu_mask dev g cu_mask cu_mask_count se_mask inst = Some m"
    unfolding mqd_symmetrically_map_cu_mask_def Let_def cu_per_sh_Some [OF assms(1-3)]
    using assms(2-4) m(1) by simp
  moreover have "length m = length se_mask" using m(2) assms(4) by simp
  moreover have "bit (m ! se) j = cu_enabled (en_mask dev) cu_mask ?c ?i (active_order dev g inst) inst se j"
    if "se < max_shader_engines g" for se j
    using m(2,3) assms(4) that by (simp add: nth_append)
  ultimately show ?thesis by blast
qed

text \<open>
  C26. The distribution of a CU mask is the assignment of one bit of the mask (a pair of bits in WGP mode) to each
  active CU, in the order CU, SH, SE: for a mask that holds the announced number of bits, no array is left,
  and after the loops with their early return a bit of \<^verbatim>\<open>se_mask\<close> is set exactly if it belongs to an
  active CU whose bit of the user's mask is set, within the clamped length.
\<close>

theorem cu_mask_equivalent:
  assumes "gfx_wf g inst" and "max_shader_engines g \<le> KFD_MAX_NUM_SE"
    and "max_sh_per_se g \<le> KFD_MAX_NUM_SH_PER_SE" and "max_shader_engines g \<le> length se_mask"
    and "unat cu_mask_count \<le> 32 * length cu_mask" and "inst < 32 * length cu_mask"
  shows "\<exists>m. mqd_symmetrically_map_cu_mask dev g cu_mask cu_mask_count se_mask inst = Some m \<and>
    length m = length se_mask \<and>
    (\<forall>se j. se < max_shader_engines g \<longrightarrow>
       bit (m ! se) j = cu_enabled (en_mask dev) cu_mask (clamp_cu_count dev g cu_mask_count)
         (cu_inc dev * NUM_XCC (xcc_mask g)) (active_order dev g inst) inst se j)"
  using assms by (rule cu_mask_spec)

subsection \<open>Consequences\<close>

lemma bit_en_mask: "bit (en_mask dev) j \<longleftrightarrow> j < cu_inc dev"
proof (cases "wgp_mode_req dev")
  case True
  have "bit (3 :: u32) j \<longleftrightarrow> j < 2"
    by (cases j rule: nat.exhaust; simp add: bit_Suc; cases "j - 1"; simp add: bit_Suc bit_simps)
  with True show ?thesis by (simp add: en_mask_def cu_inc_def)
qed (auto simp: en_mask_def cu_inc_def bit_1_iff)

lemma bit_push_en: "bit (push_bit n (en_mask dev)) j \<longleftrightarrow> n \<le> j \<and> j < 32 \<and> j < n + cu_inc dev"
  by (auto simp: bit_push_bit_iff bit_en_mask)

lemma cu_inc_pos: "0 < cu_inc dev" "16 div cu_inc dev * cu_inc dev = 16"
  by (simp_all add: cu_inc_def)

lemma cu_slot_16: "k < 16 div cu_inc dev \<Longrightarrow> k * cu_inc dev + cu_inc dev \<le> 16"
  by (auto simp: cu_inc_def split: if_splits)

text \<open>
  Only active CUs are enabled: if the CUs of every SH are paired where the device needs pairs, a bit
  that the reference assignment sets lies in the half of its SH and below the number of active CUs there.
\<close>

lemma cu_enabled_active:
  assumes "cu_enabled (en_mask dev) cu_mask count inc (active_order dev g inst) inst se j"
    and "\<And>se sh. cu_inc dev dvd active_cus dev g inst se sh"
  shows "j div 16 < max_sh_per_se g \<and> j mod 16 < active_cus dev g inst se (j div 16)"
proof -
  from assms(1) obtain k where k: "k < length (active_order dev g inst)"
    "snd (snd (active_order dev g inst ! k)) = se"
    "bit (push_bit (fst (active_order dev g inst ! k) + fst (snd (active_order dev g inst ! k)) * 16)
       (en_mask dev)) j"
    by (auto simp: cu_enabled_def)
  obtain cu sh where t: "active_order dev g inst ! k = (cu, sh, se)" using k(2) by (cases "active_order dev g inst ! k") auto
  then have "(cu, sh, se) \<in> set (active_order dev g inst)" using k(1) by (metis nth_mem)
  then obtain n where n: "cu = n * cu_inc dev" "n < 16 div cu_inc dev" "sh < max_sh_per_se g"
      "cu < active_cus dev g inst se sh"
    by (auto simp: active_order_def set_cu_slots)
  have j: "cu + sh * 16 \<le> j" "j < cu + sh * 16 + cu_inc dev" using k(3) t by (auto simp: bit_push_en)
  have "cu + cu_inc dev \<le> 16" using cu_slot_16 [OF n(2)] n(1) by simp
  then have d1: "j div 16 = sh" using j by (auto simp: div_nat_eqI)
  then have d: "j div 16 = sh" "j mod 16 = j - sh * 16" by (simp_all add: modulo_nat_def)
  have "cu + cu_inc dev \<le> active_cus dev g inst se sh"
  proof -
    obtain c where c: "active_cus dev g inst se sh = cu_inc dev * c" using assms(2) by (meson dvdE)
    with n(1,4) have "n < c" using cu_inc_pos(1) [of dev] by (simp add: mult.commute)
    then have "cu_inc dev * Suc n \<le> cu_inc dev * c" by (intro mult_le_mono2) simp
    then show ?thesis using c n(1) by (simp add: mult.commute)
  qed
  then show ?thesis using d j n(3) by simp
qed

text \<open>With the same number of active CUs everywhere, the order of the CUs is the one of their coordinates.\<close>

lemma concat_map_upt:
  "concat (map (\<lambda>a. map (f a) [0..<n]) [0..<m]) = map (\<lambda>k. f (k div n) (k mod n)) [0..<m * n]"
proof (induction m)
  case (Suc m)
  have "map (f m) [0..<n] = map (\<lambda>k. f (k div n) (k mod n)) [m * n..<m * n + n]"
    by (rule nth_equalityI) auto
  moreover have "[0..<Suc m * n] = [0..<m * n] @ [m * n..<m * n + n]"
    using upt_add_eq_append [of 0 "m * n" n] by (simp add: add.commute)
  ultimately show ?case using Suc by (simp del: mult_Suc)
qed simp

lemma mod_mult_div:
  "k mod (s * e) div e = k div e mod s" "k mod (s * e) mod e = k mod (e :: nat)"
proof -
  have "k mod (s * e) = e * (k div e mod s) + k mod e" by (metis mod_mult2_eq mult.commute)
  then show "k mod (s * e) div e = k div e mod s" by (cases "e = 0") simp_all
  show "k mod (s * e) mod e = k mod e" by (simp add: mod_mod_cancel)
qed

lemma cu_slots_coordinates:
  "cu_slots dev g =
     map (\<lambda>k. (k div (max_sh_per_se g * max_shader_engines g) * cu_inc dev,
               k div max_shader_engines g mod max_sh_per_se g, k mod max_shader_engines g))
       [0..<16 div cu_inc dev * (max_sh_per_se g * max_shader_engines g)]"
  unfolding cu_slots_def concat_map_upt by (simp add: mod_mult_div)

lemma filter_upt_less: "b \<le> n \<Longrightarrow> filter (\<lambda>k. k < b) [0..<n] = [0..<b]"
  using upt_add_eq_append [of 0 b "n - b"] by simp

lemma active_order_uniform:
  assumes "\<And>se sh. se < max_shader_engines g \<Longrightarrow> sh < max_sh_per_se g \<Longrightarrow> active_cus dev g inst se sh = c"
    and "c \<le> 16" and "\<not> wgp_mode_req dev"
  shows "active_order dev g inst =
    map (\<lambda>k. (k div (max_sh_per_se g * max_shader_engines g),
              k div max_shader_engines g mod max_sh_per_se g, k mod max_shader_engines g))
      [0..<c * (max_sh_per_se g * max_shader_engines g)]"
proof -
  let ?n = "max_sh_per_se g * max_shader_engines g"
  have i: "cu_inc dev = 1" using assms(3) by (simp add: cu_inc_def)
  have "active_order dev g inst = filter (\<lambda>(cu, sh, se). cu < c) (cu_slots dev g)"
    unfolding active_order_def by (rule filter_cong) (use assms(1) in \<open>auto simp: set_cu_slots\<close>)
  also have "\<dots> = map (\<lambda>k. (k div ?n, k div max_shader_engines g mod max_sh_per_se g, k mod max_shader_engines g))
      (filter (\<lambda>k. k div ?n < c) [0..<16 * ?n])"
    unfolding cu_slots_coordinates i filter_map by (simp add: comp_def)
  also have "filter (\<lambda>k. k div ?n < c) [0..<16 * ?n] = filter (\<lambda>k. k < c * ?n) [0..<16 * ?n]"
    by (cases "?n = 0") (simp_all only: div_less_iff_less_mult neq0_conv, simp)
  also have "\<dots> = [0..<c * ?n]" by (rule filter_upt_less) (use assms(2) in simp)
  finally show ?thesis .
qed

lemma sh_cu_position: "a < 16 \<Longrightarrow> cu < 16 \<Longrightarrow> a + b * 16 = 16 * sh + cu \<longleftrightarrow> a = cu \<and> b = (sh :: nat)"
  by (cases b sh rule: linorder_cases) auto

text \<open>
  The layout the code documents: on a device with one XCC and single CUs, where every SH has \<open>c\<close> active CUs, CU
  \<open>cu\<close> of SH \<open>sh\<close> of SE \<open>se\<close> is bit \<open>16 * sh + cu\<close> of \<^verbatim>\<open>se_mask[se]\<close> and is controlled by bit
  \<open>(cu * SHs + sh) * SEs + se\<close> of the user's mask.
\<close>

theorem cu_mask_symmetric_layout:
  assumes "gfx_wf g 0" and "max_shader_engines g \<le> KFD_MAX_NUM_SE"
    and "max_sh_per_se g \<le> KFD_MAX_NUM_SH_PER_SE" and "max_shader_engines g \<le> length se_mask"
    and "unat cu_mask_count \<le> 32 * length cu_mask" and "0 < length cu_mask"
    and "\<not> wgp_mode_req dev" and "NUM_XCC (xcc_mask g) = 1"
    and "\<And>se sh. se < max_shader_engines g \<Longrightarrow> sh < max_sh_per_se g \<Longrightarrow> active_cus dev g 0 se sh = c"
    and "c \<le> 16" and "cu < c" and "sh < max_sh_per_se g" and "se < max_shader_engines g"
    and "(cu * max_sh_per_se g + sh) * max_shader_engines g + se < clamp_cu_count dev g cu_mask_count"
  shows "\<exists>m. mqd_symmetrically_map_cu_mask dev g cu_mask cu_mask_count se_mask 0 = Some m \<and>
    bit (m ! se) (16 * sh + cu) =
    (let i = (cu * max_sh_per_se g + sh) * max_shader_engines g + se
     in bit (cu_mask ! (i div 32)) (i mod 32))"
proof -
  let ?E = "max_shader_engines g" and ?S = "max_sh_per_se g"
  let ?c = "clamp_cu_count dev g cu_mask_count"
  let ?i = "(cu * ?S + sh) * ?E + se"
  let ?A = "active_order dev g 0"
  have inc: "cu_inc dev * NUM_XCC (xcc_mask g) = 1" "cu_inc dev = 1" "en_mask dev = 1"
    using assms(7,8) by (simp_all add: cu_inc_def en_mask_def)
  have A: "?A = map (\<lambda>k. (k div (?S * ?E), k div ?E mod ?S, k mod ?E)) [0..<c * (?S * ?E)]"
    by (rule active_order_uniform) (use assms(7,9,10) in auto)
  have lt: "?i < c * (?S * ?E)"
  proof -
    have "?i < (cu * ?S + sh) * ?E + ?E" using assms(13) by simp
    also have "\<dots> = (cu * ?S + Suc sh) * ?E" by simp
    also have "\<dots> \<le> (cu * ?S + ?S) * ?E" using assms(12) by (intro mult_le_mono1) simp
    also have "\<dots> = Suc cu * (?S * ?E)" by (simp add: algebra_simps)
    also have "\<dots> \<le> c * (?S * ?E)" using assms(11) by (intro mult_le_mono1) simp
    finally show ?thesis .
  qed
  have coord: "k div (?S * ?E) = cu \<and> k div ?E mod ?S = sh \<and> k mod ?E = se \<longleftrightarrow> k = ?i" for k
  proof
    assume k: "k div (?S * ?E) = cu \<and> k div ?E mod ?S = sh \<and> k mod ?E = se"
    have "k div (?S * ?E) = k div ?E div ?S" by (metis div_mult2_eq mult.commute)
    with k have "k div ?E = cu * ?S + sh" by (metis div_mult_mod_eq)
    with k show "k = ?i" by (metis div_mult_mod_eq)
  next
    assume "k = ?i"
    moreover have "?i div (?S * ?E) = ?i div ?E div ?S" by (metis div_mult2_eq mult.commute)
    ultimately show "k div (?S * ?E) = cu \<and> k div ?E mod ?S = sh \<and> k mod ?E = se"
      using assms(12,13) by simp
  qed
  have hit: "mask_hit 1 cu_mask k \<longleftrightarrow> bit (cu_mask ! (k div 32)) (k mod 32)" for k
    by (simp add: mask_hit_def and_exp_eq_0_iff_not_bit push_bit_of_1)
  have pos: "k div (?S * ?E) + k div ?E mod ?S * 16 = 16 * sh + cu \<longleftrightarrow>
      k div (?S * ?E) = cu \<and> k div ?E mod ?S = sh" if "k < c * (?S * ?E)" for k
  proof -
    have "k div (?S * ?E) < 16" using that assms(10) by (meson less_mult_imp_div_less less_le_trans)
    moreover have "cu < 16" using assms(10,11) by simp
    ultimately show ?thesis by (rule sh_cu_position)
  qed
  have bitp: "bit (push_bit n (1 :: u32)) j \<longleftrightarrow> n = j" if "j < 32" for n j
    using that by (auto simp: bit_exp_iff)
  have j: "16 * sh + cu < 32" using assms(3,10,11,12) by simp
  have len: "length ?A = c * (?S * ?E)" by (simp add: A)
  have el: "?A ! k = (k div (?S * ?E), k div ?E mod ?S, k mod ?E)" if "k < c * (?S * ?E)" for k
    using that by (simp add: A)
  have "cu_enabled 1 cu_mask ?c 1 ?A 0 se (16 * sh + cu) \<longleftrightarrow>
      (\<exists>k < c * (?S * ?E). (k = 0 \<or> k < ?c) \<and> bit (cu_mask ! (k div 32)) (k mod 32) \<and> k mod ?E = se \<and>
         k div (?S * ?E) + k div ?E mod ?S * 16 = 16 * sh + cu)"
    unfolding cu_enabled_def len by (intro ex_cong1 conj_cong refl) (simp_all only: el hit bitp [OF j] fst_conv snd_conv add_0 mult_1_right)
  also have "\<dots> \<longleftrightarrow> bit (cu_mask ! (?i div 32)) (?i mod 32)"
  proof
    assume "\<exists>k < c * (?S * ?E). (k = 0 \<or> k < ?c) \<and> bit (cu_mask ! (k div 32)) (k mod 32) \<and> k mod ?E = se \<and>
       k div (?S * ?E) + k div ?E mod ?S * 16 = 16 * sh + cu"
    then obtain k where k: "k < c * (?S * ?E)" "bit (cu_mask ! (k div 32)) (k mod 32)" "k mod ?E = se"
      "k div (?S * ?E) + k div ?E mod ?S * 16 = 16 * sh + cu" by blast
    from pos [OF k(1)] k(3,4) coord [of k] have "k = ?i" by blast
    with k(2) show "bit (cu_mask ! (?i div 32)) (?i mod 32)" by (simp only:)
  next
    assume b: "bit (cu_mask ! (?i div 32)) (?i mod 32)"
    show "\<exists>k < c * (?S * ?E). (k = 0 \<or> k < ?c) \<and> bit (cu_mask ! (k div 32)) (k mod 32) \<and> k mod ?E = se \<and>
       k div (?S * ?E) + k div ?E mod ?S * 16 = 16 * sh + cu"
      using lt b assms(14) coord [of ?i] pos [OF lt] by (intro exI [of _ ?i] conjI) blast+
  qed
  finally have e: "cu_enabled 1 cu_mask ?c 1 ?A 0 se (16 * sh + cu) \<longleftrightarrow>
      bit (cu_mask ! (?i div 32)) (?i mod 32)" .
  have "0 < 32 * length cu_mask" using assms(6) by simp
  from cu_mask_spec [OF assms(1-5) this, of dev] obtain m where
    "mqd_symmetrically_map_cu_mask dev g cu_mask cu_mask_count se_mask 0 = Some m"
    "bit (m ! se) (16 * sh + cu) = cu_enabled (en_mask dev) cu_mask ?c
       (cu_inc dev * NUM_XCC (xcc_mask g)) ?A 0 se (16 * sh + cu)"
    using assms(13) by blast
  with e show ?thesis unfolding inc(1,3) Let_def by blast
qed

section \<open>The MQD buffer\<close>

text \<open>The size of the buffer in bytes, without wrap-around.\<close>

definition trunk_bytes :: "device_queue_manager \<Rightarrow> hiq_sdma_trunk \<Rightarrow> nat" where
  "trunk_bytes dqm t =
     unat (sdma_mqd_size t) * get_num_all_sdma_engines dqm * num_sdma_queues_per_engine (dqm_dev dqm) +
     unat (hiq_mqd_size t) * unat (trunk_num_xcc t)"

lemma hiq_sdma_size_bytes:
  assumes "trunk_bytes dqm t < 2 ^ 32"
  shows "unat (hiq_sdma_size dqm t) = trunk_bytes dqm t"
proof -
  have "hiq_sdma_size dqm t = of_nat (trunk_bytes dqm t)"
    by (simp add: hiq_sdma_size_def trunk_bytes_def)
  then show ?thesis using assms by (simp add: unat_of_nat_small)
qed

text \<open>The MQD of an SDMA queue, as the position of its hardware queue in the buffer.\<close>

lemma sdma_mqd_offset_bytes:
  assumes "trunk_bytes dqm t < 2 ^ 32" and "e < get_num_all_sdma_engines dqm"
    and "n < num_sdma_queues_per_engine (dqm_dev dqm)"
    and "sdma_engine_id p = of_nat e" and "sdma_queue_id p = of_nat n"
  defines "w \<equiv> e * num_sdma_queues_per_engine (dqm_dev dqm) + n"
  shows "unat (sdma_mqd_offset (dqm_dev dqm) t p) =
      w * unat (sdma_mqd_size t) + unat (hiq_mqd_size t) * unat (trunk_num_xcc t)"
    and "w < get_num_all_sdma_engines dqm * num_sdma_queues_per_engine (dqm_dev dqm)"
proof -
  let ?P = "num_sdma_queues_per_engine (dqm_dev dqm)" and ?E = "get_num_all_sdma_engines dqm"
  let ?s = "unat (sdma_mqd_size t)" and ?h = "unat (hiq_mqd_size t) * unat (trunk_num_xcc t)"
  have "w < Suc e * ?P" using assms(3) by (simp add: w_def)
  also have "\<dots> \<le> ?E * ?P" using assms(2) by (intro mult_le_mono1) simp
  finally show w: "w < ?E * ?P" .
  have b: "w * ?s + ?h \<le> trunk_bytes dqm t"
    using w mult_le_mono1 [of w "?E * ?P" ?s] by (simp add: trunk_bytes_def ac_simps)
  have w1: "(sdma_engine_id p * of_nat ?P + sdma_queue_id p) * sdma_mqd_size t = of_nat (w * ?s)"
    by (simp add: assms(4,5) w_def)
  have w2: "hiq_mqd_size t * trunk_num_xcc t = of_nat ?h" by simp
  have u: "ucast (of_nat (w * ?s) :: u32) = (of_nat (w * ?s) :: u64)"
    "ucast (of_nat ?h :: u32) = (of_nat ?h :: u64)"
    by (rule ucast_of_nat_small; use b assms(1) in simp)+
  have "sdma_mqd_offset (dqm_dev dqm) t p = of_nat (w * ?s + ?h)"
    unfolding sdma_mqd_offset_def w1 w2 u by (simp only: of_nat_add)
  moreover have "unat (of_nat (w * ?s + ?h) :: u64) = w * ?s + ?h"
    by (rule unat_of_nat_small) (use b assms(1) in simp)
  ultimately show "unat (sdma_mqd_offset (dqm_dev dqm) t p) = w * ?s + ?h" by simp
qed

text \<open>A queue that \<^verbatim>\<open>allocate_sdma_queue\<close> has served names a hardware queue of the device.\<close>

lemma allocate_sdma_queue_coordinates:
  assumes "allocate_sdma_queue dqm q r = (OK, dqm', q')" and "is_sdma_type (qtype (properties q))"
    and "sdma_wf (qtype (properties q)) dqm"
  obtains e n where "e < get_num_all_sdma_engines dqm" "n < num_sdma_queues_per_engine (dqm_dev dqm)"
    "sdma_engine_id (properties q') = of_nat e" "sdma_queue_id (properties q') = of_nat n"
proof -
  let ?ty = "qtype (properties q)" and ?P = "num_sdma_queues_per_engine (dqm_dev dqm)"
  let ?E = "kfd_get_num_sdma_engines (dqm_dev dqm)" and ?X = "kfd_get_num_xgmi_sdma_engines (dqm_dev dqm)"
  obtain b where b: "take_sdma_bit (sdma_free ?ty dqm) (sdma_count ?ty dqm) r = Inr b"
    and q: "?ty = KFD_QUEUE_TYPE_SDMA \<Longrightarrow> sdma_engine_id (properties q') = of_nat (b mod ?E) \<and>
       sdma_queue_id (properties q') = of_nat (b div ?E)"
    "?ty \<noteq> KFD_QUEUE_TYPE_SDMA \<Longrightarrow> sdma_engine_id (properties q') = of_nat (?E + b mod ?X) \<and>
       sdma_queue_id (properties q') = of_nat (b div ?X)"
    using assms(1,2)
    by (auto simp: allocate_sdma_queue_def sdma_free_def sdma_count_def Let_def split: sum.splits)
  from assms(3) take_sdma_bit_ok [OF b] have lt: "b < sdma_count ?ty dqm"
    by (auto simp: sdma_wf_def bits_of_def)
  show thesis
  proof (cases "?ty = KFD_QUEUE_TYPE_SDMA")
    case True
    then have "b < ?P * ?E" using lt by (simp add: sdma_count_def get_num_sdma_queues_def mult.commute)
    moreover from this have "0 < ?E" by (auto intro: gr0I)
    ultimately show thesis using q(1) [OF True]
      by (intro that [of "b mod ?E" "b div ?E"])
        (simp_all add: get_num_all_sdma_engines_def less_mult_imp_div_less trans_less_add1)
  next
    case False
    then have "b < ?P * ?X" using lt by (simp add: sdma_count_def get_num_xgmi_sdma_queues_def mult.commute)
    moreover from this have "0 < ?X" by (auto intro: gr0I)
    ultimately show thesis using q(2) [OF False]
      by (intro that [of "?E + b mod ?X" "b div ?X"])
        (simp_all add: get_num_all_sdma_engines_def less_mult_imp_div_less)
  qed
qed

text \<open>Where an MQD begins in the buffer.\<close>

definition mqd_offset :: "hiq_sdma_trunk \<Rightarrow> kfd_mem_obj \<Rightarrow> nat" where
  "mqd_offset t m = unat (gpu_addr m - gpu_addr (trunk_obj t))"

lemma hiq_xcc_offset:
  assumes "trunk_bytes dqm t < 2 ^ 32" and "i < trunk_num_xcc t"
  shows "mqd_offset t (kfd_get_hiq_xcc_mqd t i h) = unat (hiq_mqd_size t) * unat i"
    and "mqd_offset t (kfd_get_hiq_xcc_mqd t i h) + unat (hiq_mqd_size t) \<le> unat (hiq_mqd_size t) * unat (trunk_num_xcc t)"
proof -
  let ?z = "unat (hiq_mqd_size t)"
  have "?z * Suc (unat i) \<le> ?z * unat (trunk_num_xcc t)" using assms(2) by (intro mult_le_mono2) (simp add: word_less_nat_alt)
  moreover have "?z * unat (trunk_num_xcc t) < 2 ^ 32" using assms(1) by (simp add: trunk_bytes_def)
  ultimately have b: "?z * unat i + ?z \<le> ?z * unat (trunk_num_xcc t)" "?z * unat i < 2 ^ 64" by simp_all
  have "(ucast (hiq_mqd_size t) * ucast i :: u64) = of_nat (?z * unat i)" by simp
  then have "mqd_offset t (kfd_get_hiq_xcc_mqd t i h) = unat (of_nat (?z * unat i) :: u64)"
    by (simp add: mqd_offset_def kfd_get_hiq_xcc_mqd_def kfd_hiq_mqd_stride_def Let_def)
  also have "\<dots> = ?z * unat i" by (rule unat_of_nat_small) (use b(2) in simp)
  finally show "mqd_offset t (kfd_get_hiq_xcc_mqd t i h) = ?z * unat i" .
  with b(1) show "mqd_offset t (kfd_get_hiq_xcc_mqd t i h) + ?z \<le> ?z * unat (trunk_num_xcc t)" by simp
qed

text \<open>The MQDs of two SDMA queues with different hardware queues.\<close>

lemma sdma_offsets_disjoint:
  assumes "allocate_sdma_queue dqm1 q1 r1 = (OK, dqm1', q1')" "allocate_sdma_queue dqm2 q2 r2 = (OK, dqm2', q2')"
    and "is_sdma_type (qtype (properties q1))" and "is_sdma_type (qtype (properties q2))"
    and "sdma_wf (qtype (properties q1)) dqm1" and "sdma_wf (qtype (properties q2)) dqm2"
    and "dqm_dev dqm2 = dqm_dev dqm1" and "trunk_bytes dqm1 t < 2 ^ 32"
    and "(sdma_engine_id (properties q1'), sdma_queue_id (properties q1')) \<noteq>
         (sdma_engine_id (properties q2'), sdma_queue_id (properties q2'))"
  shows "let o1 = unat (sdma_mqd_offset (dqm_dev dqm1) t (properties q1'));
             o2 = unat (sdma_mqd_offset (dqm_dev dqm1) t (properties q2'));
             s = unat (sdma_mqd_size t)
    in unat (hiq_mqd_size t) * unat (trunk_num_xcc t) \<le> o1 \<and> o1 + s \<le> unat (hiq_sdma_size dqm1 t) \<and>
       (o1 + s \<le> o2 \<or> o2 + s \<le> o1)"
proof -
  let ?P = "num_sdma_queues_per_engine (dqm_dev dqm1)" and ?E = "get_num_all_sdma_engines dqm1"
  have E: "get_num_all_sdma_engines dqm2 = ?E" using assms(7) by (simp add: get_num_all_sdma_engines_def)
  obtain e1 n1 where 1: "e1 < ?E" "n1 < ?P"
      "sdma_engine_id (properties q1') = of_nat e1" "sdma_queue_id (properties q1') = of_nat n1"
    using allocate_sdma_queue_coordinates [OF assms(1,3,5)] .
  obtain e2 n2 where 2: "e2 < ?E" "n2 < ?P"
      "sdma_engine_id (properties q2') = of_nat e2" "sdma_queue_id (properties q2') = of_nat n2"
    using allocate_sdma_queue_coordinates [OF assms(2,4,6)] unfolding E assms(7) .
  let ?w1 = "e1 * ?P + n1" and ?w2 = "e2 * ?P + n2"
  let ?s = "unat (sdma_mqd_size t)" and ?h = "unat (hiq_mqd_size t) * unat (trunk_num_xcc t)"
  note o1 = sdma_mqd_offset_bytes [OF assms(8) 1] and o2 = sdma_mqd_offset_bytes [OF assms(8) 2]
  have "?w1 \<noteq> ?w2"
  proof
    assume w: "?w1 = ?w2"
    have "?w1 div ?P = e1" "?w1 mod ?P = n1" "?w2 div ?P = e2" "?w2 mod ?P = n2" using 1 2 by simp_all
    with w have "e1 = e2" "n1 = n2" by simp_all
    with 1 2 assms(9) show False by simp
  qed
  then have "Suc ?w1 \<le> ?w2 \<or> Suc ?w2 \<le> ?w1" by linarith
  then have "Suc ?w1 * ?s \<le> ?w2 * ?s \<or> Suc ?w2 * ?s \<le> ?w1 * ?s" by (meson mult_le_mono1)
  moreover have "Suc ?w1 * ?s \<le> ?E * ?P * ?s" using o1(2) by (intro mult_le_mono1) simp
  ultimately show ?thesis unfolding Let_def o1(1) o2(1) hiq_sdma_size_bytes [OF assms(8)]
    by (auto simp: trunk_bytes_def ac_simps)
qed

text \<open>
  C27. The MQDs in the common buffer do not overlap, as long as the size of the buffer that \<^verbatim>\<open>allocate_hiq_sdma_mqd\<close> asks
  for fits 32 bits. For two SDMA queues that \<^verbatim>\<open>allocate_sdma_queue\<close> gave different hardware queues, in whatever
  state of the bitmaps, and the instances of the HIQ on the XCCs: the MQDs that \<^verbatim>\<open>allocate_sdma_mqd\<close> gives are
  disjoint and inside the buffer; the MQDs that \<^verbatim>\<open>kfd_get_hiq_xcc_mqd\<close> gives are disjoint, lie before those of the
  SDMA queues, and the first is the one \<^verbatim>\<open>allocate_hiq_mqd\<close> gives; the address the CPU uses and the address the GPU uses are
  equally far into the buffer.
\<close>

theorem sdma_mqds_disjoint:
  assumes "allocate_sdma_queue dqm1 q1 r1 = (OK, dqm1', q1')" "allocate_sdma_queue dqm2 q2 r2 = (OK, dqm2', q2')"
    and "is_sdma_type (qtype (properties q1))" and "is_sdma_type (qtype (properties q2))"
    and "sdma_wf (qtype (properties q1)) dqm1" and "sdma_wf (qtype (properties q2)) dqm2"
    and "dqm_dev dqm2 = dqm_dev dqm1" and "trunk_bytes dqm1 t < 2 ^ 32"
    and "(sdma_engine_id (properties q1'), sdma_queue_id (properties q1')) \<noteq>
         (sdma_engine_id (properties q2'), sdma_queue_id (properties q2'))"
    and "allocate_sdma_mqd True (dqm_dev dqm1) t (properties q1') = Some m1"
    and "allocate_sdma_mqd True (dqm_dev dqm1) t (properties q2') = Some m2" and "allocate_hiq_mqd True t = Some h"
  shows "mqd_offset t m1 + unat (sdma_mqd_size t) \<le> unat (hiq_sdma_size dqm1 t) \<and>
    (mqd_offset t m1 + unat (sdma_mqd_size t) \<le> mqd_offset t m2 \<or> mqd_offset t m2 + unat (sdma_mqd_size t) \<le> mqd_offset t m1) \<and>
    (\<forall>i < trunk_num_xcc t. mqd_offset t (kfd_get_hiq_xcc_mqd t i h) + unat (hiq_mqd_size t) \<le> mqd_offset t m1) \<and>
    (\<forall>i j. i < j \<longrightarrow> j < trunk_num_xcc t \<longrightarrow>
       mqd_offset t (kfd_get_hiq_xcc_mqd t i h) + unat (hiq_mqd_size t) \<le> mqd_offset t (kfd_get_hiq_xcc_mqd t j h)) \<and>
    kfd_get_hiq_xcc_mqd t 0 h = h \<and>
    (\<forall>m \<in> {m1, m2} \<union> range (\<lambda>i. kfd_get_hiq_xcc_mqd t i h).
       cpu_ptr m - cpu_ptr (trunk_obj t) = gpu_addr m - gpu_addr (trunk_obj t))"
proof -
  have m: "mqd_offset t m1 = unat (sdma_mqd_offset (dqm_dev dqm1) t (properties q1'))"
    "mqd_offset t m2 = unat (sdma_mqd_offset (dqm_dev dqm1) t (properties q2'))"
    using assms(10,11) by (auto simp: mqd_offset_def allocate_sdma_mqd_def Let_def)
  note d = sdma_offsets_disjoint [OF assms(1-9), unfolded Let_def, folded m]
  have x: "mqd_offset t (kfd_get_hiq_xcc_mqd t i h) + unat (hiq_mqd_size t) \<le> mqd_offset t (kfd_get_hiq_xcc_mqd t j h)"
    if "i < j" "j < trunk_num_xcc t" for i j
  proof -
    have "unat (hiq_mqd_size t) * Suc (unat i) \<le> unat (hiq_mqd_size t) * unat j"
      using that by (intro mult_le_mono2) (simp add: word_less_nat_alt)
    then show ?thesis using hiq_xcc_offset(1) [OF assms(8)] that by simp
  qed
  have "kfd_get_hiq_xcc_mqd t 0 h = h" "\<forall>m \<in> {m1, m2} \<union> range (\<lambda>i. kfd_get_hiq_xcc_mqd t i h).
      cpu_ptr m - cpu_ptr (trunk_obj t) = gpu_addr m - gpu_addr (trunk_obj t)"
    using assms(10-12) by (auto simp: allocate_sdma_mqd_def allocate_hiq_mqd_def kfd_get_hiq_xcc_mqd_def Let_def)
  moreover have "mqd_offset t (kfd_get_hiq_xcc_mqd t i h) + unat (hiq_mqd_size t) \<le> mqd_offset t m1" if "i < trunk_num_xcc t" for i
    using order_trans [OF hiq_xcc_offset(2) [OF assms(8) that] conjunct1 [OF d]] .
  ultimately show ?thesis using d x by blast
qed

section \<open>Witnesses\<close>

text \<open>
  Two SEs of one SH with four active CUs each, on a GFX9 device with one XCC, and a mask that enables CU 0 of both
  and CU 1 of the second.
\<close>

definition gfx_example :: gfx_info where
  "gfx_example = \<lparr>cu_number = 8, cu_bitmap = replicate 8 (replicate 4 (replicate 4 0x1b)),
     max_shader_engines = 2, max_sh_per_se = 1, xcc_mask = 1\<rparr>"

definition gfx9_node :: kfd_node where
  "gfx9_node = node_example\<lparr>gc_version := IP_VERSION 9 0 1, num_nodes := 1\<rparr>"

lemma gfx_example_eval:
  "gfx_wf gfx_example 0" "max_shader_engines gfx_example = 2" "max_sh_per_se gfx_example = 1"
  "\<not> wgp_mode_req gfx9_node" "NUM_XCC (xcc_mask gfx_example) = 1"
  "clamp_cu_count gfx9_node gfx_example 32 = 8"
proof -
  show "gfx_wf gfx_example 0" by code_simp
  show "\<not> wgp_mode_req gfx9_node" by code_simp
  show "NUM_XCC (xcc_mask gfx_example) = 1" by code_simp
  show "clamp_cu_count gfx9_node gfx_example 32 = 8" by code_simp
qed (simp_all add: gfx_example_def)

lemma gfx_example_active: "se < 2 \<Longrightarrow> sh < 1 \<Longrightarrow> active_cus gfx9_node gfx_example 0 se sh = 4"
proof -
  have "active_cus gfx9_node gfx_example 0 0 0 = 4" "active_cus gfx9_node gfx_example 0 1 0 = 4" by code_simp+
  moreover assume "se < 2" "sh < 1"
  ultimately show ?thesis by (auto simp: less_2_cases_iff)
qed

theorem cu_mask_equivalent_witness:
  "\<exists>m. mqd_symmetrically_map_cu_mask gfx9_node gfx_example [0xb] 32 (replicate 8 0) 0 = Some m \<and>
    length m = 8 \<and> \<not> bit (m ! 0) 1 \<and> bit (m ! 1) 1"
proof -
  have *: "max_shader_engines gfx_example \<le> KFD_MAX_NUM_SE" "max_sh_per_se gfx_example \<le> KFD_MAX_NUM_SH_PER_SE"
    "max_shader_engines gfx_example \<le> length (replicate 8 (0 :: u32))"
    "unat (32 :: u32) \<le> 32 * length [0xb :: u32]" "0 < 32 * length [0xb :: u32]"
    by (simp_all add: gfx_example_eval)
  have v: "en_mask gfx9_node = 1" "cu_inc gfx9_node * NUM_XCC (xcc_mask gfx_example) = 1"
    using gfx_example_eval by (simp_all add: en_mask_def cu_inc_def)
  have o: "active_order gfx9_node gfx_example 0 =
      map (\<lambda>k. (k div 2, 0, k mod 2)) [0..<8]"
    using active_order_uniform [of gfx_example gfx9_node 0 4] gfx_example_active gfx_example_eval by simp
  have e: "\<not> cu_enabled 1 [0xb] 8 1 (active_order gfx9_node gfx_example 0) 0 0 1"
    "cu_enabled 1 [0xb] 8 1 (active_order gfx9_node gfx_example 0) 0 1 1"
    unfolding o by (simp_all add: upt_rec cu_enabled_Cons mask_hit_def bit_numeral_rec)
  from cu_mask_equivalent [OF gfx_example_eval(1) *, of gfx9_node] obtain m where
    m: "mqd_symmetrically_map_cu_mask gfx9_node gfx_example [0xb] 32 (replicate 8 0) 0 = Some m" "length m = 8"
    "\<And>se j. se < 2 \<Longrightarrow> bit (m ! se) j = cu_enabled 1 [0xb] 8 1 (active_order gfx9_node gfx_example 0) 0 se j"
    unfolding gfx_example_eval(2,6) v by auto
  with m(3) [of 0 1] m(3) [of 1 1] e show ?thesis by auto
qed

theorem cu_mask_symmetric_layout_witness:
  "\<exists>m. mqd_symmetrically_map_cu_mask gfx9_node gfx_example [0xb] 32 (replicate 8 0) 0 = Some m \<and> bit (m ! 1) 1"
proof -
  have *: "max_shader_engines gfx_example \<le> KFD_MAX_NUM_SE" "max_sh_per_se gfx_example \<le> KFD_MAX_NUM_SH_PER_SE"
    "max_shader_engines gfx_example \<le> length (replicate 8 (0 :: u32))"
    "unat (32 :: u32) \<le> 32 * length [0xb :: u32]" "0 < length [0xb :: u32]"
    by (simp_all add: gfx_example_eval)
  have act: "active_cus gfx9_node gfx_example 0 se sh = 4"
    if "se < max_shader_engines gfx_example" "sh < max_sh_per_se gfx_example" for se sh
    using that gfx_example_active by (simp add: gfx_example_eval)
  have "(1 * max_sh_per_se gfx_example + 0) * max_shader_engines gfx_example + 1 <
      clamp_cu_count gfx9_node gfx_example 32"
    by (simp only: gfx_example_eval) simp
  from cu_mask_symmetric_layout [OF gfx_example_eval(1) * gfx_example_eval(4,5) act _ _ _ _ this]
  show ?thesis by (simp add: gfx_example_eval bit_numeral_rec)
qed

definition trunk_example :: hiq_sdma_trunk where
  "trunk_example = \<lparr>hiq_mqd_size = 512, sdma_mqd_size = 512, trunk_num_xcc = 2,
     trunk_obj = \<lparr>range_start = 0, range_end = 0, gpu_addr = 0x4000, cpu_ptr = 0x9000\<rparr>\<rparr>"

theorem sdma_mqds_disjoint_witness:
  "\<exists>p1 p2 m1 m2 h. allocate_sdma_mqd True (dqm_dev dqm_fresh) trunk_example p1 = Some m1 \<and>
     allocate_sdma_mqd True (dqm_dev dqm_fresh) trunk_example p2 = Some m2 \<and> allocate_hiq_mqd True trunk_example = Some h \<and>
     mqd_offset trunk_example (kfd_get_hiq_xcc_mqd trunk_example 1 h) + 512 \<le> mqd_offset trunk_example m1 \<and>
     (mqd_offset trunk_example m1 + 512 \<le> mqd_offset trunk_example m2 \<or>
      mqd_offset trunk_example m2 + 512 \<le> mqd_offset trunk_example m1)"
proof -
  let ?q = "queue_example 1 KFD_QUEUE_TYPE_SDMA False"
  have a: "fst (allocate_sdma_queue dqm_fresh ?q (Some 1)) = OK" by code_simp
  have e: "sdma_engine_id (properties (snd (snd (allocate_sdma_queue dqm_fresh ?q (Some 1))))) = 1" by code_simp
  obtain d1 q1 where 1: "allocate_sdma_queue dqm_fresh ?q None = (OK, d1, q1)"
    using dqm_fresh_allocs(1) by (metis fst_conv prod.exhaust)
  obtain d2 q2 where 2: "allocate_sdma_queue dqm_fresh ?q (Some 1) = (OK, d2, q2)"
    using a by (metis fst_conv prod.exhaust)
  have t: "qtype (properties ?q) = KFD_QUEUE_TYPE_SDMA" by (simp add: queue_example_def zero_properties_def)
  then have ty: "is_sdma_type (qtype (properties ?q))" by simp
  have wf: "sdma_wf (qtype (properties ?q)) dqm_fresh" using dqm_fresh_sdma_wf t by simp
  have b: "trunk_bytes dqm_fresh trunk_example < 2 ^ 32"
    by (simp add: trunk_bytes_def trunk_example_def get_num_all_sdma_engines_def dqm_fresh_defs
        kfd_get_num_sdma_engines_def kfd_get_num_xgmi_sdma_engines_def)
  have "(sdma_engine_id (properties q1), sdma_queue_id (properties q1)) \<noteq>
      (sdma_engine_id (properties q2), sdma_queue_id (properties q2))" 
    using dqm_fresh_allocs(3) e 1 2 by simp
  note ne = this
  obtain m1 m2 h where m: "allocate_sdma_mqd True (dqm_dev dqm_fresh) trunk_example (properties q1) = Some m1"
    "allocate_sdma_mqd True (dqm_dev dqm_fresh) trunk_example (properties q2) = Some m2" "allocate_hiq_mqd True trunk_example = Some h"
    by (simp add: allocate_sdma_mqd_def allocate_hiq_mqd_def Let_def)
  have "unat (sdma_mqd_size trunk_example) = 512" "unat (hiq_mqd_size trunk_example) = 512" "1 < trunk_num_xcc trunk_example"
    by (simp_all add: trunk_example_def)
  with sdma_mqds_disjoint [OF 1 2 ty ty wf wf refl b ne m] m show ?thesis by metis
qed

end
