(* ===== verification/Dqm_Links.thy ===== *)
theory Dqm_Links
  imports Dqm_Evict
begin

text \<open>
  What the users of a device queue manager rely on: which queues of a process it holds. The operations are those
  of the table \<^verbatim>\<open>dqm->ops\<close>, which \<^verbatim>\<open>device_queue_manager_init\<close> fills according to the scheduling policy. The
  locale \<open>queue_provider\<close> states the contract of \<^verbatim>\<open>create_queue\<close> and \<^verbatim>\<open>destroy_queue\<close> and proves what follows for a user
  who keeps a list of the queues created; it is interpreted on both policies at once.
\<close>

section \<open>The operations table\<close>

definition ops_create_queue ::
    "hw_env \<Rightarrow> queue \<Rightarrow> criu_queue option \<Rightarrow> nat \<Rightarrow> device_queue_manager \<Rightarrow> retval \<times> device_queue_manager" where
  "ops_create_queue env q qd p dqm =
     (if sched_policy dqm = KFD_SCHED_POLICY_NO_HWS then on_qpd (create_queue_nocpsch env q qd) p dqm
      else create_queue_cpsch env q qd p dqm)"

definition ops_destroy_queue ::
    "hw_env \<Rightarrow> nat \<Rightarrow> nat \<Rightarrow> device_queue_manager \<Rightarrow> retval \<times> device_queue_manager" where
  "ops_destroy_queue env qp p dqm =
     (if sched_policy dqm = KFD_SCHED_POLICY_NO_HWS
      then with_process p dqm (\<lambda>qpd. case find_queue qp qpd of
             None \<Rightarrow> (Err OOPS, dqm) | Some q \<Rightarrow> on_qpd (destroy_queue_nocpsch env q) p dqm)
      else destroy_queue_cpsch env qp p dqm)"

text \<open>Without a hardware scheduler the table has no entries for kernel queues: calling them dereferences null.\<close>

definition ops_create_kernel_queue ::
    "hw_env \<Rightarrow> queue \<Rightarrow> nat \<Rightarrow> device_queue_manager \<Rightarrow> retval \<times> device_queue_manager" where
  "ops_create_kernel_queue env kq p dqm =
     (if sched_policy dqm = KFD_SCHED_POLICY_NO_HWS then (Err OOPS, dqm)
      else create_kernel_queue_cpsch env kq p dqm)"

definition ops_destroy_kernel_queue ::
    "hw_env \<Rightarrow> queue \<Rightarrow> nat \<Rightarrow> device_queue_manager \<Rightarrow> retval \<times> device_queue_manager" where
  "ops_destroy_kernel_queue env kq p dqm =
     (if sched_policy dqm = KFD_SCHED_POLICY_NO_HWS then (Err OOPS, dqm)
      else destroy_kernel_queue_cpsch env kq p dqm)"

section \<open>The queues of a process\<close>

definition linked :: "nat \<Rightarrow> device_queue_manager \<Rightarrow> nat list option" where
  "linked p dqm = map_option (\<lambda>qpd. map q_ptr (queues_list qpd)) (get_qpd dqm p)"

text \<open>A step that writes the process \<open>p\<close> alone, to one with the queues \<open>qs\<close>, or nothing when it has these.\<close>

definition relinks :: "nat \<Rightarrow> nat list \<Rightarrow> device_queue_manager \<Rightarrow> device_queue_manager \<Rightarrow> bool" where
  "relinks p qs dqm dqm' \<longleftrightarrow>
     (\<exists>qpd. qpd_ptr qpd = p \<and> map q_ptr (queues_list qpd) = qs \<and> dqm_queues dqm' = dqm_queues (put_qpd qpd dqm)) \<or>
     dqm_queues dqm' = dqm_queues dqm \<and> linked p dqm = Some qs"

lemma relinksI:
  "dqm_queues dqm' = dqm_queues (put_qpd qpd dqm) \<Longrightarrow> qpd_ptr qpd = p \<Longrightarrow> map q_ptr (queues_list qpd) = qs \<Longrightarrow>
   relinks p qs dqm dqm'"
  by (auto simp: relinks_def)

lemma relinks_same: "dqm_queues dqm' = dqm_queues dqm \<Longrightarrow> linked p dqm = Some qs \<Longrightarrow> relinks p qs dqm dqm'"
  by (simp add: relinks_def)

lemma linked_queues: "dqm_queues dqm' = dqm_queues dqm \<Longrightarrow> linked p dqm' = linked p dqm"
  by (simp add: linked_def get_qpd_def)

lemma linked_put:
  "linked p' (put_qpd qpd dqm) =
   (if p' = qpd_ptr qpd \<and> linked p' dqm \<noteq> None then Some (map q_ptr (queues_list qpd)) else linked p' dqm)"
  by (auto simp: linked_def get_put_qpd)

lemma relinks_linked: "relinks p qs dqm dqm' \<Longrightarrow> linked p dqm \<noteq> None \<Longrightarrow> linked p dqm' = Some qs"
  unfolding relinks_def by (metis linked_put linked_queues)

lemma relinks_others: "relinks p qs dqm dqm' \<Longrightarrow> p' \<noteq> p \<Longrightarrow> linked p' dqm' = linked p' dqm"
  unfolding relinks_def by (metis linked_put linked_queues)

section \<open>Creation\<close>

lemma nocpsch_add_links:
  assumes "nocpsch_add_queue_to_list dqm qpd q = (dqm', qpd')"
  shows "queues_list qpd' = list_add_queue q (queues_list qpd)" "procs dqm' = procs dqm" "qpd_ptr qpd' = qpd_ptr qpd"
proof -
  show "queues_list qpd' = list_add_queue q (queues_list qpd)" "qpd_ptr qpd' = qpd_ptr qpd"
    using assms by (auto simp: nocpsch_add_queue_to_list_def Let_def split: if_splits prod.splits dest!: qpd_count)
  show "procs dqm' = procs dqm"
    using assms
    by (auto simp: nocpsch_add_queue_to_list_def Let_def procs_def split: if_splits prod.splits dest!: procs_count)
qed

lemma create_nocpsch_links:
  assumes c: "create_queue_nocpsch env q qd dqm qpd = (r, dqm', qpd')"
  shows "procs dqm' = procs dqm \<and> qpd_ptr qpd' = qpd_ptr qpd \<and>
    map q_ptr (queues_list qpd') = (if r = OK then q_ptr q # map q_ptr (queues_list qpd) else map q_ptr (queues_list qpd))"
proof -
  obtain r1 dqm1 qpd1 q1 where b: "create_queue_nocpsch_begin dqm q qpd qd = (r1, dqm1, qpd1, q1)"
    by (cases "create_queue_nocpsch_begin dqm q qpd qd")
  note qb = quiet_create_begin [OF b]
  show ?thesis
  proof (cases r1)
    case (Err e)
    with c b qb show ?thesis by (auto simp: create_queue_nocpsch_def quiet_def qview_def)
  next
    case OK
    define q2 where "q2 = (if qd \<noteq> None then mqd_restore_active (q1\<lparr>mqd_mem_obj := he_allocate_mqd env\<rparr>)
      else mqd_update_active (q1\<lparr>mqd_mem_obj := he_allocate_mqd env\<rparr>))"
    have p: "q_ptr q2 = q_ptr q"
      using qb OK by (simp add: q2_def mqd_restore_active_def mqd_update_active_def)
    obtain da pa qa where a: "nocpsch_out_deallocate_doorbell dqm1 qpd1 (q1\<lparr>mqd_mem_obj := he_allocate_mqd env\<rparr>) = (da, pa, qa)"
      by (cases "nocpsch_out_deallocate_doorbell dqm1 qpd1 (q1\<lparr>mqd_mem_obj := he_allocate_mqd env\<rparr>)")
    obtain db pb qb' where b2: "nocpsch_out_deallocate_doorbell dqm1 qpd1 q2 = (db, pb, qb')"
      by (cases "nocpsch_out_deallocate_doorbell dqm1 qpd1 q2")
    obtain dl pl where l: "nocpsch_add_queue_to_list dqm1 qpd1 q2 = (dl, pl)"
      by (cases "nocpsch_add_queue_to_list dqm1 qpd1 q2")
    have eq: "(r, dqm', qpd') = (if he_allocate_mqd env = None then (Err ENOMEM, da, pa)
       else case (if \<not> is_active (properties q2) \<or> \<not> sched_running dqm1 then OK
              else if \<not> he_current_mm env then Err EFAULT else he_load_mqd env q2) of
         Err e \<Rightarrow> (Err e, db, pb) | OK \<Rightarrow> (OK, dl, pl))"
      using c OK unfolding create_queue_nocpsch_def b prod.case create_queue_nocpsch_finish_def Let_def q2_def [symmetric] a b2 l
      by (simp split: retval.splits)
    have q: "quiet dqm qpd da pa" "quiet dqm qpd db pb"
      using qb quiet_out_deallocate_doorbell [OF a] quiet_out_deallocate_doorbell [OF b2] quiet_trans by blast+
    have "procs dl = procs dqm" "qpd_ptr pl = qpd_ptr qpd" "map q_ptr (queues_list pl) = q_ptr q # map q_ptr (queues_list qpd)"
      using nocpsch_add_links [OF l] qb p by (auto simp: quiet_def qview_def list_add_queue_def)
    with q eq show ?thesis by (auto simp: quiet_def qview_def split: if_splits retval.splits)
  qed
qed

lemma create_cpsch_locked_links:
  assumes g: "get_qpd dqm p = Some qpd0" and v: "qview qpd = qview qpd0" and d1: "procs dqm1 = procs dqm"
    and fr: "q_ptr q \<notin> q_ptr ` set (queues_list qpd)"
    and c: "create_queue_cpsch_locked env dqm1 q qpd qd = (r, E)"
  shows "relinks p (if r = OK then q_ptr q # map q_ptr (queues_list qpd0) else map q_ptr (queues_list qpd0)) dqm E"
proof -
  define q1 where "q1 = q\<lparr>properties := (properties q)\<lparr>is_evicted := evicted qpd \<noteq> 0,
    is_dbg_wa := debug_trap_enabled qpd \<and> kfd_dbg_has_cwsr_workaround (dqm_dev dqm1)\<rparr>\<rparr>"
  define q2 where "q2 = (if qd \<noteq> None then mqd_restore_active q1 else mqd_update_active q1)"
  define qpd1 where "qpd1 = qpd\<lparr>queues_list := list_add_queue q2 (queues_list qpd), queue_count := queue_count qpd + 1\<rparr>"
  have p2: "q_ptr q2 = q_ptr q" by (simp add: q2_def q1_def mqd_restore_active_def mqd_update_active_def)
  have l1: "map q_ptr (queues_list qpd1) = q_ptr q # map q_ptr (queues_list qpd0)" "qpd_ptr qpd1 = p"
    using v get_qpd_Some [OF g] p2 by (auto simp: qpd1_def list_add_queue_def qview_def)
  have dq: "dqm_queues (put_qpd x dqm1) = dqm_queues (put_qpd x dqm)" for x
    using d1 by (simp add: put_qpd_def procs_def)
  show ?thesis
  proof (cases "is_active (properties q2)")
    case False
    then have "r = OK" "E = (put_qpd qpd1 dqm1)\<lparr>total_queue_count := total_queue_count dqm1 + 1\<rparr>"
      using c unfolding create_queue_cpsch_locked_def Let_def q1_def [symmetric] q2_def [symmetric] qpd1_def [symmetric]
      by simp_all
    with l1 dq show ?thesis by (intro relinksI [of _ qpd1]) simp_all
  next
    case True
    obtain dqm2 qpd2 where inc: "increment_queue_count dqm1 qpd1 q2 = (dqm2, qpd2)" by fastforce
    let ?d3 = "put_qpd qpd2 dqm2"
    obtain r4 dqm4 where s: "(if \<not> uses_mes ?d3 then refresh env ?d3 else add_queue_mes env ?d3 q2 qpd2) = (r4, dqm4)"
      by fastforce
    then have so: "sched_only ?d3 dqm4" using execute_queues_frame mes_frame(1) by (fastforce split: if_splits)
    have E: "(r, E) = (case r4 of OK \<Rightarrow> (OK, dqm4\<lparr>total_queue_count := total_queue_count dqm4 + 1\<rparr>)
        | Err e \<Rightarrow> (Err e, cpsch_cleanup_queue dqm4 qpd2 q2))"
      using c True unfolding create_queue_cpsch_locked_def Let_def q1_def [symmetric] q2_def [symmetric] qpd1_def [symmetric]
        inc prod.case s by simp
    have v2: "qview qpd2 = qview qpd1" using qview_count(1) [OF inc] .
    have l2: "map q_ptr (queues_list qpd2) = q_ptr q # map q_ptr (queues_list qpd0)" "qpd_ptr qpd2 = p"
      using l1 v2 by (auto simp: qview_def)
    have d2: "dqm_queues (put_qpd x dqm2) = dqm_queues (put_qpd x dqm)" for x
      using d1 procs_count(1) [OF inc] by (simp add: put_qpd_def procs_def)
    have d4: "dqm_queues dqm4 = dqm_queues (put_qpd qpd2 dqm)" using sched_only_fields(1) [OF so] d2 by simp
    show ?thesis
    proof (cases r4)
      case OK
      with E l2 d4 show ?thesis by (intro relinksI [of _ qpd2]) simp_all
    next
      case (Err e)
      define qpd3 where "qpd3 = qpd2\<lparr>queue_count := queue_count qpd2 - 1, queues_list := list_del_queue q2 (queues_list qpd2)\<rparr>"
      obtain dqm5 qpd5 where dec: "decrement_queue_count dqm4 qpd3 q2 = (dqm5, qpd5)" by fastforce
      have C: "cpsch_cleanup_queue dqm4 qpd2 q2 =
          cpsch_out_deallocate_sdma_queue (put_qpd (deallocate_doorbell dqm5 qpd5 q2) dqm5) q2"
        using True dec by (simp add: cpsch_cleanup_queue_def qpd3_def [symmetric] cpsch_out_deallocate_doorbell_def Let_def)
      let ?q = "deallocate_doorbell dqm5 qpd5 q2"
      have "list_del_queue q2 (queues_list qpd2) = queues_list qpd"
        using v2 list_del_add_queue [of q2 "queues_list qpd"] fr p2 by (simp add: qview_def qpd1_def)
      then have vq: "qpd_ptr ?q = p" "map q_ptr (queues_list ?q) = map q_ptr (queues_list qpd0)"
        using qview_count(2) [OF dec] l2(2) v by (auto simp: qview_def qpd3_def deallocate_doorbell_def split: option.splits)
      have "dqm_queues (cpsch_cleanup_queue dqm4 qpd2 q2) = dqm_queues (put_qpd ?q dqm5)"
        unfolding C using out_deallocate_sdma_frame(2) [of "put_qpd ?q dqm5" q2] by (simp add: procs_def)
      also have "\<dots> = dqm_queues (put_qpd ?q (put_qpd qpd2 dqm))"
        using procs_count(2) [OF dec] d4 by (simp add: put_qpd_def procs_def)
      also have "\<dots> = dqm_queues (put_qpd ?q dqm)" using vq(1) l2(2) by (intro put_put_qpd) simp
      finally show ?thesis using E Err vq by (intro relinksI [of _ ?q]) simp_all
    qed
  qed
qed

lemma create_cpsch_links:
  assumes g: "get_qpd dqm p = Some qpd" and fr: "q_ptr q \<notin> q_ptr ` set (queues_list qpd)"
    and c: "create_queue_cpsch env q qd p dqm = (r, E)"
  shows "relinks p (if r = OK then q_ptr q # map q_ptr (queues_list qpd) else map q_ptr (queues_list qpd)) dqm E"
proof (cases "total_queue_count dqm \<ge> max_num_of_queues_per_device (dqm_dev dqm)")
  case True
  with c g show ?thesis by (auto simp: create_queue_cpsch_def linked_def intro: relinks_same)
next
  case False
  define x where "x = (if is_sdma_type (qtype (properties q)) then allocate_sdma_queue dqm q (map_option qd_sdma_id qd)
              else (OK, dqm, q))"
  obtain r1 dqm1 q1 where x: "x = (r1, dqm1, q1)" by (metis prod_cases3)
  then have d1: "procs dqm1 = procs dqm" "q_ptr q1 = q_ptr q"
    by (auto simp: x_def dest: dqm_frame allocate_q_ptr split: if_splits)
  obtain r2 qpd1 q2 where y: "allocate_doorbell dqm1 qpd q1 (map_option qd_doorbell_id qd) = (r2, qpd1, q2)"
    by (metis prod_cases3)
  then have v: "qview qpd1 = qview qpd" "q_ptr q2 = q_ptr q" using d1(2) by (auto dest: dqm_frame allocate_q_ptr)
  define q4 where "q4 = (let q3 = (if is_sdma_type (qtype (properties q2)) then asic_init_sdma_vm dqm1 q2 qpd1 else q2) in
    q3\<lparr>properties := (properties q3)\<lparr>tba_addr := qpd_tba_addr qpd1, tma_addr := qpd_tma_addr qpd1\<rparr>,
       mqd_mem_obj := he_allocate_mqd env\<rparr>)"
  have q4: "q_ptr q4 = q_ptr q" using v(2) by (simp add: q4_def Let_def)
  have eq: "(r, E) = (case r1 of Err e \<Rightarrow> (Err e, dqm1)
     | OK \<Rightarrow> (case r2 of Err e \<Rightarrow> (Err e, cpsch_out_deallocate_sdma_queue (put_qpd qpd1 dqm1) q2)
        | OK \<Rightarrow> if he_allocate_mqd env = None then (Err ENOMEM, cpsch_out_deallocate_doorbell dqm1 qpd1 q4)
               else create_queue_cpsch_locked env dqm1 q4 qpd1 qd))"
    unfolding c [symmetric] create_queue_cpsch_def with_process_def g option.case x_def [symmetric] x q4_def
    using False by (cases r1; cases r2) (simp_all add: y Let_def)
  have l: "linked p dqm = Some (map q_ptr (queues_list qpd))" using g by (simp add: linked_def)
  have exit: "relinks p (map q_ptr (queues_list qpd)) dqm F"
    if "procs F = procs (put_qpd qpd' dqm1)" "qview qpd' = qview qpd" for F qpd'
    using that d1(1) get_qpd_Some [OF g] by (intro relinksI [of _ qpd']) (auto simp: procs_def put_qpd_def qview_def)
  show ?thesis
  proof (cases "r1 = OK \<and> r2 = OK \<and> he_allocate_mqd env \<noteq> None")
    case True
    with eq have "create_queue_cpsch_locked env dqm1 q4 qpd1 qd = (r, E)" by (auto split: if_splits)
    moreover have "q_ptr q4 \<notin> q_ptr ` set (queues_list qpd1)" using fr v(1) q4 by (simp add: qview_def)
    ultimately show ?thesis using create_cpsch_locked_links [OF g v(1) d1(1)] q4 by metis
  next
    case False
    then have "r \<noteq> OK \<and> (E = dqm1 \<or> E = cpsch_out_deallocate_sdma_queue (put_qpd qpd1 dqm1) q2 \<or>
        E = cpsch_out_deallocate_doorbell dqm1 qpd1 q4)"
      using eq by (cases r1; cases r2; cases "he_allocate_mqd env = None") simp_all
    moreover have "relinks p (map q_ptr (queues_list qpd)) dqm dqm1" using d1(1) l by (auto simp: procs_def intro: relinks_same)
    moreover have "relinks p (map q_ptr (queues_list qpd)) dqm (cpsch_out_deallocate_sdma_queue (put_qpd qpd1 dqm1) q2)"
      by (rule exit [of _ qpd1]) (simp_all add: v)
    moreover have "relinks p (map q_ptr (queues_list qpd)) dqm (cpsch_out_deallocate_doorbell dqm1 qpd1 q4)"
      by (rule exit [of _ "deallocate_doorbell dqm1 qpd1 q4"]) (simp_all add: v cpsch_out_deallocate_doorbell_def)
    ultimately show ?thesis by auto
  qed
qed

lemma ops_create_links:
  assumes l: "linked p dqm = Some qs" and fr: "q_ptr q \<notin> set qs" and c: "ops_create_queue env q qd p dqm = (r, dqm')"
  shows "relinks p (if r = OK then q_ptr q # qs else qs) dqm dqm'"
proof -
  obtain qpd where g: "get_qpd dqm p = Some qpd" "qs = map q_ptr (queues_list qpd)" using l by (auto simp: linked_def)
  show ?thesis
  proof (cases "sched_policy dqm = KFD_SCHED_POLICY_NO_HWS")
    case True
    obtain d1 qpd1 where n: "create_queue_nocpsch env q qd dqm qpd = (r, d1, qpd1)" "dqm' = put_qpd qpd1 d1"
      using c True g by (auto simp: ops_create_queue_def on_qpd_def split: prod.splits)
    with create_nocpsch_links [OF n(1)] g get_qpd_Some [OF g(1)] show ?thesis
      by (intro relinksI [of _ qpd1]) (auto simp: procs_def put_qpd_def)
  next
    case False
    with c have "create_queue_cpsch env q qd p dqm = (r, dqm')" by (simp add: ops_create_queue_def)
    from create_cpsch_links [OF g(1) _ this] fr show ?thesis unfolding g(2) by (simp split del: if_split)
  qed
qed

section \<open>Destruction\<close>

text \<open>Codes after which the caller gives up the queue.\<close>

definition settled :: "retval \<Rightarrow> bool" where
  "settled r \<longleftrightarrow> r = OK \<or> r = Err ETIME \<or> r = Err EIO"

lemma map_q_ptr_del: "map q_ptr (list_del_queue q qs) = filter (\<lambda>x. x \<noteq> q_ptr q) (map q_ptr qs)"
  by (induction qs) (simp_all add: list_del_queue_def)

lemma destroy_nocpsch_links:
  assumes d: "destroy_queue_nocpsch env q dqm qpd = (r, dqm', qpd')" and run: "sched_running dqm"
  shows "procs dqm' = procs dqm \<and> qpd_ptr qpd' = qpd_ptr qpd \<and>
    (map q_ptr (queues_list qpd') = filter (\<lambda>x. x \<noteq> q_ptr q) (map q_ptr (queues_list qpd)) \<or>
     r = Err EINVAL \<and> queues_list qpd' = queues_list qpd)"
proof -
  obtain r1 d1 p1 where l: "destroy_queue_nocpsch_locked env q dqm qpd = (r1, d1, p1)"
    by (cases "destroy_queue_nocpsch_locked env q dqm qpd")
  then have e: "r = r1" "dqm' = d1" "qview qpd' = qview p1"
    using d by (auto simp: destroy_queue_nocpsch_def qview_def split: retval.splits)
  show ?thesis
  proof (cases "qtype (properties q) = KFD_QUEUE_TYPE_COMPUTE \<or> is_sdma_type (qtype (properties q))")
    case True
    from destroy_locked_post [OF l run True] e show ?thesis by (auto simp: qview_def procs_def map_q_ptr_del)
  next
    case False
    with l e show ?thesis by (auto simp: destroy_queue_nocpsch_locked_def qview_def)
  qed
qed

lemma destroy_cpsch_locked_links:
  assumes g: "get_qpd dqm p = Some qpd" and d: "destroy_queue_cpsch_locked env dqm qpd q = (r, E)"
  shows "relinks p (filter (\<lambda>x. x \<noteq> q_ptr q) (map q_ptr (queues_list qpd))) dqm E \<or>
    r = Err EBUSY \<and> dqm_queues E = dqm_queues dqm"
proof (cases "is_debug qpd")
  case True
  with d show ?thesis by (simp add: destroy_queue_cpsch_locked_def)
next
  case False
  let ?sdma = "is_sdma_type (qtype (properties q))"
  define qpd1 where "qpd1 = deallocate_doorbell dqm qpd q"
  define dqm1 where "dqm1 = (if ?sdma then deallocate_sdma_queue dqm q else dqm)"
  define qpd2 where "qpd2 = (if ?sdma then qpd1\<lparr>sdma_past_activity_counter :=
    sdma_past_activity_counter qpd1 + he_sdma_counter env\<rparr> else qpd1)"
  define qpd3 where "qpd3 = qpd2\<lparr>queues_list := list_del_queue q (queues_list qpd2), queue_count := queue_count qpd2 - 1\<rparr>"
  have d1: "procs dqm1 = procs dqm" by (simp add: dqm1_def)
  have "qview qpd2 = qview qpd" by (simp add: qpd2_def qpd1_def)
  then have v3: "qpd_ptr qpd3 = p" "map q_ptr (queues_list qpd3) = filter (\<lambda>x. x \<noteq> q_ptr q) (map q_ptr (queues_list qpd))"
    using get_qpd_Some [OF g] by (auto simp: qpd3_def qview_def map_q_ptr_del)
  show ?thesis
  proof (cases "is_active (properties q)")
    case inactive: False
    then have E: "E = (put_qpd qpd3 dqm1)\<lparr>total_queue_count := total_queue_count dqm1 - 1\<rparr>"
      using d False unfolding destroy_queue_cpsch_locked_def Let_def qpd1_def [symmetric] dqm1_def [symmetric]
        qpd2_def [symmetric] qpd3_def [symmetric] by simp
    then show ?thesis using d1 v3 by (intro disjI1 relinksI [of _ qpd3]) (simp_all add: procs_def put_qpd_def)
  next
    case True
    obtain dqm2 qpd4 where dec: "decrement_queue_count dqm1 qpd3 q = (dqm2, qpd4)" by fastforce
    let ?d3 = "put_qpd qpd4 dqm2"
    obtain r4 dqm4 where s: "(if \<not> uses_mes ?d3 then refresh env ?d3 else remove_queue_mes env ?d3 q) = (r4, dqm4)"
      by fastforce
    then have so: "sched_only ?d3 dqm4" using execute_queues_frame mes_frame(2) by (fastforce split: if_splits)
    define qpd5 where "qpd5 = (if \<not> uses_mes ?d3 \<and> r4 = Err ETIME then qpd4\<lparr>reset_wavefronts := True\<rparr> else qpd4)"
    define dqm5 where "dqm5 = (if \<not> uses_mes ?d3 \<and> r4 = Err ETIME then put_qpd (qpd4\<lparr>reset_wavefronts := True\<rparr>) dqm4 else dqm4)"
    have E: "E = dqm5\<lparr>total_queue_count := total_queue_count dqm5 - 1\<rparr>"
      using d True False unfolding destroy_queue_cpsch_locked_def Let_def qpd1_def [symmetric] dqm1_def [symmetric]
        qpd2_def [symmetric] qpd3_def [symmetric] dec prod.case s dqm5_def [symmetric] by simp
    have v4: "qview qpd4 = qview qpd3" using qview_count(2) [OF dec] .
    have v5: "qview qpd5 = qview qpd3" "qpd_ptr qpd5 = qpd_ptr qpd4" using v4 by (simp_all add: qpd5_def)
    have "procs dqm2 = procs dqm" using procs_count(2) [OF dec] d1 by simp
    then have "dqm_queues dqm5 = dqm_queues (put_qpd qpd5 dqm)"
      using sched_only_fields(1) [OF so] v5(2) by (auto simp: dqm5_def qpd5_def procs_def put_qpd_def)
    with v3 v5 E show ?thesis by (intro disjI1 relinksI [of _ qpd5]) (auto simp: qview_def)
  qed
qed

lemma find_queue_ex: "qp \<in> set (map q_ptr (queues_list qpd)) \<Longrightarrow> \<exists>q. find_queue qp qpd = Some q"
  by (cases "find_queue qp qpd") (auto simp: find_queue_def find_None_iff)

lemma relinks_put:
  assumes "relinks p qs' (put_qpd qpd dqm) X" "qpd_ptr qpd = p" "linked p (put_qpd qpd dqm) = Some qs"
    "map q_ptr (queues_list qpd) = qs"
  shows "relinks p qs' dqm X"
  using assms(1) unfolding relinks_def [of p qs' "put_qpd qpd dqm"]
proof (elim disjE exE conjE)
  fix qpd' assume a: "qpd_ptr qpd' = p" "map q_ptr (queues_list qpd') = qs'"
    "dqm_queues X = dqm_queues (put_qpd qpd' (put_qpd qpd dqm))"
  have "dqm_queues (put_qpd qpd' (put_qpd qpd dqm)) = dqm_queues (put_qpd qpd' dqm)"
    using a(1) assms(2) by (intro put_put_qpd) simp
  with a show ?thesis by (intro relinksI [of _ qpd']) simp_all
next
  assume "dqm_queues X = dqm_queues (put_qpd qpd dqm)" "linked p (put_qpd qpd dqm) = Some qs'"
  with assms(2-4) show ?thesis by (intro relinksI [of _ qpd]) simp_all
qed

text \<open>Which errors a destruction can give without unlinking the queue.\<close>

lemma ops_destroy_links:
  assumes l: "linked p dqm = Some qs" and qp: "qp \<in> set qs" and d: "ops_destroy_queue env qp p dqm = (r, dqm')"
    and run: "sched_policy dqm = KFD_SCHED_POLICY_NO_HWS \<longrightarrow> sched_running dqm"
    and w: "he_wait env = OK \<or> he_wait env = Err ERESTARTSYS"
  shows "relinks p (filter (\<lambda>x. x \<noteq> qp) qs) dqm dqm' \<or> relinks p qs dqm dqm' \<and> \<not> settled r"
proof -
  obtain qpd where g: "get_qpd dqm p = Some qpd" "qs = map q_ptr (queues_list qpd)" using l by (auto simp: linked_def)
  obtain q where q: "find_queue qp qpd = Some q" using qp g(2) find_queue_ex [of qp qpd] by auto
  have ptr: "q_ptr q = qp" using find_queue_Some [OF q] by simp
  show ?thesis
  proof (cases "sched_policy dqm = KFD_SCHED_POLICY_NO_HWS")
    case True
    obtain d1 qpd1 where n: "destroy_queue_nocpsch env q dqm qpd = (r, d1, qpd1)" "dqm' = put_qpd qpd1 d1"
      using d True g q by (auto simp: ops_destroy_queue_def with_process_def on_qpd_def split: prod.splits)
    note x = destroy_nocpsch_links [OF n(1)]
    have p: "qpd_ptr qpd1 = p" "dqm_queues dqm' = dqm_queues (put_qpd qpd1 dqm)"
      using x run True n(2) get_qpd_Some [OF g(1)] by (auto simp: procs_def put_qpd_def)
    from x run True have "map q_ptr (queues_list qpd1) = filter (\<lambda>x. x \<noteq> qp) qs \<or> map q_ptr (queues_list qpd1) = qs \<and> r = Err EINVAL"
      by (auto simp: g(2) ptr)
    with p show ?thesis by (auto simp: settled_def intro: relinksI)
  next
    case False
    with d have c: "destroy_queue_cpsch env qp p dqm = (r, dqm')" by (simp add: ops_destroy_queue_def)
    obtain wt qpd1 where wq: "wait_on_destroy_queue qp qpd = (wt, qpd1)" by fastforce
    have v: "qpd_ptr qpd1 = p" "map q_ptr (queues_list qpd1) = qs"
      using wq q g get_qpd_Some [OF g(1)] by (auto simp: wait_on_destroy_queue_def split: if_splits)
    let ?d = "put_qpd qpd1 dqm"
    have g1: "get_qpd ?d p = Some qpd1" using g(1) v(1) by (simp add: get_put_qpd)
    have re: "relinks p qs' dqm X" if "relinks p qs' ?d X" "linked p ?d = Some qs" for qs' X
      by (rule relinks_put [OF that(1) v(1) that(2) v(2)])
    show ?thesis
    proof (cases "wt \<and> he_wait env \<noteq> OK")
      case True
      with c g(1) wq have "r = he_wait env" "dqm' = ?d" by (simp_all add: destroy_queue_cpsch_def with_process_def Let_def)
      with True w v show ?thesis by (auto simp: settled_def intro: relinksI)
    next
      case F: False
      obtain q1 where q1: "find_queue qp qpd1 = Some q1" using qp v(2) find_queue_ex [of qp qpd1] by auto
      have lk: "destroy_queue_cpsch_locked env ?d qpd1 q1 = (r, dqm')"
        using c g(1) wq F g1 q1
        by (auto simp: destroy_queue_cpsch_def with_process_def destroy_queue_cpsch_finish_def Let_def split: if_splits)
      have "q_ptr q1 = qp" using find_queue_Some [OF q1] by simp
      with destroy_cpsch_locked_links [OF g1 lk] v(2) have
        "relinks p (filter (\<lambda>x. x \<noteq> qp) qs) ?d dqm' \<or> r = Err EBUSY \<and> relinks p qs ?d dqm'"
        using g1 by (auto simp: linked_def intro: relinks_same)
      moreover have "linked p ?d = Some qs" using g1 v(2) by (simp add: linked_def)
      ultimately show ?thesis using re by (auto simp: settled_def)
    qed
  qed
qed

section \<open>The contract\<close>

text \<open>
  A provider of queues: \<open>queues\<close> are those it holds for a client; \<open>create\<close> adds a new queue exactly when it succeeds;
  \<open>destroy\<close> has removed the queue when it answers with a code after which the caller gives it up. Neither
  touches other clients. \<open>up\<close> is the condition under which destruction keeps this promise.
\<close>

locale queue_provider =
  fixes queues :: "nat \<Rightarrow> 's \<Rightarrow> nat list option"
    and create :: "'e \<Rightarrow> nat \<Rightarrow> 's \<Rightarrow> retval \<times> 's"
    and destroy :: "'d \<Rightarrow> nat \<Rightarrow> nat \<Rightarrow> 's \<Rightarrow> retval \<times> 's"
    and addr :: "'e \<Rightarrow> nat"
    and up :: "'d \<Rightarrow> 's \<Rightarrow> bool"
  assumes create_result: "queues p s = Some qs \<Longrightarrow> addr e \<notin> set qs \<Longrightarrow> create e p s = (r, s') \<Longrightarrow>
      queues p s' = Some (if r = OK then addr e # qs else qs)"
    and create_others: "queues p s = Some qs \<Longrightarrow> addr e \<notin> set qs \<Longrightarrow> create e p s = (r, s') \<Longrightarrow> p' \<noteq> p \<Longrightarrow>
      queues p' s' = queues p' s"
    and destroy_result: "queues p s = Some qs \<Longrightarrow> qp \<in> set qs \<Longrightarrow> up d s \<Longrightarrow> destroy d qp p s = (r, s') \<Longrightarrow>
      queues p s' = Some (filter (\<lambda>x. x \<noteq> qp) qs) \<or> queues p s' = Some qs \<and> \<not> settled r"
    and destroy_others: "queues p s = Some qs \<Longrightarrow> qp \<in> set qs \<Longrightarrow> up d s \<Longrightarrow> destroy d qp p s = (r, s') \<Longrightarrow> p' \<noteq> p \<Longrightarrow>
      queues p' s' = queues p' s"
begin

text \<open>A client that records what it created, and forgets what it was told is gone, agrees with the provider.\<close>

lemma create_tracked:
  assumes "queues p s = Some qs" "addr e \<notin> set qs" "create e p s = (r, s')"
  shows "queues p s' = Some (if r = OK then addr e # qs else qs)" "p' \<noteq> p \<Longrightarrow> queues p' s' = queues p' s"
  using create_result [OF assms] create_others [OF assms] by auto

lemma destroy_settled:
  assumes "queues p s = Some qs" "qp \<in> set qs" "up d s" "destroy d qp p s = (r, s')" "settled r"
  shows "queues p s' = Some (filter (\<lambda>x. x \<noteq> qp) qs)"
  using destroy_result [OF assms(1-4)] assms(5) by auto

lemma create_destroy:
  assumes "queues p s = Some qs" "addr e \<notin> set qs" "create e p s = (OK, s1)" "up d s1"
    "destroy d (addr e) p s1 = (r, s2)" "settled r"
  shows "queues p s2 = Some qs"
proof -
  have "queues p s1 = Some (addr e # qs)" using create_result [OF assms(1-3)] by simp
  from destroy_settled [OF this _ assms(4-6)] have "queues p s2 = Some (filter (\<lambda>x. x \<noteq> addr e) qs)" by simp
  moreover have "filter (\<lambda>x. x \<noteq> addr e) qs = qs" using assms(2) by (intro filter_True) auto
  ultimately show ?thesis by simp
qed

end

text \<open>
  Both scheduling policies keep the contract. Without a hardware scheduler the manager has to run: a stopped one reports
  success and keeps the queue. Waiting for a suspended queue can only be interrupted.
\<close>

definition dqm_up :: "hw_env \<Rightarrow> device_queue_manager \<Rightarrow> bool" where
  "dqm_up env dqm \<longleftrightarrow> (sched_policy dqm = KFD_SCHED_POLICY_NO_HWS \<longrightarrow> sched_running dqm) \<and>
     (he_wait env = OK \<or> he_wait env = Err ERESTARTSYS)"

interpretation dqm: queue_provider linked "\<lambda>(env, q, qd). ops_create_queue env q qd" ops_destroy_queue
    "\<lambda>(env, q, qd). q_ptr q" dqm_up
proof (unfold_locales, goal_cases)
  case (1 p s qs e r s')
  obtain env q qd where "e = (env, q, qd)" by (cases e)
  with 1 ops_create_links [OF 1(1), of q env qd r s'] show ?case by (auto dest: relinks_linked split: if_splits)
next
  case (2 p s qs e r s' p')
  obtain env q qd where "e = (env, q, qd)" by (cases e)
  with 2 ops_create_links [OF 2(1), of q env qd r s'] show ?case by (auto dest: relinks_others)
next
  case (3 p s qs qp d r s')
  with ops_destroy_links [OF 3(1,2,4)] show ?case by (auto simp: dqm_up_def dest: relinks_linked)
next
  case (4 p s qs qp d r s' p')
  with ops_destroy_links [OF 4(1,2,4)] show ?case by (auto simp: dqm_up_def dest: relinks_others)
qed

end
