(* ===== verification/Process_Queue_Manager.thy ===== *)
theory Process_Queue_Manager
  imports Dqm_Links
begin

text \<open>
  The queues of a process over all of its devices: \<^verbatim>\<open>kfd/kfd_process_queue_manager.c\<close>. It gives queues their ids,
  registers the process with the device queue managers, and calls their operations.

  A process has a \<^verbatim>\<open>struct kfd_process_device\<close> per device, which embeds the \<^verbatim>\<open>struct qcm_process_device\<close>. While the
  process is registered with the manager of the device, that structure is the one linked in \<^verbatim>\<open>dqm->queues\<close>; before and
  after, it is kept in \<open>pdd_qpd\<close>. A node of \<^verbatim>\<open>pqm->queues\<close> points to a \<^verbatim>\<open>struct queue\<close>: the node of the model keeps the
  address of the queue and the fields that the process queue manager reads when the queue may not be linked
  any more; everything else of the queue is in the list of the manager. Devices are numbers.

  \<^verbatim>\<open>kzalloc\<close> in \<^verbatim>\<open>register_process\<close> is taken to succeed: the caller ignores its failure, and would go on with a
  process that the manager does not know.
\<close>

section \<open>State\<close>

record process_device =
  pdd_dev :: nat
  pdd_qpd :: qcm_process_device
  proc_ctx_cpu_ptr :: bool
  already_dequeued :: bool

record queue_ref =
  ref_ptr :: nat
  ref_dev :: nat
  ref_qid :: u32
  ref_gws :: bool
  ref_wptr_bo :: bool

record process_queue_node =
  pqn_q :: "queue_ref option"
  pqn_kq :: "(nat \<times> kernel_queue) option"

text \<open>
  \<open>dqms\<close> are the managers of the devices, and \<open>max_no_of_hqd\<close> a field of their \<^verbatim>\<open>device_info\<close>. \<open>gang_ctx_live\<close> counts the
  gang context buffers that are allocated. After \<^verbatim>\<open>pqm_uninit\<close> the bitmap is null, here empty.
\<close>

record process_queue_manager =
  pqm_queues :: "process_queue_node list"
  queue_slot_bitmap :: bitmap
  pdds :: "process_device list"
  dqms :: "nat \<Rightarrow> device_queue_manager"
  max_no_of_hqd :: "nat \<Rightarrow> u32"
  gang_ctx_live :: nat

text \<open>What the memory manager, the firmware and the interrupt handler answer to one call.\<close>

record pqm_env =
  pe_hw :: hw_env
  pe_pd_base :: u64
  pe_proc_ctx :: "errno + u64"
  pe_kz_node :: bool
  pe_kz_queue :: "nat option"
  pe_gang_ctx :: "errno + u64"
  pe_kq_kz :: bool
  pe_kq :: kq_env
  pe_drain :: retval
  pe_gws :: retval
  pe_gws_size :: u32

text \<open>\<^verbatim>\<open>struct kfd_criu_queue_priv_data\<close>, as far as creating a queue uses it.\<close>

record criu_queue_data = criu_queue +
  qd_q_id :: u32

section \<open>Access\<close>

text \<open>\<^verbatim>\<open>kfd_get_process_device_data\<close>\<close>

definition get_pdd :: "nat \<Rightarrow> process_queue_manager \<Rightarrow> process_device option" where
  "get_pdd dev st = find (\<lambda>x. pdd_dev x = dev) (pdds st)"

definition put_pdd :: "process_device \<Rightarrow> process_queue_manager \<Rightarrow> process_queue_manager" where
  "put_pdd pdd st = st\<lparr>pdds := map (\<lambda>x. if pdd_dev x = pdd_dev pdd then pdd else x) (pdds st)\<rparr>"

definition set_dqm :: "nat \<Rightarrow> device_queue_manager \<Rightarrow> process_queue_manager \<Rightarrow> process_queue_manager" where
  "set_dqm dev d st = st\<lparr>dqms := (dqms st)(dev := d)\<rparr>"

definition pdd_ptr :: "process_device \<Rightarrow> nat" where
  "pdd_ptr pdd = qpd_ptr (pdd_qpd pdd)"

definition the_qpd :: "process_device \<Rightarrow> process_queue_manager \<Rightarrow> qcm_process_device" where
  "the_qpd pdd st =
     (case get_qpd (dqms st (pdd_dev pdd)) (pdd_ptr pdd) of Some qpd \<Rightarrow> qpd | None \<Rightarrow> pdd_qpd pdd)"

definition write_qpd :: "process_device \<Rightarrow> qcm_process_device \<Rightarrow> process_queue_manager \<Rightarrow> process_queue_manager" where
  "write_qpd pdd qpd st =
     put_pdd (pdd\<lparr>pdd_qpd := qpd\<rparr>) (set_dqm (pdd_dev pdd) (put_qpd qpd (dqms st (pdd_dev pdd))) st)"

definition no_queues :: "process_device \<Rightarrow> process_queue_manager \<Rightarrow> bool" where
  "no_queues pdd st \<longleftrightarrow> queues_list (the_qpd pdd st) = [] \<and> priv_queue_list (the_qpd pdd st) = []"

definition pqm_register :: "pqm_env \<Rightarrow> process_device \<Rightarrow> process_queue_manager \<Rightarrow> process_queue_manager" where
  "pqm_register env pdd st =
     set_dqm (pdd_dev pdd)
       (snd (register_process True (pe_pd_base env) (the_qpd pdd st) (dqms st (pdd_dev pdd)))) st"

definition pqm_unregister :: "process_device \<Rightarrow> process_queue_manager \<Rightarrow> process_queue_manager" where
  "pqm_unregister pdd st =
     put_pdd (pdd\<lparr>pdd_qpd := the_qpd pdd st\<rparr>)
       (set_dqm (pdd_dev pdd) (snd (unregister_process (pdd_ptr pdd) (dqms st (pdd_dev pdd)))) st)"

section \<open>Queue ids\<close>

definition node_has :: "u32 \<Rightarrow> process_queue_node \<Rightarrow> bool" where
  "node_has qid n \<longleftrightarrow>
     (case pqn_q n of Some r \<Rightarrow> ref_qid r = qid | None \<Rightarrow> False) \<or>
     (case pqn_kq n of Some (_, kq) \<Rightarrow> queue_id (properties (kq_queue kq)) = qid | None \<Rightarrow> False)"

definition get_queue_by_qid :: "u32 \<Rightarrow> process_queue_manager \<Rightarrow> process_queue_node option" where
  "get_queue_by_qid qid st = find (node_has qid) (pqm_queues st)"

text \<open>\<^verbatim>\<open>list_del\<close> of the node that \<^verbatim>\<open>get_queue_by_qid\<close> finds.\<close>

fun list_del_node :: "u32 \<Rightarrow> process_queue_node list \<Rightarrow> process_queue_node list" where
  "list_del_node qid [] = []"
| "list_del_node qid (n # ns) = (if node_has qid n then ns else n # list_del_node qid ns)"

definition assign_queue_slot_by_qid :: "u32 \<Rightarrow> process_queue_manager \<Rightarrow> retval \<times> process_queue_manager" where
  "assign_queue_slot_by_qid qid st =
     (if unat qid \<ge> KFD_MAX_NUM_OF_QUEUES_PER_PROCESS then (Err EINVAL, st)
      else if test_bit (unat qid) (queue_slot_bitmap st) then (Err ENOSPC, st)
      else (OK, st\<lparr>queue_slot_bitmap := set_bit_at (unat qid) (queue_slot_bitmap st)\<rparr>))"

definition find_available_queue_slot :: "process_queue_manager \<Rightarrow> retval \<times> u32 \<times> process_queue_manager" where
  "find_available_queue_slot st =
     (let found = find_first_zero_bit (queue_slot_bitmap st) KFD_MAX_NUM_OF_QUEUES_PER_PROCESS in
      if found \<ge> KFD_MAX_NUM_OF_QUEUES_PER_PROCESS then (Err ENOMEM, 0, st)
      else (OK, of_nat found, st\<lparr>queue_slot_bitmap := set_bit_at found (queue_slot_bitmap st)\<rparr>))"

section \<open>Creating a queue\<close>

definition pqm_init :: "bool \<Rightarrow> process_queue_manager \<Rightarrow> retval \<times> process_queue_manager" where
  "pqm_init zalloc_ok st =
     (if \<not> zalloc_ok then (Err ENOMEM, st\<lparr>pqm_queues := [], queue_slot_bitmap := []\<rparr>)
      else (OK, st\<lparr>pqm_queues := [], queue_slot_bitmap := bitmap_zalloc KFD_MAX_NUM_OF_QUEUES_PER_PROCESS\<rparr>))"

definition init_user_queue ::
    "pqm_env \<Rightarrow> bool \<Rightarrow> queue_properties \<Rightarrow> u64 option \<Rightarrow> u32 \<Rightarrow> errno + queue" where
  "init_user_queue env mes q_properties wptr qid =
     (let props = q_properties\<lparr>doorbell_ptr := None, exception_status := he_ec_queue_new (pe_hw env), vmid := 0,
                               queue_id := qid\<rparr> in
      case init_queue (pe_kz_queue env) props of
        Inl e \<Rightarrow> Inl e
      | Inr q \<Rightarrow>
          (if mes then case pe_gang_ctx env of
               Inl e \<Rightarrow> Inl e
             | Inr a \<Rightarrow> Inr (q\<lparr>gang_ctx_gpu_addr := a, wptr_bo := wptr\<rparr>)
           else Inr q))"

definition pqm_create_user_queue ::
    "pqm_env \<Rightarrow> process_device \<Rightarrow> queue_properties \<Rightarrow> u64 option \<Rightarrow> criu_queue_data option \<Rightarrow> u32 \<Rightarrow>
     process_queue_manager \<Rightarrow> retval \<times> process_queue_node option \<times> process_queue_manager" where
  "pqm_create_user_queue env pdd props wptr qd qid st =
     (let dev = pdd_dev pdd; mes = uses_mes (dqms st dev) in
      case init_user_queue env mes props wptr qid of
        Inl e \<Rightarrow> (Err e, None, st)
      | Inr q \<Rightarrow>
          (case ops_create_queue (pe_hw env) q (map_option criu_queue.truncate qd) (pdd_ptr pdd) (dqms st dev) of
             (r, dqm') \<Rightarrow>
               (r, Some \<lparr>pqn_q = Some \<lparr>ref_ptr = q_ptr q, ref_dev = dev, ref_qid = qid, ref_gws = False,
                                       ref_wptr_bo = (mes \<and> wptr \<noteq> None)\<rparr>, pqn_kq = None\<rparr>,
                set_dqm dev dqm' (st\<lparr>gang_ctx_live := gang_ctx_live st + (if mes then 1 else 0)\<rparr>))))"

text \<open>
  The debug queue; on an error the label \<^verbatim>\<open>err_create_queue\<close> uninitialises the kernel queue.
\<close>

definition pqm_create_diq ::
    "pqm_env \<Rightarrow> process_device \<Rightarrow> u32 \<Rightarrow> process_queue_manager \<Rightarrow>
     retval \<times> process_queue_node option \<times> process_queue_manager" where
  "pqm_create_diq env pdd qid st =
     (let dev = pdd_dev pdd; dqm = dqms st dev in
      case kernel_queue_init (pe_kq_kz env) (pe_kq env) (kfd (dqm_dev dqm)) KFD_QUEUE_TYPE_DIQ of
        (None, d) \<Rightarrow> (Err ENOMEM, None, set_dqm dev (set_kfd d dqm) st)
      | (Some kq, d) \<Rightarrow>
          let kq1 = kq\<lparr>kq_queue := (kq_queue kq)\<lparr>properties := (properties (kq_queue kq))\<lparr>queue_id := qid\<rparr>\<rparr>\<rparr>;
              dqm1 = set_kfd d dqm in
          (case (if pe_drain env \<noteq> OK then (pe_drain env, dqm1)
                 else ops_create_kernel_queue (pe_hw env) (kq_queue kq1) (pdd_ptr pdd) dqm1) of
             (OK, dqm2) \<Rightarrow> (OK, Some \<lparr>pqn_q = None, pqn_kq = Some (dev, kq1)\<rparr>, set_dqm dev dqm2 st)
           | (Err e, dqm2) \<Rightarrow>
               (Err e, None, set_dqm dev (set_kfd (kernel_queue_uninit kq1 (kfd (dqm_dev dqm2))) dqm2) st)))"

definition over_subscribed :: "device_queue_manager \<Rightarrow> bool" where
  "over_subscribed dqm \<longleftrightarrow>
     sched_policy dqm = KFD_SCHED_POLICY_HWS_NO_OVERSUBSCRIPTION \<and>
     (unat (processes_count dqm) \<ge> last_vmid_kfd (dqm_dev dqm) - first_vmid_kfd (dqm_dev dqm) + 1 \<or>
      unat (active_queue_count dqm) \<ge> get_cp_queues_num dqm)"

text \<open>The \<^verbatim>\<open>switch\<close> over the type of the queue.\<close>

definition pqm_create_by_type ::
    "pqm_env \<Rightarrow> process_device \<Rightarrow> queue_properties \<Rightarrow> u64 option \<Rightarrow> criu_queue_data option \<Rightarrow> u32 \<Rightarrow>
     process_queue_manager \<Rightarrow> retval \<times> process_queue_node option \<times> process_queue_manager" where
  "pqm_create_by_type env pdd props wptr qd qid st =
     (if is_sdma_type (qtype props) then pqm_create_user_queue env pdd props wptr qd qid st
      else if qtype props = KFD_QUEUE_TYPE_COMPUTE then
        (if over_subscribed (dqms st (pdd_dev pdd)) then (Err EPERM, None, st)
         else pqm_create_user_queue env pdd props wptr qd qid st)
      else if qtype props = KFD_QUEUE_TYPE_DIQ then pqm_create_diq env pdd qid st
      else (Err EINVAL, None, st))"

text \<open>The limit on the number of queues of a process on the device.\<close>

definition max_queues :: "process_queue_manager \<Rightarrow> nat \<Rightarrow> qcm_process_device \<Rightarrow> kfd_queue_type \<Rightarrow> u32" where
  "max_queues st dev qpd ty =
     (if is_debug qpd \<or> ty = KFD_QUEUE_TYPE_DIQ then max_no_of_hqd st dev div 2
      else if gc_version (dqm_dev (dqms st dev)) = IP_VERSION 9 4 3 then 255 else 127)"

text \<open>The process context, which MES needs and which is allocated once.\<close>

definition pqm_proc_ctx :: "pqm_env \<Rightarrow> process_device \<Rightarrow> process_queue_manager \<Rightarrow> errno + process_queue_manager" where
  "pqm_proc_ctx env pdd st =
     (if \<not> proc_ctx_cpu_ptr pdd \<and> uses_mes (dqms st (pdd_dev pdd)) then
        (case pe_proc_ctx env of
           Inl e \<Rightarrow> Inl e
         | Inr a \<Rightarrow> Inr (write_qpd (pdd\<lparr>proc_ctx_cpu_ptr := True\<rparr>) ((the_qpd pdd st)\<lparr>proc_ctx_gpu_addr := a\<rparr>) st))
      else Inr st)"

text \<open>The label \<^verbatim>\<open>err_allocate_pqn\<close>.\<close>

definition pqm_create_fail :: "nat \<Rightarrow> u32 \<Rightarrow> process_queue_manager \<Rightarrow> process_queue_manager" where
  "pqm_create_fail dev qid st =
     (let st1 = st\<lparr>queue_slot_bitmap := clear_bit_at (unat qid) (queue_slot_bitmap st)\<rparr> in
      case get_pdd dev st1 of
        None \<Rightarrow> st1
      | Some pdd \<Rightarrow> if no_queues pdd st1 then pqm_unregister pdd st1 else st1)"

text \<open>The doorbell's offset in the process's page, in bytes.\<close>

definition doorbell_offset_in_process :: "process_device \<Rightarrow> process_queue_node \<Rightarrow> process_queue_manager \<Rightarrow> u32" where
  "doorbell_offset_in_process pdd n st =
     (case pqn_q n of
        None \<Rightarrow> 0
      | Some r \<Rightarrow>
          (case (find_queue (ref_ptr r) (the_qpd pdd st), proc_doorbells (the_qpd pdd st)) of
             (Some q, Some bo) \<Rightarrow>
               (doorbell_off (properties q) -
                amdgpu_doorbell_index_on_bar bo 0 (doorbell_size (kfd (dqm_dev (dqms st (pdd_dev pdd)))))) * 4
           | _ \<Rightarrow> 0))"

definition pqm_take_slot :: "criu_queue_data option \<Rightarrow> process_queue_manager \<Rightarrow> retval \<times> u32 \<times> process_queue_manager" where
  "pqm_take_slot qd st =
     (case qd of
        Some d \<Rightarrow> (case assign_queue_slot_by_qid (qd_q_id d) st of (r, st1) \<Rightarrow> (r, qd_q_id d, st1))
      | None \<Rightarrow> find_available_queue_slot st)"

text \<open>Result: the code, the queue id, the doorbell offset, and the state. \<^verbatim>\<open>-1\<close> is \<open>EPERM\<close>.\<close>

definition pqm_create_queue ::
    "pqm_env \<Rightarrow> nat \<Rightarrow> queue_properties \<Rightarrow> u64 option \<Rightarrow> criu_queue_data option \<Rightarrow> process_queue_manager \<Rightarrow>
     retval \<times> u32 \<times> u32 \<times> process_queue_manager" where
  "pqm_create_queue env dev props wptr qd st =
     (case get_pdd dev st of
        None \<Rightarrow> (Err EPERM, 0, 0, st)
      | Some pdd \<Rightarrow>
          (if queue_count (the_qpd pdd st) \<ge> max_queues st dev (the_qpd pdd st) (qtype props) then (Err ENOSPC, 0, 0, st)
           else case pqm_take_slot qd st of
               (Err e, qid, st1) \<Rightarrow> (Err e, qid, 0, st1)
             | (OK, qid, st1) \<Rightarrow>
                 let st2 = (if no_queues pdd st1 then pqm_register env pdd st1 else st1) in
                 (case pqm_proc_ctx env pdd st2 of
                    Inl e \<Rightarrow> (Err e, qid, 0, st2)
                  | Inr st3 \<Rightarrow>
                      (if \<not> pe_kz_node env then (Err ENOMEM, qid, 0, pqm_create_fail dev qid st3)
                       else case pqm_create_by_type env pdd props wptr qd qid st3 of
                           (OK, Some n, st4) \<Rightarrow>
                             (OK, qid, doorbell_offset_in_process pdd n st4, st4\<lparr>pqm_queues := n # pqm_queues st4\<rparr>)
                         | (OK, None, st4) \<Rightarrow> (Err OOPS, qid, 0, st4)
                         | (Err e, _, st4) \<Rightarrow> (Err e, qid, 0, pqm_create_fail dev qid st4)))))"

section \<open>Destroying a queue\<close>

definition pqm_clean_queue_resource :: "queue_ref \<Rightarrow> process_queue_manager \<Rightarrow> process_queue_manager" where
  "pqm_clean_queue_resource r st =
     (case get_pdd (ref_dev r) st of
        None \<Rightarrow> st
      | Some pdd \<Rightarrow>
          let st1 = (if ref_gws r then write_qpd pdd ((the_qpd pdd st)\<lparr>num_gws := 0\<rparr>) st else st)
          in if uses_mes (dqms st1 (ref_dev r)) then st1\<lparr>gang_ctx_live := gang_ctx_live st1 - 1\<rparr> else st1)"

definition node_dev :: "process_queue_node \<Rightarrow> nat option" where
  "node_dev n = (case pqn_q n of Some r \<Rightarrow> Some (ref_dev r) | None \<Rightarrow> map_option fst (pqn_kq n))"

definition pqm_destroy_diq ::
    "pqm_env \<Rightarrow> process_device \<Rightarrow> process_queue_node \<Rightarrow> process_queue_manager \<Rightarrow> process_queue_manager" where
  "pqm_destroy_diq env pdd n st =
     (case pqn_kq n of
        None \<Rightarrow> st
      | Some (dev, kq) \<Rightarrow>
          let dqm1 = snd (ops_destroy_kernel_queue (pe_hw env) (kq_queue kq) (pdd_ptr pdd) (dqms st dev))
          in set_dqm dev (set_kfd (kernel_queue_uninit kq (kfd (dqm_dev dqm1))) dqm1) st)"

text \<open>The part after the queue is gone from the manager: the node, the id, and with the last queue the registration.\<close>

definition pqm_forget :: "nat \<Rightarrow> u32 \<Rightarrow> process_queue_manager \<Rightarrow> process_queue_manager" where
  "pqm_forget dev qid st =
     (let st1 = st\<lparr>pqm_queues := list_del_node qid (pqm_queues st),
                   queue_slot_bitmap := clear_bit_at (unat qid) (queue_slot_bitmap st)\<rparr> in
      case get_pdd dev st1 of
        None \<Rightarrow> st1
      | Some pdd \<Rightarrow> if no_queues pdd st1 then pqm_unregister pdd st1 else st1)"

definition pqm_destroy_queue :: "pqm_env \<Rightarrow> u32 \<Rightarrow> process_queue_manager \<Rightarrow> retval \<times> process_queue_manager" where
  "pqm_destroy_queue env qid st =
     (case get_queue_by_qid qid st of
        None \<Rightarrow> (Err EINVAL, st)
      | Some n \<Rightarrow>
          (case node_dev n of
             None \<Rightarrow> (Err ENODEV, st)
           | Some dev \<Rightarrow>
               (case get_pdd dev st of
                  None \<Rightarrow> (Err EPERM, st)
                | Some pdd \<Rightarrow>
                    let st1 = pqm_destroy_diq env pdd n st in
                    (case pqn_q n of
                       None \<Rightarrow> (OK, pqm_forget dev qid st1)
                     | Some r \<Rightarrow>
                         (case ops_destroy_queue (pe_hw env) (ref_ptr r) (pdd_ptr pdd) (dqms st1 dev) of
                            (rv, dqm') \<Rightarrow>
                              let st2 = set_dqm dev dqm' st1 in
                              if rv \<noteq> OK \<and> rv \<noteq> Err ETIME \<and> rv \<noteq> Err EIO then (rv, st2)
                              else (rv, pqm_forget dev qid (pqm_clean_queue_resource r st2)))))))"

section \<open>Updating a queue\<close>

text \<open>
  Writing the fields of a queue through its node, and calling \<^verbatim>\<open>update_queue\<close>. A node without a user queue has a null
  pointer.
\<close>

definition pqm_write_queue ::
    "(queue \<Rightarrow> queue) \<Rightarrow> process_device \<Rightarrow> nat \<Rightarrow> process_queue_manager \<Rightarrow> process_queue_manager" where
  "pqm_write_queue f pdd qp st =
     (case find_queue qp (the_qpd pdd st) of
        None \<Rightarrow> st
      | Some q \<Rightarrow>
          set_dqm (pdd_dev pdd) (put_qpd (put_queue (f q) (the_qpd pdd st)) (dqms st (pdd_dev pdd))) st)"

definition pqm_call_update :: "pqm_env \<Rightarrow> process_device \<Rightarrow> nat \<Rightarrow> process_queue_manager \<Rightarrow> retval \<times> process_queue_manager" where
  "pqm_call_update env pdd qp st =
     (case update_queue (pe_hw env) qp (pdd_ptr pdd) (dqms st (pdd_dev pdd)) of
        (r, dqm') \<Rightarrow> (r, set_dqm (pdd_dev pdd) dqm' st))"

text \<open>The user queue of an id, with its device: common head of the operations below.\<close>

definition with_user_queue ::
    "errno \<Rightarrow> u32 \<Rightarrow> process_queue_manager \<Rightarrow> (queue_ref \<Rightarrow> process_device \<Rightarrow> retval \<times> process_queue_manager) \<Rightarrow>
     retval \<times> process_queue_manager" where
  "with_user_queue e qid st f =
     (case get_queue_by_qid qid st of
        None \<Rightarrow> (Err e, st)
      | Some n \<Rightarrow>
          (case pqn_q n of
             None \<Rightarrow> (Err OOPS, st)
           | Some r \<Rightarrow> (case get_pdd (ref_dev r) st of None \<Rightarrow> (Err ENODEV, st) | Some pdd \<Rightarrow> f r pdd)))"

definition set_properties :: "queue_properties \<Rightarrow> queue \<Rightarrow> queue" where
  "set_properties p q =
     q\<lparr>properties := (properties q)\<lparr>queue_address := queue_address p, queue_size := queue_size p,
         queue_percent := queue_percent p, priority := priority p, pm4_target_xcc := pm4_target_xcc p\<rparr>\<rparr>"

definition pqm_update_queue_properties ::
    "pqm_env \<Rightarrow> u32 \<Rightarrow> queue_properties \<Rightarrow> process_queue_manager \<Rightarrow> retval \<times> process_queue_manager" where
  "pqm_update_queue_properties env qid p st =
     with_user_queue EFAULT qid st (\<lambda>r pdd.
       pqm_call_update env pdd (ref_ptr r) (pqm_write_queue (set_properties p) pdd (ref_ptr r) st))"

text \<open>CUs of a WGP are enabled in pairs; the loop goes over the mask in steps of two.\<close>

definition cu_pairs_ok :: "u32 list \<Rightarrow> nat \<Rightarrow> bool" where
  "cu_pairs_ok cu_mask count \<longleftrightarrow>
     list_all (\<lambda>k. let cu_pair = drop_bit (2 * k mod 32) (cu_mask ! (2 * k div 32)) AND 3
                   in cu_pair = 0 \<or> cu_pair = 3) [0..<(count + 1) div 2]"

text \<open>\<open>minfo\<close>: the CU mask with its length in bits, if there is one.\<close>

definition pqm_update_mqd ::
    "pqm_env \<Rightarrow> u32 \<Rightarrow> (u32 list \<times> nat) option \<Rightarrow> process_queue_manager \<Rightarrow> retval \<times> process_queue_manager" where
  "pqm_update_mqd env qid minfo st =
     with_user_queue EFAULT qid st (\<lambda>r pdd.
       case find_queue (ref_ptr r) (the_qpd pdd st) of
         None \<Rightarrow> (Err OOPS, st)
       | Some q \<Rightarrow>
           if is_dbg_wa (properties q) \<and> minfo \<noteq> None then (Err EBUSY, st)
           else if gc_version (dqm_dev (dqms st (ref_dev r))) \<ge> IP_VERSION 10 0 0 \<and>
                   (case minfo of None \<Rightarrow> False | Some (m, count) \<Rightarrow> \<not> cu_pairs_ok m count)
           then (Err EINVAL, st)
           else case pqm_call_update env pdd (ref_ptr r) st of
               (Err e, st1) \<Rightarrow> (Err e, st1)
             | (OK, st1) \<Rightarrow>
                 (OK, if minfo = None then st1
                      else pqm_write_queue (\<lambda>q. q\<lparr>properties := (properties q)\<lparr>is_user_cu_masked := True\<rparr>\<rparr>)
                             pdd (ref_ptr r) st1))"

text \<open>
  \<^verbatim>\<open>pqm_set_gws\<close>: \<open>gws\<close> is whether global wave sync is wanted. \<open>gws_of\<close> is the pointer that is stored in the queue: a
  buffer, or a value that only is not null.
\<close>

definition set_ref_gws :: "u32 \<Rightarrow> bool \<Rightarrow> process_queue_node \<Rightarrow> process_queue_node" where
  "set_ref_gws qid b n =
     (case pqn_q n of
        Some r \<Rightarrow> if ref_qid r = qid then n\<lparr>pqn_q := Some (r\<lparr>ref_gws := b\<rparr>)\<rparr> else n
      | None \<Rightarrow> n)"

definition pqm_set_gws :: "pqm_env \<Rightarrow> u32 \<Rightarrow> u64 option \<Rightarrow> process_queue_manager \<Rightarrow> retval \<times> process_queue_manager" where
  "pqm_set_gws env qid gws_of st =
     (case get_queue_by_qid qid st of
        None \<Rightarrow> (Err EINVAL, st)
      | Some n \<Rightarrow>
          (case pqn_q n of
             None \<Rightarrow> (Err ENODEV, st)
           | Some r \<Rightarrow>
               (case get_pdd (ref_dev r) st of
                  None \<Rightarrow> (Err EINVAL, st)
                | Some pdd \<Rightarrow>
                    let qpd = the_qpd pdd st; dqm = dqms st (ref_dev r) in
                    if gws_of \<noteq> None \<and> num_gws qpd \<noteq> 0 then (Err EBUSY, st)
                    else if gws_of = None \<and> num_gws qpd = 0 then (Err EINVAL, st)
                    else if gc_version (dqm_dev dqm) \<noteq> IP_VERSION 9 4 3 \<and> \<not> uses_mes dqm \<and> pe_gws env \<noteq> OK
                    then (pe_gws env, st)
                    else
                      let st1 = pqm_write_queue (\<lambda>q. q\<lparr>gws := gws_of\<rparr>) pdd (ref_ptr r) st;
                          st2 = st1\<lparr>pqm_queues := map (set_ref_gws qid (gws_of \<noteq> None)) (pqm_queues st1)\<rparr>;
                          st3 = write_qpd pdd ((the_qpd pdd st2)\<lparr>num_gws := if gws_of \<noteq> None then pe_gws_size env else 0\<rparr>) st2
                      in pqm_call_update env pdd (ref_ptr r) st3)))"

definition pqm_get_kernel_queue :: "u32 \<Rightarrow> process_queue_manager \<Rightarrow> kernel_queue option" where
  "pqm_get_kernel_queue qid st =
     (case get_queue_by_qid qid st of Some n \<Rightarrow> map_option snd (pqn_kq n) | None \<Rightarrow> None)"

definition pqm_get_user_queue :: "u32 \<Rightarrow> process_queue_manager \<Rightarrow> queue_ref option" where
  "pqm_get_user_queue qid st = (case get_queue_by_qid qid st of Some n \<Rightarrow> pqn_q n | None \<Rightarrow> None)"

section \<open>The end of a process\<close>

text \<open>
  \<^verbatim>\<open>kfd_process_dequeue_from_device\<close>; \<open>None\<close> is a termination that never returns. The operation \<^verbatim>\<open>process_termination\<close> of the
  manager is \<^verbatim>\<open>process_termination_nocpsch\<close>, written out here since its argument need not be registered, or
  \<^verbatim>\<open>process_termination_cpsch\<close>. Flushing the shader debugger is a request to the firmware only.
\<close>

definition kfd_process_dequeue_from_device ::
    "pqm_env \<Rightarrow> process_device \<Rightarrow> process_queue_manager \<Rightarrow> process_queue_manager option" where
  "kfd_process_dequeue_from_device env pdd st =
     (if already_dequeued pdd then Some st
      else
        let dev = pdd_dev pdd; dqm = dqms st dev; mark = (\<lambda>q. pdd\<lparr>pdd_qpd := q, already_dequeued := True\<rparr>) in
        if sched_policy dqm = KFD_SCHED_POLICY_NO_HWS then
          (case clear_queues_nocpsch (pe_hw env) OK dqm (the_qpd pdd st) of
             None \<Rightarrow> None
           | Some (_, dqm1, qpd1) \<Rightarrow>
               Some (put_pdd (mark qpd1) (set_dqm dev (snd (unregister_process (pdd_ptr pdd) (put_qpd qpd1 dqm1))) st)))
        else case process_termination_cpsch (pe_hw env) (the_qpd pdd st) dqm of
            (_, dqm', qpd') \<Rightarrow> Some (put_pdd (mark qpd') (set_dqm dev dqm' st)))"

fun kfd_process_dequeue_from_all_devices ::
    "pqm_env \<Rightarrow> process_device list \<Rightarrow> process_queue_manager \<Rightarrow> process_queue_manager option" where
  "kfd_process_dequeue_from_all_devices env [] st = Some st"
| "kfd_process_dequeue_from_all_devices env (pdd # ps) st =
     (case kfd_process_dequeue_from_device env pdd st of
        None \<Rightarrow> None
      | Some st1 \<Rightarrow> kfd_process_dequeue_from_all_devices env ps st1)"

fun pqm_uninit_nodes :: "process_queue_node list \<Rightarrow> process_queue_manager \<Rightarrow> process_queue_manager" where
  "pqm_uninit_nodes [] st = st"
| "pqm_uninit_nodes (n # ns) st =
     pqm_uninit_nodes ns
       (let st1 = (case pqn_q n of Some r \<Rightarrow> pqm_clean_queue_resource r st | None \<Rightarrow> st)
        in st1\<lparr>pqm_queues := ns\<rparr>)"

definition pqm_uninit :: "process_queue_manager \<Rightarrow> process_queue_manager" where
  "pqm_uninit st = (pqm_uninit_nodes (pqm_queues st) st)\<lparr>queue_slot_bitmap := []\<rparr>"

end
