(* ===== verification/Pqm_Invariant.thy ===== *)
theory Pqm_Invariant
  imports Process_Queue_Manager
begin

text \<open>
  Queue ids and queues belong together: the invariant of the process queue manager over all devices of a process, and
  what creation and destruction do to it. The proofs use the contract of the device queue managers
  from \<open>Dqm_Links\<close> only.
\<close>

section \<open>Invariant\<close>

definition node_qid :: "process_queue_node \<Rightarrow> u32" where
  "node_qid n = (case pqn_q n of
     Some r \<Rightarrow> ref_qid r
   | None \<Rightarrow> (case pqn_kq n of Some (_, kq) \<Rightarrow> queue_id (properties (kq_queue kq)) | None \<Rightarrow> 0))"

definition node_wf :: "process_queue_node \<Rightarrow> bool" where
  "node_wf n \<longleftrightarrow> (pqn_q n = None) \<noteq> (pqn_kq n = None)"

text \<open>Ids are distinct, below the limit, and their bits are those that are set.\<close>

definition ids_wf :: "process_queue_node list \<Rightarrow> bitmap \<Rightarrow> bool" where
  "ids_wf ns bm \<longleftrightarrow> length bm = KFD_MAX_NUM_OF_QUEUES_PER_PROCESS \<and> (\<forall>n \<in> set ns. node_wf n) \<and>
     distinct (map node_qid ns) \<and> bits_of bm = unat ` node_qid ` set ns"

text \<open>The addresses of the user queues on a device, in the order of the nodes.\<close>

definition refs :: "nat \<Rightarrow> process_queue_node list \<Rightarrow> nat list" where
  "refs dev ns = map ref_ptr (filter (\<lambda>r. ref_dev r = dev) (List.map_filter pqn_q ns))"

text \<open>
  A device agrees with the nodes: the process is registered exactly while it has queues, and the user queues that the
  manager holds for it are those of the nodes.
\<close>

definition dev_ok :: "nat \<Rightarrow> device_queue_manager \<Rightarrow> qcm_process_device \<Rightarrow> nat list \<Rightarrow> bool" where
  "dev_ok p dqm qpd0 rs \<longleftrightarrow> distinct (map qpd_ptr (dqm_queues dqm)) \<and> distinct rs \<and>
     (case get_qpd dqm p of
        None \<Rightarrow> rs = [] \<and> queues_list qpd0 = [] \<and> priv_queue_list qpd0 = []
      | Some qpd \<Rightarrow> map q_ptr (queues_list qpd) = rs \<and> (queues_list qpd \<noteq> [] \<or> priv_queue_list qpd \<noteq> []))"

definition pqm_inv :: "process_queue_manager \<Rightarrow> bool" where
  "pqm_inv st \<longleftrightarrow> ids_wf (pqm_queues st) (queue_slot_bitmap st) \<and>
     (\<forall>dev pdd. get_pdd dev st = Some pdd \<longrightarrow>
        dev_ok (pdd_ptr pdd) (dqms st dev) (pdd_qpd pdd) (refs dev (pqm_queues st))) \<and>
     (\<forall>n r. n \<in> set (pqm_queues st) \<longrightarrow> pqn_q n = Some r \<longrightarrow> get_pdd (ref_dev r) st \<noteq> None)"

subsection \<open>Ids\<close>

lemma node_has_iff: "node_wf n \<Longrightarrow> node_has qid n \<longleftrightarrow> node_qid n = qid"
  by (auto simp: node_wf_def node_has_def node_qid_def split: option.splits)

lemma set_list_del_node:
  assumes "\<forall>n \<in> set ns. node_wf n" "distinct (map node_qid ns)"
  shows "list_del_node qid ns = filter (\<lambda>n. node_qid n \<noteq> qid) ns"
  using assms
proof (induction ns)
  case (Cons n ns)
  show ?case
  proof (cases "node_qid n = qid")
    case True
    with Cons.prems have "filter (\<lambda>n. node_qid n \<noteq> qid) ns = ns" by (intro filter_True) (auto simp: image_iff)
    with True Cons.prems show ?thesis by (simp add: node_has_iff)
  next
    case False
    with Cons show ?thesis by (simp add: node_has_iff)
  qed
qed simp

lemma get_queue_by_qid_Some:
  "get_queue_by_qid qid st = Some n \<Longrightarrow> n \<in> set (pqm_queues st) \<and> node_has qid n"
  by (auto simp: get_queue_by_qid_def find_Some_iff)

text \<open>A slot that is handed out was free, and the bitmap gets its bit.\<close>

lemma take_slot_ok:
  assumes "pqm_take_slot qd st = (OK, qid, st')" "length (queue_slot_bitmap st) = 1024"
  shows "unat qid < 1024" "\<not> test_bit (unat qid) (queue_slot_bitmap st)"
    "st' = st\<lparr>queue_slot_bitmap := set_bit_at (unat qid) (queue_slot_bitmap st)\<rparr>"
    "\<And>d. qd = Some d \<Longrightarrow> qid = qd_q_id d"
    "qd = None \<Longrightarrow> \<forall>i < unat qid. test_bit i (queue_slot_bitmap st)"
proof -
  let ?bm = "queue_slot_bitmap st" and ?f = "find_first_zero_bit (queue_slot_bitmap st) 1024"
  have *: "unat qid < 1024 \<and> \<not> test_bit (unat qid) ?bm \<and>
      st' = st\<lparr>queue_slot_bitmap := set_bit_at (unat qid) ?bm\<rparr> \<and> (\<forall>d. qd = Some d \<longrightarrow> qid = qd_q_id d) \<and>
      (qd = None \<longrightarrow> (\<forall>i < unat qid. test_bit i ?bm))"
  proof (cases qd)
    case None
    with assms(1) have f: "?f < 1024" "qid = of_nat ?f" "st' = st\<lparr>queue_slot_bitmap := set_bit_at ?f ?bm\<rparr>"
      by (auto simp: pqm_take_slot_def find_available_queue_slot_def Let_def split: if_splits)
    then have "unat qid = ?f" by (simp add: unat_of_nat_small)
    with f find_first_zero_bit_least [OF f(1)] None show ?thesis by simp
  next
    case (Some d)
    with assms(1) show ?thesis
      by (auto simp: pqm_take_slot_def assign_queue_slot_by_qid_def split: if_splits)
  qed
  then show "unat qid < 1024" "\<not> test_bit (unat qid) ?bm"
    "st' = st\<lparr>queue_slot_bitmap := set_bit_at (unat qid) ?bm\<rparr>"
    "\<And>d. qd = Some d \<Longrightarrow> qid = qd_q_id d" "qd = None \<Longrightarrow> \<forall>i < unat qid. test_bit i ?bm" by auto
qed

lemma take_slot_fail: "pqm_take_slot qd st = (Err e, qid, st') \<Longrightarrow> st' = st"
  by (auto simp: pqm_take_slot_def find_available_queue_slot_def assign_queue_slot_by_qid_def Let_def
      split: option.splits if_splits)

lemma ids_wf_add:
  assumes "ids_wf ns bm" "\<not> test_bit (unat (node_qid n)) bm" "unat (node_qid n) < 1024" "node_wf n"
  shows "ids_wf (n # ns) (set_bit_at (unat (node_qid n)) bm)"
proof -
  have "unat (node_qid n) \<notin> bits_of bm" using assms(2) by (simp add: bitmap_simps)
  then have "node_qid n \<notin> node_qid ` set ns" using assms(1) by (auto simp: ids_wf_def)
  with assms show ?thesis by (auto simp: ids_wf_def bits_of_set_bit_at)
qed

lemma ids_wf_del:
  assumes "ids_wf ns bm"
  shows "ids_wf (list_del_node qid ns) (clear_bit_at (unat qid) bm)"
proof -
  have "list_del_node qid ns = filter (\<lambda>n. node_qid n \<noteq> qid) ns"
    using assms by (intro set_list_del_node) (auto simp: ids_wf_def)
  then show ?thesis using assms 
    by (auto simp: ids_wf_def bits_of_clear_bit_at distinct_map_filter word_unat_eq_iff)
qed

subsection \<open>Devices\<close>

lemma get_put_pdd:
  "get_pdd dev (put_pdd pdd st) = (if dev = pdd_dev pdd \<and> get_pdd dev st \<noteq> None then Some pdd else get_pdd dev st)"
proof -
  have "find (\<lambda>x. pdd_dev x = dev) (map (\<lambda>x. if pdd_dev x = pdd_dev pdd then pdd else x) xs) =
      (if dev = pdd_dev pdd \<and> find (\<lambda>x. pdd_dev x = dev) xs \<noteq> None then Some pdd
       else find (\<lambda>x. pdd_dev x = dev) xs)" for xs
    by (induction xs) auto
  then show ?thesis by (auto simp: get_pdd_def put_pdd_def)
qed

lemma get_pdd_dev: "get_pdd dev st = Some pdd \<Longrightarrow> pdd_dev pdd = dev"
  by (auto simp: get_pdd_def find_Some_iff)

lemma pqm_simps [simp]:
  "dqms (put_pdd pdd st) = dqms st" "pqm_queues (put_pdd pdd st) = pqm_queues st"
  "queue_slot_bitmap (put_pdd pdd st) = queue_slot_bitmap st" "get_pdd dev (set_dqm dev' d st) = get_pdd dev st"
  "dqms (set_dqm dev' d st) = (dqms st)(dev' := d)" "pqm_queues (set_dqm dev' d st) = pqm_queues st"
  "queue_slot_bitmap (set_dqm dev' d st) = queue_slot_bitmap st"
  "get_pdd dev (st\<lparr>queue_slot_bitmap := bm\<rparr>) = get_pdd dev st" "get_pdd dev (st\<lparr>pqm_queues := ns\<rparr>) = get_pdd dev st"
  "get_pdd dev (st\<lparr>gang_ctx_live := c\<rparr>) = get_pdd dev st"
  "the_qpd pdd (st\<lparr>queue_slot_bitmap := bm\<rparr>) = the_qpd pdd st" "the_qpd pdd (st\<lparr>pqm_queues := ns\<rparr>) = the_qpd pdd st"
  "no_queues pdd (st\<lparr>queue_slot_bitmap := bm\<rparr>) = no_queues pdd st"
  "no_queues pdd (st\<lparr>pqm_queues := ns\<rparr>) = no_queues pdd st"
  by (simp_all add: put_pdd_def set_dqm_def get_pdd_def the_qpd_def no_queues_def)

text \<open>A step on one device: nothing else changes, and the device keeps its address for the process.\<close>

definition only_dev :: "nat \<Rightarrow> process_queue_manager \<Rightarrow> process_queue_manager \<Rightarrow> bool" where
  "only_dev dev st st' \<longleftrightarrow> pqm_queues st' = pqm_queues st \<and> queue_slot_bitmap st' = queue_slot_bitmap st \<and>
     (\<forall>d. d \<noteq> dev \<longrightarrow> dqms st' d = dqms st d \<and> get_pdd d st' = get_pdd d st) \<and>
     map_option pdd_ptr (get_pdd dev st') = map_option pdd_ptr (get_pdd dev st)"

lemma only_dev_refl [simp]: "only_dev dev st st" by (simp add: only_dev_def)

lemma only_dev_trans [trans]: "only_dev dev a b \<Longrightarrow> only_dev dev b c \<Longrightarrow> only_dev dev a c"
  by (simp add: only_dev_def)

lemma only_dev_set_dqm: "only_dev dev st (set_dqm dev d st)"
  by (simp add: only_dev_def)

lemma only_dev_put:
  assumes "get_pdd dev st = Some pdd" "pdd_dev pdd' = dev" "pdd_ptr pdd' = pdd_ptr pdd"
  shows "only_dev dev st (put_pdd pdd' st)"
  using assms by (auto simp: only_dev_def get_put_pdd)

lemma only_dev_ctx: "only_dev dev st (st\<lparr>gang_ctx_live := c\<rparr>)"
  by (simp add: only_dev_def)

text \<open>The process is registered with the device, with the user queues \<open>rs\<close>.\<close>

definition registered :: "nat \<Rightarrow> nat list \<Rightarrow> process_queue_manager \<Rightarrow> bool" where
  "registered dev rs st \<longleftrightarrow> (\<exists>pdd. get_pdd dev st = Some pdd \<and> distinct (map qpd_ptr (dqm_queues (dqms st dev))) \<and>
     linked (pdd_ptr pdd) (dqms st dev) = Some rs)"

definition consistent :: "nat \<Rightarrow> nat list \<Rightarrow> process_queue_manager \<Rightarrow> bool" where
  "consistent dev rs st \<longleftrightarrow> (\<exists>pdd. get_pdd dev st = Some pdd \<and> dev_ok (pdd_ptr pdd) (dqms st dev) (pdd_qpd pdd) rs)"

lemma registered_consistent: "registered dev rs st \<Longrightarrow> rs \<noteq> [] \<Longrightarrow> distinct rs \<Longrightarrow> consistent dev rs st"
  by (fastforce simp: registered_def consistent_def dev_ok_def linked_def)

lemma relinks_ptrs: "relinks p rs d d' \<Longrightarrow> map qpd_ptr (dqm_queues d') = map qpd_ptr (dqm_queues d)"
  by (auto simp: relinks_def)

lemma registered_relinks:
  assumes "registered dev rs st" "get_pdd dev st = Some pdd" "relinks (pdd_ptr pdd) rs' (dqms st dev) d'"
  shows "registered dev rs' (set_dqm dev d' st)"
  using assms relinks_linked [OF assms(3)] relinks_ptrs [OF assms(3)] by (auto simp: registered_def)

lemma get_qpd_None: "get_qpd d p = None \<longleftrightarrow> p \<notin> qpd_ptr ` set (dqm_queues d)"
  by (force simp: get_qpd_def find_None_iff)

lemma the_qpd_ptr: "qpd_ptr (the_qpd pdd st) = pdd_ptr pdd"
  using get_qpd_Some by (auto simp: the_qpd_def pdd_ptr_def split: option.splits)

text \<open>Registering the process with its first queue.\<close>

lemma register_first:
  fixes env :: pqm_env
  assumes "consistent dev rs st" "get_pdd dev st = Some pdd"
  defines "st' \<equiv> (if no_queues pdd st then pqm_register env pdd st else st)"
  shows "registered dev rs st'" "only_dev dev st st'"
proof -
  have d: "pdd_dev pdd = dev" using get_pdd_dev [OF assms(2)] .
  have ok: "dev_ok (pdd_ptr pdd) (dqms st dev) (pdd_qpd pdd) rs" using assms(1,2) by (auto simp: consistent_def)
  show "only_dev dev st st'" using d by (auto simp: st'_def pqm_register_def intro: only_dev_set_dqm)
  show "registered dev rs st'"
  proof (cases "get_qpd (dqms st dev) (pdd_ptr pdd)")
    case (Some qpd)
    with ok d have "\<not> no_queues pdd st" by (auto simp: no_queues_def the_qpd_def dev_ok_def)
    with ok Some assms(2) show ?thesis by (auto simp: st'_def registered_def dev_ok_def linked_def)
  next
    case None
    with ok d have n: "no_queues pdd st" "the_qpd pdd st = pdd_qpd pdd" "rs = []"
      by (auto simp: no_queues_def the_qpd_def dev_ok_def)
    obtain r qpd1 where u: "update_qpd (dqms st dev) ((pdd_qpd pdd)\<lparr>page_table_base := pe_pd_base env\<rparr>) = (r, qpd1)"
      by fastforce
    have v: "qview qpd1 = qview (pdd_qpd pdd)" using update_qpd_frame [OF u] by simp
    have E: "dqm_queues (dqms st' dev) = qpd1 # dqm_queues (dqms st dev)"
      using n d u by (simp add: st'_def pqm_register_def register_process_def)
    have "pdd_ptr pdd \<notin> qpd_ptr ` set (dqm_queues (dqms st dev))" using None by (simp add: get_qpd_None)
    moreover have "queues_list qpd1 = []" "qpd_ptr qpd1 = pdd_ptr pdd"
      using v ok None by (auto simp: qview_def dev_ok_def pdd_ptr_def)
    moreover have "get_pdd dev st' = Some pdd" using assms(2) by (simp add: st'_def pqm_register_def)
    ultimately show ?thesis using E ok n(3) by (auto simp: registered_def linked_def get_qpd_def dev_ok_def)
  qed
qed

text \<open>Writing other fields of the process keeps its registration.\<close>

lemma write_qpd_registered:
  assumes "registered dev rs st" "get_pdd dev st = Some pdd" "pdd_dev pdd' = dev" "pdd_ptr pdd' = pdd_ptr pdd"
    "qpd_ptr qpd = pdd_ptr pdd" "map q_ptr (queues_list qpd) = rs"
  shows "registered dev rs (write_qpd pdd' qpd st)" "only_dev dev st (write_qpd pdd' qpd st)"
proof -
  have l: "linked (pdd_ptr pdd) (put_qpd qpd (dqms st dev)) = Some rs"
    using assms by (auto simp: linked_put registered_def)
  show "registered dev rs (write_qpd pdd' qpd st)"
    using assms l by (auto simp: registered_def write_qpd_def get_put_pdd pdd_ptr_def)
  show "only_dev dev st (write_qpd pdd' qpd st)"
    using assms by (auto simp: only_dev_def write_qpd_def get_put_pdd pdd_ptr_def)
qed

lemma the_qpd_registered:
  "registered dev rs st \<Longrightarrow> get_pdd dev st = Some pdd \<Longrightarrow> map q_ptr (queues_list (the_qpd pdd st)) = rs"
  using get_pdd_dev [of dev st pdd] by (auto simp: registered_def linked_def the_qpd_def)

text \<open>Giving up the registration when no queue is left.\<close>

lemma unregister_last:
  assumes "registered dev rs st" "get_pdd dev st = Some pdd" "distinct rs"
  defines "st' \<equiv> (if no_queues pdd st then pqm_unregister pdd st else st)"
  shows "consistent dev rs st'" "only_dev dev st st'"
proof -
  have d: "pdd_dev pdd = dev" using get_pdd_dev [OF assms(2)] .
  obtain qpd where g: "get_qpd (dqms st dev) (pdd_ptr pdd) = Some qpd" "map q_ptr (queues_list qpd) = rs"
      "distinct (map qpd_ptr (dqm_queues (dqms st dev)))"
    using assms(1,2) by (auto simp: registered_def linked_def)
  then have t: "the_qpd pdd st = qpd" using d by (simp add: the_qpd_def)
  show "only_dev dev st st'"
    using assms(2) d the_qpd_ptr [of pdd st] by (auto simp: st'_def only_dev_def pqm_unregister_def get_put_pdd pdd_ptr_def)
  show "consistent dev rs st'"
  proof (cases "no_queues pdd st")
    case False
    with g t assms(2,3) show ?thesis by (auto simp: st'_def consistent_def dev_ok_def no_queues_def)
  next
    case True
    obtain xs y ys where s: "dqm_queues (dqms st dev) = xs @ y # ys" "qpd_ptr y = pdd_ptr pdd"
        "dqm_queues (snd (unregister_process (pdd_ptr pdd) (dqms st dev))) = xs @ ys"
    proof (cases "unlink_process (pdd_ptr pdd) (dqm_queues (dqms st dev))")
      case None
      then show thesis using unlink_process_None [OF None] get_qpd_Some [OF g(1)] by auto
    next
      case (Some rest)
      then show thesis by (elim unlink_process_Some) (use Some that in \<open>auto simp: unregister_process_def\<close>)
    qed
    let ?d = "snd (unregister_process (pdd_ptr pdd) (dqms st dev))"
    have "pdd_ptr pdd \<notin> qpd_ptr ` set (xs @ ys)" using g(3) s(1,2) by auto
    then have "get_qpd ?d (pdd_ptr pdd) = None" using s(3) by (simp add: get_qpd_None)
    moreover have "distinct (map qpd_ptr (dqm_queues ?d))" using g(3) s(1,3) by auto
    moreover have "rs = []" using True g(2) t by (simp add: no_queues_def)
    moreover have "get_pdd dev st' = Some (pdd\<lparr>pdd_qpd := qpd\<rparr>)"
      using True d t assms(2) by (simp add: st'_def pqm_unregister_def get_put_pdd)
    moreover have "dqms st' dev = ?d" using True d by (simp add: st'_def pqm_unregister_def)
    moreover have "qpd_ptr qpd = pdd_ptr pdd" using get_qpd_Some [OF g(1)] by simp
    ultimately show ?thesis using True t by (auto simp: consistent_def dev_ok_def no_queues_def pdd_ptr_def)
  qed
qed

subsection \<open>Creation\<close>

lemma init_user_queue_ptr: "init_user_queue env mes props wptr qid = Inr q \<Longrightarrow> pe_kz_queue env = Some (q_ptr q)"
  by (auto simp: init_user_queue_def init_queue_def Let_def split: option.splits sum.splits if_splits)

lemma create_user_queue_links:
  assumes reg: "registered dev rs st" and g: "get_pdd dev st = Some pdd0" and pdd: "pdd_ptr pdd = pdd_ptr pdd0" "pdd_dev pdd = dev"
    and fresh: "\<And>a. pe_kz_queue env = Some a \<Longrightarrow> a \<notin> set rs"
    and c: "pqm_create_user_queue env pdd props wptr qd qid st = (r, n, st')"
  shows "only_dev dev st st' \<and> (if r = OK then \<exists>m q. n = Some m \<and> pqn_q m = Some q \<and> pqn_kq m = None \<and> ref_dev q = dev \<and>
      ref_qid q = qid \<and> pe_kz_queue env = Some (ref_ptr q) \<and> registered dev (ref_ptr q # rs) st'
    else registered dev rs st')"
proof (cases "init_user_queue env (uses_mes (dqms st dev)) props wptr qid")
  case (Inl e)
  with c reg pdd show ?thesis by (auto simp: pqm_create_user_queue_def Let_def)
next
  case (Inr q)
  obtain dqm' where o: "ops_create_queue (pe_hw env) q (map_option criu_queue.truncate qd) (pdd_ptr pdd) (dqms st dev) = (r, dqm')"
    and e: "n = Some \<lparr>pqn_q = Some \<lparr>ref_ptr = q_ptr q, ref_dev = dev, ref_qid = qid, ref_gws = False,
        ref_wptr_bo = (uses_mes (dqms st dev) \<and> wptr \<noteq> None)\<rparr>, pqn_kq = None\<rparr>"
      "st' = set_dqm dev dqm' (st\<lparr>gang_ctx_live := gang_ctx_live st + (if uses_mes (dqms st dev) then 1 else 0)\<rparr>)"
    using c Inr pdd(2) by (auto simp: pqm_create_user_queue_def Let_def split: prod.splits)
  have ptr: "pe_kz_queue env = Some (q_ptr q)" using init_user_queue_ptr [OF Inr] .
  have l: "linked (pdd_ptr pdd) (dqms st dev) = Some rs" using reg g pdd by (auto simp: registered_def)
  from ops_create_links [OF l fresh [OF ptr] o] have re: "relinks (pdd_ptr pdd0) (if r = OK then q_ptr q # rs else rs) (dqms st dev) dqm'"
    using pdd by simp
  let ?c = "st\<lparr>gang_ctx_live := gang_ctx_live st + (if uses_mes (dqms st dev) then 1 else 0)\<rparr>"
  have "registered dev rs ?c" "get_pdd dev ?c = Some pdd0" using reg g by (simp_all add: registered_def)
  from registered_relinks [OF this] re have "registered dev (if r = OK then q_ptr q # rs else rs) st'"
    unfolding e(2) by simp
  moreover have "only_dev dev st st'"
    unfolding e(2) using only_dev_trans [OF only_dev_ctx only_dev_set_dqm] by blast
  ultimately show ?thesis using e(1) ptr by auto
qed

lemma create_by_type_links:
  assumes "registered dev rs st" "get_pdd dev st = Some pdd0" "pdd_ptr pdd = pdd_ptr pdd0" "pdd_dev pdd = dev"
    and "\<And>a. pe_kz_queue env = Some a \<Longrightarrow> a \<notin> set rs" and "qtype props \<noteq> KFD_QUEUE_TYPE_DIQ"
    and "pqm_create_by_type env pdd props wptr qd qid st = (r, n, st')"
  shows "only_dev dev st st' \<and> (if r = OK then \<exists>m q. n = Some m \<and> pqn_q m = Some q \<and> pqn_kq m = None \<and> ref_dev q = dev \<and>
      ref_qid q = qid \<and> pe_kz_queue env = Some (ref_ptr q) \<and> registered dev (ref_ptr q # rs) st'
    else registered dev rs st')"
proof (cases "pqm_create_user_queue env pdd props wptr qd qid st = (r, n, st')")
  case True
  from create_user_queue_links [OF assms(1-5) this] show ?thesis .
next
  case False
  with assms(6,7) have "r \<noteq> OK" "st' = st" by (auto simp: pqm_create_by_type_def split: if_splits)
  with assms(1) show ?thesis by simp
qed

lemma proc_ctx_links:
  assumes reg: "registered dev rs st" and g: "get_pdd dev st = Some pdd" and c: "pqm_proc_ctx env pdd st = Inr st'"
  shows "registered dev rs st' \<and> only_dev dev st st'"
proof (cases "\<not> proc_ctx_cpu_ptr pdd \<and> uses_mes (dqms st (pdd_dev pdd))")
  case True
  then obtain a where s: "st' = write_qpd (pdd\<lparr>proc_ctx_cpu_ptr := True\<rparr>) ((the_qpd pdd st)\<lparr>proc_ctx_gpu_addr := a\<rparr>) st"
    using c by (auto simp: pqm_proc_ctx_def split: sum.splits)
  have p: "pdd_dev (pdd\<lparr>proc_ctx_cpu_ptr := True\<rparr>) = dev" "pdd_ptr (pdd\<lparr>proc_ctx_cpu_ptr := True\<rparr>) = pdd_ptr pdd"
    "qpd_ptr ((the_qpd pdd st)\<lparr>proc_ctx_gpu_addr := a\<rparr>) = pdd_ptr pdd"
    "map q_ptr (queues_list ((the_qpd pdd st)\<lparr>proc_ctx_gpu_addr := a\<rparr>)) = rs"
    using get_pdd_dev [OF g] the_qpd_registered [OF reg g] the_qpd_ptr [of pdd st] by (simp_all add: pdd_ptr_def)
  from write_qpd_registered [OF reg g p] show ?thesis unfolding s by simp
next
  case False
  with c reg show ?thesis by (auto simp: pqm_proc_ctx_def split: if_splits)
qed

lemma create_fail_links:
  assumes "registered dev rs st" "distinct rs"
  shows "consistent dev rs (pqm_create_fail dev qid st) \<and>
    only_dev dev (st\<lparr>queue_slot_bitmap := clear_bit_at (unat qid) (queue_slot_bitmap st)\<rparr>) (pqm_create_fail dev qid st)"
proof -
  let ?st = "st\<lparr>queue_slot_bitmap := clear_bit_at (unat qid) (queue_slot_bitmap st)\<rparr>"
  obtain pdd where g: "get_pdd dev ?st = Some pdd" using assms(1) by (auto simp: registered_def)
  have "registered dev rs ?st" using assms(1) by (simp add: registered_def)
  from unregister_last [OF this g assms(2)] g show ?thesis by (simp add: pqm_create_fail_def Let_def)
qed

lemma pqm_invD: "pqm_inv st \<Longrightarrow> get_pdd dev st = Some pdd \<Longrightarrow> consistent dev (refs dev (pqm_queues st)) st"
  by (auto simp: pqm_inv_def consistent_def)

lemma refs_Cons:
  "refs d (n # ns) = (case pqn_q n of Some r \<Rightarrow> if ref_dev r = d then ref_ptr r # refs d ns else refs d ns | None \<Rightarrow> refs d ns)"
  by (simp add: refs_def List.map_filter_simps split: option.splits)

lemma set_refs: "set (refs d ns) = {ref_ptr r | r. \<exists>n \<in> set ns. pqn_q n = Some r \<and> ref_dev r = d}"
proof (induction ns)
  case (Cons n ns)
  then show ?case by (cases "pqn_q n") (auto simp: refs_Cons)
qed (simp add: refs_def List.map_filter_simps)

lemma refs_ne: "refs d ns \<noteq> [] \<longleftrightarrow> (\<exists>n \<in> set ns. \<exists>r. pqn_q n = Some r \<and> ref_dev r = d)"
proof -
  have "refs d ns \<noteq> [] \<longleftrightarrow> set (refs d ns) \<noteq> {}" by simp
  then show ?thesis unfolding set_refs by blast
qed

lemma pqm_invI:
  assumes inv: "pqm_inv st" and ids: "ids_wf (pqm_queues st') (queue_slot_bitmap st')"
    and same: "\<And>d. d \<noteq> dev \<Longrightarrow> dqms st' d = dqms st d \<and> get_pdd d st' = get_pdd d st \<and>
      refs d (pqm_queues st') = refs d (pqm_queues st)"
    and here: "consistent dev (refs dev (pqm_queues st')) st'"
  shows "pqm_inv st'"
  unfolding pqm_inv_def
proof (intro conjI allI impI ids)
  fix d pdd assume "get_pdd d st' = Some pdd"
  then show "dev_ok (pdd_ptr pdd) (dqms st' d) (pdd_qpd pdd) (refs d (pqm_queues st'))"
    using here same [of d] inv by (cases "d = dev") (auto simp: consistent_def pqm_inv_def)
next
  fix n r assume n: "n \<in> set (pqm_queues st')" "pqn_q n = Some r"
  show "get_pdd (ref_dev r) st' \<noteq> None"
  proof (cases "ref_dev r = dev")
    case True
    with here show ?thesis by (auto simp: consistent_def)
  next
    case False
    have "refs (ref_dev r) (pqm_queues st') \<noteq> []" using n refs_ne by blast
    then have "refs (ref_dev r) (pqm_queues st) \<noteq> []" using same [OF False] by simp
    then obtain m x where "m \<in> set (pqm_queues st)" "pqn_q m = Some x" "ref_dev x = ref_dev r"
      unfolding refs_ne by blast
    with inv have "get_pdd (ref_dev r) st \<noteq> None" unfolding pqm_inv_def by metis
    with same [OF False] show ?thesis by simp
  qed
qed

lemma pqm_inv_only_dev:
  assumes "pqm_inv st" "only_dev dev st st'" "consistent dev (refs dev (pqm_queues st)) st'"
  shows "pqm_inv st'"
  by (rule pqm_invI [OF assms(1), of _ dev]) (use assms in \<open>auto simp: only_dev_def pqm_inv_def\<close>)

text \<open>
  What a creation does, when the process context is not missing: it takes a free id and a new queue of the
  manager for it, or nothing.
\<close>

definition created :: "nat \<Rightarrow> process_queue_manager \<Rightarrow> u32 \<Rightarrow> process_queue_manager \<Rightarrow> bool" where
  "created dev st qid st' \<longleftrightarrow>
     (\<exists>n r. pqn_q n = Some r \<and> pqn_kq n = None \<and> ref_dev r = dev \<and> ref_qid r = qid \<and>
        pqm_queues st' = n # pqm_queues st \<and> \<not> test_bit (unat qid) (queue_slot_bitmap st) \<and>
        queue_slot_bitmap st' = set_bit_at (unat qid) (queue_slot_bitmap st) \<and>
        ref_ptr r \<notin> set (refs dev (pqm_queues st)) \<and> registered dev (ref_ptr r # refs dev (pqm_queues st)) st')"

lemma create_queue_outcome:
  assumes inv: "pqm_inv st" and fresh: "\<And>a. pe_kz_queue env = Some a \<Longrightarrow> a \<notin> set (refs dev (pqm_queues st))"
    and ty: "qtype props \<noteq> KFD_QUEUE_TYPE_DIQ"
    and ctx: "\<And>pdd. get_pdd dev st = Some pdd \<Longrightarrow> uses_mes (dqms st dev) \<Longrightarrow> proc_ctx_cpu_ptr pdd \<or> \<not> isl (pe_proc_ctx env)"
    and c: "pqm_create_queue env dev props wptr qd st = (r, qid, db, st')"
  shows "pqm_inv st' \<and> (if r = OK then created dev st qid st'
    else pqm_queues st' = pqm_queues st \<and> queue_slot_bitmap st' = queue_slot_bitmap st)"
proof (cases "get_pdd dev st")
  case None
  with c inv show ?thesis by (auto simp: pqm_create_queue_def)
next
  case (Some pdd)
  let ?rs = "refs dev (pqm_queues st)"
  have ids: "length (queue_slot_bitmap st) = 1024" using inv by (simp add: pqm_inv_def ids_wf_def)
  have rs: "consistent dev ?rs st" using pqm_invD [OF inv Some] .
  then have dis: "distinct ?rs" by (auto simp: consistent_def dev_ok_def)
  obtain rt q1 st1 where t: "pqm_take_slot qd st = (rt, q1, st1)" by (metis prod_cases3)
  show ?thesis
  proof (cases "queue_count (the_qpd pdd st) \<ge> max_queues st dev (the_qpd pdd st) (qtype props) \<or> rt \<noteq> OK")
    case True
    then have "r \<noteq> OK \<and> st' = st"
      using c Some t take_slot_fail [of qd st] by (cases rt) (auto simp: pqm_create_queue_def split: if_splits)
    with inv show ?thesis by simp
  next
    case False
    then have "rt = OK" by simp
    note slot = take_slot_ok [OF t [unfolded this] ids]
    define st2 where "st2 = (if no_queues pdd st1 then pqm_register env pdd st1 else st1)"
    have g1: "get_pdd dev st1 = Some pdd" "consistent dev ?rs st1" using slot(3) Some rs by (simp_all add: consistent_def)
    note reg = register_first [OF g1(2,1), of env, folded st2_def]
    have mes: "uses_mes (dqms st2 dev) = uses_mes (dqms st dev)"
      using slot(3) get_pdd_dev [OF Some] by (auto simp: st2_def pqm_register_def register_process_def split: prod.splits)
    have g2: "get_pdd dev st2 = Some pdd" using g1(1) by (simp add: st2_def pqm_register_def)
    obtain st3 where x: "pqm_proc_ctx env pdd st2 = Inr st3"
      using ctx [OF Some] mes get_pdd_dev [OF Some]
      by (cases "pe_proc_ctx env"; cases "proc_ctx_cpu_ptr pdd"; cases "uses_mes (dqms st dev)") (auto simp: pqm_proc_ctx_def)
    note p3 = proc_ctx_links [OF reg(1) g2 x]
    obtain pdd3 where g3: "get_pdd dev st3 = Some pdd3" "pdd_ptr pdd = pdd_ptr pdd3"
      using p3 g2 by (auto simp: registered_def only_dev_def)
    have o13: "only_dev dev st1 st3" using only_dev_trans reg(2) p3 by blast
    obtain r4 n4 st4 where b: "pqm_create_by_type env pdd props wptr qd q1 st3 = (r4, n4, st4)" by (metis prod_cases3)
    have p4: "only_dev dev st3 st4" "r4 = OK \<Longrightarrow> \<exists>m q. n4 = Some m \<and> pqn_q m = Some q \<and> pqn_kq m = None \<and> ref_dev q = dev \<and>
        ref_qid q = q1 \<and> pe_kz_queue env = Some (ref_ptr q) \<and> registered dev (ref_ptr q # ?rs) st4"
      "r4 \<noteq> OK \<Longrightarrow> registered dev ?rs st4"
      using create_by_type_links [OF _ g3 get_pdd_dev [OF Some] fresh ty b] p3 by (auto split: if_splits)
    have eq: "(r, qid, db, st') = (if \<not> pe_kz_node env then (Err ENOMEM, q1, 0, pqm_create_fail dev q1 st3)
        else case (r4, n4) of (OK, Some n) \<Rightarrow> (OK, q1, doorbell_offset_in_process pdd n st4, st4\<lparr>pqm_queues := n # pqm_queues st4\<rparr>)
           | (OK, None) \<Rightarrow> (Err OOPS, q1, 0, st4) | (Err e, _) \<Rightarrow> (Err e, q1, 0, pqm_create_fail dev q1 st4))"
      using False unfolding c [symmetric] pqm_create_queue_def Some option.case t \<open>rt = OK\<close> prod.case retval.case Let_def
        st2_def [symmetric] x sum.case b by (cases r4; cases n4) simp_all
    have fail: "pqm_inv (pqm_create_fail dev q1 s) \<and> pqm_queues (pqm_create_fail dev q1 s) = pqm_queues st \<and>
        queue_slot_bitmap (pqm_create_fail dev q1 s) = queue_slot_bitmap st"
      if "registered dev ?rs s" "only_dev dev st1 s" for s
    proof -
      note f = create_fail_links [OF that(1) dis, of q1]
      have bm: "clear_bit_at (unat q1) (queue_slot_bitmap s) = queue_slot_bitmap st"
        using that(2) slot(2,3) by (simp add: only_dev_def clear_set_bit_at)
      then have "only_dev dev st (s\<lparr>queue_slot_bitmap := clear_bit_at (unat q1) (queue_slot_bitmap s)\<rparr>)"
        using that(2) slot(3) by (simp add: only_dev_def)
      with f have o: "only_dev dev st (pqm_create_fail dev q1 s)" using only_dev_trans by blast
      with f pqm_inv_only_dev [OF inv o] show ?thesis by (simp add: only_dev_def)
    qed
    show ?thesis
    proof (cases "pe_kz_node env \<and> r4 = OK")
      case False
      then have e: "r \<noteq> OK" "st' = pqm_create_fail dev q1 st3 \<or> r4 \<noteq> OK \<and> st' = pqm_create_fail dev q1 st4"
        using eq by (cases r4; auto split: if_splits)+
      have "only_dev dev st1 st4" using o13 p4(1) by (rule only_dev_trans)
      with e(2) fail [of st3] fail [of st4] p3 o13 p4(3) have
        "pqm_inv st' \<and> pqm_queues st' = pqm_queues st \<and> queue_slot_bitmap st' = queue_slot_bitmap st" by blast
      with e(1) show ?thesis by simp
    next
      case True
      then obtain m q where m: "n4 = Some m" "pqn_q m = Some q" "pqn_kq m = None" "ref_dev q = dev" "ref_qid q = q1"
          "pe_kz_queue env = Some (ref_ptr q)" "registered dev (ref_ptr q # ?rs) st4" using p4(2) by auto
      then have E: "r = OK" "qid = q1" "st' = st4\<lparr>pqm_queues := m # pqm_queues st4\<rparr>" using eq True by auto
      have o: "only_dev dev st1 st4" using o13 p4(1) only_dev_trans by blast
      have q: "pqm_queues st' = m # pqm_queues st" "queue_slot_bitmap st' = set_bit_at (unat q1) (queue_slot_bitmap st)"
        using o E slot(3) by (simp_all add: only_dev_def)
      have mq: "node_qid m = q1" "node_wf m" using m by (simp_all add: node_qid_def node_wf_def)
      have regst: "registered dev (ref_ptr q # ?rs) st'" using m(7) E(3) by (simp add: registered_def)
      have cr: "created dev st qid st'"
        unfolding created_def using m q slot(2) fresh [OF m(6)] regst E by blast
      have "pqm_inv st'"
      proof (rule pqm_invI [OF inv, of _ dev])
        show "ids_wf (pqm_queues st') (queue_slot_bitmap st')"
          using ids_wf_add [of "pqm_queues st" "queue_slot_bitmap st" m] inv slot(1,2) mq by (simp add: q pqm_inv_def)
        show "consistent dev (refs dev (pqm_queues st')) st'"
          using registered_consistent [OF regst] dis fresh [OF m(6)] m(2,4) by (simp add: q refs_Cons)
        show "dqms st' d = dqms st d \<and> get_pdd d st' = get_pdd d st \<and> refs d (pqm_queues st') = refs d (pqm_queues st)"
          if "d \<noteq> dev" for d
          using that o E(3) slot(3) m(2,4) by (simp add: only_dev_def q(1) refs_Cons)
      qed
      with cr E show ?thesis by simp
    qed
  qed
qed

subsection \<open>Destruction\<close>

lemma refs_del_other:
  "find (node_has qid) ns = Some n \<Longrightarrow> pqn_q n = Some r \<Longrightarrow> d \<noteq> ref_dev r \<Longrightarrow> refs d (list_del_node qid ns) = refs d ns"
proof (induction ns)
  case (Cons m ns)
  then show ?case by (cases "node_has qid m"; cases "pqn_q m") (simp_all add: refs_Cons)
qed simp

lemma refs_del:
  "find (node_has qid) ns = Some n \<Longrightarrow> pqn_q n = Some r \<Longrightarrow> distinct (refs (ref_dev r) ns) \<Longrightarrow>
   refs (ref_dev r) (list_del_node qid ns) = filter (\<lambda>x. x \<noteq> ref_ptr r) (refs (ref_dev r) ns)"
proof (induction ns)
  case (Cons m ns)
  show ?case
  proof (cases "node_has qid m")
    case True
    with Cons.prems have m: "m = n" "ref_ptr r \<notin> set (refs (ref_dev r) ns)" by (simp_all add: refs_Cons)
    then have "filter (\<lambda>x. x \<noteq> ref_ptr r) (refs (ref_dev r) ns) = refs (ref_dev r) ns" by (intro filter_True) auto
    with True Cons.prems m(1) show ?thesis by (simp add: refs_Cons)
  next
    case False
    then have f: "find (node_has qid) ns = Some n" using Cons.prems(1) by simp
    then have "n \<in> set ns" by (auto simp: find_Some_iff)
    then have i: "ref_ptr r \<in> set (refs (ref_dev r) ns)" using Cons.prems(2) by (auto simp: set_refs)
    have "distinct (refs (ref_dev r) ns)" using Cons.prems(3) by (cases "pqn_q m") (simp_all add: refs_Cons split: if_splits)
    note IH = Cons.IH [OF f Cons.prems(2) this]
    show ?thesis
    proof (cases "pqn_q m")
      case None
      with False IH show ?thesis by (simp add: refs_Cons)
    next
      case (Some x)
      show ?thesis
      proof (cases "ref_dev x = ref_dev r")
        case True
        with Cons.prems(3) Some i have "ref_ptr x \<noteq> ref_ptr r" by (auto simp: refs_Cons)
        with True False IH Some show ?thesis by (simp add: refs_Cons)
      qed (use False IH Some in \<open>simp add: refs_Cons\<close>)
    qed
  qed
qed simp

lemma clean_links:
  assumes "registered dev rs st" "ref_dev r = dev"
  shows "registered dev rs (pqm_clean_queue_resource r st) \<and> only_dev dev st (pqm_clean_queue_resource r st)"
proof -
  obtain pdd where g: "get_pdd dev st = Some pdd" using assms(1) by (auto simp: registered_def)
  define st1 where "st1 = (if ref_gws r then write_qpd pdd ((the_qpd pdd st)\<lparr>num_gws := 0\<rparr>) st else st)"
  have "qpd_ptr ((the_qpd pdd st)\<lparr>num_gws := 0\<rparr>) = pdd_ptr pdd" "map q_ptr (queues_list ((the_qpd pdd st)\<lparr>num_gws := 0\<rparr>)) = rs"
    using the_qpd_ptr [of pdd st] the_qpd_registered [OF assms(1) g] by simp_all
  from write_qpd_registered [OF assms(1) g get_pdd_dev [OF g] refl this] assms(1)
  have 1: "registered dev rs st1" "only_dev dev st st1" by (simp_all add: st1_def)
  then have "registered dev rs (st1\<lparr>gang_ctx_live := c\<rparr>)" "only_dev dev st (st1\<lparr>gang_ctx_live := c\<rparr>)" for c
    using only_dev_trans [OF 1(2) only_dev_ctx] by (simp_all add: registered_def)
  with 1 g assms(2) show ?thesis by (simp add: pqm_clean_queue_resource_def st1_def [symmetric] Let_def)
qed

lemma forget_links:
  fixes qid :: u32
  assumes "registered dev rs st" "distinct rs"
  defines "st0 \<equiv> st\<lparr>pqm_queues := list_del_node qid (pqm_queues st), queue_slot_bitmap := clear_bit_at (unat qid) (queue_slot_bitmap st)\<rparr>"
  shows "consistent dev rs (pqm_forget dev qid st) \<and> only_dev dev st0 (pqm_forget dev qid st)"
proof -
  obtain pdd where g: "get_pdd dev st0 = Some pdd" using assms(1) by (auto simp: registered_def st0_def)
  have "registered dev rs st0" using assms(1) by (simp add: registered_def st0_def)
  from unregister_last [OF this g assms(2)] g show ?thesis
    by (simp add: pqm_forget_def Let_def st0_def [symmetric] del: pqm_simps)
qed

lemma user_queue_registered:
  assumes inv: "pqm_inv st" and n: "get_queue_by_qid qid st = Some n" "pqn_q n = Some r"
  obtains pdd where "get_pdd (ref_dev r) st = Some pdd" "registered (ref_dev r) (refs (ref_dev r) (pqm_queues st)) st"
    "ref_ptr r \<in> set (refs (ref_dev r) (pqm_queues st))" "distinct (refs (ref_dev r) (pqm_queues st))"
proof -
  let ?rs = "refs (ref_dev r) (pqm_queues st)"
  have nin: "n \<in> set (pqm_queues st)" using get_queue_by_qid_Some [OF n(1)] by simp
  then have "get_pdd (ref_dev r) st \<noteq> None" using inv n(2) unfolding pqm_inv_def by blast
  then obtain pdd where g: "get_pdd (ref_dev r) st = Some pdd" by blast
  have in_rs: "ref_ptr r \<in> set ?rs" using nin n(2) by (auto simp: set_refs)
  have con: "consistent (ref_dev r) ?rs st" using pqm_invD [OF inv g] .
  then have "registered (ref_dev r) ?rs st" "distinct ?rs"
    using g in_rs by (fastforce simp: consistent_def dev_ok_def registered_def linked_def split: option.splits)+
  with g in_rs show thesis by (intro that)
qed

lemma destroy_queue_outcome:
  assumes inv: "pqm_inv st" and n: "get_queue_by_qid qid st = Some n" "pqn_q n = Some r"
    and up: "dqm_up (pe_hw env) (dqms st (ref_dev r))" and d: "pqm_destroy_queue env qid st = (rv, st')"
  shows "if settled rv then pqm_inv st' \<and> pqm_queues st' = list_del_node qid (pqm_queues st) \<and>
      queue_slot_bitmap st' = clear_bit_at (unat qid) (queue_slot_bitmap st)
    else pqm_queues st' = pqm_queues st \<and> queue_slot_bitmap st' = queue_slot_bitmap st \<and>
      (registered (ref_dev r) (refs (ref_dev r) (pqm_queues st)) st' \<longrightarrow> pqm_inv st')"
proof -
  let ?dev = "ref_dev r" and ?ns = "pqm_queues st"
  have nin: "n \<in> set ?ns" and has: "find (node_has qid) ?ns = Some n"
    using get_queue_by_qid_Some [OF n(1)] n(1) by (auto simp: get_queue_by_qid_def)
  have wf: "\<forall>n \<in> set ?ns. node_wf n" using inv by (simp add: pqm_inv_def ids_wf_def)
  then have kq: "pqn_kq n = None" using nin n(2) by (metis node_wf_def option.distinct(1))
  let ?rs = "refs ?dev ?ns"
  obtain pdd where g: "get_pdd ?dev st = Some pdd" and reg: "registered ?dev ?rs st" and in_rs: "ref_ptr r \<in> set ?rs"
    and dis: "distinct ?rs" using user_queue_registered [OF inv n] .
  note rd = refs_del [OF has n(2)] refs_del_other [OF has n(2)]
  have l: "linked (pdd_ptr pdd) (dqms st ?dev) = Some ?rs" using reg g by (auto simp: registered_def)
  obtain d' where o: "ops_destroy_queue (pe_hw env) (ref_ptr r) (pdd_ptr pdd) (dqms st ?dev) = (rv, d')"
    and e: "st' = (if settled rv then pqm_forget ?dev qid (pqm_clean_queue_resource r (set_dqm ?dev d' st)) else set_dqm ?dev d' st)"
    using d n g kq by (auto simp: pqm_destroy_queue_def node_dev_def pqm_destroy_diq_def settled_def Let_def split: prod.splits if_splits)
  have re: "relinks (pdd_ptr pdd) (filter (\<lambda>x. x \<noteq> ref_ptr r) ?rs) (dqms st ?dev) d' \<or>
      relinks (pdd_ptr pdd) ?rs (dqms st ?dev) d' \<and> \<not> settled rv"
    using ops_destroy_links [OF l in_rs o] up by (simp add: dqm_up_def)
  show ?thesis
  proof (cases "settled rv")
    case True
    let ?rs' = "filter (\<lambda>x. x \<noteq> ref_ptr r) ?rs"
    have 1: "registered ?dev ?rs' (set_dqm ?dev d' st)" using re True registered_relinks [OF reg g] by blast
    let ?s2 = "pqm_clean_queue_resource r (set_dqm ?dev d' st)"
    have 2: "registered ?dev ?rs' ?s2" "only_dev ?dev st ?s2"
      using clean_links [OF 1 refl] only_dev_trans [OF only_dev_set_dqm] by blast+
    note f = forget_links [OF 2(1) distinct_filter [OF dis], of qid]
    have E: "st' = pqm_forget ?dev qid ?s2" using e True by simp
    have q: "pqm_queues st' = list_del_node qid ?ns" "queue_slot_bitmap st' = clear_bit_at (unat qid) (queue_slot_bitmap st)"
      using f 2(2) by (simp_all add: E only_dev_def)
    have "pqm_inv st'"
    proof (rule pqm_invI [OF inv, of _ ?dev])
      show "ids_wf (pqm_queues st') (queue_slot_bitmap st')"
        unfolding q by (rule ids_wf_del) (use inv in \<open>simp add: pqm_inv_def\<close>)
      show "consistent ?dev (refs ?dev (pqm_queues st')) st'" unfolding q rd(1) [OF dis] using f E by simp
      show "dqms st' x = dqms st x \<and> get_pdd x st' = get_pdd x st \<and> refs x (pqm_queues st') = refs x ?ns"
        if "x \<noteq> ?dev" for x
        using that f 2(2) rd(2) [OF that] by (simp add: q(1)) (simp add: E only_dev_def)
    qed
    with q True show ?thesis by simp
  next
    case False
    with e have E: "st' = set_dqm ?dev d' st" by simp
    have "pqm_inv st'" if "registered ?dev ?rs st'"
    proof (rule pqm_inv_only_dev [OF inv, of ?dev])
      show "only_dev ?dev st st'" unfolding E by (rule only_dev_set_dqm)
      show "consistent ?dev ?rs st'" using registered_consistent [OF that _ dis] in_rs by fastforce
    qed
    with False E show ?thesis by simp
  qed
qed

subsection \<open>Updates\<close>

lemma update_queue_links:
  assumes l: "linked p dqm = Some qs" and u: "update_queue env qp p dqm = (r, dqm')"
  shows "relinks p qs dqm dqm'"
proof -
  obtain qpd where g: "get_qpd dqm p = Some qpd" "qs = map q_ptr (queues_list qpd)" using l by (auto simp: linked_def)
  show ?thesis
  proof (cases "find_queue qp qpd")
    case None
    with u g l show ?thesis by (auto simp: update_queue_def intro: relinks_same)
  next
    case (Some q)
    obtain r1 go dqm1 where un: "update_queue_unmap env dqm q = (r1, go, dqm1)" by (metis prod_cases3)
    have d1: "dqm_queues dqm1 = dqm_queues dqm" using sched_only_fields(1) [OF update_unmap_frame [OF un]] .
    obtain dqm2 qpd2 q2 where c: "update_queue_counts dqm1 qpd (mqd_update_active q) (is_active (properties q)) = (dqm2, qpd2, q2)"
      by (metis prod_cases3)
    note m = update_counts_moves [OF c]
    let ?qpd3 = "put_queue q2 qpd2"
    have v: "qpd_ptr ?qpd3 = p" "map q_ptr (queues_list ?qpd3) = qs"
      using m(2) g get_qpd_Some [OF g(1)] by (auto simp: qview_def put_queue_def)
    show ?thesis
    proof (cases go)
      case False
      with u g(1) Some un have "dqm' = dqm1" by (simp add: update_queue_def)
      with d1 l show ?thesis by (auto intro: relinks_same)
    next
      case True
      with u g(1) Some un c have "update_queue_map env (put_qpd ?qpd3 dqm2) ?qpd3 q2 = (r, dqm')"
        by (simp add: update_queue_def Let_def)
      then have "dqm_queues dqm' = dqm_queues (put_qpd ?qpd3 dqm2)" using sched_only_fields(1) [OF update_map_frame] by blast
      moreover have "dqm_queues dqm2 = dqm_queues dqm" using m(1) d1 by (simp add: moves_def procs_def)
      ultimately show ?thesis using v by (intro relinksI [of _ ?qpd3]) (simp_all add: put_qpd_def)
    qed
  qed
qed

text \<open>The operations that change a queue in place, as steps on its device.\<close>

lemma call_update_links:
  assumes "registered dev rs st" "get_pdd dev st = Some pdd0" "pdd_ptr pdd = pdd_ptr pdd0" "pdd_dev pdd = dev"
    "pqm_call_update env pdd qp st = (r, st')"
  shows "registered dev rs st' \<and> only_dev dev st st'"
proof -
  obtain d' where d: "update_queue (pe_hw env) qp (pdd_ptr pdd0) (dqms st dev) = (r, d')" "st' = set_dqm dev d' st"
    using assms(3-5) by (auto simp: pqm_call_update_def split: prod.splits)
  have "linked (pdd_ptr pdd0) (dqms st dev) = Some rs" using assms(1,2) by (auto simp: registered_def)
  from update_queue_links [OF this d(1)] registered_relinks [OF assms(1,2)] d(2) only_dev_set_dqm show ?thesis by simp
qed

lemma write_queue_links:
  assumes reg: "registered dev rs st" and g: "get_pdd dev st = Some pdd0" and p: "pdd_ptr pdd = pdd_ptr pdd0" "pdd_dev pdd = dev"
  shows "registered dev rs (pqm_write_queue f pdd qp st) \<and> only_dev dev st (pqm_write_queue f pdd qp st)"
proof (cases "find_queue qp (the_qpd pdd st)")
  case None
  with reg show ?thesis by (simp add: pqm_write_queue_def)
next
  case (Some q)
  let ?d = "put_qpd (put_queue (f q) (the_qpd pdd st)) (dqms st dev)"
  have t: "the_qpd pdd st = the_qpd pdd0 st"
    using reg g p get_pdd_dev [OF g] by (auto simp: the_qpd_def registered_def linked_def)
  have "relinks (pdd_ptr pdd0) rs (dqms st dev) ?d"
    using the_qpd_registered [OF reg g] the_qpd_ptr [of pdd0 st] t
    by (intro relinksI [of _ "put_queue (f q) (the_qpd pdd st)"]) (simp_all add: put_queue_def)
  from registered_relinks [OF reg g this] Some p only_dev_set_dqm show ?thesis by (simp add: pqm_write_queue_def)
qed

lemma update_inv:
  assumes inv: "pqm_inv st" and r: "registered dev (refs dev (pqm_queues st)) st'" and o: "only_dev dev st st'"
    and ne: "refs dev (pqm_queues st) \<noteq> []"
  shows "pqm_inv st'"
proof -
  obtain pdd where "get_pdd dev st = Some pdd" using r o by (cases "get_pdd dev st") (auto simp: registered_def only_dev_def)
  from pqm_invD [OF inv this] have "distinct (refs dev (pqm_queues st))" by (auto simp: consistent_def dev_ok_def)
  from registered_consistent [OF r ne this] show ?thesis by (rule pqm_inv_only_dev [OF inv o])
qed

lemma with_user_queue_inv:
  assumes inv: "pqm_inv st" and w: "with_user_queue e qid st f = (rv, st')"
    and f: "\<And>r pdd rv st'. get_pdd (ref_dev r) st = Some pdd \<Longrightarrow> registered (ref_dev r) (refs (ref_dev r) (pqm_queues st)) st \<Longrightarrow>
      f r pdd = (rv, st') \<Longrightarrow> registered (ref_dev r) (refs (ref_dev r) (pqm_queues st)) st' \<and> only_dev (ref_dev r) st st'"
  shows "pqm_inv st' \<and> pqm_queues st' = pqm_queues st \<and> queue_slot_bitmap st' = queue_slot_bitmap st"
proof (cases "\<exists>n r. get_queue_by_qid qid st = Some n \<and> pqn_q n = Some r")
  case False
  with w inv show ?thesis by (auto simp: with_user_queue_def split: option.splits)
next
  case True
  then obtain n r where n: "get_queue_by_qid qid st = Some n" "pqn_q n = Some r" by blast
  obtain pdd where u: "get_pdd (ref_dev r) st = Some pdd" "registered (ref_dev r) (refs (ref_dev r) (pqm_queues st)) st"
    "ref_ptr r \<in> set (refs (ref_dev r) (pqm_queues st))" using user_queue_registered [OF inv n] .
  have "f r pdd = (rv, st')" using w n u(1) by (simp add: with_user_queue_def)
  note x = f [OF u(1,2) this]
  have ne: "refs (ref_dev r) (pqm_queues st) \<noteq> []" using u(3) by auto
  from update_inv [OF inv _ _ ne] x show ?thesis by (simp add: only_dev_def)
qed

lemma update_properties_inv:
  assumes "pqm_inv st" "pqm_update_queue_properties env qid p st = (rv, st')"
  shows "pqm_inv st' \<and> pqm_queues st' = pqm_queues st \<and> queue_slot_bitmap st' = queue_slot_bitmap st"
  using assms(1) assms(2) [unfolded pqm_update_queue_properties_def]
proof (rule with_user_queue_inv)
  fix r pdd rv st'
  let ?rs = "refs (ref_dev r) (pqm_queues st)" and ?w = "pqm_write_queue (set_properties p) pdd (ref_ptr r) st"
  assume g: "get_pdd (ref_dev r) st = Some pdd" and reg: "registered (ref_dev r) ?rs st"
    and c: "pqm_call_update env pdd (ref_ptr r) ?w = (rv, st')"
  note w = write_queue_links [OF reg g refl get_pdd_dev [OF g], of "set_properties p" "ref_ptr r"]
  obtain pdd1 where g1: "get_pdd (ref_dev r) ?w = Some pdd1" "pdd_ptr pdd = pdd_ptr pdd1"
    using w g by (auto simp: registered_def only_dev_def)
  show "registered (ref_dev r) ?rs st' \<and> only_dev (ref_dev r) st st'"
    using call_update_links [OF _ g1 get_pdd_dev [OF g] c] w only_dev_trans by blast
qed

lemma update_mqd_inv:
  assumes "pqm_inv st" "pqm_update_mqd env qid minfo st = (rv, st')"
  shows "pqm_inv st' \<and> pqm_queues st' = pqm_queues st \<and> queue_slot_bitmap st' = queue_slot_bitmap st"
  using assms(1) assms(2) [unfolded pqm_update_mqd_def]
proof (rule with_user_queue_inv, goal_cases)
  case (1 r pdd rv st')
  let ?rs = "refs (ref_dev r) (pqm_queues st)"
  let ?f = "\<lambda>q :: queue. q\<lparr>properties := (properties q)\<lparr>is_user_cu_masked := True\<rparr>\<rparr>"
  obtain r1 st1 where c: "pqm_call_update env pdd (ref_ptr r) st = (r1, st1)" by fastforce
  note u = call_update_links [OF 1(2,1) refl get_pdd_dev [OF 1(1)] c]
  obtain pdd1 where g1: "get_pdd (ref_dev r) st1 = Some pdd1" "pdd_ptr pdd = pdd_ptr pdd1"
    using u 1(1) by (auto simp: registered_def only_dev_def)
  note w = write_queue_links [OF conjunct1 [OF u] g1 get_pdd_dev [OF 1(1)], of ?f "ref_ptr r"]
  have "st' = st \<or> st' = st1 \<or> st' = pqm_write_queue ?f pdd (ref_ptr r) st1"
    using 1(3) by (simp add: c split: option.splits if_splits retval.splits)
  then show ?case using 1(2) u w only_dev_trans [OF conjunct2 [OF u] conjunct2 [OF w]] by (elim disjE) simp_all
qed

lemma set_ref_gws_simps [simp]:
  "node_qid (set_ref_gws qp b n) = node_qid n" "node_wf (set_ref_gws qp b n) = node_wf n"
  "map_option ref_dev (pqn_q (set_ref_gws qp b n)) = map_option ref_dev (pqn_q n)"
  by (auto simp: set_ref_gws_def node_qid_def node_wf_def split: option.splits)

lemma refs_set_gws [simp]: "refs d (map (set_ref_gws qp b) ns) = refs d ns"
proof (induction ns)
  case (Cons n ns)
  then show ?case by (cases "pqn_q n") (auto simp: refs_Cons set_ref_gws_def)
qed simp

lemma set_gws_inv:
  assumes inv: "pqm_inv st" and s: "pqm_set_gws env qid gws_of st = (rv, st')"
  shows "pqm_inv st' \<and> map node_qid (pqm_queues st') = map node_qid (pqm_queues st) \<and>
    queue_slot_bitmap st' = queue_slot_bitmap st"
proof (cases "\<exists>n r. get_queue_by_qid qid st = Some n \<and> pqn_q n = Some r")
  case False
  with s inv show ?thesis by (auto simp: pqm_set_gws_def split: option.splits)
next
  case True
  then obtain n r where n: "get_queue_by_qid qid st = Some n" "pqn_q n = Some r" by blast
  let ?dev = "ref_dev r" and ?ns = "pqm_queues st"
  let ?rs = "refs ?dev ?ns"
  obtain pdd where u: "get_pdd ?dev st = Some pdd" "registered ?dev ?rs st" "ref_ptr r \<in> set ?rs" "distinct ?rs"
    using user_queue_registered [OF inv n] .
  have pd: "pdd_dev pdd = ?dev" using get_pdd_dev [OF u(1)] .
  define st1 where "st1 = pqm_write_queue (\<lambda>q. q\<lparr>gws := gws_of\<rparr>) pdd (ref_ptr r) st"
  define ns2 where "ns2 = map (set_ref_gws qid (gws_of \<noteq> None)) (pqm_queues st1)"
  define st2 where "st2 = st1\<lparr>pqm_queues := ns2\<rparr>"
  define st3 where "st3 = write_qpd pdd ((the_qpd pdd st2)\<lparr>num_gws := if gws_of \<noteq> None then pe_gws_size env else 0\<rparr>) st2"
  have "st' = st \<or> pqm_call_update env pdd (ref_ptr r) st3 = (rv, st')"
    using s n u(1) unfolding pqm_set_gws_def
    by (auto simp: Let_def st3_def st2_def ns2_def st1_def split: if_splits)
  then show ?thesis
  proof
    assume "st' = st"
    with inv show ?thesis by simp
  next
    assume c: "pqm_call_update env pdd (ref_ptr r) st3 = (rv, st')"
    note w = write_queue_links [OF u(2,1) refl pd, of "\<lambda>q. q\<lparr>gws := gws_of\<rparr>" "ref_ptr r", folded st1_def]
    have g2: "get_pdd ?dev st2 = Some pdd"
      using u(1) pd by (auto simp: st2_def st1_def pqm_write_queue_def split: option.splits)
    have r2: "registered ?dev ?rs st2" using w by (simp add: registered_def st2_def)
    have q: "qpd_ptr ((the_qpd pdd st2)\<lparr>num_gws := v\<rparr>) = pdd_ptr pdd" "map q_ptr (queues_list ((the_qpd pdd st2)\<lparr>num_gws := v\<rparr>)) = ?rs" for v
      using the_qpd_ptr [of pdd st2] the_qpd_registered [OF r2 g2] by simp_all
    note w3 = write_qpd_registered [OF r2 g2 pd refl q, of "if gws_of \<noteq> None then pe_gws_size env else 0", folded st3_def]
    obtain pdd3 where g3: "get_pdd ?dev st3 = Some pdd3" "pdd_ptr pdd = pdd_ptr pdd3"
      using w3 g2 by (auto simp: registered_def only_dev_def)
    note x = call_update_links [OF w3(1) g3 pd c]
    have o: "only_dev ?dev st2 st'" using w3(2) x only_dev_trans by blast
    have ns: "pqm_queues st' = map (set_ref_gws qid (gws_of \<noteq> None)) ?ns"
      "queue_slot_bitmap st' = queue_slot_bitmap st"
      using o w by (simp_all add: only_dev_def st2_def ns2_def)
    have "pqm_inv st'"
    proof (rule pqm_invI [OF inv, of _ ?dev])
      show "ids_wf (pqm_queues st') (queue_slot_bitmap st')"
        using inv by (auto simp: ns pqm_inv_def ids_wf_def comp_def image_image)
      have "?rs \<noteq> []" using u(3) by auto
      with registered_consistent [OF conjunct1 [OF x] _ u(4)] show "consistent ?dev (refs ?dev (pqm_queues st')) st'" by (simp add: ns)
      show "dqms st' d = dqms st d \<and> get_pdd d st' = get_pdd d st \<and> refs d (pqm_queues st') = refs d ?ns" if "d \<noteq> ?dev" for d
        using that o w by (simp add: ns) (simp add: only_dev_def st2_def)
    qed
    with ns show ?thesis by (simp add: comp_def)
  qed
qed

end
