(* ===== verification/Pqm_Properties.thy ===== *)
theory Pqm_Properties
  imports Pqm_Invariant Dqm_Reach
begin

text \<open>
  The process queue manager as a state machine over all devices of a process, and what it promises: the ids handed out are those
  of live queues, a failed creation leaves nothing behind, and destroying a queue undoes its creation. Two error
  paths break the promise; they are stated at the end.
\<close>

section \<open>Steps\<close>

text \<open>
  Other processes use the same managers: such a step keeps the queues of this process and the addresses of the processes
  distinct.
\<close>

definition keeps_process :: "nat \<Rightarrow> device_queue_manager \<Rightarrow> device_queue_manager \<Rightarrow> bool" where
  "keeps_process p dqm dqm' \<longleftrightarrow> distinct (map qpd_ptr (dqm_queues dqm')) \<and>
     (case (get_qpd dqm p, get_qpd dqm' p) of
        (None, None) \<Rightarrow> True
      | (Some a, Some b) \<Rightarrow> map q_ptr (queues_list b) = map q_ptr (queues_list a) \<and>
          (priv_queue_list b = []) = (priv_queue_list a = [])
      | _ \<Rightarrow> False)"

text \<open>The process context is there, or MES does not need it, or it can be allocated.\<close>

definition ctx_available :: "pqm_env \<Rightarrow> nat \<Rightarrow> process_queue_manager \<Rightarrow> bool" where
  "ctx_available env dev st \<longleftrightarrow> (case get_pdd dev st of
     None \<Rightarrow> True
   | Some pdd \<Rightarrow> uses_mes (dqms st dev) \<longrightarrow> proc_ctx_cpu_ptr pdd \<or> \<not> isl (pe_proc_ctx env))"

text \<open>\<^verbatim>\<open>kzalloc\<close> returns memory that is not a queue of the process.\<close>

definition fresh_queue :: "pqm_env \<Rightarrow> nat \<Rightarrow> process_queue_manager \<Rightarrow> bool" where
  "fresh_queue env dev st \<longleftrightarrow>
     (case pe_kz_queue env of None \<Rightarrow> True | Some a \<Rightarrow> a \<notin> set (refs dev (pqm_queues st)))"

text \<open>
  The manager refuses a destruction before it touches the queue: the queue is no compute or SDMA queue, the process is
  being debugged, or the wait for the debugger to resume the queue is interrupted.
\<close>

definition destroy_refused :: "hw_env \<Rightarrow> nat \<Rightarrow> nat \<Rightarrow> device_queue_manager \<Rightarrow> bool" where
  "destroy_refused env qp p dqm \<longleftrightarrow>
     (case get_qpd dqm p of
        None \<Rightarrow> False
      | Some qpd \<Rightarrow>
          (case find_queue qp qpd of
             None \<Rightarrow> False
           | Some q \<Rightarrow>
               if sched_policy dqm = KFD_SCHED_POLICY_NO_HWS
               then qtype (properties q) \<noteq> KFD_QUEUE_TYPE_COMPUTE \<and> \<not> is_sdma_type (qtype (properties q))
               else is_debug qpd \<or> debug_trap_enabled qpd \<and> is_suspended (properties q) \<and> he_wait env \<noteq> OK))"

text \<open>
  What the manager of the device answers to the removal of a queue is success or one of the two codes after which
  \<^verbatim>\<open>pqm_destroy_queue\<close> gives the queue up, unless it refuses at once. Other codes come from the firmware after the manager
  has already unlinked the queue; \<open>pqm_destroy_mes_failure_strands\<close> below shows what they do.
\<close>

definition removal_answered :: "pqm_env \<Rightarrow> queue_ref \<Rightarrow> process_queue_manager \<Rightarrow> bool" where
  "removal_answered env x st \<longleftrightarrow> (case get_pdd (ref_dev x) st of
     None \<Rightarrow> True
   | Some pdd \<Rightarrow>
       settled (fst (ops_destroy_queue (pe_hw env) (ref_ptr x) (pdd_ptr pdd) (dqms st (ref_dev x)))) \<or>
       destroy_refused (pe_hw env) (ref_ptr x) (pdd_ptr pdd) (dqms st (ref_dev x)))"

text \<open>
  Not steps are a creation for which the process context cannot be allocated (\<open>pqm_create_ctx_failure_leaks\<close> below), the
  creation of a debug queue, which no ioctl of the driver asks for, and a destruction that the firmware answers with another
  code or that a stopped manager without hardware scheduler takes (\<open>dqm_up\<close>). All other failures are steps.
\<close>

inductive pqm_step :: "process_queue_manager \<Rightarrow> process_queue_manager \<Rightarrow> bool" where
  create: "fresh_queue env dev st \<Longrightarrow> ctx_available env dev st \<Longrightarrow> qtype props \<noteq> KFD_QUEUE_TYPE_DIQ \<Longrightarrow>
    pqm_create_queue env dev props wptr qd st = (r, qid, db, st') \<Longrightarrow> pqm_step st st'"
| destroy: "get_queue_by_qid qid st = Some n \<Longrightarrow> pqn_q n = Some x \<Longrightarrow> dqm_up (pe_hw env) (dqms st (ref_dev x)) \<Longrightarrow>
    removal_answered env x st \<Longrightarrow> pqm_destroy_queue env qid st = (r, st') \<Longrightarrow> pqm_step st st'"
| destroy_unknown: "get_queue_by_qid qid st = None \<Longrightarrow> pqm_destroy_queue env qid st = (r, st') \<Longrightarrow> pqm_step st st'"
| update_properties: "pqm_update_queue_properties env qid p st = (r, st') \<Longrightarrow> pqm_step st st'"
| update_mqd: "pqm_update_mqd env qid minfo st = (r, st') \<Longrightarrow> pqm_step st st'"
| set_gws: "pqm_set_gws env qid g st = (r, st') \<Longrightarrow> pqm_step st st'"
| others: "(\<And>dev pdd. get_pdd dev st = Some pdd \<Longrightarrow> keeps_process (pdd_ptr pdd) (dqms st dev) (d dev)) \<Longrightarrow>
    pqm_step st (st\<lparr>dqms := d\<rparr>)"

text \<open>A process starts with no queue and is not registered with any manager.\<close>

definition pdd_idle :: "process_device \<Rightarrow> device_queue_manager \<Rightarrow> bool" where
  "pdd_idle pdd dqm \<longleftrightarrow> get_qpd dqm (pdd_ptr pdd) = None \<and> queues_list (pdd_qpd pdd) = [] \<and>
     priv_queue_list (pdd_qpd pdd) = [] \<and> distinct (map qpd_ptr (dqm_queues dqm))"

inductive pqm_reachable :: "process_queue_manager \<Rightarrow> bool" where
  init: "pqm_init True st0 = (OK, st) \<Longrightarrow> (\<And>dev pdd. get_pdd dev st0 = Some pdd \<Longrightarrow> pdd_idle pdd (dqms st0 dev)) \<Longrightarrow>
    pqm_reachable st"
| step: "pqm_reachable st \<Longrightarrow> pqm_step st st' \<Longrightarrow> pqm_reachable st'"

section \<open>The invariant holds\<close>

lemma dev_ok_keeps:
  assumes "dev_ok p dqm qpd rs" "keeps_process p dqm dqm'"
  shows "dev_ok p dqm' qpd rs"
  using assms by (auto simp: dev_ok_def keeps_process_def split: option.splits)

lemma others_inv:
  assumes "pqm_inv st" "\<And>dev pdd. get_pdd dev st = Some pdd \<Longrightarrow> keeps_process (pdd_ptr pdd) (dqms st dev) (d dev)"
  shows "pqm_inv (st\<lparr>dqms := d\<rparr>)"
proof -
  have g: "get_pdd x (st\<lparr>dqms := d\<rparr>) = get_pdd x st" for x by (simp add: get_pdd_def)
  have "dev_ok (pdd_ptr pdd) (d dev) (pdd_qpd pdd) (refs dev (pqm_queues st))" if "get_pdd dev st = Some pdd" for dev pdd
    using dev_ok_keeps [OF _ assms(2) [OF that]] assms(1) that by (simp add: pqm_inv_def)
  with assms(1) show ?thesis by (simp add: pqm_inv_def g)
qed

lemma init_pqm_inv:
  assumes "pqm_init True st0 = (OK, st)" "\<And>dev pdd. get_pdd dev st0 = Some pdd \<Longrightarrow> pdd_idle pdd (dqms st0 dev)"
  shows "pqm_inv st"
proof -
  have s: "st = st0\<lparr>pqm_queues := [], queue_slot_bitmap := bitmap_zalloc 1024\<rparr>"
    using assms(1) by (simp add: pqm_init_def)
  have "dev_ok (pdd_ptr pdd) (dqms st dev) (pdd_qpd pdd) []" if "get_pdd dev st = Some pdd" for dev pdd
    using assms(2) [of dev pdd] that by (simp add: s pdd_idle_def dev_ok_def)
  then show ?thesis
    by (simp add: pqm_inv_def s ids_wf_def refs_def List.map_filter_simps bits_of_def test_bitmap_zalloc)
qed

lemma refused_links:
  assumes l: "linked p dqm = Some qs" and f: "destroy_refused env qp p dqm" and o: "ops_destroy_queue env qp p dqm = (r, dqm')"
  shows "relinks p qs dqm dqm'"
proof -
  obtain qpd where g: "get_qpd dqm p = Some qpd" "qs = map q_ptr (queues_list qpd)" using l by (auto simp: linked_def)
  obtain q where q: "find_queue qp qpd = Some q" using f g by (auto simp: destroy_refused_def split: option.splits)
  have ptr: "qpd_ptr qpd = p" using get_qpd_Some [OF g(1)] by simp
  show ?thesis
  proof (cases "sched_policy dqm = KFD_SCHED_POLICY_NO_HWS")
    case True
    with f g q have "destroy_queue_nocpsch env q dqm qpd = (Err EINVAL, dqm, qpd)"
      by (simp add: destroy_refused_def destroy_queue_nocpsch_def destroy_queue_nocpsch_locked_def)
    with o True g q have "dqm' = put_qpd qpd dqm" by (simp add: ops_destroy_queue_def with_process_def on_qpd_def)
    with ptr g(2) show ?thesis by (auto intro: relinksI)
  next
    case False
    obtain wt qpd1 where wq: "wait_on_destroy_queue qp qpd = (wt, qpd1)" by fastforce
    have v: "qpd_ptr qpd1 = p" "map q_ptr (queues_list qpd1) = qs" "is_debug qpd1 = is_debug qpd"
      "wt = (\<not> is_debug qpd \<and> debug_trap_enabled qpd \<and> is_suspended (properties q))"
      using wq q g ptr by (auto simp: wait_on_destroy_queue_def put_queue_def split: if_splits)
    let ?d = "put_qpd qpd1 dqm"
    have g1: "get_qpd ?d p = Some qpd1" using g(1) v(1) by (simp add: get_put_qpd)
    have "qp \<in> set qs" using find_queue_Some [OF q] g(2) by auto
    then obtain q1 where q1: "find_queue qp qpd1 = Some q1" using v(2) find_queue_ex [of qp qpd1] by auto
    have "dqm' = ?d"
      using o False f g q wq v g1 q1
      by (auto simp: ops_destroy_queue_def destroy_refused_def destroy_queue_cpsch_def with_process_def
          destroy_queue_cpsch_finish_def destroy_queue_cpsch_locked_def Let_def split: if_splits)
    with v show ?thesis by (auto intro: relinksI)
  qed
qed

lemma refused_registered:
  assumes inv: "pqm_inv st" and n: "get_queue_by_qid qid st = Some n" "pqn_q n = Some x" and a: "removal_answered env x st"
    and d: "pqm_destroy_queue env qid st = (r, st')" and r: "\<not> settled r"
  shows "registered (ref_dev x) (refs (ref_dev x) (pqm_queues st)) st'"
proof -
  let ?dev = "ref_dev x" and ?rs = "refs (ref_dev x) (pqm_queues st)"
  obtain pdd where g: "get_pdd ?dev st = Some pdd" and reg: "registered ?dev ?rs st" using user_queue_registered [OF inv n] .
  have "n \<in> set (pqm_queues st)" "\<forall>n \<in> set (pqm_queues st). node_wf n"
    using get_queue_by_qid_Some [OF n(1)] inv by (simp_all add: pqm_inv_def ids_wf_def)
  then have kq: "pqn_kq n = None" using n(2) by (metis node_wf_def option.distinct(1))
  obtain d' where o: "ops_destroy_queue (pe_hw env) (ref_ptr x) (pdd_ptr pdd) (dqms st ?dev) = (r, d')" and e: "st' = set_dqm ?dev d' st"
    using d n g kq r by (auto simp: pqm_destroy_queue_def node_dev_def pqm_destroy_diq_def settled_def Let_def split: prod.splits if_splits)
  have l: "linked (pdd_ptr pdd) (dqms st ?dev) = Some ?rs" using reg g by (auto simp: registered_def)
  have "destroy_refused (pe_hw env) (ref_ptr x) (pdd_ptr pdd) (dqms st ?dev)" using a g o r by (simp add: removal_answered_def)
  from registered_relinks [OF reg g refused_links [OF l this o]] show ?thesis by (simp add: e)
qed

lemma pqm_step_inv: "pqm_step st st' \<Longrightarrow> pqm_inv st \<Longrightarrow> pqm_inv st'"
proof (induction rule: pqm_step.induct)
  case (create env dev st props wptr qd r qid db st')
  then show ?case
    using create_queue_outcome [OF create.prems, of env dev props wptr qd r qid db st']
    by (auto simp: fresh_queue_def ctx_available_def split: option.splits)
next
  case (destroy qid st n x env r st')
  show ?case
    using destroy_queue_outcome [OF destroy.prems destroy.hyps(1-3,5)]
      refused_registered [OF destroy.prems destroy.hyps(1,2,4,5)] by (auto split: if_splits)
next
  case (destroy_unknown qid st env r st')
  then show ?case by (simp add: pqm_destroy_queue_def)
next
  case (update_properties env qid p st r st')
  from update_properties_inv [OF update_properties.prems update_properties.hyps] show ?case by simp
next
  case (update_mqd env qid minfo st r st')
  from update_mqd_inv [OF update_mqd.prems update_mqd.hyps] show ?case by simp
next
  case (set_gws env qid g st r st')
  from set_gws_inv [OF set_gws.prems set_gws.hyps] show ?case by simp
next
  case (others st d)
  then show ?case by (intro others_inv)
qed

lemma pqm_reachable_inv: "pqm_reachable st \<Longrightarrow> pqm_inv st"
  by (induction rule: pqm_reachable.induct) (auto intro: init_pqm_inv pqm_step_inv)

text \<open>What the invariant says of the queues that the managers hold.\<close>

lemma pqm_inv_linked:
  assumes "pqm_inv st" "get_pdd dev st = Some pdd"
  shows "linked (pdd_ptr pdd) (dqms st dev) = None \<and> refs dev (pqm_queues st) = [] \<or>
    linked (pdd_ptr pdd) (dqms st dev) = Some (refs dev (pqm_queues st))"
  using assms by (force simp: pqm_inv_def dev_ok_def linked_def split: option.splits)

lemma find_node:
  assumes "\<forall>n \<in> set ns. node_wf n" "distinct (map node_qid ns)" "n \<in> set ns"
  shows "find (node_has (node_qid n)) ns = Some n"
  using assms
proof (induction ns)
  case (Cons m ns)
  show ?case
  proof (cases "m = n")
    case True
    with Cons.prems show ?thesis by (simp add: node_has_iff)
  next
    case False
    with Cons.prems have "n \<in> set ns" by simp
    moreover from this Cons.prems(2) have "node_qid m \<noteq> node_qid n" by (auto simp: image_iff)
    ultimately show ?thesis using Cons by (simp add: node_has_iff)
  qed
qed simp

lemma pqm_inv_ids:
  assumes "pqm_inv st"
  shows "distinct (map node_qid (pqm_queues st))"
    "test_bit i (queue_slot_bitmap st) \<longleftrightarrow> (\<exists>n \<in> set (pqm_queues st). unat (node_qid n) = i)"
    "n \<in> set (pqm_queues st) \<Longrightarrow> unat (node_qid n) < 1024 \<and> get_queue_by_qid (node_qid n) st = Some n"
proof -
  let ?ns = "pqm_queues st" and ?bm = "queue_slot_bitmap st"
  have w: "length ?bm = 1024" "\<forall>n \<in> set ?ns. node_wf n" "distinct (map node_qid ?ns)" "bits_of ?bm = unat ` node_qid ` set ?ns"
    using assms by (simp_all add: pqm_inv_def ids_wf_def)
  show "distinct (map node_qid ?ns)" by (rule w(3))
  have *: "test_bit i ?bm \<longleftrightarrow> (\<exists>n \<in> set ?ns. unat (node_qid n) = i)" for i
    using w(4) by (auto simp: mem_bits_of [symmetric])
  then show "test_bit i ?bm \<longleftrightarrow> (\<exists>n \<in> set ?ns. unat (node_qid n) = i)" .
  assume n: "n \<in> set ?ns"
  then have "unat (node_qid n) \<in> bits_of ?bm" using w(4) by auto
  then have "unat (node_qid n) < 1024" using bits_of_subset [of ?bm] w(1) by auto
  with find_node [OF w(2,3) n] show "unat (node_qid n) < 1024 \<and> get_queue_by_qid (node_qid n) st = Some n"
    by (simp add: get_queue_by_qid_def)
qed

text \<open>
  C2. In every state that creations, destructions, updates and the work of other processes can reach: the ids of the queues of a
  process are distinct, below \<^verbatim>\<open>KFD_MAX_NUM_OF_QUEUES_PER_PROCESS\<close>, exactly those marked in the bitmap, and \<^verbatim>\<open>get_queue_by_qid\<close> finds each
  queue by its id; on every device the manager holds exactly the queues that the process has nodes for, in the same order, and
  a device that the process is not registered with has none. Any allocation of a creation may fail except that of the process
  context and the one in \<^verbatim>\<open>register_process\<close>, and the hardware may answer anything except that it answers the removal of a queue
  with success, \<^verbatim>\<open>ETIME\<close> or \<^verbatim>\<open>EIO\<close> once the manager has unlinked it; a manager without hardware scheduler runs while queues are
  destroyed, and queues are not debug queues.
\<close>

theorem pqm_reachable_consistent:
  assumes "pqm_reachable st"
  shows "distinct (map node_qid (pqm_queues st)) \<and>
    (\<forall>n \<in> set (pqm_queues st). unat (node_qid n) < KFD_MAX_NUM_OF_QUEUES_PER_PROCESS \<and>
       get_queue_by_qid (node_qid n) st = Some n) \<and>
    (\<forall>i. test_bit i (queue_slot_bitmap st) \<longleftrightarrow> (\<exists>n \<in> set (pqm_queues st). unat (node_qid n) = i)) \<and>
    (\<forall>dev pdd. get_pdd dev st = Some pdd \<longrightarrow>
       (case linked (pdd_ptr pdd) (dqms st dev) of
          None \<Rightarrow> refs dev (pqm_queues st) = []
        | Some qs \<Rightarrow> qs = refs dev (pqm_queues st)))"
proof -
  note inv = pqm_reachable_inv [OF assms]
  have "case linked (pdd_ptr pdd) (dqms st dev) of None \<Rightarrow> refs dev (pqm_queues st) = []
      | Some qs \<Rightarrow> qs = refs dev (pqm_queues st)" if "get_pdd dev st = Some pdd" for dev pdd
    using pqm_inv_linked [OF inv that] by auto
  with pqm_inv_ids [OF inv] show ?thesis by simp
qed

section \<open>Creation and destruction\<close>

lemma create_takes_slot:
  assumes "pqm_create_queue env dev props wptr qd st = (OK, qid, db, st')"
  obtains st1 where "pqm_take_slot qd st = (OK, qid, st1)"
proof -
  obtain rt q1 st1 where t: "pqm_take_slot qd st = (rt, q1, st1)" by (metis prod_cases3)
  with assms have "rt = OK \<and> q1 = qid"
    by (auto simp: pqm_create_queue_def Let_def split: option.splits if_splits retval.splits sum.splits prod.splits)
  with t that show thesis by simp
qed

text \<open>The queues of the process on a device, whether it is registered or not.\<close>

definition held :: "nat \<Rightarrow> process_queue_manager \<Rightarrow> nat list" where
  "held dev st = (case get_pdd dev st of
     None \<Rightarrow> [] | Some pdd \<Rightarrow> (case linked (pdd_ptr pdd) (dqms st dev) of None \<Rightarrow> [] | Some qs \<Rightarrow> qs))"

lemma pqm_inv_held: "pqm_inv st \<Longrightarrow> held dev st = refs dev (pqm_queues st)"
proof (cases "get_pdd dev st")
  case None
  assume "pqm_inv st"
  with None have "\<not> refs dev (pqm_queues st) \<noteq> []" unfolding refs_ne by (auto simp: pqm_inv_def)
  with None show ?thesis by (simp add: held_def)
next
  case (Some pdd)
  assume "pqm_inv st"
  from pqm_inv_linked [OF this Some] Some show ?thesis by (auto simp: held_def)
qed

lemma register_adds:
  obtains q where "dqm_queues (snd (register_process True b qpd dqm)) = q # dqm_queues dqm" "qview q = qview qpd"
proof -
  obtain r q where u: "update_qpd dqm (qpd\<lparr>page_table_base := b\<rparr>) = (r, q)" by fastforce
  have "dqm_queues (snd (register_process True b qpd dqm)) = q # dqm_queues dqm" using u by (simp add: register_process_def)
  with update_qpd_frame [OF u] that show thesis by simp
qed

text \<open>Registering a process that the manager does not show any queue for.\<close>

lemma pqm_register_adds:
  assumes "no_queues pdd st" "get_pdd dev st = Some pdd"
  obtains q where "dqm_queues (dqms (pqm_register env pdd st) dev) = q # dqm_queues (dqms st dev)"
    "qpd_ptr q = pdd_ptr pdd" "queues_list q = []" "priv_queue_list q = []"
proof -
  have d: "pdd_dev pdd = dev" using get_pdd_dev [OF assms(2)] .
  obtain q where q: "dqm_queues (snd (register_process True (pe_pd_base env) (the_qpd pdd st) (dqms st dev))) = q # dqm_queues (dqms st dev)"
    "qview q = qview (the_qpd pdd st)" using register_adds .
  show thesis
    by (rule that [of q]) (use q d assms(1) the_qpd_ptr [of pdd st] in \<open>auto simp: pqm_register_def no_queues_def qview_def\<close>)
qed

text \<open>A creation for which the process context is missing: it returns after the id was taken and the process registered.\<close>

lemma create_no_ctx:
  assumes x: "\<not> ctx_available env dev st" and c: "pqm_create_queue env dev props wptr qd st = (r, qid, db, st')"
    and len: "length (queue_slot_bitmap st) = 1024"
  shows "r \<noteq> OK \<and> pqm_queues st' = pqm_queues st \<and> (\<forall>d. held d st' = held d st) \<and>
    (queue_slot_bitmap st' = queue_slot_bitmap st \<or>
     \<not> test_bit (unat qid) (queue_slot_bitmap st) \<and> queue_slot_bitmap st' = set_bit_at (unat qid) (queue_slot_bitmap st))"
proof -
  obtain pdd where g: "get_pdd dev st = Some pdd" using x by (auto simp: ctx_available_def split: option.splits)
  obtain e where m: "uses_mes (dqms st dev)" "\<not> proc_ctx_cpu_ptr pdd" "pe_proc_ctx env = Inl e"
    using x g by (auto simp: ctx_available_def isl_def)
  have d: "pdd_dev pdd = dev" using get_pdd_dev [OF g] .
  obtain rt q1 st1 where t: "pqm_take_slot qd st = (rt, q1, st1)" by (metis prod_cases3)
  show ?thesis
  proof (cases "queue_count (the_qpd pdd st) \<ge> max_queues st dev (the_qpd pdd st) (qtype props) \<or> rt \<noteq> OK")
    case True
    have "rt \<noteq> OK \<Longrightarrow> st1 = st"
      using t by (auto simp: pqm_take_slot_def assign_queue_slot_by_qid_def find_available_queue_slot_def Let_def
        split: option.splits if_splits prod.splits)
    then have "r \<noteq> OK" "st' = st" using True c t g by (auto simp: pqm_create_queue_def split: retval.splits if_splits)
    then show ?thesis by simp
  next
    case False
    then have t1: "pqm_take_slot qd st = (OK, q1, st1)" using t by simp
    note slot = take_slot_ok [OF t1 len]
    define st2 where "st2 = (if no_queues pdd st1 then pqm_register env pdd st1 else st1)"
    have s1: "st1 = st\<lparr>queue_slot_bitmap := set_bit_at (unat q1) (queue_slot_bitmap st)\<rparr>" by (rule slot(3))
    have "uses_mes (dqms st2 dev)"
      using m(1) d s1 by (auto simp: st2_def pqm_register_def register_process_def split: prod.splits)
    then have "pqm_proc_ctx env pdd st2 = Inl e" using m(2,3) d by (simp add: pqm_proc_ctx_def)
    then have o: "r = Err e" "qid = q1" "st' = st2"
      using c False unfolding pqm_create_queue_def g option.case t1 prod.case retval.case Let_def st2_def [symmetric] by auto
    have h1: "held y st1 = held y st" for y by (simp add: s1 held_def get_pdd_def split: option.splits)
    have "held y st2 = held y st1" for y
    proof (cases "no_queues pdd st1")
      case nq: True
      have g1: "get_pdd dev st1 = Some pdd" using g by (simp add: s1 get_pdd_def)
      obtain q where q: "dqm_queues (dqms (pqm_register env pdd st1) dev) = q # dqm_queues (dqms st1 dev)"
        "qpd_ptr q = pdd_ptr pdd" "queues_list q = []" using pqm_register_adds [OF nq g1] by metis
      have "linked (pdd_ptr pdd) (dqms st1 dev) \<in> {None, Some []}"
        using nq d by (auto simp: no_queues_def the_qpd_def linked_def split: option.splits)
      moreover have "linked (pdd_ptr pdd) (dqms st2 dev) = Some []" using q nq by (simp add: st2_def linked_def get_qpd_def)
      moreover have "get_pdd z st2 = get_pdd z st1" "z \<noteq> dev \<Longrightarrow> dqms st2 z = dqms st1 z" for z
        using nq d by (simp_all add: st2_def pqm_register_def get_pdd_def set_dqm_def)
      ultimately show ?thesis using g1 by (cases "y = dev") (auto simp: held_def split: option.splits)
    qed (simp add: st2_def)
    then have "\<forall>y. held y st2 = held y st" using h1 by simp
    moreover have "pqm_queues st2 = pqm_queues st" "queue_slot_bitmap st2 = set_bit_at (unat q1) (queue_slot_bitmap st)"
      by (simp_all add: st2_def s1 pqm_register_def set_dqm_def)
    ultimately show ?thesis using o slot by simp
  qed
qed

text \<open>
  C3. Creating a user queue is all or nothing, over the process queue manager and the device queue manager: a call that fails, at
  whatever allocation or firmware request, leaves the list of queues and the queues held on every device as they were, and the bitmap of
  ids too, except that the id stays taken when the process context could not be allocated. A call that succeeds takes an id
  that was free, the requested one when a queue is restored and otherwise the lowest free one, records it, and the
  manager of the device holds one more queue while the other devices are unchanged. Queues are not debug queues, \<^verbatim>\<open>kzalloc\<close> returns
  fresh memory, and the allocation in \<^verbatim>\<open>register_process\<close>, whose failure the code ignores, succeeds.
\<close>

theorem pqm_create_all_or_nothing:
  assumes "pqm_reachable st" and "fresh_queue env dev st" and "qtype props \<noteq> KFD_QUEUE_TYPE_DIQ"
    and "pqm_create_queue env dev props wptr qd st = (r, qid, db, st')"
  shows "(r \<noteq> OK \<longrightarrow> pqm_queues st' = pqm_queues st \<and> (\<forall>d. held d st' = held d st) \<and>
      (queue_slot_bitmap st' = queue_slot_bitmap st \<or>
       \<not> ctx_available env dev st \<and> queue_slot_bitmap st' = set_bit_at (unat qid) (queue_slot_bitmap st))) \<and>
    (r = OK \<longrightarrow> \<not> test_bit (unat qid) (queue_slot_bitmap st) \<and>
      (case qd of Some x \<Rightarrow> qid = qd_q_id x | None \<Rightarrow> \<forall>i < unat qid. test_bit i (queue_slot_bitmap st)) \<and>
      queue_slot_bitmap st' = set_bit_at (unat qid) (queue_slot_bitmap st) \<and>
      (\<exists>n x. pqm_queues st' = n # pqm_queues st \<and> pqn_q n = Some x \<and> ref_qid x = qid \<and> ref_dev x = dev \<and>
         held dev st' = ref_ptr x # held dev st \<and> (\<forall>d. d \<noteq> dev \<longrightarrow> held d st' = held d st)))"
proof (cases "ctx_available env dev st")
  case False
  have "length (queue_slot_bitmap st) = 1024" using pqm_reachable_inv [OF assms(1)] by (simp add: pqm_inv_def ids_wf_def)
  from create_no_ctx [OF False assms(4) this] False show ?thesis by auto
next
  case ctx: True
  note inv = pqm_reachable_inv [OF assms(1)]
  have o: "pqm_inv st' \<and> (if r = OK then created dev st qid st'
    else pqm_queues st' = pqm_queues st \<and> queue_slot_bitmap st' = queue_slot_bitmap st)"
    using create_queue_outcome [OF inv _ assms(3) _ assms(4)] assms(2) ctx
    by (auto simp: fresh_queue_def ctx_available_def split: option.splits)
  note h = pqm_inv_held [OF inv] pqm_inv_held [OF conjunct1 [OF o]]
  show ?thesis
  proof (cases "r = OK")
    case False
    with o h show ?thesis by simp
  next
    case True
    obtain st1 where t: "pqm_take_slot qd st = (OK, qid, st1)"
      using create_takes_slot [OF assms(4) [unfolded True]] .
    have "length (queue_slot_bitmap st) = 1024" using inv by (simp add: pqm_inv_def ids_wf_def)
    note slot = take_slot_ok [OF t this]
    obtain n x where n: "pqn_q n = Some x" "ref_dev x = dev" "ref_qid x = qid" "pqm_queues st' = n # pqm_queues st"
      "queue_slot_bitmap st' = set_bit_at (unat qid) (queue_slot_bitmap st)"
      using o True by (auto simp: created_def)
    have "held dev st' = ref_ptr x # held dev st" "\<And>d. d \<noteq> dev \<Longrightarrow> held d st' = held d st"
      using n by (simp_all add: h refs_Cons)
    with True n slot(2,4,5) show ?thesis by (cases qd) auto
  qed
qed

text \<open>
  C4. Destroying a queue right after creating it gives back everything: the list of queues, the bitmap of ids and the queues held on
  every device are those from before the creation. It is enough that the destruction answers with success or with
  one of the codes after which the caller gives the queue up.
\<close>

theorem pqm_create_destroy_roundtrip:
  assumes "pqm_reachable st" and "fresh_queue env dev st" and "ctx_available env dev st"
    and "qtype props \<noteq> KFD_QUEUE_TYPE_DIQ"
    and "pqm_create_queue env dev props wptr qd st = (OK, qid, db, st1)"
    and "dqm_up (pe_hw env') (dqms st1 dev)" and "pqm_destroy_queue env' qid st1 = (r, st2)" and "settled r"
  shows "pqm_queues st2 = pqm_queues st \<and> queue_slot_bitmap st2 = queue_slot_bitmap st \<and> (\<forall>d. held d st2 = held d st)"
proof -
  note inv = pqm_reachable_inv [OF assms(1)]
  have o: "pqm_inv st1" "created dev st qid st1"
    using create_queue_outcome [OF inv _ assms(4) _ assms(5)] assms(2,3)
    by (auto simp: fresh_queue_def ctx_available_def split: option.splits)
  then obtain n x where n: "pqn_q n = Some x" "ref_dev x = dev" "ref_qid x = qid" "pqm_queues st1 = n # pqm_queues st"
      "queue_slot_bitmap st1 = set_bit_at (unat qid) (queue_slot_bitmap st)" "\<not> test_bit (unat qid) (queue_slot_bitmap st)"
    by (auto simp: created_def)
  have has: "node_has qid n" using n by (simp add: node_has_def)
  then have g: "get_queue_by_qid qid st1 = Some n" using n(4) by (simp add: get_queue_by_qid_def)
  have d: "pqm_inv st2 \<and> pqm_queues st2 = list_del_node qid (pqm_queues st1) \<and>
      queue_slot_bitmap st2 = clear_bit_at (unat qid) (queue_slot_bitmap st1)"
    using destroy_queue_outcome [OF o(1) g n(1) _ assms(7)] assms(6,8) n(2) by simp
  then have q: "pqm_queues st2 = pqm_queues st" "queue_slot_bitmap st2 = queue_slot_bitmap st"
    using n(4-6) has by (simp_all add: clear_set_bit_at)
  with d pqm_inv_held [OF inv] pqm_inv_held [of st2] show ?thesis by simp
qed


section \<open>A missing process context\<close>

lemma create_keeps_ptrs:
  assumes "pqm_create_by_type env pdd props wptr qd qid st = (OK, n, st')" "pdd_dev pdd = dev"
    "linked (pdd_ptr pdd) (dqms st dev) = Some []" "qtype props \<noteq> KFD_QUEUE_TYPE_DIQ"
  shows "map qpd_ptr (dqm_queues (dqms st' dev)) = map qpd_ptr (dqm_queues (dqms st dev))"
proof -
  have c: "pqm_create_user_queue env pdd props wptr qd qid st = (OK, n, st')"
    using assms(1,4) by (auto simp: pqm_create_by_type_def split: if_splits)
  obtain q dqm' where o: "ops_create_queue (pe_hw env) q (map_option criu_queue.truncate qd) (pdd_ptr pdd) (dqms st dev) = (OK, dqm')"
      "dqms st' dev = dqm'"
    using c assms(2) by (auto simp: pqm_create_user_queue_def Let_def split: prod.splits sum.splits)
  from ops_create_links [OF assms(3) _ o(1)] o(2) show ?thesis by (auto dest: relinks_ptrs)
qed

lemma proc_ctx_ptrs:
  assumes "pqm_proc_ctx env pdd st = Inr st'" "pdd_dev pdd = dev" "linked (pdd_ptr pdd) (dqms st dev) = Some rs"
  shows "map qpd_ptr (dqm_queues (dqms st' dev)) = map qpd_ptr (dqm_queues (dqms st dev))"
    "linked (pdd_ptr pdd) (dqms st' dev) = Some rs"
proof -
  let ?w = "\<lambda>a. write_qpd (pdd\<lparr>proc_ctx_cpu_ptr := True\<rparr>) ((the_qpd pdd st)\<lparr>proc_ctx_gpu_addr := a\<rparr>) st"
  have s: "st' = st \<or> (\<exists>a. st' = ?w a)" using assms(1) by (auto simp: pqm_proc_ctx_def split: if_splits sum.splits)
  have "map qpd_ptr (dqm_queues (dqms (?w a) dev)) = map qpd_ptr (dqm_queues (dqms st dev))" for a
    using assms(2) by (simp add: write_qpd_def put_qpd_def)
  with s show "map qpd_ptr (dqm_queues (dqms st' dev)) = map qpd_ptr (dqm_queues (dqms st dev))" by auto
  have "map q_ptr (queues_list (the_qpd pdd st)) = rs" using assms(2,3) by (auto simp: the_qpd_def linked_def)
  then have "linked (pdd_ptr pdd) (dqms (?w a) dev) = Some rs" for a
    using assms(2,3) the_qpd_ptr [of pdd st] by (simp add: write_qpd_def linked_put)
  with s assms(3) show "linked (pdd_ptr pdd) (dqms st' dev) = Some rs" by auto
qed

text \<open>The creation that fails for the process context, and a creation that succeeds for a process without queues.\<close>

lemma create_ctx_failure:
  assumes inv: "pqm_inv st" and g: "get_pdd dev st = Some pdd" and n0: "linked (pdd_ptr pdd) (dqms st dev) = None"
    and mes: "uses_mes (dqms st dev)" "\<not> proc_ctx_cpu_ptr pdd" "pe_proc_ctx env = Inl e"
    and lim: "queue_count (the_qpd pdd st) < max_queues st dev (the_qpd pdd st) (qtype props)"
    and t: "pqm_take_slot qd st = (OK, qid, st0)"
    and c: "pqm_create_queue env dev props wptr qd st = (r, qid', db, st')"
  obtains q where "r = Err e" "dqm_queues (dqms st' dev) = q # dqm_queues (dqms st dev)" "qpd_ptr q = pdd_ptr pdd"
    "queues_list q = []" "priv_queue_list q = []" "get_pdd dev st' = Some pdd" "pqm_queues st' = pqm_queues st"
    "queue_slot_bitmap st' = set_bit_at (unat qid) (queue_slot_bitmap st)"
proof -
  have d: "pdd_dev pdd = dev" using get_pdd_dev [OF g] .
  have "length (queue_slot_bitmap st) = 1024" using inv by (simp add: pqm_inv_def ids_wf_def)
  note slot = take_slot_ok(3) [OF t this]
  have nq: "no_queues pdd st0"
    using pqm_invD [OF inv g] g d slot n0 by (auto simp: consistent_def dev_ok_def no_queues_def the_qpd_def linked_def)
  have g0: "get_pdd dev st0 = Some pdd" "dqms st0 = dqms st" using g slot by simp_all
  obtain q where q: "dqm_queues (dqms (pqm_register env pdd st0) dev) = q # dqm_queues (dqms st0 dev)"
    "qpd_ptr q = pdd_ptr pdd" "queues_list q = []" "priv_queue_list q = []" using pqm_register_adds [OF nq g0(1)] .
  have "uses_mes (dqms (pqm_register env pdd st0) dev)"
    using mes(1) d slot by (auto simp: pqm_register_def register_process_def split: prod.splits)
  then have px: "pqm_proc_ctx env pdd (pqm_register env pdd st0) = Inl e"
    using mes(2,3) d by (simp add: pqm_proc_ctx_def)
  have "(r, qid', db, st') = (Err e, qid, 0, pqm_register env pdd st0)"
    using lim unfolding not_le [symmetric] c [symmetric] pqm_create_queue_def g option.case t prod.case retval.case Let_def
    by (simp add: nq px)
  then have "r = Err e" "st' = pqm_register env pdd st0" by simp_all
  then show thesis using that [of q] q g0 slot by (simp add: pqm_register_def)
qed

lemma create_registers:
  assumes g: "get_pdd dev st = Some pdd" and nq: "no_queues pdd st" and len: "length (queue_slot_bitmap st) = 1024"
    and c: "pqm_create_queue env dev props wptr qd st = (OK, qid, db, st')" and ty: "qtype props \<noteq> KFD_QUEUE_TYPE_DIQ"
  shows "map qpd_ptr (dqm_queues (dqms st' dev)) = pdd_ptr pdd # map qpd_ptr (dqm_queues (dqms st dev))"
proof -
  have d: "pdd_dev pdd = dev" using get_pdd_dev [OF g] .
  obtain st1 where t: "pqm_take_slot qd st = (OK, qid, st1)" using create_takes_slot [OF c] .
  have st1: "dqms st1 = dqms st" "get_pdd dev st1 = Some pdd" "no_queues pdd st1"
    using take_slot_ok(3) [OF t len] g nq by simp_all
  define stR where "stR = pqm_register env pdd st1"
  obtain q where q: "dqm_queues (dqms stR dev) = q # dqm_queues (dqms st dev)"
    "qpd_ptr q = pdd_ptr pdd" "queues_list q = []" using pqm_register_adds [OF st1(3,2)] st1(1) by (metis stR_def)
  then have lR: "linked (pdd_ptr pdd) (dqms stR dev) = Some []" by (simp add: linked_def get_qpd_def)
  obtain st3 n st4 where s: "pqm_proc_ctx env pdd stR = Inr st3" "pqm_create_by_type env pdd props wptr qd qid st3 = (OK, Some n, st4)"
      "st' = st4\<lparr>pqm_queues := n # pqm_queues st4\<rparr>"
    using c unfolding pqm_create_queue_def g option.case t prod.case retval.case Let_def
    by (auto simp: st1(3) stR_def [symmetric] split: if_splits sum.splits prod.splits retval.splits option.splits)
  note x = proc_ctx_ptrs [OF s(1) d lR]
  show ?thesis using create_keeps_ptrs [OF s(2) d x(2) ty] x(1) q by (simp add: s(3))
qed

lemma free_id_unknown:
  assumes "pqm_inv st" "\<not> test_bit (unat qid) (queue_slot_bitmap st)"
  shows "get_queue_by_qid qid st = None"
proof (rule ccontr)
  assume "get_queue_by_qid qid st \<noteq> None"
  then obtain n where n: "n \<in> set (pqm_queues st)" "node_has qid n" using get_queue_by_qid_Some by blast
  moreover have "node_wf n" using assms(1) n(1) by (simp add: pqm_inv_def ids_wf_def)
  ultimately have "node_qid n = qid" by (simp add: node_has_iff)
  with pqm_inv_ids(2) [OF assms(1), of "unat qid"] n(1) assms(2) show False by auto
qed

text \<open>
  When MES needs a process context and its memory cannot be allocated, \<^verbatim>\<open>pqm_create_queue\<close> returns at once instead of going to its
  error label. The id stays taken although no queue has it, and the process stays registered with the
  manager without a queue. The next creation, if it succeeds, registers the process again, since it looks for queues
  and not for the registration: the process is then in the manager's list twice.
\<close>

theorem pqm_create_ctx_failure_leaks:
  assumes "pqm_reachable st" and "get_pdd dev st = Some pdd" and "linked (pdd_ptr pdd) (dqms st dev) = None"
    and "uses_mes (dqms st dev)" and "\<not> proc_ctx_cpu_ptr pdd" and "pe_proc_ctx env = Inl e"
    and "queue_count (the_qpd pdd st) < max_queues st dev (the_qpd pdd st) (qtype props)"
    and "pqm_take_slot qd st = (OK, qid, st0)"
    and "pqm_create_queue env dev props wptr qd st = (r1, qid1, db1, st1)"
    and "pqm_create_queue env' dev props' wptr' qd' st1 = (OK, qid2, db2, st2)" and "qtype props' \<noteq> KFD_QUEUE_TYPE_DIQ"
  shows "r1 = Err e \<and> test_bit (unat qid) (queue_slot_bitmap st1) \<and> get_queue_by_qid qid st1 = None \<and>
    linked (pdd_ptr pdd) (dqms st1 dev) = Some [] \<and>
    count_list (map qpd_ptr (dqm_queues (dqms st1 dev))) (pdd_ptr pdd) = 1 \<and>
    count_list (map qpd_ptr (dqm_queues (dqms st2 dev))) (pdd_ptr pdd) = 2"
proof -
  note inv = pqm_reachable_inv [OF assms(1)]
  have len: "length (queue_slot_bitmap st) = 1024" using inv by (simp add: pqm_inv_def ids_wf_def)
  note slot = take_slot_ok(1,2) [OF assms(8) len]
  obtain q where q: "r1 = Err e" "dqm_queues (dqms st1 dev) = q # dqm_queues (dqms st dev)" "qpd_ptr q = pdd_ptr pdd"
    "queues_list q = []" "priv_queue_list q = []" "get_pdd dev st1 = Some pdd" "pqm_queues st1 = pqm_queues st"
    "queue_slot_bitmap st1 = set_bit_at (unat qid) (queue_slot_bitmap st)"
    using create_ctx_failure [OF inv assms(2-9)] .
  have gq: "get_qpd (dqms st1 dev) (pdd_ptr pdd) = Some q" using q(2,3) by (simp add: get_qpd_def)
  have "no_queues pdd st1" using gq q(4,5) get_pdd_dev [OF assms(2)] by (simp add: no_queues_def the_qpd_def)
  from create_registers [OF q(6) this _ assms(10,11)] q(8) len
  have ptrs: "map qpd_ptr (dqm_queues (dqms st2 dev)) = pdd_ptr pdd # map qpd_ptr (dqm_queues (dqms st1 dev))" by simp
  have "pdd_ptr pdd \<notin> qpd_ptr ` set (dqm_queues (dqms st dev))" using assms(3) by (simp add: linked_def get_qpd_None)
  then have "count_list (map qpd_ptr (dqm_queues (dqms st dev))) (pdd_ptr pdd) = 0" by (simp add: count_list_0_iff)
  moreover have "get_queue_by_qid qid st1 = None"
    using free_id_unknown [OF inv slot(2)] q(7) by (simp add: get_queue_by_qid_def)
  ultimately show ?thesis using q gq ptrs slot(1) len by (simp add: linked_def bitmap_simps)
qed

section \<open>A destruction that the firmware refuses\<close>

lemma decrement_frame:
  "decrement_queue_count dqm qpd q = (dqm', qpd') \<Longrightarrow> uses_mes dqm' = uses_mes dqm \<and> is_hws_hang dqm' = is_hws_hang dqm \<and>
   sched_policy dqm' = sched_policy dqm"
  by (auto simp: decrement_queue_count_def Let_def split: if_splits)

lemma find_put_queue:
  assumes "find_queue qp qpd = Some q" "q_ptr q' = qp"
  shows "find_queue qp (put_queue q' qpd) = Some q'"
proof -
  have "find (\<lambda>x. q_ptr x = qp) (map (\<lambda>x. if q_ptr x = q_ptr q' then q' else x) qs) = Some q'"
    if "find (\<lambda>x. q_ptr x = qp) qs = Some q" for qs
    using that assms(2) by (induction qs) (auto split: if_splits)
  with assms(1) show ?thesis by (simp add: find_queue_def put_queue_def list_put_queue_def)
qed

lemma destroy_locked_mes_refused:
  assumes mes: "uses_mes dqm" "\<not> is_hws_hang dqm" and st: "is_active (properties q)" "\<not> is_debug qpd"
    and fw: "\<And>i. he_mes_remove env i = Err e" and d: "destroy_queue_cpsch_locked env dqm qpd q = (r, dqm')"
  shows "r = Err e" "sched_policy dqm' = sched_policy dqm"
proof -
  let ?sdma = "is_sdma_type (qtype (properties q))"
  define qpd1 where "qpd1 = deallocate_doorbell dqm qpd q"
  define dqm1 where "dqm1 = (if ?sdma then deallocate_sdma_queue dqm q else dqm)"
  define qpd2 where "qpd2 = (if ?sdma then qpd1\<lparr>sdma_past_activity_counter :=
    sdma_past_activity_counter qpd1 + he_sdma_counter env\<rparr> else qpd1)"
  define qpd3 where "qpd3 = qpd2\<lparr>queues_list := list_del_queue q (queues_list qpd2), queue_count := queue_count qpd2 - 1\<rparr>"
  obtain dqm2 qpd4 where dec: "decrement_queue_count dqm1 qpd3 q = (dqm2, qpd4)" by fastforce
  let ?d3 = "put_qpd qpd4 dqm2"
  have "uses_mes dqm1" "\<not> is_hws_hang dqm1" using mes by (simp_all add: dqm1_def deallocate_sdma_queue_def)
  then have u: "uses_mes ?d3" "\<not> is_hws_hang ?d3" using decrement_frame [OF dec] by (simp_all add: put_qpd_def)
  then have x: "remove_queue_mes env ?d3 q = (Err e, kfd_hws_hang ?d3)" using fw by (simp add: remove_queue_mes_def)
  have "(r, dqm') = (Err e, (kfd_hws_hang ?d3)\<lparr>total_queue_count := total_queue_count (kfd_hws_hang ?d3) - 1\<rparr>)"
    using st u unfolding d [symmetric] destroy_queue_cpsch_locked_def Let_def qpd1_def [symmetric] dqm1_def [symmetric]
      qpd2_def [symmetric] qpd3_def [symmetric] dec prod.case by (simp add: x)
  moreover have "sched_policy (kfd_hws_hang ?d3) = sched_policy dqm"
    using decrement_frame [OF dec] by (simp add: kfd_hws_hang_def put_qpd_def dqm1_def deallocate_sdma_queue_def Let_def)
  ultimately show "r = Err e" "sched_policy dqm' = sched_policy dqm" by simp_all
qed

text \<open>The manager's side: the queue is unlinked before the firmware is asked.\<close>

lemma destroy_mes_refused:
  assumes g: "get_qpd dqm p = Some qpd" and q: "find_queue qp qpd = Some q" and pol: "sched_policy dqm \<noteq> KFD_SCHED_POLICY_NO_HWS"
    and mes: "uses_mes dqm" "\<not> is_hws_hang dqm" and st: "is_active (properties q)" "\<not> is_suspended (properties q)" "\<not> is_debug qpd"
    and fw: "\<And>i. he_mes_remove env i = Err e" and e: "e \<noteq> EBUSY" and d: "ops_destroy_queue env qp p dqm = (r, dqm')"
  shows "r = Err e \<and> linked p dqm' = Some (filter (\<lambda>x. x \<noteq> qp) (map q_ptr (queues_list qpd))) \<and>
    sched_policy dqm' = sched_policy dqm"
proof -
  define q1 where "q1 = q\<lparr>properties := (properties q)\<lparr>is_being_destroyed := True\<rparr>\<rparr>"
  define qpd1 where "qpd1 = put_queue q1 qpd"
  let ?d = "put_qpd qpd1 dqm"
  have qp: "q_ptr q = qp" "q \<in> set (queues_list qpd)" using find_queue_Some [OF q] by simp_all
  have v: "qpd_ptr qpd1 = p" "map q_ptr (queues_list qpd1) = map q_ptr (queues_list qpd)" "\<not> is_debug qpd1"
    using get_qpd_Some [OF g] st(3) by (auto simp: qpd1_def put_queue_def)
  have g1: "get_qpd ?d p = Some qpd1" using g v(1) by (simp add: get_put_qpd)
  have f1: "find_queue qp qpd1 = Some q1" unfolding qpd1_def by (rule find_put_queue [OF q]) (simp add: q1_def qp)
  have a1: "is_active (properties q1)" using st(1) by (simp add: q1_def)
  have lk: "destroy_queue_cpsch_locked env ?d qpd1 q1 = (r, dqm')"
    using d pol g q st(2,3) g1 f1
    by (simp add: ops_destroy_queue_def destroy_queue_cpsch_def with_process_def wait_on_destroy_queue_def
        destroy_queue_cpsch_finish_def Let_def q1_def [symmetric] qpd1_def [symmetric])
  have "uses_mes ?d" "\<not> is_hws_hang ?d" using mes by (simp_all add: put_qpd_def)
  from destroy_locked_mes_refused [OF this a1 v(3) fw lk] have "r = Err e" "sched_policy dqm' = sched_policy dqm"
    by (simp_all add: put_qpd_def)
  moreover from this destroy_cpsch_locked_links [OF g1 lk] e have
    "relinks p (filter (\<lambda>x. x \<noteq> q_ptr q1) (map q_ptr (queues_list qpd1))) ?d dqm'" by auto
  from relinks_linked [OF this] have "linked p dqm' = Some (filter (\<lambda>x. x \<noteq> qp) (map q_ptr (queues_list qpd)))"
    using g1 v(2) qp(1) by (simp add: linked_def q1_def)
  ultimately show ?thesis by simp
qed

lemma destroy_unlinked_oops:
  assumes "linked p dqm = Some qs" "qp \<notin> set qs" "sched_policy dqm \<noteq> KFD_SCHED_POLICY_NO_HWS"
  shows "fst (ops_destroy_queue env qp p dqm) = Err OOPS"
proof -
  obtain qpd where g: "get_qpd dqm p = Some qpd" "qs = map q_ptr (queues_list qpd)" using assms(1) by (auto simp: linked_def)
  then have f: "find_queue qp qpd = None" using assms(2) by (auto simp: find_queue_def find_None_iff)
  then have w: "wait_on_destroy_queue qp qpd = (False, qpd)" by (simp add: wait_on_destroy_queue_def)
  have "get_qpd (put_qpd qpd dqm) p = Some qpd" using g(1) get_qpd_Some [OF g(1)] by (simp add: get_put_qpd)
  with assms(3) g(1) f w show ?thesis
    by (simp add: ops_destroy_queue_def destroy_queue_cpsch_def with_process_def destroy_queue_cpsch_finish_def Let_def)
qed

lemma destroy_user_queue:
  assumes "get_queue_by_qid qid st = Some n" "pqn_q n = Some x" "pqn_kq n = None" "get_pdd (ref_dev x) st = Some pdd"
    "ops_destroy_queue (pe_hw env) (ref_ptr x) (pdd_ptr pdd) (dqms st (ref_dev x)) = (r, d)" "\<not> settled r"
  shows "pqm_destroy_queue env qid st = (r, set_dqm (ref_dev x) d st)"
  using assms by (auto simp: pqm_destroy_queue_def node_dev_def pqm_destroy_diq_def settled_def Let_def)

text \<open>
  Destroying an active queue that the MES firmware does not remove in time: the answer is \<^verbatim>\<open>-ETIMEDOUT\<close>, which is neither
  \<^verbatim>\<open>-ETIME\<close> nor \<^verbatim>\<open>-EIO\<close>, so \<^verbatim>\<open>pqm_destroy_queue\<close> keeps the node and the id although the manager has already unlinked the queue
  and freed its descriptor. The id is stranded: destroying it again unlinks a queue that is in no list.
\<close>

theorem pqm_destroy_mes_failure_strands:
  assumes "pqm_reachable st" and "get_queue_by_qid qid st = Some n" and "pqn_q n = Some x"
    and "get_pdd (ref_dev x) st = Some pdd" and "get_qpd (dqms st (ref_dev x)) (pdd_ptr pdd) = Some qpd"
    and "find_queue (ref_ptr x) qpd = Some q" and "is_active (properties q)" and "\<not> is_suspended (properties q)" and "\<not> is_debug qpd"
    and "sched_policy (dqms st (ref_dev x)) \<noteq> KFD_SCHED_POLICY_NO_HWS" and "uses_mes (dqms st (ref_dev x))"
    and "\<not> is_hws_hang (dqms st (ref_dev x))" and "\<And>i. he_mes_remove (pe_hw env) i = Err ETIMEDOUT"
    and "pqm_destroy_queue env qid st = (r1, st1)" and "pqm_destroy_queue env' qid st1 = (r2, st2)"
  shows "r1 = Err ETIMEDOUT \<and> get_queue_by_qid qid st1 = Some n \<and> test_bit (unat qid) (queue_slot_bitmap st1) \<and>
    ref_ptr x \<in> set (held (ref_dev x) st) \<and> ref_ptr x \<notin> set (held (ref_dev x) st1) \<and> r2 = Err OOPS"
proof -
  note inv = pqm_reachable_inv [OF assms(1)]
  let ?dev = "ref_dev x"
  have nin: "n \<in> set (pqm_queues st)" "node_has qid n" using get_queue_by_qid_Some [OF assms(2)] by simp_all
  have wf: "node_wf n" using inv nin(1) by (simp add: pqm_inv_def ids_wf_def)
  then have kq: "pqn_kq n = None" using assms(3) by (cases "pqn_kq n") (simp_all add: node_wf_def)
  have id: "node_qid n = qid" using nin(2) wf by (simp add: node_has_iff)
  obtain r d where o: "ops_destroy_queue (pe_hw env) (ref_ptr x) (pdd_ptr pdd) (dqms st ?dev) = (r, d)" by fastforce
  note m = destroy_mes_refused [OF assms(5,6,10-12,7-9,13) _ o, simplified]
  have s1: "r1 = Err ETIMEDOUT" "st1 = set_dqm ?dev d st"
    using destroy_user_queue [OF assms(2,3) kq assms(4) o] m assms(14) by (simp_all add: settled_def)
  have g1: "get_queue_by_qid qid st1 = Some n" "get_pdd ?dev st1 = Some pdd" "dqms st1 ?dev = d"
    using assms(2,4) by (simp_all add: s1(2) get_queue_by_qid_def)
  have pol: "sched_policy d \<noteq> KFD_SCHED_POLICY_NO_HWS" using m assms(10) by simp
  have l1: "linked (pdd_ptr pdd) d = Some (filter (\<lambda>y. y \<noteq> ref_ptr x) (map q_ptr (queues_list qpd)))" using m by simp
  obtain r' d' where o2: "ops_destroy_queue (pe_hw env') (ref_ptr x) (pdd_ptr pdd) (dqms st1 ?dev) = (r', d')" by fastforce
  have "ref_ptr x \<notin> set (filter (\<lambda>y. y \<noteq> ref_ptr x) (map q_ptr (queues_list qpd)))" by simp
  from destroy_unlinked_oops [OF l1 this pol, of "pe_hw env'"] o2 g1(3) have "r' = Err OOPS" by simp
  then have "r2 = Err OOPS"
    using destroy_user_queue [OF g1(1) assms(3) kq g1(2) o2] assms(15) by (simp add: settled_def)
  moreover have "ref_ptr x \<in> set (held ?dev st)"
    using nin(1) assms(3) by (auto simp: pqm_inv_held [OF inv] set_refs)
  moreover have "ref_ptr x \<notin> set (held ?dev st1)" using g1 l1 by (simp add: held_def)
  moreover have "test_bit (unat qid) (queue_slot_bitmap st1)"
    using pqm_inv_ids(2) [OF inv, of "unat qid"] nin(1) id by (auto simp: s1(2))
  ultimately show ?thesis using s1(1) g1(1) by simp
qed

section \<open>Leaked gang contexts\<close>

text \<open>
  With MES a creation that fails at the manager loses its gang context: \<^verbatim>\<open>init_user_queue\<close> has allocated it, and the error label frees
  the \<^verbatim>\<open>struct queue\<close> only.
\<close>

theorem pqm_create_failure_leaks_gang_ctx:
  assumes "pqm_create_by_type env pdd props wptr qd qid st = (Err e, Some n, st1)" and "uses_mes (dqms st (pdd_dev pdd))"
  shows "gang_ctx_live (pqm_create_fail (pdd_dev pdd) qid st1) = gang_ctx_live st + 1"
proof -
  have "pqm_create_user_queue env pdd props wptr qd qid st = (Err e, Some n, st1)"
    using assms(1) by (auto simp: pqm_create_by_type_def pqm_create_diq_def Let_def split: if_splits option.splits prod.splits retval.splits)
  then have "gang_ctx_live st1 = gang_ctx_live st + 1"
    using assms(2) by (auto simp: pqm_create_user_queue_def Let_def set_dqm_def split: sum.splits prod.splits)
  then show ?thesis
    by (auto simp: pqm_create_fail_def Let_def pqm_unregister_def put_pdd_def set_dqm_def split: option.splits)
qed

section \<open>The end of a process\<close>

definition dequeuable :: "process_device \<Rightarrow> process_queue_manager \<Rightarrow> bool" where
  "dequeuable pdd st \<longleftrightarrow> \<not> already_dequeued pdd \<and> sched_policy (dqms st (pdd_dev pdd)) \<noteq> KFD_SCHED_POLICY_NO_HWS \<and>
     dqm_inv (dqms st (pdd_dev pdd)) \<and>
     (get_qpd (dqms st (pdd_dev pdd)) (pdd_ptr pdd) = None \<longrightarrow>
        queues_list (pdd_qpd pdd) = [] \<and> priv_queue_list (pdd_qpd pdd) = [])"

lemma terminate_unregistered:
  assumes "get_qpd dqm (qpd_ptr qpd) = None" "queues_list qpd = []" "priv_queue_list qpd = []"
    "process_termination_cpsch env qpd dqm = (r, dqm', qpd')"
  shows "get_qpd dqm' (qpd_ptr qpd) = None"
proof -
  have n: "unlink_process (qpd_ptr qpd) (dqm_queues dqm) = None"
  proof (cases "unlink_process (qpd_ptr qpd) (dqm_queues dqm)")
    case (Some rest)
    then show ?thesis by (elim unlink_process_Some) (use assms(1) in \<open>auto simp: get_qpd_None\<close>)
  qed
  let ?d3 = "snd (unregister_process (qpd_ptr qpd) dqm)"
  have d3: "dqm_queues ?d3 = dqm_queues dqm" using n by (simp add: unregister_process_def)
  have "sched_only ?d3 dqm'"
    using assms(2-4) execute_queues_frame
    by (auto simp: process_termination_cpsch_def Let_def split: prod.splits if_splits)
  from sched_only_fields(1) [OF this] d3 assms(1) show ?thesis by (simp add: get_qpd_def)
qed

lemma dequeue_device:
  assumes "dequeuable pdd st"
  obtains st1 where "kfd_process_dequeue_from_device env pdd st = Some st1"
    "get_qpd (dqms st1 (pdd_dev pdd)) (pdd_ptr pdd) = None" "\<And>d. d \<noteq> pdd_dev pdd \<Longrightarrow> dqms st1 d = dqms st d"
proof -
  let ?dqm = "dqms st (pdd_dev pdd)" and ?q = "the_qpd pdd st"
  obtain r d q where t: "process_termination_cpsch (pe_hw env) ?q ?dqm = (r, d, q)" by (metis prod_cases3)
  have gone: "get_qpd d (pdd_ptr pdd) = None"
  proof (cases "get_qpd ?dqm (pdd_ptr pdd)")
    case None
    then have "?q = pdd_qpd pdd" by (simp add: the_qpd_def)
    with None assms terminate_unregistered [OF _ _ _ t] the_qpd_ptr [of pdd st] show ?thesis by (simp add: dequeuable_def)
  next
    case (Some qpd)
    then have "?q = qpd" by (simp add: the_qpd_def)
    with terminate_cpsch_inv [OF _ Some] t assms show ?thesis by (simp add: dequeuable_def)
  qed
  show thesis
    by (rule that [of "put_pdd (pdd\<lparr>pdd_qpd := q, already_dequeued := True\<rparr>) (set_dqm (pdd_dev pdd) d st)"])
      (use assms t gone in \<open>auto simp: kfd_process_dequeue_from_device_def dequeuable_def Let_def\<close>)
qed

lemma dequeue_all:
  assumes "distinct (map pdd_dev ps)" "\<forall>pdd \<in> set ps. dequeuable pdd st"
  shows "\<exists>st1. kfd_process_dequeue_from_all_devices env ps st = Some st1 \<and>
    (\<forall>pdd \<in> set ps. get_qpd (dqms st1 (pdd_dev pdd)) (pdd_ptr pdd) = None) \<and>
    (\<forall>d. d \<notin> pdd_dev ` set ps \<longrightarrow> dqms st1 d = dqms st d)"
  using assms
proof (induction ps arbitrary: st)
  case (Cons pdd ps)
  obtain st1 where 1: "kfd_process_dequeue_from_device env pdd st = Some st1"
    "get_qpd (dqms st1 (pdd_dev pdd)) (pdd_ptr pdd) = None" "\<And>d. d \<noteq> pdd_dev pdd \<Longrightarrow> dqms st1 d = dqms st d"
    using dequeue_device [of pdd st env] Cons.prems(2) by auto
  have "pdd_dev x \<noteq> pdd_dev pdd" if "x \<in> set ps" for x using Cons.prems(1) that by (auto simp: image_iff)
  then have "\<forall>pdd \<in> set ps. dequeuable pdd st1" using Cons.prems(2) 1(3) by (simp add: dequeuable_def)
  then obtain st2 where 2: "kfd_process_dequeue_from_all_devices env ps st1 = Some st2"
    "\<forall>pdd \<in> set ps. get_qpd (dqms st2 (pdd_dev pdd)) (pdd_ptr pdd) = None" "\<forall>d. d \<notin> pdd_dev ` set ps \<longrightarrow> dqms st2 d = dqms st1 d"
    using Cons.IH [of st1] Cons.prems(1) by auto
  with 1 Cons.prems(1) show ?case by auto
qed simp

lemma clean_get_qpd: "get_qpd (dqms st d) p = None \<Longrightarrow> get_qpd (dqms (pqm_clean_queue_resource r st) d) p = None"
  by (auto simp: pqm_clean_queue_resource_def write_qpd_def Let_def get_put_qpd split: option.splits)

lemma uninit_nodes:
  "pqm_queues (pqm_uninit_nodes ns st) = (if ns = [] then pqm_queues st else [])"
  "get_qpd (dqms st d) p = None \<Longrightarrow> get_qpd (dqms (pqm_uninit_nodes ns st) d) p = None"
proof (induction ns arbitrary: st)
  case (Cons n ns)
  { case 1 show ?case using Cons.IH(1) by (auto simp: Let_def) }
  { case 2 then show ?case by (auto simp: Let_def intro!: Cons.IH(2) clean_get_qpd split: option.splits) }
qed simp_all

text \<open>
  C28. Tearing a process down on devices with a hardware scheduler removes it from every manager: \<^verbatim>\<open>kfd_process_dequeue_from_all_devices\<close>
  ends, whatever the firmware answers, and after it and \<^verbatim>\<open>pqm_uninit\<close> no manager has the process or any of its
  queues, no node is left and the bitmap is gone. This holds also for devices with which the process
  was not registered.
\<close>

theorem process_teardown_releases_devices:
  assumes "distinct (map pdd_dev (pdds st))" and "\<forall>pdd \<in> set (pdds st). dequeuable pdd st"
  shows "\<exists>st1. kfd_process_dequeue_from_all_devices env (pdds st) st = Some st1 \<and>
    pqm_queues (pqm_uninit st1) = [] \<and> queue_slot_bitmap (pqm_uninit st1) = [] \<and>
    (\<forall>pdd \<in> set (pdds st). linked (pdd_ptr pdd) (dqms (pqm_uninit st1) (pdd_dev pdd)) = None)"
proof -
  obtain st1 where 1: "kfd_process_dequeue_from_all_devices env (pdds st) st = Some st1"
    "\<forall>pdd \<in> set (pdds st). get_qpd (dqms st1 (pdd_dev pdd)) (pdd_ptr pdd) = None"
    using dequeue_all [OF assms] by blast
  have "pqm_queues (pqm_uninit st1) = []" by (simp add: pqm_uninit_def uninit_nodes(1))
  with 1 show ?thesis by (auto simp: linked_def pqm_uninit_def uninit_nodes(2))
qed

section \<open>An example\<close>

definition pdd_example :: process_device where
  "pdd_example = \<lparr>pdd_dev = 0, pdd_qpd = (qpd_example 1 0x8001 [])\<lparr>proc_doorbells := Some 0x4000, drm_priv := Some 0\<rparr>,
     proc_ctx_cpu_ptr = False, already_dequeued = False\<rparr>"

definition pqm_blank :: "bitmap \<Rightarrow> process_queue_manager" where
  "pqm_blank bm = \<lparr>pqm_queues = [], queue_slot_bitmap = bm, pdds = [pdd_example],
     dqms = (\<lambda>_. (set_kfd ((kfd (dqm_dev reach_init))\<lparr>enable_mes := True, kfd_doorbell_bitmap := []\<rparr>) reach_init)
       \<lparr>sdma_bitmap := [], xgmi_sdma_bitmap := []\<rparr>), max_no_of_hqd = (\<lambda>_. 24), gang_ctx_live = 0\<rparr>"

definition pqm_env_example :: pqm_env where
  "pqm_env_example = \<lparr>pe_hw = env_example, pe_pd_base = 0x7000, pe_proc_ctx = Inr 0xA000, pe_kz_node = True, pe_kz_queue = Some 7,
     pe_gang_ctx = Inr 0xB000, pe_kq_kz = True, pe_kq = \<lparr>ke_mqd_mgr = True, ke_pq = True, ke_eop = True, ke_rptr = True,
     ke_wptr = True, ke_queue = Some 8, ke_mqd = True, ke_hiq_sdma_mqd = kq_obj_example 0, ke_mqd_size = 512, ke_fence = True\<rparr>, pe_drain = OK, pe_gws = OK, pe_gws_size = 64\<rparr>"

definition user_queue_example :: queue_properties where
  "user_queue_example = properties (queue_example 0 KFD_QUEUE_TYPE_COMPUTE False)"

abbreviation pqm_start :: process_queue_manager where
  "pqm_start \<equiv> pqm_blank (bitmap_zalloc 1024)"

lemma start_slot:
  "pqm_take_slot None (pqm_start) = (OK, 0, pqm_blank (set_bit_at 0 (bitmap_zalloc 1024)))"
  by (simp add: pqm_take_slot_def find_available_queue_slot_def zalloc_first pqm_blank_def)

lemma pdd_of_blank: "get_pdd dev (pqm_blank bm) = (if dev = 0 then Some pdd_example else None)"
  by (simp add: get_pdd_def pqm_blank_def pdd_example_def)

text \<open>The queue that was created is active, and the firmware lets it go.\<close>

definition destroyable :: "process_queue_manager \<Rightarrow> bool" where
  "destroyable st \<longleftrightarrow> map pdd_dev (pdds st) = [0] \<and> list_all (\<lambda>pdd. dequeuable pdd st) (pdds st) \<and> fst (pqm_destroy_queue pqm_env_example 0 st) = OK \<and> uses_mes (dqms st 0) \<and> \<not> is_hws_hang (dqms st 0) \<and>
     sched_policy (dqms st 0) \<noteq> KFD_SCHED_POLICY_NO_HWS \<and>
     (case get_queue_by_qid 0 st of
        Some n \<Rightarrow> (case (pqn_q n, get_pdd 0 st) of
          (Some x, Some pdd) \<Rightarrow> ref_dev x = 0 \<and>
            (case get_qpd (dqms st 0) (pdd_ptr pdd) of
               Some qpd \<Rightarrow> \<not> is_debug qpd \<and> (case find_queue (ref_ptr x) qpd of
                 Some q \<Rightarrow> is_active (properties q) \<and> \<not> is_suspended (properties q) | None \<Rightarrow> False)
             | None \<Rightarrow> False)
        | _ \<Rightarrow> False)
      | None \<Rightarrow> False)"

lemma create_example:
  "case pqm_create_queue pqm_env_example 0 user_queue_example None None pqm_start of (r, _, _, st) \<Rightarrow> r = OK \<and> destroyable st"
proof -
  obtain bm0 bm1 where b: "bm0 = bitmap_zalloc 1024" "bm1 = set_bit_at 0 bm0" by simp
  have t: "pqm_take_slot None (pqm_blank bm0) = (OK, 0, pqm_blank bm1)" unfolding b by (rule start_slot)
  have "case pqm_create_queue pqm_env_example 0 user_queue_example None None (pqm_blank bm0) of
      (r, _, _, st) \<Rightarrow> r = OK \<and> destroyable st"
    unfolding pqm_create_queue_def pdd_of_blank if_P [OF refl] option.case t prod.case retval.case
    by code_simp
  then show ?thesis unfolding b .
qed

lemma create_refused_example:
  "fst (pqm_create_queue (pqm_env_example\<lparr>pe_hw := env_example\<lparr>he_mes_add := \<lambda>_. Err EIO\<rparr>\<rparr>) 0 user_queue_example None None pqm_start) = Err EIO"
proof -
  obtain bm0 bm1 where b: "bm0 = bitmap_zalloc 1024" "bm1 = set_bit_at 0 bm0" by simp
  have t: "pqm_take_slot None (pqm_blank bm0) = (OK, 0, pqm_blank bm1)" unfolding b by (rule start_slot)
  have "fst (pqm_create_queue (pqm_env_example\<lparr>pe_hw := env_example\<lparr>he_mes_add := \<lambda>_. Err EIO\<rparr>\<rparr>) 0 user_queue_example None None (pqm_blank bm0)) = Err EIO"
    unfolding pqm_create_queue_def pdd_of_blank if_P [OF refl] option.case t prod.case retval.case
    by code_simp
  then show ?thesis unfolding b .
qed

lemma start_reachable: "pqm_reachable pqm_start"
proof (rule pqm_reachable.init [of "pqm_blank []"])
  show "pqm_init True (pqm_blank []) = (OK, pqm_start)" by (simp add: pqm_init_def pqm_blank_def)
  fix dev pdd assume "get_pdd dev (pqm_blank []) = Some pdd"
  then have "pdd = pdd_example" by (simp add: pdd_of_blank split: if_splits)
  moreover have "dqm_queues reach_init = []" by (simp add: reach_init_def initialize_cpsch_def init_sdma_counts Let_def)
  ultimately show "pdd_idle pdd (dqms (pqm_blank []) dev)"
    by (simp add: pdd_idle_def get_qpd_def pqm_blank_def set_kfd_def pdd_example_def qpd_example_def)
qed

definition pqm_created :: process_queue_manager where
  "pqm_created = snd (snd (snd (pqm_create_queue pqm_env_example 0 user_queue_example None None pqm_start)))"

lemma start_step:
  "fresh_queue env dev pqm_start" "pe_proc_ctx env = Inr a \<Longrightarrow> ctx_available env dev pqm_start"
  by (auto simp: fresh_queue_def refs_def List.map_filter_simps ctx_available_def pqm_blank_def split: option.splits)

lemma example_available: "fresh_queue pqm_env_example 0 pqm_start" "ctx_available pqm_env_example 0 pqm_start"
    "qtype user_queue_example \<noteq> KFD_QUEUE_TYPE_DIQ"
  using start_step [of pqm_env_example] by (simp_all add: pqm_env_example_def user_queue_example_def queue_example_def)

lemma created_example:
  obtains db where "pqm_create_queue pqm_env_example 0 user_queue_example None None pqm_start = (OK, 0, db, pqm_created)"
proof -
  obtain r qid db st where c: "pqm_create_queue pqm_env_example 0 user_queue_example None None pqm_start = (r, qid, db, st)"
    by (metis prod_cases4)
  have r: "r = OK" using create_example c by (auto split: prod.splits)
  obtain st1 where "pqm_take_slot None pqm_start = (OK, qid, st1)" using create_takes_slot [OF c [unfolded r]] .
  then have "qid = 0" using start_slot by simp
  with c r show thesis by (intro that [of db]) (simp add: pqm_created_def)
qed

lemma created_reachable: "pqm_reachable pqm_created"
proof -
  obtain db where c: "pqm_create_queue pqm_env_example 0 user_queue_example None None pqm_start = (OK, 0, db, pqm_created)"
    using created_example .
  show ?thesis by (rule pqm_reachable.step [OF start_reachable pqm_step.create [OF example_available c]])
qed

theorem pqm_reachable_consistent_witness:
  "\<exists>n. pqm_queues pqm_created = [n] \<and> get_queue_by_qid (node_qid n) pqm_created = Some n \<and>
     (\<forall>i. test_bit i (queue_slot_bitmap pqm_created) \<longleftrightarrow> i = unat (node_qid n))"
proof -
  obtain db where c: "pqm_create_queue pqm_env_example 0 user_queue_example None None pqm_start = (OK, 0, db, pqm_created)"
    using created_example .
  have "created 0 pqm_start 0 pqm_created"
    using create_queue_outcome [OF pqm_reachable_inv [OF start_reachable] _ example_available(3) _ c] example_available(1,2)
    by (auto simp: fresh_queue_def ctx_available_def split: option.splits)
  then obtain n where "pqm_queues pqm_created = [n]" by (auto simp: created_def pqm_blank_def)
  with pqm_reachable_consistent [OF created_reachable] show ?thesis by auto
qed

theorem pqm_create_all_or_nothing_witness:
  "(case pqm_create_queue pqm_env_example 0 user_queue_example None None pqm_start of
     (r, qid, db, st') \<Rightarrow> r = OK \<and> queue_slot_bitmap st' = set_bit_at (unat qid) (queue_slot_bitmap pqm_start)) \<and>
   (case pqm_create_queue (pqm_env_example\<lparr>pe_hw := env_example\<lparr>he_mes_add := \<lambda>_. Err EIO\<rparr>\<rparr>) 0 user_queue_example None None pqm_start of
     (r, qid, db, st') \<Rightarrow> r = Err EIO \<and> pqm_queues st' = [] \<and> queue_slot_bitmap st' = queue_slot_bitmap pqm_start)"
proof -
  let ?env = "pqm_env_example\<lparr>pe_hw := env_example\<lparr>he_mes_add := \<lambda>_. Err EIO\<rparr>\<rparr>"
  obtain db where c: "pqm_create_queue pqm_env_example 0 user_queue_example None None pqm_start = (OK, 0, db, pqm_created)"
    using created_example .
  obtain r qid db' st where f: "pqm_create_queue ?env 0 user_queue_example None None pqm_start = (r, qid, db', st)" by (metis prod_cases4)
  have r: "r = Err EIO" using create_refused_example f by simp
  have a: "fresh_queue ?env 0 pqm_start" "ctx_available ?env 0 pqm_start"
    using start_step [of ?env] by (simp_all add: pqm_env_example_def)
  from pqm_create_all_or_nothing [OF start_reachable a(1) example_available(3) f] a(2) r
    pqm_create_all_or_nothing [OF start_reachable example_available(1,3) c] c f show ?thesis by (simp add: pqm_blank_def)
qed

lemma created_destroyable: "destroyable pqm_created"
  using create_example by (auto simp: pqm_created_def split: prod.splits)

lemma created_facts:
  obtains n x pdd qpd q where "get_queue_by_qid 0 pqm_created = Some n" "pqn_q n = Some x" "ref_dev x = 0" "get_pdd 0 pqm_created = Some pdd"
    "get_qpd (dqms pqm_created 0) (pdd_ptr pdd) = Some qpd" "find_queue (ref_ptr x) qpd = Some q" "is_active (properties q)"
    "\<not> is_suspended (properties q)" "\<not> is_debug qpd" "sched_policy (dqms pqm_created 0) \<noteq> KFD_SCHED_POLICY_NO_HWS"
    "uses_mes (dqms pqm_created 0)" "\<not> is_hws_hang (dqms pqm_created 0)" "fst (pqm_destroy_queue pqm_env_example 0 pqm_created) = OK"
  using created_destroyable unfolding destroyable_def by (auto split: option.splits)

theorem pqm_create_destroy_roundtrip_witness:
  "case pqm_destroy_queue pqm_env_example 0 pqm_created of
     (r, st2) \<Rightarrow> r = OK \<and> pqm_queues st2 = [] \<and> queue_slot_bitmap st2 = bitmap_zalloc 1024"
proof -
  obtain db where c: "pqm_create_queue pqm_env_example 0 user_queue_example None None pqm_start = (OK, 0, db, pqm_created)"
    using created_example .
  obtain r st2 where d: "pqm_destroy_queue pqm_env_example 0 pqm_created = (r, st2)" by fastforce
  have r: "r = OK" and up: "dqm_up (pe_hw pqm_env_example) (dqms pqm_created 0)"
    using created_facts d by (auto simp: dqm_up_def pqm_env_example_def env_example_def)
  from pqm_create_destroy_roundtrip [OF start_reachable example_available c up d] r d show ?thesis
    by (simp add: settled_def pqm_blank_def)
qed

theorem pqm_destroy_mes_failure_strands_witness:
  "let env = pqm_env_example\<lparr>pe_hw := env_example\<lparr>he_mes_remove := \<lambda>_. Err ETIMEDOUT\<rparr>\<rparr>;
       (r1, st1) = pqm_destroy_queue env 0 pqm_created; (r2, st2) = pqm_destroy_queue pqm_env_example 0 st1
   in r1 = Err ETIMEDOUT \<and> get_queue_by_qid 0 st1 \<noteq> None \<and> r2 = Err OOPS"
proof -
  let ?env = "pqm_env_example\<lparr>pe_hw := env_example\<lparr>he_mes_remove := \<lambda>_. Err ETIMEDOUT\<rparr>\<rparr>"
  obtain r1 st1 where 1: "pqm_destroy_queue ?env 0 pqm_created = (r1, st1)" by fastforce
  obtain r2 st2 where 2: "pqm_destroy_queue pqm_env_example 0 st1 = (r2, st2)" by fastforce
  obtain n x pdd qpd q where f: "get_queue_by_qid 0 pqm_created = Some n" "pqn_q n = Some x" "ref_dev x = 0" "get_pdd 0 pqm_created = Some pdd"
    "get_qpd (dqms pqm_created 0) (pdd_ptr pdd) = Some qpd" "find_queue (ref_ptr x) qpd = Some q" "is_active (properties q)"
    "\<not> is_suspended (properties q)" "\<not> is_debug qpd" "sched_policy (dqms pqm_created 0) \<noteq> KFD_SCHED_POLICY_NO_HWS"
    "uses_mes (dqms pqm_created 0)" "\<not> is_hws_hang (dqms pqm_created 0)" by (rule created_facts)
  have "r1 = Err ETIMEDOUT \<and> get_queue_by_qid 0 st1 = Some n \<and> r2 = Err OOPS"
    using pqm_destroy_mes_failure_strands [OF created_reachable f(1,2), unfolded f(3), OF f(4-12) _ 1 2] by simp
  with 1 2 show ?thesis by simp
qed

text \<open>The process context is missing for the first creation and there for the second.\<close>

definition pqm_env_no_ctx :: pqm_env where
  "pqm_env_no_ctx = pqm_env_example\<lparr>pe_proc_ctx := Inl ENOMEM\<rparr>"

lemma second_slot: "find_first_zero_bit (set_bit_at 0 (bitmap_zalloc 1024)) 1024 = Suc 0"
proof -
  let ?b = "set_bit_at 0 (bitmap_zalloc 1024)"
  let ?f = "find_first_zero_bit ?b 1024"
  have b: "test_bit i ?b \<longleftrightarrow> i = 0" for i by (simp add: bitmap_simps)
  have "?f \<noteq> 1024" using find_first_zero_bit_none [of ?b 1024 "Suc 0"] by (auto simp: b)
  then have "?f < 1024" using find_first_zero_bit_le [of ?b 1024] by simp
  from find_first_zero_bit_least [OF this] find_first_zero_bit_least(2) [OF this, of "Suc 0"] show ?thesis
    by (cases ?f) (auto simp: b)
qed

definition pqm_no_ctx :: "bitmap \<Rightarrow> process_queue_manager" where
  "pqm_no_ctx bm = pqm_register pqm_env_no_ctx pdd_example (pqm_blank bm)"

lemma no_ctx_pdd: "get_pdd 0 (pqm_no_ctx bm) = Some pdd_example"
  by (simp add: pqm_no_ctx_def pqm_register_def pdd_of_blank)

lemma start_limit: "\<not> max_queues (pqm_blank bm) 0 (the_qpd pdd_example (pqm_blank bm)) (qtype user_queue_example)
    \<le> queue_count (the_qpd pdd_example (pqm_blank bm))"
  by code_simp

lemma no_ctx_create:
  "pqm_create_queue pqm_env_no_ctx 0 user_queue_example None None pqm_start =
   (Err ENOMEM, 0, 0, pqm_no_ctx (set_bit_at 0 (bitmap_zalloc 1024)))"
proof -
  have n: "no_queues pdd_example (pqm_blank bm)" for bm by code_simp
  have "uses_mes (dqms (pqm_no_ctx bm) (pdd_dev pdd_example))" for bm by code_simp
  then have x: "pqm_proc_ctx pqm_env_no_ctx pdd_example (pqm_no_ctx bm) = Inl ENOMEM" for bm
    by (simp add: pqm_proc_ctx_def pdd_example_def pqm_env_no_ctx_def)
  show ?thesis
    unfolding pqm_create_queue_def pdd_of_blank if_P [OF refl] option.case start_slot prod.case retval.case Let_def
    using start_limit by (simp add: n x pqm_no_ctx_def [symmetric])
qed

lemma no_ctx_retry: "fst (pqm_create_queue pqm_env_example 0 user_queue_example None None
    (pqm_no_ctx (set_bit_at 0 (bitmap_zalloc 1024)))) = OK"
proof -
  obtain bm1 bm2 where b: "bm1 = set_bit_at 0 (bitmap_zalloc 1024)" "bm2 = set_bit_at (Suc 0) bm1" by simp
  have "pqm_take_slot None (pqm_no_ctx bm1) = (OK, 1, pqm_no_ctx bm2)"
    unfolding b by (simp add: pqm_take_slot_def find_available_queue_slot_def pqm_no_ctx_def pqm_register_def second_slot
        pqm_blank_def set_dqm_def the_qpd_def)
  note t = this
  show ?thesis
    unfolding b(1) [symmetric] pqm_create_queue_def no_ctx_pdd option.case t prod.case retval.case by code_simp
qed

theorem pqm_create_ctx_failure_leaks_witness:
  "case pqm_create_queue pqm_env_no_ctx 0 user_queue_example None None pqm_start of
     (r1, _, _, st1) \<Rightarrow> r1 = Err ENOMEM \<and> test_bit 0 (queue_slot_bitmap st1) \<and> get_queue_by_qid 0 st1 = None \<and>
       (case pqm_create_queue pqm_env_example 0 user_queue_example None None st1 of
          (r2, _, _, st2) \<Rightarrow> r2 = OK \<and> count_list (map qpd_ptr (dqm_queues (dqms st2 0))) 1 = 2)"
proof -
  let ?st1 = "pqm_no_ctx (set_bit_at 0 (bitmap_zalloc 1024))"
  obtain r2 q2 db2 st2 where c: "pqm_create_queue pqm_env_example 0 user_queue_example None None ?st1 = (r2, q2, db2, st2)"
    by (metis prod_cases4)
  have r2: "r2 = OK" using no_ctx_retry c by simp
  have g: "get_pdd 0 pqm_start = Some pdd_example" by (simp add: pdd_of_blank)
  have p: "pdd_ptr pdd_example = 1" by (simp add: pdd_ptr_def pdd_example_def qpd_example_def)
  have l: "linked (pdd_ptr pdd_example) (dqms pqm_start 0) = None"
    by (simp add: linked_def get_qpd_def pqm_blank_def set_kfd_def reach_init_def initialize_cpsch_def init_sdma_counts Let_def)
  have m: "uses_mes (dqms pqm_start 0)" "\<not> proc_ctx_cpu_ptr pdd_example" "pe_proc_ctx pqm_env_no_ctx = Inl ENOMEM"
    by (simp_all add: pqm_blank_def set_kfd_def pdd_example_def pqm_env_no_ctx_def)
  from pqm_create_ctx_failure_leaks [OF start_reachable g l m start_limit [unfolded not_le] start_slot no_ctx_create c [unfolded r2]
      example_available(3)] r2 c show ?thesis by (simp add: no_ctx_create p)
qed

theorem process_teardown_releases_devices_witness:
  "\<exists>st1 pdd. pdds pqm_created = [pdd] \<and> linked (pdd_ptr pdd) (dqms pqm_created 0) \<noteq> None \<and>
     kfd_process_dequeue_from_all_devices pqm_env_example [pdd] pqm_created = Some st1 \<and>
     linked (pdd_ptr pdd) (dqms (pqm_uninit st1) 0) = None"
proof -
  have d: "map pdd_dev (pdds pqm_created) = [0]" "\<forall>pdd \<in> set (pdds pqm_created). dequeuable pdd pqm_created"
    using created_destroyable by (auto simp: destroyable_def list_all_iff)
  then obtain pdd where p: "pdds pqm_created = [pdd]" "pdd_dev pdd = 0" by auto
  have l: "linked (pdd_ptr pdd) (dqms pqm_created 0) \<noteq> None"
    by (rule created_facts) (use p in \<open>auto simp: get_pdd_def linked_def\<close>)
  have "distinct (map pdd_dev (pdds pqm_created))" using d(1) by simp
  from process_teardown_releases_devices [OF this d(2), of pqm_env_example] p l show ?thesis by auto
qed

theorem pqm_create_failure_leaks_gang_ctx_witness:
  "gang_ctx_live (pqm_create_fail 0 0 (snd (snd (pqm_create_by_type
     (pqm_env_example\<lparr>pe_hw := env_example\<lparr>he_mes_add := \<lambda>_. Err EIO\<rparr>\<rparr>) pdd_example user_queue_example None None 0
     (pqm_register pqm_env_example pdd_example pqm_start))))) = 1"
proof -
  let ?env = "pqm_env_example\<lparr>pe_hw := env_example\<lparr>he_mes_add := \<lambda>_. Err EIO\<rparr>\<rparr>"
  let ?st = "pqm_register pqm_env_example pdd_example pqm_start"
  obtain bm where b: "bm = bitmap_zalloc 1024" by simp
  have "(case pqm_create_by_type ?env pdd_example user_queue_example None None 0 (pqm_register pqm_env_example pdd_example (pqm_blank bm)) of
      (r, n, _) \<Rightarrow> r = Err EIO \<and> n \<noteq> None) \<and> uses_mes (dqms (pqm_register pqm_env_example pdd_example (pqm_blank bm)) 0)"
    by code_simp
  then obtain n st1 where c: "pqm_create_by_type ?env pdd_example user_queue_example None None 0 ?st = (Err EIO, Some n, st1)"
    and m: "uses_mes (dqms ?st 0)" unfolding b by (auto split: prod.splits)
  have d: "pdd_dev pdd_example = 0" by (simp add: pdd_example_def)
  have "gang_ctx_live ?st = 0" by (simp add: pqm_register_def set_dqm_def pqm_blank_def)
  with pqm_create_failure_leaks_gang_ctx [OF c, unfolded d, OF m] c show ?thesis by simp
qed

end
