(* ===== verification/Kfd_Events.thy ===== *)
theory Kfd_Events
  imports Kfd_Prelude
begin

text \<open>
  Events (\<^verbatim>\<open>kfd/kfd_events.c\<close>): the GPU and other threads signal them, threads wait for one or all of several.

  Events live in memory at addresses (\<open>event_heap\<close>); the IDR maps ids to addresses. A waiting thread has an array of
  waiters, each with a pointer to its event; the wait queue of an event is a list of waiters, named by thread
  and index. A pointer to an event that was freed is an address outside of \<open>event_heap\<close>, and following it is
  \<open>OOPS\<close>.

  \<^verbatim>\<open>KFD_SIGNAL_EVENT_LIMIT\<close> comes from the user interface headers, which are not in the sources; it is the field \<open>event_limit\<close>.
\<close>

section \<open>Data\<close>

abbreviation (input) INT_MAX :: nat where "INT_MAX \<equiv> 2147483647"
abbreviation (input) KFD_FIRST_NONSIGNAL_EVENT_ID :: nat where "KFD_FIRST_NONSIGNAL_EVENT_ID \<equiv> 1073741824"
abbreviation (input) UNSIGNALED_EVENT_SLOT :: u64 where "UNSIGNALED_EVENT_SLOT \<equiv> - 1"

abbreviation (input) KFD_EVENT_TYPE_SIGNAL :: u32 where "KFD_EVENT_TYPE_SIGNAL \<equiv> 0"
abbreviation (input) KFD_EVENT_TYPE_HW_EXCEPTION :: u32 where "KFD_EVENT_TYPE_HW_EXCEPTION \<equiv> 3"
abbreviation (input) KFD_EVENT_TYPE_DEBUG :: u32 where "KFD_EVENT_TYPE_DEBUG \<equiv> 5"
abbreviation (input) KFD_EVENT_TYPE_MEMORY :: u32 where "KFD_EVENT_TYPE_MEMORY \<equiv> 8"

text \<open>What the code writes of \<^verbatim>\<open>struct kfd_hsa_memory_exception_data\<close> and \<^verbatim>\<open>struct kfd_hsa_hw_exception_data\<close>.\<close>

record memory_exception =
  mx_va :: u64
  mx_gpu_id :: u32
  mx_NotPresent :: bool
  mx_NoExecute :: bool
  mx_ReadOnly :: bool
  mx_imprecise :: bool
  mx_ErrorType :: u32

record hw_exception =
  hx_gpu_id :: u32
  hx_memory_lost :: bool
  hx_reset_cause :: u32

text \<open>The union at the end of \<^verbatim>\<open>struct kfd_event\<close>.\<close>

datatype event_union = Zeroed | Memory_exception_data memory_exception | Hw_exception_data hw_exception

type_synonym waiter_ref = "nat \<times> nat"

record kfd_event =
  event_id :: nat
  event_age :: u64
  signaled :: bool
  auto_reset :: bool
  ev_type :: u32
  wq :: "waiter_ref list"
  user_signal_address :: u64
  event_data :: event_union

record kfd_event_waiter =
  w_event :: "nat option"
  activated :: bool
  event_age_enabled :: bool

record kfd_signal_page =
  page_slots :: "u64 list"
  user_address :: u64
  need_to_free_pages :: bool

type_synonym idr = "(nat \<times> nat option) list"

record event_process =
  event_heap :: "nat \<rightharpoonup> kfd_event"
  event_idr :: idr
  signal_page :: "kfd_signal_page option"
  signal_mapped_size :: u64
  signal_event_count :: nat
  signal_event_limit_reached :: bool
  signal_handle :: u64
  event_limit :: nat
  waiters :: "nat \<Rightarrow> kfd_event_waiter list"

section \<open>The IDR\<close>

text \<open>
  \<^verbatim>\<open>linux/idr.h\<close>: the entries in the order of their ids. \<^verbatim>\<open>idr_alloc\<close> takes the lowest free id from \<open>start\<close> up to but without
  \<open>stop\<close>, where a \<open>stop\<close> that is not positive means the largest integer. Entries with a null pointer take their id,
  but are not found and not visited.
\<close>

fun idr_gap :: "nat \<Rightarrow> idr \<Rightarrow> nat" where
  "idr_gap n [] = n"
| "idr_gap n ((i, _) # xs) = (if i < n then idr_gap n xs else if i = n then idr_gap (Suc n) xs else n)"

fun idr_insert :: "nat \<Rightarrow> nat option \<Rightarrow> idr \<Rightarrow> idr" where
  "idr_insert n a [] = [(n, a)]"
| "idr_insert n a ((i, b) # xs) = (if n < i then (n, a) # (i, b) # xs else (i, b) # idr_insert n a xs)"

definition idr_alloc :: "bool \<Rightarrow> nat option \<Rightarrow> int \<Rightarrow> int \<Rightarrow> idr \<Rightarrow> (errno + nat) \<times> idr" where
  "idr_alloc mem_ok a start stop idr =
     (if start < 0 then (Inl EINVAL, idr)
      else let n = idr_gap (nat start) idr in
        if int n > (if stop > 0 then stop - 1 else int INT_MAX) then (Inl ENOSPC, idr)
        else if \<not> mem_ok then (Inl ENOMEM, idr)
        else (Inr n, idr_insert n a idr))"

definition idr_find :: "idr \<Rightarrow> nat \<Rightarrow> nat option" where
  "idr_find idr i = (case map_of idr i of Some (Some a) \<Rightarrow> Some a | _ \<Rightarrow> None)"

definition idr_remove :: "nat \<Rightarrow> idr \<Rightarrow> idr" where
  "idr_remove i = filter (\<lambda>x. fst x \<noteq> i)"

text \<open>The entries that \<^verbatim>\<open>idr_for_each_entry_continue\<close> visits, beginning at an id.\<close>

definition idr_entries :: "nat \<Rightarrow> idr \<Rightarrow> (nat \<times> nat) list" where
  "idr_entries from idr = List.map_filter (\<lambda>(i, a). if from \<le> i then map_option (Pair i) a else None) idr"

section \<open>Signal pages and ids\<close>

text \<open>A signal page has at least \<^verbatim>\<open>KFD_SIGNAL_EVENT_LIMIT\<close> slots; reading beyond them is not modelled.\<close>

definition slot_at :: "event_process \<Rightarrow> nat \<Rightarrow> u64" where
  "slot_at p i = (case signal_page p of
     Some pg \<Rightarrow> if i < length (page_slots pg) then page_slots pg ! i else UNSIGNALED_EVENT_SLOT
   | None \<Rightarrow> UNSIGNALED_EVENT_SLOT)"

definition set_slot :: "nat \<Rightarrow> u64 \<Rightarrow> event_process \<Rightarrow> event_process" where
  "set_slot i v p = p\<lparr>signal_page := map_option (\<lambda>pg. pg\<lparr>page_slots := (page_slots pg)[i := v]\<rparr>) (signal_page p)\<rparr>"

definition allocate_signal_page :: "bool \<Rightarrow> bool \<Rightarrow> event_process \<Rightarrow> kfd_signal_page option" where
  "allocate_signal_page kz pages_ok p =
     (if \<not> kz \<or> \<not> pages_ok then None
      else Some \<lparr>page_slots = replicate (event_limit p) UNSIGNALED_EVENT_SLOT, user_address = 0, need_to_free_pages = True\<rparr>)"

text \<open>What the allocators answer: the structure, the pages, the IDR.\<close>

record event_env =
  ee_kzalloc :: bool
  ee_pages :: bool
  ee_idr :: bool

text \<open>
  \<open>a\<close> is the address of the new event. An id that is restored is used as index of a slot as it is; outside of the page this is
  \<open>OOPS\<close>.
\<close>

definition allocate_event_notification_slot ::
    "event_env \<Rightarrow> nat \<Rightarrow> int option \<Rightarrow> event_process \<Rightarrow> (errno + nat) \<times> event_process" where
  "allocate_event_notification_slot env a restore_id p =
     (case (case signal_page p of
              Some pg \<Rightarrow> Some p
            | None \<Rightarrow> map_option (\<lambda>pg. p\<lparr>signal_page := Some pg, signal_mapped_size := 256 * 8\<rparr>)
                        (allocate_signal_page (ee_kzalloc env) (ee_pages env) p)) of
        None \<Rightarrow> (Inl ENOMEM, p)
      | Some p1 \<Rightarrow>
          (case (case restore_id of
                   Some i \<Rightarrow> idr_alloc (ee_idr env) (Some a) i (i + 1) (event_idr p1)
                 | None \<Rightarrow> idr_alloc (ee_idr env) (Some a) 0 (sint (ucast (signal_mapped_size p1 div 8) :: u32)) (event_idr p1)) of
             (Inl e, idr) \<Rightarrow> (Inl e, p1)
           | (Inr n, idr) \<Rightarrow>
               (case signal_page p1 of
                  None \<Rightarrow> (Inl OOPS, p1)
                | Some pg \<Rightarrow>
                    if n \<ge> length (page_slots pg) then (Inl OOPS, p1)
                    else (Inr n, set_slot n UNSIGNALED_EVENT_SLOT (p1\<lparr>event_idr := idr\<rparr>)))))"

definition lookup_event_by_id :: "event_process \<Rightarrow> nat \<Rightarrow> nat option" where
  "lookup_event_by_id p i = idr_find (event_idr p) i"

text \<open>The loop of the general case, over \<open>i\<close>, \<open>i + 2 ^ bits\<close>, and so on.\<close>

function partial_search :: "event_process \<Rightarrow> nat \<Rightarrow> nat \<Rightarrow> nat option" where
  "partial_search p bits i =
     (if i \<ge> event_limit p then None
      else if slot_at p i = UNSIGNALED_EVENT_SLOT then partial_search p bits (i + 2 ^ bits)
      else case idr_find (event_idr p) i of
          Some a \<Rightarrow> Some a
        | None \<Rightarrow> partial_search p bits (i + 2 ^ bits))"
  by pat_completeness auto
termination
  by (relation "measure (\<lambda>(p, bits, i). event_limit p - i)") (auto intro: diff_less_mono2)

declare partial_search.simps [simp del]

definition lookup_signaled_event_by_partial_id :: "event_process \<Rightarrow> nat \<Rightarrow> nat \<Rightarrow> nat option" where
  "lookup_signaled_event_by_partial_id p i bits =
     (if signal_page p = None \<or> i \<ge> event_limit p then None
      else if bits > 31 \<or> 2 ^ bits \<ge> event_limit p then
        (if slot_at p i = UNSIGNALED_EVENT_SLOT then None else idr_find (event_idr p) i)
      else partial_search p bits i)"

section \<open>Creation\<close>

definition create_signal_event ::
    "event_env \<Rightarrow> nat \<Rightarrow> kfd_event \<Rightarrow> int option \<Rightarrow> event_process \<Rightarrow> (errno + kfd_event) \<times> event_process" where
  "create_signal_event env a ev restore_id p =
     (if signal_mapped_size p \<noteq> 0 \<and> signal_event_count p = unat (signal_mapped_size p div 8)
      then (Inl ENOSPC, p\<lparr>signal_event_limit_reached := True\<rparr>)
      else case allocate_event_notification_slot env a restore_id p of
          (Inl e, p1) \<Rightarrow> (Inl e, p1)
        | (Inr n, p1) \<Rightarrow>
            (Inr (ev\<lparr>event_id := n, user_signal_address :=
                       (case signal_page p1 of Some pg \<Rightarrow> user_address pg | None \<Rightarrow> 0) + 8 * of_nat n\<rparr>),
             p1\<lparr>signal_event_count := signal_event_count p1 + 1\<rparr>))"

text \<open>\<^verbatim>\<open>(uint32_t)KFD_LAST_NONSIGNAL_EVENT_ID + 1\<close> is a negative integer.\<close>

definition create_other_event ::
    "event_env \<Rightarrow> nat \<Rightarrow> kfd_event \<Rightarrow> int option \<Rightarrow> event_process \<Rightarrow> (errno + kfd_event) \<times> event_process" where
  "create_other_event env a ev restore_id p =
     (case (case restore_id of
              Some i \<Rightarrow> idr_alloc (ee_idr env) (Some a) i (i + 1) (event_idr p)
            | None \<Rightarrow> idr_alloc (ee_idr env) (Some a) (int KFD_FIRST_NONSIGNAL_EVENT_ID) (- (2 ^ 31)) (event_idr p)) of
        (Inl e, idr) \<Rightarrow> (Inl e, p)
      | (Inr n, idr) \<Rightarrow> (Inr (ev\<lparr>event_id := n\<rparr>), p\<lparr>event_idr := idr\<rparr>))"

definition kfd_event_init_process :: "bool \<Rightarrow> event_process \<Rightarrow> retval \<times> event_process" where
  "kfd_event_init_process idr_ok p =
     (case idr_alloc idr_ok None 0 1 [] of
        (Inl e, _) \<Rightarrow> (Err e, p\<lparr>event_idr := [], signal_page := None, signal_event_count := 1\<rparr>)
      | (Inr n, idr) \<Rightarrow> (OK, p\<lparr>event_idr := idr, signal_page := None, signal_event_count := 1\<rparr>))"

definition is_signal_type :: "u32 \<Rightarrow> bool" where
  "is_signal_type ty \<longleftrightarrow> ty = KFD_EVENT_TYPE_SIGNAL \<or> ty = KFD_EVENT_TYPE_DEBUG"

definition zero_event :: kfd_event where
  "zero_event = \<lparr>event_id = 0, event_age = 0, signaled = False, auto_reset = False, ev_type = 0, wq = [],
     user_signal_address = 0, event_data = Zeroed\<rparr>"

text \<open>\<open>addr\<close> is what \<^verbatim>\<open>kzalloc\<close> returns for the event. The result is the id.\<close>

definition kfd_event_create ::
    "event_env \<Rightarrow> nat option \<Rightarrow> u32 \<Rightarrow> bool \<Rightarrow> event_process \<Rightarrow> (errno + nat) \<times> event_process" where
  "kfd_event_create env addr ty auto p =
     (case addr of
        None \<Rightarrow> (Inl ENOMEM, p)
      | Some a \<Rightarrow>
          let ev = zero_event\<lparr>ev_type := ty, auto_reset := auto, signaled := False\<rparr> in
          (case (if is_signal_type ty then create_signal_event env a ev None p else create_other_event env a ev None p) of
             (Inl e, p1) \<Rightarrow> (Inl e, p1)
           | (Inr ev1, p1) \<Rightarrow>
               (Inr (event_id ev1), p1\<lparr>event_heap := (event_heap p1)(a \<mapsto> ev1\<lparr>event_age := 1\<rparr>)\<rparr>)))"

text \<open>
  A page of the user is cleared without a look at its size; \<open>sz\<close> is that of its memory, and clearing beyond it is \<open>OOPS\<close>.
\<close>

definition kfd_event_page_set :: "bool \<Rightarrow> u64 \<Rightarrow> u64 \<Rightarrow> event_process \<Rightarrow> retval \<times> event_process" where
  "kfd_event_page_set kz sz user_handle p =
     (if signal_page p \<noteq> None then (Err EBUSY, p)
      else if \<not> kz then (Err ENOMEM, p)
      else if unat sz < event_limit p * 8 then (Err OOPS, p)
      else (OK, p\<lparr>signal_page := Some \<lparr>page_slots = replicate (unat sz div 8) UNSIGNALED_EVENT_SLOT, user_address = 0,
                                       need_to_free_pages = False\<rparr>,
                  signal_mapped_size := sz, signal_handle := user_handle\<rparr>))"

text \<open>\<open>found\<close>: the memory behind the handle, with its size, or the error of the search, of binding the process, or of mapping it.\<close>

definition kfd_kmap_event_page :: "bool \<Rightarrow> errno + u64 \<Rightarrow> u64 \<Rightarrow> event_process \<Rightarrow> retval \<times> event_process" where
  "kfd_kmap_event_page kz found event_page_offset p =
     (if signal_page p \<noteq> None then (Err EINVAL, p)
      else case found of
          Inl e \<Rightarrow> (Err e, p)
        | Inr sz \<Rightarrow> kfd_event_page_set kz sz event_page_offset p)"

text \<open>\<^verbatim>\<open>struct kfd_criu_event_priv_data\<close>\<close>

record criu_event =
  ce_user_handle :: u64
  ce_event_id :: int
  ce_auto_reset :: bool
  ce_type :: u32
  ce_signaled :: bool
  ce_data :: event_union

text \<open>\<open>priv\<close> is the record copied from the user, or the error of reading it.\<close>

definition kfd_criu_restore_event ::
    "event_env \<Rightarrow> bool \<Rightarrow> errno + u64 \<Rightarrow> nat option \<Rightarrow> errno + criu_event \<Rightarrow> event_process \<Rightarrow> retval \<times> event_process" where
  "kfd_criu_restore_event env km found addr priv p =
     (if \<not> km then (Err ENOMEM, p)
      else case addr of
          None \<Rightarrow> (Err ENOMEM, p)
        | Some a \<Rightarrow>
            (case priv of
               Inl e \<Rightarrow> (Err e, p)
             | Inr c \<Rightarrow>
                 (case (if ce_user_handle c \<noteq> 0 then kfd_kmap_event_page (ee_kzalloc env) found (ce_user_handle c) p else (OK, p)) of
                    (Err e, p1) \<Rightarrow> (Err e, p1)
                  | (OK, p1) \<Rightarrow>
                      let ev = zero_event\<lparr>ev_type := ce_type c, auto_reset := ce_auto_reset c, signaled := ce_signaled c\<rparr>;
                          ev' = (if ce_type c = KFD_EVENT_TYPE_MEMORY \<or> ce_type c = KFD_EVENT_TYPE_HW_EXCEPTION
                                 then ev\<lparr>event_data := ce_data c\<rparr> else ev) in
                      if is_signal_type (ce_type c) \<or> ce_type c = KFD_EVENT_TYPE_MEMORY \<or> ce_type c = KFD_EVENT_TYPE_HW_EXCEPTION
                      then (case (if is_signal_type (ce_type c) then create_signal_event env a ev' (Some (ce_event_id c)) p1
                                  else create_other_event env a ev' (Some (ce_event_id c)) p1) of
                              (Inl e, p2) \<Rightarrow> (Err e, p2)
                            | (Inr ev2, p2) \<Rightarrow> (OK, p2\<lparr>event_heap := (event_heap p2)(a \<mapsto> ev2)\<rparr>))
                      else (OK, p1))))"

text \<open>\<^verbatim>\<open>get_order\<close> of \<^verbatim>\<open>linux/getorder.h\<close>, and \<^verbatim>\<open>kfd_event_mmap\<close>; \<open>remap\<close> is the result of \<^verbatim>\<open>remap_pfn_range\<close>.\<close>

fun fls :: "nat \<Rightarrow> nat" where
  "fls n = (if n = 0 then 0 else Suc (fls (n div 2)))"

declare fls.simps [simp del]

definition get_order :: "nat \<Rightarrow> nat" where
  "get_order sz = fls ((sz - 1) div PAGE_SIZE)"

definition kfd_event_mmap :: "retval \<Rightarrow> u64 \<Rightarrow> u64 \<Rightarrow> event_process \<Rightarrow> retval \<times> event_process" where
  "kfd_event_mmap remap vm_start vm_end p =
     (if get_order (event_limit p * 8) < get_order (unat (vm_end - vm_start)) then (Err EINVAL, p)
      else case signal_page p of
          None \<Rightarrow> (Err EINVAL, p)
        | Some pg \<Rightarrow>
            let p1 = p\<lparr>signal_page := Some (pg\<lparr>user_address := vm_start\<rparr>)\<rparr> in
            if remap = OK then (OK, p1\<lparr>signal_mapped_size := vm_end - vm_start\<rparr>) else (remap, p1))"

definition kfd_get_num_events :: "event_process \<Rightarrow> nat" where
  "kfd_get_num_events p = length (idr_entries 0 (event_idr p))"

definition checkpoint_event :: "event_process \<Rightarrow> nat \<Rightarrow> nat \<times> nat \<Rightarrow> criu_event" where
  "checkpoint_event p i entry =
     (case event_heap p (snd entry) of
        None \<Rightarrow> \<lparr>ce_user_handle = 0, ce_event_id = 0, ce_auto_reset = False, ce_type = 0, ce_signaled = False, ce_data = Zeroed\<rparr>
      | Some ev \<Rightarrow>
          \<lparr>ce_user_handle = (if i = 0 \<and> signal_page p \<noteq> None then signal_handle p else 0), ce_event_id = int (event_id ev),
           ce_auto_reset = auto_reset ev, ce_type = ev_type ev, ce_signaled = signaled ev,
           ce_data = (if ev_type ev = KFD_EVENT_TYPE_MEMORY \<or> ev_type ev = KFD_EVENT_TYPE_HW_EXCEPTION then event_data ev else Zeroed)\<rparr>)"

text \<open>The records that \<^verbatim>\<open>kfd_criu_checkpoint_events\<close> writes, when the memory for them can be had.\<close>

definition kfd_criu_checkpoint_events :: "bool \<Rightarrow> bool \<Rightarrow> event_process \<Rightarrow> errno + criu_event list" where
  "kfd_criu_checkpoint_events kz copy_ok p =
     (let es = idr_entries 0 (event_idr p) in
      if es = [] then Inr []
      else if \<not> kz then Inl ENOMEM
      else if \<not> copy_ok then Inl EFAULT
      else Inr (map (\<lambda>i. checkpoint_event p i (es ! i)) [0..<length es]))"

section \<open>Signalling\<close>

definition upd_waiter :: "(kfd_event_waiter \<Rightarrow> kfd_event_waiter) \<Rightarrow> waiter_ref \<Rightarrow> event_process \<Rightarrow> event_process" where
  "upd_waiter f r p = p\<lparr>waiters := (waiters p)(fst r := (waiters p (fst r))[snd r := f (waiters p (fst r) ! snd r)])\<rparr>"

text \<open>
  \<^verbatim>\<open>wake_up_all\<close>: the waiters use \<^verbatim>\<open>autoremove_wake_function\<close>, which takes a waiter out of the queue when its thread was
  really woken. \<open>woken\<close> says for which ones it was.
\<close>

definition set_event :: "(waiter_ref \<Rightarrow> bool) \<Rightarrow> nat \<Rightarrow> event_process \<Rightarrow> event_process" where
  "set_event woken a p =
     (case event_heap p a of
        None \<Rightarrow> p
      | Some ev \<Rightarrow>
          let age = event_age ev + 1;
              ev1 = ev\<lparr>signaled := \<not> auto_reset ev \<or> wq ev = [], event_age := if age = 0 then 2 else age,
                       wq := filter (\<lambda>r. \<not> woken r) (wq ev)\<rparr> in
          fold (upd_waiter (\<lambda>w. w\<lparr>activated := True\<rparr>)) (wq ev) (p\<lparr>event_heap := (event_heap p)(a \<mapsto> ev1)\<rparr>))"

definition destroy_event :: "nat \<Rightarrow> event_process \<Rightarrow> event_process" where
  "destroy_event a p =
     (case event_heap p a of
        None \<Rightarrow> p
      | Some ev \<Rightarrow>
          let p1 = fold (upd_waiter (\<lambda>w. w\<lparr>w_event := None\<rparr>)) (wq ev) p in
          p1\<lparr>signal_event_count := (if is_signal_type (ev_type ev) then signal_event_count p1 - 1 else signal_event_count p1),
             event_idr := idr_remove (event_id ev) (event_idr p1), event_heap := (event_heap p1)(a := None)\<rparr>)"

definition kfd_event_destroy :: "nat \<Rightarrow> event_process \<Rightarrow> retval \<times> event_process" where
  "kfd_event_destroy i p =
     (case lookup_event_by_id p i of None \<Rightarrow> (Err EINVAL, p) | Some a \<Rightarrow> (OK, destroy_event a p))"

text \<open>The end of the process: all events, then the page.\<close>

definition kfd_event_free_process :: "event_process \<Rightarrow> event_process" where
  "kfd_event_free_process p =
     (fold (\<lambda>x. destroy_event (snd x)) (idr_entries 0 (event_idr p)) p)\<lparr>event_idr := [], signal_page := None\<rparr>"

definition event_can_be_gpu_signaled :: "kfd_event \<Rightarrow> bool" where
  "event_can_be_gpu_signaled ev \<longleftrightarrow> is_signal_type (ev_type ev)"

definition event_can_be_cpu_signaled :: "kfd_event \<Rightarrow> bool" where
  "event_can_be_cpu_signaled ev \<longleftrightarrow> ev_type ev = KFD_EVENT_TYPE_SIGNAL"

text \<open>Looking up an event and working on it; the pointers in the IDR are those of live events.\<close>

definition with_event ::
    "nat \<Rightarrow> event_process \<Rightarrow> (nat \<Rightarrow> kfd_event \<Rightarrow> retval \<times> event_process) \<Rightarrow> retval \<times> event_process" where
  "with_event i p f =
     (case lookup_event_by_id p i of
        None \<Rightarrow> (Err EINVAL, p)
      | Some a \<Rightarrow> (case event_heap p a of None \<Rightarrow> (Err OOPS, p) | Some ev \<Rightarrow> f a ev))"

definition kfd_set_event :: "(waiter_ref \<Rightarrow> bool) \<Rightarrow> nat \<Rightarrow> event_process \<Rightarrow> retval \<times> event_process" where
  "kfd_set_event woken i p =
     with_event i p (\<lambda>a ev. if event_can_be_cpu_signaled ev then (OK, set_event woken a p) else (Err EINVAL, p))"

definition kfd_reset_event :: "nat \<Rightarrow> event_process \<Rightarrow> retval \<times> event_process" where
  "kfd_reset_event i p =
     with_event i p (\<lambda>a ev. if event_can_be_cpu_signaled ev
       then (OK, p\<lparr>event_heap := (event_heap p)(a \<mapsto> ev\<lparr>signaled := False\<rparr>)\<rparr>) else (Err EINVAL, p))"

definition set_event_from_interrupt :: "(waiter_ref \<Rightarrow> bool) \<Rightarrow> nat option \<Rightarrow> event_process \<Rightarrow> event_process" where
  "set_event_from_interrupt woken e p =
     (case e of
        None \<Rightarrow> p
      | Some a \<Rightarrow>
          (case event_heap p a of
             None \<Rightarrow> p
           | Some ev \<Rightarrow>
               if event_can_be_gpu_signaled ev
               then set_event woken a (set_slot (event_id ev) UNSIGNALED_EVENT_SLOT p) else p))"

text \<open>The two exhaustive searches: over the entries of the IDR, and over the slots.\<close>

fun signal_entries :: "(waiter_ref \<Rightarrow> bool) \<Rightarrow> (nat \<times> nat) list \<Rightarrow> event_process \<Rightarrow> event_process" where
  "signal_entries woken [] p = p"
| "signal_entries woken ((i, a) # es) p =
     (if i \<ge> event_limit p then p
      else signal_entries woken es
             (if slot_at p i \<noteq> UNSIGNALED_EVENT_SLOT then set_event_from_interrupt woken (Some a) p else p))"

fun signal_slots :: "(waiter_ref \<Rightarrow> bool) \<Rightarrow> nat list \<Rightarrow> event_process \<Rightarrow> event_process" where
  "signal_slots woken [] p = p"
| "signal_slots woken (i # is) p =
     signal_slots woken is
       (if slot_at p i \<noteq> UNSIGNALED_EVENT_SLOT then set_event_from_interrupt woken (lookup_event_by_id p i) p else p)"

definition kfd_signal_event_interrupt :: "(waiter_ref \<Rightarrow> bool) \<Rightarrow> nat \<Rightarrow> nat \<Rightarrow> event_process \<Rightarrow> event_process" where
  "kfd_signal_event_interrupt woken partial_id valid_id_bits p =
     (case (if valid_id_bits \<noteq> 0 then lookup_signaled_event_by_partial_id p partial_id valid_id_bits else None) of
        Some a \<Rightarrow> set_event_from_interrupt woken (Some a) p
      | None \<Rightarrow>
          if signal_page p = None then p
          else if signal_event_count p < event_limit p div 64
          then signal_entries woken (idr_entries 0 (event_idr p)) p
          else signal_slots woken [1..<event_limit p] p)"

section \<open>Exceptions\<close>

text \<open>
  Constants of the user interface, and signals to the process. \<open>user_gpu_id\<close> is \<^verbatim>\<open>kfd_process_get_user_gpu_id\<close>, which fails
  for a device the process does not know. The functions below work on the process that \<^verbatim>\<open>kfd_lookup_process_by_pasid\<close> found.
\<close>

record exception_codes =
  KFD_HW_EXCEPTION_ECC :: u32
  KFD_HW_EXCEPTION_GPU_HANG :: u32
  KFD_MEM_ERR_SRAM_ECC :: u32
  KFD_MEM_ERR_POISON_CONSUMED :: u32

datatype unix_signal = SIGSEGV | SIGTERM | SIGBUS

record kfd_vm_fault_info =
  page_addr :: u64
  prot_valid :: bool
  prot_exec :: bool
  prot_write :: bool

definition zero_memory_exception :: memory_exception where
  "zero_memory_exception = \<lparr>mx_va = 0, mx_gpu_id = 0, mx_NotPresent = False, mx_NoExecute = False, mx_ReadOnly = False,
     mx_imprecise = False, mx_ErrorType = 0\<rparr>"

definition write_event_data :: "event_union \<Rightarrow> nat \<Rightarrow> event_process \<Rightarrow> event_process" where
  "write_event_data d a p =
     p\<lparr>event_heap := (event_heap p)(a := map_option (\<lambda>ev. ev\<lparr>event_data := d\<rparr>) (event_heap p a))\<rparr>"

definition type_at :: "event_process \<Rightarrow> nat \<Rightarrow> u32 option" where
  "type_at p a = map_option ev_type (event_heap p a)"

text \<open>The loop over the events that are not signal events.\<close>

definition for_each_nonsignal :: "(nat \<Rightarrow> event_process \<Rightarrow> event_process) \<Rightarrow> event_process \<Rightarrow> event_process" where
  "for_each_nonsignal f p = fold (\<lambda>x. f (snd x)) (idr_entries KFD_FIRST_NONSIGNAL_EVENT_ID (event_idr p)) p"

definition lookup_events_by_type_and_signal ::
    "(waiter_ref \<Rightarrow> bool) \<Rightarrow> bool \<Rightarrow> u32 \<Rightarrow> memory_exception option \<Rightarrow> event_process \<Rightarrow> unix_signal list \<times> event_process" where
  "lookup_events_by_type_and_signal woken send_sigterm ty ev_data p =
     (let found = list_ex (\<lambda>x. type_at p (snd x) = Some ty) (idr_entries KFD_FIRST_NONSIGNAL_EVENT_ID (event_idr p));
          p1 = for_each_nonsignal (\<lambda>a p.
            if type_at p a = Some ty then
              (case ev_data of
                 Some d \<Rightarrow> if ty = KFD_EVENT_TYPE_MEMORY then write_event_data (Memory_exception_data d) a (set_event woken a p)
                           else set_event woken a p
               | None \<Rightarrow> set_event woken a p)
            else p) p
      in ((if ty = KFD_EVENT_TYPE_MEMORY then [SIGSEGV] else []) @ (if \<not> found \<and> send_sigterm then [SIGTERM] else []), p1))"

definition kfd_signal_hw_exception_event ::
    "(waiter_ref \<Rightarrow> bool) \<Rightarrow> bool \<Rightarrow> event_process \<Rightarrow> unix_signal list \<times> event_process" where
  "kfd_signal_hw_exception_event woken send_sigterm p =
     lookup_events_by_type_and_signal woken send_sigterm KFD_EVENT_TYPE_HW_EXCEPTION None p"

definition fault_data :: "u32 \<Rightarrow> kfd_vm_fault_info option \<Rightarrow> memory_exception" where
  "fault_data user_gpu_id info =
     (let m = zero_memory_exception\<lparr>mx_gpu_id := user_gpu_id, mx_imprecise := True\<rparr> in
      case info of
        None \<Rightarrow> m
      | Some i \<Rightarrow> m\<lparr>mx_va := push_bit 12 (page_addr i), mx_NotPresent := prot_valid i, mx_NoExecute := prot_exec i,
                   mx_ReadOnly := prot_write i, mx_imprecise := False\<rparr>)"

definition kfd_signal_vm_fault_event ::
    "(waiter_ref \<Rightarrow> bool) \<Rightarrow> u32 option \<Rightarrow> kfd_vm_fault_info option \<Rightarrow> memory_exception option \<Rightarrow> event_process \<Rightarrow> event_process" where
  "kfd_signal_vm_fault_event woken user_gpu_id info data p =
     (case user_gpu_id of
        None \<Rightarrow> p
      | Some g \<Rightarrow>
          let d = Memory_exception_data (case data of Some d \<Rightarrow> d | None \<Rightarrow> fault_data g info) in
          for_each_nonsignal (\<lambda>a p. if type_at p a = Some KFD_EVENT_TYPE_MEMORY
            then set_event woken a (write_event_data d a p) else p) p)"

text \<open>\<^verbatim>\<open>kfd_signal_reset_event\<close> for one process of the table.\<close>

definition kfd_signal_reset_event ::
    "exception_codes \<Rightarrow> (waiter_ref \<Rightarrow> bool) \<Rightarrow> bool \<Rightarrow> u32 option \<Rightarrow> event_process \<Rightarrow> event_process" where
  "kfd_signal_reset_event c woken sram_ecc user_gpu_id p =
     (case user_gpu_id of
        None \<Rightarrow> p
      | Some g \<Rightarrow>
          let cause = (if sram_ecc then KFD_HW_EXCEPTION_ECC c else KFD_HW_EXCEPTION_GPU_HANG c);
              h = Hw_exception_data \<lparr>hx_gpu_id = g, hx_memory_lost = True, hx_reset_cause = cause\<rparr>;
              m = Memory_exception_data (zero_memory_exception\<lparr>mx_ErrorType := KFD_MEM_ERR_SRAM_ECC c, mx_imprecise := True,
                    mx_gpu_id := g\<rparr>) in
          for_each_nonsignal (\<lambda>a p.
            if type_at p a = Some KFD_EVENT_TYPE_HW_EXCEPTION then set_event woken a (write_event_data h a p)
            else if type_at p a = Some KFD_EVENT_TYPE_MEMORY \<and> cause = KFD_HW_EXCEPTION_ECC c
            then set_event woken a (write_event_data m a p) else p) p)"

definition kfd_signal_poison_consumed_event ::
    "exception_codes \<Rightarrow> (waiter_ref \<Rightarrow> bool) \<Rightarrow> u32 option \<Rightarrow> event_process \<Rightarrow> unix_signal list \<times> event_process" where
  "kfd_signal_poison_consumed_event c woken user_gpu_id p =
     (case user_gpu_id of
        None \<Rightarrow> ([], p)
      | Some g \<Rightarrow>
          let h = Hw_exception_data \<lparr>hx_gpu_id = g, hx_memory_lost = True, hx_reset_cause = KFD_HW_EXCEPTION_ECC c\<rparr>;
              m = Memory_exception_data (zero_memory_exception\<lparr>mx_ErrorType := KFD_MEM_ERR_POISON_CONSUMED c, mx_gpu_id := g,
                    mx_imprecise := True\<rparr>) in
          ([SIGBUS], for_each_nonsignal (\<lambda>a p.
            if type_at p a = Some KFD_EVENT_TYPE_HW_EXCEPTION then set_event woken a (write_event_data h a p)
            else if type_at p a = Some KFD_EVENT_TYPE_MEMORY then set_event woken a (write_event_data m a p) else p) p))"

section \<open>Waiting\<close>

datatype wait_result = WAIT_RESULT_COMPLETE | WAIT_RESULT_TIMEOUT | WAIT_RESULT_FAIL

text \<open>The id and the last event age of an entry of the user's array.\<close>

type_synonym user_event = "nat \<times> u64"

definition init_event_waiter :: "nat \<Rightarrow> nat \<Rightarrow> user_event \<Rightarrow> event_process \<Rightarrow> retval \<times> event_process" where
  "init_event_waiter t i ue p =
     with_event (fst ue) p (\<lambda>a ev.
       let aged = ev_type ev = KFD_EVENT_TYPE_SIGNAL \<and> snd ue \<noteq> 0;
           act = (signaled ev \<or> aged \<and> event_age ev \<noteq> snd ue);
           ev1 = ev\<lparr>signaled := signaled ev \<and> \<not> auto_reset ev, wq := if act then wq ev else (t, i) # wq ev\<rparr>;
           w = \<lparr>w_event = Some a, activated = act, event_age_enabled = aged\<rparr> in
       (OK, upd_waiter (\<lambda>_. w) (t, i) (p\<lparr>event_heap := (event_heap p)(a \<mapsto> ev1)\<rparr>)))"

text \<open>\<open>count\<close> is \<^verbatim>\<open>activated_count\<close>, \<open>n\<close> the number of all waiters.\<close>

fun test_event_loop :: "bool \<Rightarrow> nat \<Rightarrow> nat \<Rightarrow> kfd_event_waiter list \<Rightarrow> wait_result" where
  "test_event_loop all n count [] = (if count = n then WAIT_RESULT_COMPLETE else WAIT_RESULT_TIMEOUT)"
| "test_event_loop all n count (w # ws) =
     (if w_event w = None then WAIT_RESULT_FAIL
      else if activated w then (if \<not> all then WAIT_RESULT_COMPLETE else test_event_loop all n (count + 1) ws)
      else test_event_loop all n count ws)"

definition test_event_condition :: "bool \<Rightarrow> kfd_event_waiter list \<Rightarrow> wait_result" where
  "test_event_condition all ws = test_event_loop all (length ws) 0 ws"

text \<open>
  \<^verbatim>\<open>copy_signaled_event_data\<close>: the copies made to the user's array, each with its index. \<open>prev\<close> is what \<^verbatim>\<open>dst\<close>, \<^verbatim>\<open>src\<close> and \<^verbatim>\<open>size\<close>
  name from an earlier round, since they are not reset: an event without data repeats the copy before it.
\<close>

datatype user_copy = Copy_data event_union | Copy_age u64

fun copy_loop ::
    "(nat \<Rightarrow> bool) \<Rightarrow> (nat \<rightharpoonup> kfd_event) \<Rightarrow> nat \<Rightarrow> (nat \<times> user_copy) option \<Rightarrow> kfd_event_waiter list \<Rightarrow>
     retval \<times> (nat \<times> user_copy) list" where
  "copy_loop copy_ok heap i prev [] = (OK, [])"
| "copy_loop copy_ok heap i prev (w # ws) =
     (case w_event w of
        None \<Rightarrow> (Err EINVAL, [])
      | Some a \<Rightarrow>
          if \<not> activated w then copy_loop copy_ok heap (Suc i) prev ws
          else case heap a of
              None \<Rightarrow> (Err OOPS, [])
            | Some ev \<Rightarrow>
                let prev' = (if ev_type ev = KFD_EVENT_TYPE_MEMORY \<or> ev_type ev = KFD_EVENT_TYPE_HW_EXCEPTION
                             then Some (i, Copy_data (event_data ev))
                             else if ev_type ev = KFD_EVENT_TYPE_SIGNAL \<and> event_age_enabled w then Some (i, Copy_age (event_age ev))
                             else prev) in
                (case prev' of
                   None \<Rightarrow> copy_loop copy_ok heap (Suc i) prev' ws
                 | Some c \<Rightarrow>
                     if \<not> copy_ok (fst c) then (Err EFAULT, [])
                     else (case copy_loop copy_ok heap (Suc i) prev' ws of (r, cs) \<Rightarrow> (r, c # cs))))"

definition copy_signaled_event_data ::
    "(nat \<Rightarrow> bool) \<Rightarrow> nat \<Rightarrow> event_process \<Rightarrow> retval \<times> (nat \<times> user_copy) list" where
  "copy_signaled_event_data copy_ok t p = copy_loop copy_ok (event_heap p) 0 None (waiters p t)"

definition remove_wait_queue :: "nat \<Rightarrow> waiter_ref \<Rightarrow> event_process \<Rightarrow> event_process" where
  "remove_wait_queue a r p =
     p\<lparr>event_heap := (event_heap p)(a := map_option (\<lambda>ev. ev\<lparr>wq := filter (\<lambda>x. x \<noteq> r) (wq ev)\<rparr>) (event_heap p a))\<rparr>"

fun free_loop :: "(waiter_ref \<Rightarrow> bool) \<Rightarrow> nat \<Rightarrow> bool \<Rightarrow> nat list \<Rightarrow> event_process \<Rightarrow> retval \<times> event_process" where
  "free_loop woken t undo_auto_reset [] p = (OK, p)"
| "free_loop woken t undo_auto_reset (i # is) p =
     (let w = waiters p t ! i in
      case w_event w of
        None \<Rightarrow> free_loop woken t undo_auto_reset is p
      | Some a \<Rightarrow>
          (case event_heap p a of
             None \<Rightarrow> (Err OOPS, p)
           | Some ev \<Rightarrow>
               let p1 = remove_wait_queue a (t, i) p in
               free_loop woken t undo_auto_reset is
                 (if undo_auto_reset \<and> activated w \<and> auto_reset ev then set_event woken a p1 else p1)))"

definition free_waiters :: "(waiter_ref \<Rightarrow> bool) \<Rightarrow> nat \<Rightarrow> bool \<Rightarrow> event_process \<Rightarrow> retval \<times> event_process" where
  "free_waiters woken t undo_auto_reset p =
     (case free_loop woken t undo_auto_reset [0..<length (waiters p t)] p of
        (r, p1) \<Rightarrow> (r, if r = OK then p1\<lparr>waiters := (waiters p1)(t := [])\<rparr> else p1))"

text \<open>
  \<^verbatim>\<open>kfd_wait_on_events\<close> takes the mutex twice: for the first part, up to the first look at the events, and for the last part.
  Between them it loops without a lock. The parts are separate operations, and so is one round of the loop. A part gives
  the results of the call (the code, the wait result and the copies) or \<open>None\<close> when the call goes on.

  \<open>user\<close> is the array of the user, with \<open>None\<close> where it cannot be read. The remaining time is not computed: \<open>expired\<close> says
  whether it is over.
\<close>

type_synonym wait_outcome = "retval \<times> wait_result \<times> (nat \<times> user_copy) list"

fun init_event_waiters :: "nat \<Rightarrow> nat \<Rightarrow> user_event option list \<Rightarrow> event_process \<Rightarrow> retval \<times> event_process" where
  "init_event_waiters t i [] p = (OK, p)"
| "init_event_waiters t i (None # us) p = (Err EFAULT, p)"
| "init_event_waiters t i (Some ue # us) p =
     (case init_event_waiter t i ue p of
        (OK, p1) \<Rightarrow> init_event_waiters t (Suc i) us p1
      | (Err e, p1) \<Rightarrow> (Err e, p1))"

definition wait_finish ::
    "(waiter_ref \<Rightarrow> bool) \<Rightarrow> (nat \<Rightarrow> bool) \<Rightarrow> nat \<Rightarrow> retval \<Rightarrow> wait_result \<Rightarrow> event_process \<Rightarrow> wait_outcome \<times> event_process" where
  "wait_finish woken copy_ok t ret wr p =
     (case (if ret = OK \<and> wr = WAIT_RESULT_COMPLETE then copy_signaled_event_data copy_ok t p else (ret, [])) of
        (r1, cs) \<Rightarrow>
          if r1 = Err OOPS then ((Err OOPS, WAIT_RESULT_FAIL, cs), p)
          else case free_waiters woken t (r1 = Err ERESTARTSYS) p of
              (Err e, p1) \<Rightarrow> ((Err e, WAIT_RESULT_FAIL, cs), p1)
            | (OK, p1) \<Rightarrow>
                ((if r1 \<noteq> OK then (r1, WAIT_RESULT_FAIL, cs)
                  else if wr = WAIT_RESULT_FAIL then (Err EIO, WAIT_RESULT_FAIL, cs) else (OK, wr, cs)), p1))"

definition wait_begin ::
    "bool \<Rightarrow> (waiter_ref \<Rightarrow> bool) \<Rightarrow> (nat \<Rightarrow> bool) \<Rightarrow> nat \<Rightarrow> bool \<Rightarrow> user_event option list \<Rightarrow> event_process \<Rightarrow>
     wait_outcome option \<times> event_process" where
  "wait_begin kz woken copy_ok t all user p =
     (if \<not> kz then (Some (Err ENOMEM, WAIT_RESULT_FAIL, []), p)
      else let p0 = p\<lparr>waiters := (waiters p)(t := replicate (length user)
                        \<lparr>w_event = None, activated = False, event_age_enabled = False\<rparr>)\<rparr> in
        case init_event_waiters t 0 user p0 of
          (Err e, p1) \<Rightarrow> (case wait_finish woken copy_ok t (Err e) WAIT_RESULT_FAIL p1 of (r, p2) \<Rightarrow> (Some r, p2))
        | (OK, p1) \<Rightarrow>
            (case test_event_condition all (waiters p1 t) of
               WAIT_RESULT_TIMEOUT \<Rightarrow> (None, p1)
             | wr \<Rightarrow> (case wait_finish woken copy_ok t OK wr p1 of (r, p2) \<Rightarrow> (Some r, p2))))"

definition wait_poll ::
    "bool \<Rightarrow> bool \<Rightarrow> bool \<Rightarrow> nat \<Rightarrow> bool \<Rightarrow> event_process \<Rightarrow> (retval \<times> wait_result) option" where
  "wait_poll fatal_signal pending_signal expired t all p =
     (if fatal_signal then Some (Err EINTR, WAIT_RESULT_FAIL)
      else if pending_signal then Some (Err ERESTARTSYS, WAIT_RESULT_FAIL)
      else case test_event_condition all (waiters p t) of
          WAIT_RESULT_TIMEOUT \<Rightarrow> if expired then Some (OK, WAIT_RESULT_TIMEOUT) else None
        | wr \<Rightarrow> Some (OK, wr))"

end
