(* ===== verification/Events_Invariant.thy ===== *)
theory Events_Invariant
  imports Kfd_Events Resource_Pool
begin

text \<open>
  The invariants of the events of a process: ids, addresses and signal slots belong together, and no waiter can miss a signal.
\<close>

section \<open>The IDR\<close>

definition idr_sorted :: "idr \<Rightarrow> bool" where
  "idr_sorted idr \<longleftrightarrow> sorted_wrt (<) (map fst idr)"

lemma idr_gap_spec:
  assumes "idr_sorted idr"
  shows "n \<le> idr_gap n idr \<and> idr_gap n idr \<notin> fst ` set idr \<and> (\<forall>k. n \<le> k \<and> k < idr_gap n idr \<longrightarrow> k \<in> fst ` set idr)"
  using assms
proof (induction n idr rule: idr_gap.induct)
  case (2 n i a xs)
  have s: "idr_sorted xs" "\<forall>x \<in> set xs. i < fst x" using "2.prems" by (auto simp: idr_sorted_def)
  consider "i < n" | "i = n" | "n < i" by linarith
  then show ?case
  proof cases
    case 1
    with "2.IH"(1) s show ?thesis by auto
  next
    case 2
    from 2 "2.IH"(2) s have IH: "Suc n \<le> idr_gap (Suc n) xs" "idr_gap (Suc n) xs \<notin> fst ` set xs"
      "\<forall>k. Suc n \<le> k \<and> k < idr_gap (Suc n) xs \<longrightarrow> k \<in> fst ` set xs" by auto
    have "k \<in> insert n (fst ` set xs)" if "n \<le> k" "k < idr_gap (Suc n) xs" for k
      using that IH(3) by (cases "k = n") auto
    with 2 IH show ?thesis by auto
  next
    case 3
    with s show ?thesis by (force simp: image_iff)
  qed
qed simp

lemma set_idr_insert [simp]: "set (idr_insert n a idr) = insert (n, a) (set idr)"
  by (induction n a idr rule: idr_insert.induct) auto

lemma idr_sorted_insert: "idr_sorted idr \<Longrightarrow> n \<notin> fst ` set idr \<Longrightarrow> idr_sorted (idr_insert n a idr)"
  by (induction n a idr rule: idr_insert.induct) (force simp: idr_sorted_def)+

lemma idr_sorted_remove: "idr_sorted idr \<Longrightarrow> idr_sorted (idr_remove n idr)"
  by (induction idr) (auto simp: idr_sorted_def idr_remove_def)

lemma idr_distinct: "idr_sorted idr \<Longrightarrow> distinct (map fst idr)"
  by (simp add: idr_sorted_def strict_sorted_iff)

lemma idr_map_of: "idr_sorted idr \<Longrightarrow> map_of idr n = Some a \<longleftrightarrow> (n, a) \<in> set idr"
  using map_of_eq_Some_iff [OF idr_distinct] .

lemma idr_find_iff: "idr_sorted idr \<Longrightarrow> idr_find idr n = Some a \<longleftrightarrow> (n, Some a) \<in> set idr"
  by (auto simp: idr_find_def idr_map_of [symmetric] split: option.splits)

lemma set_idr_remove [simp]: "set (idr_remove n idr) = {x \<in> set idr. fst x \<noteq> n}"
  by (auto simp: idr_remove_def)

text \<open>What an allocation gives: the lowest free id of the range.\<close>

lemma idr_alloc_spec:
  assumes "idr_sorted idr" "idr_alloc ok a start stop idr = (Inr n, idr')"
  shows "idr' = idr_insert n a idr" "n \<notin> fst ` set idr" "start \<le> int n" "0 \<le> start"
    "int n \<le> (if stop > 0 then stop - 1 else int INT_MAX)" "\<And>k. start \<le> int k \<Longrightarrow> k < n \<Longrightarrow> k \<in> fst ` set idr"
    "idr_sorted idr'"
proof -
  have n: "0 \<le> start" "n = idr_gap (nat start) idr" "idr' = idr_insert n a idr" "int n \<le> (if stop > 0 then stop - 1 else int INT_MAX)"
    using assms(2) by (auto simp: idr_alloc_def Let_def split: if_splits)
  note g = idr_gap_spec [OF assms(1), of "nat start"]
  show "idr' = idr_insert n a idr" "n \<notin> fst ` set idr" "start \<le> int n" "0 \<le> start"
    "int n \<le> (if stop > 0 then stop - 1 else int INT_MAX)" "\<And>k. start \<le> int k \<Longrightarrow> k < n \<Longrightarrow> k \<in> fst ` set idr"
    using n g by auto
  then show "idr_sorted idr'" using idr_sorted_insert [OF assms(1)] by simp
qed

lemma idr_alloc_fail: "idr_alloc ok a start stop idr = (Inl e, idr') \<Longrightarrow> idr' = idr"
  by (auto simp: idr_alloc_def Let_def split: if_splits)

text \<open>The ids are a pool of exclusive resources; an operation gives the pointer and the range of the id it wants.\<close>

definition idr_get :: "nat option \<times> int \<times> int \<Rightarrow> idr \<Rightarrow> (nat \<times> idr) option" where
  "idr_get x idr = (case x of (a, start, stop) \<Rightarrow> (case idr_alloc True a start stop idr of (Inr n, idr') \<Rightarrow> Some (n, idr') | (Inl e, _) \<Rightarrow> None))"

interpretation ids: resource_pool idr_get idr_remove "\<lambda>idr. - fst ` set idr" "\<lambda>_. UNIV" "\<lambda>_. True" idr_sorted
proof
  fix idr x n idr' assume s: "idr_sorted idr" "idr_get x idr = Some (n, idr')"
  obtain a start stop where x: "x = (a, start, stop)" by (metis prod_cases3)
  have "idr_alloc True a start stop idr = (Inr n, idr')" using s(2) by (auto simp: idr_get_def x split: prod.splits sum.splits)
  note sp = idr_alloc_spec(1,2,7) [OF s(1) this]
  have "fst ` set idr' = insert n (fst ` set idr)" by (simp add: sp(1))
  with sp(2,3) show "n \<in> - fst ` set idr \<and> - fst ` set idr' = - fst ` set idr - {n} \<and> UNIV = (UNIV :: nat set) \<and> idr_sorted idr'"
    by blast
next
  fix idr and n :: nat assume "idr_sorted idr"
  then show "- fst ` set (idr_remove n idr) = insert n (- fst ` set idr) \<and> UNIV = (UNIV :: nat set) \<and> idr_sorted (idr_remove n idr)"
    using idr_sorted_remove by (auto simp: image_iff)
qed simp

lemma idr_ids_distinct:
  assumes "idr_sorted idr" "pool_run idr_get idr_remove ops (idr, []) = (idr', held)"
  shows "distinct held" "set held \<subseteq> fst ` set idr'"
  using ids.accounting [OF assms(1) _ assms(2)] by auto

section \<open>Waiters\<close>

lemma fold_upd_frame [simp]:
  "event_heap (fold (upd_waiter f) rs p) = event_heap p" "event_idr (fold (upd_waiter f) rs p) = event_idr p"
  "signal_page (fold (upd_waiter f) rs p) = signal_page p" "signal_mapped_size (fold (upd_waiter f) rs p) = signal_mapped_size p"
  "signal_event_count (fold (upd_waiter f) rs p) = signal_event_count p" "event_limit (fold (upd_waiter f) rs p) = event_limit p"
  "length (waiters (fold (upd_waiter f) rs p) t) = length (waiters p t)"
  by (induction rs arbitrary: p) (simp_all add: upd_waiter_def)

lemma fold_upd_nth:
  assumes "\<And>w. f (f w) = f w" "i < length (waiters p t)"
  shows "waiters (fold (upd_waiter f) rs p) t ! i = (if (t, i) \<in> set rs then f (waiters p t ! i) else waiters p t ! i)"
  using assms(2)
proof (induction rs arbitrary: p)
  case (Cons r rs)
  let ?q = "upd_waiter f r p"
  have l: "length (waiters ?q t) = length (waiters p t)" by (simp add: upd_waiter_def)
  have q: "waiters ?q t ! i = (if r = (t, i) then f (waiters p t ! i) else waiters p t ! i)"
    using Cons.prems by (cases r) (auto simp: upd_waiter_def nth_list_update)
  from Cons.IH [of ?q] Cons.prems l show ?case by (auto simp: q assms(1))
qed simp

text \<open>
  The queue of an event holds only waiters for it; a waiter that is not activated is in the queue of its event, which is
  alive; and a waiter for a signaled event is activated.
\<close>

definition waits_for :: "event_process \<Rightarrow> waiter_ref \<Rightarrow> nat \<Rightarrow> bool" where
  "waits_for p r a \<longleftrightarrow> snd r < length (waiters p (fst r)) \<and> w_event (waiters p (fst r) ! snd r) = Some a"

definition is_activated :: "event_process \<Rightarrow> waiter_ref \<Rightarrow> bool" where
  "is_activated p r \<longleftrightarrow> activated (waiters p (fst r) ! snd r)"

text \<open>A thread that is giving up its waiters is exempt from the second part.\<close>

definition wait_inv_but :: "nat set \<Rightarrow> event_process \<Rightarrow> bool" where
  "wait_inv_but T p \<longleftrightarrow>
     (\<forall>a ev r. event_heap p a = Some ev \<longrightarrow> r \<in> set (wq ev) \<longrightarrow> waits_for p r a) \<and>
     (\<forall>a r. fst r \<notin> T \<longrightarrow> waits_for p r a \<longrightarrow> \<not> is_activated p r \<longrightarrow>
        (\<exists>ev. event_heap p a = Some ev \<and> r \<in> set (wq ev) \<and> \<not> signaled ev))"

abbreviation wait_inv :: "event_process \<Rightarrow> bool" where
  "wait_inv \<equiv> wait_inv_but {}"

lemma wait_invD:
  assumes "wait_inv_but T p"
  shows "event_heap p a = Some ev \<Longrightarrow> r \<in> set (wq ev) \<Longrightarrow> waits_for p r a"
    "fst r \<notin> T \<Longrightarrow> waits_for p r a \<Longrightarrow> \<not> is_activated p r \<Longrightarrow> \<exists>ev. event_heap p a = Some ev \<and> r \<in> set (wq ev) \<and> \<not> signaled ev"
  using assms unfolding wait_inv_but_def by blast+

lemma wait_invI:
  assumes "\<And>a ev r. event_heap p a = Some ev \<Longrightarrow> r \<in> set (wq ev) \<Longrightarrow> waits_for p r a"
    "\<And>a r. fst r \<notin> T \<Longrightarrow> waits_for p r a \<Longrightarrow> \<not> is_activated p r \<Longrightarrow>
       \<exists>ev. event_heap p a = Some ev \<and> r \<in> set (wq ev) \<and> \<not> signaled ev"
  shows "wait_inv_but T p"
  using assms unfolding wait_inv_but_def by blast

lemma waits_frame:
  assumes "waiters q = waiters p"
  shows "waits_for q = waits_for p" "is_activated q = is_activated p"
  using assms by (auto simp: waits_for_def is_activated_def fun_eq_iff)

text \<open>Steps that leave the queues and the waiters alone and signal nothing.\<close>

definition quiet_heap :: "event_process \<Rightarrow> event_process \<Rightarrow> bool" where
  "quiet_heap p q \<longleftrightarrow> waiters q = waiters p \<and>
     (\<forall>a. rel_option (\<lambda>e e'. wq e' = wq e \<and> (signaled e' \<longrightarrow> signaled e)) (event_heap p a) (event_heap q a))"

lemma quiet_inv:
  assumes inv: "wait_inv_but T p" and q: "quiet_heap p q"
  shows "wait_inv_but T q"
proof (rule wait_invI)
  have w: "waiters q = waiters p" using q by (simp add: quiet_heap_def)
  have rel: "rel_option (\<lambda>e e'. wq e' = wq e \<and> (signaled e' \<longrightarrow> signaled e)) (event_heap p a) (event_heap q a)" for a
    using q by (simp add: quiet_heap_def)
  { fix a ev r assume h: "event_heap q a = Some ev" "r \<in> set (wq ev)"
    with rel [of a] obtain e where "event_heap p a = Some e" "r \<in> set (wq e)" by (cases "event_heap p a") auto
    from wait_invD(1) [OF inv this] show "waits_for q r a" by (simp add: waits_for_def w) }
  fix a r assume "fst r \<notin> T" "waits_for q r a" "\<not> is_activated q r"
  then obtain e where "event_heap p a = Some e" "r \<in> set (wq e)" "\<not> signaled e"
    using wait_invD(2) [OF inv] waits_frame [OF w] by metis
  with rel [of a] show "\<exists>ev. event_heap q a = Some ev \<and> r \<in> set (wq ev) \<and> \<not> signaled ev"
    by (cases "event_heap q a") auto
qed

lemma quiet_same: "event_heap q = event_heap p \<Longrightarrow> waiters q = waiters p \<Longrightarrow> quiet_heap p q"
  by (auto simp: quiet_heap_def intro: option.rel_refl)

lemma quiet_upd:
  assumes "event_heap p a = Some ev" "wq ev' = wq ev" "signaled ev' \<longrightarrow> signaled ev"
    "event_heap q = (event_heap p)(a \<mapsto> ev')" "waiters q = waiters p"
  shows "quiet_heap p q"
  using assms by (auto simp: quiet_heap_def intro: option.rel_refl)

lemma set_event_frame [simp]:
  "event_idr (set_event woken a p) = event_idr p" "signal_page (set_event woken a p) = signal_page p"
  "signal_mapped_size (set_event woken a p) = signal_mapped_size p" "signal_event_count (set_event woken a p) = signal_event_count p"
  "event_limit (set_event woken a p) = event_limit p" "length (waiters (set_event woken a p) t) = length (waiters p t)"
  by (simp_all add: set_event_def Let_def split: option.splits)

lemma set_event_heap:
  "event_heap (set_event woken a p) b = (if b = a then map_option (\<lambda>ev. ev\<lparr>signaled := \<not> auto_reset ev \<or> wq ev = [],
     event_age := (if event_age ev + 1 = 0 then 2 else event_age ev + 1), wq := filter (\<lambda>r. \<not> woken r) (wq ev)\<rparr>) (event_heap p a)
     else event_heap p b)"
  by (simp add: set_event_def Let_def split: option.splits)

lemma set_event_waiters:
  assumes "event_heap p a = Some ev"
  shows "waits_for (set_event woken a p) r b = waits_for p r b"
    "waits_for p r b \<Longrightarrow> is_activated (set_event woken a p) r = (r \<in> set (wq ev) \<or> is_activated p r)"
proof -
  have "waiters (set_event woken a p) (fst r) ! snd r =
      (if r \<in> set (wq ev) then (waiters p (fst r) ! snd r)\<lparr>activated := True\<rparr> else waiters p (fst r) ! snd r)"
    if "snd r < length (waiters p (fst r))"
    using that assms by (simp add: set_event_def Let_def fold_upd_nth)
  then show "waits_for (set_event woken a p) r b = waits_for p r b"
    "waits_for p r b \<Longrightarrow> is_activated (set_event woken a p) r = (r \<in> set (wq ev) \<or> is_activated p r)"
    by (auto simp: waits_for_def is_activated_def split: if_splits)
qed

lemma set_event_inv:
  assumes inv: "wait_inv_but T p"
  shows "wait_inv_but T (set_event woken a p)"
proof (cases "event_heap p a")
  case None
  with inv show ?thesis by (simp add: set_event_def)
next
  case (Some ev)
  let ?q = "set_event woken a p"
  show ?thesis
  proof (rule wait_invI)
    fix b e r assume "event_heap ?q b = Some e" "r \<in> set (wq e)"
    then obtain e0 where "event_heap p b = Some e0" "r \<in> set (wq e0)"
      by (auto simp: set_event_heap Some split: if_splits)
    with wait_invD(1) [OF inv] set_event_waiters(1) [OF Some] show "waits_for ?q r b" by blast
  next
    fix b r assume t: "fst r \<notin> T" and w: "waits_for ?q r b" and n: "\<not> is_activated ?q r"
    have w0: "waits_for p r b" using w set_event_waiters(1) [OF Some] by blast
    have n0: "r \<notin> set (wq ev)" "\<not> is_activated p r" using n set_event_waiters(2) [OF Some w0] by auto
    obtain e where e: "event_heap p b = Some e" "r \<in> set (wq e)" "\<not> signaled e" using wait_invD(2) [OF inv t w0 n0(2)] by blast
    with n0 Some have "b \<noteq> a" by auto
    with e show "\<exists>ev. event_heap ?q b = Some ev \<and> r \<in> set (wq ev) \<and> \<not> signaled ev" by (simp add: set_event_heap)
  qed
qed

text \<open>After \<^verbatim>\<open>set_event\<close> nobody waits for the event any more.\<close>

lemma set_event_activates:
  assumes "wait_inv p" "event_heap p a = Some ev" "waits_for p r a"
  shows "is_activated (set_event woken a p) r"
  using wait_invD(2) [OF assms(1) _ assms(3)] set_event_waiters(2) [OF assms(2,3)] assms(2) by auto

lemma destroy_event_frame [simp]:
  "length (waiters (destroy_event a p) t) = length (waiters p t)" "event_limit (destroy_event a p) = event_limit p"
  "signal_page (destroy_event a p) = signal_page p" "signal_mapped_size (destroy_event a p) = signal_mapped_size p"
  "event_heap (destroy_event a p) = (event_heap p)(a := None)"
  by (auto simp: destroy_event_def Let_def split: option.splits)

lemma destroy_event_waiters:
  assumes "event_heap p a = Some ev" "snd r < length (waiters p (fst r))"
  shows "waiters (destroy_event a p) (fst r) ! snd r =
    (if r \<in> set (wq ev) then (waiters p (fst r) ! snd r)\<lparr>w_event := None\<rparr> else waiters p (fst r) ! snd r)"
  using assms by (simp add: destroy_event_def Let_def fold_upd_nth)

lemma destroy_event_inv:
  assumes inv: "wait_inv_but T p"
  shows "wait_inv_but T (destroy_event a p)"
proof (cases "event_heap p a")
  case None
  with inv show ?thesis by (simp add: destroy_event_def)
next
  case (Some ev)
  let ?q = "destroy_event a p"
  note w = destroy_event_waiters [OF Some]
  have wf: "waits_for ?q r b \<longleftrightarrow> waits_for p r b \<and> r \<notin> set (wq ev)" for r b
    using w [of r] by (auto simp: waits_for_def split: if_splits)
  have act: "is_activated ?q r = is_activated p r" if "waits_for p r b" for r b
    using w [of r] that by (auto simp: waits_for_def is_activated_def)
  show ?thesis
  proof (rule wait_invI)
    fix b e r assume h: "event_heap ?q b = Some e" "r \<in> set (wq e)"
    then have b: "event_heap p b = Some e" "b \<noteq> a" by (auto split: if_splits)
    from wait_invD(1) [OF inv b(1) h(2)] have 1: "waits_for p r b" .
    moreover have "r \<notin> set (wq ev)" using wait_invD(1) [OF inv Some, of r] 1 b(2) by (auto simp: waits_for_def)
    ultimately show "waits_for ?q r b" by (simp add: wf)
  next
    fix b r assume t: "fst r \<notin> T" and x: "waits_for ?q r b" and n: "\<not> is_activated ?q r"
    have x0: "waits_for p r b" "r \<notin> set (wq ev)" using x by (simp_all add: wf)
    obtain e where e: "event_heap p b = Some e" "r \<in> set (wq e)" "\<not> signaled e"
      using wait_invD(2) [OF inv t x0(1)] n act [OF x0(1)] by blast
    with x0(2) Some have "b \<noteq> a" by auto
    with e show "\<exists>ev. event_heap ?q b = Some ev \<and> r \<in> set (wq ev) \<and> \<not> signaled ev" by simp
  qed
qed

text \<open>A new event at an address that was free.\<close>

lemma new_event_inv:
  assumes inv: "wait_inv_but T p" and a: "event_heap p a = None" and e: "wq ev = []"
    and q: "event_heap q = (event_heap p)(a \<mapsto> ev)" "waiters q = waiters p"
  shows "wait_inv_but T q"
proof (rule wait_invI)
  fix b e' r assume "event_heap q b = Some e'" "r \<in> set (wq e')"
  with q e have "event_heap p b = Some e'" "r \<in> set (wq e')" by (auto split: if_splits)
  from wait_invD(1) [OF inv this] show "waits_for q r b" by (simp add: waits_for_def q)
next
  fix b r assume "fst r \<notin> T" "waits_for q r b" "\<not> is_activated q r"
  then obtain e' where "event_heap p b = Some e'" "r \<in> set (wq e')" "\<not> signaled e'"
    using wait_invD(2) [OF inv] waits_frame [OF q(2)] by metis
  with a q show "\<exists>ev. event_heap q b = Some ev \<and> r \<in> set (wq ev) \<and> \<not> signaled ev" by auto
qed

section \<open>Waiting\<close>

lemma init_waiter_inv:
  assumes inv: "wait_inv p" and i: "i < length (waiters p t)" "w_event (waiters p t ! i) = None"
    and c: "init_event_waiter t i ue p = (r, q)"
  shows "wait_inv q \<and> (\<exists>w. waiters q = (waiters p)(t := (waiters p t)[i := w]))"
proof (cases "\<exists>a ev. lookup_event_by_id p (fst ue) = Some a \<and> event_heap p a = Some ev")
  case False
  with c inv have "q = p" by (auto simp: init_event_waiter_def with_event_def split: option.splits)
  with inv show ?thesis by (metis fun_upd_triv list_update_id)
next
  case True
  then obtain a ev where a: "lookup_event_by_id p (fst ue) = Some a" "event_heap p a = Some ev" by blast
  define act where "act = (signaled ev \<or> (ev_type ev = KFD_EVENT_TYPE_SIGNAL \<and> snd ue \<noteq> 0) \<and> event_age ev \<noteq> snd ue)"
  define ev1 where "ev1 = ev\<lparr>signaled := signaled ev \<and> \<not> auto_reset ev, wq := if act then wq ev else (t, i) # wq ev\<rparr>"
  define w where "w = \<lparr>w_event = Some a, activated = act,
    event_age_enabled = (ev_type ev = KFD_EVENT_TYPE_SIGNAL \<and> snd ue \<noteq> 0)\<rparr>"
  have q: "q = upd_waiter (\<lambda>_. w) (t, i) (p\<lparr>event_heap := (event_heap p)(a \<mapsto> ev1)\<rparr>)"
    using c a by (simp add: init_event_waiter_def with_event_def Let_def ev1_def w_def act_def)
  have ws: "waiters q = (waiters p)(t := (waiters p t)[i := w])" by (simp add: q upd_waiter_def)
  have h: "event_heap q = (event_heap p)(a \<mapsto> ev1)" by (simp add: q upd_waiter_def)
  have wf: "waits_for q r b \<longleftrightarrow> (if r = (t, i) then b = a else waits_for p r b)" for r b
    using i by (cases r) (auto simp: waits_for_def ws w_def nth_list_update)
  have ac: "is_activated q r \<longleftrightarrow> (if r = (t, i) then act else is_activated p r)" for r
    using i by (cases r) (auto simp: is_activated_def ws w_def nth_list_update)
  have out: "\<not> waits_for p (t, i) b" for b using i(2) by (simp add: waits_for_def)
  have "wait_inv q"
  proof (rule wait_invI)
    fix b e r assume b: "event_heap q b = Some e" "r \<in> set (wq e)"
    show "waits_for q r b"
    proof (cases "r = (t, i)")
      case True
      have "b = a"
      proof (rule ccontr)
        assume "b \<noteq> a"
        with b h have "event_heap p b = Some e" by simp
        from wait_invD(1) [OF inv this b(2)] out True show False by blast
      qed
      with True show ?thesis by (simp add: wf)
    next
      case False
      with b h have "\<exists>e0. event_heap p b = Some e0 \<and> r \<in> set (wq e0)"
        by (cases "b = a") (auto simp: ev1_def a(2) split: if_splits)
      then have "waits_for p r b" using wait_invD(1) [OF inv] by blast
      with False show ?thesis by (simp add: wf)
    qed
  next
    fix b r assume x: "waits_for q r b" "\<not> is_activated q r"
    show "\<exists>ev. event_heap q b = Some ev \<and> r \<in> set (wq ev) \<and> \<not> signaled ev"
    proof (cases "r = (t, i)")
      case True
      with x have "b = a" "\<not> act" by (simp_all add: wf ac)
      with True show ?thesis by (auto simp: h ev1_def act_def)
    next
      case False
      with x have "waits_for p r b" "\<not> is_activated p r" by (simp_all add: wf ac)
      then obtain e where e: "event_heap p b = Some e" "r \<in> set (wq e)" "\<not> signaled e"
        using wait_invD(2) [OF inv] by blast
      then show ?thesis using a(2) by (cases "b = a") (auto simp: h ev1_def)
    qed
  qed
  with ws show ?thesis by blast
qed

lemma init_waiters_inv:
  assumes "wait_inv p" "i + length us \<le> length (waiters p t)" "\<forall>j. i \<le> j \<and> j < length (waiters p t) \<longrightarrow> w_event (waiters p t ! j) = None"
    "init_event_waiters t i us p = (r, q)"
  shows "wait_inv q \<and> (\<forall>s. s \<noteq> t \<longrightarrow> waiters q s = waiters p s)"
  using assms
proof (induction t i us p rule: init_event_waiters.induct)
  case (3 t i ue us p)
  obtain r1 p1 where c: "init_event_waiter t i ue p = (r1, p1)" by fastforce
  have "wait_inv p1 \<and> (\<exists>w. waiters p1 = (waiters p)(t := (waiters p t)[i := w]))"
    by (rule init_waiter_inv [OF "3.prems"(1) _ _ c]) (use "3.prems"(2,3) in auto)
  then obtain w where w: "wait_inv p1" "waiters p1 = (waiters p)(t := (waiters p t)[i := w])" by blast
  show ?case
  proof (cases r1)
    case OK
    have "wait_inv q \<and> (\<forall>s. s \<noteq> t \<longrightarrow> waiters q s = waiters p1 s)"
      using "3.prems" OK c w by (intro "3.IH" [OF c [symmetric, unfolded OK] refl]) (auto simp: nth_list_update)
    with w show ?thesis by simp
  next
    case (Err e)
    with "3.prems"(4) c have "q = p1" by simp
    with w show ?thesis by simp
  qed
qed simp_all

lemma remove_queue_inv:
  assumes inv: "wait_inv_but {t} p"
  shows "wait_inv_but {t} (remove_wait_queue a (t, i) p)"
proof (rule wait_invI)
  let ?q = "remove_wait_queue a (t, i) p"
  have fr: "waits_for ?q = waits_for p" "is_activated ?q = is_activated p"
    using waits_frame [of ?q p] by (simp_all add: remove_wait_queue_def)
  { fix b e r assume "event_heap ?q b = Some e" "r \<in> set (wq e)"
    then have "\<exists>e0. event_heap p b = Some e0 \<and> r \<in> set (wq e0)" by (auto simp: remove_wait_queue_def split: if_splits)
    then show "waits_for ?q r b" using wait_invD(1) [OF inv] unfolding fr by blast }
  fix b r assume t: "fst r \<notin> {t}" and x: "waits_for ?q r b" "\<not> is_activated ?q r"
  then obtain e where "event_heap p b = Some e" "r \<in> set (wq e)" "\<not> signaled e"
    using wait_invD(2) [OF inv t] unfolding fr by blast
  with t show "\<exists>ev. event_heap ?q b = Some ev \<and> r \<in> set (wq ev) \<and> \<not> signaled ev"
    by (cases "b = a") (auto simp: remove_wait_queue_def)
qed

text \<open>Queues only lose waiters.\<close>

definition queues_shrink :: "event_process \<Rightarrow> event_process \<Rightarrow> bool" where
  "queues_shrink p q \<longleftrightarrow> (\<forall>a ev. event_heap q a = Some ev \<longrightarrow> (\<exists>e. event_heap p a = Some e \<and> set (wq ev) \<subseteq> set (wq e)))"

lemma shrink_trans: "queues_shrink p q \<Longrightarrow> queues_shrink q s \<Longrightarrow> queues_shrink p s"
  unfolding queues_shrink_def by (meson subset_trans)

lemma shrink_set_event: "queues_shrink p (set_event woken a p)"
  by (auto simp: queues_shrink_def set_event_heap)

lemma shrink_remove: "queues_shrink p (remove_wait_queue a r p)"
  by (auto simp: queues_shrink_def remove_wait_queue_def)

lemma set_event_threads: "w_event (waiters (set_event woken a p) t ! i) = w_event (waiters p t ! i)" if "i < length (waiters p t)"
  using that by (cases "event_heap p a") (auto simp: set_event_def Let_def fold_upd_nth)

lemma free_loop_inv:
  assumes "wait_inv_but {t} p" "free_loop woken t undo is p = (OK, q)" "\<forall>i \<in> set is. i < length (waiters p t)"
  shows "wait_inv_but {t} q \<and> queues_shrink p q \<and> (\<forall>a ev i. event_heap q a = Some ev \<longrightarrow> i \<in> set is \<longrightarrow> (t, i) \<notin> set (wq ev)) \<and>
    (\<forall>s. length (waiters q s) = length (waiters p s))"
  using assms
proof (induction "is" arbitrary: p)
  case Nil
  then show ?case by (auto simp: queues_shrink_def)
next
  case (Cons i "is")
  show ?case
  proof (cases "w_event (waiters p t ! i)")
    case None
    then have "free_loop woken t undo is p = (OK, q)" using Cons.prems(2) by simp
    note IH = Cons.IH [OF Cons.prems(1) this]
    have "(t, i) \<notin> set (wq ev)" if "event_heap q a = Some ev" for a ev
    proof
      assume "(t, i) \<in> set (wq ev)"
      with IH that Cons.prems(3) obtain e where "event_heap p a = Some e" "(t, i) \<in> set (wq e)"
        unfolding queues_shrink_def by (meson list.set_intros(2) subsetD)
      from wait_invD(1) [OF Cons.prems(1) this] None show False by (simp add: waits_for_def)
    qed
    with IH Cons.prems(3) show ?thesis by auto
  next
    case (Some a)
    then obtain ev where ev: "event_heap p a = Some ev" using Cons.prems(2) by (cases "event_heap p a") auto
    define p1 where "p1 = remove_wait_queue a (t, i) p"
    define p2 where "p2 = (if undo \<and> activated (waiters p t ! i) \<and> auto_reset ev then set_event woken a p1 else p1)"
    have l: "free_loop woken t undo is p2 = (OK, q)" using Cons.prems(2) Some ev by (auto simp: p2_def p1_def Let_def split: if_splits)
    have i1: "wait_inv_but {t} p1" unfolding p1_def by (rule remove_queue_inv [OF Cons.prems(1)])
    have i2: "wait_inv_but {t} p2" using i1 set_event_inv by (simp add: p2_def)
    have len: "length (waiters p2 s) = length (waiters p s)" for s by (simp add: p2_def p1_def remove_wait_queue_def)
    note IH = Cons.IH [OF i2 l]
    have s2: "queues_shrink p1 p2" using shrink_set_event by (simp add: p2_def) (simp add: queues_shrink_def)
    have sh: "queues_shrink p p2" using shrink_trans [OF shrink_remove s2 [unfolded p1_def]] by simp
    have "(t, i) \<notin> set (wq e)" if q: "event_heap q b = Some e" for b e
    proof
      assume m: "(t, i) \<in> set (wq e)"
      have "queues_shrink p1 q" using shrink_trans [OF s2] IH Cons.prems(3) len by auto
      then obtain e1 where e1: "event_heap p1 b = Some e1" "(t, i) \<in> set (wq e1)" 
        using q m unfolding queues_shrink_def by (meson subsetD)
      from wait_invD(1) [OF i1 e1] Some have "b = a" by (simp add: waits_for_def p1_def remove_wait_queue_def)
      with e1 ev show False by (auto simp: p1_def remove_wait_queue_def)
    qed
    with IH Cons.prems(3) len shrink_trans [OF sh] show ?thesis by auto
  qed
qed

lemma free_waiters_inv:
  assumes inv: "wait_inv_but {t} p" and c: "free_waiters woken t undo p = (OK, q)"
  shows "wait_inv q" "waiters q t = []" "s \<noteq> t \<Longrightarrow> length (waiters q s) = length (waiters p s)"
proof -
  obtain p1 where l: "free_loop woken t undo [0..<length (waiters p t)] p = (OK, p1)" "q = p1\<lparr>waiters := (waiters p1)(t := [])\<rparr>"
    using c by (auto simp: free_waiters_def split: prod.splits if_splits)
  note f = free_loop_inv [OF inv l(1)]
  have f1: "wait_inv_but {t} p1" "\<And>a ev i. event_heap p1 a = Some ev \<Longrightarrow> i < length (waiters p t) \<Longrightarrow> (t, i) \<notin> set (wq ev)"
    "\<And>s. length (waiters p1 s) = length (waiters p s)"
    using f by auto
  have wf: "waits_for q r b \<longleftrightarrow> fst r \<noteq> t \<and> waits_for p1 r b" "fst r \<noteq> t \<Longrightarrow> is_activated q r = is_activated p1 r" for r b
    by (auto simp: waits_for_def is_activated_def l(2))
  have h: "event_heap q = event_heap p1" by (simp add: l(2))
  show "waiters q t = []" "s \<noteq> t \<Longrightarrow> length (waiters q s) = length (waiters p s)" by (simp_all add: l(2) f1)
  show "wait_inv q"
  proof (rule wait_invI)
    fix a ev r assume a: "event_heap q a = Some ev" "r \<in> set (wq ev)"
    have w: "waits_for p1 r a" using wait_invD(1) [OF f1(1)] a h by simp
    have "fst r \<noteq> t"
    proof
      assume "fst r = t"
      then have "r = (t, snd r)" by (metis prod.collapse)
      with f1(2) [of a ev "snd r"] a h w f1(3) show False by (metis waits_for_def fst_conv)
    qed
    with w show "waits_for q r a" by (simp add: wf)
  next
    fix a r assume x: "waits_for q r a" "\<not> is_activated q r"
    then have "fst r \<notin> {t}" "waits_for p1 r a" "\<not> is_activated p1 r" by (auto simp: wf)
    from wait_invD(2) [OF f1(1) this] show "\<exists>ev. event_heap q a = Some ev \<and> r \<in> set (wq ev) \<and> \<not> signaled ev"
      by (simp add: h)
  qed
qed

lemma wait_inv_weaken: "wait_inv p \<Longrightarrow> wait_inv_but T p"
  unfolding wait_inv_but_def by blast

lemma free_loop_oops: "free_loop woken t undo is p = (Err e, q) \<Longrightarrow> e = OOPS"
  by (induction woken t undo "is" p rule: free_loop.induct) (auto simp: Let_def split: option.splits)

lemma wait_finish_frees:
  assumes c: "wait_finish woken copy_ok t ret wr p = ((r, wr', cs), q)" and r: "r \<noteq> Err OOPS"
  obtains undo where "free_waiters woken t undo p = (OK, q)"
proof -
  obtain r1 cs' where c1: "(if ret = OK \<and> wr = WAIT_RESULT_COMPLETE then copy_signaled_event_data copy_ok t p else (ret, [])) = (r1, cs')"
    by (meson surj_pair)
  obtain r2 p2 where f: "free_waiters woken t (r1 = Err ERESTARTSYS) p = (r2, p2)" by (meson surj_pair)
  have "r1 \<noteq> Err OOPS" using c r unfolding wait_finish_def c1 by (auto split: if_splits)
  moreover have "r2 = OK"
  proof (cases r2)
    case (Err e)
    then have "e = OOPS" using f free_loop_oops by (auto simp: free_waiters_def split: prod.splits)
    with Err c c1 f r \<open>r1 \<noteq> Err OOPS\<close> show ?thesis by (simp add: wait_finish_def)
  qed
  ultimately have "p2 = q" using c c1 f by (auto simp: wait_finish_def split: if_splits)
  with f \<open>r2 = OK\<close> that show thesis by blast
qed

lemma wait_finish_inv:
  assumes inv: "wait_inv p" and c: "wait_finish woken copy_ok t ret wr p = ((r, wr', cs), q)" and r: "r \<noteq> Err OOPS"
  shows "wait_inv q" "waiters q t = []" "s \<noteq> t \<Longrightarrow> length (waiters q s) = length (waiters p s)"
proof -
  obtain undo where f: "free_waiters woken t undo p = (OK, q)" using wait_finish_frees [OF c r] .
  show "wait_inv q" "waiters q t = []" "s \<noteq> t \<Longrightarrow> length (waiters q s) = length (waiters p s)"
    using free_waiters_inv [OF wait_inv_weaken [OF inv] f] by auto
qed

text \<open>The first part of a wait, by a thread that has no waiters.\<close>

lemma blank_waiters_inv:
  assumes inv: "wait_inv p" and t: "waiters p t = []" and q: "event_heap q = event_heap p"
    "waiters q = (waiters p)(t := replicate n \<lparr>w_event = None, activated = False, event_age_enabled = False\<rparr>)"
  shows "wait_inv q"
proof (rule wait_invI)
  have wf: "waits_for q r b \<longleftrightarrow> waits_for p r b" for r b
    using t by (cases "fst r = t") (auto simp: waits_for_def q(2))
  have ac: "waits_for p r b \<Longrightarrow> is_activated q r = is_activated p r" for r b
    using t by (cases "fst r = t") (auto simp: waits_for_def is_activated_def q(2))
  { fix a ev r assume "event_heap q a = Some ev" "r \<in> set (wq ev)"
    then show "waits_for q r a" using wait_invD(1) [OF inv] unfolding wf q by blast }
  fix a r assume "waits_for q r a" "\<not> is_activated q r"
  then show "\<exists>ev. event_heap q a = Some ev \<and> r \<in> set (wq ev) \<and> \<not> signaled ev"
    using wait_invD(2) [OF inv] ac unfolding wf q by blast
qed

lemma wait_begin_inv:
  assumes inv: "wait_inv p" and t: "waiters p t = []" and c: "wait_begin kz woken copy_ok t all user p = (out, q)"
    and r: "\<And>r wr cs. out = Some (r, wr, cs) \<Longrightarrow> r \<noteq> Err OOPS"
  shows "wait_inv q" "out \<noteq> None \<Longrightarrow> waiters q t = []" "s \<noteq> t \<Longrightarrow> length (waiters q s) = length (waiters p s)"
proof -
  define p0 where "p0 = p\<lparr>waiters := (waiters p)(t := replicate (length user)
    \<lparr>w_event = None, activated = False, event_age_enabled = False\<rparr>)\<rparr>"
  have i0: "wait_inv p0" by (rule blank_waiters_inv [OF inv t]) (simp_all add: p0_def)
  obtain r1 p1 where ini: "init_event_waiters t 0 user p0 = (r1, p1)" by (meson surj_pair)
  have i1: "wait_inv p1" "\<And>s. s \<noteq> t \<Longrightarrow> waiters p1 s = waiters p s"
    using init_waiters_inv [OF i0 _ _ ini] by (auto simp: p0_def)
  have "wait_inv q \<and> (out \<noteq> None \<longrightarrow> waiters q t = []) \<and> (s \<noteq> t \<longrightarrow> length (waiters q s) = length (waiters p s))"
  proof (cases "kz \<and> out \<noteq> None")
    case True
    then obtain ret wr where "wait_finish woken copy_ok t ret wr p1 = (the out, q)"
      using c ini by (auto simp: wait_begin_def p0_def [symmetric] Let_def split: retval.splits wait_result.splits prod.splits)
    moreover obtain r2 wr2 cs2 where "out = Some (r2, wr2, cs2)" using True by (metis not_None_eq prod_cases3)
    ultimately show ?thesis using wait_finish_inv [OF i1(1)] r i1(2) by simp
  next
    case False
    then have "q = (if kz then p1 else p)" "\<not> kz \<or> out = None"
      using c ini by (auto simp: wait_begin_def p0_def [symmetric] Let_def split: retval.splits wait_result.splits prod.splits)
    with inv i1 t show ?thesis by simp
  qed
  then show "wait_inv q" "out \<noteq> None \<Longrightarrow> waiters q t = []" "s \<noteq> t \<Longrightarrow> length (waiters q s) = length (waiters p s)"
    by blast+
qed

end
