(* ===== verification/Events_Reach.thy ===== *)
theory Events_Reach
  imports Events_Invariant
begin

text \<open>
  The events of a process and the threads that wait for them as a transition system: every handler of
  \<^verbatim>\<open>kfd_events.c\<close> is a step, and so are the writes of the GPU to the signal slots. A thread in \<^verbatim>\<open>kfd_wait_on_events\<close> goes through
  three phases.
\<close>

section \<open>Ids, addresses and slots\<close>

definition ident :: "event_process \<Rightarrow> nat \<rightharpoonup> nat \<times> u32" where
  "ident p a = map_option (\<lambda>ev. (event_id ev, ev_type ev)) (event_heap p a)"

definition page_len :: "event_process \<Rightarrow> nat option" where
  "page_len p = map_option (length \<circ> page_slots) (signal_page p)"

text \<open>The part of the state that the invariant of the ids is about.\<close>

definition ids_view :: "event_process \<Rightarrow> idr \<times> nat \<times> nat option \<times> u64 \<times> nat \<times> (nat \<rightharpoonup> nat \<times> u32)" where
  "ids_view p = (event_idr p, event_limit p, page_len p, signal_mapped_size p, signal_event_count p, ident p)"

definition signal_addrs :: "(nat \<rightharpoonup> nat \<times> u32) \<Rightarrow> nat set" where
  "signal_addrs idt = {a. \<exists>i ty. idt a = Some (i, ty) \<and> is_signal_type ty}"

text \<open>
  Id 0 is taken by a null pointer; every other id belongs to the live event with that id, and every live event has its id in
  the IDR; the counter counts the signal events; every signal event has a slot; what is mapped lies in the page. The
  limit is a power of two of pages, as it is in the user interface.
\<close>

fun ids_ok :: "idr \<times> nat \<times> nat option \<times> u64 \<times> nat \<times> (nat \<rightharpoonup> nat \<times> u32) \<Rightarrow> bool" where
  "ids_ok (idr, lim, pl, ms, cnt, idt) \<longleftrightarrow>
     idr_sorted idr \<and> (\<forall>i. (i, None) \<in> set idr \<longleftrightarrow> i = 0) \<and> (\<forall>i a. (i, Some a) \<in> set idr \<longleftrightarrow> (\<exists>ty. idt a = Some (i, ty))) \<and>
     finite (dom idt) \<and> cnt = 1 + card (signal_addrs idt) \<and> (\<exists>k. lim = 512 * 2 ^ k) \<and>
     (\<forall>n. pl = Some n \<longrightarrow> lim \<le> n \<and> unat ms div 8 \<le> n \<and> 8 \<le> unat ms) \<and>
     (\<forall>a i ty. idt a = Some (i, ty) \<longrightarrow> is_signal_type ty \<longrightarrow> (\<exists>n. pl = Some n \<and> i < n))"

definition ids_inv :: "event_process \<Rightarrow> bool" where
  "ids_inv p \<longleftrightarrow> ids_ok (ids_view p)"

lemma ids_invD:
  assumes "ids_inv p"
  shows "idr_sorted (event_idr p)" "(i, None) \<in> set (event_idr p) \<longleftrightarrow> i = 0"
    "(i, Some a) \<in> set (event_idr p) \<longleftrightarrow> (\<exists>ev. event_heap p a = Some ev \<and> event_id ev = i)"
    "finite (dom (event_heap p))" "signal_event_count p = 1 + card (signal_addrs (ident p))" "\<exists>k. event_limit p = 512 * 2 ^ k"
    "signal_page p = Some pg \<Longrightarrow> event_limit p \<le> length (page_slots pg)"
    "signal_page p = Some pg \<Longrightarrow> unat (signal_mapped_size p) div 8 \<le> length (page_slots pg)"
    "signal_page p = Some pg \<Longrightarrow> 8 \<le> unat (signal_mapped_size p)"
proof -
  have "dom (ident p) = dom (event_heap p)" by (auto simp: ident_def)
  with assms show "idr_sorted (event_idr p)" "(i, None) \<in> set (event_idr p) \<longleftrightarrow> i = 0"
    "(i, Some a) \<in> set (event_idr p) \<longleftrightarrow> (\<exists>ev. event_heap p a = Some ev \<and> event_id ev = i)"
    "finite (dom (event_heap p))" "signal_event_count p = 1 + card (signal_addrs (ident p))" "\<exists>k. event_limit p = 512 * 2 ^ k"
    "signal_page p = Some pg \<Longrightarrow> event_limit p \<le> length (page_slots pg)"
    "signal_page p = Some pg \<Longrightarrow> unat (signal_mapped_size p) div 8 \<le> length (page_slots pg)"
    "signal_page p = Some pg \<Longrightarrow> 8 \<le> unat (signal_mapped_size p)"
    unfolding ids_inv_def ids_view_def ids_ok.simps
    by (simp_all add: page_len_def ident_def)
qed

lemma ids_slot:
  assumes "ids_inv p" "event_heap p a = Some ev" "is_signal_type (ev_type ev)"
  obtains pg where "signal_page p = Some pg" "event_id ev < length (page_slots pg)"
proof -
  have "\<forall>a i ty. ident p a = Some (i, ty) \<longrightarrow> is_signal_type ty \<longrightarrow> (\<exists>n. page_len p = Some n \<and> i < n)"
    using assms(1) unfolding ids_inv_def ids_view_def ids_ok.simps by blast
  moreover have "ident p a = Some (event_id ev, ev_type ev)" using assms(2) by (simp add: ident_def)
  ultimately obtain n where "page_len p = Some n" "event_id ev < n" using assms(3) by blast
  with that show thesis by (auto simp: page_len_def)
qed

section \<open>Steps that keep ids, types and queues in order\<close>

definition calm :: "event_process \<Rightarrow> event_process \<Rightarrow> bool" where
  "calm p q \<longleftrightarrow> ids_view q = ids_view p \<and> (\<forall>t. length (waiters q t) = length (waiters p t)) \<and> (wait_inv p \<longrightarrow> wait_inv q)"

lemma calm_refl [simp]: "calm p p"
  by (simp add: calm_def)

lemma calm_trans [trans]: "calm p q \<Longrightarrow> calm q r \<Longrightarrow> calm p r"
  by (simp add: calm_def)

lemma ids_view_heap:
  assumes "event_idr q = event_idr p" "event_limit q = event_limit p" "page_len q = page_len p" 
    "signal_mapped_size q = signal_mapped_size p" "signal_event_count q = signal_event_count p" "ident q = ident p"
  shows "ids_view q = ids_view p"
  using assms by (simp add: ids_view_def)

lemma set_event_calm: "calm p (set_event woken a p)"
proof -
  have "ident (set_event woken a p) = ident p" by (auto simp: ident_def set_event_heap fun_eq_iff option.map_comp o_def)
  then have "ids_view (set_event woken a p) = ids_view p" by (intro ids_view_heap) (simp_all add: page_len_def)
  then show ?thesis by (simp add: calm_def set_event_inv)
qed

lemma set_slot_calm: "calm p (set_slot i v p)"
proof -
  have "ids_view (set_slot i v p) = ids_view p"
    by (rule ids_view_heap) (auto simp: set_slot_def page_len_def ident_def fun_eq_iff option.map_comp o_def)
  moreover have "wait_inv p \<longrightarrow> wait_inv (set_slot i v p)" using quiet_inv quiet_same by (simp add: set_slot_def)
  ultimately show ?thesis by (simp add: calm_def) (simp add: set_slot_def)
qed

lemma write_event_data_calm: "calm p (write_event_data d a p)"
proof -
  have "quiet_heap p (write_event_data d a p)"
    by (cases "event_heap p a") (auto simp: quiet_heap_def write_event_data_def intro: option.rel_refl)
  moreover have "ids_view (write_event_data d a p) = ids_view p"
    by (rule ids_view_heap) (auto simp: write_event_data_def page_len_def ident_def fun_eq_iff option.map_comp o_def)
  ultimately show ?thesis using quiet_inv by (simp add: calm_def) (simp add: write_event_data_def)
qed

lemma from_interrupt_calm: "calm p (set_event_from_interrupt woken e p)"
  using calm_trans [OF set_slot_calm set_event_calm] by (simp add: set_event_from_interrupt_def split: option.splits)

lemma signal_entries_calm: "calm p (signal_entries woken es p)"
proof (induction woken es p rule: signal_entries.induct)
  case (2 woken i a es p)
  let ?q = "if slot_at p i \<noteq> UNSIGNALED_EVENT_SLOT then set_event_from_interrupt woken (Some a) p else p"
  have "calm p ?q" by (simp add: from_interrupt_calm)
  then have "calm p (signal_entries woken es ?q)" if "\<not> event_limit p \<le> i" using 2 [OF that] calm_trans by blast
  then show ?case by simp
qed simp

lemma signal_slots_calm: "calm p (signal_slots woken is p)"
proof (induction woken "is" p rule: signal_slots.induct)
  case (2 woken i "is" p)
  let ?q = "if slot_at p i \<noteq> UNSIGNALED_EVENT_SLOT then set_event_from_interrupt woken (lookup_event_by_id p i) p else p"
  have "calm p ?q" by (simp add: from_interrupt_calm)
  then have "calm p (signal_slots woken is ?q)" using 2 calm_trans by blast
  then show ?case by simp
qed simp

lemma interrupt_calm: "calm p (kfd_signal_event_interrupt woken i bits p)"
  by (simp add: kfd_signal_event_interrupt_def from_interrupt_calm signal_entries_calm signal_slots_calm split: option.splits)

lemma fold_calm: "(\<And>x q. calm q (f x q)) \<Longrightarrow> calm p (fold f xs p)"
proof (induction xs arbitrary: p)
  case (Cons x xs)
  then show ?case using calm_trans [of p "f x p"] by simp
qed simp

lemma for_each_calm: "(\<And>a q. calm q (f a q)) \<Longrightarrow> calm p (for_each_nonsignal f p)"
  unfolding for_each_nonsignal_def by (rule fold_calm)

lemmas set_and_write_calm = set_event_calm write_event_data_calm
  calm_trans [OF set_event_calm write_event_data_calm] calm_trans [OF write_event_data_calm set_event_calm]

lemma exceptions_calm:
  "calm p (snd (kfd_signal_hw_exception_event woken send p))"
  "calm p (kfd_signal_vm_fault_event woken gpu info d p)"
  "calm p (kfd_signal_reset_event c woken ecc gpu p)"
  "calm p (snd (kfd_signal_poison_consumed_event c woken gpu p))"
  by (auto simp: kfd_signal_hw_exception_event_def lookup_events_by_type_and_signal_def kfd_signal_vm_fault_event_def
      kfd_signal_reset_event_def kfd_signal_poison_consumed_event_def Let_def
      intro!: for_each_calm set_and_write_calm split: option.splits)

section \<open>Steps that add and remove events\<close>

lemma signal_addrs_finite: "finite (dom idt) \<Longrightarrow> finite (signal_addrs idt)"
  by (rule finite_subset [of _ "dom idt"]) (auto simp: signal_addrs_def)

lemma ids_ok_insert:
  assumes ok: "ids_ok (idr, lim, pl, ms, cnt, idt)" and a: "idt a = None" and n: "n \<notin> fst ` set idr"
    and s: "is_signal_type ty \<longrightarrow> (\<exists>m. pl = Some m \<and> n < m)"
  shows "ids_ok (idr_insert n (Some a) idr, lim, pl, ms, if is_signal_type ty then cnt + 1 else cnt, idt(a \<mapsto> (n, ty)))"
proof -
  have c: "signal_addrs (idt(a \<mapsto> (n, ty))) = (if is_signal_type ty then insert a (signal_addrs idt) else signal_addrs idt)"
    "a \<notin> signal_addrs idt"
    using a by (auto simp: signal_addrs_def)
  have f: "finite (signal_addrs idt)" "finite (dom (idt(a \<mapsto> (n, ty))))" using ok signal_addrs_finite by simp_all
  have n0: "n \<noteq> 0" using ok n by (force simp: image_iff)
  have m: "(i, Some b) \<in> set idr \<longleftrightarrow> (\<exists>ty. idt b = Some (i, ty))" for i b using ok by simp
  have "(i, Some b) \<in> set (idr_insert n (Some a) idr) \<longleftrightarrow> (\<exists>ty'. (idt(a \<mapsto> (n, ty))) b = Some (i, ty'))" for i b
    using a m [of i b] by (cases "b = a") auto
  moreover have "idr_sorted (idr_insert n (Some a) idr)" using ok n idr_sorted_insert by simp
  ultimately show ?thesis using ok n0 s c f by simp
qed

lemma ids_ok_remove:
  assumes ok: "ids_ok (idr, lim, pl, ms, cnt, idt)" and a: "idt a = Some (n, ty)"
  shows "ids_ok (idr_remove n idr, lim, pl, ms, if is_signal_type ty then cnt - 1 else cnt, idt(a := None))"
proof -
  have c: "signal_addrs (idt(a := None)) = signal_addrs idt - {a}" "a \<in> signal_addrs idt \<longleftrightarrow> is_signal_type ty"
    using a by (auto simp: signal_addrs_def)
  have f: "finite (signal_addrs idt)" "finite (dom (idt(a := None)))" using ok signal_addrs_finite by simp_all
  have k: "card (signal_addrs (idt(a := None))) = (if is_signal_type ty then card (signal_addrs idt) - 1 else card (signal_addrs idt))"
    using c by (simp add: card_Diff_singleton)
  have pos: "is_signal_type ty \<Longrightarrow> card (signal_addrs idt) > 0" using c f by (auto simp: card_gt_0_iff)
  have m: "(i, Some b) \<in> set idr \<longleftrightarrow> (\<exists>ty. idt b = Some (i, ty))" for i b using ok by simp
  have "(n, Some a) \<in> set idr" using a m by blast
  then have n0: "b = a" if "(n, Some b) \<in> set idr" for b
    using that idr_map_of [of idr n] ok by (metis ids_ok.simps option.inject)
  have z: "n \<noteq> 0" using \<open>(n, Some a) \<in> set idr\<close> idr_map_of [of idr 0] ok by (metis ids_ok.simps option.distinct(1) option.inject)
  have "(i, Some b) \<in> set (idr_remove n idr) \<longleftrightarrow> (\<exists>ty'. (idt(a := None)) b = Some (i, ty'))" for i b
    using a m [of i b] n0 by (cases "b = a") auto
  moreover have "idr_sorted (idr_remove n idr)" using ok idr_sorted_remove by simp
  ultimately show ?thesis using ok k pos z f by auto
qed

lemma ids_new_page:
  assumes "ids_inv p" "signal_page p = None" "event_limit p \<le> length (page_slots pg)" "unat ms div 8 \<le> length (page_slots pg)"
    "8 \<le> unat ms"
  shows "ids_inv (p\<lparr>signal_page := Some pg, signal_mapped_size := ms\<rparr>)"
    "ids_inv (p\<lparr>signal_page := Some pg, signal_mapped_size := ms, signal_handle := h\<rparr>)"
  using assms by (simp_all add: ids_inv_def ids_view_def page_len_def ident_def [abs_def])

lemma ids_limit: "ids_inv p \<Longrightarrow> 512 \<le> event_limit p"
  using ids_invD(6) by force

text \<open>A new event, in an id that \<^verbatim>\<open>idr_alloc\<close> gave.\<close>

lemma new_event_ids:
  assumes inv: "ids_inv p" and a: "event_heap p a = None" and al: "idr_alloc ok (Some a) start stop (event_idr p) = (Inr n, idr)"
    and q: "event_idr q = idr" "event_limit q = event_limit p" "page_len q = page_len p" "signal_mapped_size q = signal_mapped_size p"
      "signal_event_count q = (if is_signal_type (ev_type ev) then signal_event_count p + 1 else signal_event_count p)"
      "event_heap q = (event_heap p)(a \<mapsto> ev)" "event_id ev = n"
    and s: "is_signal_type (ev_type ev) \<Longrightarrow> \<exists>m. page_len p = Some m \<and> n < m"
  shows "ids_inv q"
proof -
  note sp = idr_alloc_spec [OF ids_invD(1) [OF inv] al]
  have id: "ident q = (ident p)(a \<mapsto> (n, ev_type ev))" "ident p a = None" using q(6,7) a by (auto simp: ident_def fun_eq_iff)
  have "ids_ok (event_idr p, event_limit p, page_len p, signal_mapped_size p, signal_event_count p, ident p)"
    using inv by (simp add: ids_inv_def ids_view_def del: ids_ok.simps)
  from ids_ok_insert [OF this id(2) sp(2), of "ev_type ev"] s show ?thesis
    unfolding ids_inv_def ids_view_def id q sp(1) by simp
qed

lemma destroy_event_ids:
  assumes inv: "ids_inv p"
  shows "ids_inv (destroy_event a p)"
proof (cases "event_heap p a")
  case (Some ev)
  let ?q = "destroy_event a p"
  have id: "ident ?q = (ident p)(a := None)" "ident p a = Some (event_id ev, ev_type ev)" using Some by (auto simp: ident_def fun_eq_iff)
  have q: "event_idr ?q = idr_remove (event_id ev) (event_idr p)"
    "signal_event_count ?q = (if is_signal_type (ev_type ev) then signal_event_count p - 1 else signal_event_count p)"
    "page_len ?q = page_len p"
    using Some by (simp_all add: destroy_event_def Let_def page_len_def)
  have "ids_ok (event_idr p, event_limit p, page_len p, signal_mapped_size p, signal_event_count p, ident p)"
    using inv by (simp add: ids_inv_def ids_view_def del: ids_ok.simps)
  from ids_ok_remove [OF this id(2)] show ?thesis unfolding ids_inv_def ids_view_def id q by simp
qed (simp add: destroy_event_def inv)

text \<open>The page, made when there is none.\<close>

definition ensure_page :: "event_env \<Rightarrow> event_process \<Rightarrow> event_process option" where
  "ensure_page env p =
     (case signal_page p of
        Some pg \<Rightarrow> Some p
      | None \<Rightarrow> map_option (\<lambda>pg. p\<lparr>signal_page := Some pg, signal_mapped_size := 256 * 8\<rparr>)
                  (allocate_signal_page (ee_kzalloc env) (ee_pages env) p))"

lemma ensure_page_frame:
  assumes "ensure_page env p = Some p1"
  shows "event_heap p1 = event_heap p" "event_idr p1 = event_idr p" "waiters p1 = waiters p" "event_limit p1 = event_limit p"
    "signal_event_count p1 = signal_event_count p" "\<exists>pg. signal_page p1 = Some pg" "ids_inv p \<Longrightarrow> ids_inv p1"
proof -
  show "event_heap p1 = event_heap p" "event_idr p1 = event_idr p" "waiters p1 = waiters p" "event_limit p1 = event_limit p"
    "signal_event_count p1 = signal_event_count p" "\<exists>pg. signal_page p1 = Some pg"
    using assms by (auto simp: ensure_page_def split: option.splits)
  assume inv: "ids_inv p"
  show "ids_inv p1"
  proof (cases "signal_page p")
    case None
    then obtain pg where "p1 = p\<lparr>signal_page := Some pg, signal_mapped_size := 256 * 8\<rparr>" "length (page_slots pg) = event_limit p"
      using assms by (auto simp: ensure_page_def allocate_signal_page_def split: if_splits)
    with ids_new_page(1) [OF inv None, of pg "256 * 8"] ids_limit [OF inv] show ?thesis by simp
  next
    case (Some pg)
    with assms inv show ?thesis by (simp add: ensure_page_def)
  qed
qed

lemma sint_u32:
  assumes "unat (w :: u32) = y" "y < 2 ^ 32"
  shows "sint w = (if y < 2 ^ 31 then int y else int y - 2 ^ 32)"
proof -
  have "uint w = int y" using assms(1) by auto
  then have "sint w = (int y + 2 ^ 31) mod 2 ^ 32 - 2 ^ 31"
    by (simp add: sint_uint signed_take_bit_eq_take_bit_shift take_bit_eq_mod)
  moreover have "(int y + 2 ^ 31) mod 2 ^ 32 = (if y < 2 ^ 31 then int y + 2 ^ 31 else int y + 2 ^ 31 - 2 ^ 32)"
  proof (cases "y < 2 ^ 31")
    case False
    have "(int y + 2 ^ 31) mod 2 ^ 32 = (int y + 2 ^ 31 - 2 ^ 32) mod 2 ^ 32" by (simp only: minus_mod_self2)
    with False assms(2) show ?thesis by simp
  qed simp
  ultimately show ?thesis by simp
qed

lemma mapped_stop_bound:
  assumes "8 \<le> unat (ms :: u64)" "unat ms div 8 \<le> len" "stop = sint (ucast (ms div 8) :: u32)"
    "int n \<le> (if stop > 0 then stop - 1 else int INT_MAX)"
  shows "n < len"
proof -
  define x where "x = unat ms div 8"
  have x: "unat (ms div 8) = x" "1 \<le> x" "x \<le> len" using assms(1,2) by (auto simp: x_def unat_div)
  have u: "unat (ucast (ms div 8) :: u32) = x mod 2 ^ 32" by (simp add: unsigned_ucast_eq x take_bit_eq_mod)
  have "sint (ucast (ms div 8) :: u32) = (if x mod 2 ^ 32 < 2 ^ 31 then int (x mod 2 ^ 32) else int (x mod 2 ^ 32) - 2 ^ 32)"
    by (rule sint_u32 [OF u]) simp
  then consider "0 < x mod 2 ^ 32" "stop \<le> int (x mod 2 ^ 32)" "stop > 0" | "x mod 2 ^ 32 = 0" "stop \<le> 0" | "2 ^ 31 \<le> x mod 2 ^ 32" "stop \<le> 0"
    using assms(3) by (force split: if_splits)
  then show ?thesis
  proof cases
    case 1
    have "x mod 2 ^ 32 \<le> x" by simp
    with 1 assms(4) x show ?thesis by simp
  next
    case 2
    then have "2 ^ 32 \<le> x" using x(2) by (metis dvd_imp_le mod_eq_0_iff_dvd not_one_le_zero gr0I)
    with 2 assms(4) x show ?thesis by simp
  next
    case 3
    have "x mod 2 ^ 32 \<le> x" by simp
    with 3 assms(4) x show ?thesis by simp
  qed
qed

lemma slot_alloc_cases:
  assumes c: "allocate_event_notification_slot env a restore p = (r, q)"
  obtains "r = Inl ENOMEM" "q = p"
  | p1 e where "ensure_page env p = Some p1" "q = p1" "r = Inl e" "restore = None \<and> ids_inv p \<longrightarrow> e \<noteq> OOPS"
  | p1 start stop n idr pg where "ensure_page env p = Some p1" "idr_alloc (ee_idr env) (Some a) start stop (event_idr p1) = (Inr n, idr)"
      "signal_page p1 = Some pg" "n < length (page_slots pg)" "r = Inr n" "q = set_slot n UNSIGNALED_EVENT_SLOT (p1\<lparr>event_idr := idr\<rparr>)"
proof (cases "ensure_page env p")
  case None
  with c that(1) show thesis by (simp add: allocate_event_notification_slot_def ensure_page_def)
next
  case (Some p1)
  define start stop where "start = (case restore of Some i \<Rightarrow> i | None \<Rightarrow> 0)"
    and "stop = (case restore of Some i \<Rightarrow> i + 1 | None \<Rightarrow> sint (ucast (signal_mapped_size p1 div 8) :: u32))"
  obtain pg where pg: "signal_page p1 = Some pg" using ensure_page_frame(6) [OF Some] by blast
  obtain al idr where al: "idr_alloc (ee_idr env) (Some a) start stop (event_idr p1) = (al, idr)" by (meson surj_pair)
  have c': "(case al of Inl e \<Rightarrow> (Inl e, p1) | Inr n \<Rightarrow> if n \<ge> length (page_slots pg) then (Inl OOPS, p1)
      else (Inr n, set_slot n UNSIGNALED_EVENT_SLOT (p1\<lparr>event_idr := idr\<rparr>))) = (r, q)"
    using c Some al pg
    by (cases restore; cases al) (auto simp: allocate_event_notification_slot_def ensure_page_def start_def stop_def)
  show thesis
  proof (cases al)
    case (Inl e)
    then have "e \<noteq> OOPS" using al by (auto simp: idr_alloc_def Let_def split: if_splits)
    with Inl c' that(2) [OF Some] show thesis by auto
  next
    case (Inr n)
    have "n < length (page_slots pg)" if "restore = None" "ids_inv p"
    proof -
      have inv: "ids_inv p1" using ensure_page_frame(7) [OF Some that(2)] .
      from idr_alloc_spec(5) [OF ids_invD(1) [OF inv] al [unfolded Inr]] show ?thesis
        by (rule mapped_stop_bound [OF ids_invD(9) [OF inv pg] ids_invD(8) [OF inv pg], rotated]) (simp add: stop_def that(1))
    qed
    with Inr c' that(2) [OF Some] that(3) [OF Some al [unfolded Inr] pg] show thesis by (cases "length (page_slots pg) \<le> n") auto
  qed
qed

lemma create_signal_ids:
  assumes inv: "ids_inv p" and a: "event_heap p a = None" and ty: "is_signal_type (ev_type ev)"
    and c: "create_signal_event env a ev restore p = (r, q)"
  shows "r = Inl e \<Longrightarrow> ids_inv q"
    "r = Inr ev' \<Longrightarrow> ids_inv (q\<lparr>event_heap := (event_heap q)(a \<mapsto> ev'\<lparr>event_age := g\<rparr>)\<rparr>)"
    "event_heap q = event_heap p" "waiters q = waiters p" "r = Inr ev' \<Longrightarrow> wq ev' = wq ev" "restore = None \<Longrightarrow> r \<noteq> Inl OOPS"
proof -
  have lim: "ids_inv (p\<lparr>signal_event_limit_reached := True\<rparr>)" using inv by (simp add: ids_inv_def ids_view_def page_len_def ident_def [abs_def])
  obtain r1 p1 where al: "allocate_event_notification_slot env a restore p = (r1, p1)" by (meson surj_pair)
  let ?G = "(\<forall>e. r = Inl e \<longrightarrow> ids_inv q) \<and> (\<forall>ev'. r = Inr ev' \<longrightarrow> ids_inv (q\<lparr>event_heap := (event_heap q)(a \<mapsto> ev'\<lparr>event_age := g\<rparr>)\<rparr>)) \<and>
    event_heap q = event_heap p \<and> waiters q = waiters p \<and> (\<forall>ev'. r = Inr ev' \<longrightarrow> wq ev' = wq ev) \<and> (restore = None \<longrightarrow> r \<noteq> Inl OOPS)"
  have ?G
  proof (cases "signal_mapped_size p \<noteq> 0 \<and> signal_event_count p = unat (signal_mapped_size p div 8)")
    case True
    with c lim show ?thesis by (auto simp: create_signal_event_def)
  next
    case False
    from al show ?thesis
    proof (cases rule: slot_alloc_cases)
      case 1
      with c al inv False show ?thesis by (auto simp: create_signal_event_def)
    next
      case (2 p2 e)
      with c al False have "r = Inl e" "q = p2" by (auto simp: create_signal_event_def)
      with 2 inv ensure_page_frame [OF 2(1)] show ?thesis by auto
    next
      case (3 p2 start stop n idr pg)
      note fr = ensure_page_frame [OF 3(1)]
      define ev1 where "ev1 = ev\<lparr>event_id := n, user_signal_address := (case signal_page p1 of Some pg \<Rightarrow> user_address pg | None \<Rightarrow> 0) + 8 * of_nat n\<rparr>"
      have q: "r = Inr ev1" "q = p1\<lparr>signal_event_count := signal_event_count p1 + 1\<rparr>"
        using c al False 3(5) by (auto simp: create_signal_event_def ev1_def)
      have "ids_inv (q\<lparr>event_heap := (event_heap q)(a \<mapsto> ev1\<lparr>event_age := g\<rparr>)\<rparr>)"
        by (rule new_event_ids [OF fr(7) [OF inv] _ 3(2), of _ "ev1\<lparr>event_age := g\<rparr>"])
          (use fr a 3 ty in \<open>auto simp: q ev1_def set_slot_def page_len_def\<close>)
      with q 3 fr show ?thesis by (simp add: ev1_def set_slot_def)
    qed
  qed
  then show "r = Inl e \<Longrightarrow> ids_inv q"
    "r = Inr ev' \<Longrightarrow> ids_inv (q\<lparr>event_heap := (event_heap q)(a \<mapsto> ev'\<lparr>event_age := g\<rparr>)\<rparr>)"
    "event_heap q = event_heap p" "waiters q = waiters p" "r = Inr ev' \<Longrightarrow> wq ev' = wq ev" "restore = None \<Longrightarrow> r \<noteq> Inl OOPS"
    by blast+
qed

lemma create_other_ids:
  assumes inv: "ids_inv p" and a: "event_heap p a = None" and ty: "\<not> is_signal_type (ev_type ev)"
    and c: "create_other_event env a ev restore p = (r, q)"
  shows "r = Inl e \<Longrightarrow> ids_inv q"
    "r = Inr ev' \<Longrightarrow> ids_inv (q\<lparr>event_heap := (event_heap q)(a \<mapsto> ev'\<lparr>event_age := g\<rparr>)\<rparr>)"
    "event_heap q = event_heap p" "waiters q = waiters p" "r = Inr ev' \<Longrightarrow> wq ev' = wq ev" "r \<noteq> Inl OOPS"
proof -
  define start stop where "start = (case restore of Some i \<Rightarrow> i | None \<Rightarrow> int KFD_FIRST_NONSIGNAL_EVENT_ID)"
    and "stop = (case restore of Some i \<Rightarrow> i + 1 | None \<Rightarrow> - (2 ^ 31))"
  obtain al idr where al: "idr_alloc (ee_idr env) (Some a) start stop (event_idr p) = (al, idr)" by (meson surj_pair)
  have c': "(case al of Inl e \<Rightarrow> (Inl e, p) | Inr n \<Rightarrow> (Inr (ev\<lparr>event_id := n\<rparr>), p\<lparr>event_idr := idr\<rparr>)) = (r, q)"
    using c al by (cases restore; cases al) (simp_all add: create_other_event_def start_def stop_def)
  let ?G = "(\<forall>e. r = Inl e \<longrightarrow> ids_inv q) \<and> (\<forall>ev'. r = Inr ev' \<longrightarrow> ids_inv (q\<lparr>event_heap := (event_heap q)(a \<mapsto> ev'\<lparr>event_age := g\<rparr>)\<rparr>)) \<and>
    event_heap q = event_heap p \<and> waiters q = waiters p \<and> (\<forall>ev'. r = Inr ev' \<longrightarrow> wq ev' = wq ev) \<and> r \<noteq> Inl OOPS"
  have ?G
  proof (cases al)
    case (Inl e)
    then have "e \<noteq> OOPS" using al by (auto simp: idr_alloc_def Let_def split: if_splits)
    with Inl c' inv show ?thesis by auto
  next
    case (Inr n)
    then have q: "r = Inr (ev\<lparr>event_id := n\<rparr>)" "q = p\<lparr>event_idr := idr\<rparr>" using c' by auto
    have "ids_inv (q\<lparr>event_heap := (event_heap q)(a \<mapsto> ev\<lparr>event_id := n, event_age := g\<rparr>)\<rparr>)"
      by (rule new_event_ids [OF inv a al [unfolded Inr], of _ "ev\<lparr>event_id := n, event_age := g\<rparr>"])
        (use ty in \<open>auto simp: q page_len_def\<close>)
    with q show ?thesis by simp
  qed
  then show "r = Inl e \<Longrightarrow> ids_inv q"
    "r = Inr ev' \<Longrightarrow> ids_inv (q\<lparr>event_heap := (event_heap q)(a \<mapsto> ev'\<lparr>event_age := g\<rparr>)\<rparr>)"
    "event_heap q = event_heap p" "waiters q = waiters p" "r = Inr ev' \<Longrightarrow> wq ev' = wq ev" "r \<noteq> Inl OOPS"
    by blast+
qed

text \<open>Both invariants, and the waiters of the threads in place.\<close>

definition events_inv :: "event_process \<Rightarrow> bool" where
  "events_inv p \<longleftrightarrow> wait_inv p \<and> ids_inv p"

definition keeps_events :: "event_process \<Rightarrow> event_process \<Rightarrow> bool" where
  "keeps_events p q \<longleftrightarrow> events_inv q \<and> (\<forall>t. length (waiters q t) = length (waiters p t))"

lemma calm_keeps: "events_inv p \<Longrightarrow> calm p q \<Longrightarrow> keeps_events p q"
  by (simp add: events_inv_def keeps_events_def calm_def ids_inv_def)

lemma added_keeps:
  assumes "events_inv p" "event_heap p a = None" "ids_inv (p1\<lparr>event_heap := (event_heap p1)(a \<mapsto> ev)\<rparr>)" "wq ev = []"
    "event_heap p1 = event_heap p" "waiters p1 = waiters p"
  shows "keeps_events p (p1\<lparr>event_heap := (event_heap p1)(a \<mapsto> ev)\<rparr>)"
proof -
  have "wait_inv (p1\<lparr>event_heap := (event_heap p1)(a \<mapsto> ev)\<rparr>)"
    by (rule new_event_inv [of _ p a ev]) (use assms in \<open>auto simp: events_inv_def\<close>)
  with assms show ?thesis by (simp add: keeps_events_def events_inv_def)
qed

lemma same_keeps: "events_inv p \<Longrightarrow> ids_inv q \<Longrightarrow> event_heap q = event_heap p \<Longrightarrow> waiters q = waiters p \<Longrightarrow> keeps_events p q"
  using quiet_inv [OF _ quiet_same, of "{}" p q] by (simp add: keeps_events_def events_inv_def)

lemma create_keeps:
  assumes inv: "events_inv p" and a: "\<And>a. addr = Some a \<Longrightarrow> event_heap p a = None" and c: "kfd_event_create env addr ty auto p = (r, q)"
  shows "keeps_events p q" "r \<noteq> Inl OOPS"
proof -
  have ids: "ids_inv p" using inv by (simp add: events_inv_def)
  have "keeps_events p q \<and> r \<noteq> Inl OOPS"
  proof (cases addr)
    case None
    with c inv show ?thesis by (auto simp: kfd_event_create_def keeps_events_def)
  next
    case (Some b)
    define ev where "ev = zero_event\<lparr>ev_type := ty, auto_reset := auto, signaled := False\<rparr>"
    obtain r1 p1 where c1: "(if is_signal_type ty then create_signal_event env b ev None p else create_other_event env b ev None p) = (r1, p1)"
      by (meson surj_pair)
    have q: "(case r1 of Inl e \<Rightarrow> (Inl e, p1) | Inr ev1 \<Rightarrow> (Inr (event_id ev1), p1\<lparr>event_heap := (event_heap p1)(b \<mapsto> ev1\<lparr>event_age := 1\<rparr>)\<rparr>)) = (r, q)"
      using c unfolding kfd_event_create_def Some option.simps Let_def ev_def [symmetric] c1 prod.case .
    have n: "event_heap p b = None" "ev_type ev = ty" "wq ev = []" using a Some by (simp_all add: ev_def zero_event_def)
    have f: "r1 = Inl e \<Longrightarrow> ids_inv p1"
      "r1 = Inr ev' \<Longrightarrow> ids_inv (p1\<lparr>event_heap := (event_heap p1)(b \<mapsto> ev'\<lparr>event_age := 1\<rparr>)\<rparr>)"
      "event_heap p1 = event_heap p" "waiters p1 = waiters p" "r1 = Inr ev' \<Longrightarrow> wq ev' = []" "r1 \<noteq> Inl OOPS" for e ev'
      using c1 n create_signal_ids [OF ids n(1), of ev env None r1 p1] create_other_ids [OF ids n(1), of ev env None r1 p1]
      by (auto split: if_splits)
    show ?thesis
    proof (cases r1)
      case (Inl e)
      with q f same_keeps [OF inv] show ?thesis by auto
    next
      case (Inr ev')
      with q have "q = p1\<lparr>event_heap := (event_heap p1)(b \<mapsto> ev'\<lparr>event_age := 1\<rparr>)\<rparr>" "r \<noteq> Inl OOPS" by auto
      with added_keeps [OF inv n(1) f(2) [OF Inr]] f(3,4) f(5) [OF Inr] show ?thesis by simp
    qed
  qed
  then show "keeps_events p q" "r \<noteq> Inl OOPS" by auto
qed

lemma destroy_keeps: "events_inv p \<Longrightarrow> keeps_events p (destroy_event a p)"
  by (simp add: events_inv_def keeps_events_def destroy_event_inv destroy_event_ids)

lemma kmap_keeps:
  assumes "events_inv p" "kfd_kmap_event_page kz found off p = (r, q)"
  shows "keeps_events p q" "event_heap q = event_heap p"
proof -
  have "keeps_events p q \<and> event_heap q = event_heap p"
  proof (cases "r = OK")
    case False
    with assms have "q = p" by (auto simp: kfd_kmap_event_page_def kfd_event_page_set_def split: if_splits sum.splits)
    with assms(1) show ?thesis by (simp add: keeps_events_def)
  next
    case True
    then obtain sz where sz: "signal_page p = None" "event_limit p * 8 \<le> unat sz"
      "q = p\<lparr>signal_page := Some \<lparr>page_slots = replicate (unat sz div 8) UNSIGNALED_EVENT_SLOT, user_address = 0, need_to_free_pages = False\<rparr>,
        signal_mapped_size := sz, signal_handle := off\<rparr>"
      using assms(2) by (auto simp: kfd_kmap_event_page_def kfd_event_page_set_def not_less split: if_splits sum.splits)
    have ids: "ids_inv p" using assms(1) by (simp add: events_inv_def)
    have "ids_inv q" unfolding sz(3) by (rule ids_new_page(2) [OF ids sz(1)]) (use sz(2) ids_limit [OF ids] in auto)
    with same_keeps [OF assms(1)] sz(3) show ?thesis by simp
  qed
  then show "keeps_events p q" "event_heap q = event_heap p" by auto
qed

lemma restore_keeps:
  assumes inv: "events_inv p" and a: "\<And>a. addr = Some a \<Longrightarrow> event_heap p a = None"
    and c: "kfd_criu_restore_event env km found addr priv p = (r, q)"
  shows "keeps_events p q"
proof (cases "km \<and> addr \<noteq> None \<and> (\<exists>c. priv = Inr c)")
  case False
  with c inv show ?thesis by (auto simp: kfd_criu_restore_event_def keeps_events_def split: if_splits option.splits sum.splits)
next
  case True
  then obtain b c' where b: "km" "addr = Some b" "priv = Inr c'" by blast
  obtain r1 p1 where k: "(if ce_user_handle c' \<noteq> 0 then kfd_kmap_event_page (ee_kzalloc env) found (ce_user_handle c') p else (OK, p)) = (r1, p1)"
    by (meson surj_pair)
  have k1: "keeps_events p p1" "event_heap p1 = event_heap p" using k kmap_keeps [OF inv] inv by (auto simp: keeps_events_def split: if_splits)
  have inv1: "events_inv p1" "ids_inv p1" using k1 by (simp_all add: keeps_events_def events_inv_def)
  have tr: "keeps_events p q" if "keeps_events p1 q" using that k1 by (simp add: keeps_events_def)
  define ev0 where "ev0 = zero_event\<lparr>ev_type := ce_type c', auto_reset := ce_auto_reset c', signaled := ce_signaled c'\<rparr>"
  define ev where "ev = (if ce_type c' = KFD_EVENT_TYPE_MEMORY \<or> ce_type c' = KFD_EVENT_TYPE_HW_EXCEPTION then ev0\<lparr>event_data := ce_data c'\<rparr> else ev0)"
  obtain r2 p2 where c2: "(if is_signal_type (ce_type c') then create_signal_event env b ev (Some (ce_event_id c')) p1
      else create_other_event env b ev (Some (ce_event_id c')) p1) = (r2, p2)" by (meson surj_pair)
  have n: "event_heap p1 b = None" "ev_type ev = ce_type c'" "wq ev = []" using a b k1 by (simp_all add: ev_def ev0_def zero_event_def)
  have f: "r2 = Inl e \<Longrightarrow> ids_inv p2"
    "r2 = Inr ev' \<Longrightarrow> ids_inv (p2\<lparr>event_heap := (event_heap p2)(b \<mapsto> ev'\<lparr>event_age := g\<rparr>)\<rparr>)"
    "event_heap p2 = event_heap p1" "waiters p2 = waiters p1" "r2 = Inr ev' \<Longrightarrow> wq ev' = []" for e ev' g
    using c2 n create_signal_ids [OF inv1(2) n(1), of ev env _ r2 p2] create_other_ids [OF inv1(2) n(1), of ev env _ r2 p2]
    by (auto split: if_splits)
  consider "q = p1" | e where "r2 = Inl e" "q = p2" | ev' where "r2 = Inr ev'" "q = p2\<lparr>event_heap := (event_heap p2)(b \<mapsto> ev')\<rparr>"
    using c b k c2 by (cases r2) (auto simp: kfd_criu_restore_event_def Let_def ev_def ev0_def split: if_splits retval.splits)
  then show ?thesis
  proof cases
    case 1
    with k1 show ?thesis by simp
  next
    case 2
    with f same_keeps [OF inv1(1)] show ?thesis by (intro tr) auto
  next
    case 3
    have "ids_inv (p2\<lparr>event_heap := (event_heap p2)(b \<mapsto> ev')\<rparr>)" using f(2) [OF 3(1), of "event_age ev'"] by simp
    from added_keeps [OF inv1(1) n(1) this f(5) [OF 3(1)] f(3,4)] 3(2) show ?thesis by (intro tr) simp
  qed
qed

text \<open>Mapping the page: at most as many pages as the limit needs.\<close>

lemma fls_rec: "0 < n \<Longrightarrow> fls n = Suc (fls (n div 2))" "fls 0 = 0"
  by (simp_all add: fls.simps [of n] fls.simps [of 0])

lemma fls_upper: "n < 2 ^ fls n"
proof (induction n rule: less_induct)
  case (less n)
  show ?case
  proof (cases "n = 0")
    case False
    then have "n div 2 < 2 ^ fls (n div 2)" using less by simp
    with False show ?thesis by (simp add: fls_rec(1) [of n])
  qed (simp add: fls_rec)
qed

lemma fls_mersenne: "fls (2 ^ k - 1) = k"
proof (induction k)
  case (Suc k)
  have "(2 ^ Suc k - 1) div 2 = (2 ^ k - 1 :: nat)" by simp
  moreover have "(0 :: nat) < 2 ^ Suc k - 1" using one_less_power [of "2 :: nat" "Suc k"] by simp
  ultimately show ?case using Suc by (simp only: fls_rec(1))
qed (simp add: fls_rec)

lemma get_order_pages: "get_order (PAGE_SIZE * 2 ^ k) = k"
proof -
  have "(PAGE_SIZE * 2 ^ k - 1) div PAGE_SIZE = 2 ^ k - 1"
  proof -
    obtain m where m: "2 ^ k = Suc m" by (metis Suc_pred' zero_less_numeral zero_less_power)
    show ?thesis by (simp add: m)
  qed
  then show ?thesis unfolding get_order_def by (simp only: fls_mersenne)
qed

lemma get_order_upper: "sz \<le> PAGE_SIZE * 2 ^ get_order sz"
proof -
  have "(sz - 1) div PAGE_SIZE < 2 ^ get_order sz" unfolding get_order_def by (rule fls_upper)
  then have "Suc ((sz - 1) div PAGE_SIZE) \<le> 2 ^ get_order sz" by simp
  then have "PAGE_SIZE * Suc ((sz - 1) div PAGE_SIZE) \<le> PAGE_SIZE * 2 ^ get_order sz" by (intro mult_le_mono2)
  moreover have "sz \<le> PAGE_SIZE * Suc ((sz - 1) div PAGE_SIZE)" by simp
  ultimately show ?thesis by linarith
qed

lemma mmap_keeps:
  assumes inv: "events_inv p" and c: "kfd_event_mmap remap vm_start vm_end p = (r, q)" and sz: "PAGE_SIZE \<le> unat (vm_end - vm_start)"
  shows "keeps_events p q"
proof (cases "q = p")
  case True
  with inv show ?thesis by (simp add: keeps_events_def)
next
  case False
  define ms where "ms = (if remap = OK then vm_end - vm_start else signal_mapped_size p)"
  obtain pg where pg: "signal_page p = Some pg" "get_order (unat (vm_end - vm_start)) \<le> get_order (event_limit p * 8)"
    "q = p\<lparr>signal_page := Some (pg\<lparr>user_address := vm_start\<rparr>), signal_mapped_size := ms\<rparr>"
    using c False by (auto simp: kfd_event_mmap_def Let_def not_less ms_def split: if_splits option.splits)
  have ids: "ids_inv p" using inv by (simp add: events_inv_def)
  obtain k where k: "event_limit p = 512 * 2 ^ k" using ids_invD(6) [OF ids] by blast
  have o: "get_order (unat (vm_end - vm_start)) \<le> k" using pg(2) get_order_pages [of k] by (simp add: k mult.commute mult.left_commute)
  have "unat (vm_end - vm_start) \<le> PAGE_SIZE * 2 ^ k"
    by (rule order_trans [OF get_order_upper]) (use o in simp)
  then have "unat ms div 8 \<le> length (page_slots pg) \<and> 8 \<le> unat ms"
    using sz ids_invD(7-9) [OF ids pg(1)] by (auto simp: ms_def k)
  then have "ids_inv q"
    using ids pg(1) unfolding ids_inv_def ids_view_def pg(3) ids_ok.simps by (simp add: page_len_def ident_def [abs_def])
  then show ?thesis by (rule same_keeps [OF inv]) (simp_all add: pg(3))
qed

text \<open>Waiting changes neither ids nor types.\<close>

lemma ids_view_upd:
  assumes "event_heap p a = Some ev" "event_id ev' = event_id ev" "ev_type ev' = ev_type ev"
    "event_heap q = (event_heap p)(a \<mapsto> ev')" "event_idr q = event_idr p" "event_limit q = event_limit p" "signal_page q = signal_page p"
    "signal_mapped_size q = signal_mapped_size p" "signal_event_count q = signal_event_count p"
  shows "ids_view q = ids_view p"
  using assms by (intro ids_view_heap) (auto simp: page_len_def ident_def fun_eq_iff)

lemma reset_keeps:
  assumes "events_inv p" "kfd_reset_event i p = (r, q)"
  shows "keeps_events p q"
proof (cases "q = p")
  case False
  then obtain a ev where a: "event_heap p a = Some ev" "q = p\<lparr>event_heap := (event_heap p)(a \<mapsto> ev\<lparr>signaled := False\<rparr>)\<rparr>"
    using assms(2) by (auto simp: kfd_reset_event_def with_event_def split: option.splits if_splits)
  have "ids_view q = ids_view p" by (rule ids_view_upd [OF a(1)]) (auto simp: a(2))
  moreover have "wait_inv p \<longrightarrow> wait_inv q"
    using quiet_inv [OF _ quiet_upd [OF a(1), of "ev\<lparr>signaled := False\<rparr>" q]] by (auto simp: a(2))
  ultimately show ?thesis using assms(1) by (intro calm_keeps) (simp_all add: calm_def a(2))
qed (simp add: assms keeps_events_def)

lemma init_waiter_ids:
  assumes c: "init_event_waiter t i ue p = (r, q)"
  shows "ids_view q = ids_view p"
proof (cases "\<exists>a ev. lookup_event_by_id p (fst ue) = Some a \<and> event_heap p a = Some ev")
  case False
  with c have "q = p" by (auto simp: init_event_waiter_def with_event_def split: option.splits)
  then show ?thesis by simp
next
  case True
  then obtain a ev where a: "lookup_event_by_id p (fst ue) = Some a" "event_heap p a = Some ev" by blast
  define act where "act = (signaled ev \<or> (ev_type ev = KFD_EVENT_TYPE_SIGNAL \<and> snd ue \<noteq> 0) \<and> event_age ev \<noteq> snd ue)"
  define ev1 where "ev1 = ev\<lparr>signaled := signaled ev \<and> \<not> auto_reset ev, wq := if act then wq ev else (t, i) # wq ev\<rparr>"
  define w where "w = \<lparr>w_event = Some a, activated = act,
    event_age_enabled = (ev_type ev = KFD_EVENT_TYPE_SIGNAL \<and> snd ue \<noteq> 0)\<rparr>"
  have q: "q = upd_waiter (\<lambda>_. w) (t, i) (p\<lparr>event_heap := (event_heap p)(a \<mapsto> ev1)\<rparr>)"
    using c a by (simp add: init_event_waiter_def with_event_def Let_def ev1_def w_def act_def)
  show ?thesis by (rule ids_view_upd [OF a(2), of ev1]) (simp_all add: q upd_waiter_def ev1_def)
qed

lemma init_waiters_ids: "init_event_waiters t i us p = (r, q) \<Longrightarrow> ids_view q = ids_view p"
proof (induction t i us p rule: init_event_waiters.induct)
  case (3 t i ue us p)
  obtain r1 p1 where c: "init_event_waiter t i ue p = (r1, p1)" by fastforce
  note v = init_waiter_ids [OF c]
  show ?case
  proof (cases r1)
    case OK
    with "3.prems" c "3.IH" [OF c [symmetric, unfolded OK] refl] v show ?thesis by simp
  next
    case (Err e)
    with "3.prems" c v show ?thesis by simp
  qed
qed simp_all

lemma remove_queue_ids: "ids_view (remove_wait_queue a r p) = ids_view p"
  by (rule ids_view_heap) (auto simp: remove_wait_queue_def page_len_def ident_def fun_eq_iff option.map_comp o_def)

lemma free_loop_ids: "free_loop woken t undo is p = (r, q) \<Longrightarrow> ids_view q = ids_view p"
proof (induction "is" arbitrary: p)
  case (Cons i "is")
  show ?case
  proof (cases "\<exists>a ev. w_event (waiters p t ! i) = Some a \<and> event_heap p a = Some ev")
    case False
    with Cons show ?thesis by (auto simp: Let_def split: option.splits)
  next
    case True
    then obtain a ev where a: "w_event (waiters p t ! i) = Some a" "event_heap p a = Some ev" by blast
    define p1 where "p1 = remove_wait_queue a (t, i) p"
    define p2 where "p2 = (if undo \<and> activated (waiters p t ! i) \<and> auto_reset ev then set_event woken a p1 else p1)"
    have "free_loop woken t undo is p2 = (r, q)" using Cons.prems a by (auto simp: p2_def p1_def Let_def split: if_splits)
    moreover have "ids_view p2 = ids_view p"
      using set_event_calm [of p1 woken a] remove_queue_ids by (simp add: p2_def p1_def calm_def)
    ultimately show ?thesis using Cons.IH by simp
  qed
qed simp

lemma free_waiters_ids: "free_waiters woken t undo p = (r, q) \<Longrightarrow> ids_view q = ids_view p"
proof -
  assume c: "free_waiters woken t undo p = (r, q)"
  obtain r1 p1 where f: "free_loop woken t undo [0..<length (waiters p t)] p = (r1, p1)" by (meson surj_pair)
  with c have "q = p1 \<or> q = p1\<lparr>waiters := (waiters p1)(t := [])\<rparr>" by (auto simp: free_waiters_def)
  with free_loop_ids [OF f] show ?thesis by (auto simp: ids_view_def page_len_def ident_def [abs_def])
qed

lemma wait_finish_ids: "wait_finish woken copy_ok t ret wr p = (out, q) \<Longrightarrow> ids_view q = ids_view p"
  using free_waiters_ids by (auto simp: wait_finish_def split: prod.splits if_splits retval.splits)

lemma wait_begin_ids:
  assumes c: "wait_begin kz woken copy_ok t all user p = (out, q)"
  shows "ids_view q = ids_view p"
proof (cases kz)
  case True
  define p0 where "p0 = p\<lparr>waiters := (waiters p)(t := replicate (length user)
    \<lparr>w_event = None, activated = False, event_age_enabled = False\<rparr>)\<rparr>"
  obtain r1 p1 where ini: "init_event_waiters t 0 user p0 = (r1, p1)" by (meson surj_pair)
  have v: "ids_view p1 = ids_view p" using init_waiters_ids [OF ini] by (simp add: p0_def ids_view_def page_len_def ident_def [abs_def])
  have "q = p1 \<or> (\<exists>ret wr out. wait_finish woken copy_ok t ret wr p1 = (out, q))"
    using c ini True
    by (auto simp: wait_begin_def p0_def [symmetric] Let_def split: retval.splits wait_result.splits prod.splits)
  with v wait_finish_ids show ?thesis by metis
qed (use c in \<open>simp add: wait_begin_def\<close>)

section \<open>The transition system\<close>

text \<open>
  The handlers outside of the waiting threads. \<^verbatim>\<open>kzalloc\<close> gives an address that is not in use, and a mapping has at least
  one page. Nothing happens after an \<open>OOPS\<close>. Since \<^verbatim>\<open>kfd_signal_event_interrupt\<close> does not take the mutex, other steps may come
  between the events of its search: signalling a single one is a step, too.
\<close>

inductive event_op :: "event_process \<Rightarrow> event_process \<Rightarrow> bool" where
  op_create: "(\<And>a. addr = Some a \<Longrightarrow> event_heap p a = None) \<Longrightarrow> kfd_event_create env addr ty auto p = (r, q) \<Longrightarrow> event_op p q"
| op_destroy: "kfd_event_destroy i p = (r, q) \<Longrightarrow> event_op p q"
| op_set: "kfd_set_event woken i p = (r, q) \<Longrightarrow> event_op p q"
| op_reset: "kfd_reset_event i p = (r, q) \<Longrightarrow> event_op p q"
| op_page: "kfd_kmap_event_page kz found off p = (r, q) \<Longrightarrow> r \<noteq> Err OOPS \<Longrightarrow> event_op p q"
| op_restore: "(\<And>a. addr = Some a \<Longrightarrow> event_heap p a = None) \<Longrightarrow> kfd_criu_restore_event env km found addr priv p = (r, q) \<Longrightarrow>
    r \<noteq> Err OOPS \<Longrightarrow> event_op p q"
| op_mmap: "kfd_event_mmap remap vm_start vm_end p = (r, q) \<Longrightarrow> PAGE_SIZE \<le> unat (vm_end - vm_start) \<Longrightarrow> event_op p q"
| op_interrupt: "event_op p (kfd_signal_event_interrupt woken i bits p)"
| op_signal: "event_op p (set_event_from_interrupt woken (lookup_event_by_id p i) p)"
| op_hw_exception: "kfd_signal_hw_exception_event woken send p = (sigs, q) \<Longrightarrow> event_op p q"
| op_vm_fault: "event_op p (kfd_signal_vm_fault_event woken gpu info d p)"
| op_gpu_reset: "event_op p (kfd_signal_reset_event c woken ecc gpu p)"
| op_poison: "kfd_signal_poison_consumed_event c woken gpu p = (sigs, q) \<Longrightarrow> event_op p q"
| op_gpu_write: "event_op p (set_slot i v p)"

datatype wait_phase = Idle | Polling bool | Leaving retval wait_result

type_synonym event_system = "event_process \<times> (nat \<Rightarrow> wait_phase)"

inductive events_step :: "event_system \<Rightarrow> event_system \<Rightarrow> bool" where
  step_op: "event_op p q \<Longrightarrow> events_step (p, ph) (q, ph)"
| step_wait_done: "ph t = Idle \<Longrightarrow> wait_begin kz woken copy_ok t all user p = (Some (r, wr, cs), q) \<Longrightarrow> r \<noteq> Err OOPS \<Longrightarrow>
    events_step (p, ph) (q, ph)"
| step_wait: "ph t = Idle \<Longrightarrow> wait_begin kz woken copy_ok t all user p = (None, q) \<Longrightarrow> events_step (p, ph) (q, ph(t := Polling all))"
| step_poll: "ph t = Polling all \<Longrightarrow> wait_poll fatal pending expired t all p = Some (r, wr) \<Longrightarrow>
    events_step (p, ph) (p, ph(t := Leaving r wr))"
| step_leave: "ph t = Leaving r wr \<Longrightarrow> wait_finish woken copy_ok t r wr p = ((r', wr', cs), q) \<Longrightarrow> r' \<noteq> Err OOPS \<Longrightarrow>
    events_step (p, ph) (q, ph(t := Idle))"

inductive events_reachable :: "event_system \<Rightarrow> bool" where
  ev_init: "event_heap p = Map.empty \<Longrightarrow> waiters p = (\<lambda>_. []) \<Longrightarrow> event_limit p = 512 * 2 ^ k \<Longrightarrow>
    kfd_event_init_process True p = (OK, q) \<Longrightarrow> events_reachable (q, \<lambda>_. Idle)"
| ev_step: "events_reachable s \<Longrightarrow> events_step s s' \<Longrightarrow> events_reachable s'"

lemma event_op_keeps:
  assumes "event_op p q" "events_inv p"
  shows "keeps_events p q"
  using assms
proof (cases rule: event_op.cases)
  case (op_create addr env ty auto r)
  with assms(2) create_keeps(1) show ?thesis by blast
next
  case (op_destroy i r)
  then have "q = p \<or> (\<exists>a. q = destroy_event a p)" by (auto simp: kfd_event_destroy_def split: option.splits)
  with assms(2) destroy_keeps show ?thesis by (auto simp: keeps_events_def)
next
  case (op_set woken i r)
  then have "q = p \<or> (\<exists>a. q = set_event woken a p)" by (auto simp: kfd_set_event_def with_event_def split: option.splits if_splits)
  with assms(2) calm_keeps set_event_calm calm_refl show ?thesis by metis
next
  case (op_reset i r)
  with assms(2) reset_keeps show ?thesis by blast
next
  case (op_page kz found off r)
  with assms(2) kmap_keeps(1) show ?thesis by blast
next
  case (op_restore addr env km found priv r)
  with assms(2) restore_keeps show ?thesis by blast
next
  case (op_mmap remap vm_start vm_end r)
  with assms(2) mmap_keeps show ?thesis by blast
next
  case (op_hw_exception woken send sigs)
  with exceptions_calm(1) [of p woken send] calm_keeps [OF assms(2)] show ?thesis by simp
next
  case (op_poison c woken gpu sigs)
  with exceptions_calm(4) [of p c woken gpu] calm_keeps [OF assms(2)] show ?thesis by simp
next
  case (op_interrupt woken i bits)
  then show ?thesis using calm_keeps [OF assms(2) interrupt_calm] by simp
next
  case (op_signal woken i)
  then show ?thesis using calm_keeps [OF assms(2) from_interrupt_calm] by simp
next
  case (op_vm_fault woken gpu info d)
  then show ?thesis using calm_keeps [OF assms(2) exceptions_calm(2)] by simp
next
  case (op_gpu_reset c woken ecc gpu)
  then show ?thesis using calm_keeps [OF assms(2) exceptions_calm(3)] by simp
next
  case (op_gpu_write i v)
  then show ?thesis using calm_keeps [OF assms(2) set_slot_calm] by simp
qed

definition system_inv :: "event_system \<Rightarrow> bool" where
  "system_inv s \<longleftrightarrow> events_inv (fst s) \<and> (\<forall>t. snd s t = Idle \<longrightarrow> waiters (fst s) t = [])"

lemma init_system_inv:
  assumes "event_heap p = Map.empty" "waiters p = (\<lambda>_. [])" "event_limit p = 512 * 2 ^ k" "kfd_event_init_process True p = (OK, q)"
  shows "system_inv (q, \<lambda>_. Idle)"
proof -
  have q: "q = p\<lparr>event_idr := [(0, None)], signal_page := None, signal_event_count := 1\<rparr>"
    using assms(4) by (simp add: kfd_event_init_process_def idr_alloc_def)
  have "ident q = Map.empty" using assms(1) by (auto simp: q ident_def)
  then have "ids_inv q" using assms(3) by (simp add: ids_inv_def ids_view_def idr_sorted_def signal_addrs_def page_len_def) (simp add: q)
  moreover have "wait_inv q" using assms(1,2) by (intro wait_invI) (auto simp: q waits_for_def)
  ultimately show ?thesis using assms(2) by (simp add: system_inv_def events_inv_def) (simp add: q)
qed

lemma step_system_inv:
  assumes "events_step s s'" "system_inv s"
  shows "system_inv s'"
  using assms
proof (cases rule: events_step.cases)
  case (step_op p q ph)
  with event_op_keeps [OF step_op(3)] assms(2) show ?thesis
    by (auto simp: system_inv_def keeps_events_def) (metis length_0_conv)
next
  case (step_wait_done ph t kz woken copy_ok all user p r wr cs q)
  then have inv: "wait_inv p" "ids_inv p" "waiters p t = []" using assms(2) by (auto simp: system_inv_def events_inv_def)
  note w = wait_begin_inv [OF inv(1,3) step_wait_done(4)] wait_begin_ids [OF step_wait_done(4)]
  have "waiters q s = []" if "ph s = Idle" for s
    using w(2) w(3) [of s] step_wait_done that assms(2) by (cases "s = t") (auto simp: system_inv_def)
  with w(1,4) step_wait_done inv(2) show ?thesis by (auto simp: system_inv_def events_inv_def ids_inv_def)
next
  case (step_wait ph t kz woken copy_ok all user p q)
  then have inv: "wait_inv p" "ids_inv p" "waiters p t = []" using assms(2) by (auto simp: system_inv_def events_inv_def)
  note w = wait_begin_inv [OF inv(1,3) step_wait(4)] wait_begin_ids [OF step_wait(4)]
  have "waiters q s = []" if "ph s = Idle" "s \<noteq> t" for s
    using w(3) [of s] step_wait that assms(2) by (auto simp: system_inv_def)
  with w(1,4) step_wait inv(2) show ?thesis by (auto simp: system_inv_def events_inv_def ids_inv_def)
next
  case (step_poll ph t all fatal pending expired p r wr)
  with assms(2) show ?thesis by (auto simp: system_inv_def)
next
  case (step_leave ph t r wr woken copy_ok p r' wr' cs q)
  then have inv: "wait_inv p" "ids_inv p" using assms(2) by (auto simp: system_inv_def events_inv_def)
  note w = wait_finish_inv [OF inv(1) step_leave(4,5)] wait_finish_ids [OF step_leave(4)]
  have "waiters q s = []" if "ph s = Idle" for s
    using w(2) w(3) [of s] step_leave that assms(2) by (cases "s = t") (auto simp: system_inv_def)
  with w(1,2,4) step_leave inv(2) show ?thesis by (auto simp: system_inv_def events_inv_def ids_inv_def)
qed

lemma reachable_system_inv: "events_reachable s \<Longrightarrow> system_inv s"
  by (induction rule: events_reachable.induct) (use init_system_inv step_system_inv in blast)+

end
