(* ===== verification/Events_Properties.thy ===== *)
theory Events_Properties
  imports Events_Reach
begin

text \<open>
  What the event handlers guarantee: ids, events and slots belong together in every state; a signal reaches every waiter; the
  searches of the interrupt handler agree with each other and miss nothing; and where a wait follows the pointer of an event that was destroyed.
\<close>

section \<open>Lemmas\<close>

lemma reachable_invs:
  assumes "events_reachable (p, ph)"
  shows "events_inv p" "ids_inv p" "wait_inv p"
  using reachable_system_inv [OF assms] by (simp_all add: system_inv_def events_inv_def)

lemma idr_lookup_iff:
  assumes "ids_inv p"
  shows "lookup_event_by_id p i = Some a \<longleftrightarrow> (\<exists>ev. event_heap p a = Some ev \<and> event_id ev = i)"
  unfolding lookup_event_by_id_def idr_find_iff [OF ids_invD(1) [OF assms]] by (rule ids_invD(3) [OF assms])

lemma idr_lookup_0: "ids_inv p \<Longrightarrow> lookup_event_by_id p 0 = None"
  using ids_invD(2) [of p 0] idr_map_of [OF ids_invD(1), of p 0 None] by (simp add: lookup_event_by_id_def idr_find_def)

subsection \<open>The entries of the IDR\<close>

lemma idr_entries_Nil [simp]: "idr_entries n [] = []"
  by (simp add: idr_entries_def map_filter_simps)

lemma idr_entries_Cons:
  "idr_entries n ((i, b) # xs) = (case b of Some a \<Rightarrow> if n \<le> i then (i, a) # idr_entries n xs else idr_entries n xs | None \<Rightarrow> idr_entries n xs)"
  by (simp add: idr_entries_def map_filter_simps split: option.splits)

lemma idr_entries_above: "\<forall>x \<in> set xs. n < fst x \<Longrightarrow> idr_entries n xs = idr_entries (Suc n) xs"
proof (induction xs)
  case (Cons x xs)
  then show ?case by (cases x) (auto simp: idr_entries_Cons Suc_le_eq split: option.splits)
qed simp

lemma idr_entries_rec:
  assumes "idr_sorted idr"
  shows "idr_entries n idr = (case idr_find idr n of Some a \<Rightarrow> (n, a) # idr_entries (Suc n) idr | None \<Rightarrow> idr_entries (Suc n) idr)"
  using assms
proof (induction idr)
  case (Cons x xs)
  obtain i b where x: "x = (i, b)" by fastforce
  have s: "idr_sorted xs" "\<forall>y \<in> set xs. i < fst y" using Cons.prems by (auto simp: idr_sorted_def x)
  have f: "idr_find (x # xs) n = (if n = i then b else idr_find xs n)"
    by (simp add: idr_find_def x split: option.splits)
  have nf: "idr_find xs n = None" if "n \<le> i"
    using that s idr_find_iff [OF s(1), of n] by (cases "idr_find xs n") (auto dest!: bspec)
  consider "i < n" | "i = n" | "n < i" by linarith
  then show ?case
  proof cases
    case 1
    with Cons.IH [OF s(1)] f show ?thesis by (auto simp: x idr_entries_Cons split: option.splits)
  next
    case 2
    with f idr_entries_above [of xs n] s(2) nf show ?thesis by (auto simp: x idr_entries_Cons split: option.splits)
  next
    case 3
    then have "\<forall>y \<in> set xs. n < fst y" using s(2) by (meson order.strict_trans)
    with 3 f idr_entries_above [of xs n] nf show ?thesis by (auto simp: x idr_entries_Cons Suc_le_eq split: option.splits)
  qed
qed (simp add: idr_find_def)

lemma idr_entries_set: "set (idr_entries n idr) = {(i, a). n \<le> i \<and> (i, Some a) \<in> set idr}"
proof (induction idr)
  case (Cons x xs)
  then show ?case by (cases x) (auto simp: idr_entries_Cons split: option.splits)
qed simp

subsection \<open>The searches\<close>

lemma calm_frame: "calm p q \<Longrightarrow> event_idr q = event_idr p" "calm p q \<Longrightarrow> event_limit q = event_limit p"
  "calm p q \<Longrightarrow> ids_inv q = ids_inv p"
  by (simp_all add: calm_def ids_view_def ids_inv_def)

lemma search_equiv:
  assumes "idr_sorted (event_idr p)"
  shows "signal_entries woken (idr_entries n (event_idr p)) p = signal_slots woken [n..<event_limit p] p"
  using assms
proof (induction "event_limit p - n" arbitrary: n p)
  case 0
  have "fst x \<ge> event_limit p" if "x \<in> set (idr_entries n (event_idr p))" for x
    using that 0 unfolding idr_entries_set by auto
  then have "signal_entries woken (idr_entries n (event_idr p)) p = p"
  proof (cases "idr_entries n (event_idr p)")
    case (Cons x xs)
    then have "event_limit p \<le> fst x" using \<open>\<And>x. x \<in> set (idr_entries n (event_idr p)) \<Longrightarrow> event_limit p \<le> fst x\<close> by (metis list.set_intros(1))
    with Cons show ?thesis by (cases x) simp
  qed simp
  with 0 show ?case by simp
next
  case (Suc d)
  then have n: "n < event_limit p" by simp
  define q where "q = (if slot_at p n \<noteq> UNSIGNALED_EVENT_SLOT then set_event_from_interrupt woken (lookup_event_by_id p n) p else p)"
  have c: "calm p q" by (simp add: q_def from_interrupt_calm)
  have IH: "signal_entries woken (idr_entries (Suc n) (event_idr q)) q = signal_slots woken [Suc n..<event_limit q] q"
    by (rule Suc.hyps(1)) (use Suc calm_frame(1,2) [OF c] in auto)
  have r: "signal_slots woken [n..<event_limit p] p = signal_slots woken [Suc n..<event_limit p] q"
    using n by (simp add: upt_conv_Cons q_def)
  have "signal_entries woken (idr_entries n (event_idr p)) p = signal_entries woken (idr_entries (Suc n) (event_idr p)) q"
  proof (cases "idr_find (event_idr p) n")
    case None
    then have "q = p" by (simp add: q_def lookup_event_by_id_def set_event_from_interrupt_def)
    with idr_entries_rec [OF Suc.prems, of n] None show ?thesis by simp
  next
    case (Some a)
    with idr_entries_rec [OF Suc.prems, of n] n show ?thesis by (simp add: q_def lookup_event_by_id_def)
  qed
  with IH r calm_frame [OF c] show ?case by simp
qed

text \<open>What one round of the search does.\<close>

definition hit :: "event_process \<Rightarrow> nat \<Rightarrow> nat \<Rightarrow> bool" where
  "hit p i a \<longleftrightarrow> slot_at p i \<noteq> UNSIGNALED_EVENT_SLOT \<and> (\<exists>ev. event_heap p a = Some ev \<and> event_id ev = i \<and> is_signal_type (ev_type ev))"

lemma slot_at_set_slot:
  "slot_at (set_slot i v p) j = (if j = i \<and> (\<exists>pg. signal_page p = Some pg \<and> i < length (page_slots pg)) then v else slot_at p j)"
  by (cases "signal_page p") (auto simp: slot_at_def set_slot_def nth_list_update)

lemma slot_at_set_event [simp]: "slot_at (set_event woken a p) j = slot_at p j"
  by (simp add: slot_at_def)

lemma search_round:
  assumes ids: "ids_inv p" and q: "q = (if slot_at p i \<noteq> UNSIGNALED_EVENT_SLOT then set_event_from_interrupt woken (lookup_event_by_id p i) p else p)"
  shows "event_heap q a = (if hit p i a then event_heap (set_event woken a p) a else event_heap p a)"
    "slot_at q j = (if j = i \<and> (\<exists>a. hit p i a) then UNSIGNALED_EVENT_SLOT else slot_at p j)"
    "waits_for q r b = waits_for p r b" "is_activated p r \<Longrightarrow> waits_for p r b \<Longrightarrow> is_activated q r"
    "wait_inv p \<Longrightarrow> hit p i b \<Longrightarrow> waits_for p r b \<Longrightarrow> is_activated q r"
proof -
  let ?G = "event_heap q a = (if hit p i a then event_heap (set_event woken a p) a else event_heap p a) \<and>
    slot_at q j = (if j = i \<and> (\<exists>a. hit p i a) then UNSIGNALED_EVENT_SLOT else slot_at p j) \<and>
    waits_for q r b = waits_for p r b \<and> (is_activated p r \<longrightarrow> waits_for p r b \<longrightarrow> is_activated q r) \<and>
    (wait_inv p \<longrightarrow> hit p i b \<longrightarrow> waits_for p r b \<longrightarrow> is_activated q r)"
  have ?G
  proof (cases "\<exists>a. hit p i a")
    case False
    have "q = p"
    proof (cases "lookup_event_by_id p i")
      case (Some c)
      then obtain ev where "event_heap p c = Some ev" "event_id ev = i" using idr_lookup_iff [OF ids] by blast
      with False Some show ?thesis by (auto simp: q hit_def set_event_from_interrupt_def event_can_be_gpu_signaled_def)
    qed (simp add: q set_event_from_interrupt_def)
    with False show ?thesis by auto
  next
    case True
    then obtain c where c: "hit p i c" ..
    then obtain ev where ev: "event_heap p c = Some ev" "event_id ev = i" "is_signal_type (ev_type ev)" "slot_at p i \<noteq> UNSIGNALED_EVENT_SLOT"
      by (auto simp: hit_def)
    have l: "lookup_event_by_id p i = Some c" using idr_lookup_iff [OF ids] ev by blast
    have u: "hit p i d \<longleftrightarrow> d = c" for d
      using idr_lookup_iff [OF ids, of i d] l c by (auto simp: hit_def)
    obtain pg where pg: "signal_page p = Some pg" "i < length (page_slots pg)" using ids_slot [OF ids ev(1,3)] ev(2) by blast
    define p1 where "p1 = set_slot i UNSIGNALED_EVENT_SLOT p"
    have q1: "q = set_event woken c p1" using l ev by (simp add: q p1_def set_event_from_interrupt_def event_can_be_gpu_signaled_def)
    have p1: "event_heap p1 = event_heap p" "waiters p1 = waiters p" by (simp_all add: p1_def set_slot_def)
    have h1: "event_heap p1 c = Some ev" using ev p1 by simp
    have w: "waits_for q r b = waits_for p r b" "waits_for p r b \<Longrightarrow> is_activated q r = (r \<in> set (wq ev) \<or> is_activated p r)"
      using set_event_waiters [OF h1, where woken = woken and r = r and b = b] waits_frame [OF p1(2)] by (simp_all add: q1)
    have "is_activated q r" if "wait_inv p" "hit p i b" "waits_for p r b"
      using set_event_activates [OF _ h1, where r = r and woken = woken] quiet_inv [OF that(1) quiet_same [OF p1]] that u waits_frame [OF p1(2)] by (simp add: q1)
    moreover have "event_heap q a = (if hit p i a then event_heap (set_event woken a p) a else event_heap p a)"
      by (simp add: u q1 set_event_heap p1)
    moreover have "slot_at q j = (if j = i \<and> (\<exists>a. hit p i a) then UNSIGNALED_EVENT_SLOT else slot_at p j)"
      using True pg by (simp add: q1 p1_def slot_at_set_slot)
    ultimately show ?thesis using w by simp
  qed
  then show "event_heap q a = (if hit p i a then event_heap (set_event woken a p) a else event_heap p a)"
    "slot_at q j = (if j = i \<and> (\<exists>a. hit p i a) then UNSIGNALED_EVENT_SLOT else slot_at p j)"
    "waits_for q r b = waits_for p r b" "is_activated p r \<Longrightarrow> waits_for p r b \<Longrightarrow> is_activated q r"
    "wait_inv p \<Longrightarrow> hit p i b \<Longrightarrow> waits_for p r b \<Longrightarrow> is_activated q r"
    by blast+
qed

lemma search_all:
  assumes "ids_inv p" "wait_inv p" "distinct is"
  shows "event_heap (signal_slots woken is p) a = (if \<exists>i \<in> set is. hit p i a then event_heap (set_event woken a p) a else event_heap p a) \<and>
    slot_at (signal_slots woken is p) j = (if j \<in> set is \<and> (\<exists>a. hit p j a) then UNSIGNALED_EVENT_SLOT else slot_at p j) \<and>
    (waits_for p r b \<longrightarrow> is_activated p r \<or> (\<exists>i \<in> set is. hit p i b) \<longrightarrow> is_activated (signal_slots woken is p) r)"
  using assms
proof (induction "is" arbitrary: p)
  case (Cons i "is")
  define q where "q = (if slot_at p i \<noteq> UNSIGNALED_EVENT_SLOT then set_event_from_interrupt woken (lookup_event_by_id p i) p else p)"
  note rd = search_round [OF Cons.prems(1) q_def]
  have c: "calm p q" by (simp add: q_def from_interrupt_calm)
  have inv: "ids_inv q" "wait_inv q" using calm_frame(3) [OF c] c Cons.prems by (simp_all add: calm_def)
  have d: "distinct is" "i \<notin> set is" using Cons.prems by auto
  have h: "hit q j b = hit p j b" if "j \<noteq> i" for j b
    using that rd(1) [of b] rd(2) [of j] by (auto simp: hit_def set_event_heap)
  have ex: "(\<exists>j \<in> set is. hit q j b) = (\<exists>j \<in> set is. hit p j b)" for b
    by (rule bex_cong [OF refl]) (use h d(2) in metis)
  have no: "\<not> (\<exists>j \<in> set is. hit p j a)" if "hit p i a" using that d by (auto simp: hit_def)
  have hd: "event_heap (set_event woken a q) a = event_heap (set_event woken a p) a" if "\<not> hit p i a"
    using rd(1) [of a] that by (simp add: set_event_heap)
  note IH = Cons.IH [OF inv d(1)]
  have sl: "signal_slots woken (i # is) p = signal_slots woken is q" by (simp add: q_def)
  have "event_heap (signal_slots woken is q) a = (if \<exists>j \<in> set (i # is). hit p j a then event_heap (set_event woken a p) a else event_heap p a)"
    using IH ex [of a] rd(1) [of a] hd no by auto
  moreover have "slot_at (signal_slots woken is q) j = (if j \<in> set (i # is) \<and> (\<exists>a. hit p j a) then UNSIGNALED_EVENT_SLOT else slot_at p j)"
    using IH rd(2) [of j] h [of j] by (cases "j = i") (use d(2) in auto)
  moreover have "is_activated (signal_slots woken is q) r" if "waits_for p r b" "is_activated p r \<or> (\<exists>j \<in> set (i # is). hit p j b)"
  proof -
    have "is_activated q r \<or> (\<exists>j \<in> set is. hit q j b)"
      using that rd(4) [of r b] rd(5) [OF Cons.prems(2), of b r] ex [of b] by auto
    with IH rd(3) that(1) show ?thesis by blast
  qed
  ultimately show ?case unfolding sl by blast
qed simp

subsection \<open>Partial ids\<close>

text \<open>The ids that a partial id can stand for.\<close>

definition candidate :: "event_process \<Rightarrow> nat \<Rightarrow> nat \<Rightarrow> nat \<Rightarrow> bool" where
  "candidate p bits i j \<longleftrightarrow> i \<le> j \<and> j < event_limit p \<and> j mod 2 ^ bits = i mod 2 ^ bits \<and>
     slot_at p j \<noteq> UNSIGNALED_EVENT_SLOT \<and> lookup_event_by_id p j \<noteq> None"

lemma candidate_step:
  assumes "j \<noteq> i"
  shows "candidate p bits i j = candidate p bits (i + 2 ^ bits) j"
proof -
  have "j mod 2 ^ bits = i mod 2 ^ bits \<Longrightarrow> i \<le> j \<Longrightarrow> i + 2 ^ bits \<le> j"
    using assms by (metis add.commute add_le_cancel_right le_add_diff_inverse2 le_neq_implies_less mod_eq_dvd_iff_nat nat_dvd_not_less not_less zero_less_diff)
  then show ?thesis by (auto simp: candidate_def)
qed

lemma partial_search_least:
  "partial_search p bits i = (if \<exists>j. candidate p bits i j then lookup_event_by_id p (LEAST j. candidate p bits i j) else None)"
proof (induction p bits i rule: partial_search.induct)
  case (1 p bits i)
  show ?case
  proof (cases "candidate p bits i i")
    case True
    have l: "(LEAST j. candidate p bits i j) = i" by (rule Least_equality, rule True) (simp add: candidate_def)
    have "partial_search p bits i = lookup_event_by_id p i"
      using True by (subst partial_search.simps) (auto simp: candidate_def lookup_event_by_id_def)
    with True show ?thesis unfolding l by auto
  next
    case no: False
    have eq: "candidate p bits i = candidate p bits (i + 2 ^ bits)"
    proof
      show "candidate p bits i j = candidate p bits (i + 2 ^ bits) j" for j
        by (cases "j = i") (use no candidate_step in \<open>auto simp: candidate_def\<close>)
    qed
    show ?thesis
    proof (cases "i \<ge> event_limit p")
      case True
      then have "\<not> candidate p bits i j" for j by (auto simp: candidate_def)
      with True show ?thesis by (subst partial_search.simps) auto
    next
      case False
      then have "partial_search p bits i = partial_search p bits (i + 2 ^ bits)"
        using no by (subst partial_search.simps) (auto simp: candidate_def lookup_event_by_id_def)
      moreover have "slot_at p i = UNSIGNALED_EVENT_SLOT \<or> idr_find (event_idr p) i = None"
        using no False by (auto simp: candidate_def lookup_event_by_id_def)
      ultimately show ?thesis using 1 False unfolding eq by metis
    qed
  qed
qed

lemma partial_lookup_least:
  assumes "signal_page p \<noteq> None" "event_limit p < 2 ^ 32"
  shows "lookup_signaled_event_by_partial_id p i bits =
    (if \<exists>j. candidate p bits i j then lookup_event_by_id p (LEAST j. candidate p bits i j) else None)"
proof (cases "event_limit p \<le> i")
  case True
  then have "\<not> candidate p bits i j" for j by (auto simp: candidate_def)
  with True show ?thesis by (auto simp: lookup_signaled_event_by_partial_id_def)
next
  case False
  show ?thesis
  proof (cases "bits > 31 \<or> 2 ^ bits \<ge> event_limit p")
    case True
    have "event_limit p \<le> 2 ^ bits"
    proof (cases "bits > 31")
      case True
      then have "(2 :: nat) ^ 32 \<le> 2 ^ bits" by (intro power_increasing) auto
      with assms(2) show ?thesis by linarith
    qed (use True in simp)
    then have lim: "event_limit p \<le> i + 2 ^ bits" by linarith
    have "partial_search p bits (i + 2 ^ bits) = None" using lim by (subst partial_search.simps) simp
    then have "partial_search p bits i = (if slot_at p i = UNSIGNALED_EVENT_SLOT then None else idr_find (event_idr p) i)"
      using False by (subst partial_search.simps) (auto split: option.splits)
    then have "lookup_signaled_event_by_partial_id p i bits = partial_search p bits i"
      using True False assms(1) by (auto simp: lookup_signaled_event_by_partial_id_def)
    then show ?thesis by (simp only: partial_search_least)
  next
    case small: False
    then have "lookup_signaled_event_by_partial_id p i bits = partial_search p bits i"
      using False assms(1) by (auto simp: lookup_signaled_event_by_partial_id_def)
    then show ?thesis by (simp only: partial_search_least)
  qed
qed

subsection \<open>Conditions\<close>

lemma test_loop_any:
  "length ws + c \<le> n \<Longrightarrow> test_event_loop False n c ws = (case find (\<lambda>w. w_event w = None \<or> activated w) ws of
     None \<Rightarrow> if c = n then WAIT_RESULT_COMPLETE else WAIT_RESULT_TIMEOUT
   | Some w \<Rightarrow> if w_event w = None then WAIT_RESULT_FAIL else WAIT_RESULT_COMPLETE)"
  by (induction ws) auto

lemma test_loop_all:
  "length ws + c \<le> n \<Longrightarrow> test_event_loop True n c ws =
     (if \<exists>w \<in> set ws. w_event w = None then WAIT_RESULT_FAIL
      else if c + length ws = n \<and> (\<forall>w \<in> set ws. activated w) then WAIT_RESULT_COMPLETE else WAIT_RESULT_TIMEOUT)"
  by (induction ws arbitrary: c) auto

lemma activated_ends_wait:
  assumes "i < length (waiters p t)" "activated (waiters p t ! i)"
  shows "test_event_condition False (waiters p t) \<noteq> WAIT_RESULT_TIMEOUT"
proof -
  have "find (\<lambda>w. w_event w = None \<or> activated w) (waiters p t) \<noteq> None"
    using assms nth_mem [OF assms(1)] unfolding find_None_iff by blast
  then show ?thesis by (auto simp: test_event_condition_def test_loop_any split: if_splits)
qed

subsection \<open>Dangling pointers\<close>

lemma free_loop_dangling:
  assumes "i \<in> set is" "\<forall>i \<in> set is. i < length (waiters p t)" "w_event (waiters p t ! i) = Some a" "event_heap p a = None"
  shows "fst (free_loop woken t undo is p) = Err OOPS"
  using assms
proof (induction "is" arbitrary: p)
  case (Cons j "is")
  show ?case
  proof (cases "w_event (waiters p t ! j)")
    case None
    with Cons.prems Cons.IH [of p] show ?thesis by auto
  next
    case (Some b)
    show ?thesis
    proof (cases "event_heap p b")
      case None
      with Some show ?thesis by (simp add: Let_def)
    next
      case ev: (Some ev)
      define p1 where "p1 = remove_wait_queue b (t, j) p"
      define p2 where "p2 = (if undo \<and> activated (waiters p t ! j) \<and> auto_reset ev then set_event woken b p1 else p1)"
      have l: "free_loop woken t undo (j # is) p = free_loop woken t undo is p2" using Some ev by (simp add: p2_def p1_def Let_def)
      have w1: "waiters p1 = waiters p" "event_heap p1 a = None" using Cons.prems(4) by (auto simp: p1_def remove_wait_queue_def)
      have "w_event (waiters p2 t ! k) = w_event (waiters p t ! k)" if "k < length (waiters p t)" for k
        using set_event_threads [of k p1 t woken b] that w1 by (simp add: p2_def)
      moreover have "event_heap p2 a = None" "length (waiters p2 t) = length (waiters p t)" using w1 by (auto simp: p2_def set_event_heap)
      moreover have "i \<noteq> j" using Cons.prems(3,4) Some ev by auto
      ultimately show ?thesis unfolding l using Cons.prems by (intro Cons.IH) auto
    qed
  qed
qed simp

lemma wait_finish_dangling:
  assumes "i < length (waiters p t)" "w_event (waiters p t ! i) = Some a" "event_heap p a = None"
  shows "fst (fst (wait_finish woken copy_ok t ret wr p)) = Err OOPS"
proof -
  have "\<exists>q. free_waiters woken t undo p = (Err OOPS, q)" for undo
    using free_loop_dangling [of i "[0..<length (waiters p t)]" p t a woken undo] assms
    by (auto simp: free_waiters_def split: prod.splits)
  then obtain q where "\<And>undo. free_waiters woken t undo p = (Err OOPS, q undo)" by metis
  then show ?thesis by (auto simp: wait_finish_def split: prod.splits)
qed

subsection \<open>Creation\<close>

lemma idr_remove_insert: "n \<notin> fst ` set idr \<Longrightarrow> idr_remove n (idr_insert n a idr) = idr"
proof (induction n a idr rule: idr_insert.induct)
  case (2 n a i b xs)
  have "filter (\<lambda>x. fst x \<noteq> n) xs = xs" using "2.prems" by (auto simp: filter_id_conv)
  with 2 show ?case by (auto simp: idr_remove_def)
qed (simp add: idr_remove_def)

lemma create_success:
  assumes ids: "ids_inv p" and c: "kfd_event_create env (Some a) ty auto p = (Inr i, q)"
  obtains ev where "event_heap q = (event_heap p)(a \<mapsto> ev)" "event_id ev = i" "ev_type ev = ty" "wq ev = []" "waiters q = waiters p"
    "event_idr q = idr_insert i (Some a) (event_idr p)" "i \<notin> fst ` set (event_idr p)"
    "signal_event_count q = (if is_signal_type ty then signal_event_count p + 1 else signal_event_count p)"
proof -
  define ev where "ev = zero_event\<lparr>ev_type := ty, auto_reset := auto, signaled := False\<rparr>"
  obtain r1 p1 where c1: "(if is_signal_type ty then create_signal_event env a ev None p else create_other_event env a ev None p) = (r1, p1)"
    by (meson surj_pair)
  have q: "(case r1 of Inl e \<Rightarrow> (Inl e, p1) | Inr ev1 \<Rightarrow> (Inr (event_id ev1), p1\<lparr>event_heap := (event_heap p1)(a \<mapsto> ev1\<lparr>event_age := 1\<rparr>)\<rparr>)) = (Inr i, q)"
    using c unfolding kfd_event_create_def option.simps Let_def ev_def [symmetric] c1 prod.case .
  then obtain ev1 where r: "r1 = Inr ev1" "i = event_id ev1" "q = p1\<lparr>event_heap := (event_heap p1)(a \<mapsto> ev1\<lparr>event_age := 1\<rparr>)\<rparr>"
    by (cases r1) auto
  have "event_heap p1 = event_heap p \<and> waiters p1 = waiters p \<and> ev_type ev1 = ty \<and> wq ev1 = [] \<and>
    event_idr p1 = idr_insert i (Some a) (event_idr p) \<and> i \<notin> fst ` set (event_idr p) \<and>
    signal_event_count p1 = (if is_signal_type ty then signal_event_count p + 1 else signal_event_count p)"
  proof (cases "is_signal_type ty")
    case True
    obtain r2 p2 where al: "allocate_event_notification_slot env a None p = (r2, p2)" by (meson surj_pair)
    have s: "create_signal_event env a ev None p = (Inr ev1, p1)" using c1 True r by simp
    then obtain n where n: "r2 = Inr n" "event_id ev1 = n" "ev_type ev1 = ev_type ev" "wq ev1 = wq ev"
      "p1 = p2\<lparr>signal_event_count := signal_event_count p2 + 1\<rparr>"
      using al by (auto simp: create_signal_event_def split: if_splits sum.splits)
    from al show ?thesis
    proof (cases rule: slot_alloc_cases)
      case (3 p3 start stop m idr pg)
      note fr = ensure_page_frame [OF 3(1)]
      from idr_alloc_spec(1,2) [OF ids_invD(1) [OF fr(7) [OF ids]] 3(2)] 3 n fr r True show ?thesis
        by (simp add: set_slot_def ev_def zero_event_def)
    qed (use n in simp_all)
  next
    case False
    then have s: "create_other_event env a ev None p = (Inr ev1, p1)" using c1 r by simp
    obtain al idr where al: "idr_alloc (ee_idr env) (Some a) (int KFD_FIRST_NONSIGNAL_EVENT_ID) (- (2 ^ 31)) (event_idr p) = (al, idr)"
      by (meson surj_pair)
    with s obtain n where n: "al = Inr n" "ev1 = ev\<lparr>event_id := n\<rparr>" "p1 = p\<lparr>event_idr := idr\<rparr>"
      by (auto simp: create_other_event_def split: sum.splits)
    from idr_alloc_spec(1,2) [OF ids_invD(1) [OF ids] al [unfolded n(1)]] n r False show ?thesis
      by (simp add: ev_def zero_event_def)
  qed
  with r that [of "ev1\<lparr>event_age := 1\<rparr>"] show thesis by simp
qed

subsection \<open>Checkpoint and restore\<close>

lemma idr_alloc_exact:
  assumes "idr_sorted idr" "n \<notin> fst ` set idr" "n \<le> INT_MAX"
  shows "idr_alloc True a (int n) (int n + 1) idr = (Inr n, idr_insert n a idr)"
proof -
  have "idr_gap n idr = n" using idr_gap_spec [OF assms(1), of n] assms(2) by (metis le_neq_implies_less order_refl)
  then show ?thesis by (simp add: idr_alloc_def Let_def)
qed

section \<open>An example\<close>

text \<open>A process with one auto-reset signal event, id 1, and thread 7 waiting for it.\<close>

definition example_process :: event_process where
  "example_process = \<lparr>event_heap = Map.empty, event_idr = [], signal_page = None, signal_mapped_size = 0, signal_event_count = 0,
     signal_event_limit_reached = False, signal_handle = 0, event_limit = 512, waiters = \<lambda>_. []\<rparr>"

definition good_env :: event_env where
  "good_env = \<lparr>ee_kzalloc = True, ee_pages = True, ee_idr = True\<rparr>"

definition example_created :: event_process where
  "example_created = snd (kfd_event_create good_env (Some 100) 0 True (snd (kfd_event_init_process True example_process)))"

definition example_waiting :: event_process where
  "example_waiting = snd (wait_begin True (\<lambda>_. True) (\<lambda>_. True) 7 False [Some (1, 0)] example_created)"

definition example_woken :: event_process where
  "example_woken = snd (kfd_set_event (\<lambda>_. True) 1 example_waiting)"

lemma example_init_reachable: "events_reachable (snd (kfd_event_init_process True example_process), \<lambda>_. Idle)"
  by (rule ev_init [of example_process 0]) (simp_all add: example_process_def kfd_event_init_process_def idr_alloc_def)

lemma example_created_reachable: "events_reachable (example_created, \<lambda>_. Idle)"
proof (rule ev_step [OF example_init_reachable step_op])
  show "event_op (snd (kfd_event_init_process True example_process)) example_created"
    unfolding example_created_def
    by (rule op_create [of "Some 100" _ good_env 0 True "fst (kfd_event_create good_env (Some 100) 0 True (snd (kfd_event_init_process True example_process)))"])
      (simp_all add: example_process_def kfd_event_init_process_def idr_alloc_def)
qed

lemma example_waiting_reachable: "events_reachable (example_waiting, (\<lambda>_. Idle)(7 := Polling False))"
proof (rule ev_step [OF example_created_reachable step_wait])
  have "fst (wait_begin True (\<lambda>_. True) (\<lambda>_. True) 7 False [Some (1, 0)] example_created) = None" by code_simp
  then show "wait_begin True (\<lambda>_. True) (\<lambda>_. True) 7 False [Some (1, 0)] example_created = (None, example_waiting)"
    by (simp add: example_waiting_def prod_eq_iff)
qed simp

lemma example_woken_reachable: "events_reachable (example_woken, (\<lambda>_. Idle)(7 := Polling False))"
  by (rule ev_step [OF example_waiting_reachable step_op [OF op_set [of "\<lambda>_. True" 1 _ "fst (kfd_set_event (\<lambda>_. True) 1 example_waiting)"]]])
    (simp add: example_woken_def)

section \<open>Properties\<close>

text \<open>
  C6. Ids, addresses and slots: a lookup finds exactly the live event with that id, id 0 is never an event, the counter is one
  more than the number of signal events, and every signal event has a slot in the page.
\<close>

theorem events_reachable_ids:
  assumes "events_reachable (p, ph)"
  shows "lookup_event_by_id p 0 = None \<and> (lookup_event_by_id p i = Some a \<longleftrightarrow> (\<exists>ev. event_heap p a = Some ev \<and> event_id ev = i)) \<and>
    signal_event_count p = 1 + card {a. \<exists>ev. event_heap p a = Some ev \<and> is_signal_type (ev_type ev)} \<and>
    (event_heap p a = Some ev \<and> is_signal_type (ev_type ev) \<longrightarrow> (\<exists>pg. signal_page p = Some pg \<and> event_id ev < length (page_slots pg)))"
proof -
  note ids = reachable_invs(2) [OF assms]
  have "signal_addrs (ident p) = {a. \<exists>ev. event_heap p a = Some ev \<and> is_signal_type (ev_type ev)}"
    by (auto simp: signal_addrs_def ident_def)
  moreover have "\<exists>pg. signal_page p = Some pg \<and> event_id ev < length (page_slots pg)"
    if "event_heap p a = Some ev" "is_signal_type (ev_type ev)"
    using ids_slot [OF ids that] by blast
  ultimately show ?thesis using ids_invD(5) [OF ids] idr_lookup_0 [OF ids] idr_lookup_iff [OF ids, of i a] by simp
qed

theorem events_reachable_ids_witness:
  "lookup_event_by_id example_created 1 = Some 100 \<and> (\<exists>ev. event_heap example_created 100 = Some ev \<and> event_id ev = 1)"
proof -
  have "lookup_event_by_id example_created 1 = Some 100" by code_simp
  with events_reachable_ids [OF example_created_reachable, of 1 100] show ?thesis by blast
qed

text \<open>
  C5. No waiter misses a signal: as long as a waiter is not activated, the event it points to is alive and not signaled, and the
  waiter is in its queue.
\<close>

theorem events_reachable_waiters:
  assumes "events_reachable (p, ph)" "j < length (waiters p t)" "w_event (waiters p t ! j) = Some a" "\<not> activated (waiters p t ! j)"
  shows "\<exists>ev. event_heap p a = Some ev \<and> (t, j) \<in> set (wq ev) \<and> \<not> signaled ev"
  using wait_invD(2) [OF reachable_invs(3) [OF assms(1)], of "(t, j)" a] assms by (simp add: waits_for_def is_activated_def)

theorem events_reachable_waiters_witness: "\<exists>ev. event_heap example_waiting 100 = Some ev \<and> (7, 0) \<in> set (wq ev) \<and> \<not> signaled ev"
  by (rule events_reachable_waiters [OF example_waiting_reachable]) code_simp+

text \<open>
  C7. No lost wake-up: when the user sets a signal event, every thread that waits for any of several events, this one among them,
  finds its wait ended the next time it looks.
\<close>

theorem set_event_ends_wait:
  assumes "events_reachable (p, ph)" "ph t = Polling False" "j < length (waiters p t)" "w_event (waiters p t ! j) = Some a"
    "lookup_event_by_id p i = Some a" "type_at p a = Some KFD_EVENT_TYPE_SIGNAL"
  shows "fst (kfd_set_event woken i p) = OK \<and>
    wait_poll False False expired t False (snd (kfd_set_event woken i p)) \<in> {Some (OK, WAIT_RESULT_COMPLETE), Some (OK, WAIT_RESULT_FAIL)}"
proof -
  obtain ev where ev: "event_heap p a = Some ev" "ev_type ev = KFD_EVENT_TYPE_SIGNAL" using assms(6) by (auto simp: type_at_def)
  let ?q = "set_event woken a p"
  have s: "kfd_set_event woken i p = (OK, ?q)" using assms(5) ev by (simp add: kfd_set_event_def with_event_def event_can_be_cpu_signaled_def)
  have "waits_for p (t, j) a" using assms(3,4) by (simp add: waits_for_def)
  from set_event_activates [OF reachable_invs(3) [OF assms(1)] ev(1) this] have "activated (waiters ?q t ! j)" by (simp add: is_activated_def)
  then have "test_event_condition False (waiters ?q t) \<noteq> WAIT_RESULT_TIMEOUT" using assms(3) by (intro activated_ends_wait) auto
  then show ?thesis unfolding s by (cases "test_event_condition False (waiters ?q t)") (simp_all add: wait_poll_def)
qed

theorem set_event_ends_wait_witness:
  "fst (kfd_set_event (\<lambda>_. True) 1 example_waiting) = OK \<and>
   wait_poll False False False 7 False (snd (kfd_set_event (\<lambda>_. True) 1 example_waiting)) \<in> {Some (OK, WAIT_RESULT_COMPLETE), Some (OK, WAIT_RESULT_FAIL)}"
  by (rule set_event_ends_wait [OF example_waiting_reachable, of 7 0 100 1]) code_simp+

text \<open>
  C23. The two exhaustive searches of the interrupt handler, over the IDR and over the slots, do the same.
\<close>

theorem exhaustive_searches_agree:
  assumes "events_reachable (p, ph)"
  shows "signal_entries woken (idr_entries 0 (event_idr p)) p = signal_slots woken [1..<event_limit p] p"
proof -
  note ids = reachable_invs(2) [OF assms]
  have "idr_entries 0 (event_idr p) = idr_entries 1 (event_idr p)"
    using idr_entries_rec [OF ids_invD(1) [OF ids], of 0] idr_lookup_0 [OF ids] by (simp add: lookup_event_by_id_def)
  with search_equiv [OF ids_invD(1) [OF ids], of woken 1] show ?thesis by simp
qed

theorem exhaustive_searches_agree_witness:
  "signal_entries (\<lambda>_. True) (idr_entries 0 (event_idr (set_slot 1 5 example_waiting))) (set_slot 1 5 example_waiting) =
   signal_slots (\<lambda>_. True) [1..<event_limit (set_slot 1 5 example_waiting)] (set_slot 1 5 example_waiting)"
  by (rule exhaustive_searches_agree [OF ev_step [OF example_waiting_reachable step_op [OF op_gpu_write]]])

text \<open>
  An interrupt without an id signals every event whose slot is set: its slot is cleared, the event becomes what
  \<^verbatim>\<open>set_event\<close> makes of it, its waiters are activated; an event whose slot is not set stays as it is.
\<close>

theorem interrupt_signals_all:
  assumes "events_reachable (p, ph)" "event_heap p a = Some ev" "is_signal_type (ev_type ev)" "event_id ev < event_limit p"
  shows "slot_at (kfd_signal_event_interrupt woken partial_id 0 p) (event_id ev) = UNSIGNALED_EVENT_SLOT \<and>
    event_heap (kfd_signal_event_interrupt woken partial_id 0 p) a =
      event_heap (if slot_at p (event_id ev) = UNSIGNALED_EVENT_SLOT then p else set_event woken a p) a \<and>
    (slot_at p (event_id ev) \<noteq> UNSIGNALED_EVENT_SLOT \<longrightarrow> waits_for p r a \<longrightarrow> is_activated (kfd_signal_event_interrupt woken partial_id 0 p) r)"
proof -
  note inv = reachable_invs [OF assms(1)]
  let ?q = "kfd_signal_event_interrupt woken partial_id 0 p"
  obtain pg where "signal_page p = Some pg" using ids_slot [OF inv(2) assms(2,3)] .
  then have q: "?q = signal_slots woken [1..<event_limit p] p"
    using search_equiv [OF ids_invD(1) [OF inv(2)], of woken 0]
      search_equiv [OF ids_invD(1) [OF inv(2)], of woken 1] idr_entries_rec [OF ids_invD(1) [OF inv(2)], of 0] idr_lookup_0 [OF inv(2)]
    by (simp add: kfd_signal_event_interrupt_def lookup_event_by_id_def)
  have "event_id ev \<noteq> 0" using idr_lookup_0 [OF inv(2)] idr_lookup_iff [OF inv(2), of 0 a] assms(2) by auto
  then have m: "event_id ev \<in> set [1..<event_limit p]" using assms(4) by simp
  have h: "hit p i a \<longleftrightarrow> i = event_id ev \<and> slot_at p i \<noteq> UNSIGNALED_EVENT_SLOT" for i using assms(2,3) by (auto simp: hit_def)
  define Q where "Q = ?q"
  note all = search_all [OF inv(2,3) distinct_upt, of woken 1 "event_limit p" a "event_id ev" r a, folded q, folded Q_def]
  have e: "(\<exists>i \<in> set [1..<event_limit p]. hit p i a) \<longleftrightarrow> slot_at p (event_id ev) \<noteq> UNSIGNALED_EVENT_SLOT" unfolding h using m by blast
  have "slot_at p (event_id ev) \<noteq> UNSIGNALED_EVENT_SLOT \<Longrightarrow> \<exists>b. hit p (event_id ev) b" by (intro exI [of _ a]) (simp add: h)
  then have "slot_at Q (event_id ev) = UNSIGNALED_EVENT_SLOT" 
    using conjunct1 [OF conjunct2 [OF all]] m by (cases "slot_at p (event_id ev) = UNSIGNALED_EVENT_SLOT") (simp_all del: set_upt)
  moreover have "event_heap Q a = event_heap (if slot_at p (event_id ev) = UNSIGNALED_EVENT_SLOT then p else set_event woken a p) a"
    using conjunct1 [OF all] unfolding e by (cases "slot_at p (event_id ev) = UNSIGNALED_EVENT_SLOT") simp_all
  ultimately show ?thesis unfolding Q_def [symmetric] using conjunct2 [OF conjunct2 [OF all]] e by blast
qed

theorem interrupt_signals_all_witness:
  "is_activated (kfd_signal_event_interrupt (\<lambda>_. True) 0 0 (set_slot 1 5 example_waiting)) (7, 0)"
proof -
  let ?p = "set_slot 1 5 example_waiting" and ?ev = "the (event_heap (set_slot 1 5 example_waiting) 100)"
  have "event_heap ?p 100 \<noteq> None" by code_simp
  then have ev: "event_heap ?p 100 = Some ?ev" by simp
  have "is_signal_type (ev_type ?ev)" "event_id ?ev < event_limit ?p" "slot_at ?p (event_id ?ev) \<noteq> UNSIGNALED_EVENT_SLOT"
    "waits_for ?p (7, 0) 100"
    by code_simp+
  with interrupt_signals_all [OF ev_step [OF example_waiting_reachable step_op [OF op_gpu_write]] ev, of "\<lambda>_. True" 0 "(7, 0)"] show ?thesis
    by blast
qed

text \<open>
  A partial id: the lookup gives the event of the smallest id from the partial id on that agrees with it in the valid bits, has a
  set slot and belongs to an event; it fails only when there is none.
\<close>

theorem partial_id_lookup_first:
  assumes "signal_page p \<noteq> None" "event_limit p < 2 ^ 32"
  shows "lookup_signaled_event_by_partial_id p i bits = Some a \<longleftrightarrow>
    (\<exists>j. candidate p bits i j \<and> lookup_event_by_id p j = Some a \<and> (\<forall>k. candidate p bits i k \<longrightarrow> j \<le> k))"
proof (cases "\<exists>j. candidate p bits i j")
  case False
  then show ?thesis using partial_lookup_least [OF assms, of i bits] by simp
next
  case True
  define m where "m = (LEAST j. candidate p bits i j)"
  have c: "candidate p bits i m" unfolding m_def by (rule LeastI_ex [OF True])
  have le: "m \<le> k" if "candidate p bits i k" for k unfolding m_def using that by (rule Least_le)
  have "lookup_signaled_event_by_partial_id p i bits = lookup_event_by_id p m"
    using partial_lookup_least [OF assms, of i bits] True by (simp add: m_def)
  with c le show ?thesis by (metis le_antisym)
qed

theorem partial_id_lookup_first_witness:
  "\<exists>j. candidate (set_slot 1 5 example_waiting) 3 1 j \<and> lookup_event_by_id (set_slot 1 5 example_waiting) j = Some 100"
proof -
  let ?p = "set_slot 1 5 example_waiting"
  have "lookup_signaled_event_by_partial_id ?p 1 3 = Some 100" by code_simp
  moreover have "signal_page ?p \<noteq> None" "event_limit ?p = 512" by code_simp+
  moreover have "event_limit ?p < 2 ^ 32" unfolding \<open>event_limit ?p = 512\<close> by simp
  ultimately show ?thesis using partial_id_lookup_first [of ?p 1 3 100] by blast
qed

text \<open>
  C24. Creating an event takes an id that was free and changes no other lookup; destroying it restores events, ids, counter and waiters.
\<close>

theorem event_create_destroy_roundtrip:
  assumes "events_reachable (p, ph)" "event_heap p a = None" "kfd_event_create env (Some a) ty auto p = (Inr i, q)"
    "kfd_event_destroy i q = (r, q')"
  shows "lookup_event_by_id p i = None \<and> lookup_event_by_id q i = Some a \<and> (j \<noteq> i \<longrightarrow> lookup_event_by_id q j = lookup_event_by_id p j) \<and>
    r = OK \<and> event_heap q' = event_heap p \<and> event_idr q' = event_idr p \<and> signal_event_count q' = signal_event_count p \<and> waiters q' = waiters p"
proof -
  note inv = reachable_invs [OF assms(1)]
  obtain ev where ev: "event_heap q = (event_heap p)(a \<mapsto> ev)" "event_id ev = i" "ev_type ev = ty" "wq ev = []" "waiters q = waiters p"
    "event_idr q = idr_insert i (Some a) (event_idr p)" "i \<notin> fst ` set (event_idr p)"
    "signal_event_count q = (if is_signal_type ty then signal_event_count p + 1 else signal_event_count p)"
    using create_success [OF inv(2) assms(3)] .
  have "keeps_events p q" using create_keeps(1) [OF inv(1) _ assms(3)] assms(2) by simp
  then have iq: "ids_inv q" by (simp add: keeps_events_def events_inv_def)
  have l: "lookup_event_by_id q i = Some a" using idr_lookup_iff [OF iq, of i a] ev by simp
  have n: "lookup_event_by_id p i = None" using ev(7) by (simp add: lookup_event_by_id_def idr_find_def map_of_eq_None_iff [symmetric])
  have "lookup_event_by_id q j = Some b \<longleftrightarrow> lookup_event_by_id p j = Some b" if "j \<noteq> i" for b
    using idr_lookup_iff [OF iq, of j b] idr_lookup_iff [OF inv(2), of j b] that ev(1,2) assms(2) by (cases "b = a") auto
  then have o: "j \<noteq> i \<longrightarrow> lookup_event_by_id q j = lookup_event_by_id p j" by (metis option.exhaust)
  have "r = OK" "q' = destroy_event a q" using assms(4) l by (simp_all add: kfd_event_destroy_def)
  with ev l n o idr_remove_insert [OF ev(7)] assms(2) show ?thesis by (auto simp: destroy_event_def Let_def)
qed

theorem event_create_destroy_roundtrip_witness:
  "event_idr (snd (kfd_event_destroy 2 (snd (kfd_event_create good_env (Some 200) 0 False example_waiting)))) = event_idr example_waiting"
proof -
  let ?c = "kfd_event_create good_env (Some 200) 0 False example_waiting"
  have "fst ?c = Inr 2" and n: "event_heap example_waiting 200 = None" by code_simp+
  then have c: "?c = (Inr 2, snd ?c)" by (simp add: prod_eq_iff)
  have d: "kfd_event_destroy 2 (snd ?c) = (fst (kfd_event_destroy 2 (snd ?c)), snd (kfd_event_destroy 2 (snd ?c)))"
    by simp
  show ?thesis using event_create_destroy_roundtrip [OF example_waiting_reachable n c d] by blast
qed

text \<open>
  C25. A destroyed event leaves dangling pointers: \<^verbatim>\<open>destroy_event\<close> clears only the pointers of the waiters in the queue. A waiter that was
  woken by the event, or that found it signaled, is not in the queue any more and keeps its pointer; when its thread
  leaves \<^verbatim>\<open>kfd_wait_on_events\<close>, however the wait ended, it follows the pointer to the freed event.
\<close>

theorem destroyed_event_dangling:
  assumes "events_reachable (p, ph)" "lookup_event_by_id p i = Some a" "event_heap p a = Some ev"
    "j < length (waiters p t)" "w_event (waiters p t ! j) = Some a" "(t, j) \<notin> set (wq ev)" "kfd_event_destroy i p = (r, q)"
  shows "r = OK \<and> fst (fst (wait_finish woken copy_ok t ret wr q)) = Err OOPS"
proof -
  have q: "r = OK" "q = destroy_event a p" using assms(2,7) by (simp_all add: kfd_event_destroy_def)
  have "waiters q t ! j = waiters p t ! j" using destroy_event_waiters [OF assms(3), of "(t, j)"] assms(4,6) by (simp add: q)
  then show ?thesis using wait_finish_dangling [of j q t a woken copy_ok ret wr] assms(4,5) q by simp
qed

theorem destroyed_event_dangling_witness:
  "events_reachable (example_woken, (\<lambda>_. Idle)(7 := Polling False)) \<and>
   wait_poll False False False 7 False example_woken = Some (OK, WAIT_RESULT_COMPLETE) \<and>
   fst (fst (wait_finish (\<lambda>_. True) (\<lambda>_. True) 7 OK WAIT_RESULT_COMPLETE (snd (kfd_event_destroy 1 example_woken)))) = Err OOPS"
proof (intro conjI)
  let ?ev = "the (event_heap example_woken 100)"
  have "event_heap example_woken 100 \<noteq> None" by code_simp
  then have ev: "event_heap example_woken 100 = Some ?ev" by simp
  have l: "lookup_event_by_id example_woken 1 = Some 100" and j: "0 < length (waiters example_woken 7)"
    and w: "w_event (waiters example_woken 7 ! 0) = Some 100" and n: "(7, 0) \<notin> set (wq ?ev)"
    by code_simp+
  show "events_reachable (example_woken, (\<lambda>_. Idle)(7 := Polling False))" by (rule example_woken_reachable)
  show "wait_poll False False False 7 False example_woken = Some (OK, WAIT_RESULT_COMPLETE)" by code_simp
  show "fst (fst (wait_finish (\<lambda>_. True) (\<lambda>_. True) 7 OK WAIT_RESULT_COMPLETE (snd (kfd_event_destroy 1 example_woken)))) = Err OOPS"
    using destroyed_event_dangling [OF example_woken_reachable l ev j w n, of "fst (kfd_event_destroy 1 example_woken)"
        "snd (kfd_event_destroy 1 example_woken)"] by simp
qed

text \<open>
  The end of a process frees every event and gives the page back.
\<close>

lemma destroy_all_heap:
  "event_heap (fold (\<lambda>x. destroy_event (snd x)) es p) b = (if b \<in> snd ` set es then None else event_heap p b)"
  by (induction es arbitrary: p) auto

theorem event_free_process_frees_all:
  assumes "events_reachable (p, ph)"
  shows "event_heap (kfd_event_free_process p) = Map.empty \<and> event_idr (kfd_event_free_process p) = [] \<and>
    signal_page (kfd_event_free_process p) = None"
proof -
  have "event_heap (kfd_event_free_process p) b = None" for b
  proof (cases "event_heap p b")
    case (Some ev)
    then have "(event_id ev, Some b) \<in> set (event_idr p)" using ids_invD(3) [OF reachable_invs(2) [OF assms]] by blast
    then have "b \<in> snd ` set (idr_entries 0 (event_idr p))" unfolding idr_entries_set by force
    then show ?thesis by (simp add: kfd_event_free_process_def destroy_all_heap)
  qed (simp add: kfd_event_free_process_def destroy_all_heap)
  then show ?thesis by (simp add: kfd_event_free_process_def fun_eq_iff)
qed

theorem event_free_process_frees_all_witness:
  "event_heap example_waiting 100 \<noteq> None \<and> event_heap (kfd_event_free_process example_waiting) = Map.empty"
proof
  show "event_heap example_waiting 100 \<noteq> None" by code_simp
  show "event_heap (kfd_event_free_process example_waiting) = Map.empty" using event_free_process_frees_all [OF example_waiting_reachable] by blast
qed

text \<open>
  The condition of a wait. For all events: it fails when one was destroyed, is complete when all are activated. For any event:
  the first waiter that is activated or whose event was destroyed decides, so that a destroyed event behind an activated waiter
  is not noticed.
\<close>

theorem wait_condition:
  "test_event_condition all ws =
     (if all then
        if \<exists>w \<in> set ws. w_event w = None then WAIT_RESULT_FAIL
        else if \<forall>w \<in> set ws. activated w then WAIT_RESULT_COMPLETE else WAIT_RESULT_TIMEOUT
      else case find (\<lambda>w. w_event w = None \<or> activated w) ws of
          None \<Rightarrow> if ws = [] then WAIT_RESULT_COMPLETE else WAIT_RESULT_TIMEOUT
        | Some w \<Rightarrow> if w_event w = None then WAIT_RESULT_FAIL else WAIT_RESULT_COMPLETE)"
  by (cases all) (simp_all add: test_event_condition_def test_loop_all test_loop_any split: option.splits)

theorem wait_condition_witness:
  "test_event_condition False [\<lparr>w_event = Some 1, activated = True, event_age_enabled = False\<rparr>,
     \<lparr>w_event = None, activated = False, event_age_enabled = False\<rparr>] = WAIT_RESULT_COMPLETE"
  unfolding wait_condition by simp

text \<open>
  A checkpointed event (not the first, which carries the handle of the page) restored into a process in which its id is free: the
  id, the type, the signaled state, the kind of reset and the exception data come back. The age does not: it starts at 0, the
  value that stands for no age.
\<close>

theorem criu_event_roundtrip:
  assumes "events_reachable (p, ph)" "events_reachable (p', ph')" "event_heap p a = Some ev" "0 < k"
    "is_signal_type (ev_type ev) \<or> ev_type ev = KFD_EVENT_TYPE_MEMORY \<or> ev_type ev = KFD_EVENT_TYPE_HW_EXCEPTION"
    "event_id ev \<notin> fst ` set (event_idr p')" "event_id ev \<le> INT_MAX"
    "is_signal_type (ev_type ev) \<longrightarrow> (\<exists>pg. signal_page p' = Some pg \<and> event_id ev < length (page_slots pg)) \<and>
       signal_event_count p' \<noteq> unat (signal_mapped_size p' div 8)"
    "ee_idr env"
  shows "\<exists>q ev'. kfd_criu_restore_event env True found (Some b) (Inr (checkpoint_event p k (event_id ev, a))) p' = (OK, q) \<and>
    event_heap q b = Some ev' \<and> lookup_event_by_id q (event_id ev) = Some b \<and>
    event_id ev' = event_id ev \<and> ev_type ev' = ev_type ev \<and> auto_reset ev' = auto_reset ev \<and> signaled ev' = signaled ev \<and>
    (ev_type ev = KFD_EVENT_TYPE_MEMORY \<or> ev_type ev = KFD_EVENT_TYPE_HW_EXCEPTION \<longrightarrow> event_data ev' = event_data ev) \<and> event_age ev' = 0"
proof -
  note ids = reachable_invs(2) [OF assms(2)]
  define n where "n = event_id ev"
  define idr where "idr = idr_insert n (Some b) (event_idr p')"
  have al: "idr_alloc True (Some b) (int n) (int n + 1) (event_idr p') = (Inr n, idr)"
    using idr_alloc_exact [OF ids_invD(1) [OF ids] assms(6,7)] by (simp add: n_def idr_def)
  have sd: "idr_sorted idr" using idr_sorted_insert [OF ids_invD(1) [OF ids] assms(6)] by (simp add: idr_def n_def)
  have fd: "idr_find idr n = Some b" using idr_find_iff [OF sd] by (simp add: idr_def)
  have nz: "\<not> is_signal_type 8" "\<not> is_signal_type 3" by (simp_all add: is_signal_type_def)
  show ?thesis
  proof (cases "is_signal_type (ev_type ev)")
    case True
    then obtain pg where pg: "signal_page p' = Some pg" "n < length (page_slots pg)" "signal_event_count p' \<noteq> unat (signal_mapped_size p' div 8)"
      using assms(8) by (auto simp: n_def)
    have ty: "ev_type ev \<noteq> 8" "ev_type ev \<noteq> 3" using True nz by auto
    from True pg al ty assms(3,4,9) fd show ?thesis
      by (simp add: kfd_criu_restore_event_def checkpoint_event_def create_signal_event_def allocate_event_notification_slot_def Let_def
          lookup_event_by_id_def set_slot_def zero_event_def n_def [symmetric])
  next
    case False
    with assms(5) al assms(3,4,9) fd show ?thesis
      by (auto simp: kfd_criu_restore_event_def checkpoint_event_def create_other_event_def Let_def
          lookup_event_by_id_def zero_event_def n_def [symmetric])
  qed
qed

theorem criu_event_roundtrip_witness:
  "\<exists>q ev'. kfd_criu_restore_event good_env True (Inl EINVAL) (Some 300) (Inr (checkpoint_event example_created 1 (1, 100)))
       (snd (kfd_event_destroy 1 example_created)) = (OK, q) \<and>
     event_heap q 300 = Some ev' \<and> lookup_event_by_id q 1 = Some 300 \<and> auto_reset ev' \<and> event_age ev' = 0"
proof -
  let ?p = "snd (kfd_event_destroy 1 example_created)" and ?ev = "the (event_heap example_created 100)"
  have r: "events_reachable (?p, \<lambda>_. Idle)"
    by (rule ev_step [OF example_created_reachable step_op [OF op_destroy [of 1 _ "fst (kfd_event_destroy 1 example_created)"]]]) simp
  have "event_heap example_created 100 \<noteq> None" by code_simp
  then have ev: "event_heap example_created 100 = Some ?ev" by simp
  have i: "event_id ?ev = 1" and ty: "is_signal_type (ev_type ?ev)" and au: "auto_reset ?ev" and g: "ee_idr good_env" by code_simp+
  have fr: "1 \<notin> fst ` set (event_idr ?p)" by code_simp
  have pg: "(case signal_page ?p of Some pg \<Rightarrow> 1 < length (page_slots pg) | None \<Rightarrow> False) \<and>
      signal_event_count ?p \<noteq> unat (signal_mapped_size ?p div 8)"
    by code_simp
  have pg': "\<exists>pg. signal_page ?p = Some pg \<and> event_id ?ev < length (page_slots pg)" using pg unfolding i by (auto split: option.splits)
  show ?thesis
    using criu_event_roundtrip [OF example_created_reachable r ev, of 1 good_env "Inl EINVAL" 300] i ty au g fr pg pg' by auto
qed

text \<open>
  A restored signal event brings its own id, and the id is used as the index of its slot without a check: an id beyond the page
  makes the kernel write outside of it.
\<close>

theorem criu_restore_slot_unchecked:
  assumes "events_reachable (p, ph)" "signal_page p = Some pg" "ce_user_handle c = 0" "is_signal_type (ce_type c)"
    "ce_event_id c = int n" "length (page_slots pg) \<le> n" "n \<le> INT_MAX" "n \<notin> fst ` set (event_idr p)"
    "signal_event_count p \<noteq> unat (signal_mapped_size p div 8)" "ee_idr env"
  shows "fst (kfd_criu_restore_event env True found (Some b) (Inr c) p) = Err OOPS"
proof -
  have "idr_alloc True (Some b) (int n) (int n + 1) (event_idr p) = (Inr n, idr_insert n (Some b) (event_idr p))"
    by (rule idr_alloc_exact [OF ids_invD(1) [OF reachable_invs(2) [OF assms(1)]] assms(8,7)])
  with assms(2-6,9,10) show ?thesis
    by (simp add: kfd_criu_restore_event_def create_signal_event_def allocate_event_notification_slot_def Let_def)
qed

theorem criu_restore_slot_unchecked_witness:
  "fst (kfd_criu_restore_event good_env True (Inl EINVAL) (Some 300)
     (Inr \<lparr>ce_user_handle = 0, ce_event_id = 5000, ce_auto_reset = False, ce_type = 0, ce_signaled = False, ce_data = Zeroed\<rparr>)
     example_created) = Err OOPS"
proof -
  have "signal_page example_created \<noteq> None" by code_simp
  then obtain pg where pg: "signal_page example_created = Some pg" by blast
  have "(case signal_page example_created of Some pg \<Rightarrow> length (page_slots pg) \<le> 5000 | None \<Rightarrow> False)" by code_simp
  then have l: "length (page_slots pg) \<le> 5000" by (simp add: pg)
  have n: "5000 \<notin> fst ` set (event_idr example_created)" and c: "signal_event_count example_created \<noteq> unat (signal_mapped_size example_created div 8)"
    by code_simp+
  show ?thesis
    by (rule criu_restore_slot_unchecked [OF example_created_reachable pg _ _ _ l _ n c]) (simp_all add: is_signal_type_def good_env_def)
qed

end
