(* ===== verification/Kfd_Interrupt.thy ===== *)
theory Kfd_Interrupt
  imports Kfd_Events Dqm_State
begin

text \<open>
  Interrupts of the GPU (\<^verbatim>\<open>kfd/kfd_interrupt.c\<close>, \<^verbatim>\<open>kgd2kfd_interrupt\<close> of \<^verbatim>\<open>kfd/kfd_device.c\<close>, \<^verbatim>\<open>kfd/cik_event_interrupt.c\<close> and
  \<^verbatim>\<open>kfd/kfd_int_process_v{9,10,11}.c\<close>). The top half decides whether a ring entry is wanted and puts it into a FIFO; the
  work queue takes the entries out and decodes them.

  A handler gives the calls it makes, in their order (\<open>int_call\<close>); \<open>run_calls\<close> carries out those that concern the events of processes.
  What the called functions answer is in \<open>int_env\<close>. Client ids, exception codes and the source id of UTCL2 faults come from
  headers that are not in the sources: they are the records \<open>ih_ids\<close> and \<open>ec_codes\<close>.
\<close>

unbundle bit_operations_syntax

section \<open>Ring entries\<close>

text \<open>The entries are little endian words; \<open>entry ! i\<close> is \<^verbatim>\<open>le32_to_cpu(entry[i])\<close>.\<close>

definition SOC15_CLIENT_ID_FROM_IH_ENTRY :: "u32 list \<Rightarrow> u32" where "SOC15_CLIENT_ID_FROM_IH_ENTRY e = e ! 0 AND 0xff"
definition SOC15_SOURCE_ID_FROM_IH_ENTRY :: "u32 list \<Rightarrow> u32" where "SOC15_SOURCE_ID_FROM_IH_ENTRY e = drop_bit 8 (e ! 0) AND 0xff"
definition SOC15_RING_ID_FROM_IH_ENTRY :: "u32 list \<Rightarrow> u32" where "SOC15_RING_ID_FROM_IH_ENTRY e = drop_bit 16 (e ! 0) AND 0xff"
definition SOC15_VMID_FROM_IH_ENTRY :: "u32 list \<Rightarrow> u32" where "SOC15_VMID_FROM_IH_ENTRY e = drop_bit 24 (e ! 0) AND 0xf"
definition SOC15_PASID_FROM_IH_ENTRY :: "u32 list \<Rightarrow> u32" where "SOC15_PASID_FROM_IH_ENTRY e = e ! 3 AND 0xffff"
definition SOC15_NODEID_FROM_IH_ENTRY :: "u32 list \<Rightarrow> u32" where "SOC15_NODEID_FROM_IH_ENTRY e = drop_bit 16 (e ! 3) AND 0xff"
definition SOC15_CONTEXT_ID0_FROM_IH_ENTRY :: "u32 list \<Rightarrow> u32" where "SOC15_CONTEXT_ID0_FROM_IH_ENTRY e = e ! 4"
definition SOC15_CONTEXT_ID1_FROM_IH_ENTRY :: "u32 list \<Rightarrow> u32" where "SOC15_CONTEXT_ID1_FROM_IH_ENTRY e = e ! 5"

lemmas ih_entry_defs = SOC15_CLIENT_ID_FROM_IH_ENTRY_def SOC15_SOURCE_ID_FROM_IH_ENTRY_def SOC15_RING_ID_FROM_IH_ENTRY_def
  SOC15_VMID_FROM_IH_ENTRY_def SOC15_PASID_FROM_IH_ENTRY_def SOC15_NODEID_FROM_IH_ENTRY_def SOC15_CONTEXT_ID0_FROM_IH_ENTRY_def
  SOC15_CONTEXT_ID1_FROM_IH_ENTRY_def

abbreviation (input) SOC15_INTSRC_CP_END_OF_PIPE :: u32 where "SOC15_INTSRC_CP_END_OF_PIPE \<equiv> 181"
abbreviation (input) SOC15_INTSRC_CP_BAD_OPCODE :: u32 where "SOC15_INTSRC_CP_BAD_OPCODE \<equiv> 183"
abbreviation (input) SOC15_INTSRC_SQ_INTERRUPT_MSG :: u32 where "SOC15_INTSRC_SQ_INTERRUPT_MSG \<equiv> 239"
abbreviation (input) SOC15_INTSRC_SDMA_TRAP :: u32 where "SOC15_INTSRC_SDMA_TRAP \<equiv> 224"
abbreviation (input) SOC15_INTSRC_SDMA_ECC :: u32 where "SOC15_INTSRC_SDMA_ECC \<equiv> 220"
abbreviation (input) SOC21_INTSRC_SDMA_TRAP :: u32 where "SOC21_INTSRC_SDMA_TRAP \<equiv> 49"
abbreviation (input) SOC21_INTSRC_SDMA_ECC :: u32 where "SOC21_INTSRC_SDMA_ECC \<equiv> 62"

definition KFD_IRQ_IS_FENCE :: "u32 \<Rightarrow> u32 \<Rightarrow> bool" where
  "KFD_IRQ_IS_FENCE client source \<longleftrightarrow> client = 0xff \<and> source = 0xff"

text \<open>\<open>CLIENTID_SDMA\<close> are the clients SDMA0 to SDMA7, \<open>CLIENTID_SESH\<close> the clients SE0SH to SE3SH.\<close>

record ih_ids =
  CLIENTID_GRBM_CP :: u32
  CLIENTID_SDMA :: "u32 list"
  CLIENTID_SDMA3_Sienna_Cichlid :: u32
  CLIENTID_VMC :: u32
  CLIENTID_VMC1 :: u32
  CLIENTID_UTCL2 :: u32
  CLIENTID_SESH :: "u32 list"
  SOC21_CLIENTID_VMC :: u32
  SOC21_CLIENTID_GFX :: u32
  SOC21_CLIENTID_GRBM_CP :: u32
  UTCL2_SRCID_FAULT :: u32

record ec_codes =
  EC_MASK :: "u32 \<Rightarrow> u64"
  EC_MASK_QUEUE :: u64
  EC_DEVICE_MEMORY_VIOLATION :: u32
  EC_TYPE_IS_PACKET :: "u32 \<Rightarrow> bool"

section \<open>Nodes and the FIFO\<close>

datatype event_interrupt_class =
    event_interrupt_class_cik | event_interrupt_class_v9 | event_interrupt_class_v9_4_3
  | event_interrupt_class_v10 | event_interrupt_class_v11

text \<open>What interrupts use of \<^verbatim>\<open>struct kfd_node\<close> and \<^verbatim>\<open>struct kfd_dev\<close>. The FIFO is kept in words.\<close>

record int_node =
  in_dqm :: device_queue_manager
  in_class :: event_interrupt_class
  in_gpu_id :: u32
  interrupt_bitmap :: u32
  mec_fw_version :: u32
  no_queue_eviction_on_vm_fault :: bool
  interrupts_active :: bool
  ih_fifo :: "u32 list"
  ih_fifo_size :: nat

text \<open>\<^verbatim>\<open>ih_ring_entry_size\<close> in words, as \<^verbatim>\<open>kfd_device_info_init\<close> sets it.\<close>

definition ring_entry_words :: "event_interrupt_class \<Rightarrow> nat" where
  "ring_entry_words c = (if c = event_interrupt_class_cik then 4 else 8)"

abbreviation (input) KFD_IH_NUM_ENTRIES :: nat where "KFD_IH_NUM_ENTRIES \<equiv> 8192"
abbreviation (input) KFD_MAX_RING_ENTRY_SIZE :: nat where "KFD_MAX_RING_ENTRY_SIZE \<equiv> 8"

definition kfd_device_info_set_event_interrupt_class :: "u32 \<Rightarrow> event_interrupt_class" where
  "kfd_device_info_set_event_interrupt_class gc =
     (if gc = IP_VERSION 9 4 3 then event_interrupt_class_v9_4_3
      else if gc \<in> {IP_VERSION 10 3 1, IP_VERSION 10 3 3, IP_VERSION 10 3 6, IP_VERSION 10 3 7, IP_VERSION 10 1 3,
                   IP_VERSION 10 1 4, IP_VERSION 10 1 10, IP_VERSION 10 1 2, IP_VERSION 10 1 1, IP_VERSION 10 3 0,
                   IP_VERSION 10 3 2, IP_VERSION 10 3 4, IP_VERSION 10 3 5} then event_interrupt_class_v10
      else if gc \<in> {IP_VERSION 11 0 0, IP_VERSION 11 0 1, IP_VERSION 11 0 2, IP_VERSION 11 0 3, IP_VERSION 11 0 4, IP_VERSION 11 5 0}
      then event_interrupt_class_v11
      else event_interrupt_class_v9)"

text \<open>The FIFO size is a power of two already, so \<^verbatim>\<open>kfifo_alloc\<close> does not round it.\<close>

definition kfd_interrupt_init :: "retval \<Rightarrow> bool \<Rightarrow> bool \<Rightarrow> int_node \<Rightarrow> retval \<times> int_node" where
  "kfd_interrupt_init fifo have_wq wq_ok node =
     (if fifo \<noteq> OK then (fifo, node)
      else if \<not> have_wq \<and> \<not> wq_ok then (Err ENOMEM, node)
      else (OK, node\<lparr>ih_fifo := [], ih_fifo_size := KFD_IH_NUM_ENTRIES * ring_entry_words (in_class node), interrupts_active := True\<rparr>))"

definition kfd_interrupt_exit :: "int_node \<Rightarrow> int_node" where
  "kfd_interrupt_exit node = node\<lparr>interrupts_active := False, ih_fifo := [], ih_fifo_size := 0\<rparr>"

text \<open>\<^verbatim>\<open>kfifo_in\<close> copies as much as there is room for, \<^verbatim>\<open>kfifo_out\<close> as much as there is.\<close>

definition kfifo_in :: "u32 list \<Rightarrow> nat \<Rightarrow> int_node \<Rightarrow> nat \<times> int_node" where
  "kfifo_in entry n node =
     (let count = min n (ih_fifo_size node - length (ih_fifo node)) in (count, node\<lparr>ih_fifo := ih_fifo node @ take count entry\<rparr>))"

definition kfifo_out :: "nat \<Rightarrow> int_node \<Rightarrow> nat \<times> u32 list \<times> int_node" where
  "kfifo_out n node =
     (let count = min n (length (ih_fifo node)) in (count, take count (ih_fifo node), node\<lparr>ih_fifo := drop count (ih_fifo node)\<rparr>))"

definition enqueue_ih_ring_entry :: "u32 list \<Rightarrow> int_node \<Rightarrow> bool \<times> int_node" where
  "enqueue_ih_ring_entry entry node =
     (let n = ring_entry_words (in_class node); (count, node1) = kfifo_in entry n node in (count = n, node1))"

definition dequeue_ih_ring_entry :: "int_node \<Rightarrow> u32 list option \<times> int_node" where
  "dequeue_ih_ring_entry node =
     (let n = ring_entry_words (in_class node); (count, entry, node1) = kfifo_out n node
      in (if count = n then Some entry else None, node1))"

section \<open>The top halves\<close>

text \<open>A top half says whether it wants the entry and gives the patched entry if it made one.\<close>

type_synonym isr_result = "bool \<times> u32 list option"

abbreviation (input) isr_vmid_ok :: "int_node \<Rightarrow> u32 \<Rightarrow> bool" where
  "isr_vmid_ok node vm \<equiv> first_vmid_kfd (dqm_dev (in_dqm node)) \<le> unat vm \<and> unat vm \<le> last_vmid_kfd (dqm_dev (in_dqm node))"

definition context_id_expected :: "int_node \<Rightarrow> bool" where
  "context_id_expected node =
     (let gc = gc_version (dqm_dev (in_dqm node)) in
      if gc = IP_VERSION 9 0 1 then mec_fw_version node \<ge> 0x817a
      else if gc \<in> {IP_VERSION 9 1 0, IP_VERSION 9 2 1, IP_VERSION 9 2 2, IP_VERSION 9 3 0, IP_VERSION 9 4 0}
      then mec_fw_version node \<ge> 0x17a
      else gc \<ge> IP_VERSION 9 4 1)"

definition soc15_client_wanted :: "ih_ids \<Rightarrow> u32 \<Rightarrow> bool" where
  "soc15_client_wanted ids c \<longleftrightarrow>
     c = CLIENTID_GRBM_CP ids \<or> c \<in> set (CLIENTID_SDMA ids) \<or> c = CLIENTID_VMC ids \<or> c = CLIENTID_VMC1 ids \<or>
     c = CLIENTID_UTCL2 ids \<or> c \<in> set (CLIENTID_SESH ids)"

definition is_vm_client :: "ih_ids \<Rightarrow> u32 \<Rightarrow> bool" where
  "is_vm_client ids c \<longleftrightarrow> c = CLIENTID_VMC ids \<or> c = CLIENTID_VMC1 ids \<or> c = CLIENTID_UTCL2 ids"

text \<open>Reading \<^verbatim>\<open>vmid_pasid\<close>; it has an entry for every VMID.\<close>

definition pasid_of_vmid :: "int_node \<Rightarrow> u32 \<Rightarrow> u16" where
  "pasid_of_vmid node vm =
     (let ps = vmid_pasid (in_dqm node) in if unat vm < length ps then ps ! unat vm else 0)"

definition event_interrupt_isr_v9 :: "ih_ids \<Rightarrow> int_node \<Rightarrow> u32 list \<Rightarrow> isr_result" where
  "event_interrupt_isr_v9 ids node e =
     (let source_id = SOC15_SOURCE_ID_FROM_IH_ENTRY e; client_id = SOC15_CLIENT_ID_FROM_IH_ENTRY e;
          vm = SOC15_VMID_FROM_IH_ENTRY e; pas = SOC15_PASID_FROM_IH_ENTRY e;
          fence = KFD_IRQ_IS_FENCE client_id source_id in
      if \<not> fence \<and> \<not> isr_vmid_ok node vm then (False, None)
      else if \<not> soc15_client_wanted ids client_id \<and> \<not> fence then (False, None)
      else
        let patch = (pas = 0 \<and> sched_policy (in_dqm node) = KFD_SCHED_POLICY_NO_HWS);
            pas1 = (if patch then ucast (pasid_of_vmid node vm) else pas);
            patched = (if patch then Some (e[3 := (e ! 3 AND NOT 0xffff) OR pas1]) else None) in
        if pas1 = 0 then (False, patched)
        else if source_id = SOC15_INTSRC_CP_END_OF_PIPE \<and> SOC15_CONTEXT_ID0_FROM_IH_ENTRY e = 0 \<and> context_id_expected node
        then (False, patched)
        else (source_id = SOC15_INTSRC_CP_END_OF_PIPE \<or> source_id = SOC15_INTSRC_SDMA_TRAP \<or> source_id = SOC15_INTSRC_SDMA_ECC \<or>
              source_id = SOC15_INTSRC_SQ_INTERRUPT_MSG \<or> source_id = SOC15_INTSRC_CP_BAD_OPCODE \<or> fence \<or>
              is_vm_client ids client_id \<and> \<not> no_queue_eviction_on_vm_fault node, patched))"

definition kfd_irq_is_from_node :: "int_node \<Rightarrow> u32 \<Rightarrow> u32 \<Rightarrow> bool" where
  "kfd_irq_is_from_node node nid vm \<longleftrightarrow>
     interrupt_bitmap node AND push_bit (unat nid) 1 \<noteq> 0 \<and> compute_vmid_bitmap (dqm_dev (in_dqm node)) AND push_bit (unat vm) 1 \<noteq> 0"

definition event_interrupt_isr_v9_4_3 :: "ih_ids \<Rightarrow> int_node \<Rightarrow> u32 list \<Rightarrow> isr_result" where
  "event_interrupt_isr_v9_4_3 ids node e =
     (if kfd_irq_is_from_node node (SOC15_NODEID_FROM_IH_ENTRY e) (SOC15_VMID_FROM_IH_ENTRY e)
      then event_interrupt_isr_v9 ids node e else (False, None))"

definition event_interrupt_isr_v10 :: "ih_ids \<Rightarrow> int_node \<Rightarrow> u32 list \<Rightarrow> isr_result" where
  "event_interrupt_isr_v10 ids node e =
     (let source_id = SOC15_SOURCE_ID_FROM_IH_ENTRY e; client_id = SOC15_CLIENT_ID_FROM_IH_ENTRY e;
          vm = SOC15_VMID_FROM_IH_ENTRY e; fence = KFD_IRQ_IS_FENCE client_id source_id in
      (if \<not> fence \<and> \<not> isr_vmid_ok node vm then False
       else if \<not> soc15_client_wanted ids client_id then False
       else if SOC15_PASID_FROM_IH_ENTRY e = 0 then False
       else source_id = SOC15_INTSRC_CP_END_OF_PIPE \<or> source_id = SOC15_INTSRC_SDMA_TRAP \<or> source_id = SOC15_INTSRC_SQ_INTERRUPT_MSG \<or>
            source_id = SOC15_INTSRC_CP_BAD_OPCODE \<or> is_vm_client ids client_id \<or> fence, None))"

abbreviation (input) AMDGPU_FENCE_MES_QUEUE_FLAG :: u32 where "AMDGPU_FENCE_MES_QUEUE_FLAG \<equiv> 0x1000000"

definition is_vm_fault_v11 :: "ih_ids \<Rightarrow> u32 \<Rightarrow> u32 \<Rightarrow> bool" where
  "is_vm_fault_v11 ids client_id source_id \<longleftrightarrow>
     client_id = SOC21_CLIENTID_VMC ids \<or> client_id = SOC21_CLIENTID_GFX ids \<and> source_id = UTCL2_SRCID_FAULT ids"

definition event_interrupt_isr_v11 :: "ih_ids \<Rightarrow> int_node \<Rightarrow> u32 list \<Rightarrow> isr_result" where
  "event_interrupt_isr_v11 ids node e =
     (let source_id = SOC15_SOURCE_ID_FROM_IH_ENTRY e; client_id = SOC15_CLIENT_ID_FROM_IH_ENTRY e;
          vm = SOC15_VMID_FROM_IH_ENTRY e; fence = KFD_IRQ_IS_FENCE client_id source_id in
      (if \<not> fence \<and> \<not> isr_vmid_ok node vm then False
       else if source_id = SOC15_INTSRC_CP_END_OF_PIPE \<and> SOC15_CONTEXT_ID0_FROM_IH_ENTRY e AND AMDGPU_FENCE_MES_QUEUE_FLAG \<noteq> 0 then False
       else if SOC15_PASID_FROM_IH_ENTRY e = 0 then False
       else source_id = SOC15_INTSRC_CP_END_OF_PIPE \<or> source_id = SOC15_INTSRC_SQ_INTERRUPT_MSG \<or> source_id = SOC15_INTSRC_CP_BAD_OPCODE \<or>
            source_id = SOC21_INTSRC_SDMA_TRAP \<or> fence \<or> is_vm_fault_v11 ids client_id source_id \<and> \<not> no_queue_eviction_on_vm_fault node,
       None))"

text \<open>
  \<^verbatim>\<open>struct cik_ih_ring_entry\<close>: source, data, ring, reserved. \<open>vmfault\<close> is what the registers of Hawaii tell of the fault: the VMID, and the
  PASID if the mapping is valid.
\<close>

abbreviation (input) CIK_INTSRC_CP_END_OF_PIPE :: u32 where "CIK_INTSRC_CP_END_OF_PIPE \<equiv> 0xB5"
abbreviation (input) CIK_INTSRC_CP_BAD_OPCODE :: u32 where "CIK_INTSRC_CP_BAD_OPCODE \<equiv> 0xB7"
abbreviation (input) CIK_INTSRC_SDMA_TRAP :: u32 where "CIK_INTSRC_SDMA_TRAP \<equiv> 0xE0"
abbreviation (input) CIK_INTSRC_SQ_INTERRUPT_MSG :: u32 where "CIK_INTSRC_SQ_INTERRUPT_MSG \<equiv> 0xEF"
abbreviation (input) CIK_INTSRC_GFX_PAGE_INV_FAULT :: u32 where "CIK_INTSRC_GFX_PAGE_INV_FAULT \<equiv> 0x92"
abbreviation (input) CIK_INTSRC_GFX_MEM_PROT_FAULT :: u32 where "CIK_INTSRC_GFX_MEM_PROT_FAULT \<equiv> 0x93"

definition cik_is_vm_fault :: "u32 \<Rightarrow> bool" where
  "cik_is_vm_fault source_id \<longleftrightarrow> source_id = CIK_INTSRC_GFX_PAGE_INV_FAULT \<or> source_id = CIK_INTSRC_GFX_MEM_PROT_FAULT"

definition cik_vmid :: "u32 list \<Rightarrow> u32" where "cik_vmid e = drop_bit 8 (e ! 2 AND 0x0000ff00)"
definition cik_pasid :: "u32 list \<Rightarrow> u32" where "cik_pasid e = drop_bit 16 (e ! 2 AND 0xffff0000)"

definition cik_event_interrupt_isr :: "u32 \<times> bool \<times> u16 \<Rightarrow> int_node \<Rightarrow> u32 list \<Rightarrow> isr_result" where
  "cik_event_interrupt_isr vmfault node e =
     (if cik_is_vm_fault (e ! 0) \<and> asic_type (dqm_dev (in_dqm node)) = CHIP_HAWAII then
        (case vmfault of (vm, valid, pas) \<Rightarrow>
           (valid \<and> pas \<noteq> 0 \<and> isr_vmid_ok node vm,
            Some (e[2 := (e ! 2 AND 0xff) OR push_bit 8 vm OR push_bit 16 (ucast pas)])))
      else if \<not> isr_vmid_ok node (cik_vmid e) then (False, None)
      else if cik_pasid e = 0 then (False, None)
      else (e ! 0 = CIK_INTSRC_CP_END_OF_PIPE \<or> e ! 0 = CIK_INTSRC_SDMA_TRAP \<or> e ! 0 = CIK_INTSRC_SQ_INTERRUPT_MSG \<or>
            e ! 0 = CIK_INTSRC_CP_BAD_OPCODE \<or> cik_is_vm_fault (e ! 0) \<and> \<not> no_queue_eviction_on_vm_fault node, None))"

definition interrupt_is_wanted :: "ih_ids \<Rightarrow> u32 \<times> bool \<times> u16 \<Rightarrow> int_node \<Rightarrow> u32 list \<Rightarrow> isr_result" where
  "interrupt_is_wanted ids vmfault node e =
     (case in_class node of
        event_interrupt_class_cik \<Rightarrow> cik_event_interrupt_isr vmfault node e
      | event_interrupt_class_v9 \<Rightarrow> event_interrupt_isr_v9 ids node e
      | event_interrupt_class_v9_4_3 \<Rightarrow> event_interrupt_isr_v9_4_3 ids node e
      | event_interrupt_class_v10 \<Rightarrow> event_interrupt_isr_v10 ids node e
      | event_interrupt_class_v11 \<Rightarrow> event_interrupt_isr_v11 ids node e)"

text \<open>
  \<^verbatim>\<open>kgd2kfd_interrupt\<close>: the nodes of a device are asked in turn. \<open>patched\<close> is \<^verbatim>\<open>patched_ihre\<close> with \<^verbatim>\<open>is_patched\<close>, which stays set from
  one node to the next. \<open>None\<close> is a node that is gone. The result has the index of the node whose work is queued. The check of the
  entry size never fails: an entry has 4 or 8 words, and there is room for 8.
\<close>

fun kgd2kfd_loop ::
    "ih_ids \<Rightarrow> u32 \<times> bool \<times> u16 \<Rightarrow> u32 list \<Rightarrow> nat \<Rightarrow> u32 list option \<Rightarrow> int_node option list \<Rightarrow> nat option \<times> int_node option list" where
  "kgd2kfd_loop ids vmfault e i patched [] = (None, [])"
| "kgd2kfd_loop ids vmfault e i patched (None # ns) = (None, None # ns)"
| "kgd2kfd_loop ids vmfault e i patched (Some node # ns) =
     (let (wanted, p) = (if interrupts_active node then interrupt_is_wanted ids vmfault node e else (False, None));
          patched1 = (case p of Some x \<Rightarrow> Some x | None \<Rightarrow> patched);
          (queued, node1) = (if wanted then enqueue_ih_ring_entry (case patched1 of Some x \<Rightarrow> x | None \<Rightarrow> e) node else (False, node)) in
      if queued then (Some i, Some node1 # ns)
      else case kgd2kfd_loop ids vmfault e (Suc i) patched1 ns of (r, ns1) \<Rightarrow> (r, Some node1 # ns1))"

definition kgd2kfd_interrupt ::
    "ih_ids \<Rightarrow> u32 \<times> bool \<times> u16 \<Rightarrow> bool \<Rightarrow> u32 list \<Rightarrow> int_node option list \<Rightarrow> nat option \<times> int_node option list" where
  "kgd2kfd_interrupt ids vmfault init_complete e ns =
     (if \<not> init_complete then (None, ns) else kgd2kfd_loop ids vmfault e 0 None ns)"

section \<open>The work queue\<close>

datatype int_call =
    Signal_event u32 u32 nat
  | Hw_exception_event u32
  | Vm_fault_event u32 "kfd_vm_fault_info option" "memory_exception option"
  | Poison_consumed_event u32
  | Evict_pasid u32
  | Reset_queues u32
  | Set_poison u32
  | Ras_poison_consumption_handler bool
  | Smi_vmfault u32
  | Dbg_ev_raise u32 u32 u64
  | Exception_to_runtime u32 u32 u64
  | Close_interrupt_drain u32

text \<open>
  Whether the process of the PASID exists and was poisoned before; the results of evicting or resetting its queues (\<open>None\<close>: no
  such operation); the poison status of UTCL2; whether the debugger took the event, whether the runtime of the process is enabled and
  a queue with the doorbell exists; on CIK the fault information with its VMID and whether its address and status are both 0.
\<close>

record int_env =
  ie_process :: bool
  ie_poison :: bool
  ie_evict :: retval
  ie_reset :: "retval option"
  ie_utcl2_poison :: bool
  ie_dbg_raise :: bool
  ie_runtime_enabled :: bool
  ie_queue_found :: bool
  ie_fault_info :: kfd_vm_fault_info
  ie_fault_vmid :: u32
  ie_fault_empty :: bool

definition kfd_set_dbg_ev_from_interrupt ::
    "ec_codes \<Rightarrow> int_env \<Rightarrow> u32 \<Rightarrow> u32 \<Rightarrow> u64 \<Rightarrow> memory_exception option \<Rightarrow> bool \<times> int_call list" where
  "kfd_set_dbg_ev_from_interrupt ec env pas db trap_mask data =
     (if \<not> ie_process env then (False, [])
      else if ie_dbg_raise env then (True, [Dbg_ev_raise pas db trap_mask])
      else if trap_mask AND EC_MASK_QUEUE ec \<noteq> 0 \<and> ie_runtime_enabled env
      then (ie_queue_found env, if ie_queue_found env then [Exception_to_runtime pas db trap_mask] else [])
      else if trap_mask AND EC_MASK ec (EC_DEVICE_MEMORY_VIOLATION ec) \<noteq> 0 then (True, [Evict_pasid pas, Vm_fault_event pas None data])
      else (False, []))"

definition poison_calls :: "u32 \<Rightarrow> int_call list \<Rightarrow> retval \<Rightarrow> int_call list" where
  "poison_calls pas stop_calls ret =
     Set_poison pas # stop_calls @ [Poison_consumed_event pas, Ras_poison_consumption_handler (ret \<noteq> OK)]"

text \<open>\<^verbatim>\<open>event_interrupt_poison_consumption_v9\<close> and the function of the same text in \<^verbatim>\<open>kfd_int_process_v10.c\<close>.\<close>

definition event_interrupt_poison_consumption :: "ih_ids \<Rightarrow> int_env \<Rightarrow> u32 \<Rightarrow> u32 \<Rightarrow> int_call list" where
  "event_interrupt_poison_consumption ids env pas client_id =
     (if \<not> ie_process env \<or> ie_poison env then []
      else if client_id \<in> set (CLIENTID_SESH ids) \<or> client_id = CLIENTID_UTCL2 ids
      then poison_calls pas [Evict_pasid pas] (ie_evict env)
      else poison_calls pas [] (Err EINVAL))"

definition event_interrupt_poison_consumption_v11 :: "int_env \<Rightarrow> u32 \<Rightarrow> u32 \<Rightarrow> int_call list" where
  "event_interrupt_poison_consumption_v11 env pas source_id =
     (if \<not> ie_process env \<or> ie_poison env then []
      else case (if source_id = SOC15_INTSRC_SQ_INTERRUPT_MSG then ie_reset env else None) of
          Some r \<Rightarrow> poison_calls pas [Reset_queues pas] r
        | None \<Rightarrow> poison_calls pas [] (Err EINVAL))"

definition ih_exception_data :: "int_node \<Rightarrow> u32 list \<Rightarrow> memory_exception" where
  "ih_exception_data node e =
     (let ring_id = SOC15_RING_ID_FROM_IH_ENTRY e; addr = ucast (e ! 4) OR push_bit 32 (ucast (e ! 5 AND 0xf) :: u64) in
      zero_memory_exception\<lparr>mx_gpu_id := in_gpu_id node, mx_va := push_bit 12 addr, mx_NotPresent := ring_id AND 0x08 \<noteq> 0,
        mx_NoExecute := False, mx_ReadOnly := ring_id AND 0x20 \<noteq> 0, mx_imprecise := False\<rparr>)"

text \<open>The three kinds of a message of the SQ.\<close>

abbreviation (input) SQ_INTERRUPT_WORD_ENCODING_INST :: u32 where "SQ_INTERRUPT_WORD_ENCODING_INST \<equiv> 1"
abbreviation (input) SQ_INTERRUPT_WORD_ENCODING_ERROR :: u32 where "SQ_INTERRUPT_WORD_ENCODING_ERROR \<equiv> 2"

definition sq_error_is_poison :: "u32 \<Rightarrow> bool" where
  "sq_error_is_poison err \<longleftrightarrow> err \<noteq> 1 \<and> err \<noteq> 2"

text \<open>
  What the three generations have in common for a message of the SQ: an instruction with \<open>priv\<close> goes to the debugger first, an error that
  is neither an illegal instruction nor a memory violation is poison, everything else is a signal.
\<close>

definition sq_message :: "ec_codes \<Rightarrow> int_env \<Rightarrow> u32 \<Rightarrow> u32 \<Rightarrow> bool \<Rightarrow> u32 \<Rightarrow> u64 \<Rightarrow> u32 \<Rightarrow> int_call list \<Rightarrow> int_call \<Rightarrow> int_call list" where
  "sq_message ec env pas encoding priv doorbell trap_code err poison signal =
     (if encoding = SQ_INTERRUPT_WORD_ENCODING_INST \<and> priv then
        (case kfd_set_dbg_ev_from_interrupt ec env pas doorbell trap_code None of
           (True, cs) \<Rightarrow> cs | (False, cs) \<Rightarrow> cs @ [signal])
      else if encoding = SQ_INTERRUPT_WORD_ENCODING_ERROR \<and> sq_error_is_poison err then poison
      else [signal])"

definition KFD_CONTEXT_ID_GET_SQ_INT_DATA :: "u32 \<Rightarrow> u32 \<Rightarrow> u32" where
  "KFD_CONTEXT_ID_GET_SQ_INT_DATA ctx0 ctx1 = (ctx0 AND 0xfff) OR (drop_bit 16 ctx0 AND 0xf000) OR (push_bit 16 ctx1 AND 0xff0000)"

definition KFD_DEBUG_DOORBELL_ID :: "u32 \<Rightarrow> u32" where "KFD_DEBUG_DOORBELL_ID x = x AND 0x0003ff"
definition KFD_DEBUG_TRAP_CODE :: "u32 \<Rightarrow> u32" where "KFD_DEBUG_TRAP_CODE x = drop_bit 10 (x AND 0x07fc00)"
definition KFD_DEBUG_CP_BAD_OP_ECODE :: "u32 \<Rightarrow> u32" where "KFD_DEBUG_CP_BAD_OP_ECODE x = drop_bit 10 (x AND 0x3fffc00)"
definition KFD_CTXID0_TRAP_CODE :: "u32 \<Rightarrow> u32" where "KFD_CTXID0_TRAP_CODE x = drop_bit 10 (x AND 0xfffc00)"
definition KFD_CTXID0_CP_BAD_OP_ECODE :: "u32 \<Rightarrow> u32" where "KFD_CTXID0_CP_BAD_OP_ECODE x = drop_bit 10 (x AND 0x3ffffff)"

definition memory_violation :: "ec_codes \<Rightarrow> int_env \<Rightarrow> int_node \<Rightarrow> u32 \<Rightarrow> u32 list \<Rightarrow> int_call list" where
  "memory_violation ec env node pas e =
     snd (kfd_set_dbg_ev_from_interrupt ec env pas (- 1) (EC_MASK ec (EC_DEVICE_MEMORY_VIOLATION ec)) (Some (ih_exception_data node e)))"

definition event_interrupt_wq_v9 :: "ih_ids \<Rightarrow> ec_codes \<Rightarrow> int_env \<Rightarrow> int_node \<Rightarrow> u32 list \<Rightarrow> int_call list" where
  "event_interrupt_wq_v9 ids ec env node e =
     (let source_id = SOC15_SOURCE_ID_FROM_IH_ENTRY e; client_id = SOC15_CLIENT_ID_FROM_IH_ENTRY e; pas = SOC15_PASID_FROM_IH_ENTRY e;
          ctx0 = SOC15_CONTEXT_ID0_FROM_IH_ENTRY e; ctx1 = SOC15_CONTEXT_ID1_FROM_IH_ENTRY e in
      if client_id = CLIENTID_GRBM_CP ids \<or> client_id \<in> set (CLIENTID_SESH ids) then
        (if source_id = SOC15_INTSRC_CP_END_OF_PIPE then [Signal_event pas ctx0 32]
         else if source_id = SOC15_INTSRC_SQ_INTERRUPT_MSG then
           (let sq = KFD_CONTEXT_ID_GET_SQ_INT_DATA ctx0 ctx1 in
            sq_message ec env pas (drop_bit 26 (ctx0 AND 0x0c000000)) (ctx0 AND 0x00002000 \<noteq> 0) (KFD_DEBUG_DOORBELL_ID sq)
              (ucast (KFD_DEBUG_TRAP_CODE sq)) (drop_bit 20 (sq AND 0xF00000))
              (event_interrupt_poison_consumption ids env pas client_id) (Signal_event pas sq 24))
         else if source_id = SOC15_INTSRC_CP_BAD_OPCODE \<and> EC_TYPE_IS_PACKET ec (KFD_DEBUG_CP_BAD_OP_ECODE ctx0)
         then snd (kfd_set_dbg_ev_from_interrupt ec env pas (KFD_DEBUG_DOORBELL_ID ctx0) (EC_MASK ec (KFD_DEBUG_CP_BAD_OP_ECODE ctx0)) None)
         else [])
      else if client_id \<in> set (CLIENTID_SDMA ids) then
        (if source_id = SOC15_INTSRC_SDMA_TRAP then [Signal_event pas (ctx0 AND 0xfffffff) 28]
         else if source_id = SOC15_INTSRC_SDMA_ECC then event_interrupt_poison_consumption ids env pas client_id
         else [])
      else if is_vm_client ids client_id then
        (if client_id = CLIENTID_UTCL2 ids \<and> ie_utcl2_poison env then event_interrupt_poison_consumption ids env pas client_id
         else memory_violation ec env node pas e @ [Smi_vmfault pas])
      else if KFD_IRQ_IS_FENCE client_id source_id then [Close_interrupt_drain pas]
      else [])"

text \<open>The third argument of the poison handler is \<^verbatim>\<open>source_id\<close> in two of the three calls.\<close>

definition event_interrupt_wq_v10 :: "ih_ids \<Rightarrow> ec_codes \<Rightarrow> int_env \<Rightarrow> int_node \<Rightarrow> u32 list \<Rightarrow> int_call list" where
  "event_interrupt_wq_v10 ids ec env node e =
     (let source_id = SOC15_SOURCE_ID_FROM_IH_ENTRY e; client_id = SOC15_CLIENT_ID_FROM_IH_ENTRY e; pas = SOC15_PASID_FROM_IH_ENTRY e;
          ctx0 = SOC15_CONTEXT_ID0_FROM_IH_ENTRY e; ctx1 = SOC15_CONTEXT_ID1_FROM_IH_ENTRY e in
      if client_id = CLIENTID_GRBM_CP ids \<or> client_id \<in> set (CLIENTID_SESH ids) then
        (if source_id = SOC15_INTSRC_CP_END_OF_PIPE then [Signal_event pas ctx0 32]
         else if source_id = SOC15_INTSRC_SQ_INTERRUPT_MSG then
           sq_message ec env pas (drop_bit 6 (ctx1 AND 0x0c0)) (ctx0 AND 0x1000000 \<noteq> 0) (KFD_DEBUG_DOORBELL_ID ctx0)
             (ucast (KFD_DEBUG_TRAP_CODE ctx0)) (drop_bit 19 (ctx0 AND 0x780000))
             (event_interrupt_poison_consumption ids env pas source_id) (Signal_event pas (ctx0 AND 0x7fffff) 23)
         else if source_id = SOC15_INTSRC_CP_BAD_OPCODE \<and> EC_TYPE_IS_PACKET ec (KFD_DEBUG_CP_BAD_OP_ECODE ctx0)
         then snd (kfd_set_dbg_ev_from_interrupt ec env pas (KFD_DEBUG_DOORBELL_ID ctx0) (EC_MASK ec (KFD_DEBUG_CP_BAD_OP_ECODE ctx0)) None)
         else [])
      else if client_id \<in> set (CLIENTID_SDMA ids) \<or>
              client_id = CLIENTID_SDMA3_Sienna_Cichlid ids \<and> gc_version (dqm_dev (in_dqm node)) = IP_VERSION 10 3 0 then
        (if source_id = SOC15_INTSRC_SDMA_TRAP then [Signal_event pas (ctx0 AND 0xfffffff) 28]
         else if source_id = SOC15_INTSRC_SDMA_ECC then event_interrupt_poison_consumption ids env pas source_id
         else [])
      else if is_vm_client ids client_id then
        (if client_id = CLIENTID_UTCL2 ids \<and> ie_utcl2_poison env then event_interrupt_poison_consumption ids env pas client_id
         else memory_violation ec env node pas e)
      else if KFD_IRQ_IS_FENCE client_id source_id then [Close_interrupt_drain pas]
      else [])"

definition event_interrupt_wq_v11 :: "ih_ids \<Rightarrow> ec_codes \<Rightarrow> int_env \<Rightarrow> int_node \<Rightarrow> u32 list \<Rightarrow> int_call list" where
  "event_interrupt_wq_v11 ids ec env node e =
     (let source_id = SOC15_SOURCE_ID_FROM_IH_ENTRY e; client_id = SOC15_CLIENT_ID_FROM_IH_ENTRY e; pas = SOC15_PASID_FROM_IH_ENTRY e;
          ctx0 = SOC15_CONTEXT_ID0_FROM_IH_ENTRY e; ctx1 = SOC15_CONTEXT_ID1_FROM_IH_ENTRY e in
      if is_vm_fault_v11 ids client_id source_id then memory_violation ec env node pas e @ [Smi_vmfault pas]
      else if client_id = SOC21_CLIENTID_GRBM_CP ids \<or> client_id = SOC21_CLIENTID_GFX ids then
        (if source_id = SOC15_INTSRC_CP_END_OF_PIPE then [Signal_event pas ctx0 32]
         else if source_id = SOC15_INTSRC_CP_BAD_OPCODE \<and> EC_TYPE_IS_PACKET ec (KFD_CTXID0_CP_BAD_OP_ECODE ctx0)
         then snd (kfd_set_dbg_ev_from_interrupt ec env pas (KFD_DEBUG_DOORBELL_ID ctx0) (EC_MASK ec (KFD_CTXID0_CP_BAD_OP_ECODE ctx0)) None)
         else if source_id = SOC21_INTSRC_SDMA_TRAP then [Signal_event pas (ctx0 AND 0xfffffff) 28]
         else if source_id = SOC21_INTSRC_SDMA_ECC then event_interrupt_poison_consumption_v11 env pas source_id
         else if source_id = SOC15_INTSRC_SQ_INTERRUPT_MSG then
           sq_message ec env pas (drop_bit 6 (ctx1 AND 0xc0)) (drop_bit 26 (ctx0 AND 0x04000000) \<noteq> 0) (KFD_DEBUG_DOORBELL_ID ctx0)
             (ucast (KFD_CTXID0_TRAP_CODE ctx0)) (drop_bit 21 (ctx0 AND 0x01e00000))
             (event_interrupt_poison_consumption_v11 env pas source_id) (Signal_event pas (ctx0 AND 0xffffff) 24)
         else [])
      else if KFD_IRQ_IS_FENCE client_id source_id then [Close_interrupt_drain pas]
      else [])"

definition cik_event_interrupt_wq :: "int_env \<Rightarrow> u32 list \<Rightarrow> int_call list" where
  "cik_event_interrupt_wq env e =
     (let context_id = e ! 1 AND 0xfffffff; pas = cik_pasid e in
      if pas = 0 then []
      else if e ! 0 = CIK_INTSRC_CP_END_OF_PIPE then [Signal_event pas context_id 28]
      else if e ! 0 = CIK_INTSRC_SDMA_TRAP then [Signal_event pas context_id 28]
      else if e ! 0 = CIK_INTSRC_SQ_INTERRUPT_MSG then [Signal_event pas (context_id AND 0xff) 8]
      else if e ! 0 = CIK_INTSRC_CP_BAD_OPCODE then [Hw_exception_event pas]
      else if cik_is_vm_fault (e ! 0) then
        Smi_vmfault pas # Evict_pasid pas #
          (if ie_fault_empty env then []
           else [Vm_fault_event pas (if ie_fault_vmid env = cik_vmid e then Some (ie_fault_info env) else None) None])
      else [])"

definition class_interrupt_wq :: "ih_ids \<Rightarrow> ec_codes \<Rightarrow> int_env \<Rightarrow> int_node \<Rightarrow> u32 list \<Rightarrow> int_call list" where
  "class_interrupt_wq ids ec env node e =
     (case in_class node of
        event_interrupt_class_cik \<Rightarrow> cik_event_interrupt_wq env e
      | event_interrupt_class_v9 \<Rightarrow> event_interrupt_wq_v9 ids ec env node e
      | event_interrupt_class_v9_4_3 \<Rightarrow> event_interrupt_wq_v9 ids ec env node e
      | event_interrupt_class_v10 \<Rightarrow> event_interrupt_wq_v10 ids ec env node e
      | event_interrupt_class_v11 \<Rightarrow> event_interrupt_wq_v11 ids ec env node e)"

text \<open>
  \<^verbatim>\<open>interrupt_wq\<close>: the calls of all the entries it takes, and whether it queued itself again because a second was over. \<open>env\<close> and
  \<open>late\<close> give the answers for the round \<open>i\<close>.
\<close>

function interrupt_wq ::
    "ih_ids \<Rightarrow> ec_codes \<Rightarrow> (nat \<Rightarrow> int_env) \<Rightarrow> (nat \<Rightarrow> bool) \<Rightarrow> nat \<Rightarrow> int_node \<Rightarrow> int_call list \<times> bool \<times> int_node" where
  "interrupt_wq ids ec env late i node =
     (if ring_entry_words (in_class node) > KFD_MAX_RING_ENTRY_SIZE then ([], False, node)
      else case dequeue_ih_ring_entry node of
          (None, node1) \<Rightarrow> ([], False, node1)
        | (Some e, node1) \<Rightarrow>
            let cs = class_interrupt_wq ids ec (env i) node1 e in
            if late i then (cs, True, node1)
            else case interrupt_wq ids ec env late (Suc i) node1 of (cs1, again, node2) \<Rightarrow> (cs @ cs1, again, node2))"
  by pat_completeness auto
termination
  by (relation "measure (\<lambda>(ids, ec, env, late, i, node). length (ih_fifo node))")
    (auto simp: dequeue_ih_ring_entry_def kfifo_out_def ring_entry_words_def Let_def split: if_splits)

declare interrupt_wq.simps [simp del]

section \<open>Draining\<close>

text \<open>\<^verbatim>\<open>kfd_process_drain_interrupts\<close>: the entry it sends as a fence. \<^verbatim>\<open>ffs\<close> is one more than the number of the lowest bit that is set.\<close>

fun ffs_from :: "nat \<Rightarrow> nat \<Rightarrow> u32 \<Rightarrow> nat" where
  "ffs_from 0 i w = 0"
| "ffs_from (Suc n) i w = (if bit w i then Suc i else ffs_from n (Suc i) w)"

definition irq_drain_fence :: "int_node \<Rightarrow> u16 \<Rightarrow> u32 list" where
  "irq_drain_fence node pas =
     (let nid = (if gc_version (dqm_dev (in_dqm node)) = IP_VERSION 9 4 3 then of_nat (ffs_from 32 0 (interrupt_bitmap node) - 1) else 0) in
      [push_bit 8 0xff OR 0xff, 0, 0, ucast pas OR push_bit 16 nid, 0, 0, 0, 0])"

section \<open>Calls on events\<close>

text \<open>
  The events of the processes, by PASID. \<open>woken\<close> says which threads \<^verbatim>\<open>wake_up_all\<close> really woke, \<open>gpu\<close> is the id a process knows the
  device by, \<open>sigterm\<close> the module parameter.
\<close>

definition upd_process :: "u32 \<Rightarrow> (event_process \<Rightarrow> event_process) \<Rightarrow> (u32 \<rightharpoonup> event_process) \<Rightarrow> (u32 \<rightharpoonup> event_process)" where
  "upd_process pas f ps = (case ps pas of None \<Rightarrow> ps | Some p \<Rightarrow> ps(pas \<mapsto> f p))"

fun run_call ::
    "exception_codes \<Rightarrow> (waiter_ref \<Rightarrow> bool) \<Rightarrow> bool \<Rightarrow> u32 option \<Rightarrow> int_call \<Rightarrow> (u32 \<rightharpoonup> event_process) \<Rightarrow> (u32 \<rightharpoonup> event_process)" where
  "run_call c woken sigterm gpu (Signal_event pas i bits) ps = upd_process pas (kfd_signal_event_interrupt woken (unat i) bits) ps"
| "run_call c woken sigterm gpu (Hw_exception_event pas) ps = upd_process pas (\<lambda>p. snd (kfd_signal_hw_exception_event woken sigterm p)) ps"
| "run_call c woken sigterm gpu (Vm_fault_event pas info d) ps = upd_process pas (kfd_signal_vm_fault_event woken gpu info d) ps"
| "run_call c woken sigterm gpu (Poison_consumed_event pas) ps = upd_process pas (\<lambda>p. snd (kfd_signal_poison_consumed_event c woken gpu p)) ps"
| "run_call c woken sigterm gpu _ ps = ps"

definition run_calls ::
    "exception_codes \<Rightarrow> (waiter_ref \<Rightarrow> bool) \<Rightarrow> bool \<Rightarrow> u32 option \<Rightarrow> int_call list \<Rightarrow> (u32 \<rightharpoonup> event_process) \<Rightarrow> (u32 \<rightharpoonup> event_process)" where
  "run_calls c woken sigterm gpu = fold (run_call c woken sigterm gpu)"

end
