(* ===== verification/Interrupt_Properties.thy ===== *)
theory Interrupt_Properties
  imports Kfd_Interrupt Events_Properties Packet_Manager
begin

text \<open>
  What the interrupt handling guarantees: only entries of processes are queued, whole and in their order; the work queue
  handles each of them once; the end of a kernel on the GPU reaches the threads that wait for it. And where the generations differ from
  each other by mistake.
\<close>

unbundle bit_operations_syntax

section \<open>Fields of words\<close>

lemma mask_literals:
  "(0xff :: 'a::len word) = mask 8" "(0xf :: 'a word) = mask 4" "(0xffff :: 'a word) = mask 16" "(0xfff :: 'a word) = mask 12"
  by (simp_all add: mask_eq_exp_minus_1)

lemma pasid_patched:
  fixes x :: u32 and p :: u16
  shows "((x AND NOT 0xffff) OR ucast p) AND 0xffff = ucast p"
  unfolding mask_literals by (rule bit_word_eqI) (auto simp: bit_simps dest: bit_imp_le_length)

lemma cik_patched:
  fixes x vm :: u32 and p :: u16
  assumes "unat vm < 256"
  shows "drop_bit 8 (((x AND 0xff) OR push_bit 8 vm OR push_bit 16 (ucast p)) AND 0x0000ff00) = vm"
    "drop_bit 16 (((x AND 0xff) OR push_bit 8 vm OR push_bit 16 (ucast p)) AND 0xffff0000) = ucast p"
proof -
  have vm: "take_bit 8 vm = vm" using assms by (simp add: word_unat_eq_iff unsigned_take_bit_eq take_bit_nat_eq_self)
  have b: "n < 8" if "bit vm n" for n using vm that by (metis bit_take_bit_iff)
  have m: "(0x0000ff00 :: u32) = push_bit 8 (mask 8)" "(0xffff0000 :: u32) = push_bit 16 (mask 16)"
    by (simp_all add: mask_eq_exp_minus_1 push_bit_eq_mult)
  show "drop_bit 8 (((x AND 0xff) OR push_bit 8 vm OR push_bit 16 (ucast p)) AND 0x0000ff00) = vm"
    unfolding m mask_literals by (rule bit_word_eqI) (auto simp: bit_simps dest: b bit_imp_le_length)
  show "drop_bit 16 (((x AND 0xff) OR push_bit 8 vm OR push_bit 16 (ucast p)) AND 0xffff0000) = ucast p"
    unfolding m mask_literals by (rule bit_word_eqI) (auto simp: bit_simps dest: b bit_imp_le_length)
qed

lemma sq_data_decode:
  fixes d x y :: u32
  shows "KFD_CONTEXT_ID_GET_SQ_INT_DATA ((d AND 0xfff) OR push_bit 16 (d AND 0xf000) OR (x AND 0x0ffff000)) (drop_bit 16 (d AND 0xff0000) OR push_bit 8 y)
    = d AND 0xffffff"
proof -
  have m: "(0xf000 :: u32) = push_bit 12 (mask 4)" "(0xff0000 :: u32) = push_bit 16 (mask 8)" "(0x0ffff000 :: u32) = push_bit 12 (mask 16)"
    "(0xffffff :: u32) = mask 24"
    by (simp_all add: mask_eq_exp_minus_1 push_bit_eq_mult)
  show ?thesis unfolding KFD_CONTEXT_ID_GET_SQ_INT_DATA_def m mask_literals
  proof (rule bit_word_eqI)
    fix n assume "n < LENGTH(32)"
    consider "n < 12" | "12 \<le> n" "n < 16" | "16 \<le> n" "n < 24" | "24 \<le> n" by linarith
    then show "bit ((((d AND mask 12) OR push_bit 16 (d AND push_bit 12 (mask 4)) OR (x AND push_bit 12 (mask 16))) AND mask 12) OR
        (drop_bit 16 ((d AND mask 12) OR push_bit 16 (d AND push_bit 12 (mask 4)) OR (x AND push_bit 12 (mask 16))) AND push_bit 12 (mask 4)) OR
        (push_bit 16 (drop_bit 16 (d AND push_bit 16 (mask 8)) OR push_bit 8 y) AND push_bit 16 (mask 8))) n = bit (d AND mask 24) n"
      by cases (use \<open>n < LENGTH(32)\<close> in \<open>auto simp: bit_simps\<close>)
  qed
qed

section \<open>FIFOs\<close>

text \<open>The contract of a queue that may refuse an element, and what it gives for a sequence of operations.\<close>

datatype 'a fifo_op = Enq 'a | Deq

fun fifo_run :: "('a \<Rightarrow> 's \<Rightarrow> bool \<times> 's) \<Rightarrow> ('s \<Rightarrow> 'a option \<times> 's) \<Rightarrow> 'a fifo_op list \<Rightarrow> 's \<times> 'a list \<times> 'a list \<Rightarrow> 's \<times> 'a list \<times> 'a list" where
  "fifo_run enq deq [] x = x"
| "fifo_run enq deq (Enq a # ops) (s, ins, outs) =
     (case enq a s of (b, s1) \<Rightarrow> fifo_run enq deq ops (s1, if b then ins @ [a] else ins, outs))"
| "fifo_run enq deq (Deq # ops) (s, ins, outs) =
     (case deq s of (None, s1) \<Rightarrow> fifo_run enq deq ops (s1, ins, outs) | (Some a, s1) \<Rightarrow> fifo_run enq deq ops (s1, ins, outs @ [a]))"

locale lossy_fifo =
  fixes enq :: "'a \<Rightarrow> 's \<Rightarrow> bool \<times> 's" and deq :: "'s \<Rightarrow> 'a option \<times> 's" and contents :: "'s \<Rightarrow> 'a list"
    and invar :: "'s \<Rightarrow> bool" and elem :: "'a \<Rightarrow> bool"
  assumes enq_ok: "invar s \<Longrightarrow> elem a \<Longrightarrow> enq a s = (b, s') \<Longrightarrow> invar s' \<and> (if b then contents s' = contents s @ [a] else s' = s)"
    and deq_ok: "invar s \<Longrightarrow> deq s = (r, s') \<Longrightarrow>
      invar s' \<and> (case r of None \<Rightarrow> contents s = [] \<and> s' = s | Some a \<Rightarrow> contents s = a # contents s')"
begin

lemma run_order:
  assumes "fifo_run enq deq ops (s, ins, outs) = (s', ins', outs')" "invar s" "\<forall>a. Enq a \<in> set ops \<longrightarrow> elem a" "ins = outs @ contents s"
  shows "invar s' \<and> ins' = outs' @ contents s'"
  using assms
proof (induction ops arbitrary: s ins outs)
  case (Cons op ops)
  show ?case
  proof (cases op)
    case (Enq a)
    obtain b s1 where e: "enq a s = (b, s1)" by (meson surj_pair)
    note ok = enq_ok [OF Cons.prems(2) _ e]
    have "elem a" using Cons.prems(3) Enq by simp
    with ok have ok: "invar s1" "if b then contents s1 = contents s @ [a] else s1 = s" by auto
    show ?thesis
      by (rule Cons.IH [of s1 "if b then ins @ [a] else ins" outs]) (use Cons.prems Enq e ok in \<open>auto split: if_splits\<close>)
  next
    case Deq
    obtain r s1 where d: "deq s = (r, s1)" by (meson surj_pair)
    note ok = deq_ok [OF Cons.prems(2) d]
    show ?thesis
      by (rule Cons.IH [of s1 ins "case r of None \<Rightarrow> outs | Some a \<Rightarrow> outs @ [a]"])
        (use Cons.prems Deq d ok in \<open>auto split: option.splits\<close>)
  qed
qed simp

end

section \<open>The FIFO of a node\<close>

function chunks :: "nat \<Rightarrow> 'a list \<Rightarrow> 'a list list" where
  "chunks n xs = (if n = 0 \<or> length xs < n then [] else take n xs # chunks n (drop n xs))"
  by pat_completeness auto
termination
  by (relation "measure (\<lambda>(n, xs). length xs)") auto

declare chunks.simps [simp del]

lemma chunks_short [simp]: "length xs < n \<Longrightarrow> chunks n xs = []"
  by (subst chunks.simps) simp

lemma chunks_Cons: "0 < n \<Longrightarrow> length x = n \<Longrightarrow> chunks n (x @ ys) = x # chunks n ys"
  by (subst chunks.simps) simp

lemma chunks_append: "0 < n \<Longrightarrow> n dvd length xs \<Longrightarrow> chunks n (xs @ ys) = chunks n xs @ chunks n ys"
proof (induction n xs rule: chunks.induct)
  case (1 n xs)
  show ?case
  proof (cases "length xs < n")
    case True
    with 1 have "xs = []" by (metis dvd_imp_le length_greater_0_conv not_less)
    with 1 show ?thesis by simp
  next
    case False
    then have x: "chunks n (drop n xs @ ys) = chunks n (drop n xs) @ chunks n ys" using 1 by (auto simp: dvd_diff_nat)
    have "chunks n xs = take n xs # chunks n (drop n xs)" using False 1 by (subst chunks.simps) auto
    moreover have "chunks n (xs @ ys) = take n xs # chunks n (drop n xs @ ys)" using False 1 by (subst chunks.simps) auto
    ultimately show ?thesis using x by simp
  qed
qed

lemma length_chunks: "0 < n \<Longrightarrow> length (chunks n xs) = length xs div n"
proof (induction n xs rule: chunks.induct)
  case (1 n xs)
  then show ?case by (subst chunks.simps) (auto simp: le_div_geq)
qed

definition ih_entries :: "int_node \<Rightarrow> u32 list list" where
  "ih_entries node = chunks (ring_entry_words (in_class node)) (ih_fifo node)"

definition ih_ok :: "event_interrupt_class \<Rightarrow> int_node \<Rightarrow> bool" where
  "ih_ok c node \<longleftrightarrow> in_class node = c \<and> ring_entry_words c dvd length (ih_fifo node) \<and> ring_entry_words c dvd ih_fifo_size node \<and>
     length (ih_fifo node) \<le> ih_fifo_size node"

lemma ring_entry_words_pos [simp]: "0 < ring_entry_words c" "ring_entry_words c \<noteq> 0"
  by (simp_all add: ring_entry_words_def)

text \<open>An entry is stored whole or not at all, because the size of the FIFO is a multiple of it.\<close>

lemma enqueue_cases:
  assumes ok: "ih_ok c node" and l: "length e = ring_entry_words c" and q: "enqueue_ih_ring_entry e node = (b, node')"
  shows "ih_ok c node' \<and> (if b then ih_entries node' = ih_entries node @ [e] \<and> node' = node\<lparr>ih_fifo := ih_fifo node @ e\<rparr> else node' = node)"
proof -
  define n where "n = ring_entry_words c"
  have d: "n dvd ih_fifo_size node - length (ih_fifo node)" using ok by (auto simp: ih_ok_def n_def intro: dvd_diff_nat)
  consider "n \<le> ih_fifo_size node - length (ih_fifo node)" | "ih_fifo_size node = length (ih_fifo node)"
    using d ok by (metis dvd_imp_le gr0I ih_ok_def le_antisym diff_is_0_eq)
  then show ?thesis
  proof cases
    case 1
    then have "b" "node' = node\<lparr>ih_fifo := ih_fifo node @ e\<rparr>"
      using q l ok by (auto simp: enqueue_ih_ring_entry_def kfifo_in_def Let_def n_def ih_ok_def)
    with 1 l ok show ?thesis
      using chunks_append [of n "ih_fifo node" e] chunks_Cons [of n e "[]"] by (auto simp: ih_ok_def ih_entries_def n_def)
  next
    case 2
    then have "\<not> b" "node' = node"
      using q ok by (auto simp: enqueue_ih_ring_entry_def kfifo_in_def Let_def n_def ih_ok_def)
    with ok show ?thesis by simp
  qed
qed

lemma dequeue_cases:
  assumes ok: "ih_ok c node" and q: "dequeue_ih_ring_entry node = (r, node')"
  shows "ih_ok c node' \<and> (case r of None \<Rightarrow> ih_entries node = [] \<and> node' = node
    | Some e \<Rightarrow> ih_entries node = e # ih_entries node' \<and> node' = node\<lparr>ih_fifo := drop (ring_entry_words c) (ih_fifo node)\<rparr>)"
proof -
  define n where "n = ring_entry_words c"
  consider "n \<le> length (ih_fifo node)" | "ih_fifo node = []"
    using ok by (metis dvd_imp_le gr0I ih_ok_def length_0_conv n_def)
  then show ?thesis
  proof cases
    case 1
    then have r: "r = Some (take n (ih_fifo node))" "node' = node\<lparr>ih_fifo := drop n (ih_fifo node)\<rparr>"
      using q ok by (auto simp: dequeue_ih_ring_entry_def kfifo_out_def Let_def n_def ih_ok_def)
    have "chunks n (ih_fifo node) = take n (ih_fifo node) # chunks n (drop n (ih_fifo node))"
      using 1 ring_entry_words_pos(1) [of c] by (subst chunks.simps) (auto simp: n_def)
    with r ok 1 show ?thesis by (auto simp: ih_ok_def ih_entries_def n_def)
  next
    case 2
    then have "r = None" "node' = node"
      using q ok by (auto simp: dequeue_ih_ring_entry_def kfifo_out_def Let_def ih_ok_def)
    with ok 2 show ?thesis by (simp add: ih_entries_def)
  qed
qed

interpretation ih: lossy_fifo enqueue_ih_ring_entry dequeue_ih_ring_entry ih_entries "\<lambda>node. ih_ok c node \<and> ih_fifo_size node = n"
  "\<lambda>e. length e = ring_entry_words c" for c n
proof
  show "(ih_ok c s' \<and> ih_fifo_size s' = n) \<and> (if b then ih_entries s' = ih_entries s @ [a] else s' = s)"
    if "ih_ok c s \<and> ih_fifo_size s = n" "length a = ring_entry_words c" "enqueue_ih_ring_entry a s = (b, s')" for s a b s'
    using enqueue_cases [of c s a b s'] that by (auto split: if_splits)
  show "(ih_ok c s' \<and> ih_fifo_size s' = n) \<and> (case r of None \<Rightarrow> ih_entries s = [] \<and> s' = s | Some a \<Rightarrow> ih_entries s = a # ih_entries s')"
    if "ih_ok c s \<and> ih_fifo_size s = n" "dequeue_ih_ring_entry s = (r, s')" for s r s'
    using dequeue_cases [of c s r s'] that by (auto split: option.splits)
qed

section \<open>The work queue\<close>

text \<open>The handlers do not look at the FIFO.\<close>

lemma class_wq_fifo [simp]: "class_interrupt_wq ids ec env (node\<lparr>ih_fifo := q\<rparr>) e = class_interrupt_wq ids ec env node e"
  by (simp add: class_interrupt_wq_def event_interrupt_wq_v9_def event_interrupt_wq_v10_def event_interrupt_wq_v11_def
      memory_violation_def ih_exception_data_def Let_def split: event_interrupt_class.splits)

definition handled :: "ih_ids \<Rightarrow> ec_codes \<Rightarrow> (nat \<Rightarrow> int_env) \<Rightarrow> int_node \<Rightarrow> nat \<Rightarrow> nat \<Rightarrow> int_call list" where
  "handled ids ec env node i k = concat (map (\<lambda>j. class_interrupt_wq ids ec (env (i + j)) node (ih_entries node ! j)) [0..<k])"

lemma handled_Suc:
  assumes "ih_entries node = e # ih_entries node1" "\<And>env e. class_interrupt_wq ids ec env node1 e = class_interrupt_wq ids ec env node e"
  shows "handled ids ec env node i (Suc k) = class_interrupt_wq ids ec (env i) node e @ handled ids ec env node1 (Suc i) k"
proof -
  have "[0..<Suc k] = 0 # map Suc [0..<k]" by (simp add: map_Suc_upt upt_conv_Cons del: upt_Suc)
  then show ?thesis by (simp add: handled_def assms o_def del: upt_Suc)
qed

lemma interrupt_wq_outcome:
  assumes "ih_ok c node" "interrupt_wq ids ec env late i node = (cs, again, node')"
  shows "\<exists>k \<le> length (ih_entries node). cs = handled ids ec env node i k \<and> ih_entries node' = drop k (ih_entries node) \<and> ih_ok c node' \<and>
    (if again then 0 < k \<and> late (i + k - 1) else k = length (ih_entries node)) \<and> (\<forall>j. Suc j < k \<longrightarrow> \<not> late (i + j))"
  using assms
proof (induction ids ec env late i node arbitrary: cs again rule: interrupt_wq.induct)
  case (1 ids ec env late i node)
  have w: "\<not> ring_entry_words (in_class node) > KFD_MAX_RING_ENTRY_SIZE" by (simp add: ring_entry_words_def)
  obtain r node1 where d: "dequeue_ih_ring_entry node = (r, node1)" by (meson surj_pair)
  note dq = dequeue_cases [OF "1.prems"(1) d]
  show ?case
  proof (cases r)
    case None
    with d w "1.prems"(2) have "cs = []" "\<not> again" "node' = node1" by (simp_all add: interrupt_wq.simps [of ids ec env late i node])
    with None dq show ?thesis by (auto simp: handled_def)
  next
    case (Some e)
    have e: "ih_entries node = e # ih_entries node1" "ih_ok c node1" "node1 = node\<lparr>ih_fifo := drop (ring_entry_words c) (ih_fifo node)\<rparr>"
      using dq Some by auto
    have h: "handled ids ec env node i (Suc k) = class_interrupt_wq ids ec (env i) node1 e @ handled ids ec env node1 (Suc i) k" for k
      using handled_Suc [OF e(1), of ids ec env i k] by (simp add: e(3))
    show ?thesis
    proof (cases "late i")
      case True
      with d w Some "1.prems"(2) have "cs = class_interrupt_wq ids ec (env i) node1 e" "again" "node' = node1"
        by (auto simp: interrupt_wq.simps [of ids ec env late i node] Let_def)
      with e h [of 0] True show ?thesis by (intro exI [of _ "Suc 0"]) (auto simp: handled_def)
    next
      case False
      obtain cs1 where r: "interrupt_wq ids ec env late (Suc i) node1 = (cs1, again, node')"
        "cs = class_interrupt_wq ids ec (env i) node1 e @ cs1"
        using d w Some False "1.prems"(2) by (auto simp: interrupt_wq.simps [of ids ec env late i node] Let_def split: prod.splits)
      from "1.IH" [OF w d [symmetric] Some refl False e(2) r(1)] obtain k where k: "k \<le> length (ih_entries node1)"
        "cs1 = handled ids ec env node1 (Suc i) k" "ih_entries node' = drop k (ih_entries node1)" "ih_ok c node'"
        "if again then 0 < k \<and> late (Suc i + k - 1) else k = length (ih_entries node1)" "\<forall>j. Suc j < k \<longrightarrow> \<not> late (Suc i + j)"
        by auto
      have "\<not> late (i + j)" if "Suc j < Suc k" for j using that False k(6) by (cases j) auto
      with k r(2) e(1) h [of k] show ?thesis by (intro exI [of _ "Suc k"]) auto
    qed
  qed
qed

section \<open>The top half\<close>

text \<open>PASID and VMID of an entry, where the class of the device has them.\<close>

definition entry_pasid :: "event_interrupt_class \<Rightarrow> u32 list \<Rightarrow> u32" where
  "entry_pasid c e = (if c = event_interrupt_class_cik then cik_pasid e else SOC15_PASID_FROM_IH_ENTRY e)"

definition entry_vmid :: "event_interrupt_class \<Rightarrow> u32 list \<Rightarrow> u32" where
  "entry_vmid c e = (if c = event_interrupt_class_cik then cik_vmid e else SOC15_VMID_FROM_IH_ENTRY e)"

definition is_fence :: "event_interrupt_class \<Rightarrow> u32 list \<Rightarrow> bool" where
  "is_fence c e \<longleftrightarrow> c \<noteq> event_interrupt_class_cik \<and> KFD_IRQ_IS_FENCE (SOC15_CLIENT_ID_FROM_IH_ENTRY e) (SOC15_SOURCE_ID_FROM_IH_ENTRY e)"

definition entry_ok :: "int_node \<Rightarrow> u32 list \<Rightarrow> bool" where
  "entry_ok node e \<longleftrightarrow> entry_pasid (in_class node) e \<noteq> 0 \<and> (isr_vmid_ok node (entry_vmid (in_class node) e) \<or> is_fence (in_class node) e)"

text \<open>The entries a top half may patch.\<close>

definition patchable :: "event_interrupt_class \<Rightarrow> asic \<Rightarrow> u32 list \<Rightarrow> bool" where
  "patchable c chip e =
     (case c of
        event_interrupt_class_cik \<Rightarrow> cik_is_vm_fault (e ! 0) \<and> chip = CHIP_HAWAII
      | event_interrupt_class_v9 \<Rightarrow> SOC15_PASID_FROM_IH_ENTRY e = 0
      | event_interrupt_class_v9_4_3 \<Rightarrow> SOC15_PASID_FROM_IH_ENTRY e = 0
      | _ \<Rightarrow> False)"

lemmas entry_ok_defs = entry_ok_def entry_pasid_def entry_vmid_def is_fence_def patchable_def

lemma isr_v9_result:
  assumes "event_interrupt_isr_v9 ids node e = (wanted, x)" "in_class node \<in> {event_interrupt_class_v9, event_interrupt_class_v9_4_3}" "length e = 8"
  shows "case x of None \<Rightarrow> wanted \<longrightarrow> entry_ok node e \<and> SOC15_PASID_FROM_IH_ENTRY e \<noteq> 0
    | Some e' \<Rightarrow> SOC15_PASID_FROM_IH_ENTRY e = 0 \<and> length e' = 8 \<and> (wanted \<longrightarrow> entry_ok node e')"
proof (cases "SOC15_PASID_FROM_IH_ENTRY e = 0 \<and> sched_policy (in_dqm node) = KFD_SCHED_POLICY_NO_HWS")
  case True
  let ?pas = "ucast (pasid_of_vmid node (SOC15_VMID_FROM_IH_ENTRY e)) :: u32"
  let ?e = "e[3 := (e ! 3 AND NOT 0xffff) OR ?pas]"
  have p: "SOC15_PASID_FROM_IH_ENTRY ?e = ?pas" using assms(3) pasid_patched [of "e ! 3" "pasid_of_vmid node (SOC15_VMID_FROM_IH_ENTRY e)"]
    by (simp add: SOC15_PASID_FROM_IH_ENTRY_def)
  have f: "SOC15_VMID_FROM_IH_ENTRY ?e = SOC15_VMID_FROM_IH_ENTRY e" "SOC15_CLIENT_ID_FROM_IH_ENTRY ?e = SOC15_CLIENT_ID_FROM_IH_ENTRY e"
    "SOC15_SOURCE_ID_FROM_IH_ENTRY ?e = SOC15_SOURCE_ID_FROM_IH_ENTRY e" by (simp_all add: ih_entry_defs)
  from assms(1) True have "x = None \<and> \<not> wanted \<or>
      x = Some ?e \<and> (wanted \<longrightarrow> ?pas \<noteq> 0 \<and> (isr_vmid_ok node (SOC15_VMID_FROM_IH_ENTRY e) \<or>
        KFD_IRQ_IS_FENCE (SOC15_CLIENT_ID_FROM_IH_ENTRY e) (SOC15_SOURCE_ID_FROM_IH_ENTRY e)))"
    unfolding event_interrupt_isr_v9_def Let_def by (auto split: if_splits)
  then show ?thesis using True assms(2,3) p f by (auto simp: entry_ok_defs)
next
  case False
  with assms have "x = None" "wanted \<longrightarrow> SOC15_PASID_FROM_IH_ENTRY e \<noteq> 0 \<and> (isr_vmid_ok node (SOC15_VMID_FROM_IH_ENTRY e) \<or>
        KFD_IRQ_IS_FENCE (SOC15_CLIENT_ID_FROM_IH_ENTRY e) (SOC15_SOURCE_ID_FROM_IH_ENTRY e))"
    unfolding event_interrupt_isr_v9_def Let_def by (auto split: if_splits)
  with assms(2) show ?thesis by (auto simp: entry_ok_defs)
qed

lemma isr_cik_result:
  assumes "cik_event_interrupt_isr vf node e = (wanted, x)" "in_class node = event_interrupt_class_cik" "length e = 4"
    "last_vmid_kfd (dqm_dev (in_dqm node)) < 16"
  shows "case x of None \<Rightarrow> wanted \<longrightarrow> entry_ok node e \<and> \<not> (cik_is_vm_fault (e ! 0) \<and> asic_type (dqm_dev (in_dqm node)) = CHIP_HAWAII)
    | Some e' \<Rightarrow> cik_is_vm_fault (e ! 0) \<and> asic_type (dqm_dev (in_dqm node)) = CHIP_HAWAII \<and> length e' = 4 \<and> (wanted \<longrightarrow> entry_ok node e')"
proof (cases "cik_is_vm_fault (e ! 0) \<and> asic_type (dqm_dev (in_dqm node)) = CHIP_HAWAII")
  case True
  obtain vm valid pas where vf: "vf = (vm, valid, pas)" by (cases vf)
  have w: "wanted \<longleftrightarrow> valid \<and> pas \<noteq> 0 \<and> isr_vmid_ok node vm" "x = Some (e[2 := (e ! 2 AND 0xff) OR push_bit 8 vm OR push_bit 16 (ucast pas)])"
    using assms(1) True vf by (auto simp: cik_event_interrupt_isr_def)
  have "(ucast pas :: u32) \<noteq> 0" if "pas \<noteq> 0" using that by transfer simp
  with True w cik_patched [of vm "e ! 2" pas] assms(2-4) show ?thesis by (auto simp: entry_ok_defs cik_vmid_def cik_pasid_def)
next
  case False
  with assms show ?thesis by (auto simp: cik_event_interrupt_isr_def entry_ok_defs split: if_splits)
qed

lemma wanted_result:
  assumes "interrupt_is_wanted ids vf node e = (wanted, x)" "length e = ring_entry_words (in_class node)" "last_vmid_kfd (dqm_dev (in_dqm node)) < 16"
  shows "case x of None \<Rightarrow> wanted \<longrightarrow> entry_ok node e \<and> \<not> patchable (in_class node) (asic_type (dqm_dev (in_dqm node))) e
    | Some e' \<Rightarrow> patchable (in_class node) (asic_type (dqm_dev (in_dqm node))) e \<and> length e' = length e \<and> (wanted \<longrightarrow> entry_ok node e')"
proof (cases "in_class node")
  case event_interrupt_class_cik
  with isr_cik_result [of vf node e wanted x] assms show ?thesis
    by (auto simp: interrupt_is_wanted_def ring_entry_words_def patchable_def split: option.splits)
next
  case event_interrupt_class_v9
  with isr_v9_result [of ids node e wanted x] assms show ?thesis
    by (auto simp: interrupt_is_wanted_def ring_entry_words_def patchable_def split: option.splits)
next
  case event_interrupt_class_v9_4_3
  with isr_v9_result [of ids node e wanted x] assms show ?thesis
    by (auto simp: interrupt_is_wanted_def ring_entry_words_def patchable_def event_interrupt_isr_v9_4_3_def split: option.splits if_splits)
next
  case event_interrupt_class_v10
  with assms(1) show ?thesis
    by (auto simp: interrupt_is_wanted_def entry_ok_defs event_interrupt_isr_v10_def Let_def split: if_splits)
next
  case event_interrupt_class_v11
  with assms(1) show ?thesis
    by (auto simp: interrupt_is_wanted_def entry_ok_defs event_interrupt_isr_v11_def Let_def split: if_splits)
qed

definition nodes_ok :: "event_interrupt_class \<Rightarrow> asic \<Rightarrow> int_node option list \<Rightarrow> bool" where
  "nodes_ok c chip ns \<longleftrightarrow>
     (\<forall>node. Some node \<in> set ns \<longrightarrow> ih_ok c node \<and> asic_type (dqm_dev (in_dqm node)) = chip \<and> last_vmid_kfd (dqm_dev (in_dqm node)) < 16)"

lemma kgd2kfd_loop_result:
  assumes "nodes_ok c chip ns" "length e = ring_entry_words c" "patched \<noteq> None \<longrightarrow> patchable c chip e"
    "kgd2kfd_loop ids vf e i patched ns = (r, ns')"
  shows "case r of None \<Rightarrow> ns' = ns
    | Some k \<Rightarrow> \<exists>node e'. i \<le> k \<and> k - i < length ns \<and> ns ! (k - i) = Some node \<and> interrupts_active node \<and> length e' = ring_entry_words c \<and>
        entry_ok node e' \<and> ih_entries (node\<lparr>ih_fifo := ih_fifo node @ e'\<rparr>) = ih_entries node @ [e'] \<and>
        ns' = ns[k - i := Some (node\<lparr>ih_fifo := ih_fifo node @ e'\<rparr>)]"
  using assms
proof (induction ns arbitrary: i patched r ns')
  case (Cons n ns)
  show ?case
  proof (cases n)
    case None
    with Cons.prems show ?thesis by auto
  next
    case (Some node)
    have node: "ih_ok c node" "asic_type (dqm_dev (in_dqm node)) = chip" "last_vmid_kfd (dqm_dev (in_dqm node)) < 16" "nodes_ok c chip ns"
      using Cons.prems(1) Some by (auto simp: nodes_ok_def)
    have c: "in_class node = c" using node(1) by (simp add: ih_ok_def)
    obtain wanted x where w: "(if interrupts_active node then interrupt_is_wanted ids vf node e else (False, None)) = (wanted, x)"
      by (meson surj_pair)
    define p1 where "p1 = (case x of Some e' \<Rightarrow> Some e' | None \<Rightarrow> patched)"
    define e' where "e' = (case p1 of Some e' \<Rightarrow> e' | None \<Rightarrow> e)"
    have isr: "case x of None \<Rightarrow> wanted \<longrightarrow> interrupts_active node \<and> entry_ok node e \<and> \<not> patchable c chip e
      | Some e' \<Rightarrow> patchable c chip e \<and> length e' = length e \<and> (wanted \<longrightarrow> interrupts_active node \<and> entry_ok node e')"
      using w wanted_result [of ids vf node e wanted x] Cons.prems(2) node(2,3) c by (auto split: if_splits option.splits)
    have p1: "p1 \<noteq> None \<longrightarrow> patchable c chip e" using isr Cons.prems(3) by (auto simp: p1_def split: option.splits)
    have ok: "interrupts_active node \<and> entry_ok node e' \<and> length e' = ring_entry_words c" if wanted
      using isr that Cons.prems(2,3) by (auto simp: p1_def e'_def split: option.splits)
    obtain b node1 where q: "(if wanted then enqueue_ih_ring_entry e' node else (False, node)) = (b, node1)" by (meson surj_pair)
    have res: "(if b then (Some i, Some node1 # ns) else case kgd2kfd_loop ids vf e (Suc i) p1 ns of (r, ns1) \<Rightarrow> (r, Some node1 # ns1)) = (r, ns')"
      using Cons.prems(4) unfolding Some kgd2kfd_loop.simps w Let_def prod.case p1_def [symmetric] e'_def [symmetric] q .
    show ?thesis
    proof (cases b)
      case True
      then have q': "wanted" "enqueue_ih_ring_entry e' node = (True, node1)" using q by (auto split: if_splits)
      from enqueue_cases [OF node(1) _ q'(2)] ok [OF q'(1)] have "ih_entries node1 = ih_entries node @ [e'] \<and> node1 = node\<lparr>ih_fifo := ih_fifo node @ e'\<rparr>"
        by metis
      with res True ok [OF q'(1)] Some show ?thesis by auto
    next
      case False
      then have n1: "node1 = node" using q enqueue_cases [OF node(1), of e' b node1] ok by (auto split: if_splits)
      obtain ns1 where l: "kgd2kfd_loop ids vf e (Suc i) p1 ns = (r, ns1)" "ns' = Some node # ns1"
        using res False n1 by (auto split: prod.splits)
      from Cons.IH [OF node(4) Cons.prems(2) p1 l(1)] show ?thesis
      proof (cases r)
        case (Some k)
        with Cons.IH [OF node(4) Cons.prems(2) p1 l(1)] obtain node2 e2 where k: "Suc i \<le> k" "k - Suc i < length ns" "ns ! (k - Suc i) = Some node2"
          "interrupts_active node2" "length e2 = ring_entry_words c" "entry_ok node2 e2"
          "ih_entries (node2\<lparr>ih_fifo := ih_fifo node2 @ e2\<rparr>) = ih_entries node2 @ [e2]"
          "ns1 = ns[k - Suc i := Some (node2\<lparr>ih_fifo := ih_fifo node2 @ e2\<rparr>)]"
          by auto
        have "k - i = Suc (k - Suc i)" using k(1) by simp
        with k l(2) Some \<open>n = Some node\<close> show ?thesis by auto
      qed (use l(2) \<open>n = Some node\<close> in simp)
    qed
  qed
qed simp

section \<open>Signals\<close>

text \<open>A full event id finds its event without a search.\<close>

lemma exact_interrupt:
  assumes "events_reachable (p, ph)" "event_heap p a = Some ev" "is_signal_type (ev_type ev)" "slot_at p (event_id ev) \<noteq> UNSIGNALED_EVENT_SLOT"
    "event_id ev < event_limit p"
  shows "kfd_signal_event_interrupt woken (event_id ev) 32 p =
    (if slot_at p (event_id ev) \<noteq> UNSIGNALED_EVENT_SLOT then set_event_from_interrupt woken (lookup_event_by_id p (event_id ev)) p else p)"
    "hit p (event_id ev) a"
proof -
  note ids = reachable_invs(2) [OF assms(1)]
  have l: "lookup_event_by_id p (event_id ev) = Some a" using idr_lookup_iff [OF ids] assms(2) by blast
  obtain pg where "signal_page p = Some pg" using ids_slot [OF ids assms(2,3)] .
  with l assms(4,5) show "kfd_signal_event_interrupt woken (event_id ev) 32 p =
      (if slot_at p (event_id ev) \<noteq> UNSIGNALED_EVENT_SLOT then set_event_from_interrupt woken (lookup_event_by_id p (event_id ev)) p else p)"
    by (simp add: kfd_signal_event_interrupt_def lookup_signaled_event_by_partial_id_def lookup_event_by_id_def)
  show "hit p (event_id ev) a" using assms(2-4) by (auto simp: hit_def)
qed

section \<open>An example\<close>

definition ids_example :: ih_ids where
  "ids_example = \<lparr>CLIENTID_GRBM_CP = 0x14, CLIENTID_SDMA = [8, 9], CLIENTID_SDMA3_Sienna_Cichlid = 0x1f, CLIENTID_VMC = 0x12,
     CLIENTID_VMC1 = 0x1d, CLIENTID_UTCL2 = 0x1b, CLIENTID_SESH = [0xa, 0xb, 0xc, 0xd], SOC21_CLIENTID_VMC = 0x0a,
     SOC21_CLIENTID_GFX = 0x0c, SOC21_CLIENTID_GRBM_CP = 0x14, UTCL2_SRCID_FAULT = 0\<rparr>"

definition ec_example :: ec_codes where
  "ec_example = \<lparr>EC_MASK = (\<lambda>c. push_bit (unat c - 1) 1), EC_MASK_QUEUE = 0xffff, EC_DEVICE_MEMORY_VIOLATION = 0x22, EC_TYPE_IS_PACKET = (\<lambda>_. False)\<rparr>"

definition exc_example :: exception_codes where
  "exc_example = \<lparr>KFD_HW_EXCEPTION_ECC = 1, KFD_HW_EXCEPTION_GPU_HANG = 0, KFD_MEM_ERR_SRAM_ECC = 1, KFD_MEM_ERR_POISON_CONSUMED = 2\<rparr>"

definition env_example :: int_env where
  "env_example = \<lparr>ie_process = True, ie_poison = False, ie_evict = OK, ie_reset = None, ie_utcl2_poison = False, ie_dbg_raise = False,
     ie_runtime_enabled = False, ie_queue_found = False, ie_fault_info = \<lparr>page_addr = 0, prot_valid = False, prot_exec = False,
     prot_write = False\<rparr>, ie_fault_vmid = 0, ie_fault_empty = True\<rparr>"

definition fresh_node :: "event_interrupt_class \<Rightarrow> int_node" where
  "fresh_node c = \<lparr>in_dqm = dqm_example, in_class = c, in_gpu_id = 1, interrupt_bitmap = 1, mec_fw_version = 0,
     no_queue_eviction_on_vm_fault = False, interrupts_active = False, ih_fifo = [], ih_fifo_size = 0\<rparr>"

definition node_ready :: "event_interrupt_class \<Rightarrow> int_node" where
  "node_ready c = snd (kfd_interrupt_init OK False True (fresh_node c))"

text \<open>The end of a kernel of the process 0x8001 in VMID 8, with the event 1.\<close>

definition eop_entry :: "u32 list" where
  "eop_entry = [0x0800B514, 0, 0, 0x8001, 1, 0, 0, 0]"

definition example_run :: "int_node \<times> u32 list list \<times> u32 list list" where
  "example_run = fifo_run enqueue_ih_ring_entry dequeue_ih_ring_entry [Enq eop_entry, Deq, Enq eop_entry] (node_ready event_interrupt_class_v9, [], [])"

definition node_full :: int_node where
  "node_full = (node_ready event_interrupt_class_v9)\<lparr>ih_fifo := eop_entry @ eop_entry\<rparr>"

lemmas example_node_defs = node_ready_def fresh_node_def kfd_interrupt_init_def

lemma eop_entry_length [simp]: "length eop_entry = 8"
  by (simp add: eop_entry_def)

lemma node_ready_ok: "ih_ok c (node_ready c)" "ih_entries (node_ready c) = []" "interrupts_active (node_ready c)" "in_class (node_ready c) = c"
  "in_dqm (node_ready c) = dqm_example" "ih_fifo (node_ready c) = []" "0 < ih_fifo_size (node_ready c)"
  by (simp_all add: example_node_defs ih_ok_def ih_entries_def)

section \<open>Properties\<close>

text \<open>
  C10. The FIFO of a node: from \<^verbatim>\<open>kfd_interrupt_init\<close> on, whatever the sequence of calls, the entries that
  \<^verbatim>\<open>dequeue_ih_ring_entry\<close> gave are, in their order and whole, the first of those that \<^verbatim>\<open>enqueue_ih_ring_entry\<close> accepted; the rest is in the FIFO.
\<close>

theorem ih_fifo_in_order:
  assumes "kfd_interrupt_init fifo have_wq wq_ok node = (OK, node1)" "\<forall>e. Enq e \<in> set ops \<longrightarrow> length e = ring_entry_words (in_class node)"
    "fifo_run enqueue_ih_ring_entry dequeue_ih_ring_entry ops (node1, [], []) = (node2, accepted, given)"
  shows "accepted = given @ ih_entries node2 \<and> length (ih_entries node2) \<le> KFD_IH_NUM_ENTRIES"
proof -
  let ?c = "in_class node" and ?n = "KFD_IH_NUM_ENTRIES * ring_entry_words (in_class node)"
  have "ih_ok ?c node1 \<and> ih_fifo_size node1 = ?n" and e: "[] = [] @ ih_entries node1"
    using assms(1) by (auto simp: kfd_interrupt_init_def ih_ok_def ih_entries_def split: if_splits)
  from ih.run_order [OF assms(3) this(1) assms(2) e] have "ih_ok ?c node2" "ih_fifo_size node2 = ?n" and o: "accepted = given @ ih_entries node2"
    by auto
  then have "length (ih_fifo node2) \<le> ?n" "length (ih_entries node2) = length (ih_fifo node2) div ring_entry_words ?c"
    by (auto simp: ih_ok_def ih_entries_def length_chunks)
  with div_le_mono [of "length (ih_fifo node2)" ?n "ring_entry_words ?c"] o show ?thesis by simp
qed

theorem ih_fifo_in_order_witness:
  "fst (snd example_run) = snd (snd example_run) @ ih_entries (fst example_run)"
proof -
  have "kfd_interrupt_init OK False True (fresh_node event_interrupt_class_v9) = (OK, node_ready event_interrupt_class_v9)"
    by (simp add: example_node_defs)
  moreover have "\<forall>e. Enq e \<in> set [Enq eop_entry, Deq, Enq eop_entry] \<longrightarrow> length e = ring_entry_words (in_class (fresh_node event_interrupt_class_v9))"
    by (simp add: eop_entry_def fresh_node_def ring_entry_words_def)
  moreover have "fifo_run enqueue_ih_ring_entry dequeue_ih_ring_entry [Enq eop_entry, Deq, Enq eop_entry] (node_ready event_interrupt_class_v9, [], []) =
      (fst example_run, fst (snd example_run), snd (snd example_run))"
    by (simp add: example_run_def)
  ultimately show ?thesis by (rule ih_fifo_in_order [THEN conjunct1])
qed

text \<open>
  C11. The work queue ends. It handles the entries of the FIFO one after the other, each once; what it does not handle is still in the FIFO. It leaves
  entries only when a second has passed, after at least one entry, and then it has queued itself again.
\<close>

theorem interrupt_wq_handles_in_order:
  assumes "ih_ok (in_class node) node" "interrupt_wq ids ec env late 0 node = (cs, again, node')"
  shows "\<exists>k \<le> length (ih_entries node). cs = concat (map (\<lambda>j. class_interrupt_wq ids ec (env j) node (ih_entries node ! j)) [0..<k]) \<and>
    ih_entries node' = drop k (ih_entries node) \<and> (if again then 0 < k \<and> late (k - 1) else k = length (ih_entries node)) \<and>
    (\<forall>j. Suc j < k \<longrightarrow> \<not> late j)"
  using interrupt_wq_outcome [OF assms] by (auto simp: handled_def)

theorem interrupt_wq_handles_in_order_witness:
  "\<exists>k \<le> 2. fst (interrupt_wq ids_example ec_example (\<lambda>_. env_example) (\<lambda>i. i = 0) 0 node_full) =
     concat (map (\<lambda>j. class_interrupt_wq ids_example ec_example env_example node_full (ih_entries node_full ! j)) [0..<k])"
proof -
  have ok: "ih_ok (in_class node_full) node_full"
    by (simp add: node_full_def example_node_defs ih_ok_def ring_entry_words_def)
  have l: "length (ih_entries node_full) = 2"
    by (simp add: node_full_def example_node_defs ih_entries_def length_chunks ring_entry_words_def)
  obtain cs again node' where r: "interrupt_wq ids_example ec_example (\<lambda>_. env_example) (\<lambda>i. i = 0) 0 node_full = (cs, again, node')"
    by (metis surj_pair)
  show ?thesis using interrupt_wq_handles_in_order [OF ok r] unfolding l r fst_conv by blast
qed

text \<open>
  C9. What the top half puts into a FIFO: at most one node takes the entry, at the end of its FIFO, and nothing else changes. The
  entry, as it is stored, has a PASID, and a VMID of the driver unless it is the fence of a drain. This holds for all generations, with the PASID
  patched in without the hardware scheduler and the fault registers of Hawaii.
\<close>

theorem kgd2kfd_queues_valid_entry:
  assumes "nodes_ok c chip ns" "length e = ring_entry_words c" "kgd2kfd_interrupt ids vf init_complete e ns = (r, ns')"
  shows "case r of None \<Rightarrow> ns' = ns
    | Some k \<Rightarrow> \<exists>node e'. k < length ns \<and> ns ! k = Some node \<and> interrupts_active node \<and> entry_ok node e' \<and>
        ih_entries (node\<lparr>ih_fifo := ih_fifo node @ e'\<rparr>) = ih_entries node @ [e'] \<and> ns' = ns[k := Some (node\<lparr>ih_fifo := ih_fifo node @ e'\<rparr>)]"
proof (cases init_complete)
  case True
  with assms(3) have l: "kgd2kfd_loop ids vf e 0 None ns = (r, ns')" by (simp add: kgd2kfd_interrupt_def)
  have "(None :: u32 list option) \<noteq> None \<longrightarrow> patchable c chip e" by simp
  from kgd2kfd_loop_result [OF assms(1,2) this l] show ?thesis by (cases r) auto
qed (use assms(3) in \<open>simp add: kgd2kfd_interrupt_def\<close>)

theorem kgd2kfd_queues_valid_entry_witness:
  "\<exists>node e'. node_ready event_interrupt_class_v9 = node \<and> entry_ok node e' \<and>
     snd (kgd2kfd_interrupt ids_example (0, False, 0) True eop_entry [Some (node_ready event_interrupt_class_v9)]) = [Some (node\<lparr>ih_fifo := ih_fifo node @ e'\<rparr>)]"
proof -
  let ?ns = "[Some (node_ready event_interrupt_class_v9)]"
  have ok: "nodes_ok event_interrupt_class_v9 CHIP_OTHER ?ns"
    using node_ready_ok [of event_interrupt_class_v9] by (simp add: nodes_ok_def dqm_example_def node_example_def)
  have l: "length eop_entry = ring_entry_words event_interrupt_class_v9" by (simp add: eop_entry_def ring_entry_words_def)
  obtain r ns' where k: "kgd2kfd_interrupt ids_example (0, False, 0) True eop_entry ?ns = (r, ns')" by (metis surj_pair)
  then have "r = Some 0"
    by (simp add: kgd2kfd_interrupt_def example_node_defs interrupt_is_wanted_def event_interrupt_isr_v9_def eop_entry_def ih_entry_defs
        ids_example_def soc15_client_wanted_def KFD_IRQ_IS_FENCE_def dqm_example_def node_example_def enqueue_ih_ring_entry_def
        kfifo_in_def ring_entry_words_def)
  with kgd2kfd_queues_valid_entry [OF ok l k] k show ?thesis by auto
qed

text \<open>A thread that finds all its events activated, or one destroyed, ends its wait whichever way it waits.\<close>

lemma all_activated_ends_wait:
  assumes "\<forall>k < length ws. w_event (ws ! k) = None \<or> activated (ws ! k)"
  shows "test_event_condition True ws \<noteq> WAIT_RESULT_TIMEOUT"
proof -
  have "\<forall>w \<in> set ws. w_event w = None \<or> activated w" using assms by (metis in_set_conv_nth)
  then show ?thesis by (auto simp: test_event_condition_def test_loop_all)
qed

text \<open>
  C8. The end of a kernel reaches the thread that waits for it. On a device with one node of generation 9 or 10 whose FIFO is empty, an
  end-of-pipe interrupt of the graphics client with the id of an event of the process whose slot the GPU has set is taken by the top
  half; the work queue empties the FIFO, clears the slot and activates every waiter for the event. A thread that waits for any of
  its events finds its wait ended the next time it looks, and so does a thread that waits for all of them when the others are
  activated already.
\<close>

theorem end_of_pipe_ends_wait:
  assumes "events_reachable (p, ph)" "ph t = Polling all" "j < length (waiters p t)" "w_event (waiters p t ! j) = Some a"
    "event_heap p a = Some ev" "is_signal_type (ev_type ev)" "slot_at p (event_id ev) \<noteq> UNSIGNALED_EVENT_SLOT"
    "event_id ev < event_limit p" "event_limit p < 2 ^ 32"
    and node: "in_class node = event_interrupt_class_v9 \<or> in_class node = event_interrupt_class_v10" "ih_ok (in_class node) node" "interrupts_active node"
      "ih_fifo node = []" "0 < ih_fifo_size node"
    and entry: "length e = 8" "SOC15_CLIENT_ID_FROM_IH_ENTRY e = CLIENTID_GRBM_CP ids" "SOC15_SOURCE_ID_FROM_IH_ENTRY e = SOC15_INTSRC_CP_END_OF_PIPE"
      "isr_vmid_ok node (SOC15_VMID_FROM_IH_ENTRY e)" "SOC15_PASID_FROM_IH_ENTRY e = pas" "pas \<noteq> 0"
      "SOC15_CONTEXT_ID0_FROM_IH_ENTRY e = of_nat (event_id ev)"
    and "ps pas = Some p"
  shows "\<exists>node1 cs again node2 q. kgd2kfd_interrupt ids vf True e [Some node] = (Some 0, [Some node1]) \<and>
    interrupt_wq ids ec env late 0 node1 = (cs, again, node2) \<and> ih_fifo node2 = [] \<and> run_calls c woken sigterm gpu cs ps pas = Some q \<and>
    slot_at q (event_id ev) = UNSIGNALED_EVENT_SLOT \<and> activated (waiters q t ! j) \<and>
    ((all \<longrightarrow> (\<forall>k < length (waiters p t). k \<noteq> j \<longrightarrow> activated (waiters p t ! k))) \<longrightarrow>
     wait_poll False False expired t all q \<in> {Some (OK, WAIT_RESULT_COMPLETE), Some (OK, WAIT_RESULT_FAIL)})"
proof -
  let ?i = "event_id ev" and ?c = "in_class node"
  have w: "ring_entry_words ?c = 8" using node(1) by (auto simp: ring_entry_words_def)
  have i0: "?i \<noteq> 0" using idr_lookup_0 [OF reachable_invs(2) [OF assms(1)]] idr_lookup_iff [OF reachable_invs(2) [OF assms(1)], of 0 a] assms(5) by auto
  have ui: "unat (of_nat ?i :: u32) = ?i" using assms(8,9) by (simp add: unat_of_nat take_bit_nat_eq_self)
  then have "(of_nat ?i :: u32) \<noteq> 0" using i0 by (metis unat_0)
  with node(1) entry have isr: "interrupt_is_wanted ids vf node e = (True, None)"
    by (auto simp: interrupt_is_wanted_def event_interrupt_isr_v9_def event_interrupt_isr_v10_def soc15_client_wanted_def KFD_IRQ_IS_FENCE_def Let_def)
  let ?node1 = "node\<lparr>ih_fifo := e\<rparr>"
  have "8 \<le> ih_fifo_size node" using node(2,5) w by (auto simp: ih_ok_def dest: dvd_imp_le)
  then have "enqueue_ih_ring_entry e node = (True, ?node1)" using node(4) entry(1) w by (simp add: enqueue_ih_ring_entry_def kfifo_in_def)
  with isr node(3) have k: "kgd2kfd_interrupt ids vf True e [Some node] = (Some 0, [Some ?node1])" by (simp add: kgd2kfd_interrupt_def)
  obtain cs again node2 where r: "interrupt_wq ids ec env late 0 ?node1 = (cs, again, node2)" by (metis surj_pair)
  have ok: "ih_ok ?c ?node1" using node(2,4) \<open>8 \<le> ih_fifo_size node\<close> entry(1) w by (simp add: ih_ok_def)
  have en: "ih_entries ?node1 = [e]" using chunks_Cons [of 8 e "[]"] entry(1) w by (simp add: ih_entries_def)
  have "class_interrupt_wq ids ec (env 0) ?node1 e = [Signal_event pas (of_nat ?i) 32]"
    using node(1) entry by (auto simp: class_interrupt_wq_def event_interrupt_wq_v9_def event_interrupt_wq_v10_def Let_def)
  with interrupt_wq_outcome [OF ok r] en have cs: "cs = [Signal_event pas (of_nat ?i) 32]" "ih_entries node2 = []" "ih_ok ?c node2"
    by (auto simp: handled_def le_Suc_eq split: if_splits)
  have "ih_fifo node2 = []" using cs(2,3) w length_chunks [of 8 "ih_fifo node2"] by (auto simp: ih_ok_def ih_entries_def dvd_imp_le)
  define q where "q = kfd_signal_event_interrupt woken ?i 32 p"
  have run: "run_calls c woken sigterm gpu cs ps pas = Some q"
    using assms(22) by (simp add: run_calls_def cs(1) upd_process_def ui q_def)
  note x = exact_interrupt(1) [OF assms(1,5-8), of woken, folded q_def] exact_interrupt(2) [OF assms(1,5-8)]
  note round = search_round [OF reachable_invs(2) [OF assms(1)] x(1)]
  have wf: "waits_for p (t, j) a" using assms(3,4) by (simp add: waits_for_def)
  have "slot_at q ?i = UNSIGNALED_EVENT_SLOT" using round(2) [of ?i] x(2) by auto
  moreover have act: "is_activated q (t, j)" using round(5) [OF reachable_invs(3) [OF assms(1)] x(2) wf] .
  have "waits_for q (t, j) a" using round(3) wf by simp
  then have jq: "j < length (waiters q t)" by (simp add: waits_for_def)
  have "wait_poll False False expired t all q \<in> {Some (OK, WAIT_RESULT_COMPLETE), Some (OK, WAIT_RESULT_FAIL)}"
    if h: "all \<longrightarrow> (\<forall>k < length (waiters p t). k \<noteq> j \<longrightarrow> activated (waiters p t ! k))"
  proof -
    have "test_event_condition all (waiters q t) \<noteq> WAIT_RESULT_TIMEOUT"
    proof (cases all)
      case True
      have "w_event (waiters q t ! k) = None \<or> activated (waiters q t ! k)" if k: "k < length (waiters q t)" for k
      proof (cases "w_event (waiters q t ! k)")
        case (Some b)
        then have "waits_for p (t, k) b" using k round(3) [of "(t, k)" b] by (simp add: waits_for_def)
        moreover from this have "k = j \<or> is_activated p (t, k)" using h True by (auto simp: waits_for_def is_activated_def)
        ultimately show ?thesis using round(4) [of "(t, k)" b] act by (auto simp: is_activated_def)
      qed simp
      then show ?thesis using True all_activated_ends_wait [of "waiters q t"] by simp
    next
      case False
      then show ?thesis using activated_ends_wait [OF jq] act by (simp add: is_activated_def)
    qed
    then show ?thesis by (cases "test_event_condition all (waiters q t)") (simp_all add: wait_poll_def)
  qed
  ultimately show ?thesis using k r run act \<open>ih_fifo node2 = []\<close> by (auto simp: is_activated_def)
qed

theorem end_of_pipe_ends_wait_witness:
  "\<exists>node1 cs again node2 q.
     kgd2kfd_interrupt ids_example (0, False, 0) True eop_entry [Some (node_ready event_interrupt_class_v10)] = (Some 0, [Some node1]) \<and>
     interrupt_wq ids_example ec_example (\<lambda>_. env_example) (\<lambda>_. False) 0 node1 = (cs, again, node2) \<and>
     run_calls exc_example (\<lambda>_. True) False (Some 1) cs [0x8001 \<mapsto> set_slot 1 5 example_waiting] 0x8001 = Some q \<and>
     wait_poll False False False 7 False q \<in> {Some (OK, WAIT_RESULT_COMPLETE), Some (OK, WAIT_RESULT_FAIL)}"
proof -
  let ?p = "set_slot 1 5 example_waiting" and ?ev = "the (event_heap (set_slot 1 5 example_waiting) 100)"
  have "event_heap ?p 100 \<noteq> None" by code_simp
  then have ev: "event_heap ?p 100 = Some ?ev" by simp
  have w: "0 < length (waiters ?p 7)" "w_event (waiters ?p 7 ! 0) = Some 100" "is_signal_type (ev_type ?ev)"
    "slot_at ?p (event_id ?ev) \<noteq> UNSIGNALED_EVENT_SLOT" "event_id ?ev < event_limit ?p" "event_limit ?p = 512" "event_id ?ev = 1"
    by code_simp+
  have lim: "event_limit ?p < 2 ^ 32" unfolding w(6) by simp
  have ph: "((\<lambda>_. Idle)(7 := Polling False)) 7 = Polling False" by simp
  note r = end_of_pipe_ends_wait [OF ev_step [OF example_waiting_reachable step_op [OF op_gpu_write]] ph w(1,2) ev w(3-5) lim]
  let ?node = "node_ready event_interrupt_class_v10"
  have node: "in_class ?node = event_interrupt_class_v9 \<or> in_class ?node = event_interrupt_class_v10" "ih_ok (in_class ?node) ?node"
    using node_ready_ok [of event_interrupt_class_v10] by simp_all
  have e: "SOC15_CLIENT_ID_FROM_IH_ENTRY eop_entry = CLIENTID_GRBM_CP ids_example" "SOC15_SOURCE_ID_FROM_IH_ENTRY eop_entry = SOC15_INTSRC_CP_END_OF_PIPE"
    "isr_vmid_ok ?node (SOC15_VMID_FROM_IH_ENTRY eop_entry)" "SOC15_PASID_FROM_IH_ENTRY eop_entry = 0x8001"
    "SOC15_CONTEXT_ID0_FROM_IH_ENTRY eop_entry = of_nat (event_id ?ev)"
    by (simp_all only: w(7)) (simp_all add: node_ready_ok eop_entry_def ih_entry_defs ids_example_def dqm_example_def node_example_def)
  have "(0x8001 :: u32) \<noteq> 0" "[0x8001 \<mapsto> ?p] (0x8001 :: u32) = Some ?p" by simp_all
  from r [where ps = "[0x8001 \<mapsto> ?p]", OF node node_ready_ok(3,6,7) eop_entry_length e(1-4) this(1) e(5) this(2)] show ?thesis by blast
qed

text \<open>
  C12. Poison consumed by a shader: the generations 9 and 10 handle it by evicting the process, and reset the GPU only if that fails. On
  generation 10 the handler is given the source id instead of the client id, so that it never finds the client: it never evicts
  and always asks for the reset.
\<close>

theorem v10_poison_never_evicts:
  assumes "SOC15_INTSRC_SQ_INTERRUPT_MSG \<notin> set (CLIENTID_SESH ids)" "SOC15_INTSRC_SQ_INTERRUPT_MSG \<noteq> CLIENTID_UTCL2 ids"
    and v10: "SOC15_CLIENT_ID_FROM_IH_ENTRY e \<in> set (CLIENTID_SESH ids)" "SOC15_SOURCE_ID_FROM_IH_ENTRY e = SOC15_INTSRC_SQ_INTERRUPT_MSG"
      "drop_bit 6 (SOC15_CONTEXT_ID1_FROM_IH_ENTRY e AND 0x0c0) = SQ_INTERRUPT_WORD_ENCODING_ERROR"
      "sq_error_is_poison (drop_bit 19 (SOC15_CONTEXT_ID0_FROM_IH_ENTRY e AND 0x780000))"
    and v9: "SOC15_CLIENT_ID_FROM_IH_ENTRY f \<in> set (CLIENTID_SESH ids)" "SOC15_SOURCE_ID_FROM_IH_ENTRY f = SOC15_INTSRC_SQ_INTERRUPT_MSG"
      "drop_bit 26 (SOC15_CONTEXT_ID0_FROM_IH_ENTRY f AND 0x0c000000) = SQ_INTERRUPT_WORD_ENCODING_ERROR"
      "sq_error_is_poison (drop_bit 20 (KFD_CONTEXT_ID_GET_SQ_INT_DATA (SOC15_CONTEXT_ID0_FROM_IH_ENTRY f) (SOC15_CONTEXT_ID1_FROM_IH_ENTRY f) AND 0xF00000))"
    and "SOC15_PASID_FROM_IH_ENTRY e = pas" "SOC15_PASID_FROM_IH_ENTRY f = pas" "ie_process env" "\<not> ie_poison env"
  shows "event_interrupt_wq_v10 ids ec env node e = [Set_poison pas, Poison_consumed_event pas, Ras_poison_consumption_handler True] \<and>
    event_interrupt_wq_v9 ids ec env node f = [Set_poison pas, Evict_pasid pas, Poison_consumed_event pas, Ras_poison_consumption_handler (ie_evict env \<noteq> OK)]"
proof
  show "event_interrupt_wq_v10 ids ec env node e = [Set_poison pas, Poison_consumed_event pas, Ras_poison_consumption_handler True]"
    using assms(1,2) v10 assms(11-14)
    by (simp add: event_interrupt_wq_v10_def sq_message_def event_interrupt_poison_consumption_def poison_calls_def)
  show "event_interrupt_wq_v9 ids ec env node f = [Set_poison pas, Evict_pasid pas, Poison_consumed_event pas, Ras_poison_consumption_handler (ie_evict env \<noteq> OK)]"
    using v9 assms(11-14) by (simp add: event_interrupt_wq_v9_def sq_message_def event_interrupt_poison_consumption_def poison_calls_def)
qed

theorem v10_poison_never_evicts_witness:
  "Evict_pasid 0x8001 \<notin> set (event_interrupt_wq_v10 ids_example ec_example env_example (node_ready event_interrupt_class_v10) [0x0800EF0A, 0, 0, 0x8001, 0, 0x80, 0, 0]) \<and>
   Evict_pasid 0x8001 \<in> set (event_interrupt_wq_v9 ids_example ec_example env_example (node_ready event_interrupt_class_v10) [0x0800EF0A, 0, 0, 0x8001, 0x08000000, 0, 0, 0])"
  using v10_poison_never_evicts [where ids = ids_example and e = "[0x0800EF0A, 0, 0, 0x8001, 0, 0x80, 0, 0]" and
      f = "[0x0800EF0A, 0, 0, 0x8001, 0x08000000, 0, 0, 0]" and pas = "0x8001" and env = env_example and ec = ec_example and
      node = "node_ready event_interrupt_class_v10"]
  by (simp add: ids_example_def ih_entry_defs sq_error_is_poison_def KFD_CONTEXT_ID_GET_SQ_INT_DATA_def env_example_def)

text \<open>
  C13. The fence of a drain: \<^verbatim>\<open>kfd_process_drain_interrupts\<close> sends an entry to its own node and waits for it to come out of the work queue. The
  top halves of the generations 9 and 11 take it. Those of generation 10 and of 9.4.3, whose VMIDs do not include 0, drop it, so that nothing
  ends the wait.
\<close>

theorem drain_fence_lost:
  assumes "pas \<noteq> 0" "\<not> soc15_client_wanted ids 0xff" "\<not> bit (compute_vmid_bitmap (dqm_dev (in_dqm node))) 0"
  shows "fst (event_interrupt_isr_v9 ids node (irq_drain_fence node pas)) \<and> fst (event_interrupt_isr_v11 ids node (irq_drain_fence node pas)) \<and>
    \<not> fst (event_interrupt_isr_v10 ids node (irq_drain_fence node pas)) \<and> \<not> fst (event_interrupt_isr_v9_4_3 ids node (irq_drain_fence node pas))"
proof -
  let ?e = "irq_drain_fence node pas"
  have f: "SOC15_CLIENT_ID_FROM_IH_ENTRY ?e = 0xff" "SOC15_SOURCE_ID_FROM_IH_ENTRY ?e = 0xff" "SOC15_VMID_FROM_IH_ENTRY ?e = 0"
    by (simp_all add: irq_drain_fence_def ih_entry_defs Let_def)
  have "(ucast pas OR push_bit 16 x) AND 0xffff = (ucast pas :: u32)" for x
    unfolding mask_literals by (rule bit_word_eqI) (auto simp: bit_simps dest: bit_imp_le_length)
  then have "SOC15_PASID_FROM_IH_ENTRY ?e = ucast pas" by (simp add: irq_drain_fence_def ih_entry_defs Let_def)
  moreover have "(ucast pas :: u32) \<noteq> 0" using assms(1) by transfer simp
  ultimately have p: "SOC15_PASID_FROM_IH_ENTRY ?e \<noteq> 0" by simp
  have v: "compute_vmid_bitmap (dqm_dev (in_dqm node)) AND 1 = 0" using assms(3) unfolding bit_0 and_one_eq by (simp only: not_not even_iff_mod_2_eq_zero)
  show ?thesis
  proof (intro conjI)
    show "fst (event_interrupt_isr_v9 ids node ?e)" using f p by (simp add: event_interrupt_isr_v9_def KFD_IRQ_IS_FENCE_def Let_def)
    show "fst (event_interrupt_isr_v11 ids node ?e)" using f p by (simp add: event_interrupt_isr_v11_def KFD_IRQ_IS_FENCE_def Let_def)
    show "\<not> fst (event_interrupt_isr_v10 ids node ?e)" using f assms(2) by (simp add: event_interrupt_isr_v10_def KFD_IRQ_IS_FENCE_def Let_def)
    show "\<not> fst (event_interrupt_isr_v9_4_3 ids node ?e)" using f v by (simp add: event_interrupt_isr_v9_4_3_def kfd_irq_is_from_node_def)
  qed
qed

theorem drain_fence_lost_witness:
  "\<not> fst (event_interrupt_isr_v10 ids_example (node_ready event_interrupt_class_v10) (irq_drain_fence (node_ready event_interrupt_class_v10) 0x8001))"
  using drain_fence_lost [where pas = "0x8001" and ids = ids_example and node = "node_ready event_interrupt_class_v10"] node_ready_ok(5)
  by (simp add: ids_example_def soc15_client_wanted_def dqm_example_def node_example_def bit_numeral_rec)

text \<open>
  The data a wave of generation 9 sends is spread over two words of the entry; the macro puts its 24 bits together again, whatever the
  other bits of the two words are.
\<close>

theorem sq_int_data_roundtrip:
  "KFD_CONTEXT_ID_GET_SQ_INT_DATA ((d AND 0xfff) OR push_bit 16 (d AND 0xf000) OR (x AND 0x0ffff000)) (drop_bit 16 (d AND 0xff0000) OR push_bit 8 y)
    = d AND 0xffffff"
  by (rule sq_data_decode)

end
