(* ===== verification/Flat_Memory.thy ===== *)
theory Flat_Memory
  imports Process_Queue_Manager Dqm_Asic
begin

text \<open>
  The flat address space of a process (\<^verbatim>\<open>kfd/kfd_flat_memory.c\<close>): where the local data share, scratch memory and the virtual memory of
  the GPU appear, and the pages the driver keeps for itself. \<^verbatim>\<open>kfd_init_apertures\<close> makes the structures of the process for all
  devices it may use (\<^verbatim>\<open>kfd_create_process_device_data\<close> of \<^verbatim>\<open>kfd/kfd_process.c\<close>).
\<close>

unbundle bit_operations_syntax

section \<open>Apertures\<close>

abbreviation (input) PAGE_SIZE64 :: u64 where "PAGE_SIZE64 \<equiv> 4096"
abbreviation (input) KFD_CWSR_TBA_TMA_SIZE :: u64 where "KFD_CWSR_TBA_TMA_SIZE \<equiv> PAGE_SIZE64 * 2"
abbreviation (input) AMDGPU_GMC_HOLE_START :: u64 where "AMDGPU_GMC_HOLE_START \<equiv> 0x0000800000000000"
abbreviation (input) MAX_GPU_INSTANCE :: nat where "MAX_GPU_INSTANCE \<equiv> 64"

definition MAKE_SCRATCH_APP_BASE_VI :: u64 where "MAKE_SCRATCH_APP_BASE_VI = push_bit 61 1 + 0x100000000"
definition MAKE_SCRATCH_APP_LIMIT :: "u64 \<Rightarrow> u64" where "MAKE_SCRATCH_APP_LIMIT base = (base AND 0xFFFFFFFF00000000) OR 0xFFFFFFFF"
definition MAKE_LDS_APP_BASE_VI :: u64 where "MAKE_LDS_APP_BASE_VI = push_bit 61 1 + 0"
definition MAKE_LDS_APP_LIMIT :: "u64 \<Rightarrow> u64" where "MAKE_LDS_APP_LIMIT base = (base AND 0xFFFFFFFF00000000) OR 0xFFFFFFFF"
definition MAKE_LDS_APP_BASE_V9 :: u64 where "MAKE_LDS_APP_BASE_V9 = push_bit 48 1"
definition MAKE_SCRATCH_APP_BASE_V9 :: u64 where "MAKE_SCRATCH_APP_BASE_V9 = push_bit 48 2"
definition SVM_USER_BASE :: u64 where "SVM_USER_BASE = KFD_CWSR_TBA_TMA_SIZE + 2 * PAGE_SIZE64"
definition SVM_CWSR_BASE :: u64 where "SVM_CWSR_BASE = SVM_USER_BASE - KFD_CWSR_TBA_TMA_SIZE"
definition SVM_IB_BASE :: u64 where "SVM_IB_BASE = SVM_CWSR_BASE - PAGE_SIZE64"

lemmas aperture_macros = MAKE_SCRATCH_APP_BASE_VI_def MAKE_SCRATCH_APP_LIMIT_def MAKE_LDS_APP_BASE_VI_def MAKE_LDS_APP_LIMIT_def
  MAKE_LDS_APP_BASE_V9_def MAKE_SCRATCH_APP_BASE_V9_def SVM_USER_BASE_def SVM_CWSR_BASE_def SVM_IB_BASE_def

text \<open>\<^verbatim>\<open>gpuvm_size\<close> of the shared resources, as \<^verbatim>\<open>amdgpu_amdkfd_device_init\<close> sets it.\<close>

definition gpuvm_size :: "kfd_node \<Rightarrow> u64" where
  "gpuvm_size node = min (push_bit 12 (max_pfn node)) AMDGPU_GMC_HOLE_START"

definition kfd_init_apertures_vi :: "kfd_node \<Rightarrow> qcm_process_device \<Rightarrow> qcm_process_device" where
  "kfd_init_apertures_vi node pdd =
     pdd\<lparr>lds_base := MAKE_LDS_APP_BASE_VI, lds_limit := MAKE_LDS_APP_LIMIT MAKE_LDS_APP_BASE_VI,
         gpuvm_base := SVM_USER_BASE, gpuvm_limit := gpuvm_size node - 1,
         scratch_base := MAKE_SCRATCH_APP_BASE_VI, scratch_limit := MAKE_SCRATCH_APP_LIMIT MAKE_SCRATCH_APP_BASE_VI\<rparr>"

definition kfd_init_apertures_v9 :: "kfd_node \<Rightarrow> qcm_process_device \<Rightarrow> qcm_process_device" where
  "kfd_init_apertures_v9 node pdd =
     pdd\<lparr>lds_base := MAKE_LDS_APP_BASE_V9, lds_limit := MAKE_LDS_APP_LIMIT MAKE_LDS_APP_BASE_V9,
         gpuvm_base := SVM_USER_BASE, gpuvm_limit := gpuvm_size node - 1,
         scratch_base := MAKE_SCRATCH_APP_BASE_V9, scratch_limit := MAKE_SCRATCH_APP_LIMIT MAKE_SCRATCH_APP_BASE_V9\<rparr>"

definition vi_family :: "asic \<Rightarrow> bool" where
  "vi_family a \<longleftrightarrow> a \<in> {CHIP_KAVERI, CHIP_HAWAII, CHIP_CARRIZO, CHIP_TONGA, CHIP_FIJI, CHIP_POLARIS10, CHIP_POLARIS11, CHIP_POLARIS12, CHIP_VEGAM}"

text \<open>The body of the loop after \<^verbatim>\<open>kfd_create_process_device_data\<close>.\<close>

definition init_pdd_apertures :: "bool \<Rightarrow> kfd_node \<Rightarrow> qcm_process_device \<Rightarrow> errno + qcm_process_device" where
  "init_pdd_apertures is_32bit_user_mode node pdd =
     (if is_32bit_user_mode
      then Inr (pdd\<lparr>lds_base := 0, lds_limit := 0, gpuvm_base := 0, gpuvm_limit := 0, scratch_base := 0, scratch_limit := 0\<rparr>)
      else if vi_family (asic_type node)
      then Inr ((kfd_init_apertures_vi node pdd)\<lparr>cwsr_base := SVM_CWSR_BASE, ib_base := SVM_IB_BASE\<rparr>)
      else if gc_version node \<ge> IP_VERSION 9 0 1
      then Inr ((kfd_init_apertures_v9 node pdd)\<lparr>cwsr_base := SVM_CWSR_BASE, ib_base := SVM_IB_BASE\<rparr>)
      else Inl EINVAL)"

section \<open>All devices\<close>

text \<open>
  The zeroed structure of a process for a device at the address \<open>a\<close>. The PASID and the XNACK mode are those of the process. \<open>spi\<close> is what
  \<^verbatim>\<open>disable_debug_trap\<close> gives.
\<close>

definition zero_qpd :: "nat \<Rightarrow> u32 \<Rightarrow> bool \<Rightarrow> qcm_process_device" where
  "zero_qpd a pas xnack =
     \<lparr>qpd_ptr = a, queues_list = [], priv_queue_list = [], queue_count = 0, qpd_vmid = 0, is_debug = False, evicted = 0,
      reset_wavefronts = False, mapped_gws_queue = False, gds_context_area = 0, page_table_base = 0, sh_mem_config = 0, sh_mem_bases = 0,
      sh_mem_ape1_base = 0, sh_mem_ape1_limit = 0, gds_size = 0, num_gws = 0, num_oac = 0, sh_hidden_private_base = 0, qpd_tba_addr = 0,
      qpd_tma_addr = 0, cwsr_base = 0, ib_base = 0, ib_kaddr = None, proc_doorbells = None, doorbell_bitmap = None, pasid = pas,
      drm_priv = None, debug_trap_enabled = False, runtime_state_enabled = False, single_mem_op = False, spi_dbg_override = 0,
      spi_dbg_launch_mode = 0, watch_points = replicate 4 0, lds_base = 0, lds_limit = 0, scratch_base = 0, scratch_limit = 0, gpuvm_base = 0,
      gpuvm_limit = 0, xnack_enabled = xnack, proc_ctx_gpu_addr = 0, last_evict_timestamp = 0, evict_duration_counter = 0,
      sdma_past_activity_counter = 0\<rparr>"

record aperture_env =
  ae_kzalloc :: "nat \<Rightarrow> nat option"
  ae_denied :: "nat \<Rightarrow> bool"
  ae_spi :: "nat \<Rightarrow> u32"
  ae_pasid :: u32
  ae_xnack :: bool
  ae_32bit :: bool

definition kfd_create_process_device_data ::
    "aperture_env \<Rightarrow> nat \<Rightarrow> process_queue_manager \<Rightarrow> (process_device \<times> process_queue_manager) option" where
  "kfd_create_process_device_data env dev st =
     (if length (pdds st) \<ge> MAX_GPU_INSTANCE then None
      else case ae_kzalloc env (length (pdds st)) of
          None \<Rightarrow> None
        | Some a \<Rightarrow>
            let qpd = zero_qpd a (ae_pasid env) (ae_xnack env);
                pdd = \<lparr>pdd_dev = dev,
                  pdd_qpd = (if kfd_dbg_is_per_vmid_supported (dqm_dev (dqms st dev)) then qpd\<lparr>spi_dbg_override := ae_spi env dev\<rparr> else qpd),
                  proc_ctx_cpu_ptr = False, already_dequeued = False\<rparr>
            in Some (pdd, st\<lparr>pdds := pdds st @ [pdd]\<rparr>))"

text \<open>The devices of the topology; \<open>None\<close> is a node without GPU. The index has 8 bits.\<close>

definition kfd_topology_enum_kfd_devices :: "nat option list \<Rightarrow> 8 word \<Rightarrow> nat option option" where
  "kfd_topology_enum_kfd_devices topo idx = (if unat idx < length topo then Some (topo ! unat idx) else None)"

partial_function (option) init_apertures_loop ::
    "aperture_env \<Rightarrow> nat option list \<Rightarrow> 8 word \<Rightarrow> process_queue_manager \<Rightarrow> (retval \<times> process_queue_manager) option" where
  "init_apertures_loop env topo idx st =
     (case kfd_topology_enum_kfd_devices topo idx of
        None \<Rightarrow> Some (OK, st)
      | Some None \<Rightarrow> init_apertures_loop env topo (idx + 1) st
      | Some (Some dev) \<Rightarrow>
          if ae_denied env dev then init_apertures_loop env topo (idx + 1) st
          else case kfd_create_process_device_data env dev st of
              None \<Rightarrow> Some (Err ENOMEM, st)
            | Some (pdd, st1) \<Rightarrow>
                (case init_pdd_apertures (ae_32bit env) (dqm_dev (dqms st dev)) (pdd_qpd pdd) of
                   Inl e \<Rightarrow> Some (Err e, st1)
                 | Inr qpd \<Rightarrow> init_apertures_loop env topo (idx + 1) (st1\<lparr>pdds := pdds st @ [pdd\<lparr>pdd_qpd := qpd\<rparr>]\<rparr>)))"

definition kfd_init_apertures :: "aperture_env \<Rightarrow> nat option list \<Rightarrow> process_queue_manager \<Rightarrow> (retval \<times> process_queue_manager) option" where
  "kfd_init_apertures env topo st = init_apertures_loop env topo 0 st"

section \<open>Layout\<close>

text \<open>Two ranges of addresses, each given by its first and its last address, have nothing in common.\<close>

definition apart :: "u64 \<Rightarrow> u64 \<Rightarrow> u64 \<Rightarrow> u64 \<Rightarrow> bool" where
  "apart a b c d \<longleftrightarrow> b < c \<or> d < a"

lemma apart_disjoint: "apart a b c d \<Longrightarrow> {a..b} \<inter> {c..d} = {}"
  by (auto simp: apart_def)

definition apertures_ok :: "kfd_node \<Rightarrow> qcm_process_device \<Rightarrow> bool" where
  "apertures_ok node q \<longleftrightarrow>
     lds_limit q = lds_base q + 0xFFFFFFFF \<and> scratch_limit q = scratch_base q + 0xFFFFFFFF \<and> lds_base q < lds_limit q \<and> scratch_base q < scratch_limit q \<and>
     gpuvm_limit q = gpuvm_size node - 1 \<and>
     apart (lds_base q) (lds_limit q) (scratch_base q) (scratch_limit q) \<and>
     apart (gpuvm_base q) (gpuvm_limit q) (lds_base q) (lds_limit q) \<and> apart (gpuvm_base q) (gpuvm_limit q) (scratch_base q) (scratch_limit q) \<and>
     0 < ib_base q \<and> ib_base q + PAGE_SIZE64 \<le> cwsr_base q \<and> cwsr_base q + KFD_CWSR_TBA_TMA_SIZE \<le> gpuvm_base q"

lemma gpuvm_size_bound: "gpuvm_size node \<noteq> 0 \<Longrightarrow> gpuvm_size node - 1 < AMDGPU_GMC_HOLE_START"
proof -
  assume n: "gpuvm_size node \<noteq> 0"
  have "gpuvm_size node \<le> AMDGPU_GMC_HOLE_START" by (simp add: gpuvm_size_def)
  moreover have "gpuvm_size node - 1 < gpuvm_size node" using n unat_gt_0 [of "gpuvm_size node"] by (simp add: word_less_nat_alt unat_minus_one)
  ultimately show ?thesis by simp
qed

lemma init_pdd_apertures_ok:
  assumes "init_pdd_apertures False node pdd = Inr q" "gpuvm_size node \<noteq> 0"
  shows "apertures_ok node q"
proof -
  have g: "gpuvm_size node - 1 < b" if "AMDGPU_GMC_HOLE_START \<le> b" for b using gpuvm_size_bound [OF assms(2)] that by simp
  consider "q = (kfd_init_apertures_vi node pdd)\<lparr>cwsr_base := SVM_CWSR_BASE, ib_base := SVM_IB_BASE\<rparr>"
    | "q = (kfd_init_apertures_v9 node pdd)\<lparr>cwsr_base := SVM_CWSR_BASE, ib_base := SVM_IB_BASE\<rparr>"
    using assms(1) by (auto simp: init_pdd_apertures_def split: if_splits)
  then show ?thesis
    by cases (simp_all add: apertures_ok_def kfd_init_apertures_vi_def kfd_init_apertures_v9_def aperture_macros apart_def g)
qed

section \<open>The loop\<close>

definition usable :: "aperture_env \<Rightarrow> nat option list \<Rightarrow> nat list" where
  "usable env topo = filter (\<lambda>dev. \<not> ae_denied env dev) (map the (filter (\<lambda>x. x \<noteq> None) topo))"

definition added_pdd :: "aperture_env \<Rightarrow> process_queue_manager \<Rightarrow> process_device \<Rightarrow> bool" where
  "added_pdd env st pdd \<longleftrightarrow> (\<exists>q0. init_pdd_apertures (ae_32bit env) (dqm_dev (dqms st (pdd_dev pdd))) q0 = Inr (pdd_qpd pdd))"

lemma create_pdd_frame:
  assumes "kfd_create_process_device_data env dev st = Some (pdd, st1)"
  shows "pdd_dev pdd = dev" "st1 = st\<lparr>pdds := pdds st @ [pdd]\<rparr>"
  using assms by (auto simp: kfd_create_process_device_data_def Let_def split: if_splits option.splits)

lemma init_apertures_loop_result:
  assumes "length topo < 256" "unat idx \<le> length topo"
  shows "\<exists>r new. init_apertures_loop env topo idx st = Some (r, st\<lparr>pdds := pdds st @ new\<rparr>) \<and>
    (r = OK \<longrightarrow> map pdd_dev new = usable env (drop (unat idx) topo) \<and> (\<forall>pdd \<in> set new. added_pdd env st pdd))"
  using assms
proof (induction "length topo - unat idx" arbitrary: idx st rule: less_induct)
  case less
  note unfold = init_apertures_loop.simps [of env topo idx st]
  show ?case
  proof (cases "unat idx < length topo")
    case False
    then have "init_apertures_loop env topo idx st = Some (OK, st)" by (simp add: unfold kfd_topology_enum_kfd_devices_def)
    moreover have "usable env (drop (unat idx) topo) = []" using False by (simp add: usable_def)
    ultimately show ?thesis by (intro exI [of _ OK] exI [of _ "[]"]) simp
  next
    case True
    have "idx + 1 \<noteq> 0"
    proof
      assume "idx + 1 = 0"
      moreover have "(255 :: 8 word) + 1 = 0" by simp
      ultimately have "idx = 255" by (metis add_right_cancel)
      then have "unat idx = 255" by simp
      with True less.prems(1) show False by simp
    qed
    then have n: "unat (idx + 1) = Suc (unat idx)" using unatSuc [of idx] by (simp add: add.commute)
    have d: "drop (unat idx) topo = topo ! unat idx # drop (unat (idx + 1)) topo" using True n by (simp add: Cons_nth_drop_Suc)
    have e: "kfd_topology_enum_kfd_devices topo idx = Some (topo ! unat idx)" using True by (simp add: kfd_topology_enum_kfd_devices_def)
    have ih: "\<exists>r new. init_apertures_loop env topo (idx + 1) s = Some (r, s\<lparr>pdds := pdds s @ new\<rparr>) \<and>
        (r = OK \<longrightarrow> map pdd_dev new = usable env (drop (unat (idx + 1)) topo) \<and> (\<forall>pdd \<in> set new. added_pdd env s pdd))" for s
      using less.hyps [of "idx + 1" s] less.prems(1) True n by simp
    show ?thesis
    proof (cases "\<exists>dev. topo ! unat idx = Some dev \<and> \<not> ae_denied env dev")
      case False
      then have "init_apertures_loop env topo idx st = init_apertures_loop env topo (idx + 1) st"
        unfolding unfold e by (cases "topo ! unat idx") auto
      moreover have "usable env (drop (unat idx) topo) = usable env (drop (unat (idx + 1)) topo)" using False by (auto simp: d usable_def)
      ultimately show ?thesis using ih [of st] by simp
    next
      case True
      then obtain dev where dev: "topo ! unat idx = Some dev" "\<not> ae_denied env dev" by blast
      show ?thesis
      proof (cases "kfd_create_process_device_data env dev st")
        case None
        then have "init_apertures_loop env topo idx st = Some (Err ENOMEM, st)" unfolding unfold e using dev by simp
        then show ?thesis by (intro exI [of _ "Err ENOMEM"] exI [of _ "[]"]) simp
      next
        case (Some c)
        obtain pdd st1 where c: "kfd_create_process_device_data env dev st = Some (pdd, st1)" using Some by (cases c) simp
        note fr = create_pdd_frame [OF c]
        show ?thesis
        proof (cases "init_pdd_apertures (ae_32bit env) (dqm_dev (dqms st dev)) (pdd_qpd pdd)")
          case (Inl x)
          then have "init_apertures_loop env topo idx st = Some (Err x, st1)" unfolding unfold e using dev c by simp
          then show ?thesis using fr(2) by (intro exI [of _ "Err x"] exI [of _ "[pdd]"]) simp
        next
          case (Inr q)
          let ?pdd = "pdd\<lparr>pdd_qpd := q\<rparr>"
          have l: "init_apertures_loop env topo idx st = init_apertures_loop env topo (idx + 1) (st\<lparr>pdds := pdds st @ [?pdd]\<rparr>)"
            unfolding unfold e using dev c Inr fr(2) by simp
          have a: "added_pdd env st ?pdd" using Inr fr(1) by (auto simp: added_pdd_def)
          from ih [of "st\<lparr>pdds := pdds st @ [?pdd]\<rparr>"] obtain r new where
            h: "init_apertures_loop env topo (idx + 1) (st\<lparr>pdds := pdds st @ [?pdd]\<rparr>) = Some (r, st\<lparr>pdds := pdds st @ ?pdd # new\<rparr>)"
              "r = OK \<longrightarrow> map pdd_dev new = usable env (drop (unat (idx + 1)) topo) \<and> (\<forall>pdd \<in> set new. added_pdd env st pdd)"
            by (auto simp: added_pdd_def)
          have "usable env (drop (unat idx) topo) = dev # usable env (drop (unat (idx + 1)) topo)" using dev by (simp add: d usable_def)
          then show ?thesis using l h a fr(1) by (intro exI [of _ r] exI [of _ "?pdd # new"]) auto
        qed
      qed
    qed
  qed
qed

text \<open>With more devices than the index can count, the loop starts over.\<close>

lemma usable_take: "usable env (take n topo) = [] \<Longrightarrow> i < n \<Longrightarrow> i < length topo \<Longrightarrow> topo ! i = Some dev \<Longrightarrow> ae_denied env dev"
proof -
  assume u: "usable env (take n topo) = []" and i: "i < n" "i < length topo" "topo ! i = Some dev"
  have "Some dev \<in> set (take n topo)" using i by (metis in_set_conv_nth length_take min_less_iff_conj nth_take)
  with u show ?thesis by (force simp: usable_def filter_empty_conv)
qed

lemma init_apertures_returns:
  assumes "init_apertures_loop env topo idx st = Some y"
  shows "length topo < 256 \<or> usable env (take 256 topo) \<noteq> []"
proof (rule init_apertures_loop.raw_induct [OF _ assms, where P = "\<lambda>env topo _ _ _. length topo < 256 \<or> usable env (take 256 topo) \<noteq> []"])
  fix f :: "aperture_env \<Rightarrow> nat option list \<Rightarrow> 8 word \<Rightarrow> process_queue_manager \<Rightarrow> (retval \<times> process_queue_manager) option"
    and env topo and idx :: "8 word" and st y
  assume ih: "\<And>env topo idx st y. f env topo idx st = Some y \<Longrightarrow> length topo < 256 \<or> usable env (take 256 topo) \<noteq> []"
    and b: "(case kfd_topology_enum_kfd_devices topo idx of
        None \<Rightarrow> Some (OK, st)
      | Some None \<Rightarrow> f env topo (idx + 1) st
      | Some (Some dev) \<Rightarrow>
          if ae_denied env dev then f env topo (idx + 1) st
          else case kfd_create_process_device_data env dev st of
              None \<Rightarrow> Some (Err ENOMEM, st)
            | Some (pdd, st1) \<Rightarrow>
                (case init_pdd_apertures (ae_32bit env) (dqm_dev (dqms st dev)) (pdd_qpd pdd) of
                   Inl e \<Rightarrow> Some (Err e, st1)
                 | Inr qpd \<Rightarrow> f env topo (idx + 1) (st1\<lparr>pdds := pdds st @ [pdd\<lparr>pdd_qpd := qpd\<rparr>]\<rparr>))) = Some y"
  show "length topo < 256 \<or> usable env (take 256 topo) \<noteq> []"
  proof (rule ccontr)
    assume n: "\<not> (length topo < 256 \<or> usable env (take 256 topo) \<noteq> [])"
    have i: "unat idx < 256" using unat_lt2p [of idx] by simp
    with n have e: "kfd_topology_enum_kfd_devices topo idx = Some (topo ! unat idx)" by (simp add: kfd_topology_enum_kfd_devices_def)
    have d: "ae_denied env dev" if "topo ! unat idx = Some dev" for dev using usable_take [of env 256 topo "unat idx" dev] n i that by simp
    have "f env topo (idx + 1) st = Some y" using b d unfolding e by (cases "topo ! unat idx") auto
    with ih n show False by blast
  qed
qed

section \<open>Properties\<close>

definition aperture_env_example :: aperture_env where
  "aperture_env_example = \<lparr>ae_kzalloc = \<lambda>i. Some (100 + i), ae_denied = (\<lambda>dev. dev = 1), ae_spi = (\<lambda>_. 0), ae_pasid = 0x8001, ae_xnack = False, ae_32bit = False\<rparr>"

definition process_example :: process_queue_manager where
  "process_example = \<lparr>pqm_queues = [], queue_slot_bitmap = [], pdds = [], dqms = (\<lambda>_. dqm_example), max_no_of_hqd = (\<lambda>_. 0), gang_ctx_live = 0\<rparr>"

text \<open>
  \<^verbatim>\<open>kfd_init_apertures\<close> ends on a topology of less than 256 devices, and when it succeeds the process has one more structure for
  every GPU it may use, in the order of the topology, and nothing else has changed.
\<close>

theorem init_apertures_covers_devices:
  assumes "length topo < 256"
  shows "\<exists>r new. kfd_init_apertures env topo st = Some (r, st\<lparr>pdds := pdds st @ new\<rparr>) \<and> (r = OK \<longrightarrow> map pdd_dev new = usable env topo)"
  using init_apertures_loop_result [OF assms, of 0 env st] by (auto simp: kfd_init_apertures_def)

theorem init_apertures_covers_devices_witness:
  "\<exists>r new. kfd_init_apertures aperture_env_example [None, Some 0, Some 1, Some 2] process_example =
     Some (r, process_example\<lparr>pdds := pdds process_example @ new\<rparr>) \<and> (r = OK \<longrightarrow> map pdd_dev new = [0, 2])"
  using init_apertures_covers_devices [of "[None, Some 0, Some 1, Some 2]" aperture_env_example process_example]
  by (simp add: usable_def aperture_env_example_def)

text \<open>
  C21. The apertures of a 64 bit process: on every device, LDS, scratch and the virtual memory of the GPU do not overlap, the first two have 4 GB, and the pages
  the driver keeps, one for the indirect buffer and two for the trap handler, lie one after the other above page 0 and below the virtual memory of the user.
\<close>

theorem apertures_disjoint:
  assumes "length topo < 256" "kfd_init_apertures env topo st = Some (OK, st')" "\<not> ae_32bit env"
    "pdd \<in> set (drop (length (pdds st)) (pdds st'))" "gpuvm_size (dqm_dev (dqms st (pdd_dev pdd))) \<noteq> 0" "q = pdd_qpd pdd"
  shows "{lds_base q..lds_limit q} \<inter> {scratch_base q..scratch_limit q} = {} \<and> {gpuvm_base q..gpuvm_limit q} \<inter> {lds_base q..lds_limit q} = {} \<and>
    {gpuvm_base q..gpuvm_limit q} \<inter> {scratch_base q..scratch_limit q} = {} \<and>
    unat (lds_limit q) = unat (lds_base q) + 0xFFFFFFFF \<and> unat (scratch_limit q) = unat (scratch_base q) + 0xFFFFFFFF \<and>
    0 < ib_base q \<and> ib_base q + PAGE_SIZE64 \<le> cwsr_base q \<and> cwsr_base q + KFD_CWSR_TBA_TMA_SIZE \<le> gpuvm_base q"
proof -
  obtain r new where n: "init_apertures_loop env topo 0 st = Some (r, st\<lparr>pdds := pdds st @ new\<rparr>)" "r = OK \<longrightarrow> (\<forall>pdd \<in> set new. added_pdd env st pdd)"
    using init_apertures_loop_result [OF assms(1), of 0 env st] by auto
  with assms(2) have "r = OK" "pdds st' = pdds st @ new" by (auto simp: kfd_init_apertures_def)
  with n assms(4) have "added_pdd env st pdd" by simp
  then obtain q0 where "init_pdd_apertures False (dqm_dev (dqms st (pdd_dev pdd))) q0 = Inr q" using assms(3,6) by (auto simp: added_pdd_def)
  from init_pdd_apertures_ok [OF this assms(5)] have ok: "apertures_ok (dqm_dev (dqms st (pdd_dev pdd))) q" .
  then have l: "lds_limit q = lds_base q + 0xFFFFFFFF" "lds_base q < lds_limit q" "scratch_limit q = scratch_base q + 0xFFFFFFFF" "scratch_base q < scratch_limit q"
    unfolding apertures_ok_def by blast+
  have u: "unat (b + 0xFFFFFFFF) = unat b + 0xFFFFFFFF" if "b < b + 0xFFFFFFFF" for b :: u64
    using less_imp_le [OF that] no_plus_overflow_unat_size [of b "0xFFFFFFFF"] unat_add_lem [of b "0xFFFFFFFF"] by (simp add: word_size)
  have "unat (lds_limit q) = unat (lds_base q) + 0xFFFFFFFF" "unat (scratch_limit q) = unat (scratch_base q) + 0xFFFFFFFF"
    using l u by simp_all
  with ok show ?thesis unfolding apertures_ok_def by (intro conjI apart_disjoint) blast+
qed

theorem apertures_disjoint_witness:
  "\<exists>st' pdd. kfd_init_apertures aperture_env_example [Some 0] process_example = Some (OK, st') \<and> pdds st' = [pdd] \<and>
     {lds_base (pdd_qpd pdd)..lds_limit (pdd_qpd pdd)} \<inter> {scratch_base (pdd_qpd pdd)..scratch_limit (pdd_qpd pdd)} = {}"
proof -
  have "\<exists>st' pdd. kfd_init_apertures aperture_env_example [Some 0] process_example = Some (OK, st') \<and> pdds st' = [pdd] \<and> pdd_dev pdd = 0"
    by (simp add: kfd_init_apertures_def init_apertures_loop.simps [of _ _ 0] init_apertures_loop.simps [of _ _ 1] kfd_topology_enum_kfd_devices_def
        aperture_env_example_def process_example_def kfd_create_process_device_data_def init_pdd_apertures_def dqm_example_def node_example_def
        vi_family_def IP_VERSION_def Let_def)
  then obtain st' pdd where e: "kfd_init_apertures aperture_env_example [Some 0] process_example = Some (OK, st')" "pdds st' = [pdd]" "pdd_dev pdd = 0"
    by blast
  have "gpuvm_size (dqm_dev (dqms process_example (pdd_dev pdd))) \<noteq> 0"
    by (simp add: process_example_def dqm_example_def node_example_def gpuvm_size_def)
  with apertures_disjoint [OF _ e(1), of pdd] e show ?thesis by (simp add: aperture_env_example_def process_example_def)
qed

text \<open>
  The register of generation 9 holds the apertures: the halves of \<^verbatim>\<open>sh_mem_bases\<close>, as \<^verbatim>\<open>update_qpd_v9\<close> writes them, give back the bases of
  LDS and scratch of a 64 bit process.
\<close>

theorem aperture_registers_roundtrip:
  assumes "init_pdd_apertures False (dqm_dev dqm) q0 = Inr q" "\<not> vi_family (asic_type (dqm_dev dqm))"
    "SHARED_BASE_SHIFT (sh_regs (dqm_dev dqm)) = 16" "update_qpd_v9 dqm q = (r, q')"
  shows "push_bit 48 (ucast (drop_bit 16 (sh_mem_bases q'))) = lds_base q \<and> push_bit 48 (ucast (take_bit 16 (sh_mem_bases q'))) = scratch_base q"
proof -
  have q: "lds_base q = push_bit 48 1" "scratch_base q = push_bit 48 2"
    using assms(1,2) by (auto simp: init_pdd_apertures_def kfd_init_apertures_v9_def aperture_macros split: if_splits)
  have "sh_mem_bases q' = compute_sh_mem_bases_64bit (sh_regs (dqm_dev dqm)) q"
    using assms(4) by (auto simp: update_qpd_v9_def compute_sh_mem_bases_64bit_def Let_def split: if_splits)
  then have "sh_mem_bases q' = 0x10002" using q assms(3) by (simp add: compute_sh_mem_bases_64bit_def)
  with q show ?thesis by simp
qed

theorem aperture_registers_roundtrip_witness:
  "push_bit 48 (ucast (drop_bit 16 (sh_mem_bases (snd (update_qpd_v9 dqm_example
     (projr (init_pdd_apertures False (dqm_dev dqm_example) (zero_qpd 1 0x8001 False)))))))) = (0x1000000000000 :: u64)"
proof -
  let ?q = "projr (init_pdd_apertures False (dqm_dev dqm_example) (zero_qpd 1 0x8001 False))"
  have i: "init_pdd_apertures False (dqm_dev dqm_example) (zero_qpd 1 0x8001 False) = Inr ?q" "lds_base ?q = 0x1000000000000"
    by (simp_all add: init_pdd_apertures_def dqm_example_def node_example_def vi_family_def IP_VERSION_def kfd_init_apertures_v9_def aperture_macros)
  obtain r q' where u: "update_qpd_v9 dqm_example ?q = (r, q')" by (metis surj_pair)
  from aperture_registers_roundtrip [OF i(1) _ _ u] i(2) show ?thesis
    unfolding u snd_conv by (simp add: dqm_example_def node_example_def vi_family_def sh_regs_example_def)
qed

text \<open>
  The index of the loop has 8 bits: with 256 devices or more, none of the first 256 a GPU that the process may use, \<^verbatim>\<open>kfd_init_apertures\<close>
  never returns.
\<close>

theorem init_apertures_wraps:
  assumes "256 \<le> length topo" "usable env (take 256 topo) = []"
  shows "kfd_init_apertures env topo st = None"
  using init_apertures_returns [of env topo 0 st] assms by (cases "kfd_init_apertures env topo st") (auto simp: kfd_init_apertures_def)

theorem init_apertures_wraps_witness: "kfd_init_apertures aperture_env_example (replicate 256 None) process_example = None"
  by (rule init_apertures_wraps) (simp_all add: usable_def)

end
