(* ===== verification/Kfd_Process.thy ===== *)
theory Kfd_Process
  imports Pqm_Invariant Dqm_Evict
begin

text \<open>
  Evicting and restoring all queues of a process (\<^verbatim>\<open>kfd/kfd_process.c\<close>), over all of its devices, for the memory manager, for
  suspend and for the work queues. The state is that of the process queue manager; the structure of a process on a device is the one that
  the device queue manager has linked or, while it has no queues there, the one in \<open>pdd_qpd\<close>.

  \<open>env i\<close> is what hardware and firmware of the \<open>i\<close>-th device answer.
\<close>

section \<open>One device\<close>

text \<open>\<^verbatim>\<open>dqm->ops.evict_process_queues\<close> and \<^verbatim>\<open>dqm->ops.restore_process_queues\<close> for a process that is linked\<close>

definition ops_evict_process_queues :: "hw_env \<Rightarrow> nat \<Rightarrow> device_queue_manager \<Rightarrow> retval \<times> device_queue_manager" where
  "ops_evict_process_queues env p dqm =
     (if sched_policy dqm = KFD_SCHED_POLICY_NO_HWS then on_qpd (evict_process_queues_nocpsch env) p dqm
      else evict_process_queues_cpsch env p dqm)"

definition ops_restore_process_queues :: "hw_env \<Rightarrow> nat \<Rightarrow> device_queue_manager \<Rightarrow> retval \<times> device_queue_manager" where
  "ops_restore_process_queues env p dqm =
     (if sched_policy dqm = KFD_SCHED_POLICY_NO_HWS then on_qpd (restore_process_queues_nocpsch env) p dqm
      else restore_process_queues_cpsch env p dqm)"

text \<open>The same operations with a hardware scheduler on a process that is not linked: it has no queues, but the runlist is sent all the same.\<close>

definition evict_unlinked_cpsch ::
    "hw_env \<Rightarrow> device_queue_manager \<Rightarrow> qcm_process_device \<Rightarrow> retval \<times> device_queue_manager \<times> qcm_process_device" where
  "evict_unlinked_cpsch env dqm qpd =
     (let qpd1 = qpd\<lparr>evicted := evicted qpd + 1\<rparr> in
      if evicted qpd > 0 \<or> drm_priv qpd = None then (OK, dqm, qpd1)
      else case evict_queues_cpsch env OK dqm qpd1 (queues_list qpd1) of
        (r, dqm1, qpd2, qs) \<Rightarrow>
          let qpd3 = qpd2\<lparr>queues_list := qs, last_evict_timestamp := he_jiffies env\<rparr> in
          if uses_mes dqm1 then (r, dqm1, qpd3)
          else case execute_queues_cpsch env (if is_debug qpd2 then KFD_UNMAP_QUEUES_FILTER_ALL_QUEUES
                      else KFD_UNMAP_QUEUES_FILTER_DYNAMIC_QUEUES) 0 USE_DEFAULT_GRACE_PERIOD dqm1 of
            (r1, dqm2) \<Rightarrow> (r1, dqm2, qpd3))"

definition restore_unlinked_cpsch ::
    "hw_env \<Rightarrow> device_queue_manager \<Rightarrow> qcm_process_device \<Rightarrow> retval \<times> device_queue_manager \<times> qcm_process_device" where
  "restore_unlinked_cpsch env dqm qpd =
     (if evicted qpd = 0 then (OK, dqm, qpd)
      else if evicted qpd > 1 then (OK, dqm, qpd\<lparr>evicted := evicted qpd - 1\<rparr>)
      else if drm_priv qpd = None then (OK, dqm, qpd\<lparr>evicted := 0\<rparr>)
      else case restore_queues_cpsch env dqm (qpd\<lparr>page_table_base := he_pd_base env\<rparr>) (queues_list qpd) of
        (Err e, dqm1, qpd1, qs) \<Rightarrow> (Err e, dqm1, qpd1\<lparr>queues_list := qs\<rparr>)
      | (OK, dqm1, qpd1, qs) \<Rightarrow>
          let qpd2 = qpd1\<lparr>queues_list := qs\<rparr>;
              (r, dqm2) = (if \<not> uses_mes dqm1 then refresh env dqm1 else (OK, dqm1))
          in (r, dqm2, qpd2\<lparr>evict_duration_counter := evict_duration_counter qpd2 + (he_jiffies env - last_evict_timestamp qpd2), evicted := 0\<rparr>))"

definition pdd_op ::
    "(nat \<Rightarrow> device_queue_manager \<Rightarrow> retval \<times> device_queue_manager) \<Rightarrow>
     (device_queue_manager \<Rightarrow> qcm_process_device \<Rightarrow> retval \<times> device_queue_manager \<times> qcm_process_device) \<Rightarrow>
     process_device \<Rightarrow> process_queue_manager \<Rightarrow> retval \<times> process_queue_manager" where
  "pdd_op linked_op unlinked_op pdd st =
     (let dqm = dqms st (pdd_dev pdd) in
      case get_qpd dqm (pdd_ptr pdd) of
        Some _ \<Rightarrow> (case linked_op (pdd_ptr pdd) dqm of (r, dqm1) \<Rightarrow> (r, set_dqm (pdd_dev pdd) dqm1 st))
      | None \<Rightarrow> (case unlinked_op dqm (pdd_qpd pdd) of
            (r, dqm1, qpd) \<Rightarrow> (r, put_pdd (pdd\<lparr>pdd_qpd := qpd\<rparr>) (set_dqm (pdd_dev pdd) dqm1 st))))"

definition pdd_evict :: "hw_env \<Rightarrow> process_device \<Rightarrow> process_queue_manager \<Rightarrow> retval \<times> process_queue_manager" where
  "pdd_evict env pdd st =
     pdd_op (ops_evict_process_queues env)
       (if sched_policy (dqms st (pdd_dev pdd)) = KFD_SCHED_POLICY_NO_HWS then evict_process_queues_nocpsch env else evict_unlinked_cpsch env) pdd st"

definition pdd_restore :: "hw_env \<Rightarrow> process_device \<Rightarrow> process_queue_manager \<Rightarrow> retval \<times> process_queue_manager" where
  "pdd_restore env pdd st =
     pdd_op (ops_restore_process_queues env)
       (if sched_policy (dqms st (pdd_dev pdd)) = KFD_SCHED_POLICY_NO_HWS then restore_process_queues_nocpsch env else restore_unlinked_cpsch env) pdd st"

text \<open>\<^verbatim>\<open>kfd_dqm_evict_pasid\<close> once the process is found: the interrupt handlers call it for one device.\<close>

definition kfd_dqm_evict_pasid :: "hw_env \<Rightarrow> nat \<Rightarrow> process_queue_manager \<Rightarrow> retval \<times> process_queue_manager" where
  "kfd_dqm_evict_pasid env dev st = (case get_pdd dev st of None \<Rightarrow> (OK, st) | Some pdd \<Rightarrow> pdd_evict env pdd st)"

section \<open>All devices\<close>

text \<open>
  The first loop of \<^verbatim>\<open>kfd_process_evict_queues\<close>: the code of the last call, how many devices were evicted, and whether a device
  failed.
\<close>

fun evict_pdds ::
    "(nat \<Rightarrow> hw_env) \<Rightarrow> nat list \<Rightarrow> retval \<Rightarrow> nat \<Rightarrow> process_queue_manager \<Rightarrow> retval \<times> nat \<times> bool \<times> process_queue_manager" where
  "evict_pdds env [] r n st = (r, n, False, st)"
| "evict_pdds env (i # is) r n st =
     (case pdd_evict (env i) (pdds st ! i) st of
        (r1, st1) \<Rightarrow> if r1 \<noteq> OK \<and> r1 \<noteq> Err EIO then (r1, n, True, st1) else evict_pdds env is r1 (Suc n) st1)"

fun rollback_pdds :: "(nat \<Rightarrow> hw_env) \<Rightarrow> nat list \<Rightarrow> nat \<Rightarrow> process_queue_manager \<Rightarrow> process_queue_manager" where
  "rollback_pdds env [] n st = st"
| "rollback_pdds env (i # is) n st =
     (if n = 0 then st else rollback_pdds env is (n - 1) (snd (pdd_restore (env i) (pdds st ! i) st)))"

definition kfd_process_evict_queues ::
    "(nat \<Rightarrow> hw_env) \<Rightarrow> (nat \<Rightarrow> hw_env) \<Rightarrow> process_queue_manager \<Rightarrow> retval \<times> process_queue_manager" where
  "kfd_process_evict_queues env renv st =
     (case evict_pdds env [0..<length (pdds st)] OK 0 st of
        (r, n, failed, st1) \<Rightarrow> (r, if failed then rollback_pdds renv [0..<length (pdds st)] n st1 else st1))"

fun restore_pdds :: "(nat \<Rightarrow> hw_env) \<Rightarrow> nat list \<Rightarrow> retval \<Rightarrow> process_queue_manager \<Rightarrow> retval \<times> process_queue_manager" where
  "restore_pdds env [] ret st = (ret, st)"
| "restore_pdds env (i # is) ret st =
     (case pdd_restore (env i) (pdds st ! i) st of (r, st1) \<Rightarrow> restore_pdds env is (first_error ret r) st1)"

definition kfd_process_restore_queues :: "(nat \<Rightarrow> hw_env) \<Rightarrow> process_queue_manager \<Rightarrow> retval \<times> process_queue_manager" where
  "kfd_process_restore_queues env st = restore_pdds env [0..<length (pdds st)] OK st"

section \<open>Workers\<close>

text \<open>
  The eviction fence (\<open>None\<close>: there is none; else whether it is signaled) and whether the restore work is queued. \<open>wk_bos\<close> is the result of
  \<^verbatim>\<open>amdgpu_amdkfd_gpuvm_restore_process_bos\<close>, \<open>None\<close> when the process has no memory information; after success the fence is not
  signaled (a signaled one is replaced).
\<close>

record evict_process =
  ep_pqm :: process_queue_manager
  ep_ef :: "bool option"
  restore_queued :: bool

definition signal_eviction_fence :: "evict_process \<Rightarrow> retval \<times> evict_process" where
  "signal_eviction_fence p = (if ep_ef p = Some False then (OK, p\<lparr>ep_ef := Some True\<rparr>) else (Err EINVAL, p))"

text \<open>\<^verbatim>\<open>mod_delayed_work\<close> says whether the work was queued before.\<close>

definition mod_delayed_work :: "evict_process \<Rightarrow> bool \<times> evict_process" where
  "mod_delayed_work p = (restore_queued p, p\<lparr>restore_queued := True\<rparr>)"

definition restore_queues_of :: "(nat \<Rightarrow> hw_env) \<Rightarrow> evict_process \<Rightarrow> retval \<times> evict_process" where
  "restore_queues_of env p = (case kfd_process_restore_queues env (ep_pqm p) of (r, st) \<Rightarrow> (r, p\<lparr>ep_pqm := st\<rparr>))"

definition evict_process_worker ::
    "(nat \<Rightarrow> hw_env) \<Rightarrow> (nat \<Rightarrow> hw_env) \<Rightarrow> (nat \<Rightarrow> hw_env) \<Rightarrow> evict_process \<Rightarrow> evict_process" where
  "evict_process_worker env renv env2 p =
     (case kfd_process_evict_queues env renv (ep_pqm p) of
        (r, st) \<Rightarrow>
          let p1 = p\<lparr>ep_pqm := st\<rparr> in
          if r \<noteq> OK then p1
          else case signal_eviction_fence p1 of
              (Err e, p2) \<Rightarrow> snd (restore_queues_of env2 p2)
            | (OK, p2) \<Rightarrow> (case mod_delayed_work p2 of (queued, p3) \<Rightarrow> if queued then snd (restore_queues_of env2 p3) else p3))"

definition restore_process_helper :: "(nat \<Rightarrow> hw_env) \<Rightarrow> retval option \<Rightarrow> evict_process \<Rightarrow> retval \<times> evict_process" where
  "restore_process_helper env wk_bos p =
     (case wk_bos of
        Some (Err e) \<Rightarrow> (Err e, p)
      | Some OK \<Rightarrow> restore_queues_of env (p\<lparr>ep_ef := Some False\<rparr>)
      | None \<Rightarrow> restore_queues_of env p)"

text \<open>When the worker runs, its work is no longer queued.\<close>

definition restore_process_worker :: "(nat \<Rightarrow> hw_env) \<Rightarrow> (nat \<Rightarrow> hw_env) \<Rightarrow> retval option \<Rightarrow> evict_process \<Rightarrow> evict_process" where
  "restore_process_worker env env2 wk_bos p =
     (case restore_process_helper env wk_bos (p\<lparr>restore_queued := False\<rparr>) of
        (r, p1) \<Rightarrow>
          if r = OK then p1
          else case mod_delayed_work p1 of (queued, p2) \<Rightarrow> if queued then snd (restore_queues_of env2 p2) else p2)"

text \<open>\<^verbatim>\<open>kfd_suspend_all_processes\<close> and \<^verbatim>\<open>kfd_resume_all_processes\<close>; a process of the table comes with what its devices answer.\<close>

definition suspend_process :: "(nat \<Rightarrow> hw_env) \<Rightarrow> (nat \<Rightarrow> hw_env) \<Rightarrow> evict_process \<Rightarrow> evict_process" where
  "suspend_process env renv p =
     (case kfd_process_evict_queues env renv (ep_pqm p) of (r, st) \<Rightarrow> snd (signal_eviction_fence (p\<lparr>ep_pqm := st\<rparr>)))"

definition kfd_suspend_all_processes :: "((nat \<Rightarrow> hw_env) \<times> (nat \<Rightarrow> hw_env) \<times> evict_process) list \<Rightarrow> evict_process list" where
  "kfd_suspend_all_processes = map (\<lambda>(env, renv, p). suspend_process env renv p)"

definition kfd_resume_all_processes :: "((nat \<Rightarrow> hw_env) \<times> retval option \<times> evict_process) list \<Rightarrow> retval \<times> evict_process list" where
  "kfd_resume_all_processes ps =
     (let rs = map (\<lambda>(env, bos, p). restore_process_helper env bos p) ps
      in (if \<exists>r \<in> set rs. fst r \<noteq> OK then Err EFAULT else OK, map snd rs))"

text \<open>\<^verbatim>\<open>kgd2kfd_quiesce_mm\<close> and \<^verbatim>\<open>kgd2kfd_resume_mm\<close>; \<open>None\<close>: the memory belongs to no process.\<close>

definition kgd2kfd_quiesce_mm ::
    "(nat \<Rightarrow> hw_env) \<Rightarrow> (nat \<Rightarrow> hw_env) \<Rightarrow> process_queue_manager option \<Rightarrow> retval \<times> process_queue_manager option" where
  "kgd2kfd_quiesce_mm env renv p =
     (case p of None \<Rightarrow> (Err ESRCH, None) | Some st \<Rightarrow> (case kfd_process_evict_queues env renv st of (r, st1) \<Rightarrow> (r, Some st1)))"

definition kgd2kfd_resume_mm :: "(nat \<Rightarrow> hw_env) \<Rightarrow> process_queue_manager option \<Rightarrow> retval \<times> process_queue_manager option" where
  "kgd2kfd_resume_mm env p =
     (case p of None \<Rightarrow> (Err ESRCH, None) | Some st \<Rightarrow> (case kfd_process_restore_queues env st of (r, st1) \<Rightarrow> (r, Some st1)))"

end
