(* ===== verification/Process_Properties.thy ===== *)
theory Process_Properties
  imports Kfd_Process
begin

text \<open>
  What eviction and restore of a process do to the eviction counters of its devices: nested evictions are undone one by one, but a failure
  on one device, or a hang of the last one, leaves devices evicted that nobody restores.
\<close>

section \<open>Counters\<close>

definition evict_counts :: "qcm_process_device \<Rightarrow> retval \<Rightarrow> qcm_process_device \<Rightarrow> bool" where
  "evict_counts q r q1 \<longleftrightarrow> evicted q1 = evicted q + 1 \<and> (evicted q > 0 \<longrightarrow> r = OK \<and> q1 = q\<lparr>evicted := evicted q + 1\<rparr>)"

definition restore_counts :: "qcm_process_device \<Rightarrow> retval \<Rightarrow> qcm_process_device \<Rightarrow> bool" where
  "restore_counts q r q1 \<longleftrightarrow>
     (if evicted q = 1 then evicted q1 = 0 \<or> evicted q1 = 1 \<and> r \<noteq> OK
      else r = OK \<and> q1 = (if evicted q = 0 then q else q\<lparr>evicted := evicted q - 1\<rparr>))"

lemma restore_counts_evicted:
  "restore_counts q r q1 \<Longrightarrow> evicted q \<noteq> 0 \<Longrightarrow> evicted q1 = evicted q - 1 \<or> evicted q = 1 \<and> evicted q1 = 1"
  by (auto simp: restore_counts_def split: if_splits)

lemma evicted_cases:
  obtains "evicted q = 0" | "evicted q = 1" | "evicted q > 1" "evicted q \<noteq> 0" "evicted q \<noteq> 1"
proof (cases "evicted q = 0 \<or> evicted q = 1")
  case False
  then have "evicted q > 1" by (metis word_gt_0 word_le_less_eq word_less_1 not_le)
  with False that show thesis by auto
qed (use that in blast)

lemma procs_queues: "procs a = procs b \<Longrightarrow> dqm_queues a = dqm_queues b"
  by (simp add: procs_def)

lemma get_qpd_cong: "dqm_queues a = dqm_queues b \<Longrightarrow> get_qpd a p = get_qpd b p"
  by (simp add: get_qpd_def)

lemma gws_same: "\<exists>b. q = q\<lparr>mapped_gws_queue := b\<rparr>" for q :: qcm_process_device
  by (rule exI [of _ "mapped_gws_queue q"]) simp

lemma gws_trans: "\<exists>b. p = q\<lparr>mapped_gws_queue := b\<rparr> \<Longrightarrow> \<exists>b. x = p\<lparr>mapped_gws_queue := b\<rparr> \<Longrightarrow> \<exists>b. x = q\<lparr>mapped_gws_queue := b\<rparr>"
  for p q x :: qcm_process_device
  by auto

lemma count_procs:
  "increment_queue_count dqm qpd q = (dqm1, qpd1) \<Longrightarrow> procs dqm1 = procs dqm"
  "decrement_queue_count dqm qpd q = (dqm1, qpd1) \<Longrightarrow> procs dqm1 = procs dqm"
  by (auto simp: increment_queue_count_def decrement_queue_count_def procs_def Let_def split: if_splits)

lemma restore_nocpsch_loop_frame:
  assumes "restore_queues_nocpsch env ret dqm qpd qs = (r, dqm', qpd', qs')"
  shows "procs dqm' = procs dqm \<and> (\<exists>b. qpd' = qpd\<lparr>mapped_gws_queue := b\<rparr>)"
  using assms
proof (induction qs arbitrary: ret dqm qpd qs')
  case (Cons q qs)
  define q1 where "q1 = q\<lparr>properties := (properties q)\<lparr>is_evicted := False\<rparr>\<rparr>"
  show ?case
  proof (cases "QUEUE_IS_ACTIVE (properties q1)")
    case False
    obtain r1 d1 p1 qs1 where l: "restore_queues_nocpsch env ret dqm qpd qs = (r1, d1, p1, qs1)" by (metis prod_cases4)
    then have "d1 = dqm'" "p1 = qpd'" "r1 = r" using Cons.prems False by (simp_all add: q1_def [symmetric] Let_def)
    with Cons.IH l show ?thesis by blast
  next
    case True
    define q2 where "q2 = q1\<lparr>properties := (properties q1)\<lparr>is_active := True\<rparr>\<rparr>"
    obtain d1 p1 where inc: "increment_queue_count dqm qpd q2 = (d1, p1)" by (metis surj_pair)
    define ret1 where "ret1 = (if \<not> sched_running d1 then ret else first_error ret (he_load_mqd env q2))"
    obtain r1 d2 p2 qs1 where l: "restore_queues_nocpsch env ret1 d1 p1 qs = (r1, d2, p2, qs1)" by (metis prod_cases4)
    then have "d2 = dqm'" "p2 = qpd'" "r1 = r"
      using Cons.prems True inc by (simp_all add: q1_def [symmetric] q2_def [symmetric] ret1_def [symmetric] Let_def)
    with Cons.IH [of ret1 d1 p1 qs1] l have "procs dqm' = procs d1" "\<exists>b. qpd' = p1\<lparr>mapped_gws_queue := b\<rparr>" by blast+
    with count_procs(1) [OF inc] gws_trans [OF qpd_count(1) [OF inc]] show ?thesis by simp
  qed
qed (use gws_same in auto)

lemma restore_cpsch_loop_frame:
  assumes "restore_queues_cpsch env dqm qpd qs = (r, dqm', qpd', qs')"
  shows "procs dqm' = procs dqm \<and> (\<exists>b. qpd' = qpd\<lparr>mapped_gws_queue := b\<rparr>)"
  using assms
proof (induction qs arbitrary: dqm qpd qs')
  case (Cons q qs)
  define q1 where "q1 = q\<lparr>properties := (properties q)\<lparr>is_evicted := False\<rparr>\<rparr>"
  show ?case
  proof (cases "QUEUE_IS_ACTIVE (properties q1)")
    case False
    obtain r1 d1 p1 qs1 where l: "restore_queues_cpsch env dqm qpd qs = (r1, d1, p1, qs1)" by (metis prod_cases4)
    then have "d1 = dqm'" "p1 = qpd'" "r1 = r" using Cons.prems False by (simp_all add: q1_def [symmetric] Let_def)
    with Cons.IH l show ?thesis by blast
  next
    case True
    define q2 where "q2 = q1\<lparr>properties := (properties q1)\<lparr>is_active := True\<rparr>\<rparr>"
    obtain d1 p1 where inc: "increment_queue_count dqm qpd q2 = (d1, p1)" by (metis surj_pair)
    obtain ra d2 where x: "(if uses_mes d1 then add_queue_mes env d1 q2 p1 else (OK, d1)) = (ra, d2)" by (metis surj_pair)
    have "sched_only d1 d2"
    proof (cases "uses_mes d1")
      case True
      with x show ?thesis using mes_frame(1) [of env d1 q2 p1 ra d2] by simp
    qed (use x in simp)
    then have d2: "procs d2 = procs dqm" using sched_only_counts(2) count_procs(1) [OF inc] by metis
    have res: "(case ra of Err e \<Rightarrow> (Err e, d2, p1, q2 # qs)
        | OK \<Rightarrow> (case restore_queues_cpsch env d2 p1 qs of (r, d, p, qs') \<Rightarrow> (r, d, p, q2 # qs'))) = (r, dqm', qpd', qs')"
      using Cons.prems True unfolding restore_queues_cpsch.simps Let_def q1_def [symmetric] q2_def [symmetric] inc prod.case x
      by (cases ra) auto
    show ?thesis
    proof (cases ra)
      case (Err e)
      with res have "dqm' = d2" "qpd' = p1" by simp_all
      with d2 qpd_count(1) [OF inc] show ?thesis by simp
    next
      case OK
      obtain r1 d3 p3 qs1 where l: "restore_queues_cpsch env d2 p1 qs = (r1, d3, p3, qs1)" by (metis prod_cases4)
      with res OK have "d3 = dqm'" "p3 = qpd'" "r1 = r" by simp_all
      with Cons.IH [of d2 p1 qs1] l have "procs dqm' = procs d2" "\<exists>b. qpd' = p1\<lparr>mapped_gws_queue := b\<rparr>" by blast+
      with d2 gws_trans [OF qpd_count(1) [OF inc]] show ?thesis by simp
    qed
  qed
qed (use gws_same in auto)

section \<open>The operations of the managers\<close>

lemma evict_cpsch_counts:
  assumes g: "get_qpd d p = Some q" and ev: "evict_process_queues_cpsch env p d = (r, E)"
  shows "\<exists>q1. get_qpd E p = Some q1 \<and> evict_counts q r q1"
proof -
  have p: "qpd_ptr q = p" using get_qpd_Some [OF g] by simp
  define qpd1 where "qpd1 = q\<lparr>evicted := evicted q + 1\<rparr>"
  show ?thesis
  proof (cases "evicted q > 0 \<or> drm_priv q = None")
    case True
    then have "E = put_qpd qpd1 d" "r = OK" using ev g by (simp_all add: evict_process_queues_cpsch_def with_process_def qpd1_def)
    then show ?thesis using g p by (simp add: get_put_qpd qpd1_def evict_counts_def)
  next
    case False
    obtain r1 dqm1 qpd2 qs where l: "evict_queues_cpsch env OK d qpd1 (queues_list qpd1) = (r1, dqm1, qpd2, qs)" by (metis prod_cases4)
    note lp = evict_cpsch_loop [OF l]
    define qpd3 where "qpd3 = qpd2\<lparr>queues_list := qs, last_evict_timestamp := he_jiffies env\<rparr>"
    obtain r4 E' where x: "execute_queues_cpsch env (if is_debug qpd2 then KFD_UNMAP_QUEUES_FILTER_ALL_QUEUES
        else KFD_UNMAP_QUEUES_FILTER_DYNAMIC_QUEUES) 0 USE_DEFAULT_GRACE_PERIOD (put_qpd qpd3 dqm1) = (r4, E')" by fastforce
    have "(r, E) = (if uses_mes (put_qpd qpd3 dqm1) then (r1, put_qpd qpd3 dqm1) else (r4, E'))"
      unfolding ev [symmetric] x [symmetric] evict_process_queues_cpsch_def with_process_def g option.case Let_def
        qpd1_def [symmetric] l prod.case qpd3_def [symmetric] if_not_P [OF False] ..
    then have "sched_only (put_qpd qpd3 dqm1) E" using execute_queues_frame [OF x] by (auto split: if_splits)
    then have "get_qpd E p = get_qpd (put_qpd qpd3 dqm1) p" by (intro get_qpd_cong) (rule sched_only_fields)
    moreover have "get_qpd dqm1 p = Some q" using lp g get_qpd_cong [OF procs_queues, of dqm1 d] by (simp add: moves_def)
    moreover have "qpd_ptr qpd3 = p" "evicted qpd3 = evicted q + 1" using lp p by (auto simp: qpd3_def qpd1_def)
    ultimately show ?thesis using False by (auto simp: get_put_qpd evict_counts_def)
  qed
qed

lemma restore_cpsch_counts:
  assumes g: "get_qpd d p = Some q" and rs: "restore_process_queues_cpsch env p d = (r, E)"
  shows "\<exists>q1. get_qpd E p = Some q1 \<and> restore_counts q r q1"
proof -
  have p: "qpd_ptr q = p" using get_qpd_Some [OF g] by simp
  show ?thesis
  proof (cases q rule: evicted_cases)
    case 1
    with rs g show ?thesis by (simp add: restore_process_queues_cpsch_def with_process_def restore_counts_def)
  next
    case 3
    with rs g p show ?thesis by (auto simp: restore_process_queues_cpsch_def with_process_def restore_counts_def get_put_qpd)
  next
    case 2
    show ?thesis
    proof (cases "drm_priv q = None")
      case True
      with 2 rs g p show ?thesis by (auto simp: restore_process_queues_cpsch_def with_process_def restore_counts_def get_put_qpd)
    next
      case False
      define qpd0 where "qpd0 = q\<lparr>page_table_base := he_pd_base env\<rparr>"
      obtain r1 dqm1 qpd1 qs where l: "restore_queues_cpsch env d qpd0 (queues_list q) = (r1, dqm1, qpd1, qs)" by (metis prod_cases4)
      note lp = restore_cpsch_loop_frame [OF l]
      define qpd2 where "qpd2 = qpd1\<lparr>queues_list := qs\<rparr>"
      define qpd3 where "qpd3 = qpd2\<lparr>evict_duration_counter := evict_duration_counter qpd2 +
        (he_jiffies env - last_evict_timestamp qpd2), evicted := 0\<rparr>"
      obtain r2 dqm3 where x: "(if \<not> uses_mes (put_qpd qpd2 dqm1) then refresh env (put_qpd qpd2 dqm1)
          else (OK, put_qpd qpd2 dqm1)) = (r2, dqm3)" by fastforce
      have eq: "(r, E) = (case r1 of Err e \<Rightarrow> (Err e, put_qpd qpd2 dqm1) | OK \<Rightarrow> (r2, put_qpd qpd3 dqm3))"
        unfolding rs [symmetric] restore_process_queues_cpsch_def with_process_def g option.case
        Let_def qpd0_def [symmetric] l prod.case qpd2_def [symmetric] x qpd3_def [symmetric]
        using 2 False by (cases r1) auto
      have g1: "get_qpd dqm1 p = Some q" using lp g get_qpd_cong [OF procs_queues, of dqm1 d] by simp
      have q: "qpd_ptr qpd2 = p" "evicted qpd2 = 1" "qpd_ptr qpd3 = p" using lp p 2 by (auto simp: qpd2_def qpd3_def qpd0_def)
      have "sched_only (put_qpd qpd2 dqm1) dqm3" using x execute_queues_frame by (fastforce split: if_splits)
      then have "get_qpd dqm3 p = get_qpd (put_qpd qpd2 dqm1) p" by (intro get_qpd_cong) (rule sched_only_fields)
      then have g3: "get_qpd dqm3 p = Some qpd2" using g1 q by (simp add: get_put_qpd)
      show ?thesis
      proof (cases r1)
        case (Err e)
        with eq g1 q 2 show ?thesis by (auto simp: get_put_qpd restore_counts_def)
      next
        case OK
        with eq g3 q 2 show ?thesis by (auto simp: get_put_qpd restore_counts_def qpd3_def)
      qed
    qed
  qed
qed

lemma evict_unlinked_counts:
  assumes "evict_unlinked_cpsch env d q = (r, d1, q1)"
  shows "evict_counts q r q1 \<and> qpd_ptr q1 = qpd_ptr q \<and> dqm_queues d1 = dqm_queues d"
proof -
  define qpd1 where "qpd1 = q\<lparr>evicted := evicted q + 1\<rparr>"
  show ?thesis
  proof (cases "evicted q > 0 \<or> drm_priv q = None")
    case True
    with assms show ?thesis by (auto simp: evict_unlinked_cpsch_def evict_counts_def Let_def)
  next
    case False
    obtain r1 dqm1 qpd2 qs where l: "evict_queues_cpsch env OK d qpd1 (queues_list qpd1) = (r1, dqm1, qpd2, qs)" by (metis prod_cases4)
    note lp = evict_cpsch_loop [OF l]
    obtain r4 E where x: "execute_queues_cpsch env (if is_debug qpd2 then KFD_UNMAP_QUEUES_FILTER_ALL_QUEUES
        else KFD_UNMAP_QUEUES_FILTER_DYNAMIC_QUEUES) 0 USE_DEFAULT_GRACE_PERIOD dqm1 = (r4, E)" by fastforce
    have "q1 = qpd2\<lparr>queues_list := qs, last_evict_timestamp := he_jiffies env\<rparr>" "d1 = dqm1 \<or> d1 = E"
      using assms False unfolding evict_unlinked_cpsch_def Let_def qpd1_def [symmetric] l prod.case x by (auto split: if_splits)
    moreover have "dqm_queues dqm1 = dqm_queues d" using lp by (simp add: moves_def procs_def)
    moreover have "dqm_queues E = dqm_queues dqm1" using execute_queues_frame [OF x] by (rule sched_only_fields)
    ultimately show ?thesis using lp False by (auto simp: evict_counts_def qpd1_def)
  qed
qed

lemma restore_unlinked_counts:
  assumes "restore_unlinked_cpsch env d q = (r, d1, q1)"
  shows "restore_counts q r q1 \<and> qpd_ptr q1 = qpd_ptr q \<and> dqm_queues d1 = dqm_queues d"
proof (cases q rule: evicted_cases)
  case 2
  show ?thesis
  proof (cases "drm_priv q = None")
    case False
    obtain r1 dqm1 qpd1 qs where l: "restore_queues_cpsch env d (q\<lparr>page_table_base := he_pd_base env\<rparr>) (queues_list q) = (r1, dqm1, qpd1, qs)"
      by (metis prod_cases4)
    note lp = restore_cpsch_loop_frame [OF l]
    have d: "dqm_queues dqm1 = dqm_queues d" using lp by (simp add: procs_def)
    obtain r2 E where x: "(if \<not> uses_mes dqm1 then refresh env dqm1 else (OK, dqm1)) = (r2, E)" by fastforce
    have "sched_only dqm1 E" using x execute_queues_frame by (fastforce split: if_splits)
    then have e: "dqm_queues E = dqm_queues dqm1" by (rule sched_only_fields)
    show ?thesis
    proof (cases r1)
      case (Err e)
      with assms 2 False l d lp show ?thesis by (auto simp: restore_unlinked_cpsch_def restore_counts_def)
    next
      case OK
      have "q1 = qpd1\<lparr>queues_list := qs, evict_duration_counter := evict_duration_counter qpd1 + (he_jiffies env - last_evict_timestamp qpd1), evicted := 0\<rparr>"
        "d1 = E"
        using assms 2 False unfolding restore_unlinked_cpsch_def Let_def l prod.case OK retval.case x by auto
      with d e lp 2 show ?thesis by (auto simp: restore_counts_def)
    qed
  qed (use assms 2 in \<open>auto simp: restore_unlinked_cpsch_def restore_counts_def\<close>)
qed (use assms in \<open>auto simp: restore_unlinked_cpsch_def restore_counts_def\<close>)

lemma evict_nocpsch_counts:
  assumes "evict_process_queues_nocpsch env d q = (r, d1, q1)"
  shows "evict_counts q r q1 \<and> qpd_ptr q1 = qpd_ptr q \<and> dqm_queues d1 = dqm_queues d"
proof -
  have "0 < evicted q \<longrightarrow> r = OK \<and> q1 = q\<lparr>evicted := evicted q + 1\<rparr>" using assms by (auto simp: evict_process_queues_nocpsch_def Let_def)
  with evict_nocpsch_post [OF assms] show ?thesis by (auto simp: evict_counts_def qview_def moves_def procs_def)
qed

lemma restore_nocpsch_counts:
  assumes "restore_process_queues_nocpsch env d q = (r, d1, q1)"
  shows "restore_counts q r q1 \<and> qpd_ptr q1 = qpd_ptr q \<and> dqm_queues d1 = dqm_queues d"
proof (cases q rule: evicted_cases)
  case 2
  obtain r1 d2 q2 qs where l: "restore_queues_nocpsch env OK d (q\<lparr>page_table_base := he_pd_base env\<rparr>) (queues_list q) = (r1, d2, q2, qs)"
    by (metis prod_cases4)
  note lp = restore_nocpsch_loop_frame [OF l]
  from assms 2 l lp show ?thesis
    by (cases "he_mm env") (auto simp: restore_process_queues_nocpsch_def restore_counts_def procs_def Let_def)
qed (use assms in \<open>auto simp: restore_process_queues_nocpsch_def restore_counts_def\<close>)

section \<open>One device\<close>

text \<open>The structures of a process, device by device.\<close>

definition structs :: "process_queue_manager \<Rightarrow> qcm_process_device list" where
  "structs st = map (\<lambda>pdd. the_qpd pdd st) (pdds st)"

text \<open>An operation on the structure of a process, linked or not, that relates the old and the new structure by \<open>R\<close>.\<close>

locale pdd_operation =
  fixes linked_op :: "nat \<Rightarrow> device_queue_manager \<Rightarrow> retval \<times> device_queue_manager"
    and unlinked_op :: "device_queue_manager \<Rightarrow> qcm_process_device \<Rightarrow> retval \<times> device_queue_manager \<times> qcm_process_device"
    and R :: "qcm_process_device \<Rightarrow> retval \<Rightarrow> qcm_process_device \<Rightarrow> bool"
  assumes linked_ok: "get_qpd d p = Some q \<Longrightarrow> linked_op p d = (r, d1) \<Longrightarrow> \<exists>q1. get_qpd d1 p = Some q1 \<and> R q r q1"
    and unlinked_ok: "unlinked_op d q = (r, d1, q1) \<Longrightarrow> R q r q1 \<and> qpd_ptr q1 = qpd_ptr q \<and> dqm_queues d1 = dqm_queues d"
begin

lemma pdd_op_effect:
  assumes o: "pdd_op linked_op unlinked_op (pdds st ! i) st = (r, st1)" and i: "i < length (pdds st)" and dist: "distinct (map pdd_dev (pdds st))"
  shows "map pdd_dev (pdds st1) = map pdd_dev (pdds st) \<and> (\<exists>q1. R (structs st ! i) r q1 \<and> structs st1 = (structs st)[i := q1])"
proof -
  define pdd where "pdd = pdds st ! i"
  define dqm where "dqm = dqms st (pdd_dev pdd)"
  have si: "structs st ! i = the_qpd pdd st" using i by (simp add: structs_def pdd_def)
  have other: "pdd_dev (pdds st ! j) \<noteq> pdd_dev pdd" if "j < length (pdds st)" "j \<noteq> i" for j
    using dist i that by (auto simp: pdd_def distinct_conv_nth)
  show ?thesis
  proof (cases "get_qpd dqm (pdd_ptr pdd)")
    case (Some q)
    obtain r1 d1 where l: "linked_op (pdd_ptr pdd) dqm = (r1, d1)" by (metis surj_pair)
    with o Some have e: "r1 = r" "st1 = set_dqm (pdd_dev pdd) d1 st" by (simp_all add: pdd_op_def pdd_def dqm_def Let_def)
    from linked_ok [OF Some l] obtain q1 where q1: "get_qpd d1 (pdd_ptr pdd) = Some q1" "R q r q1" using e(1) by auto
    have "the_qpd (pdds st ! j) st1 = (if j = i then q1 else the_qpd (pdds st ! j) st)" if "j < length (pdds st)" for j
      using other [OF that] q1(1) by (auto simp: e(2) the_qpd_def set_dqm_def pdd_def)
    moreover have "pdds st1 = pdds st" by (simp add: e(2) set_dqm_def)
    ultimately have "structs st1 = (structs st)[i := q1]" using i by (auto simp: structs_def list_eq_iff_nth_eq nth_list_update)
    moreover have "the_qpd pdd st = q" using Some by (simp add: the_qpd_def dqm_def)
    ultimately show ?thesis using q1(2) \<open>pdds st1 = pdds st\<close> si by auto
  next
    case None
    obtain r1 d1 q1 where l: "unlinked_op dqm (pdd_qpd pdd) = (r1, d1, q1)" by (metis prod_cases3)
    with o None have e: "r1 = r" "st1 = put_pdd (pdd\<lparr>pdd_qpd := q1\<rparr>) (set_dqm (pdd_dev pdd) d1 st)"
      by (simp_all add: pdd_op_def pdd_def dqm_def Let_def)
    note u = unlinked_ok [OF l]
    have n: "get_qpd d1 (pdd_ptr pdd) = None" using None u by (simp add: get_qpd_def)
    have p: "pdds st1 = map (\<lambda>x. if pdd_dev x = pdd_dev pdd then pdd\<lparr>pdd_qpd := q1\<rparr> else x) (pdds st)"
      by (simp add: e(2) put_pdd_def set_dqm_def)
    have "the_qpd (pdds st1 ! j) st1 = (if j = i then q1 else the_qpd (pdds st ! j) st)" if "j < length (pdds st)" for j
      using other [OF that] that n u by (auto simp: p pdd_def [symmetric] the_qpd_def e(2) put_pdd_def set_dqm_def pdd_ptr_def)
    moreover have "length (pdds st1) = length (pdds st)" by (simp add: p)
    ultimately have "structs st1 = (structs st)[i := q1]" using i by (auto simp: structs_def list_eq_iff_nth_eq nth_list_update)
    moreover have "the_qpd pdd st = pdd_qpd pdd" using None by (simp add: the_qpd_def dqm_def)
    moreover have "map pdd_dev (pdds st1) = map pdd_dev (pdds st)" by (simp add: p)
    ultimately show ?thesis using u e(1) si by auto
  qed
qed

end

lemma on_qpd_counts:
  assumes "get_qpd d p = Some q" "on_qpd f p d = (r, d1)"
    and "\<And>d1 q1. f d q = (r, d1, q1) \<Longrightarrow> R q r q1 \<and> qpd_ptr q1 = qpd_ptr q \<and> dqm_queues d1 = dqm_queues d"
  shows "\<exists>q1. get_qpd d1 p = Some q1 \<and> R q r q1"
proof -
  obtain r2 d2 q2 where f: "f d q = (r2, d2, q2)" by (metis prod_cases3)
  with assms(1,2) have e: "r2 = r" "d1 = put_qpd q2 d2" by (simp_all add: on_qpd_def)
  from assms(3) [of d2 q2] f e(1) have "R q r q2" "qpd_ptr q2 = p" "get_qpd d2 p = Some q"
    using get_qpd_Some [OF assms(1)] assms(1) get_qpd_cong [of d2 d p] by auto
  then show ?thesis by (auto simp: e(2) get_put_qpd)
qed

interpretation evict_pdd: pdd_operation "ops_evict_process_queues env" "if nocp then evict_process_queues_nocpsch env else evict_unlinked_cpsch env" evict_counts
  for env nocp
proof
  show "\<exists>q1. get_qpd d1 p = Some q1 \<and> evict_counts q r q1"
    if "get_qpd d p = Some q" "ops_evict_process_queues env p d = (r, d1)" for d p q r d1
  proof (cases "sched_policy d = KFD_SCHED_POLICY_NO_HWS")
    case True
    with that(2) have "on_qpd (evict_process_queues_nocpsch env) p d = (r, d1)" by (simp add: ops_evict_process_queues_def)
    from that(1) this evict_nocpsch_counts show ?thesis by (rule on_qpd_counts)
  next
    case False
    with that(2) have "evict_process_queues_cpsch env p d = (r, d1)" by (simp add: ops_evict_process_queues_def)
    from evict_cpsch_counts [OF that(1) this] show ?thesis .
  qed
  show "evict_counts q r q1 \<and> qpd_ptr q1 = qpd_ptr q \<and> dqm_queues d1 = dqm_queues d"
    if "(if nocp then evict_process_queues_nocpsch env else evict_unlinked_cpsch env) d q = (r, d1, q1)" for d q r d1 q1
    using that evict_nocpsch_counts [of env d q r d1 q1] evict_unlinked_counts [of env d q r d1 q1] by (cases nocp) auto
qed

interpretation restore_pdd: pdd_operation "ops_restore_process_queues env" "if nocp then restore_process_queues_nocpsch env else restore_unlinked_cpsch env"
  restore_counts for env nocp
proof
  show "\<exists>q1. get_qpd d1 p = Some q1 \<and> restore_counts q r q1"
    if "get_qpd d p = Some q" "ops_restore_process_queues env p d = (r, d1)" for d p q r d1
  proof (cases "sched_policy d = KFD_SCHED_POLICY_NO_HWS")
    case True
    with that(2) have "on_qpd (restore_process_queues_nocpsch env) p d = (r, d1)" by (simp add: ops_restore_process_queues_def)
    from that(1) this restore_nocpsch_counts show ?thesis by (rule on_qpd_counts)
  next
    case False
    with that(2) have "restore_process_queues_cpsch env p d = (r, d1)" by (simp add: ops_restore_process_queues_def)
    from restore_cpsch_counts [OF that(1) this] show ?thesis .
  qed
  show "restore_counts q r q1 \<and> qpd_ptr q1 = qpd_ptr q \<and> dqm_queues d1 = dqm_queues d"
    if "(if nocp then restore_process_queues_nocpsch env else restore_unlinked_cpsch env) d q = (r, d1, q1)" for d q r d1 q1
    using that restore_nocpsch_counts [of env d q r d1 q1] restore_unlinked_counts [of env d q r d1 q1] by (cases nocp) auto
qed

section \<open>The loops\<close>

lemma pdd_evict_effect:
  assumes "pdd_evict env (pdds st ! i) st = (r, st1)" "i < length (pdds st)" "distinct (map pdd_dev (pdds st))"
  shows "map pdd_dev (pdds st1) = map pdd_dev (pdds st)" "\<exists>q1. evict_counts (structs st ! i) r q1 \<and> structs st1 = (structs st)[i := q1]"
  using evict_pdd.pdd_op_effect [OF assms(1) [unfolded pdd_evict_def] assms(2,3)] by auto

lemma pdd_restore_effect:
  assumes "pdd_restore env (pdds st ! i) st = (r, st1)" "i < length (pdds st)" "distinct (map pdd_dev (pdds st))"
  shows "map pdd_dev (pdds st1) = map pdd_dev (pdds st)" "\<exists>q1. restore_counts (structs st ! i) r q1 \<and> structs st1 = (structs st)[i := q1]"
  using restore_pdd.pdd_op_effect [OF assms(1) [unfolded pdd_restore_def] assms(2,3)] by auto

definition soft :: "retval \<Rightarrow> bool" where
  "soft r \<longleftrightarrow> r = OK \<or> r = Err EIO"

lemma evict_pdds_effect:
  assumes "evict_pdds env [k..<n] r0 m st = (r, m', failed, st1)" "n = length (pdds st)" "k \<le> n" "distinct (map pdd_dev (pdds st))" "soft r0"
  shows "map pdd_dev (pdds st1) = map pdd_dev (pdds st) \<and> failed = (\<not> soft r) \<and>
    (\<exists>j \<le> n. k \<le> j \<and> m' = m + (j - k) \<and> (if failed then j < n else j = n) \<and>
       (\<forall>i < n. k \<le> i \<and> i < j + (if failed then 1 else 0) \<longrightarrow> (\<exists>r1. evict_counts (structs st ! i) r1 (structs st1 ! i) \<and> (i < j \<longrightarrow> soft r1))) \<and>
       (\<forall>i < n. i < k \<or> i \<ge> j + (if failed then 1 else 0) \<longrightarrow> structs st1 ! i = structs st ! i))"
  using assms
proof (induction "n - k" arbitrary: k r0 m st)
  case 0
  then have "[k..<n] = []" "k = n" by simp_all
  with 0 show ?case by auto
next
  case (Suc x)
  then have k: "[k..<n] = k # [Suc k..<n]" "k < n" by (simp_all add: upt_conv_Cons)
  obtain r1 st2 where e: "pdd_evict (env k) (pdds st ! k) st = (r1, st2)" by (metis surj_pair)
  have kl: "k < length (pdds st)" using k Suc.prems(2) by simp
  note ef = pdd_evict_effect [OF e kl Suc.prems(4)]
  from ef(2) obtain q1 where q1: "evict_counts (structs st ! k) r1 q1" "structs st2 = (structs st)[k := q1]" by blast
  have len: "length (structs st) = n" "length (pdds st2) = n" using Suc.prems(2) ef(1) by (auto simp: structs_def dest: map_eq_imp_length_eq)
  show ?case
  proof (cases "soft r1")
    case False
    then have "r = r1" "m' = m" "failed" "st1 = st2" using Suc.prems(1) e k by (auto simp: soft_def)
    with False ef(1) q1 len k show ?thesis by (auto intro!: exI [of _ k] exI [of _ r1] simp: nth_list_update)
  next
    case True
    then have ev: "evict_pdds env [Suc k..<n] r1 (Suc m) st2 = (r, m', failed, st1)" using Suc.prems(1) e k by (auto simp: soft_def)
    have "x = n - Suc k" using Suc.hyps(2) by simp
    from Suc.hyps(1) [OF this ev len(2) [symmetric] _ _ True] k ef(1) Suc.prems(4) obtain j where
      ih: "map pdd_dev (pdds st1) = map pdd_dev (pdds st2)" "failed = (\<not> soft r)" "j \<le> n" "Suc k \<le> j" "m' = Suc m + (j - Suc k)"
        "if failed then j < n else j = n"
        "\<forall>i < n. Suc k \<le> i \<and> i < j + (if failed then 1 else 0) \<longrightarrow> (\<exists>r1. evict_counts (structs st2 ! i) r1 (structs st1 ! i) \<and> (i < j \<longrightarrow> soft r1))"
        "\<forall>i < n. i < Suc k \<or> i \<ge> j + (if failed then 1 else 0) \<longrightarrow> structs st1 ! i = structs st2 ! i"
      by auto
    have 1: "\<exists>r1. evict_counts (structs st ! i) r1 (structs st1 ! i) \<and> (i < j \<longrightarrow> soft r1)" if "i < n" "k \<le> i" "i < j + (if failed then 1 else 0)" for i
    proof (cases "i = k")
      case i: True
      then show ?thesis using ih(8) q1 len k True by (auto simp: nth_list_update)
    next
      case False
      then show ?thesis using ih(7) that q1(2) by (auto simp: nth_list_update)
    qed
    have 2: "structs st1 ! i = structs st ! i" if "i < n" "i < k \<or> i \<ge> j + (if failed then 1 else 0)" for i
      using ih(4,8) that q1(2) by (auto simp: nth_list_update split: if_splits)
    have "map pdd_dev (pdds st1) = map pdd_dev (pdds st)" "k \<le> j" "m' = m + (j - k)" using ih(1,4,5) ef(1) by auto
    with 1 2 ih(2,3,6) show ?thesis by blast
  qed
qed

text \<open>A process that is evicted already only counts.\<close>

lemma evict_pdds_nested:
  assumes "n = length (pdds st)" "k \<le> n" "distinct (map pdd_dev (pdds st))" "\<forall>i < n. k \<le> i \<longrightarrow> 0 < evicted (structs st ! i)"
  shows "\<exists>m' st1. evict_pdds env [k..<n] OK m st = (OK, m', False, st1) \<and> map pdd_dev (pdds st1) = map pdd_dev (pdds st) \<and>
    (\<forall>i < n. structs st1 ! i = (if k \<le> i then (structs st ! i)\<lparr>evicted := evicted (structs st ! i) + 1\<rparr> else structs st ! i))"
  using assms
proof (induction "n - k" arbitrary: k m st)
  case 0
  then have "[k..<n] = []" "k = n" by simp_all
  with 0 show ?case by auto
next
  case (Suc x)
  then have k: "[k..<n] = k # [Suc k..<n]" "k < n" "k < length (pdds st)" by (simp_all add: upt_conv_Cons)
  obtain r1 st2 where e: "pdd_evict (env k) (pdds st ! k) st = (r1, st2)" by (metis surj_pair)
  note ef = pdd_evict_effect [OF e k(3) Suc.prems(3)]
  then have q1: "r1 = OK" "structs st2 = (structs st)[k := (structs st ! k)\<lparr>evicted := evicted (structs st ! k) + 1\<rparr>]"
    using Suc.prems(4) k(2) by (auto simp: evict_counts_def)
  have len: "length (structs st) = n" "n = length (pdds st2)" using Suc.prems(1) ef(1) by (auto simp: structs_def dest: map_eq_imp_length_eq)
  have p: "\<forall>i < n. Suc k \<le> i \<longrightarrow> 0 < evicted (structs st2 ! i)" using Suc.prems(4) by (auto simp: q1(2))
  have "x = n - Suc k" "Suc k \<le> n" "distinct (map pdd_dev (pdds st2))" using Suc.hyps(2) k ef(1) Suc.prems(3) by auto
  from Suc.hyps(1) [OF this(1) len(2) this(2,3) p, of "Suc m"] obtain m' st1 where
    ih: "evict_pdds env [Suc k..<n] OK (Suc m) st2 = (OK, m', False, st1)" "map pdd_dev (pdds st1) = map pdd_dev (pdds st2)"
      "\<forall>i < n. structs st1 ! i = (if Suc k \<le> i then (structs st2 ! i)\<lparr>evicted := evicted (structs st2 ! i) + 1\<rparr> else structs st2 ! i)"
    by blast
  have "evict_pdds env [k..<n] OK m st = (OK, m', False, st1)" using ih(1) e q1(1) k(1) by simp
  moreover have "structs st1 ! i = (if k \<le> i then (structs st ! i)\<lparr>evicted := evicted (structs st ! i) + 1\<rparr> else structs st ! i)" if "i < n" for i
    using ih(3) that q1(2) len(1) by (cases "i = k") (auto simp: nth_list_update)
  ultimately show ?case using ih(2) ef(1) by auto
qed

text \<open>
  What the devices answer: to the first loop, up to the device that fails, and to the calls of the rollback.
\<close>

fun evict_codes :: "(nat \<Rightarrow> hw_env) \<Rightarrow> nat list \<Rightarrow> process_queue_manager \<Rightarrow> retval list" where
  "evict_codes env [] st = []"
| "evict_codes env (i # is) st =
     (case pdd_evict (env i) (pdds st ! i) st of (r, st1) \<Rightarrow> r # (if soft r then evict_codes env is st1 else []))"

fun rollback_codes :: "(nat \<Rightarrow> hw_env) \<Rightarrow> nat list \<Rightarrow> nat \<Rightarrow> process_queue_manager \<Rightarrow> retval list" where
  "rollback_codes env [] n st = []"
| "rollback_codes env (i # is) n st =
     (if n = 0 then [] else case pdd_restore (env i) (pdds st ! i) st of (r, st1) \<Rightarrow> r # rollback_codes env is (n - 1) st1)"

definition process_rollback_codes :: "(nat \<Rightarrow> hw_env) \<Rightarrow> (nat \<Rightarrow> hw_env) \<Rightarrow> process_queue_manager \<Rightarrow> retval list" where
  "process_rollback_codes env renv st =
     (case evict_pdds env [0..<length (pdds st)] OK 0 st of
        (r, n, failed, st1) \<Rightarrow> if failed then rollback_codes renv [0..<length (pdds st)] n st1 else [])"

lemma evict_pdds_codes:
  assumes "evict_pdds env is r0 m st = (r, m', failed, st1)"
  shows "r = (if evict_codes env is st = [] then r0 else last (evict_codes env is st)) \<and>
    failed = (\<exists>c \<in> set (evict_codes env is st). \<not> soft c) \<and>
    (if failed then m' + 1 = m + length (evict_codes env is st) \<and> (\<forall>c \<in> set (butlast (evict_codes env is st)). soft c)
     else length (evict_codes env is st) = length is)"
  using assms
proof (induction env "is" r0 m st rule: evict_pdds.induct)
  case (2 env i "is" r0 m st)
  obtain r1 st2 where e: "pdd_evict (env i) (pdds st ! i) st = (r1, st2)" by (metis surj_pair)
  show ?case
  proof (cases "soft r1")
    case True
    with 2 e show ?thesis by (auto simp: soft_def split: if_splits)
  next
    case False
    with 2(2) e show ?thesis by (auto simp: soft_def split: if_splits)
  qed
qed auto

lemma rollback_effect:
  assumes "n = length (pdds st)" "k + m \<le> n" "distinct (map pdd_dev (pdds st))" "st1 = rollback_pdds env [k..<n] m st"
  shows "map pdd_dev (pdds st1) = map pdd_dev (pdds st) \<and> length (rollback_codes env [k..<n] m st) = m \<and>
    (\<forall>i < n. if k \<le> i \<and> i < k + m then restore_counts (structs st ! i) (rollback_codes env [k..<n] m st ! (i - k)) (structs st1 ! i)
      else structs st1 ! i = structs st ! i)"
  using assms
proof (induction m arbitrary: k st)
  case 0
  then show ?case by (cases "[k..<n]") auto
next
  case (Suc m)
  then have k: "[k..<n] = k # [Suc k..<n]" "k < length (pdds st)" by (simp_all add: upt_conv_Cons)
  obtain r st2 where e: "pdd_restore (env k) (pdds st ! k) st = (r, st2)" by (metis surj_pair)
  note ef = pdd_restore_effect [OF e k(2) Suc.prems(3)]
  from ef(2) obtain q1 where q1: "restore_counts (structs st ! k) r q1" "structs st2 = (structs st)[k := q1]" by blast
  have len: "length (structs st) = n" "length (pdds st2) = n" using Suc.prems(1) ef(1) by (auto simp: structs_def dest: map_eq_imp_length_eq)
  have "st1 = rollback_pdds env [Suc k..<n] m st2" using Suc.prems(4) e k by simp
  with Suc.IH [of st2 "Suc k"] len ef(1) Suc.prems have ih: "map pdd_dev (pdds st1) = map pdd_dev (pdds st2)"
    "length (rollback_codes env [Suc k..<n] m st2) = m"
    "\<And>i. i < n \<Longrightarrow> if Suc k \<le> i \<and> i < Suc k + m
       then restore_counts (structs st2 ! i) (rollback_codes env [Suc k..<n] m st2 ! (i - Suc k)) (structs st1 ! i)
       else structs st1 ! i = structs st2 ! i"
    by auto
  have c: "rollback_codes env [k..<n] (Suc m) st = r # rollback_codes env [Suc k..<n] m st2" using e k by simp
  have "if k \<le> i \<and> i < k + Suc m then restore_counts (structs st ! i) (rollback_codes env [k..<n] (Suc m) st ! (i - k)) (structs st1 ! i)
      else structs st1 ! i = structs st ! i" if "i < n" for i
    unfolding c using ih(3) [OF that] q1 len that
    by (cases "i = k") (auto simp: nth_list_update nth_Cons' split: if_splits)
  moreover have "map pdd_dev (pdds st1) = map pdd_dev (pdds st)" "length (rollback_codes env [k..<n] (Suc m) st) = Suc m"
    using ih(1,2) ef(1) c by simp_all
  ultimately show ?case by blast
qed

lemma restore_pdds_effect:
  assumes "restore_pdds env [k..<n] ret st = (r, st1)" "n = length (pdds st)" "k \<le> n" "distinct (map pdd_dev (pdds st))"
  shows "map pdd_dev (pdds st1) = map pdd_dev (pdds st) \<and>
    (\<exists>rs. (\<forall>i < n. if k \<le> i then restore_counts (structs st ! i) (rs i) (structs st1 ! i) else structs st1 ! i = structs st ! i) \<and>
      (r = OK \<longleftrightarrow> ret = OK \<and> (\<forall>i. k \<le> i \<and> i < n \<longrightarrow> rs i = OK)))"
  using assms
proof (induction "n - k" arbitrary: k ret st)
  case 0
  then have "[k..<n] = []" "k = n" by simp_all
  with 0 show ?case by auto
next
  case (Suc x)
  then have k: "[k..<n] = k # [Suc k..<n]" "k < length (pdds st)" "k < n" by (simp_all add: upt_conv_Cons)
  obtain r1 st2 where e: "pdd_restore (env k) (pdds st ! k) st = (r1, st2)" by (metis surj_pair)
  note ef = pdd_restore_effect [OF e k(2) Suc.prems(4)]
  from ef(2) obtain q1 where q1: "restore_counts (structs st ! k) r1 q1" "structs st2 = (structs st)[k := q1]" by blast
  have len: "length (structs st) = n" "length (pdds st2) = n" using Suc.prems(2) ef(1) by (auto simp: structs_def dest: map_eq_imp_length_eq)
  have "restore_pdds env [Suc k..<n] (first_error ret r1) st2 = (r, st1)" using Suc.prems(1) e k by simp
  moreover have "x = n - Suc k" using Suc.hyps(2) by simp
  ultimately obtain rs where ih: "map pdd_dev (pdds st1) = map pdd_dev (pdds st2)"
    "\<And>i. i < n \<Longrightarrow> if Suc k \<le> i then restore_counts (structs st2 ! i) (rs i) (structs st1 ! i) else structs st1 ! i = structs st2 ! i"
    "r = OK \<longleftrightarrow> first_error ret r1 = OK \<and> (\<forall>i. Suc k \<le> i \<and> i < n \<longrightarrow> rs i = OK)"
    using Suc.hyps(1) [of k "first_error ret r1" st2] Suc.hyps(1) [of "Suc k" "first_error ret r1" st2] len ef(1) Suc.prems k by auto
  define rs' where "rs' = rs(k := r1)"
  have 1: "\<forall>i < n. if k \<le> i then restore_counts (structs st ! i) (rs' i) (structs st1 ! i) else structs st1 ! i = structs st ! i"
  proof (intro allI impI)
    show "if k \<le> i then restore_counts (structs st ! i) (rs' i) (structs st1 ! i) else structs st1 ! i = structs st ! i" if "i < n" for i
      using ih(2) [OF that] q1 len that by (cases "i = k") (auto simp: nth_list_update rs'_def split: if_splits)
  qed
  have 2: "r = OK \<longleftrightarrow> ret = OK \<and> (\<forall>i. k \<le> i \<and> i < n \<longrightarrow> rs' i = OK)"
    using ih(3) k(3) by (auto simp: rs'_def first_error_def Suc_le_eq split: if_splits)
  have "map pdd_dev (pdds st1) = map pdd_dev (pdds st)" using ih(1) ef(1) by simp
  with 1 2 show ?case by blast
qed

section \<open>Examples\<close>

text \<open>Two devices without hardware scheduler. The process has an active queue on the first, and no queues on the second.\<close>

definition evict_example :: "u32 \<Rightarrow> u32 \<Rightarrow> process_queue_manager" where
  "evict_example m n =
     \<lparr>pqm_queues = [], queue_slot_bitmap = [],
      pdds = [\<lparr>pdd_dev = 0, pdd_qpd = qpd_example 1 0x8001 [], proc_ctx_cpu_ptr = False, already_dequeued = False\<rparr>,
              \<lparr>pdd_dev = 1, pdd_qpd = (qpd_example 9 0x8001 [])\<lparr>evicted := n\<rparr>, proc_ctx_cpu_ptr = False, already_dequeued = False\<rparr>],
      dqms = (\<lambda>_. dqm_example\<lparr>sched_policy := KFD_SCHED_POLICY_NO_HWS,
        dqm_queues := [(qpd_example 1 0x8001 [queue_example 11 KFD_QUEUE_TYPE_COMPUTE (m = 0)])\<lparr>evicted := m\<rparr>]\<rparr>),
      max_no_of_hqd = (\<lambda>_. 0), gang_ctx_live = 0\<rparr>"

text \<open>With the hardware scheduler, on hardware that does not answer.\<close>

definition hang_example :: process_queue_manager where
  "hang_example = (evict_example 0 0)\<lparr>dqms := \<lambda>_. dqm_example\<lparr>is_hws_hang := True, active_runlist := True\<rparr>\<rparr>"

section \<open>Eviction counts\<close>

definition evs :: "process_queue_manager \<Rightarrow> u32 list" where
  "evs st = map evicted (structs st)"

lemma evs_nth: "i < length (pdds st) \<Longrightarrow> evs st ! i = evicted (structs st ! i)"
  by (simp add: evs_def structs_def)

lemma evict_queues_all:
  assumes "distinct (map pdd_dev (pdds st))" "kfd_process_evict_queues env renv st = (r, st')" "soft r" "i < length (pdds st)"
  shows "evs st' ! i = evs st ! i + 1"
proof -
  obtain r1 m failed st1 where e: "evict_pdds env [0..<length (pdds st)] OK 0 st = (r1, m, failed, st1)" by (metis prod_cases4)
  with assms(2) have r: "r = r1" "st' = (if failed then rollback_pdds renv [0..<length (pdds st)] m st1 else st1)"
    by (auto simp: kfd_process_evict_queues_def)
  note ef = evict_pdds_effect [OF e refl _ assms(1)]
  have "map pdd_dev (pdds st1) = map pdd_dev (pdds st)" "\<not> failed" "evicted (structs st1 ! i) = evicted (structs st ! i) + 1"
    using ef assms(3,4) r(1) by (auto simp: evict_counts_def soft_def)
  moreover from this(1) have "length (pdds st1) = length (pdds st)" by (metis length_map)
  ultimately show ?thesis using r(2) assms(4) by (simp add: evs_nth)
qed

lemma restore_queues_counts:
  assumes "distinct (map pdd_dev (pdds st))" "kfd_process_restore_queues env st = (r, st')"
  obtains rs where "map pdd_dev (pdds st') = map pdd_dev (pdds st)" "length (pdds st') = length (pdds st)"
    "\<forall>i < length (pdds st). restore_counts (structs st ! i) (rs i) (structs st' ! i)" "r = OK \<longleftrightarrow> (\<forall>i < length (pdds st). rs i = OK)"
proof -
  have "restore_pdds env [0..<length (pdds st)] OK st = (r, st')" using assms(2) by (simp add: kfd_process_restore_queues_def)
  from restore_pdds_effect [OF this refl _ assms(1)] obtain rs where "map pdd_dev (pdds st') = map pdd_dev (pdds st)"
    "\<forall>i < length (pdds st). restore_counts (structs st ! i) (rs i) (structs st' ! i)" "r = OK \<longleftrightarrow> (\<forall>i < length (pdds st). rs i = OK)"
    by auto
  with that show thesis by (metis length_map)
qed

lemma restore_worker_result:
  assumes "p' = restore_process_worker env env' bos p" "bos \<in> {None, Some OK}" "kfd_process_restore_queues env (ep_pqm p) = (r, st)"
  shows "ep_pqm p' = st" "restore_queued p' = (r \<noteq> OK)"
  using assms by (auto simp: restore_process_worker_def restore_process_helper_def restore_queues_of_def mod_delayed_work_def)

section \<open>Properties\<close>

text \<open>
  C14. Evicting a process. When every device answers with success or with a hang, every device is evicted once more and the code is that
  of the last device. Otherwise the code is that of the first device that fails in another way: it keeps its eviction, so that its queues
  stay off the hardware; the devices after it are as before; and each device before it has its eviction taken back, unless it was
  not evicted before and its restore in the rollback failed.
\<close>

theorem process_evict_outcome:
  assumes "distinct (map pdd_dev (pdds st))" "\<forall>i < length (pdds st). evs st ! i \<noteq> - 1" "kfd_process_evict_queues env renv st = (r, st')"
    and "cs = evict_codes env [0..<length (pdds st)] st"
  shows "if \<forall>c \<in> set cs. c = OK \<or> c = Err EIO
    then r = (if cs = [] then OK else last cs) \<and> (\<forall>i < length (pdds st). evs st' ! i = evs st ! i + 1)
    else \<exists>k < length (pdds st). r = cs ! k \<and> r \<noteq> OK \<and> r \<noteq> Err EIO \<and> (\<forall>i < k. cs ! i = OK \<or> cs ! i = Err EIO) \<and>
      evs st' ! k = evs st ! k + 1 \<and> (\<forall>i. k < i \<and> i < length (pdds st) \<longrightarrow> evs st' ! i = evs st ! i) \<and>
      (\<forall>i < k. evs st' ! i = evs st ! i \<or>
         process_rollback_codes env renv st ! i \<noteq> OK \<and> evs st ! i = 0 \<and> evs st' ! i = 1)"
proof -
  define n where "n = length (pdds st)"
  obtain r1 m failed st1 where e: "evict_pdds env [0..<n] OK 0 st = (r1, m, failed, st1)" by (metis prod_cases4)
  have r: "r = r1" "st' = (if failed then rollback_pdds renv [0..<n] m st1 else st1)"
    using assms(3) e by (auto simp: kfd_process_evict_queues_def n_def)
  note ef = evict_pdds_effect [OF e n_def _ assms(1)]
  note co = evict_pdds_codes [OF e, folded assms(4) [folded n_def]]
  obtain j where ev: "map pdd_dev (pdds st1) = map pdd_dev (pdds st)" "failed = (\<not> soft r1)" "m = j" "if failed then j < n else j = n"
    "\<And>i. i < n \<Longrightarrow> i < j + (if failed then 1 else 0) \<Longrightarrow> evicted (structs st1 ! i) = evicted (structs st ! i) + 1"
    "\<And>i. i < n \<Longrightarrow> i \<ge> j + (if failed then 1 else 0) \<Longrightarrow> structs st1 ! i = structs st ! i"
    using ef by (auto simp: evict_counts_def soft_def)
  have len: "length (pdds st1) = n" using ev(1) n_def by (metis length_map)
  have nth: "evs x ! i = evicted (structs x ! i)" if "i < n" "length (pdds x) = n" for x i using that by (simp add: evs_def structs_def)
  show ?thesis
  proof (cases failed)
    case False
    then have "evs st' ! i = evs st ! i + 1" if "i < n" for i using that r ev(4,5) len by (simp add: nth n_def)
    with False co r(1) show ?thesis by (simp add: soft_def n_def)
  next
    case True
    let ?rs = "rollback_codes renv [0..<n] j st1"
    have st': "st' = rollback_pdds renv [0..<n] j st1" using True r(2) ev(3) by simp
    have rs: "process_rollback_codes env renv st = ?rs" using e True ev(3) by (simp add: process_rollback_codes_def n_def)
    have j: "j < n" using True ev(4) by simp
    have rb: "map pdd_dev (pdds st') = map pdd_dev (pdds st1)"
      "\<And>i. i < n \<Longrightarrow> if i < j then restore_counts (structs st1 ! i) (?rs ! i) (structs st' ! i) else structs st' ! i = structs st1 ! i"
      using rollback_effect [OF len [symmetric] _ _ st'] j ev(1) assms(1) by auto
    have l': "length (pdds st') = n" using rb(1) len by (metis length_map)
    have c: "length cs = Suc j" "cs \<noteq> []" "\<forall>c \<in> set (butlast cs). soft c" using co True ev(3) by auto
    have "r = cs ! j" using co c(1,2) r(1) by (simp add: last_conv_nth)
    moreover have "cs ! i \<in> set (butlast cs)" if "i < j" for i
      using that c(1) nth_mem [of i "butlast cs"] by (simp add: nth_butlast)
    then have "\<forall>i < j. cs ! i = OK \<or> cs ! i = Err EIO" using c(3) unfolding soft_def by blast
    ultimately have 0: "r = cs ! j" "\<forall>i < j. cs ! i = OK \<or> cs ! i = Err EIO" .
    have 1: "evs st' ! j = evs st ! j + 1" using rb(2) [OF j] ev(5) [OF j] True j len l' by (simp add: nth n_def)
    have 2: "evs st' ! i = evs st ! i" if "j < i" "i < n" for i using rb(2) [of i] ev(6) [of i] that True len l' by (simp add: nth n_def)
    have 3: "evs st' ! i = evs st ! i \<or> ?rs ! i \<noteq> OK \<and> evs st ! i = 0 \<and> evs st' ! i = 1" if "i < j" for i
    proof -
      have i: "i < n" "i < j" using that j by simp_all
      have x: "restore_counts (structs st1 ! i) (?rs ! i) (structs st' ! i)" using rb(2) [OF i(1)] i(2) by auto
      have c: "evicted (structs st1 ! i) = evicted (structs st ! i) + 1" using ev(5) [OF i(1)] i(2) by simp
      have "evs st ! i \<noteq> - 1" using assms(2) i(1) by (simp add: n_def)
      then have "evicted (structs st ! i) \<noteq> - 1" using nth [OF i(1), of st] by (simp add: n_def)
      then have "evicted (structs st ! i) + 1 \<noteq> 0" by (metis eq_neg_iff_add_eq_0)
      then have "evicted (structs st' ! i) = evicted (structs st ! i) \<or>
          ?rs ! i \<noteq> OK \<and> evicted (structs st ! i) = 0 \<and> evicted (structs st' ! i) = 1"
        using x unfolding restore_counts_def c by (auto split: if_splits)
      then show ?thesis unfolding nth [OF i(1) l'] nth [OF i(1) n_def [symmetric]] .
    qed
    have "r \<noteq> OK" "r \<noteq> Err EIO" "\<not> (\<forall>c \<in> set cs. c = OK \<or> c = Err EIO)" using True ev(2) r(1) co by (auto simp: soft_def)
    then show ?thesis unfolding rs n_def [symmetric] using 0 1 2 3 j by (simp only: if_False) blast
  qed
qed

text \<open>The process has a queue on both devices; the second does not let it go.\<close>

definition rollback_example :: process_queue_manager where
  "rollback_example = (evict_example 0 0)\<lparr>pdds := map (\<lambda>d. (hd (pdds (evict_example 0 0)))\<lparr>pdd_dev := d\<rparr>) [0, 1]\<rparr>"

definition rollback_env :: "nat \<Rightarrow> hw_env" where
  "rollback_env i = (if i = 0 then env_example else env_example\<lparr>he_destroy_mqd := \<lambda>_. Err ETIME\<rparr>)"

theorem process_evict_outcome_witness:
  "evs (snd (kfd_process_evict_queues (\<lambda>_. env_example) (\<lambda>_. env_example) (evict_example 2 3))) ! 0 = 3 \<and>
   fst (kfd_process_evict_queues rollback_env (\<lambda>_. env_example) rollback_example) = Err ETIME \<and>
   evs (snd (kfd_process_evict_queues rollback_env (\<lambda>_. env_example) rollback_example)) ! 0 = 0"
proof -
  let ?st = "evict_example 2 3"
  have h: "distinct (map pdd_dev (pdds ?st))" "length (pdds ?st) = 2" "evs ?st = [2, 3]"
    by (simp_all add: evict_example_def evs_def structs_def the_qpd_def get_qpd_def pdd_ptr_def qpd_example_def)
  then have o: "\<forall>i < length (pdds ?st). evs ?st ! i \<noteq> - 1" by (simp add: less_2_cases_iff)
  obtain r st' where k: "kfd_process_evict_queues (\<lambda>_. env_example) (\<lambda>_. env_example) ?st = (r, st')" by (metis surj_pair)
  have "\<forall>c \<in> set (evict_codes (\<lambda>_. env_example) [0..<length (pdds ?st)] ?st). c = OK \<or> c = Err EIO" by code_simp
  with process_evict_outcome [OF h(1) o k refl] h(2,3) have 1: "evs st' ! 0 = 3" by simp
  let ?x = "rollback_example"
  have g: "distinct (map pdd_dev (pdds ?x))" "length (pdds ?x) = 2" by (simp_all add: rollback_example_def)
  have e: "evs ?x = [0, 0]" by code_simp
  then have p: "\<forall>i < length (pdds ?x). evs ?x ! i \<noteq> - 1" using g(2) by (simp add: less_2_cases_iff)
  obtain r2 st2 where k2: "kfd_process_evict_queues rollback_env (\<lambda>_. env_example) ?x = (r2, st2)" by (metis surj_pair)
  have c: "evict_codes rollback_env [0..<length (pdds ?x)] ?x = [OK, Err ETIME]" by code_simp
  have rc: "process_rollback_codes rollback_env (\<lambda>_. env_example) ?x = [OK]" by code_simp
  obtain i where i: "i < 2" "r2 = [OK, Err ETIME] ! i" "r2 \<noteq> OK" "\<forall>x < i. evs st2 ! x = evs ?x ! x \<or> [OK] ! x \<noteq> OK \<and> evs ?x ! x = 0 \<and> evs st2 ! x = 1"
    using process_evict_outcome [OF g(1) p k2 c [symmetric]] unfolding rc g(2) by auto
  then have "i = 1" by (auto simp: less_2_cases_iff)
  with i e have "r2 = Err ETIME" "evs st2 ! 0 = 0" by simp_all
  with 1 k k2 show ?thesis by simp
qed

text \<open>
  C15. Nested evictions: on a process that is evicted already, \<^verbatim>\<open>kfd_process_evict_queues\<close> followed by \<^verbatim>\<open>kfd_process_restore_queues\<close> succeeds whatever the hardware
  does, and leaves the structures of all devices as they were.
\<close>

theorem nested_eviction_roundtrip:
  assumes "distinct (map pdd_dev (pdds st))" "\<forall>i < length (pdds st). evs st ! i \<noteq> - 1 \<and> evs st ! i \<noteq> 0"
    "kfd_process_evict_queues env renv st = (r1, st1)" "kfd_process_restore_queues env2 st1 = (r2, st2)"
  shows "r1 = OK \<and> r2 = OK \<and> structs st2 = structs st"
proof -
  define n where "n = length (pdds st)"
  have nth: "evs x ! i = evicted (structs x ! i)" if "i < n" "length (pdds x) = n" for x i using that by (simp add: evs_def structs_def)
  have pos: "0 < evicted (structs st ! i)" "evicted (structs st ! i) + 1 \<noteq> 0" "evicted (structs st ! i) + 1 \<noteq> 1" if "i < n" for i
    using assms(2) nth [OF that, of st] that by (auto simp: n_def word_gt_0 eq_neg_iff_add_eq_0)
  have "0 \<le> n" "\<forall>i < n. 0 \<le> i \<longrightarrow> 0 < evicted (structs st ! i)" using pos by simp_all
  from evict_pdds_nested [OF n_def this(1) assms(1) this(2), of env 0] assms(3) have e: "r1 = OK" "map pdd_dev (pdds st1) = map pdd_dev (pdds st)"
    "\<And>i. i < n \<Longrightarrow> structs st1 ! i = (structs st ! i)\<lparr>evicted := evicted (structs st ! i) + 1\<rparr>"
    by (auto simp: kfd_process_evict_queues_def n_def)
  have l1: "n = length (pdds st1)" using e(2) n_def by (metis length_map)
  obtain rs where re: "map pdd_dev (pdds st2) = map pdd_dev (pdds st1)" "\<And>i. i < n \<Longrightarrow> restore_counts (structs st1 ! i) (rs i) (structs st2 ! i)"
    "r2 = OK \<longleftrightarrow> (\<forall>i < n. rs i = OK)"
    using restore_pdds_effect [of env2 0 n OK st1 r2 st2] assms(1,4) l1 e(2) by (auto simp: kfd_process_restore_queues_def)
  have "rs i = OK \<and> structs st2 ! i = structs st ! i" if "i < n" for i
    using re(2) [OF that] e(3) [OF that] pos [OF that] by (auto simp: restore_counts_def)
  moreover have "length (structs st2) = n" "length (structs st) = n" using re(1) e(2) n_def by (auto simp: structs_def dest: map_eq_imp_length_eq)
  ultimately show ?thesis using e(1) re(3) by (auto simp: list_eq_iff_nth_eq)
qed

theorem nested_eviction_roundtrip_witness:
  "structs (snd (kfd_process_restore_queues (\<lambda>_. env_example) (snd (kfd_process_evict_queues (\<lambda>_. env_example) (\<lambda>_. env_example) (evict_example 2 3))))) =
   structs (evict_example 2 3)"
proof -
  let ?st = "evict_example 2 3"
  have h: "distinct (map pdd_dev (pdds ?st))" "length (pdds ?st) = 2" "evs ?st = [2, 3]"
    by (simp_all add: evict_example_def evs_def structs_def the_qpd_def get_qpd_def pdd_ptr_def qpd_example_def)
  then have c: "\<forall>i < length (pdds ?st). evs ?st ! i \<noteq> - 1 \<and> evs ?st ! i \<noteq> 0" by (simp add: less_2_cases_iff)
  obtain r1 st1 where k1: "kfd_process_evict_queues (\<lambda>_. env_example) (\<lambda>_. env_example) ?st = (r1, st1)" by (metis surj_pair)
  obtain r2 st2 where k2: "kfd_process_restore_queues (\<lambda>_. env_example) st1 = (r2, st2)" by (metis surj_pair)
  show ?thesis using nested_eviction_roundtrip [OF h(1) c k1 k2] by (simp add: k1 k2)
qed

text \<open>
  C22. A hang of the last device: when every device answers the eviction with success or with a hang (\<^verbatim>\<open>-EIO\<close>), all devices are evicted, and \<^verbatim>\<open>evict_process_worker\<close> goes by
  the answer of the last device alone. When it is the one that hangs, the worker takes it for a failure: it neither signals the eviction
  fence nor queues the work that restores the process. When the last device answers with success it does both, whichever others hang.
\<close>

theorem evict_worker_strands_on_hang:
  assumes "distinct (map pdd_dev (pdds (ep_pqm p)))" "length (pdds (ep_pqm p)) = Suc n"
    "cs = evict_codes env [0..<Suc n] (ep_pqm p)" "\<forall>c \<in> set cs. c = OK \<or> c = Err EIO"
    "ep_ef p = Some False" "\<not> restore_queued p" "p' = evict_process_worker env renv env2 p"
  shows "length cs = Suc n \<and> (\<forall>i \<le> n. evs (ep_pqm p') ! i = evs (ep_pqm p) ! i + 1) \<and>
    ep_ef p' = Some (cs ! n = OK) \<and> restore_queued p' = (cs ! n = OK)"
proof -
  obtain r m failed st1 where e: "evict_pdds env [0..<Suc n] OK 0 (ep_pqm p) = (r, m, failed, st1)" by (metis prod_cases4)
  note co = evict_pdds_codes [OF e, folded assms(3)]
  have nf: "\<not> failed" using co assms(4) by (auto simp: soft_def)
  then have l: "length cs = Suc n" using co by simp
  then have ne: "cs \<noteq> []" by auto
  then have r: "r = cs ! n" using co l by (simp add: last_conv_nth)
  have k: "kfd_process_evict_queues env renv (ep_pqm p) = (r, st1)" using e nf assms(2) by (simp add: kfd_process_evict_queues_def)
  have "cs ! n \<in> set cs" using l by simp
  then have s: "r = OK \<or> r = Err EIO" using r assms(4) by blast
  have all: "evs st1 ! i = evs (ep_pqm p) ! i + 1" if "i \<le> n" for i
    using evict_queues_all [OF assms(1) k _, of i] s that assms(2) by (simp add: soft_def)
  have "p' = (if r = OK then p\<lparr>ep_pqm := st1, ep_ef := Some True, restore_queued := True\<rparr> else p\<lparr>ep_pqm := st1\<rparr>)"
    using k assms(5-7) s by (simp add: evict_process_worker_def signal_eviction_fence_def mod_delayed_work_def Let_def)
  with all assms(5,6) r l show ?thesis by simp
qed

theorem evict_worker_strands_on_hang_witness:
  "\<not> restore_queued (evict_process_worker (\<lambda>_. env_example) (\<lambda>_. env_example) (\<lambda>_. env_example)
     \<lparr>ep_pqm = hang_example, ep_ef = Some False, restore_queued = False\<rparr>) \<and>
   evs (ep_pqm (evict_process_worker (\<lambda>_. env_example) (\<lambda>_. env_example) (\<lambda>_. env_example)
     \<lparr>ep_pqm = hang_example, ep_ef = Some False, restore_queued = False\<rparr>)) ! 0 = 1"
proof -
  let ?p = "\<lparr>ep_pqm = hang_example, ep_ef = Some False, restore_queued = False\<rparr>"
  have h: "distinct (map pdd_dev (pdds (ep_pqm ?p)))" "length (pdds (ep_pqm ?p)) = Suc 1" "evs (ep_pqm ?p) ! 0 = 0"
    by (simp_all add: hang_example_def evict_example_def evs_def structs_def the_qpd_def get_qpd_def pdd_ptr_def qpd_example_def dqm_example_def)
  have c: "evict_codes (\<lambda>_. env_example) [0..<Suc 1] (ep_pqm ?p) = [Err EIO, Err EIO]" by code_simp
  have "\<forall>c \<in> set [Err EIO, Err EIO]. c = OK \<or> c = Err EIO" by simp
  from evict_worker_strands_on_hang [OF h(1,2) c [symmetric] this _ _ refl, of "\<lambda>_. env_example" "\<lambda>_. env_example"] h(3)
  show ?thesis by auto
qed

text \<open>
  Restoring is retried as a whole: when one device cannot be restored, \<^verbatim>\<open>restore_process_worker\<close> queues itself again and then restores also the devices that
  it had restored before. A device that was evicted twice, by the worker and by somebody else, loses both evictions.
\<close>

theorem restore_retry_drops_eviction:
  assumes "distinct (map pdd_dev (pdds (ep_pqm p)))" "i < length (pdds (ep_pqm p))" "j < length (pdds (ep_pqm p))"
    "evs (ep_pqm p) ! i = 2" "evs (ep_pqm p) ! j = 1"
    "p1 = restore_process_worker env env' bos p" "evs (ep_pqm p1) ! j = 1" "bos \<in> {None, Some OK}"
    "p2 = restore_process_worker env2 env2' bos p1" "\<not> restore_queued p2"
  shows "evs (ep_pqm p1) ! i = 1 \<and> restore_queued p1 \<and> evs (ep_pqm p2) ! i = 0 \<and> evs (ep_pqm p2) ! j = 0"
proof -
  let ?st = "ep_pqm p"
  obtain r1 st1 where k1: "kfd_process_restore_queues env ?st = (r1, st1)" by (metis surj_pair)
  obtain rs where re: "map pdd_dev (pdds st1) = map pdd_dev (pdds ?st)" "length (pdds st1) = length (pdds ?st)"
    "\<forall>i < length (pdds ?st). restore_counts (structs ?st ! i) (rs i) (structs st1 ! i)" "r1 = OK \<longleftrightarrow> (\<forall>i < length (pdds ?st). rs i = OK)"
    using restore_queues_counts [OF assms(1) k1] .
  note w1 = restore_worker_result [OF assms(6,8) k1]
  have e: "evicted (structs ?st ! i) = 2" "evicted (structs ?st ! j) = 1" "evicted (structs st1 ! j) = 1"
    using assms(2-5,7) w1(1) re(2) by (simp_all add: evs_nth)
  have j: "rs j \<noteq> OK" using re(3) assms(3) e by (auto simp: restore_counts_def)
  have i: "evicted (structs st1 ! i) = 1" using re(3) assms(2) e(1) by (auto simp: restore_counts_def)
  have q1: "restore_queued p1" using j re(4) assms(3) w1(2) by auto
  have d1: "distinct (map pdd_dev (pdds (ep_pqm p1)))" using re(1) assms(1) w1(1) by simp
  obtain r2 st2 where k2: "kfd_process_restore_queues env2 (ep_pqm p1) = (r2, st2)" by (metis surj_pair)
  obtain rs2 where re2: "map pdd_dev (pdds st2) = map pdd_dev (pdds (ep_pqm p1))" "length (pdds st2) = length (pdds (ep_pqm p1))"
    "\<forall>i < length (pdds (ep_pqm p1)). restore_counts (structs (ep_pqm p1) ! i) (rs2 i) (structs st2 ! i)"
    "r2 = OK \<longleftrightarrow> (\<forall>i < length (pdds (ep_pqm p1)). rs2 i = OK)"
    using restore_queues_counts [OF d1 k2] .
  note w2 = restore_worker_result [OF assms(9,8) k2]
  have ok: "rs2 x = OK" if "x < length (pdds ?st)" for x using re2(4) w2(2) assms(10) that re(2) w1(1) by simp
  have "evicted (structs st2 ! i) = 0" "evicted (structs st2 ! j) = 0"
    using re2(3) ok assms(2,3) i e(3) re(2) w1(1) by (auto simp: restore_counts_def)
  with i q1 w1(1) w2(1) re(2) re2(2) assms(2,3) show ?thesis by (simp add: evs_nth)
qed

theorem restore_retry_drops_eviction_witness:
  "evs (ep_pqm (restore_process_worker (\<lambda>_. env_example) (\<lambda>_. env_example) None
     (restore_process_worker (\<lambda>_. env_example\<lparr>he_mm := False\<rparr>) (\<lambda>_. env_example) None
        \<lparr>ep_pqm = evict_example 2 1, ep_ef = None, restore_queued = False\<rparr>))) ! 0 = 0"
proof -
  let ?p = "\<lparr>ep_pqm = evict_example 2 1, ep_ef = None, restore_queued = False\<rparr>"
  let ?p1 = "restore_process_worker (\<lambda>_. env_example\<lparr>he_mm := False\<rparr>) (\<lambda>_. env_example) None ?p"
  have h: "distinct (map pdd_dev (pdds (ep_pqm ?p)))" "0 < length (pdds (ep_pqm ?p))" "1 < length (pdds (ep_pqm ?p))"
    "evs (ep_pqm ?p) ! 0 = 2" "evs (ep_pqm ?p) ! 1 = 1"
    by (simp_all add: evict_example_def evs_def structs_def the_qpd_def get_qpd_def pdd_ptr_def qpd_example_def)
  have 1: "evs (ep_pqm ?p1) ! 1 = 1" "\<not> restore_queued (restore_process_worker (\<lambda>_. env_example) (\<lambda>_. env_example) None ?p1)" by code_simp+
  show ?thesis using restore_retry_drops_eviction [OF h refl 1(1) _ refl 1(2)] by simp
qed

end
