(* ===== verification/Debug_Queues.thy ===== *)
theory Debug_Queues
  imports Process_Properties
begin

text \<open>
  Suspending and resuming queues for the debugger (\<^verbatim>\<open>suspend_queues\<close> and \<^verbatim>\<open>resume_queues\<close> of \<^verbatim>\<open>kfd/kfd_device_queue_manager.c\<close>). The debugger
  gives an array of queue ids; bits that the driver sets in the entries say what became of each of them. The masks of these bits come from a header that is not in the sources.
  The array in user memory is \<open>None\<close> for a null pointer.

  The work that copies the wave state of the suspended queues to user memory is left out.
\<close>

unbundle bit_operations_syntax

record dbg_masks =
  KFD_DBG_QUEUE_INVALID_MASK :: u32
  KFD_DBG_QUEUE_ERROR_MASK :: u32

section \<open>The array\<close>

definition q_array_invalidate :: "dbg_masks \<Rightarrow> u32 list \<Rightarrow> u32 list" where
  "q_array_invalidate M ids = map (\<lambda>x. x OR KFD_DBG_QUEUE_INVALID_MASK M) ids"

text \<open>\<open>None\<close> is \<^verbatim>\<open>QUEUE_NOT_FOUND\<close>.\<close>

fun q_array_get_index :: "dbg_masks \<Rightarrow> u32 \<Rightarrow> u32 list \<Rightarrow> nat option" where
  "q_array_get_index M qid [] = None"
| "q_array_get_index M qid (x # xs) =
     (if qid = x AND NOT (KFD_DBG_QUEUE_INVALID_MASK M) then Some 0 else map_option Suc (q_array_get_index M qid xs))"

definition get_queue_ids :: "retval \<Rightarrow> u32 list option \<Rightarrow> errno + u32 list option" where
  "get_queue_ids memdup usr = (case usr of None \<Rightarrow> Inr None | Some ids \<Rightarrow> (case memdup of Err e \<Rightarrow> Inl e | OK \<Rightarrow> Inr (Some ids)))"

definition mark_valid :: "dbg_masks \<Rightarrow> nat \<Rightarrow> u32 list \<Rightarrow> u32 list" where
  "mark_valid M i ids = ids[i := ids ! i AND NOT (KFD_DBG_QUEUE_INVALID_MASK M)]"

definition mark_error :: "dbg_masks \<Rightarrow> nat \<Rightarrow> u32 list \<Rightarrow> u32 list" where
  "mark_error M i ids = ids[i := ids ! i OR KFD_DBG_QUEUE_ERROR_MASK M]"

definition clear_exceptions :: "u64 \<Rightarrow> queue \<Rightarrow> queue" where
  "clear_exceptions cm q = q\<lparr>properties := (properties q)\<lparr>exception_status := exception_status (properties q) AND NOT cm\<rparr>\<rparr>"

text \<open>The variables of the loops over the queues of a device: manager, process, array, and the two counters.\<close>

record array_state =
  al_dqm :: device_queue_manager
  al_qpd :: qcm_process_device
  al_ids :: "u32 list"
  al_total :: nat
  al_device :: nat

section \<open>Suspending\<close>

fun suspend_loop :: "dbg_masks \<Rightarrow> hw_env \<Rightarrow> u64 \<Rightarrow> queue list \<Rightarrow> array_state \<Rightarrow> array_state \<times> queue list" where
  "suspend_loop M env cm [] s = (s, [])"
| "suspend_loop M env cm (q # qs) s =
     (case q_array_get_index M (queue_id (properties q)) (al_ids s) of
        None \<Rightarrow> (case suspend_loop M env cm qs s of (s1, qs1) \<Rightarrow> (s1, q # qs1))
      | Some i \<Rightarrow>
          (case suspend_single_queue env (al_dqm s) (al_qpd s) q of
             (r, dqm, qpd, q1) \<Rightarrow>
               let s1 = s\<lparr>al_dqm := dqm, al_qpd := qpd\<rparr>; is_mes = uses_mes dqm in
               if r = OK then
                 let q2 = (if cm \<noteq> 0 \<and> is_mes then clear_exceptions cm q1 else q1);
                     s2 = s1\<lparr>al_ids := mark_valid M i (al_ids s), al_total := (if is_mes then al_total s + 1 else al_total s),
                             al_device := (if is_mes then al_device s else al_device s + 1)\<rparr>
                 in (case suspend_loop M env cm qs s2 of (s3, qs1) \<Rightarrow> (s3, q2 # qs1))
               else if r = Err EBUSY then (case suspend_loop M env cm qs s1 of (s3, qs1) \<Rightarrow> (s3, q1 # qs1))
               else (s1\<lparr>al_ids := mark_error M i (al_ids s)\<rparr>, q1 # qs)))"

text \<open>The second loop, with the result of \<^verbatim>\<open>execute_queues_cpsch\<close>.\<close>

fun suspend_post :: "dbg_masks \<Rightarrow> retval \<Rightarrow> u64 \<Rightarrow> queue list \<Rightarrow> u32 list \<Rightarrow> u32 list \<times> queue list" where
  "suspend_post M r cm [] ids = (ids, [])"
| "suspend_post M r cm (q # qs) ids =
     (case q_array_get_index M (queue_id (properties q)) ids of
        None \<Rightarrow> (case suspend_post M r cm qs ids of (ids1, qs1) \<Rightarrow> (ids1, q # qs1))
      | Some i \<Rightarrow>
          let ids1 = (if r \<noteq> OK then mark_error M i ids else ids);
              q1 = (if r = OK \<and> cm \<noteq> 0 then clear_exceptions cm q else q)
          in (case suspend_post M r cm qs ids1 of (ids2, qs1) \<Rightarrow> (ids2, q1 # qs1)))"

definition suspend_device ::
    "dbg_masks \<Rightarrow> hw_env \<Rightarrow> u32 \<Rightarrow> u64 \<Rightarrow> process_device \<Rightarrow> u32 list \<times> nat \<times> process_queue_manager \<Rightarrow> u32 list \<times> nat \<times> process_queue_manager" where
  "suspend_device M env grace_period cm pdd x =
     (case x of (ids, tot, st) \<Rightarrow>
        let qpd = the_qpd pdd st;
            (s, qs) = suspend_loop M env cm (queues_list qpd)
              \<lparr>al_dqm = dqms st (pdd_dev pdd), al_qpd = qpd, al_ids = ids, al_total = tot, al_device = 0\<rparr>;
            qpd1 = (al_qpd s)\<lparr>queues_list := qs\<rparr>;
            dqm1 = put_qpd qpd1 (al_dqm s) in
        if al_device s = 0 then (al_ids s, al_total s, write_qpd pdd qpd1 (set_dqm (pdd_dev pdd) dqm1 st))
        else case execute_queues_cpsch env KFD_UNMAP_QUEUES_FILTER_DYNAMIC_QUEUES 0 grace_period dqm1 of
            (r, dqm2) \<Rightarrow>
              let (ids2, qs2) = suspend_post M r cm qs (al_ids s)
              in (ids2, if r = OK then al_total s + al_device s else al_total s,
                  write_qpd pdd (qpd1\<lparr>queues_list := qs2\<rparr>) (set_dqm (pdd_dev pdd) dqm2 st)))"

fun suspend_devices ::
    "dbg_masks \<Rightarrow> (nat \<Rightarrow> hw_env) \<Rightarrow> u32 \<Rightarrow> u64 \<Rightarrow> nat list \<Rightarrow> u32 list \<times> nat \<times> process_queue_manager \<Rightarrow> u32 list \<times> nat \<times> process_queue_manager" where
  "suspend_devices M env grace_period cm [] x = x"
| "suspend_devices M env grace_period cm (i # is) x =
     suspend_devices M env grace_period cm is (suspend_device M (env i) grace_period cm (pdds (snd (snd x)) ! i) x)"

text \<open>The number of queues is the length of the array; without an array it is \<open>n\<close>, and the first access to the array is through the null pointer.\<close>

definition suspend_queues ::
    "dbg_masks \<Rightarrow> (nat \<Rightarrow> hw_env) \<Rightarrow> retval \<Rightarrow> nat \<Rightarrow> u32 \<Rightarrow> u64 \<Rightarrow> u32 list option \<Rightarrow> process_queue_manager \<Rightarrow>
     (errno + nat) \<times> u32 list \<times> process_queue_manager" where
  "suspend_queues M env memdup n grace_period exception_clear_mask usr st =
     (case get_queue_ids memdup usr of
        Inl e \<Rightarrow> (Inl e, [], st)
      | Inr None \<Rightarrow> if n > 0 then (Inl OOPS, [], st)
          else (case suspend_devices M env grace_period exception_clear_mask [0..<length (pdds st)] ([], 0, st) of
            (ids, tot, st1) \<Rightarrow> (Inr tot, ids, st1))
      | Inr (Some ids) \<Rightarrow>
          (case suspend_devices M env grace_period exception_clear_mask [0..<length (pdds st)] (q_array_invalidate M ids, 0, st) of
            (ids1, tot, st1) \<Rightarrow> (Inr tot, ids1, st1)))"

section \<open>Resuming\<close>

text \<open>\<open>given\<close> says whether there is an array; without one all queues are resumed.\<close>

fun resume_loop :: "dbg_masks \<Rightarrow> hw_env \<Rightarrow> bool \<Rightarrow> queue list \<Rightarrow> array_state \<Rightarrow> array_state \<times> queue list" where
  "resume_loop M env given [] s = (s, [])"
| "resume_loop M env given (q # qs) s =
     (let q_idx = (if given then q_array_get_index M (queue_id (properties q)) (al_ids s) else None) in
      if given \<and> q_idx = None then (case resume_loop M env given qs s of (s1, qs1) \<Rightarrow> (s1, q # qs1))
      else case resume_single_queue env (al_dqm s) (al_qpd s) q of
          (r, dqm, qpd, q1) \<Rightarrow>
            let s1 = s\<lparr>al_dqm := dqm, al_qpd := qpd\<rparr> in
            if given \<and> r \<noteq> OK then (s1\<lparr>al_ids := mark_error M (the q_idx) (al_ids s)\<rparr>, q1 # qs)
            else
              let s2 = (if given then s1\<lparr>al_ids := mark_valid M (the q_idx) (al_ids s)\<rparr> else s1);
                  s3 = (if uses_mes dqm then s2\<lparr>al_total := (if r = OK then al_total s + 1 else al_total s)\<rparr>
                        else s2\<lparr>al_device := al_device s + 1\<rparr>)
              in (case resume_loop M env given qs s3 of (s4, qs1) \<Rightarrow> (s4, q1 # qs1)))"

fun resume_post :: "dbg_masks \<Rightarrow> queue list \<Rightarrow> u32 list \<Rightarrow> u32 list" where
  "resume_post M [] ids = ids"
| "resume_post M (q # qs) ids =
     (case q_array_get_index M (queue_id (properties q)) ids of None \<Rightarrow> resume_post M qs ids | Some i \<Rightarrow> resume_post M qs (mark_error M i ids))"

definition resume_device ::
    "dbg_masks \<Rightarrow> hw_env \<Rightarrow> bool \<Rightarrow> process_device \<Rightarrow> u32 list \<times> nat \<times> process_queue_manager \<Rightarrow> u32 list \<times> nat \<times> process_queue_manager" where
  "resume_device M env given pdd x =
     (case x of (ids, tot, st) \<Rightarrow>
        let qpd = the_qpd pdd st;
            (s, qs) = resume_loop M env given (queues_list qpd)
              \<lparr>al_dqm = dqms st (pdd_dev pdd), al_qpd = qpd, al_ids = ids, al_total = tot, al_device = 0\<rparr>;
            qpd1 = (al_qpd s)\<lparr>queues_list := qs\<rparr>;
            dqm1 = put_qpd qpd1 (al_dqm s) in
        if al_device s = 0 then (al_ids s, al_total s, write_qpd pdd qpd1 (set_dqm (pdd_dev pdd) dqm1 st))
        else case refresh env dqm1 of
            (r, dqm2) \<Rightarrow>
              (if r \<noteq> OK \<and> given then resume_post M qs (al_ids s) else al_ids s,
               if r = OK then al_total s + al_device s else al_total s, write_qpd pdd qpd1 (set_dqm (pdd_dev pdd) dqm2 st)))"

fun resume_devices ::
    "dbg_masks \<Rightarrow> (nat \<Rightarrow> hw_env) \<Rightarrow> bool \<Rightarrow> nat list \<Rightarrow> u32 list \<times> nat \<times> process_queue_manager \<Rightarrow> u32 list \<times> nat \<times> process_queue_manager" where
  "resume_devices M env given [] x = x"
| "resume_devices M env given (i # is) x = resume_devices M env given is (resume_device M (env i) given (pdds (snd (snd x)) ! i) x)"

definition resume_queues ::
    "dbg_masks \<Rightarrow> (nat \<Rightarrow> hw_env) \<Rightarrow> retval \<Rightarrow> u32 list option \<Rightarrow> process_queue_manager \<Rightarrow> (errno + nat) \<times> u32 list \<times> process_queue_manager" where
  "resume_queues M env memdup usr st =
     (case get_queue_ids memdup usr of
        Inl e \<Rightarrow> (Inl e, [], st)
      | Inr ids \<Rightarrow>
          (case resume_devices M env (ids \<noteq> None) [0..<length (pdds st)] (case ids of None \<Rightarrow> [] | Some xs \<Rightarrow> q_array_invalidate M xs, 0, st) of
            (ids1, tot, st1) \<Rightarrow> (Inr tot, ids1, st1)))"

section \<open>Entries\<close>

definition plain :: "dbg_masks \<Rightarrow> u32 \<Rightarrow> u32" where
  "plain M x = x AND NOT (KFD_DBG_QUEUE_INVALID_MASK M)"

definition is_valid :: "dbg_masks \<Rightarrow> u32 \<Rightarrow> bool" where
  "is_valid M x \<longleftrightarrow> x AND KFD_DBG_QUEUE_INVALID_MASK M = 0"

text \<open>What the loops do to an entry: its id stays, but the error bit may be set.\<close>

definition entry_rel :: "dbg_masks \<Rightarrow> u32 \<Rightarrow> u32 \<Rightarrow> bool" where
  "entry_rel M x y \<longleftrightarrow> plain M y = plain M x \<or> plain M y = plain M x OR KFD_DBG_QUEUE_ERROR_MASK M"

definition masks_ok :: "dbg_masks \<Rightarrow> bool" where
  "masks_ok M \<longleftrightarrow> KFD_DBG_QUEUE_INVALID_MASK M AND KFD_DBG_QUEUE_ERROR_MASK M = 0 \<and> KFD_DBG_QUEUE_INVALID_MASK M \<noteq> 0 \<and> KFD_DBG_QUEUE_ERROR_MASK M \<noteq> 0"

lemma plain_mark:
  assumes "masks_ok M"
  shows "plain M (x AND NOT (KFD_DBG_QUEUE_INVALID_MASK M)) = plain M x" "plain M (x OR KFD_DBG_QUEUE_ERROR_MASK M) = plain M x OR KFD_DBG_QUEUE_ERROR_MASK M"
    "plain M (x OR KFD_DBG_QUEUE_INVALID_MASK M) = plain M x" "is_valid M (x OR KFD_DBG_QUEUE_ERROR_MASK M) = is_valid M x"
    "\<not> is_valid M (x OR KFD_DBG_QUEUE_INVALID_MASK M)"
proof -
  let ?i = "KFD_DBG_QUEUE_INVALID_MASK M" and ?e = "KFD_DBG_QUEUE_ERROR_MASK M"
  have d: "\<not> (bit ?i n \<and> bit ?e n)" for n using assms unfolding masks_ok_def by (metis bit_and_iff bit_0_eq bot_apply bot_bool_def)
  obtain n where n: "bit ?i n" using assms unfolding masks_ok_def by (metis bit_eqI bit_0_eq bot_apply bot_bool_def)
  show "plain M (x AND NOT ?i) = plain M x" by (simp add: plain_def)
  show "plain M (x OR ?e) = plain M x OR ?e" unfolding plain_def by (rule bit_word_eqI) (use d in \<open>auto simp: bit_simps\<close>)
  show "plain M (x OR ?i) = plain M x" unfolding plain_def by (rule bit_word_eqI) (auto simp: bit_simps)
  have "(x OR ?e) AND ?i = x AND ?i" by (rule bit_word_eqI) (use d in \<open>auto simp: bit_simps\<close>)
  then show "is_valid M (x OR ?e) = is_valid M x" by (simp add: is_valid_def)
  have "bit ((x OR ?i) AND ?i) n" using n by (simp add: bit_simps)
  then show "\<not> is_valid M (x OR ?i)" unfolding is_valid_def by (metis bit_0_eq bot_apply bot_bool_def)
qed

lemma entry_rel_refl [simp]: "entry_rel M x x"
  by (simp add: entry_rel_def)

lemma entry_rel_trans: "entry_rel M x y \<Longrightarrow> entry_rel M y z \<Longrightarrow> entry_rel M x z"
  by (auto simp: entry_rel_def or.assoc)

text \<open>An entry that matches a queue has its error bit clear, so that it has the id the debugger gave.\<close>

lemma entry_rel_match:
  assumes "masks_ok M" "entry_rel M x y" "qid = plain M y" "qid AND KFD_DBG_QUEUE_ERROR_MASK M = 0"
  shows "qid = plain M x"
proof (rule ccontr)
  assume "qid \<noteq> plain M x"
  then have "qid = plain M x OR KFD_DBG_QUEUE_ERROR_MASK M" using assms(2,3) by (auto simp: entry_rel_def)
  then have "qid AND KFD_DBG_QUEUE_ERROR_MASK M = KFD_DBG_QUEUE_ERROR_MASK M" by (simp add: bit.conj_disj_distrib2)
  with assms(1,4) show False by (simp add: masks_ok_def)
qed

lemma q_array_index:
  assumes "q_array_get_index M qid ids = Some i" shows "i < length ids \<and> qid = plain M (ids ! i)"
  using assms by (induction ids arbitrary: i) (auto simp: plain_def split: if_splits)

section \<open>Steps of the loops\<close>

text \<open>
  What the loops promise of a condition \<open>P\<close> on queues (suspended, or not suspended): no queue that has it loses it, and an entry that becomes valid
  has the id of a queue that has it.
\<close>

definition queue_rel :: "(queue \<Rightarrow> bool) \<Rightarrow> queue \<Rightarrow> queue \<Rightarrow> bool" where
  "queue_rel P q q1 \<longleftrightarrow> queue_id (properties q1) = queue_id (properties q) \<and> (P q \<longrightarrow> P q1)"

definition backed :: "dbg_masks \<Rightarrow> (queue \<Rightarrow> bool) \<Rightarrow> u32 list \<Rightarrow> u32 list \<Rightarrow> queue list \<Rightarrow> bool" where
  "backed M P ids ids1 qs \<longleftrightarrow>
     (\<forall>k < length ids. is_valid M (ids1 ! k) \<longrightarrow> is_valid M (ids ! k) \<or> (\<exists>q \<in> set qs. P q \<and> queue_id (properties q) = plain M (ids ! k)))"

definition array_step :: "dbg_masks \<Rightarrow> (queue \<Rightarrow> bool) \<Rightarrow> queue list \<Rightarrow> u32 list \<Rightarrow> u32 list \<Rightarrow> queue list \<Rightarrow> bool" where
  "array_step M P qs ids ids1 qs1 \<longleftrightarrow> list_all2 (queue_rel P) qs qs1 \<and> list_all2 (entry_rel M) ids ids1 \<and> backed M P ids ids1 qs1"

definition ids_free :: "dbg_masks \<Rightarrow> queue list \<Rightarrow> bool" where
  "ids_free M qs \<longleftrightarrow> (\<forall>q \<in> set qs. queue_id (properties q) AND KFD_DBG_QUEUE_ERROR_MASK M = 0)"

lemma queue_rel_refl [simp]: "queue_rel P q q"
  by (simp add: queue_rel_def)

lemma queue_rel_list_refl [simp]: "list_all2 (queue_rel P) qs qs"
  by (simp add: list.rel_refl)

lemma queue_rel_list_trans: "list_all2 (queue_rel P) qs qs1 \<Longrightarrow> list_all2 (queue_rel P) qs1 qs2 \<Longrightarrow> list_all2 (queue_rel P) qs qs2"
  by (rule list_all2_trans [of "queue_rel P" "queue_rel P"]) (auto simp: queue_rel_def)

lemma entry_rel_list_trans: "list_all2 (entry_rel M) ids ids1 \<Longrightarrow> list_all2 (entry_rel M) ids1 ids2 \<Longrightarrow> list_all2 (entry_rel M) ids ids2"
  by (rule list_all2_trans [of "entry_rel M" "entry_rel M"]) (auto intro: entry_rel_trans)

lemma nth_update: "k < length xs \<Longrightarrow> xs[i := y] ! k = (if i = k then y else xs ! k)"
  by (cases "i = k") simp_all

lemma entry_rel_update [intro]: "entry_rel M (ids ! i) y \<Longrightarrow> list_all2 (entry_rel M) ids (ids[i := y])"
  by (auto simp: list_all2_conv_all_nth nth_update)

lemma ids_free_rel: "list_all2 (queue_rel P) qs qs1 \<Longrightarrow> ids_free M qs1 = ids_free M qs"
  unfolding ids_free_def by (induction rule: list_all2_induct) (auto simp: queue_rel_def)

lemma queue_rel_mem: "list_all2 (queue_rel P) qs qs1 \<Longrightarrow> q \<in> set qs \<Longrightarrow> \<exists>q1 \<in> set qs1. queue_rel P q q1"
  by (induction rule: list_all2_induct) auto

lemma array_step_refl [simp]: "array_step M P qs ids ids qs"
  by (simp add: array_step_def backed_def list.rel_refl)

lemma array_step_trans:
  assumes "masks_ok M" "ids_free M qs" "array_step M P qs ids ids1 qs1" "array_step M P qs1 ids1 ids2 qs2"
  shows "array_step M P qs ids ids2 qs2"
proof -
  have q: "list_all2 (queue_rel P) qs qs1" "list_all2 (queue_rel P) qs1 qs2" "list_all2 (queue_rel P) qs qs2"
    and e: "list_all2 (entry_rel M) ids ids1" "list_all2 (entry_rel M) ids ids2"
    using assms(3,4) queue_rel_list_trans entry_rel_list_trans unfolding array_step_def by blast+
  have l: "length ids1 = length ids" using e(1) by (simp add: list_all2_lengthD)
  have "is_valid M (ids ! k) \<or> (\<exists>q \<in> set qs2. P q \<and> queue_id (properties q) = plain M (ids ! k))" if k: "k < length ids" "is_valid M (ids2 ! k)" for k
  proof (cases "is_valid M (ids1 ! k)")
    case True
    with assms(3) k(1) consider "is_valid M (ids ! k)" | q where "q \<in> set qs1" "P q" "queue_id (properties q) = plain M (ids ! k)"
      unfolding array_step_def backed_def by blast
    then show ?thesis using queue_rel_mem [OF q(2)] unfolding queue_rel_def by metis
  next
    case False
    with assms(4) k l obtain q' where q': "q' \<in> set qs2" "P q'" "queue_id (properties q') = plain M (ids1 ! k)"
      unfolding array_step_def backed_def by metis
    moreover have "queue_id (properties q') AND KFD_DBG_QUEUE_ERROR_MASK M = 0"
      using assms(2) ids_free_rel [OF q(3)] q'(1) by (auto simp: ids_free_def)
    ultimately have "queue_id (properties q') = plain M (ids ! k)"
      using entry_rel_match [OF assms(1)] e(1) k(1) by (auto simp: list_all2_conv_all_nth)
    with q' show ?thesis by blast
  qed
  with q(3) e(2) show ?thesis by (simp add: array_step_def backed_def)
qed

lemma array_step_append:
  assumes "array_step M P qs ids ids1 qs1" "list_all2 (queue_rel P) as as1" "list_all2 (queue_rel P) bs bs1"
  shows "array_step M P (as @ qs @ bs) ids ids1 (as1 @ qs1 @ bs1)"
  using assms by (auto simp: array_step_def backed_def intro!: list_all2_appendI)

lemma array_step_Cons: "array_step M P qs ids ids1 qs1 \<Longrightarrow> queue_rel P q q1 \<Longrightarrow> array_step M P (q # qs) ids ids1 (q1 # qs1)"
  using array_step_append [of M P qs ids ids1 qs1 "[q]" "[q1]" "[]" "[]"] by simp

text \<open>The two marks\<close>

lemma array_step_error:
  assumes "masks_ok M" "list_all2 (queue_rel P) qs qs1"
  shows "array_step M P qs ids (mark_error M i ids) qs1"
  using assms plain_mark(2,4) [OF assms(1)] by (auto simp: array_step_def backed_def mark_error_def entry_rel_def nth_update split: if_splits)

lemma array_step_valid:
  assumes "masks_ok M" "q_array_get_index M (queue_id (properties q)) ids = Some i" "queue_rel P q q1" "P q1"
  shows "array_step M P (q # qs) ids (mark_valid M i ids) (q1 # qs)"
proof -
  have "queue_id (properties q1) = plain M (ids ! i)" using assms(3) q_array_index [OF assms(2)] by (simp add: queue_rel_def)
  with assms(3,4) plain_mark(1) [OF assms(1)] show ?thesis
    by (auto simp: array_step_def backed_def mark_valid_def entry_rel_def nth_update split: if_splits)
qed

section \<open>The loops\<close>

abbreviation suspended :: "queue \<Rightarrow> bool" where
  "suspended q \<equiv> is_suspended (properties q)"

abbreviation resumed :: "queue \<Rightarrow> bool" where
  "resumed q \<equiv> \<not> is_suspended (properties q)"

text \<open>The loops leave the list of processes alone, and of the process they change only the count of GWS queues.\<close>

definition loop_frame :: "device_queue_manager \<Rightarrow> qcm_process_device \<Rightarrow> device_queue_manager \<Rightarrow> qcm_process_device \<Rightarrow> bool" where
  "loop_frame dqm qpd dqm1 qpd1 \<longleftrightarrow> procs dqm1 = procs dqm \<and> (\<exists>b. qpd1 = qpd\<lparr>mapped_gws_queue := b\<rparr>)"

lemma loop_frame_refl [simp]: "loop_frame dqm qpd dqm qpd"
  using gws_same by (auto simp: loop_frame_def)

lemma loop_frame_trans: "loop_frame dqm qpd dqm1 qpd1 \<Longrightarrow> loop_frame dqm1 qpd1 dqm2 qpd2 \<Longrightarrow> loop_frame dqm qpd dqm2 qpd2"
  unfolding loop_frame_def using gws_trans by (metis (no_types))

lemma suspend_single_effect:
  assumes "suspend_single_queue env dqm qpd q = (r, d, p, q1)"
  shows "loop_frame dqm qpd d p" "queue_rel suspended q q1" "r = OK \<Longrightarrow> suspended q1"
proof -
  define qs where "qs = q\<lparr>properties := (properties q)\<lparr>is_suspended := True\<rparr>\<rparr>"
  obtain r1 d1 where x: "(if uses_mes dqm then remove_queue_mes env dqm qs else (OK, dqm)) = (r1, d1)" by (metis surj_pair)
  obtain d2 p2 where dec: "decrement_queue_count d1 qpd qs = (d2, p2)" by (metis surj_pair)
  have pd: "procs d1 = procs dqm" using x mes_frame(2) sched_only_counts(2) by (cases "uses_mes dqm") fastforce+
  have fr: "loop_frame dqm qpd d1 qpd" "loop_frame dqm qpd d2 p2"
    using pd gws_same count_procs(2) [OF dec] qpd_count(2) [OF dec] by (auto simp: loop_frame_def)
  have "loop_frame dqm qpd d p \<and> queue_rel suspended q q1 \<and> (r = OK \<longrightarrow> suspended q1)"
  proof (cases "suspended q \<or> exception_status (properties q) AND he_ec_queue_new env \<noteq> 0 \<or> is_being_destroyed (properties q) \<or> \<not> is_active (properties q)")
    case True
    with assms show ?thesis by (auto simp: suspend_single_queue_def queue_rel_def Let_def split: if_splits)
  next
    case False
    then have "(r, d, p, q1) = (case r1 of Err e \<Rightarrow> (Err e, d1, qpd, qs)
        | OK \<Rightarrow> (OK, d2, p2, qs\<lparr>properties := (properties qs)\<lparr>is_active := False\<rparr>\<rparr>))"
      unfolding assms [symmetric] suspend_single_queue_def Let_def qs_def [symmetric] x prod.case dec
      by (cases r1) (simp_all add: qs_def dec [unfolded qs_def])
    with fr show ?thesis by (cases r1) (auto simp: queue_rel_def qs_def)
  qed
  then show "loop_frame dqm qpd d p" "queue_rel suspended q q1" "r = OK \<Longrightarrow> suspended q1" by blast+
qed

lemma resume_single_effect:
  assumes "resume_single_queue env dqm qpd q = (r, d, p, q1)"
  shows "loop_frame dqm qpd d p" "queue_rel resumed q q1" "resumed q1"
proof -
  define qs where "qs = q\<lparr>properties := (properties q)\<lparr>is_suspended := False\<rparr>\<rparr>"
  define qa where "qa = qs\<lparr>properties := (properties qs)\<lparr>is_active := True\<rparr>\<rparr>"
  obtain r1 d1 where x: "(if uses_mes dqm then add_queue_mes env dqm qs qpd else (OK, dqm)) = (r1, d1)" by (metis surj_pair)
  obtain d2 p2 where inc: "increment_queue_count d1 qpd qa = (d2, p2)" by (metis surj_pair)
  have pd: "procs d1 = procs dqm" using x mes_frame(1) sched_only_counts(2) by (cases "uses_mes dqm") fastforce+
  have fr: "loop_frame dqm qpd d1 qpd" "loop_frame dqm qpd d2 p2"
    using pd gws_same count_procs(1) [OF inc] qpd_count(1) [OF inc] by (auto simp: loop_frame_def)
  have "loop_frame dqm qpd d p \<and> queue_rel resumed q q1 \<and> resumed q1"
  proof (cases "resumed q \<or> \<not> QUEUE_IS_ACTIVE (properties qs)")
    case True
    with assms show ?thesis by (auto simp: resume_single_queue_def queue_rel_def qs_def Let_def split: if_splits)
  next
    case False
    then have "(r, d, p, q1) = (case r1 of Err e \<Rightarrow> (Err e, d1, qpd, qs) | OK \<Rightarrow> (OK, d2, p2, qa))"
      unfolding assms [symmetric] resume_single_queue_def Let_def qs_def [symmetric] qa_def [symmetric] x prod.case inc
      by (cases r1) auto
    with fr show ?thesis by (cases r1) (auto simp: queue_rel_def qs_def qa_def)
  qed
  then show "loop_frame dqm qpd d p" "queue_rel resumed q q1" "resumed q1" by blast+
qed

lemma ids_free_Cons [simp]: "ids_free M (q # qs) \<longleftrightarrow> queue_id (properties q) AND KFD_DBG_QUEUE_ERROR_MASK M = 0 \<and> ids_free M qs"
  by (simp add: ids_free_def)

lemma clear_exceptions_rel [simp]: "queue_rel suspended q (clear_exceptions cm q)" "suspended (clear_exceptions cm q) = suspended q"
  by (simp_all add: queue_rel_def clear_exceptions_def)

lemma queue_rel_trans: "queue_rel P q q1 \<Longrightarrow> queue_rel P q1 q2 \<Longrightarrow> queue_rel P q q2"
  by (simp add: queue_rel_def)

text \<open>A step that marks the entry of a queue as valid, followed by the rest of the loop\<close>

lemma array_step_valid_loop:
  assumes "masks_ok M" "ids_free M (q # qs)" "q_array_get_index M (queue_id (properties q)) ids = Some i" "queue_rel P q q1" "P q1"
    "array_step M P qs (mark_valid M i ids) ids1 qs1"
  shows "array_step M P (q # qs) ids ids1 (q1 # qs1)"
proof -
  have "array_step M P (q1 # qs) (mark_valid M i ids) ids1 (q1 # qs1)" using assms(6) by (rule array_step_Cons) simp
  with array_step_trans [OF assms(1,2) array_step_valid [OF assms(1,3-5)]] show ?thesis .
qed

lemma suspend_loop_effect:
  assumes "masks_ok M" "ids_free M qs" "suspend_loop M env cm qs s = (s1, qs1)"
  shows "array_step M suspended qs (al_ids s) (al_ids s1) qs1 \<and> loop_frame (al_dqm s) (al_qpd s) (al_dqm s1) (al_qpd s1)"
  using assms(2,3)
proof (induction qs arbitrary: s s1 qs1)
  case (Cons q qs)
  show ?case
  proof (cases "q_array_get_index M (queue_id (properties q)) (al_ids s)")
    case None
    obtain s2 qs2 where l: "suspend_loop M env cm qs s = (s2, qs2)" by (metis surj_pair)
    with Cons.prems None have "s2 = s1" "qs1 = q # qs2" by simp_all
    with Cons.IH [OF _ l] Cons.prems(1) show ?thesis by (simp add: array_step_Cons)
  next
    case (Some i)
    obtain r d p q1 where x: "suspend_single_queue env (al_dqm s) (al_qpd s) q = (r, d, p, q1)" by (metis prod_cases4)
    note ef = suspend_single_effect [OF x]
    define t where "t = s\<lparr>al_dqm := d, al_qpd := p\<rparr>"
    define t2 where "t2 = t\<lparr>al_ids := mark_valid M i (al_ids s), al_total := (if uses_mes d then al_total s + 1 else al_total s),
                            al_device := (if uses_mes d then al_device s else al_device s + 1)\<rparr>"
    define q2 where "q2 = (if cm \<noteq> 0 \<and> uses_mes d then clear_exceptions cm q1 else q1)"
    have q2: "queue_rel suspended q q2" "r = OK \<Longrightarrow> suspended q2" using ef queue_rel_trans [OF ef(2)] by (auto simp: q2_def)
    obtain s3 qs3 where l3: "suspend_loop M env cm qs t2 = (s3, qs3)" by (metis surj_pair)
    obtain s4 qs4 where l4: "suspend_loop M env cm qs t = (s4, qs4)" by (metis surj_pair)
    have "(s1, qs1) = (if r = OK then (s3, q2 # qs3) else if r = Err EBUSY then (s4, q1 # qs4)
        else (t\<lparr>al_ids := mark_error M i (al_ids s)\<rparr>, q1 # qs))"
      unfolding Cons.prems(2) [symmetric] suspend_loop.simps Some option.case x prod.case Let_def t_def [symmetric] t2_def [symmetric] q2_def [symmetric] l3 l4 ..
    then consider "r = OK" "s1 = s3" "qs1 = q2 # qs3" | "s1 = s4" "qs1 = q1 # qs4"
      | "s1 = t\<lparr>al_ids := mark_error M i (al_ids s)\<rparr>" "qs1 = q1 # qs" by (auto split: if_splits)
    then show ?thesis
    proof cases
      case 1
      from Cons.IH [OF _ l3] Cons.prems(1) have ih: "array_step M suspended qs (mark_valid M i (al_ids s)) (al_ids s3) qs3"
        "loop_frame d p (al_dqm s3) (al_qpd s3)" by (simp_all add: t2_def t_def)
      from array_step_valid_loop [OF assms(1) Cons.prems(1) Some q2(1) q2(2) [OF 1(1)] ih(1)] loop_frame_trans [OF ef(1) ih(2)] show ?thesis
        by (simp add: 1)
    next
      case 2
      from Cons.IH [OF _ l4] Cons.prems(1) have ih: "array_step M suspended qs (al_ids s) (al_ids s4) qs4"
        "loop_frame d p (al_dqm s4) (al_qpd s4)" by (simp_all add: t_def)
      with loop_frame_trans [OF ef(1) ih(2)] ef(2) show ?thesis by (simp add: 2 array_step_Cons)
    next
      case 3
      with ef show ?thesis by (simp add: t_def array_step_error [OF assms(1)])
    qed
  qed
qed simp

lemma suspend_post_effect:
  assumes "masks_ok M" "ids_free M qs" "suspend_post M r cm qs ids = (ids1, qs1)"
  shows "array_step M suspended qs ids ids1 qs1"
  using assms(2,3)
proof (induction qs arbitrary: ids ids1 qs1)
  case (Cons q qs)
  show ?case
  proof (cases "q_array_get_index M (queue_id (properties q)) ids")
    case None
    obtain ids2 qs2 where l: "suspend_post M r cm qs ids = (ids2, qs2)" by (metis surj_pair)
    with Cons.prems None have "ids2 = ids1" "qs1 = q # qs2" by simp_all
    with Cons.IH [OF _ l] Cons.prems(1) show ?thesis by (simp add: array_step_Cons)
  next
    case (Some i)
    define ids3 where "ids3 = (if r \<noteq> OK then mark_error M i ids else ids)"
    define q1 where "q1 = (if r = OK \<and> cm \<noteq> 0 then clear_exceptions cm q else q)"
    obtain ids2 qs2 where l: "suspend_post M r cm qs ids3 = (ids2, qs2)" by (metis surj_pair)
    have "(ids1, qs1) = (ids2, q1 # qs2)"
      unfolding Cons.prems(2) [symmetric] suspend_post.simps Some option.case Let_def ids3_def [symmetric] q1_def [symmetric] l prod.case ..
    moreover have q1: "queue_rel suspended q q1" by (simp add: q1_def)
    have "array_step M suspended (q # qs) ids ids3 (q # qs)" using array_step_error [OF assms(1)] by (simp add: ids3_def)
    moreover have "array_step M suspended (q # qs) ids3 ids2 (q1 # qs2)" using Cons.IH [OF _ l] Cons.prems(1) q1 by (simp add: array_step_Cons)
    ultimately show ?thesis using array_step_trans [OF assms(1) Cons.prems(1)] by simp
  qed
qed simp

lemma resume_loop_effect:
  assumes "masks_ok M" "ids_free M qs" "resume_loop M env given qs s = (s1, qs1)"
  shows "array_step M resumed qs (al_ids s) (al_ids s1) qs1 \<and> loop_frame (al_dqm s) (al_qpd s) (al_dqm s1) (al_qpd s1)"
  using assms(2,3)
proof (induction qs arbitrary: s s1 qs1)
  case (Cons q qs)
  define ix where "ix = (if given then q_array_get_index M (queue_id (properties q)) (al_ids s) else None)"
  obtain r d p q1 where x: "resume_single_queue env (al_dqm s) (al_qpd s) q = (r, d, p, q1)" by (metis prod_cases4)
  note ef = resume_single_effect [OF x]
  define t where "t = s\<lparr>al_dqm := d, al_qpd := p\<rparr>"
  define t2 where "t2 = (if given then t\<lparr>al_ids := mark_valid M (the ix) (al_ids s)\<rparr> else t)"
  define t3 where "t3 = (if uses_mes d then t2\<lparr>al_total := (if r = OK then al_total s + 1 else al_total s)\<rparr> else t2\<lparr>al_device := al_device s + 1\<rparr>)"
  obtain s2 qs2 where l2: "resume_loop M env given qs s = (s2, qs2)" by (metis surj_pair)
  obtain s3 qs3 where l3: "resume_loop M env given qs t3 = (s3, qs3)" by (metis surj_pair)
  have "(s1, qs1) = (if given \<and> ix = None then (s2, q # qs2)
      else if given \<and> r \<noteq> OK then (t\<lparr>al_ids := mark_error M (the ix) (al_ids s)\<rparr>, q1 # qs) else (s3, q1 # qs3))"
    unfolding Cons.prems(2) [symmetric] resume_loop.simps ix_def [symmetric] Let_def x prod.case t_def [symmetric] t2_def [symmetric] t3_def [symmetric] l2 l3 ..
  then consider "s1 = s2" "qs1 = q # qs2" | "s1 = t\<lparr>al_ids := mark_error M (the ix) (al_ids s)\<rparr>" "qs1 = q1 # qs"
    | "given \<longrightarrow> ix \<noteq> None" "s1 = s3" "qs1 = q1 # qs3" by (auto split: if_splits)
  then show ?case
  proof cases
    case 1
    with Cons.IH [OF _ l2] Cons.prems(1) show ?thesis by (simp add: array_step_Cons)
  next
    case 2
    with ef show ?thesis by (simp add: t_def array_step_error [OF assms(1)])
  next
    case 3
    have "al_ids t3 = al_ids t2" "al_dqm t3 = d" "al_qpd t3 = p" by (simp_all add: t3_def t2_def t_def)
    with Cons.IH [OF _ l3] Cons.prems(1) have ih: "array_step M resumed qs (al_ids t2) (al_ids s3) qs3"
      "loop_frame d p (al_dqm s3) (al_qpd s3)" by simp_all
    have "array_step M resumed (q # qs) (al_ids s) (al_ids s3) (q1 # qs3)"
    proof (cases given)
      case True
      with 3(1) have i: "q_array_get_index M (queue_id (properties q)) (al_ids s) = Some (the ix)" by (auto simp: ix_def)
      have "al_ids t2 = mark_valid M (the ix) (al_ids s)" using True by (simp add: t2_def)
      with array_step_valid_loop [OF assms(1) Cons.prems(1) i ef(2,3)] ih(1) show ?thesis by simp
    next
      case False
      with ih(1) ef(2) show ?thesis by (simp add: t2_def t_def array_step_Cons)
    qed
    with loop_frame_trans [OF ef(1) ih(2)] show ?thesis by (simp add: 3)
  qed
qed simp

lemma resume_post_effect:
  assumes "masks_ok M" "ids_free M qs0"
  shows "array_step M resumed qs0 ids (resume_post M qs ids) qs0"
proof (induction qs arbitrary: ids)
  case (Cons q qs)
  show ?case
  proof (cases "q_array_get_index M (queue_id (properties q)) ids")
    case (Some i)
    have "array_step M resumed qs0 ids (mark_error M i ids) qs0" by (simp add: array_step_error [OF assms(1)])
    from array_step_trans [OF assms this Cons.IH] Some show ?thesis by simp
  qed (simp add: Cons.IH)
qed simp

section \<open>The devices\<close>

definition all_queues :: "process_queue_manager \<Rightarrow> queue list" where
  "all_queues st = concat (map queues_list (structs st))"

lemma write_structs:
  assumes i: "i < length (pdds st)" and dist: "distinct (map pdd_dev (pdds st))" and p: "qpd_ptr qpd = pdd_ptr (pdds st ! i)"
    and g: "get_qpd d (pdd_ptr (pdds st ! i)) = None \<longleftrightarrow> get_qpd (dqms st (pdd_dev (pdds st ! i))) (pdd_ptr (pdds st ! i)) = None"
    and st1: "st1 = write_qpd (pdds st ! i) qpd (set_dqm (pdd_dev (pdds st ! i)) d st)"
  shows "map pdd_dev (pdds st1) = map pdd_dev (pdds st)" "structs st1 = (structs st)[i := qpd]"
proof -
  define pdd where "pdd = pdds st ! i"
  have other: "pdd_dev (pdds st ! j) \<noteq> pdd_dev pdd" if "j < length (pdds st)" "j \<noteq> i" for j
    using dist i that by (auto simp: pdd_def distinct_conv_nth)
  have pd: "pdds st1 = map (\<lambda>x. if pdd_dev x = pdd_dev pdd then pdd\<lparr>pdd_qpd := qpd\<rparr> else x) (pdds st)"
    by (simp add: st1 write_qpd_def put_pdd_def set_dqm_def pdd_def)
  have dq: "dqms st1 = (dqms st)(pdd_dev pdd := put_qpd qpd d)" by (simp add: st1 write_qpd_def put_pdd_def set_dqm_def pdd_def)
  show "map pdd_dev (pdds st1) = map pdd_dev (pdds st)" by (simp add: pd)
  have "the_qpd (pdds st1 ! j) st1 = (if j = i then qpd else the_qpd (pdds st ! j) st)" if "j < length (pdds st)" for j
  proof (cases "j = i")
    case True
    then have "pdds st1 ! j = pdd\<lparr>pdd_qpd := qpd\<rparr>" using that by (simp add: pd pdd_def)
    then show ?thesis using True by (auto simp: the_qpd_def dq pdd_ptr_def get_put_qpd split: option.splits)
  next
    case False
    with other [OF that] show ?thesis using that by (simp add: pd the_qpd_def dq)
  qed
  then show "structs st1 = (structs st)[i := qpd]" using i by (auto simp: structs_def list_eq_iff_nth_eq nth_list_update pd)
qed

lemma all_queues_update:
  assumes "structs st1 = (structs st)[i := qpd]" "i < length (structs st)" "array_step M P (queues_list (structs st ! i)) ids ids1 (queues_list qpd)"
  shows "array_step M P (all_queues st) ids ids1 (all_queues st1)"
proof -
  have "all_queues st = concat (map queues_list (take i (structs st))) @ queues_list (structs st ! i) @ concat (map queues_list (drop (Suc i) (structs st)))"
    using id_take_nth_drop [OF assms(2)] unfolding all_queues_def by (metis concat.simps(2) concat_append list.simps(9) map_append)
  moreover have "all_queues st1 = concat (map queues_list (take i (structs st))) @ queues_list qpd @ concat (map queues_list (drop (Suc i) (structs st)))"
    using assms(1) upd_conv_take_nth_drop [OF assms(2)] by (simp add: all_queues_def)
  ultimately show ?thesis using array_step_append [OF assms(3)] by simp
qed

lemma ids_free_struct: "ids_free M (all_queues st) \<Longrightarrow> i < length (structs st) \<Longrightarrow> ids_free M (queues_list (structs st ! i))"
  by (auto simp: ids_free_def all_queues_def)

text \<open>Where the loop over the queues of a device ends: the structure is written back into a manager that the scheduler may have changed.\<close>

lemma write_back:
  assumes "i < length (pdds st)" "distinct (map pdd_dev (pdds st))" "loop_frame (dqms st (pdd_dev (pdds st ! i))) (the_qpd (pdds st ! i) st) d p"
    "sched_only (put_qpd (p\<lparr>queues_list := qs\<rparr>) d) d1" "array_step M P (queues_list (the_qpd (pdds st ! i) st)) ids ids1 qs1"
    "st1 = write_qpd (pdds st ! i) (p\<lparr>queues_list := qs1\<rparr>) (set_dqm (pdd_dev (pdds st ! i)) d1 st)"
  shows "map pdd_dev (pdds st1) = map pdd_dev (pdds st) \<and> array_step M P (all_queues st) ids ids1 (all_queues st1)"
proof -
  let ?pdd = "pdds st ! i"
  have "qpd_ptr (the_qpd ?pdd st) = pdd_ptr ?pdd" using get_qpd_Some by (auto simp: the_qpd_def pdd_ptr_def split: option.splits)
  with assms(3) have 1: "qpd_ptr (p\<lparr>queues_list := qs1\<rparr>) = pdd_ptr ?pdd" by (auto simp: loop_frame_def)
  have "dqm_queues d = dqm_queues (dqms st (pdd_dev ?pdd))" using assms(3) procs_queues unfolding loop_frame_def by blast
  then have "get_qpd d1 (pdd_ptr ?pdd) = None \<longleftrightarrow> get_qpd (dqms st (pdd_dev ?pdd)) (pdd_ptr ?pdd) = None"
    using get_qpd_cong [OF sched_only_fields(1) [OF assms(4)]] get_qpd_cong [of d "dqms st (pdd_dev ?pdd)"] by (auto simp: get_put_qpd)
  note w = write_structs [OF assms(1,2) 1 this assms(6)]
  have "structs st ! i = the_qpd ?pdd st" "i < length (structs st)" using assms(1) by (simp_all add: structs_def)
  with w(1) all_queues_update [OF w(2)] assms(5) show ?thesis by simp
qed

lemma suspend_device_effect:
  assumes "masks_ok M" "i < length (pdds st)" "distinct (map pdd_dev (pdds st))" "ids_free M (all_queues st)"
    "suspend_device M env gp cm (pdds st ! i) (ids, tot, st) = (ids1, tot1, st1)"
  shows "map pdd_dev (pdds st1) = map pdd_dev (pdds st) \<and> array_step M suspended (all_queues st) ids ids1 (all_queues st1)"
proof -
  let ?pdd = "pdds st ! i"
  define s0 where "s0 = \<lparr>al_dqm = dqms st (pdd_dev ?pdd), al_qpd = the_qpd ?pdd st, al_ids = ids, al_total = tot, al_device = 0\<rparr>"
  have f: "ids_free M (queues_list (the_qpd ?pdd st))" using ids_free_struct [OF assms(4), of i] assms(2) by (simp add: structs_def)
  obtain s qs where l: "suspend_loop M env cm (queues_list (the_qpd ?pdd st)) s0 = (s, qs)" by (metis surj_pair)
  from suspend_loop_effect [OF assms(1) f l] have lp: "array_step M suspended (queues_list (the_qpd ?pdd st)) ids (al_ids s) qs"
    "loop_frame (dqms st (pdd_dev ?pdd)) (the_qpd ?pdd st) (al_dqm s) (al_qpd s)" by (simp_all add: s0_def)
  define qpd1 where "qpd1 = (al_qpd s)\<lparr>queues_list := qs\<rparr>"
  define dqm1 where "dqm1 = put_qpd qpd1 (al_dqm s)"
  obtain r dqm2 where x: "execute_queues_cpsch env KFD_UNMAP_QUEUES_FILTER_DYNAMIC_QUEUES 0 gp dqm1 = (r, dqm2)" by (metis surj_pair)
  obtain ids2 qs2 where po: "suspend_post M r cm qs (al_ids s) = (ids2, qs2)" by (metis surj_pair)
  have res: "(ids1, tot1, st1) = (if al_device s = 0 then (al_ids s, al_total s, write_qpd ?pdd qpd1 (set_dqm (pdd_dev ?pdd) dqm1 st))
      else (ids2, if r = OK then al_total s + al_device s else al_total s,
        write_qpd ?pdd (qpd1\<lparr>queues_list := qs2\<rparr>) (set_dqm (pdd_dev ?pdd) dqm2 st)))"
    unfolding assms(5) [symmetric] suspend_device_def prod.case Let_def s0_def [symmetric] l qpd1_def [symmetric] dqm1_def [symmetric] x po ..
  note wb = write_back [OF assms(2,3) lp(2)]
  show ?thesis
  proof (cases "al_device s = 0")
    case True
    with res have "ids1 = al_ids s" "st1 = write_qpd ?pdd ((al_qpd s)\<lparr>queues_list := qs\<rparr>) (set_dqm (pdd_dev ?pdd) dqm1 st)" by (simp_all add: qpd1_def)
    with wb [OF _ lp(1), of qs dqm1] show ?thesis by (simp add: dqm1_def qpd1_def)
  next
    case False
    with res have e: "ids1 = ids2" "st1 = write_qpd ?pdd ((al_qpd s)\<lparr>queues_list := qs2\<rparr>) (set_dqm (pdd_dev ?pdd) dqm2 st)" by (simp_all add: qpd1_def)
    have "ids_free M qs" using f ids_free_rel lp(1) unfolding array_step_def by blast
    from array_step_trans [OF assms(1) f lp(1) suspend_post_effect [OF assms(1) this po]] have "array_step M suspended (queues_list (the_qpd ?pdd st)) ids ids1 qs2"
      by (simp add: e)
    from wb [OF execute_queues_frame [OF x [unfolded dqm1_def qpd1_def]] this e(2)] show ?thesis .
  qed
qed

lemma resume_device_effect:
  assumes "masks_ok M" "i < length (pdds st)" "distinct (map pdd_dev (pdds st))" "ids_free M (all_queues st)"
    "resume_device M env given (pdds st ! i) (ids, tot, st) = (ids1, tot1, st1)"
  shows "map pdd_dev (pdds st1) = map pdd_dev (pdds st) \<and> array_step M resumed (all_queues st) ids ids1 (all_queues st1)"
proof -
  let ?pdd = "pdds st ! i"
  define s0 where "s0 = \<lparr>al_dqm = dqms st (pdd_dev ?pdd), al_qpd = the_qpd ?pdd st, al_ids = ids, al_total = tot, al_device = 0\<rparr>"
  have f: "ids_free M (queues_list (the_qpd ?pdd st))" using ids_free_struct [OF assms(4), of i] assms(2) by (simp add: structs_def)
  obtain s qs where l: "resume_loop M env given (queues_list (the_qpd ?pdd st)) s0 = (s, qs)" by (metis surj_pair)
  from resume_loop_effect [OF assms(1) f l] have lp: "array_step M resumed (queues_list (the_qpd ?pdd st)) ids (al_ids s) qs"
    "loop_frame (dqms st (pdd_dev ?pdd)) (the_qpd ?pdd st) (al_dqm s) (al_qpd s)" by (simp_all add: s0_def)
  define qpd1 where "qpd1 = (al_qpd s)\<lparr>queues_list := qs\<rparr>"
  define dqm1 where "dqm1 = put_qpd qpd1 (al_dqm s)"
  obtain r dqm2 where x: "refresh env dqm1 = (r, dqm2)" by (metis surj_pair)
  have res: "(ids1, tot1, st1) = (if al_device s = 0 then (al_ids s, al_total s, write_qpd ?pdd qpd1 (set_dqm (pdd_dev ?pdd) dqm1 st))
      else (if r \<noteq> OK \<and> given then resume_post M qs (al_ids s) else al_ids s, if r = OK then al_total s + al_device s else al_total s,
        write_qpd ?pdd qpd1 (set_dqm (pdd_dev ?pdd) dqm2 st)))"
    unfolding assms(5) [symmetric] resume_device_def prod.case Let_def s0_def [symmetric] l qpd1_def [symmetric] dqm1_def [symmetric] x ..
  note wb = write_back [OF assms(2,3) lp(2)]
  have q: "ids_free M qs" using f ids_free_rel lp(1) unfolding array_step_def by blast
  have "ids1 = al_ids s \<or> ids1 = resume_post M qs (al_ids s)" using res by (auto split: if_splits)
  then have "array_step M resumed qs (al_ids s) ids1 qs" using resume_post_effect [OF assms(1) q, of "al_ids s" qs] by auto
  from array_step_trans [OF assms(1) f lp(1) this] have a: "array_step M resumed (queues_list (the_qpd ?pdd st)) ids ids1 qs" .
  have "sched_only dqm1 dqm2" using execute_queues_frame [OF x] .
  then have so: "sched_only dqm1 (if al_device s = 0 then dqm1 else dqm2)" by simp
  have "st1 = write_qpd ?pdd ((al_qpd s)\<lparr>queues_list := qs\<rparr>) (set_dqm (pdd_dev ?pdd) (if al_device s = 0 then dqm1 else dqm2) st)"
    using res by (auto simp: qpd1_def split: if_splits)
  from wb [OF so [unfolded dqm1_def qpd1_def] a this [unfolded dqm1_def qpd1_def]] show ?thesis .
qed

text \<open>An operation on an array of queue ids, device by device.\<close>

locale array_operation =
  fixes dev_op :: "nat \<Rightarrow> u32 list \<times> nat \<times> process_queue_manager \<Rightarrow> u32 list \<times> nat \<times> process_queue_manager"
    and M :: dbg_masks and P :: "queue \<Rightarrow> bool"
  assumes dev_ok: "masks_ok M \<Longrightarrow> i < length (pdds st) \<Longrightarrow> distinct (map pdd_dev (pdds st)) \<Longrightarrow> ids_free M (all_queues st) \<Longrightarrow>
    dev_op i (ids, tot, st) = (ids1, tot1, st1) \<Longrightarrow>
    map pdd_dev (pdds st1) = map pdd_dev (pdds st) \<and> array_step M P (all_queues st) ids ids1 (all_queues st1)"
begin

lemma devices_step:
  assumes "masks_ok M" "\<forall>i \<in> set is. i < length (pdds st)" "distinct (map pdd_dev (pdds st))" "ids_free M (all_queues st)"
    "fold dev_op is (ids, tot, st) = (ids1, tot1, st1)"
  shows "array_step M P (all_queues st) ids ids1 (all_queues st1)"
  using assms(2-5)
proof (induction "is" arbitrary: ids tot st)
  case (Cons i "is")
  obtain ids2 tot2 st2 where x: "dev_op i (ids, tot, st) = (ids2, tot2, st2)" by (metis prod_cases3)
  from dev_ok [OF assms(1) _ Cons.prems(2,3) x] Cons.prems(1)
  have s: "map pdd_dev (pdds st2) = map pdd_dev (pdds st)" "array_step M P (all_queues st) ids ids2 (all_queues st2)" by auto
  have "length (pdds st2) = length (pdds st)" using s(1) by (metis length_map)
  moreover have "ids_free M (all_queues st2)" using Cons.prems(3) s(2) ids_free_rel unfolding array_step_def by blast
  ultimately have "array_step M P (all_queues st2) ids2 ids1 (all_queues st1)"
    using Cons.IH [of st2 ids2 tot2] Cons.prems s(1) x by simp
  with array_step_trans [OF assms(1) Cons.prems(3) s(2)] show ?case .
qed simp

lemma valid_entries:
  assumes "masks_ok M" "distinct (map pdd_dev (pdds st))" "ids_free M (all_queues st)"
    "fold dev_op [0..<length (pdds st)] (q_array_invalidate M ids, 0, st) = (ids1, tot, st1)" "k < length ids" "is_valid M (ids1 ! k)"
  shows "\<exists>q \<in> set (all_queues st1). P q \<and> queue_id (properties q) = plain M (ids ! k)"
proof -
  have "\<forall>i \<in> set [0..<length (pdds st)]. i < length (pdds st)" by simp
  from devices_step [OF assms(1) this assms(2-4)] have "backed M P (q_array_invalidate M ids) ids1 (all_queues st1)" by (simp add: array_step_def)
  moreover have "\<not> is_valid M (q_array_invalidate M ids ! k)" "plain M (q_array_invalidate M ids ! k) = plain M (ids ! k)"
    using plain_mark(3,5) [OF assms(1)] assms(5) by (simp_all add: q_array_invalidate_def)
  moreover have "k < length (q_array_invalidate M ids)" using assms(5) by (simp add: q_array_invalidate_def)
  ultimately show ?thesis using assms(6) unfolding backed_def by metis
qed

end

interpretation suspend_array: array_operation "\<lambda>i x. suspend_device M (env i) gp cm (pdds (snd (snd x)) ! i) x" M suspended for M env gp cm
  by unfold_locales (simp, rule suspend_device_effect)

interpretation resume_array: array_operation "\<lambda>i x. resume_device M (env i) given (pdds (snd (snd x)) ! i) x" M resumed for M env given
  by unfold_locales (simp, rule resume_device_effect)

lemma devices_fold:
  "suspend_devices M env gp cm is x = fold (\<lambda>i x. suspend_device M (env i) gp cm (pdds (snd (snd x)) ! i) x) is x"
  "resume_devices M env given is x = fold (\<lambda>i x. resume_device M (env i) given (pdds (snd (snd x)) ! i) x) is x"
  by (induction "is" arbitrary: x) simp_all

section \<open>Examples\<close>

definition masks_example :: dbg_masks where
  "masks_example = \<lparr>KFD_DBG_QUEUE_INVALID_MASK = 0x80000000, KFD_DBG_QUEUE_ERROR_MASK = 0x40000000\<rparr>"

text \<open>A process with an active queue on one of its two devices, both with the hardware scheduler.\<close>

definition debug_example :: "bool \<Rightarrow> process_queue_manager" where
  "debug_example b = (evict_example 0 0)\<lparr>dqms := \<lambda>_. dqm_example\<lparr>dqm_queues :=
     [qpd_example 1 0x8001 [let q = queue_example 11 KFD_QUEUE_TYPE_COMPUTE (\<not> b)
        in q\<lparr>properties := (properties q)\<lparr>is_suspended := b, queue_id := 5\<rparr>\<rparr>]]\<rparr>\<rparr>"

section \<open>Properties\<close>

text \<open>
  C16. What the debugger is told is true: when \<^verbatim>\<open>suspend_queues\<close> returns an entry of the array without the bit \<^verbatim>\<open>KFD_DBG_QUEUE_INVALID_MASK\<close>, the process has a queue of
  that id, on one of its devices, and it is suspended when the call returns.
\<close>

theorem suspend_reports_suspended:
  assumes "masks_ok M" "distinct (map pdd_dev (pdds st))" "ids_free M (all_queues st)"
    "suspend_queues M env memdup n grace_period cm (Some ids) st = (Inr tot, ids1, st1)" "k < length ids" "is_valid M (ids1 ! k)"
  shows "\<exists>q \<in> set (all_queues st1). is_suspended (properties q) \<and> queue_id (properties q) = plain M (ids ! k)"
proof -
  have "memdup = OK" "suspend_devices M env grace_period cm [0..<length (pdds st)] (q_array_invalidate M ids, 0, st) = (ids1, tot, st1)"
    using assms(4) by (cases memdup; auto simp: suspend_queues_def get_queue_ids_def split: prod.splits)+
  from suspend_array.valid_entries [OF assms(1-3) this(2) [unfolded devices_fold] assms(5,6)] show ?thesis .
qed

theorem suspend_reports_suspended_witness:
  "\<exists>q \<in> set (all_queues (snd (snd (suspend_queues masks_example (\<lambda>_. env_example) OK 2 0 0 (Some [5, 7]) (debug_example False))))).
     is_suspended (properties q) \<and> queue_id (properties q) = 5"
proof -
  let ?r = "suspend_queues masks_example (\<lambda>_. env_example) OK 2 0 0 (Some [5, 7]) (debug_example False)"
  have h: "masks_ok masks_example" "distinct (map pdd_dev (pdds (debug_example False)))" "ids_free masks_example (all_queues (debug_example False))"
    by code_simp+
  have r: "fst ?r = Inr 1" "fst (snd ?r) = [5, 0x80000007]" "plain masks_example 5 = 5" "is_valid masks_example 5" by code_simp+
  then obtain st1 where x: "?r = (Inr 1, [5, 0x80000007], st1)" by (metis prod.collapse)
  have k: "0 < length [5, 7 :: u32]" by simp
  show ?thesis using suspend_reports_suspended [OF h x k] r(3,4) by (simp add: x)
qed

text \<open>
  The same of \<^verbatim>\<open>resume_queues\<close>: an entry without the bit has a queue that is not suspended any more.
\<close>

theorem resume_reports_resumed:
  assumes "masks_ok M" "distinct (map pdd_dev (pdds st))" "ids_free M (all_queues st)"
    "resume_queues M env memdup (Some ids) st = (Inr tot, ids1, st1)" "k < length ids" "is_valid M (ids1 ! k)"
  shows "\<exists>q \<in> set (all_queues st1). \<not> is_suspended (properties q) \<and> queue_id (properties q) = plain M (ids ! k)"
proof -
  have "memdup = OK" "resume_devices M env True [0..<length (pdds st)] (q_array_invalidate M ids, 0, st) = (ids1, tot, st1)"
    using assms(4) by (cases memdup; auto simp: resume_queues_def get_queue_ids_def split: prod.splits)+
  from resume_array.valid_entries [OF assms(1-3) this(2) [unfolded devices_fold] assms(5,6)] show ?thesis .
qed

theorem resume_reports_resumed_witness:
  "\<exists>q \<in> set (all_queues (snd (snd (resume_queues masks_example (\<lambda>_. env_example) OK (Some [7, 5]) (debug_example True))))).
     \<not> is_suspended (properties q) \<and> queue_id (properties q) = 5"
proof -
  let ?r = "resume_queues masks_example (\<lambda>_. env_example) OK (Some [7, 5]) (debug_example True)"
  have h: "masks_ok masks_example" "distinct (map pdd_dev (pdds (debug_example True)))" "ids_free masks_example (all_queues (debug_example True))"
    by code_simp+
  have r: "fst ?r = Inr 1" "fst (snd ?r) = [0x80000007, 5]" "plain masks_example 5 = 5" "is_valid masks_example 5" by code_simp+
  then obtain st1 where x: "?r = (Inr 1, [0x80000007, 5], st1)" by (metis prod.collapse)
  have k: "1 < length [7, 5 :: u32]" by simp
  show ?thesis using resume_reports_resumed [OF h x k] r(3,4) by (simp add: x)
qed

end
