(* ===== verification/Kfd_Debug.thy ===== *)
theory Kfd_Debug
  imports Debug_Queues Kfd_Interrupt
begin

text \<open>
  The debugger's view of a process (\<^verbatim>\<open>kfd/kfd_debug.c\<close>): exceptions of queues, devices and the process, which interrupts raise and the debugger
  queries, and address watch points, of which a device has four for all processes.

  The exception codes and masks come from a header that is not in the sources. Waiting for interrupts to be drained is left out.
\<close>

unbundle bit_operations_syntax

section \<open>State\<close>

record dbg_codes = ec_codes +
  EC_MASK_DEVICE :: u64
  EC_MASK_PROCESS :: u64
  EC_QUEUE_NEW :: u32
  EC_PROCESS_RUNTIME :: u32
  EC_TYPE_IS_QUEUE :: "u32 \<Rightarrow> bool"
  EC_TYPE_IS_DEVICE :: "u32 \<Rightarrow> bool"
  EC_TYPE_IS_PROCESS :: "u32 \<Rightarrow> bool"

text \<open>The exceptions in \<^verbatim>\<open>struct kfd_process_device\<close>\<close>

record pdd_exception =
  pdd_exception_status :: u64
  vm_fault_exc_data :: "memory_exception option"
  vm_fault_exc_data_size :: nat

text \<open>
  What the debugger uses of \<^verbatim>\<open>struct kfd_process\<close>. \<open>dp_exc\<close> is indexed by the device; \<open>ev_written\<close> counts the bytes written to the event file, and
  \<open>ev_work\<close> says whether the work that writes is scheduled.
\<close>

record debug_process =
  dp_pqm :: process_queue_manager
  dp_exc :: "nat \<Rightarrow> pdd_exception"
  dp_exception_status :: u64
  exception_enable_mask :: u64
  dp_trap_enabled :: bool
  dbg_ev_file :: bool
  ev_written :: nat
  ev_work :: bool

text \<open>The queue a node points to, with the structure of its device. A node of a kernel queue has none.\<close>

definition node_queue :: "process_queue_manager \<Rightarrow> process_queue_node \<Rightarrow> (process_device \<times> queue) option" where
  "node_queue st n =
     (case pqn_q n of
        None \<Rightarrow> None
      | Some r \<Rightarrow> (case get_pdd (ref_dev r) st of
            None \<Rightarrow> None
          | Some pdd \<Rightarrow> map_option (Pair pdd) (find_queue (ref_ptr r) (the_qpd pdd st))))"

abbreviation q_exc :: "queue \<Rightarrow> u64" where
  "q_exc q \<equiv> exception_status (properties q)"

definition write_queue :: "(queue \<Rightarrow> queue) \<Rightarrow> process_device \<times> queue \<Rightarrow> debug_process \<Rightarrow> debug_process" where
  "write_queue f x p = p\<lparr>dp_pqm := pqm_write_queue f (fst x) (q_ptr (snd x)) (dp_pqm p)\<rparr>"

definition write_exc :: "(pdd_exception \<Rightarrow> pdd_exception) \<Rightarrow> nat \<Rightarrow> debug_process \<Rightarrow> debug_process" where
  "write_exc f dev p = p\<lparr>dp_exc := (dp_exc p)(dev := f (dp_exc p dev))\<rparr>"

section \<open>Exceptions\<close>

text \<open>The first queue that fulfils a condition, in the order of the list of nodes\<close>

fun first_queue :: "(process_device \<times> queue \<Rightarrow> bool) \<Rightarrow> process_queue_manager \<Rightarrow> process_queue_node list \<Rightarrow> (process_device \<times> queue) option" where
  "first_queue P st [] = None"
| "first_queue P st (n # ns) =
     (case node_queue st n of Some x \<Rightarrow> if P x then Some x else first_queue P st ns | None \<Rightarrow> first_queue P st ns)"

text \<open>The results are the status, the id of the queue and the id of the GPU.\<close>

definition kfd_dbg_ev_query_debug_event ::
    "(nat \<Rightarrow> u32) \<Rightarrow> u64 \<Rightarrow> debug_process \<Rightarrow> retval \<times> (u64 \<times> u32 \<times> u32) \<times> debug_process" where
  "kfd_dbg_ev_query_debug_event gpu exception_clear_mask p =
     (if \<not> dp_trap_enabled p then (Err ENODATA, (0, 0, 0), p)
      else
        let m = exception_enable_mask p; st = dp_pqm p in
        case first_queue (\<lambda>x. m AND q_exc (snd x) \<noteq> 0) st (pqm_queues st) of
          Some (pdd, q) \<Rightarrow>
            (if q_exc q \<noteq> 0 then OK else Err EAGAIN, (q_exc q, queue_id (properties q), gpu (pdd_dev pdd)),
             write_queue (clear_exceptions exception_clear_mask) (pdd, q) p)
        | None \<Rightarrow>
            (case find (\<lambda>pdd. m AND pdd_exception_status (dp_exc p (pdd_dev pdd)) \<noteq> 0) (pdds st) of
               Some pdd \<Rightarrow>
                 let s = pdd_exception_status (dp_exc p (pdd_dev pdd)) in
                 (if s \<noteq> 0 then OK else Err EAGAIN, (s, 0, gpu (pdd_dev pdd)),
                  write_exc (\<lambda>e. e\<lparr>pdd_exception_status := s AND NOT exception_clear_mask\<rparr>) (pdd_dev pdd) p)
             | None \<Rightarrow>
                 if m AND dp_exception_status p \<noteq> 0
                 then (if dp_exception_status p \<noteq> 0 then OK else Err EAGAIN, (dp_exception_status p, 0, 0),
                       p\<lparr>dp_exception_status := dp_exception_status p AND NOT exception_clear_mask\<rparr>)
                 else (Err EAGAIN, (0, 0, 0), p)))"

definition debug_event_write_work_handler :: "debug_process \<Rightarrow> debug_process" where
  "debug_event_write_work_handler p =
     (let p1 = p\<lparr>ev_work := False\<rparr> in if dp_trap_enabled p \<and> dbg_ev_file p then p1\<lparr>ev_written := ev_written p + 1\<rparr> else p1)"

text \<open>\<open>copy\<close> is the result of \<^verbatim>\<open>kmemdup\<close>.\<close>

definition raise_device :: "dbg_codes \<Rightarrow> u64 \<Rightarrow> memory_exception option \<Rightarrow> pdd_exception \<Rightarrow> pdd_exception" where
  "raise_device ec event_mask copy e =
     (let e1 = e\<lparr>pdd_exception_status := pdd_exception_status e OR (event_mask AND EC_MASK_DEVICE ec)\<rparr> in
      if event_mask AND EC_MASK ec (EC_DEVICE_MEMORY_VIOLATION ec) \<noteq> 0 \<and> vm_fault_exc_data e1 = None then e1\<lparr>vm_fault_exc_data := copy\<rparr> else e1)"

definition raise_queue :: "u64 \<Rightarrow> queue \<Rightarrow> queue" where
  "raise_queue event_mask q = q\<lparr>properties := (properties q)\<lparr>exception_status := exception_status (properties q) OR event_mask\<rparr>\<rparr>"

definition raise_target :: "dbg_codes \<Rightarrow> u64 \<Rightarrow> nat \<Rightarrow> u32 \<Rightarrow> process_device \<times> queue \<Rightarrow> bool" where
  "raise_target ec event_mask dev source_id x \<longleftrightarrow>
     pdd_dev (fst x) = dev \<and>
     (if event_mask AND EC_MASK ec (EC_QUEUE_NEW ec) \<noteq> 0 then queue_id (properties (snd x)) else of_nat (doorbell_id (snd x))) = source_id"

definition kfd_dbg_ev_raise ::
    "dbg_codes \<Rightarrow> u64 \<Rightarrow> nat \<Rightarrow> u32 \<Rightarrow> bool \<Rightarrow> memory_exception option \<Rightarrow> debug_process \<Rightarrow> bool \<times> debug_process" where
  "kfd_dbg_ev_raise ec event_mask dev source_id use_worker copy p =
     (if \<not> dp_trap_enabled p then (False, p)
      else
        let st = dp_pqm p;
            p1 = (if event_mask AND EC_MASK_DEVICE ec \<noteq> 0
                  then (case find (\<lambda>pdd. pdd_dev pdd = dev) (pdds st) of None \<Rightarrow> p | Some pdd \<Rightarrow> write_exc (raise_device ec event_mask copy) dev p)
                  else if event_mask AND EC_MASK_PROCESS ec \<noteq> 0
                  then p\<lparr>dp_exception_status := dp_exception_status p OR (event_mask AND EC_MASK_PROCESS ec)\<rparr>
                  else (case first_queue (raise_target ec event_mask dev source_id) st (pqm_queues st) of
                          None \<Rightarrow> p | Some x \<Rightarrow> write_queue (raise_queue event_mask) x p)) in
        if exception_enable_mask p1 AND event_mask \<noteq> 0
        then (True, if use_worker then p1\<lparr>ev_work := True\<rparr> else p1\<lparr>ev_written := ev_written p1 + 1\<rparr>)
        else (False, p1))"

text \<open>
  \<^verbatim>\<open>kfd_dbg_trap_query_exception_info\<close>: the results are the number of bytes copied and the size reported. \<open>info_size\<close> is \<open>None\<close> for a null pointer, here or for the
  buffer; \<open>rt_size\<close> is the size of \<^verbatim>\<open>struct kfd_runtime_info\<close> and \<open>copied\<close> whether \<^verbatim>\<open>copy_to_user\<close> succeeds.
\<close>

fun find_queue_id :: "u32 \<Rightarrow> process_queue_manager \<Rightarrow> process_device list \<Rightarrow> (process_device \<times> queue) option" where
  "find_queue_id source_id st [] = None"
| "find_queue_id source_id st (pdd # xs) =
     (case find (\<lambda>q. queue_id (properties q) = source_id) (queues_list (the_qpd pdd st)) of
        Some q \<Rightarrow> Some (pdd, q) | None \<Rightarrow> find_queue_id source_id st xs)"

definition kfd_dbg_trap_query_exception_info ::
    "dbg_codes \<Rightarrow> (nat \<Rightarrow> u32) \<Rightarrow> nat \<Rightarrow> u32 \<Rightarrow> u32 \<Rightarrow> bool \<Rightarrow> nat option \<Rightarrow> bool \<Rightarrow> debug_process \<Rightarrow> retval \<times> (nat \<times> nat) \<times> debug_process" where
  "kfd_dbg_trap_query_exception_info ec gpu rt_size source_id code clear_exception info_size copied p =
     (case info_size of
        None \<Rightarrow> (Err EINVAL, (0, 0), p)
      | Some size_in \<Rightarrow>
          let st = dp_pqm p; b = EC_MASK ec code in
          if EC_TYPE_IS_QUEUE ec code then
            (case find_queue_id source_id st (pdds st) of
               None \<Rightarrow> (Err EINVAL, (0, size_in), p)
             | Some x \<Rightarrow>
                 if q_exc (snd x) AND b = 0 then (Err ENODATA, (0, size_in), p)
                 else (OK, (0, 0), if clear_exception then write_queue (clear_exceptions b) x p else p))
          else if EC_TYPE_IS_DEVICE ec code then
            (case find (\<lambda>pdd. gpu (pdd_dev pdd) = source_id) (pdds st) of
               None \<Rightarrow> (Err EINVAL, (0, size_in), p)
             | Some pdd \<Rightarrow>
                 let dev = pdd_dev pdd; e = dp_exc p dev in
                 if pdd_exception_status e AND b = 0 then (Err ENODATA, (0, size_in), p)
                 else
                   let clear = (\<lambda>e. if clear_exception then e\<lparr>pdd_exception_status := pdd_exception_status e AND NOT b\<rparr> else e) in
                   if code = EC_DEVICE_MEMORY_VIOLATION ec then
                     if \<not> copied then (Err EFAULT, (0, size_in), p)
                     else (OK, (min size_in (vm_fault_exc_data_size e), vm_fault_exc_data_size e),
                           write_exc (\<lambda>e. clear (if clear_exception then e\<lparr>vm_fault_exc_data := None, vm_fault_exc_data_size := 0\<rparr> else e)) dev p)
                   else (OK, (0, 0), write_exc clear dev p))
          else if EC_TYPE_IS_PROCESS ec code then
            if dp_exception_status p AND b = 0 then (Err ENODATA, (0, size_in), p)
            else if code = EC_PROCESS_RUNTIME ec \<and> \<not> copied then (Err EFAULT, (0, size_in), p)
            else
              (OK, if code = EC_PROCESS_RUNTIME ec then (min size_in rt_size, rt_size) else (0, 0),
               if clear_exception then p\<lparr>dp_exception_status := dp_exception_status p AND NOT b\<rparr> else p)
          else (Err EINVAL, (0, size_in), p))"

definition found_mask :: "debug_process \<Rightarrow> u64" where
  "found_mask p =
     (let st = dp_pqm p;
          m1 = fold (\<lambda>n m. case node_queue st n of None \<Rightarrow> m | Some x \<Rightarrow> m OR q_exc (snd x)) (pqm_queues st) (dp_exception_status p)
      in fold (\<lambda>pdd m. m OR pdd_exception_status (dp_exc p (pdd_dev pdd))) (pdds st) m1)"

definition kfd_dbg_set_enabled_debug_exception_mask :: "u64 \<Rightarrow> debug_process \<Rightarrow> debug_process" where
  "kfd_dbg_set_enabled_debug_exception_mask exception_set_mask p =
     (let p1 = (if exception_set_mask AND found_mask p \<noteq> 0 then p\<lparr>ev_written := ev_written p + 1\<rparr> else p)
      in p1\<lparr>exception_enable_mask := exception_set_mask\<rparr>)"

definition kfd_dbg_clean_exception_status :: "debug_process \<Rightarrow> debug_process" where
  "kfd_dbg_clean_exception_status p =
     (let p1 = fold (\<lambda>pdd. write_exc (\<lambda>e. e\<lparr>pdd_exception_status := 0\<rparr>) (pdd_dev pdd)) (pdds (dp_pqm p)) p;
          p2 = fold (\<lambda>n p. case node_queue (dp_pqm p) n of None \<Rightarrow> p
                 | Some x \<Rightarrow> write_queue (\<lambda>q. q\<lparr>properties := (properties q)\<lparr>exception_status := 0\<rparr>\<rparr>) x p) (pqm_queues (dp_pqm p1)) p1
      in p2\<lparr>dp_exception_status := 0\<rparr>)"

section \<open>Watch points\<close>

abbreviation (input) MAX_WATCH_ADDRESSES :: nat where "MAX_WATCH_ADDRESSES \<equiv> 4"

text \<open>
  The watch points of a device. The structure of a process is named by the address of its \<^verbatim>\<open>struct qcm_process_device\<close>. The packets that map a process carry
  \<open>watch_points\<close> of the structure that the manager has linked.
\<close>

record watch_pdd =
  alloc_watch_ids :: u32
  pdd_watch_points :: "u32 list"

record watch_device =
  wd_dqm :: device_queue_manager
  kfd_alloc_watch_ids :: u32
  wd_pdds :: "nat \<Rightarrow> watch_pdd"

text \<open>What the register functions of the generation return; \<^verbatim>\<open>kfd_dbg_set_mes_debug_mode\<close> asks the firmware. \<open>we_xccs\<close> are the bits of \<^verbatim>\<open>xcc_mask\<close>.\<close>

record watch_env =
  we_hw :: hw_env
  we_clear :: "nat \<Rightarrow> u32"
  we_set :: "u64 \<Rightarrow> u32 \<Rightarrow> nat \<Rightarrow> u32 \<Rightarrow> nat \<Rightarrow> u32"
  we_xccs :: "nat list"
  we_mes_mode :: retval

definition put_watch_pdd :: "nat \<Rightarrow> watch_pdd \<Rightarrow> watch_device \<Rightarrow> watch_device" where
  "put_watch_pdd p w s = s\<lparr>wd_pdds := (wd_pdds s)(p := w)\<rparr>"

fun watch_id_loop :: "nat \<Rightarrow> nat list \<Rightarrow> watch_device \<Rightarrow> nat option \<times> watch_device" where
  "watch_id_loop p [] s = (None, s)"
| "watch_id_loop p (i # is) s =
     (if drop_bit i (kfd_alloc_watch_ids s) AND 1 \<noteq> 0 then watch_id_loop p is s
      else
        let w = wd_pdds s p in
        (Some i, put_watch_pdd p (w\<lparr>alloc_watch_ids := alloc_watch_ids w OR push_bit i 1\<rparr>)
                   (s\<lparr>kfd_alloc_watch_ids := kfd_alloc_watch_ids s OR push_bit i 1\<rparr>)))"

text \<open>\<open>None\<close> is \<^verbatim>\<open>-ENOMEM\<close>.\<close>

definition kfd_dbg_get_dev_watch_id :: "nat \<Rightarrow> watch_device \<Rightarrow> nat option \<times> watch_device" where
  "kfd_dbg_get_dev_watch_id p s = watch_id_loop p [0..<MAX_WATCH_ADDRESSES] s"

definition kfd_dbg_clear_dev_watch_id :: "nat \<Rightarrow> nat \<Rightarrow> watch_device \<Rightarrow> watch_device" where
  "kfd_dbg_clear_dev_watch_id p i s =
     (let w = wd_pdds s p in
      if drop_bit i (alloc_watch_ids w) AND 1 \<noteq> 0
      then put_watch_pdd p (w\<lparr>alloc_watch_ids := alloc_watch_ids w AND NOT (push_bit i 1)\<rparr>)
             (s\<lparr>kfd_alloc_watch_ids := kfd_alloc_watch_ids s AND NOT (push_bit i 1)\<rparr>)
      else s)"

text \<open>The parameter is an \<^verbatim>\<open>int\<close>. \<open>None\<close>: the shift by a negative number, which C leaves undefined.\<close>

definition kfd_dbg_owns_dev_watch_id :: "nat \<Rightarrow> u32 \<Rightarrow> watch_device \<Rightarrow> bool option" where
  "kfd_dbg_owns_dev_watch_id p watch_id s =
     (if sint watch_id \<ge> int MAX_WATCH_ADDRESSES then Some False
      else if sint watch_id < 0 then None
      else Some (drop_bit (unat watch_id) (alloc_watch_ids (wd_pdds s p)) AND 1 \<noteq> 0))"

definition write_watch_point :: "nat \<Rightarrow> nat \<Rightarrow> u32 \<Rightarrow> watch_device \<Rightarrow> watch_device" where
  "write_watch_point p i v s =
     (let w = wd_pdds s p; d = wd_dqm s in
      put_watch_pdd p (w\<lparr>pdd_watch_points := (pdd_watch_points w)[i := v]\<rparr>)
        (s\<lparr>wd_dqm := (case get_qpd d p of None \<Rightarrow> d | Some qpd \<Rightarrow> put_qpd (qpd\<lparr>watch_points := (watch_points qpd)[i := v]\<rparr>) d)\<rparr>))"

definition watch_unmap :: "watch_env \<Rightarrow> watch_device \<Rightarrow> retval \<times> watch_device" where
  "watch_unmap env s =
     (if uses_mes (wd_dqm s) then (OK, s)
      else case debug_lock_and_unmap (we_hw env) (wd_dqm s) of (r, d) \<Rightarrow> (r, s\<lparr>wd_dqm := d\<rparr>))"

definition watch_map :: "watch_env \<Rightarrow> watch_device \<Rightarrow> retval \<times> watch_device" where
  "watch_map env s =
     (if uses_mes (wd_dqm s) then (we_mes_mode env, s)
      else case debug_map_and_unlock (we_hw env) (wd_dqm s) of (r, d) \<Rightarrow> (r, s\<lparr>wd_dqm := d\<rparr>))"

definition kfd_dbg_trap_clear_dev_address_watch :: "watch_env \<Rightarrow> nat \<Rightarrow> u32 \<Rightarrow> watch_device \<Rightarrow> retval \<times> watch_device" where
  "kfd_dbg_trap_clear_dev_address_watch env p watch_id s =
     (case kfd_dbg_owns_dev_watch_id p watch_id s of
        None \<Rightarrow> (Err OOPS, s)
      | Some False \<Rightarrow> (Err EINVAL, s)
      | Some True \<Rightarrow>
          (case watch_unmap env s of
             (Err e, s1) \<Rightarrow> (Err e, s1)
           | (OK, s1) \<Rightarrow>
               let i = unat watch_id in
               (case watch_map env (write_watch_point p i (we_clear env i) s1) of
                  (r, s2) \<Rightarrow> (r, kfd_dbg_clear_dev_watch_id p i s2))))"

definition kfd_dbg_trap_set_dev_address_watch ::
    "watch_env \<Rightarrow> nat \<Rightarrow> u64 \<Rightarrow> u32 \<Rightarrow> u32 \<Rightarrow> watch_device \<Rightarrow> retval \<times> nat option \<times> watch_device" where
  "kfd_dbg_trap_set_dev_address_watch env p watch_address watch_address_mask watch_mode s =
     (case kfd_dbg_get_dev_watch_id p s of
        (None, s1) \<Rightarrow> (Err ENOMEM, None, s1)
      | (Some i, s1) \<Rightarrow>
          (case watch_unmap env s1 of
             (Err e, s2) \<Rightarrow> (Err e, Some i, kfd_dbg_clear_dev_watch_id p i s2)
           | (OK, s2) \<Rightarrow>
               let s3 = fold (\<lambda>xcc. write_watch_point p i (we_set env watch_address watch_address_mask i watch_mode xcc)) (we_xccs env) s2 in
               (case watch_map env s3 of
                  (r, s4) \<Rightarrow> (OK, Some i, if r \<noteq> OK then kfd_dbg_clear_dev_watch_id p i s4 else s4))))"

text \<open>The calls of \<^verbatim>\<open>kfd_dbg_clear_process_address_watch\<close> for one device\<close>

definition kfd_dbg_clear_process_address_watch :: "(nat \<Rightarrow> watch_env) \<Rightarrow> nat \<Rightarrow> watch_device \<Rightarrow> watch_device" where
  "kfd_dbg_clear_process_address_watch env p s =
     fold (\<lambda>j s. snd (kfd_dbg_trap_clear_dev_address_watch (env j) p (of_nat j) s)) [0..<MAX_WATCH_ADDRESSES] s"

end
