(* ===== verification/Debug_Properties.thy ===== *)
theory Debug_Properties
  imports Kfd_Debug Pqm_Properties
begin

text \<open>
  Exceptions reach the debugger: what is raised is found by the next query, and queries come to an end. Watch points are exclusive. Where this fails:
  exceptions of queues that do not exist, the data of memory violations, watch points that could not be set, and ids that are too large.
\<close>

section \<open>Queues of the nodes\<close>

definition linked_nodes :: "process_queue_manager \<Rightarrow> bool" where
  "linked_nodes st \<longleftrightarrow> (\<forall>n \<in> set (pqm_queues st). \<forall>x. node_queue st n = Some x \<longrightarrow> get_qpd (dqms st (pdd_dev (fst x))) (pdd_ptr (fst x)) \<noteq> None)"

lemma node_queueD:
  assumes "node_queue st n = Some x"
  obtains r where "pqn_q n = Some r" "get_pdd (ref_dev r) st = Some (fst x)" "find_queue (ref_ptr r) (the_qpd (fst x) st) = Some (snd x)"
    "q_ptr (snd x) = ref_ptr r" "pdd_dev (fst x) = ref_dev r"
  using assms find_queue_Some get_pdd_dev by (fastforce simp: node_queue_def split: option.splits)

lemma pqm_inv_linked_nodes: "pqm_inv st \<Longrightarrow> linked_nodes st"
  unfolding linked_nodes_def
proof (intro ballI allI impI)
  fix n x assume inv: "pqm_inv st" and n: "n \<in> set (pqm_queues st)" "node_queue st n = Some x"
  from n(2) obtain r where r: "pqn_q n = Some r" "get_pdd (ref_dev r) st = Some (fst x)" "pdd_dev (fst x) = ref_dev r" by (rule node_queueD)
  have "refs (ref_dev r) (pqm_queues st) \<noteq> []" using n(1) r(1) refs_ne by blast
  with pqm_inv_linked [OF inv r(2)] show "get_qpd (dqms st (pdd_dev (fst x))) (pdd_ptr (fst x)) \<noteq> None"
    by (auto simp: linked_def r(3) split: option.splits)
qed

text \<open>What a write through the pointer of a node does to all nodes\<close>

definition same_queue :: "process_device \<times> queue \<Rightarrow> process_device \<times> queue \<Rightarrow> bool" where
  "same_queue x y \<longleftrightarrow> pdd_dev (fst y) = pdd_dev (fst x) \<and> pdd_ptr (fst y) = pdd_ptr (fst x) \<and> q_ptr (snd y) = q_ptr (snd x)"

lemma find_list_put:
  assumes "find (\<lambda>x. q_ptr x = q_ptr q) qs = Some q" "q_ptr q1 = q_ptr q"
  shows "find (\<lambda>x. q_ptr x = a) (list_put_queue q1 qs) = (if a = q_ptr q then Some q1 else find (\<lambda>x. q_ptr x = a) qs)"
proof -
  have "find (\<lambda>x. q_ptr x = a) (list_put_queue q1 xs) = find (\<lambda>x. q_ptr x = a) xs" if "a \<noteq> q_ptr q" for xs
    using that assms(2) by (induction xs) (auto simp: list_put_queue_def)
  moreover have "find (\<lambda>x. q_ptr x = q_ptr q) (list_put_queue q1 qs) = Some q1"
    using assms by (induction qs) (auto simp: list_put_queue_def split: if_splits)
  ultimately show ?thesis by simp
qed

lemma write_nodes:
  assumes l: "linked_nodes st" and n: "n \<in> set (pqm_queues st)" "node_queue st n = Some x" and f: "\<And>q. q_ptr (f q) = q_ptr q"
    and st1: "st1 = pqm_write_queue f (fst x) (q_ptr (snd x)) st"
  shows "pqm_queues st1 = pqm_queues st" "pdds st1 = pdds st" "linked_nodes st1"
    "node_queue st1 m = map_option (\<lambda>y. if same_queue x y then (fst y, f (snd x)) else y) (node_queue st m)"
proof -
  obtain pdd q where x: "x = (pdd, q)" by (cases x)
  from n(2) obtain r where r: "pqn_q n = Some r" "get_pdd (ref_dev r) st = Some pdd" "find_queue (ref_ptr r) (the_qpd pdd st) = Some q"
    "q_ptr q = ref_ptr r" "pdd_dev pdd = ref_dev r" by (rule node_queueD) (simp add: x)
  obtain qpd where g: "get_qpd (dqms st (pdd_dev pdd)) (pdd_ptr pdd) = Some qpd" using l n by (auto simp: linked_nodes_def x)
  have tq: "the_qpd pdd st = qpd" "qpd_ptr qpd = pdd_ptr pdd" using g get_qpd_Some [OF g] by (simp_all add: the_qpd_def)
  have w: "st1 = set_dqm (pdd_dev pdd) (put_qpd (put_queue (f q) qpd) (dqms st (pdd_dev pdd))) st"
    using r(3,4) tq(1) by (simp add: st1 x pqm_write_queue_def)
  show q1: "pqm_queues st1 = pqm_queues st" "pdds st1 = pdds st" by (simp_all add: w set_dqm_def)
  have gp: "get_pdd d st1 = get_pdd d st" for d by (simp add: w)
  have th: "the_qpd pdd2 st1 = (if pdd_dev pdd2 = pdd_dev pdd \<and> pdd_ptr pdd2 = pdd_ptr pdd then put_queue (f q) qpd else the_qpd pdd2 st)" for pdd2
    using g tq(2) by (auto simp: w the_qpd_def get_put_qpd put_queue_def split: option.splits)
  have q: "find (\<lambda>x. q_ptr x = q_ptr q) (queues_list qpd) = Some q" using r(3,4) tq(1) by (simp add: find_queue_def)
  note fp = find_list_put [OF q f [of q]]
  show nq: "node_queue st1 m = map_option (\<lambda>y. if same_queue x y then (fst y, f (snd x)) else y) (node_queue st m)" for m
  proof (cases "pqn_q m")
    case (Some rm)
    show ?thesis
    proof (cases "get_pdd (ref_dev rm) st")
      case (Some pdd2)
      have d2: "pdd_dev pdd2 = pdd_dev pdd \<and> pdd_ptr pdd2 = pdd_ptr pdd \<Longrightarrow> the_qpd pdd2 st = qpd" using g by (simp add: the_qpd_def)
      show ?thesis
      proof (cases "pdd_dev pdd2 = pdd_dev pdd \<and> pdd_ptr pdd2 = pdd_ptr pdd")
        case True
        then have e: "find_queue (ref_ptr rm) (the_qpd pdd2 st1) = (if ref_ptr rm = q_ptr q then Some (f q) else find_queue (ref_ptr rm) (the_qpd pdd2 st))"
          using d2 fp [of "ref_ptr rm"] by (simp add: th find_queue_def put_queue_def)
        have s: "node_queue s m = map_option (Pair pdd2) (find_queue (ref_ptr rm) (the_qpd pdd2 s))" if "s \<in> {st, st1}" for s
          using \<open>pqn_q m = Some rm\<close> Some gp that by (auto simp: node_queue_def)
        show ?thesis
        proof (cases "ref_ptr rm = q_ptr q")
          case eq: True
          have "find_queue (ref_ptr rm) (the_qpd pdd2 st) = Some q" using d2 True q eq by (simp add: find_queue_def)
          then show ?thesis using e eq True by (simp add: s same_queue_def x)
        next
          case False
          then show ?thesis using e find_queue_Some [of "ref_ptr rm" "the_qpd pdd2 st"]
            by (cases "find_queue (ref_ptr rm) (the_qpd pdd2 st)") (auto simp: s same_queue_def x)
        qed
      next
        case False
        then show ?thesis using \<open>pqn_q m = Some rm\<close> Some
          by (cases "find_queue (ref_ptr rm) (the_qpd pdd2 st)") (auto simp: node_queue_def gp th same_queue_def x)
      qed
    qed (use \<open>pqn_q m = Some rm\<close> in \<open>simp add: node_queue_def gp\<close>)
  qed (simp add: node_queue_def)
  have "get_qpd (dqms st1 d) p = None \<longleftrightarrow> get_qpd (dqms st d) p = None" for d p by (auto simp: w get_put_qpd)
  then show "linked_nodes st1" using l by (auto simp: linked_nodes_def q1 nq split: if_splits)
qed

lemma first_queue_Some: "first_queue P st ns = Some x \<Longrightarrow> P x \<and> (\<exists>n \<in> set ns. node_queue st n = Some x)"
  by (induction ns) (auto split: option.splits if_splits)

lemma first_queue_None: "first_queue P st ns = None \<longleftrightarrow> (\<forall>n \<in> set ns. \<forall>x. node_queue st n = Some x \<longrightarrow> \<not> P x)"
  by (induction ns) (auto split: option.splits)

section \<open>Pending exceptions\<close>

definition q_pending :: "debug_process \<Rightarrow> process_queue_node \<Rightarrow> bool" where
  "q_pending p n \<longleftrightarrow> (case node_queue (dp_pqm p) n of None \<Rightarrow> False | Some x \<Rightarrow> exception_enable_mask p AND q_exc (snd x) \<noteq> 0)"

definition pdd_pending :: "debug_process \<Rightarrow> process_device \<Rightarrow> bool" where
  "pdd_pending p pdd \<longleftrightarrow> exception_enable_mask p AND pdd_exception_status (dp_exc p (pdd_dev pdd)) \<noteq> 0"

definition pending :: "debug_process \<Rightarrow> bool" where
  "pending p \<longleftrightarrow> (\<exists>n \<in> set (pqm_queues (dp_pqm p)). q_pending p n) \<or> (\<exists>pdd \<in> set (pdds (dp_pqm p)). pdd_pending p pdd) \<or>
     exception_enable_mask p AND dp_exception_status p \<noteq> 0"

text \<open>The four outcomes of a query\<close>

lemma query_cases:
  assumes "kfd_dbg_ev_query_debug_event gpu cm p = (r, (s, qid, g), p1)" "dp_trap_enabled p"
  obtains
    (queue) n x where "n \<in> set (pqm_queues (dp_pqm p))" "node_queue (dp_pqm p) n = Some x" "exception_enable_mask p AND q_exc (snd x) \<noteq> 0"
      "r = OK" "s = q_exc (snd x)" "qid = queue_id (properties (snd x))" "p1 = write_queue (clear_exceptions cm) x p"
  | (device) pdd where "pdd \<in> set (pdds (dp_pqm p))" "pdd_pending p pdd" "r = OK" "s = pdd_exception_status (dp_exc p (pdd_dev pdd))"
      "p1 = write_exc (\<lambda>e. e\<lparr>pdd_exception_status := s AND NOT cm\<rparr>) (pdd_dev pdd) p"
  | (process) "exception_enable_mask p AND dp_exception_status p \<noteq> 0" "r = OK" "s = dp_exception_status p"
      "p1 = p\<lparr>dp_exception_status := dp_exception_status p AND NOT cm\<rparr>"
  | (none) "\<not> pending p" "r = Err EAGAIN" "p1 = p"
proof -
  let ?m = "exception_enable_mask p" and ?st = "dp_pqm p"
  show thesis
  proof (cases "first_queue (\<lambda>x. ?m AND q_exc (snd x) \<noteq> 0) ?st (pqm_queues ?st)")
    case (Some x)
    from first_queue_Some [OF this] obtain n where n: "?m AND q_exc (snd x) \<noteq> 0" "n \<in> set (pqm_queues ?st)" "node_queue ?st n = Some x" by blast
    then have "q_exc (snd x) \<noteq> 0" by auto
    with assms Some have "r = OK" "s = q_exc (snd x)" "qid = queue_id (properties (snd x))" "p1 = write_queue (clear_exceptions cm) x p"
      by (cases x; simp add: kfd_dbg_ev_query_debug_event_def)+
    with n queue show thesis by blast
  next
    case None
    then have nq: "\<forall>n \<in> set (pqm_queues ?st). \<not> q_pending p n" by (auto simp: first_queue_None q_pending_def split: option.splits)
    show thesis
    proof (cases "find (\<lambda>pdd. ?m AND pdd_exception_status (dp_exc p (pdd_dev pdd)) \<noteq> 0) (pdds ?st)")
      case (Some pdd)
      then have d: "pdd \<in> set (pdds ?st)" "pdd_pending p pdd" by (auto simp: find_Some_iff pdd_pending_def)
      then have "pdd_exception_status (dp_exc p (pdd_dev pdd)) \<noteq> 0" by (auto simp: pdd_pending_def)
      with assms None Some have "r = OK" "s = pdd_exception_status (dp_exc p (pdd_dev pdd))"
        "p1 = write_exc (\<lambda>e. e\<lparr>pdd_exception_status := s AND NOT cm\<rparr>) (pdd_dev pdd) p"
        by (auto simp: kfd_dbg_ev_query_debug_event_def Let_def)
      with d device show thesis by blast
    next
      case no: None
      show thesis
      proof (cases "?m AND dp_exception_status p \<noteq> 0")
        case True
        then have "dp_exception_status p \<noteq> 0" by auto
        then have "(r, (s, qid, g), p1) = (OK, (dp_exception_status p, 0, 0), p\<lparr>dp_exception_status := dp_exception_status p AND NOT cm\<rparr>)"
          unfolding assms(1) [symmetric] using assms(2) None no True by (simp add: kfd_dbg_ev_query_debug_event_def)
        with process [OF True] show thesis by simp
      next
        case False
        with nq no have "\<not> pending p" by (auto simp: pending_def pdd_pending_def find_None_iff)
        moreover have "(r, (s, qid, g), p1) = (Err EAGAIN, (0, 0, 0), p)"
          unfolding assms(1) [symmetric] using assms(2) None no False by (simp add: kfd_dbg_ev_query_debug_event_def)
        ultimately show thesis using none by simp
      qed
    qed
  qed
qed

lemma query_pending:
  assumes "kfd_dbg_ev_query_debug_event gpu cm p = (r, (s, qid, g), p1)"
  shows "r = OK \<longleftrightarrow> dp_trap_enabled p \<and> pending p"
proof (cases "dp_trap_enabled p")
  case True
  from assms True show ?thesis
  proof (cases rule: query_cases)
    case (queue n x)
    then have "q_pending p n" by (simp add: q_pending_def)
    then have "pending p" using queue(1) by (auto simp: pending_def)
    with queue True show ?thesis by simp
  next
    case (device pdd)
    then have "pending p" by (auto simp: pending_def)
    with device True show ?thesis by simp
  next
    case process
    then have "pending p" by (simp add: pending_def)
    with process True show ?thesis by simp
  qed (use True in simp)
next
  case False
  with assms show ?thesis by (auto simp: kfd_dbg_ev_query_debug_event_def)
qed

section \<open>Queries end\<close>

definition pending_count :: "debug_process \<Rightarrow> nat" where
  "pending_count p = length (filter (q_pending p) (pqm_queues (dp_pqm p))) + length (filter (pdd_pending p) (pdds (dp_pqm p))) +
     (if exception_enable_mask p AND dp_exception_status p \<noteq> 0 then 1 else 0)"

lemma pending_count_0: "pending_count p = 0 \<longleftrightarrow> \<not> pending p"
  by (auto simp: pending_count_def pending_def filter_empty_conv)

lemma filter_less: "(\<And>x. x \<in> set xs \<Longrightarrow> P x \<Longrightarrow> Q x) \<Longrightarrow> y \<in> set xs \<Longrightarrow> Q y \<Longrightarrow> \<not> P y \<Longrightarrow> length (filter P xs) < length (filter Q xs)"
proof (induction xs)
  case (Cons x xs)
  have "length (filter P ys) \<le> length (filter Q ys)" if "\<And>y. y \<in> set ys \<Longrightarrow> P y \<Longrightarrow> Q y" for ys
    using that by (induction ys) (auto intro: le_SucI)
  from this [of xs] Cons.prems(1) have "length (filter P xs) \<le> length (filter Q xs)" by simp
  with Cons show ?case by (cases "x = y") (auto simp: less_Suc_eq_le)
qed simp

lemma clear_covers: "m AND NOT cm = 0 \<Longrightarrow> m AND (s AND NOT cm) = (0 :: u64)"
proof -
  assume a: "m AND NOT cm = 0"
  have "m AND (s AND NOT cm) = (m AND NOT cm) AND s" by (simp add: ac_simps)
  with a show ?thesis by simp
qed

text \<open>A query that clears all enabled exceptions takes at least one source away.\<close>

lemma query_decreases:
  assumes "kfd_dbg_ev_query_debug_event gpu cm p = (OK, (s, qid, g), p1)" "linked_nodes (dp_pqm p)" "exception_enable_mask p AND NOT cm = 0"
  shows "pending_count p1 < pending_count p" "linked_nodes (dp_pqm p1)" "exception_enable_mask p1 = exception_enable_mask p"
    "dp_trap_enabled p1 = dp_trap_enabled p"
proof -
  let ?m = "exception_enable_mask p"
  have en: "dp_trap_enabled p" using query_pending [OF assms(1)] by simp
  have "pending_count p1 < pending_count p \<and> linked_nodes (dp_pqm p1) \<and> exception_enable_mask p1 = ?m \<and> dp_trap_enabled p1 = dp_trap_enabled p"
    using assms(1) en
  proof (cases rule: query_cases)
    case (queue n x)
    have p1: "dp_pqm p1 = pqm_write_queue (clear_exceptions cm) (fst x) (q_ptr (snd x)) (dp_pqm p)" "dp_exc p1 = dp_exc p"
      "dp_exception_status p1 = dp_exception_status p" "exception_enable_mask p1 = ?m" "dp_trap_enabled p1 = dp_trap_enabled p"
      using queue by (simp_all add: write_queue_def)
    note w = write_nodes [OF assms(2) queue(1,2) _ p1(1)]
    have c: "q_ptr (clear_exceptions cm q) = q_ptr q" "q_exc (clear_exceptions cm q) = q_exc q AND NOT cm" for q by (simp_all add: clear_exceptions_def)
    have nq: "q_pending p1 k \<longleftrightarrow> q_pending p k \<and> (\<forall>y. node_queue (dp_pqm p) k = Some y \<longrightarrow> \<not> same_queue x y)" for k
      using clear_covers [OF assms(3)] by (auto simp: q_pending_def w(4) [OF c(1)] p1(4) c(2) split: option.splits)
    have "q_pending p n" "\<not> q_pending p1 n" using nq [of n] queue(2,3) by (simp_all add: q_pending_def [of p] same_queue_def)
    then have "length (filter (q_pending p1) (pqm_queues (dp_pqm p))) < length (filter (q_pending p) (pqm_queues (dp_pqm p)))"
      using nq queue(1) by (intro filter_less) auto
    moreover have "pdd_pending p1 = pdd_pending p" by (simp add: fun_eq_iff pdd_pending_def p1)
    ultimately show ?thesis using w(1-3) [OF c(1)] p1(2-5) by (simp add: pending_count_def)
  next
    case (device pdd)
    then have p1: "dp_pqm p1 = dp_pqm p" "dp_exc p1 = (dp_exc p)(pdd_dev pdd := (dp_exc p (pdd_dev pdd))\<lparr>pdd_exception_status := s AND NOT cm\<rparr>)"
      "dp_exception_status p1 = dp_exception_status p" "exception_enable_mask p1 = ?m" "dp_trap_enabled p1 = dp_trap_enabled p"
      by (simp_all add: write_exc_def)
    have np: "pdd_pending p1 y \<longleftrightarrow> pdd_pending p y \<and> pdd_dev y \<noteq> pdd_dev pdd" for y
      using clear_covers [OF assms(3), of s] by (simp add: pdd_pending_def p1)
    have "length (filter (pdd_pending p1) (pdds (dp_pqm p))) < length (filter (pdd_pending p) (pdds (dp_pqm p)))"
      using np device(1,2) by (intro filter_less [of _ _ _ pdd]) auto
    moreover have "q_pending p1 = q_pending p" unfolding fun_eq_iff q_pending_def p1 by simp
    ultimately show ?thesis using assms(2) by (simp add: pending_count_def p1)
  next
    case process
    then have p1: "dp_pqm p1 = dp_pqm p" "dp_exc p1 = dp_exc p" "dp_exception_status p1 = s AND NOT cm"
      "exception_enable_mask p1 = ?m" "dp_trap_enabled p1 = dp_trap_enabled p" by simp_all
    have "q_pending p1 = q_pending p" "pdd_pending p1 = pdd_pending p" unfolding fun_eq_iff q_pending_def pdd_pending_def p1 by simp_all
    with process(1) clear_covers [OF assms(3), of s] assms(2) show ?thesis by (simp add: pending_count_def p1)
  qed simp
  then show "pending_count p1 < pending_count p" "linked_nodes (dp_pqm p1)" "exception_enable_mask p1 = ?m" "dp_trap_enabled p1 = dp_trap_enabled p"
    by blast+
qed

text \<open>A debugger that queries until there is nothing left\<close>

fun drain :: "nat \<Rightarrow> (nat \<Rightarrow> u32) \<Rightarrow> u64 \<Rightarrow> debug_process \<Rightarrow> debug_process option" where
  "drain 0 gpu cm p = None"
| "drain (Suc k) gpu cm p =
     (case kfd_dbg_ev_query_debug_event gpu cm p of (r, _, p1) \<Rightarrow> if r = OK then drain k gpu cm p1 else Some p1)"

lemma drain_ends:
  assumes "linked_nodes (dp_pqm p)" "exception_enable_mask p AND NOT cm = 0" "pending_count p < k" "dp_trap_enabled p"
  shows "\<exists>p1. drain k gpu cm p = Some p1 \<and> \<not> pending p1"
  using assms
proof (induction k arbitrary: p)
  case (Suc k)
  obtain r s qid g p1 where q: "kfd_dbg_ev_query_debug_event gpu cm p = (r, (s, qid, g), p1)" by (metis prod_cases3 surj_pair)
  show ?case
  proof (cases "r = OK")
    case True
    note d = query_decreases [OF q [unfolded True] Suc.prems(1,2)]
    have "\<exists>p2. drain k gpu cm p1 = Some p2 \<and> \<not> pending p2" using Suc.prems d by (intro Suc.IH) auto
    with q True show ?thesis by simp
  next
    case False
    from q Suc.prems(4) have "p1 = p \<and> \<not> pending p" using False by (cases rule: query_cases) auto
    with q False show ?thesis by simp
  qed
qed simp

section \<open>Raising\<close>

text \<open>An event is of one kind: of devices, of the process, or of queues.\<close>

definition one_kind :: "dbg_codes \<Rightarrow> u64 \<Rightarrow> bool" where
  "one_kind ec m \<longleftrightarrow> m AND EC_MASK_DEVICE ec \<in> {0, m} \<and> m AND EC_MASK_PROCESS ec \<in> {0, m}"

definition has_target :: "dbg_codes \<Rightarrow> u64 \<Rightarrow> nat \<Rightarrow> u32 \<Rightarrow> debug_process \<Rightarrow> bool" where
  "has_target ec m dev source_id p \<longleftrightarrow>
     (if m AND EC_MASK_DEVICE ec \<noteq> 0 then dev \<in> pdd_dev ` set (pdds (dp_pqm p))
      else m AND EC_MASK_PROCESS ec \<noteq> 0 \<or> first_queue (raise_target ec m dev source_id) (dp_pqm p) (pqm_queues (dp_pqm p)) \<noteq> None)"

lemma and_or_pending: "m AND e \<noteq> 0 \<Longrightarrow> m AND (s OR e) \<noteq> (0 :: u64)"
  by (metis bit.conj_disj_distrib or_eq_0_iff)

lemma raise_pending:
  assumes "linked_nodes (dp_pqm p)" "one_kind ec m" "has_target ec m dev source_id p"
    "kfd_dbg_ev_raise ec m dev source_id w copy p = (True, p1)"
  shows "pending p1 \<and> dp_trap_enabled p1"
proof -
  define p0 where "p0 = (if m AND EC_MASK_DEVICE ec \<noteq> 0
      then (case find (\<lambda>pdd. pdd_dev pdd = dev) (pdds (dp_pqm p)) of None \<Rightarrow> p | Some pdd \<Rightarrow> write_exc (raise_device ec m copy) dev p)
      else if m AND EC_MASK_PROCESS ec \<noteq> 0 then p\<lparr>dp_exception_status := dp_exception_status p OR (m AND EC_MASK_PROCESS ec)\<rparr>
      else (case first_queue (raise_target ec m dev source_id) (dp_pqm p) (pqm_queues (dp_pqm p)) of
              None \<Rightarrow> p | Some x \<Rightarrow> write_queue (raise_queue m) x p))"
  have en: "dp_trap_enabled p" using assms(4) by (auto simp: kfd_dbg_ev_raise_def split: if_splits)
  have p1: "exception_enable_mask p0 AND m \<noteq> 0 \<and> (p1 = p0\<lparr>ev_work := True\<rparr> \<or> p1 = p0\<lparr>ev_written := ev_written p0 + 1\<rparr>)"
    using assms(4) en unfolding kfd_dbg_ev_raise_def Let_def p0_def [symmetric] by (auto split: if_splits)
  have f: "dp_pqm p1 = dp_pqm p0" "dp_exc p1 = dp_exc p0" "dp_exception_status p1 = dp_exception_status p0"
    "exception_enable_mask p1 = exception_enable_mask p0" "dp_trap_enabled p1 = dp_trap_enabled p0" using p1 by auto
  have same: "pending p1 = pending p0" "dp_trap_enabled p1 = dp_trap_enabled p0" unfolding pending_def q_pending_def pdd_pending_def f by simp_all
  have e0: "exception_enable_mask p0 = exception_enable_mask p" "dp_trap_enabled p0 = dp_trap_enabled p"
    by (auto simp: p0_def write_exc_def write_queue_def split: option.splits)
  have m: "exception_enable_mask p AND m \<noteq> 0" using p1 e0 by simp
  consider (d) "m AND EC_MASK_DEVICE ec = m" "m AND EC_MASK_DEVICE ec \<noteq> 0"
    | (p) "m AND EC_MASK_PROCESS ec = m" "m AND EC_MASK_PROCESS ec \<noteq> 0" "m AND EC_MASK_DEVICE ec = 0"
    | (q) "m AND EC_MASK_DEVICE ec = 0" "m AND EC_MASK_PROCESS ec = 0" using assms(2) by (auto simp: one_kind_def)
  then have "pending p0"
  proof cases
    case d
    with assms(3) obtain pdd where pdd: "pdd \<in> set (pdds (dp_pqm p))" "pdd_dev pdd = dev" by (auto simp: has_target_def)
    then have "find (\<lambda>pdd. pdd_dev pdd = dev) (pdds (dp_pqm p)) \<noteq> None" by (auto simp: find_None_iff)
    with d have p0: "p0 = write_exc (raise_device ec m copy) dev p" by (auto simp: p0_def)
    have "pdd_exception_status (dp_exc p0 dev) = pdd_exception_status (dp_exc p dev) OR m"
      using d(1) by (simp add: p0 write_exc_def raise_device_def Let_def)
    then have "pdd_pending p0 pdd" using and_or_pending [OF m] pdd(2) by (simp add: pdd_pending_def e0)
    moreover have "pdd \<in> set (pdds (dp_pqm p0))" using pdd(1) by (simp add: p0 write_exc_def)
    ultimately show ?thesis by (auto simp: pending_def)
  next
    case p
    then have "dp_exception_status p0 = dp_exception_status p OR m" by (simp add: p0_def)
    with and_or_pending [OF m] show ?thesis by (simp add: pending_def e0)
  next
    case q
    with assms(3) obtain x where x: "first_queue (raise_target ec m dev source_id) (dp_pqm p) (pqm_queues (dp_pqm p)) = Some x"
      by (auto simp: has_target_def)
    from first_queue_Some [OF x] obtain n where n: "n \<in> set (pqm_queues (dp_pqm p))" "node_queue (dp_pqm p) n = Some x" by blast
    have p0: "dp_pqm p0 = pqm_write_queue (raise_queue m) (fst x) (q_ptr (snd x)) (dp_pqm p)" using q x by (simp add: p0_def write_queue_def)
    have f: "q_ptr (raise_queue m q) = q_ptr q" for q by (simp add: raise_queue_def)
    note w = write_nodes [OF assms(1) n f p0]
    have "node_queue (dp_pqm p0) n = Some (fst x, raise_queue m (snd x))" using n(2) by (simp add: w(4) same_queue_def)
    then have "q_pending p0 n" using and_or_pending [OF m] by (simp add: q_pending_def e0 raise_queue_def)
    with n(1) w(1) show ?thesis by (auto simp: pending_def)
  qed
  with same e0(2) en show ?thesis by simp
qed

section \<open>Watch points\<close>

lemma bit_drop_and: "drop_bit i a AND 1 \<noteq> 0 \<longleftrightarrow> bit a i" for a :: u32
  by (simp add: and_one_eq bit_iff_odd_drop_bit odd_iff_mod_2_eq_one)

text \<open>The bits of the device are the disjoint union of those of the processes.\<close>

definition watch_inv :: "watch_device \<Rightarrow> bool" where
  "watch_inv s \<longleftrightarrow> (\<forall>i. bit (kfd_alloc_watch_ids s) i \<longleftrightarrow> (\<exists>p. bit (alloc_watch_ids (wd_pdds s p)) i)) \<and>
     (\<forall>p q i. bit (alloc_watch_ids (wd_pdds s p)) i \<longrightarrow> bit (alloc_watch_ids (wd_pdds s q)) i \<longrightarrow> p = q) \<and>
     (\<forall>i. bit (kfd_alloc_watch_ids s) i \<longrightarrow> i < MAX_WATCH_ADDRESSES)"

definition watch_bits :: "watch_device \<Rightarrow> u32 \<times> (nat \<Rightarrow> u32)" where
  "watch_bits s = (kfd_alloc_watch_ids s, \<lambda>p. alloc_watch_ids (wd_pdds s p))"

lemma watch_inv_bits: "watch_bits s1 = watch_bits s \<Longrightarrow> watch_inv s1 = watch_inv s"
  by (simp add: watch_bits_def watch_inv_def fun_eq_iff)

lemma watch_bits_frame [simp]:
  "watch_bits (s\<lparr>wd_dqm := d\<rparr>) = watch_bits s" "watch_bits (write_watch_point p i v s) = watch_bits s"
  "watch_bits (fold (\<lambda>x. write_watch_point p i (g x)) xs s) = watch_bits s"
proof -
  show 1: "watch_bits (write_watch_point p i v s) = watch_bits s" for v s
    by (simp add: watch_bits_def write_watch_point_def put_watch_pdd_def Let_def fun_eq_iff)
  show "watch_bits (fold (\<lambda>x. write_watch_point p i (g x)) xs s) = watch_bits s" by (induction xs arbitrary: s) (simp_all add: 1)
qed (simp add: watch_bits_def)

lemma watch_unmap_bits: "watch_unmap env s = (r, s1) \<Longrightarrow> watch_bits s1 = watch_bits s" "watch_map env s = (r, s1) \<Longrightarrow> watch_bits s1 = watch_bits s"
  by (auto simp: watch_unmap_def watch_map_def split: if_splits prod.splits)

lemma watch_id_loop_effect:
  assumes "watch_id_loop p is s = (oi, s1)"
  shows "case oi of None \<Rightarrow> s1 = s \<and> (\<forall>i \<in> set is. bit (kfd_alloc_watch_ids s) i)
    | Some i \<Rightarrow> i \<in> set is \<and> \<not> bit (kfd_alloc_watch_ids s) i \<and>
        watch_bits s1 = (kfd_alloc_watch_ids s OR push_bit i 1, (\<lambda>p. alloc_watch_ids (wd_pdds s p))(p := alloc_watch_ids (wd_pdds s p) OR push_bit i 1))"
  using assms by (induction "is") (auto simp: bit_drop_and watch_bits_def put_watch_pdd_def Let_def split: if_splits option.splits)

lemma bit_set_id: "i < 4 \<Longrightarrow> bit (a OR 2 ^ i) j \<longleftrightarrow> bit a j \<or> j = i" for a :: u32
  by (auto simp: bit_simps)

lemma bit_clear_id: "bit (a AND NOT (2 ^ i)) j \<longleftrightarrow> bit a j \<and> j \<noteq> i" for a :: u32
  by (auto simp: bit_simps dest: bit_imp_le_length)

lemma get_id_effect:
  assumes "kfd_dbg_get_dev_watch_id p s = (Some i, s1)"
  shows "i < 4" "\<not> bit (kfd_alloc_watch_ids s) i" "bit (kfd_alloc_watch_ids s1) j \<longleftrightarrow> bit (kfd_alloc_watch_ids s) j \<or> j = i"
    "bit (alloc_watch_ids (wd_pdds s1 q)) j \<longleftrightarrow> bit (alloc_watch_ids (wd_pdds s q)) j \<or> q = p \<and> j = i"
proof -
  note e = watch_id_loop_effect [OF assms [unfolded kfd_dbg_get_dev_watch_id_def]]
  then show i: "i < 4" "\<not> bit (kfd_alloc_watch_ids s) i" by simp_all
  have b: "kfd_alloc_watch_ids s1 = kfd_alloc_watch_ids s OR push_bit i 1"
    "alloc_watch_ids (wd_pdds s1 q) = ((\<lambda>p. alloc_watch_ids (wd_pdds s p))(p := alloc_watch_ids (wd_pdds s p) OR push_bit i 1)) q"
    using e by (simp_all add: watch_bits_def fun_eq_iff)
  show "bit (kfd_alloc_watch_ids s1) j \<longleftrightarrow> bit (kfd_alloc_watch_ids s) j \<or> j = i" by (simp add: b bit_set_id [OF i(1)])
  show "bit (alloc_watch_ids (wd_pdds s1 q)) j \<longleftrightarrow> bit (alloc_watch_ids (wd_pdds s q)) j \<or> q = p \<and> j = i"
    by (auto simp: b bit_set_id [OF i(1)])
qed

lemma clear_id_effect:
  assumes "s1 = kfd_dbg_clear_dev_watch_id p i s"
  shows "bit (kfd_alloc_watch_ids s1) j \<longleftrightarrow> bit (kfd_alloc_watch_ids s) j \<and> \<not> (j = i \<and> bit (alloc_watch_ids (wd_pdds s p)) i)"
    "bit (alloc_watch_ids (wd_pdds s1 q)) j \<longleftrightarrow> bit (alloc_watch_ids (wd_pdds s q)) j \<and> \<not> (q = p \<and> j = i)"
  unfolding assms kfd_dbg_clear_dev_watch_id_def Let_def bit_drop_and by (auto simp: put_watch_pdd_def bit_clear_id)

lemma watch_invI:
  assumes "\<And>i. bit (kfd_alloc_watch_ids s) i \<Longrightarrow> i < 4 \<and> (\<exists>p. bit (alloc_watch_ids (wd_pdds s p)) i)"
    "\<And>p i. bit (alloc_watch_ids (wd_pdds s p)) i \<Longrightarrow> bit (kfd_alloc_watch_ids s) i"
    "\<And>p q i. bit (alloc_watch_ids (wd_pdds s p)) i \<Longrightarrow> bit (alloc_watch_ids (wd_pdds s q)) i \<Longrightarrow> p = q"
  shows "watch_inv s"
  using assms unfolding watch_inv_def by metis

lemma watch_invD:
  assumes "watch_inv s"
  shows "bit (kfd_alloc_watch_ids s) i \<Longrightarrow> i < 4" "bit (kfd_alloc_watch_ids s) i \<Longrightarrow> \<exists>p. bit (alloc_watch_ids (wd_pdds s p)) i"
    "bit (alloc_watch_ids (wd_pdds s p)) i \<Longrightarrow> bit (kfd_alloc_watch_ids s) i"
    "bit (alloc_watch_ids (wd_pdds s p)) i \<Longrightarrow> bit (alloc_watch_ids (wd_pdds s q)) i \<Longrightarrow> p = q"
  using assms unfolding watch_inv_def by metis+

lemma get_id_inv:
  assumes "kfd_dbg_get_dev_watch_id p s = (Some i, s1)" "watch_inv s" shows "watch_inv s1"
proof (rule watch_invI)
  note e = get_id_effect [OF assms(1)] and d = watch_invD [OF assms(2)]
  show "j < 4 \<and> (\<exists>p. bit (alloc_watch_ids (wd_pdds s1 p)) j)" if "bit (kfd_alloc_watch_ids s1) j" for j
    using that d(1,2) [of j] e(1) by (auto simp: e(3,4))
  show "bit (kfd_alloc_watch_ids s1) j" if "bit (alloc_watch_ids (wd_pdds s1 q)) j" for q j
    using that d(3) by (auto simp: e(3,4))
  show "q = q'" if "bit (alloc_watch_ids (wd_pdds s1 q)) j" "bit (alloc_watch_ids (wd_pdds s1 q')) j" for q q' j
    using that d(3) [of _ i] d(4) [of q j q'] e(2) by (auto simp: e(4))
qed

lemma clear_id_inv:
  assumes "watch_inv s" shows "watch_inv (kfd_dbg_clear_dev_watch_id p i s)"
proof (rule watch_invI)
  note e = clear_id_effect [OF refl, of p i s] and d = watch_invD [OF assms]
  let ?s = "kfd_dbg_clear_dev_watch_id p i s"
  show "j < 4 \<and> (\<exists>p. bit (alloc_watch_ids (wd_pdds ?s p)) j)" if "bit (kfd_alloc_watch_ids ?s) j" for j
    using that d(1,2) [of j] by (auto simp: e)
  show "bit (kfd_alloc_watch_ids ?s) j" if "bit (alloc_watch_ids (wd_pdds ?s q)) j" for q j
    using that d(3) [of q j] d(4) [of q j p] by (auto simp: e)
  show "q = q'" if "bit (alloc_watch_ids (wd_pdds ?s q)) j" "bit (alloc_watch_ids (wd_pdds ?s q')) j" for q q' j
    using that d(4) [of q j q'] by (auto simp: e)
qed

lemma clear_watch_inv:
  assumes "kfd_dbg_trap_clear_dev_address_watch env p wid s = (r, s1)" "watch_inv s" shows "watch_inv s1"
proof (cases "kfd_dbg_owns_dev_watch_id p wid s = Some True")
  case True
  obtain r2 s2 where u: "watch_unmap env s = (r2, s2)" by (metis surj_pair)
  obtain r3 s3 where m: "watch_map env (write_watch_point p (unat wid) (we_clear env (unat wid)) s2) = (r3, s3)" by (metis surj_pair)
  have b: "watch_bits s2 = watch_bits s" "watch_bits s3 = watch_bits s2" using watch_unmap_bits(1) [OF u] watch_unmap_bits(2) [OF m] by simp_all
  have "s1 = s2 \<or> s1 = kfd_dbg_clear_dev_watch_id p (unat wid) s3"
    using assms(1) True u m by (cases r2) (auto simp: kfd_dbg_trap_clear_dev_address_watch_def)
  with b watch_inv_bits [OF b(1)] watch_inv_bits [OF b(2)] clear_id_inv assms(2) show ?thesis by auto
next
  case False
  with assms show ?thesis by (auto simp: kfd_dbg_trap_clear_dev_address_watch_def split: option.splits bool.splits)
qed

text \<open>The outcomes of setting a watch point\<close>

lemma set_watch_cases:
  assumes "kfd_dbg_trap_set_dev_address_watch env p a m md s = (r, oi, s1)"
  obtains "oi = None" "r = Err ENOMEM" "s1 = s" "\<forall>i < 4. bit (kfd_alloc_watch_ids s) i"
  | i s2 s3 e where "oi = Some i" "kfd_dbg_get_dev_watch_id p s = (Some i, s2)" "watch_unmap env s2 = (Err e, s3)" "r = Err e"
      "s1 = kfd_dbg_clear_dev_watch_id p i s3" "watch_bits s3 = watch_bits s2"
  | i s2 s3 s4 r4 where "oi = Some i" "kfd_dbg_get_dev_watch_id p s = (Some i, s2)" "watch_unmap env s2 = (OK, s3)" "r = OK"
      "watch_map env (fold (\<lambda>x. write_watch_point p i (we_set env a m i md x)) (we_xccs env) s3) = (r4, s4)"
      "s1 = (if r4 \<noteq> OK then kfd_dbg_clear_dev_watch_id p i s4 else s4)" "watch_bits s4 = watch_bits s2"
proof -
  obtain i s2 where g: "kfd_dbg_get_dev_watch_id p s = (i, s2)" by (metis surj_pair)
  show thesis
  proof (cases i)
    case None
    with watch_id_loop_effect [OF g [unfolded kfd_dbg_get_dev_watch_id_def]] have "s2 = s" "\<forall>i < 4. bit (kfd_alloc_watch_ids s) i" by auto
    moreover from None g assms have "oi = None" "r = Err ENOMEM" "s1 = s2" by (simp_all add: kfd_dbg_trap_set_dev_address_watch_def)
    ultimately show thesis using that(1) by simp
  next
    case (Some j)
    obtain r3 s3 where u: "watch_unmap env s2 = (r3, s3)" by (metis surj_pair)
    obtain r4 s4 where m: "watch_map env (fold (\<lambda>x. write_watch_point p j (we_set env a m j md x)) (we_xccs env) s3) = (r4, s4)" by (metis surj_pair)
    have b: "watch_bits s3 = watch_bits s2" "watch_bits s4 = watch_bits s2" using watch_unmap_bits(1) [OF u] watch_unmap_bits(2) [OF m] by simp_all
    show thesis
    proof (cases r3)
      case (Err e)
      with assms g Some u have "oi = Some j" "r = Err e" "s1 = kfd_dbg_clear_dev_watch_id p j s3" by (simp_all add: kfd_dbg_trap_set_dev_address_watch_def)
      with that(2) g Some u Err b(1) show thesis by blast
    next
      case OK
      with assms g Some u m have "oi = Some j" "r = OK" "s1 = (if r4 \<noteq> OK then kfd_dbg_clear_dev_watch_id p j s4 else s4)"
        by (simp_all add: kfd_dbg_trap_set_dev_address_watch_def)
      with that(3) g Some u OK m b(2) show thesis by blast
    qed
  qed
qed

lemma set_watch_inv:
  assumes "kfd_dbg_trap_set_dev_address_watch env p a m md s = (r, oi, s1)" "watch_inv s" shows "watch_inv s1"
  using assms(1)
proof (cases rule: set_watch_cases)
  case 1
  with assms(2) show ?thesis by simp
next
  case (2 i s2 s3 e)
  with get_id_inv assms(2) watch_inv_bits clear_id_inv show ?thesis by metis
next
  case (3 i s2 s3 s4 r4)
  with get_id_inv assms(2) watch_inv_bits clear_id_inv show ?thesis by metis
qed

text \<open>The debuggers of the processes of a device\<close>

inductive watch_step :: "watch_device \<Rightarrow> watch_device \<Rightarrow> bool" where
  set: "kfd_dbg_trap_set_dev_address_watch env p a m md s = (r, oi, s1) \<Longrightarrow> watch_step s s1"
| clear: "kfd_dbg_trap_clear_dev_address_watch env p wid s = (r, s1) \<Longrightarrow> watch_step s s1"
| clear_process: "watch_step s (kfd_dbg_clear_process_address_watch envs p s)"
| other: "watch_step s (s\<lparr>wd_dqm := d\<rparr>)"

inductive watch_reachable :: "watch_device \<Rightarrow> bool" where
  init: "kfd_alloc_watch_ids s = 0 \<Longrightarrow> \<forall>p. alloc_watch_ids (wd_pdds s p) = 0 \<Longrightarrow> watch_reachable s"
| step: "watch_reachable s \<Longrightarrow> watch_step s s1 \<Longrightarrow> watch_reachable s1"

lemma set_step: "watch_step s (snd (snd (kfd_dbg_trap_set_dev_address_watch env p a m md s)))"
  by (rule watch_step.set [where r = "fst (kfd_dbg_trap_set_dev_address_watch env p a m md s)" and
      oi = "fst (snd (kfd_dbg_trap_set_dev_address_watch env p a m md s))"]) simp

lemma clear_process_inv: "watch_inv s \<Longrightarrow> watch_inv (kfd_dbg_clear_process_address_watch envs p s)"
proof -
  have "watch_inv s \<Longrightarrow> watch_inv (fold (\<lambda>j s. snd (kfd_dbg_trap_clear_dev_address_watch (envs j) p (of_nat j) s)) js s)" for js s
    by (induction js arbitrary: s) (auto intro: clear_watch_inv [OF prod.collapse [symmetric]])
  then show "watch_inv s \<Longrightarrow> watch_inv (kfd_dbg_clear_process_address_watch envs p s)" by (simp add: kfd_dbg_clear_process_address_watch_def)
qed

lemma watch_step_inv: "watch_step s s1 \<Longrightarrow> watch_inv s \<Longrightarrow> watch_inv s1"
proof (induction rule: watch_step.induct)
  case (other s d)
  then show ?case using watch_inv_bits [of "s\<lparr>wd_dqm := d\<rparr>" s] by simp
qed (auto intro: set_watch_inv clear_watch_inv clear_process_inv)

lemma watch_reachable_inv: "watch_reachable s \<Longrightarrow> watch_inv s"
proof (induction rule: watch_reachable.induct)
  case (init s)
  then show ?case by (intro watch_invI) auto
qed (rule watch_step_inv)

section \<open>The data of memory violations\<close>

text \<open>What happens to the exceptions of a process; its queues may change in any way.\<close>

inductive dbg_step :: "debug_process \<Rightarrow> debug_process \<Rightarrow> bool" where
  raise: "kfd_dbg_ev_raise ec m dev source_id w copy p = (b, p1) \<Longrightarrow> dbg_step p p1"
| query: "kfd_dbg_ev_query_debug_event gpu cm p = (r, x, p1) \<Longrightarrow> dbg_step p p1"
| query_info: "kfd_dbg_trap_query_exception_info ec gpu rt source_id code c info copied p = (r, x, p1) \<Longrightarrow> dbg_step p p1"
| set_mask: "dbg_step p (kfd_dbg_set_enabled_debug_exception_mask m p)"
| clean: "dbg_step p (kfd_dbg_clean_exception_status p)"
| write_work: "dbg_step p (debug_event_write_work_handler p)"
| session: "dbg_step p (p\<lparr>dp_pqm := st, dp_trap_enabled := b, dbg_ev_file := f\<rparr>)"

inductive dbg_reachable :: "debug_process \<Rightarrow> bool" where
  init: "dp_exc p = (\<lambda>_. \<lparr>pdd_exception_status = 0, vm_fault_exc_data = None, vm_fault_exc_data_size = 0\<rparr>) \<Longrightarrow> dbg_reachable p"
| step: "dbg_reachable p \<Longrightarrow> dbg_step p p1 \<Longrightarrow> dbg_reachable p1"

definition no_data_size :: "debug_process \<Rightarrow> bool" where
  "no_data_size p \<longleftrightarrow> (\<forall>dev. vm_fault_exc_data_size (dp_exc p dev) = 0)"

lemma no_data_size_write [simp]:
  "no_data_size (write_queue f x p) = no_data_size p" "no_data_size (p\<lparr>dp_exception_status := v\<rparr>) = no_data_size p"
  "no_data_size (p\<lparr>ev_work := b\<rparr>) = no_data_size p" "no_data_size (p\<lparr>ev_written := k\<rparr>) = no_data_size p"
  "no_data_size (p\<lparr>exception_enable_mask := v\<rparr>) = no_data_size p" "no_data_size (p\<lparr>dp_pqm := st, dp_trap_enabled := b, dbg_ev_file := b\<rparr>) = no_data_size p"
  by (simp_all add: no_data_size_def write_queue_def)

lemma no_data_size_exc:
  "no_data_size p \<Longrightarrow> (\<And>e. vm_fault_exc_data_size e = 0 \<Longrightarrow> vm_fault_exc_data_size (f e) = 0) \<Longrightarrow> no_data_size (write_exc f dev p)"
  by (auto simp: no_data_size_def write_exc_def)

lemma clean_no_data_size:
  assumes "no_data_size p" shows "no_data_size (kfd_dbg_clean_exception_status p)"
proof -
  have 0: "no_data_size (write_exc (\<lambda>e. e\<lparr>pdd_exception_status := 0\<rparr>) dev p)" if "no_data_size p" for dev p
    by (rule no_data_size_exc [OF that]) simp
  have 1: "no_data_size (fold (\<lambda>pdd. write_exc (\<lambda>e. e\<lparr>pdd_exception_status := 0\<rparr>) (pdd_dev pdd)) xs p)" if "no_data_size p" for xs p
    using that by (induction xs arbitrary: p) (simp_all add: 0)
  have 2: "no_data_size (fold (\<lambda>n p. case node_queue (dp_pqm p) n of None \<Rightarrow> p | Some x \<Rightarrow> write_queue f x p) ns p) = no_data_size p" for ns f p
    by (induction ns arbitrary: p) (auto split: option.splits)
  show ?thesis using 1 [OF assms] by (simp add: kfd_dbg_clean_exception_status_def Let_def 2)
qed

lemma query_no_data_size:
  assumes "kfd_dbg_ev_query_debug_event gpu cm p = (r, x, p1)" "no_data_size p" shows "no_data_size p1"
proof (cases "dp_trap_enabled p")
  case True
  obtain s qid g where "x = (s, qid, g)" by (metis prod_cases3)
  with assms(1) have "kfd_dbg_ev_query_debug_event gpu cm p = (r, (s, qid, g), p1)" by simp
  from this True show ?thesis by (cases rule: query_cases) (use assms(2) in \<open>auto intro!: no_data_size_exc\<close>)
next
  case False
  with assms show ?thesis by (simp add: kfd_dbg_ev_query_debug_event_def)
qed

lemma raise_no_data_size:
  assumes "kfd_dbg_ev_raise ec m dev source_id w copy p = (b, p1)" "no_data_size p" shows "no_data_size p1"
proof (cases "dp_trap_enabled p")
  case True
  define p0 where "p0 = (if m AND EC_MASK_DEVICE ec \<noteq> 0
      then (case find (\<lambda>pdd. pdd_dev pdd = dev) (pdds (dp_pqm p)) of None \<Rightarrow> p | Some pdd \<Rightarrow> write_exc (raise_device ec m copy) dev p)
      else if m AND EC_MASK_PROCESS ec \<noteq> 0 then p\<lparr>dp_exception_status := dp_exception_status p OR (m AND EC_MASK_PROCESS ec)\<rparr>
      else (case first_queue (raise_target ec m dev source_id) (dp_pqm p) (pqm_queues (dp_pqm p)) of
              None \<Rightarrow> p | Some x \<Rightarrow> write_queue (raise_queue m) x p))"
  have "no_data_size (write_exc (raise_device ec m copy) dev p)" using assms(2) by (rule no_data_size_exc) (simp add: raise_device_def Let_def)
  then have "no_data_size p0" using assms(2) by (simp add: p0_def split: option.splits)
  moreover have "p1 \<in> {p0, p0\<lparr>ev_work := True\<rparr>, p0\<lparr>ev_written := ev_written p0 + 1\<rparr>}"
    using assms(1) True unfolding kfd_dbg_ev_raise_def Let_def p0_def [symmetric] by (auto split: if_splits)
  ultimately show ?thesis by auto
next
  case False
  with assms show ?thesis by (simp add: kfd_dbg_ev_raise_def)
qed

lemma query_info_no_data_size:
  assumes "kfd_dbg_trap_query_exception_info ec gpu rt source_id code c info copied p = (r, x, p1)" "no_data_size p" shows "no_data_size p1"
  using assms unfolding kfd_dbg_trap_query_exception_info_def Let_def
  by (auto split: option.splits if_splits intro!: no_data_size_exc)

lemma dbg_step_no_data_size: "dbg_step p p1 \<Longrightarrow> no_data_size p \<Longrightarrow> no_data_size p1"
proof (induction rule: dbg_step.induct)
  case (session p st b f)
  then show ?case by (simp add: no_data_size_def)
qed (auto simp: kfd_dbg_set_enabled_debug_exception_mask_def debug_event_write_work_handler_def Let_def
    intro: raise_no_data_size query_no_data_size query_info_no_data_size clean_no_data_size)

lemma dbg_reachable_no_data_size: "dbg_reachable p \<Longrightarrow> no_data_size p"
proof (induction rule: dbg_reachable.induct)
  case (init p)
  then show ?case by (simp add: no_data_size_def)
qed (rule dbg_step_no_data_size)

section \<open>Examples\<close>

definition codes_example :: dbg_codes where
  "codes_example = \<lparr>EC_MASK = (\<lambda>c. push_bit (unat c - 1) 1), EC_MASK_QUEUE = 0xF, EC_DEVICE_MEMORY_VIOLATION = 5, EC_TYPE_IS_PACKET = (\<lambda>c. False),
     EC_MASK_DEVICE = 0xF0, EC_MASK_PROCESS = 0xF00, EC_QUEUE_NEW = 1, EC_PROCESS_RUNTIME = 9, EC_TYPE_IS_QUEUE = (\<lambda>c. c \<le> 4),
     EC_TYPE_IS_DEVICE = (\<lambda>c. 5 \<le> c \<and> c \<le> 8), EC_TYPE_IS_PROCESS = (\<lambda>c. 9 \<le> c \<and> c \<le> 12)\<rparr>"

definition debugged_example :: debug_process where
  "debugged_example = \<lparr>dp_pqm = pqm_start, dp_exc = (\<lambda>_. \<lparr>pdd_exception_status = 0, vm_fault_exc_data = None, vm_fault_exc_data_size = 0\<rparr>),
     dp_exception_status = 0, exception_enable_mask = 0xFFF, dp_trap_enabled = True, dbg_ev_file = True, ev_written = 0, ev_work = False\<rparr>"

definition violated_example :: debug_process where
  "violated_example = snd (kfd_dbg_ev_raise codes_example 0x10 0 0 True (Some zero_memory_exception) debugged_example)"

lemma example_linked: "pqm_inv (dp_pqm debugged_example)"
  using pqm_reachable_inv [OF start_reachable] by (simp add: debugged_example_def)

lemma example_pdds: "pdds (dp_pqm debugged_example) = [pdd_example]" "pdd_dev pdd_example = 0" "pqm_queues (dp_pqm debugged_example) = []"
  by (simp_all add: debugged_example_def pqm_blank_def pdd_example_def)

lemma violated_exc:
  "violated_example = (write_exc (raise_device codes_example 0x10 (Some zero_memory_exception)) 0 debugged_example)\<lparr>ev_work := True\<rparr>"
  "fst (kfd_dbg_ev_raise codes_example 0x10 0 0 True (Some zero_memory_exception) debugged_example)"
  unfolding violated_example_def kfd_dbg_ev_raise_def Let_def example_pdds
  by (simp_all add: example_pdds codes_example_def write_exc_def debugged_example_def)

definition watch_env_example :: "retval \<Rightarrow> watch_env" where
  "watch_env_example r = \<lparr>we_hw = env_example, we_clear = (\<lambda>_. 0), we_set = (\<lambda>_ _ _ _ _. 1), we_xccs = [0], we_mes_mode = r\<rparr>"

definition watch_example :: watch_device where
  "watch_example = \<lparr>wd_dqm = dqms pqm_start 0, kfd_alloc_watch_ids = 0, wd_pdds = (\<lambda>_. \<lparr>alloc_watch_ids = 0, pdd_watch_points = [0, 0, 0, 0]\<rparr>)\<rparr>"

text \<open>
  When the firmware refuses, \<^verbatim>\<open>kfd_dbg_trap_set_dev_address_watch\<close> gives the watch point back, but returns 0 and the id. A negative id is taken
  for one below the limit, so that the check of the owner shifts by it.
\<close>

lemma set_watch_success_without_watch:
  "case kfd_dbg_trap_set_dev_address_watch (watch_env_example (Err EIO)) 1 0x1000 0 0 watch_example of
     (r, i, s1) \<Rightarrow> r = OK \<and> i = Some 0 \<and> alloc_watch_ids (wd_pdds s1 1) = 0"
  by code_simp

lemma clear_watch_huge_id:
  assumes "2 ^ 31 \<le> unat watch_id" shows "fst (kfd_dbg_trap_clear_dev_address_watch env p watch_id s) = Err OOPS"
proof -
  have "unat watch_id < 2 ^ 32" using unsigned_less [of watch_id] by simp
  with assms have "unat watch_id div 2 ^ 31 = 1" by (simp add: div_nat_eqI)
  then have "bit (unat watch_id) 31" by (simp add: bit_iff_odd)
  then have "bit watch_id 31" by (simp add: bit_unsigned_iff)
  then have "sint watch_id < 0" by (simp add: sint_uint signed_take_bit_negative_iff bit_unsigned_iff)
  then show ?thesis by (simp add: kfd_dbg_trap_clear_dev_address_watch_def kfd_dbg_owns_dev_watch_id_def)
qed

section \<open>Properties\<close>

text \<open>
  C17. An exception is not lost: when \<^verbatim>\<open>kfd_dbg_ev_raise\<close> tells that the debugger is subscribed, and the queue or device exists, the next
  \<^verbatim>\<open>kfd_dbg_ev_query_debug_event\<close> reports an exception.
\<close>

theorem raise_is_reported:
  assumes "pqm_inv (dp_pqm p)" "one_kind ec event_mask" "has_target ec event_mask dev source_id p"
    "kfd_dbg_ev_raise ec event_mask dev source_id use_worker copy p = (True, p1)"
  shows "fst (kfd_dbg_ev_query_debug_event gpu cm p1) = OK"
proof -
  obtain r s qid g p2 where q: "kfd_dbg_ev_query_debug_event gpu cm p1 = (r, (s, qid, g), p2)" by (metis prod_cases3 surj_pair)
  from raise_pending [OF pqm_inv_linked_nodes [OF assms(1)] assms(2-4)] query_pending [OF q] q show ?thesis by simp
qed

theorem raise_is_reported_witness:
  "fst (kfd_dbg_ev_query_debug_event (\<lambda>_. 7) 0 violated_example) = OK"
proof -
  have r: "kfd_dbg_ev_raise codes_example 0x10 0 0 True (Some zero_memory_exception) debugged_example = (True, violated_example)"
    using violated_exc(2) unfolding violated_example_def by (metis prod.collapse)
  have "one_kind codes_example 0x10" "has_target codes_example 0x10 0 0 debugged_example"
    by (simp_all add: one_kind_def has_target_def example_pdds codes_example_def)
  from raise_is_reported [OF example_linked this r] show ?thesis .
qed

text \<open>
  C18. A debugger that queries and clears all enabled exceptions comes to an end: after at most one query for each queue, each device and the process there
  is none left, and the query says so.
\<close>

theorem queries_drain:
  assumes "pqm_inv (dp_pqm p)" "dp_trap_enabled p" "exception_enable_mask p AND NOT cm = 0"
    "length (pqm_queues (dp_pqm p)) + length (pdds (dp_pqm p)) + 1 < k"
  shows "\<exists>p1. drain k gpu cm p = Some p1 \<and> \<not> pending p1"
proof -
  have "pending_count p \<le> length (pqm_queues (dp_pqm p)) + length (pdds (dp_pqm p)) + 1"
    unfolding pending_count_def by (intro add_mono length_filter_le) simp
  with assms(4) have "pending_count p < k" by simp
  from drain_ends [OF pqm_inv_linked_nodes [OF assms(1)] assms(3) this assms(2)] show ?thesis .
qed

theorem queries_drain_witness: "\<exists>p1. drain 3 (\<lambda>_. 7) 0xFFF violated_example = Some p1 \<and> \<not> pending p1"
proof -
  have "dp_pqm violated_example = dp_pqm debugged_example" "dp_trap_enabled violated_example" "exception_enable_mask violated_example AND NOT 0xFFF = 0"
    by (simp_all add: violated_exc(1) write_exc_def debugged_example_def)
  with queries_drain [of violated_example "0xFFF" 3] example_linked example_pdds show ?thesis by simp
qed

text \<open>
  C20. The data of a memory violation never reach the debugger: \<^verbatim>\<open>kfd_dbg_ev_raise\<close> copies them but does not store their size, so that
  \<^verbatim>\<open>kfd_dbg_trap_query_exception_info\<close> copies and reports 0 bytes, in every reachable state.
\<close>

theorem violation_data_never_sent:
  assumes "dbg_reachable p" "\<not> EC_TYPE_IS_QUEUE ec (EC_DEVICE_MEMORY_VIOLATION ec)" "EC_TYPE_IS_DEVICE ec (EC_DEVICE_MEMORY_VIOLATION ec)"
    "kfd_dbg_trap_query_exception_info ec gpu rt source_id (EC_DEVICE_MEMORY_VIOLATION ec) c (Some info_size) copied p = (OK, (n, size_out), p1)"
  shows "n = 0 \<and> size_out = 0"
proof -
  have "vm_fault_exc_data_size (dp_exc p dev) = 0" for dev using dbg_reachable_no_data_size [OF assms(1)] by (simp add: no_data_size_def)
  with assms(2-4) show ?thesis by (auto simp: kfd_dbg_trap_query_exception_info_def Let_def split: option.splits if_splits)
qed

theorem violation_data_never_sent_witness:
  "case kfd_dbg_trap_query_exception_info codes_example (\<lambda>_. 7) 64 7 5 True (Some 100) True violated_example of
     (r, (n, _), _) \<Rightarrow> r = OK \<and> n = 0 \<and> vm_fault_exc_data (dp_exc violated_example 0) \<noteq> None"
proof -
  have r: "kfd_dbg_ev_raise codes_example 0x10 0 0 True (Some zero_memory_exception) debugged_example = (True, violated_example)"
    using violated_exc(2) unfolding violated_example_def by (metis prod.collapse)
  have "dbg_reachable debugged_example" by (rule dbg_reachable.init) (simp add: debugged_example_def)
  then have re: "dbg_reachable violated_example" using dbg_step.raise [OF r] by (rule dbg_reachable.step)
  have h: "\<not> EC_TYPE_IS_QUEUE codes_example (EC_DEVICE_MEMORY_VIOLATION codes_example)" "EC_TYPE_IS_DEVICE codes_example (EC_DEVICE_MEMORY_VIOLATION codes_example)"
    "EC_DEVICE_MEMORY_VIOLATION codes_example = 5" "EC_MASK codes_example 5 = 0x10" by (simp_all add: codes_example_def)
  have e: "dp_exc violated_example 0 = raise_device codes_example 0x10 (Some zero_memory_exception) (dp_exc debugged_example 0)"
    "pdds (dp_pqm violated_example) = [pdd_example]" by (simp_all add: violated_exc(1) write_exc_def example_pdds)
  have d: "vm_fault_exc_data (dp_exc violated_example 0) \<noteq> None" "pdd_exception_status (dp_exc violated_example 0) = 0x10"
    unfolding e by (simp_all add: raise_device_def codes_example_def debugged_example_def)
  obtain r n sz p1 where q: "kfd_dbg_trap_query_exception_info codes_example (\<lambda>_. 7) 64 7 5 True (Some 100) True violated_example = (r, (n, sz), p1)"
    by (metis prod_cases3 surj_pair)
  have "fst (kfd_dbg_trap_query_exception_info codes_example (\<lambda>_. 7) 64 7 5 True (Some 100) True violated_example) = OK"
    using h d(2) by (simp add: kfd_dbg_trap_query_exception_info_def e(2) example_pdds(2) Let_def)
  then have "r = OK" using q by simp
  with violation_data_never_sent [OF re h(1,2), of "\<lambda>_. 7" 64 7 True 100 True n sz p1] q h(3) d(1) show ?thesis by simp
qed

text \<open>
  C19. Watch points are exclusive: whatever the debuggers of the processes on a device set and clear, and whatever ids they give, a watch point is taken exactly
  when one process owns it, no two processes own the same, and there are four of them.
\<close>

theorem watch_ids_exclusive:
  assumes "watch_reachable s"
  shows "(\<forall>i. bit (kfd_alloc_watch_ids s) i \<longleftrightarrow> (\<exists>p. bit (alloc_watch_ids (wd_pdds s p)) i)) \<and>
    (\<forall>p q. p = q \<or> alloc_watch_ids (wd_pdds s p) AND alloc_watch_ids (wd_pdds s q) = 0) \<and> kfd_alloc_watch_ids s < 16"
proof -
  note d = watch_invD [OF watch_reachable_inv [OF assms]]
  have "alloc_watch_ids (wd_pdds s p) AND alloc_watch_ids (wd_pdds s q) = 0" if "p \<noteq> q" for p q
    using d(4) that by (intro bit_word_eqI) (auto simp: bit_simps)
  moreover have "take_bit 4 (kfd_alloc_watch_ids s) = kfd_alloc_watch_ids s" using d(1) by (intro bit_word_eqI) (auto simp: bit_simps)
  then have "unat (kfd_alloc_watch_ids s) < 2 ^ 4" by (metis take_bit_nat_less_exp unsigned_take_bit_eq)
  then have "kfd_alloc_watch_ids s < 16" by (simp add: word_less_nat_alt)
  ultimately show ?thesis using d(2,3) by blast
qed

theorem watch_ids_exclusive_witness:
  "let s1 = snd (snd (kfd_dbg_trap_set_dev_address_watch (watch_env_example OK) 1 0x1000 0 0 watch_example));
       s2 = snd (snd (kfd_dbg_trap_set_dev_address_watch (watch_env_example OK) 2 0x2000 0 0 s1))
   in kfd_alloc_watch_ids s2 = 3 \<and> alloc_watch_ids (wd_pdds s2 1) AND alloc_watch_ids (wd_pdds s2 2) = 0"
proof -
  define s1 where "s1 = snd (snd (kfd_dbg_trap_set_dev_address_watch (watch_env_example OK) 1 0x1000 0 0 watch_example))"
  define s2 where "s2 = snd (snd (kfd_dbg_trap_set_dev_address_watch (watch_env_example OK) 2 0x2000 0 0 s1))"
  have "watch_reachable watch_example" by (rule watch_reachable.init) (simp_all add: watch_example_def)
  then have "watch_reachable s1" unfolding s1_def by (rule watch_reachable.step) (rule set_step)
  then have "watch_reachable s2" unfolding s2_def by (rule watch_reachable.step) (rule set_step)
  moreover have "(1 :: nat) \<noteq> 2" by simp
  ultimately have x: "alloc_watch_ids (wd_pdds s2 1) AND alloc_watch_ids (wd_pdds s2 2) = 0" using watch_ids_exclusive [of s2] by blast
  have "kfd_alloc_watch_ids s2 = 3" unfolding s2_def s1_def by code_simp
  with x show ?thesis unfolding Let_def s1_def [symmetric] s2_def [symmetric] by simp
qed

end
