(* ===== verification/Spec2Isabelle.thy ===== *)
theory Spec2Isabelle
  imports Gtt_Sa Pasid Queue_Types Doorbell Kernel_Queue Dqm_State Pm4_Packets Packet_Manager Dqm_Resources
    Dqm_Asic Dqm_Counters Dqm_Nocpsch Dqm_Cpsch Dqm_Runlist Dqm_System Dqm_Evict Dqm_Failures Dqm_Reach
    Mqd_Manager Dqm_Links Process_Queue_Manager Pqm_Invariant Pqm_Properties
    Kfd_Events Events_Invariant Events_Reach Events_Properties Kfd_Interrupt Interrupt_Properties
    Flat_Memory Kfd_Process Process_Properties Debug_Queues
    Kfd_Debug Debug_Properties
begin

text \<open>
  Verification of the queue scheduling core of the AMD compute driver (\<^verbatim>\<open>src/kfd\<close>, with the functions of
  \<^verbatim>\<open>src/kfd_amdgpu\<close> it calls).

  \<^bold>\<open>The program.\<close> A process that computes on the GPU owns queues. The device queue manager
  (\<^verbatim>\<open>kfd_device_queue_manager.c\<close>) keeps the registered processes with their queues, gives each queue its hardware
  resources, counts the queues, and brings them onto the hardware in one of three ways: by writing
  hardware slots itself (\<^verbatim>\<open>*_nocpsch\<close>), by sending the hardware scheduler a runlist (\<^verbatim>\<open>*_cpsch\<close>), or by asking the MES
  firmware for single queues (\<^verbatim>\<open>*_mes\<close>). Runlists are built by the packet manager (\<^verbatim>\<open>kfd_packet_manager*.c\<close>) as PM4
  packets in a buffer from the GTT sub-allocator (\<^verbatim>\<open>kfd_device.c\<close>) and announced on a kernel queue, the HIQ
  (\<^verbatim>\<open>kfd_kernel_queue.c\<close>), whose doorbell comes from \<^verbatim>\<open>kfd_doorbell.c\<close>. Above the device queue managers, the process queue
  manager (\<^verbatim>\<open>kfd_process_queue_manager.c\<close>) gives the queues of a process their ids, over all of its devices, and registers the
  process with a manager while it has queues there. Events (\<^verbatim>\<open>kfd_events.c\<close>) tell threads of the process what happens on the
  GPU: an interrupt or the process signals an event, and the threads that wait for it go on. The interrupts arrive as ring entries, which
  a top half filters and a work queue decodes (\<^verbatim>\<open>kfd_interrupt.c\<close>, \<^verbatim>\<open>kfd_int_process_v*.c\<close>).

  \<^bold>\<open>The theories\<close>, in the order in which they build on each other:

  \<^item> \<open>Kfd_Prelude\<close>: result codes (\<open>retval\<close>, \<open>errno\<close>), bitmaps as bool lists with \<^verbatim>\<open>find_next_zero_bit\<close> and its
    relatives, word lemmas, and the collections the proofs use.
  \<^item> \<open>Gtt_Sa\<close>: \<^verbatim>\<open>kfd_gtt_sa_init/allocate/free\<close>. First fit, completeness, disjointness of live objects, round trip.
  \<^item> \<open>Pasid\<close>: \<^verbatim>\<open>kfd_pasid.c\<close> and the ID allocation of \<^verbatim>\<open>amdgpu_ids.c\<close>.
  \<^item> \<open>Queue_Types\<close>: the structures of \<^verbatim>\<open>kfd_priv.h\<close> for queues and processes; linked lists of queues are lists, the
    address of a queue is its field \<open>q_ptr\<close>, that of a process \<open>qpd_ptr\<close>.
  \<^item> \<open>Doorbell\<close>: \<^verbatim>\<open>kfd_doorbell.c\<close>: kernel and process doorbells, \<^verbatim>\<open>mmap\<close> of a process slice.
  \<^item> \<open>Kernel_Queue\<close>: \<^verbatim>\<open>kfd_kernel_queue.c\<close>: the packet ring as a FIFO with wrap-around, and the error exits of its
    initialisation.
  \<^item> \<open>Dqm_State\<close>: \<^verbatim>\<open>struct device_queue_manager\<close>, \<^verbatim>\<open>struct packet_manager\<close>, \<^verbatim>\<open>struct kfd_node\<close> and their queries.
  \<^item> \<open>Pm4_Packets\<close>: the packet builders of \<^verbatim>\<open>kfd_packet_manager_vi.c\<close> and \<^verbatim>\<open>kfd_packet_manager_v9.c\<close>, word by word. The
    locale \<open>pm4_table\<close> states what the packet manager relies on; all three tables interpret it.
  \<^item> \<open>Packet_Manager\<close>: \<^verbatim>\<open>kfd_packet_manager.c\<close>: size, allocation and contents of the runlist buffer, packets on the HIQ.
  \<^item> \<open>Resource_Pool\<close>, \<open>Dqm_Resources\<close>: a locale for pools of exclusive resources and its interpretations on SDMA
    queues, hardware slots, VMIDs and process doorbells.
  \<^item> \<open>Dqm_Asic\<close>: memory settings per hardware generation (\<^verbatim>\<open>kfd_device_queue_manager_{cik,vi,v9,v10,v11}.c\<close>).
  \<^item> \<open>Dqm_Counters\<close>: the queue counters, their invariant \<open>dqm_counts\<close>, and the locale \<open>process_operation\<close>: an
    operation on one process that keeps the accounts keeps the invariant of the manager.
  \<^item> \<open>Dqm_Nocpsch\<close>: the operations when the driver owns the slots; each interprets \<open>process_operation\<close>.
  \<^item> \<open>Dqm_Cpsch\<close>: the operations with a hardware scheduler or MES.
  \<^item> \<open>Dqm_Runlist\<close>: what mapping and unmapping change, who owns the runlist buffer, and that a refresh brings the
    schedule up to date.
  \<^item> \<open>Dqm_System\<close>, \<open>Dqm_Evict\<close>: the invariant \<open>dqm_inv\<close> of the manager (counters and flags) and that every operation of
    both policies keeps it.
  \<^item> \<open>Dqm_Failures\<close>: error paths that break it.
  \<^item> \<open>Dqm_Reach\<close>: the manager as a step relation, with start and stop and with a creation in the two parts between which it drops
    the lock; what holds in every reachable state, and which behaviours are no steps because they break it.
  \<^item> \<open>Mqd_Manager\<close>: \<^verbatim>\<open>kfd_mqd_manager.c\<close>: the assignment of a user's CU mask to shader engines, equal to a reference, and the
    buffer of the HIQ and SDMA descriptors.
  \<^item> \<open>Dqm_Links\<close>: the operations table of a manager and the locale \<open>queue_provider\<close>: which queues a manager holds for a
    process after a creation and a destruction. Both policies interpret it.
  \<^item> \<open>Process_Queue_Manager\<close>, \<open>Pqm_Invariant\<close>, \<open>Pqm_Properties\<close>: \<^verbatim>\<open>kfd_process_queue_manager.c\<close>; the invariant that ids, nodes
    and the queues of all managers agree; the process as a step relation in which other processes interfere; and
    error paths that break the invariant and are no steps.
  \<^item> \<open>Kfd_Events\<close>: \<^verbatim>\<open>kfd_events.c\<close>. Events have addresses, so that pointers to freed events can be told; \<^verbatim>\<open>kfd_wait_on_events\<close> is
    split where it gives up the mutex.
  \<^item> \<open>Events_Invariant\<close>, \<open>Events_Reach\<close>: the ids as a \<open>resource_pool\<close>; the invariants that waiters and queues, and ids, events
    and slots belong together; the handlers and the waiting threads as a step relation.
  \<^item> \<open>Events_Properties\<close>: no lost signals, the searches of the interrupt handler, round trips, dangling pointers.
  \<^item> \<open>Kfd_Interrupt\<close>: \<^verbatim>\<open>kfd_interrupt.c\<close>, \<^verbatim>\<open>kgd2kfd_interrupt\<close> and the handlers of the five interrupt classes. A handler gives the list of
    calls it makes; \<open>run_calls\<close> carries out those on events.
  \<^item> \<open>Interrupt_Properties\<close>: the locale \<open>lossy_fifo\<close>, interpreted on the FIFO of a node; which entries are queued; that the end of a kernel
    ends the wait for its event; where the generations differ by mistake.
  \<^item> \<open>Flat_Memory\<close>: \<^verbatim>\<open>kfd_flat_memory.c\<close>: the address ranges of a process on its devices do not overlap, and the loop that sets them up.
  \<^item> \<open>Kfd_Process\<close>, \<open>Process_Properties\<close>: eviction and restore of a process over all devices (\<^verbatim>\<open>kfd_process.c\<close>), the workers that call them; the
    locale \<open>pdd_operation\<close> relates the structure of the process before and after an operation of a manager, and is interpreted on
    eviction and restore of both policies. What each device answers (\<open>evict_codes\<close>, \<open>process_rollback_codes\<close>) decides the outcome.
  \<^item> \<open>Debug_Queues\<close>: \<^verbatim>\<open>suspend_queues\<close> and \<^verbatim>\<open>resume_queues\<close>, by which the debugger stops and continues the queues in an array; the locale \<open>array_operation\<close>,
    interpreted on both, carries what one device promises about the entries over all devices.
  \<^item> \<open>Kfd_Debug\<close>, \<open>Debug_Properties\<close>: exceptions and watch points of the debugger (\<^verbatim>\<open>kfd_debug.c\<close>): what is raised is reported, queries come to an end,
    and watch points are exclusive, both as step relations; and the data and ids where this goes wrong.

  \<^bold>\<open>Modelling conventions.\<close> Operations are functions on explicit state that return a code and the new state; \<open>Err e\<close> is
  \<^verbatim>\<open>-e\<close>. A null dereference or \<^verbatim>\<open>BUG_ON\<close> is \<open>Err OOPS\<close>. Machine integers are words of their width. Locks are not
  modelled, but where a function drops its lock it is split into the parts before and after. What the
  hardware, the firmware, the memory manager and the allocator answer is an argument (\<open>hw_env\<close>, \<open>kq_env\<close>, a flag
  for \<^verbatim>\<open>kzalloc\<close>). Register field positions come from headers that are not in the sources and are fields of
  \<open>sh_mem_regs\<close>. The loops that may run forever, those of \<^verbatim>\<open>process_termination_nocpsch\<close> and
  \<^verbatim>\<open>kfd_init_apertures\<close>, are partial functions; no fuel is used anywhere.

  \<^bold>\<open>Not modelled.\<close> Logging, debugfs and sysfs output; the layouts of MQDs, except for the activity flag they compute;
  creation, release and reference counting of processes, timeouts in jiffies, the copying of wave state to the debugger, attaching and detaching the debugger, shared virtual memory, topology, and the graphics driver: they are either
  output, or rest on kernel interfaces (mm notifiers, HMM, TTM) outside the sources.
\<close>

end
